(* ===== verification/SB_Prelude.thy ===== *)
theory SB_Prelude
  imports Main "HOL-Library.Word"
begin

unbundle bit_operations_syntax

text \<open>
  Shared vocabulary of the development: the fixed-width integer types of \<open>src/types.h\<close>, the
  alignment macros, little-endian access to byte memory, the linked-list insertion of
  \<open>src/list.h\<close>, and the generic lemmas on words and lists that the component theories use.
\<close>

section \<open>Integer types\<close>

type_synonym u8 = "8 word"
type_synonym u16 = "16 word"
type_synonym u32 = "32 word"
type_synonym u64 = "64 word"

text \<open>Collections the component theories extend: facts that turn word arithmetic into arithmetic
  on naturals, and facts on byte memory.\<close>

named_theorems word_nat \<open>facts that read word arithmetic as arithmetic on naturals\<close>
named_theorems mem_rw \<open>read-over-write facts for byte memory\<close>

declare word_le_nat_alt [word_nat] word_less_nat_alt [word_nat]

lemma unat_add_small [word_nat]:
  fixes a b :: "'a::len word"
  shows "unat a + unat b < 2 ^ LENGTH('a) \<Longrightarrow> unat (a + b) = unat a + unat b"
  by (simp add: unat_word_ariths)

lemma unat_sub_le [word_nat]:
  fixes a b :: "'a::len word"
  shows "unat b \<le> unat a \<Longrightarrow> unat (a - b) = unat a - unat b"
  by (simp add: unat_sub word_le_nat_alt)

lemma unat_sub_wrap:
  fixes a b :: "'a::len word"
  shows "unat a < unat b \<Longrightarrow> unat (a - b) = 2 ^ LENGTH('a) + unat a - unat b"
  using unat_sub_if' [of a b] by (simp add: not_le [symmetric])

lemma unat_bound: "unat (a :: 'a::len word) < 2 ^ LENGTH('a)"
  by (rule unsigned_less)

lemma unat_u8_bound: "unat (a :: u8) < 256"
  using unat_bound [of a] by simp

lemma unat_u16_bound: "unat (a :: u16) < 65536"
  using unat_bound [of a] by simp

lemma unat_u32_bound: "unat (a :: u32) < 4294967296"
  using unat_bound [of a] by simp

lemma unat_u64_bound: "unat (a :: u64) < 18446744073709551616"
  using unat_bound [of a] by simp

section \<open>Alignment macros of types.h\<close>

definition ALIGN_DOWN :: "'a::len word \<Rightarrow> 'a word \<Rightarrow> 'a word" where
  "ALIGN_DOWN x a = x AND NOT (a - 1)"

definition ALIGN :: "'a::len word \<Rightarrow> 'a word \<Rightarrow> 'a word" where
  "ALIGN x a = (x + (a - 1)) AND NOT (a - 1)"

definition pow2 :: "'a::len word \<Rightarrow> bool" where
  "pow2 a \<longleftrightarrow> (\<exists>k < LENGTH('a). a = 2 ^ k)"

lemma and_not_mask_unat:
  fixes x :: "'a::len word"
  shows "unat (x AND NOT (mask k)) = unat x - unat x mod 2 ^ k"
proof -
  have split: "take_bit k x + (x AND NOT (mask k)) = x"
    by (subst disjunctive_add_eq_or) (auto simp: bit_eq_iff bit_simps)
  have le: "take_bit k x \<le> x"
    by (simp add: word_le_nat_alt unsigned_take_bit_eq take_bit_nat_less_eq_self)
  have "x AND NOT (mask k) = x - take_bit k x"
    using split by (metis add_diff_cancel_left')
  then show ?thesis
    using le by (simp add: unat_sub unsigned_take_bit_eq) (simp add: take_bit_eq_mod)
qed

lemma pow2_minus_one:
  "k < LENGTH('a) \<Longrightarrow> (2 ^ k :: 'a::len word) - 1 = mask k"
  by (simp add: mask_eq_decr_exp)

lemma unat_pow2: "k < LENGTH('a) \<Longrightarrow> unat (2 ^ k :: 'a::len word) = 2 ^ k"
  by transfer (simp add: take_bit_eq_mod nat_power_eq)

lemma ALIGN_DOWN_unat:
  fixes x a :: "'a::len word"
  assumes "pow2 a"
  shows "unat (ALIGN_DOWN x a) = unat x - unat x mod unat a"
proof -
  obtain k where k: "k < LENGTH('a)" "a = 2 ^ k"
    using assms by (auto simp: pow2_def)
  then show ?thesis
    by (simp add: ALIGN_DOWN_def pow2_minus_one and_not_mask_unat unat_pow2)
qed

lemma pow2_pos: "pow2 a \<Longrightarrow> 0 < unat (a :: 'a::len word)"
  by (auto simp: pow2_def unat_pow2)

lemma ALIGN_DOWN_dvd: "pow2 a \<Longrightarrow> unat a dvd unat (ALIGN_DOWN x a)"
  by (simp add: ALIGN_DOWN_unat dvd_minus_mod)

lemma ALIGN_DOWN_le: "pow2 a \<Longrightarrow> unat (ALIGN_DOWN x a) \<le> unat x"
  by (simp add: ALIGN_DOWN_unat)

lemma ALIGN_DOWN_gt: "pow2 a \<Longrightarrow> unat x < unat (ALIGN_DOWN x a) + unat a"
  using pow2_pos [of a] mod_less_divisor [of "unat a" "unat x"] mod_less_eq_dividend [of "unat x" "unat a"]
  unfolding ALIGN_DOWN_unat by linarith

lemma ALIGN_dvd:
  fixes x a :: "'a::len word"
  assumes "pow2 a" shows "unat a dvd unat (ALIGN x a)"
  using ALIGN_DOWN_dvd [OF assms, of "x + (a - 1)"] by (simp add: ALIGN_def ALIGN_DOWN_def)

lemma ALIGN_ge:
  fixes x a :: "'a::len word"
  assumes "pow2 a" "unat x + unat a \<le> 2 ^ LENGTH('a)"
  shows "unat x \<le> unat (ALIGN x a)" "unat a dvd unat (ALIGN x a)" "unat (ALIGN x a) < unat x + unat a"
proof -
  have a1: "unat (a - 1) = unat a - 1"
    using pow2_pos [OF assms(1)] by (simp add: unat_sub_le)
  have sum: "unat (x + (a - 1)) = unat x + unat a - 1"
    using assms pow2_pos [OF assms(1)] by (simp add: unat_add_small a1)
  have eq: "ALIGN x a = ALIGN_DOWN (x + (a - 1)) a" by (simp add: ALIGN_def ALIGN_DOWN_def)
  show "unat x \<le> unat (ALIGN x a)"
    using ALIGN_DOWN_gt [OF assms(1), of "x + (a - 1)"] sum by (simp add: eq)
  show "unat a dvd unat (ALIGN x a)" using ALIGN_DOWN_dvd [OF assms(1)] by (simp add: eq)
  show "unat (ALIGN x a) < unat x + unat a"
    using ALIGN_DOWN_le [OF assms(1), of "x + (a - 1)"] sum pow2_pos [OF assms(1)] by (simp add: eq)
qed


section \<open>Linked lists of list.h\<close>

text \<open>
  An \<open>hlist\<close> is the list of its entries from \<open>head->first\<close> on. The loop
  \<open>hlist_for_each_entry_pprev (pos, pprev, head, node) if (stop) break;\<close> followed by
  \<open>hlist_add (&new->node, pprev)\<close> puts the new entry before the first one at which the
  loop stops, or at the end.
\<close>

fun hlist_insert :: "('a \<Rightarrow> bool) \<Rightarrow> 'a \<Rightarrow> 'a list \<Rightarrow> 'a list" where
  "hlist_insert stop x [] = [x]"
| "hlist_insert stop x (y # ys) = (if stop y then x # y # ys else y # hlist_insert stop x ys)"

lemma hlist_insert_eq:
  "hlist_insert stop x ys = takeWhile (\<lambda>y. \<not> stop y) ys @ x # dropWhile (\<lambda>y. \<not> stop y) ys"
  by (induction ys) auto

lemma set_hlist_insert [simp]: "set (hlist_insert stop x ys) = insert x (set ys)"
  by (induction ys) auto

lemma length_hlist_insert [simp]: "length (hlist_insert stop x ys) = Suc (length ys)"
  by (induction ys) auto

lemma filter_hlist_insert:
  "\<not> P x \<Longrightarrow> filter P (hlist_insert stop x ys) = filter P ys"
  by (induction ys) auto

text \<open>The contract of the insertions that keep a list sorted: \<open>stop x y\<close> is the break
  condition when \<open>x\<close> is being added and the loop is at \<open>y\<close>.\<close>

locale sorted_hlist =
  fixes stop :: "'a \<Rightarrow> 'a \<Rightarrow> bool" and ord :: "'a \<Rightarrow> 'a \<Rightarrow> bool"
  assumes stop_ord: "stop x y \<Longrightarrow> ord x y"
    and go_ord: "\<not> stop x y \<Longrightarrow> ord y x"
    and ord_trans: "ord x y \<Longrightarrow> ord y z \<Longrightarrow> ord x z"
begin

lemma insert_sorted:
  "sorted_wrt ord ys \<Longrightarrow> sorted_wrt ord (hlist_insert (stop x) x ys)"
proof (induction ys)
  case Nil
  then show ?case by simp
next
  case (Cons y ys)
  show ?case
  proof (cases "stop x y")
    case True
    with Cons.prems show ?thesis by (auto intro: stop_ord ord_trans)
  next
    case False
    with Cons show ?thesis by (auto intro: go_ord)
  qed
qed

text \<open>Entries inserted one after the other.\<close>

fun insert_all :: "'a list \<Rightarrow> 'a list \<Rightarrow> 'a list" where
  "insert_all [] ys = ys"
| "insert_all (x # xs) ys = insert_all xs (hlist_insert (stop x) x ys)"

lemma insert_all_sorted: "sorted_wrt ord ys \<Longrightarrow> sorted_wrt ord (insert_all xs ys)"
  by (induction xs arbitrary: ys) (auto intro: insert_sorted)

lemma set_insert_all: "set (insert_all xs ys) = set xs \<union> set ys"
  by (induction xs arbitrary: ys) auto

end

section \<open>Byte memory\<close>

text \<open>Memory is a function from addresses to bytes; 16-, 32- and 64-bit accesses are
  little-endian, as on the x86 the program runs on.\<close>

definition rd16 :: "('a::len word \<Rightarrow> u8) \<Rightarrow> 'a word \<Rightarrow> u16" where
  "rd16 m a = ucast (m a) OR push_bit 8 (ucast (m (a + 1)))"

definition wr16 :: "'a::len word \<Rightarrow> u16 \<Rightarrow> ('a word \<Rightarrow> u8) \<Rightarrow> ('a word \<Rightarrow> u8)" where
  "wr16 a v m = m(a := ucast v, a + 1 := ucast (drop_bit 8 v))"

lemma rd16_wr16_same [mem_rw, simp]:
  "rd16 (wr16 a v m) (a :: 'a::len word) = v"
  by (rule bit_word_eqI) (auto simp: rd16_def wr16_def bit_simps)

lemma rd16_wr16_other [mem_rw]:
  "b \<noteq> a \<Longrightarrow> b \<noteq> a + 1 \<Longrightarrow> a \<noteq> b + 1 \<Longrightarrow> rd16 (wr16 a v m) (b :: 'a::len word) = rd16 m b"
  by (auto simp: rd16_def wr16_def)

end
