(* ===== verification/E820map.thy ===== *)
theory E820map
  imports SB_Prelude
begin

text \<open>
  The e820 memory map of \<open>src/e820map.c\<close>: a bounded array of typed address ranges, which
  \<open>e820_add\<close> keeps sorted, disjoint and merged. The array \<open>e820_list\<close> with its counter
  \<open>e820_count\<close> is the list of the first \<open>e820_count\<close> entries; the entries behind the counter
  are never read. The debug output (\<open>dprintf\<close>, \<open>dump_map\<close>) and the warning of
  \<open>warn_noalloc\<close> are not modelled. The abstract view is \<open>e820_type_at\<close>, the type that the map
  gives to an address.
\<close>

section \<open>Data\<close>

definition BUILD_MAX_E820 :: nat where "BUILD_MAX_E820 = 32"

definition E820_RAM :: u32 where "E820_RAM = 1"
definition E820_RESERVED :: u32 where "E820_RESERVED = 2"
definition E820_ACPI :: u32 where "E820_ACPI = 3"
definition E820_NVS :: u32 where "E820_NVS = 4"
definition E820_UNUSABLE :: u32 where "E820_UNUSABLE = 5"
definition E820_HOLE :: u32 where "E820_HOLE = - 1"

lemmas e820_type_defs = E820_RAM_def E820_RESERVED_def E820_ACPI_def E820_NVS_def
  E820_UNUSABLE_def E820_HOLE_def

record e820entry =
  e_start :: u64
  e_size :: u64
  e_type :: u32

definition e820_end :: "e820entry \<Rightarrow> u64" where
  "e820_end e = e_start e + e_size e"

section \<open>Operations\<close>

definition remove_e820 :: "nat \<Rightarrow> e820entry list \<Rightarrow> e820entry list" where
  "remove_e820 i es = take i es @ drop (Suc i) es"

definition insert_e820 ::
    "nat \<Rightarrow> u64 \<Rightarrow> u64 \<Rightarrow> u32 \<Rightarrow> e820entry list \<Rightarrow> e820entry list" where
  "insert_e820 i start sz type es =
     (if BUILD_MAX_E820 \<le> length es then es
      else take i es @ [\<lparr>e_start = start, e_size = sz, e_type = type\<rparr>] @ drop i es)"

definition e820_type_name :: "u32 \<Rightarrow> string" where
  "e820_type_name type =
     (if type = E820_RAM then ''RAM''
      else if type = E820_RESERVED then ''RESERVED''
      else if type = E820_ACPI then ''ACPI''
      else if type = E820_NVS then ''NVS''
      else if type = E820_UNUSABLE then ''UNUSABLE''
      else ''UNKNOWN'')"

text \<open>The first loop of \<open>e820_add\<close>: the index of the first entry that does not end before
  \<open>start\<close>.\<close>

function e820_find :: "e820entry list \<Rightarrow> u64 \<Rightarrow> nat \<Rightarrow> nat" where
  "e820_find es start i =
     (if i < length es
      then if start > e820_end (es ! i) then e820_find es start (Suc i) else i
      else i)"
  by pat_completeness auto
termination
  by (relation "measure (\<lambda>(es, start, i). length es - i)") auto

text \<open>What that loop does at the position it found: merge the new range with an entry of the
  same type that starts before it, or split an entry of another type.\<close>

definition e820_place ::
    "e820entry list \<Rightarrow> nat \<Rightarrow> u64 \<Rightarrow> u64 \<Rightarrow> u32 \<Rightarrow> u64 \<Rightarrow> e820entry list \<times> nat \<times> u64 \<times> u64" where
  "e820_place es i start sz type lim =
     (if i < length es then
        let e = es ! i; e_end = e820_end e in
        if start > e_start e then
          if type = e_type e then (es, i, e_start e, sz + (start - e_start e))
          else
            let es' = es[i := e\<lparr>e_size := start - e_start e\<rparr>] in
            (if e_end > lim then insert_e820 (Suc i) lim (e_end - lim) (e_type e) es' else es',
             Suc i, start, sz)
        else (es, i, start, sz)
      else (es, i, start, sz))"

text \<open>The second loop: remove the entries that the new range covers, cut the one it overlaps.\<close>

function e820_trim ::
    "e820entry list \<Rightarrow> nat \<Rightarrow> u64 \<Rightarrow> u32 \<Rightarrow> u64 \<Rightarrow> e820entry list \<times> u64" where
  "e820_trim es i lim type sz =
     (if i < length es then
        let e = es ! i; e_end = e820_end e in
        if lim < e_start e then (es, sz)
        else if lim \<ge> e_end then e820_trim (remove_e820 i es) i lim type sz
        else
          let e' = e\<lparr>e_start := lim, e_size := e_end - lim\<rparr> in
          if type = e_type e' then (remove_e820 i (es[i := e']), sz + e_size e')
          else (es[i := e'], sz)
      else (es, sz))"
  by pat_completeness auto
termination
  by (relation "measure (\<lambda>(es, i, lim, type, sz). length es - i)")
    (auto simp: remove_e820_def)

definition e820_add :: "u64 \<Rightarrow> u64 \<Rightarrow> u32 \<Rightarrow> e820entry list \<Rightarrow> e820entry list" where
  "e820_add start sz type es =
     (if sz = 0 then es
      else
        let lim = start + sz;
            i = e820_find es start 0;
            (es1, i1, start1, sz1) = e820_place es i start sz type lim;
            (es2, sz2) = e820_trim es1 i1 lim type sz1
        in if type \<noteq> E820_HOLE then insert_e820 i1 start1 sz2 type es2 else es2)"

definition e820_remove :: "u64 \<Rightarrow> u64 \<Rightarrow> e820entry list \<Rightarrow> e820entry list" where
  "e820_remove start sz es = e820_add start sz E820_HOLE es"

declare e820_find.simps [simp del] e820_trim.simps [simp del]

section \<open>Abstract view and well-formedness\<close>

definition e820_covers :: "e820entry \<Rightarrow> u64 \<Rightarrow> bool" where
  "e820_covers e a \<longleftrightarrow> e_start e \<le> a \<and> a < e820_end e"

definition e820_type_at :: "e820entry list \<Rightarrow> u64 \<Rightarrow> u32 option" where
  "e820_type_at es a = map_option e_type (find (\<lambda>e. e820_covers e a) es)"

text \<open>A stored entry is not empty and does not wrap around the end of the address space (a word
  sum is above its first summand exactly then), and is not a hole.\<close>

definition e820_ok :: "e820entry \<Rightarrow> bool" where
  "e820_ok e \<longleftrightarrow> e_start e < e820_end e \<and> e_type e \<noteq> E820_HOLE"

text \<open>Two entries in map order: the first ends before the second starts, and where they touch
  their types differ (otherwise they would have been merged).\<close>

definition e820_before :: "e820entry \<Rightarrow> e820entry \<Rightarrow> bool" where
  "e820_before e f \<longleftrightarrow> e820_end e \<le> e_start f \<and>
     (e820_end e = e_start f \<longrightarrow> e_type e \<noteq> e_type f)"

definition e820_wf :: "e820entry list \<Rightarrow> bool" where
  "e820_wf es \<longleftrightarrow> list_all e820_ok es \<and> sorted_wrt e820_before es"


lemma e820_wf_simps [simp]:
  "e820_wf []"
  "e820_wf (e # es) \<longleftrightarrow> e820_ok e \<and> (\<forall>f \<in> set es. e820_before e f) \<and> e820_wf es"
  by (auto simp: e820_wf_def)

lemma e820_wf_append:
  "e820_wf (xs @ ys) \<longleftrightarrow>
     e820_wf xs \<and> e820_wf ys \<and> (\<forall>x \<in> set xs. \<forall>y \<in> set ys. e820_before x y)"
  by (auto simp: e820_wf_def sorted_wrt_append)

lemma e820_wf_ok: "e820_wf es \<Longrightarrow> e \<in> set es \<Longrightarrow> e820_ok e"
  by (auto simp: e820_wf_def list_all_iff)

lemma e820_type_at_Cons [simp]:
  "e820_type_at [] a = None"
  "e820_type_at (e # es) a = (if e820_covers e a then Some (e_type e) else e820_type_at es a)"
  by (simp_all add: e820_type_at_def)

lemma e820_type_at_append:
  "e820_type_at (xs @ ys) a =
     (case e820_type_at xs a of None \<Rightarrow> e820_type_at ys a | Some t \<Rightarrow> Some t)"
  by (induction xs) auto

lemma e820_type_at_below: "\<forall>f \<in> set es. a < e_start f \<Longrightarrow> e820_type_at es a = None"
  by (induction es) (auto simp: e820_covers_def)

lemma e820_type_at_above: "\<forall>f \<in> set es. e820_end f \<le> a \<Longrightarrow> e820_type_at es a = None"
  by (induction es) (auto simp: e820_covers_def)

lemma e820_end_simps [simp]:
  "e820_end \<lparr>e_start = s, e_size = z, e_type = t\<rparr> = s + z"
  "e820_end (e\<lparr>e_start := s, e_size := z\<rparr>) = s + z"
  "e820_end (e\<lparr>e_size := z\<rparr>) = e_start e + z"
  by (simp_all add: e820_end_def)

text \<open>No wrap-around, read on naturals.\<close>

lemma no_wrap_iff:
  fixes s z :: "'a::len word"
  shows "s < s + z \<longleftrightarrow> z \<noteq> 0 \<and> unat s + unat z < 2 ^ LENGTH('a)"
proof (cases "unat s + unat z < 2 ^ LENGTH('a)")
  case True
  then show ?thesis
    by (simp add: word_less_nat_alt unat_add_small unat_gt_0)
next
  case False
  define M where "M = (2 :: nat) ^ LENGTH('a)"
  have "unat s < M" "unat z < M" "M \<le> unat s + unat z"
    using False unat_bound [of s] unat_bound [of z] by (auto simp: M_def)
  then have "(unat s + unat z) mod M < unat s"
    by (simp add: le_mod_geq)
  then have "s + z < s"
    by (simp add: word_less_nat_alt unat_word_ariths M_def)
  with False show ?thesis by auto
qed

section \<open>The two loops in structural form\<close>

lemma e820_find_eq:
  "i \<le> length es \<Longrightarrow>
     e820_find es start i = i + length (takeWhile (\<lambda>e. e820_end e < start) (drop i es))"
proof (induction es start i rule: e820_find.induct)
  case (1 es start i)
  show ?case
  proof (cases "i < length es")
    case True
    then have "drop i es = es ! i # drop (Suc i) es"
      by (rule Cons_nth_drop_Suc [symmetric])
    with True 1 show ?thesis
      by (simp add: e820_find.simps [of es start i])
  next
    case False
    with 1 show ?thesis by (subst e820_find.simps) simp
  qed
qed

fun e820_trim_rest :: "u64 \<Rightarrow> u32 \<Rightarrow> e820entry list \<Rightarrow> e820entry list \<times> u64" where
  "e820_trim_rest lim t [] = ([], 0)"
| "e820_trim_rest lim t (e # rs) =
     (if lim < e_start e then (e # rs, 0)
      else if e820_end e \<le> lim then e820_trim_rest lim t rs
      else if t = e_type e then (rs, e820_end e - lim)
      else (e\<lparr>e_start := lim, e_size := e820_end e - lim\<rparr> # rs, 0))"

lemma e820_trim_eq:
  "e820_trim (ls @ rs) (length ls) lim t sz =
     (ls @ fst (e820_trim_rest lim t rs), sz + snd (e820_trim_rest lim t rs))"
proof (induction rs)
  case Nil
  show ?case by (simp add: e820_trim.simps)
next
  case (Cons e rs)
  have rm: "remove_e820 (length ls) (ls @ f # rs) = ls @ rs" for f
    by (simp add: remove_e820_def)
  show ?case
    using Cons.IH
    by (subst e820_trim.simps) (auto simp: Let_def rm not_less not_le)
qed

lemma e820_trim_rest_spec:
  assumes "e820_wf rs" "e820_trim_rest lim t rs = (rs', d)"
  shows "e820_wf rs' \<and> length rs' \<le> length rs \<and> lim \<le> lim + d \<and>
     (\<forall>f \<in> set rs'. lim + d \<le> e_start f \<and> (lim + d = e_start f \<longrightarrow> e_type f \<noteq> t)) \<and>
     (\<forall>a. lim \<le> a \<and> a < lim + d \<longrightarrow> e820_type_at rs a = Some t) \<and>
     (\<forall>a. lim + d \<le> a \<longrightarrow> e820_type_at rs' a = e820_type_at rs a)"
  using assms
proof (induction rs)
  case Nil
  then show ?case by auto
next
  case (Cons e rs)
  consider (before) "lim < e_start e"
    | (covered) "e_start e \<le> lim" "e820_end e \<le> lim"
    | (merge) "e_start e \<le> lim" "lim < e820_end e" "t = e_type e"
    | (cut) "e_start e \<le> lim" "lim < e820_end e" "t \<noteq> e_type e"
    by fastforce
  then show ?case
  proof cases
    case before
    then have "e820_trim_rest lim t (e # rs) = (e # rs, 0)" by simp
    with Cons.prems before show ?thesis
      by (fastforce simp: e820_before_def e820_ok_def)
  next
    case covered
    then have "e820_trim_rest lim t (e # rs) = e820_trim_rest lim t rs" by auto
    with Cons covered show ?thesis
      by (auto simp: e820_covers_def)
  next
    case merge
    then have "e820_trim_rest lim t (e # rs) = (rs, e820_end e - lim)" by auto
    with Cons.prems have "rs' = rs" "d = e820_end e - lim" by simp_all
    with Cons.prems merge show ?thesis
      by (auto simp: e820_before_def e820_covers_def)
  next
    case cut
    then have "e820_trim_rest lim t (e # rs) =
        (e\<lparr>e_start := lim, e_size := e820_end e - lim\<rparr> # rs, 0)" by auto
    with Cons.prems have "rs' = e\<lparr>e_start := lim, e_size := e820_end e - lim\<rparr> # rs" "d = 0"
      by simp_all
    with Cons.prems cut show ?thesis
      by (auto simp: e820_before_def e820_covers_def e820_ok_def)
  qed
qed


lemma e820_trim_rest_hole:
  "e820_wf rs \<Longrightarrow> snd (e820_trim_rest lim E820_HOLE rs) = 0"
  by (induction rs) (auto simp: e820_ok_def)

section \<open>Assembling the new map\<close>

text \<open>The final list: the entries \<open>ls\<close> left of the new range, the new range unless it is a hole,
  and what the trimming leaves of the entries \<open>rs\<close> on its right.\<close>

lemma e820_assemble:
  assumes wf: "e820_wf ls" "e820_wf rs"
    and left: "\<forall>x \<in> set ls. e820_end x \<le> s \<and> (e820_end x = s \<longrightarrow> e_type x \<noteq> t)"
    and right: "\<forall>y \<in> set rs. s \<le> e_start y"
    and lim: "s < lim" and tr: "e820_trim_rest lim t rs = (rs', d)"
    and mid: "mid = (if t \<noteq> E820_HOLE then [\<lparr>e_start = s, e_size = lim - s + d, e_type = t\<rparr>] else [])"
  shows "e820_wf (ls @ mid @ rs')"
    and "e820_type_at (ls @ mid @ rs') a =
       (if s \<le> a \<and> a < lim then (if t = E820_HOLE then None else Some t)
        else e820_type_at (ls @ rs) a)"
proof -
  note T = e820_trim_rest_spec [OF wf(2) tr]
  have d0: "t = E820_HOLE \<Longrightarrow> d = 0"
    using e820_trim_rest_hole [OF wf(2), of lim] tr by auto
  have new_end: "s + (lim - s + d) = lim + d" by simp
  have lt: "s < lim + d" using lim T by auto
  show "e820_wf (ls @ mid @ rs')"
  proof (cases "t = E820_HOLE")
    case True
    with wf T left lim d0 show ?thesis
      by (fastforce simp: mid e820_wf_append e820_before_def)
  next
    case False
    have "e820_ok \<lparr>e_start = s, e_size = lim - s + d, e_type = t\<rparr>"
      using False lt by (simp add: e820_ok_def)
    moreover have "\<forall>x \<in> set ls. \<forall>y \<in> set rs'. e820_before x y"
      using left T lt by (fastforce simp: e820_before_def)
    ultimately show ?thesis
      using False wf T left by (auto simp: mid e820_wf_append e820_before_def)
  qed
  have L: "e820_type_at ls a = None" if "s \<le> a"
    using that left by (intro e820_type_at_above) force
  have R: "e820_type_at rs a = None" if "a < s"
    using that right by (intro e820_type_at_below) force
  have R': "e820_type_at rs' a = None" if "a < lim + d"
    using that T by (intro e820_type_at_below) force
  consider "a < s" | "s \<le> a" "a < lim" | "lim \<le> a" "a < lim + d" | "lim + d \<le> a"
    by fastforce
  then show "e820_type_at (ls @ mid @ rs') a =
       (if s \<le> a \<and> a < lim then (if t = E820_HOLE then None else Some t)
        else e820_type_at (ls @ rs) a)"
  proof cases
    case 1
    with R R' lt show ?thesis
      by (auto simp: mid e820_type_at_append e820_covers_def split: option.split)
  next
    case 2
    with T have "a < lim + d" by auto
    with 2 L R' show ?thesis
      by (auto simp: mid e820_type_at_append e820_covers_def)
  next
    case 3
    with T have "e820_type_at rs a = Some t" by blast
    moreover have "t \<noteq> E820_HOLE" using 3 d0 by auto
    ultimately show ?thesis using 3 L R' lim
      by (auto simp: mid e820_type_at_append e820_covers_def)
  next
    case 4
    with T have "e820_type_at rs' a = e820_type_at rs a" by blast
    with 4 L lt T show ?thesis
      by (auto simp: mid e820_type_at_append e820_covers_def)
  qed
qed


text \<open>The state the second loop starts from: the list that \<open>e820_place\<close> returns, split at the
  position it returns.\<close>

lemma e820_place_split:
  assumes wf: "e820_wf es" and range: "s < lim" and room: "length es < BUILD_MAX_E820"
  obtains ls rs s1 where
    "e820_place es (e820_find es s 0) s sz t lim = (ls @ rs, length ls, s1, sz + (s - s1))"
    "s1 \<le> s" "e820_wf ls" "e820_wf rs" "length (ls @ rs) \<le> length es + 1"
    "\<forall>x \<in> set ls. e820_end x \<le> s1 \<and> (e820_end x = s1 \<longrightarrow> e_type x \<noteq> t)"
    "\<forall>y \<in> set rs. s1 \<le> e_start y"
    "\<forall>a. s1 \<le> a \<and> a < s \<longrightarrow> e820_type_at es a = Some t"
    "\<forall>a. \<not> (s \<le> a \<and> a < lim) \<longrightarrow> e820_type_at (ls @ rs) a = e820_type_at es a"
proof -
  define xs where "xs = takeWhile (\<lambda>e. e820_end e < s) es"
  define ys where "ys = dropWhile (\<lambda>e. e820_end e < s) es"
  have es: "es = xs @ ys" by (simp add: xs_def ys_def)
  have pos: "e820_find es s 0 = length xs"
    by (simp add: e820_find_eq xs_def)
  have xs_end: "\<forall>x \<in> set xs. e820_end x < s"
    by (auto simp: xs_def dest: set_takeWhileD)
  have wfs: "e820_wf xs" "e820_wf ys" "\<forall>x \<in> set xs. \<forall>y \<in> set ys. e820_before x y"
    using wf by (auto simp: es e820_wf_append)
  show thesis
  proof (cases ys)
    case Nil
    then have "e820_place es (length xs) s sz t lim = (es, length xs, s, sz)"
      by (simp add: es e820_place_def)
    then show thesis
      using wfs xs_end Nil pos
      by (intro that [of xs "[]" s]) (auto simp: es)
  next
    case (Cons e zs)
    have e_end: "s \<le> e820_end e"
      using Cons hd_dropWhile [of "\<lambda>e. e820_end e < s" es] by (auto simp: ys_def)
    have e_ok: "e_start e < e820_end e" "e_type e \<noteq> E820_HOLE"
      and zs: "\<forall>f \<in> set zs. e820_before e f" "e820_wf zs"
      using wfs(2) by (auto simp: Cons e820_ok_def)
    have nth: "length xs < length es" "es ! length xs = e"
      by (simp_all add: es Cons)
    consider (at) "s \<le> e_start e" | (same) "e_start e < s" "t = e_type e"
      | (diff) "e_start e < s" "t \<noteq> e_type e"
      by fastforce
    then show thesis
    proof cases
      case at
      then have "e820_place es (length xs) s sz t lim = (es, length xs, s, sz)"
        by (auto simp: e820_place_def nth Let_def)
      moreover have "s \<le> e_start y" if "y \<in> set ys" for y
      proof -
        have "e_start e \<le> e_start y"
          using that zs e_ok by (auto simp: Cons e820_before_def)
        with at show ?thesis by simp
      qed
      ultimately show thesis
        using wfs xs_end by (intro that [of xs ys s]) (auto simp: pos simp flip: es)
    next
      case same
      then have "e820_place es (length xs) s sz t lim = (es, length xs, e_start e, sz + (s - e_start e))"
        by (simp add: e820_place_def nth Let_def)
      moreover have "e820_type_at es a = Some t" if "e_start e \<le> a" "a < s" for a
      proof -
        have "e820_type_at xs a = None"
          using wfs(3) that by (intro e820_type_at_above) (force simp: Cons e820_before_def)
        then show ?thesis
          using that same e_end by (auto simp: es Cons e820_type_at_append e820_covers_def)
      qed
      moreover have "e_start e \<le> e_start y" if "y \<in> set ys" for y
        using that zs e_ok by (auto simp: Cons e820_before_def)
      moreover have "e820_end x \<le> e_start e \<and> (e820_end x = e_start e \<longrightarrow> e_type x \<noteq> t)"
        if "x \<in> set xs" for x
        using that wfs(3) same by (auto simp: Cons e820_before_def)
      ultimately show thesis
        using wfs same by (intro that [of xs ys "e_start e"]) (auto simp: pos simp flip: es)
    next
      case diff
      define e1 where "e1 = e\<lparr>e_size := s - e_start e\<rparr>"
      define e2 where "e2 = \<lparr>e_start = lim, e_size = e820_end e - lim, e_type = e_type e\<rparr>"
      define rs where "rs = (if e820_end e > lim then e2 # zs else zs)"
      have parts: "e_start e1 = e_start e" "e820_end e1 = s" "e_type e1 = e_type e"
          "e_start e2 = lim" "e820_end e2 = e820_end e" "e_type e2 = e_type e"
        by (simp_all add: e1_def e2_def)
      have "e820_place es (length xs) s sz t lim = ((xs @ [e1]) @ rs, length (xs @ [e1]), s, sz)"
        using diff nth room
        by (simp add: e820_place_def Let_def es Cons rs_def insert_e820_def e1_def e2_def)
      moreover have "e820_wf (xs @ [e1])"
        using wfs(1,3) diff e_ok by (auto simp: Cons e820_wf_append e820_before_def e820_ok_def parts)
      moreover have "e820_wf rs"
        using zs diff e_ok by (auto simp: rs_def e820_before_def e820_ok_def parts)
      moreover have "s \<le> e_start y" if "y \<in> set rs" for y
      proof -
        have "y = e2 \<or> e820_end e \<le> e_start y"
          using that zs by (auto simp: rs_def e820_before_def split: if_splits)
        with e_end range show ?thesis by (auto simp: parts)
      qed
      moreover have "e820_type_at (xs @ [e1] @ rs) a = e820_type_at es a"
        if "\<not> (s \<le> a \<and> a < lim)" for a
      proof -
        have "e820_covers e a \<longleftrightarrow> e820_covers e1 a \<or> (lim < e820_end e \<and> e820_covers e2 a)"
          using that diff e_end range by (auto simp: e820_covers_def parts)
        then show ?thesis
          by (auto simp: es Cons rs_def e820_type_at_append parts split: option.split)
      qed
      moreover have "\<forall>x \<in> set (xs @ [e1]). e820_end x \<le> s \<and> (e820_end x = s \<longrightarrow> e_type x \<noteq> t)"
        using diff xs_end by (auto simp: parts)
      moreover have "length ((xs @ [e1]) @ rs) \<le> length es + 1"
        by (simp add: es Cons rs_def)
      ultimately show thesis
        by (intro that [of "xs @ [e1]" rs s]) (auto simp: pos)
    qed
  qed
qed


section \<open>Correctness of e820_add\<close>

lemma e820_add_correct:
  assumes wf: "e820_wf es" and range: "s < s + sz" and room: "length es + 2 \<le> BUILD_MAX_E820"
  shows "e820_wf (e820_add s sz t es) \<and> length (e820_add s sz t es) \<le> length es + 2 \<and>
    e820_type_at (e820_add s sz t es) a =
      (if s \<le> a \<and> a < s + sz then (if t = E820_HOLE then None else Some t)
       else e820_type_at es a)"
proof -
  obtain ls rs s1 where
    place: "e820_place es (e820_find es s 0) s sz t (s + sz) = (ls @ rs, length ls, s1, sz + (s - s1))"
    and s1: "s1 \<le> s" and wfs: "e820_wf ls" "e820_wf rs" and len: "length (ls @ rs) \<le> length es + 1"
    and left: "\<forall>x \<in> set ls. e820_end x \<le> s1 \<and> (e820_end x = s1 \<longrightarrow> e_type x \<noteq> t)"
    and right: "\<forall>y \<in> set rs. s1 \<le> e_start y"
    and old: "\<forall>a. s1 \<le> a \<and> a < s \<longrightarrow> e820_type_at es a = Some t"
    and same: "\<forall>a. \<not> (s \<le> a \<and> a < s + sz) \<longrightarrow> e820_type_at (ls @ rs) a = e820_type_at es a"
    by (rule e820_place_split [OF wf range, where sz = sz and t = t]) (use room in simp_all)
  obtain rs' d where tr: "e820_trim_rest (s + sz) t rs = (rs', d)"
    by fastforce
  have len': "length rs' \<le> length rs"
    using e820_trim_rest_spec [OF wfs(2) tr] by blast
  have hole: "s1 = s" if "t = E820_HOLE"
  proof (rule ccontr)
    assume "s1 \<noteq> s"
    with s1 old have "e820_type_at es s1 = Some E820_HOLE" by (auto simp: that)
    then obtain e where "e \<in> set es" "e_type e = E820_HOLE"
      by (auto simp: e820_type_at_def find_Some_iff in_set_conv_nth)
    then show False using wf by (auto simp: e820_ok_def dest: e820_wf_ok)
  qed
  define mid where "mid = (if t \<noteq> E820_HOLE
      then [\<lparr>e_start = s1, e_size = (s + sz) - s1 + d, e_type = t\<rparr>] else [])"
  have sz: "sz \<noteq> 0" using range by auto
  have add: "e820_add s sz t es = ls @ mid @ rs'"
    using sz len len' room
    by (auto simp: e820_add_def place e820_trim_eq tr mid_def insert_e820_def Let_def
        algebra_simps)
  have lt: "s1 < s + sz" using s1 range by simp
  note A = e820_assemble [OF wfs left right lt tr mid_def]
  have "length (e820_add s sz t es) \<le> length es + 2"
    using len len' by (simp add: add mid_def)
  moreover have "e820_type_at (e820_add s sz t es) a =
      (if s \<le> a \<and> a < s + sz then (if t = E820_HOLE then None else Some t)
       else e820_type_at es a)"
  proof (cases "s1 \<le> a \<and> a < s")
    case True
    with hole lt range old show ?thesis by (auto simp: add A(2))
  next
    case False
    with s1 same show ?thesis by (auto simp: add A(2))
  qed
  ultimately show ?thesis using A(1) by (simp add: add)
qed


section \<open>Bounds\<close>

lemma e820_trim_length: "length (fst (e820_trim es i lim t sz)) \<le> length es"
proof (induction es i lim t sz rule: e820_trim.induct)
  case (1 es i lim t sz)
  have rm: "length (remove_e820 i es) \<le> length es" for es :: "e820entry list"
    by (auto simp: remove_e820_def)
  show ?case
    using 1 rm [of es] rm [of "es[i := x]" for x]
    by (subst e820_trim.simps) (fastforce simp: Let_def remove_e820_def)
qed

lemma e820_place_length:
  "length es \<le> BUILD_MAX_E820 \<Longrightarrow> e820_place es i s sz t lim = (es', r) \<Longrightarrow>
     length es' \<le> BUILD_MAX_E820"
  by (auto simp: e820_place_def insert_e820_def Let_def split: if_splits)

text \<open>The array bound: whatever is added, even to a full map or with a range that wraps
  around, \<open>e820_add\<close> never has more than \<open>BUILD_MAX_E820\<close> entries, so it never
  writes outside \<open>e820_list\<close>.\<close>

theorem e820_add_bounded:
  assumes "length es \<le> BUILD_MAX_E820"
  shows "length (e820_add s sz t es) \<le> BUILD_MAX_E820"
proof -
  obtain es1 i1 s1 sz1 where p: "e820_place es (e820_find es s 0) s sz t (s + sz) = (es1, i1, s1, sz1)"
    by (metis prod_cases4)
  obtain es2 sz2 where q: "e820_trim es1 i1 (s + sz) t sz1 = (es2, sz2)"
    by fastforce
  have "length es2 \<le> BUILD_MAX_E820"
    using e820_place_length [OF assms p] e820_trim_length [of es1 i1 "s + sz" t sz1] q by simp
  then show ?thesis
    using assms by (auto simp: e820_add_def p q insert_e820_def Let_def)
qed

theorem e820_add_bounded_witness:
  "length (e820_add 0 16 E820_RAM []) \<le> BUILD_MAX_E820"
  by (rule e820_add_bounded) (simp add: BUILD_MAX_E820_def)

section \<open>The properties of the map\<close>

definition e820_sample :: "e820entry list" where
  "e820_sample = [\<lparr>e_start = 0, e_size = 0xa0000, e_type = E820_RAM\<rparr>,
     \<lparr>e_start = 0x100000, e_size = 0x700000, e_type = E820_RAM\<rparr>]"

lemma e820_sample_wf: "e820_wf e820_sample" "length e820_sample + 2 \<le> BUILD_MAX_E820"
  by (simp_all add: e820_sample_def e820_ok_def e820_before_def e820_end_def e820_type_defs
      BUILD_MAX_E820_def)

text \<open>C2. Adding a range gives the range its new type (or no type, for a hole) and leaves
  the type of every other address as it was, however the range overlaps, splits or touches the
  entries of the map; the range must not wrap around the address space and the array needs room
  for the two entries a split can add.\<close>

theorem e820_add_type_at:
  assumes "e820_wf es" "sz \<noteq> 0" "unat s + unat sz < 2 ^ 64" "length es + 2 \<le> BUILD_MAX_E820"
  shows "e820_type_at (e820_add s sz t es) a =
    (if s \<le> a \<and> a < s + sz then (if t = E820_HOLE then None else Some t)
     else e820_type_at es a)"
proof -
  have "s < s + sz" using assms(2,3) by (simp add: no_wrap_iff)
  then show ?thesis using e820_add_correct [OF assms(1) _ assms(4)] by blast
qed

theorem e820_add_type_at_witness:
  "e820_type_at (e820_add 0x80000 0x100000 E820_RESERVED e820_sample) 0xa0000 = Some E820_RESERVED"
  using e820_add_type_at [OF e820_sample_wf(1) _ _ e820_sample_wf(2), of "0x100000" "0x80000"]
  by (simp add: e820_type_defs)

text \<open>C14. The map stays sorted and disjoint with no two touching entries of one type, and
  one call adds at most two entries.\<close>

theorem e820_add_wf:
  assumes "e820_wf es" "sz \<noteq> 0" "unat s + unat sz < 2 ^ 64" "length es + 2 \<le> BUILD_MAX_E820"
  shows "e820_wf (e820_add s sz t es) \<and> length (e820_add s sz t es) \<le> length es + 2"
proof -
  have "s < s + sz" using assms(2,3) by (simp add: no_wrap_iff)
  then show ?thesis using e820_add_correct [OF assms(1) _ assms(4)] by blast
qed

theorem e820_add_wf_witness:
  "e820_wf (e820_add 0x80000 0x100000 E820_HOLE e820_sample)"
  using e820_add_wf [OF e820_sample_wf(1) _ _ e820_sample_wf(2), of "0x100000" "0x80000"]
  by simp

section \<open>The interface the memory setup uses\<close>

text \<open>What \<open>malloc.c\<close>, \<open>pciinit.c\<close> and \<open>paravirt.c\<close> rely on: a sequence of additions
  in which the last one that covers an address decides its type. A request is a range with a type;
  \<open>cnt\<close> is the number of array slots in use and \<open>cap\<close> the size of the array.\<close>

locale typed_ranges =
  fixes add :: "u64 \<Rightarrow> u64 \<Rightarrow> u32 \<Rightarrow> 'm \<Rightarrow> 'm"
    and type_at :: "'m \<Rightarrow> u64 \<Rightarrow> u32 option"
    and inv :: "'m \<Rightarrow> bool" and cnt :: "'m \<Rightarrow> nat" and cap :: nat
  assumes add_type_at: "inv m \<Longrightarrow> s < s + z \<Longrightarrow> cnt m + 2 \<le> cap \<Longrightarrow>
      type_at (add s z t m) a =
        (if s \<le> a \<and> a < s + z then (if t = E820_HOLE then None else Some t) else type_at m a)"
    and add_inv: "inv m \<Longrightarrow> s < s + z \<Longrightarrow> cnt m + 2 \<le> cap \<Longrightarrow> inv (add s z t m)"
    and add_cnt: "inv m \<Longrightarrow> s < s + z \<Longrightarrow> cnt m + 2 \<le> cap \<Longrightarrow> cnt (add s z t m) \<le> cnt m + 2"
begin

fun add_all :: "(u64 \<times> u64 \<times> u32) list \<Rightarrow> 'm \<Rightarrow> 'm" where
  "add_all [] m = m"
| "add_all ((s, z, t) # rs) m = add_all rs (add s z t m)"

lemma add_all_keeps:
  assumes "inv m" "\<forall>(s, z, t) \<in> set rs. s < s + z" "cnt m + 2 * length rs \<le> cap"
  shows "inv (add_all rs m) \<and> cnt (add_all rs m) \<le> cnt m + 2 * length rs"
  using assms
proof (induction rs arbitrary: m)
  case Nil
  then show ?case by simp
next
  case (Cons r rs)
  obtain s z t where r: "r = (s, z, t)" by (cases r)
  with Cons.prems have add: "inv (add s z t m)" "cnt (add s z t m) \<le> cnt m + 2"
    using add_inv [of m s z t] add_cnt [of m s z t] by simp_all
  with Cons.prems r have "inv (add_all rs (add s z t m)) \<and>
      cnt (add_all rs (add s z t m)) \<le> cnt (add s z t m) + 2 * length rs"
    by (intro Cons.IH) auto
  with add r show ?case by simp
qed

lemma add_all_last:
  assumes "inv m" "\<forall>(s, z, t) \<in> set (rs @ [(s, z, t)]). s < s + z"
    "cnt m + 2 * length (rs @ [(s, z, t)]) \<le> cap" "s \<le> a" "a < s + z" "t \<noteq> E820_HOLE"
  shows "type_at (add_all (rs @ [(s, z, t)]) m) a = Some t"
proof -
  have app: "add_all (rs @ [(s, z, t)]) m = add s z t (add_all rs m)" for rs m
    by (induction rs arbitrary: m) auto
  have "inv (add_all rs m) \<and> cnt (add_all rs m) \<le> cnt m + 2 * length rs"
    using assms by (intro add_all_keeps) auto
  then show ?thesis
    using assms by (simp add: app add_type_at)
qed

end

interpretation e820: typed_ranges e820_add e820_type_at e820_wf length BUILD_MAX_E820
  by unfold_locales (use e820_add_correct in blast)+

end
