(* ===== verification/Malloc.thy ===== *)
theory Malloc
  imports E820map
begin

text \<open>
  The internal memory allocator of \<open>src/malloc.c\<close>, in the default build configuration
  (\<open>CONFIG_MALLOC_UPPERMEMORY\<close> and \<open>CONFIG_RELOCATE_INIT\<close> set, so \<open>zonelow_expand\<close>
  and \<open>relocate_ebda\<close> are compiled out). A zone is the list of its \<open>allocinfo_s\<close> nodes in
  list order, from high to low addresses. Every allocation is described by two nodes that live in one
  \<open>allocdetail_s\<close>: \<open>datainfo\<close> for the memory handed out and \<open>detailinfo\<close> for the
  descriptor's own memory. A node is named by where it lives: \<open>DataOf d\<close> and \<open>DetailOf d\<close>
  are the nodes of the descriptor at address \<open>d\<close>, \<open>TempData\<close> and \<open>TempDetail\<close> those of
  the \<open>tempdetail\<close> variable on the stack. Copying the descriptor to its final place with
  \<open>memcpy\<close> and \<open>hlist_replace\<close> renames its nodes. \<open>memremap\<close> and \<open>virt_to_phys\<close>
  are the identity on addresses, as in \<open>memmap.h\<close>. Debug output is not modelled, nor are the
  \<open>memset\<close> and \<open>memmove\<close> calls that clear or move memory contents during setup.
\<close>

section \<open>Data\<close>

datatype zone_id = ZoneTmpLow | ZoneLow | ZoneFSeg | ZoneTmpHigh | ZoneHigh

definition Zones :: "zone_id list" where
  "Zones = [ZoneTmpLow, ZoneLow, ZoneFSeg, ZoneTmpHigh, ZoneHigh]"

datatype node_ref = TempData | TempDetail | DataOf u32 | DetailOf u32

record allocinfo_s =
  node :: node_ref
  range_start :: u32
  range_end :: u32
  alloc_size :: u32

text \<open>Sizes: \<open>allocinfo_s\<close> is two pointers and three \<open>u32\<close>, \<open>allocdetail_s\<close> two of
  them and a handle.\<close>

definition sizeof_allocinfo :: u32 where "sizeof_allocinfo = 20"
definition sizeof_allocdetail :: u32 where "sizeof_allocdetail = 44"
definition MALLOC_DEFAULT_HANDLE :: u32 where "MALLOC_DEFAULT_HANDLE = 0xFFFFFFFF"
definition MALLOC_MIN_ALIGN :: u32 where "MALLOC_MIN_ALIGN = 16"

text \<open>The address of a node. The temporary nodes are on the stack and are never compared with an
  allocation: they are renamed or unlinked before the functions that look nodes up can run.\<close>

fun virt_to_phys :: "node_ref \<Rightarrow> u32" where
  "virt_to_phys (DetailOf d) = d"
| "virt_to_phys (DataOf d) = d + sizeof_allocinfo"
| "virt_to_phys TempDetail = 0"
| "virt_to_phys TempData = sizeof_allocinfo"

type_synonym zone = "allocinfo_s list"

record mstate =
  zones :: "zone_id \<Rightarrow> zone"
  handles :: "u32 \<Rightarrow> u32"  \<comment> \<open>the handle field of the descriptor at an address\<close>
  m_e820 :: "e820entry list"
  RomEnd :: u32
  RomBase :: "node_ref option"
  LegacyRamSize :: u32

section \<open>Low-level memory reservations\<close>

text \<open>\<open>alloc_new\<close> returns the new zone and the address, 0 when no space was found.\<close>

fun alloc_new :: "u32 \<Rightarrow> u32 \<Rightarrow> node_ref \<Rightarrow> zone \<Rightarrow> zone \<times> u32" where
  "alloc_new sz align fill [] = ([], 0)"
| "alloc_new sz align fill (info # rest) =
     (let alloc_end = range_start info + alloc_size info;
          r_end = range_end info;
          new_range_end = ALIGN_DOWN (r_end - sz) align
      in if new_range_end \<ge> alloc_end \<and> new_range_end \<le> r_end
         then (\<lparr>node = fill, range_start = new_range_end, range_end = r_end, alloc_size = sz\<rparr>
               # info\<lparr>range_end := new_range_end\<rparr> # rest, new_range_end)
         else let (rest', addr) = alloc_new sz align fill rest in (info # rest', addr))"

definition hlist_rename :: "node_ref \<Rightarrow> node_ref \<Rightarrow> zone \<Rightarrow> zone" where
  "hlist_rename old new = map (\<lambda>i. if node i = old then i\<lparr>node := new\<rparr> else i)"

definition set_zone :: "zone_id \<Rightarrow> zone \<Rightarrow> mstate \<Rightarrow> mstate" where
  "set_zone z l st = st\<lparr>zones := (zones st)(z := l)\<rparr>"

definition map_zones :: "(zone \<Rightarrow> zone) \<Rightarrow> mstate \<Rightarrow> mstate" where
  "map_zones f st = st\<lparr>zones := (\<lambda>z. f (zones st z))\<rparr>"

definition alloc_in :: "zone_id \<Rightarrow> u32 \<Rightarrow> u32 \<Rightarrow> node_ref \<Rightarrow> mstate \<Rightarrow> mstate \<times> u32" where
  "alloc_in z sz align fill st =
     (let (l, addr) = alloc_new sz align fill (zones st z) in (set_zone z l st, addr))"

text \<open>The final place of the descriptor: its handle is copied, both nodes are replaced.\<close>

definition install_detail :: "u32 \<Rightarrow> u32 \<Rightarrow> mstate \<Rightarrow> mstate" where
  "install_detail d h st =
     map_zones (hlist_rename TempData (DataOf d) \<circ> hlist_rename TempDetail (DetailOf d))
       (st\<lparr>handles := (handles st)(d := h)\<rparr>)"

definition alloc_new_detail :: "u32 \<Rightarrow> mstate \<Rightarrow> mstate \<times> u32" where
  "alloc_new_detail h st =
     (let (st1, d) = alloc_in ZoneTmpHigh sizeof_allocdetail MALLOC_MIN_ALIGN TempDetail st
      in if d = 0 then
           let (st2, d') = alloc_in ZoneTmpLow sizeof_allocdetail MALLOC_MIN_ALIGN TempDetail st1
           in if d' = 0 then (st2, 0) else (install_detail d' h st2, d')
         else (install_detail d h st1, d))"

text \<open>Unlink a node without giving its range to the neighbour (\<open>hlist_del\<close>).\<close>

definition hlist_del :: "node_ref \<Rightarrow> zone \<Rightarrow> zone" where
  "hlist_del n = filter (\<lambda>i. node i \<noteq> n)"

definition alloc_add :: "zone_id \<Rightarrow> u32 \<Rightarrow> u32 \<Rightarrow> mstate \<Rightarrow> mstate" where
  "alloc_add z start fin st =
     (let info = \<lparr>node = TempData, range_start = start, range_end = fin, alloc_size = 0\<rparr>;
          st1 = set_zone z (hlist_insert (\<lambda>i. range_start i < start) info (zones st z)) st;
          (st2, d) = alloc_new_detail MALLOC_DEFAULT_HANDLE st1
      in if d = 0 then map_zones (hlist_del TempData) st2 else st2)"

text \<open>\<open>alloc_free\<close> of a node in the zone it is linked in: the next node takes over the range if it
  is adjacent.\<close>

fun alloc_free :: "node_ref \<Rightarrow> zone \<Rightarrow> zone" where
  "alloc_free n [] = []"
| "alloc_free n (info # rest) =
     (if node info = n
      then (case rest of
              [] \<Rightarrow> []
            | nxt # rest' \<Rightarrow>
                (if range_end nxt = range_start info then nxt\<lparr>range_end := range_end info\<rparr>
                 else nxt) # rest')
      else info # alloc_free n rest)"

definition all_infos :: "mstate \<Rightarrow> allocinfo_s list" where
  "all_infos st = concat (map (zones st) Zones)"

definition alloc_find :: "u32 \<Rightarrow> mstate \<Rightarrow> allocinfo_s option" where
  "alloc_find data st = find (\<lambda>i. range_start i = data) (all_infos st)"

definition alloc_find_lowest :: "zone \<Rightarrow> allocinfo_s option" where
  "alloc_find_lowest l = (if l = [] then None else Some (last l))"

section \<open>Tracked allocations\<close>

definition malloc_palloc :: "zone_id \<Rightarrow> u32 \<Rightarrow> u32 \<Rightarrow> mstate \<Rightarrow> mstate \<times> u32" where
  "malloc_palloc z sz align st =
     (if sz = 0 then (st, 0)
      else
        let (st1, data) = alloc_in z sz align TempData st
        in if data = 0 then (st1, 0)
           else
             let (st2, d) = alloc_new_detail MALLOC_DEFAULT_HANDLE st1
             in if d = 0 then (map_zones (alloc_free TempData) st2, 0) else (st2, data))"

text \<open>\<open>container_of (info, struct allocdetail_s, datainfo)\<close>: the descriptor that an
  information node is the \<open>datainfo\<close> of.\<close>

definition detail_of :: "node_ref \<Rightarrow> u32" where
  "detail_of n = virt_to_phys n - sizeof_allocinfo"

definition not_tracked :: "u32 \<Rightarrow> allocinfo_s \<Rightarrow> bool" where
  "not_tracked data info \<longleftrightarrow> data = virt_to_phys (node info) \<or> alloc_size info = 0"

definition malloc_pfree :: "u32 \<Rightarrow> mstate \<Rightarrow> mstate \<times> int" where
  "malloc_pfree data st =
     (case alloc_find data st of
        None \<Rightarrow> (st, -1)
      | Some info \<Rightarrow>
          if not_tracked data info then (st, -1)
          else (map_zones (alloc_free (DetailOf (detail_of (node info))) \<circ> alloc_free (node info)) st, 0))"

definition malloc_getspace :: "zone_id \<Rightarrow> mstate \<Rightarrow> u32" where
  "malloc_getspace z st =
     (let maxspace = fold (\<lambda>info m.
            let space = range_end info - range_start info - alloc_size info
            in if space > m then space else m) (zones st z) 0
      in if z \<noteq> ZoneTmpHigh \<and> z \<noteq> ZoneTmpLow then maxspace
         else let reserve = ALIGN sizeof_allocdetail MALLOC_MIN_ALIGN
              in if maxspace \<le> reserve then 0 else maxspace - reserve)"

definition malloc_sethandle :: "u32 \<Rightarrow> u32 \<Rightarrow> mstate \<Rightarrow> mstate" where
  "malloc_sethandle data h st =
     (case alloc_find data st of
        None \<Rightarrow> st
      | Some info \<Rightarrow>
          if not_tracked data info then st
          else st\<lparr>handles := (handles st)(detail_of (node info) := h)\<rparr>)"

text \<open>The \<open>datainfo\<close> of a descriptor, read through the list it is linked in.\<close>

definition datainfo_start :: "u32 \<Rightarrow> mstate \<Rightarrow> u32" where
  "datainfo_start d st =
     (case find (\<lambda>i. node i = DataOf d) (all_infos st) of None \<Rightarrow> 0 | Some i \<Rightarrow> range_start i)"

definition malloc_findhandle :: "u32 \<Rightarrow> mstate \<Rightarrow> u32" where
  "malloc_findhandle h st =
     (case find (\<lambda>i. range_start i = virt_to_phys (node i) \<and> handles st (range_start i) = h)
        (all_infos st) of
        None \<Rightarrow> 0
      | Some i \<Rightarrow> datainfo_start (range_start i) st)"

section \<open>Option rom area\<close>

definition BUILD_ROM_START :: u32 where "BUILD_ROM_START = 0xc0000"
definition OPTION_ROM_ALIGN :: u32 where "OPTION_ROM_ALIGN = 2048"
definition OPROM_HEADER_RESERVE :: u32 where "OPROM_HEADER_RESERVE = 16"

definition rom_base :: "mstate \<Rightarrow> allocinfo_s option" where
  "rom_base st = (case RomBase st of None \<Rightarrow> None
     | Some n \<Rightarrow> find (\<lambda>i. node i = n) (zones st ZoneLow))"

definition rom_get_max :: "mstate \<Rightarrow> u32" where
  "rom_get_max st = (case rom_base st of
       None \<Rightarrow> 0  \<comment> \<open>before \<open>malloc_init\<close>; the C code would follow a null pointer\<close>
     | Some i \<Rightarrow> ALIGN_DOWN (range_end i - OPROM_HEADER_RESERVE) OPTION_ROM_ALIGN)"

definition rom_get_last :: "mstate \<Rightarrow> u32" where
  "rom_get_last st = RomEnd st"

definition rom_reserve :: "u32 \<Rightarrow> u32 \<Rightarrow> mstate \<Rightarrow> mstate \<times> u32" where
  "rom_reserve zonelow_base sz st =
     (let newend = ALIGN (RomEnd st + sz) OPTION_ROM_ALIGN
      in if newend > rom_get_max st then (st, 0)
         else
           let newend' = (if newend < zonelow_base then zonelow_base else newend)
           in (set_zone ZoneLow
                 (map (\<lambda>i. if Some (node i) = RomBase st
                           then i\<lparr>range_start := newend' + OPROM_HEADER_RESERVE\<rparr> else i)
                   (zones st ZoneLow)) st,
               RomEnd st))"

definition rom_confirm :: "u32 \<Rightarrow> u32 \<Rightarrow> mstate \<Rightarrow> mstate \<times> int" where
  "rom_confirm zonelow_base sz st =
     (let (st1, new) = rom_reserve zonelow_base sz st
      in if new = 0 then (st1, -1)
         else (st1\<lparr>RomEnd := ALIGN (RomEnd st1 + sz) OPTION_ROM_ALIGN\<rparr>, 0))"


section \<open>Well-formed zones\<close>

definition node_ok :: "allocinfo_s \<Rightarrow> bool" where
  "node_ok i \<longleftrightarrow> range_start i \<noteq> 0 \<and>
     unat (range_start i) + unat (alloc_size i) \<le> unat (range_end i)"

definition zone_ok :: "zone \<Rightarrow> bool" where
  "zone_ok l \<longleftrightarrow> list_all node_ok l \<and> sorted_wrt (\<lambda>x y. range_end y \<le> range_start x) l"

text \<open>Every allocation is directly above the node it was carved from, which can take the range
  back; the nodes without an allocation are the memory added by \<open>alloc_add\<close>.\<close>

fun tiled :: "zone \<Rightarrow> bool" where
  "tiled [] = True"
| "tiled (x # r) =
     ((alloc_size x \<noteq> 0 \<longrightarrow> (case r of [] \<Rightarrow> False | y # _ \<Rightarrow> range_end y = range_start x)) \<and> tiled r)"

lemma zone_ok_simps [simp]:
  "zone_ok []"
  "zone_ok (x # l) \<longleftrightarrow> node_ok x \<and> (\<forall>y \<in> set l. range_end y \<le> range_start x) \<and> zone_ok l"
  by (auto simp: zone_ok_def)

lemma zone_ok_append:
  "zone_ok (xs @ ys) \<longleftrightarrow>
     zone_ok xs \<and> zone_ok ys \<and> (\<forall>x \<in> set xs. \<forall>y \<in> set ys. range_end y \<le> range_start x)"
  by (auto simp: zone_ok_def sorted_wrt_append)

lemma tiled_appendD: "tiled (xs @ ys) \<Longrightarrow> tiled ys"
  by (induction xs) auto

lemma tiled_replace:
  "tiled (xs @ y # ys) \<Longrightarrow> tiled (z # zs) \<Longrightarrow> range_end z = range_end y \<Longrightarrow> tiled (xs @ z # zs)"
proof (induction xs)
  case Nil
  then show ?case by simp
next
  case (Cons x xs)
  then show ?case by (cases xs) auto
qed

section \<open>alloc_new\<close>

definition fit_addr :: "u32 \<Rightarrow> u32 \<Rightarrow> allocinfo_s \<Rightarrow> u32" where
  "fit_addr sz align i = ALIGN_DOWN (range_end i - sz) align"

definition fits :: "u32 \<Rightarrow> u32 \<Rightarrow> allocinfo_s \<Rightarrow> bool" where
  "fits sz align i \<longleftrightarrow> fit_addr sz align i \<ge> range_start i + alloc_size i \<and>
     fit_addr sz align i \<le> range_end i"

definition carved :: "node_ref \<Rightarrow> u32 \<Rightarrow> u32 \<Rightarrow> allocinfo_s \<Rightarrow> allocinfo_s" where
  "carved fill sz a i = \<lparr>node = fill, range_start = a, range_end = range_end i, alloc_size = sz\<rparr>"

lemma carved_simps [simp]:
  "node (carved f sz a i) = f" "range_start (carved f sz a i) = a"
  "range_end (carved f sz a i) = range_end i" "alloc_size (carved f sz a i) = sz"
  by (simp_all add: carved_def)

lemma alloc_new_eq:
  "alloc_new sz align fill l =
     (case dropWhile (\<lambda>i. \<not> fits sz align i) l of
        [] \<Rightarrow> (l, 0)
      | i # ys \<Rightarrow> (takeWhile (\<lambda>i. \<not> fits sz align i) l
          @ carved fill sz (fit_addr sz align i) i # i\<lparr>range_end := fit_addr sz align i\<rparr> # ys,
          fit_addr sz align i))"
proof (induction l)
  case Nil
  show ?case by simp
next
  case (Cons j l)
  have "alloc_new sz align fill (j # l) =
     (if fits sz align j
      then (carved fill sz (fit_addr sz align j) j # j\<lparr>range_end := fit_addr sz align j\<rparr> # l,
            fit_addr sz align j)
      else (j # fst (alloc_new sz align fill l), snd (alloc_new sz align fill l)))"
    by (simp add: fits_def fit_addr_def carved_def Let_def split_beta)
  then show ?case
    using dropWhile_eq_Nil_conv [of "\<lambda>i. \<not> fits sz align i" l]
    by (auto simp add: Cons.IH simp del: alloc_new.simps dropWhile_eq_Nil_conv split: list.split)
qed

lemma alloc_new_cases:
  assumes "alloc_new sz align fill l = (l', a)"
  obtains (none) "l' = l" "a = 0" "\<forall>i \<in> set l. \<not> fits sz align i"
  | (found) xs i ys where "l = xs @ i # ys" "fits sz align i"
      "a = fit_addr sz align i" "l' = xs @ carved fill sz a i # i\<lparr>range_end := a\<rparr> # ys"
proof (cases "dropWhile (\<lambda>i. \<not> fits sz align i) l")
  case Nil
  with assms show ?thesis by (intro none) (auto simp: alloc_new_eq)
next
  case (Cons i ys)
  have "l = takeWhile (\<lambda>i. \<not> fits sz align i) l @ i # ys"
    using takeWhile_dropWhile_id [of "\<lambda>i. \<not> fits sz align i" l] Cons by simp
  moreover have "fits sz align i"
    using hd_dropWhile [of "\<lambda>i. \<not> fits sz align i" l] Cons by simp
  ultimately show ?thesis
    using assms Cons by (intro found) (auto simp: alloc_new_eq)
qed

text \<open>A request that \<open>alloc_new\<close> serves correctly: a power-of-two alignment and a size that
  does not wrap around when rounded up to it.\<close>

definition good_request :: "u32 \<Rightarrow> u32 \<Rightarrow> bool" where
  "good_request sz align \<longleftrightarrow> pow2 align \<and> sz \<noteq> 0 \<and> unat sz + unat align \<le> 2 ^ 32"

lemma fits_room:
  assumes "good_request sz align" "node_ok i" "fits sz align i"
  shows "unat (fit_addr sz align i) + unat sz \<le> unat (range_end i)"
    and "unat (range_start i) + unat (alloc_size i) \<le> unat (fit_addr sz align i)"
    and "unat align dvd unat (fit_addr sz align i)"
proof -
  have al: "pow2 align" and req: "unat sz + unat align \<le> 2 ^ 32"
    using assms(1) by (auto simp: good_request_def)
  have le: "unat (fit_addr sz align i) \<le> unat (range_end i)"
    using assms(3) by (simp add: fits_def word_le_nat_alt)
  show "unat (fit_addr sz align i) + unat sz \<le> unat (range_end i)"
  proof (cases "sz \<le> range_end i")
    case True
    then show ?thesis
      using ALIGN_DOWN_le [OF al, of "range_end i - sz"]
      by (simp add: fit_addr_def unat_sub word_le_nat_alt)
  next
    case False
    then have "unat (range_end i - sz) = 2 ^ 32 + unat (range_end i) - unat sz"
      using unat_sub_if' [of "range_end i" sz] by (simp add: word_le_nat_alt)
    moreover have "unat (range_end i - sz) < unat (fit_addr sz align i) + unat align"
      unfolding fit_addr_def by (rule ALIGN_DOWN_gt [OF al])
    ultimately show ?thesis using le req by linarith
  qed
  have "unat (range_start i) + unat (alloc_size i) < 2 ^ 32"
    using assms(2) unat_u32_bound [of "range_end i"] by (simp add: node_ok_def)
  then show "unat (range_start i) + unat (alloc_size i) \<le> unat (fit_addr sz align i)"
    using assms(3) by (simp add: fits_def word_le_nat_alt unat_add_small)
  show "unat align dvd unat (fit_addr sz align i)"
    unfolding fit_addr_def by (rule ALIGN_DOWN_dvd [OF al])
qed


lemma alloc_new_zone_ok:
  assumes "alloc_new sz align fill l = (l', a)" "zone_ok l" "good_request sz align"
  shows "zone_ok l'"
  using assms(1)
proof (cases rule: alloc_new_cases)
  case none
  with assms show ?thesis by simp
next
  case (found xs i ys)
  have i: "node_ok i" using assms(2) found(1) by (simp add: zone_ok_append)
  note room = fits_room [OF assms(3) i found(2), folded found(3)]
  have "sz \<noteq> 0" using assms(3) by (simp add: good_request_def)
  have "range_start i \<le> a" "a \<noteq> 0" "a \<le> range_end i"
    using room i by (auto simp: node_ok_def word_le_nat_alt unat_eq_zero)
  with assms(2) found room i show ?thesis
    by (fastforce simp: zone_ok_append node_ok_def)
qed

lemma alloc_new_tiled:
  assumes "alloc_new sz align fill l = (l', a)" "tiled l"
  shows "tiled l'"
  using assms(1)
proof (cases rule: alloc_new_cases)
  case none
  with assms show ?thesis by simp
next
  case (found xs i ys)
  have "tiled (i # ys)" using assms(2) found(1) by (auto dest: tiled_appendD)
  then have "tiled (carved fill sz a i # i\<lparr>range_end := a\<rparr> # ys)"
    by (simp split: list.splits)
  with assms(2) found show ?thesis
    by (auto intro: tiled_replace)
qed

text \<open>The node that comes first in a zone with a given start, if it is not empty.\<close>

lemma find_start:
  assumes "zone_ok l" "n \<in> set l" "range_start n < range_end n"
  shows "find (\<lambda>i. range_start i = range_start n) l = Some n"
  using assms
proof (induction l)
  case Nil
  then show ?case by simp
next
  case (Cons x l)
  show ?case
  proof (cases "x = n")
    case True
    then show ?thesis by simp
  next
    case False
    with Cons.prems have "range_end n \<le> range_start x" by auto
    with Cons.prems(3) have "range_start x \<noteq> range_start n" by auto
    with Cons False show ?thesis by simp
  qed
qed

section \<open>alloc_free\<close>

text \<open>Freeing the node that \<open>alloc_new\<close> has just linked gives back the zone as it was.\<close>

lemma alloc_free_append:
  "n \<notin> node ` set xs \<Longrightarrow> alloc_free n (xs @ ys) = xs @ alloc_free n ys"
  by (induction xs) auto

lemma alloc_free_new:
  assumes "alloc_new sz align fill l = (l', a)" "fill \<notin> node ` set l"
  shows "alloc_free fill l' = l"
  using assms(1)
proof (cases rule: alloc_new_cases)
  case none
  have "alloc_free fill l = l"
    using assms(2) alloc_free_append [of fill l "[]"] by simp
  with none show ?thesis by simp
next
  case (found xs i ys)
  with assms(2) show ?thesis
    by (simp add: alloc_free_append image_Un)
qed

text \<open>A node that can be freed without losing its range, and that two such nodes can be freed in
  either order.\<close>

fun giving :: "node_ref \<Rightarrow> zone \<Rightarrow> bool" where
  "giving n [] = True"
| "giving n (x # r) =
     ((node x = n \<longrightarrow> (case r of [] \<Rightarrow> False | y # _ \<Rightarrow> range_end y = range_start x)) \<and> giving n r)"

lemma tiled_giving: "tiled l \<Longrightarrow> \<forall>x \<in> set l. node x = n \<longrightarrow> alloc_size x \<noteq> 0 \<Longrightarrow> giving n l"
  by (induction l) auto

lemma alloc_free_commute:
  assumes "giving n l" "giving m l" "distinct (map node l)" "n \<noteq> m"
  shows "alloc_free n (alloc_free m l) = alloc_free m (alloc_free n l)"
  using assms
proof (induction l)
  case Nil
  then show ?case by simp
next
  case (Cons x r)
  have other: "alloc_free k r = r" if "node x = k" for k
    using Cons.prems(3) that alloc_free_append [of k r "[]"] by auto
  show ?case
  proof (cases r)
    case Nil
    with Cons show ?thesis by auto
  next
    case (Cons y r')
    with \<open>giving n (x # r)\<close> \<open>giving m (x # r)\<close> other Cons.IH Cons.prems show ?thesis
      by (cases r') auto
  qed
qed


lemma alloc_free_rename:
  assumes "inj_on \<rho> (insert n (node ` set l))"
  shows "alloc_free (\<rho> n) (map (\<lambda>i. i\<lparr>node := \<rho> (node i)\<rparr>) l) =
    map (\<lambda>i. i\<lparr>node := \<rho> (node i)\<rparr>) (alloc_free n l)"
  using assms
proof (induction l)
  case Nil
  then show ?case by simp
next
  case (Cons x r)
  have "inj_on \<rho> (insert n (node ` set r))"
    using Cons.prems by (rule inj_on_subset) auto
  moreover have "\<rho> (node x) = \<rho> n \<longleftrightarrow> node x = n"
    using Cons.prems by (auto simp: inj_on_def)
  ultimately show ?case
    using Cons.IH by (cases r) auto
qed

section \<open>Well-formed allocator states\<close>

definition nodes_of :: "mstate \<Rightarrow> node_ref set" where
  "nodes_of st = (\<Union>z. node ` set (zones st z))"

text \<open>Nodes of two zones are different, start at different addresses and do not overlap.\<close>

definition apart :: "allocinfo_s \<Rightarrow> allocinfo_s \<Rightarrow> bool" where
  "apart x y \<longleftrightarrow> node x \<noteq> node y \<and> range_start x \<noteq> range_start y \<and>
     (range_end x \<le> range_start y \<or> range_end y \<le> range_start x)"

lemma apart_sym: "apart x y \<Longrightarrow> apart y x"
  by (auto simp: apart_def)

definition zones_ok :: "mstate \<Rightarrow> bool" where
  "zones_ok st \<longleftrightarrow>
     (\<forall>z. zone_ok (zones st z) \<and> tiled (zones st z) \<and> distinct (map node (zones st z))) \<and>
     (\<forall>z1 z2. z1 \<noteq> z2 \<longrightarrow> (\<forall>x \<in> set (zones st z1). \<forall>y \<in> set (zones st z2). apart x y))"

text \<open>A \<open>detailinfo\<close> node describes the memory of the descriptor it is in.\<close>

definition details_ok :: "mstate \<Rightarrow> bool" where
  "details_ok st \<longleftrightarrow> (\<forall>z. \<forall>i \<in> set (zones st z). \<forall>d. node i = DetailOf d \<longrightarrow>
     range_start i = d \<and> alloc_size i = sizeof_allocdetail)"

text \<open>Between two calls no node is on the stack and every \<open>datainfo\<close> has its
  \<open>detailinfo\<close>.\<close>

definition settled :: "mstate \<Rightarrow> bool" where
  "settled st \<longleftrightarrow> TempData \<notin> nodes_of st \<and> TempDetail \<notin> nodes_of st \<and>
     (\<forall>d. DataOf d \<in> nodes_of st \<longrightarrow> DetailOf d \<in> nodes_of st)"

definition mstate_ok :: "mstate \<Rightarrow> bool" where
  "mstate_ok st \<longleftrightarrow> zones_ok st \<and> details_ok st \<and> settled st"

lemma zones_okD:
  assumes "zones_ok st"
  shows "zone_ok (zones st z)" "tiled (zones st z)" "distinct (map node (zones st z))"
  using assms by (auto simp: zones_ok_def)

lemma zones_ok_cross:
  assumes "zones_ok st" "z1 \<noteq> z2" "x \<in> set (zones st z1)" "y \<in> set (zones st z2)"
  shows "node x \<noteq> node y" "range_start x \<noteq> range_start y"
    "range_end x \<le> range_start y \<or> range_end y \<le> range_start x"
  using assms by (auto simp: zones_ok_def apart_def)

lemma zone_ok_node: "zone_ok l \<Longrightarrow> i \<in> set l \<Longrightarrow> node_ok i"
  by (auto simp: zone_ok_def list_all_iff)

lemma zones_simps [simp]:
  "zones (set_zone z l st) z' = (if z' = z then l else zones st z')"
  "zones (map_zones f st) z = f (zones st z)"
  "handles (set_zone z l st) = handles st"
  "handles (map_zones f st) = handles st"
  by (simp_all add: set_zone_def map_zones_def)

text \<open>Two different nodes of a well-formed state do not overlap.\<close>

lemma nodes_apart:
  assumes "zones_ok st" "x \<in> set (zones st z1)" "y \<in> set (zones st z2)" "x \<noteq> y \<or> z1 \<noteq> z2"
  shows "range_end x \<le> range_start y \<or> range_end y \<le> range_start x"
proof (cases "z1 = z2")
  case True
  with assms have "sorted_wrt (\<lambda>x y. range_end y \<le> range_start x) (zones st z1)" "x \<noteq> y"
    by (auto simp: zones_ok_def zone_ok_def)
  then show ?thesis
    using assms(2,3) True
    by (auto simp: in_set_conv_nth sorted_wrt_iff_nth_less) (metis nat_neq_iff)
next
  case False
  with assms show ?thesis by (blast dest: zones_ok_cross(3))
qed

text \<open>Allocation in one zone, seen in the whole state.\<close>

lemma alloc_in_cases:
  assumes "alloc_in z sz align fill st = (st', a)" "zones_ok st" "good_request sz align"
  obtains (none) "st' = st" "a = 0"
  | (found) xs i ys where "zones st z = xs @ i # ys" "a \<noteq> 0"
      "st' = set_zone z (xs @ carved fill sz a i # i\<lparr>range_end := a\<rparr> # ys) st"
      "unat a + unat sz \<le> unat (range_end i)"
      "unat (range_start i) + unat (alloc_size i) \<le> unat a" "unat align dvd unat a"
proof -
  obtain l where l: "alloc_new sz align fill (zones st z) = (l, a)" "st' = set_zone z l st"
    using assms(1) by (auto simp: alloc_in_def split: prod.splits)
  from l(1) show thesis
  proof (cases rule: alloc_new_cases)
    case none
    with l(2) show thesis
      by (intro that(1)) (auto simp: set_zone_def fun_upd_idem)
  next
    case (found xs i ys)
    then have i: "node_ok i"
      using zone_ok_node [OF zones_okD(1) [OF assms(2)], of i z] by simp
    note room = fits_room [OF assms(3) i found(2), folded found(3)]
    have "a \<noteq> 0" using i room(2) by (auto simp: node_ok_def unat_eq_zero)
    with found l(2) room show thesis by (intro that(2)) auto
  qed
qed

lemma alloc_in_zones_ok:
  assumes "alloc_in z sz align fill st = (st', a)" "zones_ok st" "good_request sz align"
    "fill \<notin> nodes_of st"
  shows "zones_ok st'"
  using assms(1-3)
proof (cases rule: alloc_in_cases)
  case none
  with assms show ?thesis by simp
next
  case (found xs i ys)
  obtain l where l: "alloc_new sz align fill (zones st z) = (l, a)" "st' = set_zone z l st"
    using assms(1) by (auto simp: alloc_in_def split: prod.splits)
  have zl: "zone_ok l" "tiled l"
    using alloc_new_zone_ok [OF l(1)] alloc_new_tiled [OF l(1)] zones_okD [OF assms(2)] assms(3)
    by auto
  have ls: "l = xs @ carved fill sz a i # i\<lparr>range_end := a\<rparr> # ys"
    using found(3) l(2) by (auto simp: set_zone_def dest!: arg_cong [of _ _ zones] fun_cong [of _ _ z])
  have nodes: "set (map node l) = insert fill (node ` set (zones st z))"
    by (auto simp: ls found(1))
  have dist: "distinct (map node l)"
  proof -
    have "fill \<notin> node ` set (zones st z)" using assms(4) by (auto simp: nodes_of_def)
    then show ?thesis using zones_okD(3) [OF assms(2), of z] by (auto simp: ls found(1))
  qed
  have cross: "apart x y"
    if "x \<in> set l" "y \<in> set (zones st z')" "z' \<noteq> z" for x y z'
  proof (cases "x \<in> set (zones st z)")
    case True
    with that assms(2) show ?thesis unfolding zones_ok_def by metis
  next
    case False
    with that(1) have x: "x = carved fill sz a i \<or> x = i\<lparr>range_end := a\<rparr>"
      by (auto simp: ls found(1))
    have i: "i \<in> set (zones st z)" by (simp add: found(1))
    have y: "node_ok y" using zone_ok_node [OF zones_okD(1) [OF assms(2)] that(2)] .
    have "node i \<noteq> node y" "range_start i \<noteq> range_start y"
      "range_end i \<le> range_start y \<or> range_end y \<le> range_start i"
      using zones_ok_cross [OF assms(2) _ i that(2)] that(3) by blast+
    moreover from this(2) have "unat (range_start i) \<noteq> unat (range_start y)"
      by (simp add: word_unat_eq_iff)
    moreover have "fill \<noteq> node y" using assms(4) that(2) by (auto simp: nodes_of_def)
    moreover have "unat sz > 0" using assms(3) by (simp add: good_request_def unat_gt_0)
    ultimately show ?thesis
      using x found y by (auto simp: apart_def node_ok_def word_le_nat_alt)
  qed
  show ?thesis
    using assms(2) zl dist by (auto simp: zones_ok_def l(2) intro: cross apart_sym)
qed


text \<open>The new node of an allocation, in the state.\<close>

lemma alloc_in_node:
  assumes "alloc_in z sz align fill st = (st', a)" "zones_ok st" "good_request sz align" "a \<noteq> 0"
  obtains n where "n \<in> set (zones st' z)" "node n = fill" "range_start n = a" "alloc_size n = sz"
  using assms(1-3)
proof (cases rule: alloc_in_cases)
  case none
  with assms(4) show ?thesis by simp
next
  case (found xs i ys)
  then show ?thesis by (intro that [of "carved fill sz a i"]) auto
qed

lemma alloc_in_keeps:
  assumes "alloc_in z sz align fill st = (st', a)" "zones_ok st" "good_request sz align"
    "n \<in> set (zones st z')"
  obtains n' where "n' \<in> set (zones st' z')" "node n' = node n" "range_start n' = range_start n"
    "alloc_size n' = alloc_size n"
  using assms(1-3)
proof (cases rule: alloc_in_cases)
  case none
  with assms(4) show ?thesis by (intro that) auto
next
  case (found xs i ys)
  show ?thesis
  proof (cases "z' = z \<and> n = i")
    case True
    with found show ?thesis by (intro that [of "i\<lparr>range_end := a\<rparr>"]) auto
  next
    case False
    with found assms(4) show ?thesis by (intro that [of n]) auto
  qed
qed

text \<open>Every node of the new state is the new one or comes from the old state.\<close>

lemma alloc_in_origin:
  assumes "alloc_in z sz align fill st = (st', a)" "zones_ok st" "good_request sz align"
    "n \<in> set (zones st' z')"
  shows "a \<noteq> 0 \<and> node n = fill \<and> range_start n = a \<and> alloc_size n = sz \<or> (\<exists>m \<in> set (zones st z'). node m = node n \<and>
    range_start m = range_start n \<and> alloc_size m = alloc_size n)"
  using assms(1-3)
proof (cases rule: alloc_in_cases)
  case none
  with assms(4) show ?thesis by auto
next
  case (found xs i ys)
  with assms(4) show ?thesis by (cases "z' = z") auto
qed

lemma alloc_in_nodes:
  assumes "alloc_in z sz align fill st = (st', a)" "zones_ok st" "good_request sz align"
  shows "nodes_of st' = (if a = 0 then nodes_of st else insert fill (nodes_of st))"
proof (intro set_eqI iffI)
  fix k assume "k \<in> nodes_of st'"
  then obtain z' n where "n \<in> set (zones st' z')" "node n = k" by (auto simp: nodes_of_def)
  with alloc_in_origin [OF assms this(1)]
  consider "a \<noteq> 0" "k = fill" | m where "m \<in> set (zones st z')" "node m = k"
    by blast
  then show "k \<in> (if a = 0 then nodes_of st else insert fill (nodes_of st))"
  proof cases
    case 1
    then show ?thesis by simp
  next
    case (2 m)
    then have "k \<in> nodes_of st" by (auto simp: nodes_of_def)
    then show ?thesis by simp
  qed
next
  fix k assume k: "k \<in> (if a = 0 then nodes_of st else insert fill (nodes_of st))"
  show "k \<in> nodes_of st'"
  proof (cases "a \<noteq> 0 \<and> k = fill")
    case True
    then obtain n where "n \<in> set (zones st' z)" "node n = k"
      using alloc_in_node [OF assms] by blast
    then show ?thesis by (auto simp: nodes_of_def)
  next
    case False
    with k obtain z' n where n: "n \<in> set (zones st z')" "node n = k"
      by (auto simp: nodes_of_def split: if_splits)
    obtain n' where "n' \<in> set (zones st' z')" "node n' = k"
      using alloc_in_keeps [OF assms n(1)] n(2) by metis
    then show ?thesis by (auto simp: nodes_of_def)
  qed
qed

lemma alloc_in_details:
  assumes "alloc_in z sz align fill st = (st', a)" "zones_ok st" "good_request sz align"
    "details_ok st" "\<And>d. fill \<noteq> DetailOf d"
  shows "details_ok st'"
  unfolding details_ok_def
proof (intro allI ballI impI)
  fix z' n d assume "n \<in> set (zones st' z')" "node n = DetailOf d"
  with alloc_in_origin [OF assms(1-3) this(1)] assms(4,5)
  show "range_start n = d \<and> alloc_size n = sizeof_allocdetail"
    by (fastforce simp: details_ok_def)
qed

text \<open>The descriptor gets an address that no other descriptor has.\<close>

lemma alloc_in_fresh:
  assumes "alloc_in z sz align fill st = (st', a)" "zones_ok st" "good_request sz align"
    "a \<noteq> 0" "details_ok st"
  shows "DetailOf a \<notin> nodes_of st"
  using assms(1-3)
proof (cases rule: alloc_in_cases)
  case none
  with assms(4) show ?thesis by simp
next
  case (found xs i ys)
  show ?thesis
  proof
    assume "DetailOf a \<in> nodes_of st"
    then obtain z' j where j: "j \<in> set (zones st z')" "node j = DetailOf a"
      by (auto simp: nodes_of_def)
    with assms(5) have ja: "range_start j = a" "alloc_size j = sizeof_allocdetail"
      by (auto simp: details_ok_def)
    have jok: "unat a + 44 \<le> unat (range_end j)"
      using zone_ok_node [OF zones_okD(1) [OF assms(2)] j(1)] ja
      by (simp add: node_ok_def sizeof_allocdetail_def)
    have i: "i \<in> set (zones st z)" by (simp add: found(1))
    have sz: "0 < unat sz" using assms(3) by (simp add: good_request_def unat_gt_0)
    show False
    proof (cases "i = j")
      case True
      with found(5) ja show False by (simp add: sizeof_allocdetail_def)
    next
      case False
      then have "range_end i \<le> range_start j \<or> range_end j \<le> range_start i"
        using nodes_apart [OF assms(2) i j(1)] by blast
      with found(4,5) ja jok sz show False by (auto simp: word_le_nat_alt)
    qed
  qed
qed


section \<open>The descriptor\<close>

definition ren_ref :: "u32 \<Rightarrow> node_ref \<Rightarrow> node_ref" where
  "ren_ref d n = (case n of TempData \<Rightarrow> DataOf d | TempDetail \<Rightarrow> DetailOf d | _ \<Rightarrow> n)"

abbreviation ren :: "u32 \<Rightarrow> zone \<Rightarrow> zone" where
  "ren d l \<equiv> map (\<lambda>i. i\<lparr>node := ren_ref d (node i)\<rparr>) l"

lemma install_detail_zones:
  "zones (install_detail d h st) z = ren d (zones st z)"
  by (auto simp: install_detail_def map_zones_def hlist_rename_def ren_ref_def split: node_ref.split)

lemma ren_ref_eq [simp]:
  "ren_ref d n \<noteq> TempData" "ren_ref d n \<noteq> TempDetail"
  "ren_ref d n = DataOf e \<longleftrightarrow> n = DataOf e \<or> n = TempData \<and> e = d"
  "ren_ref d n = DetailOf e \<longleftrightarrow> n = DetailOf e \<or> n = TempDetail \<and> e = d"
  by (auto simp: ren_ref_def split: node_ref.splits)

lemma ren_ref_image:
  "TempData \<notin> ren_ref d ` S" "TempDetail \<notin> ren_ref d ` S"
  "DataOf e \<in> ren_ref d ` S \<longleftrightarrow> DataOf e \<in> S \<or> TempData \<in> S \<and> e = d"
  "DetailOf e \<in> ren_ref d ` S \<longleftrightarrow> DetailOf e \<in> S \<or> TempDetail \<in> S \<and> e = d"
  using ren_ref_eq [of d] by (auto simp: image_iff eq_commute [of _ "ren_ref d _"])

lemma ren_ref_inj:
  "DataOf d \<notin> S \<Longrightarrow> DetailOf d \<notin> S \<Longrightarrow> inj_on (ren_ref d) S"
  by (auto simp: inj_on_def ren_ref_def split: node_ref.splits)

lemma ren_id: "TempData \<notin> node ` set l \<Longrightarrow> TempDetail \<notin> node ` set l \<Longrightarrow> ren d l = l"
  by (rule map_idI) (auto simp: ren_ref_def image_iff split: node_ref.splits)

lemma ren_zone_ok [simp]: "zone_ok (ren d l) = zone_ok l"
  by (induction l) (auto simp: node_ok_def)

lemma ren_tiled [simp]: "tiled (ren d l) = tiled l"
  by (induction l) (auto split: list.splits)

lemma good_detail_request: "good_request sizeof_allocdetail MALLOC_MIN_ALIGN"
proof -
  have "(16 :: u32) = 2 ^ 4" by simp
  then have "pow2 (16 :: u32)" unfolding pow2_def by (intro exI [of _ 4]) simp
  then show ?thesis
    by (simp add: good_request_def sizeof_allocdetail_def MALLOC_MIN_ALIGN_def)
qed

text \<open>What \<open>alloc_new_detail\<close> does: nothing when it fails; otherwise it allocates the
  descriptor in one of the temporary zones and renames both nodes.\<close>

lemma alloc_new_detail_cases:
  assumes "alloc_new_detail h st = (st', d)" "zones_ok st"
  obtains (fail) "d = 0" "st' = st"
  | (ok) z st1 where "d \<noteq> 0" "z = ZoneTmpHigh \<or> z = ZoneTmpLow"
      "alloc_in z sizeof_allocdetail MALLOC_MIN_ALIGN TempDetail st = (st1, d)"
      "st' = install_detail d h st1"
proof -
  obtain st1 d1 where h: "alloc_in ZoneTmpHigh sizeof_allocdetail MALLOC_MIN_ALIGN TempDetail st = (st1, d1)"
    by fastforce
  show thesis
  proof (cases "d1 = 0")
    case False
    with h assms(1) show thesis by (intro ok [of ZoneTmpHigh st1]) (auto simp: alloc_new_detail_def)
  next
    case True
    have st1: "st1 = st"
      using alloc_in_cases [OF h assms(2) good_detail_request] True by blast
    obtain st2 d2 where l: "alloc_in ZoneTmpLow sizeof_allocdetail MALLOC_MIN_ALIGN TempDetail st = (st2, d2)"
      by fastforce
    show thesis
    proof (cases "d2 = 0")
      case False
      with h l True st1 assms(1) show thesis
        by (intro ok [of ZoneTmpLow st2]) (auto simp: alloc_new_detail_def)
    next
      case d2: True
      have "st2 = st"
        using alloc_in_cases [OF l assms(2) good_detail_request] d2 by blast
      with h l True st1 d2 assms(1) show thesis
        by (intro fail) (auto simp: alloc_new_detail_def)
    qed
  qed
qed

lemma install_detail_nodes: "nodes_of (install_detail d h st) = ren_ref d ` nodes_of st"
  by (auto simp: nodes_of_def install_detail_zones image_image)

lemma install_detail_ok:
  assumes "zones_ok st" "details_ok st" "DataOf d \<notin> nodes_of st" "DetailOf d \<notin> nodes_of st"
    and temp: "\<forall>z. \<forall>i \<in> set (zones st z). node i = TempDetail \<longrightarrow>
      range_start i = d \<and> alloc_size i = sizeof_allocdetail" "TempDetail \<in> nodes_of st"
    and pair: "\<forall>e. DataOf e \<in> nodes_of st \<longrightarrow> DetailOf e \<in> nodes_of st"
  shows "mstate_ok (install_detail d h st)"
proof -
  have inj: "inj_on (ren_ref d) (nodes_of st)"
    using assms(3,4) by (rule ren_ref_inj)
  have apart: "apart (x\<lparr>node := ren_ref d (node x)\<rparr>) (y\<lparr>node := ren_ref d (node y)\<rparr>)"
    if "z1 \<noteq> z2" "x \<in> set (zones st z1)" "y \<in> set (zones st z2)" for x y z1 z2
  proof -
    have "apart x y" using assms(1) that by (auto simp: zones_ok_def)
    moreover have "node x \<in> nodes_of st" "node y \<in> nodes_of st"
      using that by (auto simp: nodes_of_def)
    ultimately show ?thesis using inj by (auto simp: apart_def inj_on_def)
  qed
  have dist: "distinct (map node (ren d (zones st z)))" for z
  proof -
    have "inj_on (ren_ref d) (node ` set (zones st z))"
      using inj by (rule inj_on_subset) (auto simp: nodes_of_def)
    then have "distinct (map (ren_ref d) (map node (zones st z)))"
      using zones_okD(3) [OF assms(1), of z] by (auto simp: distinct_map simp del: map_map)
    then show ?thesis by (simp add: comp_def)
  qed
  have "zones_ok (install_detail d h st)"
    using zones_okD [OF assms(1)] dist apart
    by (auto simp: zones_ok_def install_detail_zones)
  moreover have "details_ok (install_detail d h st)"
    using assms(2) temp(1) by (auto simp: details_ok_def install_detail_zones)
  moreover have "settled (install_detail d h st)"
    using temp(2) pair
    by (auto simp: settled_def install_detail_nodes ren_ref_image)
  ultimately show ?thesis by (simp add: mstate_ok_def)
qed


section \<open>malloc_palloc and malloc_pfree\<close>

text \<open>The two allocations of a successful \<open>malloc_palloc\<close>: \<open>st1\<close> is the state with the data
  node, \<open>st2\<close> the one with both nodes, before the descriptor is installed.\<close>

lemma palloc_cases:
  assumes "malloc_palloc z sz align st = (st', data)" "mstate_ok st" "good_request sz align"
  obtains (fail) "data = 0" "zones st' = zones st"
  | (ok) st1 st2 z2 d where "data \<noteq> 0" "alloc_in z sz align TempData st = (st1, data)"
      "zones_ok st1" "details_ok st1" "nodes_of st1 = insert TempData (nodes_of st)"
      "d \<noteq> 0" "z2 = ZoneTmpHigh \<or> z2 = ZoneTmpLow"
      "alloc_in z2 sizeof_allocdetail MALLOC_MIN_ALIGN TempDetail st1 = (st2, d)"
      "zones_ok st2" "details_ok st2"
      "nodes_of st2 = insert TempDetail (insert TempData (nodes_of st))"
      "DataOf d \<notin> nodes_of st" "DetailOf d \<notin> nodes_of st"
      "st' = install_detail d MALLOC_DEFAULT_HANDLE st2"
proof -
  have ok0: "zones_ok st" "details_ok st" "settled st"
    using assms(2) by (auto simp: mstate_ok_def)
  have sz: "sz \<noteq> 0" using assms(3) by (simp add: good_request_def)
  obtain st1 a where s1: "alloc_in z sz align TempData st = (st1, a)" by fastforce
  have fresh1: "TempData \<notin> nodes_of st" using ok0(3) by (simp add: settled_def)
  have ok1: "zones_ok st1" "details_ok st1"
    using alloc_in_zones_ok [OF s1 ok0(1) assms(3) fresh1]
      alloc_in_details [OF s1 ok0(1) assms(3) ok0(2)] by auto
  have n1: "nodes_of st1 = (if a = 0 then nodes_of st else insert TempData (nodes_of st))"
    by (rule alloc_in_nodes [OF s1 ok0(1) assms(3)])
  show thesis
  proof (cases "a = 0")
    case True
    then have "st1 = st" using alloc_in_cases [OF s1 ok0(1) assms(3)] by blast
    with True s1 sz assms(1) show thesis by (intro that(1)) (auto simp: malloc_palloc_def)
  next
    case a: False
    obtain st3 d where s3: "alloc_new_detail MALLOC_DEFAULT_HANDLE st1 = (st3, d)" by fastforce
    from s3 ok1(1) show thesis
    proof (cases rule: alloc_new_detail_cases)
      case fail
      obtain l where l: "alloc_new sz align TempData (zones st z) = (l, a)" "st1 = set_zone z l st"
        using s1 by (auto simp: alloc_in_def split: prod.splits)
      have "alloc_free TempData (zones st1 z') = zones st z'" for z'
        using alloc_free_new [OF l(1)] alloc_free_append [of TempData "zones st z'" "[]"] fresh1
        by (auto simp: l(2) nodes_of_def)
      with fail a s1 s3 sz assms(1) show thesis
        by (intro that(1)) (auto simp: malloc_palloc_def fun_eq_iff)
    next
      case (ok z2 st2)
      have fresh2: "TempDetail \<notin> nodes_of st1"
        using ok0(3) n1 a by (simp add: settled_def)
      have "zones_ok st2" "details_ok st2"
        using alloc_in_zones_ok [OF ok(3) ok1(1) good_detail_request fresh2]
          alloc_in_details [OF ok(3) ok1(1) good_detail_request ok1(2)] by auto
      moreover have "DetailOf d \<notin> nodes_of st"
        using alloc_in_fresh [OF ok(3) ok1(1) good_detail_request ok(1) ok1(2)] n1 a by simp
      moreover from this have "DataOf d \<notin> nodes_of st"
        using ok0(3) by (auto simp: settled_def)
      moreover have "nodes_of st2 = insert TempDetail (insert TempData (nodes_of st))"
        using alloc_in_nodes [OF ok(3) ok1(1) good_detail_request] n1 a ok(1) by simp
      moreover have "st' = st3" "data = a"
        using a s1 s3 sz assms(1) ok(1) by (auto simp: malloc_palloc_def)
      ultimately show thesis
        using that(2) s1 ok1 n1 a ok by auto
    qed
  qed
qed

lemma palloc_ok:
  assumes "malloc_palloc z sz align st = (st', data)" "mstate_ok st" "good_request sz align"
  shows "mstate_ok st'"
  using assms
proof (cases rule: palloc_cases)
  case fail
  then show ?thesis
    using assms(2) by (simp add: mstate_ok_def zones_ok_def details_ok_def settled_def nodes_of_def)
next
  case (ok st1 st2 z2 d)
  have "\<forall>z. \<forall>i \<in> set (zones st2 z). node i = TempDetail \<longrightarrow>
      range_start i = d \<and> alloc_size i = sizeof_allocdetail"
  proof (intro allI ballI impI)
    fix z i assume i: "i \<in> set (zones st2 z)" "node i = TempDetail"
    have "TempDetail \<notin> nodes_of st1"
      using ok(5) assms(2) by (simp add: mstate_ok_def settled_def)
    then have "TempDetail \<notin> node ` set (zones st1 z)" by (auto simp: nodes_of_def)
    with alloc_in_origin [OF ok(8) ok(3) good_detail_request i(1)] i(2)
    show "range_start i = d \<and> alloc_size i = sizeof_allocdetail" by (force simp: image_iff)
  qed
  with ok assms(2) show ?thesis
    unfolding ok(14) by (intro install_detail_ok) (auto simp: mstate_ok_def settled_def)
qed


text \<open>A non-empty node is the one that \<open>alloc_find\<close> finds at its address.\<close>

lemma alloc_find_node:
  assumes "zones_ok st" "n \<in> set (zones st z)" "range_start n < range_end n"
  shows "alloc_find (range_start n) st = Some n"
proof -
  let ?P = "\<lambda>i. range_start i = range_start n"
  have here: "find ?P (zones st z) = Some n"
    by (rule find_start [OF zones_okD(1) [OF assms(1)] assms(2,3)])
  have there: "find ?P (zones st z') = None" if "z' \<noteq> z" for z'
    using zones_ok_cross(2) [OF assms(1) that _ assms(2)] by (auto simp: find_None_iff)
  have "find ?P (concat (map (zones st) zs)) = Some n" if "z \<in> set zs" for zs
    using that here there
  proof (induction zs)
    case Nil
    then show ?case by simp
  next
    case (Cons z' zs)
    have app: "find ?P (xs @ ys) = (case find ?P xs of None \<Rightarrow> find ?P ys | Some i \<Rightarrow> Some i)"
      for xs ys by (induction xs) auto
    show ?case using Cons by (cases "z' = z") (auto simp: app)
  qed
  moreover have "z \<in> set Zones" by (cases z) (simp_all add: Zones_def)
  ultimately show ?thesis by (simp add: alloc_find_def all_infos_def)
qed

lemma alloc_free_nodes: "node ` set (alloc_free n l) \<subseteq> node ` set l"
  by (induction l) (auto split: list.splits if_splits)

lemma alloc_in_free:
  assumes "alloc_in z sz align fill st = (st', a)" "fill \<notin> nodes_of st"
  shows "alloc_free fill (zones st' z') = zones st z'"
proof -
  obtain l where l: "alloc_new sz align fill (zones st z) = (l, a)" "st' = set_zone z l st"
    using assms(1) by (auto simp: alloc_in_def split: prod.splits)
  have "fill \<notin> node ` set (zones st z')" for z'
    using assms(2) by (auto simp: nodes_of_def)
  then show ?thesis
    using alloc_free_new [OF l(1)] alloc_free_append [of fill "zones st z'" "[]"] by (simp add: l(2))
qed

lemma alloc_in_handles: "alloc_in z sz align fill st = (st', a) \<Longrightarrow> handles st' = handles st"
  by (auto simp: alloc_in_def split: prod.splits)

text \<open>Freeing the two nodes in the order of \<open>malloc_pfree\<close> undoes both allocations.\<close>

lemma free_both:
  assumes st1: "alloc_in z sz align TempData st = (st1, data)" "TempData \<notin> nodes_of st"
    and st2: "alloc_in z2 sizeof_allocdetail MALLOC_MIN_ALIGN TempDetail st1 = (st2, d)"
      "TempDetail \<notin> nodes_of st1"
    and ok: "zones_ok st" "zones_ok st1" "zones_ok st2" "good_request sz align"
    and fresh: "DataOf d \<notin> nodes_of st2" "DetailOf d \<notin> nodes_of st2"
    and temp: "TempData \<in> nodes_of st2" "TempDetail \<in> nodes_of st2" "TempDetail \<notin> nodes_of st"
  shows "alloc_free (DetailOf d) (alloc_free (DataOf d) (ren d (zones st2 z'))) = zones st z'"
proof -
  let ?l = "zones st2 z'"
  have sz: "sz \<noteq> 0" using ok(4) by (simp add: good_request_def)
  have inj: "inj_on (ren_ref d) (nodes_of st2)" by (rule ren_ref_inj [OF fresh])
  have sub: "node ` set ?l \<subseteq> nodes_of st2" by (auto simp: nodes_of_def)
  have size1: "alloc_size x = sz" if "x \<in> set (zones st1 z')" "node x = TempData" for x
    using alloc_in_origin [OF st1(1) ok(1,4) that(1)] that(2) st1(2)
    by (fastforce simp: nodes_of_def image_iff)
  have size2: "alloc_size x \<noteq> 0" if "x \<in> set ?l" "node x = TempData \<or> node x = TempDetail" for x
    using alloc_in_origin [OF st2(1) ok(2) good_detail_request that(1)] that(2) size1 sz st2(2)
    by (fastforce simp: nodes_of_def image_iff sizeof_allocdetail_def)
  have "alloc_free TempDetail (alloc_free TempData ?l) = alloc_free TempData (alloc_free TempDetail ?l)"
    using size2 zones_okD(2,3) [OF ok(3)]
    by (intro alloc_free_commute tiled_giving) auto
  also have "\<dots> = zones st z'"
    by (simp add: alloc_in_free [OF st2] alloc_in_free [OF st1])
  finally have both: "alloc_free TempDetail (alloc_free TempData ?l) = zones st z'" .
  have "alloc_free (ren_ref d TempData) (ren d ?l) = ren d (alloc_free TempData ?l)"
    using sub temp(1) by (intro alloc_free_rename inj_on_subset [OF inj]) auto
  moreover have "alloc_free (ren_ref d TempDetail) (ren d (alloc_free TempData ?l)) =
      ren d (alloc_free TempDetail (alloc_free TempData ?l))"
    using sub temp(2) alloc_free_nodes [of TempData ?l]
    by (intro alloc_free_rename inj_on_subset [OF inj]) auto
  moreover have "ren d (zones st z') = zones st z'"
    using st1(2) temp(3) by (intro ren_id) (auto simp: nodes_of_def)
  ultimately show ?thesis by (simp add: both ren_ref_def)
qed

text \<open>The state after a successful \<open>malloc_palloc\<close>: the data node, with its descriptor's
  address, and the frees that undo the two allocations.\<close>

lemma palloc_result:
  assumes "malloc_palloc z sz align st = (st', data)" "mstate_ok st" "good_request sz align"
    "data \<noteq> 0"
  obtains n d where "alloc_find data st' = Some n" "node n = DataOf d" "alloc_size n = sz"
    "n \<in> set (zones st' z)" "data \<noteq> virt_to_phys (DataOf d)" "handles st' = (handles st)(d := MALLOC_DEFAULT_HANDLE)"
    "\<And>z'. alloc_free (DetailOf d) (alloc_free (DataOf d) (zones st' z')) = zones st z'"
  using assms(1-3)
proof (cases rule: palloc_cases)
  case fail
  with assms(4) show ?thesis by simp
next
  case (ok st1 st2 z2 d)
  have settled: "TempData \<notin> nodes_of st" "TempDetail \<notin> nodes_of st"
    using assms(2) by (auto simp: mstate_ok_def settled_def)
  have ok': "zones_ok st'" using palloc_ok [OF assms(1-3)] by (simp add: mstate_ok_def)
  have temp1: "TempDetail \<notin> nodes_of st1" using ok(5) settled by simp
  have req: "sz \<noteq> 0" using assms(3) by (simp add: good_request_def)
  obtain n1 where n1: "n1 \<in> set (zones st1 z)" "node n1 = TempData" "range_start n1 = data"
      "alloc_size n1 = sz"
    using alloc_in_node [OF ok(2) _ assms(3,4)] assms(2) by (auto simp: mstate_ok_def)
  obtain n2 where n2: "n2 \<in> set (zones st2 z)" "node n2 = TempData" "range_start n2 = data"
      "alloc_size n2 = sz"
    using alloc_in_keeps [OF ok(8) ok(3) good_detail_request n1(1)] n1 by metis
  obtain t2 where t2: "t2 \<in> set (zones st2 z2)" "node t2 = TempDetail" "range_start t2 = d"
      "alloc_size t2 = sizeof_allocdetail"
    using alloc_in_node [OF ok(8) ok(3) good_detail_request ok(6)] .
  define n where "n = n2\<lparr>node := DataOf d\<rparr>"
  define t where "t = t2\<lparr>node := DetailOf d\<rparr>"
  have n: "n \<in> set (zones st' z)" "node n = DataOf d" "range_start n = data" "alloc_size n = sz"
    using n2 by (auto simp: n_def ok(14) install_detail_zones ren_ref_def image_iff intro!: bexI [of _ n2])
  have t: "t \<in> set (zones st' z2)" "node t = DetailOf d" "range_start t = d"
      "alloc_size t = sizeof_allocdetail"
    using t2 by (auto simp: t_def ok(14) install_detail_zones ren_ref_def image_iff intro!: bexI [of _ t2])
  have nodes: "node_ok n" "node_ok t"
    using zone_ok_node [OF zones_okD(1) [OF ok']] n(1) t(1) by blast+
  have "unat data + unat sz \<le> unat (range_end n)" "unat d + 44 \<le> unat (range_end t)"
    using nodes n t by (auto simp: node_ok_def sizeof_allocdetail_def)
  moreover have "0 < unat sz" using req by (simp add: unat_gt_0)
  ultimately have ne: "range_start n < range_end n"
    using n by (simp add: word_less_nat_alt)
  have "n \<noteq> t" using n(2) t(2) by auto
  then have "range_end n \<le> d \<or> range_end t \<le> data"
    using nodes_apart [OF ok' n(1) t(1)] n(3) t(3) by auto
  then have "data \<noteq> d + 20"
    using \<open>unat data + unat sz \<le> _\<close> \<open>unat d + 44 \<le> _\<close> \<open>0 < unat sz\<close> unat_u32_bound [of "range_end t"]
    by (auto simp: word_le_nat_alt unat_word_ariths)
  moreover have "handles st' = (handles st)(d := MALLOC_DEFAULT_HANDLE)"
    using alloc_in_handles [OF ok(2)] alloc_in_handles [OF ok(8)]
    by (simp add: ok(14) install_detail_def)
  moreover have "alloc_free (DetailOf d) (alloc_free (DataOf d) (zones st' z')) = zones st z'" for z'
    using assms(2,3) ok settled temp1
    by (simp add: ok(14) install_detail_zones, intro free_both [OF ok(2) _ ok(8)])
      (auto simp: mstate_ok_def)
  ultimately show ?thesis
    using that [of n d] alloc_find_node [OF ok' n(1) ne] n by (simp add: sizeof_allocinfo_def)
qed


section \<open>Setup\<close>

definition BUILD_STACK_ADDR :: u32 where "BUILD_STACK_ADDR = 0x7000"
definition BUILD_EBDA_MINIMUM :: u32 where "BUILD_EBDA_MINIMUM = 0x90000"
definition BUILD_LOWRAM_END :: u32 where "BUILD_LOWRAM_END = 0xa0000"
definition BUILD_BIOS_ADDR :: u32 where "BUILD_BIOS_ADDR = 0xf0000"
definition BUILD_BIOS_SIZE :: u32 where "BUILD_BIOS_SIZE = 0x10000"
definition BUILD_MAX_HIGHTABLE :: u32 where "BUILD_MAX_HIGHTABLE = 0x40000"
definition PAGE_SIZE :: u32 where "PAGE_SIZE = 4096"

definition e820_update :: "(e820entry list \<Rightarrow> e820entry list) \<Rightarrow> mstate \<Rightarrow> mstate" where
  "e820_update f st = st\<lparr>m_e820 := f (m_e820 st)\<rparr>"

text \<open>The loop over the e820 map in \<open>malloc_preinit\<close>, from the last entry down: it adds the RAM
  ranges above 1 MiB and below 4 GiB to \<open>ZoneTmpHigh\<close> and keeps room for the high tables in
  the first one that has it. The list is the part of the map that is left, last entry first.\<close>

fun preinit_loop :: "e820entry list \<Rightarrow> u32 \<Rightarrow> mstate \<Rightarrow> u32 \<times> mstate" where
  "preinit_loop [] highram st = (highram, st)"
| "preinit_loop (en # ens) highram st =
     (let fin = e820_end en in
      if fin < 1024 * 1024 then (highram, st)
      else if e_type en \<noteq> E820_RAM \<or> fin > 0xffffffff then preinit_loop ens highram st
      else
        let s = ucast (e_start en); e = ucast fin in
        if highram = 0 then
          let newe = ALIGN_DOWN (e - BUILD_MAX_HIGHTABLE) MALLOC_MIN_ALIGN in
          if newe \<le> e \<and> newe \<ge> s
          then preinit_loop ens newe (alloc_add ZoneTmpHigh s newe st)
          else preinit_loop ens highram (alloc_add ZoneTmpHigh s e st)
        else preinit_loop ens highram (alloc_add ZoneTmpHigh s e st))"

definition malloc_preinit :: "mstate \<Rightarrow> mstate" where
  "malloc_preinit st =
     (let st1 = e820_update (e820_remove (ucast BUILD_LOWRAM_END)
            (ucast (BUILD_BIOS_ADDR - BUILD_LOWRAM_END))) st;
          st2 = e820_update (e820_add (ucast BUILD_BIOS_ADDR) (ucast BUILD_BIOS_SIZE) E820_RESERVED) st1;
          (highram, st3) = preinit_loop (rev (m_e820 st2)) 0 st2;
          st4 = alloc_add ZoneTmpLow BUILD_STACK_ADDR BUILD_EBDA_MINIMUM st3
      in if highram \<noteq> 0 then
           e820_update (e820_add (ucast highram) (ucast BUILD_MAX_HIGHTABLE) E820_RESERVED)
             (alloc_add ZoneHigh highram (highram + BUILD_MAX_HIGHTABLE) st4)
         else st4)"

definition malloc_csm_preinit :: "u32 \<Rightarrow> u32 \<Rightarrow> u32 \<Rightarrow> u32 \<Rightarrow> mstate \<Rightarrow> mstate" where
  "malloc_csm_preinit low_pmm low_pmm_size hi_pmm hi_pmm_size st =
     (let st1 =
        (if hi_pmm_size > BUILD_MAX_HIGHTABLE then
           let hi_pmm_end = hi_pmm + hi_pmm_size in
           alloc_add ZoneHigh (hi_pmm_end - BUILD_MAX_HIGHTABLE) hi_pmm_end
             (alloc_add ZoneTmpHigh hi_pmm (hi_pmm_end - BUILD_MAX_HIGHTABLE) st)
         else alloc_add ZoneTmpHigh hi_pmm (hi_pmm + hi_pmm_size) st)
      in alloc_add ZoneTmpLow low_pmm (low_pmm + low_pmm_size) st1)"

text \<open>The last entry of the map that ends below 4 GiB and is RAM or ACPI memory decides the RAM
  size.\<close>

definition calcRamSize :: "mstate \<Rightarrow> mstate" where
  "calcRamSize st =
     (let rs = (case find (\<lambda>en. e820_end en \<le> 0xffffffff \<and>
            (e_type en = E820_ACPI \<or> e_type en = E820_RAM)) (rev (m_e820 st)) of
          None \<Rightarrow> 0 | Some en \<Rightarrow> ucast (e820_end en))
      in st\<lparr>LegacyRamSize := (if rs \<ge> 1024 * 1024 then rs else 1024 * 1024)\<rparr>)"

text \<open>The linker symbols are parameters: \<open>zonelow_base\<close>, \<open>final_varlow_start\<close>,
  \<open>zonefseg_start\<close> and \<open>zonefseg_end\<close> come from \<open>scripts/layoutrom.py\<close>. Relocation
  fixes the list heads up, which the list model does not see.\<close>

definition malloc_init :: "u32 \<Rightarrow> u32 \<Rightarrow> u32 \<Rightarrow> u32 \<Rightarrow> mstate \<Rightarrow> mstate" where
  "malloc_init zonelow_base final_varlow_start zonefseg_start zonefseg_end st =
     (let st1 = alloc_add ZoneLow (zonelow_base + OPROM_HEADER_RESERVE) final_varlow_start st;
          st2 = st1\<lparr>RomBase := map_option node (alloc_find_lowest (zones st1 ZoneLow))\<rparr>;
          st3 = alloc_add ZoneFSeg zonefseg_start zonefseg_end st2
      in calcRamSize st3)"

text \<open>\<open>malloc_prepboot\<close>: the e820 map gets the low memory above the \<open>mem_size_kb\<close> of the
  BIOS data area as reserved, and the unused rest of \<open>ZoneHigh\<close> back as RAM.\<close>

definition malloc_prepboot :: "u16 \<Rightarrow> mstate \<Rightarrow> mstate" where
  "malloc_prepboot mem_size_kb st =
     (let endlow = ucast mem_size_kb * 1024 :: u32;
          st1 = e820_update (e820_add (ucast endlow) (ucast (BUILD_LOWRAM_END - endlow)) E820_RESERVED) st;
          st2 = (case alloc_find_lowest (zones st1 ZoneHigh) of
                   None \<Rightarrow> st1
                 | Some info \<Rightarrow>
                     let giveback = ALIGN_DOWN (range_end info - range_start info) PAGE_SIZE
                     in e820_update (e820_add (ucast (range_start info)) (ucast giveback) E820_RAM) st1)
      in calcRamSize st2)"

end
