(* ===== verification/MallocProps.thy ===== *)
theory MallocProps
  imports Malloc
begin

text \<open>
  The properties of the allocator of \<open>src/malloc.c\<close>: what \<open>malloc_palloc\<close> hands out,
  that every operation keeps the zones well-formed (\<open>mstate_ok\<close>), that freeing undoes
  allocating, that handles find their block, the limits of the option rom area, and what the setup
  code makes of the memory map.
\<close>

section \<open>alloc_free keeps the zones well-formed\<close>

text \<open>Freeing a node that can give its range to the next one: the node is gone, the next one is
  longer, and every other node stays.\<close>

lemma alloc_free_shape:
  assumes "giving n l" "distinct (map node l)" "n \<in> node ` set l"
  shows "\<exists>xs i j ys. l = xs @ i # j # ys \<and> node i = n \<and> range_end j = range_start i \<and>
    alloc_free n l = xs @ j\<lparr>range_end := range_end i\<rparr> # ys"
  using assms
proof (induction l)
  case Nil
  then show ?case by simp
next
  case (Cons x r)
  show ?case
  proof (cases "node x = n")
    case True
    with Cons.prems(1) obtain j ys where "r = j # ys" "range_end j = range_start x"
      by (cases r) auto
    with True show ?thesis by (intro exI [of _ "[]"] exI [of _ x] exI [of _ j] exI [of _ ys]) simp
  next
    case False
    with Cons.prems have "giving n r" "distinct (map node r)" "n \<in> node ` set r" by auto
    from Cons.IH [OF this] obtain xs i j ys where "r = xs @ i # j # ys" "node i = n"
        "range_end j = range_start i" "alloc_free n r = xs @ j\<lparr>range_end := range_end i\<rparr> # ys"
      by blast
    with False show ?thesis
      by (intro exI [of _ "x # xs"] exI [of _ i] exI [of _ j] exI [of _ ys]) simp
  qed
qed

lemma alloc_free_other: "n \<notin> node ` set l \<Longrightarrow> alloc_free n l = l"
  using alloc_free_append [of n l "[]"] by simp

text \<open>One linked node is freed, in a state whose zones are all well-formed.\<close>

definition allocated :: "node_ref \<Rightarrow> mstate \<Rightarrow> bool" where
  "allocated n st \<longleftrightarrow> (\<forall>z. \<forall>x \<in> set (zones st z). node x = n \<longrightarrow> alloc_size x \<noteq> 0)"

lemma node_unique_zone:
  assumes "zones_ok st" "x \<in> set (zones st z1)" "y \<in> set (zones st z2)" "node x = node y"
  shows "z1 = z2"
  using zones_ok_cross(1) [OF assms(1) _ assms(2,3)] assms(4) by blast

lemma node_ok_merge:
  assumes "node_ok i" "node_ok j" "range_end j = range_start i"
  shows "node_ok (j\<lparr>range_end := range_end i\<rparr>)"
  using assms by (simp add: node_ok_def)

lemma zone_ok_merge:
  assumes "zone_ok (xs @ i # j # ys)" "range_end j = range_start i"
  shows "zone_ok (xs @ j\<lparr>range_end := range_end i\<rparr> # ys)"
  using assms by (auto simp: zone_ok_append node_ok_merge)

lemma tiled_merge:
  assumes "tiled (xs @ i # j # ys)" "range_end j = range_start i"
  shows "tiled (xs @ j\<lparr>range_end := range_end i\<rparr> # ys)"
proof -
  have "tiled (j # ys)" using assms(1) by (auto dest: tiled_appendD [of "xs @ [i]", simplified])
  then have "tiled (j\<lparr>range_end := range_end i\<rparr> # ys)" by (simp split: list.splits)
  then show ?thesis by (intro tiled_replace [OF assms(1)]) auto
qed

lemma apart_merge:
  assumes "apart i y" "apart j y" "range_end j = range_start i" "node_ok i" "node_ok j" "node_ok y"
  shows "apart (j\<lparr>range_end := range_end i\<rparr>) y"
proof -
  have "unat (range_start i) \<noteq> unat (range_start y)"
    using assms(1) by (simp add: apart_def word_unat_eq_iff)
  then show ?thesis
    using assms by (auto simp: apart_def node_ok_def word_le_nat_alt)
qed

lemma free_zones_ok:
  assumes "zones_ok st" "allocated n st"
  shows "zones_ok (map_zones (alloc_free n) st)"
proof (cases "\<exists>z. n \<in> node ` set (zones st z)")
  case False
  then have "map_zones (alloc_free n) st = st"
    by (simp add: map_zones_def alloc_free_other)
  with assms(1) show ?thesis by simp
next
  case True
  then obtain z where z: "n \<in> node ` set (zones st z)" by blast
  have "giving n (zones st z)"
    using assms(2) zones_okD(2) [OF assms(1)] by (auto simp: allocated_def intro: tiled_giving)
  from alloc_free_shape [OF this zones_okD(3) [OF assms(1), of z] z]
  obtain xs i j ys where
    f: "zones st z = xs @ i # j # ys" "node i = n" "range_end j = range_start i"
      "alloc_free n (zones st z) = xs @ j\<lparr>range_end := range_end i\<rparr> # ys"
    by blast
  have other: "alloc_free n (zones st z') = zones st z'" if "z' \<noteq> z" for z'
    using z that node_unique_zone [OF assms(1)] by (intro alloc_free_other) blast
  have in_z: "i \<in> set (zones st z)" "j \<in> set (zones st z)" by (simp_all add: f(1))
  have ok_of: "node_ok x" if "x \<in> set (zones st z')" for x z'
    by (rule zone_ok_node [OF zones_okD(1) [OF assms(1)] that])
  have cross: "apart x y"
    if "x \<in> set (alloc_free n (zones st z))" "y \<in> set (zones st z')" "z' \<noteq> z" for x y z'
  proof -
    have base: "apart w y" if "w \<in> set (zones st z)" for w
      using assms(1) that \<open>y \<in> _\<close> \<open>z' \<noteq> z\<close> unfolding zones_ok_def by metis
    show ?thesis
    proof (cases "x \<in> set (zones st z)")
      case True
      then show ?thesis by (rule base)
    next
      case False
      with that(1) have "x = j\<lparr>range_end := range_end i\<rparr>" unfolding f(4) by (auto simp: f(1))
      then show ?thesis
        using base in_z f(3) ok_of [OF in_z(1)] ok_of [OF in_z(2)] ok_of [OF that(2)]
        by (simp add: apart_merge)
    qed
  qed
  have here: "zone_ok (alloc_free n (zones st z))" "tiled (alloc_free n (zones st z))"
    "distinct (map node (alloc_free n (zones st z)))"
    unfolding f(4) using zones_okD [OF assms(1), of z] f(3)
    by (auto simp: f(1) intro: zone_ok_merge tiled_merge)
  show ?thesis
    unfolding zones_ok_def
  proof (intro conjI allI impI ballI)
    fix z'
    show "zone_ok (zones (map_zones (alloc_free n) st) z')"
      "tiled (zones (map_zones (alloc_free n) st) z')"
      "distinct (map node (zones (map_zones (alloc_free n) st) z'))"
      using here other [of z'] zones_okD [OF assms(1), of z'] by (cases "z' = z"; simp)+
  next
    fix z1 z2 x y
    assume xy: "z1 \<noteq> z2" "x \<in> set (zones (map_zones (alloc_free n) st) z1)"
      "y \<in> set (zones (map_zones (alloc_free n) st) z2)"
    consider "z1 = z" | "z2 = z" | "z1 \<noteq> z" "z2 \<noteq> z" by blast
    then show "apart x y"
    proof cases
      case 1
      with xy other [of z2] show ?thesis by (intro cross [of x y z2]) auto
    next
      case 2
      with xy other [of z1] show ?thesis by (intro apart_sym [OF cross [of y x z1]]) auto
    next
      case 3
      with xy other [of z1] other [of z2] assms(1) show ?thesis unfolding zones_ok_def by auto
    qed
  qed
qed


section \<open>malloc_pfree\<close>

lemma all_infos_zone: "i \<in> set (all_infos st) \<longleftrightarrow> (\<exists>z. i \<in> set (zones st z))"
proof -
  have "z \<in> set Zones" for z by (cases z) (simp_all add: Zones_def)
  then show ?thesis by (auto simp: all_infos_def)
qed

lemma alloc_find_some:
  "alloc_find data st = Some i \<Longrightarrow> (\<exists>z. i \<in> set (zones st z)) \<and> range_start i = data"
  unfolding alloc_find_def find_Some_iff all_infos_zone [symmetric] by (metis nth_mem)

text \<open>A block that \<open>malloc_pfree\<close> accepts is the \<open>datainfo\<close> of a descriptor.\<close>

lemma tracked_data:
  assumes "mstate_ok st" "alloc_find data st = Some i" "\<not> not_tracked data i"
  obtains d z where "node i = DataOf d" "i \<in> set (zones st z)" "detail_of (node i) = d"
    "alloc_size i \<noteq> 0"
proof -
  obtain z where z: "i \<in> set (zones st z)" "range_start i = data"
    using alloc_find_some [OF assms(2)] by blast
  then have "node i \<in> nodes_of st" by (auto simp: nodes_of_def)
  with assms(1) have "node i \<noteq> TempData" "node i \<noteq> TempDetail"
    by (auto simp: mstate_ok_def settled_def)
  moreover have "node i \<noteq> DetailOf d" for d
    using assms(1,3) z by (auto simp: mstate_ok_def details_ok_def not_tracked_def)
  ultimately obtain d where "node i = DataOf d" by (cases "node i") auto
  with z assms(3) show ?thesis
    by (intro that [of d z]) (auto simp: detail_of_def not_tracked_def)
qed

lemma free_nodes_of:
  assumes "zones_ok st" "allocated n st"
  shows "nodes_of (map_zones (alloc_free n) st) = nodes_of st - {n}"
proof -
  have "node ` set (alloc_free n (zones st z)) = node ` set (zones st z) - {n}" for z
  proof (cases "n \<in> node ` set (zones st z)")
    case False
    then show ?thesis by (simp add: alloc_free_other)
  next
    case True
    have g: "giving n (zones st z)"
      using assms(2) zones_okD(2) [OF assms(1)] by (auto simp: allocated_def intro: tiled_giving)
    from alloc_free_shape [OF g zones_okD(3) [OF assms(1)] True] obtain xs i j ys where
      f: "zones st z = xs @ i # j # ys" "node i = n"
        "alloc_free n (zones st z) = xs @ j\<lparr>range_end := range_end i\<rparr> # ys" by blast
    show ?thesis
      unfolding f(3) using zones_okD(3) [OF assms(1), of z] f(2) by (auto simp: f(1) image_iff)
  qed
  then show ?thesis by (auto simp: nodes_of_def)
qed

text \<open>A node of the zone after a free is a node of before, possibly with a larger range.\<close>

lemma alloc_free_origin:
  "x \<in> set (alloc_free n l) \<Longrightarrow>
     \<exists>y \<in> set l. node y = node x \<and> range_start y = range_start x \<and> alloc_size y = alloc_size x"
proof (induction l)
  case Nil
  then show ?case by simp
next
  case (Cons y r)
  show ?case
  proof (cases "node y = n")
    case True
    with Cons.prems show ?thesis by (cases r) (auto split: if_splits)
  next
    case False
    with Cons show ?thesis by auto
  qed
qed

lemma allocated_free: "allocated m st \<Longrightarrow> allocated m (map_zones (alloc_free n) st)"
  using alloc_free_origin by (fastforce simp: allocated_def)

lemma details_free: "details_ok st \<Longrightarrow> details_ok (map_zones (alloc_free n) st)"
  using alloc_free_origin unfolding details_ok_def zones_simps by metis

lemma map_zones_comp: "map_zones (f \<circ> g) st = map_zones f (map_zones g st)"
  by (simp add: map_zones_def)

lemma unique_node:
  assumes "zones_ok st" "x \<in> set (zones st z1)" "y \<in> set (zones st z2)" "node x = node y"
  shows "x = y"
  using node_unique_zone [OF assms] zones_okD(3) [OF assms(1), of z1] assms(2-4)
  by (auto simp: distinct_map inj_on_def)

lemma pfree_tracked:
  assumes "mstate_ok st" "alloc_find data st = Some i" "\<not> not_tracked data i"
  obtains d z where "node i = DataOf d" "i \<in> set (zones st z)" "alloc_size i \<noteq> 0" "range_start i = data"
    "malloc_pfree data st = (map_zones (alloc_free (DetailOf d)) (map_zones (alloc_free (DataOf d)) st), 0)"
    "mstate_ok (fst (malloc_pfree data st))" "nodes_of (fst (malloc_pfree data st)) = nodes_of st - {DataOf d, DetailOf d}"
proof -
  from assms obtain d z where
    i: "node i = DataOf d" "i \<in> set (zones st z)" "detail_of (node i) = d" "alloc_size i \<noteq> 0"
    by (rule tracked_data)
  have ok: "zones_ok st" "details_ok st" "settled st" using assms by (auto simp: mstate_ok_def)
  define st1 where "st1 = map_zones (alloc_free (DataOf d)) st"
  define st2 where "st2 = map_zones (alloc_free (DetailOf d)) st1"
  have data: "allocated (DataOf d) st"
    unfolding allocated_def using unique_node [OF ok(1) _ i(2)] i(1,4) by metis
  have det: "allocated (DetailOf d) st"
    using ok(2) by (auto simp: allocated_def details_ok_def sizeof_allocdetail_def)
  have s1: "zones_ok st1" "details_ok st1" "allocated (DetailOf d) st1"
    "nodes_of st1 = nodes_of st - {DataOf d}"
    unfolding st1_def
    by (fact free_zones_ok [OF ok(1) data] details_free [OF ok(2)]
      allocated_free [OF det] free_nodes_of [OF ok(1) data])+
  have s2: "zones_ok st2" "details_ok st2" "nodes_of st2 = nodes_of st1 - {DetailOf d}"
    unfolding st2_def
    by (fact free_zones_ok [OF s1(1,3)] details_free [OF s1(2)] free_nodes_of [OF s1(1,3)])+
  then have "mstate_ok st2" using ok(3) s1(4) by (auto simp: mstate_ok_def settled_def)
  moreover have "nodes_of st2 = nodes_of st - {DataOf d, DetailOf d}" using s1(4) s2(3) by auto
  moreover have "malloc_pfree data st = (st2, 0)"
    using assms(2,3) i by (simp add: malloc_pfree_def map_zones_comp st1_def st2_def)
  moreover have "range_start i = data" using alloc_find_some [OF assms(2)] by simp
  ultimately show ?thesis using i by (intro that) (simp_all add: st1_def st2_def)
qed

lemma pfree_ok:
  assumes "mstate_ok st"
  shows "mstate_ok (fst (malloc_pfree data st))"
proof (cases "\<exists>i. alloc_find data st = Some i \<and> \<not> not_tracked data i")
  case True
  then show ?thesis by (auto elim: pfree_tracked [OF assms])
next
  case False
  with assms show ?thesis by (auto simp: malloc_pfree_def split: option.split)
qed


section \<open>alloc_add\<close>

text \<open>The last step of \<open>alloc_add\<close>: the temporary nodes get their descriptor.\<close>

lemma alloc_new_detail_ok:
  assumes "alloc_new_detail h st = (st', d)" "d \<noteq> 0" "zones_ok st" "details_ok st"
    and nodes: "nodes_of st = insert TempData S" "TempData \<notin> S" "TempDetail \<notin> S"
    and pair: "\<forall>e. DataOf e \<in> S \<longrightarrow> DetailOf e \<in> S"
  shows "mstate_ok st'"
  using assms(1,3)
proof (cases rule: alloc_new_detail_cases)
  case fail
  with assms(2) show ?thesis by simp
next
  case (ok z st1)
  have temp: "TempDetail \<notin> nodes_of st" using nodes by simp
  have st1: "zones_ok st1" "details_ok st1"
    using alloc_in_zones_ok [OF ok(3) assms(3) good_detail_request temp]
      alloc_in_details [OF ok(3) assms(3) good_detail_request assms(4)] by auto
  have n1: "nodes_of st1 = insert TempDetail (insert TempData S)"
    using alloc_in_nodes [OF ok(3) assms(3) good_detail_request] ok(1) nodes(1) by simp
  have fresh: "DetailOf d \<notin> nodes_of st"
    by (rule alloc_in_fresh [OF ok(3) assms(3) good_detail_request ok(1) assms(4)])
  have "\<forall>z. \<forall>i \<in> set (zones st1 z). node i = TempDetail \<longrightarrow>
      range_start i = d \<and> alloc_size i = sizeof_allocdetail"
  proof (intro allI ballI impI)
    fix z' i assume i: "i \<in> set (zones st1 z')" "node i = TempDetail"
    have "TempDetail \<notin> node ` set (zones st z')" using temp by (auto simp: nodes_of_def)
    with alloc_in_origin [OF ok(3) assms(3) good_detail_request i(1)] i(2)
    show "range_start i = d \<and> alloc_size i = sizeof_allocdetail" by (force simp: image_iff)
  qed
  with st1 n1 fresh nodes(1) pair show ?thesis
    unfolding ok(4) by (intro install_detail_ok) auto
qed

lemma insert_zone_ok:
  assumes "zone_ok l" "node_ok n" "range_start n < range_end n"
    and "\<forall>x \<in> set l. (range_end n \<le> range_start x \<or> range_end x \<le> range_start n) \<and>
      range_start x \<noteq> range_start n"
  shows "zone_ok (hlist_insert (\<lambda>i. range_start i < range_start n) n l)"
  using assms(1,4)
proof (induction l)
  case Nil
  with assms(2) show ?case by simp
next
  case (Cons x l)
  have x: "range_start x \<le> range_end x"
    using Cons.prems(1) by (auto simp: node_ok_def word_le_nat_alt)
  show ?case
  proof (cases "range_start x < range_start n")
    case True
    then have "range_end x \<le> range_start n" using Cons.prems(2) assms(3) by auto
    with True x have "\<forall>y \<in> set (x # l). range_end y \<le> range_start n" using Cons.prems(1) by auto
    with True Cons.prems(1) assms(2) show ?thesis by simp
  next
    case False
    then have "range_end n \<le> range_start x" using Cons.prems(2) x by auto
    with False Cons show ?thesis by simp
  qed
qed

lemma insert_tiled:
  assumes "tiled l" "zone_ok l" "alloc_size n = 0" "range_start n < range_end n"
    and "\<forall>x \<in> set l. (range_end n \<le> range_start x \<or> range_end x \<le> range_start n) \<and>
      range_start x \<noteq> range_start n"
  shows "tiled (hlist_insert (\<lambda>i. range_start i < range_start n) n l)"
  using assms(1,2,5)
proof (induction l)
  case Nil
  with assms(3) show ?case by simp
next
  case (Cons x l)
  show ?case
  proof (cases "range_start x < range_start n")
    case True
    with Cons.prems(1) assms(3) show ?thesis by simp
  next
    case stop: False
    have IH: "tiled (hlist_insert (\<lambda>i. range_start i < range_start n) n l)"
      using Cons by simp
    show ?thesis
    proof (cases l)
      case Nil
      with Cons.prems(1) stop IH show ?thesis by simp
    next
      case (Cons y l')
      have "range_start y \<le> range_end y" "range_start x \<le> range_end x"
        using Cons.prems(2) \<open>l = y # l'\<close> by (auto simp: node_ok_def word_le_nat_alt)
      moreover have "range_end y \<noteq> range_start x" if "range_start y < range_start n"
        using Cons.prems(3) \<open>l = y # l'\<close> stop assms(4) that calculation by auto
      ultimately show ?thesis
        using Cons.prems(1) stop IH \<open>l = y # l'\<close> by (auto split: if_splits)
    qed
  qed
qed

text \<open>Memory that no node of the allocator describes yet.\<close>

definition unused_range :: "u32 \<Rightarrow> u32 \<Rightarrow> mstate \<Rightarrow> bool" where
  "unused_range start fin st \<longleftrightarrow> start \<noteq> 0 \<and> start < fin \<and>
     (\<forall>z. \<forall>x \<in> set (zones st z). (fin \<le> range_start x \<or> range_end x \<le> start) \<and> range_start x \<noteq> start)"

lemma hlist_del_other: "n \<notin> node ` set l \<Longrightarrow> hlist_del n l = l"
  by (auto simp: hlist_del_def filter_id_conv)

lemma hlist_del_insert:
  "node n \<notin> node ` set l \<Longrightarrow> hlist_del (node n) (hlist_insert stop n l) = l"
  using hlist_del_other [of "node n" l]
  by (simp add: hlist_del_def filter_hlist_insert)

lemma alloc_add_keeps:
  assumes "mstate_ok st" "unused_range start fin st"
  shows "mstate_ok (alloc_add z start fin st)"
proof -
  let ?n = "\<lparr>node = TempData, range_start = start, range_end = fin, alloc_size = 0\<rparr>"
  define l where "l = hlist_insert (\<lambda>i. range_start i < start) ?n (zones st z)"
  define st1 where "st1 = set_zone z l st"
  have ok: "zones_ok st" "details_ok st" "settled st" using assms(1) by (auto simp: mstate_ok_def)
  have new: "TempData \<notin> node ` set (zones st z')" for z'
    using ok(3) by (auto simp: settled_def nodes_of_def)
  have free: "(fin \<le> range_start x \<or> range_end x \<le> start) \<and> range_start x \<noteq> start"
    if "x \<in> set (zones st z')" for x z' using assms(2) that by (auto simp: unused_range_def)
  have n_ok: "node_ok ?n" "start < fin"
    using assms(2) by (auto simp: unused_range_def node_ok_def word_less_nat_alt)
  have l: "zone_ok l" "tiled l" "distinct (map node l)"
  proof -
    show "zone_ok l" unfolding l_def
      using insert_zone_ok [of "zones st z" ?n] zones_okD [OF ok(1)] n_ok free by simp
    show "tiled l" unfolding l_def
      using insert_tiled [of "zones st z" ?n] zones_okD [OF ok(1)] n_ok free by simp
    have "distinct (map node (hlist_insert P ?n ys))"
      if "distinct (map node ys)" "TempData \<notin> node ` set ys" for P ys
      using that by (induction ys) auto
    then show "distinct (map node l)" unfolding l_def using zones_okD(3) [OF ok(1)] new by blast
  qed
  have set_l: "set l = insert ?n (set (zones st z))" by (simp add: l_def)
  have "apart ?n y" if "y \<in> set (zones st z')" for y z'
    using free [OF that] new [of z'] that by (auto simp: apart_def)
  then have z1: "zones_ok st1"
    using ok(1) l set_l apart_sym unfolding zones_ok_def st1_def by auto
  have n1: "nodes_of st1 = insert TempData (nodes_of st)"
  proof -
    have "node ` set (zones st1 z') =
        (if z' = z then insert TempData (node ` set (zones st z')) else node ` set (zones st z'))" for z'
      by (simp add: st1_def set_l)
    moreover have "(\<Union>k. if k = z then insert a (f k) else f k) = insert a (\<Union>k. f k)"
      for f :: "zone_id \<Rightarrow> node_ref set" and a
      by (auto split: if_splits)
    ultimately show ?thesis by (simp add: nodes_of_def)
  qed
  have d1: "details_ok st1" using ok(2) by (auto simp: details_ok_def st1_def set_l)
  obtain st2 d where s2: "alloc_new_detail MALLOC_DEFAULT_HANDLE st1 = (st2, d)" by fastforce
  have res: "alloc_add z start fin st = (if d = 0 then map_zones (hlist_del TempData) st2 else st2)"
    using s2 by (simp add: alloc_add_def st1_def l_def)
  show ?thesis
  proof (cases "d = 0")
    case True
    then have "st2 = st1" using alloc_new_detail_cases [OF s2 z1] by metis
    moreover have "hlist_del TempData l = zones st z"
      using hlist_del_insert [of ?n] new by (simp add: l_def)
    ultimately have "zones (alloc_add z start fin st) = zones st"
      using True new by (auto simp: res st1_def hlist_del_other)
    with assms(1) show ?thesis
      by (simp add: mstate_ok_def zones_ok_def details_ok_def settled_def nodes_of_def)
  next
    case False
    then show ?thesis
      using alloc_new_detail_ok [OF s2 False z1 d1 n1] ok(3) by (simp add: res settled_def)
  qed
qed


section \<open>The properties of the allocator\<close>

text \<open>The state before \<open>malloc_preinit\<close>, and one with a mebibyte of temporary high memory.\<close>

definition malloc_zero :: mstate where
  "malloc_zero = \<lparr>zones = (\<lambda>_. []), handles = (\<lambda>_. 0), m_e820 = [], RomEnd = BUILD_ROM_START,
     RomBase = None, LegacyRamSize = 0\<rparr>"

definition malloc_sample :: mstate where
  "malloc_sample = alloc_add ZoneTmpHigh 0x100000 0x200000 malloc_zero"

lemma malloc_zero_ok: "mstate_ok malloc_zero"
  by (simp add: mstate_ok_def zones_ok_def details_ok_def settled_def nodes_of_def malloc_zero_def)

lemma malloc_sample_ok: "mstate_ok malloc_sample"
  unfolding malloc_sample_def
  by (rule alloc_add_keeps [OF malloc_zero_ok]) (simp add: unused_range_def malloc_zero_def)

lemma sample_request: "good_request 0x100 0x1000"
  unfolding good_request_def pow2_def by (intro conjI exI [of _ 12]) simp_all

lemma sample_palloc: "snd (malloc_palloc ZoneTmpHigh 0x100 0x1000 malloc_sample) = 0x1ff000"
  by code_simp

lemma palloc_block:
  assumes "malloc_palloc z sz align st = (st', data)" "mstate_ok st" "good_request sz align" "data \<noteq> 0"
  shows "unat align dvd unat data \<and>
    (\<exists>i \<in> set (zones st z). unat (range_start i) + unat (alloc_size i) \<le> unat data \<and>
       unat data + unat sz \<le> unat (range_end i)) \<and>
    (\<forall>z'. \<forall>x \<in> set (zones st z'). unat data + unat sz \<le> unat (range_start x) \<or>
       unat (range_start x) + unat (alloc_size x) \<le> unat data) \<and>
    map_option alloc_size (alloc_find data st') = Some sz"
proof -
  obtain n where n: "alloc_find data st' = Some n" "alloc_size n = sz"
    using palloc_result [OF assms] by metis
  from assms(1-3) show ?thesis
  proof (cases rule: palloc_cases)
    case fail
    with assms(4) show ?thesis by simp
  next
    case (ok st1 st2 z2 d)
    have zok: "zones_ok st" using assms(2) by (simp add: mstate_ok_def)
    from ok(2) zok assms(3) show ?thesis
    proof (cases rule: alloc_in_cases)
      case none
      with assms(4) show ?thesis by simp
    next
      case (found xs i ys)
      have i: "i \<in> set (zones st z)" by (simp add: found(1))
      have "unat data + unat sz \<le> unat (range_start x) \<or>
          unat (range_start x) + unat (alloc_size x) \<le> unat data"
        if x: "x \<in> set (zones st z')" for x z'
      proof (cases "x = i")
        case True
        with found(5) show ?thesis by simp
      next
        case False
        then have "range_end x \<le> range_start i \<or> range_end i \<le> range_start x"
          using nodes_apart [OF zok x i] by blast
        moreover have "node_ok x" by (rule zone_ok_node [OF zones_okD(1) [OF zok] x])
        ultimately show ?thesis
          using found(4,5) by (auto simp: node_ok_def word_le_nat_alt)
      qed
      with found(4-6) i n show ?thesis by auto
    qed
  qed
qed

text \<open>C1. A block that \<open>malloc_palloc\<close> returns is aligned, does not wrap around the end of
  memory, lies in space that was free in a range of the requested zone, overlaps no allocation (data
  or descriptor) of any zone, and is found again under its address with the requested size.\<close>

theorem malloc_palloc_block:
  assumes "malloc_palloc z sz align st = (st', data)" "mstate_ok st" "good_request sz align" "data \<noteq> 0"
  shows "unat align dvd unat data \<and>
    (\<exists>i \<in> set (zones st z). unat (range_start i) + unat (alloc_size i) \<le> unat data \<and>
       unat data + unat sz \<le> unat (range_end i)) \<and>
    (\<forall>z'. \<forall>x \<in> set (zones st z'). unat data + unat sz \<le> unat (range_start x) \<or>
       unat (range_start x) + unat (alloc_size x) \<le> unat data) \<and>
    map_option alloc_size (alloc_find data st') = Some sz"
  using assms by (rule palloc_block)

theorem malloc_palloc_block_witness:
  "\<exists>i \<in> set (zones malloc_sample ZoneTmpHigh). 0x1ff100 \<le> unat (range_end i)"
proof -
  obtain st' where "malloc_palloc ZoneTmpHigh 0x100 0x1000 malloc_sample = (st', 0x1ff000)"
    using sample_palloc by (metis prod.collapse)
  from malloc_palloc_block [OF this malloc_sample_ok sample_request] show ?thesis by auto
qed

text \<open>C15. \<open>malloc_palloc\<close> keeps the zones well-formed: sorted, disjoint, every allocation
  next to the range it came from, every block with its descriptor. When it fails, also for want of
  memory for the descriptor, no zone has changed.\<close>

theorem malloc_palloc_ok:
  assumes "malloc_palloc z sz align st = (st', data)" "mstate_ok st" "good_request sz align"
  shows "mstate_ok st' \<and> (data = 0 \<longrightarrow> zones st' = zones st)"
proof
  show "mstate_ok st'" by (rule palloc_ok [OF assms])
  show "data = 0 \<longrightarrow> zones st' = zones st"
    using assms
  proof (cases rule: palloc_cases)
    case fail
    then show ?thesis by simp
  next
    case (ok st1 st2 z2 d)
    then show ?thesis by simp
  qed
qed

theorem malloc_palloc_ok_witness:
  "mstate_ok (fst (malloc_palloc ZoneTmpHigh 0x100 0x1000 malloc_sample))"
  using malloc_palloc_ok [OF prod.collapse [symmetric] malloc_sample_ok sample_request] by blast

lemma palloc_pfree:
  assumes "malloc_palloc z sz align st = (st', data)" "mstate_ok st" "good_request sz align" "data \<noteq> 0"
  shows "snd (malloc_pfree data st') = 0 \<and> zones (fst (malloc_pfree data st')) = zones st"
proof -
  obtain n d where n: "alloc_find data st' = Some n" "node n = DataOf d" "alloc_size n = sz"
      "data \<noteq> virt_to_phys (DataOf d)"
      "\<And>z'. alloc_free (DetailOf d) (alloc_free (DataOf d) (zones st' z')) = zones st z'"
    using palloc_result [OF assms] by metis
  moreover have "sz \<noteq> 0" using assms(3) by (simp add: good_request_def)
  ultimately show ?thesis
    by (auto simp: malloc_pfree_def not_tracked_def detail_of_def fun_eq_iff)
qed

text \<open>C8. Freeing a block that was just allocated succeeds and gives back every zone exactly as
  it was before the allocation.\<close>

theorem malloc_palloc_pfree:
  assumes "malloc_palloc z sz align st = (st', data)" "mstate_ok st" "good_request sz align" "data \<noteq> 0"
  shows "snd (malloc_pfree data st') = 0 \<and> zones (fst (malloc_pfree data st')) = zones st"
  using assms by (rule palloc_pfree)

theorem malloc_palloc_pfree_witness:
  "zones (fst (malloc_pfree 0x1ff000 (fst (malloc_palloc ZoneTmpHigh 0x100 0x1000 malloc_sample)))) =
    zones malloc_sample"
proof -
  obtain st' where st': "malloc_palloc ZoneTmpHigh 0x100 0x1000 malloc_sample = (st', 0x1ff000)"
    using sample_palloc by (metis prod.collapse)
  from malloc_palloc_pfree [OF this malloc_sample_ok sample_request] show ?thesis by (simp add: st')
qed

text \<open>Adding unused memory to a zone keeps the zones well-formed, whether or not there is
  space for its descriptor.\<close>

lemma alloc_add_ok:
  assumes "mstate_ok st" "unused_range start fin st"
  shows "mstate_ok (alloc_add z start fin st)"
  by (rule alloc_add_keeps [OF assms])


section \<open>Handles\<close>

text \<open>\<open>malloc_findhandle\<close> recognises the nodes that describe a descriptor by their address.\<close>

lemma detail_node_iff:
  assumes "mstate_ok st" "i \<in> set (zones st z)"
  shows "range_start i = virt_to_phys (node i) \<longleftrightarrow> node i = DetailOf (range_start i)"
proof -
  have ok: "zones_ok st" "details_ok st" "settled st" using assms(1) by (auto simp: mstate_ok_def)
  have "node i \<in> nodes_of st" using assms(2) by (auto simp: nodes_of_def)
  with ok(3) have temp: "node i \<noteq> TempData" "node i \<noteq> TempDetail" by (auto simp: settled_def)
  have "range_start i \<noteq> d + 20" if d: "node i = DataOf d" for d
  proof
    assume eq: "range_start i = d + 20"
    have "DetailOf d \<in> nodes_of st" using ok(3) \<open>node i \<in> _\<close> d by (simp add: settled_def)
    then obtain j z' where j: "j \<in> set (zones st z')" "node j = DetailOf d" by (auto simp: nodes_of_def)
    then have dj: "range_start j = d" "alloc_size j = sizeof_allocdetail"
      using ok(2) by (auto simp: details_ok_def)
    have nj: "node_ok j" "node_ok i"
      using zone_ok_node [OF zones_okD(1) [OF ok(1)]] j(1) assms(2) by blast+
    then have room: "unat d + 44 \<le> unat (range_end j)"
      using dj by (simp add: node_ok_def sizeof_allocdetail_def)
    then have "unat (range_start i) = unat d + 20"
      using eq unat_u32_bound [of "range_end j"] by (simp add: unat_add_small)
    moreover have "i \<noteq> j" using d j(2) by auto
    then have "range_end i \<le> range_start j \<or> range_end j \<le> range_start i"
      using nodes_apart [OF ok(1) assms(2) j(1)] by blast
    ultimately show False using nj(2) room dj(1) by (auto simp: node_ok_def word_le_nat_alt)
  qed
  with temp show ?thesis by (cases "node i") (auto simp: sizeof_allocinfo_def)
qed

lemma find_unique:
  assumes "x \<in> set l" "P x" "\<And>y. y \<in> set l \<Longrightarrow> P y \<Longrightarrow> y = x"
  shows "find P l = Some x"
  using assms
proof (induction l)
  case Nil
  then show ?case by simp
next
  case (Cons a l)
  show ?case
  proof (cases "a = x")
    case True
    with Cons.prems(2) show ?thesis by simp
  next
    case False
    with Cons.prems have "\<not> P a" "x \<in> set l" by auto
    moreover have "find P l = Some x"
      by (rule Cons.IH [OF \<open>x \<in> set l\<close> Cons.prems(2)]) (auto intro: Cons.prems(3))
    ultimately show ?thesis by simp
  qed
qed

text \<open>The tracked blocks: their address, size and descriptor. Each is found by its address.\<close>

definition tracked_blocks :: "mstate \<Rightarrow> (u32 \<times> u32 \<times> u32) set" where
  "tracked_blocks st = {(data, sz, d). \<exists>z. \<exists>i \<in> set (zones st z).
     node i = DataOf d \<and> range_start i = data \<and> alloc_size i = sz \<and> sz \<noteq> 0}"

lemma find_concat: "find P (concat xss) = Some j \<Longrightarrow> \<exists>xs \<in> set xss. find P xs = Some j"
proof (induction xss)
  case (Cons xs xss)
  have "find P (xs @ ys) = (case find P xs of None \<Rightarrow> find P ys | Some x \<Rightarrow> Some x)" for ys
    by (induction xs) auto
  with Cons show ?case by (auto split: option.splits)
qed simp

lemma find_before: "sorted_wrt R l \<Longrightarrow> find P l = Some j \<Longrightarrow> i \<in> set l \<Longrightarrow> P i \<Longrightarrow> j = i \<or> R j i"
  by (induction l) (auto split: if_splits)

lemma find_block:
  assumes "mstate_ok st" "i \<in> set (zones st z)" "node i = DataOf d" "alloc_size i \<noteq> 0"
  shows "alloc_find (range_start i) st = Some i \<and> \<not> not_tracked (range_start i) i"
proof -
  have ok: "zones_ok st" using assms(1) by (simp add: mstate_ok_def)
  have i: "node_ok i" using zone_ok_node [OF zones_okD(1) [OF ok] assms(2)] .
  have nt: "\<not> not_tracked (range_start i) i"
    using detail_node_iff [OF assms(1,2)] assms(3,4) by (simp add: not_tracked_def)
  let ?P = "\<lambda>j. range_start j = range_start i"
  have "find ?P (all_infos st) \<noteq> None" using all_infos_zone [of i st] assms(2) by (auto simp: find_None_iff)
  then obtain j where j: "alloc_find (range_start i) st = Some j" by (auto simp: alloc_find_def)
  then obtain z' where z': "find ?P (zones st z') = Some j"
    using find_concat [of ?P "map (zones st) Zones" j] by (auto simp: alloc_find_def all_infos_def)
  then have mem: "j \<in> set (zones st z')" "range_start j = range_start i" by (auto simp: find_Some_iff)
  then have "z' = z" using zones_ok_cross(2) [OF ok _ mem(1) assms(2)] by blast
  moreover have "sorted_wrt (\<lambda>x y. range_end y \<le> range_start x) (zones st z)"
    using zones_okD(1) [OF ok] by (simp add: zone_ok_def)
  ultimately have "j = i \<or> range_end i \<le> range_start j" using find_before z' assms(2) by fastforce
  moreover have "\<not> range_end i \<le> range_start j"
    using i assms(4) mem(2) unat_gt_0 [of "alloc_size i"] by (auto simp: node_ok_def word_le_nat_alt)
  ultimately show ?thesis using j nt by simp
qed

lemma blocks_freed:
  assumes "mstate_ok st" "node i = DataOf d" "i \<in> set (zones st z)" "alloc_size i \<noteq> 0" "range_start i = data"
    and st': "st' = map_zones (alloc_free (DetailOf d)) (map_zones (alloc_free (DataOf d)) st)"
      "nodes_of st' = nodes_of st - {DataOf d, DetailOf d}"
  shows "tracked_blocks st' = tracked_blocks st - {data} \<times> UNIV"
proof -
  have ok: "zones_ok st" using assms(1) by (simp add: mstate_ok_def)
  have old: "\<exists>y \<in> set (zones st z'). node y = node x \<and> range_start y = range_start x \<and> alloc_size y = alloc_size x"
    if "x \<in> set (zones st' z')" for x z'
    using that alloc_free_origin [of x "DetailOf d"] alloc_free_origin [of _ "DataOf d"] unfolding st'(1) zones_simps by metis
  have gone: "node x \<noteq> DataOf d" if "x \<in> set (zones st' z')" for x z'
  proof -
    have "node x \<in> nodes_of st'" using that by (auto simp: nodes_of_def)
    then show ?thesis by (simp add: st'(2))
  qed
  have new: "\<exists>z'. \<exists>y \<in> set (zones st' z'). node y = node x \<and> range_start y = range_start x \<and> alloc_size y = alloc_size x"
    if x: "x \<in> set (zones st z')" "node x = DataOf e" "e \<noteq> d" for x z' e
  proof -
    have "node x \<in> nodes_of st" using x(1) by (auto simp: nodes_of_def)
    then have "node x \<in> nodes_of st'" using x(2,3) by (simp add: st'(2))
    then obtain y z2 where y: "y \<in> set (zones st' z2)" "node y = node x" by (auto simp: nodes_of_def)
    then obtain w where w: "w \<in> set (zones st z2)" "node w = node y" "range_start w = range_start y" "alloc_size w = alloc_size y"
      using old by blast
    have "w = x" using unique_node [OF ok w(1) x(1)] w(2) y(2) by simp
    with w y show ?thesis by (intro exI [of _ z2] bexI [of _ y]) auto
  qed
  have same: "x = i" if "x \<in> set (zones st z')" "node x = DataOf e" "range_start x = data" "alloc_size x \<noteq> 0" for x z' e
    using find_block [OF assms(1) that(1,2,4)] find_block [OF assms(1,3,2,4)] that(3) assms(5) by simp
  have "(a, sz, e) \<in> tracked_blocks st' \<longleftrightarrow> (a, sz, e) \<in> tracked_blocks st \<and> a \<noteq> data" for a sz e
  proof
    assume "(a, sz, e) \<in> tracked_blocks st'"
    then obtain x z' where x: "x \<in> set (zones st' z')" "node x = DataOf e" "range_start x = a" "alloc_size x = sz" "sz \<noteq> 0"
      by (auto simp: tracked_blocks_def)
    with old obtain y where y: "y \<in> set (zones st z')" "node y = DataOf e" "range_start y = a" "alloc_size y = sz" by metis
    have "a \<noteq> data" using same [OF y(1,2)] y x(2,5) gone [OF x(1)] assms(2) by auto
    with x(5) y show "(a, sz, e) \<in> tracked_blocks st \<and> a \<noteq> data" by (auto simp: tracked_blocks_def)
  next
    assume "(a, sz, e) \<in> tracked_blocks st \<and> a \<noteq> data"
    then obtain x z' where x: "x \<in> set (zones st z')" "node x = DataOf e" "range_start x = a" "alloc_size x = sz" "sz \<noteq> 0"
        and a: "a \<noteq> data" by (auto simp: tracked_blocks_def)
    have "e \<noteq> d" using unique_node [OF ok x(1) assms(3)] x(2,3) assms(2,5) a by auto
    from new [OF x(1,2) this] x show "(a, sz, e) \<in> tracked_blocks st'" unfolding tracked_blocks_def by fastforce
  qed
  then show ?thesis by auto
qed

lemma pfree_refused:
  assumes "alloc_find data st = None \<or> (\<exists>i. alloc_find data st = Some i \<and> not_tracked data i)"
  shows "malloc_pfree data st = (st, -1)"
  using assms by (auto simp: malloc_pfree_def)

text \<open>C16. \<open>malloc_pfree\<close> of any address keeps the zones well-formed. If a tracked block starts there, the result is
  0, this block is gone with its descriptor, and every other block is as it was; for any other address the result is -1 and nothing changes.\<close>

theorem malloc_pfree_ok:
  assumes "mstate_ok st" "malloc_pfree data st = (st', ret)"
  shows "mstate_ok st' \<and>
    (if \<exists>sz d. (data, sz, d) \<in> tracked_blocks st
     then ret = 0 \<and> tracked_blocks st' = tracked_blocks st - {data} \<times> UNIV \<and>
       (\<exists>sz d. (data, sz, d) \<in> tracked_blocks st \<and> nodes_of st' = nodes_of st - {DataOf d, DetailOf d})
     else ret = -1 \<and> st' = st)"
proof (cases "\<exists>i. alloc_find data st = Some i \<and> \<not> not_tracked data i")
  case False
  then have "malloc_pfree data st = (st, -1)" by (auto intro: pfree_refused)
  moreover have "(data, sz, d) \<notin> tracked_blocks st" for sz d
    using False find_block [OF assms(1)] by (fastforce simp: tracked_blocks_def)
  ultimately show ?thesis using assms by simp
next
  case True
  then obtain i where "alloc_find data st = Some i" "\<not> not_tracked data i" by blast
  from assms(1) this obtain d z where
    i: "node i = DataOf d" "i \<in> set (zones st z)" "alloc_size i \<noteq> 0" "range_start i = data"
    and free: "malloc_pfree data st = (map_zones (alloc_free (DetailOf d)) (map_zones (alloc_free (DataOf d)) st), 0)"
      "mstate_ok (fst (malloc_pfree data st))" "nodes_of (fst (malloc_pfree data st)) = nodes_of st - {DataOf d, DetailOf d}"
    by (rule pfree_tracked)
  have here: "(data, alloc_size i, d) \<in> tracked_blocks st" using i by (auto simp: tracked_blocks_def)
  have st': "st' = map_zones (alloc_free (DetailOf d)) (map_zones (alloc_free (DataOf d)) st)" "ret = 0"
    "mstate_ok st'" "nodes_of st' = nodes_of st - {DataOf d, DetailOf d}"
    using assms(2) free by simp_all
  have "tracked_blocks st' = tracked_blocks st - {data} \<times> UNIV" by (rule blocks_freed [OF assms(1) i st'(1,4)])
  with here st'(2-4) show ?thesis by auto
qed

theorem malloc_pfree_ok_witness:
  "snd (malloc_pfree 0x1ff000 (fst (malloc_palloc ZoneTmpHigh 0x100 0x1000 malloc_sample))) = 0 \<and>
   snd (malloc_pfree 0x1ff010 (fst (malloc_palloc ZoneTmpHigh 0x100 0x1000 malloc_sample))) = -1"
proof -
  let ?st = "fst (malloc_palloc ZoneTmpHigh 0x100 0x1000 malloc_sample)"
  have ok: "mstate_ok ?st" by (rule palloc_ok [OF prod.collapse [symmetric] malloc_sample_ok sample_request])
  have "map_option (\<lambda>i. (not_tracked 0x1ff000 i, range_start i)) (alloc_find 0x1ff000 ?st) = Some (False, 0x1ff000)" by code_simp
  then obtain i where i: "alloc_find 0x1ff000 ?st = Some i" "\<not> not_tracked 0x1ff000 i" "range_start i = 0x1ff000" by auto
  obtain d z where d: "node i = DataOf d" "i \<in> set (zones ?st z)" "alloc_size i \<noteq> 0" using tracked_data [OF ok i(1,2)] by metis
  then have "(0x1ff000, alloc_size i, d) \<in> tracked_blocks ?st" using i(3) by (auto simp: tracked_blocks_def)
  then have "snd (malloc_pfree 0x1ff000 ?st) = 0"
    using malloc_pfree_ok [OF ok prod.collapse [symmetric], where data = "0x1ff000"] by (auto split: if_splits)
  moreover have none: "alloc_find 0x1ff010 ?st = None" by code_simp
  have "(0x1ff010, sz, e) \<notin> tracked_blocks ?st" for sz e
    using find_block [OF ok] none by (fastforce simp: tracked_blocks_def)
  then have "snd (malloc_pfree 0x1ff010 ?st) = -1"
    using malloc_pfree_ok [OF ok prod.collapse [symmetric], where data = "0x1ff010"] by simp
  ultimately show ?thesis by blast
qed

lemma in_nodes_of: "x \<in> set (zones st z) \<Longrightarrow> node x = n \<Longrightarrow> n \<in> nodes_of st"
  by (auto simp: nodes_of_def)

lemma detail_node:
  assumes "mstate_ok st" "DetailOf d \<in> nodes_of st"
  obtains z i where "i \<in> set (zones st z)" "node i = DetailOf d" "range_start i = d"
proof -
  obtain z i where "i \<in> set (zones st z)" "node i = DetailOf d"
    using assms(2) by (auto simp: nodes_of_def)
  with assms(1) show ?thesis by (intro that) (auto simp: mstate_ok_def details_ok_def)
qed

lemma sethandle_find:
  assumes "mstate_ok st" "alloc_find data st = Some n" "\<not> not_tracked data n"
    and "\<forall>d. DetailOf d \<in> nodes_of st \<longrightarrow> handles st d \<noteq> h"
  shows "malloc_findhandle h (malloc_sethandle data h st) = data"
proof -
  have ok: "zones_ok st" "details_ok st" "settled st" using assms(1) by (auto simp: mstate_ok_def)
  from assms(1-3) obtain d z where
    n: "node n = DataOf d" "n \<in> set (zones st z)" "detail_of (node n) = d" "alloc_size n \<noteq> 0"
    by (rule tracked_data)
  have "DetailOf d \<in> nodes_of st"
    using ok(3) in_nodes_of [OF n(2,1)] by (simp add: settled_def)
  then obtain t z' where t: "t \<in> set (zones st z')" "node t = DetailOf d" by (auto simp: nodes_of_def)
  then have td: "range_start t = d" using ok(2) by (auto simp: details_ok_def)
  define st' where "st' = st\<lparr>handles := (handles st)(d := h)\<rparr>"
  have st': "malloc_sethandle data h st = st'"
    using assms(2,3) n(3) by (simp add: malloc_sethandle_def st'_def)
  have infos: "all_infos st' = all_infos st" by (simp add: all_infos_def st'_def)
  have "find (\<lambda>i. range_start i = virt_to_phys (node i) \<and> handles st' (range_start i) = h)
      (all_infos st') = Some t"
  proof (rule find_unique)
    show "t \<in> set (all_infos st')" using t(1) by (auto simp: infos all_infos_zone)
    show "range_start t = virt_to_phys (node t) \<and> handles st' (range_start t) = h"
      using t(2) td by (simp add: st'_def)
  next
    fix y assume y: "y \<in> set (all_infos st')"
      "range_start y = virt_to_phys (node y) \<and> handles st' (range_start y) = h"
    then obtain zy where zy: "y \<in> set (zones st zy)" by (auto simp: infos all_infos_zone)
    then have "node y = DetailOf (range_start y)" using detail_node_iff [OF assms(1)] y(2) by blast
    moreover from this have "DetailOf (range_start y) \<in> nodes_of st" by (rule in_nodes_of [OF zy])
    ultimately have "handles st (range_start y) \<noteq> h" using assms(4) by blast
    with y(2) have "range_start y = d" by (cases "range_start y = d") (simp_all add: st'_def)
    with \<open>node y = _\<close> show "y = t" using unique_node [OF ok(1) zy t(1)] t(2) by simp
  qed
  moreover have "find (\<lambda>i. node i = DataOf d) (all_infos st') = Some n"
  proof (rule find_unique)
    show "n \<in> set (all_infos st')" using n(2) by (auto simp: infos all_infos_zone)
    show "node n = DataOf d" by (rule n(1))
  next
    fix y assume "y \<in> set (all_infos st')" "node y = DataOf d"
    then obtain zy where "y \<in> set (zones st zy)" "node y = node n"
      using n(1) by (auto simp: infos all_infos_zone)
    then show "y = n" by (rule unique_node [OF ok(1) _ n(2)])
  qed
  moreover have "range_start n = data" using alloc_find_some [OF assms(2)] by simp
  ultimately show ?thesis using td by (simp add: st' malloc_findhandle_def datainfo_start_def)
qed

text \<open>
  Handles: setting a handle that no other descriptor has on a tracked block makes
  \<open>malloc_findhandle\<close> return that block.\<close>

theorem malloc_handle_roundtrip:
  assumes "mstate_ok st" "alloc_find data st = Some n" "\<not> not_tracked data n"
    and "\<forall>d. DetailOf d \<in> nodes_of st \<longrightarrow> handles st d \<noteq> h"
  shows "malloc_findhandle h (malloc_sethandle data h st) = data"
  using assms by (rule sethandle_find)

definition malloc_sample2 :: mstate where
  "malloc_sample2 = fst (malloc_palloc ZoneTmpHigh 0x100 0x1000 malloc_sample)"

theorem malloc_handle_roundtrip_witness:
  "malloc_findhandle 7 (malloc_sethandle 0x1ff000 7 malloc_sample2) = 0x1ff000"
proof -
  have ok: "mstate_ok malloc_sample2"
    unfolding malloc_sample2_def by (rule palloc_ok [OF prod.collapse [symmetric] malloc_sample_ok sample_request])
  obtain st' where st': "malloc_palloc ZoneTmpHigh 0x100 0x1000 malloc_sample = (st', 0x1ff000)"
    using sample_palloc by (metis prod.collapse)
  then obtain n where n: "alloc_find 0x1ff000 malloc_sample2 = Some n"
    using palloc_result [OF st' malloc_sample_ok sample_request] by (force simp: malloc_sample2_def)
  have "map_option (not_tracked 0x1ff000) (alloc_find 0x1ff000 malloc_sample2) = Some False"
    by code_simp
  with n have "\<not> not_tracked 0x1ff000 n" by simp
  have "list_all (\<lambda>i. handles malloc_sample2 (range_start i) \<noteq> 7) (all_infos malloc_sample2)"
    by code_simp
  then have "handles malloc_sample2 (range_start i) \<noteq> 7" if "i \<in> set (zones malloc_sample2 z)" for i z
    using that by (auto simp: list_all_iff all_infos_zone)
  moreover have "\<exists>z. \<exists>i \<in> set (zones malloc_sample2 z). range_start i = d"
    if "DetailOf d \<in> nodes_of malloc_sample2" for d
    using detail_node [OF ok that] by metis
  ultimately have "\<forall>d. DetailOf d \<in> nodes_of malloc_sample2 \<longrightarrow> handles malloc_sample2 d \<noteq> 7"
    by blast
  with \<open>\<not> not_tracked _ n\<close> show ?thesis using malloc_handle_roundtrip [OF ok n] by blast
qed

section \<open>The option rom area\<close>

lemma align_rom: "pow2 OPTION_ROM_ALIGN"
  unfolding pow2_def OPTION_ROM_ALIGN_def by (intro exI [of _ 11]) simp

lemma rom_reserve_get_max:
  "rom_get_max (fst (rom_reserve zb sz st)) = rom_get_max st"
proof -
  have "map_option range_end (find (\<lambda>i. node i = n)
      (map (\<lambda>i. if P i then i\<lparr>range_start := v\<rparr> else i) l)) =
    map_option range_end (find (\<lambda>i. node i = n) l)" for n P v l
    by (induction l) auto
  then have "map_option range_end (rom_base (fst (rom_reserve zb sz st))) = map_option range_end (rom_base st)"
    by (auto simp: rom_reserve_def rom_base_def Let_def set_zone_def split: option.splits)
  then show ?thesis
    by (auto simp: rom_get_max_def split: option.splits)
qed

text \<open>
  Confirming an option rom: on success the used area has grown by at least the size asked
  for, its new end is a multiple of \<open>OPTION_ROM_ALIGN\<close> and at most \<open>rom_get_max\<close>, which has
  not moved; on failure nothing has changed.\<close>

theorem rom_confirm_bounds:
  assumes "unat (RomEnd st) + unat sz + unat OPTION_ROM_ALIGN \<le> 2 ^ 32"
    and "rom_confirm zb sz st = (st', r)"
  shows "(r = 0 \<and> unat (RomEnd st) + unat sz \<le> unat (RomEnd st') \<and>
      unat OPTION_ROM_ALIGN dvd unat (RomEnd st') \<and> RomEnd st' \<le> rom_get_max st' \<and>
      rom_get_max st' = rom_get_max st) \<or> (r = -1 \<and> (st' = st \<or> RomEnd st = 0))"
proof -
  let ?e = "ALIGN (RomEnd st + sz) OPTION_ROM_ALIGN"
  have sum: "unat (RomEnd st + sz) = unat (RomEnd st) + unat sz"
    using assms(1) pow2_pos [OF align_rom] by (simp add: unat_add_small)
  have al: "unat (RomEnd st) + unat sz \<le> unat ?e" "unat OPTION_ROM_ALIGN dvd unat ?e"
    using ALIGN_ge [OF align_rom, of "RomEnd st + sz"] assms(1) by (simp_all add: sum)
  have rmax: "rom_get_max (st\<lparr>RomEnd := v\<rparr>) = rom_get_max st" for v st
    by (simp add: rom_get_max_def rom_base_def split: option.split)
  obtain st1 new where s1: "rom_reserve zb sz st = (st1, new)" by fastforce
  have max1: "rom_get_max st1 = rom_get_max st" using rom_reserve_get_max [of zb sz st] s1 by simp
  show ?thesis
  proof (cases "?e > rom_get_max st")
    case True
    then have "rom_reserve zb sz st = (st, 0)" by (simp add: rom_reserve_def Let_def)
    with assms(2) show ?thesis by (auto simp: rom_confirm_def)
  next
    case False
    with s1 have "RomEnd st1 = RomEnd st" "new = RomEnd st"
      by (auto simp: rom_reserve_def Let_def set_zone_def)
    with assms(2) s1 al False max1 rmax show ?thesis
      by (auto simp: rom_confirm_def split: if_splits)
  qed
qed

definition rom_sample :: mstate where
  "rom_sample = malloc_init 0xe0000 0xef000 0xf6000 0xf7000 malloc_sample"

theorem rom_confirm_bounds_witness:
  "RomEnd (fst (rom_confirm 0xe0000 0x9000 rom_sample)) \<le>
     rom_get_max (fst (rom_confirm 0xe0000 0x9000 rom_sample))"
proof -
  have r: "snd (rom_confirm 0xe0000 0x9000 rom_sample) = 0" by code_simp
  have e: "RomEnd rom_sample = 0xc0000" by code_simp
  show ?thesis
    using rom_confirm_bounds [of rom_sample "0x9000" "0xe0000", OF _ prod.collapse [symmetric]] r
    by (auto simp: e OPTION_ROM_ALIGN_def)
qed


section \<open>The memory map after setup\<close>

lemma m_e820_simps [simp]:
  "m_e820 (set_zone z l st) = m_e820 st" "m_e820 (map_zones f st) = m_e820 st"
  "m_e820 (install_detail d h st) = m_e820 st"
  "m_e820 (e820_update g st) = g (m_e820 st)" "zones (e820_update g st) = zones st"
  by (simp_all add: set_zone_def map_zones_def install_detail_def e820_update_def)

lemma alloc_in_e820: "m_e820 (fst (alloc_in z sz align fill st)) = m_e820 st"
  by (simp add: alloc_in_def split_beta)

lemma alloc_new_detail_e820: "m_e820 (fst (alloc_new_detail h st)) = m_e820 st"
  using alloc_in_e820 by (simp add: alloc_new_detail_def split_beta Let_def)

lemma alloc_add_e820 [simp]: "m_e820 (alloc_add z s e st) = m_e820 st"
  using alloc_new_detail_e820 by (simp add: alloc_add_def split_beta Let_def)

text \<open>An entry of the map from which the loop of \<open>malloc_preinit\<close> takes the high tables.\<close>

definition hightable_in :: "u32 \<Rightarrow> e820entry \<Rightarrow> bool" where
  "hightable_in h en \<longleftrightarrow> e_type en = E820_RAM \<and> 0x100000 \<le> e820_end en \<and> h \<noteq> 0 \<and>
     unat (e_start en) \<le> unat h \<and> unat h + unat BUILD_MAX_HIGHTABLE \<le> unat (e820_end en)"

lemma align_min: "pow2 MALLOC_MIN_ALIGN"
  using good_detail_request by (simp add: good_request_def)

lemma ucast_small:
  "x \<le> (0xffffffff :: u64) \<Longrightarrow> unat (ucast x :: u32) = unat x"
  by (simp add: unsigned_ucast_eq take_bit_nat_eq_self_iff word_le_nat_alt)

lemma ucast_up64: "unat (ucast (x :: u32) :: u64) = unat x"
  using unat_u32_bound [of x] by (simp add: unsigned_ucast_eq take_bit_nat_eq_self_iff)

lemma preinit_high:
  assumes "e820_ok en" "0x100000 \<le> e820_end en" "e820_end en \<le> 0xffffffff" "e_type en = E820_RAM"
    and newe: "newe = ALIGN_DOWN (ucast (e820_end en) - BUILD_MAX_HIGHTABLE) MALLOC_MIN_ALIGN"
      "ucast (e_start en) \<le> newe"
  shows "hightable_in newe en"
proof -
  let ?e = "ucast (e820_end en) :: u32"
  have e: "unat ?e = unat (e820_end en)" by (rule ucast_small [OF assms(3)])
  have "e_start en \<le> 0xffffffff" using assms(1,3) by (auto simp: e820_ok_def)
  then have s: "unat (ucast (e_start en) :: u32) = unat (e_start en)" by (rule ucast_small)
  have big: "0x100000 \<le> unat ?e" using assms(2) by (simp add: e word_le_nat_alt)
  then have d: "unat (?e - BUILD_MAX_HIGHTABLE) = unat ?e - 0x40000"
    by (simp add: BUILD_MAX_HIGHTABLE_def unat_sub_le)
  have "unat newe \<le> unat ?e - 0x40000"
    using ALIGN_DOWN_le [OF align_min, of "?e - BUILD_MAX_HIGHTABLE"] d by (simp add: newe(1))
  moreover have "unat ?e - 0x40000 < unat newe + 16"
    using ALIGN_DOWN_gt [OF align_min, of "?e - BUILD_MAX_HIGHTABLE"] d
    by (simp add: newe(1) MALLOC_MIN_ALIGN_def)
  then have "newe \<noteq> 0" using big by auto
  ultimately show ?thesis
    using newe(2) s e big assms(2,4) by (simp add: hightable_in_def word_le_nat_alt BUILD_MAX_HIGHTABLE_def)
qed

lemma preinit_loop_result:
  assumes "\<forall>en \<in> set ens. e820_ok en" "preinit_loop ens h st = (h', st')"
  shows "m_e820 st' = m_e820 st \<and> (h' = h \<or> (\<exists>en \<in> set ens. hightable_in h' en))"
  using assms
proof (induction ens h st rule: preinit_loop.induct)
  case (1 h st)
  then show ?case by simp
next
  case (2 en ens h st)
  define newe where "newe = ALIGN_DOWN ((ucast (e820_end en) :: u32) - BUILD_MAX_HIGHTABLE) MALLOC_MIN_ALIGN"
  let ?s = "ucast (e_start en) :: u32" and ?e = "ucast (e820_end en) :: u32"
  have ok: "e820_ok en" "\<forall>en \<in> set ens. e820_ok en" using "2.prems"(1) by auto
  consider (low) "e820_end en < 0x100000"
    | (skip) "\<not> e820_end en < 0x100000" "e_type en \<noteq> E820_RAM \<or> e820_end en > 0xffffffff"
    | (plain) "\<not> e820_end en < 0x100000" "\<not> (e_type en \<noteq> E820_RAM \<or> e820_end en > 0xffffffff)"
        "\<not> (h = 0 \<and> newe \<le> ?e \<and> newe \<ge> ?s)"
    | (high) "\<not> e820_end en < 0x100000" "\<not> (e_type en \<noteq> E820_RAM \<or> e820_end en > 0xffffffff)"
        "h = 0" "newe \<le> ?e" "newe \<ge> ?s" by blast
  then show ?case
  proof cases
    case low
    with "2.prems"(2) show ?thesis by simp
  next
    case skip
    with "2.prems"(2) have "preinit_loop ens h st = (h', st')" by simp
    with "2.IH"(1) [OF refl _ _ ok(2)] skip show ?thesis by auto
  next
    case plain
    have "preinit_loop ens h (alloc_add ZoneTmpHigh ?s ?e st) = (h', st')"
      using "2.prems"(2) plain unfolding newe_def by (cases "h = 0") (auto simp: Let_def)
    then have "m_e820 st' = m_e820 (alloc_add ZoneTmpHigh ?s ?e st) \<and>
        (h' = h \<or> (\<exists>en \<in> set ens. hightable_in h' en))"
    proof (cases "h = 0")
      case True
      with plain show ?thesis
        using \<open>preinit_loop ens h _ = _\<close> "2.IH"(3) [OF refl _ _ refl refl True refl _ ok(2)]
        by (auto simp: newe_def)
    next
      case False
      with plain show ?thesis
        using \<open>preinit_loop ens h _ = _\<close> "2.IH"(4) [OF refl _ _ refl refl False ok(2)] by auto
    qed
    then show ?thesis by auto
  next
    case high
    with "2.prems"(2) have p: "preinit_loop ens newe (alloc_add ZoneTmpHigh ?s newe st) = (h', st')"
      by (auto simp: newe_def [symmetric] Let_def)
    have "hightable_in newe en"
      using high ok(1) by (intro preinit_high) (auto simp: newe_def)
    moreover have "m_e820 st' = m_e820 (alloc_add ZoneTmpHigh ?s newe st) \<and>
        (h' = newe \<or> (\<exists>en \<in> set ens. hightable_in h' en))"
      using "2.IH"(2) [OF refl _ _ refl refl high(3) refl _ ok(2)] p high by (simp add: newe_def)
    ultimately show ?thesis by auto
  qed
qed


lemma e820_covers_type:
  "e820_wf es \<Longrightarrow> en \<in> set es \<Longrightarrow> e820_covers en a \<Longrightarrow> e820_type_at es a = Some (e_type en)"
proof (induction es)
  case Nil
  then show ?case by simp
next
  case (Cons e es)
  show ?case
  proof (cases "e820_covers e a")
    case True
    have "en = e"
    proof (rule ccontr)
      assume "en \<noteq> e"
      with Cons.prems have "e820_end e \<le> e_start en" by (auto simp: e820_before_def)
      with True Cons.prems(3) show False by (auto simp: e820_covers_def)
    qed
    with True show ?thesis by simp
  next
    case False
    with Cons show ?thesis by auto
  qed
qed

lemma malloc_preinit_e820_eq:
  assumes "e820_wf (m_e820 st)" "length (m_e820 st) + 6 \<le> BUILD_MAX_E820"
  obtains "m_e820 (malloc_preinit st) = e820_add 0xf0000 0x10000 E820_RESERVED
      (e820_remove 0xa0000 0x50000 (m_e820 st))"
  | h en where "m_e820 (malloc_preinit st) = e820_add (ucast h) 0x40000 E820_RESERVED
      (e820_add 0xf0000 0x10000 E820_RESERVED (e820_remove 0xa0000 0x50000 (m_e820 st)))"
      "en \<in> set (e820_add 0xf0000 0x10000 E820_RESERVED (e820_remove 0xa0000 0x50000 (m_e820 st)))"
      "hightable_in h en"
proof -
  define es where "es = e820_add 0xf0000 0x10000 E820_RESERVED (e820_remove 0xa0000 0x50000 (m_e820 st))"
  have "\<forall>(s, z, t) \<in> set [(0xa0000, 0x50000, E820_HOLE), (0xf0000, 0x10000, E820_RESERVED)]. s < s + (z :: u64)"
    by simp
  then have wf: "e820_wf es"
    using e820.add_all_keeps [OF assms(1), of "[(0xa0000, 0x50000, E820_HOLE), (0xf0000, 0x10000, E820_RESERVED)]"] assms(2)
    by (simp add: es_def e820_remove_def)
  define st2 where "st2 = e820_update (e820_add 0xf0000 0x10000 E820_RESERVED)
    (e820_update (e820_remove 0xa0000 0x50000) st)"
  have st2: "m_e820 st2 = es" by (simp add: st2_def es_def)
  obtain h st3 where s3: "preinit_loop (rev (m_e820 st2)) 0 st2 = (h, st3)" by fastforce
  have "\<forall>en \<in> set (rev (m_e820 st2)). e820_ok en" using wf e820_wf_ok by (auto simp: st2)
  from preinit_loop_result [OF this s3]
  have r: "m_e820 st3 = es" "h = 0 \<or> (\<exists>en \<in> set es. hightable_in h en)" by (auto simp: st2)
  have eq: "m_e820 (malloc_preinit st) =
      (if h \<noteq> 0 then e820_add (ucast h) 0x40000 E820_RESERVED es else es)"
    using s3 [unfolded st2] r(1)
    by (simp add: malloc_preinit_def st2_def [symmetric] es_def [symmetric] BUILD_LOWRAM_END_def
      BUILD_BIOS_ADDR_def BUILD_BIOS_SIZE_def BUILD_MAX_HIGHTABLE_def Let_def)
  show thesis
  proof (cases "h = 0")
    case True
    with eq show thesis by (intro that(1)) (simp add: es_def)
  next
    case False
    with r(2) obtain en where "en \<in> set es" "hightable_in h en" by auto
    with eq False show thesis by (intro that(2) [of h en]) (simp_all add: es_def)
  qed
qed

lemma legacy_area:
  assumes "e820_wf es0" "length es0 + 6 \<le> BUILD_MAX_E820"
    and es: "es = e820_add 0xf0000 0x10000 E820_RESERVED (e820_remove 0xa0000 0x50000 es0)"
  shows "e820_wf es" "length es \<le> length es0 + 4"
    "e820_type_at es a =
      (if 0xa0000 \<le> a \<and> a < 0xf0000 then None
       else if 0xf0000 \<le> a \<and> a < 0x100000 then Some E820_RESERVED
       else e820_type_at es0 a)"
proof -
  define es1 where "es1 = e820_remove 0xa0000 0x50000 es0"
  have w1: "e820_wf es1" "length es1 \<le> length es0 + 2"
    "e820_type_at es1 a = (if 0xa0000 \<le> a \<and> a < 0xf0000 then None else e820_type_at es0 a)"
    using e820.add_inv [OF assms(1), of "0xa0000" "0x50000" E820_HOLE]
      e820.add_cnt [OF assms(1), of "0xa0000" "0x50000" E820_HOLE]
      e820.add_type_at [OF assms(1), of "0xa0000" "0x50000" E820_HOLE] assms(2)
    by (simp_all add: es1_def e820_remove_def)
  have w2: "e820_wf es" "length es \<le> length es0 + 4"
    "e820_type_at es a = (if 0xf0000 \<le> a \<and> a < 0x100000 then Some E820_RESERVED else e820_type_at es1 a)"
    using e820.add_inv [OF w1(1), of "0xf0000" "0x10000" E820_RESERVED]
      e820.add_cnt [OF w1(1), of "0xf0000" "0x10000" E820_RESERVED]
      e820.add_type_at [OF w1(1), of "0xf0000" "0x10000" E820_RESERVED] assms(2) w1(2)
    by (simp_all add: es es1_def [symmetric] e820_type_defs)
  show "e820_wf es" "length es \<le> length es0 + 4" by (fact w2)+
  show "e820_type_at es a =
      (if 0xa0000 \<le> a \<and> a < 0xf0000 then None
       else if 0xf0000 \<le> a \<and> a < 0x100000 then Some E820_RESERVED
       else e820_type_at es0 a)"
  proof (cases "0xf0000 \<le> a \<and> a < 0x100000")
    case True
    then have "\<not> a < 0xf0000" by (simp only: not_less)
    with True w2(3) show ?thesis by simp
  next
    case False
    show ?thesis by (simp only: w2(3) w1(3) if_not_P [OF False])
  qed
qed

text \<open>Room for the high tables is RAM above 1 MB.\<close>

lemma hightable_ram:
  assumes wf: "e820_wf es" and en: "en \<in> set es" "hightable_in h en"
    and legacy: "e820_type_at es 0xfffff = Some E820_RESERVED"
  shows "(ucast h :: u64) < ucast h + 0x40000"
    and "ucast h \<le> a \<Longrightarrow> a < ucast h + 0x40000 \<Longrightarrow> 0x100000 \<le> a \<and> e820_type_at es a = Some E820_RAM"
proof -
  have h: "unat (e_start en) \<le> unat (ucast h :: u64)"
      "unat (ucast h :: u64) + 0x40000 \<le> unat (e820_end en)" "0x100000 \<le> e820_end en" "e_type en = E820_RAM"
    using en(2) by (auto simp: hightable_in_def BUILD_MAX_HIGHTABLE_def ucast_up64)
  show nowrap: "(ucast h :: u64) < ucast h + 0x40000"
    using h(2) unat_u64_bound [of "e820_end en"] by (simp add: no_wrap_iff)
  have ram: "e820_type_at es b = Some E820_RAM" if "e820_covers en b" for b
    using e820_covers_type [OF wf en(1) that] h(4) by simp
  have "\<not> e820_covers en 0xfffff" using ram [of "0xfffff"] legacy by (auto simp: e820_type_defs)
  then have start: "0x100000 \<le> e_start en"
    using h(3) by (auto simp: e820_covers_def word_le_nat_alt word_less_nat_alt)
  assume a: "ucast h \<le> a" "a < ucast h + 0x40000"
  have "unat a < unat (ucast h :: u64) + 0x40000"
    using a(2) h(2) unat_u64_bound [of "e820_end en"] by (simp add: word_less_nat_alt unat_add_small)
  then have "e820_covers en a"
    using h(1,2) a(1) by (simp add: e820_covers_def word_le_nat_alt word_less_nat_alt)
  then show "0x100000 \<le> a \<and> e820_type_at es a = Some E820_RAM"
    using ram [of a] start by (auto simp: e820_covers_def)
qed

text \<open>
  The memory map after \<open>malloc_preinit\<close>: no memory is declared between 0xa0000 and
  0xf0000, the BIOS area up to 1 MiB is reserved, below 0xa0000 nothing has changed, and above 1 MiB
  the only change is that RAM (the high tables) became reserved.\<close>

theorem malloc_preinit_e820:
  assumes "e820_wf (m_e820 st)" "length (m_e820 st) + 6 \<le> BUILD_MAX_E820"
  shows "e820_type_at (m_e820 (malloc_preinit st)) a =
      (if 0xa0000 \<le> a \<and> a < 0xf0000 then None
       else if 0xf0000 \<le> a \<and> a < 0x100000 then Some E820_RESERVED
       else e820_type_at (m_e820 st) a) \<or>
    0x100000 \<le> a \<and> e820_type_at (m_e820 st) a = Some E820_RAM \<and>
      e820_type_at (m_e820 (malloc_preinit st)) a = Some E820_RESERVED"
proof -
  define es where "es = e820_add 0xf0000 0x10000 E820_RESERVED (e820_remove 0xa0000 0x50000 (m_e820 st))"
  note w = legacy_area(1,2) [OF assms es_def]
  note base = legacy_area(3) [OF assms es_def]
  from assms show ?thesis
  proof (cases rule: malloc_preinit_e820_eq)
    case 1
    then show ?thesis using base [of a] by (simp add: es_def)
  next
    case (2 h en)
    then have en: "en \<in> set es" "hightable_in h en"
      and final: "m_e820 (malloc_preinit st) = e820_add (ucast h) 0x40000 E820_RESERVED es"
      by (simp_all add: es_def)
    have legacy: "e820_type_at es 0xfffff = Some E820_RESERVED" using base [of "0xfffff"] by simp
    note ram = hightable_ram [OF w(1) en legacy]
    have at: "e820_type_at (m_e820 (malloc_preinit st)) a =
        (if ucast h \<le> a \<and> a < ucast h + 0x40000 then Some E820_RESERVED else e820_type_at es a)"
      using e820.add_type_at [OF w(1) ram(1), of E820_RESERVED a] w(2) assms(2)
      by (simp add: final e820_type_defs)
    show ?thesis
    proof (cases "ucast h \<le> a \<and> a < ucast h + 0x40000")
      case True
      then have a: "0x100000 \<le> a" "e820_type_at es a = Some E820_RAM" using ram(2) by auto
      then have "\<not> a < 0xf0000" "\<not> a < 0x100000"
        using order_trans [of "0xf0000" "0x100000" a] by (simp_all add: not_less)
      then show ?thesis using base [of a] a at True by simp
    next
      case False
      then have "e820_type_at (m_e820 (malloc_preinit st)) a = e820_type_at es a"
        unfolding at by (rule if_not_P)
      then show ?thesis using base [of a] by simp
    qed
  qed
qed

theorem malloc_preinit_e820_witness:
  "e820_type_at (m_e820 (malloc_preinit (malloc_zero\<lparr>m_e820 := e820_sample\<rparr>))) 0xb0000 = None"
  using malloc_preinit_e820 [of "malloc_zero\<lparr>m_e820 := e820_sample\<rparr>" "0xb0000"]
    e820_sample_wf by (simp add: BUILD_MAX_E820_def e820_sample_def)

end
