(* ===== verification/CString.thy ===== *)
theory CString
  imports SB_Prelude
begin

text \<open>
  The memory and string functions of \<open>src/string.c\<close>, on a flat byte memory (32-bit code sees
  every segment as the flat one). Loops with a count are recursion on the count; the loops of
  \<open>strlen\<close>, \<open>strcmp\<close> and \<open>strchr\<close>, which end only if there is a terminating zero, are
  partial functions, so that not ending is \<open>None\<close>. Plain \<open>char\<close> is signed. The string
  instructions \<open>rep movsb\<close> and \<open>rep movsl\<close> are the loops over bytes and double words that
  the processor runs; \<open>yield\<close> does not touch memory here. The 16-bit variants
  (\<open>memset_far\<close>, \<open>memset16_far\<close>, \<open>memcpy_far\<close>) are not modelled.
\<close>

type_synonym mem = "u32 \<Rightarrow> u8"

section \<open>Operations\<close>

fun checksum_loop :: "mem \<Rightarrow> u32 \<Rightarrow> nat \<Rightarrow> u8 \<Rightarrow> u8" where
  "checksum_loop m p 0 acc = acc"
| "checksum_loop m p (Suc n) acc = checksum_loop m (p + 1) n (acc + m p)"

definition checksum :: "mem \<Rightarrow> u32 \<Rightarrow> u32 \<Rightarrow> u8" where
  "checksum m buf len = checksum_loop m buf (unat len) 0"

partial_function (option) strlen_from :: "mem \<Rightarrow> u32 \<Rightarrow> u32 \<Rightarrow> u32 option" where
  "strlen_from m s p = (if m p \<noteq> 0 then strlen_from m s (p + 1) else Some (p - s))"

definition strlen :: "mem \<Rightarrow> u32 \<Rightarrow> u32 option" where
  "strlen m s = strlen_from m s s"

fun memcmp :: "mem \<Rightarrow> u32 \<Rightarrow> u32 \<Rightarrow> nat \<Rightarrow> int" where
  "memcmp m s1 s2 0 = 0"
| "memcmp m s1 s2 (Suc n) =
     (if m s1 \<noteq> m s2 then (if m s1 < m s2 then -1 else 1) else memcmp m (s1 + 1) (s2 + 1) n)"

partial_function (option) strcmp :: "mem \<Rightarrow> u32 \<Rightarrow> u32 \<Rightarrow> int option" where
  "strcmp m s1 s2 =
     (if m s1 \<noteq> m s2 then Some (if m s1 <s m s2 then -1 else 1)
      else if m s1 = 0 then Some 0
      else strcmp m (s1 + 1) (s2 + 1))"

fun memset :: "u32 \<Rightarrow> u8 \<Rightarrow> nat \<Rightarrow> mem \<Rightarrow> mem" where
  "memset s c 0 m = m"
| "memset s c (Suc n) m = memset s c n (m(s + of_nat n := c))"

text \<open>\<open>rep movsb\<close> and \<open>rep movsl\<close>, counting up.\<close>

fun rep_movsb :: "nat \<Rightarrow> u32 \<Rightarrow> u32 \<Rightarrow> mem \<Rightarrow> mem" where
  "rep_movsb 0 d s m = m"
| "rep_movsb (Suc n) d s m = rep_movsb n (d + 1) (s + 1) (m(d := m s))"

fun rep_movsl :: "nat \<Rightarrow> u32 \<Rightarrow> u32 \<Rightarrow> mem \<Rightarrow> mem" where
  "rep_movsl 0 d s m = m"
| "rep_movsl (Suc n) d s m =
     rep_movsl n (d + 4) (s + 4)
       (m(d := m s, d + 1 := m (s + 1), d + 2 := m (s + 2), d + 3 := m (s + 3)))"

definition memcpy :: "u32 \<Rightarrow> u32 \<Rightarrow> u32 \<Rightarrow> mem \<Rightarrow> mem" where
  "memcpy d s len m =
     (if (d OR s OR len) AND 3 \<noteq> 0 then rep_movsb (unat len) d s m
      else rep_movsl (unat len div 4) d s m)"

function iomemcpy :: "u32 \<Rightarrow> u32 \<Rightarrow> u32 \<Rightarrow> mem \<Rightarrow> mem" where
  "iomemcpy d s len m =
     (if len > 3 then
        let copylen = (if len > 2048 then 2048 else len) div 4
        in iomemcpy (d + copylen * 4) (s + copylen * 4) (len - copylen * 4)
             (rep_movsl (unat copylen) d s m)
      else if len \<noteq> 0 then memcpy d s len m else m)"
  by pat_completeness auto

lemma iomemcpy_chunk:
  fixes len :: u32
  assumes "len > 3" "copylen = (if len > 2048 then 2048 else len) div 4"
  shows "unat (copylen * 4) = 4 * unat copylen" "4 * unat copylen \<le> unat len" "0 < unat copylen"
proof -
  have c: "unat copylen = (if unat len > 2048 then 2048 else unat len) div 4"
    using assms(2) by (simp add: unat_div word_less_nat_alt)
  have "3 < unat len" using assms(1) by (simp add: word_less_nat_alt)
  with c show "4 * unat copylen \<le> unat len" "0 < unat copylen" by auto
  then show "unat (copylen * 4) = 4 * unat copylen"
    using unat_u32_bound [of len] by (simp add: unat_word_ariths)
qed

termination iomemcpy
proof (relation "measure (\<lambda>(d, s, len, m). unat len)")
  fix d s len m and copylen :: u32
  assume c: "3 < len" "copylen = (if len > 2048 then 2048 else len) div 4"
  show "((d + copylen * 4, s + copylen * 4, len - copylen * 4, rep_movsl (unat copylen) d s m),
      d, s, len, m) \<in> measure (\<lambda>(d, s, len, m). unat len)"
    using iomemcpy_chunk [OF c] by (simp only: in_measure split_conv) (simp add: unat_sub_le)
qed simp

text \<open>The backward loop of \<open>memmove\<close>, with both pointers at the last byte.\<close>

fun move_back :: "nat \<Rightarrow> u32 \<Rightarrow> u32 \<Rightarrow> mem \<Rightarrow> mem \<times> u32" where
  "move_back 0 d s m = (m, d)"
| "move_back (Suc n) d s m = move_back n (d - 1) (s - 1) (m(d := m s))"

text \<open>\<open>memmove\<close> gives the memory and the pointer it returns.\<close>

definition memmove :: "u32 \<Rightarrow> u32 \<Rightarrow> u32 \<Rightarrow> mem \<Rightarrow> mem \<times> u32" where
  "memmove d s len m =
     (if s \<ge> d then (memcpy d s len m, d)
      else move_back (unat len) (d + (len - 1)) (s + (len - 1)) m)"

text \<open>The loop of \<open>strtcpy\<close>; the first argument is the value of \<open>len\<close> after \<open>--len\<close>.\<close>

fun strtcpy_loop :: "nat \<Rightarrow> u32 \<Rightarrow> u32 \<Rightarrow> mem \<Rightarrow> mem" where
  "strtcpy_loop 0 d src m = m(d := 0)"
| "strtcpy_loop (Suc n) d src m =
     (if m src \<noteq> 0 then strtcpy_loop n (d + 1) (src + 1) (m(d := m src)) else m(d := 0))"

definition strtcpy :: "u32 \<Rightarrow> u32 \<Rightarrow> u32 \<Rightarrow> mem \<Rightarrow> mem" where
  "strtcpy dest src len m = strtcpy_loop (unat (len - 1)) dest src m"

text \<open>\<open>strchr\<close>: the result is 0 (null) or the address; a comparison of the signed
  \<open>char\<close> with the \<open>int\<close> argument.\<close>

partial_function (option) strchr :: "mem \<Rightarrow> u32 \<Rightarrow> int \<Rightarrow> u32 option" where
  "strchr m s c =
     (if m s = 0 then Some 0
      else if sint (m s) = c then Some s
      else strchr m (s + 1) c)"

definition blank :: "u8 \<Rightarrow> bool" where
  "blank c \<longleftrightarrow> c \<le>s 32"

text \<open>The two loops of \<open>nullTrailingSpace\<close>: clear blanks from the end down, skip blanks at the
  start.\<close>

fun null_trailing :: "nat \<Rightarrow> u32 \<Rightarrow> mem \<Rightarrow> mem" where
  "null_trailing 0 buf m = m"
| "null_trailing (Suc n) buf m =
     (if blank (m (buf + of_nat n)) then null_trailing n buf (m(buf + of_nat n := 0)) else m)"

partial_function (option) skip_blank :: "mem \<Rightarrow> u32 \<Rightarrow> u32 option" where
  "skip_blank m buf = (if m buf \<noteq> 0 \<and> blank (m buf) then skip_blank m (buf + 1) else Some buf)"

definition nullTrailingSpace :: "u32 \<Rightarrow> mem \<Rightarrow> (mem \<times> u32) option" where
  "nullTrailingSpace buf m =
     (case strlen m buf of
        None \<Rightarrow> None
      | Some len \<Rightarrow>
          let m' = null_trailing (unat len) buf m
          in map_option (\<lambda>p. (m', p)) (skip_blank m' buf))"

section \<open>Copying\<close>

text \<open>The specification of every copy: the \<open>n\<close> bytes from \<open>s\<close> on appear at \<open>d\<close>. Addresses
  are counted from \<open>d\<close>, so a block may wrap around the end of memory.\<close>

definition block_copy :: "u32 \<Rightarrow> u32 \<Rightarrow> nat \<Rightarrow> mem \<Rightarrow> mem" where
  "block_copy d s n m = (\<lambda>a. if unat (a - d) < n then m (s + (a - d)) else m a)"

text \<open>Copying upwards is right when the destination is not inside the source behind its start.\<close>

definition up_safe :: "u32 \<Rightarrow> u32 \<Rightarrow> nat \<Rightarrow> bool" where
  "up_safe d s n \<longleftrightarrow> n \<le> 2 ^ 32 \<and> (d = s \<or> n \<le> unat (d - s))"

lemma block_copy_0 [simp]: "block_copy d s 0 m = m"
  by (simp add: block_copy_def)

lemma unat_diff_step:
  fixes a d :: u32
  shows "k \<le> unat (a - d) \<Longrightarrow> unat (a - (d + of_nat k)) = unat (a - d) - k"
proof -
  assume k: "k \<le> unat (a - d)"
  then have "unat (of_nat k :: u32) = k"
    using unat_u32_bound [of "a - d"] by (simp add: unat_of_nat)
  moreover have "a - (d + of_nat k) = (a - d) - of_nat k" by simp
  ultimately show ?thesis using k by (simp only: unat_sub_le)
qed

lemma unat_diff_below:
  fixes a d :: u32
  assumes "unat (a - d) < k" "k + n \<le> 2 ^ 32"
  shows "n \<le> unat (a - (d + of_nat k))"
proof -
  have k: "k < 2 ^ 32 \<or> n = 0" using assms(2) by auto
  show ?thesis
  proof (cases "n = 0")
    case False
    with k have k: "k < 2 ^ 32" by simp
    then have uk: "unat (of_nat k :: u32) = k" by (simp add: unat_of_nat)
    have eq: "a - (d + of_nat k) = (a - d) - of_nat k" by simp
    have "unat (a - (d + of_nat k)) = 2 ^ 32 + unat (a - d) - k"
      unfolding eq using unat_sub_wrap [of "a - d" "of_nat k"] assms(1) uk by simp
    with assms show ?thesis by simp
  qed simp
qed

lemma block_copy_append:
  assumes "up_safe d s (k + n)"
  shows "block_copy (d + of_nat k) (s + of_nat k) n (block_copy d s k m) = block_copy d s (k + n) m"
proof
  fix a
  let ?j = "unat (a - d)"
  have kn: "k + n \<le> 2 ^ 32" using assms by (simp add: up_safe_def)
  show "block_copy (d + of_nat k) (s + of_nat k) n (block_copy d s k m) a = block_copy d s (k + n) m a"
  proof (cases "?j < k")
    case True
    with unat_diff_below [OF True kn] show ?thesis by (simp add: block_copy_def)
  next
    case False
    then have step: "unat (a - (d + of_nat k)) = ?j - k" by (simp add: unat_diff_step)
    have src: "s + of_nat k + (a - (d + of_nat k)) = s + (a - d)" by simp
    show ?thesis
    proof (cases "?j < k + n")
      case True
      have "\<not> unat (s + (a - d) - d) < k"
      proof (cases "d = s")
        case True
        with False show ?thesis by simp
      next
        case ds: False
        with assms have le: "k + n \<le> unat (d - s)" by (simp add: up_safe_def)
        have eq: "s + (a - d) - d = (a - d) - (d - s)" by simp
        have "?j < unat (d - s)" using le True by simp
        then have "unat (s + (a - d) - d) = 2 ^ 32 + ?j - unat (d - s)"
          unfolding eq by (simp only: unat_sub_wrap) simp
        moreover have "unat (d - s) < 2 ^ 32" using unat_u32_bound [of "d - s"] by simp
        ultimately show ?thesis using False by simp
      qed
      moreover have "?j - k < n" using True False by linarith
      ultimately show ?thesis
        using True step by (simp add: block_copy_def src [simplified])
    next
      case out: False
      then have "\<not> ?j - k < n" "\<not> ?j < k + n" "\<not> ?j < k" using False by linarith+
      with step show ?thesis by (simp add: block_copy_def)
    qed
  qed
qed


lemma up_safe_step:
  assumes "up_safe d s (k + n)"
  shows "up_safe (d + of_nat k) (s + of_nat k) n"
  using assms by (auto simp: up_safe_def)

lemma block_copy_1: "m(d := m s) = block_copy d s 1 m"
proof
  fix a
  have "unat (a - d) < 1 \<longleftrightarrow> a = d" by (simp add: unat_eq_0)
  then show "(m(d := m s)) a = block_copy d s 1 m a" by (simp add: block_copy_def)
qed

lemma rep_movsb_eq: "up_safe d s n \<Longrightarrow> rep_movsb n d s m = block_copy d s n m"
proof (induction n arbitrary: d s m)
  case 0
  show ?case by simp
next
  case (Suc n)
  have "up_safe d s (1 + n)" using Suc.prems by simp
  note step = up_safe_step [OF this] block_copy_append [OF this, of m]
  show ?case
    using Suc.IH [OF step(1)] step(2) by (simp add: block_copy_1 [of m d s, simplified])
qed

lemma block_copy_4:
  "m(d := m s, d + 1 := m (s + 1), d + 2 := m (s + 2), d + 3 := m (s + 3)) = block_copy d s 4 m"
proof
  fix a
  have "unat (a - d) < 4 \<longleftrightarrow> a - d = 0 \<or> a - d = 1 \<or> a - d = 2 \<or> a - d = 3"
  proof -
    have "unat (a - d) < 4 \<longleftrightarrow> unat (a - d) \<in> {0, 1, 2, 3}" by auto
    also have "\<dots> \<longleftrightarrow> a - d = 0 \<or> a - d = 1 \<or> a - d = 2 \<or> a - d = 3"
      by (simp add: word_unat_eq_iff)
    finally show ?thesis .
  qed
  moreover have "a - d = c \<longleftrightarrow> a = d + c" for c by (auto simp: algebra_simps)
  ultimately show "(m(d := m s, d + 1 := m (s + 1), d + 2 := m (s + 2), d + 3 := m (s + 3))) a =
      block_copy d s 4 m a"
    by (auto simp: block_copy_def)
qed

lemma rep_movsl_eq: "up_safe d s (4 * n) \<Longrightarrow> rep_movsl n d s m = block_copy d s (4 * n) m"
proof (induction n arbitrary: d s m)
  case 0
  show ?case by simp
next
  case (Suc n)
  have "up_safe d s (4 + 4 * n)" using Suc.prems by simp
  note step = up_safe_step [OF this] block_copy_append [OF this, of m]
  have "rep_movsl (Suc n) d s m = rep_movsl n (d + 4) (s + 4) (block_copy d s 4 m)"
    by (simp add: block_copy_4)
  also have "\<dots> = block_copy (d + 4) (s + 4) (4 * n) (block_copy d s 4 m)"
    using step(1) by (intro Suc.IH) simp
  also have "\<dots> = block_copy d s (4 + 4 * n) m" using step(2) by simp
  finally show ?case by simp
qed

lemma memcpy_eq:
  assumes "up_safe d s (unat len)"
  shows "memcpy d s len m = block_copy d s (unat len) m"
proof (cases "(d OR s OR len) AND 3 \<noteq> 0")
  case True
  with rep_movsb_eq [OF assms] show ?thesis by (simp add: memcpy_def)
next
  case False
  have "len AND 3 = 0"
  proof (rule bit_word_eqI)
    fix n
    assume "n < LENGTH(32)"
    have "\<not> bit ((d OR s OR len) AND 3) n" using False by simp
    then show "bit (len AND 3) n = bit 0 n" by (auto simp: bit_simps)
  qed
  moreover have "(3 :: u32) = mask 2" by (simp add: mask_eq_decr_exp)
  ultimately have "take_bit 2 len = 0" by (simp add: take_bit_eq_mask)
  then have "unat len mod 4 = 0"
    using unsigned_take_bit_eq [of 2 len, where ?'a = nat] by (simp add: take_bit_eq_mod)
  then have "4 * (unat len div 4) = unat len" by (simp add: mod_0_imp_dvd)
  with False rep_movsl_eq [of d s "unat len div 4" m] assms show ?thesis
    by (simp add: memcpy_def)
qed

lemma iomemcpy_eq: "up_safe d s (unat len) \<Longrightarrow> iomemcpy d s len m = block_copy d s (unat len) m"
proof (induction d s len m rule: iomemcpy.induct)
  case (1 d s len m)
  show ?case
  proof (cases "len > 3")
    case False
    then show ?thesis
      using memcpy_eq [OF "1.prems"] by (subst iomemcpy.simps) simp
  next
    case True
    define copylen where "copylen = (if len > 2048 then 2048 else len) div 4"
    define k where "k = unat (copylen * 4)"
    note c = iomemcpy_chunk [OF True copylen_def]
    have k: "4 * unat copylen = k" "of_nat k = copylen * 4" "k \<le> unat len"
      using c by (simp_all add: k_def)
    have rest: "unat (len - copylen * 4) = unat len - k"
      using c by (simp add: unat_sub_le k_def)
    then have sum: "k + unat (len - copylen * 4) = unat len" using k(3) by simp
    have up: "up_safe d s (k + unat (len - copylen * 4))" using "1.prems" by (simp add: sum)
    have first: "rep_movsl (unat copylen) d s m = block_copy d s k m"
      using rep_movsl_eq [of d s "unat copylen" m] "1.prems" k by (auto simp: up_safe_def)
    have "iomemcpy d s len m =
        iomemcpy (d + copylen * 4) (s + copylen * 4) (len - copylen * 4) (rep_movsl (unat copylen) d s m)"
      using True by (subst iomemcpy.simps) (simp add: copylen_def [symmetric] Let_def)
    also have "\<dots> = block_copy (d + copylen * 4) (s + copylen * 4) (unat (len - copylen * 4))
        (rep_movsl (unat copylen) d s m)"
      using "1.IH" [OF True copylen_def] up_safe_step [OF up] k(2) by simp
    also have "\<dots> = block_copy d s (unat len) m"
      using block_copy_append [OF up, of m] by (simp add: first k(2) sum)
    finally show ?thesis .
  qed
qed


text \<open>Copying downwards.\<close>

definition down_safe :: "u32 \<Rightarrow> u32 \<Rightarrow> nat \<Rightarrow> bool" where
  "down_safe d s n \<longleftrightarrow> n \<le> 2 ^ 32 \<and> (d = s \<or> n \<le> unat (s - d))"

lemma diff_of_nat:
  fixes a d :: u32
  shows "a = d + of_nat (unat (a - d))"
  by simp

lemma block_copy_last:
  assumes "down_safe d s (Suc n)"
  shows "block_copy d s n (m(d + of_nat n := m (s + of_nat n))) = block_copy d s (Suc n) m"
proof
  fix a
  let ?j = "unat (a - d)"
  have n: "unat (of_nat n :: u32) = n" using assms by (simp add: down_safe_def unat_of_nat)
  have last: "a = d + of_nat n \<longleftrightarrow> ?j = n"
    using n diff_of_nat [of a d] by (metis add_diff_cancel_left')
  consider "?j < n" | "?j = n" | "n < ?j" by linarith
  then show "block_copy d s n (m(d + of_nat n := m (s + of_nat n))) a = block_copy d s (Suc n) m a"
  proof cases
    case 1
    have "s + (a - d) \<noteq> d + of_nat n"
    proof
      assume eq: "s + (a - d) = d + of_nat n"
      then have sd: "s - d = of_nat n - (a - d)" by (simp add: algebra_simps)
      have "unat (s - d) = n - ?j"
        unfolding sd using unat_sub_le [of "a - d" "of_nat n"] 1 n by simp
      with assms 1 have "d = s" by (auto simp: down_safe_def)
      with eq last 1 show False by simp
    qed
    with 1 show ?thesis by (simp add: block_copy_def)
  next
    case 2
    with last have "a = d + of_nat n" by simp
    with 2 show ?thesis by (simp add: block_copy_def)
  next
    case 3
    with last show ?thesis by (simp add: block_copy_def)
  qed
qed

lemma move_back_eq:
  "down_safe d s n \<Longrightarrow>
     move_back n (d + of_nat n - 1) (s + of_nat n - 1) m = (block_copy d s n m, d - 1)"
proof (induction n arbitrary: m)
  case 0
  show ?case by simp
next
  case (Suc n)
  have ptr: "d + of_nat (Suc n) - 1 = d + of_nat n" for d :: u32 by simp
  have "down_safe d s n" using Suc.prems by (auto simp: down_safe_def)
  note IH = Suc.IH [OF this]
  show ?case
    unfolding ptr move_back.simps IH block_copy_last [OF Suc.prems] by (rule refl)
qed

lemma memmove_eq:
  assumes "unat d + unat len \<le> 2 ^ 32" "unat s + unat len \<le> 2 ^ 32"
  shows "fst (memmove d s len m) = (\<lambda>a. if unat (a - d) < unat len then m (s + (a - d)) else m a)"
proof (cases "s \<ge> d")
  case True
  have "up_safe d s (unat len)"
  proof (cases "d = s")
    case False
    with True have "unat d < unat s" by (simp add: word_le_nat_alt word_unat_eq_iff)
    then have "unat len \<le> unat (d - s)" using assms unat_sub_wrap [of d s] by simp
    then show ?thesis using unat_u32_bound [of len] by (simp add: up_safe_def)
  qed (use unat_u32_bound [of len] in \<open>simp add: up_safe_def\<close>)
  then show ?thesis using True by (simp add: memmove_def memcpy_eq block_copy_def)
next
  case False
  then have "unat s < unat d" by (simp add: word_le_nat_alt)
  then have "unat len \<le> unat (s - d)" using assms unat_sub_wrap [of s d] by simp
  then have safe: "down_safe d s (unat len)" using unat_u32_bound [of len] by (simp add: down_safe_def)
  have ptr: "p + (len - 1) = p + len - 1" for p :: u32 by simp
  from False show ?thesis
    using move_back_eq [OF safe, of m] by (simp add: memmove_def block_copy_def ptr)
qed

text \<open>C5. \<open>memmove\<close> copies the whole source to the destination, however the two overlap, and
  changes nothing else, when neither area wraps around the end of memory.\<close>

theorem memmove_correct:
  assumes "unat d + unat len \<le> 2 ^ 32" "unat s + unat len \<le> 2 ^ 32"
  shows "fst (memmove d s len m) = (\<lambda>a. if unat (a - d) < unat len then m (s + (a - d)) else m a)"
  using assms by (rule memmove_eq)

definition mem_sample :: mem where
  "mem_sample = (\<lambda>a. if a < 16 then ucast a + 1 else 0)"

theorem memmove_correct_witness: "fst (memmove 3 1 8 mem_sample) 5 = 4"
  using memmove_correct [of 3 8 1 mem_sample] by (simp add: mem_sample_def)

text \<open>The pointer that \<open>memmove\<close> returns is the destination only when it copies upwards.\<close>

lemma memmove_return:
  assumes "s < d" "unat d + unat len \<le> 2 ^ 32"
  shows "snd (memmove d s len m) = d - 1"
proof -
  have lt: "unat s < unat d" using assms(1) by (simp add: word_less_nat_alt)
  then have "unat len \<le> unat (s - d)" using assms(2) unat_sub_wrap [OF lt] by simp
  then have safe: "down_safe d s (unat len)" using unat_u32_bound [of len] by (simp add: down_safe_def)
  have ptr: "p + (len - 1) = p + len - 1" for p :: u32 by simp
  from assms(1) show ?thesis
    using move_back_eq [OF safe, of m] by (simp add: memmove_def ptr not_le)
qed

section \<open>Filling and comparing\<close>

lemma memset_eq:
  "n \<le> 2 ^ 32 \<Longrightarrow> memset s c n m = (\<lambda>a. if unat (a - s) < n then c else m a)"
proof (induction n arbitrary: m)
  case 0
  show ?case by simp
next
  case (Suc n)
  then have n: "unat (of_nat n :: u32) = n" by (simp add: unat_of_nat)
  have "a = s + of_nat n \<longleftrightarrow> unat (a - s) = n" for a
    using n diff_of_nat [of a s] by (metis add_diff_cancel_left')
  with Suc show ?case by (auto simp: fun_eq_iff less_Suc_eq)
qed

lemma memcmp_zero:
  "memcmp m s1 s2 n = 0 \<longleftrightarrow> (\<forall>i < n. m (s1 + of_nat i) = m (s2 + of_nat i))"
proof (induction n arbitrary: s1 s2)
  case 0
  show ?case by simp
next
  case (Suc n)
  have "(\<forall>i < Suc n. m (s1 + of_nat i) = m (s2 + of_nat i)) \<longleftrightarrow>
      m s1 = m s2 \<and> (\<forall>i < n. m (s1 + 1 + of_nat i) = m (s2 + 1 + of_nat i))"
    by (subst All_less_Suc2) (simp add: add.assoc)
  with Suc show ?case by auto
qed

lemma checksum_loop_add: "checksum_loop m p n acc = acc + checksum_loop m p n 0"
proof (induction n arbitrary: p acc)
  case 0
  show ?case by simp
next
  case (Suc n)
  show ?case using Suc.IH [of "p + 1" "acc + m p"] Suc.IH [of "p + 1" "m p"] by simp
qed

lemma checksum_loop_sum:
  "checksum_loop m p n 0 = (\<Sum>i < n. m (p + of_nat i))"
proof (induction n arbitrary: p)
  case 0
  show ?case by simp
next
  case (Suc n)
  have "checksum_loop m p (Suc n) 0 = m p + checksum_loop m (p + 1) n 0"
    by (simp add: checksum_loop_add [of m "p + 1" n "m p"])
  also have "\<dots> = (\<Sum>i < Suc n. m (p + of_nat i))"
    by (subst sum.lessThan_Suc_shift) (simp add: Suc.IH add.assoc)
  finally show ?case .
qed

lemma checksum_update:
  assumes "unat (q - p) < unat len"
  shows "checksum (m(q := v)) p len = checksum m p len - m q + v"
proof -
  let ?k = "unat (q - p)"
  have q: "p + of_nat ?k = q" by simp
  have other: "p + of_nat i \<noteq> q" if "i < unat len" "i \<noteq> ?k" for i
  proof
    assume "p + of_nat i = q"
    then have "of_nat i = q - p" by (simp add: algebra_simps)
    moreover have "unat (of_nat i :: u32) = i"
      using that(1) unat_u32_bound [of len] by (simp add: unat_of_nat)
    ultimately have "?k = i" by metis
    with that(2) show False by simp
  qed
  have "checksum (m(q := v)) p len = (\<Sum>i < unat len. (m(q := v)) (p + of_nat i))"
    by (simp add: checksum_def checksum_loop_sum)
  also have "\<dots> = v + (\<Sum>i \<in> {..<unat len} - {?k}. m (p + of_nat i))"
    using assms other by (subst sum.remove [of _ ?k]) auto
  also have "(\<Sum>i \<in> {..<unat len} - {?k}. m (p + of_nat i)) = checksum m p len - m q"
    using assms by (simp add: checksum_def checksum_loop_sum sum.remove [of "{..<unat len}" ?k])
  finally have eq: "checksum (m(q := v)) p len = v + (checksum m p len - m q)" .
  show ?thesis unfolding eq by (simp only: add.commute)
qed

section \<open>Strings\<close>

text \<open>The memory at \<open>s\<close> holds the string \<open>xs\<close> with its terminating zero.\<close>

fun cstr :: "mem \<Rightarrow> u32 \<Rightarrow> u8 list \<Rightarrow> bool" where
  "cstr m s [] \<longleftrightarrow> m s = 0"
| "cstr m s (c # cs) \<longleftrightarrow> c \<noteq> 0 \<and> m s = c \<and> cstr m (s + 1) cs"

lemma strlen_from_cstr: "cstr m p xs \<Longrightarrow> strlen_from m s p = Some (p + of_nat (length xs) - s)"
proof (induction xs arbitrary: p)
  case Nil
  then show ?case by (simp add: strlen_from.simps)
next
  case (Cons c xs)
  then have "strlen_from m s p = strlen_from m s (p + 1)" by (subst strlen_from.simps) simp
  with Cons show ?case by (simp add: add.assoc)
qed

lemma strlen_cstr: "cstr m s xs \<Longrightarrow> strlen m s = Some (of_nat (length xs))"
  by (simp add: strlen_def strlen_from_cstr)

text \<open>\<open>strcmp\<close> returns on any two terminated strings, and returns 0 exactly when they are
  equal, 1 or -1 otherwise.\<close>

lemma strcmp_correct:
  assumes "cstr m s1 xs" "cstr m s2 ys"
  shows "\<exists>r \<in> {-1, 0, 1}. strcmp m s1 s2 = Some r \<and> (r = 0 \<longleftrightarrow> xs = ys)"
  using assms
proof (induction xs arbitrary: s1 s2 ys)
  case Nil
  then show ?case by (cases ys) (auto simp: strcmp.simps)
next
  case (Cons x xs)
  show ?case
  proof (cases ys)
    case Nil
    with Cons.prems show ?thesis by (auto simp: strcmp.simps)
  next
    case (Cons y ys')
    show ?thesis
    proof (cases "x = y")
      case True
      then have "strcmp m s1 s2 = strcmp m (s1 + 1) (s2 + 1)"
        using Cons Cons.prems by (subst strcmp.simps) auto
      moreover have "\<exists>r \<in> {-1, 0, 1}. strcmp m (s1 + 1) (s2 + 1) = Some r \<and> (r = 0 \<longleftrightarrow> xs = ys')"
        using Cons.IH [of "s1 + 1" "s2 + 1" ys'] Cons Cons.prems by simp
      ultimately show ?thesis using True Cons by auto
    next
      case False
      with Cons Cons.prems have "strcmp m s1 s2 = Some (if x <s y then -1 else 1)"
        by (subst strcmp.simps) auto
      with False Cons show ?thesis by auto
    qed
  qed
qed


lemma cstr_upd:
  "cstr m s xs \<Longrightarrow> \<forall>i \<le> length xs. s + of_nat i \<noteq> a \<Longrightarrow> cstr (m(a := v)) s xs"
proof (induction xs arbitrary: s)
  case Nil
  then show ?case by simp
next
  case (Cons c xs)
  have "s \<noteq> a" using Cons.prems(2)[rule_format, of 0] by simp
  moreover have "\<forall>i \<le> length xs. s + 1 + of_nat i \<noteq> a"
    using Cons.prems(2) by (auto simp: add.assoc dest: spec [of _ "Suc _"])
  ultimately show ?case using Cons by simp
qed

lemma strtcpy_loop_correct:
  assumes "cstr m src xs" "\<forall>i \<le> length xs. n < unat (src + of_nat i - d)" "n < 2 ^ 32 - 1"
  shows "cstr (strtcpy_loop n d src m) d (take n xs) \<and>
    (\<forall>a. n < unat (a - d) \<longrightarrow> strtcpy_loop n d src m a = m a)"
  using assms
proof (induction n arbitrary: d src m xs)
  case 0
  have "a \<noteq> d" if "0 < unat (a - d)" for a using that by auto
  then show ?case by auto
next
  case (Suc n)
  have other: "a \<noteq> d" if "n < unat (a - d)" for a using that by auto
  show ?case
  proof (cases xs)
    case Nil
    with Suc.prems other show ?thesis by auto
  next
    case (Cons c cs)
    have c: "c \<noteq> 0" "m src = c" "cstr m (src + 1) cs" using Suc.prems(1) Cons by auto
    have far: "Suc n < unat (src + 1 + of_nat i - d)" if "i \<le> length cs" for i
      using Suc.prems(2) [rule_format, of "Suc i"] that Cons by (simp add: add.assoc)
    have str: "cstr (m(d := c)) (src + 1) cs"
    proof (rule cstr_upd [OF c(3)])
      show "\<forall>i \<le> length cs. src + 1 + of_nat i \<noteq> d" using far by fastforce
    qed
    have dist: "unat (a - (d + 1)) = unat (a - d) - 1" if "0 < unat (a - d)" for a
      using unat_diff_step [of 1 a d] that by simp
    have far': "\<forall>i \<le> length cs. n < unat (src + 1 + of_nat i - (d + 1))"
    proof (intro allI impI)
      fix i assume "i \<le> length cs"
      with far [of i] dist [of "src + 1 + of_nat i"]
      show "n < unat (src + 1 + of_nat i - (d + 1))" by linarith
    qed
    have n: "n < 2 ^ 32 - 1" using Suc.prems(3) by simp
    note IH = Suc.IH [OF str far' n]
    have step: "strtcpy_loop (Suc n) d src m = strtcpy_loop n (d + 1) (src + 1) (m(d := c))"
      using c by simp
    have "unat (d - (d + 1)) = 2 ^ 32 - 1"
      by (simp add: unsigned_minus_1_eq_mask mask_eq_exp_minus_1)
    then have "n < unat (d - (d + 1))" using n by linarith
    then have "strtcpy_loop n (d + 1) (src + 1) (m(d := c)) d = c"
      using IH by (metis fun_upd_same)
    moreover have "strtcpy_loop n (d + 1) (src + 1) (m(d := c)) a = m a" if a: "Suc n < unat (a - d)" for a
    proof -
      have "n < unat (a - (d + 1))" using a dist [of a] by linarith
      moreover have "a \<noteq> d" using other [of a] a by simp
      ultimately show ?thesis using IH by (metis fun_upd_other)
    qed
    moreover have "cstr (strtcpy_loop n (d + 1) (src + 1) (m(d := c))) (d + 1) (take n cs)"
      using IH by (rule conjunct1)
    ultimately show ?thesis using c(1) unfolding step Cons by simp
  qed
qed

text \<open>
  \<open>strtcpy\<close> into a buffer of \<open>len\<close> bytes that does not contain the source string:
  the buffer holds the string, cut to \<open>len - 1\<close> characters, with its terminating zero, and no byte
  outside the buffer has changed.\<close>

theorem strtcpy_correct:
  assumes "cstr m src xs" "len \<noteq> 0" "\<forall>i \<le> length xs. unat len \<le> unat (src + of_nat i - dest)"
  shows "cstr (strtcpy dest src len m) dest (take (unat len - 1) xs) \<and>
    (\<forall>a. unat len \<le> unat (a - dest) \<longrightarrow> strtcpy dest src len m a = m a)"
proof -
  have len: "unat (len - 1) = unat len - 1" "0 < unat len"
    using assms(2) by (simp_all add: unat_minus_one unat_gt_0)
  have "unat (len - 1) < unat (src + of_nat i - dest)" if "i \<le> length xs" for i
  proof -
    have "unat len \<le> unat (src + of_nat i - dest)" using assms(3) that by blast
    then show ?thesis using len by linarith
  qed
  moreover have "unat (len - 1) < 2 ^ 32 - 1" using unat_u32_bound [of len] len by simp
  ultimately have r: "cstr (strtcpy_loop (unat (len - 1)) dest src m) dest (take (unat (len - 1)) xs)"
    "\<forall>a. unat (len - 1) < unat (a - dest) \<longrightarrow> strtcpy_loop (unat (len - 1)) dest src m a = m a"
    using strtcpy_loop_correct [OF assms(1)] by blast+
  have "unat len \<le> unat (a - dest) \<longleftrightarrow> unat (len - 1) < unat (a - dest)" for a
    using len by linarith
  with r show ?thesis by (simp add: strtcpy_def len(1))
qed

definition str_sample :: mem where
  "str_sample = (\<lambda>a. if a = 0x100 then 72 else if a = 0x101 then 105 else if a = 0x102 then 33 else 0)"

theorem strtcpy_correct_witness:
  "cstr (strtcpy 0x10 0x100 3 str_sample) 0x10 [72, 105]"
proof -
  have "(3 :: nat) \<le> unat (0x100 + of_nat i - 0x10 :: u32)" if "i \<le> 3" for i
  proof -
    have "i = 0 \<or> i = 1 \<or> i = 2 \<or> i = 3" using that by arith
    then show ?thesis by auto
  qed
  then show ?thesis
    using strtcpy_correct [of str_sample "0x100" "[72, 105, 33]" 3 "0x10"] by (simp add: str_sample_def)
qed

lemma strchr_cstr:
  "cstr m s xs \<Longrightarrow> strchr m s c =
     Some (case dropWhile (\<lambda>x. sint x \<noteq> c) xs of
       [] \<Rightarrow> 0 | _ \<Rightarrow> s + of_nat (length (takeWhile (\<lambda>x. sint x \<noteq> c) xs)))"
proof (induction xs arbitrary: s)
  case Nil
  then show ?case by (simp add: strchr.simps)
next
  case (Cons x xs)
  show ?case
  proof (cases "sint x = c")
    case True
    with Cons.prems show ?thesis by (simp add: strchr.simps)
  next
    case False
    with Cons.prems have "strchr m s c = strchr m (s + 1) c" by (subst strchr.simps) simp
    with Cons False show ?thesis
      by (auto simp add: add.assoc simp del: dropWhile_eq_Nil_conv split: list.split)
  qed
qed

section \<open>nullTrailingSpace\<close>

definition trim :: "u8 list \<Rightarrow> u8 list" where
  "trim xs = dropWhile blank (rev (dropWhile blank (rev xs)))"

lemma cstr_append:
  "cstr m s (xs @ ys) \<longleftrightarrow> (\<forall>i < length xs. xs ! i \<noteq> 0 \<and> m (s + of_nat i) = xs ! i) \<and>
     cstr m (s + of_nat (length xs)) ys"
proof (induction xs arbitrary: s)
  case Nil
  show ?case by simp
next
  case (Cons x xs)
  show ?case
    by (simp add: Cons.IH All_less_Suc2 add.assoc)
qed

lemma null_trailing_cstr:
  assumes "cstr m buf xs" "length xs < 2 ^ 32"
  shows "cstr (null_trailing (length xs) buf m) buf (rev (dropWhile blank (rev xs)))"
  using assms
proof (induction xs arbitrary: m rule: rev_induct)
  case Nil
  then show ?case by simp
next
  case (snoc x xs)
  have m: "\<forall>i < length xs. xs ! i \<noteq> 0 \<and> m (buf + of_nat i) = xs ! i"
      "x \<noteq> 0" "m (buf + of_nat (length xs)) = x"
    using snoc.prems(1) by (simp_all add: cstr_append)
  show ?case
  proof (cases "blank x")
    case False
    with m snoc.prems(1) show ?thesis by simp
  next
    case True
    define m' where "m' = m(buf + of_nat (length xs) := 0)"
    have "m' (buf + of_nat i) = xs ! i" if "i < length xs" for i
    proof -
      have "unat (of_nat i :: u32) = i" "unat (of_nat (length xs) :: u32) = length xs"
        using that snoc.prems(2) by (simp_all add: unat_of_nat)
      then have "(of_nat i :: u32) \<noteq> of_nat (length xs)" using that by (metis less_irrefl)
      with m(1) that show ?thesis by (simp add: m'_def)
    qed
    with m(1) have "cstr m' buf (xs @ [])"
      by (simp only: cstr_append) (simp add: m'_def)
    with snoc have "cstr (null_trailing (length xs) buf m') buf (rev (dropWhile blank (rev xs)))"
      by simp
    with True m(3) show ?thesis by (simp add: m'_def)
  qed
qed

lemma skip_blank_cstr:
  "cstr m s xs \<Longrightarrow> \<exists>p. skip_blank m s = Some p \<and> cstr m p (dropWhile blank xs)"
proof (induction xs arbitrary: s)
  case Nil
  then show ?case by (simp add: skip_blank.simps)
next
  case (Cons x xs)
  show ?case
  proof (cases "blank x")
    case True
    with Cons.prems have "skip_blank m s = skip_blank m (s + 1)" by (subst skip_blank.simps) simp
    with Cons True show ?thesis by simp
  next
    case False
    with Cons.prems show ?thesis by (subst skip_blank.simps) auto
  qed
qed

text \<open>\<open>nullTrailingSpace\<close> returns on every terminated string, and the pointer it returns is
  the string without its leading and trailing blanks.\<close>

lemma nullTrailingSpace_trims:
  assumes "cstr m buf xs" "length xs < 2 ^ 32"
  shows "\<exists>m' p. nullTrailingSpace buf m = Some (m', p) \<and> cstr m' p (trim xs)"
proof -
  have len: "unat (of_nat (length xs) :: u32) = length xs" using assms(2) by (simp add: unat_of_nat)
  let ?m = "null_trailing (length xs) buf m"
  obtain p where "skip_blank ?m buf = Some p" "cstr ?m p (trim xs)"
    using skip_blank_cstr [OF null_trailing_cstr [OF assms]] unfolding trim_def by blast
  then show ?thesis
    using strlen_cstr [OF assms(1)] len by (simp add: nullTrailingSpace_def Let_def)
qed

end
