(* ===== verification/Bytes.thy ===== *)
theory Bytes
  imports CString
begin

text \<open>
  Bytes in memory: a range read as a list, a list written, and the little-endian bytes of a value. Shared by all
  parts that build or read structures in memory.
\<close>

section \<open>Bytes and little-endian values\<close>

definition mem_read :: "mem \<Rightarrow> u32 \<Rightarrow> nat \<Rightarrow> u8 list" where
  "mem_read m p n = map (\<lambda>i. m (p + of_nat i)) [0..<n]"

fun mem_write :: "u32 \<Rightarrow> u8 list \<Rightarrow> mem \<Rightarrow> mem" where
  "mem_write p [] m = m"
| "mem_write p (b # bs) m = mem_write (p + 1) bs (m(p := b))"

fun le_word :: "u8 list \<Rightarrow> 'a::len word" where
  "le_word [] = 0"
| "le_word (b # bs) = ucast b OR push_bit 8 (le_word bs)"

fun le_bytes :: "nat \<Rightarrow> 'a::len word \<Rightarrow> u8 list" where
  "le_bytes 0 w = []"
| "le_bytes (Suc n) w = ucast w # le_bytes n (drop_bit 8 w)"

definition bytes_of :: "string \<Rightarrow> u8 list" where
  "bytes_of s = map (\<lambda>c. of_nat (of_char c)) s"

section \<open>What is written is read\<close>

lemma length_mem_read [simp]: "length (mem_read m p n) = n"
  by (simp add: mem_read_def)

lemma nth_mem_read [simp]: "i < n \<Longrightarrow> mem_read m p n ! i = m (p + of_nat i)"
  by (simp add: mem_read_def)

lemma length_le_bytes [simp]: "length (le_bytes n w) = n"
  by (induction n arbitrary: w) auto

lemma nth_le_bytes: "i < n \<Longrightarrow> le_bytes n (w :: 'a::len word) ! i = ucast (drop_bit (8 * i) w)"
proof (induction n arbitrary: w i)
  case 0
  then show ?case by simp
next
  case (Suc n)
  then show ?case by (cases i) (simp_all add: drop_bit_drop_bit add.commute)
qed

lemma bit_le_word:
  "bit (le_word bs :: 'a::len word) i \<longleftrightarrow>
     i < LENGTH('a) \<and> i div 8 < length bs \<and> bit (bs ! (i div 8)) (i mod 8)"
proof (induction bs arbitrary: i)
  case Nil
  show ?case by simp
next
  case (Cons b bs)
  show ?case
  proof (cases "i < 8")
    case True
    then show ?thesis by (auto simp: bit_simps)
  next
    case False
    then obtain j where j: "i = 8 + j" by (metis le_Suc_ex not_less)
    have "\<not> bit b (8 + j)" using bit_imp_le_length [of b "8 + j"] by auto
    moreover have "(8 + j) div 8 = Suc (j div 8)" by simp
    ultimately show ?thesis using Cons.IH [of j] by (auto simp: bit_simps j simp del: div_add_self1)
  qed
qed

lemma le_word_bytes:
  "le_word (le_bytes n (w :: 'a::len word)) = (take_bit (8 * n) (ucast w) :: 'b::len word)"
proof (rule bit_word_eqI)
  fix i assume i: "i < LENGTH('b)"
  have "i div 8 < n \<longleftrightarrow> i < 8 * n" by (simp add: div_less_iff_less_mult mult.commute)
  moreover have "8 * (i div 8) + i mod 8 = i" by simp
  ultimately show "bit (le_word (le_bytes n w) :: 'b word) i = bit (take_bit (8 * n) (ucast w :: 'b word)) i"
    using i by (auto simp: bit_le_word nth_le_bytes bit_simps)
qed

lemma mem_write_eq:
  "length bs \<le> 2 ^ 32 \<Longrightarrow>
     mem_write p bs m = (\<lambda>a. if unat (a - p) < length bs then bs ! unat (a - p) else m a)"
proof (induction bs arbitrary: p m)
  case Nil
  show ?case by simp
next
  case (Cons b bs)
  show ?case
  proof
    fix a
    have len: "length bs < 2 ^ 32" using Cons.prems by simp
    have IH: "mem_write (p + 1) bs (m(p := b)) a =
        (if unat (a - (p + 1)) < length bs then bs ! unat (a - (p + 1)) else (m(p := b)) a)"
      by (rule fun_cong [OF Cons.IH]) (use len in simp)
    show "mem_write p (b # bs) m a =
        (if unat (a - p) < length (b # bs) then (b # bs) ! unat (a - p) else m a)"
    proof (cases "a = p")
      case True
      have "unat (p - (p + 1)) = 2 ^ 32 - 1"
        by (simp add: unsigned_minus_1_eq_mask mask_eq_exp_minus_1)
      then have "\<not> unat (p - (p + 1)) < length bs" using len by linarith
      with True IH show ?thesis by simp
    next
      case False
      then have "0 < unat (a - p)" by (simp add: unat_gt_0)
      then have "unat (a - (p + 1)) = unat (a - p) - 1" using unat_diff_step [of 1 a p] by simp
      with IH False \<open>0 < unat (a - p)\<close> show ?thesis by (auto simp: nth_Cons')
    qed
  qed
qed

lemma mem_read_write_same:
  assumes "length bs \<le> 2 ^ 32"
  shows "mem_read (mem_write p bs m) p (length bs) = bs"
proof (rule nth_equalityI)
  fix i assume "i < length (mem_read (mem_write p bs m) p (length bs))"
  then have "i < length bs" by simp
  moreover from this have "unat (of_nat i :: u32) = i" using assms by (simp add: unat_of_nat)
  ultimately show "mem_read (mem_write p bs m) p (length bs) ! i = bs ! i"
    using assms by (simp add: mem_write_eq)
qed simp

lemma mem_read_take: "k \<le> n \<Longrightarrow> mem_read m p k = take k (mem_read m p n)"
  by (rule nth_equalityI) simp_all

lemma mem_read_drop: "mem_read m (p + of_nat k) n = drop k (mem_read m p (k + n))"
  by (rule nth_equalityI) (simp_all add: add.assoc)

lemma mem_read_part: "k + j \<le> n \<Longrightarrow> mem_read m (p + of_nat k) j = take j (drop k (mem_read m p n))"
  by (rule nth_equalityI) (simp_all add: add.assoc)

end
