(* ===== verification/ByteOrder.thy ===== *)
theory ByteOrder
  imports Bytes
begin

text \<open>
  Byte order (\<open>src/byteorder.h\<close>): the swaps of 16, 32 and 64 bits, with which the code reads and writes the
  big-endian fields of SCSI commands and of digests. Written to memory, a swapped value has its bytes in
  big-endian order; swapping twice changes nothing.
\<close>

definition swab16 :: "u16 \<Rightarrow> u16" where
  "swab16 v = le_word (rev (le_bytes 2 v))"

definition swab32 :: "u32 \<Rightarrow> u32" where
  "swab32 v = le_word (rev (le_bytes 4 v))"

definition swab64 :: "u64 \<Rightarrow> u64" where
  "swab64 v = (let lo = (ucast v :: u32); hi = (ucast (drop_bit 32 v) :: u32)
               in ucast (swab32 hi) OR push_bit 32 (ucast (swab32 lo)))"

definition be_bytes :: "nat \<Rightarrow> 'a::len word \<Rightarrow> u8 list" where "be_bytes n w = rev (le_bytes n w)"

lemma bytes_le_word:
  assumes "length bs = n" "8 * n \<le> LENGTH('a)"
  shows "le_bytes n (le_word bs :: 'a::len word) = bs"
proof (rule nth_equalityI)
  show "length (le_bytes n (le_word bs :: 'a word)) = length bs" using assms by simp
  fix i assume "i < length (le_bytes n (le_word bs :: 'a word))"
  then have i: "i < n" by simp
  show "le_bytes n (le_word bs :: 'a word) ! i = bs ! i"
  proof (rule bit_word_eqI)
    fix j assume "j < LENGTH(8)"
    then have j: "j < 8" by simp
    then have "(j + 8 * i) div 8 = i" "(j + 8 * i) mod 8 = j" by auto
    then show "bit (le_bytes n (le_word bs :: 'a word) ! i) j = bit (bs ! i) j"
      using i j assms by (auto simp: nth_le_bytes bit_simps bit_le_word add.commute)
  qed
qed

lemma le_bytes_swab64: "le_bytes 8 (swab64 v) = be_bytes 8 v"
proof (rule nth_equalityI)
  show "length (le_bytes 8 (swab64 v)) = length (be_bytes 8 v)" by (simp add: be_bytes_def)
  fix i assume "i < length (le_bytes 8 (swab64 v))"
  then have "i = 0 \<or> i = 1 \<or> i = 2 \<or> i = 3 \<or> i = 4 \<or> i = 5 \<or> i = 6 \<or> i = 7" by auto
  moreover have "bit (le_bytes 8 (swab64 v) ! i) n = bit (be_bytes 8 v ! i) n" if "i < 8" "n < 8" for n
  proof -
    have d: "(8 + n) div 8 = 1" "(16 + n) div 8 = 2" "(24 + n) div 8 = 3" "n div 8 = 0"
        "(8 + n) mod 8 = n" "(16 + n) mod 8 = n" "(24 + n) mod 8 = n" "n mod 8 = n"
      using that(2) by presburger+
    show ?thesis
      using calculation that
      by (elim disjE) (auto simp: be_bytes_def swab64_def swab32_def rev_nth nth_le_bytes bit_simps bit_le_word Let_def d)
  qed
  ultimately show "le_bytes 8 (swab64 v) ! i = be_bytes 8 v ! i"
    by (intro bit_word_eqI) auto
qed

lemma swab32_bytes: "le_bytes 4 (swab32 v) = be_bytes 4 v"
  unfolding swab32_def be_bytes_def by (rule bytes_le_word) simp_all

lemma swab16_bytes: "le_bytes 2 (swab16 v) = be_bytes 2 v"
  unfolding swab16_def be_bytes_def by (rule bytes_le_word) simp_all

lemma swab_swab [simp]: "swab16 (swab16 v) = v" "swab32 (swab32 w) = w"
  by (simp_all add: swab16_def swab32_def bytes_le_word le_word_bytes take_bit_word_eq_self)

text \<open>Reading a big-endian field.\<close>

lemma swab_le_word:
  "length bs = 2 \<Longrightarrow> swab16 (le_word bs) = le_word (rev bs)"
  "length bs = 4 \<Longrightarrow> swab32 (le_word bs) = le_word (rev bs)"
  by (simp_all add: swab16_def swab32_def bytes_le_word)

end
