(* ===== verification/Romfile.thy ===== *)
theory Romfile
  imports MallocProps ByteOrder
begin

text \<open>
  The pseudo file interface of \<open>src/romfile.c\<close> and the QEMU firmware configuration files behind
  it (\<open>src/fw/paravirt.c\<close>). A file is its name, its size and the source that its
  \<open>copy\<close> function reads: constant data in memory (\<open>const_read_file\<close>) or an item of the
  fw_cfg device (\<open>qemu_cfg_read_file\<close>). A pointer into the list of files is the rest of the list
  from that file on, null is the empty list. The device is a parameter: \<open>cfg_ops\<close> are its answers to accesses to its
  ports and what it does to memory while the code waits, \<open>cfg_dev\<close> is its state. What the interface is documented
  to do is the predicate \<open>fw_cfg_device\<close>, a hypothesis where it is needed. The variables whose address is handed to
  the device lie at \<open>r_stack\<close>. A transfer that the device never completes sets \<open>cfg_hung\<close>: the code
  does not come back from it, and nothing is claimed of the states after it.
\<close>

section \<open>State\<close>

datatype romsrc = ConstFile u32 | QemuFile u16 u32

record romfile_s =
  rf_name :: "u8 list"
  rf_size :: u32
  rf_copy :: romsrc

text \<open>
  The state of the device: the bytes of its items, the item that is selected and the offset in it, the writes that it
  has received, and a transfer that it has begun, with the address of its description and a delay.
\<close>

record cfg_dev_s =
  cfg_item :: "u16 \<Rightarrow> nat \<Rightarrow> u8"
  cfg_sel :: u16
  cfg_pos :: nat
  cfg_log :: "(u16 \<times> nat \<times> u8 list) list"
  cfg_pending :: "(u32 \<times> nat) option"

record cfg_port_ops =
  cfg_outw :: "u16 \<Rightarrow> u16 \<Rightarrow> cfg_dev_s \<Rightarrow> cfg_dev_s"
  cfg_inb :: "u16 \<Rightarrow> cfg_dev_s \<Rightarrow> u8 \<times> cfg_dev_s"
  cfg_outl :: "u32 \<Rightarrow> u16 \<Rightarrow> mem \<times> cfg_dev_s \<Rightarrow> mem \<times> cfg_dev_s"
  cfg_yield :: "mem \<times> cfg_dev_s \<Rightarrow> mem \<times> cfg_dev_s"

record fwstate =
  r_mem :: mem
  r_ms :: mstate
  RomfileRoot :: "romfile_s list"
  cfg_dma_enabled :: bool
  cfg_ops :: cfg_port_ops
  cfg_dev :: cfg_dev_s
  cfg_hung :: bool
  r_stack :: u32

section \<open>Memory\<close>

definition fw_alloc :: "zone_id \<Rightarrow> u32 \<Rightarrow> u32 \<Rightarrow> fwstate \<Rightarrow> fwstate \<times> u32" where
  "fw_alloc z sz align st =
     (let (ms, p) = malloc_palloc z sz align (r_ms st) in (st\<lparr>r_ms := ms\<rparr>, p))"

definition malloc_tmphigh :: "u32 \<Rightarrow> fwstate \<Rightarrow> fwstate \<times> u32" where
  "malloc_tmphigh sz st = fw_alloc ZoneTmpHigh sz MALLOC_MIN_ALIGN st"

definition malloc_tmplow :: "u32 \<Rightarrow> fwstate \<Rightarrow> fwstate \<times> u32" where
  "malloc_tmplow sz st = fw_alloc ZoneTmpLow sz MALLOC_MIN_ALIGN st"

definition malloc_high :: "u32 \<Rightarrow> fwstate \<Rightarrow> fwstate \<times> u32" where
  "malloc_high sz st = fw_alloc ZoneHigh sz MALLOC_MIN_ALIGN st"

definition malloc_tmp :: "u32 \<Rightarrow> fwstate \<Rightarrow> fwstate \<times> u32" where
  "malloc_tmp sz st =
     (let (st1, p) = malloc_tmphigh sz st in if p \<noteq> 0 then (st1, p) else malloc_tmplow sz st1)"

definition free :: "u32 \<Rightarrow> fwstate \<Rightarrow> fwstate" where
  "free data st = (if data = 0 then st else st\<lparr>r_ms := fst (malloc_pfree data (r_ms st))\<rparr>)"

section \<open>The fw_cfg interface\<close>

definition PORT_QEMU_CFG_CTL :: u16 where "PORT_QEMU_CFG_CTL = 0x0510"
definition PORT_QEMU_CFG_DATA :: u16 where "PORT_QEMU_CFG_DATA = 0x0511"
definition PORT_QEMU_CFG_DMA_ADDR_LOW :: u16 where "PORT_QEMU_CFG_DMA_ADDR_LOW = 0x0518"
definition QEMU_CFG_DMA_CTL_ERROR :: u32 where "QEMU_CFG_DMA_CTL_ERROR = 0x01"
definition QEMU_CFG_DMA_CTL_READ :: u32 where "QEMU_CFG_DMA_CTL_READ = 0x02"
definition QEMU_CFG_DMA_CTL_SKIP :: u32 where "QEMU_CFG_DMA_CTL_SKIP = 0x04"
definition QEMU_CFG_DMA_CTL_SELECT :: u32 where "QEMU_CFG_DMA_CTL_SELECT = 0x08"
definition QEMU_CFG_DMA_CTL_WRITE :: u32 where "QEMU_CFG_DMA_CTL_WRITE = 0x10"

definition qemu_cfg_select :: "u16 \<Rightarrow> fwstate \<Rightarrow> fwstate" where
  "qemu_cfg_select f st = st\<lparr>cfg_dev := cfg_outw (cfg_ops st) f PORT_QEMU_CFG_CTL (cfg_dev st)\<rparr>"

text \<open>The description of a transfer at \<open>access\<close>: control, length and address, each big-endian.\<close>

definition write_access :: "u32 \<Rightarrow> u32 \<Rightarrow> u32 \<Rightarrow> u32 \<Rightarrow> mem \<Rightarrow> mem" where
  "write_access access addr len control m =
     (let m1 = mem_write (access + 8) (le_bytes 8 (swab64 (ucast addr))) m;
          m2 = mem_write (access + 4) (le_bytes 4 (swab32 len)) m1
      in mem_write access (le_bytes 4 (swab32 control)) m2)"

definition access_control :: "u32 \<Rightarrow> mem \<Rightarrow> u32" where
  "access_control access m = swab32 (le_word (mem_read m access 4))"

text \<open>The loop that waits until the control word is clear, but for the error bit.\<close>

partial_function (option) dma_wait :: "cfg_port_ops \<Rightarrow> u32 \<Rightarrow> mem \<times> cfg_dev_s \<Rightarrow> (mem \<times> cfg_dev_s) option" where
  "dma_wait ops access s =
     (if access_control access (fst s) AND NOT QEMU_CFG_DMA_CTL_ERROR \<noteq> 0 then dma_wait ops access (cfg_yield ops s) else Some s)"

definition qemu_cfg_dma_transfer :: "u32 \<Rightarrow> u32 \<Rightarrow> u32 \<Rightarrow> fwstate \<Rightarrow> fwstate" where
  "qemu_cfg_dma_transfer addr len control st =
     (let access = r_stack st;
          m = write_access access addr len control (r_mem st);
          s = cfg_outl (cfg_ops st) (swab32 access) PORT_QEMU_CFG_DMA_ADDR_LOW (m, cfg_dev st)
      in case dma_wait (cfg_ops st) access s of
           None \<Rightarrow> st\<lparr>cfg_hung := True\<rparr>
         | Some (m1, d) \<Rightarrow> st\<lparr>r_mem := m1, cfg_dev := d\<rparr>)"

text \<open>\<open>insb\<close> from the data port, and the reads whose value is not used.\<close>

fun cfg_insb :: "nat \<Rightarrow> u32 \<Rightarrow> fwstate \<Rightarrow> fwstate" where
  "cfg_insb 0 p st = st"
| "cfg_insb (Suc n) p st =
     (let (v, d) = cfg_inb (cfg_ops st) PORT_QEMU_CFG_DATA (cfg_dev st)
      in cfg_insb n (p + 1) (st\<lparr>r_mem := (r_mem st)(p := v), cfg_dev := d\<rparr>))"

fun cfg_drop :: "nat \<Rightarrow> fwstate \<Rightarrow> fwstate" where
  "cfg_drop 0 st = st"
| "cfg_drop (Suc n) st = cfg_drop n (st\<lparr>cfg_dev := snd (cfg_inb (cfg_ops st) PORT_QEMU_CFG_DATA (cfg_dev st))\<rparr>)"

definition qemu_cfg_read :: "u32 \<Rightarrow> u32 \<Rightarrow> fwstate \<Rightarrow> fwstate" where
  "qemu_cfg_read buf len st =
     (if len = 0 then st
      else if cfg_dma_enabled st then qemu_cfg_dma_transfer buf len QEMU_CFG_DMA_CTL_READ st
      else cfg_insb (unat len) buf st)"

definition qemu_cfg_write :: "u32 \<Rightarrow> u32 \<Rightarrow> fwstate \<Rightarrow> fwstate" where
  "qemu_cfg_write buf len st =
     (if len = 0 then st
      else if cfg_dma_enabled st then qemu_cfg_dma_transfer buf len QEMU_CFG_DMA_CTL_WRITE st
      else st)"

definition qemu_cfg_skip :: "u32 \<Rightarrow> fwstate \<Rightarrow> fwstate" where
  "qemu_cfg_skip len st =
     (if len = 0 then st
      else if cfg_dma_enabled st then qemu_cfg_dma_transfer 0 len QEMU_CFG_DMA_CTL_SKIP st
      else cfg_drop (unat len) st)"

definition qemu_cfg_read_entry :: "u32 \<Rightarrow> u16 \<Rightarrow> u32 \<Rightarrow> fwstate \<Rightarrow> fwstate" where
  "qemu_cfg_read_entry buf e len st =
     (if cfg_dma_enabled st
      then qemu_cfg_dma_transfer buf len (push_bit 16 (ucast e) OR QEMU_CFG_DMA_CTL_SELECT OR QEMU_CFG_DMA_CTL_READ) st
      else qemu_cfg_read buf len (qemu_cfg_select e st))"

definition qemu_cfg_write_entry :: "u32 \<Rightarrow> u16 \<Rightarrow> u32 \<Rightarrow> fwstate \<Rightarrow> fwstate" where
  "qemu_cfg_write_entry buf e len st =
     (if cfg_dma_enabled st
      then qemu_cfg_dma_transfer buf len (push_bit 16 (ucast e) OR QEMU_CFG_DMA_CTL_SELECT OR QEMU_CFG_DMA_CTL_WRITE) st
      else st)"

section \<open>Reading files\<close>

text \<open>The \<open>copy\<close> functions: their result is -1 or the size as an \<open>int\<close>.\<close>

definition qemu_cfg_read_file :: "romfile_s \<Rightarrow> u16 \<Rightarrow> u32 \<Rightarrow> u32 \<Rightarrow> u32 \<Rightarrow> fwstate \<Rightarrow> int \<times> fwstate" where
  "qemu_cfg_read_file file select skip dst maxlen st =
     (if rf_size file > maxlen then (-1, st)
      else (sint (rf_size file),
            if skip = 0 then qemu_cfg_read_entry dst select (rf_size file) st
            else qemu_cfg_read dst (rf_size file) (qemu_cfg_skip skip (qemu_cfg_select select st))))"

definition const_read_file :: "romfile_s \<Rightarrow> u32 \<Rightarrow> u32 \<Rightarrow> u32 \<Rightarrow> fwstate \<Rightarrow> int \<times> fwstate" where
  "const_read_file file data dst maxlen st =
     (if rf_size file > maxlen then (-1, st)
      else let len = (if maxlen > rf_size file then rf_size file else maxlen)
           in (sint (rf_size file), st\<lparr>r_mem := mem_write dst (mem_read (r_mem st) data (unat len)) (r_mem st)\<rparr>))"

definition file_copy :: "romfile_s \<Rightarrow> u32 \<Rightarrow> u32 \<Rightarrow> fwstate \<Rightarrow> int \<times> fwstate" where
  "file_copy file dst maxlen st =
     (case rf_copy file of
        ConstFile data \<Rightarrow> const_read_file file data dst maxlen st
      | QemuFile select skip \<Rightarrow> qemu_cfg_read_file file select skip dst maxlen st)"

section \<open>romfile.c\<close>

definition romfile_add :: "romfile_s \<Rightarrow> fwstate \<Rightarrow> fwstate" where
  "romfile_add file st = st\<lparr>RomfileRoot := file # RomfileRoot st\<rparr>"

text \<open>The \<open>char name[128]\<close> of a file, and the bytes of a string with its zero.\<close>

definition name_array :: "u8 list \<Rightarrow> u8 list" where
  "name_array nm = nm @ replicate (128 - length nm) 0"

fun romfile_findprefix_from :: "u8 list \<Rightarrow> romfile_s list \<Rightarrow> romfile_s list" where
  "romfile_findprefix_from prefix [] = []"
| "romfile_findprefix_from prefix (cur # rest) =
     (if take (length prefix) (name_array (rf_name cur)) = prefix then cur # rest
      else romfile_findprefix_from prefix rest)"

text \<open>\<open>prev\<close> is \<open>None\<close> for the first search, else the list from the previous hit on.\<close>

definition romfile_findprefix :: "u8 list \<Rightarrow> romfile_s list option \<Rightarrow> fwstate \<Rightarrow> romfile_s list" where
  "romfile_findprefix prefix prev st =
     romfile_findprefix_from prefix (case prev of None \<Rightarrow> RomfileRoot st | Some l \<Rightarrow> tl l)"

definition romfile_find :: "u8 list \<Rightarrow> fwstate \<Rightarrow> romfile_s option" where
  "romfile_find name st =
     (case romfile_findprefix_from (name @ [0]) (RomfileRoot st) of [] \<Rightarrow> None | f # _ \<Rightarrow> Some f)"

definition romfile_loadfile :: "u8 list \<Rightarrow> fwstate \<Rightarrow> fwstate \<times> (u32 \<times> u32) option" where
  "romfile_loadfile name st =
     (case romfile_find name st of
        None \<Rightarrow> (st, None)
      | Some file \<Rightarrow>
          let filesize = rf_size file in
          if filesize = 0 then (st, None)
          else
            let (st1, data) = malloc_tmphigh (filesize + 1) st in
            if data = 0 then (st1, None)
            else
              let (ret, st2) = file_copy file data filesize st1
              in if ret < 0 then (free data st2, None)
                 else (st2\<lparr>r_mem := (r_mem st2)(data + filesize := 0)\<rparr>, Some (data, filesize)))"

text \<open>The integer is read into a variable on the stack, behind the description of a transfer.\<close>

definition stack_val :: "fwstate \<Rightarrow> u32" where "stack_val st = r_stack st + 16"

definition romfile_loadint :: "u8 list \<Rightarrow> u64 \<Rightarrow> fwstate \<Rightarrow> fwstate \<times> u64" where
  "romfile_loadint name defval st =
     (case romfile_find name st of
        None \<Rightarrow> (st, defval)
      | Some file \<Rightarrow>
          let filesize = rf_size file in
          if filesize = 0 \<or> filesize > 8 \<or> filesize AND (filesize - 1) \<noteq> 0 then (st, defval)
          else
            let val = stack_val st;
                (ret, st1) = file_copy file val 8 (st\<lparr>r_mem := mem_write val (le_bytes 8 (0 :: u64)) (r_mem st)\<rparr>)
            in if ret < 0 then (st1, defval) else (st1, le_word (mem_read (r_mem st1) val 8)))"

definition sizeof_const_romfile :: u32 where "sizeof_const_romfile = 144"
definition sizeof_qemu_romfile :: u32 where "sizeof_qemu_romfile = 148"

definition const_romfile_add :: "u8 list \<Rightarrow> u32 \<Rightarrow> u32 \<Rightarrow> fwstate \<Rightarrow> fwstate" where
  "const_romfile_add name data sz st =
     (let (st1, cfile) = malloc_tmp sizeof_const_romfile st
      in if cfile = 0 then st1
         else romfile_add \<lparr>rf_name = take 127 name, rf_size = sz, rf_copy = ConstFile data\<rparr> st1)"

definition const_romfile_add_int :: "u8 list \<Rightarrow> u32 \<Rightarrow> fwstate \<Rightarrow> fwstate" where
  "const_romfile_add_int name value st =
     (let (st1, data) = malloc_tmp 4 st
      in if data = 0 then st1
         else const_romfile_add name data 4
           (st1\<lparr>r_mem := mem_write data (le_bytes 4 value) (r_mem st1)\<rparr>))"

section \<open>QEMU files\<close>

definition qemu_romfile_add :: "u8 list \<Rightarrow> u16 \<Rightarrow> u32 \<Rightarrow> u32 \<Rightarrow> fwstate \<Rightarrow> fwstate" where
  "qemu_romfile_add name select skip sz st =
     (let (st1, qfile) = malloc_tmp sizeof_qemu_romfile st
      in if qfile = 0 then st1
         else romfile_add \<lparr>rf_name = take 127 name, rf_size = sz, rf_copy = QemuFile select skip\<rparr> st1)"

definition qemu_cfg_write_file_simple :: "u32 \<Rightarrow> u16 \<Rightarrow> u32 \<Rightarrow> u32 \<Rightarrow> fwstate \<Rightarrow> fwstate" where
  "qemu_cfg_write_file_simple src key offset len st =
     (if offset = 0 then qemu_cfg_write_entry src key len st
      else qemu_cfg_write src len (qemu_cfg_skip offset (qemu_cfg_select key st)))"

definition qemu_get_romfile_key :: "romfile_s \<Rightarrow> u16" where
  "qemu_get_romfile_key file = (case rf_copy file of ConstFile _ \<Rightarrow> 0 | QemuFile select _ \<Rightarrow> select)"

text \<open>The second result is the number of bytes written, \<open>None\<close> for -1.\<close>

definition qemu_cfg_write_file :: "u32 \<Rightarrow> romfile_s \<Rightarrow> u32 \<Rightarrow> u32 \<Rightarrow> fwstate \<Rightarrow> fwstate \<times> u32 option" where
  "qemu_cfg_write_file src file offset len st =
     (if offset + len > rf_size file then (st, None)
      else if \<not> cfg_dma_enabled st \<or> (case rf_copy file of ConstFile _ \<Rightarrow> True | QemuFile _ _ \<Rightarrow> False)
      then (st, None)
      else (qemu_cfg_write_file_simple src (qemu_get_romfile_key file) offset len st, Some len))"

section \<open>Finding files\<close>

definition wf_name :: "u8 list \<Rightarrow> bool" where
  "wf_name nm \<longleftrightarrow> 0 \<notin> set nm \<and> length nm < 128"

lemma find_name_iff:
  assumes "wf_name nm" "wf_name n2"
  shows "take (length (nm @ [0])) (name_array n2) = nm @ [0] \<longleftrightarrow> n2 = nm"
proof
  assume "n2 = nm"
  with assms show "take (length (nm @ [0])) (name_array n2) = nm @ [0]"
    by (auto simp: name_array_def wf_name_def take_Cons')
next
  assume eq: "take (length (nm @ [0])) (name_array n2) = nm @ [0]"
  have nz: "takeWhile (\<lambda>c. c \<noteq> 0) (xs @ 0 # ys) = xs" if "0 \<notin> set xs" for xs ys :: "u8 list"
    using that by (induction xs) auto
  show "n2 = nm"
  proof (cases "length n2 \<le> length nm")
    case True
    then obtain k where k: "length nm = length n2 + k" by (auto simp: le_iff_add)
    have "128 - length n2 = Suc (127 - length n2)" using assms(2) unfolding wf_name_def by arith
    then have "take (length (nm @ [0])) (name_array n2) = n2 @ 0 # take k (replicate (127 - length n2) 0)"
      by (simp add: name_array_def k)
    with eq have "takeWhile (\<lambda>c. c \<noteq> 0) (n2 @ 0 # take k (replicate (127 - length n2) 0)) =
        takeWhile (\<lambda>c. c \<noteq> 0) (nm @ [0])" by simp
    moreover have "0 \<notin> set n2" "0 \<notin> set nm" using assms by (simp_all add: wf_name_def)
    ultimately show ?thesis
      using nz [of n2 "take k (replicate (127 - length n2) 0)"] nz [of nm "[]"] by (metis (lifting))
  next
    case False
    then have "take (length (nm @ [0])) (name_array n2) = take (Suc (length nm)) n2"
      by (simp add: name_array_def)
    with eq have "take (Suc (length nm)) n2 = nm @ [0]" by simp
    then have "0 \<in> set (take (Suc (length nm)) n2)" by (metis in_set_conv_decomp)
    then show ?thesis using assms(2) by (auto simp: wf_name_def dest: in_set_takeD)
  qed
qed

text \<open>The contract of a store of named things, as the clients of \<open>romfile_find\<close> use it: what was
  added last under a name is what is found.\<close>

locale named_store =
  fixes add :: "'f \<Rightarrow> 's \<Rightarrow> 's" and lookup :: "'n \<Rightarrow> 's \<Rightarrow> 'f option"
    and name_of :: "'f \<Rightarrow> 'n" and good :: "'n \<Rightarrow> bool" and inv :: "'s \<Rightarrow> bool"
  assumes lookup_add: "inv s \<Longrightarrow> good (name_of f) \<Longrightarrow> good n \<Longrightarrow>
      lookup n (add f s) = (if name_of f = n then Some f else lookup n s)"
    and add_inv: "inv s \<Longrightarrow> good (name_of f) \<Longrightarrow> inv (add f s)"
begin

lemma lookup_add_all:
  assumes "inv s" "\<forall>f \<in> set fs. good (name_of f)" "good n"
  shows "inv (fold add fs s) \<and> lookup n (fold add fs s) =
    (case find (\<lambda>f. name_of f = n) (rev fs) of None \<Rightarrow> lookup n s | Some f \<Rightarrow> Some f)"
  using assms(2)
proof (induction fs rule: rev_induct)
  case Nil
  with assms(1) show ?case by simp
next
  case (snoc f fs)
  then show ?case using assms(3) lookup_add [of "fold add fs s" f n] add_inv by simp
qed

end

definition romfiles_ok :: "fwstate \<Rightarrow> bool" where
  "romfiles_ok st \<longleftrightarrow> (\<forall>f \<in> set (RomfileRoot st). wf_name (rf_name f))"

interpretation romfiles: named_store romfile_add romfile_find rf_name wf_name romfiles_ok
proof unfold_locales
  fix st n and f :: romfile_s
  assume "romfiles_ok st" "wf_name (rf_name f)" "wf_name n"
  then show "romfile_find n (romfile_add f st) = (if rf_name f = n then Some f else romfile_find n st)"
    using find_name_iff [of n "rf_name f"]
    by (simp add: romfile_find_def romfile_add_def del: length_append)
next
  fix st and f :: romfile_s
  assume "romfiles_ok st" "wf_name (rf_name f)"
  then show "romfiles_ok (romfile_add f st)"
    by (simp add: romfiles_ok_def romfile_add_def)
qed


text \<open>Files added to the list shadow earlier ones: after adding any number of files,
  \<open>romfile_find\<close> returns the last one added under the name, and otherwise what it returned
  before.\<close>

theorem romfile_find_latest:
  assumes "romfiles_ok st" "\<forall>f \<in> set fs. wf_name (rf_name f)" "wf_name n"
  shows "romfile_find n (fold romfile_add fs st) =
    (case find (\<lambda>f. rf_name f = n) (rev fs) of None \<Rightarrow> romfile_find n st | Some f \<Rightarrow> Some f)"
  using romfiles.lookup_add_all [OF assms] by (rule conjunct2)

section \<open>The device\<close>

text \<open>
  What the interface is documented to do (QEMU, \<open>docs/specs/fw_cfg\<close>). A transfer reads its description, big-endian, selects
  an item when bit 3 of the control word is set, reads (bit 1), writes (bit 4) or skips (bit 2) bytes of the item, and
  clears the control word when it is complete.
\<close>

definition item_bytes :: "nat \<Rightarrow> cfg_dev_s \<Rightarrow> u8 list" where
  "item_bytes n d = map (\<lambda>i. cfg_item d (cfg_sel d) (cfg_pos d + i)) [0..<n]"

definition cfg_advance :: "nat \<Rightarrow> cfg_dev_s \<Rightarrow> cfg_dev_s" where
  "cfg_advance n d = d\<lparr>cfg_pos := cfg_pos d + n\<rparr>"

definition be_at :: "nat \<Rightarrow> u32 \<Rightarrow> mem \<Rightarrow> 'a::len word" where
  "be_at n a m = le_word (rev (mem_read m a n))"

definition fw_cfg_transfer :: "u32 \<Rightarrow> mem \<times> cfg_dev_s \<Rightarrow> mem \<times> cfg_dev_s" where
  "fw_cfg_transfer a = (\<lambda>(m, d).
     let control = be_at 4 a m :: u32; n = unat (be_at 4 (a + 4) m :: u32); p = ucast (be_at 8 (a + 8) m :: u64) :: u32;
         d1 = (if bit control 3 then d\<lparr>cfg_sel := ucast (drop_bit 16 control), cfg_pos := 0\<rparr> else d);
         (m2, d2) =
           (if bit control 1 then (mem_write p (item_bytes n d1) m, cfg_advance n d1)
            else if bit control 4 then (m, cfg_advance n (d1\<lparr>cfg_log := cfg_log d1 @ [(cfg_sel d1, cfg_pos d1, mem_read m p n)]\<rparr>))
            else if bit control 2 then (m, cfg_advance n d1)
            else (m, d1))
     in (mem_write a (replicate 4 0) m2, d2))"

text \<open>The device may take its time; until a transfer is complete the control word is not clear.\<close>

definition fw_cfg_device :: "cfg_port_ops \<Rightarrow> bool" where
  "fw_cfg_device ops \<longleftrightarrow>
     (\<forall>f d. cfg_outw ops f 0x510 d = d\<lparr>cfg_sel := f, cfg_pos := 0\<rparr>) \<and>
     (\<forall>d. cfg_inb ops 0x511 d = (cfg_item d (cfg_sel d) (cfg_pos d), cfg_advance 1 d)) \<and>
     (\<forall>a m d. cfg_pending d = None \<and> (be_at 4 a m :: u32) AND NOT 1 \<noteq> 0 \<longrightarrow>
        (\<exists>k. (cfg_yield ops ^^ k) (cfg_outl ops (le_word (rev (le_bytes 4 a))) 0x518 (m, d)) = fw_cfg_transfer a (m, d) \<and>
             (\<forall>j < k. (be_at 4 a (fst ((cfg_yield ops ^^ j) (cfg_outl ops (le_word (rev (le_bytes 4 a))) 0x518 (m, d)))) :: u32) AND NOT 1 \<noteq> 0)))"

text \<open>A device that completes a transfer when the code has waited twice.\<close>

definition slow_cfg :: cfg_port_ops where
  "slow_cfg =
     \<lparr>cfg_outw = (\<lambda>f p d. if p = 0x510 then d\<lparr>cfg_sel := f, cfg_pos := 0\<rparr> else d),
      cfg_inb = (\<lambda>p d. if p = 0x511 then (cfg_item d (cfg_sel d) (cfg_pos d), cfg_advance 1 d) else (0, d)),
      cfg_outl = (\<lambda>v p (m, d). if p = 0x518 then (m, d\<lparr>cfg_pending := Some (swab32 v, 1)\<rparr>) else (m, d)),
      cfg_yield = (\<lambda>(m, d). case cfg_pending d of
          None \<Rightarrow> (m, d)
        | Some (a, 0) \<Rightarrow> fw_cfg_transfer a (m, d\<lparr>cfg_pending := None\<rparr>)
        | Some (a, Suc n) \<Rightarrow> (m, d\<lparr>cfg_pending := Some (a, n)\<rparr>))\<rparr>"

lemma slow_cfg_device: "fw_cfg_device slow_cfg"
proof -
  have "\<exists>k. (cfg_yield slow_cfg ^^ k) (cfg_outl slow_cfg (le_word (rev (le_bytes 4 a))) 0x518 (m, d)) = fw_cfg_transfer a (m, d) \<and>
      (\<forall>j < k. (be_at 4 a (fst ((cfg_yield slow_cfg ^^ j) (cfg_outl slow_cfg (le_word (rev (le_bytes 4 a))) 0x518 (m, d)))) :: u32) AND NOT 1 \<noteq> 0)"
    if "cfg_pending d = None" "(be_at 4 a m :: u32) AND NOT 1 \<noteq> 0" for a m d
  proof (intro exI [of _ "2 :: nat"] conjI allI impI)
    let ?s = "cfg_outl slow_cfg (le_word (rev (le_bytes 4 a))) 0x518 (m, d)"
    have sw: "swab32 (le_word (rev (le_bytes 4 a))) = a"
      using swab_swab(2) [of a] by (simp add: swab32_def)
    have d: "d\<lparr>cfg_pending := None\<rparr> = d" using that(1) by simp
    have s: "?s = (m, d\<lparr>cfg_pending := Some (a, 1)\<rparr>)" "cfg_yield slow_cfg (m, d\<lparr>cfg_pending := Some (a, 1)\<rparr>) = (m, d\<lparr>cfg_pending := Some (a, 0)\<rparr>)"
      by (simp_all add: slow_cfg_def sw)
    have "cfg_yield slow_cfg (m, d\<lparr>cfg_pending := Some (a, 0)\<rparr>) = fw_cfg_transfer a (m, d)"
      by (simp add: slow_cfg_def d)
    then show "(cfg_yield slow_cfg ^^ 2) ?s = fw_cfg_transfer a (m, d)" by (simp only: numeral_2_eq_2 funpow.simps comp_apply id_apply s)
    fix j :: nat assume "j < 2"
    then have "j = 0 \<or> j = 1" by auto
    then show "(be_at 4 a (fst ((cfg_yield slow_cfg ^^ j) ?s)) :: u32) AND NOT 1 \<noteq> 0"
      using that(2) s by auto
  qed
  then show ?thesis unfolding fw_cfg_device_def by (auto simp: slow_cfg_def)
qed

definition fw_zero :: fwstate where
  "fw_zero = \<lparr>r_mem = (\<lambda>_. 0), r_ms = malloc_sample, RomfileRoot = [], cfg_dma_enabled = True, cfg_ops = slow_cfg,
     cfg_dev = \<lparr>cfg_item = (\<lambda>sel i. ucast sel + of_nat i), cfg_sel = 0, cfg_pos = 0, cfg_log = [], cfg_pending = None\<rparr>,
     cfg_hung = False, r_stack = 0x7000\<rparr>"

theorem romfile_find_latest_witness:
  "map_option rf_size (romfile_find [97] (fold romfile_add
     [\<lparr>rf_name = [97], rf_size = 1, rf_copy = ConstFile 0\<rparr>, \<lparr>rf_name = [97], rf_size = 2, rf_copy = ConstFile 0\<rparr>]
     fw_zero)) = Some 2"
  by (subst romfile_find_latest) (simp_all add: romfiles_ok_def fw_zero_def wf_name_def)

section \<open>A transfer\<close>

lemma read_access:
  "mem_read (write_access a p n c m) a 16 = be_bytes 4 c @ be_bytes 4 n @ be_bytes 8 (ucast p :: u64)"
proof (rule nth_equalityI)
  show "length (mem_read (write_access a p n c m) a 16) = length (be_bytes 4 c @ be_bytes 4 n @ be_bytes 8 (ucast p :: u64))"
    by (simp add: be_bytes_def)
  fix i assume "i < length (mem_read (write_access a p n c m) a 16)"
  then have i: "i < 16" by simp
  have below: "unat ((a + x) - a :: u32) = unat x" for x by simp
  have w: "write_access a p n c m (a + x) =
      (if unat x < 4 then be_bytes 4 c ! unat x
       else if unat (x - 4) < 4 then be_bytes 4 n ! unat (x - 4)
       else if unat (x - 8) < 8 then be_bytes 8 (ucast p :: u64) ! unat (x - 8) else m (a + x))" for x
    by (simp add: write_access_def Let_def mem_write_eq swab32_bytes le_bytes_swab64 be_bytes_def diff_diff_eq [symmetric] add_diff_eq)
  have u: "unat (of_nat i :: u32) = i" using i by (simp add: unat_of_nat)
  have u4: "unat (of_nat i - 4 :: u32) = i - 4" if "4 \<le> i" using unat_sub_le [of 4 "of_nat i :: u32"] u that by simp
  have u8: "unat (of_nat i - 8 :: u32) = i - 8" if "8 \<le> i" using unat_sub_le [of 8 "of_nat i :: u32"] u that by simp
  show "mem_read (write_access a p n c m) a 16 ! i = (be_bytes 4 c @ be_bytes 4 n @ be_bytes 8 (ucast p :: u64)) ! i"
    using i u u4 u8 by (auto simp: w nth_append be_bytes_def)
qed

lemma access_fields:
  "be_at 4 a (write_access a p n c m) = c" "be_at 4 (a + 4) (write_access a p n c m) = n"
  "(ucast (be_at 8 (a + 8) (write_access a p n c m) :: u64) :: u32) = p"
proof -
  have r: "mem_read (write_access a p n c m) (a + of_nat k) j =
      take j (drop k (be_bytes 4 c @ be_bytes 4 n @ be_bytes 8 (ucast p :: u64)))" if "k + j \<le> 16" for k j
    using mem_read_part [OF that, of "write_access a p n c m" a] unfolding read_access .
  show "be_at 4 a (write_access a p n c m) = c" "be_at 4 (a + 4) (write_access a p n c m) = n"
    using r [of 0 4] r [of 4 4] by (simp_all add: be_at_def be_bytes_def le_word_bytes take_bit_word_eq_self)
  have "(be_at 8 (a + 8) (write_access a p n c m) :: u64) = ucast p"
    using r [of 8 8] by (simp add: be_at_def be_bytes_def le_word_bytes take_bit_word_eq_self)
  moreover have "(ucast (ucast p :: u64) :: u32) = p" by (rule bit_word_eqI) (auto simp: bit_simps)
  ultimately show "(ucast (be_at 8 (a + 8) (write_access a p n c m) :: u64) :: u32) = p" by simp
qed

lemma access_control_be: "access_control a m = be_at 4 a m"
  by (simp add: access_control_def be_at_def swab_le_word)

lemma dma_wait_steps:
  assumes "\<forall>j < k. access_control a (fst ((cfg_yield ops ^^ j) s)) AND NOT 1 \<noteq> 0"
  shows "dma_wait ops a s = dma_wait ops a ((cfg_yield ops ^^ k) s)"
  using assms
proof (induction k)
  case (Suc k)
  then have "dma_wait ops a s = dma_wait ops a ((cfg_yield ops ^^ k) s)" by simp
  also have "\<dots> = dma_wait ops a ((cfg_yield ops ^^ Suc k) s)"
    using Suc.prems by (subst dma_wait.simps) (simp add: QEMU_CFG_DMA_CTL_ERROR_def)
  finally show ?case .
qed simp

lemma error_ends_wait: "be_at 4 a (fst s) = (1 :: u32) \<Longrightarrow> dma_wait ops a s = Some s"
  by (simp add: dma_wait.simps [of ops a s] access_control_be QEMU_CFG_DMA_CTL_ERROR_def)

text \<open>The code of a transfer, with the documented device: what the device does with the description that is meant.\<close>

lemma dma_transfer_eq:
  assumes dev: "fw_cfg_device (cfg_ops st)" and idle: "cfg_pending (cfg_dev st) = None" and c: "control AND NOT 1 \<noteq> 0"
    and T: "(m1, d1) = fw_cfg_transfer (r_stack st) (write_access (r_stack st) addr len control (r_mem st), cfg_dev st)"
  shows "qemu_cfg_dma_transfer addr len control st = st\<lparr>r_mem := m1, cfg_dev := d1\<rparr>"
proof -
  let ?a = "r_stack st" and ?ops = "cfg_ops st"
  let ?m = "write_access ?a addr len control (r_mem st)"
  let ?s = "cfg_outl ?ops (le_word (rev (le_bytes 4 ?a))) 0x518 (?m, cfg_dev st)"
  have "(be_at 4 ?a ?m :: u32) AND NOT 1 \<noteq> 0" using c by (simp add: access_fields)
  then obtain k where k: "(cfg_yield ?ops ^^ k) ?s = fw_cfg_transfer ?a (?m, cfg_dev st)"
      "\<forall>j < k. (be_at 4 ?a (fst ((cfg_yield ?ops ^^ j) ?s)) :: u32) AND NOT 1 \<noteq> 0"
    using dev idle unfolding fw_cfg_device_def by blast
  have "dma_wait ?ops ?a ?s = dma_wait ?ops ?a (m1, d1)"
    using dma_wait_steps [of k ?a ?ops ?s] k by (simp add: access_control_be T)
  moreover have "be_at 4 ?a m1 = (0 :: u32)"
  proof -
    obtain m2 where "m1 = mem_write ?a (replicate 4 0) m2"
      using T by (auto simp: fw_cfg_transfer_def Let_def split: if_splits)
    then have "mem_read m1 ?a 4 = replicate 4 0" using mem_read_write_same [of "replicate 4 0" ?a m2] by simp
    moreover have "(le_word (rev (replicate 4 0)) :: u32) = 0" by code_simp
    ultimately show ?thesis by (simp add: be_at_def)
  qed
  then have "dma_wait ?ops ?a (m1, d1) = Some (m1, d1)"
    by (subst dma_wait.simps) (simp add: access_control_be)
  ultimately show ?thesis
    by (simp add: qemu_cfg_dma_transfer_def PORT_QEMU_CFG_DMA_ADDR_LOW_def swab32_def Let_def)
qed

lemma low_bits:
  fixes k y :: u32
  assumes "take_bit 16 k = k"
  shows "push_bit 16 y AND k = 0" "drop_bit 16 k = 0"
proof -
  have k: "bit k i \<longleftrightarrow> i < 16 \<and> bit k i" for i
    using assms by (metis bit_take_bit_iff)
  show "push_bit 16 y AND k = 0"
    by (rule bit_word_eqI) (auto simp: bit_simps dest: k [THEN iffD1])
  show "drop_bit 16 k = 0"
    by (rule bit_word_eqI) (auto simp: bit_simps dest: k [THEN iffD1])
qed

lemma select_control:
  fixes e :: u16 and c :: u32
  assumes "c = 2 \<or> c = 16"
  shows "(push_bit 16 (ucast e) OR 8 OR c) AND 8 \<noteq> 0"
    "ucast (drop_bit 16 (push_bit 16 (ucast e) OR 8 OR c)) = e"
    "(push_bit 16 (ucast e) OR 8 OR c) AND 2 \<noteq> 0 \<longleftrightarrow> c = 2"
    "(push_bit 16 (ucast e) OR 8 OR c) AND 16 \<noteq> 0 \<longleftrightarrow> c = 16"
proof -
  have low: "take_bit 16 (2 :: u32) = 2" "take_bit 16 (8 :: u32) = 8" "take_bit 16 (16 :: u32) = 16"
    by (simp_all add: take_bit_eq_mod word_mod_def)
  show "(push_bit 16 (ucast e) OR 8 OR c) AND 8 \<noteq> 0"
    "(push_bit 16 (ucast e) OR 8 OR c) AND 2 \<noteq> 0 \<longleftrightarrow> c = 2"
    "(push_bit 16 (ucast e) OR 8 OR c) AND 16 \<noteq> 0 \<longleftrightarrow> c = 16"
    using assms low_bits(1) [OF low(1)] low_bits(1) [OF low(2)] low_bits(1) [OF low(3)]
    by (auto simp: word_ao_dist)
  have "drop_bit 16 c = 0" using assms low_bits(2) low by auto
  then have "drop_bit 16 (push_bit 16 (ucast e) OR 8 OR c) = drop_bit 16 (push_bit 16 (ucast e) :: u32)"
    using low_bits(2) [OF low(2)] by (simp add: drop_bit_or)
  also have "ucast \<dots> = e" by (rule bit_word_eqI) (auto simp: bit_simps)
  finally show "ucast (drop_bit 16 (push_bit 16 (ucast e) OR 8 OR c)) = e" .
qed

text \<open>The bytes \<open>bs\<close> have come to \<open>p\<close>, and nothing else has changed but the description at \<open>a\<close>.\<close>

definition delivered :: "u32 \<Rightarrow> u8 list \<Rightarrow> u32 \<Rightarrow> mem \<Rightarrow> mem \<Rightarrow> bool" where
  "delivered p bs a m m' \<longleftrightarrow> mem_read m' p (length bs) = bs \<and>
     (\<forall>x. length bs \<le> unat (x - p) \<and> 16 \<le> unat (x - a) \<longrightarrow> m' x = m x)"

text \<open>A buffer that the description of the transfer does not lie in.\<close>

definition apart_buf :: "u32 \<Rightarrow> nat \<Rightarrow> u32 \<Rightarrow> bool" where
  "apart_buf p n a \<longleftrightarrow> (\<forall>i < n. 16 \<le> unat (p + of_nat i - a))"

lemma write_access_far: "16 \<le> unat (x - a) \<Longrightarrow> write_access a p n c m x = m x"
proof -
  assume x: "16 \<le> unat (x - a)"
  have "unat (x - a - 4) = unat (x - a) - 4" "unat (x - a - 8) = unat (x - a) - 8"
    using x unat_sub_le [of 4 "x - a"] unat_sub_le [of 8 "x - a"] by simp_all
  with x have "\<not> unat (x - a) < 4" "\<not> unat (x - (a + 4)) < 4" "\<not> unat (x - (a + 8)) < 8"
    by (simp_all add: diff_diff_eq)
  then show ?thesis by (simp add: write_access_def Let_def mem_write_eq)
qed

lemma delivered_read:
  assumes "apart_buf p (length bs) a" "length bs < 2 ^ 32"
  shows "delivered p bs a m (mem_write a (replicate 4 0) (mem_write p bs (write_access a q n c m)))"
proof -
  let ?m = "mem_write p bs (write_access a q n c m)"
  have far: "mem_write a (replicate 4 0) ?m x = ?m x" if "16 \<le> unat (x - a)" for x
    using that by (simp add: mem_write_eq)
  have "mem_read (mem_write a (replicate 4 0) ?m) p (length bs) = mem_read ?m p (length bs)"
    using assms(1) far by (intro nth_equalityI) (simp_all add: apart_buf_def)
  also have "\<dots> = bs" using assms(2) by (intro mem_read_write_same) simp
  finally have "mem_read (mem_write a (replicate 4 0) ?m) p (length bs) = bs" .
  moreover have "mem_write a (replicate 4 0) ?m x = m x" if "length bs \<le> unat (x - p)" "16 \<le> unat (x - a)" for x
    using that far [of x] assms(2) write_access_far [of x a q n c m] by (simp add: mem_write_eq [of bs p])
  ultimately show ?thesis unfolding delivered_def by blast
qed

lemma length_item_bytes [simp]: "length (item_bytes n d) = n"
  by (simp add: item_bytes_def)

text \<open>The three transfers, with the control words that the code uses.\<close>

lemma control_bits:
  fixes e :: u16
  defines "rd \<equiv> push_bit 16 (ucast e) OR QEMU_CFG_DMA_CTL_SELECT OR QEMU_CFG_DMA_CTL_READ :: u32"
    and "wr \<equiv> push_bit 16 (ucast e) OR QEMU_CFG_DMA_CTL_SELECT OR QEMU_CFG_DMA_CTL_WRITE :: u32"
  shows "\<not> bit QEMU_CFG_DMA_CTL_READ 3" "bit QEMU_CFG_DMA_CTL_READ 1" "QEMU_CFG_DMA_CTL_READ AND NOT 1 \<noteq> 0"
    "\<not> bit QEMU_CFG_DMA_CTL_SKIP 3" "\<not> bit QEMU_CFG_DMA_CTL_SKIP 1" "\<not> bit QEMU_CFG_DMA_CTL_SKIP 4" "bit QEMU_CFG_DMA_CTL_SKIP 2"
    "QEMU_CFG_DMA_CTL_SKIP AND NOT 1 \<noteq> 0"
    "\<not> bit QEMU_CFG_DMA_CTL_WRITE 3" "\<not> bit QEMU_CFG_DMA_CTL_WRITE 1" "bit QEMU_CFG_DMA_CTL_WRITE 4" "QEMU_CFG_DMA_CTL_WRITE AND NOT 1 \<noteq> 0"
    "bit rd 3" "bit rd 1" "ucast (drop_bit 16 rd) = e"
    "rd AND NOT 1 \<noteq> 0"
    "bit wr 3" "\<not> bit wr 1" "bit wr 4"
    "ucast (drop_bit 16 wr) = e" "wr AND NOT 1 \<noteq> 0"
proof -
  note c = QEMU_CFG_DMA_CTL_READ_def QEMU_CFG_DMA_CTL_SKIP_def QEMU_CFG_DMA_CTL_WRITE_def QEMU_CFG_DMA_CTL_SELECT_def
  show "\<not> bit QEMU_CFG_DMA_CTL_READ 3" "bit QEMU_CFG_DMA_CTL_READ 1" "QEMU_CFG_DMA_CTL_READ AND NOT 1 \<noteq> 0"
    "\<not> bit QEMU_CFG_DMA_CTL_SKIP 3" "\<not> bit QEMU_CFG_DMA_CTL_SKIP 1" "\<not> bit QEMU_CFG_DMA_CTL_SKIP 4" "bit QEMU_CFG_DMA_CTL_SKIP 2"
    "QEMU_CFG_DMA_CTL_SKIP AND NOT 1 \<noteq> 0"
    "\<not> bit QEMU_CFG_DMA_CTL_WRITE 3" "\<not> bit QEMU_CFG_DMA_CTL_WRITE 1" "bit QEMU_CFG_DMA_CTL_WRITE 4" "QEMU_CFG_DMA_CTL_WRITE AND NOT 1 \<noteq> 0"
    by (simp_all add: c)
  show e: "ucast (drop_bit 16 rd) = e" "ucast (drop_bit 16 wr) = e"
    using select_control(2) [of 2 e] select_control(2) [of 16 e] by (simp_all add: rd_def wr_def c)
  show b: "bit rd 3" "bit rd 1"
    "bit wr 3" "\<not> bit wr 1" "bit wr 4"
    by (simp_all add: rd_def wr_def c bit_or_iff bit_push_bit_iff)
  have "bit (x AND NOT 1) 3" if "bit x 3" for x :: u32 using that by (simp add: bit_simps)
  from this [OF b(1)] this [OF b(3)] show "rd AND NOT 1 \<noteq> 0" "wr AND NOT 1 \<noteq> 0"
    by auto
qed

lemma idle_advance [simp]: "cfg_pending (cfg_advance n d) = cfg_pending d" "cfg_item (cfg_advance n d) = cfg_item d"
    "cfg_sel (cfg_advance n d) = cfg_sel d" "cfg_pos (cfg_advance n d) = cfg_pos d + n" "cfg_log (cfg_advance n d) = cfg_log d"
  by (simp_all add: cfg_advance_def)

lemma dma_read:
  assumes dev: "fw_cfg_device (cfg_ops st)" "cfg_pending (cfg_dev st) = None" and ap: "apart_buf p (unat n) (r_stack st)"
    and c: "control AND NOT 1 \<noteq> 0" "bit control 1"
    and d: "d = (if bit control 3 then (cfg_dev st)\<lparr>cfg_sel := ucast (drop_bit 16 control), cfg_pos := 0\<rparr> else cfg_dev st)"
  shows "\<exists>m'. qemu_cfg_dma_transfer p n control st = st\<lparr>r_mem := m', cfg_dev := cfg_advance (unat n) d\<rparr> \<and>
    delivered p (item_bytes (unat n) d) (r_stack st) (r_mem st) m'"
proof -
  let ?w = "write_access (r_stack st) p n control (r_mem st)"
  let ?m = "mem_write (r_stack st) (replicate 4 0) (mem_write p (item_bytes (unat n) d) ?w)"
  have "(?m, cfg_advance (unat n) d) = fw_cfg_transfer (r_stack st) (?w, cfg_dev st)"
    using c(2) by (simp add: fw_cfg_transfer_def access_fields d Let_def)
  from dma_transfer_eq [OF dev c(1) this]
  have "qemu_cfg_dma_transfer p n control st = st\<lparr>r_mem := ?m, cfg_dev := cfg_advance (unat n) d\<rparr>" .
  moreover have "delivered p (item_bytes (unat n) d) (r_stack st) (r_mem st) ?m"
    using ap unat_u32_bound [of n] by (intro delivered_read) simp_all
  ultimately show ?thesis by blast
qed

lemma dma_skip:
  assumes dev: "fw_cfg_device (cfg_ops st)" "cfg_pending (cfg_dev st) = None"
  shows "\<exists>m'. qemu_cfg_dma_transfer p n QEMU_CFG_DMA_CTL_SKIP st = st\<lparr>r_mem := m', cfg_dev := cfg_advance (unat n) (cfg_dev st)\<rparr> \<and>
    delivered q [] (r_stack st) (r_mem st) m'"
proof -
  let ?w = "write_access (r_stack st) p n QEMU_CFG_DMA_CTL_SKIP (r_mem st)"
  let ?m = "mem_write (r_stack st) (replicate 4 0) ?w"
  have "(?m, cfg_advance (unat n) (cfg_dev st)) = fw_cfg_transfer (r_stack st) (?w, cfg_dev st)"
    by (simp add: fw_cfg_transfer_def access_fields control_bits [unfolded One_nat_def] Let_def)
  from dma_transfer_eq [OF dev control_bits(8) this]
  have "qemu_cfg_dma_transfer p n QEMU_CFG_DMA_CTL_SKIP st = st\<lparr>r_mem := ?m, cfg_dev := cfg_advance (unat n) (cfg_dev st)\<rparr>" .
  moreover have "delivered q [] (r_stack st) (r_mem st) ?m"
    using delivered_read [of q "[]" "r_stack st" "r_mem st" p n QEMU_CFG_DMA_CTL_SKIP] by (simp add: apart_buf_def)
  ultimately show ?thesis by blast
qed

section \<open>Reading through the ports\<close>

lemma item_bytes_Suc: "item_bytes (Suc n) d = cfg_item d (cfg_sel d) (cfg_pos d) # item_bytes n (cfg_advance (Suc 0) d)"
  by (simp add: item_bytes_def upt_conv_Cons map_Suc_upt [symmetric] comp_def del: upt_Suc)

lemma insb_eq:
  "fw_cfg_device (cfg_ops st) \<Longrightarrow>
     cfg_insb n p st = st\<lparr>r_mem := mem_write p (item_bytes n (cfg_dev st)) (r_mem st), cfg_dev := cfg_advance n (cfg_dev st)\<rparr>"
proof (induction n arbitrary: p st)
  case 0
  show ?case by (simp add: item_bytes_def cfg_advance_def)
next
  case (Suc n)
  have "cfg_inb (cfg_ops st) PORT_QEMU_CFG_DATA (cfg_dev st) =
      (cfg_item (cfg_dev st) (cfg_sel (cfg_dev st)) (cfg_pos (cfg_dev st)), cfg_advance (Suc 0) (cfg_dev st))"
    using Suc.prems by (simp add: fw_cfg_device_def PORT_QEMU_CFG_DATA_def)
  moreover have "cfg_advance n (cfg_advance (Suc 0) d) = cfg_advance (Suc n) d" for d by (simp add: cfg_advance_def)
  ultimately show ?case using Suc by (simp add: item_bytes_Suc fun_upd_def)
qed

lemma drop_eq: "fw_cfg_device (cfg_ops st) \<Longrightarrow> cfg_drop n st = st\<lparr>cfg_dev := cfg_advance n (cfg_dev st)\<rparr>"
proof (induction n arbitrary: st)
  case (Suc n)
  have "cfg_advance n (cfg_advance (Suc 0) d) = cfg_advance (Suc n) d" for d by (simp add: cfg_advance_def)
  then show ?case using Suc by (simp add: fw_cfg_device_def PORT_QEMU_CFG_DATA_def)
qed (simp add: cfg_advance_def)

lemma delivered_write: "length bs < 2 ^ 32 \<Longrightarrow> delivered p bs a m (mem_write p bs m)"
  using mem_read_write_same [of bs p m] by (simp add: delivered_def mem_write_eq)

lemma delivered_nothing: "delivered p [] a m m"
  by (simp add: delivered_def mem_read_def)

lemma delivered_trans: "delivered q [] a m m1 \<Longrightarrow> delivered p bs a m1 m2 \<Longrightarrow> delivered p bs a m m2"
  by (auto simp: delivered_def)

text \<open>The two ways of each step do the same.\<close>

lemma cfg_select_eq:
  "fw_cfg_device (cfg_ops st) \<Longrightarrow> qemu_cfg_select f st = st\<lparr>cfg_dev := (cfg_dev st)\<lparr>cfg_sel := f, cfg_pos := 0\<rparr>\<rparr>"
  by (simp add: qemu_cfg_select_def fw_cfg_device_def PORT_QEMU_CFG_CTL_def)

lemma cfg_read_step:
  assumes dev: "fw_cfg_device (cfg_ops st)" "cfg_pending (cfg_dev st) = None" and ap: "apart_buf p (unat n) (r_stack st)"
  shows "\<exists>m'. qemu_cfg_read p n st = st\<lparr>r_mem := m', cfg_dev := cfg_advance (unat n) (cfg_dev st)\<rparr> \<and>
    delivered p (item_bytes (unat n) (cfg_dev st)) (r_stack st) (r_mem st) m'"
proof -
  consider "n = 0" | "n \<noteq> 0" "cfg_dma_enabled st" | "n \<noteq> 0" "\<not> cfg_dma_enabled st" by blast
  then show ?thesis
  proof cases
    case 1
    then show ?thesis
      using delivered_nothing [of p "r_stack st" "r_mem st"]
      by (intro exI [of _ "r_mem st"]) (simp add: qemu_cfg_read_def item_bytes_def cfg_advance_def)
  next
    case 2
    then show ?thesis
      using dma_read [OF dev ap control_bits(3,2) refl] by (simp add: qemu_cfg_read_def control_bits(1))
  next
    case 3
    then show ?thesis
      using delivered_write [of "item_bytes (unat n) (cfg_dev st)" p "r_stack st" "r_mem st"] unat_u32_bound [of n]
      by (intro exI [of _ "mem_write p (item_bytes (unat n) (cfg_dev st)) (r_mem st)"]) (simp add: qemu_cfg_read_def insb_eq [OF dev(1)])
  qed
qed

lemma cfg_skip_step:
  assumes dev: "fw_cfg_device (cfg_ops st)" "cfg_pending (cfg_dev st) = None"
  shows "\<exists>m'. qemu_cfg_skip n st = st\<lparr>r_mem := m', cfg_dev := cfg_advance (unat n) (cfg_dev st)\<rparr> \<and>
    delivered q [] (r_stack st) (r_mem st) m'"
proof (cases "n \<noteq> 0 \<and> cfg_dma_enabled st")
  case True
  then show ?thesis using dma_skip [OF dev, of 0 n q] by (simp add: qemu_cfg_skip_def)
next
  case False
  then have "qemu_cfg_skip n st = st\<lparr>cfg_dev := cfg_advance (unat n) (cfg_dev st)\<rparr>"
    by (auto simp: qemu_cfg_skip_def drop_eq [OF dev(1)] cfg_advance_def)
  then show ?thesis
    using delivered_nothing [of q "r_stack st" "r_mem st"] by (intro exI [of _ "r_mem st"]) simp
qed

lemma cfg_read_entry_step:
  assumes dev: "fw_cfg_device (cfg_ops st)" "cfg_pending (cfg_dev st) = None" and ap: "apart_buf p (unat n) (r_stack st)"
    and d: "d = (cfg_dev st)\<lparr>cfg_sel := e, cfg_pos := 0\<rparr>"
  shows "\<exists>m'. qemu_cfg_read_entry p e n st = st\<lparr>r_mem := m', cfg_dev := cfg_advance (unat n) d\<rparr> \<and>
    delivered p (item_bytes (unat n) d) (r_stack st) (r_mem st) m'"
proof (cases "cfg_dma_enabled st")
  case True
  define c where "c = (push_bit 16 (ucast e) OR QEMU_CFG_DMA_CTL_SELECT OR QEMU_CFG_DMA_CTL_READ :: u32)"
  have c: "bit c 3" "bit c 1" "ucast (drop_bit 16 c) = e" "c AND NOT 1 \<noteq> 0" unfolding c_def by (rule control_bits)+
  have "d = (if bit c 3 then (cfg_dev st)\<lparr>cfg_sel := ucast (drop_bit 16 c), cfg_pos := 0\<rparr> else cfg_dev st)"
    using c(1,3) by (simp add: d)
  from dma_read [OF dev ap c(4,2) this] True show ?thesis by (simp add: qemu_cfg_read_entry_def c_def)
next
  case False
  then show ?thesis
    using cfg_read_step [of "qemu_cfg_select e st" p n] dev ap
    by (simp add: qemu_cfg_read_entry_def cfg_select_eq [OF dev(1)] d)
qed

text \<open>C13.
  Reading a QEMU file stores its \<open>size\<close> bytes of the item from offset \<open>skip\<close> on at the destination, whether the
  transfer is described to the device for DMA or the bytes are read from the port, and whether it is done in one or in three
  steps; no other memory changes but the description of the transfer on the stack, the wait for the
  device ends, and a buffer that is too small is refused. The wait also ends when a device leaves nothing but the error bit. The device
  follows its documentation and is idle before; the buffer does not lie over the description.
\<close>

theorem qemu_cfg_read_file_bytes:
  assumes "fw_cfg_device (cfg_ops st)" "cfg_pending (cfg_dev st) = None" "apart_buf dst (unat (rf_size file)) (r_stack st)"
    and "qemu_cfg_read_file file select skip dst maxlen st = (ret, st')"
  shows "(\<forall>ops s. be_at 4 (r_stack st) (fst s) = (1 :: u32) \<longrightarrow> dma_wait ops (r_stack st) s = Some s) \<and>
   (if rf_size file > maxlen then ret = -1 \<and> st' = st
    else ret = sint (rf_size file) \<and>
      mem_read (r_mem st') dst (unat (rf_size file)) = map (\<lambda>i. cfg_item (cfg_dev st) select (unat skip + i)) [0..<unat (rf_size file)] \<and>
      (\<forall>a. unat (rf_size file) \<le> unat (a - dst) \<and> 16 \<le> unat (a - r_stack st) \<longrightarrow> r_mem st' a = r_mem st a) \<and>
      st' = st\<lparr>r_mem := r_mem st', cfg_dev := (cfg_dev st)\<lparr>cfg_sel := select, cfg_pos := unat skip + unat (rf_size file)\<rparr>\<rparr>)"
proof (cases "rf_size file > maxlen")
  case True
  with assms(4) show ?thesis by (simp add: qemu_cfg_read_file_def error_ends_wait)
next
  case False
  let ?n = "unat (rf_size file)"
  define d where "d = (cfg_dev st)\<lparr>cfg_sel := select, cfg_pos := 0\<rparr>"
  have "\<exists>m'. st' = st\<lparr>r_mem := m', cfg_dev := cfg_advance ?n (cfg_advance (unat skip) d)\<rparr> \<and>
    delivered dst (item_bytes ?n (cfg_advance (unat skip) d)) (r_stack st) (r_mem st) m'"
  proof (cases "skip = 0")
    case True
    then show ?thesis
      using False assms(4) cfg_read_entry_step [OF assms(1-3) d_def] by (auto simp: qemu_cfg_read_file_def cfg_advance_def)
  next
    case nz: False
    let ?s = "st\<lparr>cfg_dev := d\<rparr>"
    obtain m1 where m1: "qemu_cfg_skip skip ?s = ?s\<lparr>r_mem := m1, cfg_dev := cfg_advance (unat skip) d\<rparr>"
        "delivered dst [] (r_stack st) (r_mem st) m1"
      using cfg_skip_step [of ?s skip dst] assms(1,2) by (auto simp: d_def)
    let ?s1 = "?s\<lparr>r_mem := m1, cfg_dev := cfg_advance (unat skip) d\<rparr>"
    obtain m2 where m2: "qemu_cfg_read dst (rf_size file) ?s1 = ?s1\<lparr>r_mem := m2, cfg_dev := cfg_advance ?n (cfg_advance (unat skip) d)\<rparr>"
        "delivered dst (item_bytes ?n (cfg_advance (unat skip) d)) (r_stack st) m1 m2"
      using cfg_read_step [of ?s1 dst "rf_size file"] assms(1-3) by (auto simp: d_def)
    have "st' = qemu_cfg_read dst (rf_size file) (qemu_cfg_skip skip ?s)"
      using False nz assms(4) by (simp add: qemu_cfg_read_file_def cfg_select_eq [OF assms(1)] d_def)
    then show ?thesis
      using delivered_trans [OF m1(2) m2(2)] unfolding m1(1) m2(1) by (intro exI [of _ m2]) simp
  qed
  then show ?thesis
    using False assms(4) error_ends_wait by (auto simp: qemu_cfg_read_file_def delivered_def item_bytes_def cfg_advance_def d_def)
qed

theorem qemu_cfg_read_file_bytes_witness:
  "mem_read (r_mem (snd (qemu_cfg_read_file \<lparr>rf_name = [97], rf_size = 3, rf_copy = QemuFile 0x20 4\<rparr> 0x20 4 0x1000 8 fw_zero))) 0x1000 3 =
    [0x24, 0x25, 0x26]"
proof -
  let ?f = "\<lparr>rf_name = [97], rf_size = 3, rf_copy = QemuFile 0x20 4\<rparr>"
  have "16 \<le> unat (0x1000 + of_nat i - 0x7000 :: u32)" if "i < 3" for i
  proof -
    from that have "i = 0 \<or> i = 1 \<or> i = 2" by auto
    then show ?thesis by auto
  qed
  then have ap: "apart_buf 0x1000 (unat (rf_size ?f)) (r_stack fw_zero)" by (simp add: apart_buf_def fw_zero_def)
  have "fw_cfg_device (cfg_ops fw_zero)" "cfg_pending (cfg_dev fw_zero) = None"
    using slow_cfg_device by (simp_all add: fw_zero_def)
  from qemu_cfg_read_file_bytes [OF this ap prod.collapse [symmetric], where select = "0x20" and skip = 4 and maxlen = 8]
  have r: "mem_read (r_mem (snd (qemu_cfg_read_file ?f 0x20 4 0x1000 8 fw_zero))) 0x1000 3 =
      map (\<lambda>i. cfg_item (cfg_dev fw_zero) 0x20 (4 + i)) [0..<3]" by simp
  show ?thesis unfolding r by code_simp
qed

text \<open>
  The write path: a file of the device is written with the item selected and the offset skipped, in one or three
  steps, and the device receives exactly the bytes at the source, once.\<close>

lemma dma_write:
  assumes dev: "fw_cfg_device (cfg_ops st)" "cfg_pending (cfg_dev st) = None" and ap: "apart_buf p (unat n) (r_stack st)"
    and c: "control AND NOT 1 \<noteq> 0" "\<not> bit control 1" "bit control 4"
    and d: "d = (if bit control 3 then (cfg_dev st)\<lparr>cfg_sel := ucast (drop_bit 16 control), cfg_pos := 0\<rparr> else cfg_dev st)"
  shows "cfg_log (cfg_dev (qemu_cfg_dma_transfer p n control st)) = cfg_log (cfg_dev st) @ [(cfg_sel d, cfg_pos d, mem_read (r_mem st) p (unat n))]"
proof -
  let ?w = "write_access (r_stack st) p n control (r_mem st)"
  have src: "mem_read ?w p (unat n) = mem_read (r_mem st) p (unat n)"
    using ap by (intro nth_equalityI) (simp_all add: apart_buf_def write_access_far)
  obtain m1 d1 where T: "(m1, d1) = fw_cfg_transfer (r_stack st) (?w, cfg_dev st)" by (metis surj_pair)
  then have "cfg_log d1 = cfg_log (cfg_dev st) @ [(cfg_sel d, cfg_pos d, mem_read (r_mem st) p (unat n))]"
    using c(2,3) src by (simp add: fw_cfg_transfer_def access_fields d Let_def)
  then show ?thesis using dma_transfer_eq [OF dev c(1) T] by simp
qed

lemma qemu_cfg_write_file_logs:
  assumes dev: "fw_cfg_device (cfg_ops st)" "cfg_pending (cfg_dev st) = None" and ap: "apart_buf src (unat len) (r_stack st)"
    and f: "rf_copy file = QemuFile select skip" "len \<noteq> 0"
  shows "cfg_log (cfg_dev (fst (qemu_cfg_write_file src file offset len st))) = cfg_log (cfg_dev st) @
    (if offset + len \<le> rf_size file \<and> cfg_dma_enabled st then [(select, unat offset, mem_read (r_mem st) src (unat len))] else [])"
proof (cases "offset + len \<le> rf_size file \<and> cfg_dma_enabled st")
  case False
  with f show ?thesis by (auto simp: qemu_cfg_write_file_def not_le)
next
  case True
  define d where "d = (cfg_dev st)\<lparr>cfg_sel := select, cfg_pos := 0\<rparr>"
  have w: "qemu_cfg_write_file src file offset len st = (qemu_cfg_write_file_simple src select offset len st, Some len)"
    using True f by (auto simp: qemu_cfg_write_file_def qemu_get_romfile_key_def)
  show ?thesis
  proof (cases "offset = 0")
    case zero: True
    define c where "c = (push_bit 16 (ucast select) OR QEMU_CFG_DMA_CTL_SELECT OR QEMU_CFG_DMA_CTL_WRITE :: u32)"
    have c: "bit c 3" "\<not> bit c 1" "bit c 4" "ucast (drop_bit 16 c) = select" "c AND NOT 1 \<noteq> 0" unfolding c_def by (rule control_bits)+
    have "d = (if bit c 3 then (cfg_dev st)\<lparr>cfg_sel := ucast (drop_bit 16 c), cfg_pos := 0\<rparr> else cfg_dev st)"
      using c(1,4) by (simp add: d_def)
    moreover have "fst (qemu_cfg_write_file src file offset len st) = qemu_cfg_dma_transfer src len c st"
      unfolding w using True zero by (simp add: qemu_cfg_write_file_simple_def qemu_cfg_write_entry_def c_def)
    ultimately show ?thesis using dma_write [OF dev ap c(5,2,3), of d] True zero by (simp add: d_def c(1,4))
  next
    case nz: False
    obtain m1 where m1: "qemu_cfg_skip offset (st\<lparr>cfg_dev := d\<rparr>) = st\<lparr>r_mem := m1, cfg_dev := cfg_advance (unat offset) d\<rparr>"
        "delivered src [] (r_stack st) (r_mem st) m1"
      using cfg_skip_step [of "st\<lparr>cfg_dev := d\<rparr>" offset src] dev by (auto simp: d_def)
    have "mem_read m1 src (unat len) = mem_read (r_mem st) src (unat len)"
      using m1(2) ap by (intro nth_equalityI) (simp_all add: delivered_def apart_buf_def)
    moreover have "qemu_cfg_write_file_simple src select offset len st =
        qemu_cfg_dma_transfer src len QEMU_CFG_DMA_CTL_WRITE (st\<lparr>r_mem := m1, cfg_dev := cfg_advance (unat offset) d\<rparr>)"
      using True f(2) nz m1(1) by (simp add: qemu_cfg_write_file_simple_def qemu_cfg_write_def cfg_select_eq [OF dev(1)] d_def)
    ultimately show ?thesis
      using True dma_write [of "st\<lparr>r_mem := m1, cfg_dev := cfg_advance (unat offset) d\<rparr>", OF _ _ _ control_bits(12,10,11) refl] dev ap
      by (simp add: w control_bits(9) d_def)
  qed
qed

section \<open>Integers and whole files\<close>

lemma fw_alloc_simps [simp]:
  "r_mem (fst (fw_alloc z n a st)) = r_mem st" "RomfileRoot (fst (fw_alloc z n a st)) = RomfileRoot st"
  "cfg_dev (fst (fw_alloc z n a st)) = cfg_dev st" "r_stack (fst (fw_alloc z n a st)) = r_stack st"
  by (simp_all add: fw_alloc_def split_beta)

lemma malloc_tmp_simps [simp]:
  "r_mem (fst (malloc_tmp n st)) = r_mem st" "RomfileRoot (fst (malloc_tmp n st)) = RomfileRoot st"
  "cfg_dev (fst (malloc_tmp n st)) = cfg_dev st" "r_stack (fst (malloc_tmp n st)) = r_stack st"
  by (simp_all add: malloc_tmp_def malloc_tmphigh_def malloc_tmplow_def split_beta Let_def)

text \<open>An integer that \<open>const_romfile_add_int\<close> stored under a name is what
  \<open>romfile_loadint\<close> returns for that name, zero-extended, when there was memory for it (which is not the stack).\<close>

theorem const_romfile_int_roundtrip:
  assumes "romfiles_ok st" "wf_name name"
    and "snd (malloc_tmp 4 st) \<noteq> 0"
    and "snd (malloc_tmp sizeof_const_romfile (fst (malloc_tmp 4 st)\<lparr>r_mem :=
      mem_write (snd (malloc_tmp 4 st)) (le_bytes 4 value) (r_mem st)\<rparr>)) \<noteq> 0"
    and "\<forall>i < 4. 8 \<le> unat (snd (malloc_tmp 4 st) + of_nat i - stack_val st)"
  shows "snd (romfile_loadint name defval (const_romfile_add_int name value st)) = ucast value"
proof -
  obtain st1 data where s1: "malloc_tmp 4 st = (st1, data)" by fastforce
  define st2 where "st2 = st1\<lparr>r_mem := mem_write data (le_bytes 4 value) (r_mem st1)\<rparr>"
  obtain st3 cfile where s3: "malloc_tmp sizeof_const_romfile st2 = (st3, cfile)" by fastforce
  have keep1: "r_mem st1 = r_mem st" "RomfileRoot st1 = RomfileRoot st" "r_stack st1 = r_stack st"
    using malloc_tmp_simps [of 4 st] s1 by simp_all
  have keep3: "r_mem st3 = r_mem st2" "RomfileRoot st3 = RomfileRoot st" "r_stack st3 = r_stack st"
    using malloc_tmp_simps [of sizeof_const_romfile st2, unfolded s3 fst_conv] keep1
    by (simp_all add: st2_def)
  have nz: "data \<noteq> 0" "cfile \<noteq> 0"
    using assms(3,4) s1 s3 keep1 by (simp_all add: st2_def)
  let ?f = "\<lparr>rf_name = name, rf_size = 4, rf_copy = ConstFile data\<rparr>" and ?val = "stack_val st"
  let ?m = "mem_write ?val (le_bytes 8 (0 :: u64)) (r_mem st2)"
  have "take 127 name = name" using assms(2) by (simp add: wf_name_def)
  then have st': "const_romfile_add_int name value st = romfile_add ?f st3"
    using nz s1 s3 by (simp add: const_romfile_add_int_def const_romfile_add_def st2_def [symmetric])
  have "romfiles_ok st3" using assms(1) keep3 by (simp add: romfiles_ok_def)
  then have find: "romfile_find name (romfile_add ?f st3) = Some ?f"
    using romfiles.lookup_add [of st3 ?f name] assms(2) by simp
  have "mem_read (r_mem st2) data 4 = le_bytes 4 value"
    using mem_read_write_same [of "le_bytes 4 value" data "r_mem st1"] by (simp add: st2_def)
  moreover have "mem_read ?m data 4 = mem_read (r_mem st2) data 4"
  proof (rule nth_equalityI)
    fix i assume "i < length (mem_read ?m data 4)"
    then have i: "i < 4" by simp
    with assms(5) s1 have "\<not> unat (data + of_nat i - ?val) < 8" by (auto simp: not_less)
    with i show "mem_read ?m data 4 ! i = mem_read (r_mem st2) data 4 ! i" by (simp add: mem_write_eq)
  qed simp
  ultimately have data: "mem_read ?m data 4 = le_bytes 4 value" by simp
  have zero: "le_bytes 8 (0 :: u64) = replicate 8 0" by code_simp
  have "mem_read (mem_write ?val (le_bytes 4 value) ?m) ?val 8 = le_bytes 4 value @ replicate 4 0"
  proof (rule nth_equalityI)
    fix i assume "i < length (mem_read (mem_write ?val (le_bytes 4 value) ?m) ?val 8)"
    then have i: "i < 8" by simp
    then have "unat (of_nat i :: u32) = i" by (simp add: unat_of_nat)
    with i show "mem_read (mem_write ?val (le_bytes 4 value) ?m) ?val 8 ! i = (le_bytes 4 value @ replicate 4 0) ! i"
      by (simp add: mem_write_eq nth_append zero)
  qed simp
  moreover have "(le_word (le_bytes 4 value @ replicate 4 0) :: u64) = ucast value"
    by (rule bit_word_eqI) (auto simp: bit_le_word nth_append nth_le_bytes bit_simps dest: bit_imp_le_length)
  ultimately show ?thesis
    using find data keep3 by (simp add: st' romfile_loadint_def file_copy_def const_read_file_def romfile_add_def stack_val_def Let_def)
qed

theorem const_romfile_int_roundtrip_witness:
  "snd (romfile_loadint [97] 0 (const_romfile_add_int [97] 0x12345678 fw_zero)) = 0x12345678"
proof -
  have v: "snd (malloc_tmp 4 fw_zero) = 0x1FFFC0" by code_simp
  have "8 \<le> unat (0x1FFFC0 + of_nat i - stack_val fw_zero)" if "i < 4" for i
  proof -
    from that have "i = 0 \<or> i = 1 \<or> i = 2 \<or> i = 3" by auto
    then show ?thesis by (auto simp: stack_val_def fw_zero_def)
  qed
  then have a: "\<forall>i < 4. 8 \<le> unat (snd (malloc_tmp 4 fw_zero) + of_nat i - stack_val fw_zero)" by (simp add: v)
  have ok: "romfiles_ok fw_zero" "wf_name [97]" by (simp_all add: romfiles_ok_def fw_zero_def wf_name_def)
  have "snd (malloc_tmp sizeof_const_romfile (fst (malloc_tmp 4 fw_zero)\<lparr>r_mem :=
      mem_write (snd (malloc_tmp 4 fw_zero)) (le_bytes 4 (0x12345678 :: u32)) (r_mem fw_zero)\<rparr>)) \<noteq> 0" by code_simp
  from const_romfile_int_roundtrip [OF ok _ this a, of 0] v show ?thesis by simp
qed

end
