(* ===== verification/Output.thy ===== *)
theory Output
  imports SB_Prelude
begin

text \<open>
  Formatted output of \<open>src/output.c\<close>: \<open>bvprintf\<close> and the functions it prints numbers with,
  and \<open>snprintf\<close>, which the boot code builds device paths with. Output is the list of characters
  given to \<open>putc\<close>. A format string is the list of its characters before the terminating zero; the
  variable arguments are a list, in which a 64-bit integer is two entries, the lower half first.
  Reading more arguments than there are, which C leaves undefined, reads zero. The 32-bit flat mode is
  modelled; the debug and screen ports are not.
\<close>

section \<open>Numbers\<close>

definition digit_char :: "nat \<Rightarrow> char" where
  "digit_char n = char_of (48 + n)"

definition hex_char :: "nat \<Rightarrow> char" where
  "hex_char n = (if n \<le> 9 then char_of (48 + n) else char_of (97 + n - 10))"

text \<open>\<open>putuint\<close> fills its buffer from the end; the loop on \<open>val\<close>.\<close>

function putuint_nat :: "nat \<Rightarrow> string" where
  "putuint_nat val = (if val div 10 = 0 then [digit_char (val mod 10)]
     else putuint_nat (val div 10) @ [digit_char (val mod 10)])"
  by pat_completeness auto
termination by (relation "measure id") auto

declare putuint_nat.simps [simp del]

definition putuint :: "u32 \<Rightarrow> string" where
  "putuint val = putuint_nat (unat val)"

definition putsinglehex :: "u32 \<Rightarrow> string" where
  "putsinglehex val = [hex_char (unat val)]"

text \<open>\<open>puthex\<close> falls through from the digit of the given width on; every other width prints eight
  digits.\<close>

definition puthex :: "u32 \<Rightarrow> int \<Rightarrow> string" where
  "puthex val width =
     (let n = (if 1 \<le> width \<and> width \<le> 7 then nat width else 8)
      in concat (map (\<lambda>i. putsinglehex (drop_bit (4 * i) val AND 0xf)) (rev [0..<n])))"

text \<open>The number of hexadecimal digits that \<open>putprettyhex\<close> counts.\<close>

function hexcount :: "nat \<Rightarrow> nat" where
  "hexcount tmp = (if tmp div 16 = 0 then 1 else Suc (hexcount (tmp div 16)))"
  by pat_completeness auto
termination by (relation "measure id") auto

declare hexcount.simps [simp del]

definition putprettyhex :: "u32 \<Rightarrow> int \<Rightarrow> char \<Rightarrow> string" where
  "putprettyhex val width padchar =
     (let count = hexcount (unat val)
      in replicate (nat (width - int count)) padchar @ puthex val (int count))"

definition pci_bdf_to_bus :: "u16 \<Rightarrow> u8" where "pci_bdf_to_bus bdf = ucast (drop_bit 8 bdf)"
definition pci_bdf_to_devfn :: "u16 \<Rightarrow> u8" where "pci_bdf_to_devfn bdf = ucast (bdf AND 0xff)"
definition pci_bdf_to_dev :: "u16 \<Rightarrow> u8" where "pci_bdf_to_dev bdf = ucast (drop_bit 3 bdf AND 0x1f)"
definition pci_bdf_to_fn :: "u16 \<Rightarrow> u8" where "pci_bdf_to_fn bdf = ucast (bdf AND 0x07)"

definition put_pci_device :: "u16 \<Rightarrow> string" where
  "put_pci_device bdf =
     puthex (ucast (pci_bdf_to_bus bdf)) 2 @ '':'' @ puthex (ucast (pci_bdf_to_dev bdf)) 2 @ ''.'' @
     puthex (ucast (pci_bdf_to_fn bdf)) 1"

section \<open>bvprintf\<close>

text \<open>Arguments: an integer, a string, or a pointer to a PCI device (its address in the BDF space).\<close>

datatype arg = IntArg u32 | StrArg "string option" | PciArg u16

fun va_int :: "arg list \<Rightarrow> u32 \<times> arg list" where
  "va_int (IntArg v # args) = (v, args)"
| "va_int (_ # args) = (0, args)"
| "va_int [] = (0, [])"

fun va_str :: "arg list \<Rightarrow> string option \<times> arg list" where
  "va_str (StrArg s # args) = (s, args)"
| "va_str (_ # args) = (None, args)"
| "va_str [] = (None, [])"

fun va_pci :: "arg list \<Rightarrow> u16 \<times> arg list" where
  "va_pci (PciArg b # args) = (b, args)"
| "va_pci (_ # args) = (0, args)"
| "va_pci [] = (0, [])"

definition isdigit :: "char \<Rightarrow> bool" where
  "isdigit c \<longleftrightarrow> 48 \<le> (of_char c :: nat) \<and> (of_char c :: nat) < 58"

text \<open>The digits of a conversion: the rest of the format, the width and the padding character.\<close>

fun parse_width :: "string \<Rightarrow> int \<Rightarrow> char \<Rightarrow> string \<times> int \<times> char" where
  "parse_width [] width padchar = ([], width, padchar)"
| "parse_width (c # n) width padchar =
     (if \<not> isdigit c then (c # n, width, padchar)
      else if width = 0 \<and> c = CHR ''0'' then parse_width n width (CHR ''0'')
      else parse_width n (width * 10 + (of_char c - 48)) padchar)"

definition parse_long :: "string \<Rightarrow> string \<times> bool" where
  "parse_long n = (case n of
       c # n1 \<Rightarrow> if c = CHR ''l'' then
           (case n1 of c2 # n2 \<Rightarrow> if c2 = CHR ''l'' then (n2, True) else (n1, False) | [] \<Rightarrow> (n1, False))
         else (n, False)
     | [] \<Rightarrow> (n, False))"

definition puts_null :: "string option \<Rightarrow> string" where
  "puts_null s = (case s of None \<Rightarrow> ''(NULL)'' | Some t \<Rightarrow> t)"

text \<open>\<open>%s\<close> prints with \<open>puts_cs\<close>, which does not check for a null pointer: it would read
  whatever is at address 0. Here that is taken to be a zero byte.\<close>

definition puts_cs :: "string option \<Rightarrow> string" where
  "puts_cs s = (case s of None \<Rightarrow> [] | Some t \<Rightarrow> t)"

text \<open>One conversion, for the conversion character \<open>c\<close> followed by \<open>n\<close>: the output, the rest of
  the format and of the arguments; \<open>None\<close> is the default case.\<close>

definition conversion ::
    "char \<Rightarrow> string \<Rightarrow> int \<Rightarrow> char \<Rightarrow> bool \<Rightarrow> arg list \<Rightarrow> (string \<times> string \<times> arg list) option" where
  "conversion c n width padchar is64 args =
     (if c = CHR ''%'' then Some (''%'', n, args)
      else if c = CHR ''d'' then
        (let (v, args1) = va_int args;
             args2 = (if is64 then snd (va_int args1) else args1)
         in Some (if v <s 0 then ''-'' @ putuint (- v) else putuint v, n, args2))
      else if c = CHR ''u'' then
        (let (v, args1) = va_int args;
             args2 = (if is64 then snd (va_int args1) else args1)
         in Some (putuint v, n, args2))
      else if c = CHR ''p'' then
        (if n \<noteq> [] \<and> hd n = CHR ''P''
         then let (b, args1) = va_pci args in Some (put_pci_device b, tl n, args1)
         else let (v, args1) = va_int args in Some (''0x'' @ puthex v 8, n, args1))
      else if c = CHR ''x'' then
        (let (v, args1) = va_int args in
         if is64 then
           let (upper, args2) = va_int args1 in
           if upper \<noteq> 0 then Some (putprettyhex upper (width - 8) padchar @ puthex v 8, n, args2)
           else Some (putprettyhex v width padchar, n, args2)
         else Some (putprettyhex v width padchar, n, args1))
      else if c = CHR ''c'' then
        (let (v, args1) = va_int args in Some ([char_of (unat v)], n, args1))
      else if c = CHR ''.'' then
        (if n \<noteq> [] \<and> hd n = CHR ''s''
         then let (s, args1) = va_str args in Some (puts_null s, tl n, args1)
         else Some ([], n, args))
      else if c = CHR ''s'' then
        (let (s, args1) = va_str args in Some (puts_cs s, n, args1))
      else None)"

lemma parse_width_length: "(n', y) = parse_width n w p \<Longrightarrow> length n' \<le> length n"
  by (induction n w p rule: parse_width.induct) (auto split: if_splits)

lemma parse_long_length: "(n', l) = parse_long n \<Longrightarrow> length n' \<le> length n"
  by (auto simp: parse_long_def split: list.splits if_splits)

lemma conversion_length:
  "conversion c n w p l args = Some (out, n', args') \<Longrightarrow> length n' \<le> length n"
  by (auto simp: conversion_def Let_def split_beta split: if_splits)

function bvprintf :: "string \<Rightarrow> arg list \<Rightarrow> string" where
  "bvprintf [] args = []"
| "bvprintf (c # s) args =
     (if c \<noteq> CHR ''%'' then c # bvprintf s args
      else
        let (n, width, padchar) = parse_width s 0 CHR '' '';
            (n1, is64) = parse_long n
        in case n1 of
             [] \<Rightarrow> ''%'' @ bvprintf s args
           | c1 # n2 \<Rightarrow>
               (case conversion c1 n2 width padchar is64 args of
                  None \<Rightarrow> ''%'' @ bvprintf s args
                | Some (out, n3, args') \<Rightarrow> out @ bvprintf n3 args'))"
  by pat_completeness auto
termination
  by (relation "measure (length \<circ> fst)")
    (auto dest!: parse_width_length parse_long_length conversion_length)

section \<open>snprintf\<close>

definition putc_str :: "nat \<Rightarrow> string \<Rightarrow> char \<Rightarrow> string" where
  "putc_str sz str c = (if length str \<ge> sz then str else str @ [c])"

text \<open>The string left in the buffer; the result of the C function is its length.\<close>

definition snprintf :: "nat \<Rightarrow> string \<Rightarrow> arg list \<Rightarrow> string" where
  "snprintf sz fmt args =
     (if sz = 0 then []
      else let str = foldl (putc_str sz) [] (bvprintf fmt args)
           in if length str \<ge> sz then take (sz - 1) str else str)"


section \<open>The properties\<close>

lemma foldl_putc_str:
  "length str \<le> sz \<Longrightarrow> foldl (putc_str sz) str xs = str @ take (sz - length str) xs"
proof (induction xs arbitrary: str)
  case Nil
  then show ?case by simp
next
  case (Cons x xs)
  show ?case
  proof (cases "length str = sz")
    case True
    then have "putc_str sz str x = str" by (simp add: putc_str_def)
    with Cons.IH [of str] True show ?thesis by simp
  next
    case False
    with Cons.prems have lt: "length str < sz" by simp
    then have "sz - length str = Suc (sz - length (str @ [x]))" by simp
    with lt Cons.IH [of "str @ [x]"] show ?thesis by (simp add: putc_str_def)
  qed
qed

lemma snprintf_take:
  "snprintf sz fmt args = take (sz - 1) (bvprintf fmt args)"
proof (cases "sz = 0")
  case True
  then show ?thesis by (simp add: snprintf_def)
next
  case False
  have "foldl (putc_str sz) [] (bvprintf fmt args) = take sz (bvprintf fmt args)"
    by (simp add: foldl_putc_str)
  then show ?thesis
    using False by (auto simp: snprintf_def Let_def min_def)
qed

text \<open>
  \<open>snprintf\<close> leaves the longest prefix of the formatted output that fits into the buffer
  with its terminating zero, and reports the length of that prefix.\<close>

theorem snprintf_prefix:
  "snprintf sz fmt args = take (sz - 1) (bvprintf fmt args)"
  by (rule snprintf_take)

lemma snprintf_length: "length (snprintf sz fmt args) \<le> sz - 1"
  by (simp add: snprintf_take)

section \<open>Numbers read back\<close>

definition digit_val :: "char \<Rightarrow> nat" where
  "digit_val c = of_char c - 48"

definition hex_digit_val :: "char \<Rightarrow> nat" where
  "hex_digit_val c = (if of_char c < (58 :: nat) then of_char c - 48 else of_char c - 87)"

definition dec_val :: "string \<Rightarrow> nat" where
  "dec_val = foldl (\<lambda>m c. 10 * m + digit_val c) 0"

definition hex_val :: "string \<Rightarrow> nat" where
  "hex_val = foldl (\<lambda>m c. 16 * m + hex_digit_val c) 0"

lemma of_char_of_small: "n < 256 \<Longrightarrow> of_char (char_of n) = (n :: nat)"
  by simp

lemma digit_char_val: "n < 10 \<Longrightarrow> digit_val (digit_char n) = n \<and> isdigit (digit_char n)"
  by (simp add: digit_val_def digit_char_def isdigit_def)

lemma hex_char_val: "n < 16 \<Longrightarrow> hex_digit_val (hex_char n) = n"
  by (simp add: hex_digit_val_def hex_char_def)

lemma putuint_nat_val: "dec_val (putuint_nat n) = n"
proof (induction n rule: putuint_nat.induct)
  case (1 n)
  show ?case
  proof (cases "n div 10 = 0")
    case True
    then have "n < 10" by (simp add: div_eq_0_iff)
    with True show ?thesis
      by (subst putuint_nat.simps) (simp add: dec_val_def digit_char_val)
  next
    case False
    then show ?thesis
      using 1 digit_char_val [of "n mod 10"]
      by (subst putuint_nat.simps) (simp add: dec_val_def)
  qed
qed

lemma putuint_nat_digits: "\<forall>c \<in> set (putuint_nat n). isdigit c"
proof (induction n rule: putuint_nat.induct)
  case (1 n)
  have "isdigit (digit_char (n mod 10))" using digit_char_val [of "n mod 10"] by simp
  with 1 show ?case by (subst putuint_nat.simps) auto
qed

lemma hex_digit: "unat (drop_bit (4 * i) (v :: u32) AND 0xf) = unat v div 16 ^ i mod 16"
proof -
  have "(0xf :: u32) = mask 4" by (simp add: mask_eq_decr_exp)
  then have "drop_bit (4 * i) v AND 0xf = take_bit 4 (drop_bit (4 * i) v)"
    by (simp only: take_bit_eq_mask)
  then have "unat (drop_bit (4 * i) v AND 0xf) = take_bit 4 (unat (drop_bit (4 * i) v))"
    by (simp only: unsigned_take_bit_eq)
  also have "unat (drop_bit (4 * i) v) = unat v div 2 ^ (4 * i)"
    by (subst unat_drop_bit_eq) (rule drop_bit_eq_div)
  finally show ?thesis by (simp add: take_bit_eq_mod power_mult)
qed

lemma foldl_hex:
  "foldl (\<lambda>m c. 16 * m + hex_digit_val c) a (map (\<lambda>i. hex_char (x div 16 ^ i mod 16)) (rev [0..<n])) =
   a * 16 ^ n + x mod 16 ^ n"
proof (induction n arbitrary: a)
  case 0
  show ?case by simp
next
  case (Suc n)
  have "x mod 16 ^ Suc n = 16 ^ n * (x div 16 ^ n mod 16) + x mod 16 ^ n"
    using mod_mult2_eq [of x "16 ^ n" 16] by (simp add: mult.commute)
  then show ?case by (simp add: Suc.IH hex_char_val) (simp add: algebra_simps)
qed

lemma foldl_digits:
  "foldl (\<lambda>m c. 16 * m + hex_digit_val c) a
     (concat (map (\<lambda>i. putsinglehex (drop_bit (4 * i) v AND 0xf)) (rev [0..<n]))) =
   a * 16 ^ n + unat v mod 16 ^ n"
proof -
  have "concat (map (\<lambda>i. putsinglehex (drop_bit (4 * i) v AND 0xf)) (rev [0..<n])) =
      map (\<lambda>i. hex_char (unat v div 16 ^ i mod 16)) (rev [0..<n])"
    by (simp only: putsinglehex_def hex_digit concat_map_singleton)
  then show ?thesis by (simp only: foldl_hex)
qed

lemma puthex_val: "1 \<le> n \<Longrightarrow> n \<le> 8 \<Longrightarrow> hex_val (puthex v (int n)) = unat v mod 16 ^ n"
  using foldl_digits [of 0 v n] foldl_digits [of 0 v 8]
  by (cases "n = 8") (auto simp: hex_val_def puthex_def)

lemma puthex_length: "1 \<le> n \<Longrightarrow> n \<le> 8 \<Longrightarrow> length (puthex v (int n)) = n"
  by (cases "n = 8") (auto simp: puthex_def putsinglehex_def length_concat comp_def)

lemma hexcount_spec: "1 \<le> hexcount n \<and> n < 16 ^ hexcount n \<and> (n < 16 ^ k \<longrightarrow> 1 \<le> k \<longrightarrow> hexcount n \<le> k)"
proof (induction n arbitrary: k rule: hexcount.induct)
  case (1 n)
  show ?case
  proof (cases "n div 16 = 0")
    case True
    then show ?thesis by (subst (1 2 3) hexcount.simps) (simp add: div_eq_0_iff)
  next
    case False
    then have eq: "hexcount n = Suc (hexcount (n div 16))" by (subst hexcount.simps) simp
    have "n div 16 < 16 ^ hexcount (n div 16)" using 1 [OF False] by blast
    then have "n < 16 * 16 ^ hexcount (n div 16)"
      using div_less_iff_less_mult [of 16 n "16 ^ hexcount (n div 16)"] by (simp add: mult.commute)
    moreover have "hexcount (n div 16) \<le> k - 1" if "n < 16 ^ k" "1 \<le> k"
    proof -
      have k: "16 ^ k = (16 ^ (k - 1) * 16 :: nat)" using that(2) by (cases k) auto
      have "n div 16 < 16 ^ (k - 1)" using that(1) k by (simp add: div_less_iff_less_mult)
      moreover have "1 \<le> k - 1"
        using calculation False by (cases "k - 1") auto
      ultimately show ?thesis using 1 [OF False] by blast
    qed
    ultimately show ?thesis by (auto simp: eq)
  qed
qed

lemma foldl_zeros: "foldl (\<lambda>m c. 16 * m + hex_digit_val c) 0 (replicate n CHR ''0'') = 0"
  by (induction n) (auto simp: hex_digit_val_def)

text \<open>Numbers are printed so that they can be read back: the decimal digits of \<open>%u\<close> and the
  hexadecimal digits of \<open>%x\<close> (padded with zeros to the field width) denote the number, and the
  hexadecimal form has as many characters as the field width or the number itself need.\<close>

theorem numbers_print_value:
  "dec_val (putuint v) = unat v \<and> hex_val (putprettyhex v width CHR ''0'') = unat v \<and>
   length (putprettyhex v width CHR ''0'') = max (nat width) (hexcount (unat v))"
proof -
  have b: "unat v < 16 ^ 8" using unat_u32_bound [of v] by simp
  have c: "1 \<le> hexcount (unat v)" "hexcount (unat v) \<le> 8" "unat v < 16 ^ hexcount (unat v)"
    using hexcount_spec [of "unat v" 8] b by auto
  have "hex_val (puthex v (int (hexcount (unat v)))) = unat v"
    using puthex_val [OF c(1,2), of v] c(3) by simp
  then show ?thesis
    using puthex_length [OF c(1,2), of v]
    by (auto simp: putuint_def putuint_nat_val putprettyhex_def hex_val_def foldl_zeros max_def Let_def)
qed

end
