(* ===== verification/Boot.thy ===== *)
theory Boot
  imports Romfile Output
begin

text \<open>
  The boot order code of \<open>src/boot.c\<close>: the search for a device path in the host's boot order and
  geometry lists, the list of bootable devices that \<open>bootentry_add\<close> keeps sorted, the boot menu,
  the table of boot entries (BEV) and the sequence of boot attempts of interrupts 0x19 and 0x18.
  Strings are character lists without their terminating zero. The configuration is the default one
  (\<open>CONFIG_BOOTORDER\<close>, \<open>CONFIG_BOOT\<close>, \<open>CONFIG_HOST_BIOS_GEOMETRY\<close>, \<open>CONFIG_QEMU\<close>, no
  \<open>CONFIG_CSM\<close>). Calls into the drivers and option roms are recorded as actions, the keyboard and
  the timer are inputs; screen output and the TPM are not modelled.
\<close>

section \<open>Matching device paths\<close>

function glob_prefix :: "string \<Rightarrow> string \<Rightarrow> string option" where
  "glob_prefix glob str =
     (if glob = [] \<and> (str = [] \<or> hd str = CHR ''/'') then Some str
      else if glob \<noteq> [] \<and> hd glob = CHR ''*'' then
        if str = [] \<or> hd str = CHR ''/'' \<or> tl glob \<noteq> [] \<and> hd str = hd (tl glob)
        then glob_prefix (tl glob) str
        else glob_prefix glob (tl str)
      else if glob = [] \<or> str = [] \<or> hd glob \<noteq> hd str then None
      else glob_prefix (tl glob) (tl str))"
  by pat_completeness auto
termination
  by (relation "measure (\<lambda>(glob, str). length glob + length str)") (auto simp: neq_Nil_conv)

declare glob_prefix.simps [simp del]

section \<open>Device paths\<close>

definition FW_PCI_DOMAIN :: string where "FW_PCI_DOMAIN = ''/pci@i0cf8''"

datatype pci_device = PciDevice (pci_bdf: u16) (pci_rootbus: u8) (pci_parent: "pci_device option")

text \<open>The path functions return the string in the buffer; its length is the pointer that the C
  functions return. \<open>append_fmt\<close> is \<open>p += snprintf (p, buf + max - p, ...)\<close>.\<close>

definition append_fmt :: "nat \<Rightarrow> string \<Rightarrow> arg list \<Rightarrow> string \<Rightarrow> string" where
  "append_fmt sz fmt args p = p @ snprintf (sz - length p) fmt args"

fun build_pci_path :: "nat \<Rightarrow> string \<Rightarrow> pci_device \<Rightarrow> string" where
  "build_pci_path sz devname (PciDevice bdf rootbus parent) =
     (let p = (case parent of
                 Some pci \<Rightarrow> build_pci_path sz ''pci-bridge'' pci
               | None \<Rightarrow>
                   let p1 = append_fmt sz ''%s'' [StrArg (Some FW_PCI_DOMAIN)] []
                   in if rootbus \<noteq> 0 then append_fmt sz '',%x'' [IntArg (ucast rootbus)] p1 else p1);
          dev = pci_bdf_to_dev bdf; fn = pci_bdf_to_fn bdf;
          p2 = append_fmt sz ''/%s@%x'' [StrArg (Some devname), IntArg (ucast dev)] p
      in if fn \<noteq> 0 then append_fmt sz '',%x'' [IntArg (ucast fn)] p2 else p2)"

definition build_scsi_path :: "nat \<Rightarrow> pci_device \<Rightarrow> u32 \<Rightarrow> u32 \<Rightarrow> string" where
  "build_scsi_path sz pci target lun =
     append_fmt sz ''/*@0/*@%x,%x'' [IntArg target, IntArg lun] (build_pci_path sz ''*'' pci)"

definition build_ata_path :: "nat \<Rightarrow> pci_device \<Rightarrow> u32 \<Rightarrow> u32 \<Rightarrow> string" where
  "build_ata_path sz pci chanid slave =
     append_fmt sz ''/drive@%x/disk@%x'' [IntArg chanid, IntArg slave] (build_pci_path sz ''*'' pci)"

section \<open>Text files\<close>

text \<open>The loop over the lines: each line ends where \<open>strchr (f, '\n')\<close> finds a newline.\<close>

definition nl :: char where "nl = CHR 0x0A"

function split_lines :: "string \<Rightarrow> string list" where
  "split_lines f = (case dropWhile (\<lambda>c. c \<noteq> nl) f of
       [] \<Rightarrow> [f]
     | _ # rest \<Rightarrow> takeWhile (\<lambda>c. c \<noteq> nl) f # split_lines rest)"
  by pat_completeness auto
termination
proof (relation "measure length")
  fix f rest :: string and c
  assume "dropWhile (\<lambda>c. c \<noteq> nl) f = c # rest"
  then show "(rest, f) \<in> measure length"
    using length_dropWhile_le [of "\<lambda>c. c \<noteq> nl" f] by simp
qed simp

declare split_lines.simps [simp del]

fun count_newlines :: "string \<Rightarrow> nat" where
  "count_newlines [] = 1"
| "count_newlines (c # f) = (if c = nl then Suc (count_newlines f) else count_newlines f)"

text \<open>\<open>nullTrailingSpace\<close> on a string; plain \<open>char\<close> is signed.\<close>

definition blank_char :: "char \<Rightarrow> bool" where
  "blank_char c \<longleftrightarrow> of_char c \<le> (32 :: nat) \<or> 128 \<le> (of_char c :: nat)"

definition trim_string :: "string \<Rightarrow> string" where
  "trim_string s = dropWhile blank_char (rev (dropWhile blank_char (rev s)))"

fun parse_digits :: "string \<Rightarrow> u32 \<Rightarrow> string \<times> u32" where
  "parse_digits [] m = ([], m)"
| "parse_digits (c # cur) m =
     (if isdigit c then parse_digits cur (10 * m + of_nat (digit_val c)) else (c # cur, m))"

definition parse_u32 :: "string option \<Rightarrow> string option \<times> u32" where
  "parse_u32 cur = (case cur of
       None \<Rightarrow> (None, 0)
     | Some s \<Rightarrow> (let (rest, m) = parse_digits s 0 in (Some (if rest \<noteq> [] then tl rest else rest), m)))"

record BootDeviceLCHS =
  lc_name :: string
  lcyls :: u32
  lheads :: u32
  lsecs :: u32

text \<open>\<open>strchr\<close> on a line: what comes behind the first such character.\<close>

definition after_char :: "char \<Rightarrow> string \<Rightarrow> string option" where
  "after_char c s = (case dropWhile (\<lambda>x. x \<noteq> c) s of [] \<Rightarrow> None | _ # rest \<Rightarrow> Some rest)"

definition parse_geometry :: "string \<Rightarrow> BootDeviceLCHS" where
  "parse_geometry line =
     (let (v1, c) = parse_u32 (after_char CHR '' '' line);
          (v2, h) = parse_u32 v1;
          (v3, s) = parse_u32 v2
      in \<lparr>lc_name = takeWhile (\<lambda>x. x \<noteq> CHR '' '') line, lcyls = c, lheads = h, lsecs = s\<rparr>)"

section \<open>State\<close>

definition DEFAULT_PRIO :: int where "DEFAULT_PRIO = 9999"

definition IPL_TYPE_FLOPPY :: int where "IPL_TYPE_FLOPPY = 1"
definition IPL_TYPE_HARDDISK :: int where "IPL_TYPE_HARDDISK = 2"
definition IPL_TYPE_CDROM :: int where "IPL_TYPE_CDROM = 3"
definition IPL_TYPE_CBFS :: int where "IPL_TYPE_CBFS = 0x20"
definition IPL_TYPE_BEV :: int where "IPL_TYPE_BEV = 0x80"
definition IPL_TYPE_BCV :: int where "IPL_TYPE_BCV = 0x81"
definition IPL_TYPE_HALT :: int where "IPL_TYPE_HALT = 0xf0"

lemmas ipl_defs = IPL_TYPE_FLOPPY_def IPL_TYPE_HARDDISK_def IPL_TYPE_CDROM_def IPL_TYPE_CBFS_def
  IPL_TYPE_BEV_def IPL_TYPE_BCV_def IPL_TYPE_HALT_def

text \<open>A drive is its address with the two fields of \<open>struct drive_s\<close> that the order depends on; an
  entry without a drive has the other members of the union in \<open>be_data\<close>.\<close>

record bootentry_s =
  be_type :: int
  be_data :: u32
  be_drive_type :: u8
  be_cntl_id :: u32
  be_priority :: int
  be_description :: string

record bev_s =
  bev_type :: int
  bev_vector :: u32

datatype boot_action =
  CallBcv u32 | MapFloppy u32 | MapHd u32 | MapCd u32

record boot_state =
  b_fw :: fwstate
  BootRetryTime :: u32
  CheckFloppySig :: bool
  DefaultFloppyPrio :: int
  DefaultCDPrio :: int
  DefaultHDPrio :: int
  DefaultBEVPrio :: int
  Bootorder :: "string list"
  BiosGeometry :: "BootDeviceLCHS list"
  BootList :: "bootentry_s list"
  BEV :: "bev_s list"
  HaveHDBoot :: nat
  HaveFDBoot :: nat
  b_actions :: "boot_action list"
  BootSequence :: int

section \<open>Loading the lists\<close>

text \<open>The text of a loaded file: the characters before the zero that \<open>romfile_loadfile\<close> adds, or
  an earlier one.\<close>

definition file_text :: "mem \<Rightarrow> u32 \<Rightarrow> u32 \<Rightarrow> string" where
  "file_text m data sz = map (\<lambda>b. char_of (unat b)) (takeWhile (\<lambda>b. b \<noteq> 0) (mem_read m data (unat sz)))"

definition loadBiosGeometry :: "boot_state \<Rightarrow> boot_state" where
  "loadBiosGeometry st =
     (case romfile_loadfile (bytes_of ''bios-geometry'') (b_fw st) of
        (fw1, None) \<Rightarrow> st\<lparr>b_fw := fw1\<rparr>
      | (fw1, Some (data, sz)) \<Rightarrow>
          let f = file_text (r_mem fw1) data sz;
              (fw2, arr) = malloc_tmphigh (of_nat (count_newlines f) * 16) fw1
          in if arr = 0 then st\<lparr>b_fw := free data fw2, BiosGeometry := []\<rparr>
             else st\<lparr>b_fw := fw2, BiosGeometry := map parse_geometry (split_lines f)\<rparr>)"

definition loadBootOrder :: "boot_state \<Rightarrow> boot_state" where
  "loadBootOrder st =
     (case romfile_loadfile (bytes_of ''bootorder'') (b_fw st) of
        (fw1, None) \<Rightarrow> st\<lparr>b_fw := fw1\<rparr>
      | (fw1, Some (data, sz)) \<Rightarrow>
          let f = file_text (r_mem fw1) data sz;
              (fw2, arr) = malloc_tmphigh (of_nat (count_newlines f) * 4) fw1
          in if arr = 0 then st\<lparr>b_fw := free data fw2, Bootorder := []\<rparr>
             else st\<lparr>b_fw := fw2, Bootorder := map trim_string (split_lines f)\<rparr>)"

section \<open>Searching\<close>

definition boot_lchs_find :: "string \<Rightarrow> boot_state \<Rightarrow> BootDeviceLCHS option" where
  "boot_lchs_find glob st = find (\<lambda>b. glob_prefix glob (lc_name b) \<noteq> None) (BiosGeometry st)"

text \<open>The geometry as 16-bit cylinder, head and sector numbers; \<open>None\<close> is the result -1.\<close>

definition lchs_of :: "BootDeviceLCHS option \<Rightarrow> (u16 \<times> u16 \<times> u16) option" where
  "lchs_of b = map_option (\<lambda>d. (ucast (lcyls d), ucast (lheads d), ucast (lsecs d))) b"

definition boot_lchs_find_pci_device :: "pci_device \<Rightarrow> boot_state \<Rightarrow> (u16 \<times> u16 \<times> u16) option" where
  "boot_lchs_find_pci_device pci st = lchs_of (boot_lchs_find (build_pci_path 256 ''*'' pci) st)"

definition boot_lchs_find_scsi_device ::
    "pci_device option \<Rightarrow> u32 \<Rightarrow> u32 \<Rightarrow> boot_state \<Rightarrow> (u16 \<times> u16 \<times> u16) option" where
  "boot_lchs_find_scsi_device pci target lun st = (case pci of None \<Rightarrow> None
     | Some p \<Rightarrow> lchs_of (boot_lchs_find (build_scsi_path 256 p target lun) st))"

definition boot_lchs_find_ata_device ::
    "pci_device option \<Rightarrow> u32 \<Rightarrow> u32 \<Rightarrow> boot_state \<Rightarrow> (u16 \<times> u16 \<times> u16) option" where
  "boot_lchs_find_ata_device pci chanid slave st = (case pci of None \<Rightarrow> None
     | Some p \<Rightarrow> lchs_of (boot_lchs_find (build_ata_path 256 p chanid slave) st))"

fun find_prio_from :: "int \<Rightarrow> string \<Rightarrow> string list \<Rightarrow> int" where
  "find_prio_from i glob [] = -1"
| "find_prio_from i glob (b # bs) =
     (if glob_prefix glob b \<noteq> None then i + 1 else find_prio_from (i + 1) glob bs)"

definition find_prio :: "string \<Rightarrow> boot_state \<Rightarrow> int" where
  "find_prio glob st = find_prio_from 0 glob (Bootorder st)"

definition bootprio_find_pci_device :: "pci_device \<Rightarrow> boot_state \<Rightarrow> int" where
  "bootprio_find_pci_device pci st = find_prio (build_pci_path 256 ''*'' pci) st"

definition bootprio_find_scsi_device :: "pci_device option \<Rightarrow> u32 \<Rightarrow> u32 \<Rightarrow> boot_state \<Rightarrow> int" where
  "bootprio_find_scsi_device pci target lun st = (case pci of None \<Rightarrow> -1
     | Some p \<Rightarrow> find_prio (build_scsi_path 256 p target lun) st)"

definition bootprio_find_ata_device :: "pci_device option \<Rightarrow> u32 \<Rightarrow> u32 \<Rightarrow> boot_state \<Rightarrow> int" where
  "bootprio_find_ata_device pci chanid slave st = (case pci of None \<Rightarrow> -1
     | Some p \<Rightarrow> find_prio (build_ata_path 256 p chanid slave) st)"

definition bootprio_find_fdc_device :: "pci_device option \<Rightarrow> u32 \<Rightarrow> u32 \<Rightarrow> boot_state \<Rightarrow> int" where
  "bootprio_find_fdc_device pci port fdid st = (case pci of None \<Rightarrow> -1
     | Some p \<Rightarrow> find_prio (append_fmt 256 ''/fdc@%04x/floppy@%x'' [IntArg port, IntArg fdid]
         (build_pci_path 256 ''isa'' p)) st)"

definition bootprio_find_pci_rom :: "pci_device \<Rightarrow> u32 \<Rightarrow> boot_state \<Rightarrow> int" where
  "bootprio_find_pci_rom pci inst st =
     (let p = build_pci_path 256 ''*'' pci
      in find_prio (if inst \<noteq> 0 then append_fmt 256 '':rom%x'' [IntArg inst] p else p) st)"

definition bootprio_find_named_rom :: "string \<Rightarrow> u32 \<Rightarrow> boot_state \<Rightarrow> int" where
  "bootprio_find_named_rom name inst st =
     (let p = append_fmt 256 ''/rom@%s'' [StrArg (Some name)] []
      in find_prio (if inst \<noteq> 0 then append_fmt 256 '':rom%x'' [IntArg inst] p else p) st)"

text \<open>A USB hub is the list of the port numbers (\<open>usb_portmap\<close>) of the hubs on the way from the
  root hub to it; the operation that maps a hub's ports is the host controller's.\<close>

definition usb_portmap :: "(u32 \<Rightarrow> u32) option \<Rightarrow> u32 \<Rightarrow> u32" where
  "usb_portmap portmap port = (case portmap of Some f \<Rightarrow> f port | None \<Rightarrow> port + 1)"

fun build_usb_path :: "nat \<Rightarrow> u32 list \<Rightarrow> string \<Rightarrow> string" where
  "build_usb_path sz [] p = p"
| "build_usb_path sz (port # ports) p =
     build_usb_path sz ports (append_fmt sz ''/hub@%x'' [IntArg port] p)"

definition bootprio_find_usb :: "pci_device \<Rightarrow> u32 list \<Rightarrow> u32 \<Rightarrow> u32 \<Rightarrow> boot_state \<Rightarrow> int" where
  "bootprio_find_usb pci hubs port lun st =
     (let p = build_usb_path 256 hubs (build_pci_path 256 ''usb'' pci);
          ret = find_prio (append_fmt 256 ''/storage@%x/*@0/*@0,%x'' [IntArg port, IntArg lun] p) st
      in if ret \<ge> 0 then ret
         else find_prio (append_fmt 256 ''/usb-*@%x'' [IntArg port] p) st)"


section \<open>Boot setup\<close>

text \<open>The loop over the three nibbles of the boot order in CMOS memory, for \<open>i\<close> from 101 to 103.\<close>

fun boot_order_loop :: "nat \<Rightarrow> int \<Rightarrow> u32 \<Rightarrow> boot_state \<Rightarrow> boot_state" where
  "boot_order_loop 0 i bootorder st = st"
| "boot_order_loop (Suc n) i bootorder st =
     (let val = bootorder AND 0x0f;
          st1 = (if val = 1 then st\<lparr>DefaultFloppyPrio := i\<rparr>
                 else if val = 2 then st\<lparr>DefaultHDPrio := i\<rparr>
                 else if val = 3 then st\<lparr>DefaultCDPrio := i\<rparr>
                 else if val = 4 then st\<lparr>DefaultBEVPrio := i\<rparr>
                 else st)
      in boot_order_loop n (i + 1) (drop_bit 4 bootorder) st1)"

text \<open>The CMOS bytes \<open>CMOS_BIOS_BOOTFLAG1\<close> and \<open>CMOS_BIOS_BOOTFLAG2\<close> are arguments.\<close>

definition boot_init :: "u8 \<Rightarrow> u8 \<Rightarrow> boot_state \<Rightarrow> boot_state" where
  "boot_init flag1 flag2 st =
     (let st1 = (if flag1 AND 1 \<noteq> 0 then st\<lparr>CheckFloppySig := False\<rparr> else st);
          bootorder = ucast flag2 OR push_bit 4 (ucast (flag1 AND 0xf0)) :: u32;
          st2 = boot_order_loop 3 101 bootorder
            (st1\<lparr>DefaultFloppyPrio := DEFAULT_PRIO, DefaultCDPrio := DEFAULT_PRIO,
                 DefaultHDPrio := DEFAULT_PRIO, DefaultBEVPrio := DEFAULT_PRIO\<rparr>);
          (fw, w) = romfile_loadint (bytes_of ''etc/boot-fail-wait'') (60 * 1000) (b_fw st2)
      in loadBiosGeometry (loadBootOrder (st2\<lparr>b_fw := fw, BootRetryTime := ucast w\<rparr>)))"

section \<open>The list of boot entries\<close>

text \<open>The condition under which the loop of \<open>bootentry_add\<close> stops in front of \<open>pos\<close>.\<close>

definition be_before :: "bootentry_s \<Rightarrow> bootentry_s \<Rightarrow> bool" where
  "be_before be pos \<longleftrightarrow>
     (if be_priority be < be_priority pos then True
      else if be_priority be > be_priority pos then False
      else if be_type be < be_type pos then True
      else if be_type be > be_type pos then False
      else be_type be \<le> IPL_TYPE_CDROM \<and>
        (be_drive_type be < be_drive_type pos \<or>
         be_drive_type be = be_drive_type pos \<and> be_cntl_id be < be_cntl_id pos))"

definition sizeof_bootentry :: u32 where "sizeof_bootentry = 24"

definition bootentry_add :: "bootentry_s \<Rightarrow> boot_state \<Rightarrow> boot_state" where
  "bootentry_add be st =
     (let (fw1, p) = malloc_tmp sizeof_bootentry (b_fw st)
      in if p = 0 then st\<lparr>b_fw := fw1\<rparr>
         else st\<lparr>b_fw := fw1, BootList := hlist_insert (be_before be) be (BootList st)\<rparr>)"

definition defPrio :: "int \<Rightarrow> int \<Rightarrow> int" where
  "defPrio priority defaultprio = (if priority < 0 then defaultprio else priority)"

definition SEGOFF :: "u16 \<Rightarrow> u16 \<Rightarrow> u32" where
  "SEGOFF seg off = push_bit 16 (ucast seg) OR ucast off"

definition plain_entry :: "int \<Rightarrow> int \<Rightarrow> u32 \<Rightarrow> string option \<Rightarrow> bootentry_s" where
  "plain_entry type prio data desc =
     \<lparr>be_type = type, be_data = data, be_drive_type = 0, be_cntl_id = 0, be_priority = prio,
      be_description = (case desc of None \<Rightarrow> ''?'' | Some d \<Rightarrow> d)\<rparr>"

definition drive_entry :: "int \<Rightarrow> int \<Rightarrow> u32 \<Rightarrow> u8 \<Rightarrow> u32 \<Rightarrow> string option \<Rightarrow> bootentry_s" where
  "drive_entry type prio drive dtype cntl desc =
     (plain_entry type prio drive desc)\<lparr>be_drive_type := dtype, be_cntl_id := cntl\<rparr>"

definition boot_add_bev :: "u16 \<Rightarrow> u16 \<Rightarrow> string option \<Rightarrow> int \<Rightarrow> boot_state \<Rightarrow> boot_state" where
  "boot_add_bev seg bev desc prio st =
     (bootentry_add (plain_entry IPL_TYPE_BEV (defPrio prio (DefaultBEVPrio st)) (SEGOFF seg bev)
        (Some (case desc of Some d \<Rightarrow> d | None \<Rightarrow> ''Unknown''))) st)\<lparr>DefaultBEVPrio := DEFAULT_PRIO\<rparr>"

definition boot_add_bcv :: "u16 \<Rightarrow> u16 \<Rightarrow> string option \<Rightarrow> int \<Rightarrow> boot_state \<Rightarrow> boot_state" where
  "boot_add_bcv seg ip desc prio st =
     bootentry_add (plain_entry IPL_TYPE_BCV (defPrio prio (DefaultHDPrio st)) (SEGOFF seg ip)
        (Some (case desc of Some d \<Rightarrow> d | None \<Rightarrow> ''Legacy option rom''))) st"

definition boot_add_floppy ::
    "u32 \<Rightarrow> u8 \<Rightarrow> u32 \<Rightarrow> string option \<Rightarrow> int \<Rightarrow> boot_state \<Rightarrow> boot_state" where
  "boot_add_floppy drive dtype cntl desc prio st =
     bootentry_add (drive_entry IPL_TYPE_FLOPPY (defPrio prio (DefaultFloppyPrio st)) drive dtype cntl desc) st"

definition boot_add_hd ::
    "u32 \<Rightarrow> u8 \<Rightarrow> u32 \<Rightarrow> string option \<Rightarrow> int \<Rightarrow> boot_state \<Rightarrow> boot_state" where
  "boot_add_hd drive dtype cntl desc prio st =
     bootentry_add (drive_entry IPL_TYPE_HARDDISK (defPrio prio (DefaultHDPrio st)) drive dtype cntl desc) st"

text \<open>\<open>znprintf\<close> prints into a new buffer, or gives a null pointer; the description keeps the string.\<close>

definition znprintf :: "nat \<Rightarrow> string \<Rightarrow> arg list \<Rightarrow> fwstate \<Rightarrow> string option \<times> u32 \<times> fwstate" where
  "znprintf n fmt args fw =
     (if n = 0 then (None, 0, fw)
      else
        let (fw1, p) = malloc_tmp (of_nat n) fw
        in if p = 0 then (None, 0, fw1) else (Some (snprintf n fmt args), p, fw1))"

text \<open>On QEMU the description of a CD is extended by the media information \<open>extra\<close>, the buffer and its string,
  for which the drive is asked.\<close>

definition boot_add_cd ::
    "bool \<Rightarrow> (u32 \<times> string) option \<Rightarrow> u32 \<Rightarrow> u8 \<Rightarrow> u32 \<Rightarrow> string option \<Rightarrow> int \<Rightarrow> boot_state \<Rightarrow> boot_state" where
  "boot_add_cd on_qemu extra drive dtype cntl desc prio st =
     (let (st1, desc1) =
        (case (on_qemu, extra) of
           (True, Some (q, x)) \<Rightarrow>
             (let (d, _, fw1) = znprintf 80 ''%s (%s)'' [StrArg desc, StrArg (Some x)] (b_fw st)
              in (st\<lparr>b_fw := free q fw1\<rparr>, d))
         | _ \<Rightarrow> (st, desc))
      in bootentry_add (drive_entry IPL_TYPE_CDROM (defPrio prio (DefaultCDPrio st1)) drive dtype cntl desc1) st1)"

definition boot_add_cbfs :: "u32 \<Rightarrow> string option \<Rightarrow> int \<Rightarrow> boot_state \<Rightarrow> boot_state" where
  "boot_add_cbfs data desc prio st =
     bootentry_add (plain_entry IPL_TYPE_CBFS (defPrio prio DEFAULT_PRIO) data desc) st"

section \<open>The boot menu\<close>

definition menuchars :: string where
  "menuchars = ''123456789abcdefghijklmnopqrsuvwxyz''"

text \<open>The wait for a key in the menu. Each input is the result of \<open>get_keystroke_full (1000)\<close>, which
  is negative for a timeout, and whether the time before which escape is ignored has passed. \<open>MenuWait\<close>
  means that the inputs are used up.\<close>

datatype menu_result = MenuWait | MenuQuit | MenuBoot nat

fun menu_find :: "int \<Rightarrow> nat \<Rightarrow> bootentry_s list \<Rightarrow> nat option" where
  "menu_find key_ascii maxmenu [] = None"
| "menu_find key_ascii maxmenu (pos # rest) =
     (if maxmenu \<ge> length menuchars then None
      else if key_ascii = of_char (menuchars ! maxmenu) then Some maxmenu
      else menu_find key_ascii (Suc maxmenu) rest)"

fun menu_loop :: "bootentry_s list \<Rightarrow> (int \<times> bool) list \<Rightarrow> menu_result" where
  "menu_loop bl [] = MenuWait"
| "menu_loop bl ((keystroke, esc_accepted) # inputs) =
     (if keystroke = 0x011b \<and> \<not> esc_accepted then menu_loop bl inputs
      else if keystroke < 0 then menu_loop bl inputs
      else
        let scan_code = keystroke div 256; key_ascii = keystroke mod 256 in
        if scan_code = 1 then MenuQuit
        else case menu_find key_ascii 0 bl of
            Some i \<Rightarrow> MenuBoot i
          | None \<Rightarrow> menu_loop bl inputs)"

text \<open>\<open>scan_code\<close> is the key pressed while the boot menu message was shown.\<close>

definition interactive_bootmenu :: "int \<Rightarrow> (int \<times> bool) list \<Rightarrow> boot_state \<Rightarrow> boot_state" where
  "interactive_bootmenu scan_code inputs st =
     (let (fw1, show_menu) = romfile_loadint (bytes_of ''etc/show-boot-menu'') 1 (b_fw st) in
      if show_menu = 0 then st\<lparr>b_fw := fw1\<rparr>
      else
        let (fw2, msg) = romfile_loadfile (bytes_of ''etc/boot-menu-message'') fw1;
            (fw3, menukey) = romfile_loadint (bytes_of ''etc/boot-menu-key'') 1 fw2;
            fw4 = (case msg of None \<Rightarrow> fw3 | Some (data, _) \<Rightarrow> free data fw3);
            (fw5, menutime) = romfile_loadint (bytes_of ''etc/boot-menu-wait'') 2500 fw4;
            st1 = st\<lparr>b_fw := fw5\<rparr>
        in if scan_code \<noteq> sint (ucast menukey :: u32) then st1
           else case menu_loop (BootList st1) inputs of
               MenuBoot i \<Rightarrow>
                 st1\<lparr>BootList := (BootList st1 ! i)\<lparr>be_priority := 0\<rparr>
                   # (take i (BootList st1) @ drop (Suc i) (BootList st1))\<rparr>
             | _ \<Rightarrow> st1)"

section \<open>Boot execution vectors\<close>

definition add_bev :: "int \<Rightarrow> u32 \<Rightarrow> boot_state \<Rightarrow> boot_state" where
  "add_bev type vector st =
     (let add = (\<lambda>s. if length (BEV s) \<ge> 20 then s
                   else s\<lparr>BEV := BEV s @ [\<lparr>bev_type = type, bev_vector = vector\<rparr>]\<rparr>)
      in if type = IPL_TYPE_HARDDISK then
           (let st1 = st\<lparr>HaveHDBoot := Suc (HaveHDBoot st)\<rparr>
            in if HaveHDBoot st \<noteq> 0 then st1 else add st1)
         else if type = IPL_TYPE_FLOPPY then
           (let st1 = st\<lparr>HaveFDBoot := Suc (HaveFDBoot st)\<rparr>
            in if HaveFDBoot st \<noteq> 0 then st1 else add st1)
         else add st)"

definition act :: "boot_action \<Rightarrow> boot_state \<Rightarrow> boot_state" where
  "act a st = st\<lparr>b_actions := b_actions st @ [a]\<rparr>"

definition prepboot_entry :: "bootentry_s \<Rightarrow> boot_state \<Rightarrow> boot_state" where
  "prepboot_entry pos st =
     (if be_type pos = IPL_TYPE_BCV then add_bev IPL_TYPE_HARDDISK 0 (act (CallBcv (be_data pos)) st)
      else if be_type pos = IPL_TYPE_FLOPPY then add_bev IPL_TYPE_FLOPPY 0 (act (MapFloppy (be_data pos)) st)
      else if be_type pos = IPL_TYPE_HARDDISK then add_bev IPL_TYPE_HARDDISK 0 (act (MapHd (be_data pos)) st)
      else if be_type pos = IPL_TYPE_CDROM
      then add_bev (be_type pos) (be_data pos) (act (MapCd (be_data pos)) st)
      else add_bev (be_type pos) (be_data pos) st)"

definition bcv_prepboot :: "boot_state \<Rightarrow> boot_state" where
  "bcv_prepboot st =
     (let haltprio = find_prio ''HALT'' st;
          st1 = (if haltprio \<ge> 0 then bootentry_add (plain_entry IPL_TYPE_HALT haltprio 0 (Some ''HALT'')) st
                 else st);
          st2 = fold prepboot_entry (BootList st1) st1
      in add_bev IPL_TYPE_HARDDISK 0 (add_bev IPL_TYPE_FLOPPY 0 st2))"

section \<open>Boot attempts\<close>

text \<open>What an attempt jumps to, or why it gives up. A disk read by interrupt 0x13 delivers the boot
  sector or fails; a CD is prepared by \<open>cdrom_boot\<close>, which gives a status and the emulated drive and
  load segment.\<close>

datatype attempt =
  Jump u16 u16 u8 | ReadFailed | NotBootable | CdFailed u32 | NoCbfs | BootFail | NoMethod

definition canonical_entry :: "u16 \<Rightarrow> u8 \<Rightarrow> attempt" where
  "canonical_entry bootseg bootdrv =
     Jump (bootseg AND 0xf000) (push_bit 4 (bootseg AND 0x0fff)) bootdrv"

definition boot_disk :: "(u8 \<Rightarrow> u8 list option) \<Rightarrow> u8 \<Rightarrow> bool \<Rightarrow> attempt" where
  "boot_disk read_sector bootdrv checksig =
     (case read_sector bootdrv of
        None \<Rightarrow> ReadFailed
      | Some sec \<Rightarrow>
          if checksig \<and> (le_word (take 2 (drop 510 sec)) :: u16) \<noteq> 0xaa55 then NotBootable
          else canonical_entry 0x07c0 bootdrv)"

definition boot_cdrom :: "(u32 \<Rightarrow> u32 \<times> u8 \<times> u16) \<Rightarrow> u32 \<Rightarrow> attempt" where
  "boot_cdrom cdrom_boot drive =
     (let (status, bootdrv, bootseg) = cdrom_boot drive
      in if status \<noteq> 0 then CdFailed status else canonical_entry bootseg bootdrv)"

definition boot_rom :: "u32 \<Rightarrow> attempt" where
  "boot_rom vector = Jump (ucast (drop_bit 16 vector)) (ucast vector) 0"

definition do_boot ::
    "(u8 \<Rightarrow> u8 list option) \<Rightarrow> (u32 \<Rightarrow> u32 \<times> u8 \<times> u16) \<Rightarrow> int \<Rightarrow> boot_state \<Rightarrow> attempt" where
  "do_boot read_sector cdrom_boot seq_nr st =
     (if seq_nr \<ge> int (length (BEV st)) then BootFail
      else
        let ie = BEV st ! nat seq_nr in
        if bev_type ie = IPL_TYPE_FLOPPY then boot_disk read_sector 0x00 (CheckFloppySig st)
        else if bev_type ie = IPL_TYPE_HARDDISK then boot_disk read_sector 0x80 True
        else if bev_type ie = IPL_TYPE_CDROM then boot_cdrom cdrom_boot (bev_vector ie)
        else if bev_type ie = IPL_TYPE_CBFS then NoCbfs
        else if bev_type ie = IPL_TYPE_BEV then boot_rom (bev_vector ie)
        else if bev_type ie = IPL_TYPE_HALT then BootFail
        else NoMethod)"

definition handle_18 ::
    "(u8 \<Rightarrow> u8 list option) \<Rightarrow> (u32 \<Rightarrow> u32 \<times> u8 \<times> u16) \<Rightarrow> boot_state \<Rightarrow> boot_state \<times> attempt" where
  "handle_18 rd cd st =
     (let seq = BootSequence st + 1; st1 = st\<lparr>BootSequence := seq\<rparr> in (st1, do_boot rd cd seq st1))"

definition handle_19 ::
    "(u8 \<Rightarrow> u8 list option) \<Rightarrow> (u32 \<Rightarrow> u32 \<times> u8 \<times> u16) \<Rightarrow> boot_state \<Rightarrow> boot_state \<times> attempt" where
  "handle_19 rd cd st = (let st1 = st\<lparr>BootSequence := 0\<rparr> in (st1, do_boot rd cd 0 st1))"

text \<open>\<open>do_boot\<close> does not return: a jump leaves the program, \<open>boot_fail\<close> waits and resets the
  machine, and any other outcome raises interrupt 0x18, as does a booted program that gives up. The
  inputs say for each jump whether that program gives up; the result is the list of attempts.\<close>

fun gives_up :: "attempt \<Rightarrow> bool \<Rightarrow> bool" where
  "gives_up (Jump s i d) returns = returns"
| "gives_up BootFail returns = False"
| "gives_up _ returns = True"

fun boot_run ::
    "nat \<Rightarrow> (u8 \<Rightarrow> u8 list option) \<Rightarrow> (u32 \<Rightarrow> u32 \<times> u8 \<times> u16) \<Rightarrow> (int \<Rightarrow> bool) \<Rightarrow> boot_state \<times> attempt \<Rightarrow>
      attempt list" where
  "boot_run 0 rd cd returns (st, a) = [a]"
| "boot_run (Suc n) rd cd returns (st, a) =
     (if gives_up a (returns (BootSequence st)) then a # boot_run n rd cd returns (handle_18 rd cd st)
      else [a])"

end
