(* ===== verification/Pci.thy ===== *)
theory Pci
  imports Romfile Output
begin

text \<open>
  PCI configuration space and the list of PCI devices: \<open>src/hw/pci.c\<close> and \<open>src/hw/pcidevice.c\<close>. The
  configuration space is hardware and a parameter: a type \<open>'h\<close> of hardware states with the reads and
  writes of \<open>pci_ops\<close>, which take a device and an offset of 8 bits, as the address port does. Reads do
  not change the hardware. A pointer to a \<open>pci_device\<close> is its value, null is \<open>None\<close>: the probe fills a
  device in once; only \<open>have_driver\<close>, which is not modelled, changes later.
\<close>

section \<open>Configuration space\<close>

record 'h pci_ops =
  hw_readb :: "u16 \<Rightarrow> u32 \<Rightarrow> 'h \<Rightarrow> u8"
  hw_readw :: "u16 \<Rightarrow> u32 \<Rightarrow> 'h \<Rightarrow> u16"
  hw_readl :: "u16 \<Rightarrow> u32 \<Rightarrow> 'h \<Rightarrow> u32"
  hw_writeb :: "u16 \<Rightarrow> u32 \<Rightarrow> u8 \<Rightarrow> 'h \<Rightarrow> 'h"
  hw_writew :: "u16 \<Rightarrow> u32 \<Rightarrow> u16 \<Rightarrow> 'h \<Rightarrow> 'h"
  hw_writel :: "u16 \<Rightarrow> u32 \<Rightarrow> u32 \<Rightarrow> 'h \<Rightarrow> 'h"
  hw_outb :: "u8 \<Rightarrow> u16 \<Rightarrow> 'h \<Rightarrow> 'h"
  hw_host :: "'h \<Rightarrow> bool"

definition pci_config_writel :: "'h pci_ops \<Rightarrow> u16 \<Rightarrow> u32 \<Rightarrow> u32 \<Rightarrow> 'h \<Rightarrow> 'h" where
  "pci_config_writel ops bdf addr v h = hw_writel ops bdf (addr AND 0xfc) v h"

definition pci_config_writew :: "'h pci_ops \<Rightarrow> u16 \<Rightarrow> u32 \<Rightarrow> u16 \<Rightarrow> 'h \<Rightarrow> 'h" where
  "pci_config_writew ops bdf addr v h = hw_writew ops bdf ((addr AND 0xfc) + (addr AND 2)) v h"

definition pci_config_writeb :: "'h pci_ops \<Rightarrow> u16 \<Rightarrow> u32 \<Rightarrow> u8 \<Rightarrow> 'h \<Rightarrow> 'h" where
  "pci_config_writeb ops bdf addr v h = hw_writeb ops bdf ((addr AND 0xfc) + (addr AND 3)) v h"

definition pci_config_readl :: "'h pci_ops \<Rightarrow> u16 \<Rightarrow> u32 \<Rightarrow> 'h \<Rightarrow> u32" where
  "pci_config_readl ops bdf addr h = hw_readl ops bdf (addr AND 0xfc) h"

definition pci_config_readw :: "'h pci_ops \<Rightarrow> u16 \<Rightarrow> u32 \<Rightarrow> 'h \<Rightarrow> u16" where
  "pci_config_readw ops bdf addr h = hw_readw ops bdf ((addr AND 0xfc) + (addr AND 2)) h"

definition pci_config_readb :: "'h pci_ops \<Rightarrow> u16 \<Rightarrow> u32 \<Rightarrow> 'h \<Rightarrow> u8" where
  "pci_config_readb ops bdf addr h = hw_readb ops bdf ((addr AND 0xfc) + (addr AND 3)) h"

definition pci_config_maskw :: "'h pci_ops \<Rightarrow> u16 \<Rightarrow> u32 \<Rightarrow> u16 \<Rightarrow> u16 \<Rightarrow> 'h \<Rightarrow> 'h" where
  "pci_config_maskw ops bdf addr off on h =
     pci_config_writew ops bdf addr ((pci_config_readw ops bdf addr h AND NOT off) OR on) h"

definition PCI_VENDOR_ID :: u32 where "PCI_VENDOR_ID = 0x00"
definition PCI_DEVICE_ID :: u32 where "PCI_DEVICE_ID = 0x02"
definition PCI_COMMAND :: u32 where "PCI_COMMAND = 0x04"
definition PCI_STATUS :: u32 where "PCI_STATUS = 0x06"
definition PCI_STATUS_CAP_LIST :: u16 where "PCI_STATUS_CAP_LIST = 0x10"
definition PCI_CLASS_REVISION :: u32 where "PCI_CLASS_REVISION = 0x08"
definition PCI_CLASS_DEVICE :: u32 where "PCI_CLASS_DEVICE = 0x0a"
definition PCI_HEADER_TYPE :: u32 where "PCI_HEADER_TYPE = 0x0e"
definition PCI_HEADER_TYPE_BRIDGE :: u8 where "PCI_HEADER_TYPE_BRIDGE = 1"
definition PCI_HEADER_TYPE_CARDBUS :: u8 where "PCI_HEADER_TYPE_CARDBUS = 2"
definition PCI_PRIMARY_BUS :: u32 where "PCI_PRIMARY_BUS = 0x18"
definition PCI_SECONDARY_BUS :: u32 where "PCI_SECONDARY_BUS = 0x19"
definition PCI_SUBORDINATE_BUS :: u32 where "PCI_SUBORDINATE_BUS = 0x1a"
definition PCI_CAPABILITY_LIST :: u32 where "PCI_CAPABILITY_LIST = 0x34"
definition PCI_CAP_LIST_ID :: u32 where "PCI_CAP_LIST_ID = 0"
definition PCI_CAP_LIST_NEXT :: u32 where "PCI_CAP_LIST_NEXT = 1"

text \<open>The loop of \<open>pci_find_capability\<close> reads at most 256 entries, so a cyclic list ends it.\<close>

fun find_cap_loop :: "nat \<Rightarrow> 'h pci_ops \<Rightarrow> u16 \<Rightarrow> u8 \<Rightarrow> u8 \<Rightarrow> 'h \<Rightarrow> u8" where
  "find_cap_loop 0 ops bdf cap_id cap h = 0"
| "find_cap_loop (Suc n) ops bdf cap_id cap h =
     (if cap = 0 then 0
      else if pci_config_readb ops bdf (ucast cap + PCI_CAP_LIST_ID) h = cap_id then cap
      else find_cap_loop n ops bdf cap_id (pci_config_readb ops bdf (ucast cap + PCI_CAP_LIST_NEXT) h) h)"

definition pci_find_capability :: "'h pci_ops \<Rightarrow> u16 \<Rightarrow> u8 \<Rightarrow> u8 \<Rightarrow> 'h \<Rightarrow> u8" where
  "pci_find_capability ops bdf cap_id cap h =
     (if pci_config_readw ops bdf PCI_STATUS h AND PCI_STATUS_CAP_LIST = 0 then 0
      else
        let cap1 = (if cap = 0 then pci_config_readb ops bdf PCI_CAPABILITY_LIST h
                    else pci_config_readb ops bdf (ucast cap + PCI_CAP_LIST_NEXT) h)
        in find_cap_loop 256 ops bdf cap_id cap1 h)"

text \<open>\<open>pci_next\<close>: the next present device on the bus after \<open>bdf\<close>, or -1. A bus has 256 functions, so the
  loop ends after at most 257 steps. \<open>word_of_int\<close> is the conversion of the \<open>int\<close> to a 16-bit \<open>bdf\<close>.\<close>

fun pci_next_loop :: "nat \<Rightarrow> 'h pci_ops \<Rightarrow> int \<Rightarrow> int \<Rightarrow> 'h \<Rightarrow> int" where
  "pci_next_loop 0 ops bdf bus h = -1"
| "pci_next_loop (Suc n) ops bdf bus h =
     (if uint (pci_bdf_to_bus (word_of_int bdf)) \<noteq> bus then -1
      else
        let v = pci_config_readw ops (word_of_int bdf) PCI_VENDOR_ID h
        in if v \<noteq> 0x0000 \<and> v \<noteq> 0xffff then bdf
           else pci_next_loop n ops (if pci_bdf_to_fn (word_of_int bdf) = 0 then bdf + 8 else bdf + 1) bus h)"

definition pci_next :: "'h pci_ops \<Rightarrow> int \<Rightarrow> int \<Rightarrow> 'h \<Rightarrow> int" where
  "pci_next ops bdf bus h =
     pci_next_loop 257 ops
       (if pci_bdf_to_fn (word_of_int bdf) = 0 \<and>
           pci_config_readb ops (word_of_int bdf) PCI_HEADER_TYPE h AND 0x80 = 0
        then bdf + 8 else bdf + 1) bus h"

definition pci_probe_host :: "'h pci_ops \<Rightarrow> 'h \<Rightarrow> int" where
  "pci_probe_host ops h = (if hw_host ops h then 0 else -1)"

text \<open>The loop \<open>foreachbdf\<close>, over a state of which \<open>get\<close> is the hardware. \<open>n\<close> bounds the number of
  devices it visits: every step goes to a later function of the bus, so 257 is enough. The body may fail
  (\<open>None\<close>), which ends everything.\<close>

fun foreachbdf :: "nat \<Rightarrow> 'h pci_ops \<Rightarrow> ('s \<Rightarrow> 'h) \<Rightarrow> int \<Rightarrow> (u16 \<Rightarrow> 's \<Rightarrow> 's option) \<Rightarrow> int \<Rightarrow> 's \<Rightarrow> 's option" where
  "foreachbdf 0 ops get bus body prev s = None"
| "foreachbdf (Suc n) ops get bus body prev s =
     (let bdf = pci_next ops prev bus (get s)
      in if bdf < 0 then Some s
         else case body (word_of_int bdf) s of None \<Rightarrow> None | Some s' \<Rightarrow> foreachbdf n ops get bus body bdf s')"

definition each_bdf :: "'h pci_ops \<Rightarrow> ('s \<Rightarrow> 'h) \<Rightarrow> int \<Rightarrow> (u16 \<Rightarrow> 's \<Rightarrow> 's option) \<Rightarrow> 's \<Rightarrow> 's option" where
  "each_bdf ops get bus body s = foreachbdf 257 ops get bus body (bus * 256 - 1) s"

section \<open>Devices\<close>

datatype pcidev = PciDev (dev_bdf: u16) (dev_rootbus: u8) (dev_parent: "pcidev option")
  (dev_vendor: u16) (dev_device: u16) (dev_class: u16) (dev_prog_if: u8) (dev_revision: u8)
  (dev_header_type: u8) (dev_secondary_bus: u8)

text \<open>The state of the probe: the device list, the bridge that leads to each bus, and its counters.\<close>

record probe_state =
  pb_fw :: fwstate
  pb_devices :: "pcidev list"
  pb_busdevs :: "u8 \<Rightarrow> pcidev option"
  pb_MaxPCIBus :: int
  pb_lastbus :: int
  pb_rootbuses :: int

definition sizeof_pci_device :: u32 where "sizeof_pci_device = 32"

definition probe_device :: "'h pci_ops \<Rightarrow> 'h \<Rightarrow> int \<Rightarrow> u16 \<Rightarrow> probe_state \<Rightarrow> probe_state option" where
  "probe_device ops h bus bdf st =
     (let (fw, p) = malloc_tmp sizeof_pci_device (pb_fw st); st0 = st\<lparr>pb_fw := fw\<rparr>
      in if p = 0 then None
         else
           let parent = pb_busdevs st0 (word_of_int bus);
               (rootbus, st1) =
                 (case parent of
                    None \<Rightarrow>
                      let rb = (if bus \<noteq> pb_lastbus st0 then pb_rootbuses st0 + 1 else pb_rootbuses st0)
                      in (word_of_int rb, st0\<lparr>pb_rootbuses := rb, pb_lastbus := bus,
                            pb_MaxPCIBus := (if bus > pb_MaxPCIBus st0 then bus else pb_MaxPCIBus st0)\<rparr>)
                  | Some d \<Rightarrow> (dev_rootbus d, st0));
               vendev = pci_config_readl ops bdf PCI_VENDOR_ID h;
               classrev = pci_config_readl ops bdf PCI_CLASS_REVISION h;
               ht = pci_config_readb ops bdf PCI_HEADER_TYPE h;
               v = ht AND 0x7f;
               bridge = (v = PCI_HEADER_TYPE_BRIDGE \<or> v = PCI_HEADER_TYPE_CARDBUS);
               secbus = (if bridge then pci_config_readb ops bdf PCI_SECONDARY_BUS h else 0);
               dev = PciDev bdf rootbus parent (ucast (vendev AND 0xffff)) (ucast (drop_bit 16 vendev))
                       (ucast (drop_bit 16 classrev)) (ucast (drop_bit 8 classrev)) (ucast (classrev AND 0xff)) ht secbus;
               st2 = st1\<lparr>pb_devices := pb_devices st1 @ [dev]\<rparr>
           in Some (if bridge then
                      st2\<lparr>pb_busdevs := (if uint secbus > bus \<and> pb_busdevs st2 secbus = None
                                        then (pb_busdevs st2)(secbus := Some dev) else pb_busdevs st2),
                          pb_MaxPCIBus := (if uint secbus > pb_MaxPCIBus st2 then uint secbus else pb_MaxPCIBus st2)\<rparr>
                    else st2))"

text \<open>The loop over the buses; \<open>n\<close> is the number of buses still possible, 256 at the start. Running out of
  memory ends the probe with the devices found so far, which the state before the failure holds.\<close>

fun probe_device_loop :: "nat \<Rightarrow> 'h pci_ops \<Rightarrow> 'h \<Rightarrow> int \<Rightarrow> int \<Rightarrow> probe_state \<Rightarrow> bool \<times> probe_state" where
  "probe_device_loop 0 ops h bus prev st = (True, st)"
| "probe_device_loop (Suc n) ops h bus prev st =
     (let bdf = pci_next ops prev bus h
      in if bdf < 0 then (True, st)
         else case probe_device ops h bus (word_of_int bdf) st of
                None \<Rightarrow> (False, st)
              | Some st' \<Rightarrow> probe_device_loop n ops h bus bdf st')"

fun probe_buses :: "nat \<Rightarrow> 'h pci_ops \<Rightarrow> 'h \<Rightarrow> int \<Rightarrow> int \<Rightarrow> probe_state \<Rightarrow> probe_state" where
  "probe_buses 0 ops h extraroots bus st = st"
| "probe_buses (Suc n) ops h extraroots bus st =
     (if bus < 0xff \<and> (bus < pb_MaxPCIBus st \<or> pb_rootbuses st < extraroots) then
        let (go_on, st') = probe_device_loop 257 ops h (bus + 1) ((bus + 1) * 256 - 1) st
        in if go_on then probe_buses n ops h extraroots (bus + 1) st' else st'
      else st)"

definition pci_probe_devices :: "'h pci_ops \<Rightarrow> 'h \<Rightarrow> fwstate \<Rightarrow> int \<Rightarrow> fwstate \<times> pcidev list \<times> int" where
  "pci_probe_devices ops h fw maxbus =
     (let (fw1, extra) = romfile_loadint (bytes_of ''etc/extra-pci-roots'') 0 fw;
          st = probe_buses 256 ops h (sint (ucast extra :: u32)) (-1)
                 \<lparr>pb_fw = fw1, pb_devices = [], pb_busdevs = \<lambda>b. None, pb_MaxPCIBus = maxbus,
                  pb_lastbus = 0, pb_rootbuses = 0\<rparr>
      in (pb_fw st, pb_devices st, pb_MaxPCIBus st))"

definition pci_find_device :: "u16 \<Rightarrow> u16 \<Rightarrow> pcidev list \<Rightarrow> pcidev option" where
  "pci_find_device vendid devid devs = find (\<lambda>d. dev_vendor d = vendid \<and> dev_device d = devid) devs"

definition pci_find_class :: "u16 \<Rightarrow> pcidev list \<Rightarrow> pcidev option" where
  "pci_find_class classid devs = find (\<lambda>d. dev_class d = classid) devs"

text \<open>\<open>pci_init_device\<close> with a table of identifiers (\<open>None\<close> is \<open>PCI_ANY_ID\<close>, resp. a class mask of zero) and
  functions: the function of the first entry that matches the device.\<close>

type_synonym 'f pci_id = "u16 option \<times> u16 option \<times> u16 option \<times> 'f"

fun id_matches :: "'f pci_id \<Rightarrow> pcidev \<Rightarrow> bool" where
  "id_matches (v, d, c, f) dev \<longleftrightarrow>
     (v = None \<or> v = Some (dev_vendor dev)) \<and> (d = None \<or> d = Some (dev_device dev)) \<and>
     (c = None \<or> c = Some (dev_class dev))"

definition pci_init_device :: "(pcidev \<Rightarrow> 's \<Rightarrow> 's) pci_id list \<Rightarrow> pcidev \<Rightarrow> 's \<Rightarrow> 's \<times> int" where
  "pci_init_device ids dev st =
     (case find (\<lambda>i. id_matches i dev) ids of
        None \<Rightarrow> (st, -1)
      | Some (v, d, c, f) \<Rightarrow> (f dev st, 0))"

fun pci_find_init_device_in ::
    "(pcidev \<Rightarrow> 's \<Rightarrow> 's) pci_id list \<Rightarrow> pcidev list \<Rightarrow> 's \<Rightarrow> 's \<times> pcidev option" where
  "pci_find_init_device_in ids [] st = (st, None)"
| "pci_find_init_device_in ids (pci # devs) st =
     (let (st1, r) = pci_init_device ids pci st
      in if r = 0 then (st1, Some pci) else pci_find_init_device_in ids devs st1)"

end
