(* ===== verification/Timer.thy ===== *)
theory Timer
  imports SB_Prelude
begin

text \<open>
  The timers of \<open>src/hw/timer.c\<close>: the calibration of the time stamp counter, the extension of short
  hardware counters to 32 bits, the computation of timeouts, and the conversion between milliseconds and
  clock ticks. What the counters read is an input; waiting itself is not modelled. A timeout fires exactly
  when more than the requested time has passed, and no computation of one overflows.
\<close>

section \<open>The code\<close>

definition PORT_PIT_COUNTER0 :: u16 where "PORT_PIT_COUNTER0 = 0x40"
definition PMTIMER_TO_PIT :: u32 where "PMTIMER_TO_PIT = 3"
definition PMTIMER_HZ :: u32 where "PMTIMER_HZ = 3579545"
definition CALIBRATE_COUNT :: u64 where "CALIBRATE_COUNT = 0x800"
definition PIT_TICK_INTERVAL :: u32 where "PIT_TICK_INTERVAL = 65536"

record timer_state =
  TimerKHz :: u32
  TimerPort :: u16
  ShiftTSC :: u8
  TimerLast :: u32

definition timer_init :: timer_state where
  "timer_init = \<lparr>TimerKHz = 1194, TimerPort = PORT_PIT_COUNTER0, ShiftTSC = 0, TimerLast = 0\<rparr>"

text \<open>What the three counters show at a moment.\<close>

record counters =
  in_tsc :: u64
  in_pm :: u32
  in_pit :: u16

definition DIV_ROUND_UP :: "'a::len word \<Rightarrow> 'a word \<Rightarrow> 'a word" where
  "DIV_ROUND_UP n d = (n + d - 1) div d"

function tsc_scale :: "u64 \<Rightarrow> u8 \<Rightarrow> u64 \<times> u8" where
  "tsc_scale t s = (if t \<ge> 2 ^ 24 then tsc_scale (drop_bit 1 (t + 1)) (s + 1) else (t, s))"
  by pat_completeness auto
termination
proof (relation "measure (\<lambda>(t, s). unat t)")
  fix t :: u64 and s :: u8
  assume t: "2 ^ 24 \<le> t"
  have "unat (t + 1) div 2 < unat t"
  proof (cases "unat t + 1 < 2 ^ 64")
    case True
    then have "unat (t + 1) = unat t + 1" by (simp add: unat_word_ariths)
    then show ?thesis using t by (simp add: word_le_nat_alt)
  next
    case False
    then have "unat t + 1 = 2 ^ 64" using unat_u64_bound [of t] by simp
    then have "unat (t + 1) = 0" by (simp add: unat_word_ariths)
    then show ?thesis using t by (simp add: word_le_nat_alt)
  qed
  then show "((drop_bit 1 (t + 1), s + 1), t, s) \<in> measure (\<lambda>(t, s). unat t)"
    by (simp add: unsigned_drop_bit_eq drop_bit_eq_div unat_div)
qed simp

text \<open>\<open>tsctimer_setup\<close> after the measurement: \<open>diff\<close> is the count of the TSC during the interval.\<close>

definition tsctimer_setup :: "u64 \<Rightarrow> timer_state \<Rightarrow> timer_state" where
  "tsctimer_setup diff st =
     (let (t, s) = tsc_scale (DIV_ROUND_UP (diff * ucast PMTIMER_HZ) CALIBRATE_COUNT) (ShiftTSC st)
      in st\<lparr>ShiftTSC := s, TimerKHz := DIV_ROUND_UP (ucast t) (1000 * PMTIMER_TO_PIT), TimerPort := 0\<rparr>)"

definition timer_adjust_bits :: "u32 \<Rightarrow> u32 \<Rightarrow> timer_state \<Rightarrow> u32 \<times> timer_state" where
  "timer_adjust_bits v validbits st =
     (let last = TimerLast st;
          v1 = (last AND NOT validbits) OR (v AND validbits);
          v2 = (if v1 < last then v1 + (validbits + 1) else v1)
      in (v2, st\<lparr>TimerLast := v2\<rparr>))"

text \<open>\<open>timer_setup\<close> and \<open>pmtimer_setup\<close>: \<open>tsc\<close> says that the processor has a time stamp counter.\<close>

definition timer_setup :: "bool \<Rightarrow> u64 \<Rightarrow> timer_state \<Rightarrow> timer_state" where
  "timer_setup tsc diff st =
     (if TimerPort st \<noteq> PORT_PIT_COUNTER0 then st else if tsc then tsctimer_setup diff st else st)"

definition pmtimer_setup :: "u16 \<Rightarrow> timer_state \<Rightarrow> timer_state" where
  "pmtimer_setup ioport st = st\<lparr>TimerPort := ioport, TimerKHz := DIV_ROUND_UP PMTIMER_HZ 1000\<rparr>"

definition timer_read :: "counters \<Rightarrow> timer_state \<Rightarrow> u32 \<times> timer_state" where
  "timer_read io st =
     (if TimerPort st = 0 then (ucast (drop_bit (unat (ShiftTSC st)) (in_tsc io)), st)
      else if TimerPort st \<noteq> PORT_PIT_COUNTER0 then timer_adjust_bits (in_pm io) 0xffffff st
      else timer_adjust_bits (ucast (in_pit io)) 0xffff st)"

definition timer_calc :: "counters \<Rightarrow> u32 \<Rightarrow> timer_state \<Rightarrow> u32 \<times> timer_state" where
  "timer_calc io msecs st = (let (now, st1) = timer_read io st in (now + TimerKHz st * msecs, st1))"

definition timer_calc_usec :: "counters \<Rightarrow> u32 \<Rightarrow> timer_state \<Rightarrow> u32 \<times> timer_state" where
  "timer_calc_usec io usecs st =
     (let (cur, st1) = timer_read io st; khz = TimerKHz st
      in if usecs > 500000 then (cur + DIV_ROUND_UP usecs 1000 * khz, st1)
         else (cur + DIV_ROUND_UP (usecs * khz) 1000, st1))"

definition timer_calc_nsec :: "counters \<Rightarrow> u32 \<Rightarrow> timer_state \<Rightarrow> u32 \<times> timer_state" where
  "timer_calc_nsec io nsecs st =
     (let (cur, st1) = timer_read io st; khz = TimerKHz st
      in if nsecs > 500000 then (cur + DIV_ROUND_UP nsecs 1000000 * khz, st1)
         else (cur + DIV_ROUND_UP (nsecs * khz) 1000000, st1))"

definition timer_check :: "counters \<Rightarrow> u32 \<Rightarrow> timer_state \<Rightarrow> bool \<times> timer_state" where
  "timer_check io lim st = (let (now, st1) = timer_read io st in (sint (now - lim) > 0, st1))"

definition ticks_to_ms :: "u32 \<Rightarrow> u32" where
  "ticks_to_ms ticks = (let t = PIT_TICK_INTERVAL * 1000 * PMTIMER_TO_PIT * ticks in DIV_ROUND_UP t PMTIMER_HZ)"

definition ticks_from_ms :: "u32 \<Rightarrow> u32" where
  "ticks_from_ms ms =
     (let t = (ucast (DIV_ROUND_UP (ucast ms * ucast PMTIMER_HZ :: u64) (ucast PIT_TICK_INTERVAL)) :: u32)
      in DIV_ROUND_UP t (1000 * PMTIMER_TO_PIT))"

section \<open>Counters of less than 32 bits\<close>

lemma splice_eq:
  fixes a b :: u32
  shows "(a AND NOT (mask k)) OR (b AND mask k) = a - take_bit k a + take_bit k b"
proof -
  have "(a AND NOT (mask k)) OR (a AND mask k) = (a AND NOT (mask k)) + (a AND mask k)"
    by (rule disjunctive_add [symmetric]) (simp add: bit_simps)
  moreover have "(a AND NOT (mask k)) OR (a AND mask k) = a"
    by (rule bit_word_eqI) (auto simp: bit_simps)
  ultimately have "a AND NOT (mask k) = a - take_bit k a"
    by (simp add: take_bit_eq_mask algebra_simps)
  moreover have "(a AND NOT (mask k)) OR (b AND mask k) = (a AND NOT (mask k)) + (b AND mask k)"
    by (rule disjunctive_add [symmetric]) (simp add: bit_simps)
  ultimately show ?thesis by (simp add: take_bit_eq_mask)
qed

lemma unat_take_bit: "unat (take_bit k (x :: u32)) = unat x mod 2 ^ k"
  by (simp add: unsigned_take_bit_eq flip: take_bit_eq_mod)

lemma splice_less:
  fixes a b :: u32
  assumes k: "k \<le> 32"
  shows "a - take_bit k a + take_bit k b < a \<longleftrightarrow> unat b mod 2 ^ k < unat a mod 2 ^ k"
proof -
  define Q where "Q = unat a div 2 ^ k"
  have a: "unat a = Q * 2 ^ k + unat a mod 2 ^ k"
    by (simp only: Q_def div_mult_mod_eq)
  have pow: "(2 :: nat) ^ 32 = 2 ^ (32 - k) * 2 ^ k" using k by (simp flip: power_add)
  have "unat a < 2 ^ (32 - k) * 2 ^ k" using unsigned_less [of a] by (simp flip: pow)
  then have "Q < 2 ^ (32 - k)" unfolding Q_def by (rule less_mult_imp_div_less)
  then have "Q * 2 ^ k + 2 ^ k \<le> 2 ^ (32 - k) * 2 ^ k"
    using mult_le_mono1 [of "Q + 1" "2 ^ (32 - k)" "2 ^ k"] by (simp only: add_mult_distrib) simp
  moreover have "unat b mod 2 ^ k < 2 ^ k" by simp
  ultimately have bound: "Q * 2 ^ k + unat b mod 2 ^ k < 2 ^ 32" unfolding pow by linarith
  have "take_bit k a \<le> a" by (simp add: word_le_nat_alt unat_take_bit)
  then have "unat (a - take_bit k a) = Q * 2 ^ k" using a by (simp add: unat_sub unat_take_bit)
  then have "unat (a - take_bit k a + take_bit k b) = Q * 2 ^ k + unat b mod 2 ^ k"
    using bound by (simp add: unat_word_ariths unat_take_bit)
  then show ?thesis using a unfolding word_less_nat_alt by linarith
qed

lemma window_split:
  fixes t0 t1 p :: nat
  assumes "t0 \<le> t1" "t1 < t0 + p"
  shows "t1 = t0 - t0 mod p + t1 mod p + (if t1 mod p < t0 mod p then p else 0)"
proof -
  define q0 r0 q1 r1 where "q0 = t0 div p" and "r0 = t0 mod p" and "q1 = t1 div p" and "r1 = t1 mod p"
  have parts: "t0 = q0 * p + r0" "t1 = q1 * p + r1"
    by (simp_all only: q0_def r0_def q1_def r1_def div_mult_mod_eq)
  have "q0 \<le> q1" using assms(1) unfolding q0_def q1_def by (rule div_le_mono)
  moreover have "q1 \<le> (t0 + p) div p" using assms(2) unfolding q1_def by (intro div_le_mono) simp
  moreover have "(t0 + p) div p = q0 + 1" using assms unfolding q0_def by (intro div_add_self2) auto
  ultimately consider "q1 = q0" | "q1 = q0 + 1" by linarith
  then show ?thesis unfolding r0_def [symmetric] r1_def [symmetric]
    using parts assms by cases (auto simp: algebra_simps)
qed

lemma take_bit_of_nat: "k \<le> 32 \<Longrightarrow> take_bit k (of_nat t :: u32) = of_nat (t mod 2 ^ k)"
  by (rule bit_word_eqI) (auto simp: bit_simps bit_of_nat_iff_bit simp flip: take_bit_eq_mod)

lemma unat_of_nat_mod: "k \<le> 32 \<Longrightarrow> unat (of_nat t :: u32) mod 2 ^ k = t mod 2 ^ k"
  by (simp add: unat_of_nat mod_mod_cancel le_imp_power_dvd del: power_numeral flip: power_numeral)

text \<open>A counter of \<open>k\<close> bits that is read before it comes round is extended to the count since power-on.\<close>

lemma timer_adjust_extends:
  assumes t: "t0 \<le> t1" "t1 < t0 + 2 ^ k" and k: "k \<le> 32"
    and last: "TimerLast st = of_nat t0" and v: "take_bit k v = take_bit k (of_nat t1)"
  shows "timer_adjust_bits v (mask k) st = (of_nat t1, st\<lparr>TimerLast := of_nat t1\<rparr>)"
proof -
  let ?p = "2 ^ k :: nat"
  define w where "w = (of_nat t0 - take_bit k (of_nat t0) + take_bit k (of_nat t1) :: u32)"
  have w: "w = of_nat (t0 - t0 mod ?p + t1 mod ?p)"
    using k by (simp only: w_def take_bit_of_nat of_nat_add of_nat_diff mod_less_eq_dividend)
  have less: "w < of_nat t0 \<longleftrightarrow> t1 mod ?p < t0 mod ?p"
    unfolding w_def using k by (simp add: splice_less unat_of_nat_mod)
  have "t1 = (t0 - t0 mod ?p + t1 mod ?p) + (if t1 mod ?p < t0 mod ?p then ?p else 0)"
    using t by (rule window_split)
  then have "(of_nat t1 :: u32) = of_nat ((t0 - t0 mod ?p + t1 mod ?p) + (if t1 mod ?p < t0 mod ?p then ?p else 0))"
    by (rule arg_cong)
  also have "\<dots> = w + (if t1 mod ?p < t0 mod ?p then 2 ^ k else 0)"
    unfolding w of_nat_add [of "t0 - t0 mod ?p + t1 mod ?p"] by (cases "t1 mod ?p < t0 mod ?p") simp_all
  finally have t1: "of_nat t1 = (if w < of_nat t0 then w + 2 ^ k else w)"
    unfolding less by (cases "t1 mod ?p < t0 mod ?p") simp_all
  have m: "mask k + 1 = (2 ^ k :: u32)" by (simp add: mask_eq_exp_minus_1)
  show ?thesis
    unfolding timer_adjust_bits_def Let_def last splice_eq v m w_def [symmetric] t1 [symmetric] by (rule refl)
qed

section \<open>Timeouts\<close>

text \<open>Whatever the timer counted before, a timeout fires exactly when the count went further than the
limit. The two readings are \<open>d\<close> apart and the limit is \<open>n\<close> after the first, both below half the range.\<close>

lemma signed_distance:
  fixes n d :: nat
  assumes "n < 2 ^ 31" "d < 2 ^ 31"
  shows "sint (of_nat (t + d) - (of_nat t + of_nat n) :: u32) > 0 \<longleftrightarrow> n < d"
proof -
  have "(of_nat (t + d) - (of_nat t + of_nat n) :: u32) = word_of_int (int d - int n)" by simp
  then have "sint (of_nat (t + d) - (of_nat t + of_nat n) :: u32) = signed_take_bit 31 (int d - int n)"
    by (simp only: signed_of_int) simp
  also have "\<dots> = int d - int n" using assms by (intro signed_take_bit_int_eq_self) auto
  finally show ?thesis by simp
qed

lemma scale_bound: "fst (tsc_scale t s) < 2 ^ 24"
  by (induction t s rule: tsc_scale.induct) (subst tsc_scale.simps, auto simp: not_le)

lemma tsctimer_khz: "TimerKHz (tsctimer_setup diff st) \<le> 5593"
proof -
  obtain t s where ts: "tsc_scale (DIV_ROUND_UP (diff * ucast PMTIMER_HZ) CALIBRATE_COUNT) (ShiftTSC st) = (t, s)"
    by fastforce
  have "fst (tsc_scale (DIV_ROUND_UP (diff * ucast PMTIMER_HZ) CALIBRATE_COUNT) (ShiftTSC st)) < 2 ^ 24"
    by (rule scale_bound)
  then have t: "unat t < 16777216" unfolding ts by (simp add: word_less_nat_alt)
  have u: "unat (ucast t :: u32) = unat t" using t by (simp add: unsigned_ucast_eq take_bit_nat_eq_self)
  then have "unat (ucast t + 3000 - 1 :: u32) = unat t + 2999"
    using t by (simp add: unat_word_ariths)
  then have "unat (DIV_ROUND_UP (ucast t) 3000 :: u32) = (unat t + 2999) div 3000"
    unfolding DIV_ROUND_UP_def by (simp only: unat_div) simp
  also have "\<dots> \<le> 5593" using t by linarith
  finally have "DIV_ROUND_UP (ucast t) 3000 \<le> (5593 :: u32)" by (simp add: word_le_nat_alt)
  moreover have "TimerKHz (tsctimer_setup diff st) = DIV_ROUND_UP (ucast t) 3000"
    by (simp only: tsctimer_setup_def ts PMTIMER_TO_PIT_def) simp
  ultimately show ?thesis by simp
qed

lemma DIV_ROUND_UP_unat:
  fixes n d :: u32
  assumes "unat n + unat d \<le> 2 ^ 32" "0 < d"
  shows "unat (DIV_ROUND_UP n d) = (unat n + unat d - 1) div unat d"
proof -
  have d: "0 < unat d" using assms(2) by (simp add: word_less_nat_alt)
  then have "unat (d - 1) = unat d - 1" by (simp add: unat_minus_one unat_gt_0)
  then have "unat (n + (d - 1)) = unat n + unat d - 1"
    using assms(1) d by (simp add: unat_word_ariths)
  then show ?thesis by (simp add: DIV_ROUND_UP_def unat_div add_diff_eq [symmetric])
qed

text \<open>No product of a timeout in microseconds overflows at a rate of at most 5593 kHz: the limit lies exactly
the rounded-up number of counts after the reading.\<close>

lemma usec_product:
  assumes "TimerKHz st \<le> 5593" "usecs \<le> 500000"
  shows "unat (usecs * TimerKHz st) = unat usecs * unat (TimerKHz st)"
    and "unat usecs * unat (TimerKHz st) \<le> 2796500000"
proof -
  have "unat (TimerKHz st) \<le> 5593" "unat usecs \<le> 500000" using assms by (simp_all add: word_le_nat_alt)
  from mult_le_mono [OF this(2,1)] show b: "unat usecs * unat (TimerKHz st) \<le> 2796500000" by simp
  then show "unat (usecs * TimerKHz st) = unat usecs * unat (TimerKHz st)" by (simp add: unat_word_ariths)
qed

lemma of_nat_unat_id: "of_nat (unat w) = w"
  by simp

lemma timer_calc_usec_counts:
  assumes "TimerKHz st \<le> 5593" "usecs \<le> 500000"
  shows "fst (timer_calc_usec io usecs st) =
         fst (timer_read io st) + of_nat ((unat usecs * unat (TimerKHz st) + 999) div 1000)"
proof -
  note p = usec_product [OF assms]
  have "unat (DIV_ROUND_UP (usecs * TimerKHz st) 1000) = (unat usecs * unat (TimerKHz st) + 999) div 1000"
    using p by (subst DIV_ROUND_UP_unat) simp_all
  then have "DIV_ROUND_UP (usecs * TimerKHz st) 1000 = of_nat ((unat usecs * unat (TimerKHz st) + 999) div 1000)"
    by (metis of_nat_unat_id)
  then show ?thesis using assms(2) by (simp add: timer_calc_usec_def split_beta Let_def not_less [symmetric])
qed

lemma timer_rates:
  "TimerKHz timer_init \<le> 5593" "TimerKHz (pmtimer_setup port st) \<le> 5593"
  "TimerKHz st \<le> 5593 \<Longrightarrow> TimerKHz (timer_setup tsc diff st) \<le> 5593"
  by (simp_all add: timer_init_def pmtimer_setup_def DIV_ROUND_UP_def PMTIMER_HZ_def timer_setup_def
        tsctimer_khz)

text \<open>The power management timer, of 24 bits, read at the counts \<open>t1\<close> and \<open>t2\<close>.\<close>

lemma timer_read_pm:
  assumes "TimerPort st \<noteq> 0" "TimerPort st \<noteq> PORT_PIT_COUNTER0"
    and "TimerLast st = of_nat t0" "t0 \<le> t1" "t1 < t0 + 2 ^ 24" "take_bit 24 (in_pm io) = take_bit 24 (of_nat t1)"
  shows "timer_read io st = (of_nat t1, st\<lparr>TimerLast := of_nat t1\<rparr>)"
proof -
  have "timer_read io st = timer_adjust_bits (in_pm io) (mask 24) st"
    using assms(1,2) by (simp add: timer_read_def mask_numeral)
  then show ?thesis using timer_adjust_extends [OF assms(4,5) _ assms(3,6)] by simp
qed

text \<open>
  A timeout of \<open>msecs\<close> milliseconds taken from the power management timer: however the 24 bit
counter and the 32 bit limit come round, the check fires exactly when more than the requested counts have gone
by, provided the counter is read at least once in each of its periods.\<close>

theorem timer_timeout:
  assumes port: "TimerPort st \<noteq> 0" "TimerPort st \<noteq> PORT_PIT_COUNTER0"
    and last: "TimerLast st = of_nat t0" and t1: "t0 \<le> t1" "t1 < t0 + 2 ^ 24" and t2: "t1 \<le> t2" "t2 < t1 + 2 ^ 24"
    and io1: "take_bit 24 (in_pm io1) = take_bit 24 (of_nat t1)"
    and io2: "take_bit 24 (in_pm io2) = take_bit 24 (of_nat t2)"
    and n: "unat (TimerKHz st) * unat msecs < 2 ^ 31"
    and calc: "timer_calc io1 msecs st = (lim, st1)"
  shows "fst (timer_check io2 lim st1) \<longleftrightarrow> unat (TimerKHz st) * unat msecs < t2 - t1"
proof -
  have r1: "timer_read io1 st = (of_nat t1, st\<lparr>TimerLast := of_nat t1\<rparr>)"
    using timer_read_pm [OF port last t1 io1] .
  have lim: "lim = of_nat t1 + of_nat (unat (TimerKHz st) * unat msecs)" and st1: "st1 = st\<lparr>TimerLast := of_nat t1\<rparr>"
    using calc by (auto simp: timer_calc_def r1)
  have "timer_read io2 st1 = (of_nat t2, st1\<lparr>TimerLast := of_nat t2\<rparr>)"
    using port t2 io2 by (intro timer_read_pm) (simp_all add: st1)
  then have "fst (timer_check io2 lim st1) \<longleftrightarrow> sint (of_nat (t1 + (t2 - t1)) - lim :: u32) > 0"
    using t2 by (simp add: timer_check_def)
  also have "\<dots> \<longleftrightarrow> unat (TimerKHz st) * unat msecs < t2 - t1"
    unfolding lim using n t2 by (intro signed_distance) auto
  finally show ?thesis .
qed

theorem timer_timeout_witness:
  "fst (timer_check \<lparr>in_tsc = 0, in_pm = 0x9b40, in_pit = 0\<rparr> 16812760
     \<lparr>TimerKHz = 3580, TimerPort = 0xb008, ShiftTSC = 0, TimerLast = 16776960\<rparr>)"
proof -
  have "fst (timer_check \<lparr>in_tsc = 0, in_pm = 0x9b40, in_pit = 0\<rparr> 16812760
      \<lparr>TimerKHz = 3580, TimerPort = 0xb008, ShiftTSC = 0, TimerLast = 16776960\<rparr>) \<longleftrightarrow>
      unat (3580 :: u32) * unat (10 :: u32) < (16816960 :: nat) - 16776960"
    using timer_timeout [where ?t0.0 = 16776957 and ?t1.0 = 16776960 and ?t2.0 = 16816960 and msecs = 10
        and ?io1.0 = "\<lparr>in_tsc = 0, in_pm = 0xffff00, in_pit = 0\<rparr>"
        and ?io2.0 = "\<lparr>in_tsc = 0, in_pm = 0x9b40, in_pit = 0\<rparr>" and lim = 16812760
        and st = "\<lparr>TimerKHz = 3580, TimerPort = 0xb008, ShiftTSC = 0, TimerLast = 16776957\<rparr>"
        and ?st1.0 = "\<lparr>TimerKHz = 3580, TimerPort = 0xb008, ShiftTSC = 0, TimerLast = 16776960\<rparr>"]
    by (simp add: PORT_PIT_COUNTER0_def timer_calc_def timer_read_def timer_adjust_bits_def take_bit_eq_mod)
  then show ?thesis by simp
qed

text \<open>The tick count of a time of day is truncated to 32 bits before the last division: at 22:00 it is near 0
and not near 22 hours of ticks.\<close>

lemma ticks_from_ms_wraps:
  "ticks_from_ms 78600000 = 1431032" "ticks_from_ms 79200000 = 10300"
  by (simp_all add: ticks_from_ms_def DIV_ROUND_UP_def PMTIMER_HZ_def PIT_TICK_INTERVAL_def PMTIMER_TO_PIT_def)

text \<open>The interval timer counts down; two readings 16 counts apart are taken for 65520 counts.\<close>

lemma pit_reading_jumps:
  "fst (timer_read (io\<lparr>in_pit := 0xfff0\<rparr>) timer_init) = 0xfff0"
  "fst (timer_read (io\<lparr>in_pit := 0xffe0\<rparr>) (timer_init\<lparr>TimerLast := 0xfff0\<rparr>)) = 0xfff0 + 65520"
  by (simp_all add: timer_read_def timer_init_def timer_adjust_bits_def PORT_PIT_COUNTER0_def)

end
