(* ===== verification/PciInit.thy ===== *)
theory PciInit
  imports Pci Timer
begin

text \<open>
  PCI initialisation on emulators, \<open>src/fw/pciinit.c\<close>: numbering of the buses, sizing of the base address
  registers (BARs), the sorted lists of regions each bus needs, the placement of the root regions below
  4 GB (moving 64-bit regions above it when they do not fit), the assignment of addresses, and the set-up
  of the platform and of each device. The hardware is the parameter \<open>pci_ops\<close> of \<open>Pci\<close>.

  The regions of the buses and the two local regions for 64-bit memory are kept in one map, so that a
  region that is updated while it is being walked is the same region. \<open>None\<close> is a panic, or fuel that has
  run out (the recursion over buses).
\<close>

definition PCI_DEVICE_MEM_MIN :: u64 where "PCI_DEVICE_MEM_MIN = 0x1000"
definition PCI_BRIDGE_MEM_MIN :: u64 where "PCI_BRIDGE_MEM_MIN = 0x200000"
definition PCI_BRIDGE_IO_MIN :: u64 where "PCI_BRIDGE_IO_MIN = 0x1000"
definition PCI_ROM_SLOT :: int where "PCI_ROM_SLOT = 6"
definition PCI_NUM_REGIONS :: nat where "PCI_NUM_REGIONS = 7"
definition PCI_BRIDGE_NUM_REGIONS :: int where "PCI_BRIDGE_NUM_REGIONS = 2"

datatype pci_region_type = PCI_REGION_TYPE_IO | PCI_REGION_TYPE_MEM | PCI_REGION_TYPE_PREFMEM

record pci_region_entry =
  re_ptr :: u32
  re_dev :: pcidev
  re_bar :: int
  re_size :: u64
  re_align :: u64
  re_is64 :: bool
  re_type :: pci_region_type

record pci_region =
  rg_base :: u64
  rg_list :: "pci_region_entry list"

text \<open>A region is one of a bus, or one of the local \<open>r64_mem\<close> and \<open>r64_pref\<close> of \<open>pci_bios_map_devices\<close>.\<close>

datatype region_id = BusRegion u8 pci_region_type | R64Mem | R64Pref

datatype irq_routing = DummyRouting | PiixRouting | MchRouting

record 'h pci_state =
  p_hw :: 'h
  p_fw :: fwstate
  PCIDevices :: "pcidev list"
  have_driver :: "u16 \<Rightarrow> bool"
  MaxPCIBus :: int
  regions :: "region_id \<Rightarrow> pci_region"
  bus_dev :: "u8 \<Rightarrow> pcidev option"
  pcimem_start :: u64
  pcimem_end :: u64
  pcimem64_start :: u64
  pcimem64_end :: u64
  pci_io_low_end :: u64
  pci_slot_get_irq :: irq_routing
  ICH9LpcBDF :: int
  PiixPmBDF :: int
  ICH9SmbusBDF :: int
  MCHMmcfgBDF :: int
  acpi_pm_base :: u16
  acpi_pm1a_cnt :: u32
  pm_timer :: timer_state
  RamSize :: u32
  RamSizeOver4G :: u64

definition region_upd :: "region_id \<Rightarrow> (pci_region \<Rightarrow> pci_region) \<Rightarrow> 'h pci_state \<Rightarrow> 'h pci_state" where
  "region_upd k f st = st\<lparr>regions := (regions st)(k := f (regions st k))\<rparr>"

abbreviation on_hw :: "('h \<Rightarrow> 'h) \<Rightarrow> 'h pci_state \<Rightarrow> 'h pci_state" where
  "on_hw f st \<equiv> st\<lparr>p_hw := f (p_hw st)\<rparr>"

section \<open>Base address registers\<close>

definition PCI_BASE_ADDRESS_0 :: u32 where "PCI_BASE_ADDRESS_0 = 0x10"
definition PCI_ROM_ADDRESS :: u32 where "PCI_ROM_ADDRESS = 0x30"
definition PCI_ROM_ADDRESS1 :: u32 where "PCI_ROM_ADDRESS1 = 0x38"
definition PCI_BASE_ADDRESS_SPACE_IO :: u32 where "PCI_BASE_ADDRESS_SPACE_IO = 0x01"
definition PCI_BASE_ADDRESS_MEM_TYPE_MASK :: u32 where "PCI_BASE_ADDRESS_MEM_TYPE_MASK = 0x06"
definition PCI_BASE_ADDRESS_MEM_TYPE_64 :: u32 where "PCI_BASE_ADDRESS_MEM_TYPE_64 = 0x04"
definition PCI_BASE_ADDRESS_MEM_PREFETCH :: u32 where "PCI_BASE_ADDRESS_MEM_PREFETCH = 0x08"
definition PCI_BASE_ADDRESS_MEM_MASK :: u32 where "PCI_BASE_ADDRESS_MEM_MASK = NOT 0x0f"
definition PCI_BASE_ADDRESS_IO_MASK :: u32 where "PCI_BASE_ADDRESS_IO_MASK = NOT 0x03"
definition PCI_ROM_ADDRESS_MASK :: u32 where "PCI_ROM_ADDRESS_MASK = NOT 0x7ff"

definition pci_bar :: "pcidev \<Rightarrow> int \<Rightarrow> u32" where
  "pci_bar pci region_num =
     (if region_num \<noteq> PCI_ROM_SLOT then PCI_BASE_ADDRESS_0 + word_of_int (region_num * 4)
      else if dev_header_type pci AND NOT 0x80 = PCI_HEADER_TYPE_BRIDGE then PCI_ROM_ADDRESS1
      else PCI_ROM_ADDRESS)"

definition pci_set_io_region_addr :: "'h pci_ops \<Rightarrow> pcidev \<Rightarrow> int \<Rightarrow> u64 \<Rightarrow> bool \<Rightarrow> 'h \<Rightarrow> 'h" where
  "pci_set_io_region_addr ops pci bar addr is64 h =
     (let ofs = pci_bar pci bar; h1 = pci_config_writel ops (dev_bdf pci) ofs (ucast addr) h
      in if is64 then pci_config_writel ops (dev_bdf pci) (ofs + 4) (ucast (drop_bit 32 addr)) h1 else h1)"

text \<open>The size of a BAR: type, size, whether it is a 64-bit BAR, and the hardware after the probing.\<close>

definition pci_bios_get_bar :: "'h pci_ops \<Rightarrow> pcidev \<Rightarrow> int \<Rightarrow> 'h \<Rightarrow> (pci_region_type \<times> u64 \<times> bool) \<times> 'h" where
  "pci_bios_get_bar ops pci bar h =
     (let ofs = pci_bar pci bar; bdf = dev_bdf pci; old = pci_config_readl ops bdf ofs h;
          (ty, mask32, is64, probe) =
            (if bar = PCI_ROM_SLOT then (PCI_REGION_TYPE_MEM, PCI_ROM_ADDRESS_MASK, False, PCI_ROM_ADDRESS_MASK)
             else if old AND PCI_BASE_ADDRESS_SPACE_IO \<noteq> 0 then (PCI_REGION_TYPE_IO, PCI_BASE_ADDRESS_IO_MASK, False, -1)
             else (if old AND PCI_BASE_ADDRESS_MEM_PREFETCH \<noteq> 0 then PCI_REGION_TYPE_PREFMEM else PCI_REGION_TYPE_MEM,
                   PCI_BASE_ADDRESS_MEM_MASK,
                   old AND PCI_BASE_ADDRESS_MEM_TYPE_MASK = PCI_BASE_ADDRESS_MEM_TYPE_64, -1));
          h1 = pci_config_writel ops bdf ofs probe h;
          val32 = pci_config_readl ops bdf ofs h1;
          h2 = pci_config_writel ops bdf ofs old h1
      in if is64 then
           let hold = pci_config_readl ops bdf (ofs + 4) h2;
               h3 = pci_config_writel ops bdf (ofs + 4) (-1) h2;
               high = pci_config_readl ops bdf (ofs + 4) h3;
               h4 = pci_config_writel ops bdf (ofs + 4) hold h3;
               val = (ucast val32 OR push_bit 32 (ucast high) :: u64);
               mask = (ucast mask32 OR push_bit 32 0xffffffff)
           in ((ty, NOT (val AND mask) + 1, True), h4)
         else ((ty, (NOT (ucast val32 AND ucast mask32) + 1) AND 0xffffffff, False), h2))"

section \<open>Regions\<close>

definition pci_region_align :: "pci_region_entry list \<Rightarrow> u64" where
  "pci_region_align es = (case es of [] \<Rightarrow> 1 | e # _ \<Rightarrow> re_align e)"

fun pci_region_sum :: "pci_region_entry list \<Rightarrow> u64" where
  "pci_region_sum [] = 0"
| "pci_region_sum (e # es) = re_size e + pci_region_sum es"

text \<open>The 64-bit entries except those of USB controllers, in their order; and those that stay.\<close>

definition PCI_CLASS_SERIAL_USB :: u16 where "PCI_CLASS_SERIAL_USB = 0x0c03"

definition migrates :: "pci_region_entry \<Rightarrow> bool" where
  "migrates e \<longleftrightarrow> re_is64 e \<and> dev_class (re_dev e) \<noteq> PCI_CLASS_SERIAL_USB"

definition pci_region_migrate_64bit_entries :: "region_id \<Rightarrow> region_id \<Rightarrow> 'h pci_state \<Rightarrow> 'h pci_state" where
  "pci_region_migrate_64bit_entries from_r to_r st =
     (let es = rg_list (regions st from_r);
          st1 = region_upd from_r (\<lambda>r. r\<lparr>rg_list := filter (\<lambda>e. \<not> migrates e) es\<rparr>) st
      in region_upd to_r (\<lambda>r. r\<lparr>rg_list := filter migrates es @ rg_list r\<rparr>) st1)"

definition sizeof_region_entry :: u32 where "sizeof_region_entry = 40"

text \<open>The break condition of the sorted insertion.\<close>

definition re_before :: "pci_region_entry \<Rightarrow> pci_region_entry \<Rightarrow> bool" where
  "re_before e pos \<longleftrightarrow> re_align pos < re_align e \<or> re_align pos = re_align e \<and> re_size pos < re_size e"

definition pci_region_create_entry ::
    "u8 \<Rightarrow> pcidev \<Rightarrow> int \<Rightarrow> u64 \<Rightarrow> u64 \<Rightarrow> pci_region_type \<Rightarrow> bool \<Rightarrow> 'h pci_state \<Rightarrow>
     'h pci_state \<times> pci_region_entry option" where
  "pci_region_create_entry bus dev bar sz align ty is64 st =
     (let (fw, p) = malloc_tmp sizeof_region_entry (p_fw st); st1 = st\<lparr>p_fw := fw\<rparr>
      in if p = 0 then (st1, None)
         else
           let e = \<lparr>re_ptr = p, re_dev = dev, re_bar = bar, re_size = sz, re_align = align, re_is64 = is64, re_type = ty\<rparr>
           in (region_upd (BusRegion bus ty) (\<lambda>r. r\<lparr>rg_list := hlist_insert (re_before e) e (rg_list r)\<rparr>) st1, Some e))"

section \<open>Bridges\<close>

definition PCI_CLASS_BRIDGE_PCI :: u16 where "PCI_CLASS_BRIDGE_PCI = 0x0604"
definition PCI_VENDOR_ID_REDHAT :: u16 where "PCI_VENDOR_ID_REDHAT = 0x1b36"
definition PCI_DEVICE_ID_REDHAT_ROOT_PORT :: u16 where "PCI_DEVICE_ID_REDHAT_ROOT_PORT = 0x000c"
definition PCI_DEVICE_ID_REDHAT_BRIDGE :: u16 where "PCI_DEVICE_ID_REDHAT_BRIDGE = 0x0001"
definition PCI_CAP_ID_VNDR :: u8 where "PCI_CAP_ID_VNDR = 0x09"
definition PCI_CAP_ID_SHPC :: u8 where "PCI_CAP_ID_SHPC = 0x0c"
definition PCI_CAP_ID_EXP :: u8 where "PCI_CAP_ID_EXP = 0x10"
definition PCI_CAP_FLAGS :: u32 where "PCI_CAP_FLAGS = 2"
definition PCI_CAP_REDHAT_TYPE_OFFSET :: u32 where "PCI_CAP_REDHAT_TYPE_OFFSET = 3"
definition REDHAT_CAP_RESOURCE_RESERVE :: u8 where "REDHAT_CAP_RESOURCE_RESERVE = 1"
definition RES_RESERVE_BUS_RES :: u32 where "RES_RESERVE_BUS_RES = 4"
definition RES_RESERVE_IO :: u32 where "RES_RESERVE_IO = 8"
definition RES_RESERVE_MEM :: u32 where "RES_RESERVE_MEM = 16"
definition RES_RESERVE_PREF_MEM_32 :: u32 where "RES_RESERVE_PREF_MEM_32 = 20"
definition RES_RESERVE_PREF_MEM_64 :: u32 where "RES_RESERVE_PREF_MEM_64 = 24"
definition RES_RESERVE_CAP_SIZE :: u8 where "RES_RESERVE_CAP_SIZE = 32"

text \<open>The search for the vendor capability that reserves resources. The outer loop has no bound of its own:
  it goes from one vendor capability to the next until the type is right or the list ends.\<close>

partial_function (option) reserve_cap_loop :: "'h pci_ops \<Rightarrow> u16 \<Rightarrow> 'h \<Rightarrow> u8 \<Rightarrow> u8 option" where
  "reserve_cap_loop ops bdf h cap =
     (let c = pci_find_capability ops bdf PCI_CAP_ID_VNDR cap h
      in if c \<noteq> 0 \<and> pci_config_readb ops bdf (ucast c + PCI_CAP_REDHAT_TYPE_OFFSET) h \<noteq> REDHAT_CAP_RESOURCE_RESERVE
         then reserve_cap_loop ops bdf h c else Some c)"

definition pci_find_resource_reserve_capability :: "'h pci_ops \<Rightarrow> u16 \<Rightarrow> 'h \<Rightarrow> u8 option" where
  "pci_find_resource_reserve_capability ops bdf h =
     (if pci_config_readw ops bdf PCI_VENDOR_ID h \<noteq> PCI_VENDOR_ID_REDHAT then Some 0
      else
        let device_id = pci_config_readw ops bdf PCI_DEVICE_ID h
        in if device_id \<noteq> PCI_DEVICE_ID_REDHAT_ROOT_PORT \<and> device_id \<noteq> PCI_DEVICE_ID_REDHAT_BRIDGE then Some 0
           else
             case reserve_cap_loop ops bdf h 0 of
               None \<Rightarrow> None
             | Some cap \<Rightarrow>
                 Some (if cap \<noteq> 0 \<and> pci_config_readb ops bdf (ucast cap + PCI_CAP_FLAGS) h < RES_RESERVE_CAP_SIZE
                       then 0 else cap))"

text \<open>The subordinate bus of a bridge: \<open>pci_bus\<close> is the highest bus found behind it and \<open>reserve\<close> the value
  of the capability, all ones for none.\<close>

definition reserved_bus :: "u8 \<Rightarrow> u8 \<Rightarrow> u32 \<Rightarrow> u8" where
  "reserved_bus secbus pci_bus tmp_res_bus =
     (if tmp_res_bus = -1 then pci_bus
      else
        let r0 = (ucast (tmp_res_bus AND 0xff) :: u8);
            r1 = (if r0 + secbus < secbus \<or> r0 + secbus < r0 then 0 else r0)
        in if unat secbus + unat r1 > unat pci_bus then secbus + r1 else r1)"

text \<open>The first pass over the bridges of a bus, which closes them.\<close>

definition close_bridge :: "'h pci_ops \<Rightarrow> u16 \<Rightarrow> 'h \<Rightarrow> 'h" where
  "close_bridge ops bdf h =
     (if pci_config_readw ops bdf PCI_CLASS_DEVICE h = PCI_CLASS_BRIDGE_PCI then
        pci_config_writeb ops bdf PCI_SUBORDINATE_BUS 0 (pci_config_writeb ops bdf PCI_SECONDARY_BUS 255 h)
      else h)"

text \<open>Bus numbering. \<open>n\<close> bounds the depth of the recursion into bridges; the state is the hardware and the
  last bus number given out.\<close>

fun pci_bios_init_bus_rec :: "nat \<Rightarrow> 'h pci_ops \<Rightarrow> u8 \<Rightarrow> 'h \<times> u8 \<Rightarrow> ('h \<times> u8) option" where
  "pci_bios_init_bus_rec 0 ops bus s = None"
| "pci_bios_init_bus_rec (Suc n) ops bus s =
     (case each_bdf ops fst (uint bus) (\<lambda>bdf (h, pb). Some (close_bridge ops bdf h, pb)) s of
        None \<Rightarrow> None
      | Some s1 \<Rightarrow>
          each_bdf ops fst (uint bus)
            (\<lambda>bdf (h, pb).
               if pci_config_readw ops bdf PCI_CLASS_DEVICE h \<noteq> PCI_CLASS_BRIDGE_PCI then Some (h, pb)
               else
                 let pribus = pci_config_readb ops bdf PCI_PRIMARY_BUS h;
                     h1 = (if pribus \<noteq> bus then pci_config_writeb ops bdf PCI_PRIMARY_BUS bus h else h);
                     secbus0 = pci_config_readb ops bdf PCI_SECONDARY_BUS h1;
                     secbus = pb + 1;
                     h2 = (if secbus \<noteq> secbus0 then pci_config_writeb ops bdf PCI_SECONDARY_BUS secbus h1 else h1);
                     subbus = pci_config_readb ops bdf PCI_SUBORDINATE_BUS h2;
                     h3 = pci_config_writeb ops bdf PCI_SUBORDINATE_BUS 255 h2
                 in case pci_bios_init_bus_rec n ops secbus (h3, secbus) of
                      None \<Rightarrow> None
                    | Some (h4, pb4) \<Rightarrow>
                        if subbus \<noteq> pb4 then
                          case pci_find_resource_reserve_capability ops bdf h4 of
                            None \<Rightarrow> None
                          | Some cap \<Rightarrow>
                              let res_bus = (if cap \<noteq> 0
                                    then reserved_bus secbus pb4 (pci_config_readl ops bdf (ucast cap + RES_RESERVE_BUS_RES) h4)
                                    else pb4)
                              in Some (pci_config_writeb ops bdf PCI_SUBORDINATE_BUS res_bus h4, res_bus)
                        else Some (pci_config_writeb ops bdf PCI_SUBORDINATE_BUS subbus h4, pb4))
            s1)"

text \<open>The extra root buses: \<open>m\<close> bounds the number of root buses visited (the bus number grows from one to
  the next, unless a reservation sets it back), \<open>n\<close> the depth of the recursion.\<close>

fun extra_roots_loop :: "nat \<Rightarrow> nat \<Rightarrow> 'h pci_ops \<Rightarrow> 'h \<times> u8 \<Rightarrow> ('h \<times> u8) option" where
  "extra_roots_loop 0 n ops s = None"
| "extra_roots_loop (Suc m) n ops s =
     (if snd s < 0xff then
        case pci_bios_init_bus_rec n ops (snd s + 1) (fst s, snd s + 1) of
          None \<Rightarrow> None | Some s' \<Rightarrow> extra_roots_loop m n ops s'
      else Some s)"

definition pci_bios_init_bus :: "nat \<Rightarrow> 'h pci_ops \<Rightarrow> 'h pci_state \<Rightarrow> 'h pci_state option" where
  "pci_bios_init_bus n ops st =
     (let (fw, extra) = romfile_loadint (bytes_of ''etc/extra-pci-roots'') 0 (p_fw st); extraroots = (ucast extra :: u8)
      in case pci_bios_init_bus_rec n ops 0 (p_hw st, 0) of
           None \<Rightarrow> None
         | Some s \<Rightarrow>
             (case (if extraroots \<noteq> 0 then extra_roots_loop n n ops s else Some s) of
                None \<Rightarrow> None
              | Some (h, _) \<Rightarrow> Some (st\<lparr>p_hw := h, p_fw := fw\<rparr>)))"

end
