(* ===== verification/PciMap.thy ===== *)
theory PciMap
  imports PciInit
begin

text \<open>
  The second half of \<open>src/fw/pciinit.c\<close>: what every bus needs (\<open>pci_bios_check_devices\<close>), where the root
  regions lie and which address each region entry gets (\<open>pci_bios_map_devices\<close>), interrupt routing, the
  set-up of the platform and of each device, and \<open>pci_setup\<close>, which composes the passes.
\<close>

definition PCI_IO_BASE :: u32 where "PCI_IO_BASE = 0x1c"
definition PCI_IO_LIMIT :: u32 where "PCI_IO_LIMIT = 0x1d"
definition PCI_MEMORY_BASE :: u32 where "PCI_MEMORY_BASE = 0x20"
definition PCI_MEMORY_LIMIT :: u32 where "PCI_MEMORY_LIMIT = 0x22"
definition PCI_PREF_MEMORY_BASE :: u32 where "PCI_PREF_MEMORY_BASE = 0x24"
definition PCI_PREF_MEMORY_LIMIT :: u32 where "PCI_PREF_MEMORY_LIMIT = 0x26"
definition PCI_PREF_BASE_UPPER32 :: u32 where "PCI_PREF_BASE_UPPER32 = 0x28"
definition PCI_PREF_LIMIT_UPPER32 :: u32 where "PCI_PREF_LIMIT_UPPER32 = 0x2c"
definition PCI_IO_BASE_UPPER16 :: u32 where "PCI_IO_BASE_UPPER16 = 0x30"
definition PCI_IO_LIMIT_UPPER16 :: u32 where "PCI_IO_LIMIT_UPPER16 = 0x32"
definition PCI_PREF_RANGE_TYPE_MASK :: u32 where "PCI_PREF_RANGE_TYPE_MASK = 0x0f"
definition PCI_PREF_RANGE_TYPE_64 :: u32 where "PCI_PREF_RANGE_TYPE_64 = 0x01"
definition PCI_INTERRUPT_LINE :: u32 where "PCI_INTERRUPT_LINE = 0x3c"
definition PCI_INTERRUPT_PIN :: u32 where "PCI_INTERRUPT_PIN = 0x3d"
definition PCI_BRIDGE_CONTROL :: u32 where "PCI_BRIDGE_CONTROL = 0x3e"
definition PCI_BRIDGE_CTL_SERR :: u16 where "PCI_BRIDGE_CTL_SERR = 0x02"
definition PCI_BRIDGE_CTL_VGA :: u16 where "PCI_BRIDGE_CTL_VGA = 0x08"
definition PCI_COMMAND_IO :: u16 where "PCI_COMMAND_IO = 0x1"
definition PCI_COMMAND_MEMORY :: u16 where "PCI_COMMAND_MEMORY = 0x2"
definition PCI_COMMAND_SERR :: u16 where "PCI_COMMAND_SERR = 0x100"
definition PCI_EXP_FLAGS :: u32 where "PCI_EXP_FLAGS = 2"
definition PCI_EXP_FLAGS_TYPE :: u16 where "PCI_EXP_FLAGS_TYPE = 0x00f0"
definition PCI_EXP_FLAGS_SLOT :: u16 where "PCI_EXP_FLAGS_SLOT = 0x0100"
definition PCI_EXP_TYPE_ROOT_PORT :: u16 where "PCI_EXP_TYPE_ROOT_PORT = 4"
definition PCI_EXP_TYPE_DOWNSTREAM :: u16 where "PCI_EXP_TYPE_DOWNSTREAM = 6"

section \<open>What every bus needs\<close>

definition pci_bios_bridge_region_is64 ::
    "'h pci_ops \<Rightarrow> pci_region_entry list \<Rightarrow> pcidev \<Rightarrow> pci_region_type \<Rightarrow> 'h \<Rightarrow> bool \<times> 'h" where
  "pci_bios_bridge_region_is64 ops es pci ty h =
     (if ty \<noteq> PCI_REGION_TYPE_PREFMEM then (False, h)
      else
        let bdf = dev_bdf pci; pmem0 = pci_config_readl ops bdf PCI_PREF_MEMORY_BASE h;
            (pmem, h1) = (if pmem0 = 0 then
                            let h' = pci_config_writel ops bdf PCI_PREF_MEMORY_BASE 0xfff0fff0 h
                            in (pci_config_readl ops bdf PCI_PREF_MEMORY_BASE h',
                                pci_config_writel ops bdf PCI_PREF_MEMORY_BASE 0 h')
                          else (pmem0, h))
        in (pmem AND PCI_PREF_RANGE_TYPE_MASK = PCI_PREF_RANGE_TYPE_64 \<and> (\<forall>e \<in> set es. re_is64 e), h1))"

definition pci_bus_hotplug_support :: "'h pci_ops \<Rightarrow> pcidev \<Rightarrow> u8 \<Rightarrow> 'h \<Rightarrow> bool" where
  "pci_bus_hotplug_support ops dev pcie_cap h =
     (if pcie_cap \<noteq> 0 then
        let flags = pci_config_readw ops (dev_bdf dev) (ucast pcie_cap + PCI_EXP_FLAGS) h;
            port_type = drop_bit 4 (flags AND PCI_EXP_FLAGS_TYPE)
        in (port_type = PCI_EXP_TYPE_DOWNSTREAM \<or> port_type = PCI_EXP_TYPE_ROOT_PORT) \<and> flags AND PCI_EXP_FLAGS_SLOT \<noteq> 0
      else pci_find_capability ops (dev_bdf dev) PCI_CAP_ID_SHPC 0 h \<noteq> 0)"

definition pci_bridge_has_region :: "'h pci_ops \<Rightarrow> pcidev \<Rightarrow> pci_region_type \<Rightarrow> 'h \<Rightarrow> bool \<times> 'h" where
  "pci_bridge_has_region ops pci ty h =
     (let probe = (\<lambda>base. let h1 = pci_config_writeb ops (dev_bdf pci) base 0xff h
                          in (pci_config_readb ops (dev_bdf pci) base h1 \<noteq> 0, h1))
      in case ty of PCI_REGION_TYPE_IO \<Rightarrow> probe PCI_IO_BASE
                  | PCI_REGION_TYPE_PREFMEM \<Rightarrow> probe PCI_PREF_MEMORY_BASE
                  | PCI_REGION_TYPE_MEM \<Rightarrow> (True, h))"

text \<open>The BARs of a device from \<open>i\<close> on; \<open>n\<close> is the number of regions at the start, which is enough since
  every step goes to a later one. The result is 0, or -1 when memory has run out.\<close>

fun check_bars :: "nat \<Rightarrow> 'h pci_ops \<Rightarrow> u8 \<Rightarrow> pcidev \<Rightarrow> int \<Rightarrow> 'h pci_state \<Rightarrow> 'h pci_state \<times> int" where
  "check_bars 0 ops bus pci i st = (st, 0)"
| "check_bars (Suc n) ops bus pci i st =
     (if i \<ge> int PCI_NUM_REGIONS then (st, 0)
      else if dev_class pci = PCI_CLASS_BRIDGE_PCI \<and> PCI_BRIDGE_NUM_REGIONS \<le> i \<and> i < PCI_ROM_SLOT
      then check_bars n ops bus pci (i + 1) st
      else
        let ((ty, sz, is64), h) = pci_bios_get_bar ops pci i (p_hw st); st1 = st\<lparr>p_hw := h\<rparr>
        in if sz = 0 then check_bars n ops bus pci (i + 1) st1
           else
             let sz1 = (if ty \<noteq> PCI_REGION_TYPE_IO \<and> sz < PCI_DEVICE_MEM_MIN then PCI_DEVICE_MEM_MIN else sz);
                 (st2, entry) = pci_region_create_entry bus pci i sz1 sz1 ty is64 st1
             in if entry = None then (st2, -1)
                else check_bars n ops bus pci (if is64 then i + 2 else i + 1) st2)"

definition check_device :: "'h pci_ops \<Rightarrow> pcidev \<Rightarrow> 'h pci_state \<Rightarrow> 'h pci_state \<times> int" where
  "check_device ops pci st =
     (let st1 = (if dev_class pci = PCI_CLASS_BRIDGE_PCI
                 then st\<lparr>bus_dev := (bus_dev st)(dev_secondary_bus pci := Some pci)\<rparr> else st);
          bus = pci_bdf_to_bus (dev_bdf pci)
      in check_bars PCI_NUM_REGIONS ops (if bus_dev st1 bus = None then 0 else bus) pci 0 st1)"

fun check_all :: "'h pci_ops \<Rightarrow> pcidev list \<Rightarrow> 'h pci_state \<Rightarrow> 'h pci_state \<times> int" where
  "check_all ops [] st = (st, 0)"
| "check_all ops (pci # devs) st =
     (let (st1, r) = check_device ops pci st in if r \<noteq> 0 then (st1, r) else check_all ops devs st1)"

text \<open>The size a bridge reserves through its capability, 0 for none.\<close>

definition readl64 :: "'h pci_ops \<Rightarrow> u16 \<Rightarrow> u32 \<Rightarrow> 'h \<Rightarrow> u64" where
  "readl64 ops bdf ofs h =
     ucast (pci_config_readl ops bdf ofs h) OR push_bit 32 (ucast (pci_config_readl ops bdf (ofs + 4) h))"

definition reserved_size :: "'h pci_ops \<Rightarrow> u16 \<Rightarrow> u8 \<Rightarrow> pci_region_type \<Rightarrow> 'h \<Rightarrow> u64" where
  "reserved_size ops bdf qemu_cap ty h =
     (if qemu_cap = 0 then 0
      else
        case ty of
          PCI_REGION_TYPE_IO \<Rightarrow>
            let tmp64 = readl64 ops bdf (ucast qemu_cap + RES_RESERVE_IO) h in if tmp64 \<noteq> -1 then tmp64 else 0
        | PCI_REGION_TYPE_MEM \<Rightarrow>
            let tmp = pci_config_readl ops bdf (ucast qemu_cap + RES_RESERVE_MEM) h in if tmp \<noteq> -1 then ucast tmp else 0
        | PCI_REGION_TYPE_PREFMEM \<Rightarrow>
            let tmp = pci_config_readl ops bdf (ucast qemu_cap + RES_RESERVE_PREF_MEM_32) h;
                tmp64 = readl64 ops bdf (ucast qemu_cap + RES_RESERVE_PREF_MEM_64) h
            in if tmp \<noteq> -1 \<and> tmp64 = -1 then ucast tmp else if tmp = -1 \<and> tmp64 \<noteq> -1 then tmp64 else 0)"

text \<open>Alignment and size of the region a bridge asks of its parent bus, from the entries behind it.\<close>

definition bridge_size :: "pci_region_entry list \<Rightarrow> pci_region_type \<Rightarrow> u64 \<Rightarrow> bool \<Rightarrow> bool \<Rightarrow> u64 \<times> u64" where
  "bridge_size es ty reserved hotplug pcie =
     (let align0 = (if ty = PCI_REGION_TYPE_IO then PCI_BRIDGE_IO_MIN else PCI_BRIDGE_MEM_MIN);
          align = (if pci_region_align es > align0 then pci_region_align es else align0);
          optional = (pcie \<and> ty = PCI_REGION_TYPE_IO);
          total = (if pci_region_sum es = 0 \<and> hotplug \<and> \<not> optional then align else pci_region_sum es);
          sz = (if reserved > total then (if ty \<noteq> PCI_REGION_TYPE_IO then ALIGN reserved align else reserved)
                else ALIGN total align)
      in (align, sz))"

text \<open>The region types of the bridge \<open>dev\<close> to bus \<open>s\<close>, which lies on bus \<open>parent\<close>.\<close>

fun propagate_types ::
    "'h pci_ops \<Rightarrow> u8 \<Rightarrow> pcidev \<Rightarrow> u8 \<Rightarrow> u8 \<Rightarrow> u8 \<Rightarrow> bool \<Rightarrow> pci_region_type list \<Rightarrow> 'h pci_state \<Rightarrow> 'h pci_state \<times> int" where
  "propagate_types ops s dev parent pcie_cap qemu_cap hotplug [] st = (st, 0)"
| "propagate_types ops s dev parent pcie_cap qemu_cap hotplug (ty # tys) st =
     (let (has, h1) = pci_bridge_has_region ops dev ty (p_hw st); st1 = st\<lparr>p_hw := h1\<rparr>
      in if \<not> has then propagate_types ops s dev parent pcie_cap qemu_cap hotplug tys st1
         else
           let es = rg_list (regions st1 (BusRegion s ty));
               (align, sz) = bridge_size es ty (reserved_size ops (dev_bdf dev) qemu_cap ty h1) hotplug (pcie_cap \<noteq> 0);
               (is64, h2) = pci_bios_bridge_region_is64 ops es dev ty h1;
               (st2, entry) = pci_region_create_entry parent dev (-1) sz align ty is64 (st1\<lparr>p_hw := h2\<rparr>)
           in if entry = None then (st2, -1)
              else propagate_types ops s dev parent pcie_cap qemu_cap hotplug tys st2)"

definition propagate_bus :: "'h pci_ops \<Rightarrow> u8 \<Rightarrow> pcidev \<Rightarrow> 'h pci_state \<Rightarrow> ('h pci_state \<times> int) option" where
  "propagate_bus ops s dev st =
     (let bdf = dev_bdf dev;
          parent = (if bus_dev st (pci_bdf_to_bus bdf) = None then 0 else pci_bdf_to_bus bdf);
          pcie_cap = pci_find_capability ops bdf PCI_CAP_ID_EXP 0 (p_hw st)
      in case pci_find_resource_reserve_capability ops bdf (p_hw st) of
           None \<Rightarrow> None
         | Some qemu_cap \<Rightarrow>
             Some (propagate_types ops s dev parent pcie_cap qemu_cap
                     (pci_bus_hotplug_support ops dev pcie_cap (p_hw st))
                     [PCI_REGION_TYPE_IO, PCI_REGION_TYPE_MEM, PCI_REGION_TYPE_PREFMEM] st))"

text \<open>The buses from \<open>n\<close> down to 1.\<close>

fun propagate :: "'h pci_ops \<Rightarrow> nat \<Rightarrow> 'h pci_state \<Rightarrow> ('h pci_state \<times> int) option" where
  "propagate ops 0 st = Some (st, 0)"
| "propagate ops (Suc n) st =
     (case bus_dev st (of_nat (Suc n)) of
        None \<Rightarrow> propagate ops n st
      | Some dev \<Rightarrow>
          (case propagate_bus ops (of_nat (Suc n)) dev st of
             None \<Rightarrow> None
           | Some (st1, r) \<Rightarrow> if r \<noteq> 0 then Some (st1, r) else propagate ops n st1))"

definition pci_bios_check_devices :: "'h pci_ops \<Rightarrow> 'h pci_state \<Rightarrow> ('h pci_state \<times> int) option" where
  "pci_bios_check_devices ops st =
     (let (st1, r) = check_all ops (PCIDevices st) st
      in if r \<noteq> 0 then Some (st1, r) else propagate ops (nat (MaxPCIBus st)) st1)"

section \<open>Addresses\<close>

abbreviation bus_list :: "'h pci_state \<Rightarrow> u8 \<Rightarrow> pci_region_type \<Rightarrow> pci_region_entry list" where
  "bus_list st bus ty \<equiv> rg_list (regions st (BusRegion bus ty))"

definition set_base :: "region_id \<Rightarrow> u64 \<Rightarrow> 'h pci_state \<Rightarrow> 'h pci_state" where
  "set_base k b st = region_upd k (\<lambda>r. r\<lparr>rg_base := b\<rparr>) st"

definition pci_bios_init_root_regions_io :: "'h pci_state \<Rightarrow> 'h pci_state \<times> int" where
  "pci_bios_init_root_regions_io st =
     (let total = pci_region_sum (bus_list st 0 PCI_REGION_TYPE_IO)
      in if total < 0x4000 then (set_base (BusRegion 0 PCI_REGION_TYPE_IO) 0xc000 st, 0)
         else if total < pci_io_low_end st - 0x1000 then (set_base (BusRegion 0 PCI_REGION_TYPE_IO) 0x1000 st, 0)
         else (st, -1))"

text \<open>The bases of the two regions below \<open>lim\<close>: the one placed last (lower), and the one placed first.\<close>

definition root_bases :: "u64 \<Rightarrow> pci_region_entry list \<Rightarrow> pci_region_entry list \<Rightarrow> u64 \<times> u64" where
  "root_bases lim r_start r_end =
     (let b_end = ALIGN_DOWN (lim - pci_region_sum r_end) (pci_region_align r_end);
          b_start = ALIGN_DOWN (b_end - pci_region_sum r_start) (pci_region_align r_start)
      in (b_start, b_end))"

definition pci_bios_init_root_regions_mem :: "'h pci_state \<Rightarrow> 'h pci_state \<times> int" where
  "pci_bios_init_root_regions_mem st =
     (let mem = bus_list st 0 PCI_REGION_TYPE_MEM; pref = bus_list st 0 PCI_REGION_TYPE_PREFMEM;
          (k_start, k_end) =
            (if pci_region_align mem < pci_region_align pref
             then (BusRegion 0 PCI_REGION_TYPE_PREFMEM, BusRegion 0 PCI_REGION_TYPE_MEM)
             else (BusRegion 0 PCI_REGION_TYPE_MEM, BusRegion 0 PCI_REGION_TYPE_PREFMEM));
          (b_start, b_end) = root_bases (pcimem_end st) (rg_list (regions st k_start)) (rg_list (regions st k_end));
          st1 = set_base k_start b_start (set_base k_end b_end st)
      in (st1, if b_start < pcimem_start st \<or> b_start > pcimem_end st then -1 else 0))"

definition PCI_IO_SHIFT :: nat where "PCI_IO_SHIFT = 8"
definition PCI_MEMORY_SHIFT :: nat where "PCI_MEMORY_SHIFT = 16"
definition PCI_PREF_MEMORY_SHIFT :: nat where "PCI_PREF_MEMORY_SHIFT = 16"

definition pci_region_map_one_entry :: "'h pci_ops \<Rightarrow> pci_region_entry \<Rightarrow> u64 \<Rightarrow> 'h \<Rightarrow> 'h" where
  "pci_region_map_one_entry ops entry addr h =
     (if re_bar entry \<ge> 0 then pci_set_io_region_addr ops (re_dev entry) (re_bar entry) addr (re_is64 entry) h
      else
        let bdf = dev_bdf (re_dev entry); limit = addr + re_size entry - 1
        in case re_type entry of
             PCI_REGION_TYPE_IO \<Rightarrow>
               pci_config_writew ops bdf PCI_IO_LIMIT_UPPER16 0
                 (pci_config_writeb ops bdf PCI_IO_LIMIT (ucast (drop_bit PCI_IO_SHIFT limit))
                   (pci_config_writew ops bdf PCI_IO_BASE_UPPER16 0
                     (pci_config_writeb ops bdf PCI_IO_BASE (ucast (drop_bit PCI_IO_SHIFT addr)) h)))
           | PCI_REGION_TYPE_MEM \<Rightarrow>
               pci_config_writew ops bdf PCI_MEMORY_LIMIT (ucast (drop_bit PCI_MEMORY_SHIFT limit))
                 (pci_config_writew ops bdf PCI_MEMORY_BASE (ucast (drop_bit PCI_MEMORY_SHIFT addr)) h)
           | PCI_REGION_TYPE_PREFMEM \<Rightarrow>
               pci_config_writel ops bdf PCI_PREF_LIMIT_UPPER32 (ucast (drop_bit 32 limit))
                 (pci_config_writel ops bdf PCI_PREF_BASE_UPPER32 (ucast (drop_bit 32 addr))
                   (pci_config_writew ops bdf PCI_PREF_MEMORY_LIMIT (ucast (drop_bit PCI_PREF_MEMORY_SHIFT limit))
                     (pci_config_writew ops bdf PCI_PREF_MEMORY_BASE (ucast (drop_bit PCI_PREF_MEMORY_SHIFT addr)) h))))"

text \<open>The entries still in the region are the list argument, which the region holds too.\<close>

fun map_entries_loop :: "'h pci_ops \<Rightarrow> region_id \<Rightarrow> pci_region_entry list \<Rightarrow> 'h pci_state \<Rightarrow> 'h pci_state" where
  "map_entries_loop ops r [] st = st"
| "map_entries_loop ops r (entry # es) st =
     (let addr = rg_base (regions st r);
          st1 = set_base r (addr + re_size entry) st;
          st2 = (if re_bar entry = -1
                 then set_base (BusRegion (dev_secondary_bus (re_dev entry)) (re_type entry)) addr st1 else st1);
          st3 = on_hw (pci_region_map_one_entry ops entry addr) st2;
          st4 = region_upd r (\<lambda>g. g\<lparr>rg_list := es\<rparr>) st3
      in map_entries_loop ops r es (st4\<lparr>p_fw := free (re_ptr entry) (p_fw st4)\<rparr>))"

definition pci_region_map_entries :: "'h pci_ops \<Rightarrow> region_id \<Rightarrow> 'h pci_state \<Rightarrow> 'h pci_state" where
  "pci_region_map_entries ops r st = map_entries_loop ops r (rg_list (regions st r)) st"

text \<open>The placement of the 64-bit regions above all memory: the bases of \<open>r64_mem\<close> and \<open>r64_pref\<close>, and
  the end of the window.\<close>

definition place_64bit :: "u64 \<Rightarrow> u64 \<Rightarrow> pci_region_entry list \<Rightarrow> pci_region_entry list \<Rightarrow> u64 \<times> u64 \<times> u64" where
  "place_64bit reserved_end over4g mem pref =
     (let b0 = (if reserved_end < 0x100000000 + over4g then 0x100000000 + over4g else reserved_end);
          b_mem = ALIGN (ALIGN b0 (pci_region_align mem)) (2 ^ 30);
          b_pref = ALIGN (ALIGN (b_mem + pci_region_sum mem) (pci_region_align pref)) (2 ^ 30)
      in (b_mem, b_pref, ALIGN (b_pref + pci_region_sum pref) (2 ^ 30)))"

definition map_64bit :: "'h pci_ops \<Rightarrow> 'h pci_state \<Rightarrow> 'h pci_state" where
  "map_64bit ops st =
     (let (fw, reserved_end) = romfile_loadint (bytes_of ''etc/reserved-memory-end'') 0 (p_fw st);
          (b_mem, b_pref, hi) = place_64bit reserved_end (RamSizeOver4G st)
                                   (rg_list (regions st R64Mem)) (rg_list (regions st R64Pref));
          st1 = set_base R64Pref b_pref (set_base R64Mem b_mem (st\<lparr>p_fw := fw\<rparr>));
          st2 = st1\<lparr>pcimem64_start := b_mem, pcimem64_end := hi\<rparr>
      in pci_region_map_entries ops R64Pref (pci_region_map_entries ops R64Mem st2))"

definition map_bus :: "'h pci_ops \<Rightarrow> u8 \<Rightarrow> 'h pci_state \<Rightarrow> 'h pci_state" where
  "map_bus ops bus st =
     fold (\<lambda>ty. pci_region_map_entries ops (BusRegion bus ty))
       [PCI_REGION_TYPE_IO, PCI_REGION_TYPE_MEM, PCI_REGION_TYPE_PREFMEM] st"

definition pci_bios_map_devices :: "'h pci_ops \<Rightarrow> 'h pci_state \<Rightarrow> 'h pci_state option" where
  "pci_bios_map_devices ops st =
     (let (st1, r) = pci_bios_init_root_regions_io st
      in if r \<noteq> 0 then None
         else
           let (st2, r2) = pci_bios_init_root_regions_mem st1;
               placed =
                 (if r2 \<noteq> 0 then
                    let st3 = region_upd R64Pref (\<lambda>g. g\<lparr>rg_list := []\<rparr>) (region_upd R64Mem (\<lambda>g. g\<lparr>rg_list := []\<rparr>) st2);
                        st4 = pci_region_migrate_64bit_entries (BusRegion 0 PCI_REGION_TYPE_MEM) R64Mem st3;
                        st5 = pci_region_migrate_64bit_entries (BusRegion 0 PCI_REGION_TYPE_PREFMEM) R64Pref st4;
                        (st6, r6) = pci_bios_init_root_regions_mem st5
                    in if r6 \<noteq> 0 then None else Some (map_64bit ops st6)
                  else Some (st2\<lparr>pcimem64_start := 0\<rparr>))
           in case placed of
                None \<Rightarrow> None
              | Some st7 \<Rightarrow> Some (fold (\<lambda>b. map_bus ops (of_nat b)) [0..<nat (MaxPCIBus st7 + 1)] st7))"

end
