(* ===== verification/PciSetup.thy ===== *)
theory PciSetup
  imports PciMap
begin

text \<open>
  The devices of the emulated platforms in \<open>src/fw/pciinit.c\<close>: interrupt routing, the set-up functions
  and the tables that select them, the primary VGA, the resume path, and \<open>pci_setup\<close>. The power
  management timer of \<open>src/hw/timer.c\<close> is set up here and its port kept in the state.
\<close>

section \<open>Interrupt routing\<close>

definition pci_irqs :: "u8 list" where "pci_irqs = [10, 10, 11, 11]"

definition dummy_pci_slot_get_irq :: "pcidev \<Rightarrow> int \<Rightarrow> int" where "dummy_pci_slot_get_irq pci pin = 0xff"

text \<open>The walk to the root bus: the sum of the device numbers below it, and the device on the root bus.\<close>

fun walk_up :: "pcidev \<Rightarrow> int \<Rightarrow> int \<times> pcidev" where
  "walk_up (PciDev bdf rb None v d c p rv ht sb) acc = (acc, PciDev bdf rb None v d c p rv ht sb)"
| "walk_up (PciDev bdf rb (Some up) v d c p rv ht sb) acc = walk_up up (acc + uint (pci_bdf_to_dev bdf))"

definition piix_pci_slot_get_irq :: "pcidev \<Rightarrow> int \<Rightarrow> int" where
  "piix_pci_slot_get_irq pci pin =
     (let (a, root) = walk_up pci 0; slot_addend = a + (uint (pci_bdf_to_dev (dev_bdf root)) - 1)
      in uint (pci_irqs ! nat ((pin - 1 + slot_addend) AND 3)))"

definition mch_pci_slot_get_irq :: "pcidev \<Rightarrow> int \<Rightarrow> int" where
  "mch_pci_slot_get_irq pci pin =
     (let (pin_addend, root) = walk_up pci 0; slot = pci_bdf_to_dev (dev_bdf root)
      in if slot \<le> 24 then uint (pci_irqs ! nat ((pin - 1 + pin_addend + uint slot) AND 3))
         else uint (pci_irqs ! nat ((pin - 1 + pin_addend) AND 3)))"

definition slot_get_irq :: "irq_routing \<Rightarrow> pcidev \<Rightarrow> int \<Rightarrow> int" where
  "slot_get_irq r = (case r of DummyRouting \<Rightarrow> dummy_pci_slot_get_irq | PiixRouting \<Rightarrow> piix_pci_slot_get_irq
                             | MchRouting \<Rightarrow> mch_pci_slot_get_irq)"

section \<open>Set-up functions\<close>

definition PIIX_PMBASE :: u32 where "PIIX_PMBASE = 0x40"
definition PIIX_PMREGMISC :: u32 where "PIIX_PMREGMISC = 0x80"
definition PIIX_SMBHSTBASE :: u32 where "PIIX_SMBHSTBASE = 0x90"
definition PIIX_SMBHSTCFG :: u32 where "PIIX_SMBHSTCFG = 0xd2"
definition PIIX_PORT_ELCR1 :: u16 where "PIIX_PORT_ELCR1 = 0x4d0"
definition PIIX_PORT_ELCR2 :: u16 where "PIIX_PORT_ELCR2 = 0x4d1"
definition ICH9_LPC_PMBASE :: u32 where "ICH9_LPC_PMBASE = 0x40"
definition ICH9_LPC_PMBASE_RTE :: u32 where "ICH9_LPC_PMBASE_RTE = 0x1"
definition ICH9_LPC_ACPI_CTRL :: u32 where "ICH9_LPC_ACPI_CTRL = 0x44"
definition ICH9_LPC_ACPI_CTRL_ACPI_EN :: u8 where "ICH9_LPC_ACPI_CTRL_ACPI_EN = 0x80"
definition ICH9_LPC_PIRQA_ROUT :: u32 where "ICH9_LPC_PIRQA_ROUT = 0x60"
definition ICH9_LPC_PIRQE_ROUT :: u32 where "ICH9_LPC_PIRQE_ROUT = 0x68"
definition ICH9_LPC_PORT_ELCR1 :: u16 where "ICH9_LPC_PORT_ELCR1 = 0x4d0"
definition ICH9_LPC_PORT_ELCR2 :: u16 where "ICH9_LPC_PORT_ELCR2 = 0x4d1"
definition ICH9_LPC_RCBA :: u32 where "ICH9_LPC_RCBA = 0xf0"
definition ICH9_LPC_RCBA_ADDR :: u32 where "ICH9_LPC_RCBA_ADDR = 0xfed1c000"
definition ICH9_LPC_RCBA_EN :: u32 where "ICH9_LPC_RCBA_EN = 0x1"
definition ICH9_SMB_SMB_BASE :: u32 where "ICH9_SMB_SMB_BASE = 0x20"
definition ICH9_SMB_HOSTC :: u32 where "ICH9_SMB_HOSTC = 0x40"
definition ICH9_SMB_HOSTC_HST_EN :: u8 where "ICH9_SMB_HOSTC_HST_EN = 0x01"
definition Q35_HOST_BRIDGE_PCIEXBAR :: u32 where "Q35_HOST_BRIDGE_PCIEXBAR = 0x60"
definition Q35_HOST_BRIDGE_PCIEXBAR_SIZE :: u32 where "Q35_HOST_BRIDGE_PCIEXBAR_SIZE = 0x10000000"
definition Q35_HOST_BRIDGE_PCIEXBAR_ADDR :: u64 where "Q35_HOST_BRIDGE_PCIEXBAR_ADDR = 0xb0000000"
definition Q35_HOST_BRIDGE_PCIEXBAREN :: u64 where "Q35_HOST_BRIDGE_PCIEXBAREN = 1"
definition PORT_ATA1_CMD_BASE :: u64 where "PORT_ATA1_CMD_BASE = 0x01f0"
definition PORT_ATA2_CMD_BASE :: u64 where "PORT_ATA2_CMD_BASE = 0x0170"
definition PORT_ATA1_CTRL_BASE :: u64 where "PORT_ATA1_CTRL_BASE = 0x03f4"
definition PORT_ATA2_CTRL_BASE :: u64 where "PORT_ATA2_CTRL_BASE = 0x0374"
definition e820_add_to :: "u64 \<Rightarrow> u64 \<Rightarrow> u32 \<Rightarrow> 'h pci_state \<Rightarrow> 'h pci_state" where
  "e820_add_to start len ty st =
     st\<lparr>p_fw := (p_fw st)\<lparr>r_ms := e820_update (e820_add start len ty) (r_ms (p_fw st))\<rparr>\<rparr>"

definition elcr_add :: "u8 \<Rightarrow> u8 list \<Rightarrow> u8 list" where
  "elcr_add irq elcr =
     elcr[unat (drop_bit 3 irq) := elcr ! unat (drop_bit 3 irq) OR push_bit (unat (irq AND 7)) 1]"

definition elcr_all :: "u8 list" where "elcr_all = fold elcr_add pci_irqs [0, 0]"

definition piix_isa_bridge_setup :: "'h pci_ops \<Rightarrow> pcidev \<Rightarrow> 'h pci_state \<Rightarrow> 'h pci_state" where
  "piix_isa_bridge_setup ops pci st =
     (let h = fold (\<lambda>i. pci_config_writeb ops (dev_bdf pci) (0x60 + of_nat i) (pci_irqs ! i)) [0..<4] (p_hw st)
      in st\<lparr>p_hw := hw_outb ops (elcr_all ! 1) PIIX_PORT_ELCR2 (hw_outb ops (elcr_all ! 0) PIIX_PORT_ELCR1 h)\<rparr>)"

definition mch_isa_lpc_setup :: "'h pci_ops \<Rightarrow> u16 \<Rightarrow> 'h pci_state \<Rightarrow> 'h pci_state" where
  "mch_isa_lpc_setup ops bdf st =
     on_hw (\<lambda>h. pci_config_writel ops bdf ICH9_LPC_RCBA (ICH9_LPC_RCBA_ADDR OR ICH9_LPC_RCBA_EN)
              (pci_config_writeb ops bdf ICH9_LPC_ACPI_CTRL ICH9_LPC_ACPI_CTRL_ACPI_EN
                (pci_config_writel ops bdf ICH9_LPC_PMBASE (ucast (acpi_pm_base st) OR ICH9_LPC_PMBASE_RTE) h))) st"

definition pm_block :: "'h pci_state \<Rightarrow> 'h pci_state" where
  "pm_block st = st\<lparr>acpi_pm1a_cnt := ucast (acpi_pm_base st) + 0x04,
     pm_timer := pmtimer_setup (acpi_pm_base st + 0x08) (pm_timer st)\<rparr>"

definition mch_isa_bridge_setup :: "'h pci_ops \<Rightarrow> pcidev \<Rightarrow> 'h pci_state \<Rightarrow> 'h pci_state" where
  "mch_isa_bridge_setup ops dev st =
     (let bdf = dev_bdf dev;
          h = fold (\<lambda>i h. pci_config_writeb ops bdf (ICH9_LPC_PIRQE_ROUT + of_nat i) (pci_irqs ! i)
                            (pci_config_writeb ops bdf (ICH9_LPC_PIRQA_ROUT + of_nat i) (pci_irqs ! i) h)) [0..<4] (p_hw st);
          h1 = hw_outb ops (elcr_all ! 1) ICH9_LPC_PORT_ELCR2 (hw_outb ops (elcr_all ! 0) ICH9_LPC_PORT_ELCR1 h);
          st1 = mch_isa_lpc_setup ops bdf (st\<lparr>p_hw := h1, ICH9LpcBDF := uint bdf\<rparr>)
      in pm_block (e820_add_to (ucast ICH9_LPC_RCBA_ADDR) (16 * 1024) E820_RESERVED st1))"

definition storage_ide_setup :: "'h pci_ops \<Rightarrow> pcidev \<Rightarrow> 'h pci_state \<Rightarrow> 'h pci_state" where
  "storage_ide_setup ops pci st =
     on_hw (\<lambda>h. pci_set_io_region_addr ops pci 3 PORT_ATA2_CTRL_BASE False
              (pci_set_io_region_addr ops pci 2 PORT_ATA2_CMD_BASE False
                (pci_set_io_region_addr ops pci 1 PORT_ATA1_CTRL_BASE False
                  (pci_set_io_region_addr ops pci 0 PORT_ATA1_CMD_BASE False h)))) st"

definition piix_ide_setup :: "'h pci_ops \<Rightarrow> pcidev \<Rightarrow> 'h pci_state \<Rightarrow> 'h pci_state" where
  "piix_ide_setup ops pci st =
     on_hw (\<lambda>h. pci_config_writew ops (dev_bdf pci) 0x42 0x8000 (pci_config_writew ops (dev_bdf pci) 0x40 0x8000 h)) st"

definition pic_ibm_setup :: "'h pci_ops \<Rightarrow> pcidev \<Rightarrow> 'h pci_state \<Rightarrow> 'h pci_state" where
  "pic_ibm_setup ops pci st = on_hw (pci_set_io_region_addr ops pci 0 (0x80800000 + 0x00040000) False) st"

definition apple_macio_setup :: "'h pci_ops \<Rightarrow> pcidev \<Rightarrow> 'h pci_state \<Rightarrow> 'h pci_state" where
  "apple_macio_setup ops pci st = on_hw (pci_set_io_region_addr ops pci 0 0x80800000 False) st"

definition piix4_pm_config_setup :: "'h pci_ops \<Rightarrow> u16 \<Rightarrow> 'h pci_state \<Rightarrow> 'h pci_state" where
  "piix4_pm_config_setup ops bdf st =
     (let base = (ucast (acpi_pm_base st) :: u32)
      in on_hw (\<lambda>h. pci_config_writeb ops bdf PIIX_SMBHSTCFG 0x09
                  (pci_config_writel ops bdf PIIX_SMBHSTBASE ((base + 0x100) OR 1)
                    (pci_config_writeb ops bdf PIIX_PMREGMISC 0x01
                      (pci_config_writel ops bdf PIIX_PMBASE (base OR 1)
                        (pci_config_writeb ops bdf PCI_INTERRUPT_LINE 9 h))))) st)"

definition piix4_pm_setup :: "'h pci_ops \<Rightarrow> pcidev \<Rightarrow> 'h pci_state \<Rightarrow> 'h pci_state" where
  "piix4_pm_setup ops pci st =
     pm_block (piix4_pm_config_setup ops (dev_bdf pci) (st\<lparr>PiixPmBDF := uint (dev_bdf pci)\<rparr>))"

definition ich9_smbus_enable :: "'h pci_ops \<Rightarrow> u16 \<Rightarrow> 'h pci_state \<Rightarrow> 'h pci_state" where
  "ich9_smbus_enable ops bdf st =
     on_hw (\<lambda>h. pci_config_writeb ops bdf ICH9_SMB_HOSTC ICH9_SMB_HOSTC_HST_EN
              (pci_config_writel ops bdf ICH9_SMB_SMB_BASE
                ((ucast (acpi_pm_base st) + 0x100) OR PCI_BASE_ADDRESS_SPACE_IO) h)) st"

definition ich9_smbus_setup :: "'h pci_ops \<Rightarrow> pcidev \<Rightarrow> 'h pci_state \<Rightarrow> 'h pci_state" where
  "ich9_smbus_setup ops dev st = ich9_smbus_enable ops (dev_bdf dev) (st\<lparr>ICH9SmbusBDF := uint (dev_bdf dev)\<rparr>)"

text \<open>The Intel graphics OpRegion: copied into permanent high memory; the flag is whether the set-up goes
  on (it ends when memory runs out or the copy fails).\<close>

definition igd_opregion :: "'h pci_ops \<Rightarrow> pcidev \<Rightarrow> romfile_s option \<Rightarrow> 'h pci_state \<Rightarrow> bool \<times> 'h pci_state" where
  "igd_opregion ops dev opregion st =
     (case opregion of
        None \<Rightarrow> (True, st)
      | Some f \<Rightarrow>
          if rf_size f = 0 then (True, st)
          else
            let (fw1, addr) = fw_alloc ZoneHigh (rf_size f) PAGE_SIZE (p_fw st)
            in if addr = 0 then (False, st\<lparr>p_fw := fw1\<rparr>)
               else
                 let (ret, fw2) = file_copy f addr (rf_size f) fw1
                 in if ret < 0 then (False, st\<lparr>p_fw := free addr fw2\<rparr>)
                    else (True, st\<lparr>p_fw := fw2, p_hw := pci_config_writel ops (dev_bdf dev) 0xfc addr (p_hw st)\<rparr>))"

definition igd_bdsm :: "'h pci_ops \<Rightarrow> pcidev \<Rightarrow> u64 \<Rightarrow> 'h pci_state \<Rightarrow> 'h pci_state" where
  "igd_bdsm ops dev bdsm_size st =
     (if bdsm_size \<noteq> 0 \<and> dev_bdf dev = push_bit 3 2 then
        let (fw, addr) = fw_alloc ZoneTmpHigh (ucast bdsm_size) (1024 * 1024) (p_fw st); st1 = st\<lparr>p_fw := fw\<rparr>
        in if addr = 0 then st1
           else on_hw (pci_config_writel ops (dev_bdf dev) 0x5c addr)
                  (e820_add_to (ucast addr) bdsm_size E820_RESERVED st1)
      else st)"

definition intel_igd_setup :: "'h pci_ops \<Rightarrow> pcidev \<Rightarrow> 'h pci_state \<Rightarrow> 'h pci_state" where
  "intel_igd_setup ops dev st =
     (let opregion = romfile_find (bytes_of ''etc/igd-opregion'') (p_fw st);
          (fw, bdsm_size) = romfile_loadint (bytes_of ''etc/igd-bdsm-size'') 0 (p_fw st);
          (go_on, st1) = igd_opregion ops dev opregion (st\<lparr>p_fw := fw\<rparr>)
      in if go_on then igd_bdsm ops dev bdsm_size st1 else st1)"

section \<open>Tables\<close>

definition PCI_VENDOR_ID_INTEL :: u16 where "PCI_VENDOR_ID_INTEL = 0x8086"
definition PCI_VENDOR_ID_IBM :: u16 where "PCI_VENDOR_ID_IBM = 0x1014"
definition PCI_VENDOR_ID_APPLE :: u16 where "PCI_VENDOR_ID_APPLE = 0x106b"
definition PCI_DEVICE_ID_INTEL_82371SB_0 :: u16 where "PCI_DEVICE_ID_INTEL_82371SB_0 = 0x7000"
definition PCI_DEVICE_ID_INTEL_82371SB_1 :: u16 where "PCI_DEVICE_ID_INTEL_82371SB_1 = 0x7010"
definition PCI_DEVICE_ID_INTEL_82371AB_0 :: u16 where "PCI_DEVICE_ID_INTEL_82371AB_0 = 0x7110"
definition PCI_DEVICE_ID_INTEL_82371AB :: u16 where "PCI_DEVICE_ID_INTEL_82371AB = 0x7111"
definition PCI_DEVICE_ID_INTEL_82371AB_3 :: u16 where "PCI_DEVICE_ID_INTEL_82371AB_3 = 0x7113"
definition PCI_DEVICE_ID_INTEL_82441 :: u16 where "PCI_DEVICE_ID_INTEL_82441 = 0x1237"
definition PCI_DEVICE_ID_INTEL_Q35_MCH :: u16 where "PCI_DEVICE_ID_INTEL_Q35_MCH = 0x29c0"
definition PCI_DEVICE_ID_INTEL_ICH9_LPC :: u16 where "PCI_DEVICE_ID_INTEL_ICH9_LPC = 0x2918"
definition PCI_DEVICE_ID_INTEL_ICH9_SMBUS :: u16 where "PCI_DEVICE_ID_INTEL_ICH9_SMBUS = 0x2930"
definition PCI_CLASS_STORAGE_IDE :: u16 where "PCI_CLASS_STORAGE_IDE = 0x0101"
definition PCI_CLASS_SYSTEM_PIC :: u16 where "PCI_CLASS_SYSTEM_PIC = 0x0800"
definition PCI_CLASS_DISPLAY_VGA :: u16 where "PCI_CLASS_DISPLAY_VGA = 0x0300"

abbreviation PCI_DEVICE :: "u16 \<Rightarrow> u16 \<Rightarrow> 'f \<Rightarrow> 'f pci_id" where
  "PCI_DEVICE v d f \<equiv> (Some v, Some d, None, f)"

abbreviation PCI_DEVICE_CLASS :: "u16 option \<Rightarrow> u16 option \<Rightarrow> u16 \<Rightarrow> 'f \<Rightarrow> 'f pci_id" where
  "PCI_DEVICE_CLASS v d c f \<equiv> (v, d, Some c, f)"

definition pci_device_tbl :: "'h pci_ops \<Rightarrow> (pcidev \<Rightarrow> 'h pci_state \<Rightarrow> 'h pci_state) pci_id list" where
  "pci_device_tbl ops =
    [PCI_DEVICE PCI_VENDOR_ID_INTEL PCI_DEVICE_ID_INTEL_82371SB_0 (piix_isa_bridge_setup ops),
     PCI_DEVICE PCI_VENDOR_ID_INTEL PCI_DEVICE_ID_INTEL_82371AB_0 (piix_isa_bridge_setup ops),
     PCI_DEVICE PCI_VENDOR_ID_INTEL PCI_DEVICE_ID_INTEL_ICH9_LPC (mch_isa_bridge_setup ops),
     PCI_DEVICE_CLASS (Some PCI_VENDOR_ID_INTEL) (Some PCI_DEVICE_ID_INTEL_82371SB_1) PCI_CLASS_STORAGE_IDE (piix_ide_setup ops),
     PCI_DEVICE_CLASS (Some PCI_VENDOR_ID_INTEL) (Some PCI_DEVICE_ID_INTEL_82371AB) PCI_CLASS_STORAGE_IDE (piix_ide_setup ops),
     PCI_DEVICE_CLASS None None PCI_CLASS_STORAGE_IDE (storage_ide_setup ops),
     PCI_DEVICE_CLASS (Some PCI_VENDOR_ID_IBM) (Some 0x0046) PCI_CLASS_SYSTEM_PIC (pic_ibm_setup ops),
     PCI_DEVICE_CLASS (Some PCI_VENDOR_ID_IBM) (Some 0xFFFF) PCI_CLASS_SYSTEM_PIC (pic_ibm_setup ops),
     PCI_DEVICE PCI_VENDOR_ID_INTEL PCI_DEVICE_ID_INTEL_82371AB_3 (piix4_pm_setup ops),
     PCI_DEVICE PCI_VENDOR_ID_INTEL PCI_DEVICE_ID_INTEL_ICH9_SMBUS (ich9_smbus_setup ops),
     PCI_DEVICE_CLASS (Some PCI_VENDOR_ID_APPLE) (Some 0x0017) 0xff00 (apple_macio_setup ops),
     PCI_DEVICE_CLASS (Some PCI_VENDOR_ID_APPLE) (Some 0x0022) 0xff00 (apple_macio_setup ops),
     PCI_DEVICE_CLASS (Some PCI_VENDOR_ID_INTEL) None PCI_CLASS_DISPLAY_VGA (intel_igd_setup ops)]"

section \<open>Devices\<close>

definition bridge_serr :: "'h pci_ops \<Rightarrow> pcidev \<Rightarrow> 'h \<Rightarrow> 'h" where
  "bridge_serr ops pci h =
     (if dev_header_type pci AND PCI_HEADER_TYPE_BRIDGE \<noteq> 0
      then pci_config_maskw ops (dev_bdf pci) PCI_BRIDGE_CONTROL 0 PCI_BRIDGE_CTL_SERR h else h)"

definition pci_bios_init_device :: "'h pci_ops \<Rightarrow> pcidev \<Rightarrow> 'h pci_state \<Rightarrow> 'h pci_state" where
  "pci_bios_init_device ops pci st =
     (let bdf = dev_bdf pci; pin = uint (pci_config_readb ops bdf PCI_INTERRUPT_PIN (p_hw st));
          st1 = (if pin \<noteq> 0
                 then on_hw (pci_config_writeb ops bdf PCI_INTERRUPT_LINE
                               (word_of_int (slot_get_irq (pci_slot_get_irq st) pci pin))) st
                 else st);
          st2 = fst (pci_init_device (pci_device_tbl ops) pci st1);
          st3 = on_hw (pci_config_maskw ops bdf PCI_COMMAND 0
                         (PCI_COMMAND_IO OR PCI_COMMAND_MEMORY OR PCI_COMMAND_SERR)) st2
      in on_hw (bridge_serr ops pci) st3)"

definition pci_bios_init_devices :: "'h pci_ops \<Rightarrow> 'h pci_state \<Rightarrow> 'h pci_state" where
  "pci_bios_init_devices ops st = fold (pci_bios_init_device ops) (PCIDevices st) st"

text \<open>\<open>is_pci_vga\<close> of \<open>src/optionroms.c\<close>: every bridge above the device forwards VGA addresses.\<close>

fun bridges_forward_vga :: "'h pci_ops \<Rightarrow> pcidev \<Rightarrow> 'h \<Rightarrow> bool" where
  "bridges_forward_vga ops (PciDev bdf rb None v d c p rv ht sb) h = True"
| "bridges_forward_vga ops (PciDev bdf rb (Some up) v d c p rv ht sb) h =
     (ucast (pci_config_readb ops (dev_bdf up) PCI_BRIDGE_CONTROL h) AND PCI_BRIDGE_CTL_VGA \<noteq> 0 \<and>
      bridges_forward_vga ops up h)"

definition is_pci_vga :: "'h pci_ops \<Rightarrow> 'h \<Rightarrow> pcidev \<Rightarrow> bool" where
  "is_pci_vga ops h pci \<longleftrightarrow>
     dev_class pci = PCI_CLASS_DISPLAY_VGA \<and>
     (let cmd = pci_config_readw ops (dev_bdf pci) PCI_COMMAND h
      in cmd AND PCI_COMMAND_IO \<noteq> 0 \<and> cmd AND PCI_COMMAND_MEMORY \<noteq> 0) \<and>
     bridges_forward_vga ops pci h"

fun enable_bridges :: "'h pci_ops \<Rightarrow> pcidev \<Rightarrow> 'h \<Rightarrow> 'h" where
  "enable_bridges ops (PciDev bdf rb None v d c p rv ht sb) h = h"
| "enable_bridges ops (PciDev bdf rb (Some up) v d c p rv ht sb) h =
     enable_bridges ops up
       (pci_config_maskw ops (dev_bdf up) PCI_COMMAND 0 (PCI_COMMAND_IO OR PCI_COMMAND_MEMORY)
         (pci_config_maskw ops (dev_bdf up) PCI_BRIDGE_CONTROL 0 PCI_BRIDGE_CTL_VGA h))"

definition pci_enable_default_vga :: "'h pci_ops \<Rightarrow> 'h pci_state \<Rightarrow> 'h pci_state" where
  "pci_enable_default_vga ops st =
     (if find (is_pci_vga ops (p_hw st)) (PCIDevices st) \<noteq> None then st
      else
        case pci_find_class PCI_CLASS_DISPLAY_VGA (PCIDevices st) of
          None \<Rightarrow> st
        | Some pci \<Rightarrow>
            on_hw (\<lambda>h. enable_bridges ops pci
                     (pci_config_maskw ops (dev_bdf pci) PCI_COMMAND 0 (PCI_COMMAND_IO OR PCI_COMMAND_MEMORY) h)) st)"

section \<open>Platform\<close>

definition i440fx_mem_addr_setup :: "pcidev \<Rightarrow> 'h pci_state \<Rightarrow> 'h pci_state" where
  "i440fx_mem_addr_setup dev st =
     st\<lparr>pcimem_start := (if RamSize st \<le> 0x80000000 then 0x80000000
                        else if RamSize st \<le> 0xc0000000 then 0xc0000000 else pcimem_start st),
        pci_slot_get_irq := PiixRouting\<rparr>"

definition mch_mmconfig_setup :: "'h pci_ops \<Rightarrow> u16 \<Rightarrow> 'h pci_state \<Rightarrow> 'h pci_state" where
  "mch_mmconfig_setup ops bdf st =
     (let upper = ucast (drop_bit 32 Q35_HOST_BRIDGE_PCIEXBAR_ADDR);
          lower = ucast ((Q35_HOST_BRIDGE_PCIEXBAR_ADDR AND 0xffffffff) OR Q35_HOST_BRIDGE_PCIEXBAREN)
      in on_hw (\<lambda>h. pci_config_writel ops bdf Q35_HOST_BRIDGE_PCIEXBAR lower
                  (pci_config_writel ops bdf (Q35_HOST_BRIDGE_PCIEXBAR + 4) upper
                    (pci_config_writel ops bdf Q35_HOST_BRIDGE_PCIEXBAR 0 h))) st)"

definition mch_mem_addr_setup :: "'h pci_ops \<Rightarrow> pcidev \<Rightarrow> 'h pci_state \<Rightarrow> 'h pci_state" where
  "mch_mem_addr_setup ops dev st =
     (let sz = (ucast Q35_HOST_BRIDGE_PCIEXBAR_SIZE :: u64);
          st1 = mch_mmconfig_setup ops (dev_bdf dev) (st\<lparr>MCHMmcfgBDF := uint (dev_bdf dev)\<rparr>);
          st2 = e820_add_to Q35_HOST_BRIDGE_PCIEXBAR_ADDR sz E820_RESERVED st1
      in st2\<lparr>pcimem_start := Q35_HOST_BRIDGE_PCIEXBAR_ADDR + sz, pci_slot_get_irq := MchRouting,
             pci_io_low_end := (if acpi_pm_base st2 < 0x1000 then 0x10000 else ucast (acpi_pm_base st2))\<rparr>)"

definition pci_platform_tbl :: "'h pci_ops \<Rightarrow> (pcidev \<Rightarrow> 'h pci_state \<Rightarrow> 'h pci_state) pci_id list" where
  "pci_platform_tbl ops =
    [PCI_DEVICE PCI_VENDOR_ID_INTEL PCI_DEVICE_ID_INTEL_82441 i440fx_mem_addr_setup,
     PCI_DEVICE PCI_VENDOR_ID_INTEL PCI_DEVICE_ID_INTEL_Q35_MCH (mch_mem_addr_setup ops)]"

definition pci_bios_init_platform :: "'h pci_ops \<Rightarrow> 'h pci_state \<Rightarrow> 'h pci_state" where
  "pci_bios_init_platform ops st = fold (\<lambda>pci s. fst (pci_init_device (pci_platform_tbl ops) pci s)) (PCIDevices st) st"

definition pci_resume :: "'h pci_ops \<Rightarrow> 'h pci_state \<Rightarrow> 'h pci_state" where
  "pci_resume ops st =
     (let s1 = (if PiixPmBDF st \<ge> 0 then piix4_pm_config_setup ops (word_of_int (PiixPmBDF st)) st else st);
          s2 = (if ICH9LpcBDF s1 \<ge> 0 then mch_isa_lpc_setup ops (word_of_int (ICH9LpcBDF s1)) s1 else s1);
          s3 = (if ICH9SmbusBDF s2 \<ge> 0 then ich9_smbus_enable ops (word_of_int (ICH9SmbusBDF s2)) s2 else s2)
      in if MCHMmcfgBDF s3 \<ge> 0 then mch_mmconfig_setup ops (word_of_int (MCHMmcfgBDF s3)) s3 else s3)"

section \<open>pci_setup\<close>

definition sizeof_pci_bus :: u32 where "sizeof_pci_bus = 40"

definition probe_all :: "'h pci_ops \<Rightarrow> 'h pci_state \<Rightarrow> 'h pci_state" where
  "probe_all ops st =
     (let (fw, devs, maxbus) = pci_probe_devices ops (p_hw st) (p_fw st) (MaxPCIBus st)
      in st\<lparr>p_fw := fw, PCIDevices := devs, MaxPCIBus := maxbus\<rparr>)"

definition clear_busses :: "'h pci_state \<Rightarrow> 'h pci_state" where
  "clear_busses st = st\<lparr>regions := \<lambda>k. \<lparr>rg_base = 0, rg_list = []\<rparr>, bus_dev := \<lambda>b. None\<rparr>"

text \<open>\<open>None\<close> is a panic, a capability list that never ends, or a bus tree deeper than \<open>n\<close>; there are 256
  bus numbers.\<close>

definition pci_setup :: "nat \<Rightarrow> 'h pci_ops \<Rightarrow> 'h pci_state \<Rightarrow> 'h pci_state option" where
  "pci_setup n ops st =
     (if pci_probe_host ops (p_hw st) \<noteq> 0 then Some st
      else
        case pci_bios_init_bus n ops st of
          None \<Rightarrow> None
        | Some st1 \<Rightarrow>
            let st2 = probe_all ops st1;
                st3 = pci_bios_init_platform ops (st2\<lparr>pcimem_start := ucast (RamSize st2)\<rparr>);
                (fw, busses) = malloc_tmp (sizeof_pci_bus * word_of_int (MaxPCIBus st3 + 1)) (p_fw st3);
                st4 = st3\<lparr>p_fw := fw\<rparr>
            in if busses = 0 then Some st4
               else
                 case pci_bios_check_devices ops (clear_busses st4) of
                   None \<Rightarrow> None
                 | Some (st5, r) \<Rightarrow>
                     if r \<noteq> 0 then Some st5
                     else
                       case pci_bios_map_devices ops st5 of
                         None \<Rightarrow> None
                       | Some st6 \<Rightarrow>
                           let st7 = pci_bios_init_devices ops st6
                           in Some (pci_enable_default_vga ops (st7\<lparr>p_fw := free busses (p_fw st7)\<rparr>)))"

section \<open>What the drivers use\<close>

text \<open>\<open>pci_enable_busmaster\<close>, \<open>pci_enable_iobar\<close> and \<open>pci_enable_membar\<close> of \<open>src/hw/pcidevice.c\<close>; 0 is
  the failure of the last two.\<close>

definition PCI_COMMAND_MASTER :: u16 where "PCI_COMMAND_MASTER = 0x4"

definition claim :: "pcidev \<Rightarrow> 'h pci_state \<Rightarrow> 'h pci_state" where
  "claim pci st = st\<lparr>have_driver := (have_driver st)(dev_bdf pci := True)\<rparr>"

definition pci_enable_busmaster :: "'h pci_ops \<Rightarrow> pcidev \<Rightarrow> 'h pci_state \<Rightarrow> 'h pci_state" where
  "pci_enable_busmaster ops pci st =
     claim pci (on_hw (pci_config_maskw ops (dev_bdf pci) PCI_COMMAND 0 PCI_COMMAND_MASTER) st)"

definition pci_enable_iobar :: "'h pci_ops \<Rightarrow> pcidev \<Rightarrow> u32 \<Rightarrow> 'h pci_state \<Rightarrow> 'h pci_state \<times> u16" where
  "pci_enable_iobar ops pci addr st =
     (let bar = pci_config_readl ops (dev_bdf pci) addr (p_hw st); port = bar AND PCI_BASE_ADDRESS_IO_MASK
      in if bar AND PCI_BASE_ADDRESS_SPACE_IO = 0 then (st, 0)
         else if port = 0 \<or> port > 0xffff then (st, 0)
         else (claim pci (on_hw (pci_config_maskw ops (dev_bdf pci) PCI_COMMAND 0 PCI_COMMAND_IO) st), ucast port))"

definition pci_enable_membar :: "'h pci_ops \<Rightarrow> pcidev \<Rightarrow> u32 \<Rightarrow> 'h pci_state \<Rightarrow> 'h pci_state \<times> u32" where
  "pci_enable_membar ops pci addr st =
     (let bdf = dev_bdf pci; bar = pci_config_readl ops bdf addr (p_hw st); mem = bar AND PCI_BASE_ADDRESS_MEM_MASK
      in if bar AND PCI_BASE_ADDRESS_SPACE_IO \<noteq> 0 then (st, 0)
         else if bar AND PCI_BASE_ADDRESS_MEM_TYPE_64 \<noteq> 0 \<and> pci_config_readl ops bdf (addr + 4) (p_hw st) \<noteq> 0 then (st, 0)
         else if mem + 4 * 1024 * 1024 < 20 * 1024 * 1024 then (st, 0)
         else (claim pci (on_hw (pci_config_maskw ops bdf PCI_COMMAND 0 PCI_COMMAND_MEMORY) st), mem))"

end
