(* ===== verification/Bregs.thy ===== *)
theory Bregs
  imports SB_Prelude
begin

text \<open>
  The register frame of \<open>src/bregs.h\<close> that every real mode interrupt handler reads and writes. A
  \<open>UREG\<close> union is its 32-bit register; the 16-bit and 8-bit names of the C union are read and written
  with the functions below. The helpers that report success and errors of a service follow.
\<close>

record bregs =
  ds :: u16
  es :: u16
  edi :: u32
  esi :: u32
  ebp :: u32
  ebx :: u32
  edx :: u32
  ecx :: u32
  eax :: u32
  cs_ip :: u32
  flags :: u16

definition bregs_zero :: bregs where
  "bregs_zero = \<lparr>ds = 0, es = 0, edi = 0, esi = 0, ebp = 0, ebx = 0, edx = 0, ecx = 0, eax = 0,
     cs_ip = 0, flags = 0\<rparr>"

definition r16 :: "u32 \<Rightarrow> u16" where "r16 r = ucast r"
definition rl :: "u32 \<Rightarrow> u8" where "rl r = ucast r"
definition rh :: "u32 \<Rightarrow> u8" where "rh r = ucast (drop_bit 8 r)"

definition put16 :: "u16 \<Rightarrow> u32 \<Rightarrow> u32" where "put16 v r = (r AND 0xffff0000) OR ucast v"
definition putl :: "u8 \<Rightarrow> u32 \<Rightarrow> u32" where "putl v r = (r AND 0xffffff00) OR ucast v"
definition puth :: "u8 \<Rightarrow> u32 \<Rightarrow> u32" where "puth v r = (r AND 0xffff00ff) OR push_bit 8 (ucast v)"

abbreviation ax :: "bregs \<Rightarrow> u16" where "ax r \<equiv> r16 (eax r)"
abbreviation al :: "bregs \<Rightarrow> u8" where "al r \<equiv> rl (eax r)"
abbreviation ah :: "bregs \<Rightarrow> u8" where "ah r \<equiv> rh (eax r)"
abbreviation bx :: "bregs \<Rightarrow> u16" where "bx r \<equiv> r16 (ebx r)"
abbreviation cx :: "bregs \<Rightarrow> u16" where "cx r \<equiv> r16 (ecx r)"
abbreviation cl :: "bregs \<Rightarrow> u8" where "cl r \<equiv> rl (ecx r)"
abbreviation ch :: "bregs \<Rightarrow> u8" where "ch r \<equiv> rh (ecx r)"
abbreviation dx :: "bregs \<Rightarrow> u16" where "dx r \<equiv> r16 (edx r)"
abbreviation dl :: "bregs \<Rightarrow> u8" where "dl r \<equiv> rl (edx r)"
abbreviation dh :: "bregs \<Rightarrow> u8" where "dh r \<equiv> rh (edx r)"

abbreviation set_ax :: "u16 \<Rightarrow> bregs \<Rightarrow> bregs" where "set_ax v r \<equiv> eax_update (put16 v) r"
abbreviation set_al :: "u8 \<Rightarrow> bregs \<Rightarrow> bregs" where "set_al v r \<equiv> eax_update (putl v) r"
abbreviation set_ah :: "u8 \<Rightarrow> bregs \<Rightarrow> bregs" where "set_ah v r \<equiv> eax_update (puth v) r"
abbreviation set_bx :: "u16 \<Rightarrow> bregs \<Rightarrow> bregs" where "set_bx v r \<equiv> ebx_update (put16 v) r"
abbreviation set_cx :: "u16 \<Rightarrow> bregs \<Rightarrow> bregs" where "set_cx v r \<equiv> ecx_update (put16 v) r"
abbreviation set_cl :: "u8 \<Rightarrow> bregs \<Rightarrow> bregs" where "set_cl v r \<equiv> ecx_update (putl v) r"
abbreviation set_ch :: "u8 \<Rightarrow> bregs \<Rightarrow> bregs" where "set_ch v r \<equiv> ecx_update (puth v) r"
abbreviation set_dx :: "u16 \<Rightarrow> bregs \<Rightarrow> bregs" where "set_dx v r \<equiv> edx_update (put16 v) r"
abbreviation set_dl :: "u8 \<Rightarrow> bregs \<Rightarrow> bregs" where "set_dl v r \<equiv> edx_update (putl v) r"
abbreviation set_dh :: "u8 \<Rightarrow> bregs \<Rightarrow> bregs" where "set_dh v r \<equiv> edx_update (puth v) r"

lemma reg_masks:
  "(0xffff0000 :: u32) = NOT (mask 16)" "(0xffffff00 :: u32) = NOT (mask 8)"
  "(0xffff00ff :: u32) = NOT (push_bit 8 (mask 8))"
  by (simp_all add: mask_eq_exp_minus_1)

lemma reg_rw [simp]:
  "r16 (put16 w r) = w" "rl (putl v r) = v" "rh (puth v r) = v"
  "rl (puth v r) = rl r" "rh (putl v r) = rh r"
  "rl (put16 w r) = ucast w" "rh (put16 w r) = ucast (drop_bit 8 w)"
  by (rule bit_word_eqI;
      auto simp: r16_def rl_def rh_def put16_def putl_def puth_def reg_masks bit_simps
        dest: bit_imp_le_length)+

section \<open>Status of a service\<close>

definition F_CF :: u16 where "F_CF = 1"
definition F_ZF :: u16 where "F_ZF = 0x40"
definition F_IF :: u16 where "F_IF = 0x200"

definition set_cf :: "bool \<Rightarrow> bregs \<Rightarrow> bregs" where
  "set_cf c regs = (if c then regs\<lparr>flags := flags regs OR F_CF\<rparr> else regs\<lparr>flags := flags regs AND NOT F_CF\<rparr>)"

definition RET_EUNSUPPORTED :: u8 where "RET_EUNSUPPORTED = 0x86"

definition set_success :: "bregs \<Rightarrow> bregs" where "set_success regs = set_cf False regs"

definition set_code_success :: "bregs \<Rightarrow> bregs" where "set_code_success regs = set_cf False (set_ah 0 regs)"

definition set_invalid_silent :: "bregs \<Rightarrow> bregs" where "set_invalid_silent regs = set_cf True regs"

definition set_code_invalid_silent :: "u8 \<Rightarrow> bregs \<Rightarrow> bregs" where
  "set_code_invalid_silent rcode regs = set_cf True (set_ah rcode regs)"

definition carry :: "bregs \<Rightarrow> bool" where "carry regs \<longleftrightarrow> flags regs AND F_CF \<noteq> 0"

lemma set_cf_sel [simp]:
  "eax (set_cf c regs) = eax regs" "ebx (set_cf c regs) = ebx regs" "ecx (set_cf c regs) = ecx regs"
  "edx (set_cf c regs) = edx regs" "esi (set_cf c regs) = esi regs" "edi (set_cf c regs) = edi regs"
  "ebp (set_cf c regs) = ebp regs" "ds (set_cf c regs) = ds regs" "es (set_cf c regs) = es regs"
  by (simp_all add: set_cf_def)

lemma and_one_bit: "(w :: 'a::len word) AND 1 = 0 \<longleftrightarrow> \<not> bit w 0"
  by (simp add: and_one_eq bit_0 mod_2_eq_odd)

lemma carry_set_cf [simp]: "carry (set_cf c regs) = c"
  by (simp add: carry_def set_cf_def F_CF_def and_one_bit bit_simps)

end
