(* ===== verification/FarMem.thy ===== *)
theory FarMem
  imports Romfile
begin

text \<open>
  Far memory as the interrupt services use it (\<open>src/farptr.h\<close>, \<open>src/biosvar.h\<close>): segment and offset as a
  flat address, values of several bytes, the BIOS data area at segment 0x40 and the interrupt vectors.
  Reading back a value, and reading past a write elsewhere, are simplification rules for addresses that
  are constants.
\<close>

section \<open>Far memory\<close>

definition MAKE_FLATPTR :: "u16 \<Rightarrow> u32 \<Rightarrow> u32" where
  "MAKE_FLATPTR seg off = push_bit 4 (ucast seg) + off"

definition SEGOFF :: "u16 \<Rightarrow> u16 \<Rightarrow> u32" where
  "SEGOFF s off = push_bit 16 (ucast s) OR ucast off"

definition SEGOFF_TO_FLATPTR :: "u32 \<Rightarrow> u32" where
  "SEGOFF_TO_FLATPTR so = MAKE_FLATPTR (ucast (drop_bit 16 so)) (so AND 0xffff)"

definition get_mem :: "nat \<Rightarrow> u32 \<Rightarrow> mem \<Rightarrow> 'a::len word" where
  "get_mem n p m = le_word (mem_read m p n)"

definition set_mem :: "nat \<Rightarrow> u32 \<Rightarrow> 'a::len word \<Rightarrow> mem \<Rightarrow> mem" where
  "set_mem n p v m = mem_write p (le_bytes n v) m"

definition SEG_BDA :: u16 where "SEG_BDA = 0x40"
definition SEG_BIOS :: u16 where "SEG_BIOS = 0xf000"

abbreviation bda_at :: "u32 \<Rightarrow> u32" where "bda_at off \<equiv> MAKE_FLATPTR SEG_BDA off"

definition bda_ebda_seg :: u32 where "bda_ebda_seg = 0x0e"
definition bda_equipment_list_flags :: u32 where "bda_equipment_list_flags = 0x10"

definition set_equipment_flags :: "u16 \<Rightarrow> u16 \<Rightarrow> mem \<Rightarrow> mem" where
  "set_equipment_flags clr setb m =
     (let eqf = get_mem 2 (bda_at bda_equipment_list_flags) m
      in set_mem 2 (bda_at bda_equipment_list_flags) ((eqf AND NOT clr) OR setb) m)"

definition SET_IVT :: "u32 \<Rightarrow> u32 \<Rightarrow> mem \<Rightarrow> mem" where
  "SET_IVT vector segoff m = set_mem 4 (vector * 4) segoff m"

section \<open>Reading and writing\<close>

lemma get_set_same [simp]:
  assumes "LENGTH('a::len) = 8 * n" "n \<le> 2 ^ 32"
  shows "get_mem n p (set_mem n p (v :: 'a word) m) = v"
proof -
  have "mem_read (mem_write p (le_bytes n v) m) p n = le_bytes n v"
    using mem_read_write_same [of "le_bytes n v" p m] assms(2) by simp
  then have "get_mem n p (set_mem n p v m) = (le_word (le_bytes n v) :: 'a word)"
    by (simp add: get_mem_def set_mem_def)
  then show ?thesis using assms(1) by (simp add: le_word_bytes take_bit_word_eq_self)
qed

lemma set_mem_far:
  assumes "n \<le> unat (a - p)" "n \<le> 2 ^ 32"
  shows "set_mem n p v m a = m a"
  using assms by (simp add: set_mem_def mem_write_eq)

text \<open>Two ranges that do not meet, counted around the address space.\<close>

definition apart_at :: "u32 \<Rightarrow> nat \<Rightarrow> u32 \<Rightarrow> nat \<Rightarrow> bool" where
  "apart_at p n q k \<longleftrightarrow> n \<le> unat (q - p) \<and> unat (q - p) + k \<le> 2 ^ 32"

lemma mem_read_set_other:
  assumes "apart_at p n q k"
  shows "mem_read (set_mem n p v m) q k = mem_read m q k"
proof (rule nth_equalityI)
  fix i assume "i < length (mem_read (set_mem n p v m) q k)"
  then have i: "i < k" by simp
  then have "unat (q - p) + unat (of_nat i :: u32) < 2 ^ 32"
    using assms by (simp add: apart_at_def unat_of_nat)
  then have "unat (q + of_nat i - p) = unat (q - p) + i"
    using i assms unat_add_small [of "q - p" "of_nat i"]
    by (simp add: unat_of_nat apart_at_def diff_add_eq)
  then show "mem_read (set_mem n p v m) q k ! i = mem_read m q k ! i"
    using i assms by (simp add: set_mem_far apart_at_def)
qed simp

lemma get_set_other [simp]: "apart_at p n q k \<Longrightarrow> get_mem k q (set_mem n p v m) = get_mem k q m"
  by (simp add: get_mem_def mem_read_set_other)

lemma get_upd_other [simp]: "apart_at p 1 q k \<Longrightarrow> get_mem k q (m(p := v)) = get_mem k q m"
  using mem_read_set_other [of p 1 q k v m] by (simp add: get_mem_def set_mem_def)

lemma set_other_byte [simp]: "apart_at p n q 1 \<Longrightarrow> set_mem n p v m q = m q"
  by (simp add: set_mem_far apart_at_def)

end
