(* ===== verification/FarCopy.thy ===== *)
theory FarCopy
  imports FarMem
begin

text \<open>
  The segmented copy and fill loops of \<open>src/string.c\<close> (\<open>memset_far\<close>, \<open>memset16_far\<close>, \<open>memcpy_far\<close> and the
  \<open>_fl\<close> functions in a 16-bit segment): string instructions whose index and count registers have 16 bits, so
  that an index comes round at the end of the segment. Within a segment they are block copies and fills.
\<close>

section \<open>String instructions with 16-bit registers\<close>

text \<open>\<open>rep movs\<close> of \<open>n\<close> items of \<open>w\<close> bytes, and \<open>rep stos\<close> of an item given by its bytes.\<close>

fun rep_movs16 :: "nat \<Rightarrow> nat \<Rightarrow> u32 \<Rightarrow> u16 \<Rightarrow> u32 \<Rightarrow> u16 \<Rightarrow> mem \<Rightarrow> mem" where
  "rep_movs16 w 0 db di sb si m = m"
| "rep_movs16 w (Suc n) db di sb si m =
     rep_movs16 w n db (di + of_nat w) sb (si + of_nat w)
       (mem_write (db + ucast di) (mem_read m (sb + ucast si) w) m)"

fun rep_stos16 :: "u8 list \<Rightarrow> nat \<Rightarrow> u32 \<Rightarrow> u16 \<Rightarrow> mem \<Rightarrow> mem" where
  "rep_stos16 bs 0 db di m = m"
| "rep_stos16 bs (Suc n) db di m = rep_stos16 bs n db (di + of_nat (length bs)) (mem_write (db + ucast di) bs m)"

definition seg_base :: "u16 \<Rightarrow> u32" where "seg_base s = push_bit 4 (ucast s)"

section \<open>The functions\<close>

definition FLATPTR_TO_SEG :: "u32 \<Rightarrow> u16" where "FLATPTR_TO_SEG p = ucast (drop_bit 4 p)"
definition FLATPTR_TO_OFFSET :: "u32 \<Rightarrow> u32" where "FLATPTR_TO_OFFSET p = p AND 0xf"

text \<open>A count in \<open>cx\<close>.\<close>

definition cx_count :: "u32 \<Rightarrow> nat" where "cx_count len = unat (ucast len :: u16)"

definition memset_far :: "u16 \<Rightarrow> u32 \<Rightarrow> u8 \<Rightarrow> u32 \<Rightarrow> mem \<Rightarrow> mem" where
  "memset_far d_seg d_far c len m = rep_stos16 [c] (cx_count len) (seg_base d_seg) (ucast d_far) m"

definition memset16_far :: "u16 \<Rightarrow> u32 \<Rightarrow> u16 \<Rightarrow> u32 \<Rightarrow> mem \<Rightarrow> mem" where
  "memset16_far d_seg d_far c len m = rep_stos16 (le_bytes 2 c) (cx_count (len div 2)) (seg_base d_seg) (ucast d_far) m"

definition memset_fl :: "u32 \<Rightarrow> u8 \<Rightarrow> u32 \<Rightarrow> mem \<Rightarrow> mem" where
  "memset_fl p val sz m = memset_far (FLATPTR_TO_SEG p) (FLATPTR_TO_OFFSET p) val sz m"

definition memcpy_far :: "u16 \<Rightarrow> u32 \<Rightarrow> u16 \<Rightarrow> u32 \<Rightarrow> u32 \<Rightarrow> mem \<Rightarrow> mem" where
  "memcpy_far d_seg d_far s_seg s_far len m =
     rep_movs16 1 (cx_count len) (seg_base d_seg) (ucast d_far) (seg_base s_seg) (ucast s_far) m"

definition memcpy_fl :: "u32 \<Rightarrow> u32 \<Rightarrow> u32 \<Rightarrow> mem \<Rightarrow> mem" where
  "memcpy_fl d_fl s_fl len m =
     memcpy_far (FLATPTR_TO_SEG d_fl) (FLATPTR_TO_OFFSET d_fl) (FLATPTR_TO_SEG s_fl) (FLATPTR_TO_OFFSET s_fl) len m"

section \<open>Block copies\<close>

lemma mem_write_read:
  assumes "n \<le> 2 ^ 32"
  shows "mem_write d (mem_read m s n) m = block_copy d s n m"
  using assms by (intro ext) (simp add: mem_write_eq block_copy_def)

lemma index_step:
  fixes di :: u16
  assumes "unat di + w < 2 ^ 16"
  shows "unat (di + of_nat w) = unat di + w" and "(ucast (di + of_nat w) :: u32) = ucast di + of_nat w"
proof -
  show u: "unat (di + of_nat w) = unat di + w" using assms by (simp add: unat_word_ariths unat_of_nat)
  have "unat (ucast di + of_nat w :: u32) = unat di + w"
    using assms by (simp add: unat_word_ariths unat_of_nat unsigned_ucast_eq take_bit_nat_eq_self)
  then show "(ucast (di + of_nat w) :: u32) = ucast di + of_nat w"
    using u assms by (simp add: word_unat_eq_iff unsigned_ucast_eq take_bit_nat_eq_self)
qed

lemma rep_movs16_eq:
  assumes "up_safe (db + ucast di) (sb + ucast si) (w * n)" "0 < w"
    and "unat di + w * n \<le> 2 ^ 16" "unat si + w * n \<le> 2 ^ 16"
  shows "rep_movs16 w n db di sb si m = block_copy (db + ucast di) (sb + ucast si) (w * n) m"
  using assms
proof (induction n arbitrary: di si m)
  case 0
  then show ?case by simp
next
  case (Suc n)
  let ?d = "db + ucast di" and ?s = "sb + ucast si"
  have up: "up_safe ?d ?s (w + w * n)" using Suc.prems(1) by simp
  have one: "mem_write ?d (mem_read m ?s w) m = block_copy ?d ?s w m"
    using up by (intro mem_write_read) (simp add: up_safe_def)
  show ?case
  proof (cases "n = 0")
    case True
    then show ?thesis by (simp add: one)
  next
    case False
    then have "1 \<le> w * n" using Suc.prems(2) by simp
    then have "unat di + w < 2 ^ 16" "unat si + w < 2 ^ 16"
      using Suc.prems(3,4) unfolding mult_Suc_right by linarith+
    note step = index_step [OF this(1)] index_step [OF this(2)]
    have s: "db + ucast (di + of_nat w) = ?d + of_nat w" "sb + ucast (si + of_nat w) = ?s + of_nat w"
      using step by simp_all
    have "rep_movs16 w (Suc n) db di sb si m =
        rep_movs16 w n db (di + of_nat w) sb (si + of_nat w) (block_copy ?d ?s w m)"
      by (simp add: one)
    also have "\<dots> = block_copy (?d + of_nat w) (?s + of_nat w) (w * n) (block_copy ?d ?s w m)"
      unfolding s [symmetric] using up_safe_step [OF up] Suc.prems(2-4) step
      by (intro Suc.IH) (simp_all add: s add.assoc)
    also have "\<dots> = block_copy ?d ?s (w + w * n) m" by (rule block_copy_append [OF up])
    finally show ?thesis by simp
  qed
qed

text \<open>A copy whose segments do not come round is a block copy.\<close>

lemma ucast_offset: "ucast (ucast (x :: u16) :: u32) = x"
  by (rule bit_word_eqI) (simp add: bit_simps)

lemma memcpy_far_eq:
  assumes "up_safe (MAKE_FLATPTR d_seg (ucast (di :: u16))) (MAKE_FLATPTR s_seg (ucast (si :: u16))) (unat len)"
    and "unat di + unat len \<le> 2 ^ 16" "unat si + unat len \<le> 2 ^ 16" "unat len < 2 ^ 16"
  shows "memcpy_far d_seg (ucast di) s_seg (ucast si) len m =
    block_copy (MAKE_FLATPTR d_seg (ucast di)) (MAKE_FLATPTR s_seg (ucast si)) (unat len) m"
proof -
  have "cx_count len = unat len"
    using assms(4) by (simp add: cx_count_def unsigned_ucast_eq take_bit_nat_eq_self)
  then show ?thesis
    using rep_movs16_eq [of "seg_base d_seg" di "seg_base s_seg" si 1 "unat len" m] assms
    by (simp add: memcpy_far_def MAKE_FLATPTR_def seg_base_def ucast_offset)
qed

text \<open>The segment and the offset of a flat address below one megabyte give it back.\<close>

lemma FLATPTR_split:
  assumes "p < 0x100000"
  shows "seg_base (FLATPTR_TO_SEG p) + FLATPTR_TO_OFFSET p = p"
proof -
  have low: "(0xf :: u32) = mask 4" by (simp add: mask_eq_exp_minus_1)
  have "take_bit 20 p = p"
    using assms by (simp add: word_unat_eq_iff word_less_nat_alt unsigned_take_bit_eq take_bit_nat_eq_self)
  then have bits: "bit p i \<Longrightarrow> i < 20" for i by (metis bit_take_bit_iff)
  have "seg_base (FLATPTR_TO_SEG p) + FLATPTR_TO_OFFSET p = seg_base (FLATPTR_TO_SEG p) OR FLATPTR_TO_OFFSET p"
    by (rule disjunctive_add) (simp add: seg_base_def FLATPTR_TO_OFFSET_def low bit_simps)
  also have "\<dots> = p"
    by (rule bit_word_eqI) (auto simp: seg_base_def FLATPTR_TO_SEG_def FLATPTR_TO_OFFSET_def low bit_simps dest: bits)
  finally show ?thesis .
qed

lemma FLATPTR_OFFSET_small: "unat (FLATPTR_TO_OFFSET p) < 16"
proof -
  have "FLATPTR_TO_OFFSET p = take_bit 4 p"
    by (simp add: FLATPTR_TO_OFFSET_def take_bit_eq_mask mask_eq_exp_minus_1)
  then show ?thesis using take_bit_nat_less_exp [of 4 "unat p"] by (simp add: unsigned_take_bit_eq)
qed

lemma memcpy_fl_eq:
  assumes "d < 0x100000" "s < 0x100000" "unat len + 16 \<le> 2 ^ 16" "up_safe d s (unat len)"
  shows "memcpy_fl d s len m = block_copy d s (unat len) m"
proof -
  have o: "(ucast (ucast (FLATPTR_TO_OFFSET p) :: u16) :: u32) = FLATPTR_TO_OFFSET p"
    "unat (ucast (FLATPTR_TO_OFFSET p) :: u16) < 16" for p
    using FLATPTR_OFFSET_small [of p]
    by (simp_all add: word_unat_eq_iff unsigned_ucast_eq unsigned_take_bit_eq take_bit_nat_eq_self)
  have a: "MAKE_FLATPTR (FLATPTR_TO_SEG p) (FLATPTR_TO_OFFSET p) = p" if "p < 0x100000" for p
    using FLATPTR_split [OF that] by (simp add: MAKE_FLATPTR_def seg_base_def)
  show ?thesis
    using memcpy_far_eq [of "FLATPTR_TO_SEG d" "ucast (FLATPTR_TO_OFFSET d)" "FLATPTR_TO_SEG s"
        "ucast (FLATPTR_TO_OFFSET s)" len m] assms o(2) [of d] o(2) [of s]
    by (simp add: o(1) a memcpy_fl_def)
qed

end
