(* ===== verification/OptionRom.thy ===== *)
theory OptionRom
  imports Boot PciSetup Bregs FarCopy "HOL-Library.Monad_Syntax"
begin

text \<open>
  Option roms (\<open>src/optionroms.c\<close>): the roms of files and PCI devices are copied to the area below 1 MB, checked and run,
  and the boot vectors they offer are registered. What a rom does when it runs, what the memory behind a rom address
  register shows, the measurement by the TPM and the graphics hooks are parameters. The descriptors of \<open>src/std/optionrom.h\<close> are read
  from memory by their offsets. A source (a 64-bit number with a pointer in the C code) is a datatype. Loops that may not end have
  no result then: a rom whose list of headers comes back to itself is not excluded by the code.
\<close>

section \<open>State and parameters\<close>

datatype rom_source = NoSource | PciSource pcidev | FileSource romfile_s

record 'h orom_state =
  o_boot :: boot_state
  o_hw :: 'h
  o_devices :: "pcidev list"
  o_driver :: "u16 \<Rightarrow> bool"
  o_sources :: "rom_source list"
  EnforceChecksum :: u32
  S3ResumeVga :: u32
  RunPCIroms :: u32
  ScreenAndDebug :: u32
  VgaROM :: u32

record 'h orom_env =
  oe_pci :: "'h pci_ops"
  oe_view :: "'h \<Rightarrow> mem"
  oe_run :: "bregs \<Rightarrow> 'h orom_state \<Rightarrow> 'h orom_state"
  oe_tpm :: "u32 \<Rightarrow> u32 \<Rightarrow> 'h orom_state \<Rightarrow> 'h orom_state"
  oe_vgahook :: "pcidev \<Rightarrow> 'h orom_state \<Rightarrow> 'h orom_state"
  oe_zonelow :: u32
  oe_pnp_offset :: u16
  oe_entry_19 :: u16

abbreviation o_fw :: "'h orom_state \<Rightarrow> fwstate" where "o_fw st \<equiv> b_fw (o_boot st)"
abbreviation o_mem :: "'h orom_state \<Rightarrow> mem" where "o_mem st \<equiv> r_mem (o_fw st)"
abbreviation o_ms :: "'h orom_state \<Rightarrow> mstate" where "o_ms st \<equiv> r_ms (o_fw st)"

definition upd_fw :: "(fwstate \<Rightarrow> fwstate) \<Rightarrow> 'h orom_state \<Rightarrow> 'h orom_state" where
  "upd_fw f st = st\<lparr>o_boot := (o_boot st)\<lparr>b_fw := f (o_fw st)\<rparr>\<rparr>"

definition upd_omem :: "(mem \<Rightarrow> mem) \<Rightarrow> 'h orom_state \<Rightarrow> 'h orom_state" where
  "upd_omem f = upd_fw (\<lambda>fw. fw\<lparr>r_mem := f (r_mem fw)\<rparr>)"

definition o_rom_reserve :: "'h orom_env \<Rightarrow> u32 \<Rightarrow> 'h orom_state \<Rightarrow> 'h orom_state \<times> u32" where
  "o_rom_reserve env sz st =
     (let (ms, p) = rom_reserve (oe_zonelow env) sz (o_ms st) in (upd_fw (\<lambda>fw. fw\<lparr>r_ms := ms\<rparr>) st, p))"

definition o_rom_confirm :: "'h orom_env \<Rightarrow> u32 \<Rightarrow> 'h orom_state \<Rightarrow> 'h orom_state \<times> int" where
  "o_rom_confirm env sz st =
     (let (ms, r) = rom_confirm (oe_zonelow env) sz (o_ms st) in (upd_fw (\<lambda>fw. fw\<lparr>r_ms := ms\<rparr>) st, r))"

section \<open>Descriptors\<close>

definition OPTION_ROM_SIGNATURE :: u16 where "OPTION_ROM_SIGNATURE = 0xaa55"
definition OPTION_ROM_INITVECTOR :: u16 where "OPTION_ROM_INITVECTOR = 3"
definition PCI_ROM_SIGNATURE :: u32 where "PCI_ROM_SIGNATURE = 0x52494350"
definition PNP_SIGNATURE :: u32 where "PNP_SIGNATURE = 0x506e5024"
definition PCIROM_CODETYPE_X86 :: u8 where "PCIROM_CODETYPE_X86 = 0"
definition BUILD_BIOS_ADDR :: u32 where "BUILD_BIOS_ADDR = 0xf0000"
definition PCI_ROM_ADDRESS_ENABLE :: u32 where "PCI_ROM_ADDRESS_ENABLE = 0x01"
definition PCI_HEADER_TYPE_NORMAL :: u8 where "PCI_HEADER_TYPE_NORMAL = 0"
definition PCI_CLASS_DISPLAY_OTHER :: u16 where "PCI_CLASS_DISPLAY_OTHER = 0x0380"

definition rom_signature :: "mem \<Rightarrow> u32 \<Rightarrow> u16" where "rom_signature m rom = get_mem 2 rom m"
definition rom_bytes :: "mem \<Rightarrow> u32 \<Rightarrow> u32" where "rom_bytes m rom = ucast (m (rom + 2)) * 512"
definition rom_pcioffset :: "mem \<Rightarrow> u32 \<Rightarrow> u16" where "rom_pcioffset m rom = get_mem 2 (rom + 24) m"
definition rom_pnpoffset :: "mem \<Rightarrow> u32 \<Rightarrow> u16" where "rom_pnpoffset m rom = get_mem 2 (rom + 26) m"

definition pd_signature :: "mem \<Rightarrow> u32 \<Rightarrow> u32" where "pd_signature m pd = get_mem 4 pd m"
definition pd_vendor :: "mem \<Rightarrow> u32 \<Rightarrow> u16" where "pd_vendor m pd = get_mem 2 (pd + 4) m"
definition pd_device :: "mem \<Rightarrow> u32 \<Rightarrow> u16" where "pd_device m pd = get_mem 2 (pd + 6) m"
definition pd_ilen :: "mem \<Rightarrow> u32 \<Rightarrow> u16" where "pd_ilen m pd = get_mem 2 (pd + 16) m"
definition pd_type :: "mem \<Rightarrow> u32 \<Rightarrow> u8" where "pd_type m pd = m (pd + 20)"
definition pd_indicator :: "mem \<Rightarrow> u32 \<Rightarrow> u8" where "pd_indicator m pd = m (pd + 21)"

definition pnp_signature :: "mem \<Rightarrow> u32 \<Rightarrow> u32" where "pnp_signature m pnp = get_mem 4 pnp m"
definition pnp_nextoffset :: "mem \<Rightarrow> u32 \<Rightarrow> u16" where "pnp_nextoffset m pnp = get_mem 2 (pnp + 6) m"
definition pnp_productname :: "mem \<Rightarrow> u32 \<Rightarrow> u16" where "pnp_productname m pnp = get_mem 2 (pnp + 16) m"
definition pnp_bcv :: "mem \<Rightarrow> u32 \<Rightarrow> u16" where "pnp_bcv m pnp = get_mem 2 (pnp + 22) m"
definition pnp_bev :: "mem \<Rightarrow> u32 \<Rightarrow> u16" where "pnp_bev m pnp = get_mem 2 (pnp + 26) m"

section \<open>Running a rom\<close>

definition callrom_at :: "'h orom_env \<Rightarrow> u32 \<Rightarrow> u16 \<Rightarrow> u16 \<Rightarrow> 'h orom_state \<Rightarrow> 'h orom_state" where
  "callrom_at env rom offset bdf st =
     oe_run env
       (bregs_zero\<lparr>flags := F_IF, eax := ucast bdf, ebx := 0xffff, edx := 0xffff, es := SEG_BIOS,
          edi := ucast (oe_pnp_offset env), cs_ip := SEGOFF (FLATPTR_TO_SEG rom) offset\<rparr>) st"

definition callrom :: "'h orom_env \<Rightarrow> u32 \<Rightarrow> u16 \<Rightarrow> 'h orom_state \<Rightarrow> 'h orom_state" where
  "callrom env rom bdf st = callrom_at env rom OPTION_ROM_INITVECTOR bdf st"

definition call_bcv :: "'h orom_env \<Rightarrow> u16 \<Rightarrow> u16 \<Rightarrow> 'h orom_state \<Rightarrow> 'h orom_state" where
  "call_bcv env seg ip st = callrom_at env (MAKE_FLATPTR seg 0) ip 0 st"

definition is_valid_rom :: "u32 \<Rightarrow> mem \<Rightarrow> u32 \<Rightarrow> bool" where
  "is_valid_rom enforce m rom \<longleftrightarrow>
     rom_signature m rom = OPTION_ROM_SIGNATURE \<and> m (rom + 2) \<noteq> 0 \<and>
     (checksum m rom (rom_bytes m rom) = 0 \<or> enforce = 0)"

definition get_pnp_rom :: "mem \<Rightarrow> u32 \<Rightarrow> u32 option" where
  "get_pnp_rom m rom =
     (let pnp = rom + ucast (rom_pnpoffset m rom) in if pnp_signature m pnp \<noteq> PNP_SIGNATURE then None else Some pnp)"

definition get_pnp_next :: "mem \<Rightarrow> u32 \<Rightarrow> u32 \<Rightarrow> u32 option" where
  "get_pnp_next m rom pnp =
     (if pnp_nextoffset m pnp = 0 then None
      else
        let nxt = rom + ucast (pnp_nextoffset m pnp) in if pnp_signature m nxt \<noteq> PNP_SIGNATURE then None else Some nxt)"

definition get_pci_rom :: "mem \<Rightarrow> u32 \<Rightarrow> u32 option" where
  "get_pci_rom m rom =
     (let pd = rom + ucast (rom_pcioffset m rom) in if pd_signature m pd \<noteq> PCI_ROM_SIGNATURE then None else Some pd)"

definition place_rom :: "u32 \<Rightarrow> u32 \<Rightarrow> 'h orom_state \<Rightarrow> 'h orom_state" where
  "place_rom newrom rom st =
     (if newrom \<noteq> rom then upd_omem (\<lambda>m. fst (memmove newrom rom (rom_bytes m rom) m)) st else st)"

definition init_optionrom :: "'h orom_env \<Rightarrow> u32 \<Rightarrow> u16 \<Rightarrow> bool \<Rightarrow> 'h orom_state \<Rightarrow> int \<times> 'h orom_state" where
  "init_optionrom env rom bdf isvga st =
     (if \<not> is_valid_rom (EnforceChecksum st) (o_mem st) rom then (-1, st)
      else
        let (st1, newrom) = o_rom_reserve env (rom_bytes (o_mem st) rom) st
        in if newrom = 0 then (-1, st1)
           else
             let st2 = place_rom newrom rom st1;
                 st3 = oe_tpm env newrom (rom_bytes (o_mem st1) rom) st2;
                 st4 = (if isvga \<or> get_pnp_rom (o_mem st3) newrom \<noteq> None then callrom env newrom bdf st3 else st3);
                 (st5, r) = o_rom_confirm env (rom_bytes (o_mem st4) newrom) st4
             in (r, st5))"

section \<open>Sources\<close>

definition source_slot :: "u32 \<Rightarrow> nat" where
  "source_slot rom = unat ((rom - BUILD_ROM_START) div OPTION_ROM_ALIGN)"

definition setRomSource :: "bool \<Rightarrow> u32 \<Rightarrow> rom_source \<Rightarrow> 'h orom_state \<Rightarrow> 'h orom_state" where
  "setRomSource sources rom source st =
     (if sources then st\<lparr>o_sources := (o_sources st)[source_slot rom := source]\<rparr> else st)"

text \<open>The part of a device that its path in the boot order depends on.\<close>

fun path_device :: "pcidev \<Rightarrow> pci_device" where
  "path_device (PciDev bdf rb up v d c p rv ht sb) = PciDevice bdf rb (map_option path_device up)"

definition getRomPriority :: "u32 \<Rightarrow> u32 \<Rightarrow> 'h orom_state \<Rightarrow> int" where
  "getRomPriority rom inst st =
     (case o_sources st ! source_slot rom of
        NoSource \<Rightarrow> -1
      | PciSource pci \<Rightarrow> bootprio_find_pci_rom (path_device pci) inst (o_boot st)
      | FileSource file \<Rightarrow> bootprio_find_named_rom (map (\<lambda>b. char_of (unat b)) (rf_name file)) inst (o_boot st))"

section \<open>Roms in files\<close>

definition deploy_romfile :: "'h orom_env \<Rightarrow> romfile_s \<Rightarrow> 'h orom_state \<Rightarrow> u32 \<times> 'h orom_state" where
  "deploy_romfile env file st =
     (let (st1, rom) = o_rom_reserve env (rf_size file) st
      in if rom = 0 then (0, st1)
         else
           let (ret, fw) = file_copy file rom (rf_size file) (o_fw st1)
           in (if ret \<le> 0 then 0 else rom, upd_fw (\<lambda>_. fw) st1))"

lemma findprefix_shorter: "length (romfile_findprefix_from prefix l) \<le> length l"
  by (induction l) simp_all

text \<open>The loop of \<open>run_file_roms\<close>; a pointer into the list of files is the rest of the list.\<close>

function run_file_loop :: "'h orom_env \<Rightarrow> u8 list \<Rightarrow> bool \<Rightarrow> bool \<Rightarrow> romfile_s list \<Rightarrow> 'h orom_state \<Rightarrow> 'h orom_state" where
  "run_file_loop env prefix isvga sources [] st = st"
| "run_file_loop env prefix isvga sources (file # rest) st =
     (let (rom, st1) = deploy_romfile env file st;
          st2 = (if rom \<noteq> 0 then snd (init_optionrom env rom 0 isvga (setRomSource sources rom (FileSource file) st1)) else st1)
      in run_file_loop env prefix isvga sources (romfile_findprefix_from prefix rest) st2)"
  by pat_completeness auto

termination
  by (relation "measure (\<lambda>(env, prefix, isvga, sources, l, st). length l)") (auto simp: findprefix_shorter le_imp_less_Suc)

definition run_file_roms :: "'h orom_env \<Rightarrow> u8 list \<Rightarrow> bool \<Rightarrow> bool \<Rightarrow> 'h orom_state \<Rightarrow> 'h orom_state" where
  "run_file_roms env prefix isvga sources st =
     run_file_loop env prefix isvga sources (romfile_findprefix prefix None (o_fw st)) st"

section \<open>Roms of PCI devices\<close>

definition copy_rom :: "'h orom_env \<Rightarrow> u32 \<Rightarrow> 'h orom_state \<Rightarrow> u32 \<times> 'h orom_state" where
  "copy_rom env rom st =
     (let view = oe_view env (o_hw st); romsize = rom_bytes view rom; (st1, newrom) = o_rom_reserve env romsize st
      in if newrom = 0 then (0, st1)
         else (newrom, upd_omem (mem_write newrom (mem_read view rom (unat romsize))) st1))"

text \<open>The loop over the images of a rom: the image for this device, or the end of the search. It does not end when an image of length
  zero does not match.\<close>

partial_function (option) find_image :: "mem \<Rightarrow> u16 \<Rightarrow> u16 \<Rightarrow> u32 \<Rightarrow> u32 option option" where
  "find_image m vendor device rom =
     (if rom_signature m rom \<noteq> OPTION_ROM_SIGNATURE then Some None
      else case get_pci_rom m rom of
             None \<Rightarrow> Some None
           | Some pd \<Rightarrow>
               if pd_vendor m pd = vendor \<and> pd_device m pd = device \<and> pd_type m pd = PCIROM_CODETYPE_X86 then Some (Some rom)
               else if pd_indicator m pd AND 0x80 \<noteq> 0 then Some None
               else find_image m vendor device (rom + ucast (pd_ilen m pd) * 512))"

definition set_rom_address :: "'h orom_env \<Rightarrow> u16 \<Rightarrow> u32 \<Rightarrow> 'h orom_state \<Rightarrow> 'h orom_state" where
  "set_rom_address env bdf v st = st\<lparr>o_hw := pci_config_writel (oe_pci env) bdf PCI_ROM_ADDRESS v (o_hw st)\<rparr>"

definition map_pcirom :: "'h orom_env \<Rightarrow> pcidev \<Rightarrow> 'h orom_state \<Rightarrow> (u32 \<times> 'h orom_state) option" where
  "map_pcirom env pci st =
     (if dev_header_type pci AND 0x7f \<noteq> PCI_HEADER_TYPE_NORMAL then Some (0, st)
      else
        let bdf = dev_bdf pci;
            orig0 = pci_config_readl (oe_pci env) bdf PCI_ROM_ADDRESS (o_hw st);
            st1 = set_rom_address env bdf (NOT PCI_ROM_ADDRESS_ENABLE) st;
            sz = pci_config_readl (oe_pci env) bdf PCI_ROM_ADDRESS (o_hw st1);
            orig = orig0 AND NOT PCI_ROM_ADDRESS_ENABLE
        in if sz = 0 \<or> sz = 0xffffffff \<or> orig = sz \<or> orig + 4 * 1024 * 1024 < 20 * 1024 * 1024
           then Some (0, set_rom_address env bdf orig st1)
           else
             let st2 = set_rom_address env bdf (orig OR PCI_ROM_ADDRESS_ENABLE) st1
             in do {
               found \<leftarrow> find_image (oe_view env (o_hw st2)) (dev_vendor pci) (dev_device pci) orig;
               Some (case found of
                       None \<Rightarrow> (0, set_rom_address env bdf orig st2)
                     | Some rom \<Rightarrow> let (newrom, st3) = copy_rom env rom st2 in (newrom, set_rom_address env bdf orig st3)) })"

definition boot_irq_captured :: "'h orom_env \<Rightarrow> 'h orom_state \<Rightarrow> bool" where
  "boot_irq_captured env st \<longleftrightarrow> get_mem 4 (0x19 * 4) (o_mem st) \<noteq> SEGOFF SEG_BIOS (oe_entry_19 env)"

definition boot_irq_restore :: "'h orom_env \<Rightarrow> 'h orom_state \<Rightarrow> 'h orom_state" where
  "boot_irq_restore env = upd_omem (SET_IVT 0x19 (SEGOFF SEG_BIOS (oe_entry_19 env)))"

definition init_pcirom :: "'h orom_env \<Rightarrow> pcidev \<Rightarrow> bool \<Rightarrow> bool \<Rightarrow> 'h orom_state \<Rightarrow> 'h orom_state option" where
  "init_pcirom env pci isvga sources st =
     (let fname = snprintf 17 ''pci%04x,%04x.rom'' [IntArg (ucast (dev_vendor pci)), IntArg (ucast (dev_device pci))];
          file = romfile_find (bytes_of fname) (o_fw st)
      in do {
        (rom, st1) \<leftarrow> (case file of
            Some f \<Rightarrow> Some (deploy_romfile env f st)
          | None \<Rightarrow> if sint (RunPCIroms st) > 1 \<or> RunPCIroms st = 1 \<and> isvga then map_pcirom env pci st else Some (0, st));
        Some (if rom = 0 then st1
              else
                let was_captured = boot_irq_captured env st1; pnp = get_pnp_rom (o_mem st1) rom;
                    st2 = snd (init_optionrom env rom (dev_bdf pci) isvga (setRomSource sources rom (PciSource pci) st1))
                in if boot_irq_captured env st2 \<and> \<not> was_captured \<and> file = None \<and> \<not> isvga \<and> pnp \<noteq> None
                   then boot_irq_restore env st2 else st2) })"

section \<open>Boot vectors\<close>

text \<open>The description that starts at a pointer; at most 64K of it are read here.\<close>

definition rom_string :: "mem \<Rightarrow> u32 \<Rightarrow> string" where
  "rom_string m p = map (\<lambda>b. char_of (unat b)) (takeWhile (\<lambda>b. b \<noteq> 0) (mem_read m p 0x10000))"

definition rom_desc :: "mem \<Rightarrow> u16 \<Rightarrow> u16 \<Rightarrow> string option" where
  "rom_desc m seg off = (if off = 0 then None else Some (rom_string m (MAKE_FLATPTR seg (ucast off))))"

abbreviation on_boot :: "(boot_state \<Rightarrow> boot_state) \<Rightarrow> 'h orom_state \<Rightarrow> 'h orom_state" where
  "on_boot f st \<equiv> st\<lparr>o_boot := f (o_boot st)\<rparr>"

text \<open>The vector of one header, and the loop over the headers.\<close>

definition add_vector :: "u32 \<Rightarrow> u32 \<Rightarrow> u32 \<Rightarrow> 'h orom_state \<Rightarrow> 'h orom_state" where
  "add_vector rom pnp inst st =
     (let m = o_mem st; seg = FLATPTR_TO_SEG rom; desc = rom_desc m seg (pnp_productname m pnp)
      in if pnp_bev m pnp \<noteq> 0 then on_boot (boot_add_bev seg (pnp_bev m pnp) desc (getRomPriority rom inst st)) st
         else on_boot (boot_add_bcv seg (pnp_bcv m pnp) desc (getRomPriority rom inst st)) st)"

partial_function (option) pnp_loop :: "u32 \<Rightarrow> u32 option \<Rightarrow> u32 \<Rightarrow> 'h orom_state \<Rightarrow> 'h orom_state option" where
  "pnp_loop rom pnp inst st =
     (case pnp of
        None \<Rightarrow> Some st
      | Some p \<Rightarrow>
          if pnp_bev (o_mem st) p = 0 \<and> pnp_bcv (o_mem st) p = 0 then Some st
          else let st1 = add_vector rom p inst st in pnp_loop rom (get_pnp_next (o_mem st1) rom p) (inst + 1) st1)"

definition rom_vectors :: "u32 \<Rightarrow> 'h orom_state \<Rightarrow> 'h orom_state option" where
  "rom_vectors rom st =
     (case get_pnp_rom (o_mem st) rom of
        None \<Rightarrow> Some (on_boot (boot_add_bcv (FLATPTR_TO_SEG rom) OPTION_ROM_INITVECTOR None (getRomPriority rom 0 st)) st)
      | Some pnp \<Rightarrow> pnp_loop rom (Some pnp) 0 st)"

partial_function (option) rom_scan :: "u32 \<Rightarrow> 'h orom_state \<Rightarrow> 'h orom_state option" where
  "rom_scan pos st =
     (if \<not> pos < rom_get_last (o_ms st) then Some st
      else if \<not> is_valid_rom (EnforceChecksum st) (o_mem st) pos then rom_scan (pos + OPTION_ROM_ALIGN) st
      else Option.bind (rom_vectors pos st)
             (\<lambda>st1. rom_scan (pos + ALIGN (rom_bytes (o_mem st) pos) OPTION_ROM_ALIGN) st1))"

fun each_device :: "(pcidev \<Rightarrow> 'h orom_state \<Rightarrow> 'h orom_state option) \<Rightarrow> pcidev list \<Rightarrow> 'h orom_state \<Rightarrow> 'h orom_state option" where
  "each_device body [] st = Some st"
| "each_device body (pci # rest) st = do { st1 \<leftarrow> body pci st; each_device body rest st1 }"

definition optionrom_setup :: "'h orom_env \<Rightarrow> 'h orom_state \<Rightarrow> 'h orom_state option" where
  "optionrom_setup env st =
     (let st0 = st\<lparr>o_sources := replicate (unat ((BUILD_BIOS_ADDR - BUILD_ROM_START) div OPTION_ROM_ALIGN)) NoSource\<rparr>;
          post_vga = rom_get_last (o_ms st)
      in do {
        st1 \<leftarrow> each_device
          (\<lambda>pci s. if dev_class pci = PCI_CLASS_DISPLAY_VGA \<or> dev_class pci = PCI_CLASS_DISPLAY_OTHER \<or>
                      o_driver s (dev_bdf pci) then Some s
                   else init_pcirom env pci False True s) (o_devices st0) st0;
        let st2 = run_file_roms env (bytes_of ''genroms/'') False True st1;
        let st3 = fst (o_rom_reserve env 0 st2);
        rom_scan post_vga st3 })"

section \<open>Graphics roms\<close>

fun try_setup_display_other :: "'h orom_env \<Rightarrow> pcidev list \<Rightarrow> 'h orom_state \<Rightarrow> 'h orom_state option" where
  "try_setup_display_other env [] st = Some st"
| "try_setup_display_other env (pci # rest) st =
     (if dev_class pci \<noteq> PCI_CLASS_DISPLAY_OTHER then try_setup_display_other env rest st
      else do {
        (rom, st1) \<leftarrow> map_pcirom env pci st;
        (if rom = 0 then try_setup_display_other env rest st1
         else
           let st2 = st1\<lparr>o_hw := pci_config_maskw (oe_pci env) (dev_bdf pci) PCI_COMMAND 0
                       (PCI_COMMAND_IO OR PCI_COMMAND_MEMORY) (o_hw st1)\<rparr>
           in Some (snd (init_optionrom env rom (dev_bdf pci) True st2))) })"

definition loadint :: "string \<Rightarrow> u64 \<Rightarrow> 'h orom_state \<Rightarrow> u32 \<times> 'h orom_state" where
  "loadint name defval st =
     (let (fw, v) = romfile_loadint (bytes_of name) defval (o_fw st) in (ucast v, upd_fw (\<lambda>_. fw) st))"

definition vga_settings :: "'h orom_state \<Rightarrow> 'h orom_state" where
  "vga_settings st0 =
     (let (v1, st1) = loadint ''etc/optionroms-checksum'' 1 st0;
          (v2, st2) = loadint ''etc/s3-resume-vga-init'' 1 (st1\<lparr>EnforceChecksum := v1\<rparr>);
          (v3, st3) = loadint ''etc/pci-optionrom-exec'' 2 (st2\<lparr>S3ResumeVga := v2\<rparr>);
          (v4, st4) = loadint ''etc/screen-and-debug'' 1 (st3\<lparr>RunPCIroms := v3\<rparr>)
      in st4\<lparr>ScreenAndDebug := v4\<rparr>)"

definition vgarom_setup :: "'h orom_env \<Rightarrow> 'h orom_state \<Rightarrow> 'h orom_state option" where
  "vgarom_setup env st0 =
     (let st1 = vga_settings st0;
          st2 = upd_omem (memset BUILD_ROM_START 0 (unat (rom_get_max (o_ms st1) - BUILD_ROM_START))) st1
      in do {
        st3 \<leftarrow> (case find (is_pci_vga (oe_pci env) (o_hw st2)) (o_devices st2) of
                  Some pci \<Rightarrow> init_pcirom env pci True False (oe_vgahook env pci st2)
                | None \<Rightarrow> try_setup_display_other env (o_devices st2) st2);
        let st4 = run_file_roms env (bytes_of ''vgaroms/'') True False st3;
        let st5 = fst (o_rom_reserve env 0 st4);
        Some (if rom_get_last (o_ms st5) \<noteq> BUILD_ROM_START then st5\<lparr>VgaROM := BUILD_ROM_START\<rparr> else st5) })"

definition s3_resume_vga :: "'h orom_env \<Rightarrow> 'h orom_state \<Rightarrow> 'h orom_state" where
  "s3_resume_vga env st =
     (if S3ResumeVga st = 0 then st
      else if VgaROM st = 0 \<or> \<not> is_valid_rom (EnforceChecksum st) (o_mem st) (VgaROM st) then st
      else callrom env (VgaROM st) 0 st)"

end
