(* ===== verification/BootProps.thy ===== *)
theory BootProps
  imports Boot "HOL-Library.List_Lexorder"
begin

text \<open>
  The properties of the boot code: what a path pattern matches, that device paths stay within their
  buffers, that the lists loaded from text files have as many entries as were allocated, that the list
  of bootable devices stays sorted, which boot entries result from it, and in which order they are
  tried.
\<close>

section \<open>Patterns\<close>

text \<open>What a pattern matches: a star matches a stretch without slashes and without the character
  that follows the star in the pattern, up to such a character, a slash or the end.\<close>

inductive gmatch :: "string \<Rightarrow> string \<Rightarrow> bool" where
  gm_nil: "gmatch [] []"
| gm_char: "c \<noteq> CHR ''*'' \<Longrightarrow> gmatch g s \<Longrightarrow> gmatch (c # g) (c # s)"
| gm_star: "\<forall>x \<in> set u. x \<noteq> CHR ''/'' \<and> (g \<noteq> [] \<longrightarrow> x \<noteq> hd g) \<Longrightarrow>
    v = [] \<or> hd v = CHR ''/'' \<or> g \<noteq> [] \<and> hd v = hd g \<Longrightarrow> gmatch g v \<Longrightarrow> gmatch (CHR ''*'' # g) (u @ v)"

inductive_cases gmatch_nilE: "gmatch [] s"

definition path_end :: "string \<Rightarrow> bool" where
  "path_end s \<longleftrightarrow> s = [] \<or> hd s = CHR ''/''"

lemma glob_prefix_star:
  assumes "\<forall>x \<in> set u. x \<noteq> CHR ''/'' \<and> (g \<noteq> [] \<longrightarrow> x \<noteq> hd g)"
    and "w = [] \<or> hd w = CHR ''/'' \<or> g \<noteq> [] \<and> hd w = hd g"
  shows "glob_prefix (CHR ''*'' # g) (u @ w) = glob_prefix g w"
  using assms(1)
proof (induction u)
  case Nil
  then show ?case using assms(2) by (subst glob_prefix.simps) auto
next
  case (Cons x u)
  then have "glob_prefix (CHR ''*'' # g) (x # u @ w) = glob_prefix (CHR ''*'' # g) (u @ w)"
    by (subst glob_prefix.simps) auto
  with Cons show ?case by simp
qed

lemma glob_prefix_complete:
  assumes "gmatch g p" "path_end r"
  shows "glob_prefix g (p @ r) = Some r"
  using assms(1)
proof induction
  case gm_nil
  then show ?case using assms(2) by (subst glob_prefix.simps) (auto simp: path_end_def)
next
  case (gm_char c g s)
  then show ?case by (subst glob_prefix.simps) auto
next
  case (gm_star u g v)
  have "v @ r = [] \<or> hd (v @ r) = CHR ''/'' \<or> g \<noteq> [] \<and> hd (v @ r) = hd g"
    using gm_star.hyps(2) assms(2) by (cases v) (auto simp: path_end_def)
  then have "glob_prefix (CHR ''*'' # g) (u @ v @ r) = glob_prefix g (v @ r)"
    by (rule glob_prefix_star [OF gm_star.hyps(1)])
  with gm_star.IH show ?case by simp
qed

lemma glob_prefix_sound:
  "glob_prefix g s = Some r \<Longrightarrow> \<exists>p. s = p @ r \<and> path_end r \<and> gmatch g p"
proof (induction g s rule: glob_prefix.induct)
  case (1 glob str)
  consider (finish) "glob = []" "path_end str"
    | (stop) g where "glob = CHR ''*'' # g" "str = [] \<or> hd str = CHR ''/'' \<or> g \<noteq> [] \<and> hd str = hd g"
    | (skip) g x s where "glob = CHR ''*'' # g" "str = x # s" "x \<noteq> CHR ''/''" "g \<noteq> [] \<longrightarrow> x \<noteq> hd g"
    | (fail) "glob = [] \<or> hd glob \<noteq> CHR ''*''" "glob = [] \<longrightarrow> \<not> path_end str"
        "glob = [] \<or> str = [] \<or> hd glob \<noteq> hd str"
    | (char) c g s where "glob = c # g" "str = c # s" "c \<noteq> CHR ''*''"
    unfolding path_end_def by (cases glob; cases str; force)
  then show ?case
  proof cases
    case finish
    with 1(4) show ?thesis
      by (subst (asm) glob_prefix.simps) (auto simp: path_end_def intro: gm_nil)
  next
    case (stop g)
    then have "glob_prefix g str = Some r"
      using 1(4) by (subst (asm) glob_prefix.simps) auto
    with 1(1) stop obtain p where p: "str = p @ r" "path_end r" "gmatch g p" by auto
    have "p = [] \<or> hd p = CHR ''/'' \<or> g \<noteq> [] \<and> hd p = hd g"
      using stop(2) p(1) by (cases p) auto
    then have "gmatch (CHR ''*'' # g) p" using gm_star [of "[]" g p] p(3) by simp
    with p stop(1) show ?thesis by auto
  next
    case (skip g x s)
    then have "glob_prefix glob s = Some r"
      using 1(4) by (subst (asm) glob_prefix.simps) auto
    with 1(2) skip obtain p where p: "s = p @ r" "path_end r" "gmatch (CHR ''*'' # g) p" by auto
    from p(3) obtain u v where uv: "p = u @ v"
        "\<forall>x \<in> set u. x \<noteq> CHR ''/'' \<and> (g \<noteq> [] \<longrightarrow> x \<noteq> hd g)"
        "v = [] \<or> hd v = CHR ''/'' \<or> g \<noteq> [] \<and> hd v = hd g" "gmatch g v"
      by (cases rule: gmatch.cases) auto
    then have "gmatch (CHR ''*'' # g) ((x # u) @ v)"
      using skip by (intro gm_star) auto
    with p skip uv(1) show ?thesis by (intro exI [of _ "x # p"]) simp
  next
    case fail
    with 1(4) show ?thesis by (subst (asm) glob_prefix.simps) (auto simp: path_end_def)
  next
    case (char c g s)
    then have "glob_prefix g s = Some r" using 1(4) by (subst (asm) glob_prefix.simps) auto
    with 1(3) char obtain p where "s = p @ r" "path_end r" "gmatch g p" by auto
    with char show ?thesis by (intro exI [of _ "c # p"]) (auto intro: gm_char)
  qed
qed

text \<open>C18. \<open>glob_prefix\<close> returns for every pattern and string, and it returns the rest \<open>r\<close> of the
  string exactly when the part before \<open>r\<close> matches the whole pattern and \<open>r\<close> is empty or starts with
  a slash; otherwise it returns null.\<close>

theorem glob_prefix_iff:
  "glob_prefix g s = Some r \<longleftrightarrow> (\<exists>p. s = p @ r \<and> path_end r \<and> gmatch g p)"
  using glob_prefix_sound glob_prefix_complete by blast

section \<open>Buffers\<close>

lemma append_fmt_length:
  "length p < sz \<Longrightarrow> length (append_fmt sz fmt args p) < sz"
  using snprintf_length [of "sz - length p" fmt args] by (simp add: append_fmt_def)

lemma build_pci_path_length: "0 < sz \<Longrightarrow> length (build_pci_path sz devname pci) < sz"
proof (induction sz devname pci rule: build_pci_path.induct)
  case (1 sz devname bdf rootbus parent)
  show ?case
  proof (cases parent)
    case None
    with 1 show ?thesis by (simp add: Let_def append_fmt_length)
  next
    case (Some pci)
    with 1 show ?thesis by (simp add: Let_def append_fmt_length)
  qed
qed

lemma build_usb_path_length: "length p < sz \<Longrightarrow> length (build_usb_path sz ports p) < sz"
  by (induction sz ports p rule: build_usb_path.induct) (auto simp: append_fmt_length)

text \<open>
  Device paths never leave their buffer, however deep the bridges are nested: with the
  terminating zero a path takes at most the size of the buffer.\<close>

theorem device_paths_fit:
  assumes "0 < sz"
  shows "length (build_pci_path sz devname pci) < sz \<and> length (build_scsi_path sz pci target lun) < sz \<and>
    length (build_ata_path sz pci chanid slave) < sz \<and>
    length (build_usb_path sz ports (build_pci_path sz devname pci)) < sz"
  using assms
  by (simp add: build_pci_path_length build_scsi_path_def build_ata_path_def append_fmt_length
      build_usb_path_length)

theorem device_paths_fit_witness:
  "length (build_scsi_path 256 (PciDevice 0x28 0 (Some (PciDevice 0x10 1 None))) 3 0) < 256"
  using device_paths_fit [of 256] by simp

section \<open>Text files\<close>

lemma count_newlines_rest:
  "dropWhile (\<lambda>c. c \<noteq> nl) f = x # rest \<Longrightarrow> count_newlines f = Suc (count_newlines rest)"
  by (induction f) (auto split: if_splits)

lemma count_newlines_none: "dropWhile (\<lambda>c. c \<noteq> nl) f = [] \<Longrightarrow> count_newlines f = 1"
  by (induction f) (auto split: if_splits)

lemma split_lines_length: "length (split_lines f) = count_newlines f"
proof (induction f rule: split_lines.induct)
  case (1 f)
  show ?case
  proof (cases "dropWhile (\<lambda>c. c \<noteq> nl) f")
    case Nil
    then show ?thesis by (subst split_lines.simps) (simp add: count_newlines_none del: dropWhile_eq_Nil_conv)
  next
    case (Cons x rest)
    with 1 [OF Cons] show ?thesis
      by (subst split_lines.simps) (simp add: count_newlines_rest)
  qed
qed

lemma parse_digits_putuint:
  assumes "\<forall>c \<in> set ds. isdigit c" "\<not> isdigit c"
  shows "parse_digits (ds @ c # rest) m = (c # rest, foldl (\<lambda>m c. 10 * m + of_nat (digit_val c)) m ds)"
  using assms by (induction ds arbitrary: m) auto

lemma foldl_dec: "foldl (\<lambda>m c. 10 * m + of_nat (digit_val c)) (of_nat k) ds =
    (of_nat (foldl (\<lambda>m c. 10 * m + digit_val c) k ds) :: u32)"
proof (induction ds arbitrary: k)
  case Nil
  show ?case by simp
next
  case (Cons d ds)
  show ?case using Cons.IH [of "10 * k + digit_val d"] by simp
qed

text \<open>A number printed by the formatter is parsed back by \<open>parse_u32\<close>, up to the separator.\<close>

lemma parse_u32_putuint:
  assumes "\<not> isdigit c"
  shows "parse_u32 (Some (putuint v @ c # rest)) = (Some rest, v)"
proof -
  have "\<forall>c \<in> set (putuint v). isdigit c" by (simp add: putuint_def putuint_nat_digits)
  then have "parse_digits (putuint v @ c # rest) 0 =
      (c # rest, foldl (\<lambda>m c. 10 * m + of_nat (digit_val c)) 0 (putuint v))"
    by (rule parse_digits_putuint [OF _ assms])
  moreover have "foldl (\<lambda>m c. 10 * m + of_nat (digit_val c)) 0 (putuint v) = v"
    using foldl_dec [of 0 "putuint v"] putuint_nat_val [of "unat v"]
    by (simp add: putuint_def dec_val_def)
  ultimately show ?thesis by (simp add: parse_u32_def)
qed

section \<open>Priorities\<close>

lemma find_prio_from_iff:
  "find_prio_from i glob bs =
     (case find (\<lambda>k. glob_prefix glob (bs ! k) \<noteq> None) [0..<length bs] of
        None \<Rightarrow> -1 | Some k \<Rightarrow> i + int k + 1)"
proof (induction bs arbitrary: i)
  case Nil
  show ?case by simp
next
  case (Cons b bs)
  have up: "[0..<length (b # bs)] = 0 # map Suc [0..<length bs]"
    by (simp add: upt_conv_Cons map_Suc_upt del: upt_Suc)
  have m: "find P (map Suc xs) = map_option Suc (find (\<lambda>k. P (Suc k)) xs)" for P xs
    by (induction xs) auto
  show ?case unfolding up by (auto simp: Cons.IH m split: option.splits)
qed


definition boot_zero :: boot_state where
  "boot_zero = \<lparr>b_fw = fw_zero, BootRetryTime = 0, CheckFloppySig = True, DefaultFloppyPrio = 101,
     DefaultCDPrio = 102, DefaultHDPrio = 103, DefaultBEVPrio = 104, Bootorder = [], BiosGeometry = [],
     BootList = [], BEV = [], HaveHDBoot = 0, HaveFDBoot = 0, b_actions = [], BootSequence = -1\<rparr>"

text \<open>The priority of a device is the position, counted from 1, of the first line of the boot
  order that its path pattern matches, and -1 when no line matches.\<close>

theorem find_prio_first:
  "(find_prio glob st = -1 \<longleftrightarrow> (\<forall>b \<in> set (Bootorder st). glob_prefix glob b = None)) \<and>
   (find_prio glob st = int k + 1 \<longleftrightarrow> k < length (Bootorder st) \<and>
      glob_prefix glob (Bootorder st ! k) \<noteq> None \<and> (\<forall>j < k. glob_prefix glob (Bootorder st ! j) = None))"
proof -
  let ?P = "\<lambda>k. glob_prefix glob (Bootorder st ! k) \<noteq> None"
  show ?thesis
  proof (cases "find ?P [0..<length (Bootorder st)]")
    case None
    then have "\<forall>j < length (Bootorder st). \<not> ?P j" by (auto simp: find_None_iff)
    then show ?thesis
      using None by (auto simp: find_prio_def find_prio_from_iff in_set_conv_nth)
  next
    case (Some i)
    then have i: "i < length (Bootorder st)" "?P i" "\<forall>j < i. \<not> ?P j"
      by (auto simp: find_Some_iff)
    have eq: "find_prio glob st = int i + 1"
      using Some by (simp add: find_prio_def find_prio_from_iff)
    have "k = i \<longleftrightarrow> k < length (Bootorder st) \<and> ?P k \<and> (\<forall>j < k. \<not> ?P j)"
      using i by (metis linorder_neqE_nat)
    moreover have "(int i + 1 = int k + 1) = (k = i)" by auto
    ultimately have P: "(find_prio glob st = int k + 1) \<longleftrightarrow>
        k < length (Bootorder st) \<and> ?P k \<and> (\<forall>j < k. glob_prefix glob (Bootorder st ! j) = None)"
      by (simp only: eq not_not)
    have none: "\<not> (\<forall>b \<in> set (Bootorder st). glob_prefix glob b = None)"
    proof
      assume "\<forall>b \<in> set (Bootorder st). glob_prefix glob b = None"
      then have "glob_prefix glob (Bootorder st ! i) = None" using nth_mem [OF i(1)] by (rule bspec)
      with i(2) show False by simp
    qed
    have "find_prio glob st \<noteq> -1" unfolding eq by simp
    with none have "find_prio glob st = -1 \<longleftrightarrow> (\<forall>b \<in> set (Bootorder st). glob_prefix glob b = None)"
      by (simp only:)
    then show ?thesis using P by (rule conjI)
  qed
qed

theorem find_prio_first_witness:
  "find_prio ''/b'' (boot_zero\<lparr>Bootorder := [''/a'', ''/b'']\<rparr>) = 2"
proof -
  have g: "glob_prefix ''/b'' ''/a'' = None" "glob_prefix ''/b'' ''/b'' \<noteq> None" by code_simp+
  then have j: "\<forall>j < 1. glob_prefix ''/b'' (Bootorder (boot_zero\<lparr>Bootorder := [''/a'', ''/b'']\<rparr>) ! j) = None"
    by simp
  show ?thesis
    using find_prio_first [of "''/b''" "boot_zero\<lparr>Bootorder := [''/a'', ''/b'']\<rparr>" 1] g j by simp
qed

section \<open>The list of boot entries\<close>

definition be_le :: "bootentry_s \<Rightarrow> bootentry_s \<Rightarrow> bool" where
  "be_le x y \<longleftrightarrow> \<not> be_before y x"

interpretation boot_list: sorted_hlist be_before be_le
  by unfold_locales (auto simp: be_le_def be_before_def split: if_splits)

lemma be_before_le: "be_before x y \<Longrightarrow> be_le y z \<Longrightarrow> be_before x z"
  by (auto simp: be_le_def be_before_def split: if_splits)

lemma takeWhile_filter_sorted:
  assumes "sorted_wrt be_le l"
  shows "takeWhile (\<lambda>y. \<not> be_before be y) l = filter (\<lambda>y. \<not> be_before be y) l"
    "dropWhile (\<lambda>y. \<not> be_before be y) l = filter (be_before be) l"
  using assms
proof (induction l)
  case (Cons y l)
  {
    case 1
    show ?case
    proof (cases "be_before be y")
      case True
      with 1 have "\<forall>z \<in> set l. be_before be z" by (auto intro: be_before_le)
      with True show ?thesis by (simp add: filter_empty_conv)
    next
      case False
      with 1 Cons(1) show ?thesis by simp
    qed
  next
    case 2
    show ?case
    proof (cases "be_before be y")
      case True
      with 2 have "\<forall>z \<in> set l. be_before be z" by (auto intro: be_before_le)
      with True show ?thesis by (simp add: filter_id_conv)
    next
      case False
      with 2 Cons(2) show ?thesis by simp
    qed
  }
qed simp_all

text \<open>What the order is meant to be: by priority, then by type, and drives of the same priority and type by the driver
  type and the controller: the lexicographic order of these numbers.\<close>

definition boot_rank :: "bootentry_s \<Rightarrow> int list" where
  "boot_rank be = [be_priority be, be_type be] @
     (if be_type be \<le> 3 then [uint (be_drive_type be), uint (be_cntl_id be)] else [])"

lemma be_before_rank: "be_before x y \<longleftrightarrow> boot_rank x < boot_rank y"
  by (auto simp: be_before_def boot_rank_def IPL_TYPE_CDROM_def word_less_def word_uint_eq_iff)

lemma sorted_ranks: "sorted (map boot_rank l) \<longleftrightarrow> sorted_wrt be_le l"
proof -
  have "be_le = (\<lambda>x y. boot_rank x \<le> boot_rank y)" by (auto simp: be_le_def be_before_rank fun_eq_iff)
  then show ?thesis by (simp add: sorted_map)
qed

text \<open>C19. Registering a bootable device keeps the boot list sorted by priority, type and, for drives,
  driver type and controller: the new entry comes behind every entry it does not strictly precede, so
  devices that tie keep the order of registration.\<close>

theorem bootentry_add_sorted:
  assumes "sorted (map boot_rank (BootList st))"
  shows "sorted (map boot_rank (BootList (bootentry_add be st))) \<and>
    BootList (bootentry_add be st) =
      (if snd (malloc_tmp sizeof_bootentry (b_fw st)) = 0 then BootList st
       else filter (\<lambda>y. boot_rank y \<le> boot_rank be) (BootList st) @ be #
         filter (\<lambda>y. boot_rank be < boot_rank y) (BootList st))"
proof -
  note srt = assms [unfolded sorted_ranks]
  have before: "be_before be = (\<lambda>y. boot_rank be < boot_rank y)" by (simp add: fun_eq_iff be_before_rank)
  have "hlist_insert (be_before be) be (BootList st) =
      filter (\<lambda>y. boot_rank y \<le> boot_rank be) (BootList st) @ be # filter (\<lambda>y. boot_rank be < boot_rank y) (BootList st)"
    unfolding hlist_insert_eq takeWhile_filter_sorted [OF srt] by (simp only: before not_less)
  then show ?thesis
    using boot_list.insert_sorted [OF srt, of be] srt unfolding sorted_ranks
    by (simp add: bootentry_add_def split_beta Let_def)
qed

theorem bootentry_add_sorted_witness:
  "map be_priority (BootList (boot_add_hd 0x100 0x20 0 None 2 (boot_add_cd False None 0x200 0x21 0 None 5 boot_zero)))
     = [2, 5]"
proof -
  let ?cd = "drive_entry IPL_TYPE_CDROM 5 0x200 0x21 0 None"
  let ?hd = "drive_entry IPL_TYPE_HARDDISK 2 0x100 0x20 0 None"
  let ?st = "boot_add_cd False None 0x200 0x21 0 None 5 boot_zero"
  have st: "?st = bootentry_add ?cd boot_zero" by (simp add: boot_add_cd_def defPrio_def)
  have mem: "snd (malloc_tmp sizeof_bootentry (b_fw boot_zero)) \<noteq> 0"
    "snd (malloc_tmp sizeof_bootentry (b_fw ?st)) \<noteq> 0" by code_simp+
  have empty: "sorted (map boot_rank (BootList boot_zero))" by (simp add: boot_zero_def)
  have bl: "BootList boot_zero = []" by (simp add: boot_zero_def)
  have one: "BootList ?st = [?cd]"
    unfolding st using bootentry_add_sorted [OF empty, of ?cd] mem(1) by (simp add: bl)
  have "boot_rank ?hd < boot_rank ?cd"
    by (simp add: boot_rank_def drive_entry_def plain_entry_def)
  moreover have "boot_add_hd 0x100 0x20 0 None 2 ?st = bootentry_add ?hd ?st"
    by (simp add: boot_add_hd_def defPrio_def)
  ultimately show ?thesis
    using bootentry_add_sorted [of ?st ?hd] one mem(2)
    by (simp add: drive_entry_def plain_entry_def not_le)
qed

section \<open>Boot execution vectors\<close>

text \<open>The entry that a device of the boot list asks for, and the entries that are kept: only the first
  floppy and the first hard disk entry.\<close>

definition bev_of :: "bootentry_s \<Rightarrow> bev_s" where
  "bev_of pos =
     (if be_type pos = IPL_TYPE_BCV \<or> be_type pos = IPL_TYPE_HARDDISK
      then \<lparr>bev_type = IPL_TYPE_HARDDISK, bev_vector = 0\<rparr>
      else if be_type pos = IPL_TYPE_FLOPPY then \<lparr>bev_type = IPL_TYPE_FLOPPY, bev_vector = 0\<rparr>
      else \<lparr>bev_type = be_type pos, bev_vector = be_data pos\<rparr>)"

fun first_disks :: "bool \<Rightarrow> bool \<Rightarrow> bev_s list \<Rightarrow> bev_s list" where
  "first_disks h f [] = []"
| "first_disks h f (b # bs) =
     (if bev_type b = IPL_TYPE_HARDDISK then (if h then [] else [b]) @ first_disks True f bs
      else if bev_type b = IPL_TYPE_FLOPPY then (if f then [] else [b]) @ first_disks h True bs
      else b # first_disks h f bs)"

text \<open>Everything of the state that \<open>add_bev\<close> works on.\<close>

definition bev_view :: "boot_state \<Rightarrow> bev_s list \<times> bool \<times> bool" where
  "bev_view st = (BEV st, HaveHDBoot st \<noteq> 0, HaveFDBoot st \<noteq> 0)"

fun add_view :: "bev_s \<Rightarrow> bev_s list \<times> bool \<times> bool \<Rightarrow> bev_s list \<times> bool \<times> bool" where
  "add_view b (bevs, h, f) =
     (if bev_type b = IPL_TYPE_HARDDISK then (if h then bevs else take 20 (bevs @ [b]), True, f)
      else if bev_type b = IPL_TYPE_FLOPPY then (if f then bevs else take 20 (bevs @ [b]), h, True)
      else (take 20 (bevs @ [b]), h, f))"

lemma add_bev_view:
  assumes "length (BEV st) \<le> 20"
  shows "bev_view (add_bev t v st) = add_view \<lparr>bev_type = t, bev_vector = v\<rparr> (bev_view st)"
    "length (BEV (add_bev t v st)) \<le> 20"
  using assms
  by (auto simp: add_bev_def bev_view_def Let_def ipl_defs)

lemma prepboot_entry_view:
  assumes "length (BEV st) \<le> 20"
  shows "bev_view (prepboot_entry pos st) = add_view (bev_of pos) (bev_view st)"
    "length (BEV (prepboot_entry pos st)) \<le> 20"
proof -
  have act: "bev_view (act a st) = bev_view st" "length (BEV (act a st)) \<le> 20" for a
    using assms by (simp_all add: act_def bev_view_def)
  show "bev_view (prepboot_entry pos st) = add_view (bev_of pos) (bev_view st)"
    using add_bev_view(1) [OF act(2)] add_bev_view(1) [OF assms] act(1)
    by (simp add: prepboot_entry_def bev_of_def ipl_defs)
  show "length (BEV (prepboot_entry pos st)) \<le> 20"
    using add_bev_view(2) [OF act(2)] add_bev_view(2) [OF assms]
    by (simp add: prepboot_entry_def)
qed

lemma fold_prepboot_view:
  "length (BEV st) \<le> 20 \<Longrightarrow>
     bev_view (fold prepboot_entry l st) = fold add_view (map bev_of l) (bev_view st) \<and>
     length (BEV (fold prepboot_entry l st)) \<le> 20"
proof (induction l arbitrary: st)
  case Nil
  then show ?case by simp
next
  case (Cons pos l)
  note p = prepboot_entry_view [OF Cons.prems, of pos]
  from Cons.IH [OF p(2)] p(1) show ?case by simp
qed

lemma fold_add_view:
  "length bevs \<le> 20 \<Longrightarrow>
     fst (fold add_view bs (bevs, h, f)) = take 20 (bevs @ first_disks h f bs)"
proof (induction bs arbitrary: bevs h f)
  case Nil
  then show ?case by simp
next
  case (Cons b bs)
  have t: "take 20 (take 20 (bevs @ [b]) @ xs) = take 20 (bevs @ b # xs)" for xs
    using Cons.prems by (cases "length bevs = 20") auto
  have step: "fst (fold add_view bs (take 20 (bevs @ [b]), h', f')) = take 20 (bevs @ b # first_disks h' f' bs)"
    for h' f' by (subst Cons.IH) (simp, rule t)
  have skip: "fst (fold add_view bs (bevs, h', f')) = take 20 (bevs @ first_disks h' f' bs)" for h' f'
    by (rule Cons.IH [OF Cons.prems])
  show ?case
    by (cases "bev_type b = IPL_TYPE_HARDDISK"; cases "bev_type b = IPL_TYPE_FLOPPY"; cases h; cases f)
      (simp_all add: step skip ipl_defs del: take_append)
qed

text \<open>
  The table of boot entries after \<open>bcv_prepboot\<close>: the entries of the boot list in their
  order, of the hard disk and floppy entries only the first, with a floppy and a hard disk entry added
  at the end if there was none, cut to the 20 entries of the array.\<close>

theorem bcv_prepboot_entries:
  assumes "BEV st = []" "HaveHDBoot st = 0" "HaveFDBoot st = 0"
    and "l = BootList (if find_prio ''HALT'' st \<ge> 0
      then bootentry_add (plain_entry IPL_TYPE_HALT (find_prio ''HALT'' st) 0 (Some ''HALT'')) st else st)"
  shows "BEV (bcv_prepboot st) = take 20 (first_disks False False
    (map bev_of l @ [\<lparr>bev_type = IPL_TYPE_FLOPPY, bev_vector = 0\<rparr>, \<lparr>bev_type = IPL_TYPE_HARDDISK, bev_vector = 0\<rparr>]))"
proof -
  define st1 where "st1 = (if find_prio ''HALT'' st \<ge> 0
    then bootentry_add (plain_entry IPL_TYPE_HALT (find_prio ''HALT'' st) 0 (Some ''HALT'')) st else st)"
  have st1: "bev_view st1 = ([], False, False)" "length (BEV st1) \<le> 20"
    using assms(1-3) by (simp_all add: st1_def bev_view_def bootentry_add_def split_beta Let_def)
  define st2 where "st2 = fold prepboot_entry l st1"
  have st2: "bev_view st2 = fold add_view (map bev_of l) ([], False, False)" "length (BEV st2) \<le> 20"
    using fold_prepboot_view [OF st1(2), of l] by (simp_all add: st2_def st1(1))
  define st3 where "st3 = add_bev IPL_TYPE_FLOPPY 0 st2"
  note st3 = add_bev_view [OF st2(2), of IPL_TYPE_FLOPPY 0, folded st3_def]
  have "bcv_prepboot st = add_bev IPL_TYPE_HARDDISK 0 st3"
    using assms(4) by (simp add: bcv_prepboot_def Let_def st3_def st2_def st1_def)
  then have "bev_view (bcv_prepboot st) = add_view \<lparr>bev_type = IPL_TYPE_HARDDISK, bev_vector = 0\<rparr>
      (add_view \<lparr>bev_type = IPL_TYPE_FLOPPY, bev_vector = 0\<rparr> (fold add_view (map bev_of l) ([], False, False)))"
    using add_bev_view(1) [OF st3(2)] st3(1) st2(1) by simp
  then have "bev_view (bcv_prepboot st) = fold add_view
      (map bev_of l @ [\<lparr>bev_type = IPL_TYPE_FLOPPY, bev_vector = 0\<rparr>, \<lparr>bev_type = IPL_TYPE_HARDDISK, bev_vector = 0\<rparr>])
      ([], False, False)" by simp
  then have "BEV (bcv_prepboot st) = fst (fold add_view
      (map bev_of l @ [\<lparr>bev_type = IPL_TYPE_FLOPPY, bev_vector = 0\<rparr>, \<lparr>bev_type = IPL_TYPE_HARDDISK, bev_vector = 0\<rparr>])
      ([], False, False))" by (metis bev_view_def fst_conv)
  then show ?thesis by (simp only: fold_add_view list.size) (simp del: fold_append)
qed

theorem bcv_prepboot_entries_witness:
  "map bev_type (BEV (bcv_prepboot (boot_zero\<lparr>BootList := [plain_entry IPL_TYPE_BCV 1 0 None,
     drive_entry IPL_TYPE_HARDDISK 2 0x100 0x20 0 None, drive_entry IPL_TYPE_CDROM 3 0x200 0x21 0 None]\<rparr>)))
   = [IPL_TYPE_HARDDISK, IPL_TYPE_CDROM, IPL_TYPE_FLOPPY]"
  by (subst bcv_prepboot_entries [OF _ _ _ refl])
    (simp_all add: boot_zero_def find_prio_def bev_of_def plain_entry_def drive_entry_def ipl_defs)

section \<open>Boot attempts\<close>

lemma do_boot_seq: "do_boot rd cd n (st\<lparr>BootSequence := k\<rparr>) = do_boot rd cd n st"
  by (simp add: do_boot_def Let_def)

lemma boot_run_from:
  assumes "length (BEV st) - i \<le> n" "i \<le> length (BEV st)" "BootSequence st = int i"
  shows "\<exists>k. i \<le> k \<and> k \<le> length (BEV st) \<and>
    (\<forall>j. i \<le> j \<and> j < k \<longrightarrow> gives_up (do_boot rd cd (int j) st) (returns (int j))) \<and>
    \<not> gives_up (do_boot rd cd (int k) st) (returns (int k)) \<and>
    boot_run n rd cd returns (st, do_boot rd cd (int i) st) = map (\<lambda>j. do_boot rd cd (int j) st) [i..<Suc k]"
  using assms
proof (induction n arbitrary: i st)
  case 0
  then have i: "i = length (BEV st)" by simp
  then have "do_boot rd cd (int i) st = BootFail" by (simp add: do_boot_def)
  with i show ?case by (intro exI [of _ i]) auto
next
  case (Suc n)
  show ?case
  proof (cases "gives_up (do_boot rd cd (int i) st) (returns (int i))")
    case False
    with Suc.prems show ?thesis by (intro exI [of _ i]) auto
  next
    case True
    have lt: "i < length (BEV st)"
    proof (rule ccontr)
      assume "\<not> i < length (BEV st)"
      then have "do_boot rd cd (int i) st = BootFail" by (simp add: do_boot_def)
      with True show False by simp
    qed
    let ?st = "st\<lparr>BootSequence := int (Suc i)\<rparr>"
    have h: "handle_18 rd cd st = (?st, do_boot rd cd (int (Suc i)) ?st)"
      using Suc.prems(3) by (simp add: handle_18_def Let_def add.commute)
    have "\<exists>k. Suc i \<le> k \<and> k \<le> length (BEV ?st) \<and>
        (\<forall>j. Suc i \<le> j \<and> j < k \<longrightarrow> gives_up (do_boot rd cd (int j) ?st) (returns (int j))) \<and>
        \<not> gives_up (do_boot rd cd (int k) ?st) (returns (int k)) \<and>
        boot_run n rd cd returns (?st, do_boot rd cd (int (Suc i)) ?st) =
          map (\<lambda>j. do_boot rd cd (int j) ?st) [Suc i..<Suc k]"
      using Suc.prems lt by (intro Suc.IH) auto
    then obtain k where k: "Suc i \<le> k" "k \<le> length (BEV st)"
        "\<forall>j. Suc i \<le> j \<and> j < k \<longrightarrow> gives_up (do_boot rd cd (int j) st) (returns (int j))"
        "\<not> gives_up (do_boot rd cd (int k) st) (returns (int k))"
        "boot_run n rd cd returns (?st, do_boot rd cd (int (Suc i)) ?st) =
          map (\<lambda>j. do_boot rd cd (int j) st) [Suc i..<Suc k]"
      unfolding do_boot_seq by auto
    have "\<forall>j. i \<le> j \<and> j < k \<longrightarrow> gives_up (do_boot rd cd (int j) st) (returns (int j))"
      using k(3) True by (metis le_eq_less_or_eq Suc_leI)
    moreover have "boot_run (Suc n) rd cd returns (st, do_boot rd cd (int i) st) =
        map (\<lambda>j. do_boot rd cd (int j) st) [i..<Suc k]"
      using True Suc.prems(3) h k(1,5) by (simp add: upt_conv_Cons [of i] del: upt_Suc)
    ultimately show ?thesis using k(1,2,4) by (intro exI [of _ k]) auto
  qed
qed

text \<open>
  What the attempt of one entry of the table is meant to be. A floppy or hard disk boots from the sector that the
  first drive delivers, at \<open>0000:7c00\<close> and with the number of the drive; the signature is checked unless it is a floppy
  and the check is off. A CD boots where it was loaded, with the offset and segment normalised; an entry of an option rom
  at its vector.\<close>

definition sector_attempt :: "u8 list option \<Rightarrow> u8 \<Rightarrow> bool \<Rightarrow> attempt" where
  "sector_attempt sec drv checksig =
     (case sec of None \<Rightarrow> ReadFailed
      | Some bs \<Rightarrow> if checksig \<and> take 2 (drop 510 bs) \<noteq> [0x55, 0xaa] then NotBootable else Jump 0 0x7c00 drv)"

definition cd_attempt :: "u32 \<times> u8 \<times> u16 \<Rightarrow> attempt" where
  "cd_attempt r = (case r of (status, drv, seg) \<Rightarrow>
     if status \<noteq> 0 then CdFailed status
     else Jump (of_nat (unat seg div 0x1000 * 0x1000)) (of_nat (unat seg mod 0x1000 * 16)) drv)"

definition entry_attempt ::
    "(u8 \<Rightarrow> u8 list option) \<Rightarrow> (u32 \<Rightarrow> u32 \<times> u8 \<times> u16) \<Rightarrow> bool \<Rightarrow> bev_s \<Rightarrow> attempt" where
  "entry_attempt rd cd checksig e =
     (if bev_type e = 1 then sector_attempt (rd 0) 0 checksig
      else if bev_type e = 2 then sector_attempt (rd 0x80) 0x80 True
      else if bev_type e = 3 then cd_attempt (cd (bev_vector e))
      else if bev_type e = 0x20 then NoCbfs
      else if bev_type e = 0x80
      then Jump (of_nat (unat (bev_vector e) div 0x10000)) (of_nat (unat (bev_vector e) mod 0x10000)) 0
      else if bev_type e = 0xf0 then BootFail
      else NoMethod)"

definition comes_back :: "attempt \<Rightarrow> bool \<Rightarrow> bool" where
  "comes_back a returns \<longleftrightarrow> a \<noteq> BootFail \<and> ((\<exists>s i d. a = Jump s i d) \<longrightarrow> returns)"

lemma gives_up_comes_back: "gives_up a r = comes_back a r"
  by (cases a) (simp_all add: comes_back_def)

lemma signature_bytes:
  assumes "length bs = 512"
  shows "(le_word (take 2 (drop 510 bs)) :: u16) = 0xaa55 \<longleftrightarrow> take 2 (drop 510 bs) = [0x55, 0xaa]"
proof -
  have "length (take 2 (drop 510 bs)) = 2" using assms by simp
  then obtain a b where ab: "take 2 (drop 510 bs) = [a, b]"
    by (cases "take 2 (drop 510 bs)"; cases "tl (take 2 (drop 510 bs))") auto
  have v: "le_bytes 2 (0xaa55 :: u16) = [0x55, 0xaa]" by code_simp
  have "le_bytes 2 (le_word [a, b] :: u16) = [a, b]" by (rule bytes_le_word) simp_all
  moreover have "(le_word [0x55, 0xaa] :: u16) = 0xaa55" by code_simp
  ultimately show ?thesis unfolding ab using v by metis
qed

lemma canonical_entry_eq:
  "canonical_entry seg drv = Jump (of_nat (unat seg div 0x1000 * 0x1000)) (of_nat (unat seg mod 0x1000 * 16)) drv"
proof -
  have masks: "(0x0fff :: u16) = mask 12" "(0xf000 :: u16) = push_bit 12 (mask 4)" by (simp_all add: mask_eq_exp_minus_1)
  have "seg AND 0x0fff = of_nat (unat seg mod 0x1000)"
    by (simp add: masks word_unat_eq_iff unat_of_nat unsigned_take_bit_eq take_bit_eq_mod unat_mod flip: take_bit_eq_mask)
  then have lo: "push_bit 4 (seg AND 0x0fff) = of_nat (unat seg mod 0x1000 * 16)"
    by (simp add: push_bit_eq_mult)
  have "seg AND 0xf000 = push_bit 12 (drop_bit 12 seg)"
    unfolding masks by (rule bit_word_eqI) (auto simp: bit_simps)
  also have "drop_bit 12 seg = of_nat (unat seg div 0x1000)"
    using unat_u16_bound [of seg] by (simp add: word_unat_eq_iff unat_of_nat unsigned_drop_bit_eq drop_bit_eq_div take_bit_eq_mod unat_div)
  also have "push_bit 12 (of_nat (unat seg div 0x1000)) = (of_nat (unat seg div 0x1000 * 0x1000) :: u16)"
    by (simp add: push_bit_eq_mult)
  finally show ?thesis by (simp only: canonical_entry_def lo)
qed

lemma boot_rom_eq: "boot_rom v = Jump (of_nat (unat v div 0x10000)) (of_nat (unat v mod 0x10000)) 0"
  by (simp add: boot_rom_def word_unat_eq_iff unat_of_nat unsigned_ucast_eq unsigned_drop_bit_eq drop_bit_eq_div take_bit_eq_mod unat_div)

lemma do_boot_entry:
  assumes "\<forall>d bs. rd d = Some bs \<longrightarrow> length bs = 512"
  shows "do_boot rd cd (int j) st =
    (if j < length (BEV st) then entry_attempt rd cd (CheckFloppySig st) (BEV st ! j) else BootFail)"
proof -
  have s: "boot_disk rd d c = sector_attempt (rd d) d c" for d c
    using assms signature_bytes
    by (auto simp: boot_disk_def sector_attempt_def canonical_entry_def split: option.split)
  show ?thesis
    by (simp add: do_boot_def entry_attempt_def s boot_rom_eq boot_cdrom_def cd_attempt_def canonical_entry_eq ipl_defs split_beta Let_def)
qed

text \<open>C10. The boot sequence: interrupt 0x19 tries the entries of the table one after the other, each
  exactly once and in the order of the table, up to the first attempt that does not come back. It always ends: at the
  latest, after the last entry, with the boot failure that resets the machine. What attempt \<open>j\<close> does is
  what \<open>entry_attempt\<close> says of entry \<open>j\<close>; a sector has 512 bytes.\<close>

theorem boot_sequence_in_order:
  fixes rd :: "u8 \<Rightarrow> u8 list option" and st :: boot_state
  assumes "\<forall>d bs. rd d = Some bs \<longrightarrow> length bs = 512"
    and "tries = map (entry_attempt rd cd (CheckFloppySig st)) (BEV st) @ [BootFail]"
  shows "\<exists>k \<le> length (BEV st).
     boot_run (length (BEV st)) rd cd returns (handle_19 rd cd st) = take (Suc k) tries \<and>
     (\<forall>j < k. comes_back (tries ! j) (returns (int j))) \<and> \<not> comes_back (tries ! k) (returns (int k))"
proof -
  let ?st = "st\<lparr>BootSequence := 0\<rparr>"
  have t: "tries ! j = do_boot rd cd (int j) st" if "j \<le> length (BEV st)" for j
    using that by (auto simp: assms(2) nth_append do_boot_entry [OF assms(1)])
  have len: "length tries = Suc (length (BEV st))" by (simp add: assms(2))
  have "map (\<lambda>j. do_boot rd cd (int j) st) [0..<Suc k] = take (Suc k) tries" if "k \<le> length (BEV st)" for k
    using that t len by (intro nth_equalityI) (simp_all del: upt_Suc)
  moreover have "handle_19 rd cd st = (?st, do_boot rd cd (int 0) ?st)" by (simp add: handle_19_def Let_def)
  ultimately show ?thesis
    using boot_run_from [of ?st 0 "length (BEV st)" rd cd returns] t
    by (auto simp: do_boot_seq gives_up_comes_back)
qed

theorem boot_sequence_in_order_witness:
  "boot_run 3 (\<lambda>d. if d = 0x80 then Some (replicate 510 0 @ [0x55, 0xaa]) else None) (\<lambda>v. (2, 0, 0)) (\<lambda>j. False)
     (handle_19 (\<lambda>d. if d = 0x80 then Some (replicate 510 0 @ [0x55, 0xaa]) else None) (\<lambda>v. (2, 0, 0))
        (boot_zero\<lparr>BEV := [\<lparr>bev_type = 1, bev_vector = 0\<rparr>, \<lparr>bev_type = 3, bev_vector = 7\<rparr>, \<lparr>bev_type = 2, bev_vector = 0\<rparr>]\<rparr>)) =
   [ReadFailed, CdFailed 2, Jump 0 0x7c00 0x80]"
proof -
  let ?rd = "\<lambda>d :: u8. if d = 0x80 then Some (replicate 510 0 @ [0x55, 0xaa]) else (None :: u8 list option)"
  let ?cd = "\<lambda>v :: u32. (2 :: u32, 0 :: u8, 0 :: u16)"
  let ?st = "boot_zero\<lparr>BEV := [\<lparr>bev_type = 1, bev_vector = 0\<rparr>, \<lparr>bev_type = 3, bev_vector = 7\<rparr>, \<lparr>bev_type = 2, bev_vector = 0\<rparr>]\<rparr>"
  have rd: "\<forall>d bs. ?rd d = Some bs \<longrightarrow> length bs = 512" by auto
  have tries: "map (entry_attempt ?rd ?cd (CheckFloppySig ?st)) (BEV ?st) @ [BootFail] =
      [ReadFailed, CdFailed 2, Jump 0 0x7c00 0x80, BootFail]"
    by (simp add: entry_attempt_def sector_attempt_def cd_attempt_def)
  obtain k where k: "k \<le> 3" "boot_run 3 ?rd ?cd (\<lambda>j. False) (handle_19 ?rd ?cd ?st) = take (Suc k) [ReadFailed, CdFailed 2, Jump 0 0x7c00 0x80, BootFail]"
      "\<forall>j < k. comes_back ([ReadFailed, CdFailed 2, Jump 0 0x7c00 0x80, BootFail] ! j) False"
      "\<not> comes_back ([ReadFailed, CdFailed 2, Jump 0 0x7c00 0x80, BootFail] ! k) False"
    using boot_sequence_in_order [OF rd refl, where cd = ?cd and st = ?st and returns = "\<lambda>j. False"] unfolding tries by (auto simp: numeral_3_eq_3)
  have "k = 0 \<or> k = 1 \<or> k = 2 \<or> k = 3" using k(1) by auto
  moreover have "\<not> k = 3" using spec [OF k(3), of 2] by (auto simp: comes_back_def)
  ultimately have "k = 2" using k(4) by (auto simp: comes_back_def)
  with k(2) show ?thesis by simp
qed

end
