(* ===== verification/OptionRomProps.thy ===== *)
theory OptionRomProps
  imports OptionRom BootProps
begin

text \<open>
  What runs as an option rom is a valid copy in the rom area, and the registration of boot vectors ends exactly when
  the lists of headers in the roms do.
\<close>

section \<open>What the boot list leaves alone\<close>

lemma RomEnd_keep [simp]:
  "RomEnd (set_zone z l st) = RomEnd st" "RomEnd (map_zones f st) = RomEnd st" "RomEnd (install_detail d h st) = RomEnd st"
  by (simp_all add: set_zone_def map_zones_def install_detail_def)

lemma RomEnd_palloc [simp]: "RomEnd (fst (malloc_palloc z sz align st)) = RomEnd st"
proof -
  have a: "RomEnd (fst (alloc_in z sz align fill st)) = RomEnd st" for z sz align fill and st :: mstate
    by (simp add: alloc_in_def split_beta)
  then have "RomEnd (fst (alloc_new_detail h st)) = RomEnd st" for h and st :: mstate
    by (simp add: alloc_new_detail_def split_beta Let_def)
  with a show ?thesis by (simp add: malloc_palloc_def split_beta Let_def)
qed

lemma malloc_tmp_RomEnd [simp]: "RomEnd (r_ms (fst (malloc_tmp n fw))) = RomEnd (r_ms fw)"
  by (simp add: malloc_tmp_def malloc_tmphigh_def malloc_tmplow_def fw_alloc_def split_beta Let_def)

lemma boot_add_keeps [simp]:
  "r_mem (b_fw (boot_add_bev seg bev d p b)) = r_mem (b_fw b)" "r_mem (b_fw (boot_add_bcv seg bev d p b)) = r_mem (b_fw b)"
  "RomEnd (r_ms (b_fw (boot_add_bev seg bev d p b))) = RomEnd (r_ms (b_fw b))"
  "RomEnd (r_ms (b_fw (boot_add_bcv seg bev d p b))) = RomEnd (r_ms (b_fw b))"
  by (simp_all add: boot_add_bev_def boot_add_bcv_def bootentry_add_def split_beta Let_def)

section \<open>Lists of headers\<close>

text \<open>The list of expansion headers that starts at a pointer ends: it runs into a null pointer, a header without a signature, or
  one without a boot vector.\<close>

inductive chain_ends :: "mem \<Rightarrow> u32 \<Rightarrow> u32 option \<Rightarrow> bool" for m rom where
  null: "chain_ends m rom None"
| no_vector: "pnp_bev m p = 0 \<Longrightarrow> pnp_bcv m p = 0 \<Longrightarrow> chain_ends m rom (Some p)"
| more: "chain_ends m rom (get_pnp_next m rom p) \<Longrightarrow> chain_ends m rom (Some p)"

lemma add_vector_keeps [simp]:
  "o_mem (add_vector rom p inst st) = o_mem st" "RomEnd (o_ms (add_vector rom p inst st)) = RomEnd (o_ms st)"
  "EnforceChecksum (add_vector rom p inst st) = EnforceChecksum st"
  by (simp_all add: add_vector_def Let_def)

definition scan_keeps :: "'h orom_state \<Rightarrow> 'h orom_state \<Rightarrow> bool" where
  "scan_keeps st st' \<longleftrightarrow>
     o_mem st' = o_mem st \<and> RomEnd (o_ms st') = RomEnd (o_ms st) \<and> EnforceChecksum st' = EnforceChecksum st"

lemma pnp_loop_returns:
  assumes "chain_ends m rom pnp" "o_mem st = m"
  shows "\<exists>st'. pnp_loop rom pnp inst st = Some st' \<and> scan_keeps st st'"
  using assms
proof (induction arbitrary: inst st rule: chain_ends.induct)
  case null
  then show ?case by (subst pnp_loop.simps) (simp add: scan_keeps_def)
next
  case (no_vector p)
  then show ?case by (subst pnp_loop.simps) (simp add: scan_keeps_def)
next
  case (more p)
  obtain st' where "pnp_loop rom (get_pnp_next m rom p) (inst + 1) (add_vector rom p inst st) = Some st'"
      "scan_keeps (add_vector rom p inst st) st'"
    using more.IH [of "add_vector rom p inst st" "inst + 1"] more.prems by auto
  then show ?case using more.prems by (subst pnp_loop.simps) (auto simp: Let_def scan_keeps_def)
qed

lemma pnp_loop_ends:
  assumes "pnp_loop rom pnp inst st = Some y"
  shows "chain_ends (o_mem st) rom pnp"
proof (rule pnp_loop.raw_induct [of "\<lambda>rom pnp inst st y. chain_ends (o_mem st) rom pnp", OF _ assms], goal_cases)
  case (1 f rom pnp inst st y)
  show ?case
  proof (cases pnp)
    case None
    then show ?thesis by (simp add: chain_ends.null)
  next
    case (Some p)
    show ?thesis
    proof (cases "pnp_bev (o_mem st) p = 0 \<and> pnp_bcv (o_mem st) p = 0")
      case True
      then show ?thesis by (simp add: Some chain_ends.no_vector)
    next
      case False
      then have "f rom (get_pnp_next (o_mem st) rom p) (inst + 1) (add_vector rom p inst st) = Some y"
        using 1(2) Some by (auto simp: Let_def)
      from 1(1) [OF this] show ?thesis unfolding Some by (intro chain_ends.more) simp
    qed
  qed
qed

text \<open>A list that comes back to a header with a vector has no end.\<close>

lemma chain_cycle:
  assumes "chain_ends m rom pnp"
  shows "pnp = Some p \<Longrightarrow> get_pnp_next m rom p = Some p \<Longrightarrow> pnp_bev m p \<noteq> 0 \<or> pnp_bcv m p \<noteq> 0 \<Longrightarrow> False"
  using assms by (induction rule: chain_ends.induct) auto

lemma pnp_cycle_hangs:
  "get_pnp_next (o_mem st) rom p = Some p \<Longrightarrow> pnp_bev (o_mem st) p \<noteq> 0 \<Longrightarrow> pnp_loop rom (Some p) inst st = None"
  using chain_cycle [OF pnp_loop_ends [of rom "Some p" inst st], of _ p] by (cases "pnp_loop rom (Some p) inst st") auto

section \<open>The scan\<close>

lemma vectors_return:
  assumes "chain_ends (o_mem st) rom (get_pnp_rom (o_mem st) rom)"
  obtains st' where "rom_vectors rom st = Some st'" "scan_keeps st st'"
  using assms pnp_loop_returns [of "o_mem st" rom "get_pnp_rom (o_mem st) rom" st 0] that
  by (cases "get_pnp_rom (o_mem st) rom") (auto simp: rom_vectors_def scan_keeps_def)

lemma align_step:
  assumes "m (pos + 2) \<noteq> 0" "unat pos < unat BUILD_BIOS_ADDR"
  shows "unat pos < unat (pos + ALIGN (rom_bytes m pos) OPTION_ROM_ALIGN)"
proof -
  have b: "unat (rom_bytes m pos) = unat (m (pos + 2)) * 512"
    using unat_u8_bound [of "m (pos + 2)"]
    by (simp add: rom_bytes_def unat_word_ariths unsigned_ucast_eq take_bit_nat_eq_self)
  have s: "unat (m (pos + 2)) \<le> 255" using unat_u8_bound [of "m (pos + 2)"] by simp
  have g: "unat (rom_bytes m pos) \<le> unat (ALIGN (rom_bytes m pos) OPTION_ROM_ALIGN)"
      "unat (ALIGN (rom_bytes m pos) OPTION_ROM_ALIGN) < unat (rom_bytes m pos) + unat OPTION_ROM_ALIGN"
    using ALIGN_ge [OF align_rom, of "rom_bytes m pos"] b s by (simp_all add: OPTION_ROM_ALIGN_def)
  moreover have "0 < unat (m (pos + 2))" using assms(1) by (simp add: unat_gt_0)
  ultimately show ?thesis
    using assms(2) b s by (subst unat_add_small) (simp_all add: OPTION_ROM_ALIGN_def BUILD_BIOS_ADDR_def)
qed

text \<open>C31. The registration of boot vectors ends whenever the list of expansion headers in every rom that the scan can
  come to ends: each step goes past the rom or the 2K block it has looked at, whatever the rom says about its size, and the roms
  and the end of the area stay as they are. (A list that comes back to a header hangs the scan.)\<close>

theorem rom_scan_returns:
  assumes "RomEnd (o_ms st) \<le> BUILD_BIOS_ADDR"
    and "\<forall>rom. pos \<le> rom \<and> rom < RomEnd (o_ms st) \<and> is_valid_rom (EnforceChecksum st) (o_mem st) rom \<longrightarrow>
      chain_ends (o_mem st) rom (get_pnp_rom (o_mem st) rom)"
  shows "\<exists>st'. rom_scan pos st = Some st' \<and> scan_keeps st st'"
  using assms
proof (induction "unat BUILD_BIOS_ADDR - unat pos" arbitrary: pos st rule: less_induct)
  case less
  show ?case
  proof (cases "pos < RomEnd (o_ms st)")
    case False
    then show ?thesis by (subst rom_scan.simps) (simp add: rom_get_last_def scan_keeps_def)
  next
    case True
    then have p: "unat pos < unat BUILD_BIOS_ADDR" using less.prems(1) by (simp add: word_le_nat_alt word_less_nat_alt)
    show ?thesis
    proof (cases "is_valid_rom (EnforceChecksum st) (o_mem st) pos")
      case False
      have "unat pos < unat (pos + OPTION_ROM_ALIGN)"
        using p by (subst unat_add_small) (simp_all add: BUILD_BIOS_ADDR_def OPTION_ROM_ALIGN_def)
      then have "\<exists>st'. rom_scan (pos + OPTION_ROM_ALIGN) st = Some st' \<and> scan_keeps st st'"
        using p less.prems by (intro less.hyps) (auto simp: word_le_nat_alt)
      then show ?thesis using True False by (subst rom_scan.simps) (simp add: rom_get_last_def)
    next
      case v: True
      let ?next = "pos + ALIGN (rom_bytes (o_mem st) pos) OPTION_ROM_ALIGN"
      obtain st1 where s1: "rom_vectors pos st = Some st1" "scan_keeps st st1"
        using vectors_return [of st pos] less.prems(2) True v by blast
      have up: "unat pos < unat ?next" using v by (intro align_step [OF _ p]) (simp add: is_valid_rom_def)
      have "\<exists>st'. rom_scan ?next st1 = Some st' \<and> scan_keeps st1 st'"
        using p up less.prems s1(2) by (intro less.hyps) (auto simp: word_le_nat_alt scan_keeps_def)
      then show ?thesis using True v s1 by (subst rom_scan.simps) (auto simp: rom_get_last_def scan_keeps_def)
    qed
  qed
qed

section \<open>Running a copy\<close>

lemma rom_reserve_room:
  assumes "ALIGN (RomEnd ms + sz) OPTION_ROM_ALIGN \<le> rom_get_max ms"
  shows "snd (rom_reserve zb sz ms) = RomEnd ms" "RomEnd (fst (rom_reserve zb sz ms)) = RomEnd ms"
  using assms by (auto simp: rom_reserve_def Let_def set_zone_def)

lemma copy_valid:
  assumes v: "is_valid_rom e m rom" and c: "\<And>i. i < unat (rom_bytes m rom) \<Longrightarrow> m1 (new + of_nat i) = m (rom + of_nat i)"
  shows "is_valid_rom e m1 new"
proof -
  have n: "unat (rom_bytes m rom) = unat (m (rom + 2)) * 512"
    using unat_u8_bound [of "m (rom + 2)"]
    by (simp add: rom_bytes_def unat_word_ariths unsigned_ucast_eq take_bit_nat_eq_self)
  moreover have "0 < unat (m (rom + 2))" using v by (simp add: is_valid_rom_def unat_gt_0)
  ultimately have l: "512 \<le> unat (rom_bytes m rom)" by simp
  have b: "m1 new = m rom" "m1 (new + 1) = m (rom + 1)" "m1 (new + 2) = m (rom + 2)"
    using c [of 0] c [of 1] c [of 2] l by simp_all
  have s: "rom_signature m1 new = rom_signature m rom"
    using b by (simp add: rom_signature_def get_mem_def mem_read_def upt_rec)
  have z: "rom_bytes m1 new = rom_bytes m rom" using b by (simp add: rom_bytes_def)
  have "checksum m1 new (rom_bytes m1 new) = checksum m rom (rom_bytes m rom)"
    unfolding z checksum_def checksum_loop_sum by (rule sum.cong) (simp_all add: c)
  then show ?thesis using v s b(3) unfolding is_valid_rom_def by simp
qed

lemma low_segment:
  assumes "16 dvd unat p" "unat p < 0x100000"
  shows "MAKE_FLATPTR (FLATPTR_TO_SEG p) (ucast (off :: u16)) = p + ucast off"
proof -
  have z: "take_bit 4 p = 0" using assms(1) by (simp add: word_unat_eq_iff unsigned_take_bit_eq take_bit_eq_0_iff)
  have h: "take_bit 20 p = p" using assms(2) by (simp add: word_unat_eq_iff unsigned_take_bit_eq take_bit_nat_eq_self)
  have b: "4 \<le> i \<and> i < 20" if "bit p i" for i
  proof
    show "4 \<le> i" using that z by (metis bit_take_bit_iff bit_0_eq bot_apply bot_bool_def not_le)
    show "i < 20" using that h by (metis bit_take_bit_iff)
  qed
  have "push_bit 4 (ucast (ucast (drop_bit 4 p) :: u16)) = p"
    by (rule bit_word_eqI, auto simp: bit_simps dest: b, metis b le_add_diff_inverse)
  then show ?thesis by (simp add: MAKE_FLATPTR_def FLATPTR_TO_SEG_def)
qed

lemma upd_fw_sel [simp]:
  "o_fw (upd_fw f st) = f (o_fw st)" "EnforceChecksum (upd_fw f st) = EnforceChecksum st"
  by (simp_all add: upd_fw_def)

lemma o_mem_reserve [simp]: "o_mem (fst (o_rom_reserve env sz st)) = o_mem st"
  by (simp add: o_rom_reserve_def split_beta)

lemma place_rom_mem:
  assumes "unat newrom + unat (rom_bytes (o_mem st) rom) \<le> 2 ^ 32" "unat rom + unat (rom_bytes (o_mem st) rom) \<le> 2 ^ 32"
  shows "o_mem (place_rom newrom rom st) =
    (\<lambda>a. if unat (a - newrom) < unat (rom_bytes (o_mem st) rom) then o_mem st (rom + (a - newrom)) else o_mem st a)"
  using memmove_eq [OF assms, of "o_mem st"] by (cases "newrom = rom") (auto simp: place_rom_def upd_omem_def fun_eq_iff)

text \<open>The registers with which a rom is started.\<close>

definition rom_regs :: "'h orom_env \<Rightarrow> u32 \<Rightarrow> u16 \<Rightarrow> bregs" where
  "rom_regs env rom bdf = bregs_zero\<lparr>flags := F_IF, eax := ucast bdf, ebx := 0xffff, edx := 0xffff, es := SEG_BIOS,
     edi := ucast (oe_pnp_offset env), cs_ip := SEGOFF (FLATPTR_TO_SEG rom) OPTION_ROM_INITVECTOR\<rparr>"

text \<open>C30. An option rom that is deployed is started, if it is a graphics or a plug-and-play rom, from a byte-exact copy at the end of
  the rom area, also when the copy overlaps its source: the copy is valid (signature, size and, where enforced, checksum), the memory
  outside it is untouched, the start address is its fourth byte, and what is kept afterwards is what the rom then declares as
  its size. The measurement by the TPM is assumed to leave the memory alone.\<close>

theorem deployed_rom_exact:
  assumes valid: "is_valid_rom (EnforceChecksum st) (o_mem st) rom"
    and new: "RomEnd (o_ms st) = new" "new \<noteq> 0" "16 dvd unat new" "unat new < 0x100000"
    and room: "ALIGN (new + rom_bytes (o_mem st) rom) OPTION_ROM_ALIGN \<le> rom_get_max (o_ms st)"
    and src: "unat rom + unat (rom_bytes (o_mem st) rom) \<le> 2 ^ 32"
    and tpm: "\<forall>p n s. o_mem (oe_tpm env p n s) = o_mem s \<and> EnforceChecksum (oe_tpm env p n s) = EnforceChecksum s"
  shows "\<exists>s. o_mem s = (\<lambda>a. if unat (a - new) < unat (rom_bytes (o_mem st) rom) then o_mem st (rom + (a - new)) else o_mem st a) \<and>
    is_valid_rom (EnforceChecksum s) (o_mem s) new \<and>
    MAKE_FLATPTR (FLATPTR_TO_SEG new) (ucast OPTION_ROM_INITVECTOR) = new + 3 \<and>
    init_optionrom env rom bdf isvga st =
      (let s1 = (if isvga \<or> get_pnp_rom (o_mem s) new \<noteq> None then oe_run env (rom_regs env new bdf) s else s);
           (s2, r) = o_rom_confirm env (rom_bytes (o_mem s1) new) s1 in (r, s2))"
proof -
  let ?m = "o_mem st" and ?len = "rom_bytes (o_mem st) rom"
  obtain st1 p where r: "o_rom_reserve env ?len st = (st1, p)" by fastforce
  have p: "p = new" "o_mem st1 = ?m" "EnforceChecksum st1 = EnforceChecksum st"
    using rom_reserve_room [of "o_ms st" ?len "oe_zonelow env"] room new(1) r o_mem_reserve [of env ?len st]
    by (auto simp: o_rom_reserve_def split_beta)
  have "unat ?len \<le> 255 * 512"
    using unat_u8_bound [of "?m (rom + 2)"] by (simp add: rom_bytes_def unat_word_ariths unsigned_ucast_eq take_bit_nat_eq_self)
  then have fits: "unat new + unat ?len \<le> 2 ^ 32" using new(4) by simp
  define s where "s = oe_tpm env new ?len (place_rom new rom st1)"
  have m: "o_mem s = (\<lambda>a. if unat (a - new) < unat ?len then ?m (rom + (a - new)) else ?m a)"
    using place_rom_mem [of new st1 rom, unfolded p(2)] fits src tpm by (simp add: s_def)
  have e: "EnforceChecksum s = EnforceChecksum st" using tpm p by (simp add: s_def place_rom_def upd_omem_def)
  have "o_mem s (new + of_nat i) = ?m (rom + of_nat i)" if "i < unat ?len" for i
  proof -
    have "unat (of_nat i :: u32) = i" using that unat_u32_bound [of ?len] by (simp add: unat_of_nat)
    then show ?thesis using that m by simp
  qed
  then have "is_valid_rom (EnforceChecksum s) (o_mem s) new" unfolding e by (intro copy_valid [OF valid])
  moreover have "MAKE_FLATPTR (FLATPTR_TO_SEG new) (ucast OPTION_ROM_INITVECTOR) = new + 3"
    unfolding low_segment [OF new(3,4)] by (simp add: OPTION_ROM_INITVECTOR_def)
  moreover have "init_optionrom env rom bdf isvga st =
      (let s1 = (if isvga \<or> get_pnp_rom (o_mem s) new \<noteq> None then oe_run env (rom_regs env new bdf) s else s);
           (s2, r) = o_rom_confirm env (rom_bytes (o_mem s1) new) s1 in (r, s2))"
    using valid new(2) r p
    by (simp add: init_optionrom_def callrom_def callrom_at_def rom_regs_def s_def Let_def split_beta)
  ultimately show ?thesis using m by blast
qed

text \<open>An image of length zero that is neither the one for the device nor marked as the last is looked at for ever.\<close>

lemma image_zero_hangs:
  assumes "rom_signature m rom = OPTION_ROM_SIGNATURE" "get_pci_rom m rom = Some pd"
    and "\<not> (pd_vendor m pd = vendor \<and> pd_device m pd = device \<and> pd_type m pd = PCIROM_CODETYPE_X86)"
    and "pd_indicator m pd AND 0x80 = 0" "pd_ilen m pd = 0"
  shows "find_image m vendor device rom = None"
proof (cases "find_image m vendor device rom")
  case (Some y)
  have "False" if "m' = m" "v = vendor" "d = device" "r = rom" "find_image m' v d r = Some y" for m' v d r y
  proof -
    define P where "P = (\<lambda>m' v d r (y :: u32 option). \<not> (m' = m \<and> v = vendor \<and> d = device \<and> r = rom))"
    have "P m' v d r y"
    proof (rule find_image.raw_induct [of P, OF _ that(5)], goal_cases)
      case (1 f m' v d r y)
      show ?case
      proof (cases "m' = m \<and> v = vendor \<and> d = device \<and> r = rom")
        case True
        then have "f m' v d r = Some y" using 1(2) assms by (auto split: if_splits)
        from 1(1) [OF this] show ?thesis .
      qed (auto simp: P_def)
    qed
    then show False using that by (simp add: P_def)
  qed
  then show ?thesis using Some by blast
qed

section \<open>Witnesses\<close>

text \<open>A rom of 512 bytes that has only its signature and size, which sum to zero, and an environment in which roms do nothing.\<close>

definition rom_image :: "u32 \<Rightarrow> mem" where
  "rom_image p = (\<lambda>a. if a = p then 0x55 else if a = p + 1 then 0xaa else if a = p + 2 then 1 else 0)"

definition orom_sample :: "u32 \<Rightarrow> mstate \<Rightarrow> unit orom_state" where
  "orom_sample p ms =
     \<lparr>o_boot = boot_zero\<lparr>b_fw := fw_zero\<lparr>r_mem := rom_image p, r_ms := ms\<rparr>\<rparr>, o_hw = (), o_devices = [], o_driver = (\<lambda>_. False),
      o_sources = replicate 96 NoSource, EnforceChecksum = 1, S3ResumeVga = 1, RunPCIroms = 2, ScreenAndDebug = 1, VgaROM = 0\<rparr>"

definition orom_env_sample :: "unit orom_env" where
  "orom_env_sample =
     \<lparr>oe_pci = \<lparr>hw_readb = (\<lambda>b a h. 0), hw_readw = (\<lambda>b a h. 0), hw_readl = (\<lambda>b a h. 0), hw_writeb = (\<lambda>b a v h. h),
        hw_writew = (\<lambda>b a v h. h), hw_writel = (\<lambda>b a v h. h), hw_outb = (\<lambda>v p h. h), hw_host = (\<lambda>h. False)\<rparr>,
      oe_view = (\<lambda>h a. 0), oe_run = (\<lambda>r s. s), oe_tpm = (\<lambda>p n s. s), oe_vgahook = (\<lambda>p s. s), oe_zonelow = 0xe0000,
      oe_pnp_offset = 0, oe_entry_19 = 0xe6f2\<rparr>"

lemma rom_image_valid: "is_valid_rom 1 (rom_image 0x10000) 0x10000" "is_valid_rom 1 (rom_image 0xc0000) 0xc0000"
  by code_simp+

theorem deployed_rom_exact_witness:
  "\<exists>s. o_mem s 0xc0001 = 0xaa \<and> is_valid_rom (EnforceChecksum s) (o_mem s) 0xc0000 \<and>
     RomEnd (o_ms (snd (init_optionrom orom_env_sample 0x10000 0 True (orom_sample 0x10000 rom_sample)))) =
       RomEnd (o_ms (fst (o_rom_confirm orom_env_sample 512 s)))"
proof -
  let ?st = "orom_sample 0x10000 rom_sample"
  have m: "o_mem ?st = rom_image 0x10000" "o_ms ?st = rom_sample" "EnforceChecksum ?st = 1" by (simp_all add: orom_sample_def)
  have b: "rom_bytes (rom_image 0x10000) 0x10000 = 512" by (simp add: rom_bytes_def rom_image_def)
  have e: "RomEnd rom_sample = 0xc0000" "ALIGN (0xc0000 + 512) OPTION_ROM_ALIGN \<le> rom_get_max rom_sample" by code_simp+
  have t: "\<forall>p n s. o_mem (oe_tpm orom_env_sample p n s) = o_mem s \<and> EnforceChecksum (oe_tpm orom_env_sample p n s) = EnforceChecksum s"
    by (simp add: orom_env_sample_def)
  have c: "(0xc0000 :: u32) \<noteq> 0" "16 dvd unat (0xc0000 :: u32)" "unat (0xc0000 :: u32) < 0x100000"
      "unat (0x10000 :: u32) + unat (512 :: u32) \<le> 2 ^ 32" by simp_all
  obtain s where s: "o_mem s = (\<lambda>a. if unat (a - 0xc0000) < unat (512 :: u32) then rom_image 0x10000 (0x10000 + (a - 0xc0000)) else rom_image 0x10000 a)"
      "is_valid_rom (EnforceChecksum s) (o_mem s) 0xc0000"
      "init_optionrom orom_env_sample 0x10000 0 True ?st =
        (let s1 = oe_run orom_env_sample (rom_regs orom_env_sample 0xc0000 0) s;
             (s2, r) = o_rom_confirm orom_env_sample (rom_bytes (o_mem s1) 0xc0000) s1 in (r, s2))"
    using deployed_rom_exact [where st = ?st and rom = "0x10000" and new = "0xc0000" and env = orom_env_sample and bdf = 0
        and isvga = True, unfolded m b simp_thms if_True, OF rom_image_valid(1) e(1) c(1-3) e(2) c(4) t] by blast
  have "o_mem s 0xc0001 = 0xaa" "rom_bytes (o_mem s) 0xc0000 = 512" by (simp_all add: s(1) rom_image_def rom_bytes_def)
  moreover have "oe_run orom_env_sample r s = s" for r by (simp add: orom_env_sample_def)
  ultimately show ?thesis using s(2,3) by (intro exI [of _ s]) (simp add: split_beta)
qed

theorem rom_scan_returns_witness:
  "\<exists>st'. rom_scan 0xc0000 (orom_sample 0xc0000 (rom_sample\<lparr>RomEnd := 0xc0800\<rparr>)) = Some st'"
proof -
  let ?st = "orom_sample 0xc0000 (rom_sample\<lparr>RomEnd := 0xc0800\<rparr>)"
  have m: "o_mem ?st = rom_image 0xc0000" "RomEnd (o_ms ?st) = 0xc0800" "EnforceChecksum ?st = 1" by (simp_all add: orom_sample_def)
  have "chain_ends (rom_image 0xc0000) rom (get_pnp_rom (rom_image 0xc0000) rom)" if "is_valid_rom 1 (rom_image 0xc0000) rom" for rom
  proof -
    have "rom_signature (rom_image 0xc0000) rom = 0xaa55" using that by (simp add: is_valid_rom_def OPTION_ROM_SIGNATURE_def)
    then have "bit (rom_signature (rom_image 0xc0000) rom) 0 \<and> bit (rom_signature (rom_image 0xc0000) rom) 2" by (simp add: bit_numeral_rec)
    then have "rom = 0xc0000"
      by (auto simp: rom_signature_def get_mem_def mem_read_def upt_rec bit_simps rom_image_def bit_numeral_rec split: if_splits)
    moreover have "get_pnp_rom (rom_image 0xc0000) 0xc0000 = None" by code_simp
    ultimately show ?thesis by (simp add: chain_ends.null)
  qed
  then show ?thesis
    using rom_scan_returns [of ?st "0xc0000"] unfolding m by (auto simp: BUILD_BIOS_ADDR_def)
qed

end
