(* ===== verification/RomfileLoader.thy ===== *)
theory RomfileLoader
  imports Romfile
begin

text \<open>
  The table loader of \<open>src/fw/romfile_loader.c\<close>: a script of 128-byte entries that QEMU passes in a
  file. \<open>ALLOCATE\<close> loads a file into memory, \<open>ADD_POINTER\<close> adds the address of one loaded file
  to a field of another, \<open>ADD_CHECKSUM\<close> makes a range of a file sum to zero, and
  \<open>WRITE_POINTER\<close> tells the host an address. Entries are read from memory at the offsets of
  \<open>struct romfile_loader_entry_s\<close>. The array of loaded files is a list of its entries with the number of bytes that
  were allocated for it: a store to \<open>nfiles\<close> or to an entry behind these bytes sets \<open>l_overrun\<close>.
  \<open>unsigned long\<close> is 32 bits wide. Warnings are not modelled.
\<close>

section \<open>Entries\<close>

definition ROMFILE_LOADER_FILESZ :: nat where "ROMFILE_LOADER_FILESZ = 56"

definition ent_u8 :: "mem \<Rightarrow> u32 \<Rightarrow> u32 \<Rightarrow> u8" where
  "ent_u8 m e off = m (e + off)"

definition ent_u32 :: "mem \<Rightarrow> u32 \<Rightarrow> u32 \<Rightarrow> u32" where
  "ent_u32 m e off = le_word (mem_read m (e + off) 4)"

text \<open>A name field: the characters before the first zero of its 56 bytes, or \<open>None\<close> when its last
  byte is not zero.\<close>

definition ent_name :: "mem \<Rightarrow> u32 \<Rightarrow> u32 \<Rightarrow> u8 list option" where
  "ent_name m e off =
     (if m (e + off + of_nat (ROMFILE_LOADER_FILESZ - 1)) \<noteq> 0 then None
      else Some (takeWhile (\<lambda>c. c \<noteq> 0) (mem_read m (e + off) ROMFILE_LOADER_FILESZ)))"


section \<open>Loader state\<close>

record romfile_loader_file =
  lf_file :: romfile_s
  lf_data :: u32

text \<open>A stored pointer: the address of the entry, whose first eight bytes are the pointer, and the other fields.\<close>

record romfile_wr_pointer_entry =
  wp_addr :: u32
  wp_offset :: u32
  wp_key :: u16
  wp_ptr_size :: u8

record lstate =
  l_fw :: fwstate
  l_files :: "romfile_loader_file list"
  l_space :: u32
  l_overrun :: bool
  romfile_pointer_list :: "romfile_wr_pointer_entry list"

text \<open>Stores to the array: its length is at offset 0, entry \<open>i\<close> (a file and its data) at offset \<open>4 + i * 8\<close>.\<close>

definition files_store :: "nat \<Rightarrow> nat \<Rightarrow> lstate \<Rightarrow> lstate" where
  "files_store off n st = (if off + n \<le> unat (l_space st) then st else st\<lparr>l_overrun := True\<rparr>)"




definition romfile_loader_find :: "u8 list option \<Rightarrow> romfile_loader_file list \<Rightarrow> romfile_loader_file option" where
  "romfile_loader_find name files =
     (case name of None \<Rightarrow> None | Some nm \<Rightarrow> find (\<lambda>f. rf_name (lf_file f) = nm) files)"

definition romfile_fw_cfg_resume :: "lstate \<Rightarrow> lstate" where
  "romfile_fw_cfg_resume st =
     st\<lparr>l_fw := fold (\<lambda>entry fw. qemu_cfg_write_file_simple
         (wp_addr entry) (wp_key entry) (wp_offset entry) (ucast (wp_ptr_size entry)) fw)
       (romfile_pointer_list st) (l_fw st)\<rparr>"

section \<open>Commands\<close>


text \<open>Sizes of pointer fields: 1, 2, 4 or 8.\<close>

definition bad_ptr_size :: "u8 \<Rightarrow> bool" where
  "bad_ptr_size s \<longleftrightarrow> s < 1 \<or> s > 8 \<or> s AND (s - 1) \<noteq> 0"

definition romfile_loader_add_pointer :: "u32 \<Rightarrow> lstate \<Rightarrow> lstate" where
  "romfile_loader_add_pointer e st =
     (let m = r_mem (l_fw st);
          offset = ent_u32 m e 116;
          psize = ent_u8 m e 120
      in case (romfile_loader_find (ent_name m e 4) (l_files st),
               romfile_loader_find (ent_name m e 60) (l_files st)) of
           (Some dest, Some src) \<Rightarrow>
             if lf_data dest = 0 \<or> lf_data src = 0 \<or>
                offset + ucast psize < offset \<or>
                offset + ucast psize > rf_size (lf_file dest) \<or> bad_ptr_size psize
             then st
             else
               let pointer = le_word (mem_read m (lf_data dest + offset) (unat psize)) :: u64;
                   pointer' = pointer + ucast (lf_data src)
               in st\<lparr>l_fw := (l_fw st)\<lparr>r_mem :=
                    mem_write (lf_data dest + offset) (take (unat psize) (le_bytes 8 pointer')) m\<rparr>\<rparr>
         | _ \<Rightarrow> st)"

definition romfile_loader_add_checksum :: "u32 \<Rightarrow> lstate \<Rightarrow> lstate" where
  "romfile_loader_add_checksum e st =
     (let m = r_mem (l_fw st);
          offset = ent_u32 m e 60;
          start = ent_u32 m e 64;
          len = ent_u32 m e 68
      in case romfile_loader_find (ent_name m e 4) (l_files st) of
           None \<Rightarrow> st
         | Some file \<Rightarrow>
             if lf_data file = 0 \<or> offset \<ge> rf_size (lf_file file) \<or>
                start + len < start \<or> start + len > rf_size (lf_file file)
             then st
             else
               let p = lf_data file + offset
               in st\<lparr>l_fw := (l_fw st)\<lparr>r_mem := m(p := m p - checksum m (lf_data file + start) len)\<rparr>\<rparr>)"








section \<open>A concrete state\<close>

definition loader_sample :: lstate where
  "loader_sample = \<lparr>l_fw = fw_zero\<lparr>r_mem := (\<lambda>a. if a \<in> {0x1004, 0x103c, 0x1104} then 97
       else if a \<in> {0x1074, 0x1144} then 8 else if a = 0x1078 then 4 else if a = 0x113c then 2
       else if 0x2000 \<le> a \<and> a < 0x2010 then ucast a + 5 else 0)\<rparr>,
     l_files = [\<lparr>lf_file = \<lparr>rf_name = [97], rf_size = 256, rf_copy = ConstFile 0\<rparr>, lf_data = 0x2000\<rparr>],
     l_space = 12, l_overrun = False,
     romfile_pointer_list = []\<rparr>"

lemma loader_sample_fields:
  "romfile_loader_find (ent_name (r_mem (l_fw loader_sample)) 0x1000 4) (l_files loader_sample) =
     Some (hd (l_files loader_sample))"
  "romfile_loader_find (ent_name (r_mem (l_fw loader_sample)) 0x1000 60) (l_files loader_sample) =
     Some (hd (l_files loader_sample))"
  "romfile_loader_find (ent_name (r_mem (l_fw loader_sample)) 0x1100 4) (l_files loader_sample) =
     Some (hd (l_files loader_sample))"
  "ent_u32 (r_mem (l_fw loader_sample)) 0x1000 116 = 8" "ent_u8 (r_mem (l_fw loader_sample)) 0x1000 120 = 4"
  "ent_u32 (r_mem (l_fw loader_sample)) 0x1100 60 = 2" "ent_u32 (r_mem (l_fw loader_sample)) 0x1100 64 = 0"
  "ent_u32 (r_mem (l_fw loader_sample)) 0x1100 68 = 8"
  "lf_data (hd (l_files loader_sample)) = 0x2000" "rf_size (lf_file (hd (l_files loader_sample))) = 256"
  by code_simp+

section \<open>Checksums\<close>

text \<open>C7. \<open>ADD_CHECKSUM\<close>: when the byte to be patched lies in the range, the range of the loaded
  file sums to zero afterwards, and no other byte has changed.\<close>

theorem romfile_loader_add_checksum_zero:
  fixes st :: lstate and e :: u32
  defines "m \<equiv> r_mem (l_fw st)" and "m' \<equiv> r_mem (l_fw (romfile_loader_add_checksum e st))"
  defines "offset \<equiv> ent_u32 m e 60" and "start \<equiv> ent_u32 m e 64" and "len \<equiv> ent_u32 m e 68"
  assumes found: "romfile_loader_find (ent_name m e 4) (l_files st) = Some file" "lf_data file \<noteq> 0"
    and range: "unat start + unat len \<le> unat (rf_size (lf_file file))"
      "start \<le> offset" "unat offset < unat start + unat len"
  shows "checksum m' (lf_data file + start) len = 0 \<and> (\<forall>a. a \<noteq> lf_data file + offset \<longrightarrow> m' a = m a)"
proof -
  let ?p = "lf_data file + start" and ?q = "lf_data file + offset"
  have sum: "unat (start + len) = unat start + unat len"
    using range(1) unat_u32_bound [of "rf_size (lf_file file)"] by (simp add: unat_add_small)
  have le: "unat start \<le> unat offset" using range(2) by (simp add: word_le_nat_alt)
  have ok: "\<not> offset \<ge> rf_size (lf_file file)" "\<not> start + len < start" "\<not> start + len > rf_size (lf_file file)"
    using range sum by (simp_all add: word_le_nat_alt word_less_nat_alt)
  have m': "m' = m(?q := m ?q - checksum m ?p len)"
    using found ok
    by (simp add: m'_def m_def romfile_loader_add_checksum_def Let_def offset_def start_def len_def)
  have "?q - ?p = offset - start" by simp
  then have "unat (?q - ?p) < unat len" using le range(3) by (simp only: unat_sub_le)
  then have "checksum m' ?p len = 0" unfolding m' by (simp add: checksum_update)
  then show ?thesis by (simp add: m')
qed

theorem romfile_loader_add_checksum_zero_witness:
  "checksum (r_mem (l_fw (romfile_loader_add_checksum 0x1100 loader_sample))) 0x2000 8 = 0"
  using romfile_loader_add_checksum_zero [OF loader_sample_fields(3)]
  by (simp add: loader_sample_fields)

section \<open>Pointers\<close>

lemma take_le_bytes: "n \<le> k \<Longrightarrow> take n (le_bytes k w) = le_bytes n w"
proof (induction n arbitrary: k w)
  case 0
  show ?case by simp
next
  case (Suc n)
  then show ?case by (cases k) auto
qed

text \<open>
  \<open>ADD_POINTER\<close>: the little-endian field of the destination file grows by the address of
  the source file, modulo the size of the field, and no byte outside the field changes.\<close>

theorem romfile_loader_add_pointer_field:
  fixes st :: lstate and e :: u32
  defines "m \<equiv> r_mem (l_fw st)" and "m' \<equiv> r_mem (l_fw (romfile_loader_add_pointer e st))"
  defines "offset \<equiv> ent_u32 m e 116" and "psize \<equiv> ent_u8 m e 120"
  assumes files: "romfile_loader_find (ent_name m e 4) (l_files st) = Some dest"
      "romfile_loader_find (ent_name m e 60) (l_files st) = Some src" "lf_data dest \<noteq> 0" "lf_data src \<noteq> 0"
    and range: "unat offset + unat psize \<le> unat (rf_size (lf_file dest))" "psize \<in> {1, 2, 4, 8}"
  shows "le_word (mem_read m' (lf_data dest + offset) (unat psize)) =
      take_bit (8 * unat psize) (le_word (mem_read m (lf_data dest + offset) (unat psize)) + ucast (lf_data src) :: u64)
    \<and> (\<forall>a. unat psize \<le> unat (a - (lf_data dest + offset)) \<longrightarrow> m' a = m a)"
proof -
  let ?p = "lf_data dest + offset" and ?n = "unat psize"
  let ?v = "le_word (mem_read m ?p ?n) + ucast (lf_data src) :: u64"
  have n: "unat (ucast psize :: u32) = ?n" "?n \<le> 8" "\<not> bad_ptr_size psize"
    using range(2) by (auto simp: bad_ptr_size_def)
  have "unat (offset + ucast psize) = unat offset + ?n"
    using range(1) n(1) unat_u32_bound [of "rf_size (lf_file dest)"] by (simp add: unat_add_small)
  then have "\<not> offset + ucast psize < offset" "\<not> offset + ucast psize > rf_size (lf_file dest)"
    using range(1) by (simp_all add: word_less_nat_alt)
  then have m': "m' = mem_write ?p (le_bytes ?n ?v) m"
    using files n(2,3)
    by (simp add: m'_def m_def romfile_loader_add_pointer_def Let_def offset_def psize_def take_le_bytes)
  have len: "length (le_bytes ?n ?v) \<le> 2 ^ 32" using n(2) by simp
  have "mem_read m' ?p ?n = le_bytes ?n ?v"
    using mem_read_write_same [OF len, of ?p m] by (simp add: m')
  then show ?thesis
    by (simp add: le_word_bytes m' mem_write_eq [OF len] ucast_id)
qed

theorem romfile_loader_add_pointer_field_witness:
  "le_word (mem_read (r_mem (l_fw (romfile_loader_add_pointer 0x1000 loader_sample))) 0x2008 4) =
     take_bit 32 (le_word (mem_read (r_mem (l_fw loader_sample)) 0x2008 4) + 0x2000 :: u64)"
  using romfile_loader_add_pointer_field [OF loader_sample_fields(1,2)]
  by (simp add: loader_sample_fields)

section \<open>A run of the loader\<close>



text \<open>What a run keeps: well-formed zones, and files that are small enough to be loaded.\<close>

definition fw_ok :: "fwstate \<Rightarrow> bool" where
  "fw_ok fw \<longleftrightarrow> mstate_ok (r_ms fw) \<and> (\<forall>f \<in> set (RomfileRoot fw). unat (rf_size f) < 2 ^ 31)"




lemma fw_ok_mem [simp]: "fw_ok (fw\<lparr>r_mem := m\<rparr>) = fw_ok fw"
  by (simp add: fw_ok_def)

text \<open>The configuration device is not asked for memory, and has no part in the zones and in the list of files.\<close>

lemma dma_keeps [simp]:
  "r_ms (qemu_cfg_dma_transfer a n c fw) = r_ms fw" "RomfileRoot (qemu_cfg_dma_transfer a n c fw) = RomfileRoot fw"
  by (simp_all add: qemu_cfg_dma_transfer_def Let_def split: option.split prod.split)

lemma port_keeps [simp]:
  "r_ms (cfg_insb k a fw) = r_ms fw" "RomfileRoot (cfg_insb k a fw) = RomfileRoot fw"
  "r_ms (cfg_drop k fw) = r_ms fw" "RomfileRoot (cfg_drop k fw) = RomfileRoot fw"
proof (induction k arbitrary: a fw)
  case (Suc k)
  case 1 show ?case using Suc by (simp add: split_beta Let_def)
  case 2 show ?case using Suc by (simp add: split_beta Let_def)
  case 3 show ?case using Suc by simp
  case 4 show ?case using Suc by simp
qed simp_all

lemma cfg_steps_keep [simp]:
  "r_ms (qemu_cfg_select k fw) = r_ms fw" "RomfileRoot (qemu_cfg_select k fw) = RomfileRoot fw"
  "r_ms (qemu_cfg_skip n fw) = r_ms fw" "RomfileRoot (qemu_cfg_skip n fw) = RomfileRoot fw"
  "r_ms (qemu_cfg_read a n fw) = r_ms fw" "RomfileRoot (qemu_cfg_read a n fw) = RomfileRoot fw"
  "r_ms (qemu_cfg_write a n fw) = r_ms fw" "RomfileRoot (qemu_cfg_write a n fw) = RomfileRoot fw"
  by (simp_all add: qemu_cfg_select_def qemu_cfg_skip_def qemu_cfg_read_def qemu_cfg_write_def)








definition lstate_ok :: "lstate \<Rightarrow> bool" where
  "lstate_ok st \<longleftrightarrow> fw_ok (l_fw st)"


lemma store_simps [simp]:
  "l_fw (files_store off n st) = l_fw st" "l_files (files_store off n st) = l_files st" "l_space (files_store off n st) = l_space st"
  "l_overrun (files_store off n st) \<longleftrightarrow> l_overrun st \<or> unat (l_space st) < off + n"
  by (auto simp: files_store_def)












end
