(* ===== verification/Block.thy ===== *)
theory Block
  imports FarMem Output Bregs
begin

text \<open>
  The drives of \<open>src/block.c\<close>: the drive structure and the maps from drive numbers to drives, the
  translation of disk geometries, the Fixed Disk Parameter Table in the extended BIOS data area, the
  EDD drive parameters, and the dispatch of a disk operation to its driver.

  Memory is flat: a far pointer \<open>seg:off\<close> is the address \<open>16 * seg + off\<close>, the BIOS data area is at
  segment 0x40, and packed structures are written field by field at their offsets. Pointers to drives
  are addresses, 0 for null. The disk drivers (under \<open>src/hw\<close>) are a parameter, a function from the
  driver, the operation and the state to the status, the new count and the new memory; every operation
  handed to a driver is recorded. The configuration is the default one.
\<close>

section \<open>Fields of the BIOS data area\<close>

definition bda_floppy_last_status :: u32 where "bda_floppy_last_status = 0x41"
definition bda_disk_last_status :: u32 where "bda_disk_last_status = 0x74"
definition bda_hdcount :: u32 where "bda_hdcount = 0x75"
definition bda_disk_interrupt_flag :: u32 where "bda_disk_interrupt_flag = 0x8e"
definition bda_floppy_harddisk_info :: u32 where "bda_floppy_harddisk_info = 0x8f"

lemmas disk_bda_defs = bda_ebda_seg_def bda_equipment_list_flags_def bda_floppy_last_status_def
  bda_disk_last_status_def bda_hdcount_def bda_disk_interrupt_flag_def bda_floppy_harddisk_info_def

section \<open>Drives\<close>

record chs_s =
  chs_head :: u16
  chs_cylinder :: u16
  chs_sector :: u16

record drive_s =
  dtype :: u8
  floppy_type :: u8
  lchs :: chs_s
  sectors :: u64
  cntl_id :: u32
  removable :: u8
  translation :: u8
  blksize :: u16
  pchs :: chs_s

definition DTYPE_FLOPPY :: u8 where "DTYPE_FLOPPY = 0x10"
definition DTYPE_ATA :: u8 where "DTYPE_ATA = 0x20"
definition DTYPE_ATA_ATAPI :: u8 where "DTYPE_ATA_ATAPI = 0x21"
definition DTYPE_RAMDISK :: u8 where "DTYPE_RAMDISK = 0x30"
definition DTYPE_CDEMU :: u8 where "DTYPE_CDEMU = 0x40"
definition DTYPE_AHCI :: u8 where "DTYPE_AHCI = 0x50"
definition DTYPE_AHCI_ATAPI :: u8 where "DTYPE_AHCI_ATAPI = 0x51"
definition DTYPE_VIRTIO_SCSI :: u8 where "DTYPE_VIRTIO_SCSI = 0x60"
definition DTYPE_VIRTIO_BLK :: u8 where "DTYPE_VIRTIO_BLK = 0x61"
definition DTYPE_USB :: u8 where "DTYPE_USB = 0x70"
definition DTYPE_USB_32 :: u8 where "DTYPE_USB_32 = 0x71"
definition DTYPE_UAS :: u8 where "DTYPE_UAS = 0x72"
definition DTYPE_UAS_32 :: u8 where "DTYPE_UAS_32 = 0x73"
definition DTYPE_LSI_SCSI :: u8 where "DTYPE_LSI_SCSI = 0x80"
definition DTYPE_ESP_SCSI :: u8 where "DTYPE_ESP_SCSI = 0x81"
definition DTYPE_MEGASAS :: u8 where "DTYPE_MEGASAS = 0x82"
definition DTYPE_PVSCSI :: u8 where "DTYPE_PVSCSI = 0x83"
definition DTYPE_MPT_SCSI :: u8 where "DTYPE_MPT_SCSI = 0x84"
definition DTYPE_SDCARD :: u8 where "DTYPE_SDCARD = 0x90"
definition DTYPE_NVME :: u8 where "DTYPE_NVME = 0x91"

lemmas dtype_defs = DTYPE_FLOPPY_def DTYPE_ATA_def DTYPE_ATA_ATAPI_def DTYPE_RAMDISK_def DTYPE_CDEMU_def
  DTYPE_AHCI_def DTYPE_AHCI_ATAPI_def DTYPE_VIRTIO_SCSI_def DTYPE_VIRTIO_BLK_def DTYPE_USB_def
  DTYPE_USB_32_def DTYPE_UAS_def DTYPE_UAS_32_def DTYPE_LSI_SCSI_def DTYPE_ESP_SCSI_def DTYPE_MEGASAS_def
  DTYPE_PVSCSI_def DTYPE_MPT_SCSI_def DTYPE_SDCARD_def DTYPE_NVME_def

definition TRANSLATION_NONE :: u8 where "TRANSLATION_NONE = 0"
definition TRANSLATION_LBA :: u8 where "TRANSLATION_LBA = 1"
definition TRANSLATION_LARGE :: u8 where "TRANSLATION_LARGE = 2"
definition TRANSLATION_RECHS :: u8 where "TRANSLATION_RECHS = 3"
definition TRANSLATION_HOST :: u8 where "TRANSLATION_HOST = 4"

lemmas translation_defs = TRANSLATION_NONE_def TRANSLATION_LBA_def TRANSLATION_LARGE_def
  TRANSLATION_RECHS_def TRANSLATION_HOST_def

definition EXTTYPE_FLOPPY :: nat where "EXTTYPE_FLOPPY = 0"
definition EXTTYPE_HD :: nat where "EXTTYPE_HD = 1"
definition EXTTYPE_CD :: nat where "EXTTYPE_CD = 2"
definition BUILD_MAX_EXTDRIVE :: nat where "BUILD_MAX_EXTDRIVE = 16"
definition CDROM_SECTOR_SIZE :: u32 where "CDROM_SECTOR_SIZE = 2048"

text \<open>Status codes.\<close>

definition DISK_RET_SUCCESS :: u8 where "DISK_RET_SUCCESS = 0x00"
definition DISK_RET_EPARAM :: u8 where "DISK_RET_EPARAM = 0x01"
definition DISK_RET_ECHANGED :: u8 where "DISK_RET_ECHANGED = 0x06"
definition DISK_RET_EBOUNDARY :: u8 where "DISK_RET_EBOUNDARY = 0x09"
definition DISK_RET_ENOTLOCKED :: u8 where "DISK_RET_ENOTLOCKED = 0xb0"
definition DISK_RET_ELOCKED :: u8 where "DISK_RET_ELOCKED = 0xb1"
definition DISK_RET_ENOTREMOVABLE :: u8 where "DISK_RET_ENOTREMOVABLE = 0xb2"
definition DISK_RET_ETOOMANYLOCKS :: u8 where "DISK_RET_ETOOMANYLOCKS = 0xb4"

lemmas disk_ret_defs = DISK_RET_SUCCESS_def DISK_RET_EPARAM_def DISK_RET_ECHANGED_def DISK_RET_EBOUNDARY_def
  DISK_RET_ENOTLOCKED_def DISK_RET_ELOCKED_def DISK_RET_ENOTREMOVABLE_def DISK_RET_ETOOMANYLOCKS_def

text \<open>The commands of a disk operation, and the operation itself.\<close>

definition CMD_RESET :: u8 where "CMD_RESET = 0x00"
definition CMD_READ :: u8 where "CMD_READ = 0x02"
definition CMD_WRITE :: u8 where "CMD_WRITE = 0x03"
definition CMD_VERIFY :: u8 where "CMD_VERIFY = 0x04"
definition CMD_FORMAT :: u8 where "CMD_FORMAT = 0x05"
definition CMD_SEEK :: u8 where "CMD_SEEK = 0x07"
definition CMD_ISREADY :: u8 where "CMD_ISREADY = 0x10"

record disk_op_s =
  buf_fl :: u32
  drive_fl :: u32
  command :: u8
  op_count :: u16
  lba :: u64

text \<open>The Device Parameter Table Extension, and what \<open>fill_ata_edd\<close> reads of the ATA drive that contains a
  drive structure.\<close>

record dpte_s =
  dpte_iobase1 :: u16
  dpte_iobase2 :: u16
  dpte_prefix :: u8
  dpte_unused :: u8
  dpte_irq :: u8
  dpte_blkcount :: u8
  dpte_dma :: u8
  dpte_pio :: u8
  dpte_options :: u16
  dpte_reserved :: u16
  dpte_revision :: u8
  dpte_checksum :: u8

definition dpte_bytes :: "dpte_s \<Rightarrow> u8 list" where
  "dpte_bytes d = le_bytes 2 (dpte_iobase1 d) @ le_bytes 2 (dpte_iobase2 d) @
     [dpte_prefix d, dpte_unused d, dpte_irq d, dpte_blkcount d, dpte_dma d, dpte_pio d] @
     le_bytes 2 (dpte_options d) @ le_bytes 2 (dpte_reserved d) @ [dpte_revision d, dpte_checksum d]"

record atadrive_s =
  ata_iobase1 :: u16
  ata_iobase2 :: u16
  ata_irq :: u8
  ata_pci_bdf :: int
  ata_chanid :: u8
  ata_slave :: u8

text \<open>The El Torito specification packet of the emulated drive.\<close>

record eltorito_s =
  el_size :: u8
  el_media :: u8
  el_emulated_drive :: u8
  el_controller_index :: u8
  el_ilba :: u32
  el_device_spec :: u16
  el_buffer_segment :: u16
  el_load_segment :: u16
  el_sector_count :: u16
  el_heads :: u8
  el_sptcyl :: u8
  el_cyllow :: u8

definition eltorito_bytes :: "eltorito_s \<Rightarrow> u8 list" where
  "eltorito_bytes e =
     [el_size e, el_media e, el_emulated_drive e, el_controller_index e] @ le_bytes 4 (el_ilba e) @
     le_bytes 2 (el_device_spec e) @ le_bytes 2 (el_buffer_segment e) @ le_bytes 2 (el_load_segment e) @
     le_bytes 2 (el_sector_count e) @ [el_heads e, el_sptcyl e, el_cyllow e]"

text \<open>The state. \<open>IDMap\<close> has a list of \<open>BUILD_MAX_EXTDRIVE\<close> pointers for each kind of drive;
  \<open>dpte_so\<close> and \<open>diskette_param_table2\<close> are addresses the linker assigns; \<open>sent\<close> lists the operations
  handed to drivers and \<open>int15_calls\<close> the interrupts raised.\<close>

record disk_state =
  dmem :: mem
  drives :: "u32 \<Rightarrow> drive_s"
  atadrives :: "u32 \<Rightarrow> atadrive_s"
  IDMap :: "nat \<Rightarrow> u32 list"
  FloppyCount :: u8
  CDCount :: u8
  bounce_buf_fl :: u32
  cmos :: "u8 \<Rightarrow> u8"
  DefaultDPTE :: dpte_s
  dpte_so :: u32
  cdemu_drive_gf :: u32
  emulated_drive_gf :: u32
  CDEmu :: eltorito_s
  CDRom_locks :: "u8 list"
  diskette_param_table2 :: u16
  sent :: "disk_op_s list"
  int15_calls :: "bregs list"

definition getDrive :: "nat \<Rightarrow> u8 \<Rightarrow> disk_state \<Rightarrow> u32" where
  "getDrive exttype extdriveoffset st =
     (if unat extdriveoffset \<ge> BUILD_MAX_EXTDRIVE then 0 else IDMap st exttype ! unat extdriveoffset)"

fun driveid_loop :: "nat \<Rightarrow> nat \<Rightarrow> nat \<Rightarrow> u32 \<Rightarrow> disk_state \<Rightarrow> int" where
  "driveid_loop 0 i exttype drive st = -1"
| "driveid_loop (Suc n) i exttype drive st =
     (if getDrive exttype (of_nat i) st = drive then int i else driveid_loop n (Suc i) exttype drive st)"

definition getDriveId :: "nat \<Rightarrow> u32 \<Rightarrow> disk_state \<Rightarrow> int" where
  "getDriveId exttype drive st = driveid_loop BUILD_MAX_EXTDRIVE 0 exttype drive st"

definition create_bounce_buf :: "disk_state \<Rightarrow> fwstate \<Rightarrow> int \<times> disk_state \<times> fwstate" where
  "create_bounce_buf st fw =
     (if bounce_buf_fl st \<noteq> 0 then (0, st, fw)
      else
        let (fw', buf) = fw_alloc ZoneLow CDROM_SECTOR_SIZE MALLOC_MIN_ALIGN fw
        in if buf = 0 then (-1, st, fw') else (0, st\<lparr>bounce_buf_fl := buf\<rparr>, fw'))"

section \<open>Disk geometry translation\<close>

definition host_lchs_supplied :: "drive_s \<Rightarrow> bool" where
  "host_lchs_supplied drive \<longleftrightarrow>
     chs_head (lchs drive) \<le> 255 \<and> chs_sector (lchs drive) > 0 \<and> chs_sector (lchs drive) \<le> 63"

definition CMOS_BIOS_DISKTRANSFLAG :: u8 where "CMOS_BIOS_DISKTRANSFLAG = 0x39"

text \<open>The product of two 16-bit values is a signed 32-bit \<open>int\<close>.\<close>

definition int_mul :: "u16 \<Rightarrow> u16 \<Rightarrow> int" where
  "int_mul a b = sint (ucast a * ucast b :: u32)"

definition get_translation :: "(u8 \<Rightarrow> u8) \<Rightarrow> drive_s \<Rightarrow> u8" where
  "get_translation rtc_read drive =
     (if host_lchs_supplied drive then TRANSLATION_HOST
      else if dtype drive = DTYPE_ATA then
        drop_bit (2 * unat (cntl_id drive mod 4))
          (rtc_read (CMOS_BIOS_DISKTRANSFLAG + ucast (cntl_id drive div 4))) AND 0x03
      else
        let heads = chs_head (pchs drive); cylinders = chs_cylinder (pchs drive);
            spt = chs_sector (pchs drive);
            psectors = (ucast heads * ucast cylinders * ucast spt :: u64)
        in if heads = 0 \<or> cylinders = 0 \<or> spt = 0 \<or> psectors > sectors drive then TRANSLATION_LBA
           else if cylinders \<le> 1024 \<and> heads \<le> 16 \<and> spt \<le> 63 then TRANSLATION_NONE
           else if int_mul cylinders heads \<le> 131072 then TRANSLATION_LARGE
           else TRANSLATION_LBA)"

function large_shift :: "u16 \<Rightarrow> u16 \<Rightarrow> u16 \<times> u16" where
  "large_shift cylinders heads =
     (if cylinders > 1024 then
        let c = drop_bit 1 cylinders; h = push_bit 1 heads
        in if h > 127 then (c, h) else large_shift c h
      else (cylinders, heads))"
  by pat_completeness auto
termination
proof (relation "measure (\<lambda>(c, h). unat c)")
  fix cylinders heads c h :: u16
  assume "cylinders > 1024" "c = drop_bit 1 cylinders"
  then have "unat c = unat cylinders div 2" "0 < unat cylinders"
    using unat_drop_bit_eq [of 1 cylinders] by (simp_all add: word_less_nat_alt drop_bit_eq_div)
  then show "((c, h), cylinders, heads) \<in> measure (\<lambda>(c, h). unat c)" by simp
qed simp

declare large_shift.simps [simp del]

text \<open>The logical geometry (cylinders, heads, sectors) that \<open>setup_translation\<close> computes, before the
  clipping to 1024 cylinders.\<close>

definition translate_lba :: "u64 \<Rightarrow> u16 \<times> u16" where
  "translate_lba secs =
     (if secs > 63 * 255 * 1024 then (1024, 255)
      else
        let sect = (ucast secs :: u32) div 63;
            h = (ucast (sect div 1024) :: u16);
            heads = (if h > 128 then 255 else if h > 64 then 128 else if h > 32 then 64 else if h > 16 then 32 else 16)
        in (ucast (sect div ucast heads), heads))"

definition rechs_adjust :: "u16 \<Rightarrow> u16 \<Rightarrow> u16 \<times> u16" where
  "rechs_adjust cylinders heads =
     (if heads = 16 then
        let c = (if cylinders > 61439 then 61439 else cylinders)
        in (ucast (ucast c * 16 div 15 :: u32), 15)
      else (cylinders, heads))"

definition setup_translation :: "(u8 \<Rightarrow> u8) \<Rightarrow> drive_s \<Rightarrow> drive_s" where
  "setup_translation rtc_read drive =
     (let tr = get_translation rtc_read drive;
          heads = chs_head (pchs drive); cylinders = chs_cylinder (pchs drive);
          spt = chs_sector (pchs drive);
          (c, h, s) =
            (if tr = TRANSLATION_LBA then (case translate_lba (sectors drive) of (c, h) \<Rightarrow> (c, h, 63))
             else if tr = TRANSLATION_RECHS then
               (case rechs_adjust cylinders heads of (c1, h1) \<Rightarrow>
                  case large_shift c1 h1 of (c, h) \<Rightarrow> (c, h, spt))
             else if tr = TRANSLATION_LARGE then (case large_shift cylinders heads of (c, h) \<Rightarrow> (c, h, spt))
             else if tr = TRANSLATION_HOST then
               (chs_cylinder (lchs drive), chs_head (lchs drive), chs_sector (lchs drive))
             else (cylinders, heads, spt));
          c' = (if c > 1024 then 1024 else c)
      in drive\<lparr>translation := tr, lchs := \<lparr>chs_head = h, chs_cylinder = c', chs_sector = s\<rparr>\<rparr>)"

section \<open>Drive mapping\<close>

text \<open>The Fixed Disk Parameter Table of 16 bytes at \<open>p\<close>.\<close>

definition write_fdpt :: "u32 \<Rightarrow> drive_s \<Rightarrow> mem \<Rightarrow> mem" where
  "write_fdpt p drive m =
     (let nlc = chs_cylinder (lchs drive); nlh = chs_head (lchs drive); nls = chs_sector (lchs drive);
          npc = chs_cylinder (pchs drive); nph = chs_head (pchs drive); nps = chs_sector (pchs drive);
          m1 = set_mem 2 (p + 5) (0xffff :: u16) m;
          m2 = m1(p + 8 := 0xc0 OR (if nph > 8 then 8 else 0));
          m3 = set_mem 2 (p + 12) npc m2;
          m4 = set_mem 2 p nlc m3;
          m5 = m4(p + 2 := ucast nlh);
          m6 = m5(p + 14 := ucast nls)
      in if nlc \<noteq> npc \<or> nlh \<noteq> nph \<or> nls \<noteq> nps then
           let m7 = set_mem 2 (p + 9) npc m6;
               m8 = m7(p + 11 := ucast nph);
               m9 = m8(p + 4 := ucast nps);
               m10 = m9(p + 3 := 0xa0)
           in m10(p + 15 := m10 (p + 15) - checksum m10 p 16)
         else m6)"

definition ebda_fdpt :: "nat \<Rightarrow> u32" where "ebda_fdpt hdid = 0x3d + 16 * of_nat hdid"

definition fill_fdpt :: "drive_s \<Rightarrow> nat \<Rightarrow> mem \<Rightarrow> mem" where
  "fill_fdpt drive hdid m =
     (if hdid > 1 then m
      else
        let seg = get_mem 2 (bda_at bda_ebda_seg) m;
            m1 = write_fdpt (MAKE_FLATPTR seg (ebda_fdpt hdid)) drive m;
            seg1 = get_mem 2 (bda_at bda_ebda_seg) m1
        in if hdid = 0 then SET_IVT 0x41 (SEGOFF seg1 (ucast (ebda_fdpt 0))) m1
           else SET_IVT 0x46 (SEGOFF seg1 (ucast (ebda_fdpt 1))) m1)"

text \<open>\<open>add_drive\<close> on one map and its count.\<close>

definition add_drive :: "u32 list \<Rightarrow> u8 \<Rightarrow> u32 \<Rightarrow> u32 list \<times> u8" where
  "add_drive idmap n drive =
     (if unat n \<ge> BUILD_MAX_EXTDRIVE then (idmap, n) else (idmap[unat n := drive], n + 1))"

definition map_hd_drive :: "u32 \<Rightarrow> disk_state \<Rightarrow> disk_state" where
  "map_hd_drive drive st =
     (let hdid = dmem st (bda_at bda_hdcount);
          (idm, n) = add_drive (IDMap st EXTTYPE_HD) hdid drive;
          d = setup_translation (cmos st) (drives st drive);
          m1 = (dmem st)(bda_at bda_hdcount := n)
      in st\<lparr>IDMap := (IDMap st)(EXTTYPE_HD := idm), drives := (drives st)(drive := d),
            dmem := fill_fdpt d (unat hdid) m1\<rparr>)"

definition map_cd_drive :: "u32 \<Rightarrow> disk_state \<Rightarrow> disk_state" where
  "map_cd_drive drive st =
     (let (idm, n) = add_drive (IDMap st EXTTYPE_CD) (CDCount st) drive
      in st\<lparr>IDMap := (IDMap st)(EXTTYPE_CD := idm), CDCount := n\<rparr>)"

definition map_floppy_drive :: "u32 \<Rightarrow> disk_state \<Rightarrow> disk_state" where
  "map_floppy_drive drive st =
     (let (idm, n) = add_drive (IDMap st EXTTYPE_FLOPPY) (FloppyCount st) drive;
          st1 = st\<lparr>IDMap := (IDMap st)(EXTTYPE_FLOPPY := idm), FloppyCount := n\<rparr>
      in if n = 1 then
           st1\<lparr>dmem := (set_equipment_flags 0x41 0x01 (dmem st1))(bda_at bda_floppy_harddisk_info := 0x07)\<rparr>
         else if n \<ge> 2 then
           st1\<lparr>dmem := (set_equipment_flags 0x41 0x41 (dmem st1))(bda_at bda_floppy_harddisk_info := 0x77)\<rparr>
         else st1)"

section \<open>Extended Disk Drive parameters\<close>

definition EDD_ISA :: u8 where "EDD_ISA = 0x01"
definition EDD_PCI :: u8 where "EDD_PCI = 0x02"
definition EDD_BUS_MASK :: u8 where "EDD_BUS_MASK = 0x0f"
definition EDD_ATA :: u8 where "EDD_ATA = 0x10"
definition EDD_SCSI :: u8 where "EDD_SCSI = 0x20"
definition EDD_IFACE_MASK :: u8 where "EDD_IFACE_MASK = 0xf0"

definition str_bytes :: "string \<Rightarrow> u8 list" where "str_bytes s = map of_char s"

text \<open>The three parts of \<open>fill_generic_edd\<close> on the \<open>int13dpt_s\<close> at \<open>p\<close>.\<close>

definition fill_edd1 :: "u32 \<Rightarrow> drive_s \<Rightarrow> mem \<Rightarrow> mem" where
  "fill_edd1 p drive m =
     (let npc = chs_cylinder (pchs drive); nph = chs_head (pchs drive); nps = chs_sector (pchs drive);
          l = sectors drive;
          m1 = set_mem 2 p (26 :: u16) m;
          m2 =
            (if l = -1 then
               set_mem 4 (p + 12) (0xffffffff :: u32)
                 (set_mem 4 (p + 8) (0xffffffff :: u32)
                   (set_mem 4 (p + 4) (0xffffffff :: u32)
                     (set_mem 2 (p + 2) (0x74 :: u16) m1)))
             else
               let ma =
                 (if l > ucast nps * ucast nph * 0x3fff then
                    set_mem 4 (p + 4) (0x3fff :: u32) (set_mem 2 (p + 2) (0x00 :: u16) m1)
                  else set_mem 4 (p + 4) (ucast npc :: u32) (set_mem 2 (p + 2) (0x02 :: u16) m1))
               in set_mem 4 (p + 12) (ucast nps :: u32) (set_mem 4 (p + 8) (ucast nph :: u32) ma))
      in set_mem 2 (p + 24) (blksize drive) (set_mem 8 (p + 16) l m2))"

definition fill_edd2 :: "u32 \<Rightarrow> u32 \<Rightarrow> mem \<Rightarrow> mem" where
  "fill_edd2 p so m = set_mem 4 (p + 26) so (set_mem 2 p (30 :: u16) m)"

definition fill_edd3 :: "u32 \<Rightarrow> bool \<Rightarrow> u8 \<Rightarrow> u32 \<Rightarrow> u32 \<Rightarrow> mem \<Rightarrow> mem" where
  "fill_edd3 p t13 bus_iface iface_path device_path m =
     (let m1 = set_mem 2 (p + 30) (0xbedd :: u16) m;
          m2 = m1(p + 32 := (if t13 then 44 else 36));
          m3 = m2(p + 33 := 0);
          m4 = set_mem 2 (p + 34) (0 :: u16) m3;
          pci = (bus_iface AND EDD_BUS_MASK = EDD_PCI);
          host_bus = (if pci then ''PCI '' else ''ISA '');
          path = (if pci \<and> \<not> t13 then iface_path AND 0x00ffffff else iface_path);
          m5 = mem_write (p + 36) (str_bytes host_bus) m4;
          m6 = set_mem 8 (p + 48) (ucast path :: u64) m5;
          iface_type = (if bus_iface AND EDD_IFACE_MASK = EDD_SCSI then ''SCSI    '' else ''ATA     '');
          m7 = mem_write (p + 40) (str_bytes iface_type) m6
      in if t13 then
           let m8 = set_mem 8 (p + 64) (0 :: u64) (set_mem 8 (p + 56) (ucast device_path :: u64) m7)
           in m8(p + 73 := - checksum m8 (p + 30) 43)
         else
           let m8 = set_mem 8 (p + 56) (ucast device_path :: u64) m7
           in m8(p + 65 := - checksum m8 (p + 30) 35))"

definition fill_generic_edd :: "u32 \<Rightarrow> drive_s \<Rightarrow> u32 \<Rightarrow> u8 \<Rightarrow> u32 \<Rightarrow> u32 \<Rightarrow> mem \<Rightarrow> u8 \<times> mem" where
  "fill_generic_edd p drive so bus_iface iface_path device_path m =
     (let sz = (get_mem 2 p m :: u16); t13 = (sz = 74)
      in if sz < 26 then (DISK_RET_EPARAM, m)
         else
           let m1 = fill_edd1 p drive m
           in if sz < 30 \<or> so = 0 then (DISK_RET_SUCCESS, m1)
              else
                let m2 = fill_edd2 p so m1
                in if sz < 66 \<or> bus_iface = 0 then (DISK_RET_SUCCESS, m2)
                   else (DISK_RET_SUCCESS, fill_edd3 p t13 bus_iface iface_path device_path m2))"

definition edd_pci_path :: "u16 \<Rightarrow> u8 \<Rightarrow> u32" where
  "edd_pci_path bdf channel =
     (ucast (pci_bdf_to_bus bdf) OR push_bit 8 (ucast (pci_bdf_to_dev bdf)) OR
      push_bit 16 (ucast (pci_bdf_to_fn bdf)) OR push_bit 24 (ucast channel))"

definition ata_options :: "drive_s \<Rightarrow> u16" where
  "ata_options drive =
     ((if dtype drive = DTYPE_ATA then
         let tr = translation drive
         in if tr \<noteq> TRANSLATION_NONE \<and> tr \<noteq> TRANSLATION_HOST then
              8 OR (if tr = TRANSLATION_LBA then 0x200 else 0) OR (if tr = TRANSLATION_RECHS then 0x600 else 0)
            else 0
       else 0x20 OR 0x40) OR 0x10)"

definition fill_ata_edd :: "u32 \<Rightarrow> u32 \<Rightarrow> disk_state \<Rightarrow> u8 \<times> disk_state" where
  "fill_ata_edd edd drive st =
     (let a = atadrives st drive; d = drives st drive;
          dp = \<lparr>dpte_iobase1 = ata_iobase1 a, dpte_iobase2 = ata_iobase2 a + 2,
                dpte_prefix = (if ata_slave a \<noteq> 0 then 0xb0 else 0xa0) OR 0x40, dpte_unused = 0xcb,
                dpte_irq = ata_irq a, dpte_blkcount = 1, dpte_dma = 0, dpte_pio = 0,
                dpte_options = ata_options d, dpte_reserved = 0, dpte_revision = 0x11,
                dpte_checksum = dpte_checksum (DefaultDPTE st)\<rparr>;
          sm = sum_list (take 15 (dpte_bytes dp));
          st1 = st\<lparr>DefaultDPTE := dp\<lparr>dpte_checksum := - sm\<rparr>\<rparr>;
          (bustype, ifpath) =
            (if ata_pci_bdf a \<ge> 0 then (EDD_PCI, edd_pci_path (of_int (ata_pci_bdf a)) (ata_chanid a))
             else (EDD_ISA, ucast (ata_iobase1 a)));
          (ret, m) = fill_generic_edd edd d (dpte_so st) (bustype OR EDD_ATA) ifpath (ucast (ata_slave a)) (dmem st1)
      in (ret, st1\<lparr>dmem := m\<rparr>))"

definition fill_edd :: "u32 \<Rightarrow> u32 \<Rightarrow> disk_state \<Rightarrow> u8 \<times> disk_state" where
  "fill_edd edd drive st =
     (let d = drives st drive
      in if dtype d = DTYPE_ATA \<or> dtype d = DTYPE_ATA_ATAPI then fill_ata_edd edd drive st
         else
           let (ret, m) =
             (if dtype d = DTYPE_VIRTIO_BLK \<or> dtype d = DTYPE_VIRTIO_SCSI
              then fill_generic_edd edd d 0xffffffff (EDD_PCI OR EDD_SCSI) (edd_pci_path (ucast (cntl_id d)) 0) 0 (dmem st)
              else fill_generic_edd edd d 0 0 0 0 (dmem st))
           in (ret, st\<lparr>dmem := m\<rparr>))"

section \<open>Driver dispatch\<close>

datatype disk_driver =
  FloppyDrv | AtaDrv | AtaAtapiDrv | RamdiskDrv | CdemuDrv | UsbDrv | UasDrv | LsiDrv | EspDrv | MegasasDrv
  | MptDrv | VirtioBlkDrv | AhciDrv | AhciAtapiDrv | SdcardDrv | VirtioScsiDrv | PvscsiDrv | NvmeDrv

type_synonym disk_drivers = "disk_driver \<Rightarrow> disk_op_s \<Rightarrow> disk_state \<Rightarrow> int \<times> u16 \<times> mem"

definition default_process_op :: "disk_op_s \<Rightarrow> u8" where
  "default_process_op opn =
     (if command opn \<in> {CMD_FORMAT, CMD_RESET, CMD_ISREADY, CMD_VERIFY, CMD_SEEK}
      then DISK_RET_SUCCESS else DISK_RET_EPARAM)"

text \<open>The driver that each of the three dispatch functions calls; \<open>None\<close> is the error \<open>DISK_RET_EPARAM\<close>.
  In 16-bit mode \<open>process_op_both\<close> falls back to \<open>process_op_32\<close>.\<close>

definition both_driver :: "u8 \<Rightarrow> disk_driver option \<Rightarrow> disk_driver option" where
  "both_driver t fallback =
     (if t = DTYPE_ATA_ATAPI then Some AtaAtapiDrv
      else if t = DTYPE_USB then Some UsbDrv
      else if t = DTYPE_UAS then Some UasDrv
      else if t = DTYPE_LSI_SCSI then Some LsiDrv
      else if t = DTYPE_ESP_SCSI then Some EspDrv
      else if t = DTYPE_MEGASAS then Some MegasasDrv
      else if t = DTYPE_MPT_SCSI then Some MptDrv
      else fallback)"

definition process_op_32 :: "u8 \<Rightarrow> disk_driver option" where
  "process_op_32 t =
     (if t = DTYPE_VIRTIO_BLK then Some VirtioBlkDrv
      else if t = DTYPE_AHCI then Some AhciDrv
      else if t = DTYPE_AHCI_ATAPI then Some AhciAtapiDrv
      else if t = DTYPE_SDCARD then Some SdcardDrv
      else if t = DTYPE_USB_32 then Some UsbDrv
      else if t = DTYPE_UAS_32 then Some UasDrv
      else if t = DTYPE_VIRTIO_SCSI then Some VirtioScsiDrv
      else if t = DTYPE_PVSCSI then Some PvscsiDrv
      else if t = DTYPE_NVME then Some NvmeDrv
      else both_driver t None)"

definition process_op_16 :: "u8 \<Rightarrow> disk_driver option" where
  "process_op_16 t =
     (if t = DTYPE_FLOPPY then Some FloppyDrv
      else if t = DTYPE_ATA then Some AtaDrv
      else if t = DTYPE_RAMDISK then Some RamdiskDrv
      else if t = DTYPE_CDEMU then Some CdemuDrv
      else both_driver t (process_op_32 t))"

text \<open>\<open>process_op\<close>: the status, the count left in the operation, and the state.\<close>

definition process_op :: "bool \<Rightarrow> disk_drivers \<Rightarrow> disk_op_s \<Rightarrow> disk_state \<Rightarrow> int \<times> u16 \<times> disk_state" where
  "process_op modeseg drv opn st =
     (let d = drives st (drive_fl opn); origcount = op_count opn
      in if int_mul origcount (blksize d) > 64 * 1024 then (uint DISK_RET_EBOUNDARY, 0, st)
         else
           let (ret, n, st1) =
             (case (if modeseg then process_op_16 (dtype d) else process_op_32 (dtype d)) of
                None \<Rightarrow> (uint DISK_RET_EPARAM, origcount, st)
              | Some v \<Rightarrow>
                  let (r, n, m) = drv v opn st in (r, n, st\<lparr>dmem := m, sent := sent st @ [opn]\<rparr>))
           in (ret, if ret \<noteq> 0 \<and> n = origcount then 0 else n, st1))"

end
