(* ===== verification/Disk.thy ===== *)
theory Disk
  imports Block
begin

text \<open>
  Interrupt 0x13 of \<open>src/disk.c\<close>: the disk services on the drives of \<open>Block\<close>, one function per service,
  the two entry points, and the completion interrupt. A service takes the registers, the drive and the
  state and returns the new registers and state. The environment gives the drivers and the handler of
  interrupt 0x15 that the eject service raises. Warnings and debug output are not modelled; the code
  runs in 16-bit mode.
\<close>

record disk_env =
  env_drivers :: disk_drivers
  env_int15 :: "disk_state \<Rightarrow> bregs \<Rightarrow> bregs"

definition EXTSTART_HD :: u8 where "EXTSTART_HD = 0x80"
definition EXTSTART_CD :: u8 where "EXTSTART_CD = 0xe0"

lemmas extstart_defs = EXTSTART_HD_def EXTSTART_CD_def

abbreviation set_bda8 :: "u32 \<Rightarrow> u8 \<Rightarrow> disk_state \<Rightarrow> disk_state" where
  "set_bda8 off v st \<equiv> st\<lparr>dmem := (dmem st)(bda_at off := v)\<rparr>"

section \<open>Return status\<close>

definition last_status :: "bregs \<Rightarrow> u32" where
  "last_status regs = (if dl regs < EXTSTART_HD then bda_floppy_last_status else bda_disk_last_status)"

definition disk_ret :: "bregs \<Rightarrow> u8 \<Rightarrow> disk_state \<Rightarrow> bregs \<times> disk_state" where
  "disk_ret regs rcode st =
     (if rcode \<noteq> 0 then set_code_invalid_silent rcode regs else set_code_success regs,
      set_bda8 (last_status regs) rcode st)"

definition disk_ret_unimplemented :: "bregs \<Rightarrow> u8 \<Rightarrow> disk_state \<Rightarrow> bregs \<times> disk_state" where
  "disk_ret_unimplemented regs rcode st =
     (set_code_invalid_silent rcode regs, set_bda8 (last_status regs) rcode st)"

definition DISK_STUB :: "bregs \<Rightarrow> disk_state \<Rightarrow> bregs \<times> disk_state" where
  "DISK_STUB regs st = disk_ret regs DISK_RET_SUCCESS st"

section \<open>Helpers\<close>

definition getLCHS :: "u32 \<Rightarrow> disk_state \<Rightarrow> chs_s" where
  "getLCHS drive st =
     (if drive = cdemu_drive_gf st then
        let sptcyl = el_sptcyl (CDEmu st)
        in \<lparr>chs_head = ucast (el_heads (CDEmu st)) + 1,
            chs_cylinder = ucast (el_cyllow (CDEmu st)) + (push_bit 2 (ucast sptcyl) AND 0x300) + 1,
            chs_sector = ucast (sptcyl AND 0x3f)\<rparr>
      else lchs (drives st drive))"

definition send_disk_op :: "disk_env \<Rightarrow> disk_op_s \<Rightarrow> disk_state \<Rightarrow> int \<times> u16 \<times> disk_state" where
  "send_disk_op env opn st = process_op True (env_drivers env) opn st"

text \<open>The status of an operation as the 8-bit code of \<open>disk_ret\<close>.\<close>

abbreviation status8 :: "int \<Rightarrow> u8" where "status8 s \<equiv> word_of_int s"

definition chs_to_lba :: "chs_s \<Rightarrow> u16 \<Rightarrow> u16 \<Rightarrow> u16 \<Rightarrow> u32" where
  "chs_to_lba chs cylinder head sector =
     (ucast cylinder * ucast (chs_head chs) + ucast head) * ucast (chs_sector chs) + ucast sector - 1"

definition basic_access :: "disk_env \<Rightarrow> bregs \<Rightarrow> u32 \<Rightarrow> u8 \<Rightarrow> disk_state \<Rightarrow> bregs \<times> disk_state" where
  "basic_access env regs drive cmd st =
     (let n = al regs;
          cylinder = (ucast (ch regs) OR (push_bit 2 (ucast (cl regs)) AND 0x300) :: u16);
          sector = (ucast (cl regs AND 0x3f) :: u16);
          head = (ucast (dh regs) :: u16)
      in if n > 128 \<or> n = 0 \<or> sector = 0 then disk_ret regs DISK_RET_EPARAM st
         else
           let chs = getLCHS drive st
           in if cylinder \<ge> chs_cylinder chs \<or> head \<ge> chs_head chs \<or> sector > chs_sector chs
              then disk_ret regs DISK_RET_EPARAM st
              else
                let opn = \<lparr>buf_fl = MAKE_FLATPTR (es regs) (ucast (bx regs)), drive_fl = drive, command = cmd,
                           op_count = ucast n, lba = ucast (chs_to_lba chs cylinder head sector)\<rparr>;
                    (status, cnt, st1) = send_disk_op env opn st
                in disk_ret (set_al (ucast cnt) regs) (status8 status) st1)"

text \<open>The fields of the \<open>int13ext_s\<close> packet at \<open>ds:si\<close>: count at 2, buffer at 4, lba at 8.\<close>

definition extended_access :: "disk_env \<Rightarrow> bregs \<Rightarrow> u32 \<Rightarrow> u8 \<Rightarrow> disk_state \<Rightarrow> bregs \<times> disk_state" where
  "extended_access env regs drive cmd st =
     (let p = MAKE_FLATPTR (ds regs) (ucast (r16 (esi regs)));
          l = get_mem 8 (p + 8) (dmem st)
      in if l \<ge> sectors (drives st drive) then disk_ret regs DISK_RET_EPARAM st
         else
           let buf = SEGOFF_TO_FLATPTR (get_mem 4 (p + 4) (dmem st));
               n = get_mem 2 (p + 2) (dmem st)
           in if n = 0 then disk_ret regs DISK_RET_SUCCESS st
              else
                let opn = \<lparr>buf_fl = buf, drive_fl = drive, command = cmd, op_count = n, lba = l\<rparr>;
                    (status, cnt, st1) = send_disk_op env opn st
                in disk_ret regs (status8 status) (st1\<lparr>dmem := set_mem 2 (p + 2) cnt (dmem st1)\<rparr>))"

section \<open>Hard drive functions\<close>

definition plain_op :: "u32 \<Rightarrow> u8 \<Rightarrow> disk_op_s" where
  "plain_op drive cmd = \<lparr>buf_fl = 0, drive_fl = drive, command = cmd, op_count = 0, lba = 0\<rparr>"

definition disk_1300 :: "disk_env \<Rightarrow> bregs \<Rightarrow> u32 \<Rightarrow> disk_state \<Rightarrow> bregs \<times> disk_state" where
  "disk_1300 env regs drive st =
     (let (status, _, st1) = send_disk_op env (plain_op drive CMD_RESET) st in disk_ret regs (status8 status) st1)"

definition disk_1301 :: "bregs \<Rightarrow> disk_state \<Rightarrow> bregs" where
  "disk_1301 regs st =
     (let v = dmem st (bda_at (last_status regs)) in set_cf (v \<noteq> 0) (set_ah v regs))"

definition disk_1302 :: "disk_env \<Rightarrow> bregs \<Rightarrow> u32 \<Rightarrow> disk_state \<Rightarrow> bregs \<times> disk_state" where
  "disk_1302 env regs drive st = basic_access env regs drive CMD_READ st"

definition disk_1303 :: "disk_env \<Rightarrow> bregs \<Rightarrow> u32 \<Rightarrow> disk_state \<Rightarrow> bregs \<times> disk_state" where
  "disk_1303 env regs drive st = basic_access env regs drive CMD_WRITE st"

definition disk_1304 :: "disk_env \<Rightarrow> bregs \<Rightarrow> u32 \<Rightarrow> disk_state \<Rightarrow> bregs \<times> disk_state" where
  "disk_1304 env regs drive st = basic_access env regs drive CMD_VERIFY st"

definition disk_1305 :: "disk_env \<Rightarrow> bregs \<Rightarrow> u32 \<Rightarrow> disk_state \<Rightarrow> bregs \<times> disk_state" where
  "disk_1305 env regs drive st =
     (let chs = getLCHS drive st; n = al regs;
          cylinder = (ucast (ch regs) :: u16); head = (ucast (dh regs) :: u16)
      in if cylinder \<ge> chs_cylinder chs \<or> head \<ge> chs_head chs \<or> n = 0 \<or> ucast n > chs_sector chs
         then disk_ret regs DISK_RET_EPARAM st
         else
           let l = ((ucast cylinder * ucast (chs_head chs) + ucast head) * ucast (chs_sector chs) :: u32);
               opn = \<lparr>buf_fl = MAKE_FLATPTR (es regs) (ucast (bx regs)), drive_fl = drive,
                      command = CMD_FORMAT, op_count = ucast n, lba = ucast l\<rparr>;
               (status, _, st1) = send_disk_op env opn st
           in disk_ret regs (status8 status) st1)"

definition disk_1308 :: "bregs \<Rightarrow> u32 \<Rightarrow> disk_state \<Rightarrow> bregs \<times> disk_state" where
  "disk_1308 regs drive st =
     (let chs = getLCHS drive st; nlc = chs_cylinder chs - 1; nlh = chs_head chs - 1; nls = chs_sector chs
      in if dl regs \<ge> EXTSTART_CD then disk_ret regs DISK_RET_EPARAM st
         else
           let floppy = (dl regs < EXTSTART_HD);
               n = (if floppy then FloppyCount st else dmem st (bda_at bda_hdcount));
               regs1 =
                 (if floppy then
                    (set_bx (if drive = cdemu_drive_gf st then ucast (el_media (CDEmu st)) * 2
                             else ucast (floppy_type (drives st drive))) regs)
                      \<lparr>es := SEG_BIOS, edi := put16 (diskette_param_table2 st) (edi regs)\<rparr>
                  else regs);
               nlc1 = (if floppy then nlc else nlc - 1);
               n1 =
                 (if el_media (CDEmu st) \<noteq> 0 then
                    let n2 = (if (el_emulated_drive (CDEmu st) XOR dl regs) AND 0x80 = 0 then n + 1 else n)
                    in if floppy \<and> n2 > 2 then 2 else n2
                  else n);
               regs2 = set_dh (ucast nlh)
                 (set_cl (ucast (drop_bit 2 nlc1 AND 0xc0) OR ucast (nls AND 0x3f))
                   (set_ch (ucast (nlc1 AND 0xff)) (set_al 0 regs1)));
               (regs3, st1) = disk_ret regs2 DISK_RET_SUCCESS st
           in (set_dl n1 regs3, st1))"

definition disk_1310 :: "disk_env \<Rightarrow> bregs \<Rightarrow> u32 \<Rightarrow> disk_state \<Rightarrow> bregs \<times> disk_state" where
  "disk_1310 env regs drive st =
     (let (status, _, st1) = send_disk_op env (plain_op drive CMD_ISREADY) st in disk_ret regs (status8 status) st1)"

definition disk_1315 :: "bregs \<Rightarrow> u32 \<Rightarrow> disk_state \<Rightarrow> bregs \<times> disk_state" where
  "disk_1315 regs drive st =
     (let (regs1, st1) = disk_ret regs DISK_RET_SUCCESS st
      in if dl regs1 < EXTSTART_HD \<or> dl regs1 \<ge> EXTSTART_CD then (set_ah 1 regs1, st1)
         else
           let chs = getLCHS drive st1;
               l = (ucast (chs_cylinder chs) - 1) * ucast (chs_head chs) * (ucast (chs_sector chs) :: u32)
           in (set_ah 3 (set_dx (ucast (l AND 0xffff)) (set_cx (ucast (drop_bit 16 l)) regs1)), st1))"

definition disk_1316 :: "bregs \<Rightarrow> disk_state \<Rightarrow> bregs \<times> disk_state" where
  "disk_1316 regs st =
     disk_ret regs (if dl regs \<ge> EXTSTART_HD then DISK_RET_EPARAM else DISK_RET_ECHANGED) st"

definition disk_1341 :: "bregs \<Rightarrow> disk_state \<Rightarrow> bregs \<times> disk_state" where
  "disk_1341 regs st =
     (let (regs1, st1) = disk_ret (set_cx 0x0007 (set_bx 0xaa55 regs)) DISK_RET_SUCCESS st
      in (set_ah 0x30 regs1, st1))"

definition disk_1342 :: "disk_env \<Rightarrow> bregs \<Rightarrow> u32 \<Rightarrow> disk_state \<Rightarrow> bregs \<times> disk_state" where
  "disk_1342 env regs drive st = extended_access env regs drive CMD_READ st"

definition disk_1343 :: "disk_env \<Rightarrow> bregs \<Rightarrow> u32 \<Rightarrow> disk_state \<Rightarrow> bregs \<times> disk_state" where
  "disk_1343 env regs drive st = extended_access env regs drive CMD_WRITE st"

definition disk_1344 :: "disk_env \<Rightarrow> bregs \<Rightarrow> u32 \<Rightarrow> disk_state \<Rightarrow> bregs \<times> disk_state" where
  "disk_1344 env regs drive st = extended_access env regs drive CMD_VERIFY st"

section \<open>Locks of removable drives\<close>

definition cdid :: "bregs \<Rightarrow> nat" where "cdid regs = unat (dl regs - EXTSTART_CD)"

abbreviation set_lock :: "nat \<Rightarrow> u8 \<Rightarrow> disk_state \<Rightarrow> disk_state" where
  "set_lock i v st \<equiv> st\<lparr>CDRom_locks := (CDRom_locks st)[i := v]\<rparr>"

definition disk_134500 :: "bregs \<Rightarrow> disk_state \<Rightarrow> bregs \<times> disk_state" where
  "disk_134500 regs st =
     (let locks = CDRom_locks st ! cdid regs
      in if locks = 0xff then disk_ret (set_al 1 regs) DISK_RET_ETOOMANYLOCKS st
         else disk_ret (set_al 1 regs) DISK_RET_SUCCESS (set_lock (cdid regs) (locks + 1) st))"

definition disk_134501 :: "bregs \<Rightarrow> disk_state \<Rightarrow> bregs \<times> disk_state" where
  "disk_134501 regs st =
     (let locks = CDRom_locks st ! cdid regs
      in if locks = 0 then disk_ret (set_al 0 regs) DISK_RET_ENOTLOCKED st
         else
           let l = locks - 1
           in disk_ret (set_al (if l \<noteq> 0 then 1 else 0) regs) DISK_RET_SUCCESS (set_lock (cdid regs) l st))"

definition disk_134502 :: "bregs \<Rightarrow> disk_state \<Rightarrow> bregs \<times> disk_state" where
  "disk_134502 regs st =
     disk_ret (set_al (if CDRom_locks st ! cdid regs \<noteq> 0 then 1 else 0) regs) DISK_RET_SUCCESS st"

definition disk_1345 :: "bregs \<Rightarrow> disk_state \<Rightarrow> bregs \<times> disk_state" where
  "disk_1345 regs st =
     (if dl regs < EXTSTART_CD then disk_ret regs DISK_RET_SUCCESS st
      else if al regs = 0x00 then disk_134500 regs st
      else if al regs = 0x01 then disk_134501 regs st
      else if al regs = 0x02 then disk_134502 regs st
      else disk_ret_unimplemented regs DISK_RET_EPARAM st)"

definition disk_1346 :: "disk_env \<Rightarrow> bregs \<Rightarrow> disk_state \<Rightarrow> bregs \<times> disk_state" where
  "disk_1346 env regs st =
     (if dl regs < EXTSTART_CD then disk_ret regs DISK_RET_ENOTREMOVABLE st
      else if CDRom_locks st ! cdid regs \<noteq> 0 then disk_ret regs DISK_RET_ELOCKED st
      else
        let br = set_dl (dl regs) (set_ah 0x52 bregs_zero);
            br1 = env_int15 env st br;
            st1 = st\<lparr>int15_calls := int15_calls st @ [br]\<rparr>
        in if ah br1 \<noteq> 0 \<or> carry br1 then disk_ret regs DISK_RET_ELOCKED st1
           else disk_ret regs DISK_RET_SUCCESS st1)"

definition disk_1347 :: "disk_env \<Rightarrow> bregs \<Rightarrow> u32 \<Rightarrow> disk_state \<Rightarrow> bregs \<times> disk_state" where
  "disk_1347 env regs drive st = extended_access env regs drive CMD_SEEK st"

definition disk_1348 :: "bregs \<Rightarrow> u32 \<Rightarrow> disk_state \<Rightarrow> bregs \<times> disk_state" where
  "disk_1348 regs drive st =
     (let (ret, st1) = fill_edd (MAKE_FLATPTR (ds regs) (ucast (r16 (esi regs)))) drive st in disk_ret regs ret st1)"

definition disk_1349 :: "bregs \<Rightarrow> disk_state \<Rightarrow> bregs \<times> disk_state" where
  "disk_1349 regs st =
     (if dl regs < EXTSTART_CD then disk_ret regs DISK_RET_SUCCESS st
      else (set_ah DISK_RET_ECHANGED (set_invalid_silent regs), st))"

definition disk_134e :: "bregs \<Rightarrow> disk_state \<Rightarrow> bregs \<times> disk_state" where
  "disk_134e regs st =
     (if al regs = 0x01 \<or> al regs = 0x03 \<or> al regs = 0x04 \<or> al regs = 0x06
      then disk_ret regs DISK_RET_SUCCESS st else disk_ret regs DISK_RET_EPARAM st)"

definition disk_13XX :: "bregs \<Rightarrow> disk_state \<Rightarrow> bregs \<times> disk_state" where
  "disk_13XX regs st = disk_ret_unimplemented regs DISK_RET_EPARAM st"

definition disk_13 :: "disk_env \<Rightarrow> bregs \<Rightarrow> u32 \<Rightarrow> disk_state \<Rightarrow> bregs \<times> disk_state" where
  "disk_13 env regs drive st0 =
     (let st = set_bda8 bda_disk_interrupt_flag 0 st0; f = ah regs
      in if f = 0x00 then disk_1300 env regs drive st
         else if f = 0x01 then (disk_1301 regs st, st)
         else if f = 0x02 then disk_1302 env regs drive st
         else if f = 0x03 then disk_1303 env regs drive st
         else if f = 0x04 then disk_1304 env regs drive st
         else if f = 0x05 then disk_1305 env regs drive st
         else if f = 0x08 then disk_1308 regs drive st
         else if f = 0x09 \<or> f = 0x0c \<or> f = 0x0d then DISK_STUB regs st
         else if f = 0x10 then disk_1310 env regs drive st
         else if f = 0x11 \<or> f = 0x14 then DISK_STUB regs st
         else if f = 0x15 then disk_1315 regs drive st
         else if f = 0x16 then disk_1316 regs st
         else if f = 0x41 then disk_1341 regs st
         else if f = 0x42 then disk_1342 env regs drive st
         else if f = 0x43 then disk_1343 env regs drive st
         else if f = 0x44 then disk_1344 env regs drive st
         else if f = 0x45 then disk_1345 regs st
         else if f = 0x46 then disk_1346 env regs st
         else if f = 0x47 then disk_1347 env regs drive st
         else if f = 0x48 then disk_1348 regs drive st
         else if f = 0x49 then disk_1349 regs st
         else if f = 0x4e then disk_134e regs st
         else disk_13XX regs st)"

definition floppy_13 :: "disk_env \<Rightarrow> bregs \<Rightarrow> u32 \<Rightarrow> disk_state \<Rightarrow> bregs \<times> disk_state" where
  "floppy_13 env regs drive st =
     (if ah regs \<in> {0x00, 0x01, 0x02, 0x03, 0x04, 0x05, 0x08, 0x15, 0x16}
      then disk_13 env regs drive st else disk_13XX regs st)"

definition cdemu_134b :: "bregs \<Rightarrow> disk_state \<Rightarrow> bregs \<times> disk_state" where
  "cdemu_134b regs st =
     (let p = MAKE_FLATPTR (ds regs) (ucast (r16 (esi regs)));
          st1 = st\<lparr>dmem := mem_write p (eltorito_bytes (CDEmu st)) (dmem st)\<rparr>;
          st2 = (if al regs = 0 then st1\<lparr>CDEmu := (CDEmu st1)\<lparr>el_media := 0\<rparr>\<rparr> else st1)
      in disk_ret regs DISK_RET_SUCCESS st2)"

section \<open>Entry points\<close>

definition handle_legacy_disk :: "disk_env \<Rightarrow> bregs \<Rightarrow> u8 \<Rightarrow> disk_state \<Rightarrow> bregs \<times> disk_state" where
  "handle_legacy_disk env regs extdrive st =
     (if extdrive < EXTSTART_HD then
        let drive = getDrive EXTTYPE_FLOPPY extdrive st
        in if drive = 0 then disk_ret regs DISK_RET_EPARAM st else floppy_13 env regs drive st
      else
        let drive = (if extdrive \<ge> EXTSTART_CD then getDrive EXTTYPE_CD (extdrive - EXTSTART_CD) st
                     else getDrive EXTTYPE_HD (extdrive - EXTSTART_HD) st)
        in if drive = 0 then disk_ret regs DISK_RET_EPARAM st else disk_13 env regs drive st)"

definition handle_40 :: "disk_env \<Rightarrow> bregs \<Rightarrow> disk_state \<Rightarrow> bregs \<times> disk_state" where
  "handle_40 env regs st = handle_legacy_disk env regs (dl regs) st"

definition handle_13 :: "disk_env \<Rightarrow> bregs \<Rightarrow> disk_state \<Rightarrow> bregs \<times> disk_state" where
  "handle_13 env regs st =
     (let extdrive = dl regs; emudrive = el_emulated_drive (CDEmu st)
      in if ah regs = 0x4b then cdemu_134b regs st
         else if el_media (CDEmu st) \<noteq> 0 then
           if extdrive = emudrive then
             if ah regs > 0x16 then disk_13XX regs st else disk_13 env regs (cdemu_drive_gf st) st
           else if extdrive < EXTSTART_CD \<and> (emudrive XOR extdrive) AND 0x80 = 0
           then handle_legacy_disk env regs (extdrive - 1) st
           else handle_legacy_disk env regs extdrive st
         else handle_legacy_disk env regs extdrive st)"

definition handle_76 :: "disk_state \<Rightarrow> disk_state" where
  "handle_76 st = set_bda8 bda_disk_interrupt_flag 0xff st"

end
