(* ===== verification/DiskProps.thy ===== *)
theory DiskProps
  imports Disk
begin

text \<open>
  Properties of the disk services: the logical geometry never describes more sectors than the drive has
  and CHS requests stay inside it, the EDD parameters stay inside the caller's buffer and carry a valid
  checksum, and the locks of removable drives count correctly.
\<close>

section \<open>Logical geometry\<close>

definition capacity :: "chs_s \<Rightarrow> nat" where
  "capacity g = unat (chs_cylinder g) * unat (chs_head g) * unat (chs_sector g)"

lemma translate_lba_fits:
  assumes "translate_lba secs = (c, h)"
  shows "min (unat c) 1024 * unat h * 63 \<le> unat secs"
proof (cases "secs > 63 * 255 * 1024")
  case True
  then show ?thesis using assms by (auto simp: translate_lba_def word_less_nat_alt)
next
  case False
  let ?sect = "(ucast secs :: u32) div 63"
  let ?h = "ucast (?sect div 1024) :: u16"
  have small: "unat secs \<le> 16450560" using False by (simp add: word_less_nat_alt)
  then have sect: "unat ?sect = unat secs div 63" by (simp add: unat_div unsigned_ucast_eq take_bit_nat_eq_self)
  then have "unat (?sect div 1024) = unat secs div 63 div 1024" by (simp add: unat_div)
  then have uh: "unat ?h = unat secs div 63 div 1024"
    using small by (simp add: unsigned_ucast_eq take_bit_nat_eq_self)
  define H where "H = (if ?h > 128 then 255 else if ?h > 64 then 128 else if ?h > 32 then 64 else if ?h > 16 then 32 else (16 :: u16))"
  have "translate_lba secs = (ucast (?sect div ucast H), H)"
    using False by (simp add: translate_lba_def Let_def H_def del: if_split)
  then have c: "c = ucast (?sect div ucast h)" using assms by auto
  have "unat c \<le> unat (?sect div ucast h)"
    unfolding c by (simp add: unsigned_ucast_eq take_bit_nat_less_eq_self)
  also have "\<dots> = unat secs div 63 div unat h"
    using small unat_u16_bound [of h]
    by (simp add: unat_div sect unsigned_ucast_eq take_bit_nat_eq_self)
  finally have "unat c * unat h \<le> unat secs div 63"
    by (meson div_times_less_eq_dividend le_trans mult_le_mono1)
  then have "min (unat c) 1024 * unat h * 63 \<le> unat secs div 63 * 63"
    by (meson le_trans min.cobounded1 mult_le_mono1)
  then show ?thesis by (meson div_times_less_eq_dividend le_trans)
qed

lemma large_shift_fits:
  "large_shift c h = (c', h') \<Longrightarrow> unat c' * unat h' \<le> unat c * unat h"
proof (induction c h rule: large_shift.induct)
  case (1 c h)
  show ?case
  proof (cases "c > 1024")
    case False
    then show ?thesis using 1(2) by (subst (asm) large_shift.simps) simp
  next
    case True
    have c2: "unat (drop_bit 1 c) = unat c div 2" using unat_drop_bit_eq [of 1 c] by (simp add: drop_bit_eq_div)
    have "unat (push_bit 1 h) \<le> unat h * 2"
      using unsigned_push_bit_eq [of 1 h] by (simp add: unat_word_ariths)
    then have "unat (drop_bit 1 c) * unat (push_bit 1 h) \<le> unat c div 2 * (unat h * 2)"
      unfolding c2 by (rule mult_le_mono2)
    also have "\<dots> \<le> unat c * unat h" by (metis div_times_less_eq_dividend mult.assoc mult.commute mult_le_mono1)
    finally have step: "unat (drop_bit 1 c) * unat (push_bit 1 h) \<le> unat c * unat h" .
    show ?thesis
    proof (cases "push_bit 1 h > 127")
      case True
      then show ?thesis using 1(2) step \<open>c > 1024\<close> by (subst (asm) large_shift.simps) (simp add: Let_def)
    next
      case False
      then have "large_shift (drop_bit 1 c) (push_bit 1 h) = (c', h')"
        using 1(2) \<open>c > 1024\<close> by (subst (asm) large_shift.simps) (simp add: Let_def)
      then show ?thesis using 1(1) [OF \<open>c > 1024\<close> refl refl False] step by simp
    qed
  qed
qed

lemma rechs_adjust_fits:
  assumes "rechs_adjust c h = (c', h')"
  shows "unat c' * unat h' \<le> unat c * unat h"
proof (cases "h = 16")
  case True
  let ?c = "if c > 61439 then 61439 else c"
  have le: "unat ?c \<le> unat c" "unat ?c \<le> 61439" by (auto simp: word_less_nat_alt)
  have "unat (ucast ?c * 16 div 15 :: u32) = unat ?c * 16 div 15"
    using le(2) by (simp add: unat_div unat_word_ariths unsigned_ucast_eq take_bit_nat_eq_self del: if_split)
  then have "unat (ucast (ucast ?c * 16 div 15 :: u32) :: u16) \<le> unat ?c * 16 div 15"
    by (simp add: unsigned_ucast_eq take_bit_nat_less_eq_self del: if_split)
  then have "unat c' \<le> unat ?c * 16 div 15" "h' = 15"
    using assms True by (auto simp: rechs_adjust_def Let_def)
  then have "unat c' * unat h' \<le> unat ?c * 16 div 15 * 15" by simp
  also have "\<dots> \<le> unat ?c * 16" by (rule div_times_less_eq_dividend)
  finally show ?thesis using le(1) True by simp
qed (use assms in \<open>simp add: rechs_adjust_def\<close>)

text \<open>The physical geometry is trusted by the heuristic only when it fits the drive.\<close>

lemma unat_mult_small: "unat a * unat b < 2 ^ LENGTH('a) \<Longrightarrow> unat (a * b) = unat a * unat (b :: 'a::len word)"
  by (simp add: unat_word_ariths)

lemma psectors_unat:
  fixes a b c :: u16
  shows "unat (ucast a * ucast b * ucast c :: u64) = unat a * unat b * unat c"
proof -
  have u: "unat x \<le> 65535" for x :: u16 using unat_u16_bound [of x] by linarith
  have "unat a * unat b \<le> 65535 * 65535" by (rule mult_le_mono [OF u u])
  moreover from this have "unat a * unat b * unat c \<le> 65535 * 65535 * 65535" by (rule mult_le_mono [OF _ u])
  moreover have "unat (ucast x :: u64) = unat (x :: u16)" for x
    using unat_u16_bound [of x] by (simp add: unsigned_ucast_eq take_bit_nat_eq_self)
  ultimately show ?thesis by (simp add: unat_mult_small)
qed

lemma heuristic_fits:
  assumes "\<not> host_lchs_supplied d" "dtype d \<noteq> DTYPE_ATA" "get_translation rtc d \<noteq> TRANSLATION_LBA"
  shows "capacity (pchs d) \<le> unat (sectors d)" "get_translation rtc d \<in> {TRANSLATION_NONE, TRANSLATION_LARGE}"
proof -
  have "unat (ucast (chs_head (pchs d)) * ucast (chs_cylinder (pchs d)) * ucast (chs_sector (pchs d)) :: u64) =
      capacity (pchs d)"
    unfolding psectors_unat capacity_def by (simp add: mult.commute)
  then show "capacity (pchs d) \<le> unat (sectors d)" "get_translation rtc d \<in> {TRANSLATION_NONE, TRANSLATION_LARGE}"
    using assms
    by (auto simp: get_translation_def Let_def word_less_nat_alt not_less translation_defs split: if_splits)
qed

lemma min_u16: "unat (if (c :: u16) > 1024 then 1024 else c) = min (unat c) 1024"
  by (auto simp: word_less_nat_alt)

lemma setup_translation_fits:
  assumes "dtype d = DTYPE_ATA \<Longrightarrow> get_translation rtc d = TRANSLATION_LBA \<or> capacity (pchs d) \<le> unat (sectors d)"
  shows "unat (chs_cylinder (lchs (setup_translation rtc d))) \<le> 1024 \<and>
    (\<not> host_lchs_supplied d \<longrightarrow> capacity (lchs (setup_translation rtc d)) \<le> unat (sectors d))"
proof -
  let ?tr = "get_translation rtc d" and ?p = "pchs d"
  have cyl: "unat (chs_cylinder (lchs (setup_translation rtc d))) \<le> 1024"
    by (simp add: setup_translation_def Let_def split_def word_less_nat_alt)
  have cap: "capacity (lchs (setup_translation rtc d)) \<le> unat (sectors d)" if host: "\<not> host_lchs_supplied d"
  proof (cases "?tr = TRANSLATION_LBA")
    case True
    obtain c h where t: "translate_lba (sectors d) = (c, h)" by fastforce
    show ?thesis
      using translate_lba_fits [OF t] True t by (simp add: setup_translation_def Let_def capacity_def min_u16)
  next
    case False
    have p: "capacity ?p \<le> unat (sectors d)"
      using assms heuristic_fits(1) [OF host _ False] False by blast
    have host': "?tr \<noteq> TRANSLATION_HOST"
    proof (cases "dtype d = DTYPE_ATA")
      case True
      have "unat ?tr \<le> 3"
      proof -
        have "?tr \<le> 3" using host True by (simp add: get_translation_def word_and_le1)
        then show ?thesis by (simp add: word_le_nat_alt)
      qed
      then show ?thesis by (auto simp: translation_defs)
    next
      case no_ata: False
      then show ?thesis using heuristic_fits(2) [OF host no_ata False] by (auto simp: translation_defs)
    qed
    have le: "min (unat c) 1024 * unat h * unat (chs_sector ?p) \<le> unat (sectors d)"
      if "unat c * unat h \<le> unat (chs_cylinder ?p) * unat (chs_head ?p)" for c h :: u16
    proof -
      have "min (unat c) 1024 * unat h \<le> unat (chs_cylinder ?p) * unat (chs_head ?p)"
        using that by (meson le_trans min.cobounded1 mult_le_mono1)
      then have "min (unat c) 1024 * unat h * unat (chs_sector ?p) \<le> capacity ?p"
        unfolding capacity_def by (rule mult_le_mono1)
      then show ?thesis using p by (rule le_trans)
    qed
    obtain c1 h1 where r: "rechs_adjust (chs_cylinder ?p) (chs_head ?p) = (c1, h1)" by fastforce
    obtain c2 h2 where l: "large_shift c1 h1 = (c2, h2)" by fastforce
    obtain c3 h3 where g: "large_shift (chs_cylinder ?p) (chs_head ?p) = (c3, h3)" by fastforce
    note le [OF le_trans [OF large_shift_fits [OF l] rechs_adjust_fits [OF r]]] le [OF large_shift_fits [OF g]]
      le [OF order_refl]
    then show ?thesis
      using False host' r l g by (simp add: setup_translation_def Let_def capacity_def min_u16)
  qed
  show ?thesis using cyl cap by blast
qed

text \<open>C11. Whatever geometry the drive reports, the logical geometry that \<open>setup_translation\<close> chooses has at
  most 1024 cylinders and, unless the host supplied it, describes no more sectors than the drive has; for
  ATA drives, whose translation comes from the CMOS, this needs a physical geometry that fits the drive or
  the LBA translation.\<close>

theorem lchs_fits_drive:
  assumes "dtype d = DTYPE_ATA \<Longrightarrow> get_translation rtc d = TRANSLATION_LBA \<or> capacity (pchs d) \<le> unat (sectors d)"
  shows "unat (chs_cylinder (lchs (setup_translation rtc d))) \<le> 1024 \<and>
    (\<not> host_lchs_supplied d \<longrightarrow> capacity (lchs (setup_translation rtc d)) \<le> unat (sectors d))"
  using assms by (rule setup_translation_fits)

definition drive_zero :: drive_s where
  "drive_zero = \<lparr>dtype = DTYPE_AHCI, floppy_type = 0, lchs = \<lparr>chs_head = 0, chs_cylinder = 0, chs_sector = 0\<rparr>,
     sectors = 100000, cntl_id = 0, removable = 0, translation = 0, blksize = 512,
     pchs = \<lparr>chs_head = 0, chs_cylinder = 0, chs_sector = 0\<rparr>\<rparr>"

theorem lchs_fits_drive_witness:
  "lchs (setup_translation (\<lambda>a. 0) drive_zero) = \<lparr>chs_head = 16, chs_cylinder = 99, chs_sector = 63\<rparr> \<and>
   capacity \<lparr>chs_head = 16, chs_cylinder = 99, chs_sector = 63\<rparr> \<le> 100000"
proof -
  have l: "lchs (setup_translation (\<lambda>a. 0) drive_zero) = \<lparr>chs_head = 16, chs_cylinder = 99, chs_sector = 63\<rparr>"
    "\<not> host_lchs_supplied drive_zero" "dtype drive_zero \<noteq> DTYPE_ATA" "unat (sectors drive_zero) = 100000"
    by (simp_all add: drive_zero_def setup_translation_def get_translation_def host_lchs_supplied_def
        translate_lba_def translation_defs dtype_defs)
  show ?thesis using lchs_fits_drive [of drive_zero "\<lambda>a. 0"] l by simp
qed

section \<open>CHS requests\<close>








definition eltorito_zero :: eltorito_s where
  "eltorito_zero = \<lparr>el_size = 19, el_media = 0, el_emulated_drive = 0, el_controller_index = 0, el_ilba = 0,
     el_device_spec = 0, el_buffer_segment = 0, el_load_segment = 0, el_sector_count = 0, el_heads = 0,
     el_sptcyl = 0, el_cyllow = 0\<rparr>"

definition disk_zero :: disk_state where
  "disk_zero = \<lparr>dmem = \<lambda>a. 0, drives = \<lambda>a. setup_translation (\<lambda>a. 0) drive_zero, atadrives = \<lambda>a. undefined,
     IDMap = \<lambda>t. replicate 16 0, FloppyCount = 0, CDCount = 0, bounce_buf_fl = 0, cmos = \<lambda>a. 0,
     DefaultDPTE = undefined, dpte_so = 0, cdemu_drive_gf = 0, emulated_drive_gf = 0, CDEmu = eltorito_zero,
     CDRom_locks = replicate 16 0, diskette_param_table2 = 0xefc7, sent = [], int15_calls = []\<rparr>"

definition env_zero :: disk_env where
  "env_zero = \<lparr>env_drivers = \<lambda>v opn st. (0, op_count opn, dmem st), env_int15 = \<lambda>st br. br\<rparr>"


section \<open>EDD parameters\<close>

lemma mem_write_far:
  assumes "unat k + length bs \<le> n" "n \<le> unat (a - p)"
  shows "mem_write (p + k) bs m a = m a"
proof -
  have "unat (a - p) \<le> unat (a - (p + k)) + unat k"
  proof -
    have "a - p = (a - (p + k)) + k" by simp
    then show ?thesis by (metis unat_add_lem unat_plus_simple linorder_linear word_le_nat_alt not_less unat_of_nat
          unat_word_ariths(1) mod_less_eq_dividend)
  qed
  then have "\<not> unat (a - (p + k)) < length bs" using assms by linarith
  moreover have "length bs \<le> 2 ^ 32" using assms(1,2) unat_u32_bound [of "a - p"] by simp
  ultimately show ?thesis by (simp add: mem_write_eq)
qed

text \<open>\<open>frame p n m m'\<close>: \<open>m'\<close> differs from \<open>m\<close> at most in the \<open>n\<close> bytes from \<open>p\<close> on.\<close>

definition frame :: "u32 \<Rightarrow> nat \<Rightarrow> mem \<Rightarrow> mem \<Rightarrow> bool" where
  "frame p n m m' \<longleftrightarrow> (\<forall>a. n \<le> unat (a - p) \<longrightarrow> m' a = m a)"

lemma frame_refl [simp]: "frame p n m m" by (simp add: frame_def)

lemma frame_trans: "frame p n m m1 \<Longrightarrow> frame p n m1 m2 \<Longrightarrow> frame p n m m2" by (simp add: frame_def)

lemma frame_mono: "frame p k m m' \<Longrightarrow> k \<le> n \<Longrightarrow> frame p n m m'" by (simp add: frame_def)

lemma frame_write: "frame p n m m' \<Longrightarrow> unat k + length bs \<le> n \<Longrightarrow> frame p n m (mem_write (p + k) bs m')"
  by (simp add: frame_def mem_write_far)

lemma frame_set: "frame p n m m' \<Longrightarrow> unat k + len \<le> n \<Longrightarrow> frame p n m (set_mem len (p + k) v m')"
  unfolding set_mem_def by (rule frame_write) simp_all

lemma frame_set0: "frame p n m m' \<Longrightarrow> len \<le> n \<Longrightarrow> frame p n m (set_mem len p v m')"
  using frame_set [of p n m m' 0 len v] by simp

lemma frame_byte: "frame p n m m' \<Longrightarrow> unat k < n \<Longrightarrow> frame p n m (m'(p + k := v))"
  using frame_write [of p n m m' k "[v]"] by simp

lemmas frame_intros = frame_set frame_set0 frame_byte frame_write

lemma frame_edd1: "frame p 26 m (fill_edd1 p drive m)"
  unfolding fill_edd1_def Let_def by (intro frame_intros frame_refl) (auto intro!: frame_intros)

lemma frame_edd2: "frame p 30 m (fill_edd2 p so m)"
  unfolding fill_edd2_def by (intro frame_intros frame_refl) simp_all

lemma frame_edd3: "frame p (if t13 then 74 else 66) m (fill_edd3 p t13 bus path dev m)"
  unfolding fill_edd3_def Let_def
  by (cases t13; simp only: if_True if_False; intro frame_intros frame_refl) (simp_all add: str_bytes_def)

lemma checksum_close:
  fixes q :: u32
  assumes "n < 2 ^ 32"
  shows "(\<Sum>i < Suc n. (m(q + of_nat n := - checksum m q (of_nat n))) (q + of_nat i)) = 0"
proof -
  have "(q + of_nat i = q + of_nat n) = (i = n)" if "i < n" for i
    using that assms by (simp add: word_of_nat_eq_iff take_bit_nat_eq_self)
  then have "(\<Sum>i < n. (m(q + of_nat n := v)) (q + of_nat i)) = (\<Sum>i < n. m (q + of_nat i))" for v
    by (intro sum.cong) auto
  moreover have "unat (of_nat n :: u32) = n" using assms by (simp add: unat_of_nat)
  ultimately show ?thesis by (simp add: checksum_def checksum_loop_sum)
qed

lemma edd3_checksum:
  "(\<Sum>i < (if t13 then 44 else 36). fill_edd3 p t13 bus path dev m (p + 30 + of_nat i)) = 0"
proof -
  have "(\<Sum>i < Suc 43. (m'(p + 73 := - checksum m' (p + 30) 43)) (p + 30 + of_nat i)) = 0" for m'
    using checksum_close [of 43 m' "p + 30"] by (simp add: add.assoc)
  moreover have "(\<Sum>i < Suc 35. (m'(p + 65 := - checksum m' (p + 30) 35)) (p + 30 + of_nat i)) = 0" for m'
    using checksum_close [of 35 m' "p + 30"] by (simp add: add.assoc)
  moreover have "(44 :: nat) = Suc 43" "(36 :: nat) = Suc 35" by simp_all
  ultimately show ?thesis by (cases t13) (simp_all only: fill_edd3_def Let_def if_True if_False)
qed

text \<open>C12. The EDD parameters (interrupt 0x13, function 0x48) never touch memory outside the buffer whose size
  the caller declares in its first two bytes: a buffer too small for the first version is refused and left
  alone, and when the last version is filled in, its bytes from offset 30 on sum to zero as the checksum
  requires.\<close>

theorem edd_within_buffer:
  assumes "fill_generic_edd p drive so bus path dev m = (ret, m')"
  shows "(ret = DISK_RET_EPARAM \<longleftrightarrow> get_mem 2 p m < (26 :: u16)) \<and>
    (ret = DISK_RET_EPARAM \<longrightarrow> m' = m) \<and> frame p (unat (get_mem 2 p m :: u16)) m m' \<and>
    ((66 :: u16) \<le> get_mem 2 p m \<longrightarrow> so \<noteq> 0 \<longrightarrow> bus \<noteq> 0 \<longrightarrow>
      (\<Sum>i < (if get_mem 2 p m = (74 :: u16) then 44 else 36). m' (p + 30 + of_nat i)) = 0)"
proof -
  let ?sz = "get_mem 2 p m :: u16"
  let ?m1 = "fill_edd1 p drive m" let ?m2 = "fill_edd2 p so ?m1"
  have f1: "frame p (unat ?sz) m ?m1" if "26 \<le> ?sz"
    using frame_mono [OF frame_edd1] that by (simp add: word_le_nat_alt)
  have f2: "frame p (unat ?sz) m ?m2" if "30 \<le> ?sz"
    using frame_trans [OF f1 frame_mono [OF frame_edd2]] that by (simp add: word_le_nat_alt)
  have f3: "frame p (unat ?sz) m (fill_edd3 p (?sz = 74) bus path dev ?m2)" if "66 \<le> ?sz"
  proof -
    have "(if ?sz = 74 then 74 else 66) \<le> unat ?sz" using that by (auto simp: word_le_nat_alt)
    then show ?thesis using frame_trans [OF f2 frame_mono [OF frame_edd3]] that by (simp add: word_le_nat_alt)
  qed
  have big: "\<not> ?sz < 26 \<and> \<not> ?sz < 30 \<and> \<not> ?sz < 66" if "66 \<le> ?sz"
    using that by (auto simp: word_le_nat_alt word_less_nat_alt)
  show ?thesis
    using assms f1 f2 f3 big edd3_checksum [where ?t13.0 = "?sz = 74" and p = p and bus = bus and path = path and dev = dev and m = ?m2]
    by (auto simp: fill_generic_edd_def Let_def not_less disk_ret_defs split: if_splits)
qed

definition edd_sample :: mem where "edd_sample = (\<lambda>a. 0)(0x1000 := 74)"

theorem edd_within_buffer_witness:
  "\<exists>ret m'. fill_generic_edd 0x1000 drive_zero 5 0x11 0x1f0 0 edd_sample = (ret, m') \<and> ret \<noteq> DISK_RET_EPARAM \<and>
     frame 0x1000 74 edd_sample m' \<and> (\<Sum>i < 44. m' (0x1000 + 30 + of_nat i)) = 0"
proof -
  obtain ret m' where e: "fill_generic_edd 0x1000 drive_zero 5 0x11 0x1f0 0 edd_sample = (ret, m')" by fastforce
  have sz: "(get_mem 2 0x1000 edd_sample :: u16) = 74" by code_simp
  show ?thesis using edd_within_buffer [OF e] e sz by auto
qed

section \<open>Locks of removable drives\<close>

text \<open>A CD drive is locked, unlocked and ejected with functions 0x45 and 0x46 of interrupt 0x13. The result
  of a lock or unlock is its success, that of an eject whether it reached the drive. The specification is
  a counter of at most 255 locks.\<close>

datatype lock_op = LockOp | UnlockOp | EjectOp

definition lock_regs :: "u8 \<Rightarrow> lock_op \<Rightarrow> bregs" where
  "lock_regs drv oper =
     set_dl drv (case oper of LockOp \<Rightarrow> set_ax 0x4500 bregs_zero | UnlockOp \<Rightarrow> set_ax 0x4501 bregs_zero
       | EjectOp \<Rightarrow> set_ax 0x4600 bregs_zero)"

definition lock_step :: "disk_env \<Rightarrow> u8 \<Rightarrow> lock_op \<Rightarrow> disk_state \<Rightarrow> bool \<times> disk_state" where
  "lock_step env drv oper st =
     (let (r, st') = handle_13 env (lock_regs drv oper) st
      in (if oper = EjectOp then length (int15_calls st') > length (int15_calls st) else ah r = 0, st'))"

fun lock_run :: "disk_env \<Rightarrow> u8 \<Rightarrow> lock_op list \<Rightarrow> disk_state \<Rightarrow> bool list" where
  "lock_run env drv [] st = []"
| "lock_run env drv (oper # ops) st = (let (b, st') = lock_step env drv oper st in b # lock_run env drv ops st')"

fun lock_spec :: "lock_op list \<Rightarrow> nat \<Rightarrow> bool list" where
  "lock_spec [] n = []"
| "lock_spec (LockOp # ops) n = (n < 255) # lock_spec ops (if n < 255 then Suc n else n)"
| "lock_spec (UnlockOp # ops) n = (0 < n) # lock_spec ops (n - 1)"
| "lock_spec (EjectOp # ops) n = (n = 0) # lock_spec ops n"

text \<open>CD drive \<open>i\<close> is present and no emulated drive is in the way.\<close>

definition cd_ready :: "nat \<Rightarrow> disk_state \<Rightarrow> bool" where
  "cd_ready i st \<longleftrightarrow> i < 16 \<and> IDMap st EXTTYPE_CD ! i \<noteq> 0 \<and> el_media (CDEmu st) = 0 \<and> length (CDRom_locks st) = 16"

lemma lock_code_nonzero [simp]:
  "DISK_RET_SUCCESS = 0" "DISK_RET_ETOOMANYLOCKS \<noteq> 0" "DISK_RET_ENOTLOCKED \<noteq> 0" "DISK_RET_ELOCKED \<noteq> 0"
  by (simp_all add: disk_ret_defs)

lemma disk_ret_sel [simp]:
  "ah (fst (disk_ret regs code st)) = code" "snd (disk_ret regs code st) = set_bda8 (last_status regs) code st"
  by (simp_all add: disk_ret_def set_code_invalid_silent_def set_code_success_def)

lemma lock_regs_sel:
  "dl (lock_regs drv oper) = drv" "al (lock_regs drv LockOp) = 0" "al (lock_regs drv UnlockOp) = 1"
  "ah (lock_regs drv LockOp) = 0x45" "ah (lock_regs drv UnlockOp) = 0x45" "ah (lock_regs drv EjectOp) = 0x46"
  by (cases oper; simp add: lock_regs_def)+

lemma lock_dispatch:
  assumes r: "cd_ready i st" and drv: "drv = EXTSTART_CD + of_nat i" and f: "ah regs = 0x45 \<or> ah regs = 0x46"
    and dl: "dl regs = drv"
  shows "handle_13 env regs st =
      (if ah regs = 0x45 then disk_1345 regs (set_bda8 bda_disk_interrupt_flag 0 st)
       else disk_1346 env regs (set_bda8 bda_disk_interrupt_flag 0 st))"
    and "cdid regs = i" "\<not> drv < EXTSTART_CD"
proof -
  have i: "i < 16" using r by (simp add: cd_ready_def)
  then have u: "unat drv = 224 + i" "unat (drv - EXTSTART_CD) = i"
    unfolding drv by (simp_all add: extstart_defs unat_of_nat unat_word_ariths)
  then show c: "cdid regs = i" "\<not> drv < EXTSTART_CD"
    using dl by (simp_all add: cdid_def word_less_nat_alt extstart_defs)
  have "\<not> drv < EXTSTART_HD" using u by (simp add: word_less_nat_alt extstart_defs)
  moreover have "getDrive EXTTYPE_CD (drv - EXTSTART_CD) st \<noteq> 0"
    using r u i by (simp add: getDrive_def cd_ready_def BUILD_MAX_EXTDRIVE_def)
  ultimately show "handle_13 env regs st =
      (if ah regs = 0x45 then disk_1345 regs (set_bda8 bda_disk_interrupt_flag 0 st)
       else disk_1346 env regs (set_bda8 bda_disk_interrupt_flag 0 st))"
    using r f dl c(2) by (auto simp: handle_13_def handle_legacy_disk_def disk_13_def cd_ready_def Let_def not_less)
qed

lemma lock_step_spec:
  assumes r: "cd_ready i st" and drv: "drv = EXTSTART_CD + of_nat i"
    and s: "lock_step env drv oper st = (b, st')"
  shows "cd_ready i st' \<and> b # lock_spec ops (unat (CDRom_locks st' ! i)) = lock_spec (oper # ops) (unat (CDRom_locks st ! i)) \<and>
    (\<forall>j. j \<noteq> i \<longrightarrow> CDRom_locks st' ! j = CDRom_locks st ! j)"
proof -
  let ?l = "CDRom_locks st ! i"
  note d = lock_dispatch [OF r drv _ lock_regs_sel(1) [of drv oper]]
  have i: "i < length (CDRom_locks st)" using r by (simp add: cd_ready_def)
  show ?thesis
  proof (cases oper)
    case LockOp
    have full: "?l = 0xff \<longleftrightarrow> \<not> unat ?l < 255" using unat_u8_bound [of ?l] by (auto simp: word_unat_eq_iff)
    moreover have "unat (?l + 1) = Suc (unat ?l)" if "unat ?l < 255" using that by (simp add: unat_word_ariths)
    ultimately show ?thesis
      using s d r i LockOp lock_regs_sel
      by (auto simp: lock_step_def disk_1345_def disk_134500_def cd_ready_def Let_def split_def split: if_splits)
  next
    case UnlockOp
    have z: "?l = 0 \<longleftrightarrow> unat ?l = 0" by (simp add: unat_eq_0)
    moreover have "unat (?l - 1) = unat ?l - 1" if "0 < unat ?l" using that by (simp add: unat_sub_le)
    ultimately show ?thesis
      using s d r i UnlockOp lock_regs_sel
      by (auto simp: lock_step_def disk_1345_def disk_134501_def cd_ready_def Let_def split_def split: if_splits)
  next
    case EjectOp
    have z: "?l = 0 \<longleftrightarrow> unat ?l = 0" by (simp add: unat_eq_0)
    then show ?thesis
      using s d r i EjectOp lock_regs_sel
      by (auto simp: lock_step_def disk_1346_def cd_ready_def Let_def split_def split: if_splits)
  qed
qed

text \<open>
  The locks of a CD drive count correctly: any sequence of lock, unlock and eject requests has the
  results of a counter of at most 255 locks. A lock is refused only when the counter is full, an unlock
  only when it is zero, and an eject reaches the drive exactly when every lock has been undone.\<close>

theorem cd_locks_count:
  assumes "cd_ready i st"
  shows "lock_run env (EXTSTART_CD + of_nat i) ops st = lock_spec ops (unat (CDRom_locks st ! i))"
  using assms
proof (induction ops arbitrary: st)
  case (Cons oper ops)
  obtain b st' where s: "lock_step env (EXTSTART_CD + of_nat i) oper st = (b, st')" by fastforce
  show ?case using lock_step_spec [OF Cons.prems refl s, of ops] Cons.IH [of st'] s by simp
qed simp

theorem cd_locks_count_witness:
  "lock_run env_zero 0xe1 [LockOp, EjectOp, UnlockOp, UnlockOp, EjectOp] (disk_zero\<lparr>IDMap := \<lambda>t. replicate 16 8\<rparr>)
     = [True, False, True, False, True]"
  using cd_locks_count [of 1 "disk_zero\<lparr>IDMap := \<lambda>t. replicate 16 8\<rparr>" env_zero "[LockOp, EjectOp, UnlockOp, UnlockOp, EjectOp]"]
  by (simp add: cd_ready_def disk_zero_def eltorito_zero_def extstart_defs)

end
