(* ===== verification/PciProps.thy ===== *)
theory PciProps
  imports PciSetup
begin

text \<open>
  Properties of PCI initialisation: the scan of a bus ends, the region lists that
  \<open>pci_bios_check_devices\<close> builds are sorted and well-formed, the root regions fit into the window below
  the reserved area, and the addresses given out in a region are aligned and do not overlap.
\<close>

section \<open>The scan of a bus\<close>

lemma uint_bus: "uint (pci_bdf_to_bus (word_of_int b)) = b div 256 mod 256"
proof -
  have "uint (pci_bdf_to_bus (word_of_int b)) = take_bit 8 (drop_bit 8 b)"
    by (rule bit_eqI) (simp add: pci_bdf_to_bus_def bit_simps)
  then show ?thesis by (simp add: take_bit_eq_mod drop_bit_eq_div)
qed

lemma pci_next_step:
  "pci_next_loop (Suc n) ops b bus h =
     (if b div 256 mod 256 \<noteq> bus then -1
      else if pci_config_readw ops (word_of_int b) PCI_VENDOR_ID h \<noteq> 0x0000 \<and>
              pci_config_readw ops (word_of_int b) PCI_VENDOR_ID h \<noteq> 0xffff then b
      else pci_next_loop n ops (if pci_bdf_to_fn (word_of_int b) = 0 then b + 8 else b + 1) bus h)"
  by (simp add: Let_def uint_bus)

declare pci_next_loop.simps(2) [simp del]

lemma next_bus:
  fixes bus b :: int
  assumes "0 \<le> bus" "bus < 256" "bus * 256 + 256 \<le> b" "b < bus * 256 + 264"
  shows "b div 256 mod 256 \<noteq> bus"
proof -
  have "b div 256 = bus + 1" using assms by auto
  moreover have "(bus + 1) mod 256 \<noteq> bus"
    using assms by (cases "bus = 255") auto
  ultimately show ?thesis by simp
qed

text \<open>The loop of \<open>pci_next\<close> stays on its bus and moves forward; once its fuel exceeds the functions that
  are left on the bus, more fuel changes nothing.\<close>

lemma pci_next_loop_range:
  assumes "0 \<le> bus" "bus < 256" "bus * 256 \<le> b" "b < bus * 256 + 264"
  shows "pci_next_loop n ops b bus h = -1 \<or>
         b \<le> pci_next_loop n ops b bus h \<and> pci_next_loop n ops b bus h < bus * 256 + 256"
  using assms(3,4)
proof (induction n arbitrary: b)
  case 0
  then show ?case by simp
next
  case (Suc n)
  let ?b = "if pci_bdf_to_fn (word_of_int b) = 0 then b + 8 else b + 1"
  show ?case
  proof (cases "b < bus * 256 + 256")
    case True
    then have "bus * 256 \<le> ?b" "?b < bus * 256 + 264" "b \<le> ?b" using Suc.prems by auto
    moreover have "pci_next_loop (Suc n) ops b bus h \<in> {-1, b, pci_next_loop n ops ?b bus h}"
      by (simp add: pci_next_step)
    ultimately show ?thesis
      using Suc.IH [of ?b] True by (simp only: insert_iff empty_iff simp_thms True_implies_equals) linarith
  next
    case False
    then have "b div 256 mod 256 \<noteq> bus"
      using next_bus [of bus b] Suc.prems assms by simp
    then show ?thesis by (simp add: pci_next_step)
  qed
qed

lemma pci_next_loop_fuel:
  assumes "0 \<le> bus" "bus < 256" "bus * 256 \<le> b" "b < bus * 256 + 264"
    and "nat (bus * 256 + 256 - b) < n" "n \<le> m"
  shows "pci_next_loop m ops b bus h = pci_next_loop n ops b bus h"
  using assms(3-)
proof (induction n arbitrary: b m)
  case 0
  then show ?case by simp
next
  case (Suc n)
  let ?b = "if pci_bdf_to_fn (word_of_int b) = 0 then b + 8 else b + 1"
  obtain k where m: "m = Suc k" "n \<le> k" using Suc.prems by (cases m) auto
  show ?case
  proof (cases "b < bus * 256 + 256")
    case True
    then have "bus * 256 \<le> ?b" "?b < bus * 256 + 264" "nat (bus * 256 + 256 - ?b) < n" using Suc.prems by auto
    from Suc.IH [OF this m(2)] show ?thesis
      by (simp only: pci_next_step m)
  next
    case False
    then have "b div 256 mod 256 \<noteq> bus"
      using next_bus [of bus b] Suc.prems assms by simp
    then show ?thesis by (simp add: m pci_next_step)
  qed
qed

lemma pci_next_forward:
  assumes "0 \<le> bus" "bus < 256" "bus * 256 - 1 \<le> b" "b < bus * 256 + 256"
  shows "pci_next ops b bus h = -1 \<or> b < pci_next ops b bus h \<and> pci_next ops b bus h < bus * 256 + 256"
proof -
  have "bit (pci_bdf_to_fn (word_of_int (bus * 256 - 1))) 0"
    by (simp only: pci_bdf_to_fn_def bit_ucast_iff bit_and_iff bit_word_of_int_iff) (simp add: bit_0)
  then have fn: "pci_bdf_to_fn (word_of_int (bus * 256 - 1)) \<noteq> 0" by auto
  let ?s = "if pci_bdf_to_fn (word_of_int b) = 0 \<and> pci_config_readb ops (word_of_int b) PCI_HEADER_TYPE h AND 0x80 = 0
            then b + 8 else b + 1"
  have s: "bus * 256 \<le> ?s" "?s < bus * 256 + 264" "b < ?s"
    using assms fn by (auto split: if_splits)
  from pci_next_loop_range [OF assms(1,2) s(1,2), of 257 ops h] s(3) show ?thesis
    unfolding pci_next_def by linarith
qed

lemma foreachbdf_fuel:
  assumes "0 \<le> bus" "bus < 256" "bus * 256 - 1 \<le> b" "b < bus * 256 + 256"
    and "nat (bus * 256 + 255 - b) < n" "n \<le> m"
  shows "foreachbdf m ops get bus body b s = foreachbdf n ops get bus body b s"
  using assms(3-)
proof (induction n arbitrary: b m s)
  case 0
  then show ?case by simp
next
  case (Suc n)
  obtain k where m: "m = Suc k" "n \<le> k" using Suc.prems by (cases m) auto
  let ?b = "pci_next ops b bus (get s)"
  show ?case
  proof (cases "?b < 0")
    case True
    then show ?thesis by (simp add: m)
  next
    case False
    have r: "b < ?b \<and> ?b < bus * 256 + 256"
      using pci_next_forward [OF assms(1,2) Suc.prems(1,2), of ops "get s"] False by linarith
    have "foreachbdf k ops get bus body ?b s' = foreachbdf n ops get bus body ?b s'" for s'
      by (rule Suc.IH) (use r Suc.prems m in auto)
    with False show ?thesis by (simp add: m Let_def split: option.split)
  qed
qed

lemma foreachbdf_total:
  assumes "0 \<le> bus" "bus < 256" "bus * 256 - 1 \<le> b" "b < bus * 256 + 256"
    and "nat (bus * 256 + 255 - b) < n"
    and total: "\<And>bdf s. uint (pci_bdf_to_bus bdf) = bus \<Longrightarrow> body bdf s \<noteq> None"
  shows "foreachbdf n ops get bus body b s \<noteq> None"
  using assms(3-5)
proof (induction n arbitrary: b s)
  case 0
  then show ?case by simp
next
  case (Suc n)
  let ?b = "pci_next ops b bus (get s)"
  show ?case
  proof (cases "?b < 0")
    case True
    then show ?thesis by simp
  next
    case False
    have r: "b < ?b \<and> ?b < bus * 256 + 256"
      using pci_next_forward [OF assms(1,2) Suc.prems(1,2), of ops "get s"] False by linarith
    have "?b div 256 = bus" using r Suc.prems by auto
    then have "uint (pci_bdf_to_bus (word_of_int ?b)) = bus" using assms(1,2) by (simp add: uint_bus)
    then obtain s' where "body (word_of_int ?b) s = Some s'" using total by blast
    moreover have "foreachbdf n ops get bus body ?b s' \<noteq> None"
      by (rule Suc.IH) (use r Suc.prems in auto)
    ultimately show ?thesis using False by (simp add: Let_def)
  qed
qed

text \<open>
  Scanning a bus ends: for each of the 256 buses, the loop \<open>foreachbdf\<close> over the functions of
  the bus needs no more than its 257 rounds whatever the body does to the hardware (more fuel never
  changes its result), each search for the next function needs no more than 257 steps, and when the body
  succeeds for every function of this bus, so does the loop.\<close>

theorem each_bdf_ends:
  assumes bus: "0 \<le> bus" "bus < 256"
  shows "(\<forall>m \<ge> 257. foreachbdf m ops get bus body (bus * 256 - 1) s = each_bdf ops get bus body s) \<and>
         (\<forall>m \<ge> 257. \<forall>b. bus * 256 \<le> b \<and> b < bus * 256 + 264 \<longrightarrow>
            pci_next_loop m ops b bus h = pci_next_loop 257 ops b bus h) \<and>
         ((\<forall>bdf s. uint (pci_bdf_to_bus bdf) = bus \<longrightarrow> body bdf s \<noteq> None) \<longrightarrow> each_bdf ops get bus body s \<noteq> None)"
proof (intro conjI allI impI)
  fix m :: nat assume "257 \<le> m"
  then show "foreachbdf m ops get bus body (bus * 256 - 1) s = each_bdf ops get bus body s"
    unfolding each_bdf_def by (intro foreachbdf_fuel) (use bus in auto)
next
  fix m :: nat and b assume "257 \<le> m" "bus * 256 \<le> b \<and> b < bus * 256 + 264"
  then show "pci_next_loop m ops b bus h = pci_next_loop 257 ops b bus h"
    by (intro pci_next_loop_fuel) (use bus in auto)
next
  assume "\<forall>bdf s. uint (pci_bdf_to_bus bdf) = bus \<longrightarrow> body bdf s \<noteq> None"
  then show "each_bdf ops get bus body s \<noteq> None"
    unfolding each_bdf_def by (intro foreachbdf_total) (use bus in auto)
qed

section \<open>Region lists\<close>

text \<open>The order of a region list: larger alignment first, then larger size.\<close>

definition re_ord :: "pci_region_entry \<Rightarrow> pci_region_entry \<Rightarrow> bool" where
  "re_ord x y \<longleftrightarrow> re_align y < re_align x \<or> re_align y = re_align x \<and> re_size y \<le> re_size x"

interpretation region_order: sorted_hlist re_before re_ord
  by unfold_locales (auto simp: re_before_def re_ord_def)

text \<open>An entry is good: a power of two as alignment, and for memory a whole number of pages and a size
  that is a multiple of the alignment. (A bridge may reserve an I/O size that is not.)\<close>

definition entry_ok :: "pci_region_type \<Rightarrow> pci_region_entry \<Rightarrow> bool" where
  "entry_ok ty e \<longleftrightarrow> re_type e = ty \<and> pow2 (re_align e) \<and>
     (ty \<noteq> PCI_REGION_TYPE_IO \<longrightarrow> 0x1000 \<le> re_align e \<and> unat (re_align e) dvd unat (re_size e))"

definition region_ok :: "pci_region_type \<Rightarrow> pci_region_entry list \<Rightarrow> bool" where
  "region_ok ty es \<longleftrightarrow> sorted_wrt re_ord es \<and> (\<forall>e \<in> set es. entry_ok ty e)"

definition regions_ok :: "'h pci_state \<Rightarrow> bool" where
  "regions_ok st \<longleftrightarrow> (\<forall>bus ty. region_ok ty (bus_list st bus ty))"

text \<open>The sizes the BAR registers report are powers of two, as the PCI specification demands, or 0 when
  the BAR is not implemented.\<close>

definition bars_pow2 :: "'h pci_ops \<Rightarrow> bool" where
  "bars_pow2 ops \<longleftrightarrow> (\<forall>pci bar h. let ((ty, sz, is64), h') = pci_bios_get_bar ops pci bar h in sz = 0 \<or> pow2 sz)"

lemma region_ok_insert:
  "region_ok ty es \<Longrightarrow> entry_ok ty e \<Longrightarrow> region_ok ty (hlist_insert (re_before e) e es)"
  by (auto simp: region_ok_def intro: region_order.insert_sorted)

lemma regions_ok_frame [simp]:
  "regions_ok (st\<lparr>p_hw := h\<rparr>) = regions_ok st" "regions_ok (st\<lparr>p_fw := f\<rparr>) = regions_ok st"
  "regions_ok (st\<lparr>bus_dev := d\<rparr>) = regions_ok st"
  by (simp_all add: regions_ok_def)

lemma create_entry_ok:
  assumes "regions_ok st" "pow2 align"
    and "ty \<noteq> PCI_REGION_TYPE_IO \<Longrightarrow> 0x1000 \<le> align \<and> unat align dvd unat sz"
  shows "regions_ok (fst (pci_region_create_entry bus dev bar sz align ty is64 st))"
  using assms
  by (auto simp: pci_region_create_entry_def Let_def split_beta regions_ok_def region_upd_def entry_ok_def
      intro!: region_ok_insert)

lemma pow2_consts [simp]: "pow2 (PCI_DEVICE_MEM_MIN)" "pow2 PCI_BRIDGE_MEM_MIN" "pow2 PCI_BRIDGE_IO_MIN"
  by (auto simp: pow2_def PCI_DEVICE_MEM_MIN_def PCI_BRIDGE_MEM_MIN_def PCI_BRIDGE_IO_MIN_def
      intro: exI [of _ 12] exI [of _ 21])

lemma check_bars_ok:
  "bars_pow2 ops \<Longrightarrow> regions_ok st \<Longrightarrow> regions_ok (fst (check_bars n ops bus pci i st))"
proof (induction n arbitrary: i st)
  case 0
  then show ?case by simp
next
  case (Suc n)
  obtain ty sz is64 h where g: "pci_bios_get_bar ops pci i (p_hw st) = ((ty, sz, is64), h)"
    by (metis prod_cases3 surj_pair)
  have sz: "sz = 0 \<or> pow2 sz"
    using Suc.prems(1) [unfolded bars_pow2_def, rule_format, of pci i "p_hw st"] g by simp
  let ?sz = "if ty \<noteq> PCI_REGION_TYPE_IO \<and> sz < PCI_DEVICE_MEM_MIN then PCI_DEVICE_MEM_MIN else sz"
  let ?c = "pci_region_create_entry bus pci i ?sz ?sz ty is64 (st\<lparr>p_hw := h\<rparr>)"
  have "sz \<noteq> 0 \<Longrightarrow> regions_ok (fst ?c)"
    by (rule create_entry_ok)
      (use sz Suc.prems(2) in \<open>auto simp: PCI_DEVICE_MEM_MIN_def [symmetric]\<close>)
  then show ?case
    using Suc.IH [OF Suc.prems(1)] Suc.prems(2) g
    by (auto simp: Let_def split_beta)
qed

lemma check_all_ok:
  assumes "bars_pow2 ops"
  shows "regions_ok st \<Longrightarrow> regions_ok (fst (check_all ops devs st))"
proof (induction devs arbitrary: st)
  case Nil
  then show ?case by simp
next
  case (Cons pci devs)
  have "regions_ok (fst (check_device ops pci st))"
    unfolding check_device_def Let_def by (rule check_bars_ok) (use assms Cons.prems in auto)
  then show ?case using Cons.IH by (auto simp: Let_def split_beta)
qed

text \<open>The region of a bridge: aligned for the largest entry behind it, and large enough for all of them.\<close>

lemma region_align_pow2:
  "region_ok ty es \<Longrightarrow> pow2 (pci_region_align es)"
  by (cases es) (auto simp: region_ok_def entry_ok_def pci_region_align_def pow2_def intro: exI [of _ 0])

lemma bridge_size_aligned:
  assumes "region_ok ty es" "bridge_size es ty reserved hotplug pcie = (align, sz)"
  shows "pow2 align" "pci_region_align es \<le> align"
    "ty \<noteq> PCI_REGION_TYPE_IO \<Longrightarrow> 0x1000 \<le> align \<and> unat align dvd unat sz"
proof -
  show p: "pow2 align" "pci_region_align es \<le> align"
    using assms region_align_pow2 [OF assms(1)] by (auto simp: bridge_size_def Let_def split: if_splits)
  assume ty: "ty \<noteq> PCI_REGION_TYPE_IO"
  have "0x1000 \<le> align"
    using assms(2) ty
    by (auto simp: bridge_size_def Let_def PCI_BRIDGE_MEM_MIN_def word_le_nat_alt word_less_nat_alt split: if_splits)
  moreover have "unat align dvd unat sz"
    using assms(2) ty p(1) by (auto simp: bridge_size_def Let_def ALIGN_dvd split: if_splits)
  ultimately show "0x1000 \<le> align \<and> unat align dvd unat sz" by simp
qed

lemma propagate_types_ok:
  "regions_ok st \<Longrightarrow> regions_ok (fst (propagate_types ops s dev parent pcie_cap qemu_cap hotplug tys st))"
proof (induction tys arbitrary: st)
  case Nil
  then show ?case by simp
next
  case (Cons ty tys)
  obtain has h1 where has: "pci_bridge_has_region ops dev ty (p_hw st) = (has, h1)" by force
  let ?es = "bus_list st s ty"
  obtain align sz where bs: "bridge_size ?es ty (reserved_size ops (dev_bdf dev) qemu_cap ty h1) hotplug (pcie_cap \<noteq> 0) = (align, sz)"
    by force
  obtain is64 h2 where i: "pci_bios_bridge_region_is64 ops ?es dev ty h1 = (is64, h2)" by force
  have "region_ok ty ?es" using Cons.prems by (simp add: regions_ok_def)
  note al = bridge_size_aligned [OF this bs]
  have "regions_ok (fst (pci_region_create_entry parent dev (-1) sz align ty is64 (st\<lparr>p_hw := h2\<rparr>)))"
    by (rule create_entry_ok) (use al Cons.prems in auto)
  then show ?case
    using Cons.IH Cons.prems by (auto simp: has bs i Let_def split_beta)
qed

lemma propagate_bus_ok:
  assumes "regions_ok st" "propagate_bus ops s dev st = Some (st1, r)"
  shows "regions_ok st1"
proof -
  obtain parent pcie qemu hot tys where "propagate_types ops s dev parent pcie qemu hot tys st = (st1, r)"
    using assms(2) by (simp add: propagate_bus_def Let_def del: propagate_types.simps split: option.splits)
  then show ?thesis using propagate_types_ok [OF assms(1)] by (metis fst_conv)
qed

lemma propagate_ok:
  "regions_ok st \<Longrightarrow> propagate ops n st = Some (st', r) \<Longrightarrow> regions_ok st'"
proof (induction n arbitrary: st)
  case 0
  then show ?case by simp
next
  case (Suc n)
  show ?case
  proof (cases "bus_dev st (of_nat (Suc n))")
    case None
    with Suc show ?thesis by (auto simp del: of_nat_Suc)
  next
    case (Some dev)
    then obtain st1 r1 where b: "propagate_bus ops (of_nat (Suc n)) dev st = Some (st1, r1)"
      using Suc.prems(2) by (cases "propagate_bus ops (of_nat (Suc n)) dev st") (auto simp del: of_nat_Suc)
    then have "regions_ok st1" by (rule propagate_bus_ok [OF Suc.prems(1)])
    with Suc Some b show ?thesis by (auto simp del: of_nat_Suc split: if_splits)
  qed
qed

text \<open>C9. \<open>pci_bios_check_devices\<close> keeps every region list of every bus sorted (largest alignment, then
  largest size first) and its entries good: a power of two as alignment, and for memory at least a page
  and a size that is a multiple of it. This holds when it stops for lack of memory too.\<close>

theorem check_devices_ok:
  assumes "bars_pow2 ops" "regions_ok st" "pci_bios_check_devices ops st = Some (st', r)"
  shows "regions_ok st'"
proof -
  obtain st1 r1 where a: "check_all ops (PCIDevices st) st = (st1, r1)" by force
  then have "regions_ok st1" using check_all_ok [OF assms(1,2), of "PCIDevices st"] by simp
  then show ?thesis
    using assms(3) a propagate_ok by (auto simp: pci_bios_check_devices_def split: if_splits)
qed

section \<open>Root regions\<close>

text \<open>The room the entries of a region need, without wrap-around.\<close>

definition total_size :: "pci_region_entry list \<Rightarrow> nat" where
  "total_size es = sum_list (map (\<lambda>e. unat (re_size e)) es)"

lemma total_size_simps [simp]:
  "total_size [] = 0" "total_size (e # es) = unat (re_size e) + total_size es"
  "total_size (xs @ ys) = total_size xs + total_size ys"
  by (simp_all add: total_size_def)

lemma region_sum_unat: "total_size es < 2 ^ 64 \<Longrightarrow> unat (pci_region_sum es) = total_size es"
  by (induction es) (auto simp: unat_word_ariths)

text \<open>Placing a region of size \<open>s\<close> below \<open>lim\<close>.\<close>

lemma place_below:
  fixes lim a s :: u64
  assumes "pow2 a"
  shows "unat s \<le> unat lim \<Longrightarrow> unat (ALIGN_DOWN (lim - s) a) + unat s \<le> unat lim"
    and "unat lim < unat s \<Longrightarrow> 2 ^ 64 + unat lim < unat (ALIGN_DOWN (lim - s) a) + unat s + unat a"
proof -
  assume "unat s \<le> unat lim"
  then have "unat (lim - s) = unat lim - unat s" by (rule unat_sub_le)
  with ALIGN_DOWN_le [OF assms, of "lim - s"] \<open>unat s \<le> unat lim\<close>
  show "unat (ALIGN_DOWN (lim - s) a) + unat s \<le> unat lim" by linarith
next
  assume "unat lim < unat s"
  then have "unat (lim - s) = 2 ^ 64 + unat lim - unat s" using unat_sub_wrap [of lim s] by simp
  with ALIGN_DOWN_gt [OF assms, of "lim - s"] unat_u64_bound [of s]
  show "2 ^ 64 + unat lim < unat (ALIGN_DOWN (lim - s) a) + unat s + unat a" by simp
qed

lemma root_bases_window:
  assumes al: "pow2 (pci_region_align r_start)" "pow2 (pci_region_align r_end)"
    and bound: "total_size r_start + total_size r_end + unat (pci_region_align r_start) + unat (pci_region_align r_end) < 2 ^ 63"
    and lim: "unat lim < 2 ^ 63"
    and b: "root_bases lim r_start r_end = (b_start, b_end)" and ok: "b_start \<le> lim"
  shows "unat b_start + total_size r_start \<le> unat b_end" "unat b_end + total_size r_end \<le> unat lim"
    "unat (pci_region_align r_start) dvd unat b_start" "unat (pci_region_align r_end) dvd unat b_end"
proof -
  let ?s = "pci_region_sum r_start" and ?e = "pci_region_sum r_end"
  have s: "unat ?s = total_size r_start" "unat ?e = total_size r_end"
    using bound by (auto intro: region_sum_unat)
  have be: "b_end = ALIGN_DOWN (lim - ?e) (pci_region_align r_end)"
    and bs: "b_start = ALIGN_DOWN (b_end - ?s) (pci_region_align r_start)"
    using b by (auto simp: root_bases_def Let_def)
  show "unat (pci_region_align r_start) dvd unat b_start" "unat (pci_region_align r_end) dvd unat b_end"
    using al by (simp_all add: be bs ALIGN_DOWN_dvd)
  have le: "unat b_start \<le> unat lim" using ok by (simp add: word_le_nat_alt)
  have "unat ?e \<le> unat lim"
  proof (rule ccontr)
    assume "\<not> ?thesis"
    then have big: "2 ^ 64 + unat lim < unat b_end + unat ?e + unat (pci_region_align r_end)"
      using place_below(2) [OF al(2), of lim ?e] by (simp add: be)
    then have "unat ?s \<le> unat b_end" using bound s by simp
    from unat_sub_le [OF this] ALIGN_DOWN_gt [OF al(1), of "b_end - ?s"]
    have "unat b_end < unat b_start + unat ?s + unat (pci_region_align r_start)" by (simp add: bs)
    with big le bound s show False by simp
  qed
  then show e: "unat b_end + total_size r_end \<le> unat lim"
    using place_below(1) [OF al(2), of ?e lim] s by (simp add: be)
  have "unat ?s \<le> unat b_end"
  proof (rule ccontr)
    assume "\<not> ?thesis"
    then have "2 ^ 64 + unat b_end < unat b_start + unat ?s + unat (pci_region_align r_start)"
      using place_below(2) [OF al(1), of b_end ?s] by (simp add: bs)
    with le bound lim s show False by simp
  qed
  then show "unat b_start + total_size r_start \<le> unat b_end"
    using place_below(1) [OF al(1), of ?s b_end] s by (simp add: bs)
qed

lemma region_upd_simps [simp]:
  "regions (region_upd k f st) j = (if j = k then f (regions st k) else regions st j)"
  "pcimem_start (region_upd k f st) = pcimem_start st" "pcimem_end (region_upd k f st) = pcimem_end st"
  "p_hw (region_upd k f st) = p_hw st" "p_fw (region_upd k f st) = p_fw st"
  by (simp_all add: region_upd_def)

lemma set_base_simps [simp]:
  "rg_list (regions (set_base k b st) j) = rg_list (regions st j)"
  "rg_base (regions (set_base k b st) j) = (if j = k then b else rg_base (regions st j))"
  "pcimem_start (set_base k b st) = pcimem_start st" "pcimem_end (set_base k b st) = pcimem_end st"
  "p_hw (set_base k b st) = p_hw st" "p_fw (set_base k b st) = p_fw st"
  by (simp_all add: set_base_def)

text \<open>
  When the two root memory regions are placed successfully, each starts at a multiple of its
  alignment, both lie inside the window from \<open>pcimem_start\<close> to \<open>pcimem_end\<close> with all their entries, and
  they do not overlap, whichever of them comes first; the lists of entries are unchanged.\<close>

theorem root_windows:
  assumes ok: "regions_ok st"
    and mem: "mem = bus_list st 0 PCI_REGION_TYPE_MEM" and pref: "pref = bus_list st 0 PCI_REGION_TYPE_PREFMEM"
    and bound: "total_size mem + total_size pref + unat (pci_region_align mem) + unat (pci_region_align pref) < 2 ^ 63"
      "unat (pcimem_end st) < 2 ^ 63"
    and placed: "pci_bios_init_root_regions_mem st = (st', 0)"
    and bm: "bm = rg_base (regions st' (BusRegion 0 PCI_REGION_TYPE_MEM))"
    and bp: "bp = rg_base (regions st' (BusRegion 0 PCI_REGION_TYPE_PREFMEM))"
  shows "unat (pci_region_align mem) dvd unat bm \<and> unat (pci_region_align pref) dvd unat bp \<and>
    pcimem_start st \<le> bm \<and> unat bm + total_size mem \<le> unat (pcimem_end st) \<and>
    pcimem_start st \<le> bp \<and> unat bp + total_size pref \<le> unat (pcimem_end st) \<and>
    (unat bm + total_size mem \<le> unat bp \<or> unat bp + total_size pref \<le> unat bm) \<and>
    bus_list st' bus ty = bus_list st bus ty"
proof -
  have al: "pow2 (pci_region_align mem)" "pow2 (pci_region_align pref)"
    using ok region_align_pow2 by (auto simp: regions_ok_def mem pref)
  have "bus_list st' bus ty = bus_list st bus ty"
    using placed by (auto simp: pci_bios_init_root_regions_mem_def Let_def split_beta)
  moreover have "unat (pci_region_align mem) dvd unat bm \<and> unat (pci_region_align pref) dvd unat bp \<and>
    pcimem_start st \<le> bm \<and> unat bm + total_size mem \<le> unat (pcimem_end st) \<and>
    pcimem_start st \<le> bp \<and> unat bp + total_size pref \<le> unat (pcimem_end st) \<and>
    (unat bm + total_size mem \<le> unat bp \<or> unat bp + total_size pref \<le> unat bm)"
  proof (cases "pci_region_align mem < pci_region_align pref")
    case True
    obtain bs be where b: "root_bases (pcimem_end st) pref mem = (bs, be)" by force
    have e: "bm = be" "bp = bs" "bs \<le> pcimem_end st" "pcimem_start st \<le> bs"
      using placed b True by (auto simp: pci_bios_init_root_regions_mem_def Let_def mem pref bm bp split: if_splits)
    note w = root_bases_window [OF al(2,1) _ bound(2) b e(3)]
    show ?thesis using w bound(1) e by (auto simp: word_le_nat_alt ac_simps)
  next
    case False
    obtain bs be where b: "root_bases (pcimem_end st) mem pref = (bs, be)" by force
    have e: "bm = bs" "bp = be" "bs \<le> pcimem_end st" "pcimem_start st \<le> bs"
      using placed b False by (auto simp: pci_bios_init_root_regions_mem_def Let_def mem pref bm bp split: if_splits)
    note w = root_bases_window [OF al _ bound(2) b e(3)]
    show ?thesis using w bound(1) e by (auto simp: word_le_nat_alt ac_simps)
  qed
  ultimately show ?thesis by blast
qed

section \<open>Addresses in a region\<close>

text \<open>The specification: the entries lie one after the other from the base on.\<close>

fun entry_addrs :: "u64 \<Rightarrow> pci_region_entry list \<Rightarrow> u64 list" where
  "entry_addrs b [] = []"
| "entry_addrs b (e # es) = b # entry_addrs (b + re_size e) es"

lemma length_entry_addrs [simp]: "length (entry_addrs b es) = length es"
  by (induction es arbitrary: b) auto

lemma entry_addrs_nth:
  "i < length es \<Longrightarrow> unat b + total_size es < 2 ^ 64 \<Longrightarrow>
   unat (entry_addrs b es ! i) = unat b + total_size (take i es)"
proof (induction es arbitrary: b i)
  case Nil
  then show ?case by simp
next
  case (Cons e es)
  have "unat (b + re_size e) = unat b + unat (re_size e)"
    using Cons.prems by (intro unat_add_small) simp
  with Cons show ?case by (cases i) auto
qed

lemma total_size_take: "i \<le> j \<Longrightarrow> total_size (take i es) \<le> total_size (take j es)"
proof -
  assume "i \<le> j"
  then have "take j es = take i es @ take (j - i) (drop i es)"
    by (metis le_add_diff_inverse take_add)
  then show ?thesis by simp
qed

lemma total_size_take_Suc: "i < length es \<Longrightarrow> total_size (take (Suc i) es) = total_size (take i es) + unat (re_size (es ! i))"
  by (simp add: take_Suc_conv_app_nth)

text \<open>In a sorted list the alignment of an entry divides everything in front of it.\<close>

lemma pow2_dvd: "pow2 a \<Longrightarrow> pow2 b \<Longrightarrow> unat a \<le> unat (b :: 'a::len word) \<Longrightarrow> unat a dvd unat b"
  by (auto simp: pow2_def unat_pow2 intro: le_imp_power_dvd)

lemma sorted_align_le:
  "sorted_wrt re_ord es \<Longrightarrow> i \<le> j \<Longrightarrow> j < length es \<Longrightarrow> re_align (es ! j) \<le> re_align (es ! i)"
  using sorted_wrt_nth_less [of re_ord es i j] by (cases "i = j") (auto simp: re_ord_def)

lemma align_dvd_total:
  assumes ok: "region_ok ty es" "ty \<noteq> PCI_REGION_TYPE_IO" and j: "j < length es"
  shows "i \<le> j \<Longrightarrow> unat (re_align (es ! j)) dvd total_size (take i es)"
proof (induction i)
  case 0
  then show ?case by simp
next
  case (Suc i)
  then have i: "i < length es" "es ! i \<in> set es" "es ! j \<in> set es" using j by auto
  then have "unat (re_align (es ! j)) dvd unat (re_align (es ! i))"
    using ok Suc.prems j sorted_align_le [of es i j]
    by (intro pow2_dvd) (auto simp: region_ok_def entry_ok_def word_le_nat_alt)
  moreover have "unat (re_align (es ! i)) dvd unat (re_size (es ! i))"
    using ok i by (auto simp: region_ok_def entry_ok_def)
  ultimately show ?case
    using Suc i by (simp add: total_size_take_Suc) (metis dvd_add dvd_trans)
qed

lemma base_aligned:
  assumes ok: "region_ok ty es" and j: "j < length es" and base: "unat (pci_region_align es) dvd unat b"
  shows "unat (re_align (es ! j)) dvd unat b"
proof -
  have "es ! 0 \<in> set es" by (rule nth_mem) (use j in linarith)
  then have "unat (re_align (es ! j)) dvd unat (re_align (es ! 0))"
    using ok j sorted_align_le [of es 0 j]
    by (intro pow2_dvd) (auto simp: region_ok_def entry_ok_def word_le_nat_alt)
  moreover have "re_align (es ! 0) = pci_region_align es"
    using j by (cases es) (auto simp: pci_region_align_def)
  ultimately show ?thesis using base by (metis dvd_trans)
qed

lemma map_entries_step_base:
  "re_bar e = -1 \<longrightarrow> BusRegion (dev_secondary_bus (re_dev e)) (re_type e) \<noteq> r \<Longrightarrow>
   st2 = (if re_bar e = -1 then set_base (BusRegion (dev_secondary_bus (re_dev e)) (re_type e)) a (set_base r b st)
          else set_base r b st) \<Longrightarrow>
   rg_base (regions st2 r) = b \<and> p_hw st2 = p_hw st"
  by auto

lemma map_entries_hw:
  "(\<forall>e \<in> set es. re_bar e = -1 \<longrightarrow> BusRegion (dev_secondary_bus (re_dev e)) (re_type e) \<noteq> r) \<Longrightarrow>
   p_hw (map_entries_loop ops r es st) =
     fold (\<lambda>(e, a). pci_region_map_one_entry ops e a) (zip es (entry_addrs (rg_base (regions st r)) es)) (p_hw st)"
proof (induction es arbitrary: st)
  case Nil
  then show ?case by simp
next
  case (Cons e es)
  let ?a = "rg_base (regions st r)"
  define st2 where "st2 = (if re_bar e = -1
     then set_base (BusRegion (dev_secondary_bus (re_dev e)) (re_type e)) ?a (set_base r (?a + re_size e) st)
     else set_base r (?a + re_size e) st)"
  have s2: "rg_base (regions st2 r) = ?a + re_size e \<and> p_hw st2 = p_hw st"
    by (rule map_entries_step_base [OF _ st2_def]) (use Cons.prems in simp)
  have "map_entries_loop ops r (e # es) st =
      map_entries_loop ops r es
        ((region_upd r (\<lambda>g. g\<lparr>rg_list := es\<rparr>) (on_hw (pci_region_map_one_entry ops e ?a) st2))
           \<lparr>p_fw := free (re_ptr e) (p_fw st2)\<rparr>)"
    by (simp add: Let_def st2_def)
  with Cons.IH Cons.prems s2 show ?case by simp
qed

lemma map_entries_list:
  "rg_list (regions (map_entries_loop ops r es st) r) = (if es = [] then rg_list (regions st r) else [])"
  by (induction es arbitrary: st) (auto simp: Let_def)

text \<open>C4. \<open>pci_region_map_entries\<close> on a memory region whose base has the region's alignment: it programs
  each entry once, in the order of the list, and empties the list; every address is a multiple of the
  entry's alignment, all entries lie between the base and the base plus the sum of the sizes, and no two
  of them overlap. No entry is a bridge to the region itself.\<close>

theorem map_entries_layout:
  assumes ok: "region_ok ty es" "ty \<noteq> PCI_REGION_TYPE_IO" and es: "es = rg_list (regions st r)"
    and b: "b = rg_base (regions st r)" "unat (pci_region_align es) dvd unat b" "unat b + total_size es < 2 ^ 64"
    and bridges: "\<forall>e \<in> set es. re_bar e = -1 \<longrightarrow> BusRegion (dev_secondary_bus (re_dev e)) (re_type e) \<noteq> r"
  shows "\<exists>addrs. length addrs = length es \<and>
     p_hw (pci_region_map_entries ops r st) =
       fold (\<lambda>(e, a). pci_region_map_one_entry ops e a) (zip es addrs) (p_hw st) \<and>
     rg_list (regions (pci_region_map_entries ops r st) r) = [] \<and>
     (\<forall>i < length es. unat (re_align (es ! i)) dvd unat (addrs ! i) \<and> b \<le> addrs ! i \<and>
        unat (addrs ! i) + unat (re_size (es ! i)) \<le> unat b + total_size es) \<and>
     (\<forall>j < length es. \<forall>i < j. unat (addrs ! i) + unat (re_size (es ! i)) \<le> unat (addrs ! j))"
proof (intro exI [of _ "entry_addrs b es"] conjI allI impI)
  show "length (entry_addrs b es) = length es" by simp
  show "p_hw (pci_region_map_entries ops r st) =
      fold (\<lambda>(e, a). pci_region_map_one_entry ops e a) (zip es (entry_addrs b es)) (p_hw st)"
    using map_entries_hw bridges by (simp add: pci_region_map_entries_def es b(1))
  show "rg_list (regions (pci_region_map_entries ops r st) r) = []"
    by (simp add: pci_region_map_entries_def map_entries_list)
  note at = entry_addrs_nth [OF _ b(3)]
  fix i assume i: "i < length es"
  show "unat (re_align (es ! i)) dvd unat (entry_addrs b es ! i)"
    using at [OF i] base_aligned [OF ok(1) i b(2)] align_dvd_total [OF ok i, of i] by simp
  show "b \<le> entry_addrs b es ! i" using at [OF i] by (simp add: word_le_nat_alt)
  show "unat (entry_addrs b es ! i) + unat (re_size (es ! i)) \<le> unat b + total_size es"
    using at [OF i] total_size_take_Suc [OF i] total_size_take [of "Suc i" "length es" es] i by simp
next
  note at = entry_addrs_nth [OF _ b(3)]
  fix i j assume j: "j < length es" and i: "i < j"
  then show "unat (entry_addrs b es ! i) + unat (re_size (es ! i)) \<le> unat (entry_addrs b es ! j)"
    using at [of i] at [OF j] total_size_take_Suc [of i es] total_size_take [of "Suc i" j es] by simp
qed

section \<open>Windows of bridges and of 64-bit memory\<close>

text \<open>The window a bridge asks for holds everything behind it, and at least what it reserves.\<close>

lemma bridge_size_fits:
  assumes ok: "region_ok ty es" and b: "bridge_size es ty reserved hotplug pcie = (align, sz)"
    and bound: "total_size es + unat reserved + 2 * unat align < 2 ^ 64"
  shows "total_size es \<le> unat sz" "unat reserved \<le> unat sz"
proof -
  have p: "pow2 align" by (rule bridge_size_aligned [OF ok b])
  define total where "total = (if pci_region_sum es = 0 \<and> hotplug \<and> \<not> (pcie \<and> ty = PCI_REGION_TYPE_IO)
                               then align else pci_region_sum es)"
  have s: "unat (pci_region_sum es) = total_size es" using bound by (intro region_sum_unat) simp
  have t: "total_size es \<le> unat total" "unat total \<le> total_size es + unat align"
    using s by (auto simp: total_def)
  have sz: "sz = (if reserved > total then (if ty \<noteq> PCI_REGION_TYPE_IO then ALIGN reserved align else reserved)
                  else ALIGN total align)"
    using b by (auto simp: bridge_size_def Let_def total_def split: if_splits)
  have "unat reserved \<le> unat (ALIGN reserved align)" "unat total \<le> unat (ALIGN total align)"
    using bound t by (auto intro!: ALIGN_ge(1) [OF p])
  then show "total_size es \<le> unat sz" "unat reserved \<le> unat sz"
    using t by (auto simp: sz word_less_nat_alt)
qed

lemma gigabyte: "pow2 (2 ^ 30 :: u64)" "unat (2 ^ 30 :: u64) = 2 ^ 30"
  by (auto simp: pow2_def unat_pow2 intro: exI [of _ 30])

text \<open>The windows above 4 GB: they start above all memory and above the reserved area, are aligned for
  their entries, come one after the other and end on a gigabyte.\<close>

lemma place_64bit_windows:
  assumes al: "pow2 (pci_region_align mem)" "pow2 (pci_region_align pref)"
    and bound: "unat reserved_end + unat over4g + total_size mem + total_size pref +
                unat (pci_region_align mem) + unat (pci_region_align pref) < 2 ^ 62"
    and p: "place_64bit reserved_end over4g mem pref = (b_mem, b_pref, hi)"
  shows "2 ^ 32 + unat over4g \<le> unat b_mem" "unat reserved_end \<le> unat b_mem"
    "unat b_mem + total_size mem \<le> unat b_pref" "unat b_pref + total_size pref \<le> unat hi"
    "2 ^ 30 dvd unat b_mem" "2 ^ 30 dvd unat b_pref" "2 ^ 30 dvd unat hi"
proof -
  define b0 where "b0 = (if reserved_end < 0x100000000 + over4g then 0x100000000 + over4g else reserved_end)"
  have o: "unat (0x100000000 + over4g) = 2 ^ 32 + unat over4g"
    using bound by (subst unat_add_small) auto
  have b0: "2 ^ 32 + unat over4g \<le> unat b0" "unat reserved_end \<le> unat b0" "unat b0 \<le> 2 ^ 32 + unat over4g + unat reserved_end"
    using o by (auto simp: b0_def word_less_nat_alt)
  have eqs: "b_mem = ALIGN (ALIGN b0 (pci_region_align mem)) (2 ^ 30)"
    "b_pref = ALIGN (ALIGN (b_mem + pci_region_sum mem) (pci_region_align pref)) (2 ^ 30)"
    "hi = ALIGN (b_pref + pci_region_sum pref) (2 ^ 30)"
    using p by (auto simp: place_64bit_def b0_def Let_def)
  show "2 ^ 30 dvd unat b_mem" "2 ^ 30 dvd unat b_pref" "2 ^ 30 dvd unat hi"
    using ALIGN_dvd [OF gigabyte(1)] unfolding eqs gigabyte(2) by blast+
  have s: "unat (pci_region_sum mem) = total_size mem" "unat (pci_region_sum pref) = total_size pref"
    using bound by (auto intro!: region_sum_unat)
  note ge = ALIGN_ge(1,3) [OF al(1), simplified] ALIGN_ge(1,3) [OF al(2), simplified] ALIGN_ge(1,3) [OF gigabyte(1), simplified]
  have m: "unat b0 \<le> unat b_mem" "unat b_mem \<le> unat b0 + unat (pci_region_align mem) + 2 ^ 30"
    using ge(1,2) [of b0] ge(5,6) [of "ALIGN b0 (pci_region_align mem)"] bound b0 gigabyte(2) by (auto simp: eqs(1))
  have bs: "unat (b_mem + pci_region_sum mem) = unat b_mem + total_size mem"
    using bound b0 m s by (subst unat_add_small) auto
  have q: "unat b_mem + total_size mem \<le> unat b_pref"
      "unat b_pref \<le> unat b_mem + total_size mem + unat (pci_region_align pref) + 2 ^ 30"
    using ge(3,4) [of "b_mem + pci_region_sum mem"] ge(5,6) [of "ALIGN (b_mem + pci_region_sum mem) (pci_region_align pref)"]
      bound b0 m bs gigabyte(2) by (auto simp: eqs(2))
  have ps: "unat (b_pref + pci_region_sum pref) = unat b_pref + total_size pref"
    using bound b0 m q s by (subst unat_add_small) auto
  then have "unat b_pref + total_size pref \<le> unat hi"
    using ge(5) [of "b_pref + pci_region_sum pref"] bound b0 m q gigabyte(2) by (auto simp: eqs(3))
  with b0 m q show "2 ^ 32 + unat over4g \<le> unat b_mem" "unat reserved_end \<le> unat b_mem"
    "unat b_mem + total_size mem \<le> unat b_pref" "unat b_pref + total_size pref \<le> unat hi" by auto
qed

text \<open>A bridge that has given out bus 3 behind its secondary bus 1, but reserves none, is closed again:
  the reserve value itself becomes its subordinate bus.\<close>

lemma reserved_bus_loses_buses: "reserved_bus 1 3 0 = 0"
  by (simp add: reserved_bus_def)

text \<open>A bridge that reserves an I/O size which is no multiple of its alignment leaves the next entry of
  the bus unaligned.\<close>

lemma io_reserve_unaligned: "bridge_size [] PCI_REGION_TYPE_IO 0x1234 False False = (0x1000, 0x1234)"
  by (simp add: bridge_size_def pci_region_align_def PCI_BRIDGE_IO_MIN_def)

text \<open>The search for the reservation capability does not end on a list that comes back to a vendor
  capability of another type, although each call of \<open>pci_find_capability\<close> ends.\<close>

lemma reserve_cap_cycle:
  assumes "c \<noteq> 0" "pci_find_capability ops bdf PCI_CAP_ID_VNDR c h = c"
    and "pci_config_readb ops bdf (ucast c + PCI_CAP_REDHAT_TYPE_OFFSET) h \<noteq> REDHAT_CAP_RESOURCE_RESERVE"
  shows "reserve_cap_loop ops bdf h c = None"
proof (cases "reserve_cap_loop ops bdf h c")
  case (Some x)
  define P where "P = (\<lambda>o1 b1 h1 c1 (r :: u8). \<not> (o1 = ops \<and> b1 = bdf \<and> h1 = h \<and> c1 = c))"
  have "P ops bdf h c x"
  proof (rule reserve_cap_loop.raw_induct [of P, OF _ Some])
    fix f o1 b1 h1 c1 y
    assume ih: "\<And>b1 h1 c1 b y. f b1 h1 c1 b = Some y \<Longrightarrow> P b1 h1 c1 b y"
      and r: "(let c = pci_find_capability o1 b1 PCI_CAP_ID_VNDR c1 h1
        in if c \<noteq> 0 \<and> pci_config_readb o1 b1 (ucast c + PCI_CAP_REDHAT_TYPE_OFFSET) h1 \<noteq> REDHAT_CAP_RESOURCE_RESERVE
           then f o1 b1 h1 c else Some c) = Some y"
    show "P o1 b1 h1 c1 y"
    proof (unfold P_def, rule notI)
      assume e: "o1 = ops \<and> b1 = bdf \<and> h1 = h \<and> c1 = c"
      then have "f ops bdf h c = Some y" using r assms by (simp add: Let_def)
      then have "P ops bdf h c y" by (rule ih)
      then show False by (simp add: P_def)
    qed
  qed
  then show ?thesis by (simp add: P_def)
qed simp

section \<open>Witnesses\<close>

text \<open>A machine with one device, 00:01.0, which has one 32-bit memory BAR of 64 KB; the state of the
  hardware is that BAR.\<close>

definition one_bar :: "u32 pci_ops" where
  "one_bar = \<lparr>hw_readb = \<lambda>bdf ofs h. if bdf = 8 then 0 else 0xff,
     hw_readw = \<lambda>bdf ofs h. if bdf = 8 then (if ofs = 0 then 0x5678 else 0) else 0xffff,
     hw_readl = \<lambda>bdf ofs h. if bdf = 8 then (if ofs = 0x10 then h AND 0xffff0000 else 0) else 0,
     hw_writeb = \<lambda>bdf ofs v h. h, hw_writew = \<lambda>bdf ofs v h. h,
     hw_writel = \<lambda>bdf ofs v h. if bdf = 8 \<and> ofs = 0x10 then v AND 0xffff0000 else h,
     hw_outb = \<lambda>v p h. h, hw_host = \<lambda>h. True\<rparr>"

lemma one_bar_sizes: "pow2 (0x10000 :: u64)" "pow2 (4 :: u64)" "pow2 (0x800 :: u64)"
  by (auto simp: pow2_def intro: exI [of _ 16] exI [of _ 2] exI [of _ 11])

lemma one_bar_low: "((h :: u32) AND 0xffff0000) AND 1 = 0" "((h :: u32) AND 0xffff0000) AND 8 = 0" "((h :: u32) AND 0xffff0000) AND 6 = 0"
  by (simp_all add: and.assoc)

lemma one_bar_pow2: "bars_pow2 one_bar"
  unfolding bars_pow2_def
  by (auto simp: one_bar_def pci_bios_get_bar_def pci_config_readl_def pci_config_writel_def Let_def one_bar_low
      PCI_BASE_ADDRESS_SPACE_IO_def PCI_BASE_ADDRESS_MEM_PREFETCH_def PCI_BASE_ADDRESS_MEM_TYPE_MASK_def
      PCI_BASE_ADDRESS_MEM_TYPE_64_def PCI_BASE_ADDRESS_MEM_MASK_def PCI_ROM_ADDRESS_MASK_def one_bar_sizes pci_bar_def)

definition dev1 :: pcidev where "dev1 = PciDev 8 0 None 0x5678 0 0x0200 0 0 0 0"

definition pci_zero :: "u32 pci_state" where
  "pci_zero = \<lparr>p_hw = 0, p_fw = fw_zero, PCIDevices = [dev1], have_driver = (\<lambda>b. False), MaxPCIBus = 0,
     regions = \<lambda>k. \<lparr>rg_base = 0, rg_list = []\<rparr>, bus_dev = \<lambda>b. None, pcimem_start = 0x80000000, pcimem_end = 0xfec00000,
     pcimem64_start = 0x8000000000, pcimem64_end = 0x10000000000, pci_io_low_end = 0xa000,
     pci_slot_get_irq = DummyRouting, ICH9LpcBDF = -1, PiixPmBDF = -1, ICH9SmbusBDF = -1, MCHMmcfgBDF = -1,
     acpi_pm_base = 0xb000, acpi_pm1a_cnt = 0, pm_timer = timer_init, RamSize = 0x8000000, RamSizeOver4G = 0\<rparr>"

definition one_bar_checked :: "u32 pci_state" where
  "one_bar_checked = fst (the (pci_bios_check_devices one_bar pci_zero))"

lemma one_bar_entries:
  "map (\<lambda>e. (re_bar e, re_size e)) (bus_list one_bar_checked 0 PCI_REGION_TYPE_MEM) = [(0, 0x10000)]"
  by code_simp

theorem check_devices_ok_witness: "regions_ok one_bar_checked \<and> bus_list one_bar_checked 0 PCI_REGION_TYPE_MEM \<noteq> []"
proof
  have "map_option snd (pci_bios_check_devices one_bar pci_zero) = Some 0" by code_simp
  then obtain r where "pci_bios_check_devices one_bar pci_zero = Some (one_bar_checked, r)"
    by (auto simp: one_bar_checked_def)
  moreover have "regions_ok pci_zero" by (simp add: regions_ok_def region_ok_def pci_zero_def)
  ultimately show "regions_ok one_bar_checked" using check_devices_ok [OF one_bar_pow2] by blast
  show "bus_list one_bar_checked 0 PCI_REGION_TYPE_MEM \<noteq> []" using one_bar_entries by auto
qed

definition entry1 :: "u64 \<Rightarrow> pci_region_type \<Rightarrow> pci_region_entry" where
  "entry1 sz ty = \<lparr>re_ptr = 0x1ff000, re_dev = dev1, re_bar = 0, re_size = sz, re_align = sz, re_is64 = False, re_type = ty\<rparr>"

definition two_regions :: "u32 pci_state" where
  "two_regions = region_upd (BusRegion 0 PCI_REGION_TYPE_PREFMEM) (\<lambda>g. g\<lparr>rg_list := [entry1 0x10000 PCI_REGION_TYPE_PREFMEM]\<rparr>)
     (region_upd (BusRegion 0 PCI_REGION_TYPE_MEM)
        (\<lambda>g. g\<lparr>rg_base := 0xc0000000, rg_list := [entry1 0x10000 PCI_REGION_TYPE_MEM, entry1 0x1000 PCI_REGION_TYPE_MEM]\<rparr>) pci_zero)"

lemma pow2_4k: "pow2 (0x1000 :: u64)" by (auto simp: pow2_def intro: exI [of _ 12])

lemma two_regions_ok: "regions_ok two_regions"
  by (auto simp: regions_ok_def two_regions_def region_ok_def entry_ok_def entry1_def pci_zero_def re_ord_def
      one_bar_sizes pow2_4k)

lemma two_regions_lists:
  "bus_list two_regions 0 PCI_REGION_TYPE_MEM = [entry1 0x10000 PCI_REGION_TYPE_MEM, entry1 0x1000 PCI_REGION_TYPE_MEM]"
  "bus_list two_regions 0 PCI_REGION_TYPE_PREFMEM = [entry1 0x10000 PCI_REGION_TYPE_PREFMEM]"
  by (simp_all add: two_regions_def)

theorem root_windows_witness:
  "let bm = rg_base (regions (fst (pci_bios_init_root_regions_mem two_regions)) (BusRegion 0 PCI_REGION_TYPE_MEM))
   in 0x10000 dvd unat bm \<and> unat bm + 0x11000 \<le> 0xfec00000"
proof -
  have p: "snd (pci_bios_init_root_regions_mem two_regions) = 0" by code_simp
  show ?thesis
    using root_windows [OF two_regions_ok refl refl _ _ _ refl refl,
        of "fst (pci_bios_init_root_regions_mem two_regions)"] p
    by (simp add: two_regions_lists entry1_def pci_region_align_def prod_eq_iff Let_def)
      (simp add: two_regions_def pci_zero_def)
qed

theorem map_entries_layout_witness:
  "\<exists>addrs :: u64 list. length addrs = 2 \<and> unat (addrs ! 0) + 0x10000 \<le> unat (addrs ! 1) \<and> 0x1000 dvd unat (addrs ! 1)"
proof -
  let ?es = "[entry1 0x10000 PCI_REGION_TYPE_MEM, entry1 0x1000 PCI_REGION_TYPE_MEM]"
  let ?r = "BusRegion 0 PCI_REGION_TYPE_MEM"
  have h: "region_ok PCI_REGION_TYPE_MEM ?es" "PCI_REGION_TYPE_MEM \<noteq> PCI_REGION_TYPE_IO"
    "?es = rg_list (regions two_regions ?r)" "0xc0000000 = rg_base (regions two_regions ?r)"
    "unat (pci_region_align ?es) dvd unat (0xc0000000 :: u64)" "unat (0xc0000000 :: u64) + total_size ?es < 2 ^ 64"
    "\<forall>e \<in> set ?es. re_bar e = -1 \<longrightarrow> BusRegion (dev_secondary_bus (re_dev e)) (re_type e) \<noteq> ?r"
    using two_regions_ok [unfolded regions_ok_def, rule_format, of PCI_REGION_TYPE_MEM 0] two_regions_lists(1)
    by (simp_all add: two_regions_def pci_region_align_def entry1_def)
  obtain addrs :: "u64 list" where a: "length addrs = length ?es"
    "\<forall>i < length ?es. unat (re_align (?es ! i)) dvd unat (addrs ! i) \<and> 0xc0000000 \<le> addrs ! i \<and>
        unat (addrs ! i) + unat (re_size (?es ! i)) \<le> unat (0xc0000000 :: u64) + total_size ?es"
    "\<forall>j < length ?es. \<forall>i < j. unat (addrs ! i) + unat (re_size (?es ! i)) \<le> unat (addrs ! j)"
    using map_entries_layout [OF h, of one_bar] by (elim exE conjE) (rule that)
  have "unat (addrs ! 0) + unat (re_size (?es ! 0)) \<le> unat (addrs ! 1)" by (rule a(3) [rule_format]) simp_all
  moreover have "unat (re_align (?es ! 1)) dvd unat (addrs ! 1)" using a(2) [rule_format, of 1] by simp
  ultimately show ?thesis using a(1) by (intro exI [of _ addrs]) (simp add: entry1_def)
qed

theorem each_bdf_ends_witness:
  "each_bdf one_bar fst 5 (\<lambda>bdf s. Some (fst s, bdf # snd s)) (0, []) \<noteq> None"
  using each_bdf_ends [of 5 one_bar fst "\<lambda>bdf s. Some (fst s, bdf # snd s)" "(0, [])"] by simp

end
