(* ===== verification/Sha1Props.thy ===== *)
theory Sha1Props
  imports Sha1
begin

text \<open>
  The digest of \<open>Sha1\<close> is the one of the standard: the array seen as words and as bytes, one block, the
  loop over the whole blocks, the padding of the last one or two, and the equivalence.
\<close>

section \<open>The array as words and as bytes\<close>

lemma length_w_bytes [simp]: "length (w_bytes w) = 4 * length w"
  by (induction w) (auto simp: w_bytes_def)

lemma w_bytes_simps [simp]: "w_bytes [] = []" "w_bytes (x # w) = le_bytes 4 x @ w_bytes w"
  by (simp_all add: w_bytes_def)

lemma w_bytes_bytes_w: "4 dvd length bs \<Longrightarrow> w_bytes (bytes_w bs) = bs"
proof (induction bs rule: bytes_w.induct)
  case 1
  then show ?case by simp
next
  case (2 b bs)
  have len: "4 \<le> length (b # bs)" using 2(2) by (auto dest: dvd_imp_le)
  have "w_bytes (bytes_w (drop 4 (b # bs))) = drop 4 (b # bs)"
    by (rule 2(1)) (use 2(2) len in \<open>simp only: length_drop dvd_diff_nat dvd_refl\<close>)
  moreover have "le_bytes 4 (le_word (take 4 (b # bs)) :: u32) = take 4 (b # bs)"
    by (rule bytes_le_word) (use len in auto)
  ultimately show ?case by (simp only: bytes_w.simps w_bytes_simps append_take_drop_id)
qed

lemma length_bytes_w: "4 dvd length bs \<Longrightarrow> length (bytes_w bs) = length bs div 4"
  using w_bytes_bytes_w [of bs] length_w_bytes [of "bytes_w bs"] by simp

lemma put_bytes_bytes:
  assumes "k + length bs \<le> 4 * length w"
  shows "w_bytes (put_bytes k bs w) = take k (w_bytes w) @ bs @ drop (k + length bs) (w_bytes w)"
    "length (put_bytes k bs w) = length w"
proof -
  let ?b = "take k (w_bytes w) @ bs @ drop (k + length bs) (w_bytes w)"
  have l: "length ?b = 4 * length w" using assms by simp
  show "w_bytes (put_bytes k bs w) = ?b"
    unfolding put_bytes_def Let_def by (rule w_bytes_bytes_w) (simp only: l dvd_triv_left)
  show "length (put_bytes k bs w) = length w"
    unfolding put_bytes_def Let_def using length_bytes_w [of ?b] l by simp
qed

lemma w_nth: "i < length w \<Longrightarrow> le_bytes 4 (w ! i) = take 4 (drop (4 * i) (w_bytes w))"
proof (induction w arbitrary: i)
  case Nil
  then show ?case by simp
next
  case (Cons x w)
  then show ?case by (cases i) (auto simp: add.commute)
qed

section \<open>A block\<close>

lemma f_functions:
  "(b AND c) OR ((b XOR 0xffffffff) AND d) = Ch b c d"
  "(b AND c) OR (b AND d) OR (c AND d) = Maj b c d"
proof -
  have m: "(0xffffffff :: u32) = -1" by simp
  have "b XOR 0xffffffff = NOT b" unfolding m by simp
  then show "(b AND c) OR ((b XOR 0xffffffff) AND d) = Ch b c d"
    by (simp only:) (rule bit_word_eqI, auto simp: Ch_def bit_simps)
  show "(b AND c) OR (b AND d) OR (c AND d) = Maj b c d"
    by (rule bit_word_eqI) (auto simp: Maj_def bit_simps)
qed

lemma step_eq_round:
  assumes "i < 80" "w ! i = schedule M i"
  shows "sha1_step w i = round M i"
proof -
  have "i div 20 = (if i \<le> 19 then 0 else if i \<le> 39 then 1 else if i \<le> 59 then 2 else 3)"
    using assms(1) by auto
  then show ?thesis
    by (auto simp: sha1_step_def round_def fun_eq_iff Let_def rol_def sha_f_def sha_k_def sha_ko_def
        f_functions Parity_def assms(2) numeral_2_eq_2 numeral_3_eq_3)
qed

lemma expand_loop:
  assumes "\<And>i. i < 16 \<Longrightarrow> w0 ! i = schedule M i" "length w0 = 80" "16 \<le> n" "n \<le> 80"
  shows "let w = fold (\<lambda>i w. w[i := rol (w ! (i - 3) XOR w ! (i - 8) XOR w ! (i - 14) XOR w ! (i - 16)) 1]) [16..<n] w0
         in length w = 80 \<and> (\<forall>i < n. w ! i = schedule M i)"
  using assms(3,4)
proof (induction n rule: nat_induct_at_least)
  case base
  then show ?case using assms(1,2) by simp
next
  case (Suc n)
  let ?f = "\<lambda>i w. w[i := rol (w ! (i - 3) XOR w ! (i - 8) XOR w ! (i - 14) XOR w ! (i - 16)) 1]"
  let ?w = "fold ?f [16..<n] w0"
  have ih: "length ?w = 80" "\<And>i. i < n \<Longrightarrow> ?w ! i = schedule M i" using Suc by (auto simp: Let_def)
  define w where "w = ?w"
  have w: "length w = 80" "\<And>i. i < n \<Longrightarrow> w ! i = schedule M i" using ih by (simp_all add: w_def)
  have n: "rol (w ! (n - 3) XOR w ! (n - 8) XOR w ! (n - 14) XOR w ! (n - 16)) 1 = schedule M n"
    using Suc.hyps w(2) by (subst schedule.simps) (simp add: rol_def)
  have "fold ?f [16..<Suc n] w0 = w[n := schedule M n]"
    using Suc.hyps by (simp add: n [symmetric]) (simp add: w_def)
  moreover have "\<forall>i < Suc n. w[n := schedule M n] ! i = schedule M i"
    using w Suc.prems by (simp add: nth_list_update less_Suc_eq)
  ultimately show ?case using w(1) by (simp only: Let_def length_list_update simp_thms)
qed

lemma sha1_expand_schedule:
  assumes "length w = 80" "i < 80"
  shows "length (sha1_expand w) = 80" "sha1_expand w ! i = schedule (take 64 (w_bytes w)) i"
proof -
  let ?w = "map swab32 (take 16 w) @ drop 16 w"
  have first: "?w ! j = schedule (take 64 (w_bytes w)) j" if "j < 16" for j
  proof -
    have "take 4 (drop (4 * j) (take 64 (w_bytes w))) = le_bytes 4 (w ! j)"
      using that assms(1) by (simp add: w_nth drop_take min_def)
    then show ?thesis using that assms(1) by (subst schedule.simps) (simp add: nth_append be_word_def swab32_def)
  qed
  show "length (sha1_expand w) = 80" "sha1_expand w ! i = schedule (take 64 (w_bytes w)) i"
    using expand_loop [of ?w "take 64 (w_bytes w)" 80, OF first, folded sha1_expand_def] assms
    by (simp_all only: Let_def) simp_all
qed

lemma sha1_block_compress:
  assumes "length w = 80"
  shows "length (fst (sha1_block (w, ctx))) = 80" "snd (sha1_block (w, ctx)) = compress (take 64 (w_bytes w)) ctx"
proof -
  have "fold (sha1_step (sha1_expand w)) [0..<80] s = fold (round (take 64 (w_bytes w))) [0..<80] s" for s
    by (rule fold_cong) (auto intro: step_eq_round sha1_expand_schedule assms)
  then show "snd (sha1_block (w, ctx)) = compress (take 64 (w_bytes w)) ctx"
    by (simp add: sha1_block_def compress_def Let_def split_beta add.commute)
  show "length (fst (sha1_block (w, ctx))) = 80"
    using sha1_expand_schedule(1) [OF assms, of 0] by (simp add: sha1_block_def Let_def split_beta)
qed

lemma digest_block: "length M = 64 \<Longrightarrow> digest (M @ rest) H = digest rest (compress M H)"
  by (cases M) auto

section \<open>The whole blocks\<close>

lemma mem_read_append: "mem_read m p (a + b) = mem_read m p a @ mem_read m (p + of_nat a) b"
  by (rule nth_equalityI) (auto simp: nth_append add.assoc)

declare sha1_chunks.simps [simp del]

lemma sha1_chunks_digest:
  assumes "length (fst s) = 80" "unat offset \<le> unat len" "64 dvd unat offset" "bits = 8 * offset"
    and "sha1_chunks m data len offset bits s = (offset', bits', s')"
  shows "length (fst s') = 80 \<and> unat offset' \<le> unat len \<and> unat (len - offset') < 64 \<and> 64 dvd unat offset' \<and>
    bits' = 8 * offset' \<and>
    digest (mem_read m (data + offset) (unat (len - offset)) @ rest) (snd s) =
      digest (mem_read m (data + offset') (unat (len - offset')) @ rest) (snd s')"
  using assms
proof (induction m data len offset bits s rule: sha1_chunks.induct)
  case (1 m data len offset bits s)
  show ?case
  proof (cases "64 \<le> len - offset")
    case True
    let ?w = "put_bytes 0 (mem_read m (data + offset) 64) (fst s)"
    let ?s = "sha1_block (?w, snd s)"
    have u: "unat (len - offset) = unat len - unat offset" using "1.prems"(2) by (rule unat_sub_le)
    have room: "unat offset + 64 \<le> unat len" using True u "1.prems"(2) by (simp add: word_le_nat_alt)
    have off: "unat (offset + 64) = unat offset + 64"
      using room unat_u32_bound [of len] by (subst unat_add_small) auto
    have put: "w_bytes ?w = mem_read m (data + offset) 64 @ drop 64 (w_bytes (fst s))" "length ?w = 80"
      using put_bytes_bytes [of 0 "mem_read m (data + offset) 64" "fst s"] "1.prems"(1) by simp_all
    have blk: "length (fst ?s) = 80" "snd ?s = compress (mem_read m (data + offset) 64) (snd s)"
      using sha1_block_compress [OF put(2)] put(1) by simp_all
    have rec: "sha1_chunks m data len (offset + 64) (bits + 64 * 8) ?s = (offset', bits', s')"
      using "1.prems"(5) True by (subst (asm) sha1_chunks.simps) simp
    have "unat (len - offset) = 64 + unat (len - (offset + 64))"
      using room off unat_sub_le [of "offset + 64" len] u by simp
    then have "mem_read m (data + offset) (unat (len - offset)) =
        mem_read m (data + offset) 64 @ mem_read m (data + (offset + 64)) (unat (len - (offset + 64)))"
      by (simp only: mem_read_append) (simp add: add.assoc)
    then have "digest (mem_read m (data + offset) (unat (len - offset)) @ rest) (snd s) =
        digest (mem_read m (data + (offset + 64)) (unat (len - (offset + 64))) @ rest) (snd ?s)"
      by (simp add: digest_block blk(2))
    with "1.IH" [OF True blk(1) _ _ _ rec] room off "1.prems"(3,4) show ?thesis
      by (simp add: distrib_left)
  next
    case False
    then have "(offset', bits', s') = (offset, bits, s)"
      using "1.prems"(5) by (subst (asm) sha1_chunks.simps) simp
    moreover have "unat (len - offset) < 64" using False by (simp add: word_le_nat_alt)
    ultimately show ?thesis using "1.prems" by simp
  qed
qed

section \<open>The padding\<close>

text \<open>The bytes of the last blocks, when the first \<open>num\<close> of the array are the rest of the message.\<close>

lemma pad_rest:
  assumes "length msg = k * 64 + num" "num < 64"
  shows "pad msg = msg @ 0x80 # replicate (if num < 56 then 55 - num else 119 - num) 0 @ be_bytes 8 (of_nat (8 * length msg) :: u64)"
proof -
  have "length msg mod 64 = num" using assms by simp
  moreover have "(119 - num) mod 64 = (if num < 56 then 55 - num else 119 - num)"
  proof (cases "num < 56")
    case True
    then have "119 - num = (55 - num) + 64" by simp
    then show ?thesis using True by (simp only: mod_add_self2) simp
  qed (use assms in simp)
  ultimately show ?thesis by (simp add: pad_def)
qed

lemma take_left: "length xs = n \<Longrightarrow> take n (xs @ ys) = xs"
  by simp

lemma digest_end: "length M = 64 \<Longrightarrow> digest M H = compress M H"
  using digest_block [of M "[]" H] by simp

lemma last_blocks:
  assumes w: "length w = 80" and num: "length mt = num" "num < 64"
    and w1: "w1 = put_bytes num [0x80] (put_bytes 0 mt w)"
    and w2: "w2 = (if 64 - (num + 1) > 0 then put_bytes (num + 1) (replicate (64 - (num + 1)) 0) w1 else w1)"
    and w3: "(w3, ctx3) = (if num \<ge> 56 then (let (w', c') = sha1_block (w2, ctx) in (put_bytes 0 (replicate 60 0) w', c'))
                          else (w2, ctx))"
    and w4: "w4 = put_bytes 56 bs w3" and bs: "length bs = 8"
  shows "snd (sha1_block (w4, ctx3)) =
    digest (mt @ 0x80 # replicate (if num < 56 then 55 - num else 119 - num) 0 @ bs) ctx"
proof -
  have l1: "length w1 = 80" and b1: "take (num + 1) (w_bytes w1) = mt @ [0x80]"
    using put_bytes_bytes [of 0 mt w] put_bytes_bytes [of num "[0x80]" "put_bytes 0 mt w"] w num by (simp_all add: w1)
  have l2: "length w2 = 80"
    using put_bytes_bytes(2) [of "num + 1" "replicate (64 - (num + 1)) 0" w1] l1 num by (simp add: w2)
  have b2: "take 64 (w_bytes w2) = mt @ 0x80 # replicate (63 - num) 0"
  proof (cases "num = 63")
    case True
    then show ?thesis using b1 by (simp add: w2)
  next
    case False
    then have "w2 = put_bytes (num + 1) (replicate (63 - num) 0) w1" using num by (simp add: w2)
    then have "w_bytes w2 = take (num + 1) (w_bytes w1) @ replicate (63 - num) 0 @ drop 64 (w_bytes w1)"
      using put_bytes_bytes(1) [of "num + 1" "replicate (63 - num) 0" w1] l1 num by simp
    then have "w_bytes w2 = (mt @ 0x80 # replicate (63 - num) 0) @ drop 64 (w_bytes w1)" using b1 by simp
    then show ?thesis using num by (simp only:) (rule take_left, simp)
  qed
  have l3: "length w3 = 80"
    using w3 l2 sha1_block_compress(1) [OF l2, of ctx] put_bytes_bytes(2) [of 0 "replicate 60 0" "fst (sha1_block (w2, ctx))"]
    by (auto simp: split_beta split: if_splits)
  have b4: "length w4 = 80" "take 64 (w_bytes w4) = take 56 (w_bytes w3) @ bs"
    using put_bytes_bytes [of 56 bs w3] l3 bs by (simp_all add: w4)
  show ?thesis
  proof (cases "num < 56")
    case True
    then have "w3 = w2" "ctx3 = ctx" using w3 by simp_all
    moreover have "take 56 (w_bytes w2) = mt @ 0x80 # replicate (55 - num) 0"
      using arg_cong [OF b2, of "take 56"] True num by (simp add: take_Cons')
    ultimately show ?thesis
      using sha1_block_compress(2) [OF b4(1), of ctx] b4(2) True num bs by (simp add: digest_end)
  next
    case False
    obtain w' c' where blk: "sha1_block (w2, ctx) = (w', c')" by force
    then have c: "ctx3 = c'" "w3 = put_bytes 0 (replicate 60 0) w'" using w3 False by simp_all
    have w': "length w' = 80" "c' = compress (take 64 (w_bytes w2)) ctx"
      using sha1_block_compress [OF l2, of ctx] blk by simp_all
    have "take 56 (w_bytes w3) = replicate 56 0"
      using put_bytes_bytes(1) [of 0 "replicate 60 0" w'] w'(1) by (simp add: c)
    then have "snd (sha1_block (w4, ctx3)) = compress (replicate 56 0 @ bs) (compress (mt @ 0x80 # replicate (63 - num) 0) ctx)"
      using sha1_block_compress(2) [OF b4(1), of ctx3] b4(2) by (simp add: c w'(2) b2)
    moreover have "mt @ 0x80 # replicate (119 - num) 0 @ bs = (mt @ 0x80 # replicate (63 - num) 0) @ replicate 56 0 @ bs"
    proof -
      have "119 - num = (63 - num) + 56" using num by simp
      then show ?thesis by (simp only: replicate_add append_assoc append_Cons)
    qed
    moreover have "digest ((mt @ 0x80 # replicate (63 - num) 0) @ replicate 56 0 @ bs) ctx =
        digest (replicate 56 0 @ bs) (compress (mt @ 0x80 # replicate (63 - num) 0) ctx)"
      by (rule digest_block) (use num in simp)
    ultimately show ?thesis using False bs by (simp add: digest_end)
  qed
qed

text \<open>C20. \<open>sha1\<close> writes the SHA-1 digest, as FIPS 180 defines it, of the \<open>len\<close> bytes at \<open>data\<close> to the 20
  bytes at \<open>hash\<close> and changes no other memory, whatever the local array contains at the start, for
  messages below 512 MB (the number of bits is kept in 32 bits).\<close>

theorem sha1_correct:
  assumes "length w = 80" "unat len < 2 ^ 29"
  shows "sha1 w data len hash m = mem_write hash (sha1_spec (mem_read m data (unat len))) m"
proof -
  let ?msg = "mem_read m data (unat len)"
  obtain offset bits0 w1 ctx where ch: "sha1_chunks m data len 0 0 (w, sha1_init) = (offset, bits0, w1, ctx)"
    by (metis prod_cases4)
  let ?num = "unat (len - offset)"
  let ?bs = "be_bytes 8 (of_nat (8 * unat len) :: u64)"
  let ?rest = "0x80 # replicate (if ?num < 56 then 55 - ?num else 119 - ?num) 0 @ ?bs"
  let ?mt = "mem_read m (data + offset) ?num"
  have c: "length w1 = 80" "unat offset \<le> unat len" "?num < 64" "64 dvd unat offset" "bits0 = 8 * offset"
    and dg: "digest (?msg @ ?rest) sha1_init = digest (?mt @ ?rest) ctx"
    using sha1_chunks_digest [OF _ _ _ _ ch, of ?rest] assms(1) by simp_all
  have num16: "unat (ucast (len - offset) :: u16) = ?num"
    using c(3) by (simp add: unsigned_ucast_eq take_bit_nat_eq_self)
  have "unat (bits0 + of_nat ?num * 8) = 8 * unat len"
  proof -
    have "bits0 + of_nat ?num * 8 = 8 * len" by (simp add: c(5) algebra_simps)
    then show ?thesis using assms(2) by (simp add: unat_word_ariths)
  qed
  then have bits: "ucast (bits0 + of_nat ?num * 8) = (of_nat (8 * unat len) :: u64)"
    by (metis of_nat_unat)
  have "length ?msg = unat offset div 64 * 64 + ?num" using c(2,4) unat_sub_le [OF c(2)] by simp
  then have pad: "pad ?msg = ?msg @ ?rest" using pad_rest c(3) by (metis length_mem_read)
  let ?w1 = "put_bytes ?num [0x80] (put_bytes 0 ?mt w1)"
  let ?w2 = "if 64 - (?num + 1) > 0 then put_bytes (?num + 1) (replicate (64 - (?num + 1)) 0) ?w1 else ?w1"
  obtain w3 ctx3 where w3: "(w3, ctx3) = (if ?num \<ge> 56 then (let (w', c') = sha1_block (?w2, ctx) in (put_bytes 0 (replicate 60 0) w', c'))
      else (?w2, ctx))" by (metis surj_pair)
  have "snd (sha1_block (put_bytes 56 ?bs w3, ctx3)) = digest (pad ?msg) sha1_init"
    unfolding pad dg by (rule last_blocks [OF c(1) _ c(3) refl refl w3 refl]) (simp_all add: be_bytes_def)
  then show ?thesis
    unfolding sha1_def sha1_do_def sha1_spec_def ch Let_def num16 bits le_bytes_swab64 prod.case w3 [symmetric, unfolded Let_def]
    by (simp add: swab32_bytes)
qed

definition abc_mem :: mem where "abc_mem = (\<lambda>a. if a = 0x100 then 97 else if a = 0x101 then 98 else if a = 0x102 then 99 else 0)"

lemma length_sha1_spec: "length (sha1_spec msg) = 20"
  by (simp add: sha1_spec_def Let_def be_bytes_def)

theorem sha1_correct_witness:
  "mem_read (sha1 (replicate 80 0) 0x100 3 0x200 abc_mem) 0x200 20 = sha1_spec [97, 98, 99]"
proof -
  have "mem_read abc_mem 0x100 (unat (3 :: u32)) = [97, 98, 99]"
    by (simp add: mem_read_def abc_mem_def upt_rec [of _ 3])
  then show ?thesis
    using sha1_correct [of "replicate 80 0" 3 "0x100" "0x200" abc_mem]
      mem_read_write_same [of "sha1_spec [97, 98, 99]" "0x200" abc_mem] by (simp add: length_sha1_spec)
qed

end
