(* ===== verification/Clock.thy ===== *)
theory Clock
  imports Timer FarMem Bregs
begin

text \<open>
  The clocks of \<open>src/clock.c\<close>: the tick counter of the timer interrupt 0x08, the time services of
  interrupt 0x1a over the real time clock (\<open>src/hw/rtc.c\<close>), the timers counted in ticks, the waits of
  interrupt 0x15 (functions 0x83 and 0x86), the interrupt of the real time clock, and the motor timeout of
  \<open>src/hw/floppy.c\<close>. The tick counter and the wait fields lie in the BIOS data area, in byte memory.

  The registers of the real time clock are a function that keeps what is written; whether it is in the middle
  of an update, and its register C, are inputs. Software interrupts, the polling of other devices and the
  writes to interrupt controller and floppy controller are recorded as events; a handler of the user that
  changes the state is not modelled. The configuration is the default one (\<open>CONFIG_RTC_TIMER\<close>,
  \<open>CONFIG_HARDWARE_IRQ\<close>, \<open>CONFIG_FLOPPY\<close>, \<open>CONFIG_QEMU\<close>).
\<close>

section \<open>State\<close>

datatype clock_event = SoftInt u8 bregs | PollUsb | PollPs2 | PollSercon | FloppyDor u8 | PicEoi1 | PicEoi2

record clock_state =
  cmem :: mem
  rtc_regs :: "u8 \<Rightarrow> u8"
  Century :: u8
  RTCusers :: int
  FloppyDOR :: u8
  cevents :: "clock_event list"

definition bda_floppy_motor_counter :: u32 where "bda_floppy_motor_counter = 0x40"
definition bda_timer_counter :: u32 where "bda_timer_counter = 0x6c"
definition bda_timer_rollover :: u32 where "bda_timer_rollover = 0x70"
definition bda_user_wait_complete_flag :: u32 where "bda_user_wait_complete_flag = 0x98"
definition bda_user_wait_timeout :: u32 where "bda_user_wait_timeout = 0x9c"
definition bda_rtc_wait_flag :: u32 where "bda_rtc_wait_flag = 0xa0"

definition TICKS_PER_DAY :: u32 where "TICKS_PER_DAY = 1573040"
definition RWS_WAIT_PENDING :: u8 where "RWS_WAIT_PENDING = 1"
definition RET_ECLOCKINUSE :: u8 where "RET_ECLOCKINUSE = 0x83"
definition USEC_PER_RTC :: u32 where "USEC_PER_RTC = 977"

definition event :: "clock_event \<Rightarrow> clock_state \<Rightarrow> clock_state" where
  "event e st = st\<lparr>cevents := cevents st @ [e]\<rparr>"

section \<open>Real time clock\<close>

definition CMOS_RTC_SECONDS :: u8 where "CMOS_RTC_SECONDS = 0"
definition CMOS_RTC_SECONDS_ALARM :: u8 where "CMOS_RTC_SECONDS_ALARM = 1"
definition CMOS_RTC_MINUTES :: u8 where "CMOS_RTC_MINUTES = 2"
definition CMOS_RTC_MINUTES_ALARM :: u8 where "CMOS_RTC_MINUTES_ALARM = 3"
definition CMOS_RTC_HOURS :: u8 where "CMOS_RTC_HOURS = 4"
definition CMOS_RTC_HOURS_ALARM :: u8 where "CMOS_RTC_HOURS_ALARM = 5"
definition CMOS_RTC_DAY_MONTH :: u8 where "CMOS_RTC_DAY_MONTH = 7"
definition CMOS_RTC_MONTH :: u8 where "CMOS_RTC_MONTH = 8"
definition CMOS_RTC_YEAR :: u8 where "CMOS_RTC_YEAR = 9"
definition CMOS_STATUS_A :: u8 where "CMOS_STATUS_A = 0xa"
definition CMOS_STATUS_B :: u8 where "CMOS_STATUS_B = 0xb"
definition CMOS_CENTURY :: u8 where "CMOS_CENTURY = 0x32"

lemmas cmos_defs = CMOS_RTC_SECONDS_def CMOS_RTC_SECONDS_ALARM_def CMOS_RTC_MINUTES_def
  CMOS_RTC_MINUTES_ALARM_def CMOS_RTC_HOURS_def CMOS_RTC_HOURS_ALARM_def CMOS_RTC_DAY_MONTH_def
  CMOS_RTC_MONTH_def CMOS_RTC_YEAR_def CMOS_STATUS_A_def CMOS_STATUS_B_def CMOS_CENTURY_def

definition RTC_A_UIP :: u8 where "RTC_A_UIP = 0x80"
definition RTC_B_SET :: u8 where "RTC_B_SET = 0x80"
definition RTC_B_PIE :: u8 where "RTC_B_PIE = 0x40"
definition RTC_B_AIE :: u8 where "RTC_B_AIE = 0x20"
definition RTC_B_24HR :: u8 where "RTC_B_24HR = 2"
definition RTC_B_DSE :: u8 where "RTC_B_DSE = 1"

lemmas rtc_b_defs = RTC_B_SET_def RTC_B_PIE_def RTC_B_AIE_def RTC_B_24HR_def RTC_B_DSE_def

text \<open>The top bit of the index port disables the non-maskable interrupt; the chip sees the other seven.\<close>

definition rtc_read :: "u8 \<Rightarrow> clock_state \<Rightarrow> u8" where
  "rtc_read index st = rtc_regs st (index AND 0x7f)"

definition rtc_write :: "u8 \<Rightarrow> u8 \<Rightarrow> clock_state \<Rightarrow> clock_state" where
  "rtc_write index val st = st\<lparr>rtc_regs := (rtc_regs st)(index AND 0x7f := val)\<rparr>"

definition rtc_mask :: "u8 \<Rightarrow> u8 \<Rightarrow> u8 \<Rightarrow> clock_state \<Rightarrow> clock_state" where
  "rtc_mask index off on st = rtc_write index ((rtc_read index st AND NOT off) OR on) st"

text \<open>The wait for the end of an update: the readings of register A, each with whether the 15 ms are over.
  \<open>None\<close> is a wait that the readings do not end.\<close>

fun rtc_updating_wait :: "(u8 \<times> bool) list \<Rightarrow> int option" where
  "rtc_updating_wait [] = None"
| "rtc_updating_wait ((a, expired) # rest) =
     (if a AND RTC_A_UIP = 0 then Some 0 else if expired then Some (-1) else rtc_updating_wait rest)"

definition rtc_updating :: "u8 \<Rightarrow> (u8 \<times> bool) list \<Rightarrow> int option" where
  "rtc_updating a rest = (if a AND RTC_A_UIP = 0 then Some 0 else rtc_updating_wait rest)"

definition rtc_setup :: "clock_state \<Rightarrow> clock_state" where
  "rtc_setup st = rtc_mask CMOS_STATUS_B (NOT RTC_B_DSE) RTC_B_24HR (rtc_write CMOS_STATUS_A 0x26 st)"

definition rtc_use :: "clock_state \<Rightarrow> clock_state" where
  "rtc_use st =
     (let count = RTCusers st; st1 = st\<lparr>RTCusers := count + 1\<rparr>
      in if count \<noteq> 0 then st1 else rtc_mask CMOS_STATUS_B 0 RTC_B_PIE st1)"

definition rtc_release :: "clock_state \<Rightarrow> clock_state" where
  "rtc_release st =
     (let count = RTCusers st; st1 = st\<lparr>RTCusers := count - 1\<rparr>
      in if count \<noteq> 1 then st1 else rtc_mask CMOS_STATUS_B RTC_B_PIE 0 st1)"

section \<open>Set-up\<close>

definition bcd2bin :: "u8 \<Rightarrow> u32" where
  "bcd2bin val = ucast (val AND 0xf) + ucast (drop_bit 4 val) * 10"

definition clock_setup :: "clock_state \<Rightarrow> clock_state" where
  "clock_setup st =
     (let st1 = rtc_setup st;
          seconds = bcd2bin (rtc_read CMOS_RTC_SECONDS st1);
          minutes = bcd2bin (rtc_read CMOS_RTC_MINUTES st1);
          hours = bcd2bin (rtc_read CMOS_RTC_HOURS st1);
          ticks = ticks_from_ms (((hours * 60 + minutes) * 60 + seconds) * 1000);
          st2 = st1\<lparr>cmem := set_mem 4 (bda_at bda_timer_counter) (ticks mod TICKS_PER_DAY) (cmem st1)\<rparr>
      in st2\<lparr>Century := rtc_read CMOS_CENTURY st2\<rparr>)"

section \<open>Interrupt 0x1a\<close>

definition handle_1a00 :: "bregs \<Rightarrow> clock_state \<Rightarrow> bregs \<times> clock_state" where
  "handle_1a00 regs st =
     (let ticks = (get_mem 4 (bda_at bda_timer_counter) (cmem st) :: u32);
          r1 = set_dx (ucast ticks) (set_cx (ucast (drop_bit 16 ticks)) regs);
          r2 = set_al (cmem st (bda_at bda_timer_rollover)) r1
      in (set_success r2, st\<lparr>cmem := (cmem st)(bda_at bda_timer_rollover := 0)\<rparr>))"

definition handle_1a01 :: "bregs \<Rightarrow> clock_state \<Rightarrow> bregs \<times> clock_state" where
  "handle_1a01 regs st =
     (let ticks = push_bit 16 (ucast (cx regs)) OR ucast (dx regs) :: u32;
          m = (set_mem 4 (bda_at bda_timer_counter) ticks (cmem st))(bda_at bda_timer_rollover := 0)
      in (set_success (set_ah 0 regs), st\<lparr>cmem := m\<rparr>))"

definition handle_1a02 :: "bool \<Rightarrow> bregs \<Rightarrow> clock_state \<Rightarrow> bregs \<times> clock_state" where
  "handle_1a02 updating regs st =
     (if updating then (set_invalid_silent regs, st)
      else
        let r1 = set_dh (rtc_read CMOS_RTC_SECONDS st) regs;
            r2 = set_cl (rtc_read CMOS_RTC_MINUTES st) r1;
            r3 = set_ch (rtc_read CMOS_RTC_HOURS st) r2;
            r4 = set_dl (rtc_read CMOS_STATUS_B st AND RTC_B_DSE) r3;
            r5 = set_ah 0 r4
        in (set_success (set_al (ch r5) r5), st))"

definition handle_1a03 :: "bool \<Rightarrow> bregs \<Rightarrow> clock_state \<Rightarrow> bregs \<times> clock_state" where
  "handle_1a03 updating regs st =
     (let st1 = (if updating then rtc_setup st else st);
          st2 = rtc_write CMOS_RTC_SECONDS (dh regs) st1;
          st3 = rtc_write CMOS_RTC_MINUTES (cl regs) st2;
          st4 = rtc_write CMOS_RTC_HOURS (ch regs) st3;
          val8 = (rtc_read CMOS_STATUS_B st4 AND (RTC_B_PIE OR RTC_B_AIE)) OR RTC_B_24HR OR (dl regs AND RTC_B_DSE);
          st5 = rtc_write CMOS_STATUS_B val8 st4
      in (set_success (set_al val8 (set_ah 0 regs)), st5))"

definition handle_1a04 :: "bool \<Rightarrow> bregs \<Rightarrow> clock_state \<Rightarrow> bregs \<times> clock_state" where
  "handle_1a04 updating regs st =
     (let r0 = set_ah 0 regs
      in if updating then (set_invalid_silent r0, st)
      else
        let r1 = set_cl (rtc_read CMOS_RTC_YEAR st) r0;
            r2 = set_dh (rtc_read CMOS_RTC_MONTH st) r1;
            r3 = set_dl (rtc_read CMOS_RTC_DAY_MONTH st) r2;
            r4 = set_ch (Century st) r3
        in (set_success (set_al (ch r4) r4), st))"

definition handle_1a05 :: "bool \<Rightarrow> bregs \<Rightarrow> clock_state \<Rightarrow> bregs \<times> clock_state" where
  "handle_1a05 updating regs st =
     (if updating then (set_invalid_silent regs, rtc_setup st)
      else
        let st1 = rtc_write CMOS_RTC_YEAR (cl regs) st;
            st2 = rtc_write CMOS_RTC_MONTH (dh regs) st1;
            st3 = rtc_write CMOS_RTC_DAY_MONTH (dl regs) st2;
            st4 = st3\<lparr>Century := ch regs\<rparr>;
            val8 = rtc_read CMOS_STATUS_B st4 AND NOT RTC_B_SET;
            st5 = rtc_write CMOS_STATUS_B val8 st4
        in (set_success (set_al val8 (set_ah 0 regs)), st5))"

definition handle_1a06 :: "bool \<Rightarrow> bregs \<Rightarrow> clock_state \<Rightarrow> bregs \<times> clock_state" where
  "handle_1a06 updating regs st =
     (let val8 = rtc_read CMOS_STATUS_B st; r0 = set_ax 0 regs
      in if val8 AND RTC_B_AIE \<noteq> 0 then (set_invalid_silent r0, st)
      else
        let st1 = (if updating then rtc_setup st else st);
            st2 = rtc_write CMOS_RTC_SECONDS_ALARM (dh r0) st1;
            st3 = rtc_write CMOS_RTC_MINUTES_ALARM (cl r0) st2;
            st4 = rtc_write CMOS_RTC_HOURS_ALARM (ch r0) st3
        in (set_success r0, rtc_write CMOS_STATUS_B ((val8 AND NOT RTC_B_SET) OR RTC_B_AIE) st4))"

definition handle_1a07 :: "bregs \<Rightarrow> clock_state \<Rightarrow> bregs \<times> clock_state" where
  "handle_1a07 regs st =
     (let val8 = rtc_read CMOS_STATUS_B st;
          st1 = rtc_write CMOS_STATUS_B (val8 AND NOT (RTC_B_SET OR RTC_B_AIE)) st
      in (set_success (set_al val8 (set_ah 0 regs)), st1))"

definition handle_1aXX :: "bregs \<Rightarrow> clock_state \<Rightarrow> bregs \<times> clock_state" where
  "handle_1aXX regs st = (set_invalid_silent regs, st)"

text \<open>Function 0xbb hands the frame to the TPM code (\<open>src/tcgbios.c\<close>), a parameter.\<close>

definition handle_1a ::
  "(bregs \<Rightarrow> bregs) \<Rightarrow> bool \<Rightarrow> bregs \<Rightarrow> clock_state \<Rightarrow> bregs \<times> clock_state" where
  "handle_1a tpm_interrupt_handler updating regs st =
     (let f = ah regs in
      if f = 0x00 then handle_1a00 regs st
      else if f = 0x01 then handle_1a01 regs st
      else if f = 0x02 then handle_1a02 updating regs st
      else if f = 0x03 then handle_1a03 updating regs st
      else if f = 0x04 then handle_1a04 updating regs st
      else if f = 0x05 then handle_1a05 updating regs st
      else if f = 0x06 then handle_1a06 updating regs st
      else if f = 0x07 then handle_1a07 regs st
      else if f = 0xbb then (tpm_interrupt_handler regs, st)
      else handle_1aXX regs st)"

section \<open>The timer interrupt\<close>

definition FLOPPY_DOR_MOTOR_MASK :: u8 where "FLOPPY_DOR_MOTOR_MASK = 0xf0"

definition floppy_dor_write :: "u8 \<Rightarrow> clock_state \<Rightarrow> clock_state" where
  "floppy_dor_write val st = (event (FloppyDor val) st)\<lparr>FloppyDOR := val\<rparr>"

definition floppy_dor_mask :: "u8 \<Rightarrow> u8 \<Rightarrow> clock_state \<Rightarrow> clock_state" where
  "floppy_dor_mask off on st = floppy_dor_write ((FloppyDOR st AND NOT off) OR on) st"

definition floppy_tick :: "clock_state \<Rightarrow> clock_state" where
  "floppy_tick st =
     (let fcount = cmem st (bda_at bda_floppy_motor_counter)
      in if fcount \<noteq> 0 then
           let f1 = fcount - 1; st1 = st\<lparr>cmem := (cmem st)(bda_at bda_floppy_motor_counter := f1)\<rparr>
           in if f1 = 0 then floppy_dor_mask FLOPPY_DOR_MOTOR_MASK 0 st1 else st1
         else st)"

definition clock_update :: "clock_state \<Rightarrow> clock_state" where
  "clock_update st =
     (let counter = get_mem 4 (bda_at bda_timer_counter) (cmem st) + 1 :: u32;
          roll = bda_at bda_timer_rollover;
          (counter1, st1) = (if counter \<ge> TICKS_PER_DAY
                             then (0, st\<lparr>cmem := (cmem st)(roll := cmem st roll + 1)\<rparr>) else (counter, st));
          st2 = st1\<lparr>cmem := set_mem 4 (bda_at bda_timer_counter) counter1 (cmem st1)\<rparr>
      in event PollSercon (event PollPs2 (event PollUsb (floppy_tick st2))))"

definition handle_08 :: "clock_state \<Rightarrow> clock_state" where
  "handle_08 st = event PicEoi1 (event (SoftInt 0x1c (bregs_zero\<lparr>flags := F_IF\<rparr>)) (clock_update st))"

section \<open>Timers counted in ticks\<close>

definition irqtimer_calc_ticks :: "u32 \<Rightarrow> clock_state \<Rightarrow> u32" where
  "irqtimer_calc_ticks count st = (get_mem 4 (bda_at bda_timer_counter) (cmem st) + count + 1) mod TICKS_PER_DAY"

definition irqtimer_calc :: "u32 \<Rightarrow> clock_state \<Rightarrow> u32" where
  "irqtimer_calc msecs st =
     (if msecs = 0 then get_mem 4 (bda_at bda_timer_counter) (cmem st)
      else irqtimer_calc_ticks (ticks_from_ms msecs) st)"

definition irqtimer_check :: "u32 \<Rightarrow> clock_state \<Rightarrow> bool" where
  "irqtimer_check lim st \<longleftrightarrow>
     (get_mem 4 (bda_at bda_timer_counter) (cmem st) + TICKS_PER_DAY - lim) mod TICKS_PER_DAY < TICKS_PER_DAY div 2"

section \<open>Waits\<close>

definition set_usertimer :: "u32 \<Rightarrow> u16 \<Rightarrow> u16 \<Rightarrow> clock_state \<Rightarrow> bool \<times> clock_state" where
  "set_usertimer usecs seg offset st =
     (if cmem st (bda_at bda_rtc_wait_flag) AND RWS_WAIT_PENDING \<noteq> 0 then (False, st)
      else
        let m1 = (cmem st)(bda_at bda_rtc_wait_flag := RWS_WAIT_PENDING);
            m2 = set_mem 4 (bda_at bda_user_wait_complete_flag) (SEGOFF seg offset) m1;
            m3 = set_mem 4 (bda_at bda_user_wait_timeout) usecs m2
        in (True, rtc_use (st\<lparr>cmem := m3\<rparr>)))"

definition clear_usertimer :: "clock_state \<Rightarrow> clock_state" where
  "clear_usertimer st =
     (if cmem st (bda_at bda_rtc_wait_flag) AND RWS_WAIT_PENDING = 0 then st
      else rtc_release (st\<lparr>cmem := (cmem st)(bda_at bda_rtc_wait_flag := 0)\<rparr>))"

text \<open>The interrupt of the real time clock; \<open>registerC\<close> is what the chip shows as its causes.\<close>

definition rtc_periodic :: "clock_state \<Rightarrow> clock_state" where
  "rtc_periodic st =
     (if cmem st (bda_at bda_rtc_wait_flag) = 0 then st
      else
        let time = (get_mem 4 (bda_at bda_user_wait_timeout) (cmem st) :: u32)
        in if time < USEC_PER_RTC then
             let segoff = get_mem 4 (bda_at bda_user_wait_complete_flag) (cmem st);
                 ptr = SEGOFF_TO_FLATPTR segoff;
                 oldval = cmem st ptr
             in clear_usertimer (st\<lparr>cmem := (cmem st)(ptr := oldval OR 0x80)\<rparr>)
           else st\<lparr>cmem := set_mem 4 (bda_at bda_user_wait_timeout) (time - USEC_PER_RTC) (cmem st)\<rparr>)"

definition handle_70 :: "u8 \<Rightarrow> clock_state \<Rightarrow> clock_state" where
  "handle_70 registerC st =
     (let registerB = rtc_read CMOS_STATUS_B st;
          st2 = (if registerB AND (RTC_B_PIE OR RTC_B_AIE) = 0 then st
                 else
                   let st1 = (if registerC AND RTC_B_AIE \<noteq> 0
                              then event (SoftInt 0x4a (bregs_zero\<lparr>flags := F_IF\<rparr>)) st else st)
                   in if registerC AND RTC_B_PIE = 0 then st1 else rtc_periodic st1)
      in event PicEoi2 st2)"

text \<open>The interrupts that arrive during a wait; \<open>handle_1586\<close> waits on a byte of its stack, whose far
  address is a parameter, and gives \<open>None\<close> when the interrupts run out before the byte is set.\<close>

datatype clock_irq = Irq0 | Irq8 u8

fun clock_isr :: "clock_irq \<Rightarrow> clock_state \<Rightarrow> clock_state" where
  "clock_isr Irq0 st = handle_08 st"
| "clock_isr (Irq8 c) st = handle_70 c st"

fun wait_status :: "u32 \<Rightarrow> clock_irq list \<Rightarrow> clock_state \<Rightarrow> (clock_irq list \<times> clock_state) option" where
  "wait_status p [] st = (if cmem st p \<noteq> 0 then Some ([], st) else None)"
| "wait_status p (i # is) st = (if cmem st p \<noteq> 0 then Some (i # is, st) else wait_status p is (clock_isr i st))"

definition handle_1586 ::
  "u16 \<Rightarrow> u16 \<Rightarrow> clock_irq list \<Rightarrow> bregs \<Rightarrow> clock_state \<Rightarrow> (bregs \<times> clock_irq list \<times> clock_state) option" where
  "handle_1586 sseg soff irqs regs st =
     (let p = MAKE_FLATPTR sseg (ucast soff);
          st0 = st\<lparr>cmem := (cmem st)(p := 0)\<rparr>;
          count = push_bit 16 (ucast (cx regs)) OR ucast (dx regs);
          (ok, st1) = set_usertimer count sseg soff st0
      in if \<not> ok then Some (set_code_invalid_silent RET_ECLOCKINUSE regs, irqs, st1)
         else case wait_status p irqs st1 of
           None \<Rightarrow> None
         | Some (rest, st2) \<Rightarrow> Some (set_success regs, rest, st2))"

definition handle_158300 :: "bregs \<Rightarrow> clock_state \<Rightarrow> bregs \<times> clock_state" where
  "handle_158300 regs st =
     (let (ok, st1) = set_usertimer (push_bit 16 (ucast (cx regs)) OR ucast (dx regs)) (es regs) (bx regs) st
      in if \<not> ok then (set_code_invalid_silent RET_EUNSUPPORTED regs, st1) else (set_success regs, st1))"

definition handle_158301 :: "bregs \<Rightarrow> clock_state \<Rightarrow> bregs \<times> clock_state" where
  "handle_158301 regs st = (set_success regs, clear_usertimer st)"

definition handle_1583XX :: "bregs \<Rightarrow> clock_state \<Rightarrow> bregs \<times> clock_state" where
  "handle_1583XX regs st =
     (let r1 = set_code_invalid_silent RET_EUNSUPPORTED regs in (set_al (al r1 - 1) r1, st))"

definition handle_1583 :: "bregs \<Rightarrow> clock_state \<Rightarrow> bregs \<times> clock_state" where
  "handle_1583 regs st =
     (if al regs = 0 then handle_158300 regs st
      else if al regs = 1 then handle_158301 regs st
      else handle_1583XX regs st)"

end
