(* ===== verification/ClockProps.thy ===== *)
theory ClockProps
  imports Clock
begin

text \<open>
  What the clocks promise: the tick counter is the number of ticks of the day, a timer counted in ticks
  fires when its ticks are over, a wait ends after the interrupts its time takes, and a time that is set is the
  time that is read.
\<close>

section \<open>Fields of the BIOS data area\<close>

lemma bda_flat [simp]:
  "bda_at bda_floppy_motor_counter = 0x440" "bda_at bda_timer_counter = 0x46c" "bda_at bda_timer_rollover = 0x470"
  "bda_at bda_user_wait_complete_flag = 0x498" "bda_at bda_user_wait_timeout = 0x49c"
  "bda_at bda_rtc_wait_flag = 0x4a0"
  by (simp_all add: MAKE_FLATPTR_def SEG_BDA_def bda_floppy_motor_counter_def bda_timer_counter_def
      bda_timer_rollover_def bda_user_wait_complete_flag_def bda_user_wait_timeout_def bda_rtc_wait_flag_def)

abbreviation ticks_of :: "clock_state \<Rightarrow> u32" where "ticks_of st \<equiv> get_mem 4 0x46c (cmem st)"
abbreviation rollover_of :: "clock_state \<Rightarrow> u8" where "rollover_of st \<equiv> cmem st 0x470"

section \<open>The tick counter\<close>

lemma event_sel [simp]:
  "cmem (event e st) = cmem st" "rtc_regs (event e st) = rtc_regs st" "RTCusers (event e st) = RTCusers st"
  "Century (event e st) = Century st"
  by (simp_all add: event_def)

lemma floppy_tick_sel [simp]:
  "rtc_regs (floppy_tick st) = rtc_regs st" "RTCusers (floppy_tick st) = RTCusers st"
  by (simp_all add: floppy_tick_def Let_def floppy_dor_mask_def floppy_dor_write_def)

lemma floppy_tick_mem: "a \<noteq> 0x440 \<Longrightarrow> cmem (floppy_tick st) a = cmem st a"
  by (simp add: floppy_tick_def Let_def floppy_dor_mask_def floppy_dor_write_def)

lemma floppy_tick_get [simp]: "apart_at 0x440 1 q k \<Longrightarrow> get_mem k q (cmem (floppy_tick st)) = get_mem k q (cmem st)"
  by (simp add: floppy_tick_def Let_def floppy_dor_mask_def floppy_dor_write_def)

lemma clock_update_ticks:
  "ticks_of (clock_update st) = (if TICKS_PER_DAY \<le> ticks_of st + 1 then 0 else ticks_of st + 1)"
  "rollover_of (clock_update st) = (if TICKS_PER_DAY \<le> ticks_of st + 1 then rollover_of st + 1 else rollover_of st)"
  by (simp_all add: clock_update_def Let_def apart_at_def floppy_tick_mem split_beta)

lemma handle_08_cmem [simp]: "cmem (handle_08 st) = cmem (clock_update st)"
  by (simp add: handle_08_def)

lemma tick_step:
  assumes "unat (ticks_of st) < 1573040"
  shows "unat (ticks_of (handle_08 st)) = (unat (ticks_of st) + 1) mod 1573040"
    and "rollover_of (handle_08 st) = rollover_of st + of_nat ((unat (ticks_of st) + 1) div 1573040)"
proof -
  have u: "unat (ticks_of st + 1) = unat (ticks_of st) + 1" using assms by (simp add: unat_word_ariths)
  have le: "TICKS_PER_DAY \<le> ticks_of st + 1 \<longleftrightarrow> 1573040 \<le> unat (ticks_of st) + 1"
    by (simp add: word_le_nat_alt u TICKS_PER_DAY_def)
  show "unat (ticks_of (handle_08 st)) = (unat (ticks_of st) + 1) mod 1573040"
    using assms by (cases "unat (ticks_of st) + 1 = 1573040") (simp_all add: clock_update_ticks le u)
  show "rollover_of (handle_08 st) = rollover_of st + of_nat ((unat (ticks_of st) + 1) div 1573040)"
    using assms by (cases "unat (ticks_of st) + 1 = 1573040") (simp_all add: clock_update_ticks le)
qed

lemma div_step: "1 < p \<Longrightarrow> (x mod p + 1) div p + x div p = (x + 1) div (p :: nat)"
  using div_add1_eq [of x 1 p] by simp

lemma tick_counter_steps:
  assumes "unat (ticks_of st) < 1573040"
  shows "unat (ticks_of ((handle_08 ^^ n) st)) = (unat (ticks_of st) + n) mod 1573040 \<and>
         rollover_of ((handle_08 ^^ n) st) = rollover_of st + of_nat ((unat (ticks_of st) + n) div 1573040)"
proof (induction n)
  case 0
  then show ?case using assms by simp
next
  case (Suc n)
  define s where "s = (handle_08 ^^ n) st"
  define x where "x = unat (ticks_of st) + n"
  have IH: "unat (ticks_of s) = x mod 1573040" "rollover_of s = rollover_of st + of_nat (x div 1573040)"
    using Suc by (simp_all only: s_def x_def)
  have "unat (ticks_of s) < 1573040" unfolding IH(1) by simp
  note step = tick_step [OF this]
  have "(x mod 1573040 + 1) div 1573040 + x div 1573040 = (x + 1) div 1573040"
    by (rule div_step) simp
  then have "rollover_of (handle_08 s) = rollover_of st + of_nat ((x + 1) div 1573040)"
    unfolding step(2) IH
    by (simp only: add.assoc of_nat_add [symmetric] add.commute [of "x div 1573040"])
  moreover have "unat (ticks_of (handle_08 s)) = (x + 1) mod 1573040"
    unfolding step(1) IH by (rule mod_add_left_eq)
  moreover have "(handle_08 ^^ Suc n) st = handle_08 s" by (simp add: s_def)
  ultimately show ?case by (simp add: x_def)
qed

text \<open>
  The tick counter counts the ticks of the day: after any number of timer interrupts it has advanced by
that number modulo the ticks of a day, and the rollover count has advanced by the midnights passed.\<close>

theorem tick_counter_day:
  assumes "unat (ticks_of st) < 1573040"
  shows "unat (ticks_of ((handle_08 ^^ n) st)) = (unat (ticks_of st) + n) mod 1573040 \<and>
         rollover_of ((handle_08 ^^ n) st) = rollover_of st + of_nat ((unat (ticks_of st) + n) div 1573040)"
  using assms by (rule tick_counter_steps)

lemma clock_setup_ticks: "unat (ticks_of (clock_setup st)) < 1573040"
  by (simp add: clock_setup_def Let_def TICKS_PER_DAY_def unat_mod)

lemma modular_distance:
  fixes c d n p :: nat
  assumes "0 < d" "2 * d \<le> p" "2 * n < 2 * d + p"
  shows "2 * (((c + n) mod p + p - (c + d) mod p) mod p) < p \<longleftrightarrow> d \<le> n"
proof -
  define a b where "a = (c + n) mod p" and "b = (c + d) mod p"
  have p: "0 < p" using assms by linarith
  have ab: "a < p" "b < p" using p by (simp_all add: a_def b_def)
  show ?thesis
  proof (cases "d \<le> n")
    case True
    have "c + n = c + d - b + a + (if a < b then p else 0)"
      unfolding a_def b_def using True assms by (intro window_split) linarith+
    moreover have "b \<le> c + d" by (simp add: b_def)
    ultimately have "a + p - b = n - d \<or> a + p - b = p + (n - d)" using True ab by (auto split: if_splits)
    moreover have "n - d < p" using assms by linarith
    ultimately have "(a + p - b) mod p = n - d" by auto
    then show ?thesis using True assms by (simp add: a_def b_def)
  next
    case False
    have "c + d = c + n - a + b + (if b < a then p else 0)"
      unfolding a_def b_def using False assms by (intro window_split) linarith+
    moreover have "a \<le> c + n" by (simp add: a_def)
    ultimately have "a + p - b = p - (d - n) \<or> a + p - b = p + (p - (d - n))"
      using False ab by (auto split: if_splits)
    moreover have "p - (d - n) < p" using False p by linarith
    ultimately have "(a + p - b) mod p = p - (d - n)" by auto
    then show ?thesis using False assms by (simp add: a_def b_def)
  qed
qed

lemma irqtimer_after:
  assumes c: "unat (ticks_of st) < 1573040" and k: "unat count + 1 \<le> 786520" and n: "n < unat count + 1 + 786520"
  shows "irqtimer_check (irqtimer_calc_ticks count st) ((handle_08 ^^ n) st) \<longleftrightarrow> unat count < n"
proof -
  define c0 d where "c0 = unat (ticks_of st)" and "d = unat count + 1"
  define lim where lim_def: "lim = irqtimer_calc_ticks count st"
  define t where "t = ticks_of ((handle_08 ^^ n) st)"
  have t: "unat t = (c0 + n) mod 1573040"
    using tick_counter_steps [OF c] by (simp add: t_def c0_def)
  have "unat (ticks_of st + count + 1) = c0 + d" using c k by (simp add: unat_word_ariths c0_def d_def)
  then have lim: "unat lim = (c0 + d) mod 1573040"
    by (simp add: lim_def irqtimer_calc_ticks_def unat_mod TICKS_PER_DAY_def)
  have b: "unat t < 1573040" "unat lim < 1573040" by (simp_all add: t lim)
  have tp: "unat (t + TICKS_PER_DAY) = unat t + 1573040"
    using b by (simp add: unat_word_ariths TICKS_PER_DAY_def)
  then have "lim \<le> t + TICKS_PER_DAY" using b by (simp add: word_le_nat_alt)
  then have diff: "unat (t + TICKS_PER_DAY - lim) = unat t + 1573040 - unat lim"
    by (simp add: unat_sub tp)
  have "irqtimer_check lim ((handle_08 ^^ n) st) \<longleftrightarrow>
      2 * ((unat t + 1573040 - unat lim) mod 1573040) < 1573040"
    unfolding irqtimer_check_def bda_flat t_def [symmetric] word_less_nat_alt unat_mod diff
    by (simp add: TICKS_PER_DAY_def)
  also have "\<dots> \<longleftrightarrow> d \<le> n"
    unfolding t lim using k n by (intro modular_distance) (simp_all add: d_def)
  finally show ?thesis by (simp add: lim_def d_def Suc_le_eq)
qed

text \<open>
  A timer set for \<open>count\<close> full ticks fires exactly from the tick after them on, for as long as half a
day, also over midnight.\<close>

theorem irqtimer_fires:
  assumes c: "unat (ticks_of st) < 1573040" and k: "unat count + 1 \<le> 786520" and n: "n < unat count + 1 + 786520"
  shows "irqtimer_check (irqtimer_calc_ticks count st) ((handle_08 ^^ n) st) \<longleftrightarrow> unat count < n"
  using assms by (rule irqtimer_after)

section \<open>Waiting on the real time clock\<close>

abbreviation "wait_flag st \<equiv> cmem st 0x4a0"
abbreviation wait_left :: "clock_state \<Rightarrow> u32" where "wait_left st \<equiv> get_mem 4 0x49c (cmem st)"
abbreviation wait_ptr :: "clock_state \<Rightarrow> u32" where "wait_ptr st \<equiv> get_mem 4 0x498 (cmem st)"

text \<open>The state during a wait of \<open>handle_1586\<close> that has \<open>left\<close> microseconds to go: the status byte is
clear and lies outside the BIOS data area, and the clock interrupts periodically.\<close>

definition waiting :: "u32 \<Rightarrow> int \<Rightarrow> nat \<Rightarrow> clock_state \<Rightarrow> bool" where
  "waiting p u left st \<longleftrightarrow> cmem st p = 0 \<and> wait_flag st = RWS_WAIT_PENDING \<and> unat (wait_left st) = left \<and>
     SEGOFF_TO_FLATPTR (wait_ptr st) = p \<and> bit (rtc_regs st CMOS_STATUS_B) 6 \<and> RTCusers st = u"

definition outside_bda :: "u32 \<Rightarrow> bool" where
  "outside_bda p \<longleftrightarrow> p < 0x440 \<or> 0x4a0 < p"

text \<open>The interrupts that make a wait progress.\<close>

fun periodic :: "clock_irq \<Rightarrow> bool" where
  "periodic Irq0 = False"
| "periodic (Irq8 c) = bit c 6"

lemma and_pow_bit: "(w :: u8) AND 0x40 \<noteq> 0 \<longleftrightarrow> bit w 6" "(w :: u8) AND 0x40 = 0 \<longleftrightarrow> \<not> bit w 6"
  using and_exp_eq_0_iff_not_bit [of w 6] by simp_all

lemma pie_enabled: "bit (w :: u8) 6 \<Longrightarrow> w AND 96 \<noteq> 0"
proof
  assume "bit w 6" "w AND 96 = 0"
  moreover have "(w AND 96) AND 0x40 = w AND 0x40" by (simp add: and.assoc)
  ultimately show False using and_pow_bit [of w] by simp
qed

lemma outside_bda_far [simp]:
  assumes "outside_bda p"
  shows "p \<noteq> 0x440" "p \<noteq> 0x470" "p \<noteq> 0x4a0"
    "set_mem 4 0x49c (v :: u32) m p = m p" "set_mem 4 0x498 (v :: u32) m p = m p"
    "set_mem 4 0x46c (v :: u32) m p = m p"
proof -
  have far: "4 \<le> unat (p - a)" if "0x440 \<le> a" "a \<le> 0x49d" for a :: u32
    using assms that by (auto simp: outside_bda_def unat_sub_if' word_le_nat_alt word_less_nat_alt)
  show "p \<noteq> 0x440" "p \<noteq> 0x470" "p \<noteq> 0x4a0" using assms by (auto simp: outside_bda_def)
  show "set_mem 4 0x49c v m p = m p" "set_mem 4 0x498 v m p = m p" "set_mem 4 0x46c v m p = m p"
    using far by (simp_all add: set_mem_far)
qed

lemma clock_update_mem:
  "outside_bda p \<Longrightarrow> cmem (clock_update st) p = cmem st p"
  by (simp add: clock_update_def Let_def split_beta floppy_tick_mem)

lemma clock_update_wait [simp]:
  "wait_flag (clock_update st) = wait_flag st" "wait_left (clock_update st) = wait_left st"
  "wait_ptr (clock_update st) = wait_ptr st" "rtc_regs (clock_update st) = rtc_regs st"
  "RTCusers (clock_update st) = RTCusers st"
  by (simp_all add: clock_update_def Let_def split_beta floppy_tick_mem apart_at_def)

lemma waiting_other:
  assumes "waiting p u left st" "outside_bda p" "\<not> periodic i"
  shows "waiting p u left (clock_isr i st)"
  using assms
  by (cases i) (simp_all add: waiting_def clock_update_mem handle_08_def handle_70_def Let_def and_pow_bit RTC_B_PIE_def)

lemma waiting_periodic:
  assumes "waiting p u left st" "outside_bda p" "periodic i" "977 \<le> left"
  shows "waiting p u (left - 977) (clock_isr i st)"
proof -
  obtain c where i: "i = Irq8 c" using assms(3) by (cases i) auto
  have "\<not> wait_left st < USEC_PER_RTC" "unat (wait_left st - USEC_PER_RTC) = left - 977"
    using assms(1,4) by (simp_all add: waiting_def word_less_nat_alt USEC_PER_RTC_def unat_sub word_le_nat_alt)
  then show ?thesis using assms
    by (simp add: i waiting_def pie_enabled handle_70_def rtc_periodic_def Let_def and_pow_bit bit_simps RTC_B_PIE_def RTC_B_AIE_def
        RWS_WAIT_PENDING_def rtc_read_def CMOS_STATUS_B_def apart_at_def)
qed

lemma waiting_done:
  assumes "waiting p u left st" "outside_bda p" "periodic i" "left < 977"
  shows "cmem (clock_isr i st) p = 0x80 \<and> wait_flag (clock_isr i st) = 0 \<and> RTCusers (clock_isr i st) = u - 1"
proof -
  obtain c where i: "i = Irq8 c" using assms(3) by (cases i) auto
  have "wait_left st < USEC_PER_RTC"
    using assms(1,4) by (simp add: waiting_def word_less_nat_alt USEC_PER_RTC_def)
  then show ?thesis using assms
    by (simp add: i waiting_def pie_enabled handle_70_def rtc_periodic_def Let_def and_pow_bit bit_simps RTC_B_PIE_def RTC_B_AIE_def
        RWS_WAIT_PENDING_def rtc_read_def CMOS_STATUS_B_def clear_usertimer_def rtc_release_def rtc_mask_def rtc_write_def)
qed

lemma wait_status_end: "cmem st p \<noteq> 0 \<Longrightarrow> wait_status p is st = Some (is, st)"
  by (cases "is") simp_all

lemma wait_status_periodic:
  assumes "outside_bda p"
  shows "waiting p u left st \<Longrightarrow>
    (if left div 977 < length (filter periodic irqs)
     then \<exists>used rest st'. wait_status p irqs st = Some (rest, st') \<and> irqs = used @ rest \<and>
            length (filter periodic used) = left div 977 + 1 \<and> wait_flag st' = 0 \<and> RTCusers st' = u - 1
     else wait_status p irqs st = None)"
proof (induction irqs arbitrary: left st)
  case Nil
  then show ?case by (simp add: waiting_def)
next
  case (Cons i irqs)
  have clear: "cmem st p = 0" using Cons.prems by (simp add: waiting_def)
  consider (other) "\<not> periodic i" | (more) "periodic i" "977 \<le> left" | (over) "periodic i" "left < 977" by linarith
  then show ?case
  proof cases
    case other
    note w = waiting_other [OF Cons.prems assms other]
    show ?thesis
    proof (cases "left div 977 < length (filter periodic irqs)")
      case True
      then obtain used rest st' where "wait_status p irqs (clock_isr i st) = Some (rest, st')" "irqs = used @ rest"
          "length (filter periodic used) = left div 977 + 1" "wait_flag st' = 0" "RTCusers st' = u - 1"
        using Cons.IH [OF w] by auto
      then show ?thesis using True other clear
        by (auto intro!: exI [of _ "i # used"])
    next
      case False
      then show ?thesis using Cons.IH [OF w] other clear by simp
    qed
  next
    case more
    note w = waiting_periodic [OF Cons.prems assms more]
    have d: "left div 977 = (left - 977) div 977 + 1" using more(2) by (simp add: le_div_geq)
    show ?thesis
    proof (cases "(left - 977) div 977 < length (filter periodic irqs)")
      case True
      then obtain used rest st' where "wait_status p irqs (clock_isr i st) = Some (rest, st')" "irqs = used @ rest"
          "length (filter periodic used) = (left - 977) div 977 + 1" "wait_flag st' = 0" "RTCusers st' = u - 1"
        using Cons.IH [OF w] by auto
      then show ?thesis using True more clear d
        by (auto intro!: exI [of _ "i # used"])
    next
      case False
      then show ?thesis using Cons.IH [OF w] more clear d by simp
    qed
  next
    case over
    note w = waiting_done [OF Cons.prems assms over]
    then have "wait_status p (i # irqs) st = Some (irqs, clock_isr i st)" using clear
      by (simp add: wait_status_end)
    then show ?thesis using w over by (auto intro!: exI [of _ "[i]"])
  qed
qed

definition wait_usecs :: "bregs \<Rightarrow> u32" where
  "wait_usecs regs = push_bit 16 (ucast (cx regs)) OR ucast (dx regs)"

lemma low_mask: "(0xffff :: u32) = mask 16"
  by (simp add: mask_eq_exp_minus_1)

lemma flat_segoff: "SEGOFF_TO_FLATPTR (SEGOFF s off) = MAKE_FLATPTR s (ucast off)"
proof -
  have "ucast (drop_bit 16 (SEGOFF s off)) = s" "SEGOFF s off AND 0xffff = ucast off"
    by (rule bit_word_eqI; auto simp: SEGOFF_def bit_simps low_mask dest: bit_imp_le_length)+
  then show ?thesis by (simp add: SEGOFF_TO_FLATPTR_def)
qed

lemma wait_begins:
  assumes "outside_bda p" "p = MAKE_FLATPTR sseg (ucast soff)" "wait_flag st AND RWS_WAIT_PENDING = 0"
    and "RTCusers st = 0 \<or> bit (rtc_regs st CMOS_STATUS_B) 6"
  shows "\<exists>st1. set_usertimer usecs sseg soff (st\<lparr>cmem := (cmem st)(p := 0)\<rparr>) = (True, st1) \<and>
      waiting p (RTCusers st + 1) (unat usecs) st1"
  using assms(1,3,4)
  by (auto simp: set_usertimer_def rtc_use_def Let_def waiting_def flat_segoff assms(2) apart_at_def
        rtc_mask_def rtc_write_def rtc_read_def CMOS_STATUS_B_def RTC_B_PIE_def bit_simps)

text \<open>C21. A wait of some microseconds (interrupt 0x15, function 0x86) ends with the periodic interrupt that takes
the time below zero, one more than the whole periods of 977 microseconds in it, whatever other interrupts come
between; it leaves the wait flag clear and the users of the clock as they were. With fewer interrupts it
still waits.\<close>

theorem handle_1586_waits:
  assumes stack: "outside_bda (MAKE_FLATPTR sseg (ucast soff))" and idle: "wait_flag st AND RWS_WAIT_PENDING = 0"
    and users: "RTCusers st = 0 \<or> bit (rtc_regs st CMOS_STATUS_B) 6"
  shows "if unat (wait_usecs regs) div 977 < length (filter periodic irqs)
    then \<exists>used rest st'. handle_1586 sseg soff irqs regs st = Some (set_success regs, rest, st') \<and>
           irqs = used @ rest \<and> length (filter periodic used) = unat (wait_usecs regs) div 977 + 1 \<and>
           wait_flag st' = 0 \<and> RTCusers st' = RTCusers st
    else handle_1586 sseg soff irqs regs st = None"
proof -
  define p where "p = MAKE_FLATPTR sseg (ucast soff)"
  have p: "outside_bda p" using stack by (simp add: p_def)
  obtain st1 where st1: "set_usertimer (wait_usecs regs) sseg soff (st\<lparr>cmem := (cmem st)(p := 0)\<rparr>) = (True, st1)"
    and w: "waiting p (RTCusers st + 1) (unat (wait_usecs regs)) st1"
    using wait_begins [OF p p_def idle users] by blast
  have "handle_1586 sseg soff irqs regs st =
      (case wait_status p irqs st1 of None \<Rightarrow> None | Some (rest, st2) \<Rightarrow> Some (set_success regs, rest, st2))"
    using st1 by (simp add: handle_1586_def Let_def p_def wait_usecs_def)
  then show ?thesis using wait_status_periodic [OF p w, of irqs] by (auto split: if_splits)
qed

text \<open>While a wait is pending, a second one is refused with its own code and changes nothing but the status
byte of the refused caller; an interval request is refused without any change.\<close>

theorem wait_refused:
  assumes "outside_bda (MAKE_FLATPTR sseg (ucast soff))" "wait_flag st AND RWS_WAIT_PENDING \<noteq> 0" "al regs2 = 0"
  shows "handle_1586 sseg soff irqs regs st =
      Some (set_cf True (set_ah 0x83 regs), irqs, st\<lparr>cmem := (cmem st)(MAKE_FLATPTR sseg (ucast soff) := 0)\<rparr>) \<and>
    handle_1583 regs2 st = (set_cf True (set_ah 0x86 regs2), st)"
  using assms by (simp add: handle_1586_def handle_1583_def handle_158300_def set_usertimer_def Let_def
      set_code_invalid_silent_def RET_ECLOCKINUSE_def RET_EUNSUPPORTED_def)

section \<open>Time and date\<close>

lemma ticks_split: "(push_bit 16 (ucast c) OR ucast d :: u32) = SEGOFF c d"
  by (simp add: SEGOFF_def)

lemma segoff_parts: "ucast (drop_bit 16 (SEGOFF c d)) = c" "(ucast (SEGOFF c d) :: u16) = d"
  by (rule bit_word_eqI; auto simp: SEGOFF_def bit_simps dest: bit_imp_le_length)+

lemma dse_bits: "((b AND (RTC_B_PIE OR RTC_B_AIE)) OR RTC_B_24HR OR (d AND RTC_B_DSE)) AND RTC_B_DSE = d AND RTC_B_DSE"
  by (simp add: rtc_b_defs bit.conj_disj_distrib2 and.assoc)

text \<open>
  What interrupt 0x1a sets it also reads: the tick count, the time with its daylight saving flag, and the
date with its century, each with success and without the rollover flag.\<close>

theorem clock_set_read:
  assumes "ah q = 0x00" "ah s = 0x01" and "ah qt = 0x02" "ah s' = 0x03" and "ah qd = 0x04" "ah s'' = 0x05"
    and st1: "handle_1a tpm upd s st = (r1, st1)"
    and st2: "handle_1a tpm upd2 s' st = (r2, st2)"
    and st3: "handle_1a tpm False s'' st = (r3, st3)"
  shows "(let r = fst (handle_1a tpm False q st1) in cx r = cx s \<and> dx r = dx s \<and> al r = 0 \<and> \<not> carry r) \<and>
    (let r = fst (handle_1a tpm False qt st2) in
       ch r = ch s' \<and> cl r = cl s' \<and> dh r = dh s' \<and> dl r = dl s' AND RTC_B_DSE \<and> al r = ch s' \<and> \<not> carry r) \<and>
    (let r = fst (handle_1a tpm False qd st3) in
       ch r = ch s'' \<and> cl r = cl s'' \<and> dh r = dh s'' \<and> dl r = dl s'' \<and> al r = ch s'' \<and> \<not> carry r)"
proof (intro conjI)
  have "st1 = snd (handle_1a01 s st)" using st1 assms(2) by (simp add: handle_1a_def)
  then show "let r = fst (handle_1a tpm False q st1) in cx r = cx s \<and> dx r = dx s \<and> al r = 0 \<and> \<not> carry r"
    using assms(1) by (simp add: handle_1a_def handle_1a00_def handle_1a01_def Let_def ticks_split segoff_parts
        set_success_def apart_at_def)
  have "st2 = snd (handle_1a03 upd2 s' st)" using st2 assms(4) by (simp add: handle_1a_def)
  then show "let r = fst (handle_1a tpm False qt st2) in
      ch r = ch s' \<and> cl r = cl s' \<and> dh r = dh s' \<and> dl r = dl s' AND RTC_B_DSE \<and> al r = ch s' \<and> \<not> carry r"
    using assms(3) by (simp add: handle_1a_def handle_1a02_def handle_1a03_def Let_def set_success_def rtc_read_def rtc_write_def cmos_defs dse_bits)
  have "st3 = snd (handle_1a05 False s'' st)" using st3 assms(6) by (simp add: handle_1a_def)
  then show "let r = fst (handle_1a tpm False qd st3) in
       ch r = ch s'' \<and> cl r = cl s'' \<and> dh r = dh s'' \<and> dl r = dl s'' \<and> al r = ch s'' \<and> \<not> carry r"
    using assms(5) by (simp add: handle_1a_def handle_1a04_def handle_1a05_def Let_def set_success_def rtc_read_def rtc_write_def cmos_defs)
qed

section \<open>Concrete runs\<close>

text \<open>A machine with a tick count, its periodic clock interrupt disabled.\<close>

definition clock_at :: "u32 \<Rightarrow> clock_state" where
  "clock_at ticks = \<lparr>cmem = set_mem 4 0x46c ticks (\<lambda>_. 0), rtc_regs = (\<lambda>_. 0), Century = 0x20, RTCusers = 0,
     FloppyDOR = 0, cevents = []\<rparr>"

lemma clock_at_sel [simp]:
  "ticks_of (clock_at t) = t" "rollover_of (clock_at t) = 0" "wait_flag (clock_at t) = 0" "RTCusers (clock_at t) = 0"
  by (simp_all add: clock_at_def apart_at_def)

theorem tick_counter_day_witness:
  "unat (ticks_of ((handle_08 ^^ 3) (clock_at 1573038))) = 1 \<and> rollover_of ((handle_08 ^^ 3) (clock_at 1573038)) = 1"
  using tick_counter_day [of "clock_at 1573038" 3] by simp

theorem irqtimer_fires_witness:
  "\<not> irqtimer_check (irqtimer_calc_ticks 2 (clock_at 1573038)) ((handle_08 ^^ 2) (clock_at 1573038)) \<and>
   irqtimer_check (irqtimer_calc_ticks 2 (clock_at 1573038)) ((handle_08 ^^ 3) (clock_at 1573038))"
  using irqtimer_fires [of "clock_at 1573038" 2 2] irqtimer_fires [of "clock_at 1573038" 2 3] by simp

theorem handle_1586_waits_witness:
  "\<exists>used rest st'. handle_1586 0x2000 0x100 [Irq8 0x40, Irq0, Irq8 0xc0, Irq8 0x20, Irq8 0x40, Irq0]
       (bregs_zero\<lparr>edx := 2000\<rparr>) (clock_at 5) = Some (set_success (bregs_zero\<lparr>edx := 2000\<rparr>), rest, st') \<and>
     [Irq8 0x40, Irq0, Irq8 0xc0, Irq8 0x20, Irq8 0x40, Irq0] = used @ rest \<and>
     length (filter periodic used) = 3 \<and> wait_flag st' = 0 \<and> RTCusers st' = 0"
proof -
  have "wait_usecs (bregs_zero\<lparr>edx := 2000\<rparr>) = 2000"
    by (simp add: wait_usecs_def bregs_zero_def r16_def)
  then show ?thesis
    using handle_1586_waits [of "0x2000" "0x100" "clock_at 5" "bregs_zero\<lparr>edx := 2000\<rparr>"
        "[Irq8 0x40, Irq0, Irq8 0xc0, Irq8 0x20, Irq8 0x40, Irq0]"]
    by (simp add: outside_bda_def MAKE_FLATPTR_def bit_numeral_word_iff)
qed

definition clock_busy :: clock_state where
  "clock_busy = (clock_at 5)\<lparr>cmem := (cmem (clock_at 5))(0x4a0 := 1)\<rparr>"

theorem wait_refused_witness:
  "handle_1586 0x2000 0x100 [] bregs_zero clock_busy =
     Some (set_cf True (set_ah 0x83 bregs_zero), [], clock_busy\<lparr>cmem := (cmem clock_busy)(0x20100 := 0)\<rparr>) \<and>
   handle_1583 bregs_zero clock_busy = (set_cf True (set_ah 0x86 bregs_zero), clock_busy)"
  using wait_refused [of "0x2000" "0x100" clock_busy bregs_zero "[]" bregs_zero]
  by (simp add: outside_bda_def MAKE_FLATPTR_def clock_busy_def RWS_WAIT_PENDING_def bregs_zero_def rl_def)

theorem clock_set_read_witness:
  "(let st1 = snd (handle_1a id False (bregs_zero\<lparr>eax := 0x100, ecx := 7, edx := 9\<rparr>) (clock_at 5));
        r = fst (handle_1a id False bregs_zero st1)
    in cx r = 7 \<and> dx r = 9 \<and> al r = 0)"
  using clock_set_read [of bregs_zero "bregs_zero\<lparr>eax := 0x100, ecx := 7, edx := 9\<rparr>"
      "bregs_zero\<lparr>eax := 0x200\<rparr>" "bregs_zero\<lparr>eax := 0x300\<rparr>" "bregs_zero\<lparr>eax := 0x400\<rparr>" "bregs_zero\<lparr>eax := 0x500\<rparr>"
      id False "clock_at 5" "fst (handle_1a id False (bregs_zero\<lparr>eax := 0x100, ecx := 7, edx := 9\<rparr>) (clock_at 5))"
      "snd (handle_1a id False (bregs_zero\<lparr>eax := 0x100, ecx := 7, edx := 9\<rparr>) (clock_at 5))" False
      "fst (handle_1a id False (bregs_zero\<lparr>eax := 0x300\<rparr>) (clock_at 5))"
      "snd (handle_1a id False (bregs_zero\<lparr>eax := 0x300\<rparr>) (clock_at 5))"
      "fst (handle_1a id False (bregs_zero\<lparr>eax := 0x500\<rparr>) (clock_at 5))"
      "snd (handle_1a id False (bregs_zero\<lparr>eax := 0x500\<rparr>) (clock_at 5))"]
  by (simp add: bregs_zero_def rh_def r16_def Let_def)

end
