(* ===== verification/Pmm.thy ===== *)
theory Pmm
  imports MallocProps FarMem
begin

text \<open>
  The post memory manager of \<open>src/pmm.c\<close>: the services by which option roms allocate, find and free memory of
  the internal allocator (\<open>Malloc\<close>), and the header in memory that announces them. The memory of the allocator
  is its model's state; the header is in byte memory. Whatever the arguments are, the allocator stays
  well-formed; a block is aligned, overlaps nothing, is found by its handle and can be freed; a permanent
  block outside the permanent zones is withdrawn from the memory map of the operating system.
\<close>

section \<open>The code\<close>

definition PMM_FUNCTION_NOT_SUPPORTED :: u32 where "PMM_FUNCTION_NOT_SUPPORTED = 0xffffffff"

text \<open>The 16-bit arguments on the caller's stack, and two of them read as 32 bits.\<close>

type_synonym pmm_args = "nat \<Rightarrow> u16"

definition arg32 :: "pmm_args \<Rightarrow> nat \<Rightarrow> u32" where
  "arg32 args i = ucast (args i) OR push_bit 16 (ucast (args (i + 1)))"

definition ffs32 :: "u32 \<Rightarrow> nat" where
  "ffs32 w = length (takeWhile (\<lambda>i. \<not> bit w i) [0..<32])"

definition pmm_zones :: "u16 \<Rightarrow> zone_id \<times> zone_id" where
  "pmm_zones fl = (if fl AND 8 \<noteq> 0 then (ZoneLow, ZoneHigh) else (ZoneTmpLow, ZoneTmpHigh))"

definition pmm_space :: "u16 \<Rightarrow> mstate \<Rightarrow> u32" where
  "pmm_space fl st =
     (let (lowzone, highzone) = pmm_zones fl; mode = fl AND 3
      in if mode = 1 then malloc_getspace lowzone st
         else if mode = 2 then malloc_getspace highzone st
         else if mode = 3 then
           let spacelow = malloc_getspace lowzone st; spacehigh = malloc_getspace highzone st
           in if spacelow > spacehigh then spacelow else spacehigh
         else 0)"

definition pmm_align :: "u16 \<Rightarrow> u32 \<Rightarrow> u32" where
  "pmm_align fl sz =
     (if fl AND 4 \<noteq> 0 then
        let align = push_bit (ffs32 sz) 1 in if align < MALLOC_MIN_ALIGN then MALLOC_MIN_ALIGN else align
      else MALLOC_MIN_ALIGN)"

definition pmm_alloc :: "u16 \<Rightarrow> u32 \<Rightarrow> u32 \<Rightarrow> mstate \<Rightarrow> mstate \<times> u32" where
  "pmm_alloc fl sz align st =
     (let (lowzone, highzone) = pmm_zones fl; mode = fl AND 3
      in if mode = 1 then malloc_palloc lowzone sz align st
         else if mode = 2 then
           let (st1, data) = malloc_palloc highzone sz align st
           in if data = 0 \<and> fl AND 8 \<noteq> 0 then
                let (st2, data2) = malloc_palloc ZoneTmpHigh sz align st1
                in if data2 \<noteq> 0 then (e820_update (e820_add (ucast data2) (ucast sz) E820_RESERVED) st2, data2)
                   else (st2, data2)
              else (st1, data)
         else if mode = 3 then
           let (st1, data) = malloc_palloc lowzone sz align st
           in if data = 0 then malloc_palloc highzone sz align st1 else (st1, data)
         else (st, 0))"

definition handle_pmm00 :: "pmm_args \<Rightarrow> mstate \<Rightarrow> mstate \<times> u32" where
  "handle_pmm00 args st =
     (let len = arg32 args 1; hnd = arg32 args 3; fl = args 5
      in if len = 0 then (st, pmm_space fl st)
         else
           let sz = len * 16
           in if sint sz \<le> 0 then (st, 0)
              else
                let (st1, data) = pmm_alloc fl sz (pmm_align fl sz) st
                in if data \<noteq> 0 \<and> hnd \<noteq> MALLOC_DEFAULT_HANDLE then (malloc_sethandle data hnd st1, data)
                   else (st1, data))"

definition handle_pmm01 :: "pmm_args \<Rightarrow> mstate \<Rightarrow> u32" where
  "handle_pmm01 args st =
     (let hnd = arg32 args 1
      in if hnd = MALLOC_DEFAULT_HANDLE then 0 else malloc_findhandle hnd st)"

definition handle_pmm02 :: "pmm_args \<Rightarrow> mstate \<Rightarrow> mstate \<times> u32" where
  "handle_pmm02 args st =
     (let (st1, ret) = malloc_pfree (arg32 args 1) st in (st1, if ret \<noteq> 0 then 1 else 0))"

definition handle_pmmXX :: "u32" where
  "handle_pmmXX = PMM_FUNCTION_NOT_SUPPORTED"

definition handle_pmm :: "pmm_args \<Rightarrow> mstate \<Rightarrow> mstate \<times> u32" where
  "handle_pmm args st =
     (let arg1 = args 0
      in if arg1 = 0 then handle_pmm00 args st
         else if arg1 = 1 then (st, handle_pmm01 args st)
         else if arg1 = 2 then handle_pmm02 args st
         else (st, handle_pmmXX))"

text \<open>The header that option roms look for, at address \<open>p\<close>: signature, version, length, checksum, entry point.\<close>

definition PMM_SIGNATURE :: u32 where "PMM_SIGNATURE = 0x4d4d5024"

definition pmmheader :: "u8 list" where
  "pmmheader = le_bytes 4 PMM_SIGNATURE @ [1, 16, 0] @ le_bytes 4 (0 :: u32) @ replicate 5 0"

definition pmm_init :: "u32 \<Rightarrow> u32 \<Rightarrow> mem \<Rightarrow> mem" where
  "pmm_init p entry_pmm m =
     (let m1 = set_mem 4 (p + 7) entry_pmm m in m1(p + 6 := m1 (p + 6) - checksum m1 p 16))"

definition pmm_prepboot :: "u32 \<Rightarrow> mem \<Rightarrow> mem" where
  "pmm_prepboot p m = set_mem 4 (p + 7) (0 :: u32) (set_mem 4 p (0 :: u32) m)"

section \<open>Trying zones in turn\<close>

text \<open>What the services rely on in an allocator with zones, and what follows for a request that is tried in
several zones one after the other.\<close>

fun try_zones :: "('z \<Rightarrow> 's \<Rightarrow> 's \<times> u32) \<Rightarrow> 'z list \<Rightarrow> 's \<Rightarrow> 's \<times> u32" where
  "try_zones f [] st = (st, 0)"
| "try_zones f (z # zs) st = (let (st1, data) = f z st in if data = 0 then try_zones f zs st1 else (st1, data))"

locale zone_allocator =
  fixes palloc :: "'r \<Rightarrow> 'z \<Rightarrow> 's \<Rightarrow> 's \<times> u32"
    and good :: "'r \<Rightarrow> bool"
    and inv :: "'s \<Rightarrow> bool"
    and same :: "'s \<Rightarrow> 's \<Rightarrow> bool"
    and block :: "'r \<Rightarrow> 's \<Rightarrow> u32 \<Rightarrow> 's \<Rightarrow> bool"
  assumes keeps: "good r \<Longrightarrow> inv st \<Longrightarrow> palloc r z st = (st', data) \<Longrightarrow> inv st'"
    and fails: "good r \<Longrightarrow> inv st \<Longrightarrow> palloc r z st = (st', 0) \<Longrightarrow> same st st'"
    and gives: "good r \<Longrightarrow> inv st \<Longrightarrow> palloc r z st = (st', data) \<Longrightarrow> data \<noteq> 0 \<Longrightarrow> block r st data st'"
    and same_refl: "same st st"
    and same_same: "same st st1 \<Longrightarrow> same st1 st2 \<Longrightarrow> same st st2"
    and same_block: "same st st1 \<Longrightarrow> block r st1 data st2 \<Longrightarrow> block r st data st2"
begin

lemma try_ok:
  assumes "good r"
  shows "inv st \<Longrightarrow> try_zones (palloc r) zs st = (st', data) \<Longrightarrow>
    inv st' \<and> (if data = 0 then same st st' else block r st data st')"
proof (induction zs arbitrary: st)
  case Nil
  then show ?case by (auto simp: same_refl)
next
  case (Cons z zs)
  obtain st1 d where p: "palloc r z st = (st1, d)" by fastforce
  show ?case
  proof (cases "d = 0")
    case True
    then have s: "same st st1" using fails [OF assms Cons.prems(1)] p by simp
    have "inv st1" using keeps [OF assms Cons.prems(1) p] .
    moreover have "try_zones (palloc r) zs st1 = (st', data)" using Cons.prems(2) True by (simp add: p)
    ultimately have "inv st' \<and> (if data = 0 then same st1 st' else block r st1 data st')" by (rule Cons.IH)
    then show ?thesis using same_same [OF s] same_block [OF s] by (auto split: if_splits)
  next
    case False
    then have "st' = st1" "data = d" using Cons.prems(2) by (simp_all add: p)
    then show ?thesis using keeps [OF assms Cons.prems(1) p] gives [OF assms Cons.prems(1) p False] False by simp
  qed
qed

end

section \<open>The allocator provides the contract\<close>

definition fresh_handle :: "u32 \<Rightarrow> mstate \<Rightarrow> bool" where
  "fresh_handle h st \<longleftrightarrow> (\<forall>d. DetailOf d \<in> nodes_of st \<longrightarrow> handles st d \<noteq> h)"

text \<open>A block handed out from the state \<open>st\<close>: aligned, clear of every allocation, tracked, with no handle
set, and freed without a trace.\<close>

definition new_block :: "u32 \<Rightarrow> u32 \<Rightarrow> mstate \<Rightarrow> u32 \<Rightarrow> mstate \<Rightarrow> bool" where
  "new_block sz align st data st' \<longleftrightarrow> unat align dvd unat data \<and> unat data + unat sz < 2 ^ 32 \<and>
    (\<forall>z. \<forall>x \<in> set (zones st z). unat data + unat sz \<le> unat (range_start x) \<or>
       unat (range_start x) + unat (alloc_size x) \<le> unat data) \<and>
    (\<exists>n. alloc_find data st' = Some n \<and> \<not> not_tracked data n) \<and>
    (\<forall>h. h \<noteq> MALLOC_DEFAULT_HANDLE \<longrightarrow> fresh_handle h st \<longrightarrow> fresh_handle h st') \<and>
    snd (malloc_pfree data st') = 0 \<and> zones (fst (malloc_pfree data st')) = zones st"

definition same_blocks :: "mstate \<Rightarrow> mstate \<Rightarrow> bool" where
  "same_blocks st st' \<longleftrightarrow> zones st' = zones st \<and> handles st' = handles st \<and> m_e820 st' = m_e820 st"

lemma palloc_e820: "m_e820 (fst (malloc_palloc z sz align st)) = m_e820 st"
  using alloc_in_e820 alloc_new_detail_e820
  by (simp add: malloc_palloc_def split_beta Let_def)

lemma palloc_fail_handles:
  "snd (malloc_palloc z sz align st) = 0 \<Longrightarrow> handles (fst (malloc_palloc z sz align st)) = handles st"
  by (auto simp: malloc_palloc_def alloc_new_detail_def alloc_in_def split_beta Let_def map_zones_def set_zone_def
      split: if_splits)

lemma palloc_fresh:
  assumes "malloc_palloc z sz align st = (st', data)" "mstate_ok st" "good_request sz align" "data \<noteq> 0"
    and "h \<noteq> MALLOC_DEFAULT_HANDLE" "fresh_handle h st"
  shows "fresh_handle h st'"
  using assms(1-3)
proof (cases rule: palloc_cases)
  case fail
  with assms(4) show ?thesis by simp
next
  case (ok st1 st2 z2 d)
  have h: "handles st' = (handles st)(d := MALLOC_DEFAULT_HANDLE)"
    using ok(2,8,14) by (auto simp: alloc_in_def install_detail_def map_zones_def set_zone_def split: prod.splits)
  have "DetailOf e \<in> nodes_of st' \<Longrightarrow> e = d \<or> DetailOf e \<in> nodes_of st" for e
    by (simp only: install_detail_nodes ren_ref_image ok(14)) (auto simp: ok(11))
  then show ?thesis using assms(5,6) by (auto simp: fresh_handle_def h)
qed

lemma palloc_new_block:
  assumes e: "malloc_palloc z sz align st = (st', a)" and ok: "mstate_ok st" and req: "good_request sz align" and a: "a \<noteq> 0"
  shows "new_block sz align st a st'"
proof -
  note b = palloc_block [OF e ok req a] and f = palloc_pfree [OF e ok req a]
  obtain n d where n: "alloc_find a st' = Some n" "node n = DataOf d" "alloc_size n = sz" "a \<noteq> virt_to_phys (DataOf d)"
    using palloc_result [OF e ok req a] by metis
  then have t: "\<not> not_tracked a n" using req by (simp add: not_tracked_def good_request_def)
  obtain i :: allocinfo_s where "unat a + unat sz \<le> unat (range_end i)" using b by blast
  then have "unat a + unat sz < 2 ^ 32" using unat_u32_bound [of "range_end i"] by simp
  then show ?thesis
    unfolding new_block_def using b f n(1) t palloc_fresh [OF e ok req a] by blast
qed

lemma new_block_same: "same_blocks st st1 \<Longrightarrow> new_block sz align st1 data st2 \<Longrightarrow> new_block sz align st data st2"
  by (simp add: same_blocks_def new_block_def fresh_handle_def nodes_of_def)

lemma palloc_fail_same:
  assumes e: "malloc_palloc z sz align st = (st', 0)" and ok: "mstate_ok st" and req: "good_request sz align"
  shows "same_blocks st st'"
proof -
  have "zones st' = zones st" using palloc_cases [OF e ok req] by metis
  then show ?thesis using palloc_fail_handles [of z sz align st] palloc_e820 [of z sz align st] e
    by (simp add: same_blocks_def)
qed

abbreviation "palloc_pair r z st \<equiv> malloc_palloc z (fst r) (snd r) st"

interpretation mz: zone_allocator palloc_pair "\<lambda>r. good_request (fst r) (snd r)" mstate_ok same_blocks
    "\<lambda>r. new_block (fst r) (snd r)"
proof
  show "same_blocks st st" for st by (simp add: same_blocks_def)
  show "same_blocks st st1 \<Longrightarrow> same_blocks st1 st2 \<Longrightarrow> same_blocks st st2" for st st1 st2
    by (simp add: same_blocks_def)
qed (blast intro: palloc_ok palloc_new_block palloc_fail_same new_block_same)+

section \<open>Requests\<close>

lemma ffs32_bit:
  assumes "w \<noteq> 0"
  shows "ffs32 w < 32 \<and> bit w (ffs32 w) \<and> (\<forall>i < ffs32 w. \<not> bit w i)"
proof -
  let ?t = "takeWhile (\<lambda>i. \<not> bit w i) [0..<32]"
  have "\<exists>i < 32. bit w i" using assms bit_word_eqI [of w 0] by auto
  then have "?t \<noteq> [0..<32]" by (auto simp: takeWhile_eq_all_conv)
  then have len: "length ?t < length ([0..<32] :: nat list)"
    by (metis length_takeWhile_le order_le_neq_trans takeWhile_eq_take take_all_iff order_refl)
  have "\<not> \<not> bit w ([0..<32] ! length ?t)" by (rule nth_length_takeWhile [OF len])
  moreover have "\<not> bit w ([0..<32] ! i)" if "i < length ?t" for i
    using set_takeWhileD [OF nth_mem [OF that]] takeWhile_nth [OF that] by simp
  ultimately show ?thesis using len by (simp add: ffs32_def)
qed

lemma ffs32_dvd:
  assumes "w \<noteq> 0"
  shows "(2 :: nat) ^ ffs32 w dvd unat w"
proof -
  have "take_bit (ffs32 w) w = 0"
    using ffs32_bit [OF assms] by (intro bit_word_eqI) (auto simp: bit_simps)
  then have "take_bit (ffs32 w) (unat w) = 0" by (metis unsigned_0 unsigned_take_bit_eq)
  then show ?thesis by (simp add: take_bit_eq_0_iff)
qed

lemma sint_pos_less:
  assumes "sint (w :: u32) > 0"
  shows "unat w < 2 ^ 31"
proof -
  have "\<not> bit w 31" using assms bit_last_iff [of w] by simp
  then have "bit (take_bit 31 w) n = bit w n" if "n < 32" for n
    using that less_Suc_eq [of n 31] by (auto simp: bit_simps)
  then have "take_bit 31 w = w" by (intro bit_word_eqI) simp
  then have "unat w = take_bit 31 (unat w)" by (metis unsigned_take_bit_eq)
  then show ?thesis using take_bit_nat_less_exp [of 31 "unat w"] by linarith
qed

lemma pmm_align:
  assumes "sint sz > 0"
  shows "good_request sz (pmm_align fl sz) \<and> 16 dvd unat (pmm_align fl sz) \<and>
    (fl AND 4 \<noteq> 0 \<longrightarrow> 2 ^ ffs32 sz dvd unat (pmm_align fl sz))"
proof -
  have nz: "sz \<noteq> 0" using assms by auto
  note small = sint_pos_less [OF assms]
  define k where "k = ffs32 sz"
  have "k < 32" "2 ^ k dvd unat sz" using ffs32_bit [OF nz] ffs32_dvd [OF nz] by (auto simp: k_def)
  moreover have "0 < unat sz" using nz by (simp add: unat_gt_0)
  ultimately have "2 ^ k \<le> unat sz" by (intro dvd_imp_le)
  then have "2 ^ k < (2 ^ 31 :: nat)" using small by linarith
  then have k: "k < 31" by (rule power_less_imp_less_exp [rotated]) simp
  have al: "push_bit (ffs32 sz) (1 :: u32) = 2 ^ k" by (simp add: push_bit_eq_mult k_def)
  have lt: "(2 ^ k :: u32) < 2 ^ 4 \<longleftrightarrow> k < 4" 
    using k power_strict_increasing_iff [of "2 :: nat" k 4] by (simp add: word_less_nat_alt unat_pow2)
  obtain j where j: "pmm_align fl sz = 2 ^ j" "4 \<le> j" "j < 31" "fl AND 4 \<noteq> 0 \<Longrightarrow> k \<le> j"
  proof (cases "fl AND 4 \<noteq> 0 \<and> 4 \<le> k")
    case True
    then show ?thesis using al lt k by (intro that [of k]) (auto simp: pmm_align_def Let_def MALLOC_MIN_ALIGN_def)
  next
    case False
    then show ?thesis using al lt k by (intro that [of 4]) (auto simp: pmm_align_def Let_def MALLOC_MIN_ALIGN_def)
  qed
  have u: "unat (pmm_align fl sz) = 2 ^ j" unfolding j(1) using j(3) by (simp add: unat_pow2)
  have "(2 :: nat) ^ j \<le> 2 ^ 31" using j(3) by (intro power_increasing) auto
  then have "good_request sz (pmm_align fl sz)"
    using small nz j(3) u unfolding good_request_def pow2_def j(1) by (auto intro!: exI [of _ j])
  moreover have "(16 :: nat) dvd 2 ^ j" using le_imp_power_dvd [OF j(2), of "2 :: nat"] by simp
  moreover have "fl AND 4 \<noteq> 0 \<Longrightarrow> (2 :: nat) ^ k dvd 2 ^ j" by (rule le_imp_power_dvd) (rule j(4))
  ultimately show ?thesis by (simp add: u k_def)
qed

text \<open>Without the last resort in the temporary zone, an allocation tries its zones in turn.\<close>

definition pmm_tries :: "u16 \<Rightarrow> zone_id list" where
  "pmm_tries fl = (let (lowzone, highzone) = pmm_zones fl; mode = fl AND 3
     in if mode = 1 then [lowzone] else if mode = 2 then [highzone] @ (if fl AND 8 \<noteq> 0 then [ZoneTmpHigh] else [])
        else if mode = 3 then [lowzone, highzone] else [])"

lemma pmm_alloc_tries:
  "pmm_alloc fl sz align st =
    (let (st1, data) = try_zones (palloc_pair (sz, align)) (pmm_tries fl) st
     in (if data \<noteq> 0 \<and> fl AND 3 = 2 \<and> fl AND 8 \<noteq> 0 \<and> snd (malloc_palloc ZoneHigh sz align st) = 0
         then e820_update (e820_add (ucast data) (ucast sz) E820_RESERVED) st1 else st1, data))"
proof -
  consider "fl AND 3 = 1" | "fl AND 3 = 2" | "fl AND 3 = 3" | "fl AND 3 \<noteq> 1" "fl AND 3 \<noteq> 2" "fl AND 3 \<noteq> 3" by blast
  then show ?thesis
  proof cases
    case 2
    show ?thesis
      by (cases "fl AND 8 = 0"; cases "malloc_palloc ZoneHigh sz align st"; cases "malloc_palloc ZoneTmpHigh sz align st")
        (simp_all add: pmm_alloc_def pmm_tries_def pmm_zones_def 2 split_beta)
  qed (simp_all add: pmm_alloc_def pmm_tries_def pmm_zones_def split_beta prod_eq_iff)
qed

lemma zones_only:
  assumes "zones st2 = zones st1"
  shows "alloc_find data st2 = alloc_find data st1" "mstate_ok st2 \<longleftrightarrow> mstate_ok st1"
    "snd (malloc_pfree data st2) = snd (malloc_pfree data st1)"
    "zones (fst (malloc_pfree data st2)) = zones (fst (malloc_pfree data st1))"
  using assms
  by (simp_all add: alloc_find_def all_infos_def mstate_ok_def zones_ok_def details_ok_def settled_def nodes_of_def
      malloc_pfree_def map_zones_def split: option.split)

lemma sethandle_zones [simp]:
  "zones (malloc_sethandle data h st) = zones st" "m_e820 (malloc_sethandle data h st) = m_e820 st"
  by (simp_all add: malloc_sethandle_def split: option.split)

lemma new_block_e820: "new_block sz align st data st1 \<Longrightarrow> new_block sz align st data (e820_update f st1)"
  unfolding new_block_def
  by (simp add: zones_only [of "e820_update f st1" st1] fresh_handle_def nodes_of_def) (simp add: e820_update_def)

lemma try_e820: "m_e820 (fst (try_zones (palloc_pair r) zs st)) = m_e820 st"
  by (induction zs arbitrary: st) (simp_all add: split_beta palloc_e820)

abbreviation "pmm_size args \<equiv> arg32 args 1 * 16"
abbreviation "pmm_handle args \<equiv> arg32 args 3"
abbreviation pmm_flags :: "pmm_args \<Rightarrow> u16" where "pmm_flags args \<equiv> args 5"

text \<open>Whether a permanent request for high memory was served from the temporary zone.\<close>

definition last_resort :: "pmm_args \<Rightarrow> mstate \<Rightarrow> bool" where
  "last_resort args st \<longleftrightarrow> pmm_flags args AND 3 = 2 \<and> pmm_flags args AND 8 \<noteq> 0 \<and>
     snd (malloc_palloc ZoneHigh (pmm_size args) (pmm_align (pmm_flags args) (pmm_size args)) st) = 0"

lemma pmm00_cases:
  assumes ok: "mstate_ok st" and len: "arg32 args 1 \<noteq> 0" and call: "handle_pmm00 args st = (st', data)"
  obtains (none) "data = 0" "mstate_ok st'" "zones st' = zones st" "m_e820 st' = m_e820 st"
    | (some) st1 where "data \<noteq> 0" "sint (pmm_size args) > 0" "mstate_ok st1"
        "new_block (pmm_size args) (pmm_align (pmm_flags args) (pmm_size args)) st data st1"
        "st' = (if pmm_handle args \<noteq> MALLOC_DEFAULT_HANDLE then malloc_sethandle data (pmm_handle args) st1 else st1)"
        "m_e820 st1 = (if last_resort args st
           then e820_add (ucast data) (ucast (pmm_size args)) E820_RESERVED (m_e820 st) else m_e820 st)"
proof (cases "sint (pmm_size args) \<le> 0")
  case True
  then show ?thesis using call ok len by (intro none) (auto simp: handle_pmm00_def Let_def)
next
  case False
  define al where "al = pmm_align (pmm_flags args) (pmm_size args)"
  have req: "good_request (pmm_size args) al" using pmm_align False by (simp add: al_def)
  obtain st1 d where t: "try_zones (palloc_pair (pmm_size args, al)) (pmm_tries (pmm_flags args)) st = (st1, d)"
    by fastforce
  have r: "mstate_ok st1 \<and> (if d = 0 then same_blocks st st1 else new_block (pmm_size args) al st d st1)"
    using mz.try_ok [OF _ ok t] req by (auto split: if_splits)
  define st2 where "st2 = (if d \<noteq> 0 \<and> last_resort args st
      then e820_update (e820_add (ucast d) (ucast (pmm_size args)) E820_RESERVED) st1 else st1)"
  have "pmm_alloc (pmm_flags args) (pmm_size args) al st = (st2, d)"
    unfolding pmm_alloc_tries t by (simp add: st2_def last_resort_def al_def)
  then have res: "data = d" "st' = (if d \<noteq> 0 \<and> pmm_handle args \<noteq> MALLOC_DEFAULT_HANDLE
      then malloc_sethandle d (pmm_handle args) st2 else st2)"
    using call len False by (auto simp: handle_pmm00_def Let_def al_def split: if_splits)
  have e: "m_e820 st1 = m_e820 st" using try_e820 t by (metis fst_conv)
  show ?thesis
  proof (cases "d = 0")
    case True
    then show ?thesis using r e res by (intro none) (simp_all add: st2_def same_blocks_def)
  next
    case d: False
    have "mstate_ok st2" using r zones_only(2) [of st2 st1] by (simp add: st2_def)
    moreover have "new_block (pmm_size args) al st d st2" using r d by (simp add: st2_def new_block_e820)
    ultimately show ?thesis using d res False e by (intro some [of st2]) (simp_all add: st2_def al_def)
  qed
qed

text \<open>C22. Any call of the post memory manager, whatever its function and arguments, keeps the allocator
well-formed, and one that hands out or frees nothing leaves every zone as it was.\<close>

theorem handle_pmm_ok:
  assumes "mstate_ok st" "handle_pmm args st = (st', ret)"
  shows "mstate_ok st' \<and>
    (zones st' = zones st \<or> args 0 = 0 \<and> arg32 args 1 \<noteq> 0 \<and> ret \<noteq> 0 \<or> args 0 = 2 \<and> ret = 0)"
proof -
  consider "args 0 = 0" | "args 0 = 2" | "args 0 \<noteq> 0" "args 0 \<noteq> 2" by blast
  then show ?thesis
  proof cases
    case 1
    show ?thesis
    proof (cases "arg32 args 1 = 0")
      case True
      then show ?thesis using assms 1 by (auto simp: handle_pmm_def handle_pmm00_def)
    next
      case False
      have "handle_pmm00 args st = (st', ret)" using assms(2) 1 by (simp add: handle_pmm_def)
      from assms(1) False this show ?thesis
      proof (cases rule: pmm00_cases)
        case none
        then show ?thesis by simp
      next
        case (some st1)
        then have "mstate_ok st'" using zones_only(2) [of st' st1] by simp
        then show ?thesis using 1 False some(1) by simp
      qed
    qed
  next
    case 2
    then show ?thesis
      using assms(2) pfree_ok [OF assms(1), of "arg32 args 1"]
      by (auto simp: handle_pmm_def handle_pmm02_def malloc_pfree_def split_beta split: option.splits if_splits)
  next
    case 3
    then show ?thesis using assms by (auto simp: handle_pmm_def Let_def split: if_splits)
  qed
qed

text \<open>C23. A block that the post memory manager allocates is aligned to 16 bytes, and to the largest power of two that
divides its size when that is asked for; it does not wrap and overlaps no allocation of any zone; handing it to the
deallocation service succeeds and gives back every zone as it was.\<close>

theorem pmm_block:
  assumes "mstate_ok st" "args 0 = 0" "arg32 args 1 \<noteq> 0" "handle_pmm args st = (st', data)" "data \<noteq> 0"
    and "args' 0 = 2" "arg32 args' 1 = data"
  shows "16 dvd unat data \<and> (args 5 AND 4 \<noteq> 0 \<longrightarrow> 2 ^ ffs32 (pmm_size args) dvd unat data) \<and>
    unat data + unat (pmm_size args) < 2 ^ 32 \<and>
    (\<forall>z. \<forall>x \<in> set (zones st z). unat data + unat (pmm_size args) \<le> unat (range_start x) \<or>
       unat (range_start x) + unat (alloc_size x) \<le> unat data) \<and>
    snd (handle_pmm args' st') = 0 \<and> zones (fst (handle_pmm args' st')) = zones st"
proof -
  have "handle_pmm00 args st = (st', data)" using assms(2,4) by (simp add: handle_pmm_def)
  from assms(1,3) this show ?thesis
  proof (cases rule: pmm00_cases)
    case none
    then show ?thesis using assms(5) by simp
  next
    case (some st1)
    note al = pmm_align [OF some(2), of "pmm_flags args"]
    have z: "zones st' = zones st1" using some(5) by simp
    have "handle_pmm args' st' = (fst (malloc_pfree data st'), if snd (malloc_pfree data st') \<noteq> 0 then 1 else 0)"
      using assms(6,7) by (simp add: handle_pmm_def handle_pmm02_def split_beta)
    then show ?thesis
      using some(4) al dvd_trans by (auto simp: new_block_def zones_only [OF z])
  qed
qed

text \<open>
  A permanent block of high memory that had to be taken from the temporary zone is withdrawn from the memory
map: its addresses become reserved and no other address changes type; every other allocation leaves the map alone.\<close>

theorem pmm_reserves:
  assumes "mstate_ok st" "arg32 args 1 \<noteq> 0" "handle_pmm00 args st = (st', data)" "data \<noteq> 0"
    and "e820_wf (m_e820 st)" "length (m_e820 st) + 2 \<le> BUILD_MAX_E820"
  shows "e820_type_at (m_e820 st') a =
    (if last_resort args st \<and> ucast data \<le> a \<and> a < ucast data + ucast (pmm_size args) then Some E820_RESERVED
     else e820_type_at (m_e820 st) a)"
  using assms(1-3)
proof (cases rule: pmm00_cases)
  case none
  then show ?thesis using assms(4) by simp
next
  case (some st1)
  let ?s = "ucast data :: u64" and ?z = "ucast (pmm_size args) :: u64"
  have m: "m_e820 st' = m_e820 st1" using some(5) by simp
  have "pmm_size args \<noteq> 0" using some(2) by auto
  then have "0 < unat ?z" unfolding ucast_up64 by (simp add: unat_gt_0)
  then have "?z \<noteq> 0" by (simp only: unat_gt_0 simp_thms)
  moreover have "unat ?s + unat ?z < 2 ^ 64" using some(4) by (simp add: new_block_def ucast_up64)
  ultimately have "?s < ?s + ?z" unfolding no_wrap_iff by simp
  then show ?thesis
    using e820_add_correct [OF assms(5) _ assms(6), of ?s ?z E820_RESERVED a]
    by (auto simp: m some(6) e820_type_defs)
qed

text \<open>
  A block allocated under a handle that no block has yet is what the find service returns for it.\<close>

theorem pmm_find:
  assumes "mstate_ok st" "args 0 = 0" "arg32 args 1 \<noteq> 0" "handle_pmm args st = (st', data)" "data \<noteq> 0"
    and "pmm_handle args = h" "h \<noteq> MALLOC_DEFAULT_HANDLE" "fresh_handle h st" "args' 0 = 1" "arg32 args' 1 = h"
  shows "handle_pmm args' st' = (st', data)"
proof -
  have "handle_pmm00 args st = (st', data)" using assms(2,4) by (simp add: handle_pmm_def)
  from assms(1,3) this show ?thesis
  proof (cases rule: pmm00_cases)
    case none
    then show ?thesis using assms(5) by simp
  next
    case (some st1)
    obtain n where n: "alloc_find data st1 = Some n" "\<not> not_tracked data n" and "fresh_handle h st1"
      using some(4) assms(7,8) by (auto simp: new_block_def)
    then have "malloc_findhandle h (malloc_sethandle data h st1) = data"
      using sethandle_find [OF some(3) n] by (simp add: fresh_handle_def)
    then show ?thesis using assms(6,7,9,10) some(5) by (simp add: handle_pmm_def handle_pmm01_def)
  qed
qed

section \<open>Sizes that wrap\<close>

text \<open>The size in bytes is computed in 32 bits: a request is served like the one for 4 GB less.\<close>

lemma pmm_size_wraps:
  assumes "arg32 args 1 \<noteq> 0" "arg32 args' 1 = arg32 args 1 + 0x10000000" "arg32 args' 1 \<noteq> 0"
    and "pmm_handle args' = pmm_handle args" "pmm_flags args' = pmm_flags args"
  shows "handle_pmm00 args' st = handle_pmm00 args st"
proof -
  have wrapped: "(0x10000000 :: u32) * 16 = 0" by code_simp
  have "pmm_size args' = pmm_size args" unfolding assms(2) distrib_right wrapped by simp
  then show ?thesis
    unfolding handle_pmm00_def Let_def assms(4,5) using assms(1,3) by (simp only: if_False)
qed

section \<open>The header\<close>

lemma pmm_init_checksum: "checksum (pmm_init p entry_pmm m) p 16 = 0"
  by (simp add: pmm_init_def Let_def checksum_update)

section \<open>A concrete run\<close>

definition pmm_call :: "u16 list \<Rightarrow> pmm_args" where
  "pmm_call l i = (if i < length l then l ! i else 0)"

text \<open>48 bytes of temporary high memory under the handle 7, aligned to their size.\<close>

definition pmm_sample :: pmm_args where "pmm_sample = pmm_call [0, 3, 0, 7, 0, 6]"

lemma pmm_sample_sel [simp]:
  "pmm_sample 0 = 0" "arg32 pmm_sample 1 = 3" "arg32 pmm_sample (Suc 0) = 3" "arg32 pmm_sample 3 = 7" "pmm_sample 5 = 6"
  by (simp_all add: pmm_sample_def pmm_call_def arg32_def)

lemma pmm_sample_run: "snd (handle_pmm pmm_sample malloc_sample) = 0x1fffa0"
  by code_simp

lemma pmm_sample_result: "handle_pmm pmm_sample malloc_sample = (fst (handle_pmm pmm_sample malloc_sample), 0x1fffa0)"
  using pmm_sample_run by (simp only: prod_eq_iff fst_conv snd_conv simp_thms)

lemma pmm_call_sel [simp]:
  "pmm_call [2, 0xffa0, 0x1f] 0 = 2" "arg32 (pmm_call [2, 0xffa0, 0x1f]) 1 = 0x1fffa0"
  "pmm_call [1, 7, 0] 0 = 1" "arg32 (pmm_call [1, 7, 0]) 1 = 7"
  "arg32 (pmm_call [2, 0xffa0, 0x1f]) (Suc 0) = 0x1fffa0" "arg32 (pmm_call [1, 7, 0]) (Suc 0) = 7"
  by (simp_all add: pmm_call_def arg32_def)

theorem handle_pmm_ok_witness: "mstate_ok (fst (handle_pmm pmm_sample malloc_sample))"
  using handle_pmm_ok [OF malloc_sample_ok pmm_sample_result] by blast

theorem pmm_block_witness:
  "zones (fst (handle_pmm (pmm_call [2, 0xffa0, 0x1f]) (fst (handle_pmm pmm_sample malloc_sample)))) =
     zones malloc_sample \<and> 2 ^ ffs32 48 dvd unat (0x1fffa0 :: u32)"
  using pmm_block [OF malloc_sample_ok _ _ pmm_sample_result, of "pmm_call [2, 0xffa0, 0x1f]"] by simp

lemma malloc_sample_e820: "m_e820 malloc_sample = []"
  by (simp add: malloc_sample_def malloc_zero_def)

lemma sample_fresh: "fresh_handle 7 malloc_sample"
proof -
  have "list_all (\<lambda>i. handles malloc_sample (range_start i) \<noteq> 7) (all_infos malloc_sample)" by code_simp
  then have "handles malloc_sample (range_start i) \<noteq> 7" if "i \<in> set (zones malloc_sample z)" for i z
    using that by (auto simp: list_all_iff all_infos_zone)
  then show ?thesis using detail_node [OF malloc_sample_ok] by (metis fresh_handle_def)
qed

theorem pmm_find_witness:
  "snd (handle_pmm (pmm_call [1, 7, 0]) (fst (handle_pmm pmm_sample malloc_sample))) = 0x1fffa0"
  using pmm_find [OF malloc_sample_ok _ _ pmm_sample_result _ _ _ sample_fresh, of "pmm_call [1, 7, 0]"]
  by (simp add: MALLOC_DEFAULT_HANDLE_def)

text \<open>A permanent request for 48 bytes of high memory while there is no permanent high zone.\<close>

definition pmm_permanent :: pmm_args where "pmm_permanent = pmm_call [0, 3, 0, 7, 0, 10]"

lemma pmm_permanent_run:
  "snd (handle_pmm00 pmm_permanent malloc_sample) = 0x1fffa0" "last_resort pmm_permanent malloc_sample"
  "arg32 pmm_permanent 1 = 3"
  by code_simp+

theorem pmm_reserves_witness:
  "e820_type_at (m_e820 (fst (handle_pmm00 pmm_permanent malloc_sample))) 0x1fffa8 = Some E820_RESERVED"
proof -
  have "handle_pmm00 pmm_permanent malloc_sample = (fst (handle_pmm00 pmm_permanent malloc_sample), 0x1fffa0)"
    using pmm_permanent_run(1) by (simp only: prod_eq_iff fst_conv snd_conv simp_thms)
  from pmm_reserves [OF malloc_sample_ok _ this, of "0x1fffa8"] show ?thesis
    using pmm_permanent_run by (simp add: malloc_sample_e820 e820_wf_def BUILD_MAX_E820_def)
qed

end
