(* ===== verification/Mouse.thy ===== *)
theory Mouse
  imports FarMem Bregs
begin

text \<open>
  The mouse services of interrupt 0x15, function 0xc2, and the delivery of mouse packets
  (\<open>src/mouse.c\<close>). The flags and the packet buffer lie in the extended BIOS data area, in byte memory; the mouse
  drivers are parameters, functions of the commands given so far; commands and calls of the user's handler
  are recorded. Every stream of data bytes reaches the handler in whole packets.
\<close>

section \<open>State\<close>

datatype mouse_event = MouseCommand u32 "u8 list" | MouseCall u32 u16 u16 u16

record mouse_state =
  mmem :: mem
  mlog :: "mouse_event list"

text \<open>The drivers: an error code and the bytes received.\<close>

record mouse_hw =
  usb_mouse_active :: "mouse_event list \<Rightarrow> bool"
  usb_mouse_command :: "mouse_event list \<Rightarrow> u32 \<Rightarrow> u8 list \<Rightarrow> int \<times> (nat \<Rightarrow> u8)"
  ps2_mouse_command :: "mouse_event list \<Rightarrow> u32 \<Rightarrow> u8 list \<Rightarrow> int \<times> (nat \<Rightarrow> u8)"

definition ebda_far_call_pointer :: u32 where "ebda_far_call_pointer = 0x22"
definition ebda_mouse_flag1 :: u32 where "ebda_mouse_flag1 = 0x26"
definition ebda_mouse_flag2 :: u32 where "ebda_mouse_flag2 = 0x27"
definition ebda_mouse_data :: u32 where "ebda_mouse_data = 0x28"

definition get_ebda_seg :: "mem \<Rightarrow> u16" where
  "get_ebda_seg m = get_mem 2 (bda_at bda_ebda_seg) m"

definition PSMOUSE_CMD_SETSCALE11 :: u32 where "PSMOUSE_CMD_SETSCALE11 = 0x00e6"
definition PSMOUSE_CMD_SETSCALE21 :: u32 where "PSMOUSE_CMD_SETSCALE21 = 0x00e7"
definition PSMOUSE_CMD_SETRES :: u32 where "PSMOUSE_CMD_SETRES = 0x10e8"
definition PSMOUSE_CMD_GETINFO :: u32 where "PSMOUSE_CMD_GETINFO = 0x03e9"
definition PSMOUSE_CMD_GETID :: u32 where "PSMOUSE_CMD_GETID = 0x02f2"
definition PSMOUSE_CMD_SETRATE :: u32 where "PSMOUSE_CMD_SETRATE = 0x10f3"
definition PSMOUSE_CMD_ENABLE :: u32 where "PSMOUSE_CMD_ENABLE = 0x00f4"
definition PSMOUSE_CMD_DISABLE :: u32 where "PSMOUSE_CMD_DISABLE = 0x00f5"
definition PSMOUSE_CMD_RESET_BAT :: u32 where "PSMOUSE_CMD_RESET_BAT = 0x02ff"

definition RET_EINVFUNCTION :: u8 where "RET_EINVFUNCTION = 1"
definition RET_EINVINPUT :: u8 where "RET_EINVINPUT = 2"
definition RET_EINTERFACE :: u8 where "RET_EINTERFACE = 3"
definition RET_ENEEDRESEND :: u8 where "RET_ENEEDRESEND = 4"
definition RET_ENOHANDLER :: u8 where "RET_ENOHANDLER = 5"

section \<open>Services\<close>

definition mouse_init :: "mouse_state \<Rightarrow> mouse_state" where
  "mouse_init st = st\<lparr>mmem := set_equipment_flags 0x04 0x04 (mmem st)\<rparr>"

definition mouse_command :: "mouse_hw \<Rightarrow> u32 \<Rightarrow> u8 list \<Rightarrow> mouse_state \<Rightarrow> int \<times> (nat \<Rightarrow> u8) \<times> mouse_state" where
  "mouse_command hw command param st =
     (let (ret, out) = (if usb_mouse_active hw (mlog st) then usb_mouse_command hw (mlog st) command param
                        else ps2_mouse_command hw (mlog st) command param)
      in (ret, out, st\<lparr>mlog := mlog st @ [MouseCommand command param]\<rparr>))"

text \<open>The end of every service that gives one command: a resend error, or success.\<close>

definition mouse_done :: "int \<Rightarrow> bregs \<Rightarrow> bregs" where
  "mouse_done ret regs = (if ret \<noteq> 0 then set_code_invalid_silent RET_ENEEDRESEND regs else set_code_success regs)"

definition mouse_15c20000 :: "mouse_hw \<Rightarrow> bregs \<Rightarrow> mouse_state \<Rightarrow> bregs \<times> mouse_state" where
  "mouse_15c20000 hw regs st =
     (let (ret, _, st1) = mouse_command hw PSMOUSE_CMD_DISABLE [] st in (mouse_done ret regs, st1))"

definition mouse_15c20001 :: "mouse_hw \<Rightarrow> bregs \<Rightarrow> mouse_state \<Rightarrow> bregs \<times> mouse_state" where
  "mouse_15c20001 hw regs st =
     (let ebda_seg = get_ebda_seg (mmem st);
          mouse_flags_2 = mmem st (MAKE_FLATPTR ebda_seg ebda_mouse_flag2)
      in if mouse_flags_2 AND 0x80 = 0 then (set_code_invalid_silent RET_ENOHANDLER regs, st)
         else let (ret, _, st1) = mouse_command hw PSMOUSE_CMD_ENABLE [] st in (mouse_done ret regs, st1))"

definition mouse_15c200XX :: "bregs \<Rightarrow> bregs" where
  "mouse_15c200XX regs = set_code_invalid_silent RET_EINVFUNCTION regs"

abbreviation bh :: "bregs \<Rightarrow> u8" where "bh r \<equiv> rh (ebx r)"
abbreviation bl :: "bregs \<Rightarrow> u8" where "bl r \<equiv> rl (ebx r)"
abbreviation set_bh :: "u8 \<Rightarrow> bregs \<Rightarrow> bregs" where "set_bh v r \<equiv> ebx_update (puth v) r"
abbreviation set_bl :: "u8 \<Rightarrow> bregs \<Rightarrow> bregs" where "set_bl v r \<equiv> ebx_update (putl v) r"

definition mouse_15c200 :: "mouse_hw \<Rightarrow> bregs \<Rightarrow> mouse_state \<Rightarrow> bregs \<times> mouse_state" where
  "mouse_15c200 hw regs st =
     (if bh regs = 0 then mouse_15c20000 hw regs st
      else if bh regs = 1 then mouse_15c20001 hw regs st
      else (mouse_15c200XX regs, st))"

definition mouse_15c201 :: "mouse_hw \<Rightarrow> bregs \<Rightarrow> mouse_state \<Rightarrow> bregs \<times> mouse_state" where
  "mouse_15c201 hw regs st =
     (let (ret, param, st1) = mouse_command hw PSMOUSE_CMD_RESET_BAT [] st
      in if ret \<noteq> 0 then (set_code_invalid_silent RET_ENEEDRESEND regs, st1)
         else (set_code_success (set_bh (param 1) (set_bl (param 0) regs)), st1))"

definition sample_rates :: "u8 list" where "sample_rates = [10, 20, 40, 60, 80, 100, 200]"

definition mouse_15c202 :: "mouse_hw \<Rightarrow> bregs \<Rightarrow> mouse_state \<Rightarrow> bregs \<times> mouse_state" where
  "mouse_15c202 hw regs st =
     (if unat (bh regs) \<ge> length sample_rates then (set_code_invalid_silent RET_EINVINPUT regs, st)
      else
        let mouse_data1 = sample_rates ! unat (bh regs);
            (ret, _, st1) = mouse_command hw PSMOUSE_CMD_SETRATE [mouse_data1] st
        in (mouse_done ret regs, st1))"

definition mouse_15c203 :: "mouse_hw \<Rightarrow> bregs \<Rightarrow> mouse_state \<Rightarrow> bregs \<times> mouse_state" where
  "mouse_15c203 hw regs st =
     (if bh regs \<ge> 4 then (set_code_invalid_silent RET_EINVINPUT regs, st)
      else let (ret, _, st1) = mouse_command hw PSMOUSE_CMD_SETRES [bh regs] st in (mouse_done ret regs, st1))"

definition mouse_15c204 :: "mouse_hw \<Rightarrow> bregs \<Rightarrow> mouse_state \<Rightarrow> bregs \<times> mouse_state" where
  "mouse_15c204 hw regs st =
     (let (ret, param, st1) = mouse_command hw PSMOUSE_CMD_GETID [] st
      in if ret \<noteq> 0 then (set_code_invalid_silent RET_ENEEDRESEND regs, st1)
         else (set_code_success (set_bh (param 0) regs), st1))"

definition mouse_15c205 :: "mouse_hw \<Rightarrow> bregs \<Rightarrow> mouse_state \<Rightarrow> bregs \<times> mouse_state" where
  "mouse_15c205 hw regs st =
     (if bh regs \<noteq> 3 then (set_code_invalid_silent RET_EINTERFACE regs, st)
      else
        let ebda_seg = get_ebda_seg (mmem st);
            m1 = (mmem st)(MAKE_FLATPTR ebda_seg ebda_mouse_flag1 := 0);
            m2 = m1(MAKE_FLATPTR ebda_seg ebda_mouse_flag2 := bh regs)
        in mouse_15c201 hw regs (st\<lparr>mmem := m2\<rparr>))"

definition mouse_15c20600 :: "mouse_hw \<Rightarrow> bregs \<Rightarrow> mouse_state \<Rightarrow> bregs \<times> mouse_state" where
  "mouse_15c20600 hw regs st =
     (let (ret, param, st1) = mouse_command hw PSMOUSE_CMD_GETINFO [] st
      in if ret \<noteq> 0 then (set_code_invalid_silent RET_ENEEDRESEND regs, st1)
         else (set_code_success (set_dl (param 2) (set_cl (param 1) (set_bl (param 0) regs))), st1))"

definition mouse_15c20601 :: "mouse_hw \<Rightarrow> bregs \<Rightarrow> mouse_state \<Rightarrow> bregs \<times> mouse_state" where
  "mouse_15c20601 hw regs st =
     (let (ret, _, st1) = mouse_command hw PSMOUSE_CMD_SETSCALE11 [] st in (mouse_done ret regs, st1))"

definition mouse_15c20602 :: "mouse_hw \<Rightarrow> bregs \<Rightarrow> mouse_state \<Rightarrow> bregs \<times> mouse_state" where
  "mouse_15c20602 hw regs st =
     (let (ret, _, st1) = mouse_command hw PSMOUSE_CMD_SETSCALE21 [] st in (mouse_done ret regs, st1))"

definition mouse_15c206XX :: "bregs \<Rightarrow> bregs" where
  "mouse_15c206XX regs = set_code_invalid_silent RET_EINVFUNCTION regs"

definition mouse_15c206 :: "mouse_hw \<Rightarrow> bregs \<Rightarrow> mouse_state \<Rightarrow> bregs \<times> mouse_state" where
  "mouse_15c206 hw regs st =
     (if bh regs = 0 then mouse_15c20600 hw regs st
      else if bh regs = 1 then mouse_15c20601 hw regs st
      else if bh regs = 2 then mouse_15c20602 hw regs st
      else (mouse_15c206XX regs, st))"

definition mouse_15c207 :: "mouse_hw \<Rightarrow> bregs \<Rightarrow> mouse_state \<Rightarrow> bregs \<times> mouse_state" where
  "mouse_15c207 hw regs st =
     (let farptr = SEGOFF (es regs) (r16 (ebx regs));
          ebda_seg = get_ebda_seg (mmem st);
          fl0 = mmem st (MAKE_FLATPTR ebda_seg ebda_mouse_flag2);
          (fl1, st1) =
            (if farptr = 0 then
               (if fl0 AND 0x80 \<noteq> 0 then (fl0 AND NOT 0x80, snd (snd (mouse_command hw PSMOUSE_CMD_DISABLE [] st)))
                else (fl0, st))
             else (fl0 OR 0x80, st));
          m1 = (mmem st1)(MAKE_FLATPTR ebda_seg ebda_mouse_flag2 := fl1);
          m2 = set_mem 4 (MAKE_FLATPTR ebda_seg ebda_far_call_pointer) farptr m1
      in (set_code_success regs, st1\<lparr>mmem := m2\<rparr>))"

definition mouse_15c2XX :: "bregs \<Rightarrow> bregs" where
  "mouse_15c2XX regs = set_code_invalid_silent RET_EINVFUNCTION regs"

definition handle_15c2 :: "mouse_hw \<Rightarrow> bregs \<Rightarrow> mouse_state \<Rightarrow> bregs \<times> mouse_state" where
  "handle_15c2 hw regs st =
     (let f = al regs in
      if f = 0 then mouse_15c200 hw regs st
      else if f = 1 then mouse_15c201 hw regs st
      else if f = 2 then mouse_15c202 hw regs st
      else if f = 3 then mouse_15c203 hw regs st
      else if f = 4 then mouse_15c204 hw regs st
      else if f = 5 then mouse_15c205 hw regs st
      else if f = 6 then mouse_15c206 hw regs st
      else if f = 7 then mouse_15c207 hw regs st
      else (mouse_15c2XX regs, st))"

section \<open>Packets\<close>

definition invoke_mouse_handler :: "mouse_state \<Rightarrow> mouse_state" where
  "invoke_mouse_handler st =
     (let ebda_seg = get_ebda_seg (mmem st);
          d = MAKE_FLATPTR ebda_seg ebda_mouse_data;
          func = get_mem 4 (MAKE_FLATPTR ebda_seg ebda_far_call_pointer) (mmem st)
      in st\<lparr>mlog := mlog st @ [MouseCall func (ucast (mmem st d)) (ucast (mmem st (d + 1))) (ucast (mmem st (d + 2)))]\<rparr>)"

definition process_mouse :: "u8 \<Rightarrow> mouse_state \<Rightarrow> mouse_state" where
  "process_mouse data st =
     (let ebda_seg = get_ebda_seg (mmem st);
          mouse_flags_1 = mmem st (MAKE_FLATPTR ebda_seg ebda_mouse_flag1);
          mouse_flags_2 = mmem st (MAKE_FLATPTR ebda_seg ebda_mouse_flag2)
      in if mouse_flags_2 AND 0x80 = 0 then st
         else
           let package_count = mouse_flags_2 AND 0x07;
               index = mouse_flags_1 AND 0x07;
               m1 = (mmem st)(MAKE_FLATPTR ebda_seg ebda_mouse_data + ucast index := data)
           in if unat index + 1 < unat package_count
              then st\<lparr>mmem := m1(MAKE_FLATPTR ebda_seg ebda_mouse_flag1 := mouse_flags_1 + 1)\<rparr>
              else invoke_mouse_handler (st\<lparr>mmem := m1(MAKE_FLATPTR ebda_seg ebda_mouse_flag1 := 0)\<rparr>))"

section \<open>Packets reach the handler\<close>

lemma get_mem_upd:
  assumes "\<And>i. i < n \<Longrightarrow> p \<noteq> q + of_nat i"
  shows "get_mem n q (m(p := v)) = get_mem n q m"
proof -
  have "mem_read (m(p := v)) q n = mem_read m q n"
    using assms by (intro nth_equalityI) (auto simp: nth_mem_read)
  then show ?thesis by (simp add: get_mem_def)
qed

text \<open>The extended BIOS data area lies above the BIOS data area.\<close>

lemma ebda_apart:
  assumes "0x41 \<le> seg" "unat off < 2 ^ 16"
  shows "MAKE_FLATPTR seg off \<noteq> 0x40e" "MAKE_FLATPTR seg off \<noteq> 0x40f"
proof -
  have "unat (push_bit 4 (ucast seg) :: u32) = 16 * unat seg"
    using unat_u16_bound [of seg]
    by (simp add: push_bit_eq_mult unat_word_ariths unsigned_ucast_eq take_bit_nat_eq_self)
  then have "unat (MAKE_FLATPTR seg off) = 16 * unat seg + unat off"
    using unat_u16_bound [of seg] assms(2) by (simp add: MAKE_FLATPTR_def unat_word_ariths)
  moreover have "0x41 \<le> unat seg" using assms(1) by (simp add: word_le_nat_alt)
  ultimately have "0x410 \<le> unat (MAKE_FLATPTR seg off)" by linarith
  then show "MAKE_FLATPTR seg off \<noteq> 0x40e" "MAKE_FLATPTR seg off \<noteq> 0x40f" by auto
qed

lemma ebda_inj [simp]: "MAKE_FLATPTR seg a = MAKE_FLATPTR seg b \<longleftrightarrow> a = b"
  by (simp add: MAKE_FLATPTR_def)

lemma get_ebda_seg_upd:
  assumes "0x41 \<le> seg" "unat off < 2 ^ 16"
  shows "get_ebda_seg (m(MAKE_FLATPTR seg off := v)) = get_ebda_seg m"
proof -
  have "bda_at bda_ebda_seg = 0x40e" by (simp add: MAKE_FLATPTR_def SEG_BDA_def bda_ebda_seg_def)
  then show ?thesis
    unfolding get_ebda_seg_def using ebda_apart [OF assms]
    by (intro get_mem_upd) (auto simp: less_Suc_eq numeral_2_eq_2)
qed

lemmas ebda_defs = ebda_far_call_pointer_def ebda_mouse_flag1_def ebda_mouse_flag2_def ebda_mouse_data_def

text \<open>A handler \<open>func\<close> is installed for packets of \<open>n\<close> bytes, and the bytes \<open>p\<close> of the next packet have arrived.\<close>

definition mouse_collecting :: "u16 \<Rightarrow> u32 \<Rightarrow> nat \<Rightarrow> u8 list \<Rightarrow> mouse_state \<Rightarrow> bool" where
  "mouse_collecting seg func n p st \<longleftrightarrow>
     (let m = mmem st; fl2 = m (MAKE_FLATPTR seg ebda_mouse_flag2)
      in get_ebda_seg m = seg \<and> get_mem 4 (MAKE_FLATPTR seg ebda_far_call_pointer) m = func \<and>
         fl2 AND 0x80 \<noteq> 0 \<and> unat (fl2 AND 7) = n \<and> m (MAKE_FLATPTR seg ebda_mouse_flag1) = of_nat (length p) \<and>
         (\<forall>i < length p. m (MAKE_FLATPTR seg (ebda_mouse_data + of_nat i)) = p ! i))"

lemma data_offset:
  assumes "i < 8"
  shows "unat (0x28 + of_nat i :: u32) = 0x28 + i" "(0x28 + of_nat i :: u32) \<noteq> c \<longleftrightarrow> unat c \<noteq> 0x28 + i"
proof -
  show u: "unat (0x28 + of_nat i :: u32) = 0x28 + i"
    using assms by (simp add: unat_word_ariths unat_of_nat)
  show "(0x28 + of_nat i :: u32) \<noteq> c \<longleftrightarrow> unat c \<noteq> 0x28 + i" by (metis u word_unat_eq_iff)
qed

lemma handler_kept:
  assumes "i < 8"
  shows "get_mem 4 (MAKE_FLATPTR seg ebda_far_call_pointer) (m(MAKE_FLATPTR seg (ebda_mouse_data + of_nat i) := v)) =
         get_mem 4 (MAKE_FLATPTR seg ebda_far_call_pointer) m"
proof (rule get_mem_upd)
  fix j :: nat assume "j < 4"
  then have "MAKE_FLATPTR seg ebda_far_call_pointer + of_nat j = MAKE_FLATPTR seg (0x22 + of_nat j)"
    "unat (0x22 + of_nat j :: u32) = 0x22 + j"
    by (simp_all add: MAKE_FLATPTR_def ebda_defs unat_word_ariths unat_of_nat)
  then show "MAKE_FLATPTR seg (ebda_mouse_data + of_nat i) \<noteq> MAKE_FLATPTR seg ebda_far_call_pointer + of_nat j"
    using data_offset [OF assms] \<open>j < 4\<close> by (simp add: ebda_defs)
qed

lemma index_of_length:
  assumes "k < 8"
  shows "unat ((of_nat k :: u8) AND 7) = k" "ucast ((of_nat k :: u8) AND 7) = (of_nat k :: u32)"
proof -
  have "(of_nat k :: u8) AND 7 = take_bit 3 (of_nat k)" by (simp add: take_bit_eq_mask mask_numeral)
  then show u: "unat ((of_nat k :: u8) AND 7) = k"
    using assms by (simp add: unsigned_take_bit_eq unat_of_nat take_bit_nat_eq_self)
  then show "ucast ((of_nat k :: u8) AND 7) = (of_nat k :: u32)"
    using assms by (simp add: word_unat_eq_iff unsigned_ucast_eq unat_of_nat take_bit_nat_eq_self)
qed

lemma flat_data: "MAKE_FLATPTR seg ebda_mouse_data + x = MAKE_FLATPTR seg (ebda_mouse_data + x)"
  by (simp add: MAKE_FLATPTR_def)

lemma data_apart [simp]:
  assumes "i < 8"
  shows "ebda_mouse_data + of_nat i \<noteq> ebda_mouse_flag1" "ebda_mouse_data + of_nat i \<noteq> ebda_mouse_flag2"
    "ebda_mouse_flag1 \<noteq> ebda_mouse_data + of_nat i" "ebda_mouse_flag2 \<noteq> ebda_mouse_data + of_nat i"
  using data_offset [OF assms] by (auto simp: ebda_defs)

lemma flags_ne [simp]: "ebda_mouse_flag1 \<noteq> ebda_mouse_flag2" "ebda_mouse_flag2 \<noteq> ebda_mouse_flag1"
  by (simp_all add: ebda_defs)

lemma data_eq: "i < 8 \<Longrightarrow> j < 8 \<Longrightarrow> (of_nat i :: u32) = of_nat j \<longleftrightarrow> i = j"
  by (auto simp: word_unat_eq_iff unat_of_nat)

lemma flag_kept:
  "get_mem 4 (MAKE_FLATPTR seg ebda_far_call_pointer) (m(MAKE_FLATPTR seg ebda_mouse_flag1 := v)) =
   get_mem 4 (MAKE_FLATPTR seg ebda_far_call_pointer) m"
  by (rule get_upd_other) (simp add: apart_at_def MAKE_FLATPTR_def ebda_defs)

text \<open>The memory after the byte \<open>b\<close> at index \<open>k\<close>, with the new value \<open>f\<close> of the counting flag.\<close>

abbreviation "mouse_stored seg k b f m \<equiv>
  m(MAKE_FLATPTR seg (ebda_mouse_data + of_nat k) := b, MAKE_FLATPTR seg ebda_mouse_flag1 := f)"

lemma stored_kept:
  assumes "k < 8" "0x41 \<le> seg"
  shows "get_ebda_seg (mouse_stored seg k b f m) = get_ebda_seg m"
    "get_mem 4 (MAKE_FLATPTR seg ebda_far_call_pointer) (mouse_stored seg k b f m) =
     get_mem 4 (MAKE_FLATPTR seg ebda_far_call_pointer) m"
proof -
  show "get_ebda_seg (mouse_stored seg k b f m) = get_ebda_seg m"
    using data_offset(1) [OF assms(1)] assms
    by (simp add: get_ebda_seg_upd ebda_mouse_data_def ebda_mouse_flag1_def)
qed (simp add: flag_kept handler_kept assms(1))

lemma process_collecting:
  assumes "mouse_collecting seg func n p st" "length p < 7"
  shows "process_mouse b st =
    (if length p + 1 < n then st\<lparr>mmem := mouse_stored seg (length p) b (of_nat (length p) + 1) (mmem st)\<rparr>
     else invoke_mouse_handler (st\<lparr>mmem := mouse_stored seg (length p) b 0 (mmem st)\<rparr>))"
  using assms index_of_length [of "length p"]
  by (simp add: process_mouse_def mouse_collecting_def Let_def flat_data)

lemma and7_less: "unat ((w :: u8) AND 7) < 8"
proof -
  have "w AND 7 = take_bit 3 w" by (simp add: take_bit_eq_mask mask_numeral)
  then show ?thesis using take_bit_nat_less_exp [of 3 "unat w"] by (simp add: unsigned_take_bit_eq)
qed

lemma collect_byte:
  assumes "mouse_collecting seg func n p st" "0x41 \<le> seg" "length p + 1 < n"
  shows "mouse_collecting seg func n (p @ [b]) (process_mouse b st) \<and> mlog (process_mouse b st) = mlog st"
proof -
  have "n < 8" using assms(1) and7_less by (auto simp: mouse_collecting_def Let_def)
  then have k: "length p < 8" "length p < 7" using assms(3) by linarith+
  show ?thesis
    unfolding process_collecting [OF assms(1) k(2)] using assms k
    by (simp add: stored_kept mouse_collecting_def Let_def less_Suc_eq nth_append data_eq)
qed

lemma complete_packet:
  assumes "mouse_collecting seg func n p st" "0x41 \<le> seg" "length p + 1 = n" "3 \<le> n"
  shows "mouse_collecting seg func n [] (process_mouse b st) \<and>
    mlog (process_mouse b st) = mlog st @ [MouseCall func (ucast ((p @ [b]) ! 0)) (ucast ((p @ [b]) ! 1)) (ucast ((p @ [b]) ! 2))]"
proof -
  have "n < 8" using assms(1) and7_less by (auto simp: mouse_collecting_def Let_def)
  then have k: "length p < 8" "length p < 7" using assms(3) by linarith+
  define m where "m = mouse_stored seg (length p) b 0 (mmem st)"
  have kept: "get_ebda_seg m = seg" "get_mem 4 (MAKE_FLATPTR seg ebda_far_call_pointer) m = func"
    using k(1) assms(1,2) by (simp_all add: stored_kept m_def mouse_collecting_def Let_def)
  have bytes: "m (MAKE_FLATPTR seg (ebda_mouse_data + of_nat i)) = (p @ [b]) ! i" if "i < n" for i
    using that assms(1,3) k \<open>n < 8\<close>
    by (cases "i = length p") (auto simp: m_def mouse_collecting_def Let_def data_eq nth_append)
  have first: "m (MAKE_FLATPTR seg ebda_mouse_data) = (p @ [b]) ! 0"
    "m (MAKE_FLATPTR seg ebda_mouse_data + 1) = (p @ [b]) ! 1" "m (MAKE_FLATPTR seg ebda_mouse_data + 2) = (p @ [b]) ! 2"
    using bytes [of 0] bytes [of 1] bytes [of 2] assms(4) by (simp_all add: flat_data)
  have "process_mouse b st = invoke_mouse_handler (st\<lparr>mmem := m\<rparr>)"
    using process_collecting [OF assms(1) k(2), of b] assms(3) by (simp add: m_def)
  then have "process_mouse b st = st\<lparr>mmem := m, mlog := mlog st @
      [MouseCall func (ucast ((p @ [b]) ! 0)) (ucast ((p @ [b]) ! 1)) (ucast ((p @ [b]) ! 2))]\<rparr>"
    by (simp add: invoke_mouse_handler_def Let_def kept first)
  moreover have "mouse_collecting seg func n [] (st\<lparr>mmem := m\<rparr>)"
    using assms(1) kept k by (simp add: mouse_collecting_def Let_def) (simp add: m_def)
  ultimately show ?thesis by (simp add: mouse_collecting_def)
qed

lemma packet:
  assumes "mouse_collecting seg func n p st" "0x41 \<le> seg" "length p + length bs = n" "bs \<noteq> []" "3 \<le> n"
  shows "mouse_collecting seg func n [] (fold process_mouse bs st) \<and>
    mlog (fold process_mouse bs st) =
      mlog st @ [MouseCall func (ucast ((p @ bs) ! 0)) (ucast ((p @ bs) ! 1)) (ucast ((p @ bs) ! 2))]"
  using assms
proof (induction bs arbitrary: p st)
  case Nil
  then show ?case by simp
next
  case (Cons b bs)
  show ?case
  proof (cases "bs = []")
    case True
    then show ?thesis using complete_packet [OF Cons.prems(1,2) _ Cons.prems(5)] Cons.prems(3) by simp
  next
    case False
    have "length p + 1 < n" using False Cons.prems(3) by (cases bs) auto
    then show ?thesis
      using collect_byte [OF Cons.prems(1,2)] Cons.IH [of "p @ [b]" "process_mouse b st"] Cons.prems False by simp
  qed
qed

text \<open>C24. However many packets the mouse sends, one data byte at a time, the installed handler is called once for
each packet, in order, with the first three bytes of it as status and movement; the driver is then ready for the next.\<close>

theorem mouse_packets:
  assumes "mouse_collecting seg func n [] st" "0x41 \<le> seg" "3 \<le> n" "list_all (\<lambda>p. length p = n) ps"
  shows "mouse_collecting seg func n [] (fold process_mouse (concat ps) st) \<and>
    mlog (fold process_mouse (concat ps) st) =
      mlog st @ map (\<lambda>p. MouseCall func (ucast (p ! 0)) (ucast (p ! 1)) (ucast (p ! 2))) ps"
  using assms(1,4)
proof (induction ps arbitrary: st)
  case Nil
  then show ?case by simp
next
  case (Cons p ps)
  have "p \<noteq> []" using Cons.prems(2) assms(3) by auto
  then show ?case
    using packet [OF Cons.prems(1) assms(2), of p] Cons.IH [of "fold process_mouse p st"] Cons.prems(2) assms(3) by simp
qed

section \<open>A concrete mouse\<close>

text \<open>The services reset the mouse for packets of three bytes and install a handler at 0x1234:0x5678.\<close>

definition mouse_quiet :: mouse_hw where
  "mouse_quiet = \<lparr>usb_mouse_active = (\<lambda>_. False), usb_mouse_command = (\<lambda>_ _ _. (0, \<lambda>_. 0)),
     ps2_mouse_command = (\<lambda>_ _ _. (0, \<lambda>_. 0))\<rparr>"

definition mouse_start :: mouse_state where
  "mouse_start = \<lparr>mmem = set_mem 2 0x40e (0x9fc0 :: u16) (\<lambda>_. 0), mlog = []\<rparr>"

definition mouse_ready :: mouse_state where
  "mouse_ready = snd (handle_15c2 mouse_quiet (bregs_zero\<lparr>eax := 7, es := 0x1234, ebx := 0x5678\<rparr>)
     (snd (handle_15c2 mouse_quiet (bregs_zero\<lparr>eax := 5, ebx := 0x300\<rparr>) mouse_start)))"

lemma mouse_ready: "mouse_collecting 0x9fc0 0x12345678 3 [] mouse_ready"
  by code_simp

theorem mouse_packets_witness:
  "mlog (fold process_mouse [8, 1, 2, 9, 3, 4] mouse_ready) =
     mlog mouse_ready @ [MouseCall 0x12345678 8 1 2, MouseCall 0x12345678 9 3 4]"
  using mouse_packets [OF mouse_ready, of "[[8, 1, 2], [9, 3, 4]]"] by simp

end
