(* ===== verification/System.thy ===== *)
theory System
  imports Malloc Clock Mouse FarCopy
begin

text \<open>
  The system services of interrupt 0x15 (\<open>src/system.c\<close>) with power management (\<open>src/apm.c\<close>): the address
  line A20, the copy of extended memory in protected mode, the memory sizes and the memory map, and the
  dispatch to the mouse (\<open>Mouse\<close>) and to the waits of the clock (\<open>Clock\<close>). All of them share one memory, that
  of the clock state; the memory map and the size of RAM are those of the allocator's state.

  A call returns, halts the machine, or waits for more interrupts than are given. The limits of the
  descriptors that a caller passes for the copy, and the faults beyond them, are not modelled, nor is the
  machine code that continues after the switch to protected mode.
\<close>

section \<open>State\<close>

datatype sys_event = PicReset u8 u8 | OutW u16 u16 | YieldToIrq

record sys_state =
  sy_clock :: clock_state
  sy_mouse :: "mouse_event list"
  sy_alloc :: mstate
  sy_a20 :: bool
  sy_events :: "sys_event list"

text \<open>What a call finds: whether the machine is still starting, the stack segment and the place of the status
byte of a wait on it, the interrupts during a wait, entry points, the port of the power button, the mouse
drivers, and the hooks of the video BIOS (\<open>src/vgahooks.c\<close>).\<close>

record sys_env =
  in_post :: bool
  seg_ss :: u16
  status_offset :: u16
  irqs :: "clock_irq list"
  entry_apm16 :: u32
  entry_apm32 :: u32
  pm1a_cnt :: u16
  mouse_drv :: mouse_hw
  handle_155f :: "bregs \<Rightarrow> bregs"
  handle_157f :: "bregs \<Rightarrow> bregs"

abbreviation sy_mem :: "sys_state \<Rightarrow> mem" where "sy_mem st \<equiv> cmem (sy_clock st)"

definition upd_mem :: "(mem \<Rightarrow> mem) \<Rightarrow> sys_state \<Rightarrow> sys_state" where
  "upd_mem f st = st\<lparr>sy_clock := (sy_clock st)\<lparr>cmem := f (sy_mem st)\<rparr>\<rparr>"

definition sys_event :: "sys_event \<Rightarrow> sys_state \<Rightarrow> sys_state" where
  "sys_event e st = st\<lparr>sy_events := sy_events st @ [e]\<rparr>"

datatype sys_result = Returns bregs sys_state | Halts sys_state | Waits

fun returns :: "bregs \<times> sys_state \<Rightarrow> sys_result" where
  "returns (r, st) = Returns r st"

section \<open>A20\<close>

definition get_a20 :: "sys_state \<Rightarrow> u8" where
  "get_a20 st = (if sy_a20 st then 1 else 0)"

text \<open>The call returns the old value.\<close>

definition set_a20 :: "bool \<Rightarrow> sys_state \<Rightarrow> bool \<times> sys_state" where
  "set_a20 c st = (sy_a20 st, st\<lparr>sy_a20 := c\<rparr>)"

definition handle_152400 :: "bregs \<Rightarrow> sys_state \<Rightarrow> bregs \<times> sys_state" where
  "handle_152400 regs st = (set_code_success regs, snd (set_a20 False st))"

definition handle_152401 :: "bregs \<Rightarrow> sys_state \<Rightarrow> bregs \<times> sys_state" where
  "handle_152401 regs st = (set_code_success regs, snd (set_a20 True st))"

definition handle_152402 :: "bregs \<Rightarrow> sys_state \<Rightarrow> bregs \<times> sys_state" where
  "handle_152402 regs st = (set_code_success (set_al (get_a20 st) regs), st)"

definition handle_152403 :: "bregs \<Rightarrow> sys_state \<Rightarrow> bregs \<times> sys_state" where
  "handle_152403 regs st = (set_code_success (set_bx 3 regs), st)"

definition handle_1524XX :: "bregs \<Rightarrow> sys_state \<Rightarrow> bregs \<times> sys_state" where
  "handle_1524XX regs st = (set_code_invalid_silent RET_EUNSUPPORTED regs, st)"

definition handle_1524 :: "bregs \<Rightarrow> sys_state \<Rightarrow> bregs \<times> sys_state" where
  "handle_1524 regs st =
     (if al regs = 0 then handle_152400 regs st
      else if al regs = 1 then handle_152401 regs st
      else if al regs = 2 then handle_152402 regs st
      else if al regs = 3 then handle_152403 regs st
      else handle_1524XX regs st)"

definition handle_1552 :: "bregs \<Rightarrow> bregs" where
  "handle_1552 regs = set_code_success regs"

section \<open>Copying extended memory\<close>

definition GDT_CODE :: u64 where "GDT_CODE = push_bit 40 0x9b"
definition GDT_DATA :: u64 where "GDT_DATA = push_bit 40 0x93"
definition GDT_G :: u64 where "GDT_G = push_bit 55 1"

definition GDT_BASE :: "u32 \<Rightarrow> u64" where
  "GDT_BASE v = push_bit 32 (ucast v AND 0xff000000) OR push_bit 16 (ucast v AND 0x00ffffff)"

definition GDT_LIMIT :: "u32 \<Rightarrow> u64" where
  "GDT_LIMIT v = push_bit 32 (ucast v AND 0x000f0000) OR (ucast v AND 0x0000ffff)"

definition GDT_GRANLIMIT :: "u32 \<Rightarrow> u64" where
  "GDT_GRANLIMIT v = GDT_G OR GDT_LIMIT (drop_bit 12 v)"

text \<open>The base address that the processor takes from a descriptor.\<close>

definition desc_base :: "u64 \<Rightarrow> u32" where
  "desc_base d = ucast (drop_bit 16 d AND 0x00ffffff) OR ucast (drop_bit 32 d AND 0xff000000)"

definition gdt_entry :: "bregs \<Rightarrow> nat \<Rightarrow> u32" where
  "gdt_entry regs i = MAKE_FLATPTR (es regs) (ucast (r16 (esi regs)) + 8 * of_nat i)"

definition handle_1587_gdt :: "sys_env \<Rightarrow> bregs \<Rightarrow> mem \<Rightarrow> mem" where
  "handle_1587_gdt env regs m =
     (let loc = MAKE_FLATPTR (es regs) (ucast (r16 (esi regs)));
          m1 = set_mem 8 (gdt_entry regs 1) (GDT_DATA OR GDT_LIMIT (6 * 8 - 1) OR GDT_BASE loc) m;
          lim = (if in_post env then GDT_GRANLIMIT 0xffffffff else GDT_LIMIT 0x0ffff);
          m2 = set_mem 8 (gdt_entry regs 4) (GDT_CODE OR lim OR GDT_BASE BUILD_BIOS_ADDR) m1
      in set_mem 8 (gdt_entry regs 5) (GDT_DATA OR lim OR GDT_BASE (MAKE_FLATPTR (seg_ss env) 0)) m2)"

text \<open>The machine code: the processor loads the table, takes source and destination from entries 2 and 3, and
copies words, or double words when their number is even, with 16-bit indices.\<close>

definition handle_1587_copy :: "bregs \<Rightarrow> mem \<Rightarrow> mem" where
  "handle_1587_copy regs m =
     (let table = desc_base (get_mem 8 (gdt_entry regs 1) m);
          s = desc_base (get_mem 8 (table + 16) m);
          d = desc_base (get_mem 8 (table + 24) m);
          count = cx regs
      in if bit count 0 then rep_movs16 2 (unat count) d 0 s 0 m
         else rep_movs16 4 (unat (drop_bit 1 count)) d 0 s 0 m)"

definition handle_1587 :: "sys_env \<Rightarrow> bregs \<Rightarrow> sys_state \<Rightarrow> bregs \<times> sys_state" where
  "handle_1587 env regs st =
     (let (prev, st1) = set_a20 True st;
          st2 = upd_mem (\<lambda>m. handle_1587_copy regs (handle_1587_gdt env regs m)) st1
      in (set_code_success regs, snd (set_a20 prev st2)))"

section \<open>Memory sizes\<close>

definition handle_1588 :: "bregs \<Rightarrow> sys_state \<Rightarrow> bregs" where
  "handle_1588 regs st =
     (let rs = LegacyRamSize (sy_alloc st);
          r1 = (if rs > 64 * 1024 * 1024 then set_ax (63 * 1024) regs
                else set_ax (ucast ((rs - 1 * 1024 * 1024) div 1024)) regs)
      in set_success r1)"

definition handle_15e801 :: "bregs \<Rightarrow> sys_state \<Rightarrow> bregs" where
  "handle_15e801 regs st =
     (let rs = LegacyRamSize (sy_alloc st);
          r1 = (if rs > 16 * 1024 * 1024
                then set_dx (ucast ((rs - 16 * 1024 * 1024) div (64 * 1024))) (set_cx (15 * 1024) regs)
                else set_dx 0 (set_cx (ucast ((rs - 1 * 1024 * 1024) div 1024)) regs))
      in set_success (set_bx (dx r1) (set_ax (cx r1) r1)))"

text \<open>An entry of the memory map as the caller gets it.\<close>

definition e820_bytes :: "e820entry \<Rightarrow> u8 list" where
  "e820_bytes e = le_bytes 8 (e_start e) @ le_bytes 8 (e_size e) @ le_bytes 4 (e_type e)"

definition SMAP :: u32 where "SMAP = 0x534D4150"

definition di :: "bregs \<Rightarrow> u16" where "di regs = r16 (edi regs)"

definition handle_15e820 :: "bregs \<Rightarrow> sys_state \<Rightarrow> bregs \<times> sys_state" where
  "handle_15e820 regs st =
     (let es820 = m_e820 (sy_alloc st); count = length es820
      in if edx regs \<noteq> SMAP \<or> unat (bx regs) \<ge> count \<or> ecx regs < 20
         then (set_code_invalid_silent RET_EUNSUPPORTED regs, st)
         else
           let st1 = upd_mem (mem_write (MAKE_FLATPTR (es regs) (ucast (di regs))) (e820_bytes (es820 ! unat (bx regs)))) st;
               r1 = (if unat (bx regs) = count - 1 then regs\<lparr>ebx := 0\<rparr> else regs\<lparr>ebx := ebx regs + 1\<rparr>)
           in (set_success (r1\<lparr>eax := SMAP, ecx := 20\<rparr>), st1))"

definition handle_15e8XX :: "bregs \<Rightarrow> bregs" where
  "handle_15e8XX regs = set_code_invalid_silent RET_EUNSUPPORTED regs"

definition handle_15e8 :: "bregs \<Rightarrow> sys_state \<Rightarrow> bregs \<times> sys_state" where
  "handle_15e8 regs st =
     (if al regs = 0x01 then (handle_15e801 regs st, st)
      else if al regs = 0x20 then handle_15e820 regs st
      else (handle_15e8XX regs, st))"

section \<open>The rest of interrupt 0x15\<close>

definition handle_1589 :: "bregs \<Rightarrow> sys_state \<Rightarrow> bregs \<times> sys_state" where
  "handle_1589 regs st =
     (let st1 = sys_event (PicReset (bl regs) (bh regs)) (snd (set_a20 True st));
          st2 = upd_mem (set_mem 8 (gdt_entry regs 7) (GDT_CODE OR GDT_LIMIT (BUILD_BIOS_SIZE - 1) OR GDT_BASE BUILD_BIOS_ADDR)) st1;
          r1 = regs\<lparr>ds := push_bit 3 3, es := push_bit 3 4, cs_ip := (cs_ip regs AND 0xffff) OR push_bit 16 (push_bit 3 6)\<rparr>
      in (set_code_success r1, st2))"

definition handle_154f :: "bregs \<Rightarrow> bregs" where "handle_154f regs = set_invalid_silent regs"

definition BIOS_CONFIG_TABLE_addr :: u16 where "BIOS_CONFIG_TABLE_addr = 0xe6f5"

definition handle_15c0 :: "bregs \<Rightarrow> bregs" where
  "handle_15c0 regs = set_code_success (set_bx BIOS_CONFIG_TABLE_addr (regs\<lparr>es := SEG_BIOS\<rparr>))"

definition handle_15c1 :: "bregs \<Rightarrow> sys_state \<Rightarrow> bregs" where
  "handle_15c1 regs st = set_success (regs\<lparr>es := get_ebda_seg (sy_mem st)\<rparr>)"

definition handle_15XX :: "bregs \<Rightarrow> bregs" where
  "handle_15XX regs = set_code_invalid_silent RET_EUNSUPPORTED regs"

section \<open>Power management\<close>

definition RET_ENOEVENT :: u8 where "RET_ENOEVENT = 0x80"

definition set_si :: "u16 \<Rightarrow> bregs \<Rightarrow> bregs" where "set_si v r = esi_update (put16 v) r"
definition set_di :: "u16 \<Rightarrow> bregs \<Rightarrow> bregs" where "set_di v r = edi_update (put16 v) r"

definition handle_155300 :: "bregs \<Rightarrow> bregs" where
  "handle_155300 regs = set_success (set_cx 3 (set_bl 0x4d (set_bh 0x50 (set_al 2 (set_ah 1 regs)))))"

definition handle_155301 :: "bregs \<Rightarrow> bregs" where "handle_155301 regs = set_success regs"

definition handle_155302 :: "sys_env \<Rightarrow> bregs \<Rightarrow> bregs" where
  "handle_155302 env regs =
     set_success (set_di 0xfff0 (set_cx SEG_BIOS (set_si 0xfff0 (set_ax SEG_BIOS (set_bx (ucast (entry_apm16 env)) regs)))))"

definition handle_155303 :: "sys_env \<Rightarrow> bregs \<Rightarrow> bregs" where
  "handle_155303 env regs =
     (let r1 = set_ax SEG_BIOS regs; r2 = r1\<lparr>ebx := entry_apm32 env\<rparr>; r3 = set_cx SEG_BIOS r2;
          r4 = r3\<lparr>esi := 0xfff0fff0\<rparr>
      in set_success (set_di 0xfff0 (set_dx SEG_BIOS r4)))"

definition handle_155304 :: "bregs \<Rightarrow> bregs" where "handle_155304 regs = set_success regs"

definition handle_155305 :: "bregs \<Rightarrow> sys_state \<Rightarrow> bregs \<times> sys_state" where
  "handle_155305 regs st = (set_success regs, sys_event YieldToIrq st)"

definition handle_155306 :: "bregs \<Rightarrow> bregs" where "handle_155306 regs = set_success regs"

definition apm_shutdown :: "sys_env \<Rightarrow> sys_state \<Rightarrow> sys_state" where
  "apm_shutdown env st = (if pm1a_cnt env \<noteq> 0 then sys_event (OutW 0x2000 (pm1a_cnt env)) st else st)"

definition handle_155307 :: "sys_env \<Rightarrow> bregs \<Rightarrow> sys_state \<Rightarrow> sys_result" where
  "handle_155307 env regs st =
     (if bx regs \<noteq> 1 then Returns (set_success regs) st
      else if cx regs = 3 then Halts (apm_shutdown env st)
      else Returns (set_success regs) st)"

definition handle_155308 :: "bregs \<Rightarrow> bregs" where "handle_155308 regs = set_success regs"

definition handle_15530a :: "bregs \<Rightarrow> bregs" where
  "handle_15530a regs = set_success (set_si 0 (set_dx 0xffff (set_cl 0xff (set_ch 0x80 (set_bl 0xff (set_bh 1 regs))))))"

definition handle_15530b :: "bregs \<Rightarrow> bregs" where "handle_15530b regs = set_code_invalid_silent RET_ENOEVENT regs"
definition handle_15530e :: "bregs \<Rightarrow> bregs" where "handle_15530e regs = set_success (set_al 2 (set_ah 1 regs))"
definition handle_15530f :: "bregs \<Rightarrow> bregs" where "handle_15530f regs = set_success regs"
definition handle_155310 :: "bregs \<Rightarrow> bregs" where "handle_155310 regs = set_success (set_cx 0 (set_bl 0 regs))"
definition handle_1553XX :: "bregs \<Rightarrow> bregs" where "handle_1553XX regs = set_invalid_silent regs"

definition handle_1553 :: "sys_env \<Rightarrow> bregs \<Rightarrow> sys_state \<Rightarrow> sys_result" where
  "handle_1553 env regs st =
     (let f = al regs; keep = (\<lambda>r. Returns r st) in
      if f = 0x00 then keep (handle_155300 regs)
      else if f = 0x01 then keep (handle_155301 regs)
      else if f = 0x02 then keep (handle_155302 env regs)
      else if f = 0x03 then keep (handle_155303 env regs)
      else if f = 0x04 then keep (handle_155304 regs)
      else if f = 0x05 then returns (handle_155305 regs st)
      else if f = 0x06 then keep (handle_155306 regs)
      else if f = 0x07 then handle_155307 env regs st
      else if f = 0x08 then keep (handle_155308 regs)
      else if f = 0x0a then keep (handle_15530a regs)
      else if f = 0x0b then keep (handle_15530b regs)
      else if f = 0x0e then keep (handle_15530e regs)
      else if f = 0x0f then keep (handle_15530f regs)
      else if f = 0x10 then keep (handle_155310 regs)
      else keep (handle_1553XX regs))"

section \<open>Dispatch\<close>

text \<open>The services of the mouse and of the clock run on the shared memory.\<close>

definition on_mouse :: "(mouse_state \<Rightarrow> bregs \<times> mouse_state) \<Rightarrow> sys_state \<Rightarrow> bregs \<times> sys_state" where
  "on_mouse f st =
     (let (r, ms) = f \<lparr>mmem = sy_mem st, mlog = sy_mouse st\<rparr>
      in (r, (upd_mem (\<lambda>_. mmem ms) st)\<lparr>sy_mouse := mlog ms\<rparr>))"

definition on_clock :: "(clock_state \<Rightarrow> bregs \<times> clock_state) \<Rightarrow> sys_state \<Rightarrow> bregs \<times> sys_state" where
  "on_clock f st = (let (r, ck) = f (sy_clock st) in (r, st\<lparr>sy_clock := ck\<rparr>))"

definition handle_15 :: "sys_env \<Rightarrow> bregs \<Rightarrow> sys_state \<Rightarrow> sys_result" where
  "handle_15 env regs st =
     (let f = ah regs; keep = (\<lambda>r. Returns r st) in
      if f = 0x24 then returns (handle_1524 regs st)
      else if f = 0x4f then keep (handle_154f regs)
      else if f = 0x52 then keep (handle_1552 regs)
      else if f = 0x53 then handle_1553 env regs st
      else if f = 0x5f then keep (handle_155f env regs)
      else if f = 0x7f then keep (handle_157f env regs)
      else if f = 0x83 then returns (on_clock (handle_1583 regs) st)
      else if f = 0x86 then
        (case handle_1586 (seg_ss env) (status_offset env) (irqs env) regs (sy_clock st) of
           None \<Rightarrow> Waits
         | Some (r, _, ck) \<Rightarrow> Returns r (st\<lparr>sy_clock := ck\<rparr>))
      else if f = 0x87 then returns (handle_1587 env regs st)
      else if f = 0x88 then keep (handle_1588 regs st)
      else if f = 0x90 then keep regs
      else if f = 0x91 then keep regs
      else if f = 0xc0 then keep (handle_15c0 regs)
      else if f = 0xc1 then keep (handle_15c1 regs st)
      else if f = 0xc2 then returns (on_mouse (handle_15c2 (mouse_drv env) regs) st)
      else if f = 0xe8 then returns (handle_15e8 regs st)
      else keep (handle_15XX regs))"

end
