(* ===== verification/SystemProps.thy ===== *)
theory SystemProps
  imports System
begin

text \<open>
  What the system services promise: a caller that walks the memory map gets all of it, the sizes reported are
  those of the RAM, and the copy of extended memory moves exactly the words asked for.
\<close>

section \<open>The memory map\<close>

text \<open>The loop of an operating system: it calls the service with the continuation value it got last, until that is
zero, and collects what it finds in its buffer. It gives up after \<open>n\<close> calls or at an error.\<close>

fun e820_walk :: "sys_env \<Rightarrow> bregs \<Rightarrow> nat \<Rightarrow> u32 \<Rightarrow> sys_state \<Rightarrow> u8 list list option" where
  "e820_walk env regs 0 cont st = None"
| "e820_walk env regs (Suc n) cont st =
     (case handle_15 env (regs\<lparr>ebx := cont\<rparr>) st of
        Returns r st1 \<Rightarrow>
          if carry r then None
          else
            let e = mem_read (sy_mem st1) (MAKE_FLATPTR (es regs) (ucast (di regs))) 20
            in if ebx r = 0 then Some [e] else map_option (\<lambda>es. e # es) (e820_walk env regs n (ebx r) st1)
      | _ \<Rightarrow> None)"

lemma upd_mem_sel [simp]:
  "sy_mem (upd_mem f st) = f (sy_mem st)" "sy_alloc (upd_mem f st) = sy_alloc st" "sy_a20 (upd_mem f st) = sy_a20 st"
  by (simp_all add: upd_mem_def)

lemma length_e820_bytes [simp]: "length (e820_bytes e) = 20"
  by (simp add: e820_bytes_def)

lemma handle_15_e820:
  assumes "ah regs = 0xe8" "al regs = 0x20" "edx regs = SMAP" "20 \<le> ecx regs"
    and "m_e820 (sy_alloc st) = es820" "k < length es820" "length es820 \<le> 32"
  shows "\<exists>r st1. handle_15 env (regs\<lparr>ebx := of_nat k\<rparr>) st = Returns r st1 \<and> \<not> carry r \<and>
    ebx r = (if k + 1 = length es820 then 0 else of_nat (k + 1)) \<and> sy_alloc st1 = sy_alloc st \<and>
    mem_read (sy_mem st1) (MAKE_FLATPTR (es regs) (ucast (di regs))) 20 = e820_bytes (es820 ! k)"
proof -
  have k: "unat (r16 (of_nat k)) = k"
    using assms(6,7) by (simp add: r16_def unsigned_ucast_eq unat_of_nat take_bit_nat_eq_self)
  have b: "length (e820_bytes (es820 ! k)) = 20" by simp
  show ?thesis
    using assms k mem_read_write_same [of "e820_bytes (es820 ! k)" "MAKE_FLATPTR (es regs) (ucast (di regs))"]
    by (auto simp: handle_15_def handle_15e8_def handle_15e820_def Let_def set_success_def di_def not_less)
qed

lemma e820_walk_from:
  assumes "ah regs = 0xe8" "al regs = 0x20" "edx regs = SMAP" "20 \<le> ecx regs" "length es820 \<le> 32"
  shows "m_e820 (sy_alloc st) = es820 \<Longrightarrow> k < length es820 \<Longrightarrow>
    e820_walk env regs (length es820 - k) (of_nat k) st = Some (map e820_bytes (drop k es820))"
proof (induction "length es820 - k" arbitrary: k st)
  case 0
  then show ?case by simp
next
  case (Suc n)
  obtain r st1 where r: "handle_15 env (regs\<lparr>ebx := of_nat k\<rparr>) st = Returns r st1" "\<not> carry r"
      "ebx r = (if k + 1 = length es820 then 0 else of_nat (k + 1))" "sy_alloc st1 = sy_alloc st"
      "mem_read (sy_mem st1) (MAKE_FLATPTR (es regs) (ucast (di regs))) 20 = e820_bytes (es820 ! k)"
    using handle_15_e820 [OF assms(1-4) Suc.prems(1,2) assms(5), of env] by blast
  have drop: "drop k es820 = es820 ! k # drop (k + 1) es820" using Suc.prems(2) by (simp add: Cons_nth_drop_Suc)
  have len: "length es820 - k = Suc n" using Suc.hyps(2) by simp
  show ?case
  proof (cases "k + 1 = length es820")
    case True
    then show ?thesis by (simp add: len r drop)
  next
    case False
    have "e820_walk env regs (length es820 - (k + 1)) (of_nat (k + 1)) st1 = Some (map e820_bytes (drop (k + 1) es820))"
      using False Suc.prems r(4) Suc.hyps(2) by (intro Suc.hyps(1)) auto
    moreover have "length es820 - (k + 1) = n" using Suc.hyps(2) by simp
    moreover have "(of_nat (k + 1) :: u32) \<noteq> 0"
      using Suc.prems(2) assms(5) by (simp add: word_unat_eq_iff unat_word_ariths unat_of_nat)
    ultimately show ?thesis using False by (simp add: len r drop)
  qed
qed

text \<open>C25. An operating system that walks the memory map through interrupt 0x15, function 0xe820, gets every entry of
the map, in order, and the walk ends after as many calls as the map has entries.\<close>

theorem e820_walk_complete:
  assumes "ah regs = 0xe8" "al regs = 0x20" "edx regs = SMAP" "20 \<le> ecx regs"
    and "m_e820 (sy_alloc st) \<noteq> []" "length (m_e820 (sy_alloc st)) \<le> BUILD_MAX_E820"
  shows "e820_walk env regs (length (m_e820 (sy_alloc st))) 0 st = Some (map e820_bytes (m_e820 (sy_alloc st)))"
  using e820_walk_from [OF assms(1-4), of "m_e820 (sy_alloc st)" st 0 env] assms(5,6)
  by (simp add: BUILD_MAX_E820_def)

section \<open>Memory sizes\<close>

lemma unat_sub_div:
  fixes a c d :: u32
  assumes "unat c \<le> unat a"
  shows "unat ((a - c) div d) = (unat a - unat c) div unat d"
  using assms by (simp add: unat_div unat_sub word_le_nat_alt)

lemma ucast16: "unat (x :: u32) < 65536 \<Longrightarrow> unat (ucast x :: u16) = unat x"
  by (simp add: unsigned_ucast_eq take_bit_nat_eq_self)

lemma kilobytes: "k = n div 1024 \<Longrightarrow> k * 1024 \<le> n \<and> n < k * 1024 + (1024 :: nat)"
  by (metis div_times_less_eq_dividend dividend_less_div_times add.commute zero_less_numeral)

lemma blocks64: "k = n div 65536 \<Longrightarrow> k * 65536 \<le> n \<and> n < k * 65536 + (65536 :: nat)"
  by (metis div_times_less_eq_dividend dividend_less_div_times add.commute zero_less_numeral)

lemma ext_memory_801:
  assumes rs: "unat (LegacyRamSize (sy_alloc st)) = 0x100000 + n"
  shows "let r = handle_15e801 regs st; k = unat (cx r) * 1024 + unat (dx r) * 65536
      in k \<le> n \<and> n < k + 65536 \<and> ax r = cx r \<and> bx r = dx r"
proof (cases "LegacyRamSize (sy_alloc st) > 16 * 1024 * 1024")
  case True
  define q where "q = ((LegacyRamSize (sy_alloc st) - 16777216) div 65536 :: u32)"
  have big: "16777216 < 0x100000 + n" using True rs by (simp add: word_less_nat_alt)
  then have uq: "unat q = (0x100000 + n - 16777216) div 65536"
    unfolding q_def using rs by (subst unat_sub_div) simp_all
  moreover have "0x100000 + n < 2 ^ 32" using unat_u32_bound [of "LegacyRamSize (sy_alloc st)"] rs by simp
  ultimately have "unat q < 65536" by (simp add: div_less_iff_less_mult)
  then have dx: "unat (ucast q :: u16) = (0x100000 + n - 16777216) div 65536" using uq ucast16 by simp
  show ?thesis using True blocks64 [OF dx] big by (auto simp: handle_15e801_def Let_def set_success_def simp flip: q_def)
next
  case False
  define q where "q = ((LegacyRamSize (sy_alloc st) - 1048576) div 1024 :: u32)"
  have small: "0x100000 + n \<le> 16777216" using False rs by (simp add: word_less_nat_alt not_less)
  then have uq: "unat q = n div 1024" unfolding q_def using rs by (subst unat_sub_div) simp_all
  then have "unat q < 65536" using small by (simp add: div_less_iff_less_mult)
  then have "unat (ucast q :: u16) = n div 1024" using uq ucast16 by simp
  note kilobytes [OF this]
  then show ?thesis using False by (simp add: handle_15e801_def Let_def set_success_def flip: q_def)
qed

lemma ext_memory_88:
  assumes rs: "unat (LegacyRamSize (sy_alloc st)) = 0x100000 + n"
  shows "let k = unat (ax (handle_1588 regs st)) * 1024 in k \<le> n \<and> (n \<le> 63 * 0x100000 \<longrightarrow> n < k + 1024)"
proof (cases "LegacyRamSize (sy_alloc st) > 64 * 1024 * 1024")
  case True
  then have "67108864 < 0x100000 + n" using rs by (simp add: word_less_nat_alt)
  then show ?thesis using True by (simp add: handle_1588_def Let_def set_success_def)
next
  case False
  define q where "q = ((LegacyRamSize (sy_alloc st) - 1048576) div 1024 :: u32)"
  have small: "0x100000 + n \<le> 67108864" using False rs by (simp add: word_less_nat_alt not_less)
  then have uq: "unat q = n div 1024" unfolding q_def using rs by (subst unat_sub_div) simp_all
  then have "unat q < 65536" using small by (simp add: div_less_iff_less_mult)
  then have "unat (ucast q :: u16) = n div 1024" using uq ucast16 by simp
  note kilobytes [OF this]
  then show ?thesis using False by (simp add: handle_1588_def Let_def set_success_def flip: q_def)
qed

text \<open>
  For RAM from one megabyte on, function 0xe801 reports the memory above one megabyte up to less than 64 KB,
and function 0x88 never reports more than there is, and all of it, in whole kilobytes, up to 64 MB.\<close>

theorem ext_memory_sizes:
  assumes rs: "unat (LegacyRamSize (sy_alloc st)) = 0x100000 + n"
  shows "(let r = handle_15e801 regs st; k = unat (cx r) * 1024 + unat (dx r) * 65536
      in k \<le> n \<and> n < k + 65536 \<and> ax r = cx r \<and> bx r = dx r) \<and>
    (let k = unat (ax (handle_1588 regs st)) * 1024 in k \<le> n \<and> (n \<le> 63 * 0x100000 \<longrightarrow> n < k + 1024))"
  using ext_memory_801 [OF rs] ext_memory_88 [OF rs] by (rule conjI)

section \<open>Copying extended memory\<close>

lemma desc_masks:
  "(0x00ffffff :: u64) = mask 24" "(0xff000000 :: u64) = push_bit 24 (mask 8)" "(0x000f0000 :: u64) = push_bit 16 (mask 4)"
  "(0x0000ffff :: u64) = mask 16"
  by (simp_all add: mask_eq_exp_minus_1)

lemma GDT_DATA_bits:
  assumes "bit GDT_DATA j"
  shows "40 \<le> j \<and> j < 48"
proof -
  define c :: u8 where "c = 0x93"
  have c: "(0x93 :: u64) = ucast c" by (simp add: c_def)
  have j: "40 \<le> j" "bit (ucast c :: u64) (j - 40)"
    using assms unfolding GDT_DATA_def bit_push_bit_iff c by blast+
  then have "bit c (j - 40)" unfolding bit_ucast_iff by blast
  then have "j - 40 < 8" using bit_imp_le_length [of c "j - 40"] by simp
  then show ?thesis using j(1) by linarith
qed

lemma desc_base_data [simp]: "desc_base (GDT_DATA OR GDT_LIMIT n OR GDT_BASE loc) = loc"
proof (rule bit_word_eqI)
  fix i assume "i < LENGTH(32)"
  then have i: "i < 32" by simp
  have lim: "bit (GDT_LIMIT n) j \<Longrightarrow> j < 16 \<or> 48 \<le> j \<and> j < 52" for j
    unfolding GDT_LIMIT_def desc_masks by (auto simp: bit_simps)
  have base: "bit (GDT_BASE loc) j \<longleftrightarrow> 16 \<le> j \<and> j < 40 \<and> bit loc (j - 16) \<or> 56 \<le> j \<and> j < 64 \<and> bit loc (j - 32)" for j
    unfolding GDT_BASE_def desc_masks by (auto simp: bit_simps)
  define d where "d = GDT_DATA OR GDT_LIMIT n OR GDT_BASE loc"
  have "bit d (i + 16) \<longleftrightarrow> bit loc i" if "i < 24"
    using that GDT_DATA_bits [of "i + 16"] lim [of "i + 16"] by (auto simp: d_def bit_or_iff base)
  moreover have "bit d (i + 32) \<longleftrightarrow> bit loc i" if "24 \<le> i"
    using that i GDT_DATA_bits [of "i + 32"] lim [of "i + 32"] by (auto simp: d_def bit_or_iff base)
  moreover have "bit (desc_base d) i \<longleftrightarrow> i < 24 \<and> bit d (i + 16) \<or> 24 \<le> i \<and> bit d (i + 32)"
    using i unfolding desc_base_def desc_masks by (auto simp: bit_simps add.commute)
  ultimately show "bit (desc_base d) i = bit loc i" by (cases "i < 24") auto
qed

text \<open>The processor finds the caller's descriptors: what the handler writes to the table leaves them alone.\<close>

lemma gdt_entry_0: "MAKE_FLATPTR (es regs) (ucast (r16 (esi regs))) = gdt_entry regs 0"
  by (simp add: gdt_entry_def)

lemma gdt_entry_step: "gdt_entry regs (Suc 0) = gdt_entry regs 0 + 8" "gdt_entry regs 1 = gdt_entry regs 0 + 8" "gdt_entry regs 2 = gdt_entry regs 0 + 16"
  "gdt_entry regs 3 = gdt_entry regs 0 + 24" "gdt_entry regs 4 = gdt_entry regs 0 + 32" "gdt_entry regs 5 = gdt_entry regs 0 + 40"
  by (simp_all add: gdt_entry_def MAKE_FLATPTR_def)

lemma handle_1587_table:
  fixes env :: sys_env and regs :: bregs and m :: mem
  defines "m' \<equiv> handle_1587_gdt env regs m"
  shows "desc_base (get_mem 8 (gdt_entry regs 1) m') = gdt_entry regs 0"
    and "get_mem 8 (gdt_entry regs 2) m' = (get_mem 8 (gdt_entry regs 2) m :: u64)"
    and "get_mem 8 (gdt_entry regs 3) m' = (get_mem 8 (gdt_entry regs 3) m :: u64)"
  by (simp_all add: m'_def handle_1587_gdt_def Let_def gdt_entry_0 gdt_entry_step apart_at_def)

lemma handle_1587_gdt_far:
  assumes "48 \<le> unat (a - gdt_entry regs 0)"
  shows "handle_1587_gdt env regs m a = m a"
proof -
  have far: "8 \<le> unat (a - (gdt_entry regs 0 + of_nat k))" if "k \<le> 40" for k
    using unat_diff_step [of k a "gdt_entry regs 0"] assms that by simp
  show ?thesis
    using far [of 8] far [of 32] far [of 40]
    by (simp add: handle_1587_gdt_def Let_def gdt_entry_step set_mem_far)
qed

definition copy_source :: "bregs \<Rightarrow> sys_state \<Rightarrow> u32" where
  "copy_source regs st = desc_base (get_mem 8 (gdt_entry regs 2) (sy_mem st))"

definition copy_dest :: "bregs \<Rightarrow> sys_state \<Rightarrow> u32" where
  "copy_dest regs st = desc_base (get_mem 8 (gdt_entry regs 3) (sy_mem st))"

lemma handle_1587_copies_block:
  assumes n: "2 * unat (cx regs) = n" "n \<le> 0x10000" and up: "up_safe (copy_dest regs st) (copy_source regs st) n"
  shows "sy_mem (snd (handle_1587 env regs st)) =
    block_copy (copy_dest regs st) (copy_source regs st) n (handle_1587_gdt env regs (sy_mem st))"
proof -
  define m where "m = handle_1587_gdt env regs (sy_mem st)"
  define d s where "d = copy_dest regs st" and "s = copy_source regs st"
  have t: "gdt_entry regs 0 + 16 = gdt_entry regs 2" "gdt_entry regs 0 + 24 = gdt_entry regs 3"
    by (simp_all add: gdt_entry_step)
  have "handle_1587_copy regs m = (if bit (cx regs) 0 then rep_movs16 2 (unat (cx regs)) d 0 s 0 m
      else rep_movs16 4 (unat (drop_bit 1 (cx regs))) d 0 s 0 m)"
    unfolding handle_1587_copy_def Let_def m_def handle_1587_table t
    by (simp add: handle_1587_table d_def s_def copy_dest_def copy_source_def)
  also have "\<dots> = block_copy d s n m"
  proof (cases "bit (cx regs) 0")
    case True
    then show ?thesis using rep_movs16_eq [of d 0 s 0 2 "unat (cx regs)" m] n up by (simp add: d_def s_def)
  next
    case False
    have "\<not> bit (unat (cx regs)) 0" using False by (simp add: bit_unsigned_iff)
    then have "2 dvd unat (cx regs)" by (simp add: bit_0)
    then have e: "4 * unat (drop_bit 1 (cx regs)) = n"
      using n(1) by (auto simp: unsigned_drop_bit_eq drop_bit_Suc unat_div elim!: dvdE)
    then show ?thesis using False rep_movs16_eq [of d 0 s 0 4 "unat (drop_bit 1 (cx regs))" m] n up
      by (simp add: d_def s_def)
  qed
  finally show ?thesis
    by (simp add: handle_1587_def set_a20_def m_def d_def s_def Let_def) 
qed

text \<open>
  Function 0x87 copies exactly the words asked for, up to 64 KB, from the source to the destination of the
caller's descriptors, wherever in the 4 GB they lie: source bytes outside the table arrive unchanged, memory outside
destination and table is as before, and so is the A20 line.\<close>

theorem handle_1587_copies:
  assumes n: "2 * unat (cx regs) = n" "n \<le> 0x10000" and up: "up_safe (copy_dest regs st) (copy_source regs st) n"
    and call: "handle_1587 env regs st = (r, st')"
  shows "\<not> carry r \<and> sy_a20 st' = sy_a20 st \<and>
    (\<forall>i < n. 48 \<le> unat (copy_source regs st + of_nat i - gdt_entry regs 0) \<longrightarrow>
       sy_mem st' (copy_dest regs st + of_nat i) = sy_mem st (copy_source regs st + of_nat i)) \<and>
    (\<forall>a. n \<le> unat (a - copy_dest regs st) \<longrightarrow> 48 \<le> unat (a - gdt_entry regs 0) \<longrightarrow> sy_mem st' a = sy_mem st a)"
proof -
  have m: "sy_mem st' = block_copy (copy_dest regs st) (copy_source regs st) n (handle_1587_gdt env regs (sy_mem st))"
    using handle_1587_copies_block [OF n up, of env] call by simp
  have "\<not> carry r" "sy_a20 st' = sy_a20 st"
    using call by (auto simp: handle_1587_def set_a20_def Let_def set_code_success_def)
  moreover have "sy_mem st' (copy_dest regs st + of_nat i) = sy_mem st (copy_source regs st + of_nat i)"
    if "i < n" "48 \<le> unat (copy_source regs st + of_nat i - gdt_entry regs 0)" for i
  proof -
    have "unat (of_nat i :: u32) = i" using that(1) n(2) by (simp add: unat_of_nat)
    then show ?thesis using that by (simp add: m block_copy_def handle_1587_gdt_far)
  qed
  moreover have "sy_mem st' a = sy_mem st a" if "n \<le> unat (a - copy_dest regs st)" "48 \<le> unat (a - gdt_entry regs 0)" for a
    using that by (simp add: m block_copy_def handle_1587_gdt_far)
  ultimately show ?thesis by blast
qed

section \<open>A concrete machine\<close>

definition sys_env0 :: sys_env where
  "sys_env0 = \<lparr>in_post = False, seg_ss = 0x2000, status_offset = 0x100, irqs = [], entry_apm16 = 0, entry_apm32 = 0,
     pm1a_cnt = 0xb004, mouse_drv = mouse_quiet, handle_155f = id, handle_157f = id\<rparr>"

definition clock0 :: clock_state where
  "clock0 = \<lparr>cmem = (\<lambda>a. ucast a), rtc_regs = (\<lambda>_. 0), Century = 0x20, RTCusers = 0, FloppyDOR = 0, cevents = []\<rparr>"

definition alloc0 :: mstate where
  "alloc0 = \<lparr>zones = (\<lambda>_. []), handles = (\<lambda>_. 0), m_e820 = e820_sample, RomEnd = 0, RomBase = None,
     LegacyRamSize = 0x8000000\<rparr>"

definition sys0 :: sys_state where
  "sys0 = \<lparr>sy_clock = clock0, sy_mouse = [], sy_alloc = alloc0, sy_a20 = False, sy_events = []\<rparr>"

theorem e820_walk_complete_witness:
  "e820_walk sys_env0 (bregs_zero\<lparr>eax := 0xe820, edx := SMAP, ecx := 20, edi := 0x7000\<rparr>) 2 0 sys0 =
     Some (map e820_bytes e820_sample)"
proof -
  have l: "m_e820 (sy_alloc sys0) = e820_sample" "length e820_sample = 2" "e820_sample \<noteq> []"
    by (simp_all add: sys0_def alloc0_def e820_sample_def)
  show ?thesis
    using e820_walk_complete [of "bregs_zero\<lparr>eax := 0xe820, edx := SMAP, ecx := 20, edi := 0x7000\<rparr>" sys0 sys_env0]
    by (simp add: l bregs_zero_def rh_def rl_def BUILD_MAX_E820_def)
qed

theorem ext_memory_sizes_witness:
  "unat (ax (handle_1588 bregs_zero sys0)) * 1024 \<le> 127 * 0x100000"
  using ext_memory_sizes [of sys0 "127 * 0x100000" bregs_zero] by (simp add: sys0_def alloc0_def Let_def)

text \<open>A table at 0x9000 whose source is 0x200000 and whose destination is 0x300000, and a copy of six bytes.\<close>

definition copy_regs :: bregs where "copy_regs = bregs_zero\<lparr>es := 0x900, ecx := 3\<rparr>"

definition sys_copy :: sys_state where
  "sys_copy = upd_mem (set_mem 8 0x9010 (GDT_DATA OR GDT_LIMIT 0xffff OR GDT_BASE 0x200000))
     (upd_mem (set_mem 8 0x9018 (GDT_DATA OR GDT_LIMIT 0xffff OR GDT_BASE 0x300000)) sys0)"

lemma copy_entries: "gdt_entry copy_regs 0 = 0x9000" "gdt_entry copy_regs 2 = 0x9010" "gdt_entry copy_regs 3 = 0x9018"
  by (simp_all add: gdt_entry_def copy_regs_def bregs_zero_def MAKE_FLATPTR_def r16_def)

lemma copy_where: "copy_source copy_regs sys_copy = 0x200000" "copy_dest copy_regs sys_copy = 0x300000"
  by (simp_all add: copy_source_def copy_dest_def copy_entries sys_copy_def apart_at_def)

theorem handle_1587_copies_witness:
  "sy_mem (snd (handle_1587 sys_env0 copy_regs sys_copy)) 0x300005 = sy_mem sys_copy 0x200005"
proof -
  have c: "cx copy_regs = 3" by (simp add: copy_regs_def bregs_zero_def r16_def)
  from handle_1587_copies [of copy_regs 6 sys_copy sys_env0, OF _ _ _ prod.collapse [symmetric]]
  have "\<forall>i < 6. 48 \<le> unat (0x200000 + of_nat i - 0x9000 :: u32) \<longrightarrow>
      sy_mem (snd (handle_1587 sys_env0 copy_regs sys_copy)) (0x300000 + of_nat i) = sy_mem sys_copy (0x200000 + of_nat i)"
    by (simp add: c copy_where copy_entries up_safe_def)
  from this [rule_format, of 5] show ?thesis by simp
qed

end
