(* ===== verification/Blockcmd.thy ===== *)
theory Blockcmd
  imports Block Boot ByteOrder Timer
begin

text \<open>
  The SCSI commands of \<open>src/hw/blockcmd.c\<close>: the 16-byte command blocks, the translation of a disk operation
  into one, the wait until a device is ready, and the scan of the logical units of a target.

  A command block and its response are local variables of the code; their addresses are parameters of the
  model, because the drivers read and write them by address. The drivers only change the count of an
  operation. The timer is read at each check: \<open>sc_clock\<close> says what the counters show at each reading.
\<close>

section \<open>Definitions of \<open>blockcmd.h\<close>\<close>

definition CMD_SCSI :: u8 where "CMD_SCSI = 0x20"
definition CDB_CMD_READ_10 :: u8 where "CDB_CMD_READ_10 = 0x28"
definition CDB_CMD_WRITE_10 :: u8 where "CDB_CMD_WRITE_10 = 0x2a"
definition CDB_CMD_READ_CAPACITY :: u8 where "CDB_CMD_READ_CAPACITY = 0x25"
definition CDB_CMD_TEST_UNIT_READY :: u8 where "CDB_CMD_TEST_UNIT_READY = 0x00"
definition CDB_CMD_INQUIRY :: u8 where "CDB_CMD_INQUIRY = 0x12"
definition CDB_CMD_REQUEST_SENSE :: u8 where "CDB_CMD_REQUEST_SENSE = 0x03"
definition CDB_CMD_MODE_SENSE :: u8 where "CDB_CMD_MODE_SENSE = 0x5a"
definition CDB_CMD_REPORT_LUNS :: u8 where "CDB_CMD_REPORT_LUNS = 0xa0"
definition MODE_PAGE_HD_GEOMETRY :: u8 where "MODE_PAGE_HD_GEOMETRY = 0x04"

lemmas cdb_defs = CMD_SCSI_def CDB_CMD_READ_10_def CDB_CMD_WRITE_10_def CDB_CMD_READ_CAPACITY_def
  CDB_CMD_TEST_UNIT_READY_def CDB_CMD_INQUIRY_def CDB_CMD_REQUEST_SENSE_def CDB_CMD_MODE_SENSE_def
  CDB_CMD_REPORT_LUNS_def MODE_PAGE_HD_GEOMETRY_def CMD_READ_def CMD_WRITE_def

text \<open>The sizes of the command blocks and of the responses.\<close>

definition sizeof_cdb :: nat where "sizeof_cdb = 16"
definition sizeof_inquiry :: u16 where "sizeof_inquiry = 36"
definition sizeof_sense :: u16 where "sizeof_sense = 18"
definition sizeof_capacity :: u16 where "sizeof_capacity = 8"
definition sizeof_geom :: u16 where "sizeof_geom = 27"

text \<open>The second part of the union in \<open>disk_op_s\<close>: \<open>blocksize\<close> in the low 16 bits of \<open>lba\<close> and, aligned to
  a word, the pointer \<open>cdbcmd\<close> in the high 32.\<close>

definition op_blocksize :: "disk_op_s \<Rightarrow> u16" where "op_blocksize opn = ucast (lba opn)"
definition op_cdbcmd :: "disk_op_s \<Rightarrow> u32" where "op_cdbcmd opn = ucast (drop_bit 32 (lba opn))"

definition set_blocksize :: "u16 \<Rightarrow> disk_op_s \<Rightarrow> disk_op_s" where
  "set_blocksize b opn = opn\<lparr>lba := (lba opn AND NOT 0xffff) OR ucast b\<rparr>"

definition set_cdbcmd :: "u32 \<Rightarrow> disk_op_s \<Rightarrow> disk_op_s" where
  "set_cdbcmd p opn = opn\<lparr>lba := (lba opn AND 0xffffffff) OR push_bit 32 (ucast p)\<rparr>"

section \<open>Low level command requests\<close>

text \<open>The common end of the requests in 32-bit mode: the operation is filled in and processed. Result: the
  status, the operation with the count that the driver left, and the state.\<close>

definition scsi_request ::
    "disk_drivers \<Rightarrow> u16 \<Rightarrow> u32 \<Rightarrow> u32 \<Rightarrow> u16 \<Rightarrow> disk_op_s \<Rightarrow> disk_state \<Rightarrow> int \<times> disk_op_s \<times> disk_state" where
  "scsi_request drv n data cmd size1 opn st =
     (let opn1 = set_blocksize size1 (set_cdbcmd cmd (opn\<lparr>command := CMD_SCSI, op_count := n, buf_fl := data\<rparr>));
          (ret, n1, st1) = process_op False drv opn1 st
      in (ret, opn1\<lparr>op_count := n1\<rparr>, st1))"

definition cdb_clear :: "u32 \<Rightarrow> u8 \<Rightarrow> mem \<Rightarrow> mem" where
  "cdb_clear cmd c m = (memset cmd 0 sizeof_cdb m)(cmd := c)"

definition cdb_get_inquiry ::
    "disk_drivers \<Rightarrow> u32 \<Rightarrow> u32 \<Rightarrow> disk_op_s \<Rightarrow> disk_state \<Rightarrow> int \<times> disk_op_s \<times> disk_state" where
  "cdb_get_inquiry drv cmd data opn st =
     scsi_request drv 1 data cmd sizeof_inquiry opn
       (st\<lparr>dmem := (cdb_clear cmd CDB_CMD_INQUIRY (dmem st))(cmd + 4 := ucast sizeof_inquiry)\<rparr>)"

definition cdb_get_sense ::
    "disk_drivers \<Rightarrow> u32 \<Rightarrow> u32 \<Rightarrow> disk_op_s \<Rightarrow> disk_state \<Rightarrow> int \<times> disk_op_s \<times> disk_state" where
  "cdb_get_sense drv cmd data opn st =
     scsi_request drv 1 data cmd sizeof_sense opn
       (st\<lparr>dmem := (cdb_clear cmd CDB_CMD_REQUEST_SENSE (dmem st))(cmd + 4 := ucast sizeof_sense)\<rparr>)"

definition cdb_test_unit_ready ::
    "disk_drivers \<Rightarrow> u32 \<Rightarrow> disk_op_s \<Rightarrow> disk_state \<Rightarrow> int \<times> disk_op_s \<times> disk_state" where
  "cdb_test_unit_ready drv cmd opn st =
     scsi_request drv 0 0 cmd 0 opn (st\<lparr>dmem := cdb_clear cmd CDB_CMD_TEST_UNIT_READY (dmem st)\<rparr>)"

definition cdb_read_capacity ::
    "disk_drivers \<Rightarrow> u32 \<Rightarrow> u32 \<Rightarrow> disk_op_s \<Rightarrow> disk_state \<Rightarrow> int \<times> disk_op_s \<times> disk_state" where
  "cdb_read_capacity drv cmd data opn st =
     scsi_request drv 1 data cmd sizeof_capacity opn
       (st\<lparr>dmem := cdb_clear cmd CDB_CMD_READ_CAPACITY (dmem st)\<rparr>)"

definition cdb_mode_sense_geom ::
    "disk_drivers \<Rightarrow> u32 \<Rightarrow> u32 \<Rightarrow> disk_op_s \<Rightarrow> disk_state \<Rightarrow> int \<times> disk_op_s \<times> disk_state" where
  "cdb_mode_sense_geom drv cmd data opn st =
     scsi_request drv 1 data cmd sizeof_geom opn
       (st\<lparr>dmem := set_mem 2 (cmd + 7) (swab16 sizeof_geom)
          ((cdb_clear cmd CDB_CMD_MODE_SENSE (dmem st))(cmd + 1 := 8, cmd + 2 := MODE_PAGE_HD_GEOMETRY))\<rparr>)"

section \<open>Main SCSI commands\<close>

text \<open>\<open>scsi_fill_cmd\<close>: the block size or -1, and the memory with the command block at \<open>cdbcmd\<close>.\<close>

definition scsi_fill_cmd :: "bool \<Rightarrow> drive_s \<Rightarrow> disk_op_s \<Rightarrow> u32 \<Rightarrow> u32 \<Rightarrow> mem \<Rightarrow> int \<times> mem" where
  "scsi_fill_cmd modeseg drive opn cdbcmd maxcdb m =
     (if command opn = CMD_READ \<or> command opn = CMD_WRITE then
        let m1 = memset cdbcmd 0 (unat maxcdb) m;
            m2 = m1(cdbcmd := (if command opn = CMD_READ then CDB_CMD_READ_10 else CDB_CMD_WRITE_10));
            m3 = set_mem 4 (cdbcmd + 2) (swab32 (ucast (lba opn))) m2;
            m4 = set_mem 2 (cdbcmd + 7) (swab16 (op_count opn)) m3
        in (uint (blksize drive), m4)
      else if command opn = CMD_SCSI then
        if modeseg then (-1, m)
        else (uint (op_blocksize opn), memcpy cdbcmd (op_cdbcmd opn) maxcdb m)
      else (-1, m))"

definition scsi_is_read :: "bool \<Rightarrow> disk_op_s \<Rightarrow> bool" where
  "scsi_is_read modeseg opn \<longleftrightarrow>
     command opn = CMD_READ \<or> (\<not> modeseg \<and> command opn = CMD_SCSI \<and> op_blocksize opn \<noteq> 0)"

text \<open>What a request needs beside its arguments: the drivers, the counters at each reading of the timer,
  and the addresses of the local command block and response.\<close>

record scsi_env =
  sc_drivers :: disk_drivers
  sc_clock :: "nat \<Rightarrow> counters"
  sc_cmd :: u32
  sc_sense :: u32

record scsi_state =
  sc_disk :: disk_state
  sc_timer :: timer_state
  sc_time :: nat

definition sc_calc :: "scsi_env \<Rightarrow> u32 \<Rightarrow> scsi_state \<Rightarrow> u32 \<times> scsi_state" where
  "sc_calc env msecs st =
     (let (e, t) = timer_calc (sc_clock env (sc_time st)) msecs (sc_timer st)
      in (e, st\<lparr>sc_timer := t, sc_time := Suc (sc_time st)\<rparr>))"

definition sc_check :: "scsi_env \<Rightarrow> u32 \<Rightarrow> scsi_state \<Rightarrow> bool \<times> scsi_state" where
  "sc_check env lim st =
     (let (b, t) = timer_check (sc_clock env (sc_time st)) lim (sc_timer st)
      in (b, st\<lparr>sc_timer := t, sc_time := Suc (sc_time st)\<rparr>))"

text \<open>One pass of the loop of \<open>scsi_is_ready\<close> after the time check: it ends with a status, or goes on with
  the limit and the flag for a device that is getting ready.\<close>

datatype ready_step = ReadyDone int disk_op_s scsi_state | ReadyAgain bool u32 disk_op_s scsi_state

definition ready_pass :: "scsi_env \<Rightarrow> bool \<Rightarrow> u32 \<Rightarrow> disk_op_s \<Rightarrow> scsi_state \<Rightarrow> ready_step" where
  "ready_pass env in_progress lim opn st =
     (let (ret, opn1, d1) = cdb_test_unit_ready (sc_drivers env) (sc_cmd env) opn (sc_disk st)
      in if ret = 0 then ReadyDone 0 opn1 (st\<lparr>sc_disk := d1\<rparr>)
         else
           let (ret2, opn2, d2) = cdb_get_sense (sc_drivers env) (sc_cmd env) (sc_sense env) opn1 d1;
               st2 = st\<lparr>sc_disk := d2\<rparr>;
               asc = dmem d2 (sc_sense env + 12);
               ascq = dmem d2 (sc_sense env + 13)
           in if ret2 \<noteq> 0 then ReadyAgain in_progress lim opn2 st2
              else if asc = 0x3a then ReadyDone (-1) opn2 st2
              else if asc = 0x04 \<and> ascq = 0x01 \<and> \<not> in_progress then
                let (lim2, st3) = sc_calc env 30000 st2 in ReadyAgain True lim2 opn2 st3
              else ReadyAgain in_progress lim opn2 st2)"

partial_function (option) ready_loop ::
    "scsi_env \<Rightarrow> bool \<Rightarrow> u32 \<Rightarrow> disk_op_s \<Rightarrow> scsi_state \<Rightarrow> (int \<times> disk_op_s \<times> scsi_state) option" where
  "ready_loop env in_progress lim opn st =
     (let (late, st1) = sc_check env lim st
      in if late then Some (-1, opn, st1)
         else
           case ready_pass env in_progress lim opn st1 of
             ReadyDone ret opn2 st2 \<Rightarrow> Some (ret, opn2, st2)
           | ReadyAgain p lim2 opn2 st2 \<Rightarrow> ready_loop env p lim2 opn2 st2)"

definition scsi_is_ready :: "scsi_env \<Rightarrow> disk_op_s \<Rightarrow> scsi_state \<Rightarrow> (int \<times> disk_op_s \<times> scsi_state) option" where
  "scsi_is_ready env opn st = (let (lim, st1) = sc_calc env 5000 st in ready_loop env False lim opn st1)"

section \<open>Logical units\<close>

text \<open>\<open>scsilun2u64\<close> shifts an \<open>int\<close> by 0, 16, 32 and 48 bits and extends its sign; C leaves the shifts by 32 and 48
  undefined, so what they yield is a parameter \<open>shl\<close>.\<close>

definition lun_shift :: "(u32 \<Rightarrow> nat \<Rightarrow> u32) \<Rightarrow> u16 \<Rightarrow> nat \<Rightarrow> u64" where
  "lun_shift shl x k = scast (if k < 32 then push_bit k (ucast x) else shl (ucast x) k)"

definition scsilun2u64 :: "(u32 \<Rightarrow> nat \<Rightarrow> u32) \<Rightarrow> u32 \<Rightarrow> mem \<Rightarrow> u64" where
  "scsilun2u64 shl p m =
     foldl (\<lambda>ret i. ret OR lun_shift shl (swab16 (get_mem 2 (p + 2 * of_nat i) m)) (16 * i)) 0 [0..<4]"

text \<open>The state of a scan: the disks with the memory, and the allocator. The callback is given the unit and the
  drive; it may change the state, which may have more fields, and returns 0 for success.\<close>

record lun_state =
  ls_disk :: disk_state
  ls_fw :: fwstate

type_synonym 's add_lun = "u32 \<Rightarrow> u32 \<Rightarrow> 's \<Rightarrow> int \<times> 's"

text \<open>The loop over the units of the response at \<open>resp\<close>: \<open>n\<close> are left, \<open>i\<close> is the next.\<close>

fun lun_loop ::
    "(u32 \<Rightarrow> nat \<Rightarrow> u32) \<Rightarrow> u32 \<Rightarrow> 'a lun_state_scheme add_lun \<Rightarrow> u32 \<Rightarrow> nat \<Rightarrow> nat \<Rightarrow> int \<Rightarrow> 'a lun_state_scheme
      \<Rightarrow> int \<times> 'a lun_state_scheme" where
  "lun_loop shl resp add_lun drive i 0 ret s = (ret, s)"
| "lun_loop shl resp add_lun drive i (Suc n) ret s =
     (let l = scsilun2u64 shl (resp + 8 + 8 * of_nat i) (dmem (ls_disk s))
      in if drop_bit 32 l \<noteq> 0 then lun_loop shl resp add_lun drive (Suc i) n ret s
         else
           let (r, s1) = add_lun (ucast l) drive s
           in lun_loop shl resp add_lun drive (Suc i) n (ret + (if r = 0 then 1 else 0)) s1)"

text \<open>The loop that asks for the list with room for \<open>maxluns\<close> units, and again with more room when there are
  more: no memory, a failed request, or the buffer with the number of units.\<close>

datatype 's luns_result = LunsNoMem 's | LunsFailed u32 's | LunsGot u32 nat 's

function luns_fetch ::
    "disk_drivers \<Rightarrow> u32 \<Rightarrow> u32 \<Rightarrow> disk_op_s \<Rightarrow> 'a lun_state_scheme \<Rightarrow> 'a lun_state_scheme luns_result" where
  "luns_fetch drv cmd maxluns opn s =
     (let bs = (ucast (8 + maxluns * 8) :: u16);
          (fw, p) = malloc_tmp (ucast bs) (ls_fw s);
          opn1 = (set_blocksize bs opn)\<lparr>buf_fl := p\<rparr>
      in if p = 0 then LunsNoMem (s\<lparr>ls_fw := fw\<rparr>)
         else
           let d = ls_disk s;
               d1 = d\<lparr>dmem := set_mem 4 (cmd + 6) (swab32 (ucast bs)) (dmem d)\<rparr>;
               (ret, n, d2) = process_op False drv opn1 d1;
               s1 = s\<lparr>ls_fw := fw, ls_disk := d2\<rparr>;
               nluns = swab32 (get_mem 4 p (dmem d2)) div 8
           in if ret \<noteq> 0 then LunsFailed p s1
              else if nluns \<le> maxluns then LunsGot p (unat nluns) s1
              else luns_fetch drv cmd nluns (opn1\<lparr>op_count := n\<rparr>) (s1\<lparr>ls_fw := free p fw\<rparr>))"
  by pat_completeness auto
termination
proof (relation "measure (\<lambda>(drv, cmd, maxluns, opn, s). 2 ^ 32 - unat maxluns)", goal_cases)
  case (2 drv cmd maxluns opn s bs x fw p opn1 d d1 y ret z n d2 s1 nluns)
  then have "\<not> nluns \<le> maxluns" by blast
  then have "unat maxluns < unat nluns" by (simp only: word_le_nat_alt not_le)
  then show ?case using unat_u32_bound [of nluns] by simp
qed simp

declare luns_fetch.simps [simp del]

definition scsi_rep_luns_scan ::
    "disk_drivers \<Rightarrow> (u32 \<Rightarrow> nat \<Rightarrow> u32) \<Rightarrow> u32 \<Rightarrow> u32 \<Rightarrow> 'a lun_state_scheme add_lun \<Rightarrow> 'a lun_state_scheme
      \<Rightarrow> int \<times> 'a lun_state_scheme" where
  "scsi_rep_luns_scan drv shl cmd tmp_drive add_lun s =
     (let s0 = s\<lparr>ls_disk := (ls_disk s)\<lparr>dmem := cdb_clear cmd CDB_CMD_REPORT_LUNS (dmem (ls_disk s))\<rparr>\<rparr>;
          opn = set_cdbcmd cmd \<lparr>buf_fl = 0, drive_fl = tmp_drive, command = CMD_SCSI, op_count = 1, lba = 0\<rparr>
      in case luns_fetch drv cmd 1 opn s0 of
           LunsNoMem s1 \<Rightarrow> (-1, s1)
         | LunsFailed p s1 \<Rightarrow> (-1, s1\<lparr>ls_fw := free p (ls_fw s1)\<rparr>)
         | LunsGot p nluns s1 \<Rightarrow>
             (let (ret, s2) = lun_loop shl p add_lun tmp_drive 0 nluns 0 s1
              in (ret, s2\<lparr>ls_fw := free p (ls_fw s2)\<rparr>)))"

fun sequential_loop :: "'s add_lun \<Rightarrow> u32 \<Rightarrow> nat \<Rightarrow> nat \<Rightarrow> int \<Rightarrow> 's \<Rightarrow> int \<times> 's" where
  "sequential_loop add_lun drive i 0 ret s = (ret, s)"
| "sequential_loop add_lun drive i (Suc n) ret s =
     (let (r, s1) = add_lun (of_nat i) drive s
      in sequential_loop add_lun drive (Suc i) n (ret + (if r = 0 then 1 else 0)) s1)"

definition scsi_sequential_scan :: "u32 \<Rightarrow> u32 \<Rightarrow> 's add_lun \<Rightarrow> 's \<Rightarrow> int \<times> 's" where
  "scsi_sequential_scan tmp_drive maxluns add_lun s = sequential_loop add_lun tmp_drive 0 (unat maxluns) 0 s"

end
