(* ===== verification/Cdrom.thy ===== *)
theory Cdrom
  imports Blockcmd FarCopy
begin

text \<open>
  Booting from a CD (\<open>src/cdrom.c\<close>, the El Torito specification): the emulated drive, whose 512-byte sectors
  are read from the 2048-byte blocks of an image on the CD; the search for the boot image; and the label of
  the medium. The local buffer of the code has an address, \<open>cd_buffer\<close>. The drivers change nothing of an
  operation but its count. The measurement of the boot catalog by the TPM is left out.
\<close>

section \<open>CD emulation\<close>

definition DISK_RET_EWRITEPROTECT :: u8 where "DISK_RET_EWRITEPROTECT = 0x03"

text \<open>The variables of \<open>cdemu_read\<close>: the operation of the caller, the operation for the CD, and what is left to
  read. Each of its three parts returns the final status and operation, or goes on.\<close>

type_synonym cd_read = "disk_op_s \<times> disk_op_s \<times> int \<times> disk_state"
type_synonym cd_result = "int \<times> disk_op_s \<times> disk_state"

definition cdemu_first :: "disk_drivers \<Rightarrow> cd_read \<Rightarrow> cd_result + cd_read" where
  "cdemu_first drv = (\<lambda>(opn, dop, count, st).
     if lba opn AND 3 \<noteq> 0 then
       let dop1 = dop\<lparr>op_count := 1, buf_fl := bounce_buf_fl st\<rparr>;
           (ret, n, st1) = process_op True drv dop1 st
       in if ret \<noteq> 0 then Inl (ret, opn, st1)
          else
            let tc = (4 - ucast (lba opn AND 3) :: u8);
                thiscount = (if uint tc > count then word_of_int count else tc);
                m = memcpy_fl (buf_fl opn) (bounce_buf_fl st + ucast (lba opn AND 3) * 512)
                      (ucast thiscount * 512) (dmem st1)
            in Inr (opn\<lparr>buf_fl := buf_fl opn + ucast thiscount * 512, op_count := op_count opn + ucast thiscount\<rparr>,
                    dop1\<lparr>op_count := n, lba := lba dop1 + 1\<rparr>, count - uint thiscount, st1\<lparr>dmem := m\<rparr>)
     else Inr (opn, dop, count, st))"

definition cdemu_middle :: "disk_drivers \<Rightarrow> cd_read \<Rightarrow> cd_result + cd_read" where
  "cdemu_middle drv = (\<lambda>(opn, dop, count, st).
     if count > 3 then
       let dop1 = dop\<lparr>op_count := word_of_int (count div 4), buf_fl := buf_fl opn\<rparr>;
           (ret, n, st1) = process_op True drv dop1 st;
           opn1 = opn\<lparr>op_count := op_count opn + n * 4\<rparr>
       in if ret \<noteq> 0 then Inl (ret, opn1, st1)
          else
            let thiscount = (word_of_int count AND NOT 3 :: u8)
            in Inr (opn1\<lparr>buf_fl := buf_fl opn1 + ucast thiscount * 512\<rparr>,
                    dop1\<lparr>op_count := n, lba := lba dop1 + ucast (thiscount div 4)\<rparr>, count mod 4, st1)
     else Inr (opn, dop, count, st))"

definition cdemu_last :: "disk_drivers \<Rightarrow> cd_read \<Rightarrow> cd_result" where
  "cdemu_last drv = (\<lambda>(opn, dop, count, st).
     if count \<noteq> 0 then
       let dop1 = dop\<lparr>op_count := 1, buf_fl := bounce_buf_fl st\<rparr>;
           (ret, n, st1) = process_op True drv dop1 st
       in if ret \<noteq> 0 then (ret, opn, st1)
          else
            let thiscount = (word_of_int count :: u8);
                m = memcpy_fl (buf_fl opn) (bounce_buf_fl st) (ucast thiscount * 512) (dmem st1)
            in (0, opn\<lparr>op_count := op_count opn + ucast thiscount\<rparr>, st1\<lparr>dmem := m\<rparr>)
     else (0, opn, st))"

definition cdemu_read :: "disk_drivers \<Rightarrow> disk_op_s \<Rightarrow> disk_state \<Rightarrow> cd_result" where
  "cdemu_read drv opn st =
     (let dop = \<lparr>buf_fl = 0, drive_fl = emulated_drive_gf st, command = command opn, op_count = 0,
                 lba = ucast (el_ilba (CDEmu st)) + lba opn div 4\<rparr>
      in case cdemu_first drv (opn\<lparr>op_count := 0\<rparr>, dop, uint (op_count opn), st) of
           Inl r \<Rightarrow> r
         | Inr s1 \<Rightarrow> (case cdemu_middle drv s1 of Inl r \<Rightarrow> r | Inr s2 \<Rightarrow> cdemu_last drv s2))"

definition cdemu_process_op :: "disk_drivers \<Rightarrow> disk_op_s \<Rightarrow> disk_state \<Rightarrow> cd_result" where
  "cdemu_process_op drv opn st =
     (if command opn = CMD_READ then cdemu_read drv opn st
      else if command opn = CMD_WRITE \<or> command opn = CMD_FORMAT then (uint DISK_RET_EWRITEPROTECT, opn, st)
      else (uint (default_process_op opn), opn, st))"

text \<open>The drivers with the emulation as the one for the emulated drive.\<close>

definition with_cdemu :: "disk_drivers \<Rightarrow> disk_drivers" where
  "with_cdemu drv = drv(CdemuDrv := (\<lambda>opn st.
     let (ret, opn1, st1) = cdemu_process_op drv opn st in (ret, op_count opn1, dmem st1)))"

definition sizeof_drive :: u32 where "sizeof_drive = 32"

definition zero_chs :: chs_s where "zero_chs = \<lparr>chs_head = 0, chs_cylinder = 0, chs_sector = 0\<rparr>"

definition cdemu_drive :: drive_s where
  "cdemu_drive = \<lparr>dtype = DTYPE_CDEMU, floppy_type = 0, lchs = zero_chs, sectors = -1, cntl_id = 0, removable = 0,
     translation = 0, blksize = 512, pchs = zero_chs\<rparr>"

definition cdrom_prepboot :: "disk_state \<Rightarrow> fwstate \<Rightarrow> disk_state \<times> fwstate" where
  "cdrom_prepboot st fw =
     (if CDCount st = 0 then (st, fw)
      else
        let (ret, st1, fw1) = create_bounce_buf st fw
        in if ret < 0 then (st1, fw1)
           else
             let (fw2, p) = fw_alloc ZoneFSeg sizeof_drive MALLOC_MIN_ALIGN fw1
             in if p = 0 then (st1, fw2)
                else (st1\<lparr>cdemu_drive_gf := p, drives := (drives st1)(p := cdemu_drive)\<rparr>, fw2))"

section \<open>CD booting\<close>

record cd_env = scsi_env +
  cd_buffer :: u32

text \<open>\<open>strcmp\<close> with a literal: whether they are equal.\<close>

fun strcmp_lit :: "mem \<Rightarrow> u32 \<Rightarrow> u8 list \<Rightarrow> bool" where
  "strcmp_lit m p [] \<longleftrightarrow> m p = 0"
| "strcmp_lit m p (b # bs) \<longleftrightarrow> m p = b \<and> strcmp_lit m (p + 1) bs"

definition el_torito_id :: "u8 list" where
  "el_torito_id = str_bytes ''CD001'' @ [1] @ str_bytes ''EL TORITO SPECIFICATION''"

text \<open>A read in 32-bit mode: the status, the operation and the state.\<close>

definition cd_op :: "disk_drivers \<Rightarrow> disk_op_s \<Rightarrow> disk_state \<Rightarrow> cd_result" where
  "cd_op drv opn st = (let (ret, n, st1) = process_op False drv opn st in (ret, opn\<lparr>op_count := n\<rparr>, st1))"

text \<open>The loop that reads the image, for \<open>n\<close> blocks still to read.\<close>

function cd_load_image :: "disk_drivers \<Rightarrow> nat \<Rightarrow> disk_op_s \<Rightarrow> disk_state \<Rightarrow> int \<times> disk_state" where
  "cd_load_image drv n dop st =
     (if n = 0 then (0, st)
      else
        let count = (if n > 64 * 1024 div unat CDROM_SECTOR_SIZE then 64 * 1024 div unat CDROM_SECTOR_SIZE else n);
            (ret, dop1, st1) = cd_op drv (dop\<lparr>op_count := of_nat count\<rparr>) st
        in if ret \<noteq> 0 then (12, st1)
           else cd_load_image drv (n - count)
                  (dop1\<lparr>lba := lba dop1 + of_nat count, buf_fl := buf_fl dop1 + of_nat count * CDROM_SECTOR_SIZE\<rparr>) st1)"
  by pat_completeness auto
termination
  by (relation "measure (\<lambda>(drv, n, dop, st). n)") (auto simp: CDROM_SECTOR_SIZE_def split: if_splits)

declare cd_load_image.simps [simp del]

text \<open>What \<open>cdrom_boot\<close> enters into the specification packet for the kinds of media.\<close>

definition cd_floppy_chs :: "u8 \<Rightarrow> eltorito_s \<Rightarrow> eltorito_s" where
  "cd_floppy_chs media e =
     (if media = 1 then e\<lparr>el_sptcyl := 15, el_cyllow := 79, el_heads := 1\<rparr>
      else if media = 2 then e\<lparr>el_sptcyl := 18, el_cyllow := 79, el_heads := 1\<rparr>
      else if media = 3 then e\<lparr>el_sptcyl := 36, el_cyllow := 79, el_heads := 1\<rparr>
      else e)"

abbreviation upd_cdemu :: "(eltorito_s \<Rightarrow> eltorito_s) \<Rightarrow> disk_state \<Rightarrow> disk_state" where
  "upd_cdemu f st \<equiv> st\<lparr>CDEmu := f (CDEmu st)\<rparr>"

definition cd_emulate :: "u8 \<Rightarrow> u16 \<Rightarrow> disk_state \<Rightarrow> disk_state" where
  "cd_emulate media boot_segment st =
     (let st1 =
        (if media < 4 then
           upd_cdemu (cd_floppy_chs media)
             (upd_cdemu (\<lambda>e. e\<lparr>el_emulated_drive := 0\<rparr>) (st\<lparr>dmem := set_equipment_flags 0x41 0x41 (dmem st)\<rparr>))
         else
           let m = (dmem st)(bda_at bda_hdcount := dmem st (bda_at bda_hdcount) + 1);
               last = MAKE_FLATPTR boot_segment 0 + 446 + 5
           in (upd_cdemu (\<lambda>e. e\<lparr>el_emulated_drive := 0x80, el_heads := m last, el_sptcyl := m (last + 1),
                                 el_cyllow := m (last + 2)\<rparr>) st)\<lparr>dmem := m\<rparr>)
      in upd_cdemu (\<lambda>e. e\<lparr>el_media := media\<rparr>) st1)"

text \<open>The part of \<open>cdrom_boot\<close> after the boot catalog has been read and checked.\<close>

definition cdrom_boot_entry :: "disk_drivers \<Rightarrow> u32 \<Rightarrow> u32 \<Rightarrow> int \<Rightarrow> disk_op_s \<Rightarrow> disk_state \<Rightarrow> int \<times> disk_state" where
  "cdrom_boot_entry drv buffer drive cdid dop st =
     (let m = dmem st; d = drives st drive;
          media = m (buffer + 0x21);
          seg = get_mem 2 (buffer + 0x22) m;
          boot_segment = (if seg = 0 then 0x07c0 else seg);
          nbsectors = (get_mem 2 (buffer + 0x26) m :: u16);
          l = (get_mem 4 (buffer + 0x28) m :: u32);
          st1 = upd_cdemu (\<lambda>e. e\<lparr>el_load_segment := boot_segment, el_buffer_segment := 0, el_sector_count := nbsectors,
                  el_ilba := l, el_controller_index := ucast (cntl_id d div 2), el_device_spec := ucast (cntl_id d mod 2)\<rparr>)
                  (st\<lparr>emulated_drive_gf := drive\<rparr>);
          (ret, st2) = cd_load_image drv ((unat nbsectors + 3) div 4)
                         (dop\<lparr>lba := ucast l, buf_fl := MAKE_FLATPTR boot_segment 0\<rparr>) st1
      in if ret \<noteq> 0 then (ret, st2)
         else if media = 0 then (0, upd_cdemu (\<lambda>e. e\<lparr>el_emulated_drive := 0xe0 + word_of_int cdid\<rparr>) st2)
         else if cdemu_drive_gf st2 = 0 then (13, st2)
         else (0, cd_emulate media boot_segment st2))"

definition catalog_error :: "mem \<Rightarrow> u32 \<Rightarrow> int" where
  "catalog_error m b =
     (if m b \<noteq> 0x01 then 8
      else if m (b + 1) \<noteq> 0x00 then 9
      else if m (b + 0x1e) \<noteq> 0x55 then 10
      else if m (b + 0x1f) \<noteq> 0xaa then 10
      else if m (b + 0x20) \<noteq> 0x88 then 11
      else 0)"

definition cdrom_boot_read :: "disk_drivers \<Rightarrow> u32 \<Rightarrow> u32 \<Rightarrow> int \<Rightarrow> disk_op_s \<Rightarrow> disk_state \<Rightarrow> int \<times> disk_state" where
  "cdrom_boot_read drv buffer drive cdid dop st =
     (let (ret, dop1, st1) = cd_op drv (dop\<lparr>command := CMD_READ, lba := 0x11, op_count := 1, buf_fl := buffer\<rparr>) st
      in if ret \<noteq> 0 then (3, st1)
         else if dmem st1 buffer \<noteq> 0 then (4, st1)
         else if \<not> strcmp_lit (dmem st1) (buffer + 1) el_torito_id then (5, st1)
         else
           let l = (get_mem 4 (buffer + 0x47) (dmem st1) :: u32);
               (ret2, dop2, st2) = cd_op drv (dop1\<lparr>lba := ucast l, op_count := 1\<rparr>) st1
           in if ret2 \<noteq> 0 then (7, st2)
              else if catalog_error (dmem st2) buffer \<noteq> 0 then (catalog_error (dmem st2) buffer, st2)
              else cdrom_boot_entry drv buffer drive cdid dop2 st2)"

definition op_zero :: "u32 \<Rightarrow> disk_op_s" where
  "op_zero drive = \<lparr>buf_fl = 0, drive_fl = drive, command = 0, op_count = 0, lba = 0\<rparr>"

definition cdrom_boot :: "cd_env \<Rightarrow> u32 \<Rightarrow> scsi_state \<Rightarrow> (int \<times> scsi_state) option" where
  "cdrom_boot env drive st =
     (let cdid = getDriveId EXTTYPE_CD drive (sc_disk st)
      in if drive = 0 \<or> cdid < 0 then Some (1, st)
         else
           case scsi_is_ready (scsi_env.truncate env) (op_zero drive) st of
             None \<Rightarrow> None
           | Some (_, dop, st1) \<Rightarrow>
               (let (ret, d) = cdrom_boot_read (sc_drivers env) (cd_buffer env) drive cdid dop (sc_disk st1)
                in Some (ret, st1\<lparr>sc_disk := d\<rparr>)))"

section \<open>The label of the medium\<close>

definition c_str :: "mem \<Rightarrow> u32 \<Rightarrow> string option" where
  "c_str m p = map_option (\<lambda>n. map (\<lambda>b. char_of (unat b)) (mem_read m p (unat n))) (strlen m p)"

text \<open>The pointer to the label, 0 when there is none. The code may not return: while it waits for the drive, or
  on a string without end.\<close>

definition media_label :: "u32 \<Rightarrow> scsi_state \<Rightarrow> fwstate \<Rightarrow> (u32 \<times> scsi_state \<times> fwstate) option" where
  "media_label buffer st fw =
     (case c_str (dmem (sc_disk st)) (buffer + 40) of
        None \<Rightarrow> None
      | Some s \<Rightarrow>
          (let (v, p, fw1) = znprintf 30 ''%s'' [StrArg (Some s)] fw;
               m = (case v of None \<Rightarrow> dmem (sc_disk st)
                    | Some x \<Rightarrow> mem_write p (str_bytes x @ [0]) (dmem (sc_disk st)))
           in map_option (\<lambda>(m1, _). (p, st\<lparr>sc_disk := (sc_disk st)\<lparr>dmem := m1\<rparr>\<rparr>, fw1)) (nullTrailingSpace p m)))"

definition cdrom_media_info :: "cd_env \<Rightarrow> u32 \<Rightarrow> scsi_state \<Rightarrow> fwstate \<Rightarrow> (u32 \<times> scsi_state \<times> fwstate) option" where
  "cdrom_media_info env drive st fw =
     (case scsi_is_ready (scsi_env.truncate env) (op_zero drive) st of
        None \<Rightarrow> None
      | Some (ret, dop, st1) \<Rightarrow>
          if ret \<noteq> 0 then Some (0, st1, fw)
          else
            let b = cd_buffer env; drv = sc_drivers env;
                (ret1, dop1, d1) = cd_op drv (dop\<lparr>command := CMD_READ, lba := 0x11, op_count := 1, buf_fl := b\<rparr>) (sc_disk st1)
            in if ret1 \<noteq> 0 \<or> dmem d1 b \<noteq> 0 \<or> \<not> strcmp_lit (dmem d1) (b + 1) el_torito_id
               then Some (0, st1\<lparr>sc_disk := d1\<rparr>, fw)
               else
                 let (ret2, dop2, d2) = cd_op drv (dop1\<lparr>command := CMD_READ, lba := 0x10, op_count := 1, buf_fl := b\<rparr>) d1
                 in if ret2 \<noteq> 0 then Some (0, st1\<lparr>sc_disk := d2\<rparr>, fw)
                    else media_label b (st1\<lparr>sc_disk := d2\<rparr>) fw)"

end
