(* ===== verification/CdromProps.thy ===== *)
theory CdromProps
  imports Cdrom DiskProps
begin

text \<open>
  The emulated drive delivers the image. A read of 512-byte sectors through \<open>cdemu_read\<close> puts exactly the bytes
  of the image at the requested place into the caller's buffer, whatever the alignment of the first and the
  last sector to the blocks of the CD, and touches nothing but that buffer and the bounce buffer.
\<close>

section \<open>A driver of a CD\<close>

text \<open>What a CD with the content \<open>disc\<close> does to a read: the blocks are written to the buffer.\<close>

definition cd_bytes :: "(nat \<Rightarrow> u8) \<Rightarrow> nat \<Rightarrow> nat \<Rightarrow> u8 list" where
  "cd_bytes disc a n = map disc [a..<a + n]"

definition cd_served :: "(nat \<Rightarrow> u8) \<Rightarrow> disk_op_s \<Rightarrow> mem \<Rightarrow> mem" where
  "cd_served disc opn m = mem_write (buf_fl opn) (cd_bytes disc (2048 * unat (lba opn)) (2048 * unat (op_count opn))) m"

definition cd_driver :: "disk_drivers \<Rightarrow> disk_driver \<Rightarrow> u32 \<Rightarrow> (nat \<Rightarrow> u8) \<Rightarrow> bool" where
  "cd_driver drv v drive disc \<longleftrightarrow>
     (\<forall>opn st. drive_fl opn = drive \<and> command opn = CMD_READ \<longrightarrow>
        drv v opn st = (0, op_count opn, cd_served disc opn (dmem st)))"

lemma length_cd_bytes [simp]: "length (cd_bytes disc a n) = n"
  by (simp add: cd_bytes_def)

lemma nth_cd_bytes [simp]: "i < n \<Longrightarrow> cd_bytes disc a n ! i = disc (a + i)"
  by (simp add: cd_bytes_def)

lemma signed_int: "k < 2 ^ 31 \<Longrightarrow> signed_take_bit 31 (int k) = int k"
  by (rule signed_take_bit_int_eq_self) simp_all

lemma int_mul_le:
  assumes "unat a * unat b \<le> 65536"
  shows "int_mul a b \<le> 64 * 1024"
proof -
  have "int (unat a * unat b) \<le> 65536" using assms by linarith
  moreover have small: "unat a * unat b < 2 ^ 31" using assms by simp
  have "unat (ucast a * ucast b :: u32) = unat a * unat b"
    using small unat_u16_bound [of a] unat_u16_bound [of b]
    by (simp add: unat_word_ariths unsigned_ucast_eq take_bit_nat_eq_self)
  then have u: "uint (ucast a * ucast b :: u32) = int (unat a * unat b)" by (simp only: uint_nat)
  ultimately show ?thesis unfolding int_mul_def sint_uint u using signed_int [OF small] by simp
qed

lemma cd_process:
  assumes "cd_driver drv v drive disc" "process_op_16 (dtype (drives st drive)) = Some v"
    and "blksize (drives st drive) = 2048" "drive_fl opn = drive" "command opn = CMD_READ" "op_count opn \<le> 32"
  shows "process_op True drv opn st =
    (0, op_count opn, st\<lparr>dmem := cd_served disc opn (dmem st), sent := sent st @ [opn]\<rparr>)"
proof -
  have "int_mul (op_count opn) 2048 \<le> 65536"
    using int_mul_le [of "op_count opn" 2048] assms(6) by (simp add: word_le_nat_alt)
  then show ?thesis using assms by (simp add: process_op_def cd_driver_def Let_def)
qed

section \<open>What has been delivered\<close>

text \<open>The first \<open>k\<close> of \<open>n\<close> sectors are in the buffer at \<open>buf\<close>, and outside of it and of the bounce buffer at \<open>bnc\<close>
  nothing has changed.\<close>

definition delivered :: "(nat \<Rightarrow> u8) \<Rightarrow> nat \<Rightarrow> nat \<Rightarrow> u32 \<Rightarrow> u32 \<Rightarrow> mem \<Rightarrow> mem \<Rightarrow> nat \<Rightarrow> bool" where
  "delivered disc base n buf bnc m m' k \<longleftrightarrow>
     (\<forall>i < 512 * k. m' (buf + of_nat i) = disc (base + i)) \<and>
     (\<forall>a. 512 * n \<le> unat (a - buf) \<and> 2048 \<le> unat (a - bnc) \<longrightarrow> m' a = m a)"

definition cd_place :: "u32 \<Rightarrow> u32 \<Rightarrow> nat \<Rightarrow> bool" where
  "cd_place buf bnc n \<longleftrightarrow>
     unat buf + 512 * n < 0x100000 \<and> unat bnc + 2048 < 0x100000 \<and>
     (unat bnc + 2048 \<le> unat buf \<or> unat buf + 512 * n \<le> unat bnc)"

lemma unat_add_nat: "unat p + c < 2 ^ 32 \<Longrightarrow> unat (p + of_nat c :: u32) = unat p + c"
  using unat_add_small [of p "of_nat c"] by (simp add: unat_of_nat)

lemma place_apart:
  assumes "cd_place buf bnc n" "i < 512 * n"
  shows "2048 \<le> unat (buf + of_nat i - bnc)" "unat (buf + of_nat i) = unat buf + i"
proof -
  show b: "unat (buf + of_nat i) = unat buf + i"
    using assms unat_add_nat [of buf i] by (simp add: cd_place_def)
  show "2048 \<le> unat (buf + of_nat i - bnc)"
  proof (cases "unat bnc \<le> unat (buf + of_nat i)")
    case True
    then show ?thesis using unat_sub_le [OF True] assms b unfolding cd_place_def by linarith
  next
    case False
    then show ?thesis
      using unat_sub_wrap [of "buf + of_nat i" bnc] assms b unfolding cd_place_def by simp linarith
  qed
qed

lemma delivered_extend:
  assumes d: "delivered disc base n buf bnc m m1 k" and pl: "cd_place buf bnc n" "k + j \<le> n"
    and new: "\<And>a. unat (a - (buf + of_nat (512 * k))) < 512 * j
      \<Longrightarrow> m2 a = disc (base + 512 * k + unat (a - (buf + of_nat (512 * k))))"
    and old: "\<And>a. 512 * j \<le> unat (a - (buf + of_nat (512 * k))) \<Longrightarrow> 2048 \<le> unat (a - bnc) \<Longrightarrow> m2 a = m1 a"
  shows "delivered disc base n buf bnc m m2 (k + j)"
  unfolding delivered_def
proof (intro conjI allI impI)
  have n: "512 * n < 0x100000" using pl(1) by (simp add: cd_place_def)
  fix i assume i: "i < 512 * (k + j)"
  let ?a = "buf + of_nat i"
  have ui: "unat (?a - buf) = i" using i pl(2) n by (simp add: unat_of_nat)
  show "m2 ?a = disc (base + i)"
  proof (cases "512 * k \<le> i")
    case True
    then have "unat (?a - (buf + of_nat (512 * k))) = i - 512 * k" using unat_diff_step [of "512 * k" ?a buf] ui by simp
    then show ?thesis using new [of ?a] i True by simp
  next
    case False
    then have "512 * j \<le> unat (?a - (buf + of_nat (512 * k)))"
      using unat_diff_below [of ?a buf "512 * k" "512 * j"] ui n pl(2) by simp
    moreover have "2048 \<le> unat (?a - bnc)" using place_apart(1) [OF pl(1), of i] i pl(2) by simp
    ultimately show ?thesis using old [of ?a] d False by (simp add: delivered_def)
  qed
next
  fix a assume a: "512 * n \<le> unat (a - buf) \<and> 2048 \<le> unat (a - bnc)"
  have "unat (a - (buf + of_nat (512 * k))) = unat (a - buf) - 512 * k"
    using a pl(2) by (intro unat_diff_step) simp
  moreover have "512 * j \<le> unat (a - buf) - 512 * k" using a pl(2) by linarith
  ultimately have "m2 a = m1 a" using old [of a] a by simp
  then show "m2 a = m a" using d a by (simp add: delivered_def)
qed

text \<open>A copy of \<open>j\<close> sectors out of the bounce buffer, which holds block \<open>x\<close>, from its sector \<open>i\<close> on.\<close>

lemma bounce_copy:
  assumes d: "delivered disc base n buf bnc m m1 k" and pl: "cd_place buf bnc n" "k + j \<le> n" "i + j \<le> 4"
    and base: "0 < j \<Longrightarrow> base + 512 * k = 2048 * x + 512 * i"
  shows "delivered disc base n buf bnc m
    (memcpy_fl (buf + of_nat (512 * k)) (bnc + of_nat (512 * i)) (of_nat (512 * j))
      (mem_write bnc (cd_bytes disc (2048 * x) 2048) m1)) (k + j)"
proof -
  let ?d = "buf + of_nat (512 * k)" and ?s = "bnc + of_nat (512 * i)"
  let ?m1 = "mem_write bnc (cd_bytes disc (2048 * x) 2048) m1"
  have k: "512 * k < 2 ^ 20" "512 * i \<le> 2048" "512 * j \<le> 2048" using pl by (auto simp: cd_place_def)
  then have l: "unat (of_nat (512 * j) :: u32) = 512 * j" unfolding unat_of_nat by simp
  have ud: "unat ?d = unat buf + 512 * k" "unat ?s = unat bnc + 512 * i"
    using pl k unat_add_nat [of buf "512 * k"] unat_add_nat [of bnc "512 * i"] by (simp_all add: cd_place_def)
  have "512 * j \<le> unat (?d - ?s)" if "0 < j"
  proof (cases "unat ?s \<le> unat ?d")
    case True
    then show ?thesis using unat_sub_le [OF True] ud pl k that unfolding cd_place_def by linarith
  next
    case False
    then show ?thesis using unat_sub_wrap [of ?d ?s] ud pl k unfolding cd_place_def by simp linarith
  qed
  then have "up_safe ?d ?s (512 * j)" using k by (cases "j = 0") (simp_all add: up_safe_def)
  then have c: "memcpy_fl ?d ?s (of_nat (512 * j)) ?m1 = block_copy ?d ?s (512 * j) ?m1"
    using memcpy_fl_eq [of ?d ?s "of_nat (512 * j)" ?m1] ud pl k l
    by (simp add: word_less_nat_alt cd_place_def)
  show ?thesis
    unfolding c
  proof (rule delivered_extend [OF d pl(1,2)])
    fix a assume a: "unat (a - ?d) < 512 * j"
    have "?s + (a - ?d) - bnc = (a - ?d) + of_nat (512 * i)" by simp
    moreover have "unat ((a - ?d) + of_nat (512 * i)) = unat (a - ?d) + 512 * i"
      by (rule unat_add_nat) (use a k in simp)
    ultimately have "unat (?s + (a - ?d) - bnc) = 512 * i + unat (a - ?d)" by (simp only: add.commute)
    then show "block_copy ?d ?s (512 * j) ?m1 a = disc (base + 512 * k + unat (a - ?d))"
      using a pl(3) base by (simp add: block_copy_def mem_write_eq add.assoc)
  next
    fix a assume "512 * j \<le> unat (a - ?d)" "2048 \<le> unat (a - bnc)"
    then show "block_copy ?d ?s (512 * j) ?m1 a = m1 a" by (simp add: block_copy_def mem_write_eq)
  qed
qed

lemma block_copy_in:
  assumes d: "delivered disc base n buf bnc m m1 k" and pl: "cd_place buf bnc n" "k + 4 * q \<le> n"
    and base: "base + 512 * k = 2048 * x"
  shows "delivered disc base n buf bnc m
    (mem_write (buf + of_nat (512 * k)) (cd_bytes disc (2048 * x) (2048 * q)) m1) (k + 4 * q)"
proof (rule delivered_extend [OF d pl])
  have l: "2048 * q \<le> 2 ^ 32" using pl by (simp add: cd_place_def)
  fix a let ?d = "buf + of_nat (512 * k)"
  show "unat (a - ?d) < 512 * (4 * q) \<Longrightarrow>
      mem_write ?d (cd_bytes disc (2048 * x) (2048 * q)) m1 a = disc (base + 512 * k + unat (a - ?d))"
    using l base by (simp add: mem_write_eq)
  show "512 * (4 * q) \<le> unat (a - ?d) \<Longrightarrow> 2048 \<le> unat (a - bnc) \<Longrightarrow>
      mem_write ?d (cd_bytes disc (2048 * x) (2048 * q)) m1 a = m1 a"
    using l by (simp add: mem_write_eq)
qed

section \<open>The parts of the read\<close>

text \<open>The setting of a read: the CD, its content, the buffers, and a count that fits the limit of 64 KB.\<close>

definition cd_setting :: "disk_drivers \<Rightarrow> disk_driver \<Rightarrow> (nat \<Rightarrow> u8) \<Rightarrow> disk_op_s \<Rightarrow> disk_state \<Rightarrow> bool" where
  "cd_setting drv v disc opn st \<longleftrightarrow>
     cd_driver drv v (emulated_drive_gf st) disc \<and> process_op_16 (dtype (drives st (emulated_drive_gf st))) = Some v \<and>
     blksize (drives st (emulated_drive_gf st)) = 2048 \<and> command opn = CMD_READ \<and> op_count opn \<le> 128 \<and>
     cd_place (buf_fl opn) (bounce_buf_fl st) (unat (op_count opn))"

definition cd_base :: "disk_op_s \<Rightarrow> disk_state \<Rightarrow> nat" where
  "cd_base opn st = 2048 * unat (el_ilba (CDEmu st)) + 512 * unat (lba opn)"

text \<open>After \<open>k\<close> sectors; when there is more to read, the next block of the CD holds the next sector from its sector
  \<open>i\<close> on.\<close>

definition cd_at :: "(nat \<Rightarrow> u8) \<Rightarrow> disk_op_s \<Rightarrow> disk_state \<Rightarrow> nat \<Rightarrow> nat \<Rightarrow> cd_read \<Rightarrow> bool" where
  "cd_at disc opn st k i = (\<lambda>(opn1, dop, count, st1).
     k \<le> unat (op_count opn) \<and> op_count opn1 = of_nat k \<and> buf_fl opn1 = buf_fl opn + of_nat (512 * k) \<and>
     lba opn1 = lba opn \<and> count = int (unat (op_count opn) - k) \<and>
     drive_fl dop = emulated_drive_gf st \<and> command dop = CMD_READ \<and>
     (k < unat (op_count opn) \<longrightarrow> cd_base opn st + 512 * k = 2048 * unat (lba dop) + 512 * i) \<and>
     drives st1 = drives st \<and> bounce_buf_fl st1 = bounce_buf_fl st \<and>
     delivered disc (cd_base opn st) (unat (op_count opn)) (buf_fl opn) (bounce_buf_fl st) (dmem st) (dmem st1) k)"

lemma delivered_0: "delivered disc base n buf bnc m m 0"
  by (simp add: delivered_def)

lemma and_3: "unat (x AND 3 :: u64) = unat x mod 4"
proof -
  have "x AND 3 = take_bit 2 x" by (simp add: take_bit_eq_mask mask_eq_exp_minus_1)
  then show ?thesis by (simp add: unsigned_take_bit_eq unat_mod flip: take_bit_eq_mod) (simp add: take_bit_eq_mod)
qed

lemma cd_start:
  assumes "cd_setting drv v disc opn st"
  shows "cd_at disc opn st 0 (unat (lba opn) mod 4)
    (opn\<lparr>op_count := 0\<rparr>, \<lparr>buf_fl = 0, drive_fl = emulated_drive_gf st, command = command opn, op_count = 0,
       lba = ucast (el_ilba (CDEmu st)) + lba opn div 4\<rparr>, uint (op_count opn), st)"
proof -
  have "unat (ucast (el_ilba (CDEmu st)) :: u64) = unat (el_ilba (CDEmu st))"
    using unat_u32_bound [of "el_ilba (CDEmu st)"] by (simp add: unsigned_ucast_eq take_bit_nat_eq_self)
  moreover have "unat (lba opn div 4) = unat (lba opn) div 4" by (simp add: unat_div)
  ultimately have "unat (ucast (el_ilba (CDEmu st)) + lba opn div 4) = unat (el_ilba (CDEmu st)) + unat (lba opn) div 4"
    using unat_add_small [of "ucast (el_ilba (CDEmu st)) :: u64" "lba opn div 4"]
      unat_u32_bound [of "el_ilba (CDEmu st)"] unat_u64_bound [of "lba opn"] by simp
  moreover have "2048 * (unat (lba opn) div 4) + 512 * (unat (lba opn) mod 4) = 512 * unat (lba opn)"
    using mult_div_mod_eq [of 4 "unat (lba opn)"] by linarith
  ultimately show ?thesis
    using assms by (simp add: cd_at_def cd_setting_def cd_base_def delivered_0)
qed

lemma cd_block_read:
  assumes s: "cd_setting drv v disc opn st" "cd_at disc opn st k i (opn1, dop, count, st1)" and n: "n \<le> 32"
  shows "process_op True drv (dop\<lparr>op_count := n, buf_fl := p\<rparr>) st1 =
    (0, n, st1\<lparr>dmem := mem_write p (cd_bytes disc (2048 * unat (lba dop)) (2048 * unat n)) (dmem st1),
              sent := sent st1 @ [dop\<lparr>op_count := n, buf_fl := p\<rparr>]\<rparr>)"
  using s n
  by (subst cd_process [of drv v "emulated_drive_gf st" disc]) (auto simp: cd_setting_def cd_at_def cd_served_def)

lemma u8_sectors: "(ucast (x :: u8) * 512 :: u32) = of_nat (512 * unat x)"
  by simp

lemma u8_min:
  assumes "unat (t :: u8) = q"
  shows "unat (if uint t > int n then word_of_int (int n) else t) = min q n"
proof -
  have t: "uint t = int q" by (simp only: uint_nat assms)
  have "q < 256" using unat_u8_bound [of t] assms by simp
  then show ?thesis using assms by (simp add: t min_def unat_of_nat)
qed

text \<open>The block number on the CD does not come round.\<close>

lemma cd_lba_next:
  assumes "cd_base opn st + 512 * k = 2048 * unat l + 512 * i" "k \<le> 128" "d \<le> 32"
  shows "unat (l + of_nat d :: u64) = unat l + d"
proof -
  have "unat l + d < 2 ^ 64"
    using assms unat_u32_bound [of "el_ilba (CDEmu st)"] unat_u64_bound [of "lba opn"] unfolding cd_base_def by simp
  then show ?thesis using unat_add_small [of l "of_nat d"] assms(3) by (simp add: unat_of_nat)
qed

lemma cd_first:
  assumes s: "cd_setting drv v disc opn st" and at: "cd_at disc opn st 0 (unat (lba opn) mod 4) (opn1, dop, count, st1)"
  shows "\<exists>s' k. cdemu_first drv (opn1, dop, count, st1) = Inr s' \<and> cd_at disc opn st k 0 s'"
proof (cases "unat (lba opn) mod 4 = 0")
  case True
  then have "lba opn1 AND 3 = 0" using at and_3 [of "lba opn"] by (simp add: cd_at_def unat_eq_zero)
  then show ?thesis using at True by (auto simp: cdemu_first_def)
next
  case False
  define r where "r = unat (lba opn) mod 4"
  define n where "n = unat (op_count opn)"
  define j where "j = min (4 - r) n"
  define tc where "tc = (4 - ucast (lba opn AND 3) :: u8)"
  define thiscount where "thiscount = (if uint tc > count then word_of_int count else tc)"
  have "j \<le> n" by (simp add: j_def)
  have r: "0 < r" "r < 4" and lb: "lba opn1 = lba opn" and c: "count = int n" and buf: "buf_fl opn1 = buf_fl opn"
    using at False by (auto simp: cd_at_def r_def n_def)
  have ur: "unat (ucast (lba opn AND 3) :: u8) = r" "unat (ucast (lba opn AND 3) :: u32) = r"
    using and_3 [of "lba opn"] r by (simp_all add: unsigned_ucast_eq take_bit_nat_eq_self r_def)
  have "unat tc = 4 - r" unfolding tc_def using ur(1) r by (subst unat_sub_le) simp_all
  from u8_min [OF this, of n] have j: "unat thiscount = j" by (simp only: thiscount_def j_def c)
  then have ji: "uint thiscount = int j" by (simp only: uint_nat)
  have and0: "lba opn1 AND 3 \<noteq> 0" using and_3 [of "lba opn"] r lb by (auto simp: r_def)
  let ?x = "unat (lba dop)" and ?b = "bounce_buf_fl st1"
  have base: "cd_base opn st + 512 * 0 = 2048 * ?x + 512 * r" if "0 < j" using at that by (auto simp: cd_at_def j_def n_def r_def)
  have place: "cd_place (buf_fl opn) ?b n" using s at by (simp add: cd_setting_def cd_at_def n_def)
  have "delivered disc (cd_base opn st) n (buf_fl opn) ?b (dmem st)
      (memcpy_fl (buf_fl opn + of_nat (512 * 0)) (?b + of_nat (512 * r)) (of_nat (512 * j))
        (mem_write ?b (cd_bytes disc (2048 * ?x) 2048) (dmem st1))) (0 + j)"
    by (rule bounce_copy [OF _ place _ _ base]) (use at r in \<open>auto simp: cd_at_def n_def j_def\<close>)
  then have del: "delivered disc (cd_base opn st) n (buf_fl opn) ?b (dmem st)
      (memcpy_fl (buf_fl opn) (?b + of_nat (512 * r)) (of_nat (512 * j))
        (mem_write ?b (cd_bytes disc (2048 * ?x) 2048) (dmem st1))) j" by simp
  have next1: "cd_base opn st + 512 * j = 2048 * unat (lba dop + 1)" if "j < n"
  proof -
    have b: "cd_base opn st = 2048 * ?x + 512 * r" and jr: "j = 4 - r" using base that r by (auto simp: j_def)
    have "unat (lba dop + 1) = ?x + 1"
      using cd_lba_next [of opn st 0 "lba dop" r 1] b by simp
    then show ?thesis using b jr r by simp
  qed
  have "of_nat r = (of_nat (unat (ucast (lba opn AND 3) :: u32)) :: u32)" by (simp only: ur(2))
  moreover have "of_nat j = (of_nat (unat thiscount) :: u32)" "of_nat j = (of_nat (unat thiscount) :: u16)"
    by (simp_all only: j)
  ultimately have args: "(ucast (lba opn AND 3) * 512 :: u32) = of_nat (512 * r)"
    "(ucast thiscount * 512 :: u32) = of_nat (512 * j)" "ucast thiscount = (of_nat j :: u16)"
    by simp_all
  let ?s' = "(opn1\<lparr>buf_fl := buf_fl opn1 + ucast thiscount * 512, op_count := op_count opn1 + ucast thiscount\<rparr>,
     dop\<lparr>op_count := 1, buf_fl := ?b, lba := lba dop + 1\<rparr>, count - uint thiscount,
     st1\<lparr>dmem := memcpy_fl (buf_fl opn) (?b + of_nat (512 * r)) (of_nat (512 * j))
        (mem_write ?b (cd_bytes disc (2048 * ?x) 2048) (dmem st1)), sent := sent st1 @ [dop\<lparr>op_count := 1, buf_fl := ?b\<rparr>]\<rparr>)"
  have "cdemu_first drv (opn1, dop, count, st1) = Inr ?s'"
    using cd_block_read [OF s at, of 1 ?b] and0
    by (simp add: cdemu_first_def Let_def lb args buf flip: tc_def thiscount_def)
  moreover have "cd_at disc opn st j 0 ?s'"
    using at del next1 \<open>j \<le> n\<close> by (simp add: cd_at_def args ji n_def of_nat_diff)
  ultimately show ?thesis by blast
qed

lemma u8_and_not_3:
  assumes "c < 256"
  shows "unat (word_of_int (int c) AND NOT 3 :: u8) = 4 * (c div 4)"
proof -
  have "(word_of_int (int c) AND NOT 3 :: u8) = of_nat c AND NOT (mask 2)" by (simp add: mask_eq_exp_minus_1)
  then have "unat (word_of_int (int c) AND NOT 3 :: u8) = c - c mod 4"
    using assms and_not_mask_unat [of "of_nat c :: u8" 2] by (simp add: unat_of_nat)
  then show ?thesis by (simp add: minus_mod_eq_mult_div)
qed

lemma cd_middle:
  assumes s: "cd_setting drv v disc opn st" and at: "cd_at disc opn st k 0 (opn1, dop, count, st1)"
  shows "\<exists>s' k'. cdemu_middle drv (opn1, dop, count, st1) = Inr s' \<and> cd_at disc opn st k' 0 s' \<and>
    unat (op_count opn) - k' < 4"
proof -
  define n where "n = unat (op_count opn)"
  define c where "c = n - k"
  define q where "q = c div 4"
  have c: "count = int c" "k \<le> n" using at by (auto simp: cd_at_def c_def n_def)
  have n: "n \<le> 128" using s by (simp add: cd_setting_def n_def word_le_nat_alt)
  show ?thesis
  proof (cases "count > 3")
    case False
    then have "cdemu_middle drv (opn1, dop, count, st1) = Inr (opn1, dop, count, st1)" by (simp add: cdemu_middle_def)
    then show ?thesis using at False c by (auto simp: c_def n_def)
  next
    case True
    then have q: "0 < q" "q \<le> 32" "k + 4 * q \<le> n" "c mod 4 = n - (k + 4 * q)"
      using n c by (auto simp: q_def c_def minus_mult_div_eq_mod [symmetric])
    let ?x = "unat (lba dop)" and ?p = "buf_fl opn1"
    define tc where "tc = (word_of_int (int c) AND NOT 3 :: u8)"
    have tc: "unat tc = 4 * q" unfolding tc_def using u8_and_not_3 [of c] n by (simp add: q_def c_def)
    have base: "cd_base opn st + 512 * k = 2048 * ?x" using at q by (auto simp: cd_at_def n_def)
    have del: "delivered disc (cd_base opn st) n (buf_fl opn) (bounce_buf_fl st) (dmem st)
        (mem_write ?p (cd_bytes disc (2048 * ?x) (2048 * q)) (dmem st1)) (k + 4 * q)"
      using block_copy_in [OF _ _ q(3) base] s at by (simp add: cd_setting_def cd_at_def n_def)
    have cq: "int c div 4 = int q" "int c mod 4 = int (n - (k + 4 * q))"
      using q(4) by (simp add: q_def zdiv_int) (simp only: q(4) [symmetric] zmod_int of_nat_numeral)
    have w: "unat (of_nat q :: u16) = q" "(of_nat q :: u16) \<le> 32"
      using q(2) by (simp_all add: unat_of_nat word_le_nat_alt)
    have "tc div 4 = of_nat q" using tc q by (simp add: word_unat_eq_iff unat_div unat_of_nat)
    then have t: "(ucast (tc div 4) :: u64) = of_nat q" "(ucast tc * 512 :: u32) = of_nat (512 * (4 * q))"
      using u8_sectors [of tc] tc q by (simp_all only: unsigned_of_nat take_bit_nat_eq_self) (simp add: take_bit_nat_eq_self)
    let ?s' = "(opn1\<lparr>op_count := op_count opn1 + of_nat q * 4, buf_fl := buf_fl opn1 + ucast tc * 512\<rparr>,
       dop\<lparr>op_count := of_nat q, buf_fl := ?p, lba := lba dop + ucast (tc div 4)\<rparr>, int (n - (k + 4 * q)),
       st1\<lparr>dmem := mem_write ?p (cd_bytes disc (2048 * ?x) (2048 * q)) (dmem st1),
           sent := sent st1 @ [dop\<lparr>op_count := of_nat q, buf_fl := ?p\<rparr>]\<rparr>)"
    have "cdemu_middle drv (opn1, dop, count, st1) = Inr ?s'"
      using cd_block_read [OF s at w(2), of ?p] True
      by (simp add: cdemu_middle_def Let_def c(1) w cq tc_def)
    moreover have "cd_at disc opn st (k + 4 * q) 0 ?s'"
      using at del q(3) t cd_lba_next [of opn st k "lba dop" 0 q] base n q(2) c(2)
      by (simp add: cd_at_def n_def add.assoc)
    ultimately show ?thesis using q by (auto simp: n_def)
  qed
qed

lemma cd_last:
  assumes s: "cd_setting drv v disc opn st" and at: "cd_at disc opn st k 0 (opn1, dop, count, st1)"
    and c4: "unat (op_count opn) - k < 4"
  shows "\<exists>opn2 st2. cdemu_last drv (opn1, dop, count, st1) = (0, opn2, st2) \<and> op_count opn2 = op_count opn \<and>
    delivered disc (cd_base opn st) (unat (op_count opn)) (buf_fl opn) (bounce_buf_fl st) (dmem st) (dmem st2)
      (unat (op_count opn))"
proof -
  define n where "n = unat (op_count opn)"
  define c where "c = n - k"
  have c: "count = int c" "k \<le> n" "k + c = n" "c < 4" using at c4 by (auto simp: cd_at_def c_def n_def)
  show ?thesis
  proof (cases "c = 0")
    case True
    then show ?thesis using at c by (auto simp: cdemu_last_def cd_at_def n_def)
  next
    case False
    let ?x = "unat (lba dop)" and ?b = "bounce_buf_fl st1"
    have base: "cd_base opn st + 512 * k = 2048 * ?x + 512 * 0" using at False c by (auto simp: cd_at_def n_def)
    have place: "cd_place (buf_fl opn) ?b n" using s at by (simp add: cd_setting_def cd_at_def n_def)
    have del: "delivered disc (cd_base opn st) n (buf_fl opn) ?b (dmem st)
        (memcpy_fl (buf_fl opn + of_nat (512 * k)) (?b + of_nat (512 * 0)) (of_nat (512 * c))
          (mem_write ?b (cd_bytes disc (2048 * ?x) 2048) (dmem st1))) (k + c)"
      by (rule bounce_copy [OF _ place _ _ base]) (use at c in \<open>auto simp: cd_at_def n_def\<close>)
    define w where "w = (of_nat c :: u8)"
    have u: "unat w = c" using c(4) by (simp add: w_def unat_of_nat)
    have cnt: "op_count opn1 + ucast w = op_count opn"
    proof -
      have "(ucast w :: u16) = of_nat c" by (simp flip: u)
      then have "op_count opn1 + ucast w = of_nat (k + c)" using at by (simp add: cd_at_def)
      then show ?thesis by (simp add: c(3) n_def)
    qed
    have f: "buf_fl opn1 = buf_fl opn + of_nat (512 * k)" "bounce_buf_fl st1 = bounce_buf_fl st"
      using at by (simp_all add: cd_at_def)
    show ?thesis
      using cd_block_read [OF s at, of 1 ?b] False del cnt
      by (simp add: cdemu_last_def Let_def c(1,3) f flip: n_def w_def) (simp add: u8_sectors u)
  qed
qed

text \<open>A read from the emulated drive: for any first sector and any number of sectors up to the limit of 64 KB,
  the buffer holds the bytes of the image from there on, all sectors are reported, and memory outside of the
  buffer and the bounce buffer is unchanged.\<close>

lemma cdemu_read_image:
  assumes "cd_setting drv v disc opn st"
  shows "\<exists>opn2 st2. cdemu_read drv opn st = (0, opn2, st2) \<and> op_count opn2 = op_count opn \<and>
    mem_read (dmem st2) (buf_fl opn) (512 * unat (op_count opn)) =
      cd_bytes disc (2048 * unat (el_ilba (CDEmu st)) + 512 * unat (lba opn)) (512 * unat (op_count opn)) \<and>
    (\<forall>a. 512 * unat (op_count opn) \<le> unat (a - buf_fl opn) \<and> 2048 \<le> unat (a - bounce_buf_fl st)
      \<longrightarrow> dmem st2 a = dmem st a)"
proof -
  obtain s1 k1 where s1: "cdemu_first drv (opn\<lparr>op_count := 0\<rparr>,
      \<lparr>buf_fl = 0, drive_fl = emulated_drive_gf st, command = command opn, op_count = 0,
       lba = ucast (el_ilba (CDEmu st)) + lba opn div 4\<rparr>, uint (op_count opn), st) = Inr s1" "cd_at disc opn st k1 0 s1"
    using cd_first [OF assms cd_start [OF assms]] by blast
  obtain s2 k2 where s2: "cdemu_middle drv s1 = Inr s2" "cd_at disc opn st k2 0 s2" "unat (op_count opn) - k2 < 4"
    using cd_middle [OF assms] s1(2) by (cases s1) blast
  obtain opn2 st2 where s3: "cdemu_last drv s2 = (0, opn2, st2)" "op_count opn2 = op_count opn"
      "delivered disc (cd_base opn st) (unat (op_count opn)) (buf_fl opn) (bounce_buf_fl st) (dmem st) (dmem st2)
        (unat (op_count opn))"
    using cd_last [OF assms _ s2(3)] s2(2) by (cases s2) blast
  have "cdemu_read drv opn st = (0, opn2, st2)" by (simp add: cdemu_read_def s1(1) s2(1) s3(1))
  moreover have "mem_read (dmem st2) (buf_fl opn) (512 * unat (op_count opn)) =
      cd_bytes disc (cd_base opn st) (512 * unat (op_count opn))"
    by (rule nth_equalityI) (use s3(3) in \<open>auto simp: delivered_def\<close>)
  ultimately show ?thesis using s3 by (auto simp: delivered_def cd_base_def)
qed

section \<open>Interrupt 0x13 on the emulated drive\<close>

definition chs_read_op :: "bregs \<Rightarrow> u32 \<Rightarrow> disk_state \<Rightarrow> disk_op_s" where
  "chs_read_op regs drive st =
     \<lparr>buf_fl = MAKE_FLATPTR (es regs) (ucast (bx regs)), drive_fl = drive, command = CMD_READ,
      op_count = ucast (al regs),
      lba = ucast (chs_to_lba (getLCHS drive st) (ucast (ch regs) OR (push_bit 2 (ucast (cl regs)) AND 0x300))
        (ucast (dh regs)) (ucast (cl regs AND 0x3f)))\<rparr>"

lemma u8_u16: "ucast (ucast (x :: u8) :: u16) = x"
  by (rule bit_word_eqI) (simp add: bit_simps)

lemma cdemu_process:
  assumes s: "cd_setting drv v disc opn st" and d: "drives st (drive_fl opn) = cdemu_drive"
  shows "\<exists>m. process_op True (with_cdemu drv) opn st = (0, op_count opn, st\<lparr>dmem := m, sent := sent st @ [opn]\<rparr>) \<and>
    mem_read m (buf_fl opn) (512 * unat (op_count opn)) =
      cd_bytes disc (2048 * unat (el_ilba (CDEmu st)) + 512 * unat (lba opn)) (512 * unat (op_count opn)) \<and>
    (\<forall>a. 512 * unat (op_count opn) \<le> unat (a - buf_fl opn) \<and> 2048 \<le> unat (a - bounce_buf_fl st)
      \<longrightarrow> m a = dmem st a)"
proof -
  from cdemu_read_image [OF s] obtain opn2 st2 where r: "cdemu_read drv opn st = (0, opn2, st2)"
      "op_count opn2 = op_count opn" and m:
      "mem_read (dmem st2) (buf_fl opn) (512 * unat (op_count opn)) =
        cd_bytes disc (2048 * unat (el_ilba (CDEmu st)) + 512 * unat (lba opn)) (512 * unat (op_count opn))"
      "\<forall>a. 512 * unat (op_count opn) \<le> unat (a - buf_fl opn) \<and> 2048 \<le> unat (a - bounce_buf_fl st)
        \<longrightarrow> dmem st2 a = dmem st a" by blast
  have n: "int_mul (op_count opn) 512 \<le> 65536"
    using int_mul_le [of "op_count opn" 512] s by (simp add: cd_setting_def word_le_nat_alt)
  have "process_op True (with_cdemu drv) opn st = (0, op_count opn, st\<lparr>dmem := dmem st2, sent := sent st @ [opn]\<rparr>)"
    using n r s by (simp add: process_op_def d cdemu_drive_def process_op_16_def dtype_defs with_cdemu_def
        cdemu_process_op_def cd_setting_def)
  then show ?thesis using m by blast
qed

text \<open>C27. A read by interrupt 0x13 from the floppy or hard disk that a bootable CD emulates delivers the boot
  image: when the cylinder, head and sector are inside the geometry, the service succeeds, reports all
  sectors, and the buffer holds the bytes of the image of the sectors asked for, whatever their alignment to
  the blocks of the CD.\<close>

theorem cd_emulation_delivers_image:
  assumes env: "env_drivers env = with_cdemu drv" "drives st drive = cdemu_drive"
    and geo: "al regs \<noteq> 0" "cl regs AND 0x3f \<noteq> 0" "g = getLCHS drive st"
      "c = ucast (ch regs) OR (push_bit 2 (ucast (cl regs)) AND 0x300)" "c < chs_cylinder g"
      "h = ucast (dh regs)" "h < chs_head g" "s = ucast (cl regs AND 0x3f)" "s \<le> chs_sector g"
    and cd: "cd_setting drv v disc (chs_read_op regs drive st) st"
    and low: "0x500 \<le> unat (MAKE_FLATPTR (es regs) (ucast (bx regs)))"
  shows "\<exists>regs' st'. disk_1302 env regs drive st = (regs', st') \<and> ah regs' = 0 \<and> \<not> carry regs' \<and> al regs' = al regs \<and>
    mem_read (dmem st') (MAKE_FLATPTR (es regs) (ucast (bx regs))) (512 * unat (al regs)) =
      cd_bytes disc (2048 * unat (el_ilba (CDEmu st)) + 512 * unat (chs_to_lba g c h s)) (512 * unat (al regs))"
proof -
  let ?opn = "chs_read_op regs drive st" and ?p = "MAKE_FLATPTR (es regs) (ucast (bx regs))"
  have n: "unat (op_count ?opn) = unat (al regs)"
    using unat_u8_bound [of "al regs"] by (simp add: chs_read_op_def unsigned_ucast_eq take_bit_nat_eq_self)
  have l: "unat (lba ?opn) = unat (chs_to_lba g c h s)"
    using unat_u32_bound [of "chs_to_lba g c h s"]
    by (simp add: chs_read_op_def geo(3,4,6,8) unsigned_ucast_eq take_bit_nat_eq_self)
  obtain m where m: "process_op True (with_cdemu drv) ?opn st = (0, op_count ?opn, st\<lparr>dmem := m, sent := sent st @ [?opn]\<rparr>)"
      "mem_read m ?p (512 * unat (al regs)) =
        cd_bytes disc (2048 * unat (el_ilba (CDEmu st)) + 512 * unat (chs_to_lba g c h s)) (512 * unat (al regs))"
    using cdemu_process [OF cd] env(2) n l by (force simp: chs_read_op_def)
  have al128: "al regs \<le> 128" using cd n by (simp add: cd_setting_def word_le_nat_alt)
  have "unat (ucast (cl regs AND 0x3f) :: u16) = unat (cl regs AND 0x3f)"
    using unat_u8_bound [of "cl regs AND 0x3f"] by (simp add: unsigned_ucast_eq take_bit_nat_eq_self)
  then have s0: "(ucast (cl regs AND 0x3f) :: u16) \<noteq> 0" using geo(2) by (metis unat_eq_zero)
  have ok: "\<not> 128 < al regs" "\<not> chs_cylinder g \<le> c" "\<not> chs_head g \<le> h" "\<not> chs_sector g < s" "s \<noteq> 0"
    using geo(5,7,9) al128 s0 geo(8) by auto
  have opn: "?opn = \<lparr>buf_fl = ?p, drive_fl = drive, command = CMD_READ, op_count = ucast (al regs), lba = ucast (chs_to_lba g c h s)\<rparr>"
    by (simp add: chs_read_op_def geo(3,4,6,8))
  have "disk_1302 env regs drive st = disk_ret (set_al (al regs) regs) 0 (st\<lparr>dmem := m, sent := sent st @ [?opn]\<rparr>)"
    using m(1) unfolding opn
    by (simp add: disk_1302_def basic_access_def send_disk_op_def Let_def env(1) geo(1) ok u8_u16 flip: geo(3,4,6,8))
  moreover have "mem_read (m(bda_at (last_status regs) := 0)) ?p (512 * unat (al regs)) = mem_read m ?p (512 * unat (al regs))"
  proof (rule nth_equalityI)
    fix i assume "i < length (mem_read (m(bda_at (last_status regs) := 0)) ?p (512 * unat (al regs)))"
    then have i: "i < 512 * unat (al regs)" by simp
    have "cd_place ?p (bounce_buf_fl st) (unat (al regs))" using cd n by (simp add: cd_setting_def) (simp add: chs_read_op_def)
    then have "0x500 \<le> unat (?p + of_nat i)" using place_apart(2) [OF _ i] low by simp
    moreover have "unat (bda_at (last_status regs)) < 0x500"
      by (simp add: last_status_def MAKE_FLATPTR_def SEG_BDA_def disk_bda_defs)
    ultimately have "?p + of_nat i \<noteq> bda_at (last_status regs)" by auto
    then show "mem_read (m(bda_at (last_status regs) := 0)) ?p (512 * unat (al regs)) ! i = mem_read m ?p (512 * unat (al regs)) ! i"
      using i by simp
  qed simp
  ultimately show ?thesis
    using m(2) by (simp add: disk_ret_def set_code_success_def last_status_def)
qed

definition cd_disc :: "nat \<Rightarrow> u8" where "cd_disc a = of_nat (a div 512)"

definition cd_drv :: disk_drivers where
  "cd_drv v opn st = (0, op_count opn, cd_served cd_disc opn (dmem st))"

definition cd_state :: disk_state where
  "cd_state = disk_zero\<lparr>emulated_drive_gf := 0x100, cdemu_drive_gf := 0x200, bounce_buf_fl := 0x10000,
     drives := (\<lambda>a. if a = 0x200 then cdemu_drive else drive_zero\<lparr>dtype := DTYPE_ATA_ATAPI, blksize := 2048\<rparr>),
     CDEmu := eltorito_zero\<lparr>el_ilba := 20, el_heads := 1, el_sptcyl := 18, el_cyllow := 79\<rparr>\<rparr>"

definition cd_regs :: bregs where
  "cd_regs = bregs_zero\<lparr>eax := 0x0203, ecx := 0x0003, es := 0x7c0\<rparr>"

theorem cd_emulation_delivers_image_witness:
  "\<exists>regs' st'. disk_1302 (env_zero\<lparr>env_drivers := with_cdemu cd_drv\<rparr>) cd_regs 0x200 cd_state = (regs', st') \<and>
     \<not> carry regs' \<and> al regs' = 3 \<and> dmem st' 0x7c00 = 82"
proof -
  have g: "getLCHS 0x200 cd_state = \<lparr>chs_head = 2, chs_cylinder = 80, chs_sector = 18\<rparr>"
    by (simp add: getLCHS_def cd_state_def eltorito_zero_def)
  have r: "al cd_regs = 3" "ch cd_regs = 0" "cl cd_regs = 3" "dh cd_regs = 0" "bx cd_regs = 0" "es cd_regs = 0x7c0"
    by (simp_all add: cd_regs_def bregs_zero_def rl_def rh_def r16_def)
  have p: "MAKE_FLATPTR 0x7c0 0 = 0x7c00" by (simp add: MAKE_FLATPTR_def)
  have l: "chs_to_lba \<lparr>chs_head = 2, chs_cylinder = 80, chs_sector = 18\<rparr> 0 0 3 = 2" by (simp add: chs_to_lba_def)
  have e: "unat (el_ilba (CDEmu cd_state)) = 20" by (simp add: cd_state_def)
  have s: "cd_setting cd_drv AtaAtapiDrv cd_disc (chs_read_op cd_regs 0x200 cd_state) cd_state"
    by (simp add: cd_setting_def chs_read_op_def p r cd_place_def cd_driver_def cd_drv_def)
      (simp add: cd_state_def process_op_16_def both_driver_def dtype_defs)
  have dr: "drives cd_state 0x200 = cdemu_drive" by (simp add: cd_state_def)
  have "\<exists>regs' st'. disk_1302 (env_zero\<lparr>env_drivers := with_cdemu cd_drv\<rparr>) cd_regs 0x200 cd_state = (regs', st') \<and>
      ah regs' = 0 \<and> \<not> carry regs' \<and> al regs' = al cd_regs \<and>
      mem_read (dmem st') (MAKE_FLATPTR (es cd_regs) (ucast (bx cd_regs))) (512 * unat (al cd_regs)) =
      cd_bytes cd_disc (2048 * unat (el_ilba (CDEmu cd_state)) + 512 * unat (chs_to_lba (getLCHS 0x200 cd_state) 0 0 3))
        (512 * unat (al cd_regs))"
    by (rule cd_emulation_delivers_image [OF _ dr _ _ refl _ _ _ _ _ _ s]) (simp_all add: g r p)
  moreover have "(ucast (0 :: u16) :: u32) = 0" "512 * unat (3 :: u8) = 1536" by simp_all
  ultimately have "\<exists>regs' st'. disk_1302 (env_zero\<lparr>env_drivers := with_cdemu cd_drv\<rparr>) cd_regs 0x200 cd_state = (regs', st') \<and>
      ah regs' = 0 \<and> \<not> carry regs' \<and> al regs' = 3 \<and>
      mem_read (dmem st') 0x7c00 1536 = cd_bytes cd_disc (2048 * 20 + 512 * unat (2 :: u32)) 1536"
    by (simp only: g r e p l)
  then obtain regs' st' where d: "disk_1302 (env_zero\<lparr>env_drivers := with_cdemu cd_drv\<rparr>) cd_regs 0x200 cd_state = (regs', st')"
      "\<not> carry regs'" "al regs' = 3" "mem_read (dmem st') 0x7c00 1536 = cd_bytes cd_disc (2048 * 20 + 512 * 2) 1536"
    by auto
  then have "mem_read (dmem st') 0x7c00 1536 ! 0 = cd_bytes cd_disc (2048 * 20 + 512 * 2) 1536 ! 0" by simp
  then have "dmem st' 0x7c00 = 82" by (simp add: cd_disc_def)
  with d show ?thesis by blast
qed

end
