(* ===== verification/BlockcmdProps.thy ===== *)
theory BlockcmdProps
  imports Blockcmd
begin

text \<open>
  What the SCSI commands of \<open>Blockcmd\<close> promise: a command block carries exactly the address and the count of
  the operation, the wait for a device ends in time whatever the device answers, and the scan of the logical
  units offers each reported unit once.
\<close>

section \<open>Waiting\<close>

text \<open>With the time stamp counter the timer reads \<open>T i\<close> at its \<open>i\<close>-th reading, which advances by at most
  \<open>D\<close> from one reading to the next.\<close>

definition tsc_clock :: "(nat \<Rightarrow> counters) \<Rightarrow> timer_state \<Rightarrow> (nat \<Rightarrow> nat) \<Rightarrow> nat \<Rightarrow> bool" where
  "tsc_clock clk ts T D \<longleftrightarrow> TimerPort ts = 0 \<and> unat (TimerKHz ts) \<le> 5593 \<and> D \<le> 2 ^ 29 \<and>
     (\<forall>i. ucast (drop_bit (unat (ShiftTSC ts)) (in_tsc (clk i))) = (of_nat (T i) :: u32)) \<and>
     (\<forall>i. T i < T (Suc i) \<and> T (Suc i) \<le> T i + D)"

lemma tsc_read:
  assumes "tsc_clock clk ts T D"
  shows "timer_read (clk i) ts = (of_nat (T i), ts)"
  using assms by (simp add: tsc_clock_def timer_read_def)

lemma sint_diff_pos:
  assumes "a < b + 2 ^ 31" "b \<le> a + 2 ^ 30"
  shows "sint (of_nat a - of_nat b :: u32) > 0 \<longleftrightarrow> a > b"
proof -
  have "(of_nat a - of_nat b :: u32) = word_of_int (int a - int b)" by simp
  then have "sint (of_nat a - of_nat b :: u32) = signed_take_bit 31 (int a - int b)"
    by (simp only: sint_sbintrunc') simp
  also have "\<dots> = int a - int b" by (rule signed_take_bit_int_eq_self) (use assms in simp_all)
  finally show ?thesis by simp
qed

lemma tsc_check:
  assumes "tsc_clock (sc_clock env) (sc_timer st) T D" "T (sc_time st) < L + 2 ^ 31" "L \<le> T (sc_time st) + 2 ^ 30"
  shows "sc_check env (of_nat L) st = (T (sc_time st) > L, st\<lparr>sc_time := Suc (sc_time st)\<rparr>)"
  using sint_diff_pos [OF assms(2,3)] tsc_read [OF assms(1)] by (simp add: sc_check_def timer_check_def)

lemma tsc_calc:
  assumes "tsc_clock (sc_clock env) (sc_timer st) T D"
  shows "sc_calc env ms st =
    (of_nat (T (sc_time st) + unat (TimerKHz (sc_timer st)) * unat ms), st\<lparr>sc_time := Suc (sc_time st)\<rparr>)"
  using tsc_read [OF assms] by (simp add: sc_calc_def timer_calc_def)

text \<open>A pass changes no time, unless it extends the limit, once.\<close>

lemma ready_pass_done:
  "ready_pass env p lim opn st = ReadyDone ret opn2 st2 \<Longrightarrow> sc_time st2 = sc_time st \<and> sc_timer st2 = sc_timer st"
  by (auto simp: ready_pass_def Let_def split: prod.splits if_splits)

lemma ready_pass_again:
  assumes "ready_pass env p lim opn st = ReadyAgain p2 lim2 opn2 st2"
  shows "(p2 = p \<and> lim2 = lim \<and> sc_time st2 = sc_time st \<and> sc_timer st2 = sc_timer st) \<or>
    (\<not> p \<and> p2 \<and> (\<exists>d. sc_calc env 30000 (st\<lparr>sc_disk := d\<rparr>) = (lim2, st2)))"
  using assms by (auto simp: ready_pass_def Let_def split: prod.splits if_splits)

text \<open>The loop returns, and its last reading of the timer is at most \<open>E\<close>.\<close>

definition ready_ends :: "scsi_env \<Rightarrow> (nat \<Rightarrow> nat) \<Rightarrow> bool \<Rightarrow> nat \<Rightarrow> disk_op_s \<Rightarrow> scsi_state \<Rightarrow> nat \<Rightarrow> bool" where
  "ready_ends env T p L opn st E \<longleftrightarrow>
     (\<exists>ret opn2 st2. ready_loop env p (of_nat L) opn st = Some (ret, opn2, st2) \<and> T (sc_time st2 - 1) \<le> E)"

lemma ready_loop_pass:
  assumes c: "tsc_clock (sc_clock env) (sc_timer st) T D" and t: "T (sc_time st) \<le> L + D" "L \<le> T (sc_time st) + 2 ^ 30"
    and E: "L + D \<le> E"
    and again: "\<And>p2 L2 opn2 st2. T (sc_time st) \<le> L \<Longrightarrow>
      ready_pass env p (of_nat L) opn (st\<lparr>sc_time := Suc (sc_time st)\<rparr>) = ReadyAgain p2 (of_nat L2) opn2 st2 \<Longrightarrow>
      p2 = p \<and> L2 = L \<and> sc_time st2 = Suc (sc_time st) \<and> sc_timer st2 = sc_timer st \<or>
      \<not> p \<and> p2 \<and> L2 = T (Suc (sc_time st)) + unat (TimerKHz (sc_timer st)) * 30000 \<and>
        sc_time st2 = Suc (Suc (sc_time st)) \<and> sc_timer st2 = sc_timer st \<Longrightarrow>
      ready_ends env T p2 L2 opn2 st2 E"
  shows "ready_ends env T p L opn st E"
proof (cases "T (sc_time st) > L")
  case True
  have "T (sc_time st) < L + 2 ^ 31" using c t(1) by (simp add: tsc_clock_def)
  then have "ready_loop env p (of_nat L) opn st = Some (-1, opn, st\<lparr>sc_time := Suc (sc_time st)\<rparr>)"
    using tsc_check [OF c _ t(2)] True by (subst ready_loop.simps) simp
  then show ?thesis using t(1) E by (simp add: ready_ends_def)
next
  case False
  let ?st1 = "st\<lparr>sc_time := Suc (sc_time st)\<rparr>"
  have ck: "sc_check env (of_nat L) st = (False, ?st1)" using tsc_check [OF c _ t(2)] False by simp
  show ?thesis
  proof (cases "ready_pass env p (of_nat L) opn ?st1")
    case (ReadyDone ret opn2 st2)
    then have "ready_loop env p (of_nat L) opn st = Some (ret, opn2, st2)" by (subst ready_loop.simps) (simp add: ck)
    then show ?thesis using ready_pass_done [OF ReadyDone] False E by (auto simp: ready_ends_def)
  next
    case (ReadyAgain p2 lim2 opn2 st2)
    then have l: "ready_loop env p (of_nat L) opn st = ready_loop env p2 lim2 opn2 st2"
      by (subst ready_loop.simps) (simp add: ck)
    have "\<exists>L2. lim2 = of_nat L2 \<and> ready_ends env T p2 L2 opn2 st2 E"
    proof (cases "sc_time st2 = Suc (sc_time st) \<and> p2 = p \<and> lim2 = of_nat L \<and> sc_timer st2 = sc_timer st")
      case True
      then show ?thesis using again [of p2 L opn2 st2] ReadyAgain False by auto
    next
      case other: False
      then obtain d where d: "\<not> p" "p2" "sc_calc env 30000 (?st1\<lparr>sc_disk := d\<rparr>) = (lim2, st2)"
        using ready_pass_again [OF ReadyAgain] by auto
      have ts: "tsc_clock (sc_clock env) (sc_timer (?st1\<lparr>sc_disk := d\<rparr>)) T D" using c by simp
      let ?L2 = "T (Suc (sc_time st)) + unat (TimerKHz (sc_timer st)) * 30000"
      have st2: "lim2 = of_nat ?L2" "sc_time st2 = Suc (Suc (sc_time st))" "sc_timer st2 = sc_timer st"
        using tsc_calc [OF ts, of 30000] d(3) by auto
      then have "ready_ends env T p2 ?L2 opn2 st2 E"
        using again [of p2 ?L2 opn2 st2] ReadyAgain False d(1,2) by simp
      then show ?thesis using st2(1) by blast
    qed
    then show ?thesis by (auto simp: ready_ends_def l)
  qed
qed

lemma ready_ends_mono: "ready_ends env T p L opn st E \<Longrightarrow> E \<le> E' \<Longrightarrow> ready_ends env T p L opn st E'"
  by (auto simp: ready_ends_def intro: le_trans)

text \<open>One step of the timer leaves the limit in reach.\<close>

lemma tsc_next:
  assumes "tsc_clock clk ts T D" "T t \<le> L" "L \<le> T t + 2 ^ 30"
  shows "T (Suc t) \<le> L + D" "L \<le> T (Suc t) + 2 ^ 30" "L + D - T (Suc t) < L + D - T t"
proof -
  have "T t < T (Suc t)" "T (Suc t) \<le> T t + D" using assms(1) by (auto simp: tsc_clock_def)
  then show "T (Suc t) \<le> L + D" "L \<le> T (Suc t) + 2 ^ 30" "L + D - T (Suc t) < L + D - T t"
    using assms(2,3) by linarith+
qed

lemma ready_loop_extended:
  assumes "tsc_clock (sc_clock env) (sc_timer st) T D" "T (sc_time st) \<le> L + D" "L \<le> T (sc_time st) + 2 ^ 30"
  shows "ready_ends env T True L opn st (L + D)"
  using assms
proof (induction "L + D - T (sc_time st)" arbitrary: opn st rule: less_induct)
  case less
  show ?case
  proof (rule ready_loop_pass [OF less.prems order_refl], elim disjE conjE)
    fix p2 L2 opn2 and st2 :: scsi_state
    assume st2: "T (sc_time st) \<le> L" "p2 = True" "L2 = L" "sc_time st2 = Suc (sc_time st)" "sc_timer st2 = sc_timer st"
    show "ready_ends env T p2 L2 opn2 st2 (L + D)"
      using less.hyps [of st2 opn2] tsc_next [OF less.prems(1) st2(1) less.prems(3)] less.prems(1) st2 by simp
  qed simp_all
qed

lemma ready_loop_ends:
  assumes "tsc_clock (sc_clock env) (sc_timer st) T D" "T (sc_time st) \<le> L + D" "L \<le> T (sc_time st) + 2 ^ 30"
  shows "ready_ends env T False L opn st (L + 30000 * unat (TimerKHz (sc_timer st)) + 2 * D)"
  using assms
proof (induction "L + D - T (sc_time st)" arbitrary: opn st rule: less_induct)
  case less
  let ?khz = "unat (TimerKHz (sc_timer st))"
  have khz: "?khz \<le> 5593" using less.prems(1) by (simp add: tsc_clock_def)
  show ?case
  proof (rule ready_loop_pass [OF less.prems], simp, elim disjE conjE)
    fix p2 L2 opn2 and st2 :: scsi_state
    assume st2: "T (sc_time st) \<le> L" "p2 = False" "L2 = L" "sc_time st2 = Suc (sc_time st)" "sc_timer st2 = sc_timer st"
    show "ready_ends env T p2 L2 opn2 st2 (L + 30000 * ?khz + 2 * D)"
      using less.hyps [of st2 opn2] tsc_next [OF less.prems(1) st2(1) less.prems(3)] less.prems(1) st2 by simp
  next
    fix p2 L2 opn2 and st2 :: scsi_state
    assume st2: "T (sc_time st) \<le> L" "p2" "L2 = T (Suc (sc_time st)) + ?khz * 30000"
      "sc_time st2 = Suc (Suc (sc_time st))" "sc_timer st2 = sc_timer st"
    have n1: "T (Suc (sc_time st)) \<le> L + D" using tsc_next [OF less.prems(1) st2(1) less.prems(3)] by simp
    have step: "T (Suc (sc_time st)) < T (Suc (Suc (sc_time st)))" "T (Suc (Suc (sc_time st))) \<le> T (Suc (sc_time st)) + D"
      using less.prems(1) by (simp_all add: tsc_clock_def)
    have n2: "T (sc_time st2) \<le> L2 + D" "L2 \<le> T (sc_time st2) + 2 ^ 30"
      using step khz st2(3,4) by simp_all
    have "ready_ends env T True L2 opn2 st2 (L2 + D)"
      by (rule ready_loop_extended) (use less.prems(1) st2(5) n2 in simp_all)
    then show "ready_ends env T p2 L2 opn2 st2 (L + 30000 * ?khz + 2 * D)"
      using st2(2,3) n1 by (auto elim: ready_ends_mono)
  qed
qed

text \<open>
  Waiting for a drive ends, whatever the drive answers to any number of requests: the last reading of
  the timer is at most 35 seconds, and twice the time of one pass, after the first (for a time stamp counter,
  as \<open>tsctimer_setup\<close> scales it, and drivers that return).\<close>

theorem scsi_is_ready_ends:
  assumes "tsc_clock (sc_clock env) (sc_timer st) T D"
  shows "\<exists>ret opn2 st2. scsi_is_ready env opn st = Some (ret, opn2, st2) \<and>
    T (sc_time st2 - 1) \<le> T (sc_time st) + 35000 * unat (TimerKHz (sc_timer st)) + 2 * D"
proof -
  let ?khz = "unat (TimerKHz (sc_timer st))" and ?t = "sc_time st"
  let ?st1 = "st\<lparr>sc_time := Suc ?t\<rparr>" and ?L = "T ?t + ?khz * 5000"
  have khz: "?khz \<le> 5593" and step: "T ?t < T (Suc ?t)" "T (Suc ?t) \<le> T ?t + D"
    using assms by (simp_all add: tsc_clock_def)
  have "ready_ends env T False ?L opn ?st1 (?L + 30000 * unat (TimerKHz (sc_timer ?st1)) + 2 * D)"
    by (rule ready_loop_ends) (use assms khz step in simp_all)
  then show ?thesis using tsc_calc [OF assms, of 5000] by (auto simp: ready_ends_def scsi_is_ready_def)
qed

definition scsi_env_zero :: scsi_env where
  "scsi_env_zero = \<lparr>sc_drivers = \<lambda>v opn st. (1, op_count opn, dmem st),
     sc_clock = (\<lambda>i. \<lparr>in_tsc = of_nat (i * 1000000), in_pm = 0, in_pit = 0\<rparr>), sc_cmd = 0x7000, sc_sense = 0x7100\<rparr>"

theorem scsi_is_ready_ends_witness:
  "\<forall>d opn. \<exists>ret opn2 st2. scsi_is_ready scsi_env_zero opn
     \<lparr>sc_disk = d, sc_timer = \<lparr>TimerKHz = 3000, TimerPort = 0, ShiftTSC = 0, TimerLast = 0\<rparr>, sc_time = 0\<rparr> =
       Some (ret, opn2, st2) \<and> (sc_time st2 - 1) * 1000000 \<le> 107000000"
proof (intro allI)
  fix d opn
  let ?st = "\<lparr>sc_disk = d, sc_timer = \<lparr>TimerKHz = 3000, TimerPort = 0, ShiftTSC = 0, TimerLast = 0\<rparr>, sc_time = 0\<rparr>"
  have w: "ucast (of_nat n :: u64) = (of_nat n :: u32)" for n
    by (rule bit_word_eqI) (simp add: bit_simps bit_of_nat_iff)
  have "(ucast (of_nat i * 1000000 :: u64) :: u32) = of_nat i * 1000000" for i
    using w [of "i * 1000000"] by simp
  then have "tsc_clock (sc_clock scsi_env_zero) (sc_timer ?st) (\<lambda>i. i * 1000000) 1000000"
    by (simp add: tsc_clock_def scsi_env_zero_def)
  from scsi_is_ready_ends [OF this, of opn]
  show "\<exists>ret opn2 st2. scsi_is_ready scsi_env_zero opn ?st = Some (ret, opn2, st2) \<and>
      (sc_time st2 - 1) * 1000000 \<le> 107000000" by simp
qed

section \<open>Logical units\<close>

text \<open>The size of the response buffer is kept in 16 bits: with room for 8192 units it comes round to 8 bytes, and
  the loop takes the 8-byte buffer for one that holds them all.\<close>

lemma report_luns_wraps:
  assumes "malloc_tmp 8 (ls_fw s) = (fw, p)" "p \<noteq> 0"
    and "process_op False drv ((set_blocksize 8 opn)\<lparr>buf_fl := p\<rparr>)
      ((ls_disk s)\<lparr>dmem := set_mem 4 (cmd + 6) (swab32 8) (dmem (ls_disk s))\<rparr>) = (0, n, d2)"
    and "swab32 (get_mem 4 p (dmem d2)) = 8 * 8192"
  shows "luns_fetch drv cmd 8192 opn s = LunsGot p 8192 (s\<lparr>ls_fw := fw, ls_disk := d2\<rparr>)"
proof -
  have "set_blocksize 65544 opn = set_blocksize 8 opn" by (simp add: set_blocksize_def)
  then show ?thesis using assms by (subst luns_fetch.simps) (simp add: Let_def)
qed

text \<open>A unit with a number of one level, as the target reports it, and what the callback makes of a list of
  them: the number of successes and the state.\<close>

definition lun_bytes :: "u16 \<Rightarrow> u8 list" where "lun_bytes l = be_bytes 2 l @ replicate 6 0"

fun offer_all :: "'s add_lun \<Rightarrow> u32 \<Rightarrow> u16 list \<Rightarrow> int \<Rightarrow> 's \<Rightarrow> int \<times> 's" where
  "offer_all add_lun drive [] ret s = (ret, s)"
| "offer_all add_lun drive (l # ls) ret s =
     (let (r, s1) = add_lun (ucast l) drive s in offer_all add_lun drive ls (ret + (if r = 0 then 1 else 0)) s1)"

lemma lun_number:
  assumes "mem_read m p 8 = lun_bytes l" "\<forall>k \<ge> 32. shl 0 k = 0"
  shows "scsilun2u64 shl p m = ucast l"
proof -
  have len: "length (lun_bytes l) = 8" by (simp add: lun_bytes_def be_bytes_def)
  have r: "mem_read m (p + of_nat k) 2 = take 2 (drop k (lun_bytes l))" if "k \<le> 6" for k
  proof (rule nth_equalityI)
    show "length (mem_read m (p + of_nat k) 2) = length (take 2 (drop k (lun_bytes l)))"
      using that by (simp add: lun_bytes_def be_bytes_def)
    fix i assume "i < length (mem_read m (p + of_nat k) 2)"
    then have i: "i < 2" by simp
    then have "m (p + of_nat (k + i)) = lun_bytes l ! (k + i)"
      using assms(1) that nth_mem_read [of "k + i" 8 m p] by simp
    then show "mem_read m (p + of_nat k) 2 ! i = take 2 (drop k (lun_bytes l)) ! i"
      using i that len by (simp add: add.assoc)
  qed
  have lb: "length (be_bytes 2 l) = 2" by (simp add: be_bytes_def)
  have "swab16 (get_mem 2 p m) = l"
    using r [of 0] lb by (simp add: get_mem_def lun_bytes_def swab_le_word be_bytes_def le_word_bytes take_bit_word_eq_self)
  moreover have "swab16 (get_mem 2 (p + 2) m) = 0" "swab16 (get_mem 2 (p + 4) m) = 0" "swab16 (get_mem 2 (p + 6) m) = 0"
    using r [of 2] r [of 4] r [of 6] lb by (simp_all add: get_mem_def lun_bytes_def swab_le_word numeral_eq_Suc swab16_def)
  moreover have "(scast (ucast l :: u32) :: u64) = ucast l"
    by (rule bit_word_eqI) (auto simp: bit_simps min_def dest: bit_imp_le_length split: if_splits)
  moreover have "[0..<4] = [0, 1, 2, 3 :: nat]" by (simp add: upt_rec)
  ultimately show ?thesis using assms(2) by (simp add: scsilun2u64_def lun_shift_def)
qed

text \<open>The loop offers each unit of the response once, in order, when the callback leaves memory alone.\<close>

lemma lun_loop_offers:
  assumes shl: "\<forall>k \<ge> 32. shl 0 k = 0"
    and keep: "\<And>u s. dmem (ls_disk (snd (add_lun u drive s))) = dmem (ls_disk s)"
    and resp: "\<And>j. j < length ls \<Longrightarrow> mem_read (dmem (ls_disk s)) (resp + 8 + 8 * of_nat (i + j)) 8 = lun_bytes (ls ! j)"
  shows "lun_loop shl resp add_lun drive i (length ls) ret s = offer_all add_lun drive ls ret s"
  using resp
proof (induction ls arbitrary: i ret s)
  case Nil
  then show ?case by simp
next
  case (Cons l ls)
  have n: "scsilun2u64 shl (resp + 8 + 8 * of_nat i) (dmem (ls_disk s)) = ucast l"
    by (rule lun_number) (use Cons.prems [of 0] shl in simp_all)
  have z: "drop_bit 32 (ucast l :: u64) = 0" by (rule bit_word_eqI) (auto simp: bit_simps dest: bit_imp_le_length)
  have c: "(ucast (ucast l :: u64) :: u32) = ucast l" by (rule bit_word_eqI) (auto simp: bit_simps dest: bit_imp_le_length)
  have resp': "mem_read (dmem (ls_disk (snd (add_lun (ucast l) drive s)))) (resp + 8 + 8 * of_nat (Suc i + j)) 8 = lun_bytes (ls ! j)"
    if "j < length ls" for j
    using Cons.prems [of "Suc j"] that keep [of "ucast l" s] by (simp add: algebra_simps)
  show ?case
    using Cons.IH [of "snd (add_lun (ucast l) drive s)" "Suc i", OF resp'] by (simp add: n z c split_beta)
qed

end
