(* ===== verification/ScsiSetup.thy ===== *)
theory ScsiSetup
  imports CdromProps BlockcmdProps
begin

text \<open>
  The set-up of a SCSI drive (\<open>scsi_drive_setup\<close> of \<open>src/hw/blockcmd.c\<close>): the drive is asked what it is, waited
  for, asked for its capacity and perhaps its geometry, and entered into the boot list. After a successful
  set-up every address below the size of the drive fits the 32 bits of the commands that \<open>scsi_fill_cmd\<close>
  builds, so a request reaches the drive as it was made.
\<close>

section \<open>The code\<close>

definition SCSI_TYPE_DISK :: u8 where "SCSI_TYPE_DISK = 0x00"
definition SCSI_TYPE_CDROM :: u8 where "SCSI_TYPE_CDROM = 0x05"

text \<open>The addresses of the local variables, and whether the platform is QEMU.\<close>

record setup_env = cd_env +
  su_inquiry :: u32
  su_vendor :: u32
  su_product :: u32
  su_rev :: u32
  su_capacity :: u32
  su_geom :: u32
  su_qemu :: bool

definition mem_opt :: "(mem \<Rightarrow> mem option) \<Rightarrow> disk_state \<Rightarrow> disk_state option" where
  "mem_opt f st = map_option (\<lambda>m. st\<lparr>dmem := m\<rparr>) (f (dmem st))"

text \<open>The three strings of the inquiry, copied and trimmed.\<close>

definition inquiry_string :: "u32 \<Rightarrow> u32 \<Rightarrow> u32 \<Rightarrow> mem \<Rightarrow> mem option" where
  "inquiry_string dst src n m = map_option fst (nullTrailingSpace dst (strtcpy dst src n m))"

definition inquiry_strings :: "setup_env \<Rightarrow> disk_state \<Rightarrow> disk_state option" where
  "inquiry_strings env st =
     Option.bind (mem_opt (inquiry_string (su_vendor env) (su_inquiry env + 8) 9) st) (\<lambda>st1.
     Option.bind (mem_opt (inquiry_string (su_product env) (su_inquiry env + 16) 17) st1) (\<lambda>st2.
     mem_opt (inquiry_string (su_rev env) (su_inquiry env + 32) 5) st2))"

text \<open>The description that \<open>znprintf\<close> prints.\<close>

definition drive_desc ::
    "setup_env \<Rightarrow> string \<Rightarrow> string \<Rightarrow> disk_state \<Rightarrow> fwstate \<Rightarrow> (string option \<times> fwstate) option" where
  "drive_desc env fmt s st fw =
     Option.bind (c_str (dmem st) (su_vendor env)) (\<lambda>vendor.
     Option.bind (c_str (dmem st) (su_product env)) (\<lambda>product.
     map_option (\<lambda>rv.
       let (d, _, fw1) = znprintf 80 fmt [StrArg (Some s), StrArg (Some vendor), StrArg (Some product), StrArg (Some rv)] fw
       in (d, fw1)) (c_str (dmem st) (su_rev env))))"

type_synonym setup_state = "scsi_state \<times> boot_state"

text \<open>A CD drive: on QEMU, \<open>boot_add_cd\<close> asks for the label.\<close>

definition setup_cd :: "setup_env \<Rightarrow> u32 \<Rightarrow> string \<Rightarrow> int \<Rightarrow> setup_state \<Rightarrow> (int \<times> setup_state) option" where
  "setup_cd env drive s prio = (\<lambda>(st, bs).
     let d = sc_disk st;
         d1 = d\<lparr>drives := (drives d)(drive := (drives d drive)\<lparr>blksize := 2048, sectors := -1\<rparr>)\<rparr>;
         st1 = st\<lparr>sc_disk := d1\<rparr>; dr = drives d1 drive
     in Option.bind (drive_desc env ''DVD/CD [%s Drive %s %s %s]'' s d1 (b_fw bs)) (\<lambda>(desc, fw1).
        if \<not> su_qemu env then
          Some (0, st1, boot_add_cd False None drive (dtype dr) (cntl_id dr) desc prio (bs\<lparr>b_fw := fw1\<rparr>))
        else
          Option.bind (cdrom_media_info (cd_env.truncate env) drive st1 fw1) (\<lambda>(p, st2, fw2).
          if p = 0 then
            Some (0, st2, boot_add_cd True None drive (dtype dr) (cntl_id dr) desc prio (bs\<lparr>b_fw := fw2\<rparr>))
          else
            map_option (\<lambda>x. (0, st2, boot_add_cd True (Some (p, x)) drive (dtype dr) (cntl_id dr) desc prio (bs\<lparr>b_fw := fw2\<rparr>)))
              (c_str (dmem (sc_disk st2)) p))))"

text \<open>The geometry page of QEMU's drives.\<close>

definition geom_pchs :: "mem \<Rightarrow> u32 \<Rightarrow> drive_s \<Rightarrow> drive_s" where
  "geom_pchs m g d =
     (let cylinders = (push_bit 16 (ucast (m (g + 10))) OR push_bit 8 (ucast (m (g + 11))) OR ucast (m (g + 12)) :: u32);
          heads = (ucast (m (g + 13)) :: u32)
      in if cylinders \<noteq> 0 \<and> heads \<noteq> 0 \<and> sectors d \<le> 0xffffffff \<and> ucast (sectors d) mod (heads * cylinders) = 0
         then d\<lparr>pchs := \<lparr>chs_head = ucast heads, chs_cylinder = ucast cylinders,
                          chs_sector = ucast ((ucast (sectors d) :: u32) div (heads * cylinders))\<rparr>\<rparr>
         else d)"

definition setup_geometry :: "setup_env \<Rightarrow> u32 \<Rightarrow> disk_op_s \<Rightarrow> disk_state \<Rightarrow> disk_state" where
  "setup_geometry env drive dop st =
     (if mem_read (dmem st) (su_vendor env) 5 = str_bytes ''QEMU'' @ [0] then
        let (ret, dop1, st1) = cdb_mode_sense_geom (sc_drivers env) (sc_cmd env) (su_geom env) dop st
        in if ret = 0 then st1\<lparr>drives := (drives st1)(drive := geom_pchs (dmem st1) (su_geom env) (drives st1 drive))\<rparr>
           else st1
      else st)"

definition setup_disk :: "setup_env \<Rightarrow> u32 \<Rightarrow> string \<Rightarrow> int \<Rightarrow> disk_op_s \<Rightarrow> setup_state \<Rightarrow> (int \<times> setup_state) option" where
  "setup_disk env drive s prio dop = (\<lambda>(st, bs).
     case scsi_is_ready (scsi_env.truncate env) dop st of
       None \<Rightarrow> None
     | Some (ret, dop1, st1) \<Rightarrow>
         if ret \<noteq> 0 then Some (ret, st1, bs)
         else
           let (ret2, dop2, d2) = cdb_read_capacity (sc_drivers env) (sc_cmd env) (su_capacity env) dop1 (sc_disk st1);
               bsize = ucast (swab32 (get_mem 4 (su_capacity env + 4) (dmem d2))) :: u16;
               d3 = d2\<lparr>drives := (drives d2)(drive := (drives d2 drive)\<lparr>blksize := bsize\<rparr>)\<rparr>;
               n = ucast (swab32 (get_mem 4 (su_capacity env) (dmem d2))) + 1 :: u64;
               d4 = d3\<lparr>drives := (drives d3)(drive := (drives d3 drive)\<lparr>sectors := n\<rparr>)\<rparr>
           in if ret2 \<noteq> 0 then Some (ret2, st1\<lparr>sc_disk := d2\<rparr>, bs)
              else if bsize \<noteq> 512 then Some (-1, st1\<lparr>sc_disk := d3\<rparr>, bs)
              else
                let d5 = setup_geometry env drive dop2 d4; dr = drives d5 drive
                in map_option (\<lambda>(desc, fw1). (0, st1\<lparr>sc_disk := d5\<rparr>,
                       boot_add_hd drive (dtype dr) (cntl_id dr) desc prio (bs\<lparr>b_fw := fw1\<rparr>)))
                     (drive_desc env ''%s Drive %s %s %s'' s d5 (b_fw bs)))"

definition scsi_drive_setup :: "setup_env \<Rightarrow> u32 \<Rightarrow> string \<Rightarrow> int \<Rightarrow> setup_state \<Rightarrow> (int \<times> setup_state) option" where
  "scsi_drive_setup env drive s prio = (\<lambda>(st, bs).
     let (ret, dop, d1) = cdb_get_inquiry (sc_drivers env) (sc_cmd env) (su_inquiry env) (op_zero drive) (sc_disk st)
     in if ret \<noteq> 0 then Some (ret, st\<lparr>sc_disk := d1\<rparr>, bs)
        else
          Option.bind (inquiry_strings env d1) (\<lambda>d2.
            let pdt = dmem d2 (su_inquiry env) AND 0x1f;
                rem = (if dmem d2 (su_inquiry env + 1) AND 0x80 \<noteq> 0 then 1 else 0);
                d3 = d2\<lparr>drives := (drives d2)(drive := (drives d2 drive)\<lparr>removable := rem\<rparr>)\<rparr>;
                st3 = st\<lparr>sc_disk := d3\<rparr>
            in if pdt = SCSI_TYPE_CDROM then setup_cd env drive s prio (st3, bs)
               else if pdt \<noteq> SCSI_TYPE_DISK then Some (-1, st3, bs)
               else setup_disk env drive s prio dop (st3, bs)))"

section \<open>What changes a drive\<close>

lemma process_op_drives: "process_op mode drv opn st = (ret, n, st1) \<Longrightarrow> drives st1 = drives st"
  by (auto simp: process_op_def Let_def split: prod.splits option.splits if_splits)

lemma scsi_request_drives: "scsi_request drv n data cmd sz opn st = (ret, opn1, st1) \<Longrightarrow> drives st1 = drives st"
  by (auto simp: scsi_request_def Let_def split: prod.splits dest!: process_op_drives)

lemmas request_defs = cdb_get_inquiry_def cdb_get_sense_def cdb_test_unit_ready_def cdb_read_capacity_def
  cdb_mode_sense_geom_def

lemma cdb_drives:
  "cdb_test_unit_ready drv cmd opn st = (ret, opn1, st1) \<Longrightarrow> drives st1 = drives st"
  "cdb_get_sense drv cmd data opn st = (ret, opn1, st1) \<Longrightarrow> drives st1 = drives st"
  "cdb_mode_sense_geom drv cmd data opn st = (ret, opn1, st1) \<Longrightarrow> drives st1 = drives st"
  by (auto simp: request_defs dest!: scsi_request_drives)

lemma sc_calc_disk: "sc_calc env ms st = (l, st1) \<Longrightarrow> sc_disk st1 = sc_disk st"
  by (auto simp: sc_calc_def split: prod.splits)

lemma sc_check_disk: "sc_check env l st = (b, st1) \<Longrightarrow> sc_disk st1 = sc_disk st"
  by (auto simp: sc_check_def split: prod.splits)

lemma ready_pass_drives:
  "ready_pass env p lim opn st = ReadyDone ret opn2 st2 \<Longrightarrow> drives (sc_disk st2) = drives (sc_disk st)"
  "ready_pass env p lim opn st = ReadyAgain p2 lim2 opn2 st2 \<Longrightarrow> drives (sc_disk st2) = drives (sc_disk st)"
  by (auto simp: ready_pass_def Let_def split: prod.splits if_splits dest!: cdb_drives sc_calc_disk)

lemma ready_loop_drives:
  assumes "ready_loop env p lim opn st = Some y"
  shows "drives (sc_disk (snd (snd y))) = drives (sc_disk st)"
proof (rule ready_loop.raw_induct [of "\<lambda>env p lim opn st y. drives (sc_disk (snd (snd y))) = drives (sc_disk st)", OF _ assms])
  fix f env p lim opn st y
  assume IH: "\<And>env p lim opn st y. f env p lim opn st = Some y \<Longrightarrow> drives (sc_disk (snd (snd y))) = drives (sc_disk st)"
    and y: "(let (late, st1) = sc_check env lim st
      in if late then Some (- 1, opn, st1)
         else case ready_pass env p lim opn st1 of
                ReadyDone ret opn2 st2 \<Rightarrow> Some (ret, opn2, st2)
              | ReadyAgain p lim2 opn2 st2 \<Rightarrow> f env p lim2 opn2 st2) = Some y"
  obtain late st1 where c: "sc_check env lim st = (late, st1)" by fastforce
  show "drives (sc_disk (snd (snd y))) = drives (sc_disk st)"
    using y c sc_check_disk [OF c] IH
    by (auto split: if_splits ready_step.splits dest: ready_pass_drives)
qed

lemma scsi_is_ready_drives:
  "scsi_is_ready env opn st = Some (ret, opn2, st2) \<Longrightarrow> drives (sc_disk st2) = drives (sc_disk st)"
  by (auto simp: scsi_is_ready_def split: prod.splits dest!: ready_loop_drives sc_calc_disk)

lemma cd_op_drives: "cd_op drv opn st = (ret, opn1, st1) \<Longrightarrow> drives st1 = drives st"
  by (auto simp: cd_op_def split: prod.splits dest: process_op_drives)

lemma media_info_drives:
  "cdrom_media_info env drive st fw = Some (p, st1, fw1) \<Longrightarrow> drives (sc_disk st1) = drives (sc_disk st)"
  by (auto simp: cdrom_media_info_def media_label_def Let_def split: option.splits prod.splits if_splits
      dest!: scsi_is_ready_drives cd_op_drives)

section \<open>The command block of a read or write\<close>

definition rw_block :: "u8 \<Rightarrow> u32 \<Rightarrow> u16 \<Rightarrow> u8 list" where
  "rw_block opcode l n = [opcode, 0] @ be_bytes 4 l @ [0] @ be_bytes 2 n @ replicate 7 0"

lemma length_be_bytes [simp]: "length (be_bytes n w) = n"
  by (simp add: be_bytes_def)

lemma list4: "length xs = 4 \<Longrightarrow> \<exists>a b c d. xs = [a, b, c, d]"
  by (auto simp: length_Suc_conv numeral_eq_Suc)

lemma list2: "length xs = 2 \<Longrightarrow> \<exists>a b. xs = [a, b]"
  by (auto simp: length_Suc_conv numeral_eq_Suc)

lemma rw_block_written:
  "mem_read (set_mem 2 (p + 7) (swab16 n) (set_mem 4 (p + 2) (swab32 l) ((memset p 0 16 m)(p := b)))) p 16 = rw_block b l n"
proof -
  obtain b0 b1 b2 b3 where l: "be_bytes 4 l = [b0, b1, b2, b3]" using list4 [of "be_bytes 4 l"] by auto
  obtain n0 n1 where n: "be_bytes 2 n = [n0, n1]" using list2 [of "be_bytes 2 n"] by auto
  have d: "p - (p + k) = - k" for k :: u32 by simp
  let ?m = "set_mem 2 (p + 7) (swab16 n) (set_mem 4 (p + 2) (swab32 l) ((memset p 0 16 m)(p := b)))"
  show ?thesis
  proof (rule nth_equalityI)
    show "length (mem_read ?m p 16) = length (rw_block b l n)" by (simp add: rw_block_def)
    fix i assume "i < length (mem_read ?m p 16)"
    then have "i \<in> {0, 1, 2, 3, 4, 5, 6, 7, 8, 9, 10, 11, 12, 13, 14, 15}" by simp presburger
    then show "mem_read ?m p 16 ! i = rw_block b l n ! i"
      by (elim insertE) (simp_all add: set_mem_def swab16_bytes swab32_bytes mem_write_eq memset_eq rw_block_def l n d)
  qed
qed

lemma scsi_fill_cmd_block:
  assumes "command opn = CMD_READ \<or> command opn = CMD_WRITE"
  shows "fst (scsi_fill_cmd mode d opn cdb 16 m) = uint (blksize d)"
    and "mem_read (snd (scsi_fill_cmd mode d opn cdb 16 m)) cdb 16 =
      rw_block (if command opn = CMD_READ then CDB_CMD_READ_10 else CDB_CMD_WRITE_10) (ucast (lba opn)) (op_count opn)"
  using assms rw_block_written [of cdb "op_count opn" "ucast (lba opn)" m]
  by (simp_all add: scsi_fill_cmd_def Let_def)

section \<open>The property\<close>

lemma setup_cd_sectors:
  "setup_cd env drive s prio (st, bs) = Some (ret, st2, bs2) \<Longrightarrow> sectors (drives (sc_disk st2) drive) = -1"
  by (auto simp: setup_cd_def Let_def split: if_splits prod.splits bind_splits option.splits dest!: media_info_drives)

lemma geom_pchs_size: "sectors (geom_pchs m g d) = sectors d" "blksize (geom_pchs m g d) = blksize d"
  by (simp_all add: geom_pchs_def Let_def)

lemma setup_geometry_size:
  "sectors (drives (setup_geometry env drive dop st) drive) = sectors (drives st drive)"
  "blksize (drives (setup_geometry env drive dop st) drive) = blksize (drives st drive)"
  by (auto simp: setup_geometry_def geom_pchs_size Let_def split: prod.splits dest: cdb_drives(3))

lemma setup_disk_size:
  assumes "setup_disk env drive s prio dop (st, bs) = Some (0, st2, bs2)"
  shows "blksize (drives (sc_disk st2) drive) = 512 \<and> unat (sectors (drives (sc_disk st2) drive)) \<le> 2 ^ 32"
proof -
  have "unat (ucast (x :: u32) + 1 :: u64) \<le> 2 ^ 32" for x
    using unat_u32_bound [of x] unat_add_small [of "ucast x :: u64" 1]
    by (simp add: unsigned_ucast_eq take_bit_nat_eq_self)
  then show ?thesis
    using assms by (auto simp: setup_disk_def Let_def setup_geometry_size split: option.splits prod.splits if_splits)
qed

text \<open>C26. After a successful set-up a drive that is not a CD has blocks of 512 bytes and at most \<open>2 ^ 32\<close> of
  them, so that a read or write of any of its blocks becomes a SCSI command that carries exactly its address and
  count, although commands have 32 bits for the address and requests 64.\<close>

theorem scsi_access_exact:
  assumes su: "scsi_drive_setup env drive s prio (st, bs) = Some (0, st2, bs2)"
    and d: "d = drives (sc_disk st2) drive" "sectors d \<noteq> -1"
    and opn: "command opn = CMD_READ \<or> command opn = CMD_WRITE" "lba opn < sectors d"
  shows "\<exists>m2 l. scsi_fill_cmd mode d opn cdb 16 m = (512, m2) \<and>
    mem_read m2 cdb 16 = rw_block (if command opn = CMD_READ then 0x28 else 0x2a) l (op_count opn) \<and>
    unat l = unat (lba opn)"
proof -
  obtain st3 bs3 dop where "setup_disk env drive s prio dop (st3, bs3) = Some (0, st2, bs2)"
    using su d
    by (auto simp: scsi_drive_setup_def Let_def split: if_splits prod.splits bind_splits dest: setup_cd_sectors)
  then have sz: "blksize d = 512" "unat (sectors d) \<le> 2 ^ 32" using setup_disk_size d(1) by auto
  then have "unat (ucast (lba opn) :: u32) = unat (lba opn)"
    using opn(2) by (simp add: unsigned_ucast_eq take_bit_nat_eq_self word_less_nat_alt)
  moreover have "scsi_fill_cmd mode d opn cdb 16 m = (512, snd (scsi_fill_cmd mode d opn cdb 16 m))"
    using scsi_fill_cmd_block(1) [OF opn(1), of mode d cdb m] sz(1) by (simp add: prod_eq_iff)
  ultimately show ?thesis
    using scsi_fill_cmd_block(2) [OF opn(1), of mode d cdb m] by (fastforce simp: cdb_defs)
qed

text \<open>A drive of 100 blocks without name.\<close>

definition setup_drv :: disk_drivers where
  "setup_drv v opn st = (0, op_count opn,
     if buf_fl opn = 0x7600 then set_mem 4 0x7600 (swab32 99) (set_mem 4 0x7604 (swab32 512) (dmem st)) else dmem st)"

definition setup_env_zero :: setup_env where
  "setup_env_zero = \<lparr>sc_drivers = setup_drv, sc_clock = (\<lambda>i. \<lparr>in_tsc = 0, in_pm = 0, in_pit = 0\<rparr>), sc_cmd = 0x7000,
     sc_sense = 0x7100, cd_buffer = 0, su_inquiry = 0x7200, su_vendor = 0x7300, su_product = 0x7400, su_rev = 0x7500,
     su_capacity = 0x7600, su_geom = 0x7700, su_qemu = False\<rparr>"

definition setup_scsi_zero :: scsi_state where
  "setup_scsi_zero = \<lparr>sc_disk = disk_zero\<lparr>drives := (\<lambda>a. drive_zero\<lparr>dtype := DTYPE_VIRTIO_SCSI\<rparr>)\<rparr>,
     sc_timer = \<lparr>TimerKHz = 3000, TimerPort = 0, ShiftTSC = 0, TimerLast = 0\<rparr>, sc_time = 0\<rparr>"

lemma empty_strings:
  "m p = 0 \<Longrightarrow> strlen m p = Some 0"
  "m p = 0 \<Longrightarrow> nullTrailingSpace p m = Some (m, p)"
  "m p = 0 \<Longrightarrow> c_str m p = Some []"
  "m q = 0 \<Longrightarrow> unat (n - 1) = Suc k \<Longrightarrow> strtcpy p q n m = m(p := 0)"
  using strlen_cstr [of m p "[]"]
  by (simp_all add: nullTrailingSpace_def skip_blank.simps c_str_def mem_read_def strtcpy_def)

lemma inquiry_string_empty:
  "m q = 0 \<Longrightarrow> unat (n - 1) = Suc k \<Longrightarrow> inquiry_string p q n m = Some (m(p := 0))"
  by (simp add: inquiry_string_def empty_strings)

lemma setup_request:
  assumes "drives st (drive_fl opn) = drive_zero\<lparr>dtype := DTYPE_VIRTIO_SCSI\<rparr>" "n \<le> 1"
  shows "scsi_request setup_drv n data cmd sz opn st =
    (0, set_blocksize sz (set_cdbcmd cmd (opn\<lparr>command := CMD_SCSI, op_count := n, buf_fl := data\<rparr>)),
     st\<lparr>dmem := (if data = 0x7600 then set_mem 4 0x7600 (swab32 99) (set_mem 4 0x7604 (swab32 512) (dmem st)) else dmem st),
        sent := sent st @ [set_blocksize sz (set_cdbcmd cmd (opn\<lparr>command := CMD_SCSI, op_count := n, buf_fl := data\<rparr>))]\<rparr>)"
proof -
  have "int_mul n 512 \<le> 65536" using int_mul_le [of n 512] assms(2) by (simp add: word_le_nat_alt)
  then show ?thesis
    using assms(1)
    by (simp add: scsi_request_def process_op_def setup_drv_def set_blocksize_def set_cdbcmd_def drive_zero_def
        process_op_32_def both_driver_def dtype_defs)
qed

lemma setup_ready:
  "drives (sc_disk st) (drive_fl opn) = drive_zero\<lparr>dtype := DTYPE_VIRTIO_SCSI\<rparr> \<Longrightarrow> sc_timer st = sc_timer setup_scsi_zero \<Longrightarrow>
   \<exists>opn2 st2. scsi_is_ready (scsi_env.truncate setup_env_zero) opn st = Some (0, opn2, st2) \<and> 
     drive_fl opn2 = drive_fl opn \<and> drives (sc_disk st2) = drives (sc_disk st) \<and> (\<forall>a. unat (a - 0x7000) \<ge> 16 \<longrightarrow> dmem (sc_disk st2) a = dmem (sc_disk st) a)"
  by (simp add: scsi_is_ready_def sc_calc_def timer_calc_def timer_read_def setup_scsi_zero_def setup_env_zero_def scsi_env.defs,
      subst ready_loop.simps,
      simp add: sc_check_def timer_check_def timer_read_def ready_pass_def cdb_test_unit_ready_def setup_request,
      simp add: cdb_clear_def memset_eq set_blocksize_def set_cdbcmd_def sizeof_cdb_def)

lemma setup_runs:
  "\<exists>st2 bs2. scsi_drive_setup setup_env_zero 0x100 s prio (setup_scsi_zero, bs) = Some (0, st2, bs2) \<and>
     sectors (drives (sc_disk st2) 0x100) = 100"
proof -
  define d where "d = sc_disk setup_scsi_zero"
  have d: "drives d = (\<lambda>a. drive_zero\<lparr>dtype := DTYPE_VIRTIO_SCSI\<rparr>)" "dmem d = (\<lambda>a. 0)" by (simp_all add: d_def setup_scsi_zero_def disk_zero_def)
  obtain opn1 d1 where i: "cdb_get_inquiry setup_drv 0x7000 0x7200 (op_zero 0x100) d = (0, opn1, d1)"
    "drive_fl opn1 = 0x100" "drives d1 = drives d" "\<forall>a. unat (a - 0x7000) \<ge> 16 \<longrightarrow> dmem d1 a = 0"
    by (simp add: cdb_get_inquiry_def setup_request d op_zero_def set_blocksize_def set_cdbcmd_def cdb_clear_def sizeof_cdb_def memset_eq)
  define d2 where "d2 = d1\<lparr>dmem := (dmem d1)(0x7300 := 0, 0x7400 := 0, 0x7500 := 0)\<rparr>"
  have str: "inquiry_strings setup_env_zero d1 = Some d2"
    by (simp add: inquiry_strings_def mem_opt_def setup_env_zero_def inquiry_string_empty i(4) d2_def)
  have m2: "\<forall>a. unat (a - 0x7000) \<ge> 16 \<longrightarrow> dmem d2 a = 0" using i(4) by (simp add: d2_def)
  let ?st3 = "setup_scsi_zero\<lparr>sc_disk := d2\<lparr>drives := (drives d2)(0x100 := (drives d2 0x100)\<lparr>removable := 0\<rparr>)\<rparr>\<rparr>"
  have *: "scsi_drive_setup setup_env_zero 0x100 s prio (setup_scsi_zero, bs) = setup_disk setup_env_zero 0x100 s prio opn1 (?st3, bs)"
    using i str m2 by (simp add: scsi_drive_setup_def setup_env_zero_def d_def [symmetric] SCSI_TYPE_CDROM_def SCSI_TYPE_DISK_def)
  have dr: "(drives d2)(0x100 := (drives d2 0x100)\<lparr>removable := 0\<rparr>) = drives d"
    by (rule ext) (simp add: d2_def i d drive_zero_def)
  obtain opn2 st2 where r: "scsi_is_ready (scsi_env.truncate setup_env_zero) opn1 ?st3 = Some (0, opn2, st2)"
    "drive_fl opn2 = 0x100" "drives (sc_disk st2) = drives d"
    "\<forall>a. unat (a - 0x7000) \<ge> 16 \<longrightarrow> dmem (sc_disk st2) a = 0"
    using setup_ready [of ?st3 opn1] i m2 d by (auto simp: dr)
  define d4 where "d4 = (sc_disk st2)\<lparr>dmem := set_mem 4 0x7600 (swab32 99) (set_mem 4 0x7604 (swab32 512)
      (cdb_clear 0x7000 CDB_CMD_READ_CAPACITY (dmem (sc_disk st2))))\<rparr>"
  obtain opn3 sn where c: "cdb_read_capacity setup_drv 0x7000 0x7600 opn2 (sc_disk st2) = (0, opn3, d4\<lparr>sent := sn\<rparr>)"
    by (simp add: cdb_read_capacity_def setup_request r d d4_def)
  have m4: "dmem d4 0x7300 = 0" "dmem d4 0x7400 = 0" "dmem d4 0x7500 = 0"
    "get_mem 4 0x7604 (dmem d4) = swab32 512" "get_mem 4 0x7600 (dmem d4) = swab32 99"
    using r(4) by (simp_all add: d4_def apart_at_def set_other_byte cdb_clear_def memset_eq sizeof_cdb_def)
  have "mem_read (dmem d4) 0x7300 5 \<noteq> str_bytes ''QEMU'' @ [0]"
  proof
    assume "mem_read (dmem d4) 0x7300 5 = str_bytes ''QEMU'' @ [0]"
    then have "mem_read (dmem d4) 0x7300 5 ! 0 = (str_bytes ''QEMU'' @ [0]) ! 0" by simp
    then show False using m4(1) by (simp add: str_bytes_def)
  qed
  then have g: "setup_geometry setup_env_zero 0x100 opn3 st4 = st4" if "dmem st4 = dmem d4" for st4
    using that by (simp add: setup_geometry_def setup_env_zero_def)
  have e: "sc_drivers setup_env_zero = setup_drv" "sc_cmd setup_env_zero = 0x7000" "su_capacity setup_env_zero = 0x7600"
    "su_vendor setup_env_zero = 0x7300" "su_product setup_env_zero = 0x7400" "su_rev setup_env_zero = 0x7500"
    by (simp_all add: setup_env_zero_def)
  have "\<exists>st2 bs2. setup_disk setup_env_zero 0x100 s prio opn1 (?st3, bs) = Some (0, st2, bs2) \<and>
     sectors (drives (sc_disk st2) 0x100) = 100"
    using r(1)
    by (simp add: setup_disk_def e c m4 g drive_desc_def empty_strings Let_def split_def)
  then show ?thesis by (simp only: *)
qed

theorem scsi_access_exact_witness:
  "\<forall>bs. \<exists>st2 bs2 m2 l. scsi_drive_setup setup_env_zero 0x100 ''X'' 0 (setup_scsi_zero, bs) = Some (0, st2, bs2) \<and>
     scsi_fill_cmd True (drives (sc_disk st2) 0x100)
       \<lparr>buf_fl = 0x7c00, drive_fl = 0x100, command = CMD_READ, op_count = 1, lba = 99\<rparr> 0x8000 16 (\<lambda>a. 0) = (512, m2) \<and>
     mem_read m2 0x8000 16 = rw_block 0x28 l 1 \<and> unat l = 99"
proof
  fix bs
  obtain st2 bs2 where s: "scsi_drive_setup setup_env_zero 0x100 ''X'' 0 (setup_scsi_zero, bs) = Some (0, st2, bs2)"
    "sectors (drives (sc_disk st2) 0x100) = 100" using setup_runs by blast
  let ?opn = "\<lparr>buf_fl = 0x7c00, drive_fl = 0x100, command = CMD_READ, op_count = 1, lba = 99\<rparr>"
  show "\<exists>st2 bs2 m2 l. scsi_drive_setup setup_env_zero 0x100 ''X'' 0 (setup_scsi_zero, bs) = Some (0, st2, bs2) \<and>
     scsi_fill_cmd True (drives (sc_disk st2) 0x100) ?opn 0x8000 16 (\<lambda>a. 0) = (512, m2) \<and>
     mem_read m2 0x8000 16 = rw_block 0x28 l 1 \<and> unat l = 99"
    using scsi_access_exact [OF s(1) refl, where opn = ?opn and mode = True and cdb = "0x8000" and m = "\<lambda>a. 0"] s by simp
qed

end
