(* ===== verification/PortIO.thy ===== *)
theory PortIO
  imports Clock
begin

text \<open>
  Port input and output for the drivers of simple devices. A device is a function from the accesses so far to
  the value that the next read delivers, so a read may depend on everything that was written and read before.
  The wait of the services on a status port (\<open>inb\<close>, a test, \<open>irqtimer_check\<close>, \<open>yield\<close>) is one function: its
  input is the number of timer interrupts that each \<open>yield\<close> lets through, and it has no result when the
  list is used up while it still waits.
\<close>

section \<open>Accesses\<close>

datatype io_event = In u16 u8 | Out u16 u8

record port_dev =
  dev_in :: "io_event list \<Rightarrow> u16 \<Rightarrow> u8"

record io_state =
  io_clock :: clock_state
  io_log :: "io_event list"

abbreviation io_mem :: "'a io_state_scheme \<Rightarrow> mem" where "io_mem st \<equiv> cmem (io_clock st)"

definition set_io_mem :: "(mem \<Rightarrow> mem) \<Rightarrow> 'a io_state_scheme \<Rightarrow> 'a io_state_scheme" where
  "set_io_mem f st = st\<lparr>io_clock := (io_clock st)\<lparr>cmem := f (io_mem st)\<rparr>\<rparr>"

definition inb :: "port_dev \<Rightarrow> u16 \<Rightarrow> 'a io_state_scheme \<Rightarrow> u8 \<times> 'a io_state_scheme" where
  "inb dev p st = (let v = dev_in dev (io_log st) p in (v, st\<lparr>io_log := io_log st @ [In p v]\<rparr>))"

definition outb :: "u8 \<Rightarrow> u16 \<Rightarrow> 'a io_state_scheme \<Rightarrow> 'a io_state_scheme" where
  "outb v p st = st\<lparr>io_log := io_log st @ [Out p v]\<rparr>"

text \<open>The bytes written to a port.\<close>

definition written :: "u16 \<Rightarrow> io_event list \<Rightarrow> u8 list" where
  "written p log = concat (map (\<lambda>e. case e of Out q v \<Rightarrow> if q = p then [v] else [] | In q v \<Rightarrow> []) log)"

lemma written_simps [simp]:
  "written p [] = []" "written p (xs @ ys) = written p xs @ written p ys" "written p [In q v] = []"
  "written p [Out q v] = (if q = p then [v] else [])"
  by (simp_all add: written_def)

lemma inb_sel [simp]:
  "io_clock (snd (inb dev p st)) = io_clock st" "written q (io_log (snd (inb dev p st))) = written q (io_log st)"
  by (simp_all add: inb_def Let_def)

lemma outb_sel [simp]:
  "io_clock (outb v p st) = io_clock st" "io_log (outb v p st) = io_log st @ [Out p v]"
  by (simp_all add: outb_def)

section \<open>Waiting for a status\<close>

definition yield_ticks :: "nat \<Rightarrow> 'a io_state_scheme \<Rightarrow> 'a io_state_scheme" where
  "yield_ticks n st = st\<lparr>io_clock := (handle_08 ^^ n) (io_clock st)\<rparr>"

fun poll_port ::
    "port_dev \<Rightarrow> u16 \<Rightarrow> (u8 \<Rightarrow> bool) \<Rightarrow> u32 \<Rightarrow> nat list \<Rightarrow> 'a io_state_scheme
      \<Rightarrow> (bool \<times> u8 \<times> nat list \<times> 'a io_state_scheme) option" where
  "poll_port dev p ready lim ns st =
     (let (v, st1) = inb dev p st
      in if ready v then Some (True, v, ns, st1)
         else if irqtimer_check lim (io_clock st1) then Some (False, v, ns, st1)
         else (case ns of [] \<Rightarrow> None | n # ns' \<Rightarrow> poll_port dev p ready lim ns' (yield_ticks n st1)))"

declare poll_port.simps [simp del]

lemma poll_port_result:
  assumes "poll_port dev p ready lim ns st = Some (ok, v, rest, st1)"
  shows "written q (io_log st1) = written q (io_log st) \<and> (ok \<longleftrightarrow> ready v)"
  using assms
proof (induction dev p ready lim ns st rule: poll_port.induct)
  case (1 dev p ready lim ns st)
  then show ?case
    by (subst (asm) (2) poll_port.simps)
      (auto simp: inb_def Let_def yield_ticks_def split: if_splits list.splits)
qed

end
