(* ===== verification/Serial.thy ===== *)
theory Serial
  imports PortIO
begin

text \<open>
  The serial and printer services (\<open>src/serial.c\<close>): detection of the ports, interrupts 0x14 and 0x17. The
  configuration is the default one (\<open>CONFIG_SERIAL\<close>, \<open>CONFIG_LPT\<close>, no \<open>CONFIG_DEBUG_SERIAL\<close>); the delays of
  \<open>udelay\<close> leave no trace.
\<close>

section \<open>Ports and fields\<close>

definition PORT_LPT2 :: u16 where "PORT_LPT2 = 0x0278"
definition PORT_SERIAL4 :: u16 where "PORT_SERIAL4 = 0x02e8"
definition PORT_SERIAL2 :: u16 where "PORT_SERIAL2 = 0x02f8"
definition PORT_LPT1 :: u16 where "PORT_LPT1 = 0x0378"
definition PORT_SERIAL3 :: u16 where "PORT_SERIAL3 = 0x03e8"
definition PORT_SERIAL1 :: u16 where "PORT_SERIAL1 = 0x03f8"

definition SEROFF_DATA :: u16 where "SEROFF_DATA = 0"
definition SEROFF_DLL :: u16 where "SEROFF_DLL = 0"
definition SEROFF_IER :: u16 where "SEROFF_IER = 1"
definition SEROFF_DLH :: u16 where "SEROFF_DLH = 1"
definition SEROFF_IIR :: u16 where "SEROFF_IIR = 2"
definition SEROFF_LCR :: u16 where "SEROFF_LCR = 3"
definition SEROFF_LSR :: u16 where "SEROFF_LSR = 5"
definition SEROFF_MSR :: u16 where "SEROFF_MSR = 6"

lemmas seroff_defs = SEROFF_DATA_def SEROFF_DLL_def SEROFF_IER_def SEROFF_DLH_def SEROFF_IIR_def SEROFF_LCR_def
  SEROFF_LSR_def SEROFF_MSR_def

definition bda_port_com :: "u16 \<Rightarrow> u32" where "bda_port_com i = 2 * ucast i"
definition bda_port_lpt :: "u16 \<Rightarrow> u32" where "bda_port_lpt i = 0x08 + 2 * ucast i"
definition bda_lpt_timeout :: "u16 \<Rightarrow> u32" where "bda_lpt_timeout i = 0x78 + ucast i"
definition bda_com_timeout :: "u16 \<Rightarrow> u32" where "bda_com_timeout i = 0x7c + ucast i"

section \<open>COM ports\<close>

definition detect_serial :: "port_dev \<Rightarrow> u16 \<Rightarrow> u8 \<Rightarrow> u16 \<Rightarrow> 'a io_state_scheme \<Rightarrow> u16 \<times> 'a io_state_scheme" where
  "detect_serial dev port timeout count st =
     (let (ier, st1) = inb dev (port + SEROFF_IER) (outb 0x02 (port + SEROFF_IER) st)
      in if ier \<noteq> 0x02 then (0, st1)
         else
           let (iir, st2) = inb dev (port + SEROFF_IIR) st1
           in if iir AND 0x3f \<noteq> 0x02 then (0, st2)
              else
                let i = ucast (ucast count :: u8) :: u16;
                    st3 = outb 0x00 (port + SEROFF_IER) st2;
                    st4 = set_io_mem (set_mem 2 (bda_at (bda_port_com i)) port) st3
                in (1, set_io_mem (\<lambda>m. m(bda_at (bda_com_timeout i) := timeout)) st4))"

definition count_ports ::
    "(u16 \<Rightarrow> u16 \<Rightarrow> 'a io_state_scheme \<Rightarrow> u16 \<times> 'a io_state_scheme) \<Rightarrow> u16 list \<Rightarrow> 'a io_state_scheme
      \<Rightarrow> u16 \<times> 'a io_state_scheme" where
  "count_ports detect ports st =
     foldl (\<lambda>(count, st) port. let (n, st1) = detect port count st in (count + n, st1)) (0, st) ports"

definition serial_setup :: "port_dev \<Rightarrow> 'a io_state_scheme \<Rightarrow> 'a io_state_scheme" where
  "serial_setup dev st =
     (let (count, st1) = count_ports (\<lambda>port. detect_serial dev port 0x0a)
            [PORT_SERIAL1, PORT_SERIAL2, PORT_SERIAL3, PORT_SERIAL4] st
      in set_io_mem (set_equipment_flags 0xe00 (push_bit 9 count)) st1)"

definition getComAddr :: "bregs \<Rightarrow> mem \<Rightarrow> u16 \<times> bregs" where
  "getComAddr regs m =
     (if dx regs \<ge> 4 then (0, set_invalid_silent regs)
      else
        let addr = get_mem 2 (bda_at (bda_port_com (dx regs))) m
        in (addr, if addr = 0 then set_invalid_silent regs else regs))"

text \<open>A service: the registers, the ticks that are left, and the state.\<close>

type_synonym 'a service_result = "(bregs \<times> nat list \<times> 'a io_state_scheme) option"

definition handle_1400 :: "port_dev \<Rightarrow> bregs \<Rightarrow> 'a io_state_scheme \<Rightarrow> bregs \<times> 'a io_state_scheme" where
  "handle_1400 dev regs st =
     (let (addr, regs0) = getComAddr regs (io_mem st)
      in if addr = 0 then (regs0, st)
         else
           let (lcr, st1) = inb dev (addr + SEROFF_LCR) st;
               st2 = outb (lcr OR 0x80) (addr + SEROFF_LCR) st1;
               st3 =
                 (if al regs AND 0xe0 = 0 then outb 0x04 (addr + SEROFF_DLH) (outb 0x17 (addr + SEROFF_DLL) st2)
                  else
                    let val16 = drop_bit (unat (drop_bit 5 (al regs AND 0xe0))) (0x600 :: u16)
                    in outb (ucast (drop_bit 8 val16)) (addr + SEROFF_DLH)
                         (outb (ucast (val16 AND 0xff)) (addr + SEROFF_DLL) st2));
               st4 = outb (al regs AND 0x1f) (addr + SEROFF_LCR) st3;
               (lsr, st5) = inb dev (addr + SEROFF_LSR) st4;
               (msr, st6) = inb dev (addr + SEROFF_MSR) st5
           in (set_success (set_al msr (set_ah lsr regs)), st6))"

definition handle_1401 :: "port_dev \<Rightarrow> nat list \<Rightarrow> bregs \<Rightarrow> 'a io_state_scheme \<Rightarrow> 'a service_result" where
  "handle_1401 dev ns regs st =
     (let (addr, regs0) = getComAddr regs (io_mem st)
      in if addr = 0 then Some (regs0, ns, st)
         else
           let lim = irqtimer_calc_ticks (ucast (io_mem st (bda_at (bda_com_timeout (dx regs))))) (io_clock st)
           in map_option (\<lambda>(ok, lsr, rest, st1).
                if ok then (set_success (set_ah lsr regs), rest, outb (al regs) (addr + SEROFF_DATA) st1)
                else (set_success (set_ah (lsr OR 0x80) regs), rest, st1))
              (poll_port dev (addr + SEROFF_LSR) (\<lambda>lsr. lsr AND 0x60 = 0x60) lim ns st))"

definition handle_1402 :: "port_dev \<Rightarrow> nat list \<Rightarrow> bregs \<Rightarrow> 'a io_state_scheme \<Rightarrow> 'a service_result" where
  "handle_1402 dev ns regs st =
     (let (addr, regs0) = getComAddr regs (io_mem st)
      in if addr = 0 then Some (regs0, ns, st)
         else
           let lim = irqtimer_calc_ticks (ucast (io_mem st (bda_at (bda_com_timeout (dx regs))))) (io_clock st)
           in map_option (\<lambda>(ok, lsr, rest, st1).
                if ok then
                  let (v, st2) = inb dev (addr + SEROFF_DATA) st1 in (set_success (set_ah lsr (set_al v regs)), rest, st2)
                else (set_success (set_ah (lsr OR 0x80) regs), rest, st1))
              (poll_port dev (addr + SEROFF_LSR) (\<lambda>lsr. lsr AND 0x01 \<noteq> 0) lim ns st))"

definition handle_1403 :: "port_dev \<Rightarrow> bregs \<Rightarrow> 'a io_state_scheme \<Rightarrow> bregs \<times> 'a io_state_scheme" where
  "handle_1403 dev regs st =
     (let (addr, regs0) = getComAddr regs (io_mem st)
      in if addr = 0 then (regs0, st)
         else
           let (lsr, st1) = inb dev (addr + SEROFF_LSR) st;
               (msr, st2) = inb dev (addr + SEROFF_MSR) st1
           in (set_success (set_al msr (set_ah lsr regs)), st2))"

definition handle_14XX :: "bregs \<Rightarrow> bregs" where "handle_14XX regs = set_invalid_silent regs"

abbreviation at_once :: "nat list \<Rightarrow> bregs \<times> 'a io_state_scheme \<Rightarrow> 'a service_result" where
  "at_once ns r \<equiv> Some (fst r, ns, snd r)"

definition handle_14 :: "port_dev \<Rightarrow> nat list \<Rightarrow> bregs \<Rightarrow> 'a io_state_scheme \<Rightarrow> 'a service_result" where
  "handle_14 dev ns regs st =
     (if ah regs = 0x00 then at_once ns (handle_1400 dev regs st)
      else if ah regs = 0x01 then handle_1401 dev ns regs st
      else if ah regs = 0x02 then handle_1402 dev ns regs st
      else if ah regs = 0x03 then at_once ns (handle_1403 dev regs st)
      else at_once ns (handle_14XX regs, st))"

section \<open>LPT ports\<close>

definition detect_parport :: "port_dev \<Rightarrow> u16 \<Rightarrow> u8 \<Rightarrow> u16 \<Rightarrow> 'a io_state_scheme \<Rightarrow> u16 \<times> 'a io_state_scheme" where
  "detect_parport dev port timeout count st =
     (let (c, st1) = inb dev (port + 2) st;
          (v, st2) = inb dev port (outb 0xaa port (outb (c AND 0xdf) (port + 2) st1))
      in if v \<noteq> 0xaa then (0, st2)
         else
           let i = ucast (ucast count :: u8) :: u16;
               st3 = set_io_mem (set_mem 2 (bda_at (bda_port_lpt i)) port) st2
           in (1, set_io_mem (\<lambda>m. m(bda_at (bda_lpt_timeout i) := timeout)) st3))"

definition lpt_setup :: "port_dev \<Rightarrow> 'a io_state_scheme \<Rightarrow> 'a io_state_scheme" where
  "lpt_setup dev st =
     (let (count, st1) = count_ports (\<lambda>port. detect_parport dev port 0x14) [PORT_LPT1, PORT_LPT2] st
      in set_io_mem (set_equipment_flags 0xc000 (push_bit 14 count)) st1)"

definition getLptAddr :: "bregs \<Rightarrow> mem \<Rightarrow> u16 \<times> bregs" where
  "getLptAddr regs m =
     (if dx regs \<ge> 3 then (0, set_invalid_silent regs)
      else
        let addr = get_mem 2 (bda_at (bda_port_lpt (dx regs))) m
        in (addr, if addr = 0 then set_invalid_silent regs else regs))"

definition handle_1700 :: "port_dev \<Rightarrow> nat list \<Rightarrow> bregs \<Rightarrow> 'a io_state_scheme \<Rightarrow> 'a service_result" where
  "handle_1700 dev ns regs st =
     (let (addr, regs0) = getLptAddr regs (io_mem st)
      in if addr = 0 then Some (regs0, ns, st)
         else
           let lim = irqtimer_calc_ticks (ucast (io_mem st (bda_at (bda_lpt_timeout (dx regs))))) (io_clock st);
               (val8, st1) = inb dev (addr + 2) (outb (al regs) addr st);
               st2 = outb (val8 AND NOT 0x01) (addr + 2) (outb (val8 OR 0x01) (addr + 2) st1)
           in map_option (\<lambda>(ok, v, rest, st3).
                (set_success (set_ah (if ok then v XOR 0x48 else (v XOR 0x48) OR 0x01) regs), rest, st3))
              (poll_port dev (addr + 1) (\<lambda>v. v AND 0x40 = 0) lim ns st2))"

definition handle_1701 :: "port_dev \<Rightarrow> bregs \<Rightarrow> 'a io_state_scheme \<Rightarrow> bregs \<times> 'a io_state_scheme" where
  "handle_1701 dev regs st =
     (let (addr, regs0) = getLptAddr regs (io_mem st)
      in if addr = 0 then (regs0, st)
         else
           let (val8, st1) = inb dev (addr + 2) st;
               st2 = outb (val8 OR 0x04) (addr + 2) (outb (val8 AND NOT 0x04) (addr + 2) st1);
               (v, st3) = inb dev (addr + 1) st2
           in (set_success (set_ah (v XOR 0x48) regs), st3))"

definition handle_1702 :: "port_dev \<Rightarrow> bregs \<Rightarrow> 'a io_state_scheme \<Rightarrow> bregs \<times> 'a io_state_scheme" where
  "handle_1702 dev regs st =
     (let (addr, regs0) = getLptAddr regs (io_mem st)
      in if addr = 0 then (regs0, st)
         else let (v, st1) = inb dev (addr + 1) st in (set_success (set_ah (v XOR 0x48) regs), st1))"

definition handle_17XX :: "bregs \<Rightarrow> bregs" where "handle_17XX regs = set_invalid_silent regs"

definition handle_17 :: "port_dev \<Rightarrow> nat list \<Rightarrow> bregs \<Rightarrow> 'a io_state_scheme \<Rightarrow> 'a service_result" where
  "handle_17 dev ns regs st =
     (if ah regs = 0x00 then handle_1700 dev ns regs st
      else if ah regs = 0x01 then at_once ns (handle_1701 dev regs st)
      else if ah regs = 0x02 then at_once ns (handle_1702 dev regs st)
      else at_once ns (handle_17XX regs, st))"

end
