(* ===== verification/SerialProps.thy ===== *)
theory SerialProps
  imports Serial ClockProps
begin

text \<open>
  The waits of the serial and printer services end: when enough timer interrupts have come through, a service
  that still waits gives up, and reports it.
\<close>

lemma poll_port_ends:
  assumes c: "unat (ticks_of c0) < 1573040" and n: "unat count + 1 \<le> 786520"
    and st: "io_clock st = (handle_08 ^^ k) c0" "k < unat count + 1 + 786520"
    and ns: "unat count < k + sum_list ns" "\<forall>n \<in> set ns. n \<le> 786520"
  shows "poll_port dev p ready (irqtimer_calc_ticks count c0) ns st \<noteq> None"
  using st ns
proof (induction ns arbitrary: k st)
  case Nil
  then have "irqtimer_check (irqtimer_calc_ticks count c0) (io_clock (snd (inb dev p st)))"
    using irqtimer_after [OF c n Nil.prems(2)] by simp
  then show ?case by (subst poll_port.simps) (auto simp: split_beta)
next
  case (Cons n ns)
  have chk: "irqtimer_check (irqtimer_calc_ticks count c0) (io_clock (snd (inb dev p st))) \<longleftrightarrow> unat count < k"
    using irqtimer_after [OF c n Cons.prems(2)] Cons.prems(1) by simp
  show ?case
  proof (cases "unat count < k")
    case True
    then show ?thesis using chk by (subst poll_port.simps) (auto simp: split_beta)
  next
    case False
    have "io_clock (yield_ticks n (snd (inb dev p st))) = (handle_08 ^^ (n + k)) c0"
      using Cons.prems(1) by (simp add: yield_ticks_def funpow_add)
    then have "poll_port dev p ready (irqtimer_calc_ticks count c0) ns (yield_ticks n (snd (inb dev p st))) \<noteq> None"
      using Cons.IH [of "yield_ticks n (snd (inb dev p st))" "n + k"] Cons.prems False by simp
    then show ?thesis using chk False by (subst poll_port.simps) (auto simp: split_beta)
  qed
qed

text \<open>
  Writing a character to a serial port ends, whatever the port does: at latest when more timer
  interrupts than the timeout of the port have come through. The character has then been written to the port
  exactly once, and the status says that the port was ready, or it has not been written and the status
  has the timeout bit.\<close>

theorem serial_write_ends:
  assumes port: "getComAddr regs (io_mem st) = (addr, regs0)" "addr \<noteq> 0"
    and ticks: "unat (ticks_of (io_clock st)) < 1573040"
    and ns: "unat (io_mem st (bda_at (bda_com_timeout (dx regs)))) < sum_list ns" "\<forall>n \<in> set ns. n \<le> 786520"
  shows "\<exists>regs2 rest st2. handle_1401 dev ns regs st = Some (regs2, rest, st2) \<and> \<not> carry regs2 \<and>
    (written addr (io_log st2) = written addr (io_log st) @ [al regs] \<and> ah regs2 AND 0x60 = 0x60 \<or>
     written addr (io_log st2) = written addr (io_log st) \<and> ah regs2 AND 0x80 \<noteq> 0)"
proof -
  let ?t = "io_mem st (bda_at (bda_com_timeout (dx regs)))"
  have t: "unat (ucast ?t :: u32) = unat ?t" using unat_u8_bound [of ?t]
    by (simp add: unsigned_ucast_eq take_bit_nat_eq_self)
  have "poll_port dev (addr + SEROFF_LSR) (\<lambda>lsr. lsr AND 0x60 = 0x60) (irqtimer_calc_ticks (ucast ?t) (io_clock st)) ns st \<noteq> None"
    by (rule poll_port_ends [where k = 0]) (use ticks ns t unat_u8_bound [of ?t] in simp_all)
  then obtain ok lsr rest st1 where p: "poll_port dev (addr + SEROFF_LSR) (\<lambda>lsr. lsr AND 0x60 = 0x60)
      (irqtimer_calc_ticks (ucast ?t) (io_clock st)) ns st = Some (ok, lsr, rest, st1)" by auto
  have "(lsr OR 0x80) AND 0x80 \<noteq> 0"
  proof
    assume "(lsr OR 0x80) AND 0x80 = 0"
    then have "bit ((lsr OR 0x80) AND 0x80) 7 = bit (0 :: u8) 7" by simp
    then show False by (simp add: bit_simps bit_numeral_rec)
  qed
  then show ?thesis
    using poll_port_result [OF p, of addr] port p
    by (cases ok) (simp_all add: handle_1401_def SEROFF_DATA_def set_success_def)
qed

definition serial_dev :: "u8 \<Rightarrow> port_dev" where
  "serial_dev lsr = \<lparr>dev_in = (\<lambda>log p. if p = 0x3fd then lsr else 0)\<rparr>"

definition serial_sample :: io_state where
  "serial_sample = \<lparr>io_clock = (clock_at 5)\<lparr>cmem := set_mem 2 0x400 (0x3f8 :: u16) (cmem (clock_at 5))\<rparr>, io_log = []\<rparr>"

theorem serial_write_ends_witness:
  "\<exists>regs2 rest st2. handle_1401 (serial_dev 0x20) [1, 2, 8] (bregs_zero\<lparr>eax := 0x0141\<rparr>) serial_sample =
     Some (regs2, rest, st2) \<and> \<not> carry regs2"
proof -
  let ?r = "bregs_zero\<lparr>eax := 0x0141\<rparr>"
  have dx: "dx ?r = 0" by (simp add: bregs_zero_def r16_def)
  have com: "get_mem 2 (bda_at (bda_port_com 0)) (io_mem serial_sample) = (0x3f8 :: u16)"
    by (simp add: serial_sample_def bda_port_com_def MAKE_FLATPTR_def SEG_BDA_def)
  have "getComAddr ?r (io_mem serial_sample) = (0x3f8, ?r)"
    by (simp only: getComAddr_def dx com Let_def) simp
  moreover have "unat (ticks_of (io_clock serial_sample)) < 1573040"
    by (simp add: serial_sample_def apart_at_def)
  moreover have "io_mem serial_sample (bda_at (bda_com_timeout (dx ?r))) = 0"
    unfolding dx
    by (simp add: serial_sample_def bda_com_timeout_def MAKE_FLATPTR_def SEG_BDA_def clock_at_def apart_at_def)
  ultimately show ?thesis
    using serial_write_ends [of ?r serial_sample "0x3f8" ?r "[1, 2, 8]" "serial_dev 0x20"] by auto
qed

end
