(* ===== verification/Keyboard.thy ===== *)
theory Keyboard
  imports Bregs
begin

text \<open>
  The keyboard of \<open>src/kbd.c\<close>: the key buffer in the BIOS data area, the translation of the scancodes
  that the keyboard interrupt delivers, and the services of interrupt 0x16. The BIOS data area (segment
  0x40) is byte memory, read and written at the offsets of \<open>struct bios_data_area_s\<close> in
  \<open>src/std/bda.h\<close>, so that a relocated or corrupted key buffer can be expressed. The configuration is the
  default one (\<open>CONFIG_KEYBOARD\<close>, \<open>CONFIG_KBD_CALL_INT15_4F\<close>).

  The keyboard drivers and the handler of interrupt 0x15 are parameters, a record \<open>kbd_hw\<close> of functions
  of the calls made so far; software interrupts and the reset are recorded as events. A handler that
  rewrites the BIOS data area is not modelled. The wait for a key takes the scancodes that arrive
  meanwhile as a list, and gives \<open>None\<close> when they run out.
\<close>

section \<open>BIOS data area\<close>

definition kbd_flag0 :: u16 where "kbd_flag0 = 0x17"
definition kbd_buf_head :: u16 where "kbd_buf_head = 0x1a"
definition kbd_buf_tail :: u16 where "kbd_buf_tail = 0x1c"
definition kbd_buf :: u16 where "kbd_buf = 0x1e"
definition break_flag :: u16 where "break_flag = 0x71"
definition soft_reset_flag :: u16 where "soft_reset_flag = 0x72"
definition kbd_buf_start_offset :: u16 where "kbd_buf_start_offset = 0x80"
definition kbd_buf_end_offset :: u16 where "kbd_buf_end_offset = 0x82"
definition kbd_flag1 :: u16 where "kbd_flag1 = 0x96"
definition kbd_led :: u16 where "kbd_led = 0x97"

lemmas bda_offsets = kbd_flag0_def kbd_buf_head_def kbd_buf_tail_def kbd_buf_def break_flag_def
  soft_reset_flag_def kbd_buf_start_offset_def kbd_buf_end_offset_def kbd_flag1_def kbd_led_def

definition KF0_RSHIFT :: u16 where "KF0_RSHIFT = 1"
definition KF0_LSHIFT :: u16 where "KF0_LSHIFT = 2"
definition KF0_CTRLACTIVE :: u16 where "KF0_CTRLACTIVE = 4"
definition KF0_ALTACTIVE :: u16 where "KF0_ALTACTIVE = 8"
definition KF0_SCROLLACTIVE :: u16 where "KF0_SCROLLACTIVE = 0x10"
definition KF0_NUMACTIVE :: u16 where "KF0_NUMACTIVE = 0x20"
definition KF0_CAPSACTIVE :: u16 where "KF0_CAPSACTIVE = 0x40"
definition KF0_LCTRL :: u16 where "KF0_LCTRL = 0x100"
definition KF0_LALT :: u16 where "KF0_LALT = 0x200"
definition KF0_SCROLL :: u16 where "KF0_SCROLL = 0x1000"
definition KF0_NUM :: u16 where "KF0_NUM = 0x2000"
definition KF0_CAPS :: u16 where "KF0_CAPS = 0x4000"

definition KF1_LAST_E1 :: u8 where "KF1_LAST_E1 = 1"
definition KF1_LAST_E0 :: u8 where "KF1_LAST_E0 = 2"
definition KF1_RCTRL :: u8 where "KF1_RCTRL = 4"
definition KF1_RALT :: u8 where "KF1_RALT = 8"
definition KF1_101KBD :: u8 where "KF1_101KBD = 0x10"

lemmas kf_defs = KF0_RSHIFT_def KF0_LSHIFT_def KF0_CTRLACTIVE_def KF0_ALTACTIVE_def KF0_SCROLLACTIVE_def
  KF0_NUMACTIVE_def KF0_CAPSACTIVE_def KF0_LCTRL_def KF0_LALT_def KF0_SCROLL_def KF0_NUM_def KF0_CAPS_def
  KF1_LAST_E1_def KF1_LAST_E0_def KF1_RCTRL_def KF1_RALT_def KF1_101KBD_def

type_synonym bda_mem = "u16 \<Rightarrow> u8"

text \<open>Events: software interrupts with their registers, commands to the keyboard, and the reset.\<close>

datatype kbd_event = CallInt u8 bregs | KbdCommand u32 "u8 list" | Reset

record kbd_state =
  bda :: bda_mem
  kevents :: "kbd_event list"

record kbd_hw =
  usb_kbd_active :: "kbd_event list \<Rightarrow> bool"
  usb_kbd_command :: "kbd_event list \<Rightarrow> u32 \<Rightarrow> u8 list \<Rightarrow> int \<times> u8 list"
  ps2_kbd_command :: "kbd_event list \<Rightarrow> u32 \<Rightarrow> u8 list \<Rightarrow> int \<times> u8 list"
  int15_handler :: "kbd_event list \<Rightarrow> bregs \<Rightarrow> bregs"

definition call16_int :: "u8 \<Rightarrow> bregs \<Rightarrow> kbd_state \<Rightarrow> kbd_state" where
  "call16_int nr br st = st\<lparr>kevents := kevents st @ [CallInt nr br]\<rparr>"

section \<open>Key buffer\<close>

definition kbd_init :: "kbd_state \<Rightarrow> kbd_state" where
  "kbd_init st =
     (let x = kbd_buf;
          m1 = (bda st)(kbd_flag1 := KF1_101KBD);
          m2 = wr16 kbd_buf_head x m1;
          m3 = wr16 kbd_buf_tail x m2;
          m4 = wr16 kbd_buf_start_offset x m3
      in st\<lparr>bda := wr16 kbd_buf_end_offset (x + 32) m4\<rparr>)"

definition enqueue_key :: "u16 \<Rightarrow> bda_mem \<Rightarrow> u8 \<times> bda_mem" where
  "enqueue_key keycode m =
     (let buffer_start = rd16 m kbd_buf_start_offset;
          buffer_end = rd16 m kbd_buf_end_offset;
          buffer_head = rd16 m kbd_buf_head;
          temp_tail = rd16 m kbd_buf_tail;
          t1 = temp_tail + 2;
          buffer_tail = (if t1 \<ge> buffer_end then buffer_start else t1)
      in if buffer_tail = buffer_head then (0, m)
         else (1, wr16 kbd_buf_tail buffer_tail (wr16 temp_tail keycode m)))"

text \<open>\<open>dequeue_key\<close> in three parts: the translation of the key, the removal from the buffer, and the
  function itself with its wait.\<close>

definition dequeue_translate :: "bool \<Rightarrow> u16 \<Rightarrow> u16" where
  "dequeue_translate extended keycode =
     (let ascii = keycode AND 0xff;
          k1 = (if \<not> extended then
                  if ascii = 0xe0 \<and> keycode AND 0xff00 \<noteq> 0 then keycode AND 0xff00
                  else if keycode = 0xe00d \<or> keycode = 0xe00a then 0x1c00 OR ascii
                  else if keycode = 0xe02f then 0x352f
                  else keycode
                else keycode)
      in if ascii = 0xf0 \<and> k1 AND 0xff00 \<noteq> 0 then k1 AND 0xff00 else k1)"

definition dequeue_advance :: "bda_mem \<Rightarrow> bda_mem" where
  "dequeue_advance m =
     (let buffer_start = rd16 m kbd_buf_start_offset;
          buffer_end = rd16 m kbd_buf_end_offset;
          h1 = rd16 m kbd_buf_head + 2;
          buffer_head = (if h1 \<ge> buffer_end then buffer_start else h1)
      in wr16 kbd_buf_head buffer_head m)"

section \<open>Scancodes\<close>

datatype scaninfo = Scaninfo (normal: u16) (shift: u16) (control: u16) (alt: u16)

definition scan_to_keycode :: "scaninfo list" where
  "scan_to_keycode =
    [Scaninfo 0 0 0 0, Scaninfo 0x011b 0x011b 0x011b 0x01f0,
     Scaninfo 0x0231 0x0221 0 0x7800, Scaninfo 0x0332 0x0340 0x0300 0x7900,
     Scaninfo 0x0433 0x0423 0 0x7a00, Scaninfo 0x0534 0x0524 0 0x7b00,
     Scaninfo 0x0635 0x0625 0 0x7c00, Scaninfo 0x0736 0x075e 0x071e 0x7d00,
     Scaninfo 0x0837 0x0826 0 0x7e00, Scaninfo 0x0938 0x092a 0 0x7f00,
     Scaninfo 0x0a39 0x0a28 0 0x8000, Scaninfo 0x0b30 0x0b29 0 0x8100,
     Scaninfo 0x0c2d 0x0c5f 0x0c1f 0x8200, Scaninfo 0x0d3d 0x0d2b 0 0x8300,
     Scaninfo 0x0e08 0x0e08 0x0e7f 0x0ef0, Scaninfo 0x0f09 0x0f00 0x9400 0xa5f0,
     Scaninfo 0x1071 0x1051 0x1011 0x1000, Scaninfo 0x1177 0x1157 0x1117 0x1100,
     Scaninfo 0x1265 0x1245 0x1205 0x1200, Scaninfo 0x1372 0x1352 0x1312 0x1300,
     Scaninfo 0x1474 0x1454 0x1414 0x1400, Scaninfo 0x1579 0x1559 0x1519 0x1500,
     Scaninfo 0x1675 0x1655 0x1615 0x1600, Scaninfo 0x1769 0x1749 0x1709 0x1700,
     Scaninfo 0x186f 0x184f 0x180f 0x1800, Scaninfo 0x1970 0x1950 0x1910 0x1900,
     Scaninfo 0x1a5b 0x1a7b 0x1a1b 0x1af0, Scaninfo 0x1b5d 0x1b7d 0x1b1d 0x1bf0,
     Scaninfo 0x1c0d 0x1c0d 0x1c0a 0x1cf0, Scaninfo 0 0 0 0,
     Scaninfo 0x1e61 0x1e41 0x1e01 0x1e00, Scaninfo 0x1f73 0x1f53 0x1f13 0x1f00,
     Scaninfo 0x2064 0x2044 0x2004 0x2000, Scaninfo 0x2166 0x2146 0x2106 0x2100,
     Scaninfo 0x2267 0x2247 0x2207 0x2200, Scaninfo 0x2368 0x2348 0x2308 0x2300,
     Scaninfo 0x246a 0x244a 0x240a 0x2400, Scaninfo 0x256b 0x254b 0x250b 0x2500,
     Scaninfo 0x266c 0x264c 0x260c 0x2600, Scaninfo 0x273b 0x273a 0 0x27f0,
     Scaninfo 0x2827 0x2822 0 0x28f0, Scaninfo 0x2960 0x297e 0 0x29f0,
     Scaninfo 0 0 0 0, Scaninfo 0x2b5c 0x2b7c 0x2b1c 0x2bf0,
     Scaninfo 0x2c7a 0x2c5a 0x2c1a 0x2c00, Scaninfo 0x2d78 0x2d58 0x2d18 0x2d00,
     Scaninfo 0x2e63 0x2e43 0x2e03 0x2e00, Scaninfo 0x2f76 0x2f56 0x2f16 0x2f00,
     Scaninfo 0x3062 0x3042 0x3002 0x3000, Scaninfo 0x316e 0x314e 0x310e 0x3100,
     Scaninfo 0x326d 0x324d 0x320d 0x3200, Scaninfo 0x332c 0x333c 0 0x33f0,
     Scaninfo 0x342e 0x343e 0 0x34f0, Scaninfo 0x352f 0x353f 0 0x35f0,
     Scaninfo 0 0 0 0, Scaninfo 0x372a 0x372a 0x9600 0x37f0,
     Scaninfo 0 0 0 0, Scaninfo 0x3920 0x3920 0x3920 0x3920,
     Scaninfo 0 0 0 0, Scaninfo 0x3b00 0x5400 0x5e00 0x6800,
     Scaninfo 0x3c00 0x5500 0x5f00 0x6900, Scaninfo 0x3d00 0x5600 0x6000 0x6a00,
     Scaninfo 0x3e00 0x5700 0x6100 0x6b00, Scaninfo 0x3f00 0x5800 0x6200 0x6c00,
     Scaninfo 0x4000 0x5900 0x6300 0x6d00, Scaninfo 0x4100 0x5a00 0x6400 0x6e00,
     Scaninfo 0x4200 0x5b00 0x6500 0x6f00, Scaninfo 0x4300 0x5c00 0x6600 0x7000,
     Scaninfo 0x4400 0x5d00 0x6700 0x7100, Scaninfo 0 0 0 0,
     Scaninfo 0 0 0 0, Scaninfo 0x4700 0x4737 0x7700 0,
     Scaninfo 0x4800 0x4838 0x8d00 0, Scaninfo 0x4900 0x4939 0x8400 0,
     Scaninfo 0x4a2d 0x4a2d 0x8e00 0x4af0, Scaninfo 0x4b00 0x4b34 0x7300 0,
     Scaninfo 0x4c00 0x4c35 0x8f00 0, Scaninfo 0x4d00 0x4d36 0x7400 0,
     Scaninfo 0x4e2b 0x4e2b 0x9000 0x4ef0, Scaninfo 0x4f00 0x4f31 0x7500 0,
     Scaninfo 0x5000 0x5032 0x9100 0, Scaninfo 0x5100 0x5133 0x7600 0,
     Scaninfo 0x5200 0x5230 0x9200 0, Scaninfo 0x5300 0x532e 0x9300 0,
     Scaninfo 0 0 0 0, Scaninfo 0 0 0 0,
     Scaninfo 0x565c 0x567c 0 0, Scaninfo 0x8500 0x8700 0x8900 0x8b00,
     Scaninfo 0x8600 0x8800 0x8a00 0x8c00]"

definition key_ext_enter :: scaninfo where
  "key_ext_enter = Scaninfo 0xe00d 0xe00d 0xe00a 0xa600"

definition key_ext_slash :: scaninfo where
  "key_ext_slash = Scaninfo 0xe02f 0xe02f 0x9500 0xa400"

fun ascii_search :: "u8 \<Rightarrow> scaninfo list \<Rightarrow> u16" where
  "ascii_search ascii [] = 0"
| "ascii_search ascii (i # is) =
     (if normal i AND 0xff = ucast ascii then normal i
      else if shift i AND 0xff = ucast ascii then shift i
      else if control i AND 0xff = ucast ascii then control i
      else ascii_search ascii is)"

definition ascii_to_keycode :: "u8 \<Rightarrow> u16" where
  "ascii_to_keycode ascii = ascii_search ascii scan_to_keycode"

definition kbd_set_flag :: "bool \<Rightarrow> u16 \<Rightarrow> u8 \<Rightarrow> u16 \<Rightarrow> bda_mem \<Rightarrow> bda_mem" where
  "kbd_set_flag key_release set_bit0 set_bit1 toggle_bit m =
     (let flags0 = rd16 m kbd_flag0; flags1 = m kbd_flag1;
          f0 = (if key_release then flags0 AND NOT set_bit0 else (flags0 XOR toggle_bit) OR set_bit0);
          f1 = (if key_release then flags1 AND NOT set_bit1 else flags1 OR set_bit1)
      in (wr16 kbd_flag0 f0 m)(kbd_flag1 := f1))"

definition kbd_ctrl_break :: "bool \<Rightarrow> kbd_state \<Rightarrow> kbd_state" where
  "kbd_ctrl_break key_release st =
     (if \<not> key_release then st
      else
        let buffer_start = rd16 (bda st) kbd_buf_start_offset;
            m1 = wr16 kbd_buf_head buffer_start (bda st);
            m2 = wr16 kbd_buf_tail (buffer_start + 2) m1;
            m3 = wr16 buffer_start 0 m2
        in call16_int 0x1b (bregs_zero\<lparr>flags := F_IF\<rparr>) (st\<lparr>bda := m3(break_flag := 0x80)\<rparr>))"

definition kbd_sysreq :: "bool \<Rightarrow> kbd_state \<Rightarrow> kbd_state" where
  "kbd_sysreq key_release st =
     call16_int 0x15 ((set_al (if key_release then 1 else 0) (set_ah 0x85 bregs_zero))\<lparr>flags := F_IF\<rparr>) st"

definition kbd_prtscr :: "bool \<Rightarrow> kbd_state \<Rightarrow> kbd_state" where
  "kbd_prtscr key_release st =
     (if key_release then st else call16_int 0x05 (bregs_zero\<lparr>flags := F_IF\<rparr>) st)"

text \<open>The generic keys of \<open>__process_key\<close>: the keycode that \<open>scancode\<close> stands for under the given shift
  flags (\<open>e0\<close> tells whether the \<open>0xe0\<close> prefix was seen), 0 for none.\<close>

definition generic_keycode :: "bool \<Rightarrow> u16 \<Rightarrow> u8 \<Rightarrow> u16" where
  "generic_keycode e0 flags0 scancode =
     (let info = (if e0 \<and> (scancode = 0x1c \<or> scancode = 0x35)
                  then (if scancode = 0x1c then key_ext_enter else key_ext_slash)
                  else scan_to_keycode ! unat scancode);
          keycode =
            (if flags0 AND KF0_ALTACTIVE \<noteq> 0 then alt info
             else if flags0 AND KF0_CTRLACTIVE \<noteq> 0 then control info
             else
               let useshift = (flags0 AND (KF0_RSHIFT OR KF0_LSHIFT) \<noteq> 0);
                   ascii = normal info AND 0xff;
                   toggle = (flags0 AND KF0_NUMACTIVE \<noteq> 0 \<and> scancode \<ge> 0x47 \<and> scancode \<le> 0x53 \<or>
                             flags0 AND KF0_CAPSACTIVE \<noteq> 0 \<and> ascii \<ge> 0x61 \<and> ascii \<le> 0x7a)
               in if useshift \<noteq> toggle then shift info else normal info)
      in if e0 \<and> scancode \<ge> 0x47 \<and> scancode \<le> 0x53
         then (if flags0 AND KF0_ALTACTIVE \<noteq> 0 then push_bit 8 (ucast scancode + 0x50)
               else (keycode AND 0xff00) OR 0xe0)
         else keycode)"

definition generic_key :: "bool \<Rightarrow> bool \<Rightarrow> u8 \<Rightarrow> bda_mem \<Rightarrow> bda_mem" where
  "generic_key e0 key_release scancode m =
     (if key_release then m
      else if scancode = 0 \<or> unat scancode \<ge> length scan_to_keycode then m
      else
        let keycode = generic_keycode e0 (rd16 m kbd_flag0) scancode
        in if keycode \<noteq> 0 then snd (enqueue_key keycode m) else m)"

abbreviation on_bda :: "(bda_mem \<Rightarrow> bda_mem) \<Rightarrow> kbd_state \<Rightarrow> kbd_state" where
  "on_bda f st \<equiv> st\<lparr>bda := f (bda st)\<rparr>"

text \<open>The switch of \<open>__process_key\<close>: \<open>flags1\<close> is the value before the prefix flags were cleared.\<close>

definition process_scancode :: "u8 \<Rightarrow> bool \<Rightarrow> u8 \<Rightarrow> kbd_state \<Rightarrow> kbd_state" where
  "process_scancode flags1 key_release scancode st =
     (let e0 = (flags1 AND KF1_LAST_E0 \<noteq> 0); e1 = (flags1 AND KF1_LAST_E1 \<noteq> 0);
          flag = (\<lambda>b0 b1 t. on_bda (kbd_set_flag key_release b0 b1 t) st)
      in if scancode = 0x3a then flag KF0_CAPS 0 KF0_CAPSACTIVE
         else if scancode = 0x2a then (if e0 then st else flag KF0_LSHIFT 0 0)
         else if scancode = 0x36 then (if e0 then st else flag KF0_RSHIFT 0 0)
         else if scancode = 0x1d then
           (if e0 then flag KF0_CTRLACTIVE KF1_RCTRL 0 else flag (KF0_CTRLACTIVE OR KF0_LCTRL) 0 0)
         else if scancode = 0x38 then
           (if e0 then flag KF0_ALTACTIVE KF1_RALT 0 else flag (KF0_ALTACTIVE OR KF0_LALT) 0 0)
         else if scancode = 0x45 then (if e1 then st else flag KF0_NUM 0 KF0_NUMACTIVE)
         else if scancode = 0x46 then
           (if e0 then kbd_ctrl_break key_release st else flag KF0_SCROLL 0 KF0_SCROLLACTIVE)
         else if scancode = 0x37 \<and> e0 then kbd_prtscr key_release st
         else if scancode = 0x54 then kbd_sysreq key_release st
         else if scancode = 0x53 \<and> rd16 (bda st) kbd_flag0 AND (KF0_CTRLACTIVE OR KF0_ALTACTIVE) =
                   KF0_CTRLACTIVE OR KF0_ALTACTIVE \<and> \<not> key_release
           then st\<lparr>bda := wr16 soft_reset_flag 0x1234 (bda st), kevents := kevents st @ [Reset]\<rparr>
         else on_bda (generic_key e0 key_release scancode) st)"

definition process_key1 :: "u8 \<Rightarrow> kbd_state \<Rightarrow> kbd_state" where
  "process_key1 sc st =
     (let flags1 = bda st kbd_flag1
      in if sc = 0xe0 \<or> sc = 0xe1 then
           st\<lparr>bda := (bda st)(kbd_flag1 := flags1 OR (if sc = 0xe0 then KF1_LAST_E0 else KF1_LAST_E1))\<rparr>
         else
           let key_release = (sc AND 0x80 \<noteq> 0); scancode = sc AND NOT 0x80
           in if flags1 AND (KF1_LAST_E0 OR KF1_LAST_E1) \<noteq> 0 then
                if flags1 AND KF1_LAST_E1 \<noteq> 0 \<and> scancode = 0x1d then st
                else process_scancode flags1 key_release scancode
                       (st\<lparr>bda := (bda st)(kbd_flag1 := flags1 AND NOT (KF1_LAST_E0 OR KF1_LAST_E1))\<rparr>)
              else process_scancode flags1 key_release scancode st)"

definition process_key :: "kbd_hw \<Rightarrow> u8 \<Rightarrow> kbd_state \<Rightarrow> kbd_state" where
  "process_key hw key st =
     (let br = bregs_zero\<lparr>eax := 0x4f00 OR ucast key, flags := F_IF OR F_CF\<rparr>;
          br' = int15_handler hw (kevents st) br;
          st1 = call16_int 0x15 br st
      in if flags br' AND F_CF = 0 then st1 else process_key1 (ucast (eax br')) st1)"

section \<open>Interrupt 0x16\<close>

definition kbd_command :: "kbd_hw \<Rightarrow> u32 \<Rightarrow> u8 list \<Rightarrow> kbd_state \<Rightarrow> (int \<times> u8 list) \<times> kbd_state" where
  "kbd_command hw command param st =
     ((if usb_kbd_active hw (kevents st) then usb_kbd_command hw (kevents st) command param
       else ps2_kbd_command hw (kevents st) command param),
      st\<lparr>kevents := kevents st @ [KbdCommand command param]\<rparr>)"

type_synonym kbd_result = "(bregs \<times> kbd_state \<times> u8 list) option"

fun dequeue_key :: "kbd_hw \<Rightarrow> bregs \<Rightarrow> bool \<Rightarrow> bool \<Rightarrow> kbd_state \<Rightarrow> u8 list \<Rightarrow> kbd_result" where
  "dequeue_key hw regs incr extended st keys =
     (let m = bda st; buffer_head = rd16 m kbd_buf_head
      in if buffer_head \<noteq> rd16 m kbd_buf_tail then
           let regs1 = set_ax (dequeue_translate extended (rd16 m buffer_head)) regs
           in if \<not> incr then Some (regs1\<lparr>flags := flags regs AND NOT F_ZF\<rparr>, st, keys)
              else Some (regs1, st\<lparr>bda := dequeue_advance m\<rparr>, keys)
         else if \<not> incr then Some (regs\<lparr>flags := flags regs OR F_ZF\<rparr>, st, keys)
         else (case keys of
                 [] \<Rightarrow> None
               | k # ks \<Rightarrow> dequeue_key hw regs incr extended (process_key hw k st) ks))"

declare dequeue_key.simps [simp del]

definition handle_1600 :: "kbd_hw \<Rightarrow> bregs \<Rightarrow> kbd_state \<Rightarrow> u8 list \<Rightarrow> kbd_result" where
  "handle_1600 hw regs st keys = dequeue_key hw regs True False st keys"

definition handle_1601 :: "kbd_hw \<Rightarrow> bregs \<Rightarrow> kbd_state \<Rightarrow> u8 list \<Rightarrow> kbd_result" where
  "handle_1601 hw regs st keys = dequeue_key hw regs False False st keys"

definition handle_1602 :: "bregs \<Rightarrow> kbd_state \<Rightarrow> bregs" where
  "handle_1602 regs st = set_al (ucast (rd16 (bda st) kbd_flag0)) regs"

definition handle_1605 :: "bregs \<Rightarrow> kbd_state \<Rightarrow> bregs \<times> kbd_state" where
  "handle_1605 regs st =
     (let (r, m) = enqueue_key (cx regs) (bda st)
      in (set_al (if r = 0 then 1 else 0) regs, st\<lparr>bda := m\<rparr>))"

definition handle_1609 :: "bregs \<Rightarrow> bregs" where
  "handle_1609 regs = set_al 0x30 regs"

text \<open>The two bytes of the reply are \<open>param[0]\<close> and \<open>param[1]\<close>.\<close>

definition ATKBD_CMD_SETLEDS :: u32 where "ATKBD_CMD_SETLEDS = 0x10ed"
definition ATKBD_CMD_GETID :: u32 where "ATKBD_CMD_GETID = 0x02f2"

definition handle_160a :: "kbd_hw \<Rightarrow> bregs \<Rightarrow> kbd_state \<Rightarrow> bregs \<times> kbd_state" where
  "handle_160a hw regs st =
     (let ((ret, param), st1) = kbd_command hw ATKBD_CMD_GETID [0, 0] st
      in (if ret \<noteq> 0 then set_bx 0 regs
          else set_bx (push_bit 8 (ucast (param ! 1)) OR ucast (param ! 0)) regs, st1))"

definition handle_1610 :: "kbd_hw \<Rightarrow> bregs \<Rightarrow> kbd_state \<Rightarrow> u8 list \<Rightarrow> kbd_result" where
  "handle_1610 hw regs st keys = dequeue_key hw regs True True st keys"

definition handle_1611 :: "kbd_hw \<Rightarrow> bregs \<Rightarrow> kbd_state \<Rightarrow> u8 list \<Rightarrow> kbd_result" where
  "handle_1611 hw regs st keys = dequeue_key hw regs False True st keys"

definition handle_1612 :: "bregs \<Rightarrow> kbd_state \<Rightarrow> bregs" where
  "handle_1612 regs st =
     set_ax ((rd16 (bda st) kbd_flag0 AND NOT (push_bit 8 (ucast (KF1_RCTRL OR KF1_RALT)))) OR
             push_bit 8 (ucast (bda st kbd_flag1 AND (KF1_RCTRL OR KF1_RALT)))) regs"

definition handle_166f :: "bregs \<Rightarrow> bregs" where
  "handle_166f regs = (if al regs = 0x08 then set_ah 2 regs else regs)"

definition handle_1692 :: "bregs \<Rightarrow> bregs" where
  "handle_1692 regs = set_ah 0x80 regs"

definition set_leds :: "kbd_hw \<Rightarrow> kbd_state \<Rightarrow> kbd_state" where
  "set_leds hw st =
     (let shift_flags = ucast (drop_bit 4 (rd16 (bda st) kbd_flag0)) AND 0x07;
          led = bda st kbd_led; led_flags = led AND 0x07
      in if shift_flags = led_flags then st
         else
           let ((ret, _), st1) = kbd_command hw ATKBD_CMD_SETLEDS [shift_flags] st
           in if ret \<noteq> 0 then st1
              else st1\<lparr>bda := (bda st1)(kbd_led := (led AND NOT 0x07) OR shift_flags)\<rparr>)"

definition handle_16 :: "kbd_hw \<Rightarrow> bregs \<Rightarrow> kbd_state \<Rightarrow> u8 list \<Rightarrow> kbd_result" where
  "handle_16 hw regs st0 keys =
     (let st = set_leds hw st0; f = ah regs
      in if f = 0x00 then handle_1600 hw regs st keys
         else if f = 0x01 then handle_1601 hw regs st keys
         else if f = 0x02 then Some (handle_1602 regs st, st, keys)
         else if f = 0x05 then (case handle_1605 regs st of (r, s) \<Rightarrow> Some (r, s, keys))
         else if f = 0x09 then Some (handle_1609 regs, st, keys)
         else if f = 0x0a then (case handle_160a hw regs st of (r, s) \<Rightarrow> Some (r, s, keys))
         else if f = 0x10 then handle_1610 hw regs st keys
         else if f = 0x11 then handle_1611 hw regs st keys
         else if f = 0x12 then Some (handle_1612 regs st, st, keys)
         else if f = 0x92 then Some (handle_1692 regs, st, keys)
         else if f = 0x6f then Some (handle_166f regs, st, keys)
         else Some (regs, st, keys))"

end
