(* ===== verification/Sercon.thy ===== *)
theory Sercon
  imports Serial Cp437 Keyboard "HOL-Library.Monad_Syntax"
begin

text \<open>
  The serial console (\<open>src/sercon.c\<close>): interrupt 0x10 shown on a terminal behind a serial port, with the
  output held back until the cursor has settled, and the terminal's keys decoded into key codes.

  Everything that is sent goes through \<open>sercon_putchar\<close>, which waits for the port: it takes the numbers of
  timer interrupts between its tests from \<open>sc_ticks\<close>, and the functions have no result when they run out.
  The keyboard's code addresses the BIOS data area by its offset; \<open>on_bda_window\<close> gives its operations their place
  in the flat memory.
\<close>

section \<open>State\<close>

record sercon_state = io_state +
  sc_ticks :: "nat list"
  sercon_port :: u16
  sercon_split :: u8
  sercon_enable :: u8
  sercon_real_vga_handler :: u32
  sercon_attr_last :: u8
  sercon_col_last :: u8
  sercon_row_last :: u8
  sercon_char :: u8
  sercon_attr :: u8
  rx_buf :: "u8 list"
  rx_bytes :: u8

definition bda_video_mode :: u32 where "bda_video_mode = 0x49"
definition bda_video_cols :: u32 where "bda_video_cols = 0x4a"
definition bda_cursor_pos :: u32 where "bda_cursor_pos = 0x50"
definition bda_cursor_type :: u32 where "bda_cursor_type = 0x60"
definition bda_video_rows :: u32 where "bda_video_rows = 0x84"

lemmas video_bda_defs = bda_video_mode_def bda_video_cols_def bda_cursor_pos_def bda_cursor_type_def bda_video_rows_def

definition video_rows :: "sercon_state \<Rightarrow> u8" where "video_rows st = io_mem st (bda_at bda_video_rows) + 1"

definition video_cols :: "sercon_state \<Rightarrow> u8" where
  "video_cols st = ucast (get_mem 2 (bda_at bda_video_cols) (io_mem st) :: u16)"

definition cursor_pos_col :: "sercon_state \<Rightarrow> u8" where
  "cursor_pos_col st = ucast (get_mem 2 (bda_at bda_cursor_pos) (io_mem st) AND 0xff :: u16)"

definition cursor_pos_row :: "sercon_state \<Rightarrow> u8" where
  "cursor_pos_row st = ucast (drop_bit 8 (get_mem 2 (bda_at bda_cursor_pos) (io_mem st)) AND 0xff :: u16)"

definition cursor_pos_set :: "u8 \<Rightarrow> u8 \<Rightarrow> sercon_state \<Rightarrow> sercon_state" where
  "cursor_pos_set row col st =
     set_io_mem (set_mem 2 (bda_at bda_cursor_pos) (push_bit 8 (ucast row) OR ucast col :: u16)) st"

definition sercon_splitmode :: "sercon_state \<Rightarrow> bool" where "sercon_splitmode st \<longleftrightarrow> sercon_split st \<noteq> 0"

section \<open>Sending\<close>

type_synonym sercon_op = "sercon_state \<Rightarrow> sercon_state option"

definition sercon_putchar :: "port_dev \<Rightarrow> u8 \<Rightarrow> sercon_op" where
  "sercon_putchar dev chr st =
     (let addr = sercon_port st; lim = irqtimer_calc_ticks 0x0a (io_clock st)
      in map_option (\<lambda>(ok, lsr, rest, st1).
           let st2 = st1\<lparr>sc_ticks := rest\<rparr> in if ok then outb chr (addr + SEROFF_DATA) st2 else st2)
         (poll_port dev (addr + SEROFF_LSR) (\<lambda>lsr. lsr AND 0x60 = 0x60) lim (sc_ticks st) st))"

text \<open>One character after the other.\<close>

fun sercon_puts :: "port_dev \<Rightarrow> u8 list \<Rightarrow> sercon_op" where
  "sercon_puts dev [] st = Some st"
| "sercon_puts dev (c # cs) st = do { st1 \<leftarrow> sercon_putchar dev c st; sercon_puts dev cs st1 }"

definition chars :: "string \<Rightarrow> u8 list" where "chars s = map of_char s"

definition ESC :: u8 where "ESC = 0x1b"

definition sercon_cmap :: "u8 list" where "sercon_cmap = chars ''04261537''"

definition sercon_term_reset :: "port_dev \<Rightarrow> sercon_op" where
  "sercon_term_reset dev = sercon_puts dev (ESC # chars ''c'')"

definition sercon_term_clear_screen :: "port_dev \<Rightarrow> sercon_op" where
  "sercon_term_clear_screen dev = sercon_puts dev (ESC # chars ''[2J'')"

definition sercon_term_no_linewrap :: "port_dev \<Rightarrow> sercon_op" where
  "sercon_term_no_linewrap dev = sercon_puts dev (ESC # chars ''[?7l'')"

definition goto_seq :: "u8 \<Rightarrow> u8 \<Rightarrow> u8 list" where
  "goto_seq row0 col0 =
     (let row = row0 + 1; col = col0 + 1
      in [ESC, 0x5b, 0x30 + row div 10, 0x30 + row mod 10, 0x3b, 0x30 + col div 10, 0x30 + col mod 10, 0x48])"

definition sercon_term_cursor_goto :: "port_dev \<Rightarrow> u8 \<Rightarrow> u8 \<Rightarrow> sercon_op" where
  "sercon_term_cursor_goto dev row col = sercon_puts dev (goto_seq row col)"

definition color_seq :: "u8 \<Rightarrow> u8 \<Rightarrow> u8 \<Rightarrow> u8 list" where
  "color_seq fg bg bold =
     [ESC] @ chars ''[0'' @
     (if fg \<noteq> 7 then chars '';3'' @ [sercon_cmap ! unat (fg AND 7)] else []) @
     (if bg \<noteq> 0 then chars '';4'' @ [sercon_cmap ! unat (bg AND 7)] else []) @
     (if bold \<noteq> 0 then chars '';1'' else []) @ chars ''m''"

definition sercon_term_set_color :: "port_dev \<Rightarrow> u8 \<Rightarrow> u8 \<Rightarrow> u8 \<Rightarrow> sercon_op" where
  "sercon_term_set_color dev fg bg bold = sercon_puts dev (color_seq fg bg bold)"

definition sercon_set_attr :: "port_dev \<Rightarrow> u8 \<Rightarrow> sercon_op" where
  "sercon_set_attr dev attr st =
     (if attr = sercon_attr_last st then Some st
      else sercon_term_set_color dev (attr AND 7) (drop_bit 4 attr AND 7) (attr AND 0x08)
             (st\<lparr>sercon_attr_last := attr\<rparr>))"

definition utf8_seq :: "u16 \<Rightarrow> u8 list" where
  "utf8_seq unicode =
     (if unicode < 0x7f then [ucast unicode]
      else if unicode < 0x7ff then
        [0xc0 OR (ucast (drop_bit 6 unicode) AND 0x1f), 0x80 OR (ucast unicode AND 0x3f)]
      else
        [0xe0 OR (ucast (drop_bit 12 unicode) AND 0x0f), 0x80 OR (ucast (drop_bit 6 unicode) AND 0x3f),
         0x80 OR (ucast unicode AND 0x3f)])"

definition sercon_print_utf8 :: "port_dev \<Rightarrow> u8 \<Rightarrow> sercon_op" where
  "sercon_print_utf8 dev chr = sercon_puts dev (utf8_seq (cp437_to_unicode chr))"

section \<open>Lazy output\<close>

definition sercon_cursor_pos_set :: "u8 \<Rightarrow> u8 \<Rightarrow> sercon_state \<Rightarrow> sercon_state" where
  "sercon_cursor_pos_set row col st = (if \<not> sercon_splitmode st then cursor_pos_set row col st else st)"

text \<open>The loop that sends \<open>n\<close> line feeds.\<close>

fun newlines :: "port_dev \<Rightarrow> nat \<Rightarrow> sercon_op" where
  "newlines dev 0 st = Some st"
| "newlines dev (Suc n) st = do {
     st1 \<leftarrow> sercon_putchar dev 0x0a st;
     newlines dev n (st1\<lparr>sercon_row_last := sercon_row_last st1 + 1\<rparr>) }"

definition goto_sync :: "port_dev \<Rightarrow> u8 \<Rightarrow> u8 \<Rightarrow> sercon_op" where
  "goto_sync dev row col st =
     map_option (\<lambda>st1. st1\<lparr>sercon_row_last := row, sercon_col_last := col\<rparr>) (sercon_term_cursor_goto dev row col st)"

definition sercon_lazy_cursor_sync :: "port_dev \<Rightarrow> sercon_op" where
  "sercon_lazy_cursor_sync dev st =
     (let row = cursor_pos_row st; col = cursor_pos_col st
      in if sercon_row_last st = row \<and> sercon_col_last st = col then Some st
         else if col = 0 \<and> sercon_row_last st \<le> row then do {
           st1 \<leftarrow> (if sercon_col_last st \<noteq> 0
                   then map_option (\<lambda>s. s\<lparr>sercon_col_last := 0\<rparr>) (sercon_putchar dev 0x0d st) else Some st);
           st2 \<leftarrow> newlines dev (unat row - unat (sercon_row_last st1)) st1;
           (if sercon_row_last st2 = row \<and> sercon_col_last st2 = col then Some st2 else goto_sync dev row col st2) }
         else goto_sync dev row col st)"

definition sercon_lazy_flush :: "port_dev \<Rightarrow> sercon_op" where
  "sercon_lazy_flush dev st = do {
     st1 \<leftarrow> (if sercon_char st \<noteq> 0 then do {
               st2 \<leftarrow> sercon_set_attr dev (sercon_attr st) st;
               map_option (\<lambda>s. s\<lparr>sercon_col_last := sercon_col_last s + 1\<rparr>) (sercon_print_utf8 dev (sercon_char st) st2) }
             else Some st);
     map_option (\<lambda>s. s\<lparr>sercon_attr := 0x07, sercon_char := 0\<rparr>) (sercon_lazy_cursor_sync dev st1) }"

definition sercon_lazy_cursor_update :: "u8 \<Rightarrow> u8 \<Rightarrow> sercon_state \<Rightarrow> sercon_state" where
  "sercon_lazy_cursor_update row col st =
     (sercon_cursor_pos_set row col st)\<lparr>sercon_row_last := row, sercon_col_last := col\<rparr>"

definition sercon_lazy_backspace :: "port_dev \<Rightarrow> sercon_op" where
  "sercon_lazy_backspace dev st = do {
     st1 \<leftarrow> sercon_lazy_flush dev st;
     let col = cursor_pos_col st1;
     (if col > 0 then
        map_option (\<lambda>s. sercon_lazy_cursor_update (cursor_pos_row s) (col - 1) s) (sercon_putchar dev 8 st1)
      else Some st1) }"

definition sercon_lazy_cr :: "sercon_state \<Rightarrow> sercon_state" where
  "sercon_lazy_cr st = sercon_cursor_pos_set (cursor_pos_row st) 0 st"

definition sercon_lazy_lf :: "sercon_state \<Rightarrow> sercon_state" where
  "sercon_lazy_lf st =
     (let row = cursor_pos_row st + 1
      in if row \<ge> video_rows st then
           let row1 = video_rows st - 1;
               st1 = (if sercon_row_last st > 0 then st\<lparr>sercon_row_last := sercon_row_last st - 1\<rparr> else st)
           in sercon_cursor_pos_set row1 (cursor_pos_col st1) st1
         else sercon_cursor_pos_set row (cursor_pos_col st) st)"

definition sercon_lazy_move_cursor :: "sercon_state \<Rightarrow> sercon_state" where
  "sercon_lazy_move_cursor st =
     (let col = cursor_pos_col st + 1
      in if col \<ge> video_cols st then sercon_lazy_lf (sercon_lazy_cr st)
         else sercon_cursor_pos_set (cursor_pos_row st) col st)"

definition sercon_lazy_putchar :: "port_dev \<Rightarrow> u8 \<Rightarrow> u8 \<Rightarrow> bool \<Rightarrow> sercon_op" where
  "sercon_lazy_putchar dev chr attr teletype st = do {
     st1 \<leftarrow> (if cursor_pos_row st \<noteq> sercon_row_last st \<or> cursor_pos_col st \<noteq> sercon_col_last st
             then sercon_lazy_flush dev st else Some st);
     let st2 = st1\<lparr>sercon_char := chr\<rparr>;
     Some (if teletype then sercon_lazy_move_cursor st2 else st2\<lparr>sercon_attr := attr\<rparr>) }"

section \<open>Interrupt 0x10\<close>

type_synonym sercon_service = "bregs \<Rightarrow> sercon_state \<Rightarrow> (bregs \<times> sercon_state) option"

abbreviation same_regs :: "bregs \<Rightarrow> sercon_state option \<Rightarrow> (bregs \<times> sercon_state) option" where
  "same_regs regs r \<equiv> map_option (Pair regs) r"

definition sercon_1000 :: "port_dev \<Rightarrow> sercon_service" where
  "sercon_1000 dev regs st =
     (let clearscreen = (al regs AND 0x80 = 0);
          mode = al regs AND 0x7f;
          (regs1, st1) =
            (if \<not> sercon_splitmode st then
               let cols = (if mode \<in> {0x00, 0x01, 0x04, 0x05} then 40 else 80) :: u16;
                   rows = 25 :: u8;
                   s = cursor_pos_set 0 0 st
               in (set_al 0x30 regs,
                   set_io_mem (\<lambda>m. set_mem 2 (bda_at bda_cursor_type) (0x0007 :: u16)
                     ((set_mem 2 (bda_at bda_video_cols) cols (m(bda_at bda_video_mode := mode)))
                       (bda_at bda_video_rows := rows - 1))) s)
             else (regs, st));
          st2 = st1\<lparr>sercon_enable := (if mode \<le> 0x07 then 1 else 0), sercon_col_last := 0, sercon_row_last := 0,
                    sercon_attr_last := 0\<rparr>
      in same_regs regs1 (do {
           st3 \<leftarrow> sercon_term_reset dev st2;
           st4 \<leftarrow> sercon_term_no_linewrap dev st3;
           (if clearscreen then sercon_term_clear_screen dev st4 else Some st4) }))"

definition sercon_1001 :: "bregs \<Rightarrow> sercon_state \<Rightarrow> sercon_state" where
  "sercon_1001 regs st = set_io_mem (set_mem 2 (bda_at bda_cursor_type) (cx regs)) st"

definition sercon_1002 :: "bregs \<Rightarrow> sercon_state \<Rightarrow> sercon_state" where
  "sercon_1002 regs st = sercon_cursor_pos_set (dh regs) (dl regs) st"

definition sercon_1003 :: "bregs \<Rightarrow> sercon_state \<Rightarrow> bregs" where
  "sercon_1003 regs st =
     set_dl (cursor_pos_col st) (set_dh (cursor_pos_row st)
       (set_cx (get_mem 2 (bda_at bda_cursor_type) (io_mem st)) regs))"

definition sercon_1006 :: "port_dev \<Rightarrow> bregs \<Rightarrow> sercon_op" where
  "sercon_1006 dev regs st = do {
     st1 \<leftarrow> sercon_lazy_flush dev st;
     (if al regs = 0 then
        if ch regs = 0 \<and> cl regs = 0 \<and> uint (dh regs) = uint (video_rows st1) - 1 \<and>
           uint (dl regs) = uint (video_cols st1) - 1
        then do { st2 \<leftarrow> sercon_set_attr dev (rh (ebx regs)) st1; sercon_term_clear_screen dev st2 }
        else Some st1
      else sercon_puts dev [0x0d, 0x0a] st1) }"

definition sercon_1008 :: "bregs \<Rightarrow> bregs" where
  "sercon_1008 regs = ebx_update (puth 0x20) (set_ah 0x07 regs)"

text \<open>\<open>while (count)\<close> of \<open>sercon_1009\<close>.\<close>

fun print_times :: "port_dev \<Rightarrow> u8 \<Rightarrow> nat \<Rightarrow> sercon_op" where
  "print_times dev chr 0 st = Some st"
| "print_times dev chr (Suc n) st = do { st1 \<leftarrow> sercon_print_utf8 dev chr st; print_times dev chr n st1 }"

definition sercon_1009 :: "port_dev \<Rightarrow> bregs \<Rightarrow> sercon_op" where
  "sercon_1009 dev regs st =
     (let count = cx regs; attr = rl (ebx regs)
      in if count = 1 then sercon_lazy_putchar dev (al regs) attr False st
         else if al regs = 0x20 \<and> uint (video_rows st) * uint (video_cols st) = uint count \<and>
                 cursor_pos_row st = 0 \<and> cursor_pos_col st = 0
         then do {
           st1 \<leftarrow> sercon_lazy_flush dev st;
           st2 \<leftarrow> sercon_set_attr dev attr st1;
           sercon_term_clear_screen dev st2 }
         else do {
           st1 \<leftarrow> sercon_lazy_flush dev st;
           st2 \<leftarrow> sercon_set_attr dev attr st1;
           st3 \<leftarrow> print_times dev (al regs) (unat count) st2;
           sercon_term_cursor_goto dev (cursor_pos_row st3) (cursor_pos_col st3) st3 })"

definition sercon_100e :: "port_dev \<Rightarrow> bregs \<Rightarrow> sercon_op" where
  "sercon_100e dev regs st =
     (if al regs = 7 then sercon_putchar dev 0x07 st
      else if al regs = 8 then sercon_lazy_backspace dev st
      else if al regs = 0x0d then Some (sercon_lazy_cr st)
      else if al regs = 0x0a then Some (sercon_lazy_lf st)
      else sercon_lazy_putchar dev (al regs) 0 True st)"

definition sercon_100f :: "bregs \<Rightarrow> sercon_state \<Rightarrow> bregs" where
  "sercon_100f regs st =
     set_ah (ucast (get_mem 2 (bda_at bda_video_cols) (io_mem st) :: u16))
       (set_al (io_mem st (bda_at bda_video_mode)) regs)"

definition sercon_104f :: "bregs \<Rightarrow> sercon_state \<Rightarrow> bregs \<times> sercon_state" where
  "sercon_104f regs st =
     (if \<not> sercon_splitmode st then (set_ax 0x0100 regs, st)
      else (regs, if al regs = 0x00 then st\<lparr>sercon_enable := 0\<rparr> else st))"

definition sercon_10XX :: "bregs \<Rightarrow> bregs" where "sercon_10XX regs = regs"

definition handle_sercon :: "port_dev \<Rightarrow> sercon_service" where
  "handle_sercon dev regs st =
     (if sercon_port st = 0 then Some (regs, st)
      else if ah regs \<in> {0x01, 0x02, 0x03, 0x08, 0x0f} \<and> sercon_splitmode st then Some (regs, st)
      else if ah regs = 0x00 then sercon_1000 dev regs st
      else if ah regs = 0x01 then Some (regs, sercon_1001 regs st)
      else if ah regs = 0x02 then Some (regs, sercon_1002 regs st)
      else if ah regs = 0x03 then Some (sercon_1003 regs st, st)
      else if ah regs = 0x06 then same_regs regs (sercon_1006 dev regs st)
      else if ah regs = 0x08 then Some (sercon_1008 regs, st)
      else if ah regs = 0x09 then same_regs regs (sercon_1009 dev regs st)
      else if ah regs = 0x0e then same_regs regs (sercon_100e dev regs st)
      else if ah regs = 0x0f then Some (sercon_100f regs st, st)
      else if ah regs = 0x4f then Some (sercon_104f regs st)
      else Some (sercon_10XX regs, st))"

text \<open>The value of \<open>etc/sercon-port\<close> is \<open>port\<close>; \<open>e10\<close> and \<open>esc\<close> are the offsets of the entry points in the BIOS segment.\<close>

definition sercon_setup :: "u64 \<Rightarrow> u16 \<Rightarrow> u16 \<Rightarrow> sercon_state \<Rightarrow> sercon_state" where
  "sercon_setup port e10 esc st =
     (let addr = ucast port :: u16
      in if addr = 0 then st
         else
           let vgabios = get_mem 4 (0x10 * 4) (io_mem st);
               seabios = SEGOFF SEG_BIOS e10;
               st1 = (if vgabios \<noteq> seabios then st\<lparr>sercon_real_vga_handler := vgabios, sercon_split := 1\<rparr>
                      else st\<lparr>sercon_real_vga_handler := seabios\<rparr>);
               st2 = (set_io_mem (SET_IVT 0x10 (SEGOFF SEG_BIOS esc)) st1)\<lparr>sercon_port := addr\<rparr>
           in outb 0x01 (addr + 0x02) (outb 0x03 (addr + SEROFF_LCR) st2))"

section \<open>Input\<close>

text \<open>The rows of \<open>termseq\<close>: the sequence after the escape character and its key code; the length is stored in the
  source and is that of the sequence.\<close>

definition termseq :: "(u8 list \<times> u16) list" where
  "termseq = [
     (chars ''OP'', 0x3b00), (chars ''OQ'', 0x3c00), (chars ''OR'', 0x3d00), (chars ''OS'', 0x3e00),
     (chars ''[15~'', 0x3f00), (chars ''[17~'', 0x4000), (chars ''[18~'', 0x4100), (chars ''[19~'', 0x4200),
     (chars ''[20~'', 0x4300), (chars ''[21~'', 0x4400), (chars ''[23~'', 0x5700), (chars ''[24~'', 0x5800),
     (chars ''[2~'', 0x52e0), (chars ''[3~'', 0x53e0), (chars ''[5~'', 0x49e0), (chars ''[6~'', 0x51e0),
     (chars ''[A'', 0x48e0), (chars ''[B'', 0x50e0), (chars ''[C'', 0x4de0), (chars ''[D'', 0x4be0),
     (chars ''[H'', 0x47e0), (chars ''[F'', 0x4fe0)]"

text \<open>The copying loop of \<open>shiftbuf\<close> goes upwards.\<close>

definition shift_left :: "nat \<Rightarrow> nat \<Rightarrow> u8 list \<Rightarrow> u8 list" where
  "shift_left remove remaining buf = foldl (\<lambda>b i. b[i := b ! (i + remove)]) buf [0..<remaining]"

definition shiftbuf :: "nat \<Rightarrow> sercon_state \<Rightarrow> sercon_state" where
  "shiftbuf remove st =
     (let remaining = unat (rx_bytes st) - remove
      in st\<lparr>rx_bytes := of_nat remaining, rx_buf := shift_left remove remaining (rx_buf st)\<rparr>)"

definition cmpbuf :: "sercon_state \<Rightarrow> u8 list \<Rightarrow> bool" where
  "cmpbuf st sq \<longleftrightarrow>
     length sq + 1 \<le> unat (rx_bytes st) \<and> (\<forall>chr < length sq. sq ! chr = rx_buf st ! (chr + 1))"

definition findseq :: "sercon_state \<Rightarrow> (u8 list \<times> u16) option" where
  "findseq st = find (\<lambda>(sq, keycode). cmpbuf st sq) termseq"

definition on_bda_window :: "(bda_mem \<Rightarrow> bda_mem) \<Rightarrow> mem \<Rightarrow> mem" where
  "on_bda_window f m =
     (\<lambda>a. if 0x400 \<le> a \<and> a < 0x10400 then f (\<lambda>off. m (0x400 + ucast off)) (ucast (a - 0x400)) else m a)"

definition sercon_enqueue :: "u16 \<Rightarrow> sercon_state \<Rightarrow> sercon_state" where
  "sercon_enqueue keycode st = set_io_mem (on_bda_window (\<lambda>m. snd (enqueue_key keycode m))) st"

text \<open>The loop that reads all available data; it does not return when the port always has more.\<close>

definition rx_store :: "u8 \<Rightarrow> u8 \<times> sercon_state \<Rightarrow> u8 \<times> sercon_state" where
  "rx_store byte = (\<lambda>(count, st).
     if rx_bytes st < 16 then
       (count + 1, st\<lparr>rx_buf := (rx_buf st)[unat (rx_bytes st) := byte], rx_bytes := rx_bytes st + 1\<rparr>)
     else (count, st))"

partial_function (option) rx_loop :: "port_dev \<Rightarrow> u16 \<Rightarrow> u8 \<Rightarrow> sercon_state \<Rightarrow> (u8 \<times> sercon_state) option" where
  "rx_loop dev addr count st =
     (let (lsr, st1) = inb dev (addr + SEROFF_LSR) st
      in if lsr AND 0x01 = 0 then Some (count, st1)
         else
           let (byte, st2) = inb dev (addr + SEROFF_DATA) st1; (count1, st3) = rx_store byte (count, st2)
           in rx_loop dev addr count1 st3)"

text \<open>The loop over the bytes in \<open>rx_buf\<close>; every round takes at least one of them.\<close>

definition sercon_single :: "sercon_state \<Rightarrow> sercon_state" where
  "sercon_single st =
     (let keycode = ascii_to_keycode (rx_buf st ! 0)
      in shiftbuf 1 (if keycode \<noteq> 0 then sercon_enqueue keycode st else st))"

definition find_escape :: "sercon_state \<Rightarrow> (u8 list \<times> u16) option" where
  "find_escape st = (if rx_bytes st > 1 \<and> rx_buf st ! 0 = 0x1b then findseq st else None)"

lemma rx_bytes_step:
  "rx_bytes (sercon_enqueue k st) = rx_bytes st"
  "rx_bytes st \<noteq> 0 \<Longrightarrow> n > 0 \<Longrightarrow> unat (rx_bytes (shiftbuf n st)) < unat (rx_bytes st)"
proof -
  show "rx_bytes (sercon_enqueue k st) = rx_bytes st" by (simp add: sercon_enqueue_def set_io_mem_def)
  assume a: "rx_bytes st \<noteq> 0" "n > 0"
  have "unat (of_nat (unat (rx_bytes st) - n) :: u8) = unat (rx_bytes st) - n"
    using unat_u8_bound [of "rx_bytes st"] unfolding unat_of_nat by simp
  moreover have "unat (rx_bytes st) > 0" using a by (simp add: unat_gt_0)
  ultimately show "unat (rx_bytes (shiftbuf n st)) < unat (rx_bytes st)" using a by (simp add: shiftbuf_def Let_def)
qed

function rx_decode :: "u8 \<Rightarrow> sercon_state \<Rightarrow> sercon_state" where
  "rx_decode count st =
     (if rx_bytes st = 0 then st
      else (case find_escape st of
              Some (sq, keycode) \<Rightarrow> rx_decode count (shiftbuf (length sq + 1) (sercon_enqueue keycode st))
            | None \<Rightarrow> if rx_buf st ! 0 = 0x1b \<and> count \<noteq> 0 then st else rx_decode count (sercon_single st)))"
  by auto
termination
  by (relation "measure (\<lambda>(count, st). unat (rx_bytes st))")
    (auto simp: sercon_single_def Let_def rx_bytes_step rx_bytes_step(2) [of "sercon_enqueue k st" for k st, simplified rx_bytes_step(1)])

declare rx_decode.simps [simp del]

definition sercon_check_event :: "port_dev \<Rightarrow> sercon_op" where
  "sercon_check_event dev st =
     (let addr = sercon_port st
      in if addr = 0 then Some st
         else
           let (lsr, st1) = inb dev (addr + SEROFF_LSR) st
           in if lsr = 0xFF then Some st1
              else do {
                st2 \<leftarrow> sercon_lazy_flush dev st1;
                (count, st3) \<leftarrow> rx_loop dev addr 0 st2;
                Some (rx_decode count st3) })"

end
