(* ===== verification/KeyboardProps.thy ===== *)
theory KeyboardProps
  imports Keyboard
begin

text \<open>
  Properties of the keyboard model. The first part gives the contract of a bounded first-in first-out
  queue as a locale and interprets it on the key buffer; the second part shows that scancodes and
  interrupt 0x16 keep the buffer well-formed, what modifier keys do, and when a blocking read returns.
\<close>

section \<open>Bounded queues\<close>

datatype ('x, 'a) qout = Stored bool | Fetched "'a option"
datatype 'x qop = Store 'x | Fetch

text \<open>The specification: a list of at most \<open>cap\<close> elements, and the run of a sequence of operations on
  it and on an implementation.\<close>

fun queue_spec :: "nat \<Rightarrow> ('x \<Rightarrow> 'a) \<Rightarrow> 'x qop list \<Rightarrow> 'a list \<Rightarrow> ('x, 'a) qout list" where
  "queue_spec cap vw [] q = []"
| "queue_spec cap vw (Store x # ops) q =
     (if length q < cap then Stored True # queue_spec cap vw ops (q @ [vw x])
      else Stored False # queue_spec cap vw ops q)"
| "queue_spec cap vw (Fetch # ops) q =
     (case q of [] \<Rightarrow> Fetched None # queue_spec cap vw ops []
      | y # ys \<Rightarrow> Fetched (Some y) # queue_spec cap vw ops ys)"

fun queue_run :: "('x \<Rightarrow> 's \<Rightarrow> bool \<times> 's) \<Rightarrow> ('s \<Rightarrow> ('a \<times> 's) option) \<Rightarrow> 'x qop list \<Rightarrow> 's \<Rightarrow> ('x, 'a) qout list" where
  "queue_run enq deq [] s = []"
| "queue_run enq deq (Store x # ops) s =
     (let (b, s') = enq x s in Stored b # queue_run enq deq ops s')"
| "queue_run enq deq (Fetch # ops) s =
     (case deq s of None \<Rightarrow> Fetched None # queue_run enq deq ops s
      | Some (y, s') \<Rightarrow> Fetched (Some y) # queue_run enq deq ops s')"

locale bounded_queue =
  fixes wf :: "'s \<Rightarrow> bool" and q :: "'s \<Rightarrow> 'a list" and cap :: "'s \<Rightarrow> nat" and vw :: "'x \<Rightarrow> 'a"
    and enq :: "'x \<Rightarrow> 's \<Rightarrow> bool \<times> 's" and deq :: "'s \<Rightarrow> ('a \<times> 's) option"
  assumes enq_room: "wf s \<Longrightarrow> length (q s) < cap s \<Longrightarrow>
      fst (enq x s) \<and> wf (snd (enq x s)) \<and> q (snd (enq x s)) = q s @ [vw x] \<and> cap (snd (enq x s)) = cap s"
    and enq_full: "wf s \<Longrightarrow> \<not> length (q s) < cap s \<Longrightarrow> enq x s = (False, s)"
    and deq_empty: "wf s \<Longrightarrow> q s = [] \<Longrightarrow> deq s = None"
    and deq_front: "wf s \<Longrightarrow> q s = y # ys \<Longrightarrow>
      \<exists>s'. deq s = Some (y, s') \<and> wf s' \<and> q s' = ys \<and> cap s' = cap s"
begin

lemma refines: "wf s \<Longrightarrow> queue_run enq deq ops s = queue_spec (cap s) vw ops (q s)"
proof (induction ops arbitrary: s)
  case Nil
  then show ?case by simp
next
  case (Cons oper ops)
  show ?case
  proof (cases oper)
    case (Store x)
    obtain b s' where e: "enq x s = (b, s')" by fastforce
    show ?thesis
    proof (cases "length (q s) < cap s")
      case True
      then show ?thesis
        using enq_room [OF Cons.prems True, of x] Cons.IH [of s'] e Store by simp
    next
      case False
      then show ?thesis
        using enq_full [OF Cons.prems False, of x] Cons.IH [OF Cons.prems] Store by simp
    qed
  next
    case Fetch
    show ?thesis
    proof (cases "q s")
      case Nil
      then show ?thesis
        using deq_empty [OF Cons.prems Nil] Cons.IH [OF Cons.prems] Fetch by simp
    next
      case (Cons y ys)
      obtain s' where s': "deq s = Some (y, s')" "wf s'" "q s' = ys" "cap s' = cap s"
        using deq_front [OF Cons.prems Cons] by blast
      then show ?thesis using Cons.IH [OF s'(2)] Fetch Cons by simp
    qed
  qed
qed

end

section \<open>The key buffer\<close>

text \<open>The bytes of the BIOS data area that the keyboard code uses besides the buffer.\<close>

definition kbd_fields :: "nat set" where
  "kbd_fields = {0x17, 0x18, 0x1a, 0x1b, 0x1c, 0x1d, 0x71, 0x72, 0x73, 0x80, 0x81, 0x82, 0x83, 0x96, 0x97}"

text \<open>\<open>kbd_ring m s n h t\<close>: the buffer has \<open>n\<close> slots of two bytes from offset \<open>s\<close>, away from the fields;
  its head is slot \<open>h\<close> and its tail slot \<open>t\<close>.\<close>

definition kbd_ring :: "bda_mem \<Rightarrow> nat \<Rightarrow> nat \<Rightarrow> nat \<Rightarrow> nat \<Rightarrow> bool" where
  "kbd_ring m s n h t \<longleftrightarrow>
     rd16 m kbd_buf_start_offset = of_nat s \<and> rd16 m kbd_buf_end_offset = of_nat (s + 2 * n) \<and>
     rd16 m kbd_buf_head = of_nat (s + 2 * h) \<and> rd16 m kbd_buf_tail = of_nat (s + 2 * t) \<and>
     2 \<le> n \<and> h < n \<and> t < n \<and> s + 2 * n < 65536 \<and> (\<forall>x \<in> kbd_fields. x < s \<or> s + 2 * n \<le> x)"

definition kbd_wf :: "bda_mem \<Rightarrow> bool" where
  "kbd_wf m \<longleftrightarrow> (\<exists>s n h t. kbd_ring m s n h t)"

definition ring_list :: "bda_mem \<Rightarrow> nat \<Rightarrow> nat \<Rightarrow> nat \<Rightarrow> nat \<Rightarrow> u16 list" where
  "ring_list m s n h t = map (\<lambda>i. rd16 m (of_nat (s + 2 * ((h + i) mod n)))) [0..<(t + n - h) mod n]"

text \<open>The keys waiting in the buffer, from the oldest on, and its capacity.\<close>

definition kbd_slots :: "bda_mem \<Rightarrow> nat" where
  "kbd_slots m = (unat (rd16 m kbd_buf_end_offset) - unat (rd16 m kbd_buf_start_offset)) div 2"

definition kbd_queue :: "bda_mem \<Rightarrow> u16 list" where
  "kbd_queue m =
     (let s = unat (rd16 m kbd_buf_start_offset)
      in ring_list m s (kbd_slots m) ((unat (rd16 m kbd_buf_head) - s) div 2)
           ((unat (rd16 m kbd_buf_tail) - s) div 2))"

lemma unat_of_nat_u16: "a < 65536 \<Longrightarrow> unat (of_nat a :: u16) = a"
  by (simp add: unat_of_nat)

lemma of_nat_u16_eq: "a < 65536 \<Longrightarrow> b < 65536 \<Longrightarrow> (of_nat a :: u16) = of_nat b \<longleftrightarrow> a = b"
  using unat_of_nat_u16 by metis

lemma kbd_ring_queue:
  assumes "kbd_ring m s n h t"
  shows "kbd_slots m = n" "kbd_queue m = ring_list m s n h t"
  using assms
  by (simp_all add: kbd_slots_def kbd_queue_def kbd_ring_def unat_of_nat_u16 Let_def
      del: of_nat_add of_nat_mult)

text \<open>Slots and fields do not overlap.\<close>

lemma slot_field:
  fixes f :: u16
  assumes r: "kbd_ring m s n h t" and i: "i < n" and f: "unat f \<in> kbd_fields" "unat (f + 1) \<in> kbd_fields"
  shows "rd16 (wr16 (of_nat (s + 2 * i)) v m') f = rd16 m' f"
    and "rd16 (wr16 f v m') (of_nat (s + 2 * i)) = rd16 m' (of_nat (s + 2 * i))"
proof -
  let ?a = "of_nat (s + 2 * i) :: u16"
  have bd: "s + 2 * i + 1 < s + 2 * n" "s + 2 * n < 65536" using r i by (auto simp: kbd_ring_def)
  have a: "unat ?a = s + 2 * i" using bd by (intro unat_of_nat_u16) linarith
  then have a1: "unat (?a + 1) = s + 2 * i + 1" using bd by (subst unat_add_small) auto
  have out: "unat f < s \<or> s + 2 * n \<le> unat f" "unat (f + 1) < s \<or> s + 2 * n \<le> unat (f + 1)"
    using r f by (auto simp: kbd_ring_def)
  have ne: "f \<noteq> ?a" "f \<noteq> ?a + 1" "?a \<noteq> f + 1"
    using out a a1 bd by (auto simp del: of_nat_add of_nat_mult)
  show "rd16 (wr16 ?a v m') f = rd16 m' f" using ne by (intro rd16_wr16_other) auto
  show "rd16 (wr16 f v m') ?a = rd16 m' ?a" using ne by (intro rd16_wr16_other) auto
qed

lemma slot_byte:
  fixes f :: u16
  assumes r: "kbd_ring m s n h t" and i: "i < n" and f: "unat f \<in> kbd_fields"
  shows "wr16 (of_nat (s + 2 * i)) v m' f = m' f"
    and "rd16 (m'(f := b)) (of_nat (s + 2 * i)) = rd16 m' (of_nat (s + 2 * i))"
proof -
  let ?a = "of_nat (s + 2 * i) :: u16"
  have bd: "s + 2 * i + 1 < s + 2 * n" "s + 2 * n < 65536" using r i by (auto simp: kbd_ring_def)
  have a: "unat ?a = s + 2 * i" using bd by (intro unat_of_nat_u16) linarith
  then have a1: "unat (?a + 1) = s + 2 * i + 1" using bd by (subst unat_add_small) auto
  have out: "unat f < s \<or> s + 2 * n \<le> unat f" using r f by (auto simp: kbd_ring_def)
  have ne: "f \<noteq> ?a" "f \<noteq> ?a + 1"
    using out a a1 bd by (auto simp del: of_nat_add of_nat_mult)
  then show "wr16 ?a v m' f = m' f" "rd16 (m'(f := b)) ?a = rd16 m' ?a" by (auto simp: wr16_def rd16_def)
qed

lemma slot_slot:
  assumes r: "kbd_ring m s n h t" and i: "i < n" "j < n" "i \<noteq> j"
  shows "rd16 (wr16 (of_nat (s + 2 * i)) v m') (of_nat (s + 2 * j) :: u16) = rd16 m' (of_nat (s + 2 * j))"
proof -
  let ?a = "of_nat (s + 2 * i) :: u16" let ?b = "of_nat (s + 2 * j) :: u16"
  have bd: "s + 2 * i + 1 < s + 2 * n" "s + 2 * j + 1 < s + 2 * n" "s + 2 * n < 65536"
    using r i by (auto simp: kbd_ring_def)
  have a: "unat ?a = s + 2 * i" "unat ?b = s + 2 * j"
    using bd by (auto intro!: unat_of_nat_u16 simp del: of_nat_add of_nat_mult)
  then have a1: "unat (?a + 1) = s + 2 * i + 1" "unat (?b + 1) = s + 2 * j + 1"
    using bd by (subst unat_add_small; auto)+
  have "Suc (2 * i) \<noteq> 2 * j" "Suc (2 * j) \<noteq> 2 * i" by presburger+
  then have "?b \<noteq> ?a" "?b \<noteq> ?a + 1" "?a \<noteq> ?b + 1"
    using a a1 i by (auto simp del: of_nat_add of_nat_mult)
  then show ?thesis by (intro rd16_wr16_other) auto
qed

text \<open>The fields as naturals, so that the lemmas above apply to each by \<open>simp\<close>.\<close>

lemma kbd_field_simps [simp]:
  "unat kbd_buf_head \<in> kbd_fields" "unat (kbd_buf_head + 1) \<in> kbd_fields"
  "unat kbd_buf_tail \<in> kbd_fields" "unat (kbd_buf_tail + 1) \<in> kbd_fields"
  "unat kbd_buf_start_offset \<in> kbd_fields" "unat (kbd_buf_start_offset + 1) \<in> kbd_fields"
  "unat kbd_buf_end_offset \<in> kbd_fields" "unat (kbd_buf_end_offset + 1) \<in> kbd_fields"
  "unat kbd_flag0 \<in> kbd_fields" "unat (kbd_flag0 + 1) \<in> kbd_fields"
  "unat soft_reset_flag \<in> kbd_fields" "unat (soft_reset_flag + 1) \<in> kbd_fields"
  "unat kbd_flag1 \<in> kbd_fields" "unat kbd_led \<in> kbd_fields" "unat break_flag \<in> kbd_fields"
  by (simp_all add: kbd_fields_def bda_offsets)

text \<open>The fields do not overlap each other.\<close>

lemma field_field [simp]:
  "rd16 (wr16 kbd_buf_tail v m) kbd_buf_head = rd16 m kbd_buf_head"
  "rd16 (wr16 kbd_buf_tail v m) kbd_buf_start_offset = rd16 m kbd_buf_start_offset"
  "rd16 (wr16 kbd_buf_tail v m) kbd_buf_end_offset = rd16 m kbd_buf_end_offset"
  "rd16 (wr16 kbd_buf_head v m) kbd_buf_tail = rd16 m kbd_buf_tail"
  "rd16 (wr16 kbd_buf_head v m) kbd_buf_start_offset = rd16 m kbd_buf_start_offset"
  "rd16 (wr16 kbd_buf_head v m) kbd_buf_end_offset = rd16 m kbd_buf_end_offset"
  by (simp_all add: bda_offsets rd16_wr16_other)

section \<open>Queue operations\<close>

lemma ring_next:
  assumes "kbd_ring m s n h t" and i: "i < n"
  shows "(if of_nat (s + 2 * i) + 2 \<ge> (of_nat (s + 2 * n) :: u16) then of_nat s else of_nat (s + 2 * i) + 2) =
    (of_nat (s + 2 * (Suc i mod n)) :: u16)"
proof -
  have bd: "s + 2 * n < 65536" "s + 2 * i + 2 \<le> s + 2 * n" using assms by (auto simp: kbd_ring_def)
  have e: "(of_nat (s + 2 * i) + 2 :: u16) = of_nat (s + 2 * Suc i)" by simp
  have "(of_nat (s + 2 * n) :: u16) \<le> of_nat (s + 2 * Suc i) \<longleftrightarrow> s + 2 * n \<le> s + 2 * Suc i"
    using bd by (simp add: word_le_nat_alt unat_of_nat_u16 del: of_nat_add of_nat_mult of_nat_Suc)
  also have "\<dots> \<longleftrightarrow> Suc i = n" using i by auto
  finally show ?thesis unfolding e using i by (auto simp: mod_Suc)
qed

text \<open>Arithmetic of slot numbers: \<open>(t + n - h) mod n\<close> keys wait between head and tail.\<close>

lemma ring_count:
  fixes n h t :: nat
  assumes "h < n" "t < n"
  shows "(t + n - h) mod n = (if h \<le> t then t - h else t + n - h)"
  using assms by (auto simp: le_mod_geq)

lemma ring_wrap:
  fixes n h i :: nat
  assumes "h < n" "i < n"
  shows "(h + i) mod n = (if h + i < n then h + i else h + i - n)"
  using assms by (auto simp: le_mod_geq)

lemma length_ring_list [simp]: "length (ring_list m s n h t) = (t + n - h) mod n"
  by (simp add: ring_list_def)

lemma ring_full:
  assumes "h < n" "t < n"
  shows "Suc t mod n = h \<longleftrightarrow> \<not> (t + n - h) mod n < n - 1"
  using assms by (auto simp: ring_count mod_Suc)

lemma ring_cong:
  assumes "\<And>i. i < n \<Longrightarrow> rd16 m' (of_nat (s + 2 * i)) = rd16 m (of_nat (s + 2 * i))" "0 < n"
  shows "ring_list m' s n h t = ring_list m s n h t"
  using assms by (auto simp: ring_list_def simp del: of_nat_add of_nat_mult)

lemma ring_put:
  assumes "h < n" "t < n" "Suc t mod n \<noteq> h"
    and same: "\<And>i. i < n \<Longrightarrow> i \<noteq> t \<Longrightarrow> rd16 m' (of_nat (s + 2 * i)) = rd16 m (of_nat (s + 2 * i))"
    and new: "rd16 m' (of_nat (s + 2 * t)) = k"
  shows "ring_list m' s n h (Suc t mod n) = ring_list m s n h t @ [k]"
proof -
  have len: "(Suc t mod n + n - h) mod n = Suc ((t + n - h) mod n)"
    using assms(1-3) by (auto simp: ring_count mod_Suc split: if_splits)
  have last: "(h + (t + n - h) mod n) mod n = t"
    using assms(1,2) by (auto simp: ring_count ring_wrap)
  have init: "(h + i) mod n \<noteq> t" "(h + i) mod n < n" if "i < (t + n - h) mod n" for i
    using that assms(1,2) by (auto simp: ring_count ring_wrap split: if_splits)
  show ?thesis
    by (simp add: ring_list_def len last new init same del: of_nat_add of_nat_mult)
qed

lemma ring_get:
  assumes "h < n" "t < n" "t \<noteq> h"
  shows "ring_list m s n h t = rd16 m (of_nat (s + 2 * h)) # ring_list m s n (Suc h mod n) t"
proof -
  have len: "(t + n - h) mod n = Suc ((t + n - Suc h mod n) mod n)"
    using assms by (auto simp: ring_count mod_Suc split: if_splits)
  have sh: "(h + Suc i) mod n = (Suc h mod n + i) mod n" for i by (simp add: mod_simps)
  show ?thesis
    using assms(1) by (simp add: ring_list_def len upt_conv_Cons map_Suc_upt [symmetric] sh comp_def
        del: of_nat_add of_nat_mult upt_Suc add_Suc_right)
qed

lemma ring_empty: "h < n \<Longrightarrow> t < n \<Longrightarrow> ring_list m s n h t = [] \<longleftrightarrow> t = h"
  using length_ring_list [of m s n h t] by (auto simp: ring_count ring_list_def split: if_splits)

lemma kbd_ringD:
  assumes "kbd_ring m s n h t"
  shows "rd16 m kbd_buf_start_offset = of_nat s" "rd16 m kbd_buf_end_offset = of_nat (s + 2 * n)"
    "rd16 m kbd_buf_head = of_nat (s + 2 * h)" "rd16 m kbd_buf_tail = of_nat (s + 2 * t)"
    "2 \<le> n" "h < n" "t < n" "s + 2 * n < 65536"
  using assms unfolding kbd_ring_def by blast+

lemma ring_index_eq:
  assumes "kbd_ring m s n h t" "i < n" "j < n"
  shows "(of_nat (s + 2 * i) :: u16) = of_nat (s + 2 * j) \<longleftrightarrow> i = j"
  using of_nat_u16_eq [of "s + 2 * i" "s + 2 * j"] assms kbd_ringD(8) [OF assms(1)] by auto

lemma enqueue_ring:
  assumes r: "kbd_ring m s n h t"
  shows "enqueue_key k m =
    (if Suc t mod n = h then (0, m)
     else (1, wr16 kbd_buf_tail (of_nat (s + 2 * (Suc t mod n))) (wr16 (of_nat (s + 2 * t)) k m)))"
proof -
  note d = kbd_ringD [OF r]
  have "Suc t mod n < n" using d by simp
  then have "(of_nat (s + 2 * (Suc t mod n)) :: u16) = of_nat (s + 2 * h) \<longleftrightarrow> Suc t mod n = h"
    using ring_index_eq [OF r] d by blast
  then show ?thesis
    using ring_next [OF r d(7)] by (simp add: enqueue_key_def d(1-4) Let_def del: of_nat_add of_nat_mult)
qed

lemma kbd_ring_put:
  assumes r: "kbd_ring m s n h t" and room: "Suc t mod n \<noteq> h"
  shows "kbd_ring (snd (enqueue_key k m)) s n h (Suc t mod n)"
    and "ring_list (snd (enqueue_key k m)) s n h (Suc t mod n) = ring_list m s n h t @ [k]"
    and "fst (enqueue_key k m) = 1"
proof -
  note d = kbd_ringD [OF r]
  let ?m = "wr16 kbd_buf_tail (of_nat (s + 2 * (Suc t mod n))) (wr16 (of_nat (s + 2 * t)) k m)"
  have e: "enqueue_key k m = (1, ?m)" using enqueue_ring [OF r] room by simp
  show "fst (enqueue_key k m) = 1" using e by simp
  have out: "\<forall>x \<in> kbd_fields. x < s \<or> s + 2 * n \<le> x" using r by (simp add: kbd_ring_def)
  have "Suc t mod n < n" using d by simp
  then show "kbd_ring (snd (enqueue_key k m)) s n h (Suc t mod n)"
    unfolding e using out
    by (simp add: kbd_ring_def d slot_field [OF r d(7)] del: of_nat_add of_nat_mult)
  show "ring_list (snd (enqueue_key k m)) s n h (Suc t mod n) = ring_list m s n h t @ [k]"
    unfolding e
  proof (rule ring_put [OF d(6,7) room])
    show "rd16 (snd (1, ?m)) (of_nat (s + 2 * i)) = rd16 m (of_nat (s + 2 * i))" if "i < n" "i \<noteq> t" for i
      using slot_slot [OF r d(7) that(1)] that(2) slot_field(2) [OF r that(1)]
      by (simp del: of_nat_add of_nat_mult)
    show "rd16 (snd (1, ?m)) (of_nat (s + 2 * t)) = k"
      using slot_field(2) [OF r d(7)] by (simp del: of_nat_add of_nat_mult)
  qed
qed

lemma kbd_ring_get:
  assumes r: "kbd_ring m s n h t" and ne: "t \<noteq> h"
  shows "kbd_ring (dequeue_advance m) s n (Suc h mod n) t"
    and "ring_list m s n h t = rd16 m (rd16 m kbd_buf_head) # ring_list (dequeue_advance m) s n (Suc h mod n) t"
proof -
  note d = kbd_ringD [OF r]
  have e: "dequeue_advance m = wr16 kbd_buf_head (of_nat (s + 2 * (Suc h mod n))) m"
    using ring_next [OF r d(6)] by (simp add: dequeue_advance_def d(1-4) Let_def del: of_nat_add of_nat_mult)
  have out: "\<forall>x \<in> kbd_fields. x < s \<or> s + 2 * n \<le> x" using r by (simp add: kbd_ring_def)
  have "Suc h mod n < n" using d by simp
  then show "kbd_ring (dequeue_advance m) s n (Suc h mod n) t"
    unfolding e using out by (simp add: kbd_ring_def d del: of_nat_add of_nat_mult)
  have "ring_list (dequeue_advance m) s n (Suc h mod n) t = ring_list m s n (Suc h mod n) t"
    unfolding e using slot_field(2) [OF r] d(5) by (intro ring_cong) (auto simp del: of_nat_add of_nat_mult)
  then show "ring_list m s n h t = rd16 m (rd16 m kbd_buf_head) # ring_list (dequeue_advance m) s n (Suc h mod n) t"
    using ring_get [OF d(6,7) ne] by (simp add: d del: of_nat_add of_nat_mult)
qed

text \<open>The same facts on the queue of waiting keys.\<close>

lemma kbd_wf_ring:
  assumes "kbd_wf m"
  obtains s n h t where "kbd_ring m s n h t" "kbd_slots m = n" "kbd_queue m = ring_list m s n h t"
  using assms kbd_ring_queue unfolding kbd_wf_def by blast

lemma kbd_ring_wf: "kbd_ring m s n h t \<Longrightarrow> kbd_wf m"
  unfolding kbd_wf_def by blast

lemma enqueue_room:
  assumes wf: "kbd_wf m" and room: "length (kbd_queue m) < kbd_slots m - 1"
  shows "fst (enqueue_key k m) = 1" "kbd_wf (snd (enqueue_key k m))"
    "kbd_queue (snd (enqueue_key k m)) = kbd_queue m @ [k]" "kbd_slots (snd (enqueue_key k m)) = kbd_slots m"
proof -
  obtain s n h t where r: "kbd_ring m s n h t" "kbd_slots m = n" "kbd_queue m = ring_list m s n h t"
    using kbd_wf_ring [OF wf] .
  have "Suc t mod n \<noteq> h"
    using room r(2,3) ring_full [OF kbd_ringD(6,7) [OF r(1)]] by simp
  note p = kbd_ring_put [OF r(1) this, of k]
  show "fst (enqueue_key k m) = 1" "kbd_wf (snd (enqueue_key k m))" using p(1,3) kbd_ring_wf by blast+
  show "kbd_queue (snd (enqueue_key k m)) = kbd_queue m @ [k]" "kbd_slots (snd (enqueue_key k m)) = kbd_slots m"
    using p(2) r(2,3) kbd_ring_queue [OF p(1)] by simp_all
qed

lemma enqueue_full:
  assumes wf: "kbd_wf m" and full: "\<not> length (kbd_queue m) < kbd_slots m - 1"
  shows "enqueue_key k m = (0, m)"
proof -
  obtain s n h t where r: "kbd_ring m s n h t" "kbd_slots m = n" "kbd_queue m = ring_list m s n h t"
    using kbd_wf_ring [OF wf] .
  have "Suc t mod n = h"
    using full r(2,3) ring_full [OF kbd_ringD(6,7) [OF r(1)]] by simp
  then show ?thesis using enqueue_ring [OF r(1)] by simp
qed

lemma enqueue_wf: "kbd_wf m \<Longrightarrow> kbd_wf (snd (enqueue_key k m))"
  using enqueue_room(2) enqueue_full by (metis snd_conv)

lemma kbd_queue_empty:
  assumes "kbd_wf m"
  shows "kbd_queue m = [] \<longleftrightarrow> rd16 m kbd_buf_head = rd16 m kbd_buf_tail"
proof -
  obtain s n h t where r: "kbd_ring m s n h t" "kbd_slots m = n" "kbd_queue m = ring_list m s n h t"
    using kbd_wf_ring [OF assms] .
  note d = kbd_ringD [OF r(1)]
  show ?thesis
    using ring_index_eq [OF r(1) d(6,7)] ring_empty [OF d(6,7)] by (auto simp: r d simp del: of_nat_add of_nat_mult)
qed

lemma dequeue_front:
  assumes "kbd_wf m" "kbd_queue m = k # ks"
  shows "rd16 m (rd16 m kbd_buf_head) = k" "kbd_wf (dequeue_advance m)" "kbd_queue (dequeue_advance m) = ks"
    "kbd_slots (dequeue_advance m) = kbd_slots m"
proof -
  obtain s n h t where r: "kbd_ring m s n h t" "kbd_slots m = n" "kbd_queue m = ring_list m s n h t"
    using kbd_wf_ring [OF assms(1)] .
  note d = kbd_ringD [OF r(1)]
  have "t \<noteq> h" using assms(2) ring_empty [OF d(6,7)] r(3) by force
  note g = kbd_ring_get [OF r(1) this]
  show "rd16 m (rd16 m kbd_buf_head) = k" "kbd_wf (dequeue_advance m)"
    "kbd_queue (dequeue_advance m) = ks" "kbd_slots (dequeue_advance m) = kbd_slots m"
    using g assms(2) r(2,3) kbd_ring_queue [OF g(1)] kbd_ring_wf [OF g(1)] by simp_all
qed

text \<open>Writes to the other fields leave the buffer alone.\<close>

definition kbd_status :: "nat set" where
  "kbd_status = {0x17, 0x18, 0x71, 0x72, 0x73, 0x96, 0x97}"

definition kbd_same :: "bda_mem \<Rightarrow> bda_mem \<Rightarrow> bool" where
  "kbd_same m m' \<longleftrightarrow> (\<forall>a. unat a \<notin> kbd_status \<longrightarrow> m' a = m a)"

lemma kbd_same_refl [simp]: "kbd_same m m" by (simp add: kbd_same_def)

lemma kbd_same_trans: "kbd_same m m1 \<Longrightarrow> kbd_same m1 m2 \<Longrightarrow> kbd_same m m2" by (simp add: kbd_same_def)

lemma kbd_same_byte: "unat a \<in> kbd_status \<Longrightarrow> kbd_same m (m(a := v))" by (auto simp: kbd_same_def)

lemma kbd_same_word:
  "unat a \<in> kbd_status \<Longrightarrow> unat (a + 1) \<in> kbd_status \<Longrightarrow> kbd_same m (wr16 a v m)"
  unfolding wr16_def by (rule kbd_same_trans [OF kbd_same_byte kbd_same_byte])

lemma kbd_same_fields:
  "kbd_same m (wr16 kbd_flag0 v m)" "kbd_same m (m(kbd_flag1 := b))" "kbd_same m (m(kbd_led := b))"
  "kbd_same m (m(break_flag := b))" "kbd_same m (wr16 soft_reset_flag v m)"
  by (rule kbd_same_word kbd_same_byte; simp add: kbd_status_def bda_offsets)+

lemma kbd_same_ring:
  assumes r: "kbd_ring m s n h t" and same: "kbd_same m m'"
  shows "kbd_ring m' s n h t" "ring_list m' s n h t = ring_list m s n h t"
proof -
  have f: "rd16 m' a = rd16 m a" if "unat a \<notin> kbd_status" "unat (a + 1) \<notin> kbd_status" for a
    using that same by (simp add: rd16_def kbd_same_def)
  have e: "rd16 m' kbd_buf_start_offset = rd16 m kbd_buf_start_offset" "rd16 m' kbd_buf_end_offset = rd16 m kbd_buf_end_offset"
    "rd16 m' kbd_buf_head = rd16 m kbd_buf_head" "rd16 m' kbd_buf_tail = rd16 m kbd_buf_tail"
    by (rule f; simp add: kbd_status_def bda_offsets)+
  show "kbd_ring m' s n h t" using r by (simp add: kbd_ring_def e)
  have out: "\<forall>x \<in> kbd_fields. x < s \<or> s + 2 * n \<le> x" using r by (simp add: kbd_ring_def)
  show "ring_list m' s n h t = ring_list m s n h t"
  proof (rule ring_cong)
    fix i assume i: "i < n"
    let ?a = "of_nat (s + 2 * i) :: u16"
    have bd: "s + 2 * i + 1 < s + 2 * n" "s + 2 * n < 65536" using r i by (auto simp: kbd_ring_def)
    have a: "unat ?a = s + 2 * i" using bd by (intro unat_of_nat_u16) linarith
    then have a1: "unat (?a + 1) = s + 2 * i + 1" using bd by (subst unat_add_small) auto
    have "kbd_status \<subseteq> kbd_fields" by (auto simp: kbd_status_def kbd_fields_def)
    then have "x < s \<or> s + 2 * n \<le> x" if "x \<in> kbd_status" for x using that out by blast
    then have "unat ?a \<notin> kbd_status" "unat (?a + 1) \<notin> kbd_status"
      unfolding a a1 using bd by force+
    then show "rd16 m' ?a = rd16 m ?a" by (rule f)
  qed (use kbd_ringD(5) [OF r] in simp)
qed

lemma kbd_same_queue:
  assumes "kbd_wf m" "kbd_same m m'"
  shows "kbd_wf m'" "kbd_queue m' = kbd_queue m" "kbd_slots m' = kbd_slots m"
proof -
  obtain s n h t where r: "kbd_ring m s n h t" "kbd_slots m = n" "kbd_queue m = ring_list m s n h t"
    using kbd_wf_ring [OF assms(1)] .
  note x = kbd_same_ring [OF r(1) assms(2)]
  show "kbd_wf m'" "kbd_queue m' = kbd_queue m" "kbd_slots m' = kbd_slots m"
    using x(2) r(2,3) kbd_ring_queue [OF x(1)] kbd_ring_wf [OF x(1)] by simp_all
qed

section \<open>Interrupt 0x16 as a queue\<close>

text \<open>A program stores a keystroke with function 0x05 and fetches one with function 0x10.\<close>

definition kbd_store :: "u16 \<Rightarrow> kbd_state \<Rightarrow> bool \<times> kbd_state" where
  "kbd_store k st = (let (r, st') = handle_1605 (set_cx k bregs_zero) st in (al r = 0, st'))"

definition kbd_fetch :: "kbd_hw \<Rightarrow> kbd_state \<Rightarrow> (u16 \<times> kbd_state) option" where
  "kbd_fetch hw st =
     (case handle_1610 hw bregs_zero st [] of None \<Rightarrow> None | Some (r, st', _) \<Rightarrow> Some (ax r, st'))"

lemma kbd_store_eq:
  "kbd_store k st = (fst (enqueue_key k (bda st)) \<noteq> 0, st\<lparr>bda := snd (enqueue_key k (bda st))\<rparr>)"
  by (simp add: kbd_store_def handle_1605_def split_def Let_def)

lemma kbd_fetch_eq:
  "kbd_fetch hw st =
     (if rd16 (bda st) kbd_buf_head = rd16 (bda st) kbd_buf_tail then None
      else Some (dequeue_translate True (rd16 (bda st) (rd16 (bda st) kbd_buf_head)),
                 st\<lparr>bda := dequeue_advance (bda st)\<rparr>))"
  by (simp add: kbd_fetch_def handle_1610_def dequeue_key.simps [of hw _ _ _ st "[]"] Let_def)

lemma kbd_state_bda [simp]: "st\<lparr>bda := bda st\<rparr> = st" by simp

interpretation kbd_fifo: bounded_queue
  "\<lambda>st. kbd_wf (bda st)" "\<lambda>st. map (dequeue_translate True) (kbd_queue (bda st))"
  "\<lambda>st. kbd_slots (bda st) - 1" "dequeue_translate True" kbd_store "kbd_fetch hw"
  for hw
proof (unfold_locales, goal_cases)
  case (1 st x)
  then show ?case using enqueue_room [of "bda st" x] by (simp add: kbd_store_eq)
next
  case (2 st x)
  then show ?case using enqueue_full [of "bda st" x] by (simp add: kbd_store_eq)
next
  case (3 st)
  then show ?case using kbd_queue_empty [of "bda st"] by (simp add: kbd_fetch_eq)
next
  case (4 st y ys)
  then obtain k ks where q: "kbd_queue (bda st) = k # ks" "y = dequeue_translate True k"
      "ys = map (dequeue_translate True) ks"
    by auto
  then show ?case
    using dequeue_front [OF 4(1) q(1)] kbd_queue_empty [OF 4(1)] by (simp add: kbd_fetch_eq)
qed

text \<open>C3. The key buffer of interrupt 0x16 is a bounded first-in first-out queue: any sequence of stores
  (function 0x05) and fetches (function 0x10) gives the results of a list that holds at most one key
  less than the buffer has slots; a store is refused exactly when the list is full, and a fetch waits
  exactly when it is empty. This holds wherever the buffer has been placed in the BIOS data area.\<close>

theorem kbd_buffer_fifo:
  assumes "kbd_wf (bda st)"
  shows "queue_run kbd_store (kbd_fetch hw) ops st =
    queue_spec (kbd_slots (bda st) - 1) (dequeue_translate True) ops
      (map (dequeue_translate True) (kbd_queue (bda st)))"
  using kbd_fifo.refines [OF assms] .

definition kbd_zero :: kbd_state where
  "kbd_zero = kbd_init \<lparr>bda = \<lambda>a. 0, kevents = []\<rparr>"

definition hw_zero :: kbd_hw where
  "hw_zero = \<lparr>usb_kbd_active = \<lambda>e. False, usb_kbd_command = \<lambda>e c p. (-1, p), ps2_kbd_command = \<lambda>e c p. (0, p),
     int15_handler = \<lambda>e r. set_cf True r\<rparr>"

lemma kbd_init_ring: "kbd_ring (bda (kbd_init st)) 0x1e 16 0 0"
  by (simp add: kbd_init_def kbd_ring_def kbd_fields_def bda_offsets rd16_wr16_other)

theorem kbd_buffer_fifo_witness:
  "queue_run kbd_store (kbd_fetch hw_zero) [Store 0x1e61, Store 0xe0f0, Fetch, Fetch, Fetch] kbd_zero =
     [Stored True, Stored True, Fetched (Some 0x1e61), Fetched (Some 0xe000), Fetched None]"
proof -
  have r: "kbd_ring (bda kbd_zero) 0x1e 16 0 0" unfolding kbd_zero_def by (rule kbd_init_ring)
  have "kbd_queue (bda kbd_zero) = []" "kbd_slots (bda kbd_zero) = 16"
    using kbd_ring_queue [OF r] by (simp_all add: ring_list_def)
  then show ?thesis
    using kbd_buffer_fifo [OF kbd_ring_wf [OF r], of hw_zero "[Store 0x1e61, Store 0xe0f0, Fetch, Fetch, Fetch]"]
    by (simp add: dequeue_translate_def)
qed

section \<open>Scancodes and services keep the buffer\<close>

definition kbd_keeps :: "bda_mem \<Rightarrow> bda_mem \<Rightarrow> bool" where
  "kbd_keeps m m' \<longleftrightarrow> (kbd_wf m \<longrightarrow> kbd_wf m' \<and> kbd_slots m' = kbd_slots m)"

named_theorems keeps \<open>memory changes that keep the key buffer well-formed\<close>

lemma keeps_refl [keeps, simp]: "kbd_keeps m m" by (simp add: kbd_keeps_def)

lemma keeps_trans: "kbd_keeps m m1 \<Longrightarrow> kbd_keeps m1 m2 \<Longrightarrow> kbd_keeps m m2" by (simp add: kbd_keeps_def)

lemma keeps_same: "kbd_same m m' \<Longrightarrow> kbd_keeps m m'"
  unfolding kbd_keeps_def by (blast intro: kbd_same_queue)

lemma keeps_enqueue [keeps]: "kbd_keeps m (snd (enqueue_key k m))"
  unfolding kbd_keeps_def using enqueue_room enqueue_full by (metis snd_conv)

lemma keeps_advance: "kbd_queue m \<noteq> [] \<Longrightarrow> kbd_keeps m (dequeue_advance m)"
  unfolding kbd_keeps_def neq_Nil_conv using dequeue_front by blast

lemmas keeps_fields [keeps] = kbd_same_fields [THEN keeps_same]

lemma same_set_flag: "kbd_same m (kbd_set_flag rel b0 b1 tg m)"
  by (simp add: kbd_set_flag_def Let_def) (blast intro: kbd_same_fields kbd_same_trans)

lemma keeps_set_flag [keeps]: "kbd_keeps m (kbd_set_flag rel b0 b1 tg m)"
  by (rule keeps_same [OF same_set_flag])

lemma keeps_ctrl_break [keeps]: "kbd_keeps (bda st) (bda (kbd_ctrl_break rel st))"
proof (cases rel)
  case True
  let ?m = "bda st" let ?b = "rd16 ?m kbd_buf_start_offset"
  let ?m1 = "wr16 kbd_buf_tail (?b + 2) (wr16 kbd_buf_head ?b ?m)"
  have k: "kbd_wf (wr16 ?b 0 ?m1) \<and> kbd_slots (wr16 ?b 0 ?m1) = kbd_slots ?m" if wf: "kbd_wf ?m"
  proof -
    obtain s n h t where r: "kbd_ring ?m s n h t" "kbd_slots ?m = n" using kbd_wf_ring [OF wf] .
    note d = kbd_ringD [OF r(1)]
    have "0 < n" using d by simp
    note sf = slot_field(1) [OF r(1) this, unfolded mult_0_right add_0_right]
    have out: "\<forall>x \<in> kbd_fields. x < s \<or> s + 2 * n \<le> x" using r by (simp add: kbd_ring_def)
    have "kbd_ring (wr16 ?b 0 ?m1) s n 0 1"
      using d(5,8) out by (simp add: kbd_ring_def d(1) sf) (simp add: d)
    then show ?thesis using kbd_ring_queue kbd_ring_wf r(2) by blast
  qed
  have "kbd_keeps ?m (wr16 ?b 0 ?m1)" unfolding kbd_keeps_def using k by blast
  then have "kbd_keeps ?m ((wr16 ?b 0 ?m1)(break_flag := 0x80))"
    by (rule keeps_trans [OF _ keeps_same [OF kbd_same_fields(4)]])
  then show ?thesis using True by (simp add: kbd_ctrl_break_def call16_int_def Let_def)
qed (simp add: kbd_ctrl_break_def)

lemma keeps_generic [keeps]: "kbd_keeps m (generic_key e0 rel sc m)"
  by (simp add: generic_key_def Let_def keeps)

lemma keeps_events [keeps]:
  "kbd_keeps (bda st) (bda (kbd_sysreq rel st))" "kbd_keeps (bda st) (bda (kbd_prtscr rel st))"
  by (simp_all add: kbd_sysreq_def kbd_prtscr_def call16_int_def)

lemma keeps_process_scancode [keeps]: "kbd_keeps (bda st) (bda (process_scancode f1 rel sc st))"
  by (simp add: process_scancode_def Let_def keeps)

lemma keeps_process_key1 [keeps]: "kbd_keeps (bda st) (bda (process_key1 sc st))"
proof -
  have "kbd_keeps (bda st) (bda (process_scancode f1 rel c (st\<lparr>bda := (bda st)(kbd_flag1 := b)\<rparr>)))" for f1 rel c b
    by (rule keeps_trans [OF keeps_fields(2) [of _ b]])
      (use keeps_process_scancode [of "st\<lparr>bda := (bda st)(kbd_flag1 := b)\<rparr>"] in simp)
  then show ?thesis by (simp add: process_key1_def Let_def keeps)
qed

lemma keeps_process_key [keeps]: "kbd_keeps (bda st) (bda (process_key hw k st))"
  using keeps_process_key1 [of "call16_int nr br st" for nr br]
  by (simp add: process_key_def call16_int_def Let_def)

lemma keeps_set_leds [keeps]: "kbd_keeps (bda st) (bda (set_leds hw st))"
  by (simp add: set_leds_def kbd_command_def Let_def split_def keeps)

lemma keeps_dequeue:
  "kbd_wf (bda st) \<Longrightarrow> dequeue_key hw regs incr ext st keys = Some (r, st', ks) \<Longrightarrow>
     kbd_wf (bda st') \<and> kbd_slots (bda st') = kbd_slots (bda st)"
proof (induction keys arbitrary: st)
  case Nil
  then show ?case
    using keeps_advance [of "bda st"] kbd_queue_empty [OF Nil(1)]
    by (subst (asm) dequeue_key.simps) (auto simp: Let_def kbd_keeps_def split: if_splits)
next
  case (Cons k keys)
  show ?case
  proof (cases "incr \<and> kbd_queue (bda st) = []")
    case True
    then have "dequeue_key hw regs incr ext (process_key hw k st) keys = Some (r, st', ks)"
      using Cons.prems(2) kbd_queue_empty [OF Cons.prems(1)] by (subst (asm) dequeue_key.simps) simp
    then show ?thesis
      using Cons.IH [of "process_key hw k st"] keeps_process_key [of st hw k] Cons.prems(1) by (simp add: kbd_keeps_def)
  next
    case False
    then show ?thesis
      using Cons.prems keeps_advance [of "bda st"] kbd_queue_empty [OF Cons.prems(1)]
      by (subst (asm) dequeue_key.simps [where keys = "k # keys"])
        (auto simp: Let_def kbd_keeps_def split: if_splits)
  qed
qed

text \<open>
  The key buffer set up by \<open>kbd_init\<close> is well-formed with 16 slots, and stays well-formed with the
  same number of slots through every scancode the keyboard sends, in any prefix state, and through
  every function of interrupt 0x16 with any registers.\<close>

theorem kbd_buffer_wf:
  "kbd_wf (bda (kbd_init st0)) \<and> kbd_slots (bda (kbd_init st0)) = 16 \<and>
   (kbd_wf (bda st) \<longrightarrow>
      kbd_wf (bda (process_key hw k st)) \<and> kbd_slots (bda (process_key hw k st)) = kbd_slots (bda st)) \<and>
   (kbd_wf (bda st) \<longrightarrow> handle_16 hw regs st keys = Some (regs', st', keys') \<longrightarrow>
      kbd_wf (bda st') \<and> kbd_slots (bda st') = kbd_slots (bda st))"
proof -
  have svc: "kbd_wf (bda st') \<and> kbd_slots (bda st') = kbd_slots (bda st)"
    if wf: "kbd_wf (bda st)" and h: "handle_16 hw regs st keys = Some (regs', st', keys')"
  proof -
    let ?st = "set_leds hw st"
    have l: "kbd_wf (bda ?st)" "kbd_slots (bda ?st) = kbd_slots (bda st)"
      using wf keeps_set_leds [of st hw] by (simp_all add: kbd_keeps_def)
    have enq: "kbd_wf (snd (enqueue_key c (bda ?st)))"
      "kbd_slots (snd (enqueue_key c (bda ?st))) = kbd_slots (bda st)" for c
      using keeps_enqueue [of "bda ?st" c] l by (simp_all add: kbd_keeps_def)
    note deq = keeps_dequeue [OF l(1)]
    show ?thesis
      using h l enq deq
      by (auto simp: handle_16_def Let_def handle_1600_def handle_1601_def handle_1610_def handle_1611_def
          handle_1605_def handle_160a_def kbd_command_def split_def split: if_splits)
  qed
  show ?thesis
    using kbd_ring_queue(1) [OF kbd_init_ring] kbd_ring_wf [OF kbd_init_ring] keeps_process_key [of st hw k] svc
    by (auto simp: kbd_keeps_def)
qed

theorem kbd_buffer_wf_witness:
  "kbd_wf (bda (process_key hw_zero 0x1e kbd_zero)) \<and> kbd_slots (bda (process_key hw_zero 0x1e kbd_zero)) = 16"
  using kbd_buffer_wf [of "\<lparr>bda = \<lambda>a. 0, kevents = []\<rparr>" kbd_zero hw_zero "0x1e"] by (simp add: kbd_zero_def)

section \<open>Blocking reads\<close>

text \<open>The state after the first \<open>j\<close> of the scancodes that arrive.\<close>

definition after_keys :: "kbd_hw \<Rightarrow> u8 list \<Rightarrow> kbd_state \<Rightarrow> kbd_state" where
  "after_keys hw keys st = fold (process_key hw) keys st"

lemma after_keys_wf: "kbd_wf (bda st) \<Longrightarrow> kbd_wf (bda (after_keys hw keys st))"
  using keeps_process_key
  by (induction keys arbitrary: st) (simp_all add: after_keys_def kbd_keeps_def)

lemma dequeue_ready:
  assumes "kbd_wf (bda st)" "kbd_queue (bda st) = c # cs"
  shows "\<exists>st'. dequeue_key hw regs True ext st keys = Some (set_ax (dequeue_translate ext c) regs, st', keys) \<and>
    kevents st' = kevents st \<and> kbd_queue (bda st') = cs"
  using dequeue_front [OF assms] kbd_queue_empty [OF assms(1)] assms(2)
  by (subst dequeue_key.simps) (simp add: Let_def)

lemma dequeue_waits:
  assumes "kbd_wf (bda st)" "kbd_queue (bda st) = []"
  shows "dequeue_key hw regs True ext st [] = None"
    and "dequeue_key hw regs True ext st (k # ks) = dequeue_key hw regs True ext (process_key hw k st) ks"
  using kbd_queue_empty [OF assms(1)] assms(2) by (subst dequeue_key.simps; simp add: Let_def)+

lemma dequeue_after:
  assumes "kbd_wf (bda st)" "j \<le> length keys"
    and "\<forall>i < j. kbd_queue (bda (after_keys hw (take i keys) st)) = []"
  shows "dequeue_key hw regs True ext st keys = dequeue_key hw regs True ext (after_keys hw (take j keys) st) (drop j keys)"
  using assms
proof (induction keys arbitrary: st j)
  case Nil
  then show ?case by (simp add: after_keys_def)
next
  case (Cons k keys)
  show ?case
  proof (cases j)
    case 0
    then show ?thesis by (simp add: after_keys_def)
  next
    case (Suc j')
    have e: "kbd_queue (bda st) = []" using Cons.prems(3) Suc by (auto simp: after_keys_def dest: spec [of _ 0])
    have rest: "\<forall>i < j'. kbd_queue (bda (after_keys hw (take i keys) (process_key hw k st))) = []"
    proof (intro allI impI)
      fix i assume "i < j'"
      then show "kbd_queue (bda (after_keys hw (take i keys) (process_key hw k st))) = []"
        using spec [OF Cons.prems(3), of "Suc i"] Suc by (simp add: after_keys_def)
    qed
    have wf: "kbd_wf (bda (process_key hw k st))"
      using keeps_process_key [of st hw k] Cons.prems(1) by (simp add: kbd_keeps_def)
    show ?thesis
      using Cons.IH [OF wf _ rest] Cons.prems(2) dequeue_waits(2) [OF Cons.prems(1) e] Suc by (simp add: after_keys_def)
  qed
qed

text \<open>
  A blocking read (interrupt 0x16, functions 0x00 and 0x10) waits as long as the scancodes that
  arrive leave the buffer empty, and returns as soon as one of them fills it: with the oldest key of
  the buffer in \<open>ax\<close>, that key removed, and the later scancodes not consumed.\<close>

theorem kbd_blocking_read:
  assumes "kbd_wf (bda st)"
  shows "(dequeue_key hw regs True ext st keys = None \<longleftrightarrow>
            (\<forall>j \<le> length keys. kbd_queue (bda (after_keys hw (take j keys) st)) = [])) \<and>
    (j \<le> length keys \<longrightarrow> (\<forall>i < j. kbd_queue (bda (after_keys hw (take i keys) st)) = []) \<longrightarrow>
     kbd_queue (bda (after_keys hw (take j keys) st)) = c # cs \<longrightarrow>
      (\<exists>st'. dequeue_key hw regs True ext st keys =
               Some (set_ax (dequeue_translate ext c) regs, st', drop j keys) \<and> kbd_queue (bda st') = cs))"
    (is "(?D = None \<longleftrightarrow> (\<forall>j \<le> length keys. ?q j = [])) \<and> ?R j c cs")
proof -
  have ret: "?R j c cs" for j c cs
  proof (intro impI)
    assume j: "j \<le> length keys" "\<forall>i < j. ?q i = []" "?q j = c # cs"
    show "\<exists>st'. ?D = Some (set_ax (dequeue_translate ext c) regs, st', drop j keys) \<and> kbd_queue (bda st') = cs"
      unfolding dequeue_after [OF assms j(1,2)]
      using dequeue_ready [OF after_keys_wf [OF assms] j(3), of hw regs ext "drop j keys"] by blast
  qed
  have wait: "?D = None" if all: "\<forall>j \<le> length keys. ?q j = []"
    using all spec [OF all, of "length keys"] dequeue_after [OF assms order_refl, of keys hw regs ext]
      dequeue_waits(1) [OF after_keys_wf [OF assms, of hw keys], of hw regs ext] by simp
  have "\<forall>j \<le> length keys. ?q j = []" if none: "?D = None"
  proof (rule ccontr)
    assume "\<not> ?thesis"
    then have ex: "\<exists>j. j \<le> length keys \<and> ?q j \<noteq> []" by blast
    let ?j = "LEAST j. j \<le> length keys \<and> ?q j \<noteq> []"
    have l: "?j \<le> length keys" "?q ?j \<noteq> []" using LeastI_ex [OF ex] by simp_all
    have "\<forall>i < ?j. ?q i = []" using not_less_Least l(1) by fastforce
    then show False using ret [of ?j "hd (?q ?j)" "tl (?q ?j)"] l none by simp
  qed
  then show ?thesis using wait ret by blast
qed

theorem kbd_blocking_read_witness:
  "\<exists>st'. dequeue_key hw_zero bregs_zero True False kbd_zero [0x2a, 0x1e, 0x9e] = Some (set_ax 0x1e41 bregs_zero, st', [0x9e])"
proof -
  have wf: "kbd_wf (bda kbd_zero)" unfolding kbd_zero_def by (rule kbd_ring_wf [OF kbd_init_ring])
  have q: "kbd_queue (bda (after_keys hw_zero [] kbd_zero)) = []"
    "kbd_queue (bda (after_keys hw_zero [0x2a] kbd_zero)) = []"
    "kbd_queue (bda (after_keys hw_zero [0x2a, 0x1e] kbd_zero)) = [0x1e41]"
    "dequeue_translate False 0x1e41 = 0x1e41"
    by code_simp+
  have "\<forall>i < 2. kbd_queue (bda (after_keys hw_zero (take i [0x2a, 0x1e, 0x9e]) kbd_zero)) = []"
    using q(1,2) by (auto simp: less_2_cases_iff)
  then show ?thesis
    using conjunct2 [OF kbd_blocking_read [OF wf, of hw_zero bregs_zero False "[0x2a, 0x1e, 0x9e]" 2 "0x1e41" "[]"]]
      q(3,4) by auto
qed

section \<open>Modifier keys\<close>

text \<open>The modifier keys: scancode, whether a \<open>0xe0\<close> prefix precedes it, the flags that are set while it
  is held, and the flags that every press toggles.\<close>

definition modifier_keys :: "(u8 \<times> bool \<times> u16 \<times> u8 \<times> u16) list" where
  "modifier_keys =
     [(0x3a, False, KF0_CAPS, 0, KF0_CAPSACTIVE), (0x2a, False, KF0_LSHIFT, 0, 0), (0x36, False, KF0_RSHIFT, 0, 0),
      (0x1d, False, KF0_CTRLACTIVE OR KF0_LCTRL, 0, 0), (0x1d, True, KF0_CTRLACTIVE, KF1_RCTRL, 0),
      (0x38, False, KF0_ALTACTIVE OR KF0_LALT, 0, 0), (0x38, True, KF0_ALTACTIVE, KF1_RALT, 0),
      (0x45, False, KF0_NUM, 0, KF0_NUMACTIVE), (0x46, False, KF0_SCROLL, 0, KF0_SCROLLACTIVE)]"

definition send_key :: "bool \<Rightarrow> u8 \<Rightarrow> kbd_state \<Rightarrow> kbd_state" where
  "send_key e0 sc st = process_key1 sc (if e0 then process_key1 0xe0 st else st)"

definition no_prefix :: "kbd_state \<Rightarrow> bool" where
  "no_prefix st \<longleftrightarrow> bda st kbd_flag1 AND (KF1_LAST_E0 OR KF1_LAST_E1) = 0"

lemma u8_eq_iff: "(a :: u8) = b \<longleftrightarrow>
    bit a 0 = bit b 0 \<and> bit a 1 = bit b 1 \<and> bit a 2 = bit b 2 \<and> bit a 3 = bit b 3 \<and>
    bit a 4 = bit b 4 \<and> bit a 5 = bit b 5 \<and> bit a 6 = bit b 6 \<and> bit a 7 = bit b 7"
proof
  assume h: "bit a 0 = bit b 0 \<and> bit a 1 = bit b 1 \<and> bit a 2 = bit b 2 \<and> bit a 3 = bit b 3 \<and>
    bit a 4 = bit b 4 \<and> bit a 5 = bit b 5 \<and> bit a 6 = bit b 6 \<and> bit a 7 = bit b 7"
  have "n = 0 \<or> n = 1 \<or> n = 2 \<or> n = 3 \<or> n = 4 \<or> n = 5 \<or> n = 6 \<or> n = 7" if "n < 8" for n :: nat
    using that by arith
  note cases = this
  show "a = b"
  proof (rule bit_word_eqI)
    fix n assume "n < LENGTH(8)"
    then have "n < 8" by simp
    from cases [OF this] h show "bit a n = bit b n" by (elim disjE) simp_all
  qed
qed simp

lemma no_prefix_bits:
  "no_prefix st \<longleftrightarrow> \<not> bit (bda st kbd_flag1) 0 \<and> \<not> bit (bda st kbd_flag1) 1"
proof -
  have "(KF1_LAST_E0 OR KF1_LAST_E1) = mask 2" by (simp add: kf_defs mask_eq_exp_minus_1)
  then have "no_prefix st \<longleftrightarrow> take_bit 2 (bda st kbd_flag1) = 0" by (simp add: no_prefix_def take_bit_eq_mask)
  also have "\<dots> \<longleftrightarrow> \<not> bit (bda st kbd_flag1) 0 \<and> \<not> bit (bda st kbd_flag1) 1"
    by (auto simp: u8_eq_iff bit_simps less_2_cases_iff)
  finally show ?thesis .
qed

lemma no_prefix_flags:
  assumes "no_prefix st"
  shows "bda st kbd_flag1 AND (KF1_LAST_E0 OR KF1_LAST_E1) = 0" "bda st kbd_flag1 AND KF1_LAST_E0 = 0"
    "bda st kbd_flag1 AND KF1_LAST_E1 = 0"
    "(bda st kbd_flag1 OR KF1_LAST_E0) AND (KF1_LAST_E0 OR KF1_LAST_E1) \<noteq> 0"
    "(bda st kbd_flag1 OR KF1_LAST_E0) AND KF1_LAST_E0 \<noteq> 0"
    "(bda st kbd_flag1 OR KF1_LAST_E0) AND KF1_LAST_E1 = 0"
    "(bda st kbd_flag1 OR KF1_LAST_E0) AND NOT (KF1_LAST_E0 OR KF1_LAST_E1) = bda st kbd_flag1"
proof -
  have e0: "bit KF1_LAST_E0 n \<longleftrightarrow> n = 1" and e1: "bit KF1_LAST_E1 n \<longleftrightarrow> n = 0" for n
    using bit_exp_iff [where 'a = u8, of 1 n] by (auto simp: kf_defs bit_1_iff)
  show "bda st kbd_flag1 AND (KF1_LAST_E0 OR KF1_LAST_E1) = 0" "bda st kbd_flag1 AND KF1_LAST_E0 = 0"
    "bda st kbd_flag1 AND KF1_LAST_E1 = 0"
    "(bda st kbd_flag1 OR KF1_LAST_E0) AND (KF1_LAST_E0 OR KF1_LAST_E1) \<noteq> 0"
    "(bda st kbd_flag1 OR KF1_LAST_E0) AND KF1_LAST_E0 \<noteq> 0"
    "(bda st kbd_flag1 OR KF1_LAST_E0) AND KF1_LAST_E1 = 0"
    "(bda st kbd_flag1 OR KF1_LAST_E0) AND NOT (KF1_LAST_E0 OR KF1_LAST_E1) = bda st kbd_flag1"
    using assms
    by (auto simp: u8_eq_iff no_prefix_bits bit_and_iff bit_or_iff bit_not_iff e0 e1)
qed

lemma send_key_scancode:
  assumes "no_prefix st" "sc \<noteq> 0xe0" "sc \<noteq> 0xe1"
  shows "send_key e0 sc st =
    process_scancode (if e0 then bda st kbd_flag1 OR KF1_LAST_E0 else bda st kbd_flag1)
      (sc AND 0x80 \<noteq> 0) (sc AND NOT 0x80) st"
proof (cases e0)
  case True
  let ?st = "st\<lparr>bda := (bda st)(kbd_flag1 := bda st kbd_flag1 OR KF1_LAST_E0)\<rparr>"
  have p: "process_key1 0xe0 st = ?st" by (simp add: process_key1_def Let_def)
  have restored: "?st\<lparr>bda := (bda ?st)(kbd_flag1 := bda st kbd_flag1)\<rparr> = st" by simp
  have "process_key1 sc ?st =
      process_scancode (bda st kbd_flag1 OR KF1_LAST_E0) (sc AND 0x80 \<noteq> 0) (sc AND NOT 0x80)
        (?st\<lparr>bda := (bda ?st)(kbd_flag1 := bda st kbd_flag1)\<rparr>)"
    using assms(2,3) no_prefix_flags(4-7) [OF assms(1)] by (simp only: process_key1_def) (simp add: Let_def)
  then show ?thesis using True unfolding send_key_def p restored by simp
next
  case False
  then show ?thesis
    using assms(2,3) no_prefix_flags(1) [OF assms(1)] by (simp add: send_key_def process_key1_def Let_def)
qed

lemma modifier_switch:
  assumes "(sc, e0, b0, b1, tg) \<in> set modifier_keys" "no_prefix st"
  shows "process_scancode (if e0 then bda st kbd_flag1 OR KF1_LAST_E0 else bda st kbd_flag1) rel sc st =
    st\<lparr>bda := kbd_set_flag rel b0 b1 tg (bda st)\<rparr>"
  supply e0 = KF1_LAST_E0_def [THEN arg_cong, of "\<lambda>x. x \<noteq> 0", simplified]
  using assms(1) unfolding modifier_keys_def list.set
  by (elim insertE) (simp_all add: process_scancode_def no_prefix_flags [OF assms(2)] e0)

lemma modifier_codes:
  assumes "(sc, e0, b0, b1, tg) \<in> set modifier_keys"
  shows "sc \<noteq> 0xe0" "sc \<noteq> 0xe1" "sc AND 0x80 = 0" "sc AND NOT 0x80 = sc"
    "sc OR 0x80 \<noteq> 0xe0" "sc OR 0x80 \<noteq> 0xe1" "(sc OR 0x80) AND 0x80 \<noteq> 0" "(sc OR 0x80) AND NOT 0x80 = sc"
  using assms unfolding modifier_keys_def list.set by (elim insertE; simp)+

lemma send_modifier:
  assumes k: "(sc, e0, b0, b1, tg) \<in> set modifier_keys" and p: "no_prefix st"
  shows "send_key e0 sc st = st\<lparr>bda := kbd_set_flag False b0 b1 tg (bda st)\<rparr>"
    and "send_key e0 (sc OR 0x80) st = st\<lparr>bda := kbd_set_flag True b0 b1 tg (bda st)\<rparr>"
  using modifier_switch [OF k p] modifier_codes [OF k] send_key_scancode [OF p] by simp_all

lemma set_flag_read:
  "rd16 (kbd_set_flag rel b0 b1 tg m) kbd_flag0 =
     (if rel then rd16 m kbd_flag0 AND NOT b0 else (rd16 m kbd_flag0 XOR tg) OR b0)"
  "kbd_set_flag rel b0 b1 tg m kbd_flag1 = (if rel then m kbd_flag1 AND NOT b1 else m kbd_flag1 OR b1)"
  "a \<noteq> kbd_flag0 \<Longrightarrow> a \<noteq> kbd_flag0 + 1 \<Longrightarrow> a \<noteq> kbd_flag1 \<Longrightarrow> kbd_set_flag rel b0 b1 tg m a = m a"
proof -
  have "rd16 (m'(kbd_flag1 := b)) kbd_flag0 = rd16 m' kbd_flag0" for m' b by (simp add: rd16_def bda_offsets)
  then show "rd16 (kbd_set_flag rel b0 b1 tg m) kbd_flag0 =
     (if rel then rd16 m kbd_flag0 AND NOT b0 else (rd16 m kbd_flag0 XOR tg) OR b0)"
    by (simp add: kbd_set_flag_def Let_def)
qed (auto simp: kbd_set_flag_def Let_def wr16_def)

lemma or_and_not: "((x :: 'a::len word) OR b) AND NOT b = x AND NOT b"
  by (rule bit_word_eqI) (auto simp: bit_simps)

lemma modifier_no_prefix:
  assumes "(sc, e0, b0, b1, tg) \<in> set modifier_keys" "no_prefix st"
  shows "no_prefix (st\<lparr>bda := kbd_set_flag rel b0 b1 tg (bda st)\<rparr>)"
proof -
  have "\<not> bit b1 0 \<and> \<not> bit b1 1"
    using assms(1) unfolding modifier_keys_def list.set by (elim insertE) (simp_all add: kf_defs bit_numeral_rec)
  then show ?thesis
    using assms(2) by (simp add: no_prefix_bits set_flag_read bit_and_iff bit_or_iff)
qed

text \<open>
  A modifier key (Shift, Ctrl, Alt and the lock keys, left and right, with or without the \<open>0xe0\<close>
  prefix) sets its flags and flips its toggle when it goes down, and clears exactly its flags when it
  comes up: after the pair the toggle has flipped once, the prefix state is as before, and no other byte
  of the BIOS data area and no key of the buffer has changed.\<close>

theorem modifier_make_break:
  assumes "(sc, e0, b0, b1, tg) \<in> set modifier_keys" "no_prefix st"
    and "a \<noteq> kbd_flag0" "a \<noteq> kbd_flag0 + 1" "a \<noteq> kbd_flag1"
  shows "rd16 (bda (send_key e0 sc st)) kbd_flag0 = (rd16 (bda st) kbd_flag0 XOR tg) OR b0 \<and>
    bda (send_key e0 sc st) kbd_flag1 = bda st kbd_flag1 OR b1 \<and>
    rd16 (bda (send_key e0 (sc OR 0x80) (send_key e0 sc st))) kbd_flag0 =
      (rd16 (bda st) kbd_flag0 XOR tg) AND NOT b0 \<and>
    bda (send_key e0 (sc OR 0x80) (send_key e0 sc st)) kbd_flag1 = bda st kbd_flag1 AND NOT b1 \<and>
    no_prefix (send_key e0 (sc OR 0x80) (send_key e0 sc st)) \<and>
    bda (send_key e0 (sc OR 0x80) (send_key e0 sc st)) a = bda st a"
proof -
  let ?down = "st\<lparr>bda := kbd_set_flag False b0 b1 tg (bda st)\<rparr>"
  have np: "no_prefix ?down" by (rule modifier_no_prefix [OF assms(1,2)])
  show ?thesis
    using send_modifier(1) [OF assms(1,2)] send_modifier(2) [OF assms(1) np] modifier_no_prefix [OF assms(1) np, of True]
      set_flag_read(3) [OF assms(3-5)]
    by (simp add: set_flag_read or_and_not)
qed

theorem modifier_make_break_witness:
  "rd16 (bda (send_key False 0x3a kbd_zero)) kbd_flag0 = KF0_CAPSACTIVE OR KF0_CAPS \<and>
   rd16 (bda (send_key False 0xba (send_key False 0x3a kbd_zero))) kbd_flag0 = KF0_CAPSACTIVE"
proof -
  have m: "(0x3a, False, KF0_CAPS, 0, KF0_CAPSACTIVE) \<in> set modifier_keys" by (simp add: modifier_keys_def)
  have z: "no_prefix kbd_zero" "rd16 (bda kbd_zero) kbd_flag0 = 0" by code_simp+
  show ?thesis
    using modifier_make_break [OF m z(1), of 0] z(2) by (simp add: kf_defs bda_offsets)
qed

end
