(* ===== verification/SerconProps.thy ===== *)
theory SerconProps
  imports Sercon KeyboardProps
begin

text \<open>
  What reaches a terminal behind the serial console: the terminal is a machine over the bytes that the port
  sends, and after each flush its cursor, its colours and its screen are what the console means to show.
  The keys of the terminal arrive in the key buffer of the keyboard services.
\<close>

section \<open>A port that is ready\<close>

definition ready_port :: "port_dev \<Rightarrow> u16 \<Rightarrow> bool" where
  "ready_port dev addr \<longleftrightarrow> (\<forall>log. dev_in dev log (addr + 5) AND 0x60 = 0x60)"

primrec sent_log :: "port_dev \<Rightarrow> u16 \<Rightarrow> u8 list \<Rightarrow> io_event list \<Rightarrow> io_event list" where
  "sent_log dev addr [] log = log"
| "sent_log dev addr (c # cs) log = sent_log dev addr cs (log @ [In (addr + 5) (dev_in dev log (addr + 5)), Out addr c])"

abbreviation sent :: "port_dev \<Rightarrow> u8 list \<Rightarrow> sercon_state \<Rightarrow> sercon_state" where
  "sent dev cs st \<equiv> st\<lparr>io_log := sent_log dev (sercon_port st) cs (io_log st)\<rparr>"

lemma sent_append [simp]: "sent_log dev addr (xs @ ys) log = sent_log dev addr ys (sent_log dev addr xs log)"
  by (induction xs arbitrary: log) simp_all

lemma written_sent [simp]: "written addr (sent_log dev addr cs log) = written addr log @ cs"
  by (induction cs arbitrary: log) (simp_all add: written_def)

lemma putchar_ready:
  assumes "ready_port dev (sercon_port st)"
  shows "sercon_putchar dev c st = Some (sent dev [c] st)"
  using assms
  by (subst sercon_putchar_def, subst poll_port.simps)
    (simp add: ready_port_def inb_def outb_def Let_def SEROFF_LSR_def SEROFF_DATA_def)

lemma puts_ready: "ready_port dev (sercon_port st) \<Longrightarrow> sercon_puts dev cs st = Some (sent dev cs st)"
  by (induction cs arbitrary: st) (simp_all add: putchar_ready)

lemma newlines_ready:
  "ready_port dev (sercon_port st) \<Longrightarrow>
    newlines dev n st = Some ((sent dev (replicate n 0x0a) st)\<lparr>sercon_row_last := sercon_row_last st + of_nat n\<rparr>)"
  by (induction n arbitrary: st) (simp_all add: putchar_ready add.assoc)

text \<open>What the flush sends.\<close>

definition sync_bytes :: "u8 \<Rightarrow> u8 \<Rightarrow> u8 \<Rightarrow> u8 \<Rightarrow> u8 list" where
  "sync_bytes row col row0 col0 =
     (if row0 = row \<and> col0 = col then []
      else if col = 0 \<and> row0 \<le> row then (if col0 \<noteq> 0 then [0x0d] else []) @ replicate (unat row - unat row0) 0x0a
      else goto_seq row col)"

definition char_bytes :: "sercon_state \<Rightarrow> u8 list" where
  "char_bytes st =
     (if sercon_char st = 0 then []
      else (if sercon_attr st = sercon_attr_last st then []
            else color_seq (sercon_attr st AND 7) (drop_bit 4 (sercon_attr st) AND 7) (sercon_attr st AND 0x08)) @
        utf8_seq (cp437_to_unicode (sercon_char st)))"

definition col_after :: "sercon_state \<Rightarrow> u8" where
  "col_after st = (if sercon_char st = 0 then sercon_col_last st else sercon_col_last st + 1)"

definition flush_bytes :: "sercon_state \<Rightarrow> u8 list" where
  "flush_bytes st =
     char_bytes st @ sync_bytes (cursor_pos_row st) (cursor_pos_col st) (sercon_row_last st) (col_after st)"

lemma cursor_pos_simps [simp]:
  "cursor_pos_row (io_log_update g st) = cursor_pos_row st" "cursor_pos_row (sercon_row_last_update f st) = cursor_pos_row st"
  "cursor_pos_row (sercon_col_last_update f st) = cursor_pos_row st" "cursor_pos_row (sercon_attr_last_update f st) = cursor_pos_row st"
  "cursor_pos_row (sercon_char_update f st) = cursor_pos_row st" "cursor_pos_row (sercon_attr_update f st) = cursor_pos_row st"
  "cursor_pos_col (io_log_update g st) = cursor_pos_col st" "cursor_pos_col (sercon_row_last_update f st) = cursor_pos_col st"
  "cursor_pos_col (sercon_col_last_update f st) = cursor_pos_col st" "cursor_pos_col (sercon_attr_last_update f st) = cursor_pos_col st"
  "cursor_pos_col (sercon_char_update f st) = cursor_pos_col st" "cursor_pos_col (sercon_attr_update f st) = cursor_pos_col st"
  "video_rows (io_log_update g st) = video_rows st" "video_rows (sercon_row_last_update f st) = video_rows st"
  "video_rows (sercon_col_last_update f st) = video_rows st" "video_rows (sercon_attr_last_update f st) = video_rows st"
  "video_rows (sercon_char_update f st) = video_rows st" "video_rows (sercon_attr_update f st) = video_rows st"
  "video_cols (io_log_update g st) = video_cols st" "video_cols (sercon_row_last_update f st) = video_cols st"
  "video_cols (sercon_col_last_update f st) = video_cols st" "video_cols (sercon_attr_last_update f st) = video_cols st"
  "video_cols (sercon_char_update f st) = video_cols st" "video_cols (sercon_attr_update f st) = video_cols st"
  by (simp_all add: cursor_pos_row_def cursor_pos_col_def video_rows_def video_cols_def)

lemma row_distance: "row0 \<le> row \<Longrightarrow> row0 + of_nat (unat row - unat row0) = (row :: u8)"
  by (simp add: word_le_nat_alt of_nat_diff)

lemma sync_ready:
  assumes "ready_port dev (sercon_port st)"
  shows "sercon_lazy_cursor_sync dev st =
    Some ((sent dev (sync_bytes (cursor_pos_row st) (cursor_pos_col st) (sercon_row_last st) (sercon_col_last st)) st)
      \<lparr>sercon_row_last := cursor_pos_row st, sercon_col_last := cursor_pos_col st\<rparr>)"
  using assms
  by (auto simp: sercon_lazy_cursor_sync_def sync_bytes_def Let_def putchar_ready newlines_ready row_distance
      goto_sync_def sercon_term_cursor_goto_def puts_ready)

lemma flush_ready:
  assumes "ready_port dev (sercon_port st)"
  shows "sercon_lazy_flush dev st =
    Some ((sent dev (flush_bytes st) st)
      \<lparr>sercon_attr_last := (if sercon_char st = 0 then sercon_attr_last st else sercon_attr st),
       sercon_row_last := cursor_pos_row st, sercon_col_last := cursor_pos_col st, sercon_attr := 0x07, sercon_char := 0\<rparr>)"
  using assms
  by (simp add: sercon_lazy_flush_def flush_bytes_def char_bytes_def col_after_def sync_ready sercon_set_attr_def
      sercon_term_set_color_def sercon_print_utf8_def puts_ready)

section \<open>The terminal\<close>

text \<open>A terminal of \<open>R\<close> rows and \<open>C\<close> columns without line wrap: UTF-8 characters, carriage return, line feed,
  backspace, cursor positioning, colours. A cell holds a Unicode character and its foreground, background
  and intensity.\<close>

datatype tty_parse = Ground | Utf8 nat nat | Esc | Csi "nat list" nat

type_synonym tty_attr = "nat \<times> nat \<times> bool"

record tty =
  t_parse :: tty_parse
  t_row :: nat
  t_col :: nat
  t_attr :: tty_attr
  t_cells :: "nat \<Rightarrow> nat \<Rightarrow> nat \<times> tty_attr"

definition tty_put :: "nat \<Rightarrow> nat \<Rightarrow> tty \<Rightarrow> tty" where
  "tty_put C u t =
     t\<lparr>t_parse := Ground, t_col := min (t_col t + 1) (C - 1),
       t_cells := (t_cells t)(t_row t := (t_cells t (t_row t))(t_col t := (u, t_attr t)))\<rparr>"

definition tty_lf :: "nat \<Rightarrow> tty \<Rightarrow> tty" where
  "tty_lf R t =
     (if t_row t + 1 < R then t\<lparr>t_row := t_row t + 1\<rparr>
      else t\<lparr>t_cells := (\<lambda>r. if r + 1 < R then t_cells t (r + 1) else (\<lambda>c. (0x20, (7, 0, False))))\<rparr>)"

definition sgr :: "nat \<Rightarrow> tty_attr \<Rightarrow> tty_attr" where
  "sgr p = (\<lambda>(fg, bg, bold).
     if p = 0 then (7, 0, False) else if p = 1 then (fg, bg, True)
     else if 30 \<le> p \<and> p < 38 then (p - 30, bg, bold) else if 40 \<le> p \<and> p < 48 then (fg, p - 40, bold)
     else (fg, bg, bold))"

definition csi_end :: "nat \<Rightarrow> nat \<Rightarrow> nat list \<Rightarrow> nat \<Rightarrow> tty \<Rightarrow> tty" where
  "csi_end R C ps b t =
     (let t0 = t\<lparr>t_parse := Ground\<rparr>
      in if b = 0x48 then t0\<lparr>t_row := min (ps ! 0 - 1) (R - 1), t_col := min (ps ! 1 - 1) (C - 1)\<rparr>
         else if b = 0x6d then t0\<lparr>t_attr := fold sgr ps (t_attr t)\<rparr>
         else t0)"

definition tty_step :: "nat \<Rightarrow> nat \<Rightarrow> u8 \<Rightarrow> tty \<Rightarrow> tty" where
  "tty_step R C byte t =
     (let b = unat byte
      in case t_parse t of
           Ground \<Rightarrow>
             if b = 0x0d then t\<lparr>t_col := 0\<rparr> else if b = 0x0a then tty_lf R t
             else if b = 8 then t\<lparr>t_col := t_col t - 1\<rparr>
             else if b = 0x1b then t\<lparr>t_parse := Esc\<rparr> else if b < 0x20 then t
             else if b < 0x80 then tty_put C b t
             else if 0xc0 \<le> b \<and> b < 0xe0 then t\<lparr>t_parse := Utf8 1 (b - 0xc0)\<rparr>
             else if 0xe0 \<le> b \<and> b < 0xf0 then t\<lparr>t_parse := Utf8 2 (b - 0xe0)\<rparr> else t
         | Utf8 n acc \<Rightarrow>
             let acc1 = acc * 64 + b mod 64
             in if n \<le> 1 then tty_put C acc1 t else t\<lparr>t_parse := Utf8 (n - 1) acc1\<rparr>
         | Esc \<Rightarrow> t\<lparr>t_parse := (if b = 0x5b then Csi [] 0 else Ground)\<rparr>
         | Csi ps cur \<Rightarrow>
             if 0x30 \<le> b \<and> b < 0x3a then t\<lparr>t_parse := Csi ps (cur * 10 + (b - 0x30))\<rparr>
             else if b = 0x3b then t\<lparr>t_parse := Csi (ps @ [cur]) 0\<rparr>
             else csi_end R C (ps @ [cur]) b t)"

abbreviation tty_run :: "nat \<Rightarrow> nat \<Rightarrow> u8 list \<Rightarrow> tty \<Rightarrow> tty" where
  "tty_run R C bs t \<equiv> fold (tty_step R C) bs t"

lemma tty_step_ground [simp]:
  "t_parse t = Ground \<Longrightarrow> tty_step R C 0x0d t = t\<lparr>t_col := 0\<rparr>"
  "t_parse t = Ground \<Longrightarrow> tty_step R C 0x0a t = tty_lf R t"
  "t_parse t = Ground \<Longrightarrow> tty_step R C 0x1b t = t\<lparr>t_parse := Esc\<rparr>"
  "t_parse t = Esc \<Longrightarrow> tty_step R C 0x5b t = t\<lparr>t_parse := Csi [] 0\<rparr>"
  "t_parse t = Csi ps cur \<Longrightarrow> tty_step R C 0x3b t = t\<lparr>t_parse := Csi (ps @ [cur]) 0\<rparr>"
  "t_parse t = Csi ps cur \<Longrightarrow> tty_step R C 0x48 t = csi_end R C (ps @ [cur]) 0x48 t"
  "t_parse t = Csi ps cur \<Longrightarrow> tty_step R C 0x6d t = csi_end R C (ps @ [cur]) 0x6d t"
  by (simp_all add: tty_step_def Let_def)

lemma tty_step_digit:
  "t_parse t = Csi ps cur \<Longrightarrow> unat d = 48 + n \<Longrightarrow> n < 10 \<Longrightarrow> tty_step R C d t = t\<lparr>t_parse := Csi ps (cur * 10 + n)\<rparr>"
  by (simp add: tty_step_def Let_def)

lemma decimal_digits:
  assumes "unat (x :: u8) < 99"
  shows "unat (0x30 + (x + 1) div 10) = 48 + (unat x + 1) div 10" "unat (0x30 + (x + 1) mod 10) = 48 + (unat x + 1) mod 10"
proof -
  have x: "unat (x + 1) = unat x + 1" using assms by (simp add: unat_add_small)
  have d: "unat ((x + 1) div 10) = (unat x + 1) div 10" "unat ((x + 1) mod 10) = (unat x + 1) mod 10"
    using x by (simp_all add: unat_div unat_mod)
  have "(unat x + 1) div 10 \<le> 10" using assms by simp
  then show "unat (0x30 + (x + 1) div 10) = 48 + (unat x + 1) div 10"
    using d(1) by (subst unat_add_small) simp_all
  have "(unat x + 1) mod 10 < 10" by simp
  then show "unat (0x30 + (x + 1) mod 10) = 48 + (unat x + 1) mod 10"
    using d(2) by (subst unat_add_small) simp_all
qed

lemma goto_run:
  assumes t: "t_parse t = Ground" and rc: "unat row < R" "unat col < C" "R \<le> 99" "C \<le> 99"
  shows "tty_run R C (goto_seq row col) t = t\<lparr>t_row := unat row, t_col := unat col\<rparr>"
proof -
  have lt: "unat row < 99" "unat col < 99" using rc by simp_all
  note d = decimal_digits [OF lt(1)] decimal_digits [OF lt(2)]
  have n: "(unat row + 1) div 10 < 10" "(unat col + 1) div 10 < 10" using lt by simp_all
  have "(unat row + 1) div 10 * 10 + (unat row + 1) mod 10 = unat row + 1"
    "(unat col + 1) div 10 * 10 + (unat col + 1) mod 10 = unat col + 1" by simp_all
  then show ?thesis
    using t rc lt n
    by (simp add: goto_seq_def Let_def ESC_def tty_step_digit [OF _ d(1)] tty_step_digit [OF _ d(2)]
        tty_step_digit [OF _ d(3)] tty_step_digit [OF _ d(4)] csi_end_def del: div_mult_mod_eq)
qed

text \<open>Colours: the VGA numbers them blue, green, red from the lowest bit, the terminal red, green, blue.\<close>

definition ansi_color :: "u8 \<Rightarrow> nat" where
  "ansi_color v = (if bit v 2 then 1 else 0) + (if bit v 1 then 2 else 0) + (if bit v 0 then 4 else 0)"

definition attr_view :: "u8 \<Rightarrow> tty_attr" where
  "attr_view attr = (ansi_color attr, ansi_color (drop_bit 4 attr), bit attr 3)"

lemma cmap_color: "unat (sercon_cmap ! unat (v AND 7)) = 48 + ansi_color v" "ansi_color v < 8"
proof -
  have "v AND 7 < 8" using and_mask_less_size [of 3 v] by (simp add: mask_eq_exp_minus_1 word_size)
  then have "unat (v AND 7) < 8" by (simp add: word_less_nat_alt)
  then have "v AND 7 \<in> {0, 1, 2, 3, 4, 5, 6, 7}"
    by (simp add: word_unat_eq_iff) arith
  moreover have "bit v n = bit (v AND 7) n" if "n < 3" for n
    using that by (auto simp: bit_simps bit_numeral_rec less_Suc_eq numeral_3_eq_3)
  ultimately show "unat (sercon_cmap ! unat (v AND 7)) = 48 + ansi_color v"
    by (auto simp: ansi_color_def sercon_cmap_def chars_def bit_numeral_rec)
  show "ansi_color v < 8" by (simp add: ansi_color_def)
qed

lemma or_high: "take_bit k h = 0 \<Longrightarrow> y < 2 ^ k \<Longrightarrow> h OR y = h + (y :: nat)"
proof (subst disjunctive_add_eq_or)
  assume a: "take_bit k h = 0" "y < 2 ^ k"
  have "\<not> bit h n" if "n < k" for n using a(1) that by (metis bit_take_bit_iff bit_0_eq bot_apply bot_bool_def)
  moreover have "\<not> bit y n" if "\<not> n < k" for n
    using a(2) that by (metis bit_take_bit_iff take_bit_nat_eq_self)
  ultimately show "h AND y = 0" by (auto simp: bit_eq_iff bit_simps)
qed simp

lemma utf8_bytes:
  "unat (0x80 OR (ucast v AND 0x3f) :: u8) = 128 + unat (v :: u16) mod 64"
  "unat (0xc0 OR (ucast v AND 0x1f) :: u8) = 192 + unat (v :: u16) mod 32"
  "unat (0xe0 OR (ucast v AND 0x0f) :: u8) = 224 + unat (v :: u16) mod 16"
proof -
  have m: "unat (ucast v AND mask k :: u8) = unat v mod 2 ^ k" if "k \<le> 8" for k
    using that by (simp add: take_bit_eq_mask [symmetric] unsigned_take_bit_eq unsigned_ucast_eq min_def
        flip: take_bit_eq_mod)
  show "unat (0x80 OR (ucast v AND 0x3f) :: u8) = 128 + unat v mod 64"
    using or_high [of 6 128 "unat v mod 64"] m [of 6]
    by (simp add: unsigned_or_eq mask_eq_exp_minus_1 take_bit_eq_mod)
  show "unat (0xc0 OR (ucast v AND 0x1f) :: u8) = 192 + unat v mod 32"
    using or_high [of 5 192 "unat v mod 32"] m [of 5]
    by (simp add: unsigned_or_eq mask_eq_exp_minus_1 take_bit_eq_mod)
  show "unat (0xe0 OR (ucast v AND 0x0f) :: u8) = 224 + unat v mod 16"
    using or_high [of 4 224 "unat v mod 16"] m [of 4]
    by (simp add: unsigned_or_eq mask_eq_exp_minus_1 take_bit_eq_mod)
qed

lemma utf8_run:
  assumes t: "t_parse t = Ground" and u: "0x20 \<le> u"
  shows "tty_run R C (utf8_seq u) t = tty_put C (unat u) t"
proof -
  have n: "32 \<le> unat u" "unat u < 65536" using u unat_u16_bound [of u] by (simp_all add: word_le_nat_alt)
  have d: "unat (drop_bit k u) = unat u div 2 ^ k" for k
    by (subst unsigned_drop_bit_eq) (use n(2) in \<open>simp add: drop_bit_eq_div take_bit_nat_eq_self\<close>)
  have low: "(128 + x mod 64) mod 64 = x mod 64" for x :: nat
    using mod_mult_self1 [of "x mod 64" 2 64] by (simp add: add.commute)
  consider (one) "unat u < 127" | (two) "127 \<le> unat u" "unat u < 2047" | (three) "2047 \<le> unat u" by linarith
  then show ?thesis
  proof cases
    case one
    then have "unat (ucast u :: u8) = unat u" by (simp add: unsigned_ucast_eq take_bit_nat_eq_self)
    with one n t show ?thesis by (simp add: utf8_seq_def word_less_nat_alt tty_step_def)
  next
    case two
    then have "unat u div 64 < 32" by simp
    moreover have "unat u div 64 * 64 + (128 + unat u mod 64) mod 64 = unat u" unfolding low by simp
    moreover note two n t d [of 6]
    ultimately show ?thesis
      by (simp add: utf8_seq_def word_less_nat_alt tty_step_def Let_def utf8_bytes tty_put_def)
  next
    case three
    have "unat u div 4096 < 16" using n by simp
    moreover have "(unat u div 4096 * 64 + (128 + unat u div 64 mod 64) mod 64) * 64 + (128 + unat u mod 64) mod 64 = unat u"
      unfolding low using div_mult2_eq [of "unat u" 64 64] by simp
    ultimately show ?thesis using three n t d [of 6] d [of 12]
      by (simp add: utf8_seq_def word_less_nat_alt tty_step_def Let_def utf8_bytes tty_put_def)
  qed
qed

lemma cp437_printable: "chr \<noteq> 0 \<Longrightarrow> 0x20 \<le> cp437_to_unicode chr"
proof -
  assume "chr \<noteq> 0"
  moreover have "list_all (\<lambda>u. 0x20 \<le> u) (tl cp437_to_unicode_map)" "length cp437_to_unicode_map = 256"
    by (simp_all add: cp437_to_unicode_map_def)
  ultimately show ?thesis using unat_u8_bound [of chr]
    by (cases "unat chr") (auto simp: cp437_to_unicode_def list_all_length nth_tl unat_eq_0)
qed

text \<open>What the colour sequence does: each part leaves the terminal inside the sequence.\<close>

lemma color_parts:
  assumes t: "t_parse t = Csi ps cur"
  shows "tty_run R C (chars '';3'' @ [sercon_cmap ! unat (v AND 7)]) t = t\<lparr>t_parse := Csi (ps @ [cur]) (30 + ansi_color v)\<rparr>"
    "tty_run R C (chars '';4'' @ [sercon_cmap ! unat (v AND 7)]) t = t\<lparr>t_parse := Csi (ps @ [cur]) (40 + ansi_color v)\<rparr>"
    "tty_run R C (chars '';1'') t = t\<lparr>t_parse := Csi (ps @ [cur]) 1\<rparr>"
  using t cmap_color(2) [of v]
  by (simp_all add: chars_def tty_step_digit [OF _ cmap_color(1)] tty_step_digit [of _ _ _ "0x33" 3]
      tty_step_digit [of _ _ _ "0x34" 4] tty_step_digit [of _ _ _ "0x31" 1])

lemma sgr_simps:
  "sgr 0 a = (7, 0, False)" "sgr 1 (fg, bg, bold) = (fg, bg, True)"
  "sgr (Suc 0) (fg, bg, bold) = (fg, bg, True)"
  "n < 8 \<Longrightarrow> sgr (30 + n) (fg, bg, bold) = (n, bg, bold)" "n < 8 \<Longrightarrow> sgr (40 + n) (fg, bg, bold) = (fg, n, bold)"
  by (auto simp: sgr_def split: prod.splits)

definition in_sgr :: "tty \<Rightarrow> tty \<Rightarrow> tty_attr \<Rightarrow> bool" where
  "in_sgr t u a \<longleftrightarrow> (\<exists>ps cur. u = t\<lparr>t_parse := Csi ps cur\<rparr> \<and> fold sgr (ps @ [cur]) (t_attr t) = a)"

lemma in_sgr_parts:
  assumes "in_sgr t u (fg, bg, bold)"
  shows "in_sgr t (tty_run R C (chars '';3'' @ [sercon_cmap ! unat (v AND 7)]) u) (ansi_color v, bg, bold)"
    "in_sgr t (tty_run R C (chars '';4'' @ [sercon_cmap ! unat (v AND 7)]) u) (fg, ansi_color v, bold)"
    "in_sgr t (tty_run R C (chars '';1'') u) (fg, bg, True)"
    "tty_run R C (chars ''m'') u = t\<lparr>t_parse := Ground, t_attr := (fg, bg, bold)\<rparr>"
proof -
  obtain ps cur where u: "u = t\<lparr>t_parse := Csi ps cur\<rparr>" "fold sgr (ps @ [cur]) (t_attr t) = (fg, bg, bold)"
    using assms unfolding in_sgr_def by blast
  then have p: "t_parse u = Csi ps cur" by simp
  note c1 = color_parts(1) [OF p, of R C v] and c2 = color_parts(2) [OF p, of R C v]
    and c3 = color_parts(3) [OF p, of R C] and f = u(2)
  show "in_sgr t (tty_run R C (chars '';3'' @ [sercon_cmap ! unat (v AND 7)]) u) (ansi_color v, bg, bold)"
    unfolding in_sgr_def c1 by (rule exI [of _ "ps @ [cur]"], rule exI [of _ "30 + ansi_color v"])
      (use f cmap_color(2) [of v] in \<open>simp add: u(1) sgr_simps\<close>)
  show "in_sgr t (tty_run R C (chars '';4'' @ [sercon_cmap ! unat (v AND 7)]) u) (fg, ansi_color v, bold)"
    unfolding in_sgr_def c2 by (rule exI [of _ "ps @ [cur]"], rule exI [of _ "40 + ansi_color v"])
      (use f cmap_color(2) [of v] in \<open>simp add: u(1) sgr_simps\<close>)
  show "in_sgr t (tty_run R C (chars '';1'') u) (fg, bg, True)"
    unfolding in_sgr_def c3 by (rule exI [of _ "ps @ [cur]"], rule exI [of _ 1]) (use f in \<open>simp add: u(1) sgr_simps\<close>)
  show "tty_run R C (chars ''m'') u = t\<lparr>t_parse := Ground, t_attr := (fg, bg, bold)\<rparr>"
    using f by (simp add: chars_def u(1) csi_end_def)
qed

lemma color_default:
  "a AND 7 = 7 \<Longrightarrow> ansi_color a = 7" "a AND 7 = 0 \<Longrightarrow> ansi_color a = 0" "a AND 8 \<noteq> 0 \<longleftrightarrow> bit a 3" for a :: u8
proof -
  have b: "bit (a AND 7) n = bit a n" if "n < 3" for n
    using that by (auto simp: bit_simps bit_numeral_rec less_Suc_eq numeral_3_eq_3)
  show "ansi_color a = 7" if "a AND 7 = 7"
    using b [of 0] b [of 1] b [of 2] unfolding that by (simp add: ansi_color_def bit_numeral_rec)
  show "ansi_color a = 0" if "a AND 7 = 0"
    using b [of 0] b [of 1] b [of 2] unfolding that by (simp add: ansi_color_def)
  show "a AND 8 \<noteq> 0 \<longleftrightarrow> bit a 3" using and_exp_eq_0_iff_not_bit [of a 3] by simp
qed

lemma color_run:
  assumes t: "t_parse t = Ground"
  shows "tty_run R C (color_seq (a AND 7) (drop_bit 4 a AND 7) (a AND 8)) t = t\<lparr>t_attr := attr_view a\<rparr>"
proof -
  define b where "b = drop_bit 4 a"
  define u1 where "u1 = tty_run R C ([ESC] @ chars ''[0'') t"
  define u2 where "u2 = tty_run R C (if a AND 7 \<noteq> 7 then chars '';3'' @ [sercon_cmap ! unat (a AND 7)] else []) u1"
  define u3 where "u3 = tty_run R C (if b AND 7 \<noteq> 0 then chars '';4'' @ [sercon_cmap ! unat (b AND 7)] else []) u2"
  define u4 where "u4 = tty_run R C (if a AND 8 \<noteq> 0 then chars '';1'' else []) u3"
  have "u1 = t\<lparr>t_parse := Csi [] 0\<rparr>"
    using t by (simp add: u1_def ESC_def chars_def tty_step_digit [of _ _ _ "0x30" 0])
  then have "in_sgr t u1 (7, 0, False)"
    unfolding in_sgr_def by (intro exI [of _ "[]"] exI [of _ 0]) (simp add: sgr_simps)
  then have "in_sgr t u2 (ansi_color a, 0, False)"
    unfolding u2_def using in_sgr_parts(1) color_default(1) [of a] by (cases "a AND 7 = 7") auto
  then have "in_sgr t u3 (ansi_color a, ansi_color b, False)"
    unfolding u3_def using in_sgr_parts(2) color_default(2) [of b] by (cases "b AND 7 = 0") auto
  then have "in_sgr t u4 (ansi_color a, ansi_color b, bit a 3)"
    unfolding u4_def using in_sgr_parts(3) color_default(3) [of a] by (cases "bit a 3") auto
  note m = in_sgr_parts(4) [OF this, of R C]
  have i: "(a AND 7) AND 7 = a AND 7" "(b AND 7) AND 7 = b AND 7" by (simp_all add: and.assoc)
  have "tty_run R C (color_seq (a AND 7) (b AND 7) (a AND 8)) t = tty_run R C (chars ''m'') u4"
    unfolding u4_def u3_def u2_def u1_def color_seq_def fold_append comp_apply i ..
  also have "\<dots> = t\<lparr>t_attr := attr_view a\<rparr>" unfolding m attr_view_def b_def using t by simp
  finally show ?thesis unfolding b_def .
qed

section \<open>The flush\<close>

lemma lf_run:
  "t_parse t = Ground \<Longrightarrow> t_row t + n < R \<Longrightarrow> tty_run R C (replicate n 0x0a) t = t\<lparr>t_row := t_row t + n\<rparr>"
  by (induction n arbitrary: t) (simp_all add: tty_lf_def)

lemma sync_run:
  assumes t: "t_parse t = Ground" "t_row t = unat row0" "t_col t = min (unat col0) (C - 1)"
    and rc: "unat row < R" "unat col < C" "R \<le> 99" "C \<le> 99"
  shows "tty_run R C (sync_bytes row col row0 col0) t = t\<lparr>t_row := unat row, t_col := unat col\<rparr>"
proof -
  consider (same) "row0 = row" "col0 = col" | (cr) "\<not> (row0 = row \<and> col0 = col)" "col = 0" "row0 \<le> row"
    | (goto) "\<not> (row0 = row \<and> col0 = col)" "\<not> (col = 0 \<and> row0 \<le> row)" by blast
  then show ?thesis
  proof cases
    case same
    then show ?thesis using t rc by (simp add: sync_bytes_def)
  next
    case cr
    define u where "u = t\<lparr>t_col := 0\<rparr>"
    have "unat row0 \<le> unat row" using cr(3) by (simp add: word_le_nat_alt)
    moreover have "tty_run R C (if col0 \<noteq> 0 then [0x0d] else []) t = u" using t by (simp add: u_def)
    moreover have "t_parse u = Ground" "t_row u = unat row0" using t by (simp_all add: u_def)
    moreover have "sync_bytes row col row0 col0 = (if col0 \<noteq> 0 then [0x0d] else []) @ replicate (unat row - unat row0) 0x0a"
      using cr by (auto simp: sync_bytes_def)
    ultimately have "tty_run R C (sync_bytes row col row0 col0) t = u\<lparr>t_row := unat row\<rparr>"
      using rc(1) lf_run [of u "unat row - unat row0" R C] by (simp only: fold_append comp_apply) simp
    then show ?thesis using cr(2) by (simp add: u_def)
  next
    case goto
    then have "sync_bytes row col row0 col0 = goto_seq row col" by (auto simp: sync_bytes_def)
    then show ?thesis using goto_run [OF t(1) rc] by simp
  qed
qed

text \<open>The terminal is where the console believes it to be, and in the colours it believes.\<close>

definition tty_in_sync :: "sercon_state \<Rightarrow> tty \<Rightarrow> bool" where
  "tty_in_sync st t \<longleftrightarrow> t_parse t = Ground \<and> t_row t = unat (sercon_row_last st) \<and> t_col t = unat (sercon_col_last st) \<and>
     t_attr t = attr_view (sercon_attr_last st)"

definition cells_after :: "sercon_state \<Rightarrow> tty \<Rightarrow> nat \<Rightarrow> nat \<Rightarrow> nat \<times> tty_attr" where
  "cells_after st t =
     (if sercon_char st = 0 then t_cells t
      else (t_cells t)(t_row t := (t_cells t (t_row t))
        (t_col t := (unat (cp437_to_unicode (sercon_char st)), attr_view (sercon_attr st)))))"

lemma char_run:
  assumes "tty_in_sync st t"
  shows "tty_run R C (char_bytes st) t =
    (if sercon_char st = 0 then t
     else tty_put C (unat (cp437_to_unicode (sercon_char st))) (t\<lparr>t_attr := attr_view (sercon_attr st)\<rparr>))"
proof -
  have g: "t_parse t = Ground" using assms by (simp add: tty_in_sync_def)
  have "t = t\<lparr>t_attr := attr_view (sercon_attr_last st)\<rparr>" using assms by (simp add: tty_in_sync_def)
  then have "tty_run R C (if sercon_attr st = sercon_attr_last st then []
      else color_seq (sercon_attr st AND 7) (drop_bit 4 (sercon_attr st) AND 7) (sercon_attr st AND 0x08)) t =
      t\<lparr>t_attr := attr_view (sercon_attr st)\<rparr>"
    using color_run [OF g] by simp
  then show ?thesis
    using g utf8_run [of "t\<lparr>t_attr := attr_view (sercon_attr st)\<rparr>"] cp437_printable
    by (simp add: char_bytes_def)
qed

lemma flush_run:
  assumes s: "tty_in_sync st t" and last: "unat (sercon_col_last st) < C"
    and rc: "unat (cursor_pos_row st) < R" "unat (cursor_pos_col st) < C" "R \<le> 99" "C \<le> 99"
  shows "tty_run R C (flush_bytes st) t = t\<lparr>t_row := unat (cursor_pos_row st), t_col := unat (cursor_pos_col st),
    t_attr := attr_view (if sercon_char st = 0 then sercon_attr_last st else sercon_attr st), t_cells := cells_after st t\<rparr>"
proof -
  define u where "u = tty_run R C (char_bytes st) t"
  have c: "unat (sercon_col_last st + 1) = unat (sercon_col_last st) + 1" using last rc(4) by (simp add: unat_add_small)
  have "t_parse u = Ground" "t_row u = unat (sercon_row_last st)" "t_col u = min (unat (col_after st)) (C - 1)"
    using s last c by (simp_all add: u_def char_run col_after_def tty_put_def tty_in_sync_def)
  note y = sync_run [OF this rc]
  have a: "t_attr t = attr_view (sercon_attr_last st)" "t_parse t = Ground" using s by (simp_all add: tty_in_sync_def)
  show ?thesis
    unfolding flush_bytes_def fold_append comp_apply u_def [symmetric] y
    using a by (simp add: u_def char_run [OF s] tty_put_def cells_after_def)
qed

text \<open>The flush against the terminal: what it sends, and the state it leaves.\<close>

lemma flush_shows:
  assumes "ready_port dev (sercon_port st)" "tty_in_sync st t" "unat (sercon_col_last st) < C"
    "unat (cursor_pos_row st) < R" "unat (cursor_pos_col st) < C" "R \<le> 99" "C \<le> 99"
  obtains bs st' where "sercon_lazy_flush dev st = Some st'"
    "written (sercon_port st) (io_log st') = written (sercon_port st) (io_log st) @ bs"
    "tty_in_sync st' (tty_run R C bs t)" "t_cells (tty_run R C bs t) = cells_after st t"
    "sercon_row_last st' = cursor_pos_row st" "sercon_col_last st' = cursor_pos_col st" "sercon_char st' = 0"
    "sercon_attr st' = 7" "io_clock st' = io_clock st" "sercon_port st' = sercon_port st" "sercon_split st' = sercon_split st"
proof -
  define st' where "st' = (sent dev (flush_bytes st) st)
      \<lparr>sercon_attr_last := (if sercon_char st = 0 then sercon_attr_last st else sercon_attr st),
       sercon_row_last := cursor_pos_row st, sercon_col_last := cursor_pos_col st, sercon_attr := 0x07, sercon_char := 0\<rparr>"
  have "t_parse t = Ground" using assms(2) by (simp add: tty_in_sync_def)
  then have "tty_in_sync st' (tty_run R C (flush_bytes st) t)" "t_cells (tty_run R C (flush_bytes st) t) = cells_after st t"
    unfolding flush_run [OF assms(2-)] by (simp_all add: st'_def tty_in_sync_def)
  then show ?thesis
    using that [of st' "flush_bytes st"] flush_ready [OF assms(1)] by (simp add: st'_def)
qed

section \<open>Teletype output\<close>

lemma segoff_bytes: "ucast (drop_bit 8 (push_bit 8 (ucast r) OR ucast c :: u16) AND 0xff) = (r :: u8)"
  "ucast ((push_bit 8 (ucast r) OR ucast c :: u16) AND 0xff) = (c :: u8)"
proof -
  have m: "(0xff :: u16) = mask 8" by (simp add: mask_eq_exp_minus_1)
  show "ucast (drop_bit 8 (push_bit 8 (ucast r) OR ucast c :: u16) AND 0xff) = r"
    "ucast ((push_bit 8 (ucast r) OR ucast c :: u16) AND 0xff) = c"
    unfolding m by (rule bit_word_eqI, auto simp: bit_simps min_def dest: bit_imp_le_length)+
qed

lemma video_bda_flat: "bda_at bda_video_cols = 0x44a" "bda_at bda_cursor_pos = 0x450" "bda_at bda_video_rows = 0x484"
  by (simp_all add: video_bda_defs MAKE_FLATPTR_def SEG_BDA_def)

lemma cursor_set_read [simp]: "cursor_pos_row (cursor_pos_set r c st) = r" "cursor_pos_col (cursor_pos_set r c st) = c"
proof -
  have "get_mem 2 (bda_at bda_cursor_pos) (io_mem (cursor_pos_set r c st)) = (push_bit 8 (ucast r) OR ucast c :: u16)"
    by (simp add: cursor_pos_set_def set_io_mem_def)
  note g = this
  show "cursor_pos_row (cursor_pos_set r c st) = r" "cursor_pos_col (cursor_pos_set r c st) = c"
    by (simp_all only: cursor_pos_row_def cursor_pos_col_def g segoff_bytes)
qed

lemma cursor_set_sel [simp]:
  "video_rows (cursor_pos_set r c st) = video_rows st" "video_cols (cursor_pos_set r c st) = video_cols st"
  "io_log (cursor_pos_set r c st) = io_log st" "sercon_port (cursor_pos_set r c st) = sercon_port st"
  "sercon_split (cursor_pos_set r c st) = sercon_split st" "sercon_char (cursor_pos_set r c st) = sercon_char st"
  "sercon_attr (cursor_pos_set r c st) = sercon_attr st" "sercon_attr_last (cursor_pos_set r c st) = sercon_attr_last st"
  "sercon_row_last (cursor_pos_set r c st) = sercon_row_last st" "sercon_col_last (cursor_pos_set r c st) = sercon_col_last st"
  by (simp_all add: cursor_pos_set_def set_io_mem_def video_rows_def video_cols_def video_bda_flat apart_at_def)

text \<open>What the screen is to show: the cursor and the cells, with the character that is still held back.\<close>

type_synonym screen = "nat \<times> nat \<times> (nat \<Rightarrow> nat \<Rightarrow> nat \<times> tty_attr)"

definition console_view :: "sercon_state \<Rightarrow> tty \<Rightarrow> screen" where
  "console_view st t = (unat (cursor_pos_row st), unat (cursor_pos_col st), cells_after st t)"

text \<open>The teletype service on such a screen of \<open>R\<close> rows and \<open>C\<close> columns; None where the screen would scroll.\<close>

definition tele_lf :: "nat \<Rightarrow> screen \<Rightarrow> screen option" where
  "tele_lf R = (\<lambda>(r, c, cells). if r + 1 < R then Some (r + 1, c, cells) else None)"

definition tele :: "nat \<Rightarrow> nat \<Rightarrow> u8 \<Rightarrow> screen \<Rightarrow> screen option" where
  "tele R C chr = (\<lambda>(r, c, cells).
     if chr = 7 then Some (r, c, cells)
     else if chr = 8 then Some (r, c - 1, cells)
     else if chr = 0x0d then Some (r, 0, cells)
     else if chr = 0x0a then tele_lf R (r, c, cells)
     else
       let cells1 = cells(r := (cells r)(c := (unat (cp437_to_unicode chr), attr_view 7)))
       in if c + 1 < C then Some (r, c + 1, cells1) else tele_lf R (r, 0, cells1))"

fun teletype :: "nat \<Rightarrow> nat \<Rightarrow> u8 list \<Rightarrow> screen \<Rightarrow> screen option" where
  "teletype R C [] s = Some s"
| "teletype R C (chr # cs) s = do { s1 \<leftarrow> tele R C chr s; teletype R C cs s1 }"

text \<open>A console that is the primary display of \<open>R\<close> rows and \<open>C\<close> columns, in step with its terminal.\<close>

definition console_ok :: "port_dev \<Rightarrow> nat \<Rightarrow> nat \<Rightarrow> sercon_state \<Rightarrow> tty \<Rightarrow> bool" where
  "console_ok dev R C st t \<longleftrightarrow>
     ready_port dev (sercon_port st) \<and> sercon_split st = 0 \<and> sercon_attr st = 7 \<and> tty_in_sync st t \<and>
     unat (video_rows st) = R \<and> unat (video_cols st) = C \<and> 0 < R \<and> R \<le> 99 \<and> 0 < C \<and> C \<le> 99 \<and>
     unat (sercon_col_last st) < C \<and> unat (cursor_pos_row st) < R \<and> unat (cursor_pos_col st) < C"

lemma console_okD:
  assumes "console_ok dev R C st t"
  shows "ready_port dev (sercon_port st)" "sercon_split st = 0" "sercon_attr st = 7" "tty_in_sync st t"
    "unat (video_rows st) = R" "unat (video_cols st) = C" "R \<le> 99" "C \<le> 99" "unat (sercon_col_last st) < C"
    "unat (cursor_pos_row st) < R" "unat (cursor_pos_col st) < C"
  using assms by (simp_all add: console_ok_def)

lemma video_same: "io_clock st' = io_clock st \<Longrightarrow> cursor_pos_row st' = cursor_pos_row st \<and>
    cursor_pos_col st' = cursor_pos_col st \<and> video_rows st' = video_rows st \<and> video_cols st' = video_cols st"
  by (simp add: cursor_pos_row_def cursor_pos_col_def video_rows_def video_cols_def)

lemma flush_console:
  assumes k: "console_ok dev R C st t"
  obtains bs st' where "sercon_lazy_flush dev st = Some st'"
    "written (sercon_port st) (io_log st') = written (sercon_port st) (io_log st) @ bs"
    "console_ok dev R C st' (tty_run R C bs t)" "console_view st' (tty_run R C bs t) = console_view st t"
    "sercon_char st' = 0" "sercon_row_last st' = cursor_pos_row st'" "sercon_col_last st' = cursor_pos_col st'"
    "sercon_port st' = sercon_port st"
proof -
  note d = console_okD [OF k]
  obtain bs st' where f: "sercon_lazy_flush dev st = Some st'"
      "written (sercon_port st) (io_log st') = written (sercon_port st) (io_log st) @ bs"
      "tty_in_sync st' (tty_run R C bs t)" "t_cells (tty_run R C bs t) = cells_after st t"
      "sercon_row_last st' = cursor_pos_row st" "sercon_col_last st' = cursor_pos_col st" "sercon_char st' = 0"
      "sercon_attr st' = 7" "io_clock st' = io_clock st" "sercon_port st' = sercon_port st" "sercon_split st' = sercon_split st"
    using flush_shows [OF d(1,4,9,10,11,7,8)] by metis
  have "console_ok dev R C st' (tty_run R C bs t)"
    using k f video_same [OF f(9)] by (simp add: console_ok_def)
  moreover have "console_view st' (tty_run R C bs t) = console_view st t"
    using f(4,7) video_same [OF f(9)] by (simp add: console_view_def cells_after_def)
  ultimately show ?thesis using that [OF f(1,2)] f(5-7,10) video_same [OF f(9)] by simp
qed

lemma cursor_move:
  assumes "console_ok dev R C st t" "unat r < R" "unat c < C"
  shows "console_ok dev R C (sercon_cursor_pos_set r c st) t"
    "console_view (sercon_cursor_pos_set r c st) t = (unat r, unat c, cells_after st t)"
  using assms
  by (simp_all add: console_ok_def sercon_cursor_pos_set_def sercon_splitmode_def tty_in_sync_def console_view_def cells_after_def)

lemma cr_console:
  assumes "console_ok dev R C st t" "console_view st t = (r, c, cells)"
  shows "console_ok dev R C (sercon_lazy_cr st) t" "console_view (sercon_lazy_cr st) t = (r, 0, cells)"
  using cursor_move [OF assms(1), of "cursor_pos_row st" 0] console_okD(10) [OF assms(1)] assms
  by (auto simp: sercon_lazy_cr_def console_view_def console_ok_def)

lemma lf_console:
  assumes k: "console_ok dev R C st t" and v: "tele_lf R (console_view st t) = Some v"
  shows "console_ok dev R C (sercon_lazy_lf st) t" "console_view (sercon_lazy_lf st) t = v"
proof -
  note d = console_okD [OF k]
  have r: "unat (cursor_pos_row st) + 1 < R" and v: "v = (unat (cursor_pos_row st) + 1, unat (cursor_pos_col st), cells_after st t)"
    using v by (auto simp: tele_lf_def console_view_def split: if_splits)
  have u: "unat (cursor_pos_row st + 1) = unat (cursor_pos_row st) + 1" using r d(7) by (simp add: unat_add_small)
  then have "\<not> video_rows st \<le> cursor_pos_row st + 1" using r d(5) by (simp add: word_le_nat_alt)
  then have "sercon_lazy_lf st = sercon_cursor_pos_set (cursor_pos_row st + 1) (cursor_pos_col st) st"
    by (simp add: sercon_lazy_lf_def Let_def)
  then show "console_ok dev R C (sercon_lazy_lf st) t" "console_view (sercon_lazy_lf st) t = v"
    using cursor_move [OF k, of "cursor_pos_row st + 1" "cursor_pos_col st"] u r d(11) v by simp_all
qed

lemma put_console:
  assumes k: "console_ok dev R C st t" and at: "cursor_pos_row st = sercon_row_last st" "cursor_pos_col st = sercon_col_last st"
    and chr: "chr \<noteq> 0" "chr \<notin> {7, 8, 0x0d, 0x0a}" and v: "tele R C chr (console_view st t) = Some v"
  shows "console_ok dev R C (sercon_lazy_move_cursor (st\<lparr>sercon_char := chr\<rparr>)) t"
    "console_view (sercon_lazy_move_cursor (st\<lparr>sercon_char := chr\<rparr>)) t = v"
proof -
  note d = console_okD [OF k]
  define st2 where "st2 = st\<lparr>sercon_char := chr\<rparr>"
  have vid: "video_rows st2 = video_rows st" "video_cols st2 = video_cols st" "cursor_pos_row st2 = cursor_pos_row st"
      "cursor_pos_col st2 = cursor_pos_col st" by (simp_all add: st2_def)
  have t: "t_row t = unat (cursor_pos_row st)" "t_col t = unat (cursor_pos_col st)"
    using d(4) at by (simp_all add: tty_in_sync_def)
  let ?r = "unat (cursor_pos_row st)" and ?c = "unat (cursor_pos_col st)"
  define cells where "cells = (cells_after st t)(?r := (cells_after st t ?r)(?c := (unat (cp437_to_unicode chr), attr_view 7)))"
  have cells: "cells_after st2 t = cells" using chr(1) d(3) t by (simp add: st2_def cells_def cells_after_def)
  have k2: "console_ok dev R C st2 t" using k by (simp add: console_ok_def tty_in_sync_def st2_def)
  have v: "(if ?c + 1 < C then Some (?r, ?c + 1, cells) else tele_lf R (?r, 0, cells)) = Some v"
    using v chr(2) by (auto simp: tele_def console_view_def cells_def Let_def split: if_splits)
  have u: "unat (cursor_pos_col st + 1) = ?c + 1" using d(8,11) by (simp add: unat_add_small)
  have le: "video_cols st \<le> cursor_pos_col st + 1 \<longleftrightarrow> C \<le> ?c + 1" unfolding word_le_nat_alt u d(6) ..
  have view2: "console_view st2 t = (?r, ?c, cells)" by (simp add: console_view_def vid cells)
  have "console_ok dev R C (sercon_lazy_move_cursor st2) t \<and> console_view (sercon_lazy_move_cursor st2) t = v"
  proof (cases "?c + 1 < C")
    case True
    then have "sercon_lazy_move_cursor st2 = sercon_cursor_pos_set (cursor_pos_row st) (cursor_pos_col st + 1) st2"
      using le by (simp add: sercon_lazy_move_cursor_def Let_def vid)
    then show "console_ok dev R C (sercon_lazy_move_cursor st2) t \<and> console_view (sercon_lazy_move_cursor st2) t = v"
      using cursor_move [OF k2, of "cursor_pos_row st" "cursor_pos_col st + 1"] True d(10) u v cells by simp
  next
    case False
    then have "sercon_lazy_move_cursor st2 = sercon_lazy_lf (sercon_lazy_cr st2)"
      using le by (simp add: sercon_lazy_move_cursor_def Let_def vid)
    then show "console_ok dev R C (sercon_lazy_move_cursor st2) t \<and> console_view (sercon_lazy_move_cursor st2) t = v"
      using lf_console [OF cr_console(1) [OF k2 view2]] cr_console(2) [OF k2 view2] False v by simp
  qed
  then show "console_ok dev R C (sercon_lazy_move_cursor (st\<lparr>sercon_char := chr\<rparr>)) t"
    "console_view (sercon_lazy_move_cursor (st\<lparr>sercon_char := chr\<rparr>)) t = v"
    by (simp_all add: st2_def)
qed

definition console_does :: "port_dev \<Rightarrow> nat \<Rightarrow> nat \<Rightarrow> sercon_state \<Rightarrow> tty \<Rightarrow> sercon_state option \<Rightarrow> screen \<Rightarrow> bool" where
  "console_does dev R C st t r v \<longleftrightarrow>
     (\<exists>bs st'. r = Some st' \<and> written (sercon_port st) (io_log st') = written (sercon_port st) (io_log st) @ bs \<and>
        sercon_port st' = sercon_port st \<and> console_ok dev R C st' (tty_run R C bs t) \<and>
        console_view st' (tty_run R C bs t) = v)"

lemma console_log [simp]:
  "cells_after (io_log_update f st) t = cells_after st t" "console_view (io_log_update f st) t = console_view st t"
  "console_ok dev R C (io_log_update f st) t = console_ok dev R C st t"
  by (simp_all add: cells_after_def console_view_def console_ok_def tty_in_sync_def)

lemma console_doesI:
  assumes "r = Some st'" "written (sercon_port st) (io_log st') = written (sercon_port st) (io_log st) @ bs"
    "sercon_port st' = sercon_port st" "console_ok dev R C st' (tty_run R C bs t)" "console_view st' (tty_run R C bs t) = v"
  shows "console_does dev R C st t r v"
  using assms unfolding console_does_def by blast

lemma quiet_sel [simp]:
  "io_log (sercon_lazy_cr st) = io_log st" "sercon_port (sercon_lazy_cr st) = sercon_port st"
  "io_log (sercon_lazy_lf st) = io_log st" "sercon_port (sercon_lazy_lf st) = sercon_port st"
  "io_log (sercon_lazy_move_cursor st) = io_log st" "sercon_port (sercon_lazy_move_cursor st) = sercon_port st"
  by (simp_all add: sercon_lazy_move_cursor_def sercon_lazy_cr_def sercon_lazy_lf_def sercon_cursor_pos_set_def Let_def)

lemma put_does:
  assumes k: "console_ok dev R C st t" and chr: "chr \<noteq> 0" "chr \<notin> {7, 8, 0x0d, 0x0a}"
    and v: "tele R C chr (console_view st t) = Some v"
  shows "console_does dev R C st t (sercon_lazy_putchar dev chr a True st) v"
proof (cases "cursor_pos_row st = sercon_row_last st \<and> cursor_pos_col st = sercon_col_last st")
  case True
  have "sercon_lazy_putchar dev chr a True st = Some (sercon_lazy_move_cursor (st\<lparr>sercon_char := chr\<rparr>))"
    using True by (simp add: sercon_lazy_putchar_def Let_def)
  then show ?thesis
    by (rule console_doesI [where bs = "[]"]) (use put_console [OF k _ _ chr v] True in simp_all)
next
  case False
  obtain bs st1 where f: "sercon_lazy_flush dev st = Some st1"
      "written (sercon_port st) (io_log st1) = written (sercon_port st) (io_log st) @ bs"
      "console_ok dev R C st1 (tty_run R C bs t)" "console_view st1 (tty_run R C bs t) = console_view st t"
      "sercon_char st1 = 0" "sercon_row_last st1 = cursor_pos_row st1" "sercon_col_last st1 = cursor_pos_col st1"
      "sercon_port st1 = sercon_port st"
    using flush_console [OF k] by metis
  have "sercon_lazy_putchar dev chr a True st = Some (sercon_lazy_move_cursor (st1\<lparr>sercon_char := chr\<rparr>))"
    using False f(1) by (simp add: sercon_lazy_putchar_def Let_def)
  then show ?thesis
    by (rule console_doesI [where bs = bs])
      (use put_console [OF f(3) f(6,7) [symmetric] chr] v f(2,4,8) in simp_all)
qed

lemma backspace_does:
  assumes k: "console_ok dev R C st t" and v: "tele R C 8 (console_view st t) = Some v"
  shows "console_does dev R C st t (sercon_lazy_backspace dev st) v"
proof -
  obtain bs st1 where f: "sercon_lazy_flush dev st = Some st1"
      "written (sercon_port st) (io_log st1) = written (sercon_port st) (io_log st) @ bs"
      "console_ok dev R C st1 (tty_run R C bs t)" "console_view st1 (tty_run R C bs t) = console_view st t"
      "sercon_char st1 = 0" "sercon_row_last st1 = cursor_pos_row st1" "sercon_col_last st1 = cursor_pos_col st1"
      "sercon_port st1 = sercon_port st"
    using flush_console [OF k] by metis
  define u where "u = tty_run R C bs t"
  note d = console_okD [OF f(3)]
  have v: "v = (unat (cursor_pos_row st1), unat (cursor_pos_col st1) - 1, cells_after st1 u)"
    using v f(4) by (simp add: tele_def console_view_def u_def)
  show ?thesis
  proof (cases "cursor_pos_col st1 = 0")
    case True
    have "sercon_lazy_backspace dev st = Some st1" using True f(1) by (simp add: sercon_lazy_backspace_def)
    then show ?thesis
      by (rule console_doesI [where bs = bs]) (use f v True in \<open>simp_all add: console_view_def u_def\<close>)
  next
    case False
    define st2 where "st2 = sent dev [8] st1"
    define st3 where "st3 = sercon_lazy_cursor_update (cursor_pos_row st2) (cursor_pos_col st1 - 1) st2"
    have m: "unat (cursor_pos_col st1 - 1) = unat (cursor_pos_col st1) - 1"
      using False by (simp add: unat_minus_one)
    have st3: "st3 = st2\<lparr>io_clock := io_clock st3, sercon_row_last := cursor_pos_row st1, sercon_col_last := cursor_pos_col st1 - 1\<rparr>"
      "cursor_pos_row st3 = cursor_pos_row st1" "cursor_pos_col st3 = cursor_pos_col st1 - 1"
      "video_rows st3 = video_rows st1" "video_cols st3 = video_cols st1"
      using d(2) by (simp_all add: st3_def st2_def sercon_lazy_cursor_update_def sercon_cursor_pos_set_def sercon_splitmode_def)
        (simp add: cursor_pos_set_def set_io_mem_def)
    have b: "tty_run R C (bs @ [8]) t = u\<lparr>t_col := t_col u - 1\<rparr>"
      using d(4) by (simp add: u_def tty_in_sync_def tty_step_def)
    have "sercon_lazy_backspace dev st = Some st3"
      using False f(1) putchar_ready [OF d(1), of 8]
      by (simp add: sercon_lazy_backspace_def word_gt_0 st3_def st2_def Let_def)
    moreover have keep: "sercon_port st3 = sercon_port st1" "sercon_split st3 = sercon_split st1" "sercon_attr st3 = sercon_attr st1"
        "sercon_attr_last st3 = sercon_attr_last st1" "sercon_row_last st3 = cursor_pos_row st1"
        "sercon_col_last st3 = cursor_pos_col st1 - 1" "sercon_char st3 = 0" "io_log st3 = io_log st2"
      by (subst st3(1), use f(5) in \<open>simp add: st2_def\<close>)+
    moreover have "console_ok dev R C st3 (u\<lparr>t_col := t_col u - 1\<rparr>)"
      using f(3,6,7) m st3(2-) keep unfolding u_def [symmetric] by (auto simp: console_ok_def tty_in_sync_def)
    moreover have "written (sercon_port st) (io_log st3) = written (sercon_port st) (io_log st) @ bs @ [8]"
        "sercon_port st3 = sercon_port st"
      using f(2,8) keep by (simp_all add: st2_def written_def)
    moreover have "console_view st3 (u\<lparr>t_col := t_col u - 1\<rparr>) = v"
      using f(5) m keep st3(2-) by (simp add: v console_view_def cells_after_def)
    ultimately show ?thesis unfolding b [symmetric] by (intro console_doesI)
  qed
qed

lemma tele_step:
  assumes k: "console_ok dev R C st t" and chr: "al regs \<noteq> 0" and v: "tele R C (al regs) (console_view st t) = Some v"
  shows "console_does dev R C st t (sercon_100e dev regs st) v"
proof -
  note d = console_okD [OF k]
  consider "al regs = 7" | "al regs = 8" | "al regs = 0x0d" | "al regs = 0x0a" | "al regs \<notin> {7, 8, 0x0d, 0x0a}" by blast
  then show ?thesis
  proof cases
    case 1
    have "tty_run R C [7] t = t" using d(4) by (simp add: tty_step_def tty_in_sync_def)
    then show ?thesis
      using k v 1 putchar_ready [OF d(1), of 7]
      by (intro console_doesI [where bs = "[7]" and st' = "sent dev [7] st"])
        (simp_all add: sercon_100e_def tele_def written_def split: prod.splits)
  next
    case 2
    then show ?thesis using backspace_does [OF k] v by (simp add: sercon_100e_def)
  next
    case 3
    obtain r c cells where w: "console_view st t = (r, c, cells)" by (cases "console_view st t")
    show ?thesis using 3 v w cr_console [OF k w]
      by (intro console_doesI [where bs = "[]"]) (simp_all add: sercon_100e_def tele_def)
  next
    case 4
    then have "tele_lf R (console_view st t) = Some v"
      using v by (cases "console_view st t") (simp add: tele_def)
    then show ?thesis using 4 lf_console [OF k]
      by (intro console_doesI [where bs = "[]"]) (simp_all add: sercon_100e_def)
  next
    case 5
    then show ?thesis using put_does [OF k chr 5 v] by (simp add: sercon_100e_def)
  qed
qed

text \<open>A sequence of calls of interrupt 0x10.\<close>

fun sercon_calls :: "port_dev \<Rightarrow> bregs list \<Rightarrow> sercon_op" where
  "sercon_calls dev [] st = Some st"
| "sercon_calls dev (regs # rs) st = do { (regs1, st1) \<leftarrow> handle_sercon dev regs st; sercon_calls dev rs st1 }"

lemma tele_call: "sercon_port st \<noteq> 0 \<Longrightarrow> ah regs = 0x0e \<Longrightarrow>
    handle_sercon dev regs st = map_option (Pair regs) (sercon_100e dev regs st)"
  by (simp add: handle_sercon_def)

lemma teletype_calls:
  assumes "console_ok dev R C st t" "sercon_port st \<noteq> 0" "\<forall>regs \<in> set rs. ah regs = 0x0e \<and> al regs \<noteq> 0"
    "teletype R C (map al rs) (console_view st t) = Some v"
  shows "console_does dev R C st t (sercon_calls dev rs st) v"
  using assms
proof (induction rs arbitrary: st t)
  case Nil
  then show ?case by (intro console_doesI [where bs = "[]"]) simp_all
next
  case (Cons regs rs)
  obtain w where w: "tele R C (al regs) (console_view st t) = Some w" "teletype R C (map al rs) w = Some v"
    using Cons.prems(4) by (cases "tele R C (al regs) (console_view st t)") simp_all
  obtain bs st1 where s: "sercon_100e dev regs st = Some st1"
      "written (sercon_port st) (io_log st1) = written (sercon_port st) (io_log st) @ bs" "sercon_port st1 = sercon_port st"
      "console_ok dev R C st1 (tty_run R C bs t)" "console_view st1 (tty_run R C bs t) = w"
    using tele_step [OF Cons.prems(1) _ w(1)] Cons.prems(3) unfolding console_does_def by auto
  have "console_does dev R C st1 (tty_run R C bs t) (sercon_calls dev rs st1) v"
    using Cons.IH [OF s(4)] Cons.prems s(3,5) w(2) by simp
  then obtain bs2 st2 where s2: "sercon_calls dev rs st1 = Some st2"
      "written (sercon_port st1) (io_log st2) = written (sercon_port st1) (io_log st1) @ bs2" "sercon_port st2 = sercon_port st1"
      "console_ok dev R C st2 (tty_run R C bs2 (tty_run R C bs t))" "console_view st2 (tty_run R C bs2 (tty_run R C bs t)) = v"
    unfolding console_does_def by blast
  then show ?case
    using s tele_call [OF Cons.prems(2)] Cons.prems(3)
    by (intro console_doesI [where bs = "bs @ bs2" and st' = st2]) simp_all
qed

text \<open>A line feed in the last row scrolls the terminal only when a carriage return goes with it: after a line feed
  alone the flush positions the cursor, and the terminal keeps its lines.\<close>

lemma lf_bottom_no_scroll:
  assumes k: "console_ok dev R C st t" and bottom: "unat (cursor_pos_row st) + 1 = R" "1 < R"
    and at: "sercon_row_last st = cursor_pos_row st" "sercon_col_last st = cursor_pos_col st" "sercon_char st = 0"
    and col: "cursor_pos_col st \<noteq> 0"
  shows "\<exists>st' bs. sercon_lazy_flush dev (sercon_lazy_lf st) = Some st' \<and>
    written (sercon_port st) (io_log st') = written (sercon_port st) (io_log st) @ bs \<and>
    t_cells (tty_run R C bs t) = t_cells t"
proof -
  note d = console_okD [OF k]
  define st1 where "st1 = sercon_lazy_lf st"
  have u: "unat (cursor_pos_row st + 1) = R" using bottom d(7) by (simp add: unat_add_small)
  then have rows: "video_rows st = cursor_pos_row st + 1" using d(5) by (metis word_unat_eq_iff)
  then have "video_rows st - 1 = cursor_pos_row st" by simp
  moreover have "0 < sercon_row_last st" using bottom at(1) by (simp add: word_gt_0 flip: unat_eq_0)
  ultimately have st1: "st1 = sercon_cursor_pos_set (cursor_pos_row st) (cursor_pos_col st)
      (st\<lparr>sercon_row_last := sercon_row_last st - 1\<rparr>)"
    unfolding st1_def sercon_lazy_lf_def Let_def by (simp add: rows)
  have s: "cursor_pos_row st1 = cursor_pos_row st" "cursor_pos_col st1 = cursor_pos_col st" "sercon_char st1 = 0"
      "sercon_port st1 = sercon_port st" "io_log st1 = io_log st" "sercon_row_last st1 = cursor_pos_row st - 1"
      "sercon_col_last st1 = cursor_pos_col st"
    using d(2) at by (simp_all add: st1 sercon_cursor_pos_set_def sercon_splitmode_def)
  have f: "flush_bytes st1 = goto_seq (cursor_pos_row st) (cursor_pos_col st)"
    using s col by (simp add: flush_bytes_def char_bytes_def col_after_def sync_bytes_def)
  have "t_parse t = Ground" using d(4) by (simp add: tty_in_sync_def)
  then have "t_cells (tty_run R C (flush_bytes st1) t) = t_cells t"
    unfolding f using goto_run [OF _ d(10,11,7,8)] by simp
  then show ?thesis
    using flush_ready [of dev st1] d(1) s unfolding st1_def [symmetric] by (auto intro!: exI)
qed

text \<open>C28. Text that is written to the serial console through the teletype service of interrupt 0x10, character by character
  with the output held back between the calls, is what the terminal shows once the console flushes: the cursor
  and every cell are those of a screen on which each character was put at once, line breaks,
  backspaces and the break at the end of a line included. The terminal decodes UTF-8 and control sequences from the
  bytes that the port sends; the text is one that does not scroll.\<close>

theorem sercon_teletype_shows:
  assumes "console_ok dev R C st t" "sercon_port st \<noteq> 0" "\<forall>regs \<in> set rs. ah regs = 0x0e \<and> al regs \<noteq> 0"
    and "teletype R C (map al rs) (console_view st t) = Some (r, c, cells)"
  shows "\<exists>bs st'. Option.bind (sercon_calls dev rs st) (sercon_lazy_flush dev) = Some st' \<and>
    written (sercon_port st) (io_log st') = written (sercon_port st) (io_log st) @ bs \<and>
    t_row (tty_run R C bs t) = r \<and> t_col (tty_run R C bs t) = c \<and> t_cells (tty_run R C bs t) = cells"
proof -
  obtain bs st1 where s: "sercon_calls dev rs st = Some st1"
      "written (sercon_port st) (io_log st1) = written (sercon_port st) (io_log st) @ bs" "sercon_port st1 = sercon_port st"
      "console_ok dev R C st1 (tty_run R C bs t)" "console_view st1 (tty_run R C bs t) = (r, c, cells)"
    using teletype_calls [OF assms] unfolding console_does_def by blast
  obtain bs2 st2 where f: "sercon_lazy_flush dev st1 = Some st2"
      "written (sercon_port st1) (io_log st2) = written (sercon_port st1) (io_log st1) @ bs2"
      "console_ok dev R C st2 (tty_run R C bs2 (tty_run R C bs t))"
      "console_view st2 (tty_run R C bs2 (tty_run R C bs t)) = console_view st1 (tty_run R C bs t)"
      "sercon_char st2 = 0" "sercon_row_last st2 = cursor_pos_row st2" "sercon_col_last st2 = cursor_pos_col st2"
    using flush_console [OF s(4)] by metis
  have "tty_in_sync st2 (tty_run R C (bs @ bs2) t)" using console_okD(4) [OF f(3)] by simp
  moreover have "console_view st2 (tty_run R C (bs @ bs2) t) = (r, c, cells)" using f(4) s(5) by simp
  ultimately have "t_row (tty_run R C (bs @ bs2) t) = r \<and> t_col (tty_run R C (bs @ bs2) t) = c \<and>
      t_cells (tty_run R C (bs @ bs2) t) = cells"
    using f(5-7) by (simp only: tty_in_sync_def console_view_def cells_after_def) simp
  moreover have "written (sercon_port st) (io_log st2) = written (sercon_port st) (io_log st) @ bs @ bs2" using f(2) s(2,3) by simp
  ultimately show ?thesis using s(1) f(1) by (intro exI [of _ "bs @ bs2"] exI [of _ st2]) simp
qed

definition ready_dev :: port_dev where "ready_dev = \<lparr>dev_in = (\<lambda>log p. 0x60)\<rparr>"

definition sercon_sample :: sercon_state where
  "sercon_sample =
     \<lparr>io_clock = \<lparr>cmem = (\<lambda>a. if a = 0x44a then 80 else if a = 0x484 then 24 else 0), rtc_regs = (\<lambda>r. 0), Century = 0,
        RTCusers = 0, FloppyDOR = 0, cevents = []\<rparr>, io_log = [],
      sc_ticks = [], sercon_port = 0x3f8, sercon_split = 0, sercon_enable = 1, sercon_real_vga_handler = 0,
      sercon_attr_last = 7, sercon_col_last = 0, sercon_row_last = 0, sercon_char = 0, sercon_attr = 7,
      rx_buf = replicate 16 0, rx_bytes = 0\<rparr>"

definition tty_blank :: tty where
  "tty_blank = \<lparr>t_parse = Ground, t_row = 0, t_col = 0, t_attr = (7, 0, False), t_cells = (\<lambda>r c. (0x20, (7, 0, False)))\<rparr>"

definition tele_regs :: "u8 list \<Rightarrow> bregs list" where
  "tele_regs cs = map (\<lambda>c. bregs_zero\<lparr>eax := 0x0e00 OR ucast c\<rparr>) cs"

lemma sample_console: "console_ok ready_dev 25 80 sercon_sample tty_blank" "console_view sercon_sample tty_blank = (0, 0, t_cells tty_blank)"
proof -
  have m: "io_mem sercon_sample = (\<lambda>a. if a = 0x44a then 80 else if a = 0x484 then 24 else 0)" by (simp add: sercon_sample_def)
  have "get_mem 2 0x44a (io_mem sercon_sample) = (80 :: u16)" "get_mem 2 0x450 (io_mem sercon_sample) = (0 :: u16)"
    by (simp_all add: m get_mem_def mem_read_def upt_rec)
  then have v: "video_cols sercon_sample = 80" "video_rows sercon_sample = 25" "cursor_pos_row sercon_sample = 0"
      "cursor_pos_col sercon_sample = 0"
    by (simp_all add: video_cols_def video_rows_def cursor_pos_row_def cursor_pos_col_def video_bda_flat m)
  have "attr_view 7 = (7, 0, False)" by (simp add: attr_view_def ansi_color_def bit_numeral_rec)
  then show "console_ok ready_dev 25 80 sercon_sample tty_blank" "console_view sercon_sample tty_blank = (0, 0, t_cells tty_blank)"
    by (simp_all add: console_ok_def console_view_def v cells_after_def tty_in_sync_def)
      (simp_all add: sercon_sample_def tty_blank_def ready_port_def ready_dev_def)
qed

theorem sercon_teletype_shows_witness:
  "\<exists>bs st'. Option.bind (sercon_calls ready_dev (tele_regs [0x48, 0x9b, 0x0d, 0x0a, 0x21]) sercon_sample)
     (sercon_lazy_flush ready_dev) = Some st' \<and>
    written 0x3f8 (io_log st') = bs \<and>
    t_cells (tty_run 25 80 bs tty_blank) 0 0 = (0x48, attr_view 7) \<and>
    t_cells (tty_run 25 80 bs tty_blank) 0 1 = (0xa2, attr_view 7) \<and>
    t_cells (tty_run 25 80 bs tty_blank) 1 0 = (0x21, attr_view 7)"
proof -
  let ?rs = "tele_regs [0x48, 0x9b, 0x0d, 0x0a, 0x21]"
  have al: "map al ?rs = [0x48, 0x9b, 0x0d, 0x0a, 0x21]" "\<forall>regs \<in> set ?rs. ah regs = 0x0e \<and> al regs \<noteq> 0"
    by (simp_all add: tele_regs_def bregs_zero_def rl_def rh_def)
  have cp: "cp437_to_unicode 0x48 = 0x48" "cp437_to_unicode 0x9b = 0xa2" "cp437_to_unicode 0x21 = 0x21"
    by (simp_all add: cp437_to_unicode_def cp437_to_unicode_map_def)
  have p: "sercon_port sercon_sample = 0x3f8" "io_log sercon_sample = []" by (simp_all add: sercon_sample_def)
  obtain r c cells where v: "teletype 25 80 (map al ?rs) (console_view sercon_sample tty_blank) = Some (r, c, cells)"
      "cells 0 0 = (0x48, attr_view 7)" "cells 0 1 = (0xa2, attr_view 7)" "cells 1 0 = (0x21, attr_view 7)"
    unfolding sample_console al by (simp add: tele_def tele_lf_def Let_def cp)
  show ?thesis
    using sercon_teletype_shows [OF sample_console(1) _ al(2) v(1)] v(2-4) by (auto simp: p)
qed

end
