(* ===== verification/SerconInput.thy ===== *)
theory SerconInput
  imports SerconProps "HOL-Library.Sublist"
begin

text \<open>
  The keys of the terminal: the bytes that wait at the port are decoded, and the key codes arrive in the key buffer of
  interrupt 0x16 in their order.
\<close>

section \<open>Sequences\<close>

lemma termseq_prefix_free:
  "(sq, k) \<in> set termseq \<Longrightarrow> (sq1, k1) \<in> set termseq \<Longrightarrow> prefix sq1 sq \<Longrightarrow> sq1 = sq"
  "(sq, k) \<in> set termseq \<Longrightarrow> (sq, k1) \<in> set termseq \<Longrightarrow> k1 = k" "(sq, k) \<in> set termseq \<Longrightarrow> sq \<noteq> []"
proof -
  define seqs where "seqs = map fst termseq"
  have s: "seqs = [[79, 80], [79, 81], [79, 82], [79, 83], [91, 49, 53, 126], [91, 49, 55, 126], [91, 49, 56, 126],
      [91, 49, 57, 126], [91, 50, 48, 126], [91, 50, 49, 126], [91, 50, 51, 126], [91, 50, 52, 126], [91, 50, 126],
      [91, 51, 126], [91, 53, 126], [91, 54, 126], [91, 65], [91, 66], [91, 67], [91, 68], [91, 72], [91, 70]]"
    by (simp add: seqs_def termseq_def chars_def)
  have "list_all (\<lambda>a. list_all (\<lambda>b. prefix a b \<longrightarrow> a = b) seqs) seqs" "distinct seqs" "[] \<notin> set seqs"
    unfolding s by simp_all
  moreover have m: "sq \<in> set seqs" if "(sq, k) \<in> set termseq" for sq k
    using that by (force simp: seqs_def)
  ultimately show "(sq, k) \<in> set termseq \<Longrightarrow> (sq1, k1) \<in> set termseq \<Longrightarrow> prefix sq1 sq \<Longrightarrow> sq1 = sq"
    "(sq, k) \<in> set termseq \<Longrightarrow> sq \<noteq> []"
    unfolding list_all_iff by blast+
  show "(sq, k) \<in> set termseq \<Longrightarrow> (sq, k1) \<in> set termseq \<Longrightarrow> k1 = k"
    using \<open>distinct seqs\<close> eq_key_imp_eq_value unfolding seqs_def by metis
qed

text \<open>The bytes in the receive buffer.\<close>

definition rx_contents :: "sercon_state \<Rightarrow> u8 list" where "rx_contents st = take (unat (rx_bytes st)) (rx_buf st)"

definition rx_ok :: "sercon_state \<Rightarrow> bool" where "rx_ok st \<longleftrightarrow> length (rx_buf st) = 16 \<and> rx_bytes st \<le> 16"

lemma rx_contents_length: "rx_ok st \<Longrightarrow> length (rx_contents st) = unat (rx_bytes st)"
  by (simp add: rx_contents_def rx_ok_def word_le_nat_alt)

lemma cmpbuf_prefix:
  assumes k: "rx_ok st" shows "cmpbuf st sq \<longleftrightarrow> rx_contents st \<noteq> [] \<and> prefix sq (tl (rx_contents st))"
proof -
  let ?b = "rx_contents st"
  have l: "length ?b = unat (rx_bytes st)" "length (rx_buf st) = 16" "unat (rx_bytes st) \<le> 16"
    using rx_contents_length [OF k] k by (simp_all add: rx_ok_def word_le_nat_alt)
  have nth: "tl ?b ! i = rx_buf st ! (i + 1)" if "i + 1 < unat (rx_bytes st)" for i
    using that l by (simp add: nth_tl rx_contents_def)
  have p: "prefix sq (tl ?b) \<longleftrightarrow> length sq \<le> length (tl ?b) \<and> (\<forall>i < length sq. sq ! i = tl ?b ! i)"
    by (auto simp: prefix_def nth_append list_eq_iff_nth_eq intro!: exI [of _ "drop (length sq) (tl ?b)"])
  show ?thesis
    unfolding p cmpbuf_def using l nth by (cases ?b) auto
qed

lemma rx_first: "rx_ok st \<Longrightarrow> rx_contents st = c # cs \<Longrightarrow> rx_buf st ! 0 = c \<and> rx_bytes st \<noteq> 0"
proof -
  assume a: "rx_ok st" "rx_contents st = c # cs"
  then have "0 < unat (rx_bytes st)" using rx_contents_length [OF a(1)] by simp
  then show ?thesis using a(2) nth_take [of 0 "unat (rx_bytes st)" "rx_buf st"] by (auto simp: rx_contents_def)
qed

lemma findseq_hit:
  assumes k: "rx_ok st" and i: "(sq, key) \<in> set termseq" and c: "rx_contents st = 0x1b # sq @ rest"
  shows "find_escape st = Some (sq, key)"
proof -
  have hit: "cmpbuf st sq" using cmpbuf_prefix [OF k] c by simp
  then obtain sq1 k1 where f: "findseq st = Some (sq1, k1)"
    using i unfolding findseq_def by (cases "find (\<lambda>(sq, keycode). cmpbuf st sq) termseq") (auto simp: find_None_iff)
  then have h1: "(sq1, k1) \<in> set termseq" "cmpbuf st sq1"
    unfolding findseq_def find_Some_iff by (auto simp: nth_mem dest: sym)
  then have "prefix sq1 sq \<or> prefix sq sq1"
    using cmpbuf_prefix [OF k] c prefix_same_cases [of sq1 "sq @ rest" sq] by simp
  then have "sq1 = sq" using termseq_prefix_free(1) [OF i h1(1)] termseq_prefix_free(1) [OF h1(1) i] by blast
  then have "findseq st = Some (sq, key)" using f termseq_prefix_free(2) [OF i] h1(1) by simp
  moreover have "1 < unat (rx_bytes st)"
    using rx_contents_length [OF k] c termseq_prefix_free(3) [OF i] by (cases sq) simp_all
  then have "1 < rx_bytes st" by (simp add: word_less_nat_alt)
  moreover have "rx_buf st ! 0 = 0x1b" using rx_first [OF k] c by simp
  ultimately show ?thesis by (simp add: find_escape_def)
qed

section \<open>Taking bytes\<close>

lemma shift_left_nth:
  assumes "0 < r" "m + r \<le> length buf"
  shows "length (shift_left r m buf) = length buf \<and>
    (\<forall>j < length buf. shift_left r m buf ! j = (if j < m then buf ! (j + r) else buf ! j))"
  using assms(2)
proof (induction m)
  case 0
  then show ?case by (simp add: shift_left_def)
next
  case (Suc m)
  have s: "shift_left r (Suc m) buf = (shift_left r m buf)[m := shift_left r m buf ! (m + r)]"
    by (simp add: shift_left_def)
  then show ?case using Suc assms(1) by (auto simp: nth_list_update less_Suc_eq)
qed

lemma shiftbuf_contents:
  assumes k: "rx_ok st" and r: "0 < r" "r \<le> unat (rx_bytes st)"
  shows "rx_contents (shiftbuf r st) = drop r (rx_contents st)" "rx_ok (shiftbuf r st)"
    "io_clock (shiftbuf r st) = io_clock st" "unat (rx_bytes (shiftbuf r st)) = unat (rx_bytes st) - r"
proof -
  let ?m = "unat (rx_bytes st) - r"
  have b: "unat (rx_bytes st) \<le> 16" "length (rx_buf st) = 16" using k by (simp_all add: rx_ok_def word_le_nat_alt)
  have m: "unat (of_nat ?m :: u8) = ?m" unfolding unat_of_nat using b by simp
  note n = shift_left_nth [OF r(1), of ?m "rx_buf st"]
  show "rx_contents (shiftbuf r st) = drop r (rx_contents st)"
    using n b m r by (intro nth_equalityI) (auto simp: rx_contents_def shiftbuf_def Let_def add.commute)
  show "rx_ok (shiftbuf r st)" "io_clock (shiftbuf r st) = io_clock st" "unat (rx_bytes (shiftbuf r st)) = ?m"
    using n b m r by (simp_all add: rx_ok_def shiftbuf_def Let_def word_le_nat_alt)
qed

lemma enqueue_sel [simp]:
  "rx_contents (sercon_enqueue k st) = rx_contents st" "rx_ok (sercon_enqueue k st) = rx_ok st"
  "rx_buf (sercon_enqueue k st) = rx_buf st" "rx_bytes (sercon_enqueue k st) = rx_bytes st"
  by (simp_all add: sercon_enqueue_def set_io_mem_def rx_contents_def rx_ok_def)

section \<open>Decoding\<close>

text \<open>A key of the terminal: one of the sequences it knows, or a plain character.\<close>

datatype terminal_key = Special "u8 list" u16 | Plain u8

primrec key_bytes :: "terminal_key \<Rightarrow> u8 list" where
  "key_bytes (Special sq k) = 0x1b # sq"
| "key_bytes (Plain c) = [c]"

primrec key_known :: "terminal_key \<Rightarrow> bool" where
  "key_known (Special sq k) \<longleftrightarrow> (sq, k) \<in> set termseq"
| "key_known (Plain c) \<longleftrightarrow> c \<noteq> 0x1b"

primrec key_codes :: "terminal_key \<Rightarrow> u16 list" where
  "key_codes (Special sq k) = [k]"
| "key_codes (Plain c) = (if ascii_to_keycode c \<noteq> 0 then [ascii_to_keycode c] else [])"

abbreviation enqueue_all :: "u16 list \<Rightarrow> mem \<Rightarrow> mem" where
  "enqueue_all ks \<equiv> fold (\<lambda>k. on_bda_window (\<lambda>m. snd (enqueue_key k m))) ks"

lemma enqueue_mem [simp]:
  "io_mem (sercon_enqueue k st) = on_bda_window (\<lambda>m. snd (enqueue_key k m)) (io_mem st)"
  by (simp add: sercon_enqueue_def set_io_mem_def)

lemma decode_keys:
  assumes "rx_ok st" "\<forall>k \<in> set ks. key_known k" "rx_contents st = concat (map key_bytes ks)"
  shows "rx_bytes (rx_decode count st) = 0 \<and> io_mem (rx_decode count st) = enqueue_all (concat (map key_codes ks)) (io_mem st)"
  using assms
proof (induction ks arbitrary: st)
  case Nil
  then have "rx_bytes st = 0" using rx_contents_length [OF Nil(1)] by (simp add: unat_eq_0)
  then show ?case by (subst rx_decode.simps, subst rx_decode.simps) simp
next
  case (Cons key ks)
  let ?rest = "concat (map key_bytes ks)"
  have len: "length (rx_contents st) = unat (rx_bytes st)" using rx_contents_length [OF Cons.prems(1)] .
  show ?case
  proof (cases key)
    case (Special sq k)
    have b: "rx_contents st = 0x1b # sq @ ?rest" using Cons.prems(3) Special by simp
    define st1 where "st1 = shiftbuf (length sq + 1) (sercon_enqueue k st)"
    have "find_escape st = Some (sq, k)" using findseq_hit [OF Cons.prems(1) _ b, of k] Cons.prems(2) Special by simp
    then have "rx_decode count st = rx_decode count st1"
      using rx_first [OF Cons.prems(1) b] by (subst rx_decode.simps) (simp add: st1_def)
    moreover have "rx_ok st1" "rx_contents st1 = ?rest" "io_mem st1 = io_mem (sercon_enqueue k st)"
      using shiftbuf_contents [of "sercon_enqueue k st" "length sq + 1"] Cons.prems(1) b len by (simp_all add: st1_def)
    ultimately show ?thesis using Cons.IH [of st1] Cons.prems(2) Special by simp
  next
    case (Plain c)
    have b: "rx_contents st = c # ?rest" "c \<noteq> 0x1b" using Cons.prems(2,3) Plain by simp_all
    have f: "rx_buf st ! 0 = c" "rx_bytes st \<noteq> 0" using rx_first [OF Cons.prems(1) b(1)] by simp_all
    have "rx_decode count st = rx_decode count (sercon_single st)"
      using f b(2) by (subst rx_decode.simps) (simp add: find_escape_def)
    moreover have "rx_ok (sercon_single st)" "rx_contents (sercon_single st) = ?rest"
        "io_mem (sercon_single st) = enqueue_all (key_codes key) (io_mem st)"
      using shiftbuf_contents [of st 1] shiftbuf_contents [of "sercon_enqueue (ascii_to_keycode c) st" 1] Cons.prems(1) b f len Plain
      by (simp_all add: sercon_single_def Let_def)
    ultimately show ?thesis using Cons.IH [of "sercon_single st"] Cons.prems(2) Plain by simp
  qed
qed

section \<open>Reading\<close>

text \<open>A port whose receiver holds \<open>input\<close>: the status says whether there is more, and each read of the data takes one byte.
  It is always ready to send.\<close>

definition data_reads :: "u16 \<Rightarrow> io_event list \<Rightarrow> nat" where
  "data_reads addr log = length (filter (\<lambda>e. case e of In p v \<Rightarrow> p = addr | Out p v \<Rightarrow> False) log)"

definition terminal_port :: "u16 \<Rightarrow> u8 list \<Rightarrow> port_dev" where
  "terminal_port addr input = \<lparr>dev_in = (\<lambda>log p.
     let n = data_reads addr log
     in if p = addr + 5 then (if n < length input then 0x61 else 0x60)
        else if p = addr \<and> n < length input then input ! n else 0)\<rparr>"

lemma port_apart: "(addr :: u16) + 5 \<noteq> addr"
  by simp

lemma data_reads_simps [simp]:
  "data_reads addr (xs @ ys) = data_reads addr xs + data_reads addr ys" "data_reads addr [] = 0"
  "data_reads addr (In p v # xs) = (if p = addr then 1 else 0) + data_reads addr xs"
  "data_reads addr (Out p v # xs) = data_reads addr xs"
  by (simp_all add: data_reads_def)

lemma data_reads_sent [simp]: "data_reads addr (sent_log dev addr cs log) = data_reads addr log"
  by (induction cs arbitrary: log) (simp_all add: data_reads_def)

lemma terminal_port_ready: "ready_port (terminal_port addr input) addr"
  by (simp add: ready_port_def terminal_port_def Let_def)

lemma rx_store_ok:
  assumes k: "rx_ok st" and room: "unat (rx_bytes st) < 16" and st1_def: "st1 = snd (rx_store b (count, st))"
  shows "rx_ok st1" "rx_contents st1 = rx_contents st @ [b]" "unat (rx_bytes st1) = unat (rx_bytes st) + 1"
    "io_mem st1 = io_mem st" "io_log st1 = io_log st"
proof -
  have "rx_bytes st < 16" using room by (simp add: word_less_nat_alt)
  moreover have u: "unat (rx_bytes st + 1) = unat (rx_bytes st) + 1" using room by (simp add: unat_add_small)
  ultimately show "rx_ok st1" "rx_contents st1 = rx_contents st @ [b]" "unat (rx_bytes st1) = unat (rx_bytes st) + 1"
    "io_mem st1 = io_mem st" "io_log st1 = io_log st"
    using k room by (simp_all add: st1_def rx_store_def rx_ok_def rx_contents_def word_le_nat_alt take_Suc_conv_app_nth)
qed

lemma rx_loop_reads:
  assumes "rx_ok st" "n = length input - data_reads addr (io_log st)" "unat (rx_bytes st) + n \<le> 16"
  shows "\<exists>count1 st1. rx_loop (terminal_port addr input) addr count st = Some (count1, st1) \<and> rx_ok st1 \<and>
    rx_contents st1 = rx_contents st @ drop (data_reads addr (io_log st)) input \<and> io_mem st1 = io_mem st"
  using assms
proof (induction n arbitrary: count st)
  case 0
  then show ?case
    by (subst rx_loop.simps) (simp add: terminal_port_def inb_def Let_def SEROFF_LSR_def rx_ok_def rx_contents_def)
next
  case (Suc n)
  let ?dev = "terminal_port addr input" and ?k = "data_reads addr (io_log st)"
  have k: "?k < length input" using Suc.prems(2) by simp
  define st1 where "st1 = snd (inb ?dev (addr + SEROFF_LSR) st)"
  define st2 where "st2 = snd (inb ?dev (addr + SEROFF_DATA) st1)"
  obtain count3 st3 where s3: "rx_store (input ! ?k) (count, st2) = (count3, st3)" by fastforce
  have "fst (inb ?dev (addr + SEROFF_LSR) st) = 0x61" "fst (inb ?dev (addr + SEROFF_DATA) st1) = input ! ?k"
    using k by (simp_all add: st1_def inb_def Let_def terminal_port_def SEROFF_LSR_def SEROFF_DATA_def)
  then have l: "rx_loop ?dev addr count st = rx_loop ?dev addr count3 st3"
    using s3 by (subst rx_loop.simps) (simp add: st1_def st2_def case_prod_beta Let_def)
  have st2: "rx_ok st2" "rx_bytes st2 = rx_bytes st" "rx_contents st2 = rx_contents st" "io_mem st2 = io_mem st"
      "data_reads addr (io_log st2) = ?k + 1"
    using Suc.prems(1) by (simp_all add: st2_def st1_def inb_def Let_def rx_ok_def rx_contents_def SEROFF_LSR_def SEROFF_DATA_def)
  note s = rx_store_ok [of st2 st3 "input ! ?k" count]
  have "\<exists>count1 st1. rx_loop ?dev addr count3 st3 = Some (count1, st1) \<and> rx_ok st1 \<and>
      rx_contents st1 = rx_contents st3 @ drop (data_reads addr (io_log st3)) input \<and> io_mem st1 = io_mem st3"
    by (rule Suc.IH) (use s s3 st2 Suc.prems in simp_all)
  then show ?case using l s s3 st2 Suc.prems(3) k by (simp add: Cons_nth_drop_Suc)
qed

section \<open>The keys in the key buffer\<close>

abbreviation bda_view :: "mem \<Rightarrow> bda_mem" where "bda_view m \<equiv> \<lambda>off. m (0x400 + ucast off)"

lemma bda_view_window [simp]: "bda_view (on_bda_window f m) = f (bda_view m)"
proof
  fix off :: u16
  have u: "unat (0x400 + ucast off :: u32) = 0x400 + unat off"
    using unat_u16_bound [of off] by (subst unat_add_small) (simp_all add: unsigned_ucast_eq take_bit_nat_eq_self)
  then have "(0x400 :: u32) \<le> 0x400 + ucast off" "(0x400 + ucast off :: u32) < 0x10400"
    using unat_u16_bound [of off] by (simp_all add: word_le_nat_alt word_less_nat_alt)
  moreover have "ucast (ucast off :: u32) = off"
    by (rule bit_word_eqI) (auto simp: bit_simps dest: bit_imp_le_length)
  ultimately show "on_bda_window f m (0x400 + ucast off) = f (bda_view m) off"
    by (simp add: on_bda_window_def)
qed

lemma enqueue_all_queue:
  assumes "kbd_wf (bda_view m)" "length (kbd_queue (bda_view m)) + length ks < kbd_slots (bda_view m)"
  shows "kbd_wf (bda_view (enqueue_all ks m)) \<and> kbd_queue (bda_view (enqueue_all ks m)) = kbd_queue (bda_view m) @ ks"
  using assms
proof (induction ks arbitrary: m)
  case Nil
  then show ?case by simp
next
  case (Cons k ks)
  then show ?case using enqueue_room [of "bda_view m" k] by simp
qed

text \<open>C29. Keys pressed on the terminal of the serial console reach the key buffer of interrupt 0x16: when the
  receiver of the port holds the bytes of a sequence of keys (function and cursor keys as escape sequences, or plain characters),
  one check of the port reads them all and appends exactly the key codes of the keys, in order, to the buffer; a
  character without a key code is dropped and no byte is left over. The held-back output is flushed before.\<close>

theorem sercon_keys_arrive:
  assumes port: "sercon_port st = addr" "addr \<noteq> 0" "data_reads addr (io_log st) = 0"
    and rx: "rx_bytes st = 0" "length (rx_buf st) = 16"
    and keys: "\<forall>k \<in> set ks. key_known k" "length (concat (map key_bytes ks)) \<le> 16"
    and buf: "kbd_wf (bda_view (io_mem st))"
      "length (kbd_queue (bda_view (io_mem st))) + length (concat (map key_codes ks)) < kbd_slots (bda_view (io_mem st))"
  shows "\<exists>st1. sercon_check_event (terminal_port addr (concat (map key_bytes ks))) st = Some st1 \<and> rx_bytes st1 = 0 \<and>
    kbd_queue (bda_view (io_mem st1)) = kbd_queue (bda_view (io_mem st)) @ concat (map key_codes ks)"
proof -
  let ?input = "concat (map key_bytes ks)" and ?codes = "concat (map key_codes ks)"
  let ?dev = "terminal_port addr ?input"
  define st0 where "st0 = snd (inb ?dev (addr + SEROFF_LSR) st)"
  have lsr: "fst (inb ?dev (addr + SEROFF_LSR) st) \<noteq> 0xFF"
    by (simp add: inb_def Let_def terminal_port_def SEROFF_LSR_def)
  have s0: "sercon_port st0 = addr" "rx_bytes st0 = 0" "length (rx_buf st0) = 16" "io_mem st0 = io_mem st"
      "data_reads addr (io_log st0) = 0"
    using port(1,3) rx by (simp_all add: st0_def inb_def Let_def SEROFF_LSR_def)
  obtain st2 where f: "sercon_lazy_flush ?dev st0 = Some st2" "rx_bytes st2 = 0" "length (rx_buf st2) = 16"
      "io_mem st2 = io_mem st" "data_reads addr (io_log st2) = 0"
    using flush_ready [of ?dev st0] terminal_port_ready s0 by auto
  have "rx_ok st2" "rx_contents st2 = []" using f by (simp_all add: rx_ok_def rx_contents_def)
  then obtain count st3 where r: "rx_loop ?dev addr 0 st2 = Some (count, st3)" "rx_ok st3" "rx_contents st3 = ?input"
      "io_mem st3 = io_mem st"
    using rx_loop_reads [of st2 _ ?input addr 0] f keys(2) by auto
  note d = decode_keys [OF r(2) keys(1) r(3), of count]
  have "sercon_check_event ?dev st = Some (rx_decode count st3)"
    using port(1,2) lsr f(1) r(1) by (simp add: sercon_check_event_def case_prod_beta Let_def st0_def)
  then show ?thesis using d enqueue_all_queue [OF buf] r(4) by simp
qed

text \<open>F1, the letter A, the cursor key up.\<close>

definition sercon_kbd_sample :: sercon_state where
  "sercon_kbd_sample = set_io_mem (\<lambda>m a. if 0x400 \<le> a \<and> a < 0x10400 then bda kbd_zero (ucast (a - 0x400)) else 0) sercon_sample"

theorem sercon_keys_arrive_witness:
  "\<exists>st1. sercon_check_event (terminal_port 0x3f8 [0x1b, 0x4f, 0x50, 0x41, 0x1b, 0x5b, 0x41]) sercon_kbd_sample = Some st1 \<and>
     rx_bytes st1 = 0 \<and> kbd_queue (bda_view (io_mem st1)) = [0x3b00, 0x1e41, 0x48e0]"
proof -
  let ?ks = "[Special [0x4f, 0x50] 0x3b00, Plain 0x41, Special [0x5b, 0x41] 0x48e0]"
  have v: "bda_view (io_mem sercon_kbd_sample) = bda kbd_zero"
    using bda_view_window [where f = "\<lambda>_. bda kbd_zero" and m = "\<lambda>_. 0"]
    by (simp add: sercon_kbd_sample_def set_io_mem_def on_bda_window_def)
  have ring: "kbd_ring (bda kbd_zero) 0x1e 16 0 0" unfolding kbd_zero_def by (rule kbd_init_ring)
  have "kbd_queue (bda kbd_zero) = []" "kbd_slots (bda kbd_zero) = 16" "kbd_wf (bda kbd_zero)"
    using kbd_ring_queue [OF ring] kbd_ring_wf [OF ring] by (simp_all add: ring_list_def)
  moreover have "ascii_to_keycode 0x41 = 0x1e41" by (simp add: ascii_to_keycode_def scan_to_keycode_def)
  moreover have "\<forall>k \<in> set ?ks. key_known k" by (simp add: termseq_def chars_def)
  ultimately show ?thesis
    using sercon_keys_arrive [where st = sercon_kbd_sample and addr = "0x3f8" and ks = ?ks]
    by (simp add: v) (simp add: sercon_kbd_sample_def set_io_mem_def sercon_sample_def)
qed

text \<open>Two of the sequences have key codes of other keys: those of F11 and F12 decode to shift-F4 and shift-F5 of the
  keyboard's own table, which has 0x8500 and 0x8600 for F11 and F12.\<close>

lemma terminal_f11_is_shift_f4:
  "(chars ''[23~'', shift (scan_to_keycode ! 0x3e)) \<in> set termseq" "(chars ''[24~'', shift (scan_to_keycode ! 0x3f)) \<in> set termseq"
  "normal (scan_to_keycode ! 0x57) = 0x8500" "normal (scan_to_keycode ! 0x58) = 0x8600"
  by (simp_all add: scan_to_keycode_def termseq_def chars_def)

end
