(* ===== verification/VirtioRing.thy ===== *)
theory VirtioRing
  imports SB_Prelude
begin

text \<open>
  The rings shared with the hypervisor (\<open>src/hw/virtio-ring.c\<close>, \<open>vring_init\<close> of its header). The descriptor table, the
  available ring and the used ring are lists; the links between descriptors are indices into the table. The used ring
  is written by the device. \<open>vring_detach\<close> has no result when the chain it follows has no end, and
  \<open>vring_add_buf\<close> none when it panics.
\<close>

definition VRING_DESC_F_NEXT :: u16 where "VRING_DESC_F_NEXT = 1"
definition VRING_DESC_F_WRITE :: u16 where "VRING_DESC_F_WRITE = 2"
definition VRING_AVAIL_F_NO_INTERRUPT :: u16 where "VRING_AVAIL_F_NO_INTERRUPT = 1"
definition PAGE_SIZE :: u32 where "PAGE_SIZE = 4096"

record vring_desc =
  vd_addr :: u64
  vd_len :: u32
  vd_flags :: u16
  vd_next :: u16

record vring_virtqueue =
  vr_num :: u32
  vr_desc_at :: u32
  vr_avail_at :: u32
  vr_used_at :: u32
  vr_desc :: "vring_desc list"
  avail_flags :: u16
  avail_idx :: u16
  avail_ring :: "u16 list"
  used_idx :: u16
  used_ring :: "(u32 \<times> u32) list"
  free_head :: u16
  last_used_idx :: u16
  vdata :: "u16 list"

definition set_flags :: "u16 \<Rightarrow> vring_desc \<Rightarrow> vring_desc" where "set_flags f d = d\<lparr>vd_flags := f\<rparr>"
definition set_next :: "u16 \<Rightarrow> vring_desc \<Rightarrow> vring_desc" where "set_next n d = d\<lparr>vd_next := n\<rparr>"

definition upd_desc :: "nat \<Rightarrow> (vring_desc \<Rightarrow> vring_desc) \<Rightarrow> vring_desc list \<Rightarrow> vring_desc list" where
  "upd_desc i f ds = ds[i := f (ds ! i)]"

text \<open>The sizes of the three parts and where \<open>vring_init\<close> puts them; the loop links the descriptors.
  A queue is only set up with \<open>num > 0\<close> (\<open>vp_find_vq\<close>); \<open>num - 1\<close> does not wrap then.\<close>

definition sizeof_desc :: u32 where "sizeof_desc = 16"
definition sizeof_avail :: u32 where "sizeof_avail = 4"
definition sizeof_used :: u32 where "sizeof_used = 4"
definition sizeof_used_elem :: u32 where "sizeof_used_elem = 8"

definition vring_size :: "u32 \<Rightarrow> u32" where
  "vring_size num =
     ALIGN (sizeof_desc * num + sizeof_avail + 2 * num) PAGE_SIZE + sizeof_used + sizeof_used_elem * num"

definition link_descs :: "nat \<Rightarrow> vring_desc list \<Rightarrow> vring_desc list" where
  "link_descs num ds =
     upd_desc (num - 1) (set_next 0) (foldl (\<lambda>ds i. upd_desc i (set_next (of_nat (i + 1))) ds) ds [0..<num - 1])"

definition vring_init :: "u32 \<Rightarrow> u32 \<Rightarrow> vring_virtqueue \<Rightarrow> vring_virtqueue" where
  "vring_init num queue vq =
     (let desc = ALIGN queue PAGE_SIZE; avail = desc + sizeof_desc * num;
          used = ALIGN (avail + sizeof_avail + 2 * num) PAGE_SIZE
      in vq\<lparr>vr_num := num, vr_desc_at := desc, vr_avail_at := avail, vr_used_at := used,
           avail_flags := avail_flags vq OR VRING_AVAIL_F_NO_INTERRUPT, vr_desc := link_descs (unat num) (vr_desc vq)\<rparr>)"

definition vring_more_used :: "vring_virtqueue \<Rightarrow> bool" where
  "vring_more_used vq \<longleftrightarrow> last_used_idx vq \<noteq> used_idx vq"

partial_function (option) chain_end :: "vring_desc list \<Rightarrow> nat \<Rightarrow> nat option" where
  "chain_end ds i =
     (if vd_flags (ds ! i) AND VRING_DESC_F_NEXT \<noteq> 0 then chain_end ds (unat (vd_next (ds ! i))) else Some i)"

definition vring_detach :: "nat \<Rightarrow> vring_virtqueue \<Rightarrow> vring_virtqueue option" where
  "vring_detach head vq =
     map_option (\<lambda>i. vq\<lparr>vr_desc := upd_desc i (set_next (free_head vq)) (vr_desc vq), free_head := of_nat head\<rparr>)
       (chain_end (vr_desc vq) head)"

definition vring_get_buf :: "vring_virtqueue \<Rightarrow> (u16 \<times> u32 \<times> vring_virtqueue) option" where
  "vring_get_buf vq =
     (let (id, len) = used_ring vq ! (unat (last_used_idx vq) mod unat (vr_num vq));
          ret = vdata vq ! unat id
      in map_option (\<lambda>vq1. (ret, len, vq1\<lparr>last_used_idx := last_used_idx vq1 + 1\<rparr>)) (vring_detach (unat id) vq))"

text \<open>One of the two loops that fill descriptors: the buffers that are left, the table, \<open>i\<close> and \<open>prev\<close>.\<close>

fun fill_descs :: "u16 \<Rightarrow> (u32 \<times> u32) list \<Rightarrow> vring_desc list \<times> nat \<times> nat \<Rightarrow> vring_desc list \<times> nat \<times> nat" where
  "fill_descs fl [] (ds, i, prev) = (ds, i, prev)"
| "fill_descs fl ((addr, len) # bufs) (ds, i, prev) =
     (let ds1 = upd_desc i (\<lambda>d. d\<lparr>vd_flags := fl, vd_addr := ucast addr, vd_len := len\<rparr>) ds
      in fill_descs fl bufs (ds1, unat (vd_next (ds1 ! i)), i))"

definition vring_add_buf ::
    "(u32 \<times> u32) list \<Rightarrow> nat \<Rightarrow> nat \<Rightarrow> u16 \<Rightarrow> nat \<Rightarrow> vring_virtqueue \<Rightarrow> vring_virtqueue option" where
  "vring_add_buf bufs out inn index num_added vq =
     (if out + inn = 0 then None
      else
        let head = unat (free_head vq);
            s1 = fill_descs VRING_DESC_F_NEXT (take out bufs) (vr_desc vq, head, 0);
            (ds, i, prev) = fill_descs (VRING_DESC_F_NEXT OR VRING_DESC_F_WRITE) (take inn (drop out bufs)) s1;
            ds1 = upd_desc prev (\<lambda>d. set_flags (vd_flags d AND NOT VRING_DESC_F_NEXT) d) ds;
            av = (unat (avail_idx vq) + num_added) mod unat (vr_num vq)
        in Some (vq\<lparr>vr_desc := ds1, free_head := of_nat i, vdata := (vdata vq)[head := index],
                    avail_ring := (avail_ring vq)[av := of_nat head]\<rparr>))"

text \<open>The device gets to see the queue in \<open>vp_notify\<close>.\<close>

definition vring_kick :: "(vring_virtqueue \<Rightarrow> vring_virtqueue) \<Rightarrow> nat \<Rightarrow> vring_virtqueue \<Rightarrow> vring_virtqueue" where
  "vring_kick vp_notify num_added vq = vp_notify (vq\<lparr>avail_idx := avail_idx vq + of_nat num_added\<rparr>)"

section \<open>Paths through the table\<close>

text \<open>\<open>path ds i ns e\<close>: following the links from \<open>i\<close> goes through \<open>ns\<close> and arrives at \<open>e\<close>.\<close>

fun path :: "vring_desc list \<Rightarrow> nat \<Rightarrow> nat list \<Rightarrow> nat \<Rightarrow> bool" where
  "path ds i [] e \<longleftrightarrow> i = e"
| "path ds i (n # ns) e \<longleftrightarrow> i = n \<and> n < length ds \<and> path ds (unat (vd_next (ds ! n))) ns e"

lemma path_append: "path ds i (xs @ ys) e \<longleftrightarrow> (\<exists>j. path ds i xs j \<and> path ds j ys e)"
  by (induction xs arbitrary: i) auto

lemma path_cong:
  "length ds' = length ds \<Longrightarrow> (\<And>n. n \<in> set ns \<Longrightarrow> vd_next (ds' ! n) = vd_next (ds ! n)) \<Longrightarrow> path ds' i ns e = path ds i ns e"
  by (induction ns arbitrary: i) auto

text \<open>A chain of buffers that has been given to the device.\<close>

definition chain_ok :: "vring_desc list \<Rightarrow> nat list \<Rightarrow> bool" where
  "chain_ok ds c \<longleftrightarrow> c \<noteq> [] \<and> (\<exists>e. path ds (hd c) c e) \<and>
     (\<forall>n \<in> set (butlast c). vd_flags (ds ! n) AND VRING_DESC_F_NEXT \<noteq> 0) \<and> vd_flags (ds ! last c) AND VRING_DESC_F_NEXT = 0"

lemma chain_ok_cong:
  "length ds' = length ds \<Longrightarrow> (\<And>n. n \<in> set c \<Longrightarrow> ds' ! n = ds ! n) \<Longrightarrow> chain_ok ds' c = chain_ok ds c"
  using path_cong [of ds' ds c] in_set_butlastD [of _ c] unfolding chain_ok_def by (cases "c = []") auto

lemma chain_end_last: "chain_ok ds c \<Longrightarrow> chain_end ds (hd c) = Some (last c)"
proof (induction c)
  case (Cons n c)
  show ?case
  proof (cases c)
    case Nil
    then show ?thesis using Cons.prems by (subst chain_end.simps) (simp add: chain_ok_def)
  next
    case (Cons k c')
    then have "chain_ok ds c" "unat (vd_next (ds ! n)) = k" using Cons.prems by (auto simp: chain_ok_def)
    then show ?thesis using Cons.IH Cons.prems \<open>c = k # c'\<close> by (subst chain_end.simps) (simp add: chain_ok_def)
  qed
qed (simp add: chain_ok_def)

lemma upd_desc_nth: "upd_desc i f ds ! n = (if n = i \<and> n < length ds then f (ds ! i) else ds ! n)"
  by (cases "i < length ds") (auto simp: upd_desc_def nth_list_update list_update_beyond)

lemma length_upd_desc [simp]: "length (upd_desc i f ds) = length ds"
  by (simp add: upd_desc_def)

lemma path_bound: "path ds i ns e \<Longrightarrow> ns \<noteq> [] \<Longrightarrow> e < 65536"
proof (induction ns arbitrary: i)
  case (Cons n ns)
  then show ?case using unat_u16_bound [of "vd_next (ds ! n)"] by (cases ns) auto
qed simp

lemma path_relink: "path ds i c e \<Longrightarrow> c \<noteq> [] \<Longrightarrow> distinct c \<Longrightarrow> path (upd_desc (last c) (set_next n) ds) i c (unat n)"
proof (induction c arbitrary: i)
  case (Cons k c)
  show ?case
  proof (cases "c = []")
    case True
    then show ?thesis using Cons.prems by (simp add: upd_desc_nth set_next_def)
  next
    case False
    then have "last c \<noteq> k" using Cons.prems(3) last_in_set by fastforce
    then show ?thesis using Cons False by (simp add: upd_desc_nth)
  qed
qed simp

section \<open>The invariant\<close>

text \<open>\<open>vq_ok vq free infl\<close>: the free descriptors are those of \<open>free\<close>, linked in this order from the head of the free list; \<open>infl\<close>
  are the chains in flight with the numbers their owners gave them. No descriptor is in two places.\<close>

definition vq_ok :: "vring_virtqueue \<Rightarrow> nat list \<Rightarrow> (nat list \<times> u16) list \<Rightarrow> bool" where
  "vq_ok vq free infl \<longleftrightarrow>
     length (vr_desc vq) \<le> 256 \<and> length (vdata vq) = 256 \<and> (\<exists>e. path (vr_desc vq) (unat (free_head vq)) free e) \<and>
     distinct (free @ concat (map fst infl)) \<and> set (free @ concat (map fst infl)) \<subseteq> {..<length (vr_desc vq)} \<and>
     (\<forall>(c, x) \<in> set infl. chain_ok (vr_desc vq) c \<and> vdata vq ! hd c = x)"

lemma fill_descs_ok:
  assumes "path ds i ns e" "distinct ns" "length bufs \<le> length ns"
  shows "\<exists>ds' i'. fill_descs fl bufs (ds, i, prev) = (ds', i', if bufs = [] then prev else ns ! (length bufs - 1)) \<and>
    length ds' = length ds \<and> (\<forall>n. vd_next (ds' ! n) = vd_next (ds ! n)) \<and>
    (\<forall>n. n \<notin> set (take (length bufs) ns) \<longrightarrow> ds' ! n = ds ! n) \<and>
    (\<forall>j < length bufs. vd_flags (ds' ! (ns ! j)) = fl \<and> vd_addr (ds' ! (ns ! j)) = ucast (fst (bufs ! j)) \<and>
       vd_len (ds' ! (ns ! j)) = snd (bufs ! j)) \<and>
    path ds i (take (length bufs) ns) i' \<and> path ds i' (drop (length bufs) ns) e"
  using assms
proof (induction bufs arbitrary: ds i prev ns)
  case Nil
  then show ?case by simp
next
  case (Cons b bufs)
  obtain addr len where b: "b = (addr, len)" by fastforce
  obtain n ns' where ns: "ns = n # ns'" using Cons.prems(3) by (cases ns) auto
  define ds1 where "ds1 = upd_desc n (\<lambda>d. d\<lparr>vd_flags := fl, vd_addr := ucast addr, vd_len := len\<rparr>) ds"
  have p: "i = n" "n < length ds" "path ds (unat (vd_next (ds ! n))) ns' e" using Cons.prems(1) ns by auto
  have nx: "vd_next (ds1 ! k) = vd_next (ds ! k)" for k by (simp add: ds1_def upd_desc_nth)
  have l: "length ds1 = length ds" by (simp add: ds1_def)
  have p1: "path ds1 (unat (vd_next (ds ! n))) ns' e" using p(3) path_cong [of ds1 ds] nx l by simp
  have d: "distinct ns'" "length bufs \<le> length ns'" "n \<notin> set ns'" using Cons.prems(2,3) ns by simp_all
  obtain ds' i' where f: "fill_descs fl bufs (ds1, unat (vd_next (ds ! n)), n) =
        (ds', i', if bufs = [] then n else ns' ! (length bufs - 1))" "length ds' = length ds1"
      "\<forall>k. vd_next (ds' ! k) = vd_next (ds1 ! k)" "\<forall>k. k \<notin> set (take (length bufs) ns') \<longrightarrow> ds' ! k = ds1 ! k"
      "\<forall>j < length bufs. vd_flags (ds' ! (ns' ! j)) = fl \<and> vd_addr (ds' ! (ns' ! j)) = ucast (fst (bufs ! j)) \<and>
         vd_len (ds' ! (ns' ! j)) = snd (bufs ! j)"
      "path ds1 (unat (vd_next (ds ! n))) (take (length bufs) ns') i'" "path ds1 i' (drop (length bufs) ns') e"
    using Cons.IH [OF p1 d(1,2), of n] by blast
  have "n \<notin> set (take (length bufs) ns')" using d(3) in_set_takeD by fastforce
  then have n: "ds' ! n = ds1 ! n" using f(4) by blast
  show ?case
  proof (rule exI [of _ ds'], rule exI [of _ i'], intro conjI allI impI)
    show "fill_descs fl (b # bufs) (ds, i, prev) = (ds', i', if b # bufs = [] then prev else ns ! (length (b # bufs) - 1))"
      using f(1) nx by (auto simp: b ns p(1) ds1_def [symmetric] Let_def nth_Cons' split: if_splits)
    show "length ds' = length ds" "vd_next (ds' ! k) = vd_next (ds ! k)" for k using f(2,3) l nx by simp_all
    show "ds' ! k = ds ! k" if "k \<notin> set (take (length (b # bufs)) ns)" for k
      using that f(4) by (simp add: ns ds1_def upd_desc_nth)
    have j: "vd_flags (ds' ! (ns ! j)) = fl \<and> vd_addr (ds' ! (ns ! j)) = ucast (fst ((b # bufs) ! j)) \<and>
        vd_len (ds' ! (ns ! j)) = snd ((b # bufs) ! j)" if "j < length (b # bufs)" for j
      using that f(5) n p(2) by (cases j) (simp_all add: ns b ds1_def upd_desc_nth)
    show "vd_flags (ds' ! (ns ! j)) = fl" "vd_addr (ds' ! (ns ! j)) = ucast (fst ((b # bufs) ! j))"
      "vd_len (ds' ! (ns ! j)) = snd ((b # bufs) ! j)" if "j < length (b # bufs)" for j using j [OF that] by simp_all
    show "path ds i (take (length (b # bufs)) ns) i'" "path ds i' (drop (length (b # bufs)) ns) e"
      using f(6,7) p(1,2) path_cong [of ds1 ds] nx l by (simp_all add: ns)
  qed
qed

text \<open>What a descriptor of a chain holds: buffer \<open>j\<close> of \<open>k\<close>, the first \<open>out\<close> of which the device reads.\<close>

definition desc_for :: "(u32 \<times> u32) list \<Rightarrow> nat \<Rightarrow> nat \<Rightarrow> vring_desc \<Rightarrow> bool" where
  "desc_for bufs out j d \<longleftrightarrow>
     vd_addr d = ucast (fst (bufs ! j)) \<and> vd_len d = snd (bufs ! j) \<and>
     (vd_flags d AND VRING_DESC_F_NEXT \<noteq> 0 \<longleftrightarrow> j + 1 < length bufs) \<and> (vd_flags d AND VRING_DESC_F_WRITE \<noteq> 0 \<longleftrightarrow> out \<le> j)"

lemma fill_both:
  assumes p: "path ds i ns e" "distinct ns" and k: "length bufs \<le> length ns" "out \<le> length bufs" "bufs \<noteq> []"
  shows "\<exists>ds' i'. fill_descs (VRING_DESC_F_NEXT OR VRING_DESC_F_WRITE) (drop out bufs) (fill_descs VRING_DESC_F_NEXT (take out bufs) (ds, i, 0)) =
      (ds', i', ns ! (length bufs - 1)) \<and> length ds' = length ds \<and> (\<forall>n. vd_next (ds' ! n) = vd_next (ds ! n)) \<and>
    (\<forall>n. n \<notin> set (take (length bufs) ns) \<longrightarrow> ds' ! n = ds ! n) \<and>
    (\<forall>j < length bufs. vd_addr (ds' ! (ns ! j)) = ucast (fst (bufs ! j)) \<and> vd_len (ds' ! (ns ! j)) = snd (bufs ! j) \<and>
       vd_flags (ds' ! (ns ! j)) = (if j < out then VRING_DESC_F_NEXT else VRING_DESC_F_NEXT OR VRING_DESC_F_WRITE)) \<and>
    path ds i (take (length bufs) ns) i' \<and> path ds i' (drop (length bufs) ns) e"
proof -
  let ?k = "length bufs"
  have l: "length (take out bufs) = out" using k by simp
  obtain ds1 i1 where f1: "fill_descs VRING_DESC_F_NEXT (take out bufs) (ds, i, 0) =
        (ds1, i1, if take out bufs = [] then 0 else ns ! (out - 1))" "length ds1 = length ds"
      "\<forall>n. vd_next (ds1 ! n) = vd_next (ds ! n)" "\<forall>n. n \<notin> set (take out ns) \<longrightarrow> ds1 ! n = ds ! n"
      "\<forall>j < out. vd_flags (ds1 ! (ns ! j)) = VRING_DESC_F_NEXT \<and> vd_addr (ds1 ! (ns ! j)) = ucast (fst (bufs ! j)) \<and>
         vd_len (ds1 ! (ns ! j)) = snd (bufs ! j)"
      "path ds i (take out ns) i1" "path ds i1 (drop out ns) e"
    using fill_descs_ok [OF p, of "take out bufs" VRING_DESC_F_NEXT 0, unfolded l] k(1,2) by auto
  have p2: "path ds1 i1 (drop out ns) e" using f1(2,3,7) path_cong [of ds1 ds] by simp
  have l2: "length (drop out bufs) \<le> length (drop out ns)" "distinct (drop out ns)" using k p(2) by (auto simp: distinct_drop)
  obtain ds2 i2 where f2: "fill_descs (VRING_DESC_F_NEXT OR VRING_DESC_F_WRITE) (drop out bufs) (ds1, i1, if take out bufs = [] then 0 else ns ! (out - 1)) =
        (ds2, i2, if drop out bufs = [] then (if take out bufs = [] then 0 else ns ! (out - 1)) else drop out ns ! (?k - out - 1))"
      "length ds2 = length ds1" "\<forall>n. vd_next (ds2 ! n) = vd_next (ds1 ! n)"
      "\<forall>n. n \<notin> set (take (?k - out) (drop out ns)) \<longrightarrow> ds2 ! n = ds1 ! n"
      "\<forall>j < ?k - out. vd_flags (ds2 ! (drop out ns ! j)) = VRING_DESC_F_NEXT OR VRING_DESC_F_WRITE \<and>
         vd_addr (ds2 ! (drop out ns ! j)) = ucast (fst (drop out bufs ! j)) \<and> vd_len (ds2 ! (drop out ns ! j)) = snd (drop out bufs ! j)"
      "path ds1 i1 (take (?k - out) (drop out ns)) i2" "path ds1 i2 (drop (?k - out) (drop out ns)) e"
    using fill_descs_ok [OF p2 l2(2,1), of "VRING_DESC_F_NEXT OR VRING_DESC_F_WRITE" "if take out bufs = [] then 0 else ns ! (out - 1)"] by auto
  have tk: "take ?k ns = take out ns @ take (?k - out) (drop out ns)" using k(2) by (metis le_add_diff_inverse take_add)
  have prev: "(if drop out bufs = [] then (if take out bufs = [] then 0 else ns ! (out - 1)) else drop out ns ! (?k - out - 1)) = ns ! (?k - 1)"
    using k by auto
  have later: "ds2 ! (ns ! j) = ds1 ! (ns ! j)" if "j < out" for j
  proof -
    have "ns ! j \<in> set (take out ns)" using that k by (auto simp: in_set_conv_nth intro!: exI [of _ j])
    moreover have "set (take out ns) \<inter> set (drop out ns) = {}" using p(2) by (metis append_take_drop_id distinct_append)
    ultimately have "ns ! j \<notin> set (take (?k - out) (drop out ns))" by (meson disjoint_iff in_set_takeD)
    then show ?thesis using f2(4) by blast
  qed
  have j: "vd_addr (ds2 ! (ns ! j)) = ucast (fst (bufs ! j)) \<and> vd_len (ds2 ! (ns ! j)) = snd (bufs ! j) \<and>
       vd_flags (ds2 ! (ns ! j)) = (if j < out then VRING_DESC_F_NEXT else VRING_DESC_F_NEXT OR VRING_DESC_F_WRITE)" if "j < ?k" for j
  proof (cases "j < out")
    case True
    then show ?thesis using f1(5) later by simp
  next
    case False
    then show ?thesis using f2(5) [rule_format, of "j - out"] that k by simp
  qed
  have "path ds i (take ?k ns) i2" unfolding tk path_append
    using f1(6) f2(6) path_cong [of ds1 ds] f1(2,3) by auto
  moreover have "path ds i2 (drop ?k ns) e" using f2(7) path_cong [of ds1 ds] f1(2,3) k(2) by simp
  moreover have "\<forall>n. n \<notin> set (take ?k ns) \<longrightarrow> ds2 ! n = ds ! n" using f1(4) f2(4) by (simp add: tk)
  ultimately show ?thesis using f1(1-3) f2(1-3) prev j by (intro exI [of _ ds2] exI [of _ i2]) auto
qed

lemma flags_bits:
  "VRING_DESC_F_NEXT \<noteq> 0" "VRING_DESC_F_WRITE \<noteq> 0"
  "(f AND NOT VRING_DESC_F_NEXT) AND VRING_DESC_F_NEXT = 0" "VRING_DESC_F_NEXT AND VRING_DESC_F_NEXT \<noteq> 0"
  "(VRING_DESC_F_NEXT OR VRING_DESC_F_WRITE) AND VRING_DESC_F_NEXT \<noteq> 0" "VRING_DESC_F_NEXT AND VRING_DESC_F_WRITE = 0"
  "(VRING_DESC_F_NEXT OR VRING_DESC_F_WRITE) AND VRING_DESC_F_WRITE \<noteq> 0"
  "(f AND NOT VRING_DESC_F_NEXT) AND VRING_DESC_F_WRITE = f AND VRING_DESC_F_WRITE"
proof -
  show "(f AND NOT VRING_DESC_F_NEXT) AND VRING_DESC_F_WRITE = f AND VRING_DESC_F_WRITE"
    by (rule bit_word_eqI) (auto simp: VRING_DESC_F_NEXT_def VRING_DESC_F_WRITE_def bit_simps bit_numeral_rec bit_1_iff split: nat.splits)
qed (simp_all add: VRING_DESC_F_NEXT_def VRING_DESC_F_WRITE_def and.assoc)

section \<open>The operations\<close>

lemma add_buf_ok:
  assumes q: "vq_ok vq free infl" and k: "length bufs = out + inn" "0 < out + inn" "out + inn \<le> length free"
  shows "\<exists>vq'. vring_add_buf bufs out inn index na vq = Some vq' \<and>
    vq_ok vq' (drop (out + inn) free) ((take (out + inn) free, index) # infl) \<and>
    (\<forall>j < out + inn. desc_for bufs out j (vr_desc vq' ! (free ! j))) \<and>
    avail_ring vq' = (avail_ring vq)[(unat (avail_idx vq) + na) mod unat (vr_num vq) := of_nat (hd free)] \<and>
    used_ring vq' = used_ring vq \<and> last_used_idx vq' = last_used_idx vq \<and> vr_num vq' = vr_num vq"
proof -
  let ?k = "out + inn" and ?ds = "vr_desc vq"
  obtain e where p: "path ?ds (unat (free_head vq)) free e" using q by (auto simp: vq_ok_def)
  have q1: "distinct free" "length ?ds \<le> 256" "length (vdata vq) = 256" "distinct (free @ concat (map fst infl))"
      "set (free @ concat (map fst infl)) \<subseteq> {..<length ?ds}" using q by (auto simp: vq_ok_def)
  have ne: "free \<noteq> []" "bufs \<noteq> []" "take ?k free \<noteq> []" using k by auto
  have hd: "hd free = unat (free_head vq)" using p ne(1) by (cases free) auto
  obtain ds i where f: "fill_descs (VRING_DESC_F_NEXT OR VRING_DESC_F_WRITE) (drop out bufs)
        (fill_descs VRING_DESC_F_NEXT (take out bufs) (?ds, unat (free_head vq), 0)) = (ds, i, free ! (?k - 1))"
      "length ds = length ?ds" "\<forall>n. vd_next (ds ! n) = vd_next (?ds ! n)"
      "\<forall>n. n \<notin> set (take ?k free) \<longrightarrow> ds ! n = ?ds ! n"
      "\<forall>j < ?k. vd_addr (ds ! (free ! j)) = ucast (fst (bufs ! j)) \<and> vd_len (ds ! (free ! j)) = snd (bufs ! j) \<and>
         vd_flags (ds ! (free ! j)) = (if j < out then VRING_DESC_F_NEXT else VRING_DESC_F_NEXT OR VRING_DESC_F_WRITE)"
      "path ?ds (unat (free_head vq)) (take ?k free) i" "path ?ds i (drop ?k free) e"
    using fill_both [OF p q1(1), of bufs out] k ne by auto
  let ?prev = "free ! (?k - 1)"
  define ds1 where "ds1 = upd_desc ?prev (\<lambda>d. set_flags (vd_flags d AND NOT VRING_DESC_F_NEXT) d) ds"
  define vq' where "vq' = vq\<lparr>vr_desc := ds1, free_head := of_nat i, vdata := (vdata vq)[unat (free_head vq) := index],
      avail_ring := (avail_ring vq)[(unat (avail_idx vq) + na) mod unat (vr_num vq) := of_nat (unat (free_head vq))]\<rparr>"
  have run: "vring_add_buf bufs out inn index na vq = Some vq'"
    using f(1) k by (simp add: vring_add_buf_def vq'_def ds1_def Let_def)
  have ds1: "length ds1 = length ?ds" "vd_next (ds1 ! n) = vd_next (?ds ! n)" for n
    using f(2,3) by (simp_all add: ds1_def upd_desc_nth set_flags_def)
  have prev: "?prev = last (take ?k free)" "?prev < length ds" "?prev \<in> set (take ?k free)"
  proof -
    show 1: "?prev = last (take ?k free)" using k ne(3) by (simp add: last_conv_nth)
    then show 2: "?prev \<in> set (take ?k free)" using last_in_set [OF ne(3)] by simp
    then show "?prev < length ds" using q1(5) f(2) by (auto dest: in_set_takeD)
  qed
  have other: "ds1 ! n = ?ds ! n" if "n \<notin> set (take ?k free)" for n
    using that f(4) prev(3) by (auto simp: ds1_def upd_desc_nth)
  have nth: "free ! j = ?prev \<longleftrightarrow> j = ?k - 1" if "j < ?k" for j using q1(1) k that by (simp add: nth_eq_iff_index_eq)
  have desc: "desc_for bufs out j (ds1 ! (free ! j))" if "j < ?k" for j
    using that f(5) [rule_format, OF that] nth [OF that] prev(2) k(1)
    by (auto simp: desc_for_def ds1_def upd_desc_nth set_flags_def flags_bits)
  have chain: "chain_ok ds1 (take ?k free)"
    unfolding chain_ok_def
  proof (intro conjI ballI)
    show "take ?k free \<noteq> []" by (rule ne(3))
    have "path ds1 (unat (free_head vq)) (take ?k free) i" using f(6) path_cong [of ds1 ?ds] ds1 by simp
    then show "\<exists>e. path ds1 (hd (take ?k free)) (take ?k free) e" using hd ne k(2) by (auto simp: hd_take)
    show "vd_flags (ds1 ! last (take ?k free)) AND VRING_DESC_F_NEXT = 0"
      using prev by (simp add: ds1_def upd_desc_nth set_flags_def flags_bits)
    fix n assume "n \<in> set (butlast (take ?k free))"
    then obtain j where "j < ?k - 1" "n = free ! j" using k(3) by (auto simp: in_set_conv_nth nth_butlast)
    then show "vd_flags (ds1 ! n) AND VRING_DESC_F_NEXT \<noteq> 0" using desc [of j] k(1) by (simp add: desc_for_def)
  qed
  have swap: "distinct ((xs @ ys) @ zs) \<Longrightarrow> distinct (ys @ xs @ zs)" "set (ys @ xs @ zs) = set ((xs @ ys) @ zs)" for xs ys zs :: "nat list"
    by auto
  have i: "unat (of_nat i :: u16) = i" using path_bound [OF f(6) ne(3)] by (simp add: unat_of_nat)
  have free1: "path ds1 i (drop ?k free) e" using f(7) path_cong [of ds1 ?ds] ds1 by simp
  have old: "chain_ok ds1 c \<and> (vdata vq)[unat (free_head vq) := index] ! hd c = x" if "(c, x) \<in> set infl" for c x
  proof -
    have c: "chain_ok ?ds c" "vdata vq ! hd c = x" using q that by (auto simp: vq_ok_def)
    have disj: "set c \<inter> set free = {}" using q1(4) that by force
    then have "chain_ok ds1 c" using c(1) other ds1(1) chain_ok_cong [of ds1 ?ds c] by (metis disjoint_iff in_set_takeD)
    moreover have "hd c \<noteq> unat (free_head vq)" using disj hd ne(1) c(1) by (metis chain_ok_def disjoint_iff hd_in_set)
    ultimately show ?thesis using c(2) by simp
  qed
  have "hd free \<in> set (free @ concat (map fst infl))" using ne(1) by simp
  then have "hd free < 256" using q1(2,5) by (meson lessThan_iff order_less_le_trans subsetD)
  then have new: "(vdata vq)[unat (free_head vq) := index] ! hd (take ?k free) = index"
    using hd ne q1(3) k(2) by (simp add: hd_take)
  have parts: "distinct (drop ?k free @ take ?k free @ concat (map fst infl))"
      "set (drop ?k free @ take ?k free @ concat (map fst infl)) = set (free @ concat (map fst infl))"
    using swap [where xs = "take ?k free" and ys = "drop ?k free" and zs = "concat (map fst infl)", unfolded append_take_drop_id] q1(4) by blast+
  have all: "\<forall>(c, x) \<in> set ((take ?k free, index) # infl). chain_ok ds1 c \<and> (vdata vq)[unat (free_head vq) := index] ! hd c = x"
    using old chain new by auto
  have "vq_ok vq' (drop ?k free) ((take ?k free, index) # infl)"
    unfolding vq_ok_def vq'_def
  proof (intro conjI)
    show "\<exists>e. path (vr_desc (vq\<lparr>vr_desc := ds1, free_head := of_nat i, vdata := (vdata vq)[unat (free_head vq) := index],
        avail_ring := (avail_ring vq)[(unat (avail_idx vq) + na) mod unat (vr_num vq) := of_nat (unat (free_head vq))]\<rparr>))
        (unat (free_head (vq\<lparr>vr_desc := ds1, free_head := of_nat i, vdata := (vdata vq)[unat (free_head vq) := index],
        avail_ring := (avail_ring vq)[(unat (avail_idx vq) + na) mod unat (vr_num vq) := of_nat (unat (free_head vq))]\<rparr>)))
        (drop ?k free) e" using free1 i by auto
  qed (use q1(2,3,5) ds1(1) all parts in simp_all)
  then show ?thesis using run desc hd by (intro exI [of _ vq']) (simp add: vq'_def)
qed

lemma get_buf_ok:
  assumes q: "vq_ok vq free infl" and c: "(c, x) \<in> set infl" and num: "0 < vr_num vq"
    and used: "used_ring vq ! (unat (last_used_idx vq) mod unat (vr_num vq)) = (el, len)" "unat el = hd c"
  shows "\<exists>vq'. vring_get_buf vq = Some (x, len, vq') \<and> vq_ok vq' (c @ free) (remove1 (c, x) infl) \<and>
    last_used_idx vq' = last_used_idx vq + 1"
proof -
  let ?ds = "vr_desc vq"
  have ok: "chain_ok ?ds c" "vdata vq ! hd c = x" using q c by (auto simp: vq_ok_def)
  then have ne: "c \<noteq> []" by (simp add: chain_ok_def)
  have q1: "length ?ds \<le> 256" "length (vdata vq) = 256" "distinct (free @ concat (map fst infl))"
      "set (free @ concat (map fst infl)) \<subseteq> {..<length ?ds}" using q by (auto simp: vq_ok_def)
  obtain e where p: "path ?ds (unat (free_head vq)) free e" using q by (auto simp: vq_ok_def)
  obtain as bs where sp: "infl = as @ (c, x) # bs" "remove1 (c, x) infl = as @ bs" using c
    by (metis remove1_split)
  define ds1 where "ds1 = upd_desc (last c) (set_next (free_head vq)) ?ds"
  define vq1 where "vq1 = vq\<lparr>vr_desc := ds1, free_head := of_nat (hd c)\<rparr>"
  have det: "vring_detach (unat el) vq = Some vq1"
    by (simp add: vring_detach_def used(2) chain_end_last [OF ok(1)] ds1_def vq1_def)
  have run: "vring_get_buf vq = Some (x, len, vq1\<lparr>last_used_idx := last_used_idx vq + 1\<rparr>)"
    using used ok(2) det by (simp add: vring_get_buf_def vq1_def)
  have dist: "distinct c" "set c \<inter> set free = {}" "set c \<inter> set (concat (map fst (as @ bs))) = {}"
    using q1(3) unfolding sp(1) by auto
  have same: "ds1 ! n = ?ds ! n" if "n \<notin> set c" for n
    using that last_in_set [OF ne] by (auto simp: ds1_def upd_desc_nth)
  have hd: "unat (of_nat (hd c) :: u16) = hd c"
  proof -
    have "hd c \<in> set (free @ concat (map fst infl))" using c hd_in_set [OF ne] by (auto simp: sp(1))
    then have "hd c < 256" using q1(1,4) by (meson lessThan_iff order_less_le_trans subsetD)
    then show ?thesis by (simp add: unat_of_nat)
  qed
  have chain: "path ds1 (hd c) c (unat (free_head vq))"
    unfolding ds1_def using ok(1) dist(1) ne path_relink unfolding chain_ok_def by blast
  have rest: "path ds1 (unat (free_head vq)) free e"
  proof -
    have "vd_next (ds1 ! n) = vd_next (?ds ! n)" if "n \<in> set free" for n using same [of n] dist(2) that by (metis disjoint_iff)
    then show ?thesis using p path_cong [of ds1 ?ds free] by (simp add: ds1_def)
  qed
  have inv: "\<forall>(d, y) \<in> set infl. chain_ok ?ds d \<and> vdata vq ! hd d = y" using q unfolding vq_ok_def by (elim conjE)
  have all: "\<forall>(d, y) \<in> set (as @ bs). chain_ok ds1 d \<and> vdata vq ! hd d = y"
  proof (intro ballI, clarify)
    fix d y assume d: "(d, y) \<in> set (as @ bs)"
    have "(d, y) \<in> set infl" using d by (auto simp: sp(1))
    then have "chain_ok ?ds d" "vdata vq ! hd d = y" using inv by auto
    moreover have "set d \<inter> set c = {}" using dist(3) d by force
    moreover from this have "ds1 ! n = ?ds ! n" if "n \<in> set d" for n using same [of n] that by (metis disjoint_iff)
    ultimately show "chain_ok ds1 d \<and> vdata vq ! hd d = y"
      using chain_ok_cong [of ds1 ?ds d] by (simp add: ds1_def)
  qed
  have parts: "distinct ((c @ free) @ concat (map fst (as @ bs)))"
      "set ((c @ free) @ concat (map fst (as @ bs))) = set (free @ concat (map fst infl))"
    using q1(3) unfolding sp(1) by auto
  have "vq_ok (vq1\<lparr>last_used_idx := last_used_idx vq + 1\<rparr>) (c @ free) (as @ bs)"
    unfolding vq_ok_def
  proof (intro conjI)
    show "\<exists>e. path (vr_desc (vq1\<lparr>last_used_idx := last_used_idx vq + 1\<rparr>))
        (unat (free_head (vq1\<lparr>last_used_idx := last_used_idx vq + 1\<rparr>))) (c @ free) e"
      using chain rest hd by (auto simp: vq1_def path_append)
    show "set ((c @ free) @ concat (map fst (as @ bs))) \<subseteq> {..<length (vr_desc (vq1\<lparr>last_used_idx := last_used_idx vq + 1\<rparr>))}"
      using parts(2) q1(4) by (simp add: vq1_def ds1_def)
  qed (use q1(1,2) all parts(1) in \<open>simp_all add: vq1_def ds1_def\<close>)
  then show ?thesis using run sp(2) by auto
qed

text \<open>A fresh queue: all descriptors are free.\<close>

lemma link_descs_next:
  assumes "0 < num" "num \<le> length ds" "num \<le> 256"
  shows "length (link_descs num ds) = length ds" "n < num \<Longrightarrow> unat (vd_next (link_descs num ds ! n)) = (if n + 1 < num then n + 1 else 0)"
proof -
  have f: "length (foldl (\<lambda>ds i. upd_desc i (set_next (of_nat (i + 1))) ds) ds [0..<k]) = length ds \<and>
      (\<forall>n < k. vd_next (foldl (\<lambda>ds i. upd_desc i (set_next (of_nat (i + 1))) ds) ds [0..<k] ! n) = of_nat (n + 1))" if "k \<le> length ds" for k
    using that by (induction k) (auto simp: upd_desc_nth set_next_def less_Suc_eq)
  have l: "num - 1 \<le> length ds" using assms by simp
  show "length (link_descs num ds) = length ds" using f [OF l] by (simp add: link_descs_def)
  have u: "unat (of_nat (n + 1) :: u16) = n + 1" if "n < num" using that assms by (simp add: unat_of_nat del: of_nat_add of_nat_Suc)
  show "n < num \<Longrightarrow> unat (vd_next (link_descs num ds ! n)) = (if n + 1 < num then n + 1 else 0)"
    using f [OF l] u assms by (auto simp: link_descs_def upd_desc_nth set_next_def simp del: of_nat_add of_nat_Suc)
qed

lemma path_upt:
  "(\<And>n. i \<le> n \<Longrightarrow> n + 1 < k \<Longrightarrow> unat (vd_next (ds ! n)) = n + 1) \<Longrightarrow> i < k \<Longrightarrow> k \<le> length ds \<Longrightarrow>
    path ds i [i..<k] (unat (vd_next (ds ! (k - 1))))"
proof (induction "k - i" arbitrary: i)
  case (Suc m)
  show ?case
  proof (cases "Suc i = k")
    case True
    then show ?thesis using Suc.prems by (auto simp: upt_rec [of i k])
  next
    case False
    then have "path ds (Suc i) [Suc i..<k] (unat (vd_next (ds ! (k - 1))))" using Suc by (intro Suc.hyps) auto
    then show ?thesis using Suc.prems False by (simp add: upt_rec [of i k])
  qed
qed simp

lemma vring_init_ok:
  assumes "0 < num" "length (vr_desc vq) = unat num" "unat num \<le> 256" "length (vdata vq) = 256" "free_head vq = 0"
  shows "vq_ok (vring_init num queue vq) [0..<unat num] []"
proof -
  have n: "0 < unat num" using assms(1) by (simp add: word_less_nat_alt)
  note l = link_descs_next [OF n, of "vr_desc vq"]
  have "path (link_descs (unat num) (vr_desc vq)) 0 [0..<unat num] (unat (vd_next (link_descs (unat num) (vr_desc vq) ! (unat num - 1))))"
    using l n assms(2,3) by (intro path_upt) auto
  then show ?thesis using l assms by (auto simp: vring_init_def Let_def vq_ok_def)
qed

text \<open>C32. The queue hands descriptors out and takes them back without losing or sharing any, in whatever order the device
  completes the requests. A request of \<open>out + inn\<close> buffers takes as many descriptors from the front of the free list, describes
  its buffers in them in order (the first \<open>out\<close> to be read by the device, the others to be written, all but the last linked to
  the next) and publishes the first in the available ring; when the device reports a chain in flight as used, \<open>vring_get_buf\<close>
  returns the number its owner gave it and its descriptors are free again. The caller has to know that enough of them are
  free.\<close>

theorem virtio_queue_contract:
  assumes "vq_ok vq free infl" "0 < vr_num vq"
  shows "(\<forall>bufs out inn index na. length bufs = out + inn \<and> 0 < out + inn \<and> out + inn \<le> length free \<longrightarrow>
      (\<exists>vq'. vring_add_buf bufs out inn index na vq = Some vq' \<and>
        vq_ok vq' (drop (out + inn) free) ((take (out + inn) free, index) # infl) \<and>
        (\<forall>j < out + inn. desc_for bufs out j (vr_desc vq' ! (free ! j))) \<and>
        avail_ring vq' = (avail_ring vq)[(unat (avail_idx vq) + na) mod unat (vr_num vq) := of_nat (hd free)])) \<and>
    (\<forall>c x el len. (c, x) \<in> set infl \<and> unat el = hd c \<and>
        used_ring vq ! (unat (last_used_idx vq) mod unat (vr_num vq)) = (el, len) \<longrightarrow>
      (\<exists>vq'. vring_get_buf vq = Some (x, len, vq') \<and> vq_ok vq' (c @ free) (remove1 (c, x) infl) \<and>
        last_used_idx vq' = last_used_idx vq + 1))"
proof (intro conjI allI impI; elim conjE)
  fix bufs :: "(u32 \<times> u32) list" and out inn :: nat and index :: u16 and na :: nat
  assume "length bufs = out + inn" "0 < out + inn" "out + inn \<le> length free"
  then show "\<exists>vq'. vring_add_buf bufs out inn index na vq = Some vq' \<and>
      vq_ok vq' (drop (out + inn) free) ((take (out + inn) free, index) # infl) \<and>
      (\<forall>j < out + inn. desc_for bufs out j (vr_desc vq' ! (free ! j))) \<and>
      avail_ring vq' = (avail_ring vq)[(unat (avail_idx vq) + na) mod unat (vr_num vq) := of_nat (hd free)]"
    using add_buf_ok [OF assms(1), of bufs out inn index na] by blast
next
  fix c x el len
  assume "(c, x) \<in> set infl" "unat el = hd c" "used_ring vq ! (unat (last_used_idx vq) mod unat (vr_num vq)) = (el, len)"
  then show "\<exists>vq'. vring_get_buf vq = Some (x, len, vq') \<and> vq_ok vq' (c @ free) (remove1 (c, x) infl) \<and>
      last_used_idx vq' = last_used_idx vq + 1"
    using get_buf_ok [OF assms(1) _ assms(2)] by blast
qed

definition vq_sample :: vring_virtqueue where
  "vq_sample = vring_init 4 0x5000
     \<lparr>vr_num = 0, vr_desc_at = 0, vr_avail_at = 0, vr_used_at = 0,
      vr_desc = replicate 4 \<lparr>vd_addr = 0, vd_len = 0, vd_flags = 0, vd_next = 0\<rparr>, avail_flags = 0, avail_idx = 0,
      avail_ring = [0, 0, 0, 0], used_idx = 1, used_ring = [(0, 512), (0, 0), (0, 0), (0, 0)], free_head = 0, last_used_idx = 0,
      vdata = replicate 256 0\<rparr>"

theorem virtio_queue_contract_witness:
  "\<exists>vq'. vring_add_buf [(0x1000, 16), (0x2000, 512)] 1 1 7 0 vq_sample = Some vq' \<and> vq_ok vq' [2, 3] [([0, 1], 7)] \<and>
     avail_ring vq' = [0, 0, 0, 0]"
proof -
  have "vq_ok vq_sample [0..<unat (4 :: u32)] []" unfolding vq_sample_def by (rule vring_init_ok) simp_all
  moreover have "[0..<unat (4 :: u32)] = [0, 1, 2, 3]" by code_simp
  ultimately have ok: "vq_ok vq_sample [0, 1, 2, 3] []" by simp
  have n: "0 < vr_num vq_sample" "avail_ring vq_sample = [0, 0, 0, 0]" "avail_idx vq_sample = 0" "vr_num vq_sample = 4"
    by (simp_all add: vq_sample_def vring_init_def Let_def)
  show ?thesis
    using virtio_queue_contract [OF ok n(1), THEN conjunct1, rule_format, of "[(0x1000, 16), (0x2000, 512)]" 1 1 7 0] n(2-4)
    by auto
qed

end
