(* ===== verification/PciBios.thy ===== *)
theory PciBios
  imports PciProps FarCopy Bregs
begin

text \<open>
  The PCI BIOS (\<open>src/pcibios.c\<close>, interrupt 0x1a function 0xb1) and the plug and play entry (\<open>src/pnpbios.c\<close>). The searches
  for a device by its identification or class count through the functions of all buses; a property says that they find
  what a list of all functions says. \<open>None\<close> stands for a loop that would not end.
\<close>

section \<open>Definitions\<close>

definition RET_FUNC_NOT_SUPPORTED :: u8 where "RET_FUNC_NOT_SUPPORTED = 0x81"
definition RET_DEVICE_NOT_FOUND :: u8 where "RET_DEVICE_NOT_FOUND = 0x86"
definition RET_BUFFER_TOO_SMALL :: u8 where "RET_BUFFER_TOO_SMALL = 0x89"
definition sizeof_pir_header :: u16 where "sizeof_pir_header = 32"

text \<open>The environment of a call: configuration space, the highest bus, the entry point, and the routing table.\<close>

record 'h pcibios_env =
  pe_ops :: "'h pci_ops"
  pe_MaxPCIBus :: int
  pe_entry :: u32
  pe_PirAddr :: u32

type_synonym 'h pcibios_state = "bregs \<times> mem \<times> 'h"

definition handle_1ab101 :: "'h pcibios_env \<Rightarrow> bregs \<Rightarrow> bregs" where
  "handle_1ab101 env regs =
     set_code_success (set_cl (word_of_int (pe_MaxPCIBus env)) (set_bx 0x0210 (set_al 0x01 regs))
       \<lparr>edx := 0x20494350, edi := pe_entry env + 0xf0000\<rparr>)"

text \<open>The loop over the functions of a bus that leaves when the count of matches has been used up.\<close>

fun find_bdf :: "nat \<Rightarrow> 'h pci_ops \<Rightarrow> (u16 \<Rightarrow> bool) \<Rightarrow> int \<Rightarrow> int \<Rightarrow> int \<Rightarrow> 'h \<Rightarrow> (u16 option \<times> int) option" where
  "find_bdf 0 ops P bus prev count h = None"
| "find_bdf (Suc n) ops P bus prev count h =
     (let bdf = pci_next ops prev bus h
      in if bdf < 0 then Some (None, count)
         else if \<not> P (word_of_int bdf) then find_bdf n ops P bus bdf count h
         else if count \<noteq> 0 then find_bdf n ops P bus bdf (count - 1) h
         else Some (Some (word_of_int bdf), count - 1))"

fun find_bus :: "'h pci_ops \<Rightarrow> (u16 \<Rightarrow> bool) \<Rightarrow> int list \<Rightarrow> int \<Rightarrow> 'h \<Rightarrow> u16 option option" where
  "find_bus ops P [] count h = Some None"
| "find_bus ops P (bus # buses) count h =
     (case find_bdf 257 ops P bus (bus * 256 - 1) count h of
        None \<Rightarrow> None
      | Some (Some bdf, c) \<Rightarrow> Some (Some bdf)
      | Some (None, c) \<Rightarrow> find_bus ops P buses c h)"

definition find_result :: "bregs \<Rightarrow> u16 option option \<Rightarrow> bregs option" where
  "find_result regs r =
     map_option (\<lambda>f. case f of Some bdf \<Rightarrow> set_code_success (set_bx bdf regs) | None \<Rightarrow> set_code_invalid_silent RET_DEVICE_NOT_FOUND regs) r"

definition handle_1ab102 :: "'h pcibios_env \<Rightarrow> bregs \<Rightarrow> 'h \<Rightarrow> bregs option" where
  "handle_1ab102 env regs h =
     (let ident = push_bit 16 (ucast (r16 (ecx regs))) OR ucast (r16 (edx regs)) :: u32; count = uint (r16 (esi regs))
      in find_result regs (find_bus (pe_ops env) (\<lambda>bdf. pci_config_readl (pe_ops env) bdf PCI_VENDOR_ID h = ident)
           [0..pe_MaxPCIBus env] count h))"

definition handle_1ab103 :: "'h pcibios_env \<Rightarrow> bregs \<Rightarrow> 'h \<Rightarrow> bregs option" where
  "handle_1ab103 env regs h =
     (let count = uint (r16 (esi regs)); classprog = ecx regs
      in find_result regs (find_bus (pe_ops env) (\<lambda>bdf. drop_bit 8 (pci_config_readl (pe_ops env) bdf PCI_CLASS_REVISION h) = classprog)
           [0..pe_MaxPCIBus env] count h))"

text \<open>The address of a function and of a register in it, \<open>bx\<close> and \<open>di\<close>.\<close>

abbreviation reg_di :: "bregs \<Rightarrow> u32" where "reg_di regs \<equiv> ucast (r16 (edi regs))"
abbreviation reg_bx :: "bregs \<Rightarrow> u16" where "reg_bx regs \<equiv> r16 (ebx regs)"

definition handle_1ab108 :: "'h pcibios_env \<Rightarrow> bregs \<Rightarrow> 'h \<Rightarrow> bregs" where
  "handle_1ab108 env regs h = set_code_success (set_cl (pci_config_readb (pe_ops env) (reg_bx regs) (reg_di regs) h) regs)"

definition handle_1ab109 :: "'h pcibios_env \<Rightarrow> bregs \<Rightarrow> 'h \<Rightarrow> bregs" where
  "handle_1ab109 env regs h = set_code_success (set_cx (pci_config_readw (pe_ops env) (reg_bx regs) (reg_di regs) h) regs)"

definition handle_1ab10a :: "'h pcibios_env \<Rightarrow> bregs \<Rightarrow> 'h \<Rightarrow> bregs" where
  "handle_1ab10a env regs h = set_code_success (regs\<lparr>ecx := pci_config_readl (pe_ops env) (reg_bx regs) (reg_di regs) h\<rparr>)"

definition handle_1ab10b :: "'h pcibios_env \<Rightarrow> bregs \<Rightarrow> 'h \<Rightarrow> bregs \<times> 'h" where
  "handle_1ab10b env regs h = (set_code_success regs, pci_config_writeb (pe_ops env) (reg_bx regs) (reg_di regs) (rl (ecx regs)) h)"

definition handle_1ab10c :: "'h pcibios_env \<Rightarrow> bregs \<Rightarrow> 'h \<Rightarrow> bregs \<times> 'h" where
  "handle_1ab10c env regs h = (set_code_success regs, pci_config_writew (pe_ops env) (reg_bx regs) (reg_di regs) (r16 (ecx regs)) h)"

definition handle_1ab10d :: "'h pcibios_env \<Rightarrow> bregs \<Rightarrow> 'h \<Rightarrow> bregs \<times> 'h" where
  "handle_1ab10d env regs h = (set_code_success regs, pci_config_writel (pe_ops env) (reg_bx regs) (reg_di regs) (ecx regs) h)"

text \<open>The routing options: the slots of the table are copied to the buffer that the parameter block at \<open>es:di\<close> names, if it
  is large enough. The table lies in the segment of the BIOS.\<close>

definition handle_1ab10e :: "'h pcibios_env \<Rightarrow> bregs \<Rightarrow> mem \<Rightarrow> bregs \<times> mem" where
  "handle_1ab10e env regs m =
     (let pir = pe_PirAddr env; param = (\<lambda>off. MAKE_FLATPTR (es regs) (reg_di regs + off))
      in if pir = 0 then (set_code_invalid_silent RET_FUNC_NOT_SUPPORTED regs, m)
         else
           let bufsize = get_mem 2 (param 0) m :: u16;
               pirsize = get_mem 2 (pir + 6) m - sizeof_pir_header;
               m1 = set_mem 2 (param 0) pirsize m
           in if bufsize < pirsize then (set_code_invalid_silent RET_BUFFER_TOO_SMALL regs, m1)
              else
                let buf_far = get_mem 2 (param 2) m1 :: u16; buf_seg = get_mem 2 (param 4) m1;
                    m2 = memcpy_far buf_seg (ucast buf_far) SEG_BIOS (pir + 32 - 0xf0000) (ucast pirsize) m1
                in (set_code_success (set_bx (get_mem 2 (pir + 10) m2) regs), m2))"

definition handle_1ab1XX :: "bregs \<Rightarrow> bregs" where
  "handle_1ab1XX regs = set_code_invalid_silent RET_FUNC_NOT_SUPPORTED regs"

definition handle_1ab1 :: "'h pcibios_env \<Rightarrow> 'h pcibios_state \<Rightarrow> 'h pcibios_state option" where
  "handle_1ab1 env = (\<lambda>(regs, m, h).
     let f = rl (eax regs)
     in if f = 0x01 then Some (handle_1ab101 env regs, m, h)
        else if f = 0x02 then map_option (\<lambda>r. (r, m, h)) (handle_1ab102 env regs h)
        else if f = 0x03 then map_option (\<lambda>r. (r, m, h)) (handle_1ab103 env regs h)
        else if f = 0x08 then Some (handle_1ab108 env regs h, m, h)
        else if f = 0x09 then Some (handle_1ab109 env regs h, m, h)
        else if f = 0x0a then Some (handle_1ab10a env regs h, m, h)
        else if f = 0x0b then Some (let (r, h1) = handle_1ab10b env regs h in (r, m, h1))
        else if f = 0x0c then Some (let (r, h1) = handle_1ab10c env regs h in (r, m, h1))
        else if f = 0x0d then Some (let (r, h1) = handle_1ab10d env regs h in (r, m, h1))
        else if f = 0x0e then Some (let (r, m1) = handle_1ab10e env regs m in (r, m1, h))
        else Some (handle_1ab1XX regs, m, h))"

definition handle_pcibios :: "'h pcibios_env \<Rightarrow> 'h pcibios_state \<Rightarrow> 'h pcibios_state option" where
  "handle_pcibios env s = handle_1ab1 env s"

text \<open>The directory of 32-bit services: signature, entry, version, length in units of 16, checksum, reserved.\<close>

definition BIOS32HEADER :: "u8 list" where
  "BIOS32HEADER = le_bytes 4 (0x5f32335f :: u32) @ le_bytes 4 (0 :: u32) @ [0, 1, 0, 0, 0, 0, 0, 0]"

definition bios32_init :: "u32 \<Rightarrow> u32 \<Rightarrow> mem \<Rightarrow> mem" where
  "bios32_init p entry_bios32 m =
     (let m1 = set_mem 4 (p + 4) entry_bios32 m in m1(p + 10 := m1 (p + 10) - checksum m1 p 16))"

section \<open>Plug and play\<close>

definition FUNCTION_NOT_SUPPORTED :: u16 where "FUNCTION_NOT_SUPPORTED = 0x82"

definition handle_pnp60 :: "(nat \<Rightarrow> u16) \<Rightarrow> mem \<Rightarrow> u16 \<times> mem" where
  "handle_pnp60 args m = (0, set_mem 2 (MAKE_FLATPTR (args 2) (ucast (args 1))) (0x0101 :: u16) m)"

definition handle_pnpXX :: u16 where "handle_pnpXX = FUNCTION_NOT_SUPPORTED"

definition handle_pnp :: "(nat \<Rightarrow> u16) \<Rightarrow> mem \<Rightarrow> u16 \<times> mem" where
  "handle_pnp args m = (if args 0 = 0x60 then handle_pnp60 args m else (handle_pnpXX, m))"

text \<open>The header at \<open>p\<close>: the entry points of the two modes, and the checksum.\<close>

definition PNPHEADER :: "u8 list" where
  "PNPHEADER = le_bytes 4 (0x506e5024 :: u32) @ [0x10, 0x21] @ replicate 2 0 @ [0] @ replicate 4 0 @ replicate 2 0 @
     le_bytes 2 SEG_BIOS @ replicate 2 0 @ le_bytes 4 (0xf0000 :: u32) @ replicate 4 0 @ le_bytes 2 SEG_BIOS @ le_bytes 4 (0xf0000 :: u32)"

definition get_pnp_offset :: "u32 \<Rightarrow> u16" where "get_pnp_offset p = ucast (p - 0xf0000)"

definition pnp_init :: "u32 \<Rightarrow> u32 \<Rightarrow> u32 \<Rightarrow> mem \<Rightarrow> mem" where
  "pnp_init p entry_real entry_prot m =
     (let m1 = set_mem 2 (p + 13) (ucast (entry_real - 0xf0000) :: u16) m;
          m2 = set_mem 2 (p + 17) (ucast (entry_prot - 0xf0000) :: u16) m1
      in m2(p + 8 := m2 (p + 8) - checksum m2 p 33))"

section \<open>The searches\<close>

text \<open>The functions that \<open>foreachbdf\<close> visits on a bus after \<open>prev\<close>, and all functions of the machine.\<close>

fun bus_functions :: "nat \<Rightarrow> 'h pci_ops \<Rightarrow> int \<Rightarrow> int \<Rightarrow> 'h \<Rightarrow> int list" where
  "bus_functions 0 ops bus prev h = []"
| "bus_functions (Suc n) ops bus prev h =
     (let bdf = pci_next ops prev bus h in if bdf < 0 then [] else bdf # bus_functions n ops bus bdf h)"

definition machine_functions :: "'h pcibios_env \<Rightarrow> 'h \<Rightarrow> u16 list" where
  "machine_functions env h =
     map word_of_int (concat (map (\<lambda>bus. bus_functions 257 (pe_ops env) bus (bus * 256 - 1) h) [0..pe_MaxPCIBus env]))"

text \<open>A function after \<open>prev\<close>, on the bus.\<close>

lemma next_function:
  assumes "0 \<le> bus" "bus < 256" "bus * 256 - 1 \<le> prev" "prev < bus * 256 + 256" "\<not> pci_next ops prev bus h < 0"
  shows "prev < pci_next ops prev bus h" "pci_next ops prev bus h < bus * 256 + 256"
  using pci_next_forward [OF assms(1-4), of ops h] assms(5) by auto

lemma bus_functions_sorted:
  assumes "0 \<le> bus" "bus < 256" "bus * 256 - 1 \<le> prev" "prev < bus * 256 + 256"
  shows "sorted_wrt (<) (bus_functions n ops bus prev h) \<and> (\<forall>b \<in> set (bus_functions n ops bus prev h). prev < b \<and> b < bus * 256 + 256)"
  using assms(3,4)
proof (induction n arbitrary: prev)
  case (Suc n)
  let ?b = "pci_next ops prev bus h"
  show ?case
  proof (cases "?b < 0")
    case False
    note b = next_function [OF assms(1,2) Suc.prems False]
    from Suc.IH [of ?b] b Suc.prems show ?thesis using False by (fastforce simp: Let_def)
  qed (simp add: Let_def)
qed simp

lemma find_bdf_nth:
  assumes "0 \<le> bus" "bus < 256" "bus * 256 - 1 \<le> prev" "prev < bus * 256 + 256" "nat (bus * 256 + 255 - prev) < n" "0 \<le> count"
  shows "find_bdf n ops P bus prev count h =
    (let l = filter P (map word_of_int (bus_functions n ops bus prev h))
     in Some (if nat count < length l then (Some (l ! nat count), -1) else (None, count - int (length l))))"
  using assms(3-6)
proof (induction n arbitrary: prev count)
  case (Suc n)
  let ?b = "pci_next ops prev bus h"
  show ?case
  proof (cases "?b < 0")
    case True
    then show ?thesis by (simp add: Let_def)
  next
    case False
    note b = next_function [OF assms(1,2) Suc.prems(1,2) False]
    have r: "bus * 256 - 1 \<le> ?b" "?b < bus * 256 + 256" "nat (bus * 256 + 255 - ?b) < n" using b Suc.prems by linarith+
    show ?thesis
    proof (cases "P (word_of_int ?b) \<and> count = 0")
      case True
      then show ?thesis using False by (simp add: Let_def)
    next
      case go: False
      show ?thesis using Suc.IH [OF r, of count] Suc.IH [OF r, of "count - 1"] Suc.prems(4) False go
        by (auto simp: Let_def nth_Cons' nat_diff_distrib)
    qed
  qed
qed simp

lemma find_bus_nth:
  assumes "\<forall>bus \<in> set buses. 0 \<le> bus \<and> bus < 256" "0 \<le> count"
  shows "find_bus ops P buses count h =
    (let l = filter P (map word_of_int (concat (map (\<lambda>bus. bus_functions 257 ops bus (bus * 256 - 1) h) buses)))
     in Some (if nat count < length l then Some (l ! nat count) else None))"
  using assms
proof (induction buses arbitrary: count)
  case (Cons bus buses)
  define l where "l = filter P (map word_of_int (bus_functions 257 ops bus (bus * 256 - 1) h))"
  have "find_bdf 257 ops P bus (bus * 256 - 1) count h =
      Some (if nat count < length l then (Some (l ! nat count), -1) else (None, count - int (length l)))"
    using find_bdf_nth [of bus "bus * 256 - 1" 257 count ops P h] Cons.prems by (simp add: l_def)
  moreover have "\<not> nat count < length l \<Longrightarrow> 0 \<le> count - int (length l) \<and> nat (count - int (length l)) = nat count - length l"
    using Cons.prems(2) by auto
  ultimately show ?case using Cons.IH [of "count - int (length l)"] Cons.prems
    by (auto simp: Let_def nth_append simp flip: l_def)
qed simp

lemma concat_sorted:
  assumes "\<And>b. b \<in> set bs \<Longrightarrow> sorted_wrt (<) (f b) \<and> (\<forall>x \<in> set (f b). b * 256 - 1 < x \<and> x < b * 256 + (256 :: int))" "sorted_wrt (<) bs"
  shows "sorted_wrt (<) (concat (map f bs))"
  using assms
proof (induction bs)
  case (Cons b bs)
  have "x < y" if "x \<in> set (f b)" "c \<in> set bs" "y \<in> set (f c)" for x y c
  proof -
    have "b < c" "x < b * 256 + 256" "c * 256 - 1 < y" using Cons.prems that by auto
    then show ?thesis by linarith
  qed
  then show ?case using Cons by (auto simp: sorted_wrt_append)
qed simp

lemma machine_functions_sorted:
  assumes "pe_MaxPCIBus env < 256"
  shows "sorted_wrt (<) (machine_functions env h)"
proof -
  let ?f = "\<lambda>bus. bus_functions 257 (pe_ops env) bus (bus * 256 - 1) h"
  have bus: "sorted_wrt (<) (?f b) \<and> (\<forall>x \<in> set (?f b). b * 256 - 1 < x \<and> x < b * 256 + 256)" if "b \<in> set [0..pe_MaxPCIBus env]" for b
    using that assms bus_functions_sorted [of b "b * 256 - 1" 257 "pe_ops env" h] by simp
  then have "sorted_wrt (<) (concat (map ?f [0..pe_MaxPCIBus env]))" by (rule concat_sorted) simp_all
  moreover have "0 \<le> x \<and> x < 65536" if m: "x \<in> set (concat (map ?f [0..pe_MaxPCIBus env]))" for x
  proof -
    obtain b where "b \<in> set [0..pe_MaxPCIBus env]" "x \<in> set (?f b)" using m unfolding set_concat set_map by blast
    then have "b * 256 - 1 < x" "x < b * 256 + 256" "0 \<le> b" "b < 256" using bus assms by auto
    then show ?thesis by linarith
  qed
  moreover have "(word_of_int x :: u16) < word_of_int y" if "0 \<le> x" "x < y" "y < 65536" for x y :: int
    using that by (simp add: word_less_def uint_word_of_int)
  ultimately show ?thesis unfolding machine_functions_def sorted_wrt_map by (blast intro: sorted_wrt_mono_rel)
qed

text \<open>
  C36. Function 2 and 3 of the PCI BIOS find the devices by number: with \<open>k\<close> in \<open>si\<close> the result is the \<open>k\<close>-th function of the
  machine with that identification or class, in increasing order, and when there are fewer the error for an unknown device.
\<close>

theorem pcibios_finds_nth:
  assumes "pe_MaxPCIBus env < 256"
  shows "sorted_wrt (<) (machine_functions env h) \<and>
    (\<forall>regs. let k = unat (r16 (esi regs));
                l = filter (\<lambda>f. pci_config_readl (pe_ops env) f PCI_VENDOR_ID h = push_bit 16 (ucast (r16 (ecx regs))) OR ucast (r16 (edx regs)))
                      (machine_functions env h)
            in handle_1ab102 env regs h =
              Some (if k < length l then set_code_success (set_bx (l ! k) regs) else set_code_invalid_silent RET_DEVICE_NOT_FOUND regs)) \<and>
    (\<forall>regs. let k = unat (r16 (esi regs));
                l = filter (\<lambda>f. drop_bit 8 (pci_config_readl (pe_ops env) f PCI_CLASS_REVISION h) = ecx regs) (machine_functions env h)
            in handle_1ab103 env regs h =
              Some (if k < length l then set_code_success (set_bx (l ! k) regs) else set_code_invalid_silent RET_DEVICE_NOT_FOUND regs))"
proof -
  have "find_bus (pe_ops env) P [0..pe_MaxPCIBus env] (uint (r16 (esi regs))) h =
      Some (if unat (r16 (esi regs)) < length (filter P (machine_functions env h)) then Some (filter P (machine_functions env h) ! unat (r16 (esi regs))) else None)"
    for P and regs :: bregs
    using find_bus_nth [of "[0..pe_MaxPCIBus env]" "uint (r16 (esi regs))" "pe_ops env" P h] assms
    by (simp add: machine_functions_def Let_def)
  then show ?thesis
    using machine_functions_sorted [OF assms] by (simp add: handle_1ab102_def handle_1ab103_def find_result_def Let_def)
qed

definition pcibios_sample :: "u32 pcibios_env" where
  "pcibios_sample = \<lparr>pe_ops = one_bar, pe_MaxPCIBus = 1, pe_entry = 0x1234, pe_PirAddr = 0\<rparr>"

theorem pcibios_finds_nth_witness:
  "sorted_wrt (<) (machine_functions pcibios_sample 0) \<and>
   (let l = filter (\<lambda>f. pci_config_readl one_bar f PCI_VENDOR_ID 0 = 0) (machine_functions pcibios_sample 0)
    in handle_1ab102 pcibios_sample bregs_zero 0 =
      Some (if 0 < length l then set_code_success (set_bx (l ! 0) bregs_zero) else set_code_invalid_silent RET_DEVICE_NOT_FOUND bregs_zero))"
proof -
  have z: "unat (r16 (esi bregs_zero)) = 0" "push_bit 16 (ucast (r16 (ecx bregs_zero))) OR ucast (r16 (edx bregs_zero)) = (0 :: u32)"
    by (simp_all add: bregs_zero_def r16_def)
  have e: "pe_MaxPCIBus pcibios_sample < 256" "pe_ops pcibios_sample = one_bar" by (simp_all add: pcibios_sample_def)
  note t = pcibios_finds_nth [OF e(1), of 0, unfolded Let_def e(2)]
  show ?thesis using t [THEN conjunct1] t [THEN conjunct2, THEN conjunct1, THEN spec, of bregs_zero, unfolded z]
    by (simp only: Let_def simp_thms)
qed

text \<open>The checksums of the two headers.\<close>

lemma bios32_init_checksum: "checksum (bios32_init p entry m) p 16 = 0"
  by (simp add: bios32_init_def Let_def checksum_update)

lemma pnp_init_checksum: "checksum (pnp_init p er ep m) p 33 = 0"
  by (simp add: pnp_init_def Let_def checksum_update)

end
