(* ===== verification/BiosTables.thy ===== *)
theory BiosTables
  imports FarMem Timer Pci "HOL-Library.Monad_Syntax"
begin

text \<open>
  The tables that the firmware hands over (\<open>src/fw/biostables.c\<close>): the interrupt routing table, the multiprocessor table,
  ACPI and SMBIOS. They are found in memory, checked, and copied into the segment of the BIOS; SMBIOS tables from files of
  the emulator are completed first. Fields are read at their offsets, as the packed structures have them. Searches that
  follow lengths from the tables are partial functions; the display of the machine's identification is left out.
\<close>

section \<open>State\<close>

record acpi_ga =
  ga_space :: u8
  ga_width :: u8
  ga_offset :: u8
  ga_address :: u64

record tables_state =
  t_fw :: fwstate
  PirAddr :: u32
  RsdpAddr :: u32
  SMBiosAddr :: u32
  acpi_reset_reg :: acpi_ga
  acpi_reset_val :: u8
  acpi_pm1a_cnt :: u32
  t_timer :: timer_state

abbreviation t_mem :: "tables_state \<Rightarrow> mem" where "t_mem st \<equiv> r_mem (t_fw st)"

definition upd_tmem :: "(mem \<Rightarrow> mem) \<Rightarrow> tables_state \<Rightarrow> tables_state" where
  "upd_tmem f st = st\<lparr>t_fw := (t_fw st)\<lparr>r_mem := f (r_mem (t_fw st))\<rparr>\<rparr>"

definition t_malloc_fseg :: "u32 \<Rightarrow> tables_state \<Rightarrow> tables_state \<times> u32" where
  "t_malloc_fseg n st = (let (fw, p) = fw_alloc ZoneFSeg n MALLOC_MIN_ALIGN (t_fw st) in (st\<lparr>t_fw := fw\<rparr>, p))"

definition PIR_SIGNATURE :: u32 where "PIR_SIGNATURE = 0x52495024"
definition MPTABLE_SIGNATURE :: u32 where "MPTABLE_SIGNATURE = 0x5f504d5f"
definition RSDP_SIGNATURE :: u64 where "RSDP_SIGNATURE = 0x2052545020445352"
definition RSDT_SIGNATURE :: u32 where "RSDT_SIGNATURE = 0x54445352"
definition FACP_SIGNATURE :: u32 where "FACP_SIGNATURE = 0x50434146"
definition FACS_SIGNATURE :: u32 where "FACS_SIGNATURE = 0x53434146"
definition SMBIOS_SIGNATURE :: u32 where "SMBIOS_SIGNATURE = 0x5f4d535f"
definition BUILD_MAX_MPTABLE_FSEG :: u32 where "BUILD_MAX_MPTABLE_FSEG = 600"
definition BUILD_MAX_SMBIOS_FSEG :: u32 where "BUILD_MAX_SMBIOS_FSEG = 600"

section \<open>Copies\<close>

text \<open>A table of \<open>n\<close> bytes at \<open>pos\<close> is copied to new memory in the segment; the address is zero when there is none.\<close>

definition copy_to_fseg :: "u32 \<Rightarrow> u32 \<Rightarrow> tables_state \<Rightarrow> u32 \<times> tables_state" where
  "copy_to_fseg pos n st =
     (let (st1, newpos) = t_malloc_fseg n st
      in if newpos = 0 then (0, st1) else (newpos, upd_tmem (mem_write newpos (mem_read (t_mem st1) pos (unat n))) st1))"

definition copy_pir :: "u32 \<Rightarrow> tables_state \<Rightarrow> tables_state" where
  "copy_pir pos st =
     (let m = t_mem st; n = get_mem 2 (pos + 6) m :: u16
      in if get_mem 4 pos m \<noteq> PIR_SIGNATURE \<or> PirAddr st \<noteq> 0 \<or> n < 32 \<or> checksum m pos (ucast n) \<noteq> 0 then st
         else let (newpos, st1) = copy_to_fseg pos (ucast n) st in if newpos = 0 then st1 else st1\<lparr>PirAddr := newpos\<rparr>)"

definition copy_mptable :: "u32 \<Rightarrow> tables_state \<Rightarrow> tables_state" where
  "copy_mptable pos st =
     (let m = t_mem st; physaddr = get_mem 4 (pos + 4) m :: u32
      in if get_mem 4 pos m \<noteq> MPTABLE_SIGNATURE \<or> physaddr = 0 \<or> checksum m pos 16 \<noteq> 0 then st
         else
           let len = ucast (m (pos + 8)) * 16 :: u32; mpclength = get_mem 2 (physaddr + 4) m :: u16
           in if len + ucast mpclength > BUILD_MAX_MPTABLE_FSEG then st
              else
                let (st1, newpos) = t_malloc_fseg (len + ucast mpclength) st
                in if newpos = 0 then st1
                   else
                     let m1 = mem_write newpos (mem_read m pos (unat len)) m;
                         m2 = set_mem 4 (newpos + 4) (newpos + len) m1;
                         m3 = m2(newpos + 10 := m2 (newpos + 10) - checksum m2 newpos 16);
                         m4 = mem_write (newpos + len) (mem_read m3 (get_mem 4 (pos + 4) m3) (unat mpclength)) m3
                     in upd_tmem (\<lambda>_. m4) st1)"

section \<open>ACPI\<close>

definition get_acpi_rsdp_length :: "mem \<Rightarrow> u32 \<Rightarrow> u32 \<Rightarrow> int" where
  "get_acpi_rsdp_length m pos sz =
     (if get_mem 8 pos m \<noteq> RSDP_SIGNATURE \<or> 20 > sz \<or> checksum m pos 20 \<noteq> 0 then -1
      else if m (pos + 15) > 1 then
        let len = get_mem 4 (pos + 20) m :: u32
        in if len > sz \<or> checksum m pos len \<noteq> 0 then -1 else sint len
      else 20)"

definition copy_acpi_rsdp :: "u32 \<Rightarrow> tables_state \<Rightarrow> tables_state" where
  "copy_acpi_rsdp pos st =
     (if RsdpAddr st \<noteq> 0 then st
      else
        let len = get_acpi_rsdp_length (t_mem st) pos (- 1)
        in if len < 0 then st
           else let (newpos, st1) = copy_to_fseg pos (of_int len) st in if newpos = 0 then st1 else st1\<lparr>RsdpAddr := newpos\<rparr>)"

text \<open>The positions of the search: each multiple of 16 from the start to the end of the zone.\<close>

definition rsdp_positions :: "u32 \<Rightarrow> u32 \<Rightarrow> u32 list" where
  "rsdp_positions zonefseg_start zonefseg_end =
     (let a = ALIGN zonefseg_start 16; e = ALIGN_DOWN zonefseg_end 16
      in if a \<le> e then map (\<lambda>i. a + 16 * of_nat i) [0..<unat (e - a) div 16 + 1] else [])"

definition find_acpi_rsdp :: "u32 \<Rightarrow> u32 \<Rightarrow> mem \<Rightarrow> u32" where
  "find_acpi_rsdp zonefseg_start zonefseg_end m =
     (case List.find (\<lambda>pos. get_acpi_rsdp_length m pos (zonefseg_end - pos) \<ge> 0) (rsdp_positions zonefseg_start zonefseg_end) of
        None \<Rightarrow> 0 | Some pos \<Rightarrow> pos)"

text \<open>The loop over the entries of the root table.\<close>

partial_function (option) acpi_table_loop :: "mem \<Rightarrow> u32 \<Rightarrow> u32 \<Rightarrow> u32 \<Rightarrow> u32 option" where
  "acpi_table_loop m signature p e =
     (if p \<ge> e then Some 0
      else
        let tbl = get_mem 4 p m :: u32
        in if tbl = 0 \<or> get_mem 4 tbl m \<noteq> signature then acpi_table_loop m signature (p + 4) e else Some tbl)"

definition find_acpi_table :: "u32 \<Rightarrow> tables_state \<Rightarrow> u32 option" where
  "find_acpi_table signature st =
     (let m = t_mem st
      in if RsdpAddr st = 0 \<or> get_mem 8 (RsdpAddr st) m \<noteq> RSDP_SIGNATURE then Some 0
         else
           let rsdt = get_mem 4 (RsdpAddr st + 16) m :: u32
           in if rsdt = 0 \<or> get_mem 4 rsdt m \<noteq> RSDT_SIGNATURE then Some 0
              else acpi_table_loop m signature (rsdt + 36) (rsdt + get_mem 4 (rsdt + 4) m))"

definition find_resume_vector :: "tables_state \<Rightarrow> u32 option" where
  "find_resume_vector st =
     map_option (\<lambda>fadt.
       if fadt = 0 then 0
       else
         let facs = get_mem 4 (fadt + 36) (t_mem st) :: u32
         in if facs = 0 \<or> get_mem 4 facs (t_mem st) \<noteq> FACS_SIGNATURE then 0 else get_mem 4 (facs + 12) (t_mem st))
       (find_acpi_table FACP_SIGNATURE st)"

text \<open>What \<open>acpi_reboot\<close> does.\<close>

datatype reboot_write = RebootNone | RebootMem u32 u8 | RebootPort u16 u8 | RebootPci u16 u32 u8

definition acpi_ga_to_bdf :: "u64 \<Rightarrow> u16" where
  "acpi_ga_to_bdf addr = push_bit 3 (ucast (drop_bit 32 addr AND 0xffff)) OR ucast (drop_bit 16 addr AND 0xffff)"

definition acpi_reboot :: "tables_state \<Rightarrow> reboot_write" where
  "acpi_reboot st =
     (let r = acpi_reset_reg st; addr = ga_address r; v = acpi_reset_val st
      in if ga_width r \<noteq> 8 then RebootNone
         else if ga_space r = 0 then RebootMem (ucast addr) v
         else if ga_space r = 1 then RebootPort (ucast addr) v
         else if ga_space r = 2 then RebootPci (acpi_ga_to_bdf addr) (ucast (addr AND 0xffff)) v
         else RebootNone)"

definition acpi_set_reset_reg :: "u32 \<Rightarrow> u8 \<Rightarrow> tables_state \<Rightarrow> tables_state" where
  "acpi_set_reset_reg reg v st =
     (let m = t_mem st
      in if reg = 0 \<or> m reg > 2 \<or> m (reg + 1) \<noteq> 8 \<or> m (reg + 2) \<noteq> 0 then st
         else st\<lparr>acpi_reset_reg := \<lparr>ga_space = m reg, ga_width = m (reg + 1), ga_offset = m (reg + 2), ga_address = get_mem 8 (reg + 4) m\<rparr>,
                 acpi_reset_val := v\<rparr>)"

definition find_acpi_features :: "tables_state \<Rightarrow> tables_state option" where
  "find_acpi_features st =
     map_option (\<lambda>fadt.
       if fadt = 0 then st
       else
         let m = t_mem st; pm_tmr = get_mem 4 (fadt + 76) m :: u32; pm1a_cnt = get_mem 4 (fadt + 64) m :: u32;
             st1 = (if pm_tmr \<noteq> 0 then st\<lparr>t_timer := pmtimer_setup (ucast pm_tmr) (t_timer st)\<rparr> else st);
             st2 = (if pm1a_cnt \<noteq> 0 then st1\<lparr>acpi_pm1a_cnt := pm1a_cnt\<rparr> else st1)
         in if get_mem 4 (fadt + 4) m \<ge> (129 :: u32) then acpi_set_reset_reg (fadt + 116) (m (fadt + 128)) st2 else st2)
       (find_acpi_table FACP_SIGNATURE st)"

section \<open>SMBIOS\<close>

text \<open>The end of the strings after the formatted part of a structure.\<close>

function string_end :: "mem \<Rightarrow> u32 \<Rightarrow> u32 \<Rightarrow> u32" where
  "string_end m p e = (if p < e \<and> (m (p - 1) \<noteq> 0 \<or> m (p - 2) \<noteq> 0) then string_end m (p + 1) e else p)"
  by pat_completeness auto
termination
proof (relation "measure (\<lambda>(m, p, e). unat (e - p))")
  show "wf (measure (\<lambda>(m :: mem, p :: u32, e :: u32). unat (e - p)))" by simp
next
  fix m :: mem and p e :: u32
  assume "p < e \<and> (m (p - 1) \<noteq> 0 \<or> m (p - 2) \<noteq> 0)"
  then have "e - p \<noteq> 0" by auto
  then have "unat (e - p - 1) < unat (e - p)" by (rule measure_unat)
  then show "((m, p + 1, e), m, p, e) \<in> measure (\<lambda>(m, p, e). unat (e - p))" by (simp add: algebra_simps)
qed

declare string_end.simps [simp del]

text \<open>The structure after \<open>prev\<close>, the first one for zero; zero at the end. The entry point is at \<open>smbios\<close>.\<close>

definition smbios_next :: "mem \<Rightarrow> u32 \<Rightarrow> u32 \<Rightarrow> u32" where
  "smbios_next m smbios prev =
     (if smbios = 0 then 0
      else
        let start = get_mem 4 (smbios + 24) m; e = start + ucast (get_mem 2 (smbios + 22) m :: u16)
        in if prev \<noteq> 0 \<and> prev + 4 > e then 0
           else
             let p = (if prev = 0 then start else string_end m (prev + (ucast (m (prev + 1)) + 2)) e)
             in if p \<ge> e \<or> p + 4 \<ge> e \<or> p + ucast (m (p + 1)) \<ge> e then 0 else p)"

definition copy_smbios :: "u32 \<Rightarrow> tables_state \<Rightarrow> tables_state" where
  "copy_smbios pos st =
     (let m = t_mem st; len = m (pos + 5)
      in if SMBiosAddr st \<noteq> 0 \<or> get_mem 4 pos m \<noteq> SMBIOS_SIGNATURE \<or> checksum m pos 0x10 \<noteq> 0 \<or>
           mem_read m (pos + 16) 5 \<noteq> bytes_of ''_DMI_'' \<or> checksum m (pos + 0x10) (ucast len - 0x10) \<noteq> 0 then st
         else let (newpos, st1) = copy_to_fseg pos (ucast len) st in if newpos = 0 then st1 else st1\<lparr>SMBiosAddr := newpos\<rparr>)"

text \<open>A structure of type 0: its formatted part, and the strings that are not empty.\<close>

definition SIZEOF_SMBIOS_TYPE_0 :: nat where "SIZEOF_SMBIOS_TYPE_0 = 24"

definition nonempty_strings :: "u8 list list \<Rightarrow> u8 list list" where
  "nonempty_strings ss = filter (\<lambda>s. s \<noteq> []) ss"

text \<open>The number of the \<open>i\<close>-th string among those present, or zero.\<close>

definition string_index :: "u8 list list \<Rightarrow> nat \<Rightarrow> u8" where
  "string_index ss i = (if ss ! i = [] then 0 else of_nat (length (nonempty_strings (take (Suc i) ss))))"

definition smbios_new_type_0 :: "u8 list \<Rightarrow> u8 list \<Rightarrow> u8 list \<Rightarrow> u8 list" where
  "smbios_new_type_0 vendor version date =
     (let ss = [vendor, version, date]
      in [0, of_nat SIZEOF_SMBIOS_TYPE_0, 0, 0, string_index ss 0, string_index ss 1, 0x00, 0xe8, string_index ss 2, 0,
          0x08, 0, 0, 0, 0, 0, 0, 0, 0, 4, 0, 0, 0xff, 0xff] @
         concat (map (\<lambda>s. s @ [0]) (nonempty_strings ss)) @ (if nonempty_strings ss = [] then [0, 0] else [0]))"

definition BIOS_NAME :: "u8 list" where "BIOS_NAME = bytes_of ''SeaBIOS''"
definition BIOS_DATE :: "u8 list" where "BIOS_DATE = bytes_of ''04/01/2014''"

text \<open>The search for a structure of type 0.\<close>

partial_function (option) has_type_0 :: "mem \<Rightarrow> u32 \<Rightarrow> u32 \<Rightarrow> bool option" where
  "has_type_0 m smbios p =
     (if p = 0 then Some False else if m p = 0 then Some True else has_type_0 m smbios (smbios_next m smbios p))"

definition t_copy_file :: "romfile_s \<Rightarrow> u32 \<Rightarrow> tables_state \<Rightarrow> tables_state" where
  "t_copy_file f dst st =
     st\<lparr>t_fw := snd (file_copy f dst (rf_size f) (t_fw st))\<rparr>"

text \<open>The tables of the emulator, completed by a structure of type 0 when there is none: the entry point is built at \<open>ep\<close>, on the
  stack. The result says whether there were tables; \<open>version\<close> is the version string of the build.\<close>

definition smbios_tables_size :: "bool \<Rightarrow> u8 list \<Rightarrow> u32 \<Rightarrow> mem \<Rightarrow> mem" where
  "smbios_tables_size need_t0 version ep m =
     (if \<not> need_t0 then m
      else
        let t0_len = of_nat (SIZEOF_SMBIOS_TYPE_0 + length BIOS_NAME + length version + length BIOS_DATE + 4) :: u16;
            m1 = set_mem 2 (ep + 22) (get_mem 2 (ep + 22) m + t0_len) m;
            m2 = (if t0_len > get_mem 2 (ep + 8) m1 then set_mem 2 (ep + 8) t0_len m1 else m1)
        in set_mem 2 (ep + 28) (get_mem 2 (ep + 28) m2 + 1 :: u16) m2)"

definition smbios_checksums :: "u32 \<Rightarrow> mem \<Rightarrow> mem" where
  "smbios_checksums ep m =
     (let m1 = m(ep + 4 := m (ep + 4) - checksum m ep 0x10)
      in m1(ep + 21 := m1 (ep + 21) - checksum m1 (ep + 0x10) (ucast (m1 (ep + 5)) - 0x10)))"

text \<open>The second half: the final tables, the entry point, and the release of the copy at \<open>qtables\<close>.\<close>

definition smbios_finish :: "u8 list \<Rightarrow> u32 \<Rightarrow> u32 \<Rightarrow> u16 \<Rightarrow> bool \<Rightarrow> tables_state \<Rightarrow> bool \<times> tables_state" where
  "smbios_finish version ep qtables qlen t0 st =
     (let st5 = upd_tmem (smbios_tables_size (\<not> t0) version ep) st;
          n = ucast (get_mem 2 (ep + 22) (t_mem st5) :: u16) :: u32;
          (fw, tables) = (if n > BUILD_MAX_SMBIOS_FSEG then malloc_high n (t_fw st5) else fw_alloc ZoneFSeg n MALLOC_MIN_ALIGN (t_fw st5));
          st6 = st5\<lparr>t_fw := fw\<rparr>
      in if tables = 0 then (False, st6\<lparr>t_fw := free qtables (t_fw st6)\<rparr>)
         else
           let t0s = (if t0 then [] else smbios_new_type_0 BIOS_NAME version BIOS_DATE);
               m1 = mem_write tables t0s (set_mem 4 (ep + 24) tables (t_mem st6));
               m2 = mem_write (tables + of_nat (length t0s)) (mem_read m1 qtables (unat qlen)) m1;
               st7 = upd_tmem (\<lambda>_. m2) st6;
               st8 = upd_tmem (smbios_checksums ep) (st7\<lparr>t_fw := free qtables (t_fw st7)\<rparr>)
           in (True, copy_smbios ep st8))"

definition smbios_romfile_setup :: "u8 list \<Rightarrow> u32 \<Rightarrow> tables_state \<Rightarrow> (bool \<times> tables_state) option" where
  "smbios_romfile_setup version ep st =
     (case romfile_find (bytes_of ''etc/smbios/smbios-anchor'') (t_fw st) of
        None \<Rightarrow> Some (False, st)
      | Some f_anchor \<Rightarrow>
     (case romfile_find (bytes_of ''etc/smbios/smbios-tables'') (t_fw st) of
        None \<Rightarrow> Some (False, st)
      | Some f_tables \<Rightarrow>
          if rf_size f_anchor \<noteq> 31 then Some (False, st)
          else
            let st1 = t_copy_file f_anchor ep st; qlen = get_mem 2 (ep + 22) (t_mem st1) :: u16
            in if rf_size f_tables \<noteq> ucast qlen then Some (False, st1)
               else
                 let (fw, qtables) = malloc_tmphigh (rf_size f_tables) (t_fw st1); st2 = st1\<lparr>t_fw := fw\<rparr>
                 in if qtables = 0 then Some (False, st2)
                    else
                      let st3 = t_copy_file f_tables qtables st2; st4 = upd_tmem (set_mem 4 (ep + 24) qtables) st3
                      in map_option (\<lambda>t0. smbios_finish version ep qtables qlen t0 st4)
                           (has_type_0 (t_mem st4) ep (smbios_next (t_mem st4) ep 0))))"

definition copy_table :: "u32 \<Rightarrow> tables_state \<Rightarrow> tables_state" where
  "copy_table pos st = copy_smbios pos (copy_acpi_rsdp pos (copy_mptable pos (copy_pir pos st)))"

section \<open>Walking over the structures\<close>

text \<open>The end of the strings: the first position, not before the start, with two zeros in front of it.\<close>

lemma string_end_finds:
  fixes p e :: u32
  assumes "unat p + k \<le> unat e" "\<And>i. i < k \<Longrightarrow> m (p + of_nat i - 1) \<noteq> 0 \<or> m (p + of_nat i - 2) \<noteq> 0"
    "m (p + of_nat k - 1) = 0" "m (p + of_nat k - 2) = 0"
  shows "string_end m p e = p + of_nat k"
  using assms
proof (induction k arbitrary: p)
  case 0
  then show ?case by (subst string_end.simps) simp
next
  case (Suc k)
  have e: "unat e < 2 ^ 32" using unat_u32_bound [of e] by simp
  then have p: "unat (p + 1) = unat p + 1" using Suc.prems(1) by (simp add: unat_word_ariths)
  have more: "p < e \<and> (m (p - 1) \<noteq> 0 \<or> m (p - 2) \<noteq> 0)"
    using Suc.prems(1) Suc.prems(2) [of 0] by (simp add: word_less_nat_alt)
  have "string_end m (p + 1) e = p + 1 + of_nat k"
  proof (rule Suc.IH)
    show "unat (p + 1) + k \<le> unat e" using Suc.prems(1) p by simp
    show "m (p + 1 + of_nat i - 1) \<noteq> 0 \<or> m (p + 1 + of_nat i - 2) \<noteq> 0" if "i < k" for i
      using Suc.prems(2) [of "Suc i"] that by (simp add: algebra_simps)
    show "m (p + 1 + of_nat k - 1) = 0" using Suc.prems(3) by (simp add: algebra_simps)
    show "m (p + 1 + of_nat k - 2) = 0" using Suc.prems(4) by (simp add: algebra_simps)
  qed
  then show ?case using more by (subst string_end.simps) (simp add: algebra_simps)
qed

text \<open>The strings of a structure: no empty one, and a zero after each and one more at the end.\<close>

definition strings_bytes :: "u8 list list \<Rightarrow> u8 list" where
  "strings_bytes ss = concat (map (\<lambda>s. s @ [0]) ss) @ [0]"

lemma strings_no_double_zero:
  assumes "\<And>s. s \<in> set ss \<Longrightarrow> s \<noteq> [] \<and> 0 \<notin> set s"
  shows "\<forall>i < length (strings_bytes ss) - 1. 0 < i \<longrightarrow> strings_bytes ss ! i \<noteq> 0 \<or> strings_bytes ss ! (i - 1) \<noteq> 0"
  using assms
proof (induction ss)
  case Nil
  then show ?case by (simp add: strings_bytes_def)
next
  case (Cons s ss)
  note all = Cons.prems
  have s: "s \<noteq> []" "0 \<notin> set s" using Cons.prems [of s] by auto
  have IH: "\<forall>i < length (strings_bytes ss) - 1. 0 < i \<longrightarrow> strings_bytes ss ! i \<noteq> 0 \<or> strings_bytes ss ! (i - 1) \<noteq> 0"
    using Cons.IH Cons.prems by auto
  have eq: "strings_bytes (s # ss) = s @ 0 # strings_bytes ss" by (simp add: strings_bytes_def)
  have ne: "strings_bytes ss \<noteq> []" by (simp add: strings_bytes_def)
  have first: "strings_bytes ss ! 0 \<noteq> 0" if "length (strings_bytes ss) > 1"
  proof (cases ss)
    case Nil
    then show ?thesis using that by (simp add: strings_bytes_def)
  next
    case (Cons a as)
    then have "a \<noteq> [] \<and> 0 \<notin> set a" using all [of a] by simp
    then show ?thesis using Cons by (cases a) (auto simp: strings_bytes_def nth_append)
  qed
  show ?case
  proof (intro allI impI)
    fix i assume i: "i < length (strings_bytes (s # ss)) - 1" "0 < i"
    have "s ! j \<noteq> 0" if "j < length s" for j using s that nth_mem by force
    then consider "i \<le> length s" | "i = length s + 1" | "i > length s + 1" by linarith
    then show "strings_bytes (s # ss) ! i \<noteq> 0 \<or> strings_bytes (s # ss) ! (i - 1) \<noteq> 0"
    proof cases
      case 1
      then show ?thesis using i s \<open>\<And>j. j < length s \<Longrightarrow> s ! j \<noteq> 0\<close> [of "i - 1"] by (auto simp: eq nth_append)
    next
      case 2
      then show ?thesis using i first by (auto simp: eq nth_append)
    next
      case 3
      then show ?thesis using i IH [rule_format, of "i - length s - 1"]
        by (auto simp: eq nth_append nth_Cons' diff_diff_eq)
    qed
  qed
qed

lemma type_0_bytes:
  assumes "version \<noteq> []"
  shows "smbios_new_type_0 BIOS_NAME version BIOS_DATE =
    [0, 24, 0, 0, 1, 2, 0x00, 0xe8, 3, 0, 0x08, 0, 0, 0, 0, 0, 0, 0, 0, 4, 0, 0, 0xff, 0xff] @ strings_bytes [BIOS_NAME, version, BIOS_DATE]"
  using assms by (simp add: smbios_new_type_0_def strings_bytes_def nonempty_strings_def string_index_def Let_def SIZEOF_SMBIOS_TYPE_0_def
    BIOS_NAME_def BIOS_DATE_def bytes_of_def)

text \<open>The strings of the structure: no two zeros in a row before the end, two at the end.\<close>

lemma type_0_strings:
  assumes "version \<noteq> []" "0 \<notin> set version" and t0: "t0 = smbios_new_type_0 BIOS_NAME version BIOS_DATE"
  shows "i < length t0 - 26 \<Longrightarrow> t0 ! (i + 25) \<noteq> 0 \<or> t0 ! (i + 24) \<noteq> 0"
    and "t0 ! (length t0 - 1) = 0" "t0 ! (length t0 - 2) = 0"
proof -
  let ?s = "strings_bytes [BIOS_NAME, version, BIOS_DATE]"
  have ok: "s \<noteq> [] \<and> 0 \<notin> set s" if "s \<in> set [BIOS_NAME, version, BIOS_DATE]" for s
    using that assms by (auto simp: BIOS_NAME_def BIOS_DATE_def bytes_of_def)
  have len: "length t0 = 24 + length ?s" using assms by (simp add: type_0_bytes)
  have at: "t0 ! (i + 24) = ?s ! i" for i using assms by (simp add: type_0_bytes nth_append)
  have at1: "t0 ! (i + 25) = ?s ! (i + 1)" for i using assms by (simp add: type_0_bytes nth_append)
  show "t0 ! (i + 25) \<noteq> 0 \<or> t0 ! (i + 24) \<noteq> 0" if "i < length t0 - 26"
    using strings_no_double_zero [of "[BIOS_NAME, version, BIOS_DATE]", OF ok, rule_format, of "i + 1"] that len at [of i] at1 [of i]
    by auto
  have fin: "?s ! (length ?s - 1) = 0" "?s ! (length ?s - 2) = 0" "length ?s \<ge> 2"
    by (simp_all add: strings_bytes_def nth_append)
  show "t0 ! (length t0 - 1) = 0" "t0 ! (length t0 - 2) = 0"
    using fin len at [of "length ?s - 1"] at [of "length ?s - 2"] by simp_all
qed

text \<open>C37. When the tables begin with the structure of type 0 that \<open>smbios_new_type_0\<close> makes from a version string, its length is
  the one that the tables were made larger by, and the step to the next structure leads exactly to what follows it - the
  tables of the emulator - as long as these have a structure that lies within the tables.\<close>

theorem smbios_type_0_walked_over:
  assumes version: "version \<noteq> []" "0 \<notin> set version"
    and t0: "t0 = smbios_new_type_0 BIOS_NAME version BIOS_DATE" "mem_read m start (length t0) = t0" "start \<noteq> 0"
    and entry: "smbios \<noteq> 0" "get_mem 4 (smbios + 24) m = start" "get_mem 2 (smbios + 22) m = (n :: u16)"
    and within: "length t0 \<le> unat n" "unat start + unat n < 2 ^ 32"
  shows "length t0 = SIZEOF_SMBIOS_TYPE_0 + length BIOS_NAME + length version + length BIOS_DATE + 4 \<and>
    smbios_next m smbios start =
      (let p = start + of_nat (length t0); e = start + ucast n
       in if p < e \<and> p + 4 < e \<and> p + ucast (m (p + 1)) < e then p else 0)"
proof -
  have len: "length t0 = SIZEOF_SMBIOS_TYPE_0 + length BIOS_NAME + length version + length BIOS_DATE + 4"
    using version by (simp add: t0(1) type_0_bytes strings_bytes_def SIZEOF_SMBIOS_TYPE_0_def)
  let ?e = "start + ucast n :: u32"
  have e: "unat ?e = unat start + unat n" 
    using within(2) by (simp add: unat_word_ariths unsigned_ucast_eq take_bit_nat_eq_self)
  have nth: "m (start + of_nat i) = t0 ! i" if "i < length t0" for i
    using that nth_mem_read [of i "length t0" m start] t0(2) by simp
  have big: "length t0 > 30" using len by (simp add: SIZEOF_SMBIOS_TYPE_0_def BIOS_NAME_def BIOS_DATE_def bytes_of_def)
  have hdr: "m (start + 1) = 24" using nth [of 1] big version(1) by (simp add: t0(1) type_0_bytes)
  have early: "\<not> start + 4 > ?e" using big within e by (simp add: word_less_nat_alt word_le_nat_alt unat_word_ariths)
  have "string_end m (start + 26) ?e = start + 26 + of_nat (length t0 - 26)"
  proof (rule string_end_finds)
    show "unat (start + 26) + (length t0 - 26) \<le> unat ?e" using big within e by (simp add: unat_word_ariths)
  next
    fix i assume "i < length t0 - 26"
    then show "m (start + 26 + of_nat i - 1) \<noteq> 0 \<or> m (start + 26 + of_nat i - 2) \<noteq> 0"
      using type_0_strings [OF version t0(1)] nth [of "i + 25"] nth [of "i + 24"] by (auto simp: algebra_simps)
  next
    show "m (start + 26 + of_nat (length t0 - 26) - 1) = 0" "m (start + 26 + of_nat (length t0 - 26) - 2) = 0"
      using type_0_strings [OF version t0(1)] big nth [of "length t0 - 1"] nth [of "length t0 - 2"]
      by (simp_all add: of_nat_diff algebra_simps)
  qed
  then have next_end: "string_end m (start + (ucast (m (start + 1)) + 2)) ?e = start + of_nat (length t0)"
    using big by (simp add: hdr of_nat_diff)
  show ?thesis
    by (rule conjI [OF len], unfold smbios_next_def Let_def entry(2,3) next_end) (use entry(1) t0(3) early in auto)
qed

text \<open>The entry point of the witness at \<open>0x100\<close>, the new structure at \<open>0x1000\<close>, and behind it a structure of type 127.\<close>

definition wit_smbios_mem :: mem where
  "wit_smbios_mem =
     (\<lambda>a. if a \<in> {0x1000 ..< 0x1033} then (smbios_new_type_0 BIOS_NAME (bytes_of ''1.13.0'') BIOS_DATE) ! unat (a - 0x1000)
          else if a = 0x1033 then 127 else if a = 0x1034 then 4 else if a = 0x116 then 0x3a else if a = 0x119 then 0x10 else 0)"

lemma wit_type_0: "length (smbios_new_type_0 BIOS_NAME (bytes_of ''1.13.0'') BIOS_DATE) = 51"
  by (subst type_0_bytes) (simp_all add: bytes_of_def strings_bytes_def BIOS_NAME_def BIOS_DATE_def)

lemma wit_smbios_read:
  "mem_read wit_smbios_mem 0x1000 51 = smbios_new_type_0 BIOS_NAME (bytes_of ''1.13.0'') BIOS_DATE"
  by (rule nth_equalityI)
    (auto simp: wit_type_0 wit_smbios_mem_def word_less_nat_alt word_le_nat_alt unat_word_ariths unsigned_of_nat take_bit_nat_eq_self)

lemma wit_smbios_entry: "get_mem 4 (0x100 + 24) wit_smbios_mem = (0x1000 :: u32)" "get_mem 2 (0x100 + 22) wit_smbios_mem = (0x3a :: u16)"
  by (simp_all add: get_mem_def wit_smbios_mem_def mem_read_def upt_rec word_le_nat_alt)

theorem smbios_type_0_walked_over_witness: "smbios_next wit_smbios_mem 0x100 0x1000 = 0x1033"
proof -
  note walk = smbios_type_0_walked_over [where version = "bytes_of ''1.13.0''" and m = wit_smbios_mem and start = "0x1000"
    and smbios = "0x100" and n = "0x3a", OF _ _ refl _ _ _ wit_smbios_entry, unfolded wit_type_0 wit_smbios_read]
  have "smbios_next wit_smbios_mem 0x100 0x1000 =
      (let p = 0x1000 + of_nat 51; e = 0x1000 + ucast (0x3a :: u16)
       in if p < e \<and> p + 4 < e \<and> p + ucast (wit_smbios_mem (p + 1)) < e then p else 0)"
    by (rule conjunct2 [OF walk]) (simp_all add: bytes_of_def)
  then show ?thesis by (simp add: wit_smbios_mem_def)
qed

section \<open>The length of the completed tables\<close>

text \<open>The length of the new tables is kept in 16 bits: with files near the limit it wraps, and the memory for the tables is
  smaller than what is copied to it.\<close>

lemma smbios_length_wraps:
  assumes q: "get_mem 2 (ep + 22) m = (q :: u16)" and len: "length version \<le> 1000" "unat q + 45 + length version \<ge> 2 ^ 16"
  shows "get_mem 2 (ep + 22) (smbios_tables_size True version ep m) < q"
proof -
  let ?t = "of_nat (SIZEOF_SMBIOS_TYPE_0 + length BIOS_NAME + length version + length BIOS_DATE + 4) :: u16"
  have t: "unat ?t = 45 + length version"
    using len(1) by (simp add: SIZEOF_SMBIOS_TYPE_0_def BIOS_NAME_def BIOS_DATE_def bytes_of_def unsigned_of_nat unat_word_ariths take_bit_eq_mod)
  have "unat q < 2 ^ 16" using unsigned_less [of q] by simp
  then have "unat (q + ?t) = unat q + (45 + length version) - 2 ^ 16"
    using len unfolding unat_word_ariths t by (simp add: le_mod_geq)
  then have "unat (q + ?t) < unat q" using len \<open>unat q < 2 ^ 16\<close> by simp
  then have less: "q + ?t < q" by (simp add: word_less_nat_alt)
  have "get_mem 2 (ep + 22) (smbios_tables_size True version ep m) = q + ?t"
    unfolding smbios_tables_size_def Let_def by (simp only: if_False not_True_eq_False q) (simp add: apart_at_def)
  then show ?thesis using less by simp
qed

end
