(* ===== verification/X86.thy ===== *)
theory X86
  imports SB_Prelude
begin

text \<open>Instructions of the processor that \<open>src/x86.h\<close> wraps and the code computes with.\<close>

text \<open>\<open>__fls\<close> of \<open>x86.h\<close>: the position of the highest bit that is set.\<close>

definition fls32 :: "u32 \<Rightarrow> nat" where
  "fls32 w = length (dropWhile (\<lambda>i. \<not> bit w i) (rev [0..<32])) - 1"

end
