(* ===== verification/FwTables.thy ===== *)
theory FwTables
  imports BiosTables X86
begin

text \<open>
  The tables that are generated on emulators: the interrupt routing table (\<open>src/fw/pirtable.c\<close>) and the multiprocessor table
  (\<open>src/fw/mptable.c\<close>). The result of \<open>cpuid\<close>, the identification of the local interrupt controller and the set of
  processors found are an environment. The multiprocessor table is written as the code writes it: each entry at a pointer that is then
  moved on, with the number of entries and the length computed from the pointers. A property says what a reader of the table finds.
\<close>

section \<open>The interrupt routing table\<close>

text \<open>A slot: device, four links with the same bitmap, and the number of the slot.\<close>

definition pir_slot :: "u8 \<Rightarrow> u8 list \<Rightarrow> u8 \<Rightarrow> u8 list" where
  "pir_slot d ls nr = [0, push_bit 3 d] @ concat (map (\<lambda>l. l # le_bytes 2 (0xdef8 :: u16)) ls) @ [nr, 0]"

definition PIR_TABLE :: "u8 list" where
  "PIR_TABLE =
     le_bytes 4 (0 :: u32) @ le_bytes 2 (0x0100 :: u16) @ le_bytes 2 (128 :: u16) @ [0, 0x08] @ le_bytes 2 (0 :: u16) @
     le_bytes 4 (0x122e8086 :: u32) @ le_bytes 4 (0 :: u32) @ replicate 11 0 @ [0] @
     pir_slot 1 [0x60, 0x61, 0x62, 0x63] 0 @ pir_slot 2 [0x61, 0x62, 0x63, 0x60] 1 @ pir_slot 3 [0x62, 0x63, 0x60, 0x61] 2 @
     pir_slot 4 [0x63, 0x60, 0x61, 0x62] 3 @ pir_slot 5 [0x60, 0x61, 0x62, 0x63] 4 @ pir_slot 6 [0x61, 0x62, 0x63, 0x60] 5"

text \<open>The set-up of the table, which lies at \<open>p\<close>.\<close>

definition pirtable_setup :: "u32 \<Rightarrow> tables_state \<Rightarrow> tables_state" where
  "pirtable_setup p st =
     copy_pir p (upd_tmem (\<lambda>m. let m1 = set_mem 4 p PIR_SIGNATURE m in m1(p + 31 := m1 (p + 31) - checksum m1 p 128)) st)"

section \<open>The multiprocessor table\<close>

definition MPCONFIG_SIGNATURE :: u32 where "MPCONFIG_SIGNATURE = 0x504d4350"
definition BUILD_APIC_ADDR :: u32 where "BUILD_APIC_ADDR = 0xfee00000"
definition BUILD_IOAPIC_ADDR :: u32 where "BUILD_IOAPIC_ADDR = 0xfec00000"
definition BUILD_IOAPIC_ID :: u8 where "BUILD_IOAPIC_ID = 0"
definition BUILD_PCI_IRQS :: u32 where "BUILD_PCI_IRQS = push_bit 5 1 OR push_bit 9 1 OR push_bit 10 1 OR push_bit 11 1"
definition MPT_TYPE_CPU :: u8 where "MPT_TYPE_CPU = 0"
definition MPT_TYPE_BUS :: u8 where "MPT_TYPE_BUS = 1"
definition MPT_TYPE_IOAPIC :: u8 where "MPT_TYPE_IOAPIC = 2"
definition MPT_TYPE_INTSRC :: u8 where "MPT_TYPE_INTSRC = 3"
definition MPT_TYPE_LOCAL_INT :: u8 where "MPT_TYPE_LOCAL_INT = 4"

record cpu_env =
  ce_cpuid :: "u32 \<times> u32 \<times> u32"
  ce_apic_version :: u32
  MaxCountCPUs :: u32
  FoundAPICIDs :: "u32 list"

definition apic_id_is_present :: "cpu_env \<Rightarrow> u8 \<Rightarrow> bool" where
  "apic_id_is_present env apic_id = bit (FoundAPICIDs env ! (unat apic_id div 32)) (unat apic_id mod 32)"

text \<open>The signature and features of the processor, with default values.\<close>

definition cpu_signature :: "cpu_env \<Rightarrow> u32 \<times> u32" where
  "cpu_signature env = (case ce_cpuid env of (sig, ebx, feat) \<Rightarrow> if sig = 0 then (0x600, 0x201) else (sig, feat))"

text \<open>The logical processors of a package, rounded up to a power of two. With one or no logical processor the C has no result:
  the search for the highest bit of zero, or a shift by 32.\<close>

definition pkg_cpus :: "cpu_env \<Rightarrow> nat option" where
  "pkg_cpus env =
     (case ce_cpuid env of (sig, ebx, feat) \<Rightarrow>
        if snd (cpu_signature env) AND push_bit 28 1 \<noteq> 0 then
          let n = drop_bit 16 ebx AND 0xff in if n = 0 \<or> n = 1 then None else Some (2 ^ (fls32 (n - 1) + 1))
        else Some 1)"

definition mpt_cpu :: "cpu_env \<Rightarrow> nat \<Rightarrow> u8 list" where
  "mpt_cpu env i =
     [MPT_TYPE_CPU, of_nat i, ucast (ce_apic_version env AND 0xff),
      (if apic_id_is_present env (of_nat i) then 0x01 else 0x00) OR (if i = 0 then 0x02 else 0x00)] @
     le_bytes 4 (fst (cpu_signature env)) @ le_bytes 4 (snd (cpu_signature env)) @ replicate 8 0"

text \<open>The loop over the processors, with the counter \<open>i\<close> and the pointer \<open>cpu\<close>; \<open>pkgcpus\<close> is never zero.\<close>

function mpt_cpu_loop :: "cpu_env \<Rightarrow> nat \<Rightarrow> nat \<Rightarrow> mem \<times> u32 \<Rightarrow> mem \<times> u32" where
  "mpt_cpu_loop env pkgcpus i (m, cpu) =
     (if i < unat (MaxCountCPUs env) \<and> 0 < pkgcpus
      then mpt_cpu_loop env pkgcpus (i + pkgcpus) (mem_write cpu (mpt_cpu env i) m, cpu + 20)
      else (m, cpu))"
  by pat_completeness auto
termination by (relation "measure (\<lambda>(env, pkgcpus, i, _). unat (MaxCountCPUs env) - i)") auto

declare mpt_cpu_loop.simps [simp del]

definition mpt_bus :: "u8 \<Rightarrow> string \<Rightarrow> u8 list" where
  "mpt_bus busid bustype = [MPT_TYPE_BUS, busid] @ bytes_of bustype"

definition mpt_ioapic :: "u8 list" where
  "mpt_ioapic = [MPT_TYPE_IOAPIC, BUILD_IOAPIC_ID, 0x11, 1] @ le_bytes 4 BUILD_IOAPIC_ADDR"

definition mpt_intsrc :: "u8 \<Rightarrow> u8 \<Rightarrow> u16 \<Rightarrow> u8 \<Rightarrow> u8 \<Rightarrow> u8 \<Rightarrow> u8 \<Rightarrow> u8 list" where
  "mpt_intsrc typ irqtype irqflag srcbus srcbusirq dstapic dstirq =
     [typ, irqtype] @ le_bytes 2 irqflag @ [srcbus, srcbusirq, dstapic, dstirq]"

definition pci_bdf_to_busdev :: "u16 \<Rightarrow> u16" where "pci_bdf_to_busdev bdf = bdf AND NOT 0x07"

text \<open>The interrupt pins of the devices on bus zero, each pin of a device once: \<open>pinmask\<close> holds those seen. A pin is at most four;
  a shift of the mask by 32 or more, which C does not define, gives zero here.\<close>

fun mpt_pci_loop :: "'h pci_ops \<Rightarrow> 'h \<Rightarrow> u16 list \<Rightarrow> int \<Rightarrow> u16 \<Rightarrow> mem \<times> u32 \<Rightarrow> mem \<times> u32" where
  "mpt_pci_loop ops h [] d pinmask (m, intsrc) = (m, intsrc)"
| "mpt_pci_loop ops h (bdf # bdfs) d pinmask (m, intsrc) =
     (if pci_bdf_to_bus bdf \<noteq> 0 then (m, intsrc)
      else
        let pin = pci_config_readb ops bdf 0x3d h; irq = pci_config_readb ops bdf 0x3c h
        in if pin = 0 then mpt_pci_loop ops h bdfs d pinmask (m, intsrc)
           else
             let busdev = uint (pci_bdf_to_busdev bdf); mask = (if d \<noteq> busdev then 0 else pinmask); b = push_bit (unat pin) (1 :: u16)
             in if mask AND b \<noteq> 0 then mpt_pci_loop ops h bdfs busdev mask (m, intsrc)
                else
                  mpt_pci_loop ops h bdfs busdev (mask OR b)
                    (mem_write intsrc
                       (mpt_intsrc MPT_TYPE_INTSRC 0 1 (pci_bdf_to_bus bdf) (push_bit 2 (pci_bdf_to_dev bdf) OR (pin - 1)) BUILD_IOAPIC_ID irq) m,
                     intsrc + 8))"

text \<open>One turn of the loop over the ISA interrupts: an interrupt of PCI leaves a cleared entry that the next one covers, and with the
  override the entry of interrupt 2 is taken back.\<close>

definition mpt_isa_step :: "bool \<Rightarrow> u8 \<Rightarrow> nat \<Rightarrow> mem \<times> u32 \<Rightarrow> mem \<times> u32" where
  "mpt_isa_step irq0_override isabusid i = (\<lambda>(m, intsrc).
     let m1 = mem_write intsrc (replicate 8 0) m
     in if bit BUILD_PCI_IRQS i then (m1, intsrc)
        else
          let m2 = mem_write intsrc (mpt_intsrc MPT_TYPE_INTSRC 0 0 isabusid (of_nat i) BUILD_IOAPIC_ID
                     (if irq0_override \<and> i = 0 then 2 else of_nat i)) m1;
              p = (if irq0_override \<and> i = 2 then intsrc - 8 else intsrc)
          in (m2, p + 8))"

text \<open>The header of the configuration; length, checksum and number of entries are zero at first.\<close>

definition mpt_config_header :: "u8 list" where
  "mpt_config_header =
     le_bytes 4 MPCONFIG_SIGNATURE @ le_bytes 2 (0 :: u16) @ [4, 0] @ bytes_of ''BOCHSCPU'' @ bytes_of ''0.1         '' @
     le_bytes 4 (0 :: u32) @ le_bytes 2 (0 :: u16) @ le_bytes 2 (0 :: u16) @ le_bytes 4 BUILD_APIC_ADDR @ le_bytes 2 (0 :: u16) @ [0, 0]"

text \<open>The local variables that both parts of the function use: the count of entries so far, the number of the ISA bus, and the
  pointers to the first and to the next interrupt entry.\<close>

record mpt_locals =
  ml_entrycount :: u32
  ml_isabusid :: u8
  ml_intsrcs :: u32
  ml_intsrc :: u32

text \<open>The configuration at \<open>config\<close>, up to the interrupts of PCI.\<close>

definition mpt_write_front :: "cpu_env \<Rightarrow> 'h pci_ops \<Rightarrow> 'h \<Rightarrow> u16 list \<Rightarrow> nat \<Rightarrow> u32 \<Rightarrow> mem \<Rightarrow> mem \<times> mpt_locals" where
  "mpt_write_front env ops h bdfs pkgcpus config m =
     (let m0 = mem_write config mpt_config_header m;
          cpus = config + 44;
          (m1, cpu) = mpt_cpu_loop env pkgcpus 0 (m0, cpus);
          count1 = (cpu - cpus) div 20;
          buses = cpu;
          (m2, bus, count2) = (if bdfs \<noteq> [] then (mem_write buses (mpt_bus 0 ''PCI   '') m1, buses + 8, count1 + 1) else (m1, buses, count1));
          isa = ucast ((bus - buses) div 8);
          m3 = mem_write bus (mpt_bus isa ''ISA   '') m2;
          bus = bus + 8;
          count3 = count2 + 1;
          ioapic = bus;
          m4 = mem_write ioapic mpt_ioapic m3;
          count4 = count3 + 1;
          (m5, p) = mpt_pci_loop ops h bdfs (-1) 0 (m4, ioapic + 8)
      in (m5, \<lparr>ml_entrycount = count4, ml_isabusid = isa, ml_intsrcs = ioapic + 8, ml_intsrc = p\<rparr>))"

text \<open>The rest: the other interrupts, and the number of entries, the length and the checksum.\<close>

definition mpt_write_rest :: "bool \<Rightarrow> u32 \<Rightarrow> mpt_locals \<Rightarrow> mem \<Rightarrow> mem" where
  "mpt_write_rest irq0_override config w m =
     (let (m1, p) = fold (mpt_isa_step irq0_override (ml_isabusid w)) [0..<16] (m, ml_intsrc w);
          m2 = mem_write p (mpt_intsrc MPT_TYPE_LOCAL_INT 3 0 (ml_isabusid w) 0 0 0) m1;
          p1 = p + 8;
          m3 = mem_write p1 (mpt_intsrc MPT_TYPE_LOCAL_INT 1 0 (ml_isabusid w) 0 0xff 1) m2;
          p2 = p1 + 8;
          count = ml_entrycount w + (p2 - ml_intsrcs w) div 8;
          len = p2 - config;
          m4 = set_mem 2 (config + 34) (ucast count :: u16) m3;
          m5 = set_mem 2 (config + 4) (ucast len :: u16) m4
      in m5(config + 7 := m5 (config + 7) - checksum m5 config len))"

text \<open>The floating pointer, at \<open>fl\<close> on the stack.\<close>

definition mpt_write_floating :: "u32 \<Rightarrow> u32 \<Rightarrow> mem \<Rightarrow> mem" where
  "mpt_write_floating fl config m =
     (let m1 = mem_write fl (le_bytes 4 MPTABLE_SIGNATURE @ le_bytes 4 config @ [1, 4, 0] @ replicate 5 0) m
      in m1(fl + 10 := m1 (fl + 10) - checksum m1 fl 16))"

text \<open>The set-up. \<open>None\<close> stands for the case in which \<open>pkg_cpus\<close> has no result.\<close>

definition mptable_setup :: "cpu_env \<Rightarrow> 'h pci_ops \<Rightarrow> 'h \<Rightarrow> pcidev list \<Rightarrow> u32 \<Rightarrow> tables_state \<Rightarrow> tables_state option" where
  "mptable_setup env ops h devs fl st =
     (let (fw, config) = malloc_tmp (32 * 1024) (t_fw st); st1 = st\<lparr>t_fw := fw\<rparr>
      in if config = 0 then Some st1
         else
           map_option (\<lambda>pkgcpus.
             let (m1, w) = mpt_write_front env ops h (map dev_bdf devs) pkgcpus config (t_mem st1);
                 (fw2, irq0) = romfile_loadint (bytes_of ''etc/irq0-override'') 0 (t_fw (upd_tmem (\<lambda>_. m1) st1));
                 st2 = upd_tmem (mpt_write_floating fl config \<circ> mpt_write_rest (ucast irq0 \<noteq> (0 :: u32)) config w) (st1\<lparr>t_fw := fw2\<rparr>);
                 st3 = copy_mptable fl st2
             in st3\<lparr>t_fw := free config (t_fw st3)\<rparr>)
           (pkg_cpus env))"

section \<open>Writing entries one after the other\<close>

lemma write_after: "mem_write (p + of_nat (length xs)) ys (mem_write p xs m) = mem_write p (xs @ ys) m"
proof (induction xs arbitrary: p m)
  case (Cons x xs)
  have "p + of_nat (length (x # xs)) = p + 1 + of_nat (length xs)" by (simp add: algebra_simps)
  then show ?case by (simp only: mem_write.simps append_Cons Cons.IH)
qed simp

lemma mem_write_again:
  assumes "length z \<le> length y" "length y \<le> 2 ^ 32"
  shows "mem_write q y (mem_write q z m) = mem_write q y m"
  using assms by (auto simp: mem_write_eq fun_eq_iff)

lemma mem_write_behind: "length bs \<le> unat (a - p) \<Longrightarrow> length bs \<le> 2 ^ 32 \<Longrightarrow> mem_write p bs m a = m a"
  by (simp add: mem_write_eq)

text \<open>A write behind \<open>xs\<close> that covers what lies there.\<close>

lemma mem_write_over:
  assumes "length z \<le> length y" "length y \<le> 2 ^ 32"
  shows "mem_write (p + of_nat (length xs)) y (mem_write p (xs @ z) m) = mem_write p (xs @ y) m"
  using mem_write_again [OF assms] by (simp flip: write_after)

text \<open>The entries as lists of bytes.\<close>

definition mpt_cpus :: "cpu_env \<Rightarrow> nat \<Rightarrow> nat \<Rightarrow> u8 list list" where
  "mpt_cpus env pkgcpus i = map (mpt_cpu env) (filter (\<lambda>j. j mod pkgcpus = 0) [i..<unat (MaxCountCPUs env)])"

fun pci_intsrcs :: "'h pci_ops \<Rightarrow> 'h \<Rightarrow> u16 list \<Rightarrow> int \<Rightarrow> u16 \<Rightarrow> u8 list list" where
  "pci_intsrcs ops h [] d pinmask = []"
| "pci_intsrcs ops h (bdf # bdfs) d pinmask =
     (if pci_bdf_to_bus bdf \<noteq> 0 then []
      else
        let pin = pci_config_readb ops bdf 0x3d h; irq = pci_config_readb ops bdf 0x3c h
        in if pin = 0 then pci_intsrcs ops h bdfs d pinmask
           else
             let busdev = uint (pci_bdf_to_busdev bdf); mask = (if d \<noteq> busdev then 0 else pinmask); b = push_bit (unat pin) (1 :: u16)
             in if mask AND b \<noteq> 0 then pci_intsrcs ops h bdfs busdev mask
                else
                  mpt_intsrc MPT_TYPE_INTSRC 0 1 (pci_bdf_to_bus bdf) (push_bit 2 (pci_bdf_to_dev bdf) OR (pin - 1)) BUILD_IOAPIC_ID irq
                  # pci_intsrcs ops h bdfs busdev (mask OR b))"

definition isa_intsrcs :: "bool \<Rightarrow> u8 \<Rightarrow> nat list \<Rightarrow> u8 list list" where
  "isa_intsrcs irq0_override isabusid is =
     map (\<lambda>i. mpt_intsrc MPT_TYPE_INTSRC 0 0 isabusid (of_nat i) BUILD_IOAPIC_ID (if irq0_override \<and> i = 0 then 2 else of_nat i))
       (filter (\<lambda>i. \<not> bit BUILD_PCI_IRQS i \<and> \<not> (irq0_override \<and> i = 2)) is)"

lemma length_intsrc [simp]: "length (mpt_intsrc t a b c d e f) = 8" "hd (mpt_intsrc t a b c d e f) = t"
  by (simp_all add: mpt_intsrc_def)

lemma length_cpu [simp]: "length (mpt_cpu env i) = 20" "hd (mpt_cpu env i) = MPT_TYPE_CPU"
  by (simp_all add: mpt_cpu_def)

lemma first_of_package:
  assumes "i < n" "i mod k = 0" "0 < (k :: nat)"
  shows "filter (\<lambda>j. j mod k = 0) [i..<n] = i # filter (\<lambda>j. j mod k = 0) [i + k..<n]"
proof (rule sorted_distinct_set_unique)
  have "i + k \<le> j" if "i \<le> j" "j \<noteq> i" "k dvd j" for j
  proof -
    have "k dvd j - i" using that assms(2) by (intro dvd_diff_nat) (auto simp: mod_eq_0_iff_dvd)
    then show ?thesis using that dvd_imp_le [of k "j - i"] by simp
  qed
  then show "set (filter (\<lambda>j. j mod k = 0) [i..<n]) = set (i # filter (\<lambda>j. j mod k = 0) [i + k..<n])"
    using assms by (auto simp: mod_eq_0_iff_dvd)
qed (use assms in \<open>auto simp: sorted_wrt_filter\<close>)

lemma cpu_loop_eq:
  assumes "0 < pkgcpus" "i mod pkgcpus = 0"
  shows "mpt_cpu_loop env pkgcpus i (m, p) =
    (mem_write p (concat (mpt_cpus env pkgcpus i)) m, p + of_nat (20 * length (mpt_cpus env pkgcpus i)))"
  using assms
proof (induction env pkgcpus i "(m, p)" arbitrary: m p rule: mpt_cpu_loop.induct)
  case (1 env k i m p)
  show ?case
  proof (cases "i < unat (MaxCountCPUs env)")
    case True
    have es: "mpt_cpus env k i = mpt_cpu env i # mpt_cpus env k (i + k)"
      unfolding mpt_cpus_def using first_of_package [OF True 1(3,2)] by simp
    have "mpt_cpu_loop env k (i + k) (mem_write p (mpt_cpu env i) m, p + 20) =
        (mem_write (p + 20) (concat (mpt_cpus env k (i + k))) (mem_write p (mpt_cpu env i) m),
         p + 20 + of_nat (20 * length (mpt_cpus env k (i + k))))"
      using 1 True by simp
    moreover have "mem_write (p + 20) ys (mem_write p (mpt_cpu env i) m) = mem_write p (mpt_cpu env i @ ys) m" for ys
      using write_after [of p "mpt_cpu env i" ys m] by simp
    ultimately show ?thesis using True 1(2) by (subst mpt_cpu_loop.simps) (simp add: es algebra_simps)
  next
    case False
    then show ?thesis by (subst mpt_cpu_loop.simps) (simp add: mpt_cpus_def)
  qed
qed

lemma pci_loop_eq:
  "mpt_pci_loop ops h bdfs d pm (m, p) =
    (mem_write p (concat (pci_intsrcs ops h bdfs d pm)) m, p + of_nat (8 * length (pci_intsrcs ops h bdfs d pm)))"
proof (induction bdfs arbitrary: d pm m p)
  case (Cons b bdfs)
  have w: "mem_write (p + 8) ys (mem_write p (mpt_intsrc t a f c e x y) m) = mem_write p (mpt_intsrc t a f c e x y @ ys) m" for t a f c e x y ys
    using write_after [of p "mpt_intsrc t a f c e x y" ys m] by simp
  show ?case by (simp add: Cons.IH w Let_def algebra_simps)
qed simp

lemma isa_loop_eq:
  "\<exists>z. length z \<le> 8 \<and> fold (mpt_isa_step ovr b) is (m, p) =
    (mem_write p (concat (isa_intsrcs ovr b is) @ z) m, p + of_nat (8 * length (isa_intsrcs ovr b is)))"
proof (induction "is" rule: rev_induct)
  case Nil
  show ?case by (intro exI [of _ "[]"]) (simp add: isa_intsrcs_def)
next
  case (snoc i "is")
  let ?es = "isa_intsrcs ovr b is" and ?e = "mpt_intsrc MPT_TYPE_INTSRC 0 0 b (of_nat i) BUILD_IOAPIC_ID (if ovr \<and> i = 0 then 2 else of_nat i)"
  obtain z where z: "length z \<le> 8" "fold (mpt_isa_step ovr b) is (m, p) = (mem_write p (concat ?es @ z) m, p + of_nat (8 * length ?es))"
    using snoc by blast
  have n: "length (concat ?es) = 8 * length ?es" by (simp add: isa_intsrcs_def length_concat comp_def sum_list_triv)
  have over: "mem_write (p + of_nat (8 * length ?es)) y (mem_write p (concat ?es @ x) m) = mem_write p (concat ?es @ y) m"
    if "length x \<le> 8" "length y = 8" for x y
  proof -
    have "length x \<le> length y" "length y \<le> 2 ^ 32" using that by simp_all
    from mem_write_over [OF this, of p "concat ?es" m] show ?thesis unfolding n .
  qed
  let ?zs = "if bit BUILD_PCI_IRQS i then replicate 8 0 else if ovr \<and> i = 2 then ?e else []"
  have "fold (mpt_isa_step ovr b) (is @ [i]) (m, p) =
      (mem_write p (concat (isa_intsrcs ovr b (is @ [i])) @ ?zs) m, p + of_nat (8 * length (isa_intsrcs ovr b (is @ [i]))))"
  proof -
    have snoc: "isa_intsrcs ovr b (is @ [i]) = ?es @ (if bit BUILD_PCI_IRQS i \<or> ovr \<and> i = 2 then [] else [?e])"
      by (simp add: isa_intsrcs_def)
    have zeros: "length (replicate 8 (0 :: u8)) \<le> 8" by simp
    note steps = over [OF z(1), of "replicate 8 0"] over [OF zeros, of ?e]
    have "fold (mpt_isa_step ovr b) (is @ [i]) (m, p) =
        mpt_isa_step ovr b i (mem_write p (concat ?es @ z) m, p + of_nat (8 * length ?es))" by (simp add: z(2))
    also have "\<dots> = (if bit BUILD_PCI_IRQS i then (mem_write p (concat ?es @ replicate 8 0) m, p + of_nat (8 * length ?es))
        else (mem_write p (concat ?es @ ?e) m, (if ovr \<and> i = 2 then p + of_nat (8 * length ?es) - 8 else p + of_nat (8 * length ?es)) + 8))"
      unfolding mpt_isa_step_def Let_def using steps by (simp only: split_conv length_replicate length_intsrc if_cancel)
    finally show ?thesis unfolding snoc by (auto simp: algebra_simps)
  qed
  then show ?case by (intro exI [of _ ?zs]) simp
qed

text \<open>A pointer difference counts the entries.\<close>

lemma count_entries: "k * n < 2 ^ 32 \<Longrightarrow> 0 < k \<Longrightarrow> (of_nat (k * n) :: u32) div of_nat k = of_nat n"
proof -
  assume a: "k * n < 2 ^ 32" "0 < k"
  then have k: "n < 2 ^ 32" "k < 2 ^ 32 \<or> n = 0"
    by (metis One_nat_def Suc_leI le_less_trans mult.commute mult_le_mono1 nat_mult_1, cases n) auto
  have "unat ((of_nat (k * n) :: u32) div of_nat k) = unat (of_nat n :: u32)"
    using a k by (cases "n = 0") (simp_all add: unat_div unat_of_nat del: of_nat_mult)
  then show ?thesis by (simp only: word_unat_eq_iff)
qed

definition front_entries :: "cpu_env \<Rightarrow> u16 list \<Rightarrow> nat \<Rightarrow> u8 list list" where
  "front_entries env bdfs pkgcpus =
     mpt_cpus env pkgcpus 0 @ (if bdfs = [] then [] else [mpt_bus 0 ''PCI   '']) @
     [mpt_bus (if bdfs = [] then 0 else 1) ''ISA   '', mpt_ioapic]"

lemma length_bus [simp]: "length (mpt_bus i ''PCI   '') = 8" "length (mpt_bus i ''ISA   '') = 8" "length mpt_ioapic = 8"
    "length mpt_config_header = 44"
  by (simp_all add: mpt_bus_def mpt_ioapic_def mpt_config_header_def bytes_of_def)

lemma length_cpus [simp]: "length (concat (mpt_cpus env k i)) = 20 * length (mpt_cpus env k i)"
  by (simp add: mpt_cpus_def length_concat comp_def sum_list_triv)

lemma length_pci [simp]: "length (concat (pci_intsrcs ops h bdfs d pm)) = 8 * length (pci_intsrcs ops h bdfs d pm)"
  by (induction bdfs arbitrary: d pm) (simp_all add: Let_def)

lemma write_front_eq:
  assumes "0 < pkgcpus" "20 * length (mpt_cpus env pkgcpus 0) < 2 ^ 31"
  shows "mpt_write_front env ops h bdfs pkgcpus config m =
    (mem_write config (mpt_config_header @ concat (front_entries env bdfs pkgcpus @ pci_intsrcs ops h bdfs (-1) 0)) m,
     \<lparr>ml_entrycount = of_nat (length (front_entries env bdfs pkgcpus)), ml_isabusid = (if bdfs = [] then 0 else 1),
      ml_intsrcs = config + 44 + of_nat (length (concat (front_entries env bdfs pkgcpus))),
      ml_intsrc = config + 44 + of_nat (length (concat (front_entries env bdfs pkgcpus))) + of_nat (8 * length (pci_intsrcs ops h bdfs (-1) 0))\<rparr>)"
proof -
  let ?c = "mpt_cpus env pkgcpus 0" and ?n = "length (mpt_cpus env pkgcpus 0)"
  have cnt: "(of_nat (20 * ?n) :: u32) div 20 = of_nat ?n" using count_entries [of 20 ?n] assms(2) by simp
  have w: "r = config + of_nat (length xs) \<Longrightarrow> mem_write r ys (mem_write config xs m) = mem_write config (xs @ ys) m" for r xs ys
    using write_after by simp
  let ?h = "mpt_config_header @ concat ?c" and ?q = "config + 44 + of_nat (20 * ?n)"
  have cpus: "mpt_cpu_loop env pkgcpus 0 (mem_write config mpt_config_header m, config + 44) = (mem_write config ?h m, ?q)"
    using cpu_loop_eq [OF assms(1), of 0 env "mem_write config mpt_config_header m" "config + 44"] w [of _ mpt_config_header "concat ?c"] by simp
  have q: "?q - (config + 44) = of_nat (20 * ?n)" by simp
  let ?ps = "concat (pci_intsrcs ops h bdfs (-1) 0)"
  show ?thesis
  proof (cases "bdfs = []")
    case True
    let ?i = "mpt_bus 0 ''ISA   ''"
    have "mem_write ?q ?i (mem_write config ?h m) = mem_write config (?h @ ?i) m"
      "mem_write (?q + 8) mpt_ioapic (mem_write config (?h @ ?i) m) = mem_write config ((?h @ ?i) @ mpt_ioapic) m"
      by (intro w; simp)+
    then show ?thesis
      unfolding mpt_write_front_def Let_def cpus by (simp add: True q cnt [simplified] front_entries_def)
  next
    case False
    let ?b = "mpt_bus 0 ''PCI   ''" and ?i = "mpt_bus 1 ''ISA   ''"
    have "mem_write ?q ?b (mem_write config ?h m) = mem_write config (?h @ ?b) m"
      "mem_write (?q + 8) ?i (mem_write config (?h @ ?b) m) = mem_write config ((?h @ ?b) @ ?i) m"
      "mem_write (?q + 8 + 8) mpt_ioapic (mem_write config ((?h @ ?b) @ ?i) m) = mem_write config (((?h @ ?b) @ ?i) @ mpt_ioapic) m"
      "mem_write (?q + 8 + 8 + 8) ?ps (mem_write config (((?h @ ?b) @ ?i) @ mpt_ioapic) m) = mem_write config ((((?h @ ?b) @ ?i) @ mpt_ioapic) @ ?ps) m"
      by (intro w; simp)+
    then show ?thesis
      unfolding mpt_write_front_def Let_def cpus by (simp add: False q cnt [simplified] front_entries_def pci_loop_eq)
  qed
qed

definition local_ints :: "u8 \<Rightarrow> u8 list list" where
  "local_ints isabusid =
     [mpt_intsrc MPT_TYPE_LOCAL_INT 3 0 isabusid 0 0 0, mpt_intsrc MPT_TYPE_LOCAL_INT 1 0 isabusid 0 0xff 1]"

definition rest_entries :: "bool \<Rightarrow> u8 \<Rightarrow> u8 list list" where
  "rest_entries ovr isabusid = isa_intsrcs ovr isabusid [0..<16] @ local_ints isabusid"

lemma length_isa [simp]: "length (concat (isa_intsrcs ovr b is)) = 8 * length (isa_intsrcs ovr b is)"
  by (simp add: isa_intsrcs_def length_concat comp_def sum_list_triv)

text \<open>The fields that are set last.\<close>

definition mpt_set_header :: "u32 \<Rightarrow> u32 \<Rightarrow> u32 \<Rightarrow> mem \<Rightarrow> mem" where
  "mpt_set_header config count len m =
     (let m5 = set_mem 2 (config + 4) (ucast len :: u16) (set_mem 2 (config + 34) (ucast count :: u16) m)
      in m5(config + 7 := m5 (config + 7) - checksum m5 config len))"

lemma write_rest_eq:
  "mpt_write_rest ovr config w m =
    mpt_set_header config
      (ml_entrycount w + (ml_intsrc w + of_nat (8 * length (rest_entries ovr (ml_isabusid w))) - ml_intsrcs w) div 8)
      (ml_intsrc w + of_nat (8 * length (rest_entries ovr (ml_isabusid w))) - config)
      (mem_write (ml_intsrc w) (concat (rest_entries ovr (ml_isabusid w))) m)"
proof -
  let ?b = "ml_isabusid w" and ?p = "ml_intsrc w"
  let ?es = "isa_intsrcs ovr ?b [0..<16]" and ?l1 = "mpt_intsrc MPT_TYPE_LOCAL_INT 3 0 ?b 0 0 0" and ?l2 = "mpt_intsrc MPT_TYPE_LOCAL_INT 1 0 ?b 0 0xff 1"
  obtain z where z: "length z \<le> 8" "fold (mpt_isa_step ovr ?b) [0..<16] (m, ?p) =
      (mem_write ?p (concat ?es @ z) m, ?p + of_nat (8 * length ?es))" using isa_loop_eq by blast
  have "mem_write (?p + of_nat (8 * length ?es)) ?l1 (mem_write ?p (concat ?es @ z) m) = mem_write ?p (concat ?es @ ?l1) m"
    using mem_write_over [of z ?l1 ?p "concat ?es" m] z(1) by simp
  moreover have "mem_write (?p + of_nat (8 * length ?es) + 8) ?l2 (mem_write ?p (concat ?es @ ?l1) m) = mem_write ?p (concat (rest_entries ovr ?b)) m"
    using write_after [of ?p "concat ?es @ ?l1" ?l2 m] by (simp add: rest_entries_def local_ints_def algebra_simps)
  moreover have "?p + of_nat (8 * length ?es) + 8 + 8 = ?p + of_nat (8 * length (rest_entries ovr ?b))"
    by (simp add: rest_entries_def local_ints_def algebra_simps)
  ultimately show ?thesis
    unfolding mpt_write_rest_def Let_def z(2) mpt_set_header_def by (simp only: split_conv)
qed

lemma upd_is_set: "m(p := (v :: u8)) = set_mem 1 p v m"
  by (simp add: set_mem_def)

lemma set_header_back:
  assumes whole: "mem_read m config n = mpt_config_header @ bs" and n: "n = 44 + length bs" "n \<le> 32768"
    and m': "m' = mpt_set_header config count (of_nat n) m"
  shows "get_mem 2 (config + 4) m' = (of_nat n :: u16)" "get_mem 2 (config + 34) m' = (ucast count :: u16)"
    "checksum m' config (of_nat n) = 0" "mem_read m' (config + 44) (length bs) = bs" "mem_read m' config 4 = bytes_of ''PCMP''"
    "m' (config + 6) = 4" "get_mem 4 (config + 36) m' = (0xfee00000 :: u32)" "\<And>a. 44 \<le> unat (a - config) \<Longrightarrow> m' a = m a"
proof -
  define m5 where "m5 = set_mem 2 (config + 4) (of_nat n :: u16) (set_mem 2 (config + 34) (ucast count :: u16) m)"
  define v where "v = m5 (config + 7) - checksum m5 config (of_nat n)"
  have c: "(ucast (of_nat n :: u32) :: u16) = of_nat n"
    using n(2) by (simp add: word_unat_eq_iff unsigned_ucast_eq unsigned_of_nat take_bit_nat_eq_self)
  have m7: "m' = m5(config + 7 := v)" by (simp add: m' mpt_set_header_def Let_def m5_def v_def c)
  have m7s: "m' = set_mem 1 (config + 7) v m5" by (simp only: m7 upd_is_set)
  show "get_mem 2 (config + 4) m' = (of_nat n :: u16)" "get_mem 2 (config + 34) m' = (ucast count :: u16)"
    by (simp_all add: m7 m5_def apart_at_def)
  show "checksum m' config (of_nat n) = 0"
    unfolding m7 v_def using n by (subst checksum_update) (simp_all add: unsigned_of_nat take_bit_eq_mod del: of_nat_add)
  have rest: "mem_read m' q k = mem_read m q k" if "apart_at (config + 7) 1 q k" "apart_at (config + 4) 2 q k" "apart_at (config + 34) 2 q k" for q k
    using that by (simp add: m7s m5_def mem_read_set_other)
  have "mem_read m' (config + 44) (length bs) = mem_read m (config + of_nat 44) (length bs)"
    using n by (simp add: rest apart_at_def)
  also have "\<dots> = bs" using mem_read_part [of 44 "length bs" n m config] n(1) unfolding whole by simp
  finally show "mem_read m' (config + 44) (length bs) = bs" .
  have "mem_read m' config 4 = mem_read m config 4" by (simp add: rest apart_at_def)
  also have "\<dots> = take 4 (mpt_config_header @ bs)" using mem_read_take [of 4 n m config] n(1) unfolding whole by simp
  also have "\<dots> = take 4 mpt_config_header" by simp
  also have "\<dots> = bytes_of ''PCMP''" by code_simp
  finally show "mem_read m' config 4 = bytes_of ''PCMP''" .
  have hd: "mem_read m (config + of_nat k) j = take j (drop k mpt_config_header)" if "k + j \<le> 44" for k j
    using mem_read_part [of k j n m config] n(1) that unfolding whole by simp
  have "mem_read m' (config + 6) 1 = mem_read m (config + of_nat 6) 1"
    by (simp add: rest apart_at_def unsigned_minus_1_eq_mask mask_eq_exp_minus_1)
  also have "\<dots> = take 1 (drop 6 mpt_config_header)" by (rule hd) simp
  also have "\<dots> = [4]" by code_simp
  finally show "m' (config + 6) = 4" using nth_mem_read [of 0 1 m' "config + 6"] by simp
  have "mem_read m' (config + 36) 4 = mem_read m (config + of_nat 36) 4" by (simp add: rest apart_at_def)
  also have "\<dots> = take 4 (drop 36 mpt_config_header)" by (simp only: hd)
  also have "\<dots> = le_bytes 4 (0xfee00000 :: u32)" by code_simp
  finally show "get_mem 4 (config + 36) m' = (0xfee00000 :: u32)" by (simp add: get_mem_def le_word_bytes take_bit_word_eq_self)
  fix a assume a: "44 \<le> unat (a - config)"
  then have "unat (a - (config + of_nat k)) = unat (a - config) - k" if "k \<le> 44" for k
    using unat_diff_step [of k a config] that by simp
  from this [of 4] this [of 34] this [of 7] a show "m' a = m a"
    by (auto simp: m7s m5_def set_mem_far)
qed

text \<open>The whole configuration, before its header is completed.\<close>

lemma written_whole:
  assumes m2: "\<forall>i < 32768. m2 (config + of_nat i) = mem_write config (xs :: u8 list) m (config + of_nat i)"
    and n: "length xs + length ys \<le> 32768"
  shows "mem_read (mem_write (config + of_nat (length xs)) ys m2) config (length xs + length ys) = xs @ ys"
proof (rule nth_equalityI)
  let ?k = "length xs"
  fix i assume "i < length (mem_read (mem_write (config + of_nat ?k) ys m2) config (?k + length ys))"
  then have i: "i < ?k + length ys" by simp
  have u: "unat (of_nat j :: u32) = j" if "j \<le> 32768" for j using that by (simp add: unat_of_nat)
  have d: "config + of_nat i - (config + of_nat ?k) = of_nat i - of_nat ?k" by simp
  show "mem_read (mem_write (config + of_nat ?k) ys m2) config (?k + length ys) ! i = (xs @ ys) ! i"
  proof (cases "i < ?k")
    case True
    then have "unat (of_nat i - of_nat ?k :: u32) = 2 ^ 32 + i - ?k"
      using unat_sub_wrap [of "of_nat i :: u32" "of_nat ?k"] u n by simp
    moreover have "\<not> 2 ^ 32 + i - ?k < length ys" using n by simp
    ultimately have "mem_write (config + of_nat ?k) ys m2 (config + of_nat i) = m2 (config + of_nat i)"
      using n d by (simp add: mem_write_eq)
    also have "\<dots> = xs ! i" using m2 True n u by (simp add: mem_write_eq)
    finally show ?thesis using True i by (simp add: nth_append)
  next
    case False
    then have "unat (of_nat i - of_nat ?k :: u32) = i - ?k" using u [of i] u [of ?k] i n by (simp add: unat_sub_le)
    moreover have "i - ?k < length ys" using False i by simp
    ultimately show ?thesis using False i n d by (simp add: mem_write_eq nth_append)
  qed
qed simp

section \<open>What a reader finds\<close>

text \<open>How a reader steps over the entries: 20 bytes for a processor, 8 for everything else.\<close>

fun read_entries :: "mem \<Rightarrow> u32 \<Rightarrow> nat \<Rightarrow> u8 list list \<times> u32" where
  "read_entries m p 0 = ([], p)"
| "read_entries m p (Suc n) =
     (let k = (if m p = 0 then 20 else 8); (es, q) = read_entries m (p + of_nat k) n in (mem_read m p k # es, q))"

text \<open>The fields of an entry, at the offsets of the MultiProcessor Specification.\<close>

datatype mp_entry =
  MpCpu u8 u8 u8 u32 u32
| MpBus u8 "u8 list"
| MpIoapic u8 u8 u8 u32
| MpInterrupt u8 u16 u8 u8 u8 u8
| MpLocal u8 u16 u8 u8 u8 u8
| MpOther

definition mp_parse :: "u8 list \<Rightarrow> mp_entry" where
  "mp_parse e =
     (if e ! 0 = 0 then MpCpu (e ! 1) (e ! 2) (e ! 3) (le_word (take 4 (drop 4 e))) (le_word (take 4 (drop 8 e)))
      else if e ! 0 = 1 then MpBus (e ! 1) (drop 2 e)
      else if e ! 0 = 2 then MpIoapic (e ! 1) (e ! 2) (e ! 3) (le_word (take 4 (drop 4 e)))
      else if e ! 0 = 3 then MpInterrupt (e ! 1) (le_word (take 2 (drop 2 e))) (e ! 4) (e ! 5) (e ! 6) (e ! 7)
      else if e ! 0 = 4 then MpLocal (e ! 1) (le_word (take 2 (drop 2 e))) (e ! 4) (e ! 5) (e ! 6) (e ! 7)
      else MpOther)"

text \<open>
  What the table is meant to say. Processors: the first logical processor of each package, with bit 0 of its flags when it was found
  and bit 1 for the boot processor. Interrupts of PCI: for each slot of bus zero and each of its pins, once, the line of the first
  function with this pin; the source is four times the slot plus the pin counted from zero. Interrupts of ISA: the identity without the four
  lines that PCI uses, and with the override interrupt 0 on input 2 instead of 0 and 2.\<close>

definition mp_cpu_spec :: "cpu_env \<Rightarrow> nat \<Rightarrow> mp_entry" where
  "mp_cpu_spec env i =
     MpCpu (of_nat i) (ucast (ce_apic_version env AND 0xff))
       (of_nat (of_bool (bit (FoundAPICIDs env ! (i div 32)) (i mod 32)) + 2 * of_bool (i = 0)))
       (fst (cpu_signature env)) (snd (cpu_signature env))"

fun first_each :: "('a \<Rightarrow> 'b) \<Rightarrow> 'a list \<Rightarrow> 'a list" where
  "first_each f [] = []"
| "first_each f (x # xs) = x # filter (\<lambda>y. f y \<noteq> f x) (first_each f xs)"

definition pci_irqs_spec :: "(u16 \<Rightarrow> u8) \<Rightarrow> (u16 \<Rightarrow> u8) \<Rightarrow> u16 list \<Rightarrow> mp_entry list" where
  "pci_irqs_spec pin line bdfs =
     map (\<lambda>b. MpInterrupt 0 1 0 (of_nat (4 * (unat b div 8) + (unat (pin b) - 1))) 0 (line b))
       (first_each (\<lambda>b. (unat b div 8, pin b)) (filter (\<lambda>b. unat b < 256 \<and> pin b \<noteq> 0) bdfs))"

definition isa_routes :: "bool \<Rightarrow> (u8 \<times> u8) list" where
  "isa_routes ovr =
     (if ovr then [(0, 2), (1, 1), (3, 3), (4, 4), (6, 6), (7, 7), (8, 8), (12, 12), (13, 13), (14, 14), (15, 15)]
      else [(0, 0), (1, 1), (2, 2), (3, 3), (4, 4), (6, 6), (7, 7), (8, 8), (12, 12), (13, 13), (14, 14), (15, 15)])"

definition mp_table_spec :: "cpu_env \<Rightarrow> (u16 \<Rightarrow> u8) \<Rightarrow> (u16 \<Rightarrow> u8) \<Rightarrow> u16 list \<Rightarrow> bool \<Rightarrow> nat \<Rightarrow> mp_entry list" where
  "mp_table_spec env pin line bdfs ovr pkgcpus =
     (let isa = (if bdfs = [] then 0 else 1)
      in map (mp_cpu_spec env) (filter (\<lambda>i. pkgcpus dvd i) [0..<unat (MaxCountCPUs env)]) @
         (if bdfs = [] then [] else [MpBus 0 (bytes_of ''PCI   '')]) @
         [MpBus isa (bytes_of ''ISA   ''), MpIoapic 0 0x11 1 0xfec00000] @
         pci_irqs_spec pin line bdfs @
         map (\<lambda>(src, dst). MpInterrupt 0 0 isa src 0 dst) (isa_routes ovr) @
         [MpLocal 3 0 isa 0 0 0, MpLocal 1 0 isa 0 0xff 1])"

definition mpt_entry_ok :: "u8 list \<Rightarrow> bool" where
  "mpt_entry_ok e \<longleftrightarrow> e \<noteq> [] \<and> length e = (if hd e = 0 then 20 else 8)"

lemma read_entries_back:
  assumes "mem_read m p (length (concat es)) = concat es" "\<forall>e \<in> set es. mpt_entry_ok e"
  shows "read_entries m p (length es) = (es, p + of_nat (length (concat es)))"
  using assms
proof (induction es arbitrary: p)
  case (Cons e es)
  let ?n = "length e + length (concat es)"
  have all: "mem_read m p ?n = e @ concat es" using Cons.prems(1) by simp
  have e: "e \<noteq> []" "length e = (if hd e = 0 then 20 else 8)" using Cons.prems(2) by (auto simp: mpt_entry_ok_def)
  have front: "mem_read m p (length e) = e" using all mem_read_take [of "length e" ?n m p] by simp
  then have "m p = hd e" using e(1) nth_mem_read [of 0 "length e" m p] by (simp add: hd_conv_nth)
  then have k: "(if m p = 0 then 20 else 8) = length e" using e(2) by simp
  have "mem_read m (p + of_nat (length e)) (length (concat es)) = concat es"
    using all mem_read_drop [of m p "length e" "length (concat es)"] by simp
  then have "read_entries m (p + of_nat (length e)) (length es) = (es, p + of_nat (length e) + of_nat (length (concat es)))"
    using Cons.IH Cons.prems(2) by simp
  then show ?case unfolding length_Cons read_entries.simps k by (simp add: front Let_def algebra_simps)
qed simp

lemma mpt_types: "MPT_TYPE_CPU = 0" "MPT_TYPE_INTSRC = 3" "MPT_TYPE_LOCAL_INT = 4" "MPT_TYPE_BUS = 1" "MPT_TYPE_IOAPIC = 2"
  by (simp_all add: MPT_TYPE_CPU_def MPT_TYPE_INTSRC_def MPT_TYPE_LOCAL_INT_def MPT_TYPE_BUS_def MPT_TYPE_IOAPIC_def)

lemma entry_lengths: "mpt_entry_ok (mpt_cpu env i)" "mpt_entry_ok (mpt_bus b ''PCI   '')" "mpt_entry_ok (mpt_bus b ''ISA   '')" "mpt_entry_ok mpt_ioapic"
    "t \<noteq> 0 \<Longrightarrow> mpt_entry_ok (mpt_intsrc t a f c d e g)"
  by (simp_all add: mpt_entry_ok_def mpt_cpu_def mpt_bus_def mpt_ioapic_def mpt_intsrc_def mpt_types bytes_of_def)

lemma pci_intsrcs_ok: "\<forall>e \<in> set (pci_intsrcs ops h bdfs d pm). mpt_entry_ok e"
  by (induction bdfs arbitrary: d pm) (auto simp: Let_def entry_lengths mpt_types)

lemma all_entries_ok:
  "\<forall>e \<in> set (front_entries env bdfs pkgcpus @ pci_intsrcs ops h bdfs (-1) 0 @ rest_entries ovr b). mpt_entry_ok e"
  using pci_intsrcs_ok [of ops h bdfs "-1" 0]
  by (auto simp: front_entries_def rest_entries_def mpt_cpus_def isa_intsrcs_def local_ints_def entry_lengths mpt_types)

section \<open>The bytes say what is meant\<close>

lemma parse_intsrc:
  "mp_parse (mpt_intsrc MPT_TYPE_INTSRC a f b c d e) = MpInterrupt a f b c d e"
  "mp_parse (mpt_intsrc MPT_TYPE_LOCAL_INT a f b c d e) = MpLocal a f b c d e"
proof -
  obtain x y where f: "le_bytes 2 f = [x, y]" by (auto simp: numeral_2_eq_2)
  have "(le_word (le_bytes 2 f) :: u16) = f" by (simp add: le_word_bytes take_bit_word_eq_self)
  then show "mp_parse (mpt_intsrc MPT_TYPE_INTSRC a f b c d e) = MpInterrupt a f b c d e"
    "mp_parse (mpt_intsrc MPT_TYPE_LOCAL_INT a f b c d e) = MpLocal a f b c d e"
    by (simp_all add: mp_parse_def mpt_intsrc_def mpt_types f)
qed

lemma parse_fixed:
  "mp_parse (mpt_bus b ''PCI   '') = MpBus b (bytes_of ''PCI   '')" "mp_parse (mpt_bus b ''ISA   '') = MpBus b (bytes_of ''ISA   '')"
  "mp_parse mpt_ioapic = MpIoapic 0 0x11 1 0xfec00000"
proof -
  show "mp_parse (mpt_bus b ''PCI   '') = MpBus b (bytes_of ''PCI   '')" "mp_parse (mpt_bus b ''ISA   '') = MpBus b (bytes_of ''ISA   '')"
    by (simp_all add: mp_parse_def mpt_bus_def mpt_types bytes_of_def)
  show "mp_parse mpt_ioapic = MpIoapic 0 0x11 1 0xfec00000" by code_simp
qed

lemma four_bytes: "length l = 4 \<Longrightarrow> \<exists>a b c d. l = [a, b, c, d]"
  by (auto simp: numeral_eq_Suc length_Suc_conv)

lemma parse_cpu:
  assumes "i < 256"
  shows "mp_parse (mpt_cpu env i) = mp_cpu_spec env i"
proof -
  obtain sig feat where c: "cpu_signature env = (sig, feat)" by fastforce
  obtain a b d e where s: "le_bytes 4 sig = [a, b, d, e]" using four_bytes [of "le_bytes 4 sig"] by auto
  obtain a' b' d' e' where f: "le_bytes 4 feat = [a', b', d', e']" using four_bytes [of "le_bytes 4 feat"] by auto
  have w: "(le_word (le_bytes 4 sig) :: u32) = sig" "(le_word (le_bytes 4 feat) :: u32) = feat"
    by (simp_all add: le_word_bytes take_bit_word_eq_self)
  have u: "unat (of_nat i :: u8) = i" using assms by (simp add: unat_of_nat)
  show ?thesis
    using w by (simp add: mp_parse_def mpt_cpu_def mp_cpu_spec_def mpt_types c s f apic_id_is_present_def u of_bool_def)
qed

lemma busdev_slot: "uint (pci_bdf_to_busdev b) = int (8 * (unat b div 8))"
proof -
  have "pci_bdf_to_busdev b = push_bit 3 (drop_bit 3 b)"
  proof -
    have m: "(0x07 :: u16) = mask 3" by (simp add: mask_eq_exp_minus_1)
    show ?thesis unfolding pci_bdf_to_busdev_def m by (rule bit_word_eqI) (auto simp: bit_simps)
  qed
  also have "\<dots> = 8 * (b div 8)" by (simp add: push_bit_eq_mult drop_bit_eq_div)
  finally have "unat (pci_bdf_to_busdev b) = unat (8 * (b div 8))" by simp
  also have "\<dots> = 8 * (unat b div 8)" using unat_u16_bound [of b] by (simp add: unat_word_ariths unat_div)
  finally show ?thesis by (metis int_nat_eq uint_nat)
qed

lemma bus_zero: "pci_bdf_to_bus b = 0 \<longleftrightarrow> unat b < 256"
proof -
  have "unat (pci_bdf_to_bus b) = unat b div 256"
    using unat_u16_bound [of b]
    by (simp add: pci_bdf_to_bus_def unsigned_ucast_eq unsigned_drop_bit_eq drop_bit_eq_div take_bit_eq_mod unat_div)
  then show ?thesis by (simp add: word_unat_eq_iff div_eq_0_iff)
qed

lemma source_irq:
  assumes "unat b < 256" "pin \<noteq> 0" "pin \<le> 4"
  shows "push_bit 2 (pci_bdf_to_dev b) OR (pin - 1) = of_nat (4 * (unat b div 8) + (unat pin - 1))"
proof -
  have p: "unat (pin - 1) = unat pin - 1" "unat (pin - 1) < 4"
    using assms(2,3) by (simp_all add: unat_minus_one word_le_nat_alt unat_gt_0)
  have "pin - 1 = take_bit 2 (pin - 1)" using p(2) by (simp add: word_unat_eq_iff unsigned_take_bit_eq take_bit_eq_mod unat_mod)
  then have low: "\<not> bit (pin - 1) n" if "2 \<le> n" for n using that by (metis bit_take_bit_iff not_less)
  have plus: "push_bit 2 (pci_bdf_to_dev b) + (pin - 1) = push_bit 2 (pci_bdf_to_dev b) OR (pin - 1)"
    by (rule disjunctive_add) (use low in \<open>auto simp: bit_push_bit_iff not_less\<close>)
  have "unat (drop_bit 3 b AND 0x1f) = unat b div 8"
  proof -
    have m: "(0x1f :: u16) = mask 5" by (simp add: mask_eq_exp_minus_1)
    show ?thesis unfolding m using assms(1)
      by (simp add: unsigned_take_bit_eq unsigned_drop_bit_eq take_bit_eq_mod drop_bit_eq_div unat_mod unat_div flip: take_bit_eq_mask)
  qed
  then have "unat (pci_bdf_to_dev b) = unat b div 8"
    using assms(1) by (simp add: pci_bdf_to_dev_def unsigned_ucast_eq take_bit_eq_mod)
  then have dv: "pci_bdf_to_dev b = of_nat (unat b div 8)" by (metis of_nat_unat ucast_id)
  have pn: "pin - 1 = of_nat (unat pin - 1)" using p(1) by (metis of_nat_unat ucast_id)
  have "push_bit 2 (pci_bdf_to_dev b) OR (pin - 1) = push_bit 2 (of_nat (unat b div 8)) + of_nat (unat pin - 1)"
    unfolding plus [symmetric] by (simp only: dv pn)
  also have "\<dots> = of_nat (4 * (unat b div 8) + (unat pin - 1))" by (simp add: push_bit_eq_mult)
  finally show ?thesis .
qed

lemma first_each_subset: "set (first_each f xs) \<subseteq> set xs"
  by (induction xs) auto

lemma pin_bits:
  assumes "(p :: u8) \<le> 4" "(q :: u8) \<le> 4"
  shows "(x :: u16) AND push_bit (unat p) 1 \<noteq> 0 \<longleftrightarrow> bit x (unat p)" "bit (push_bit (unat p) (1 :: u16)) (unat q) \<longleftrightarrow> q = p"
  using assms and_exp_eq_0_iff_not_bit [of x "unat p"] by (auto simp: word_le_nat_alt bit_exp_iff word_unat_eq_iff)

definition slot_base :: "u16 \<Rightarrow> int" where "slot_base b = int (8 * (unat b div 8))"

lemma slot_base_eq: "slot_base x = slot_base y \<longleftrightarrow> unat x div 8 = unat y div 8"
  by (simp add: slot_base_def)

text \<open>What the slot and the mask of the pins that were seen leave of the functions behind \<open>b\<close>.\<close>

lemma seen_pins:
  fixes pin :: "u16 \<Rightarrow> u8" and pm pm1 pm2 :: u16
  assumes F: "\<forall>y \<in> set F. pin y \<le> 4 \<and> slot_base b \<le> slot_base y" and b: "pin b \<le> 4" "d \<le> slot_base b"
    and pm1: "pm1 = (if d \<noteq> slot_base b then 0 else pm)"
    and pm2: "pm2 = (if bit pm1 (unat (pin b)) then pm1 else pm1 OR push_bit (unat (pin b)) 1)"
  shows "filter (\<lambda>y. \<not> (slot_base y = d \<and> bit pm (unat (pin y)))) (filter (\<lambda>y. (unat y div 8, pin y) \<noteq> (unat b div 8, pin b)) F) =
    filter (\<lambda>y. \<not> (slot_base y = slot_base b \<and> bit pm2 (unat (pin y)))) F"
  unfolding filter_filter
proof (rule filter_cong [OF refl])
  fix y assume y: "y \<in> set F"
  have "bit pm2 (unat (pin y)) \<longleftrightarrow> bit pm1 (unat (pin y)) \<or> pin y = pin b"
    using F y pin_bits(2) [OF b(1)] by (auto simp: pm2 bit_or_iff)
  moreover have "d \<noteq> slot_base b \<Longrightarrow> slot_base y \<noteq> d" using F y b(2) by force
  ultimately show "((unat y div 8, pin y) \<noteq> (unat b div 8, pin b) \<and> \<not> (slot_base y = d \<and> bit pm (unat (pin y)))) \<longleftrightarrow>
      \<not> (slot_base y = slot_base b \<and> bit pm2 (unat (pin y)))"
    by (cases "d = slot_base b") (auto simp: pm1 slot_base_eq)
qed

lemma pci_entries_meant:
  fixes pin line :: "u16 \<Rightarrow> u8"
  assumes p: "pin = (\<lambda>b. pci_config_readb ops b 0x3d h)" "line = (\<lambda>b. pci_config_readb ops b 0x3c h)"
    and "sorted bdfs" "\<forall>b \<in> set bdfs. pin b \<le> 4" "\<forall>b \<in> set bdfs. d \<le> slot_base b"
  shows "map mp_parse (pci_intsrcs ops h bdfs d pm) =
    map (\<lambda>b. MpInterrupt 0 1 0 (of_nat (4 * (unat b div 8) + (unat (pin b) - 1))) 0 (line b))
      (filter (\<lambda>b. \<not> (slot_base b = d \<and> bit pm (unat (pin b))))
        (first_each (\<lambda>b. (unat b div 8, pin b)) (filter (\<lambda>b. unat b < 256 \<and> pin b \<noteq> 0) bdfs)))"
  using assms(3-5)
proof (induction bdfs arbitrary: d pm)
  case (Cons b bdfs)
  let ?key = "\<lambda>b. (unat b div 8, pin b)" and ?P = "\<lambda>b. unat b < 256 \<and> pin b \<noteq> 0"
  let ?F = "first_each ?key (filter ?P bdfs)"
  have above: "\<forall>y \<in> set bdfs. slot_base b \<le> slot_base y"
    using Cons.prems(1) by (auto simp: slot_base_def word_le_nat_alt intro: div_le_mono)
  note IH = Cons.IH [of d pm for d pm]
  consider (other) "256 \<le> unat b" | (none) "unat b < 256" "pin b = 0" | (pin) "unat b < 256" "pin b \<noteq> 0" by linarith
  then show ?case
  proof cases
    case other
    then have "\<not> unat y < 256" if "y \<in> set bdfs" for y using that Cons.prems(1) by (auto simp: word_le_nat_alt)
    then have "filter ?P bdfs = []" by (simp add: filter_empty_conv)
    with other show ?thesis by (simp add: bus_zero)
  next
    case none
    then show ?thesis using IH [of d pm] Cons.prems by (simp add: bus_zero p(1))
  next
    case pin
    have pb: "pin b \<le> 4" using Cons.prems(2) by simp
    define pm1 where "pm1 = (if d \<noteq> slot_base b then 0 else pm)"
    define pm2 where "pm2 = (if bit pm1 (unat (pin b)) then pm1 else pm1 OR push_bit (unat (pin b)) 1)"
    define e where "e = mpt_intsrc MPT_TYPE_INTSRC 0 1 (pci_bdf_to_bus b) (push_bit 2 (pci_bdf_to_dev b) OR (pin b - 1)) BUILD_IOAPIC_ID (line b)"
    have step: "pci_intsrcs ops h (b # bdfs) d pm = (if bit pm1 (unat (pin b)) then [] else [e]) @ pci_intsrcs ops h bdfs (slot_base b) pm2"
      using pin pin_bits(1) [OF pb pb, of pm1]
      by (simp add: bus_zero p busdev_slot Let_def pm1_def pm2_def e_def slot_base_def del: of_nat_mult)
    have e: "mp_parse e = MpInterrupt 0 1 0 (of_nat (4 * (unat b div 8) + (unat (pin b) - 1))) 0 (line b)"
      using pin source_irq [OF pin pb] bus_zero [of b] by (simp add: e_def parse_intsrc BUILD_IOAPIC_ID_def)
    have first: "first_each ?key (filter ?P (b # bdfs)) = b # filter (\<lambda>y. ?key y \<noteq> ?key b) ?F" using pin by simp
    have "\<forall>y \<in> set ?F. pin y \<le> 4 \<and> slot_base b \<le> slot_base y"
      using Cons.prems(2) above first_each_subset [of ?key "filter ?P bdfs"] by auto
    note rest = seen_pins [of ?F pin, OF this pb _ pm1_def pm2_def]
    have "(slot_base b = d \<and> bit pm (unat (pin b))) = bit pm1 (unat (pin b))" by (auto simp: pm1_def)
    then show ?thesis
      using rest e IH [of "slot_base b" pm2] above Cons.prems unfolding step first by (simp del: of_nat_mult of_nat_add)
  qed
qed simp

lemma pci_irqs_meant:
  fixes pin line :: "u16 \<Rightarrow> u8"
  assumes p: "pin = (\<lambda>b. pci_config_readb ops b 0x3d h)" "line = (\<lambda>b. pci_config_readb ops b 0x3c h)"
    and "sorted bdfs" "\<forall>b \<in> set bdfs. pin b \<le> 4"
  shows "map mp_parse (pci_intsrcs ops h bdfs (-1) 0) = pci_irqs_spec pin line bdfs"
  using pci_entries_meant [OF assms, where d = "-1" and pm = 0] by (simp add: pci_irqs_spec_def slot_base_def)

lemma isa_meant:
  "map mp_parse (isa_intsrcs ovr b [0..<16]) = map (\<lambda>(src, dst). MpInterrupt 0 0 b src 0 dst) (isa_routes ovr)"
proof -
  have a: "filter (\<lambda>i. \<not> bit BUILD_PCI_IRQS i) [0..<16] = [0, 1, 2, 3, 4, 6, 7, 8, 12, 13, 14, 15]" by code_simp
  have b: "filter (\<lambda>i. \<not> (ovr \<and> i = 2)) [0, 1, 2, 3, 4, 6, 7, 8, 12, 13, 14, 15 :: nat] =
      (if ovr then [0, 1, 3, 4, 6, 7, 8, 12, 13, 14, 15] else [0, 1, 2, 3, 4, 6, 7, 8, 12, 13, 14, 15])" by simp
  have c: "filter (\<lambda>i. \<not> bit BUILD_PCI_IRQS i \<and> \<not> (ovr \<and> i = 2)) xs = filter (\<lambda>i. \<not> (ovr \<and> i = 2)) (filter (\<lambda>i. \<not> bit BUILD_PCI_IRQS i) xs)" for xs
    by (induction xs) auto
  have "filter (\<lambda>i. \<not> bit BUILD_PCI_IRQS i \<and> \<not> (ovr \<and> i = 2)) [0..<16] =
      (if ovr then [0, 1, 3, 4, 6, 7, 8, 12, 13, 14, 15] else [0, 1, 2, 3, 4, 6, 7, 8, 12, 13, 14, 15])"
    unfolding c a by (rule b)
  then show ?thesis by (simp add: isa_intsrcs_def isa_routes_def parse_intsrc BUILD_IOAPIC_ID_def)
qed

lemma table_meant:
  fixes pin line :: "u16 \<Rightarrow> u8"
  assumes "pin = (\<lambda>b. pci_config_readb ops b 0x3d h)" "line = (\<lambda>b. pci_config_readb ops b 0x3c h)"
    and "sorted bdfs" "\<forall>b \<in> set bdfs. pin b \<le> 4" "unat (MaxCountCPUs env) \<le> 256"
  shows "map mp_parse (front_entries env bdfs pkgcpus @ pci_intsrcs ops h bdfs (-1) 0 @ rest_entries ovr (if bdfs = [] then 0 else 1)) =
    mp_table_spec env pin line bdfs ovr pkgcpus"
proof -
  have "map mp_parse (mpt_cpus env pkgcpus 0) = map (mp_cpu_spec env) (filter (\<lambda>i. pkgcpus dvd i) [0..<unat (MaxCountCPUs env)])"
    using assms(5) parse_cpu by (auto simp: mpt_cpus_def mod_eq_0_iff_dvd)
  then show ?thesis
    using pci_irqs_meant [OF assms(1-4)] isa_meant
    by (simp add: mp_table_spec_def front_entries_def rest_entries_def local_ints_def parse_fixed parse_intsrc Let_def)
qed

lemma pkg_cpus_positive: "pkg_cpus env = Some k \<Longrightarrow> 0 < k"
  by (auto simp: pkg_cpus_def Let_def split: prod.splits if_splits)

section \<open>Size and count\<close>

lemma length_pci_intsrcs: "length (pci_intsrcs ops h bdfs d pm) \<le> length bdfs"
  by (induction bdfs arbitrary: d pm) (auto simp: Let_def le_SucI)

lemma length_cpu_list: "length (mpt_cpus env k i) \<le> unat (MaxCountCPUs env)"
  unfolding mpt_cpus_def length_map using length_filter_le [of _ "[i..<unat (MaxCountCPUs env)]"]
  by (metis diff_le_self le_trans length_upt)

lemma length_rest: "length (rest_entries ovr b) \<le> 18" "length (concat (rest_entries ovr b)) = 8 * length (rest_entries ovr b)"
proof -
  have "length (isa_intsrcs ovr b [0..<16]) \<le> 16"
    unfolding isa_intsrcs_def length_map using length_filter_le [of _ "[0..<16]"] by simp
  then show "length (rest_entries ovr b) \<le> 18" by (simp add: rest_entries_def local_ints_def)
  show "length (concat (rest_entries ovr b)) = 8 * length (rest_entries ovr b)" by (simp add: rest_entries_def local_ints_def)
qed

lemma length_front:
  "length (concat (front_entries env bdfs k)) \<le> 20 * unat (MaxCountCPUs env) + 24"
  "length (front_entries env bdfs k) \<le> unat (MaxCountCPUs env) + 3"
  using length_cpu_list [of env k 0] by (simp_all add: front_entries_def)

text \<open>Both parts of the code together, on the bytes of the entries.\<close>

lemma written_config:
  fixes bdfs :: "u16 list"
  defines "b \<equiv> (if bdfs = [] then 0 else 1)"
  defines "es \<equiv> \<lambda>ops h env k ovr. front_entries env bdfs k @ pci_intsrcs ops h bdfs (-1) 0 @ rest_entries ovr b"
  assumes k: "0 < k" and size: "44 + 20 * unat (MaxCountCPUs env) + 8 * (length bdfs + 21) \<le> 32 * 1024"
    and front: "mpt_write_front env ops h bdfs k config m = (m1, w)"
    and keep: "\<forall>i < 32 * 1024. m2 (config + of_nat i) = m1 (config + of_nat i)"
  obtains mm n where "n = 44 + length (concat (es ops h env k ovr))" "n \<le> 32768" "mem_read mm config n = mpt_config_header @ concat (es ops h env k ovr)"
    "mpt_write_rest ovr config w m2 = mpt_set_header config (of_nat (length (es ops h env k ovr))) (of_nat n) mm"
    "\<And>a. 32 * 1024 \<le> unat (a - config) \<Longrightarrow> m1 a = m a \<and> mm a = m2 a"
proof -
  let ?F = "front_entries env bdfs k" and ?P = "pci_intsrcs ops h bdfs (-1) 0" and ?R = "rest_entries ovr b"
  let ?xs = "mpt_config_header @ concat (?F @ ?P)"
  define mm where "mm = mem_write (config + of_nat (length ?xs)) (concat ?R) m2"
  have n: "length ?xs + length (concat ?R) \<le> 32768"
    using size length_front(1) [of env bdfs k] length_pci_intsrcs [of ops h bdfs "-1" 0] length_rest [of ovr b] by simp
  have "20 * length (mpt_cpus env k 0) < 2 ^ 31" using length_cpu_list [of env k 0] size by simp
  note f = write_front_eq [OF k this, of ops h bdfs config m, unfolded front]
  then have m1: "m1 = mem_write config ?xs m" and w: "ml_entrycount w = of_nat (length ?F)" "ml_isabusid w = b"
      "ml_intsrc w = config + of_nat (length ?xs)" "ml_intsrc w - ml_intsrcs w = of_nat (8 * length ?P)"
    by (simp_all add: b_def add.assoc)
  have cnt: "(ml_intsrc w + of_nat (8 * length ?R) - ml_intsrcs w) div 8 = of_nat (length ?P + length ?R)"
  proof -
    have diff: "ml_intsrc w + of_nat (8 * length ?R) - ml_intsrcs w = of_nat (8 * (length ?P + length ?R))"
      using w(4) by (simp add: algebra_simps)
    have "8 * (length ?P + length ?R) < 2 ^ 32" using n length_rest(2) [of ovr b] by simp
    then show ?thesis unfolding diff using count_entries [of 8 "length ?P + length ?R"] by simp
  qed
  have len: "ml_intsrc w + of_nat (8 * length ?R) - config = of_nat (44 + length (concat (es ops h env k ovr)))"
    unfolding w(3) by (simp add: es_def length_rest(2))
  have rest: "mpt_write_rest ovr config w m2 =
      mpt_set_header config (of_nat (length (es ops h env k ovr))) (of_nat (44 + length (concat (es ops h env k ovr)))) mm"
    unfolding write_rest_eq w(2) cnt len unfolding mm_def w(1,3) by (simp add: es_def)
  have "mem_read mm config (length ?xs + length (concat ?R)) = ?xs @ concat ?R"
    unfolding mm_def by (rule written_whole [of m2 config ?xs m]) (use keep n m1 in \<open>simp_all\<close>)
  then have whole: "mem_read mm config (44 + length (concat (es ops h env k ovr))) = mpt_config_header @ concat (es ops h env k ovr)"
    by (simp add: es_def add.assoc)
  have far: "m1 a = m a \<and> mm a = m2 a" if a: "32 * 1024 \<le> unat (a - config)" for a
  proof -
    have "unat (a - (config + of_nat (length ?xs))) = unat (a - config) - length ?xs" using a n by (intro unat_diff_step) simp
    then have "length (concat ?R) \<le> unat (a - (config + of_nat (length ?xs)))" using a n by linarith
    then have "mm a = m2 a" unfolding mm_def using n by (intro mem_write_behind) simp_all
    moreover have "m1 a = m a" unfolding m1 using a n by (intro mem_write_behind) simp_all
    ultimately show ?thesis by blast
  qed
  show thesis by (rule that [OF refl _ whole rest far]) (use n in \<open>simp add: es_def\<close>)
qed

text \<open>
  C38. The multiprocessor table says what is meant, and a reader finds it: the configuration that is written has its signature, revision and interrupt controller address, and a checksum of
  zero over the length that it states; a reader that steps over as many entries as it states finds the processors, buses, the
  interrupt controller and the interrupts of \<open>mp_table_spec\<close>, each with its fields, and ends at the end of the stated length.
  Nothing is written outside the 32 KB of the buffer. The functions of PCI are in the order of their numbers, their pins at most four, the processors
  at most 256, and memory in the buffer does not change while the override of interrupt 0 is read.
\<close>

theorem mptable_reads_back:
  fixes pin line :: "u16 \<Rightarrow> u8"
  assumes pins: "pin = (\<lambda>b. pci_config_readb ops b 0x3d h)" "line = (\<lambda>b. pci_config_readb ops b 0x3c h)"
    and pci: "sorted bdfs" "\<forall>b \<in> set bdfs. pin b \<le> 4"
    and cpus: "pkg_cpus env = Some pkgcpus" "unat (MaxCountCPUs env) \<le> 256"
    and size: "44 + 20 * unat (MaxCountCPUs env) + 8 * (length bdfs + 21) \<le> 32 * 1024"
    and front: "mpt_write_front env ops h bdfs pkgcpus config m = (m1, w)"
    and keep: "\<forall>i < 32 * 1024. m2 (config + of_nat i) = m1 (config + of_nat i)"
    and m': "m' = mpt_write_rest irq0_override config w m2"
    and fields: "len = (get_mem 2 (config + 4) m' :: u16)" "n = (get_mem 2 (config + 34) m' :: u16)"
  shows "mem_read m' config 4 = bytes_of ''PCMP'' \<and> m' (config + 6) = 4 \<and> get_mem 4 (config + 36) m' = (0xfee00000 :: u32) \<and>
    checksum m' config (ucast len) = 0 \<and>
    (\<exists>es. read_entries m' (config + 44) (unat n) = (es, config + ucast len) \<and>
       map mp_parse es = mp_table_spec env pin line bdfs irq0_override pkgcpus) \<and>
    (\<forall>a. 32 * 1024 \<le> unat (a - config) \<longrightarrow> m1 a = m a \<and> m' a = m2 a)"
proof -
  let ?b = "if bdfs = [] then 0 else 1 :: u8"
  define es where "es = front_entries env bdfs pkgcpus @ pci_intsrcs ops h bdfs (-1) 0 @ rest_entries irq0_override ?b"
  have ok: "\<forall>e \<in> set es. mpt_entry_ok e" unfolding es_def by (rule all_entries_ok)
  obtain mm N where N: "N = 44 + length (concat es)" "N \<le> 32768" and whole: "mem_read mm config N = mpt_config_header @ concat es"
    and rest: "m' = mpt_set_header config (of_nat (length es)) (of_nat N) mm"
    and far: "\<And>a. 32 * 1024 \<le> unat (a - config) \<Longrightarrow> m1 a = m a \<and> mm a = m2 a"
    unfolding m' es_def by (rule written_config [OF pkg_cpus_positive [OF cpus(1)] size front keep]) (use that in blast)
  note hd = set_header_back [OF whole N rest]
  have "length es \<le> length (concat es)" using ok by (induction es) (auto simp: mpt_entry_ok_def split: if_splits)
  then have count: "unat n = length es"
    using N by (simp add: fields(2) hd(2) unsigned_ucast_eq unat_of_nat take_bit_nat_eq_self)
  have lw: "(ucast len :: u32) = of_nat N"
    using N(2) by (simp add: fields(1) hd(1) word_unat_eq_iff unsigned_ucast_eq unat_of_nat take_bit_nat_eq_self)
  have "read_entries m' (config + 44) (unat n) = (es, config + ucast len)"
    unfolding count lw using read_entries_back [OF hd(4) ok] by (simp add: N(1) add.assoc)
  moreover have "map mp_parse es = mp_table_spec env pin line bdfs irq0_override pkgcpus"
    unfolding es_def by (rule table_meant [OF pins pci cpus(2)])
  moreover have "m1 a = m a \<and> m' a = m2 a" if "32 * 1024 \<le> unat (a - config)" for a
    using far [OF that] hd(8) [of a] that by simp
  ultimately show ?thesis using hd(3,5-7) by (auto simp: lw)
qed

text \<open>Two processors, and three functions with interrupt pins: two of slot 1 share their pin.\<close>

definition mp_sample :: cpu_env where
  "mp_sample = \<lparr>ce_cpuid = (0x663, 0, 0x201), ce_apic_version = 0x14, MaxCountCPUs = 2, FoundAPICIDs = [3, 0, 0, 0, 0, 0, 0, 0]\<rparr>"

definition mp_pci :: "unit pci_ops" where
  "mp_pci = \<lparr>hw_readb = (\<lambda>bdf addr h. if addr = 0x3d then (if bdf = 0x10 then 2 else 1) else 11), hw_readw = (\<lambda>bdf addr h. 0), hw_readl = (\<lambda>bdf addr h. 0),
     hw_writeb = (\<lambda>bdf addr v h. h), hw_writew = (\<lambda>bdf addr v h. h), hw_writel = (\<lambda>bdf addr v h. h), hw_outb = (\<lambda>v p h. h),
     hw_host = (\<lambda>h. True)\<rparr>"

theorem mptable_reads_back_witness:
  "let (m1, w) = mpt_write_front mp_sample mp_pci () [0x08, 0x09, 0x10] 1 0x1000 (\<lambda>a. 0); m' = mpt_write_rest True 0x1000 w m1
   in map mp_parse (fst (read_entries m' 0x102c (unat (get_mem 2 0x1022 m' :: u16)))) =
     [MpCpu 0 0x14 3 0x663 0x201, MpCpu 1 0x14 1 0x663 0x201, MpBus 0 (bytes_of ''PCI   ''), MpBus 1 (bytes_of ''ISA   ''),
      MpIoapic 0 0x11 1 0xfec00000, MpInterrupt 0 1 0 4 0 11, MpInterrupt 0 1 0 9 0 11,
      MpInterrupt 0 0 1 0 0 2, MpInterrupt 0 0 1 1 0 1, MpInterrupt 0 0 1 3 0 3, MpInterrupt 0 0 1 4 0 4, MpInterrupt 0 0 1 6 0 6,
      MpInterrupt 0 0 1 7 0 7, MpInterrupt 0 0 1 8 0 8, MpInterrupt 0 0 1 12 0 12, MpInterrupt 0 0 1 13 0 13, MpInterrupt 0 0 1 14 0 14,
      MpInterrupt 0 0 1 15 0 15, MpLocal 3 0 1 0 0 0, MpLocal 1 0 1 0 0xff 1]"
proof -
  let ?pin = "\<lambda>b. pci_config_readb mp_pci b 0x3d ()" and ?line = "\<lambda>b. pci_config_readb mp_pci b 0x3c ()"
  obtain m1 w where f: "mpt_write_front mp_sample mp_pci () [0x08, 0x09, 0x10] 1 0x1000 (\<lambda>a. 0) = (m1, w)" by fastforce
  have c: "unat (MaxCountCPUs mp_sample) = 2" "pkg_cpus mp_sample = Some 1" by code_simp+
  have pci: "sorted [0x08, 0x09, 0x10 :: u16]" "\<forall>b \<in> set [0x08, 0x09, 0x10]. ?pin b \<le> 4" by code_simp+
  define m' where "m' = mpt_write_rest True 0x1000 w m1"
  obtain es where "read_entries m' (0x1000 + 44) (unat (get_mem 2 (0x1000 + 34) m' :: u16)) = (es, 0x1000 + ucast (get_mem 2 (0x1000 + 4) m' :: u16))"
      "map mp_parse es = mp_table_spec mp_sample ?pin ?line [0x08, 0x09, 0x10] True 1"
    using mptable_reads_back [OF refl refl pci c(2) _ _ f _ m'_def refl refl] c(1) by auto
  then have "map mp_parse (fst (read_entries m' 0x102c (unat (get_mem 2 0x1022 m' :: u16)))) =
      mp_table_spec mp_sample ?pin ?line [0x08, 0x09, 0x10] True 1" by simp
  also have "\<dots> = [MpCpu 0 0x14 3 0x663 0x201, MpCpu 1 0x14 1 0x663 0x201, MpBus 0 (bytes_of ''PCI   ''), MpBus 1 (bytes_of ''ISA   ''),
      MpIoapic 0 0x11 1 0xfec00000, MpInterrupt 0 1 0 4 0 11, MpInterrupt 0 1 0 9 0 11,
      MpInterrupt 0 0 1 0 0 2, MpInterrupt 0 0 1 1 0 1, MpInterrupt 0 0 1 3 0 3, MpInterrupt 0 0 1 4 0 4, MpInterrupt 0 0 1 6 0 6,
      MpInterrupt 0 0 1 7 0 7, MpInterrupt 0 0 1 8 0 8, MpInterrupt 0 0 1 12 0 12, MpInterrupt 0 0 1 13 0 13, MpInterrupt 0 0 1 14 0 14,
      MpInterrupt 0 0 1 15 0 15, MpLocal 3 0 1 0 0 0, MpLocal 1 0 1 0 0xff 1]" by code_simp
  finally show ?thesis unfolding f by (simp add: m'_def)
qed

section \<open>The routing table is accepted\<close>

lemma pirtable_accepted:
  assumes "mem_read (t_mem st) p 128 = PIR_TABLE" "PirAddr st = 0"
  shows "\<exists>m. pirtable_setup p st =
    (let (newpos, st1) = copy_to_fseg p 128 (upd_tmem (\<lambda>_. m) st) in if newpos = 0 then st1 else st1\<lparr>PirAddr := newpos\<rparr>) \<and>
    checksum m p 128 = 0"
proof -
  define m1 where "m1 = set_mem 4 p PIR_SIGNATURE (t_mem st)"
  define m2 where "m2 = m1(p + 31 := m1 (p + 31) - checksum m1 p 128)"
  have unfolded: "pirtable_setup p st = copy_pir p (upd_tmem (\<lambda>_. m2) st)"
    by (simp add: pirtable_setup_def upd_tmem_def m2_def m1_def Let_def)
  have c: "checksum m2 p 128 = 0" unfolding m2_def by (subst checksum_update) simp_all
  have s: "get_mem 4 p m2 = PIR_SIGNATURE" by (simp add: m2_def m1_def apart_at_def)
  have "mem_read (t_mem st) (p + of_nat 6) 2 = take 2 (drop 6 PIR_TABLE)"
    using mem_read_part [of 6 2 128 "t_mem st" p] unfolding assms(1) by simp
  moreover have "take 2 (drop 6 PIR_TABLE) = le_bytes 2 (128 :: u16)"
    by (simp add: PIR_TABLE_def)
  ultimately have "get_mem 2 (p + 6) (t_mem st) = (128 :: u16)"
    by (simp add: get_mem_def le_word_bytes take_bit_word_eq_self)
  then have n: "get_mem 2 (p + 6) m2 = (128 :: u16)" by (simp add: m2_def m1_def apart_at_def)
  have tm: "t_mem (upd_tmem (\<lambda>_. m2) st) = m2" and pa: "PirAddr (upd_tmem (\<lambda>_. m2) st) = 0"
    using assms(2) by (simp_all add: upd_tmem_def)
  have "copy_pir p (upd_tmem (\<lambda>_. m2) st) =
    (let (newpos, st1) = copy_to_fseg p 128 (upd_tmem (\<lambda>_. m2) st) in if newpos = 0 then st1 else st1\<lparr>PirAddr := newpos\<rparr>)"
    unfolding copy_pir_def Let_def tm n pa by (simp add: s c)
  then show ?thesis using c unfolding unfolded by blast
qed

end
