(* ===== verification/Vga.thy ===== *)
theory Vga
  imports FarCopy Bregs "HOL-Library.Signed_Division"
begin

text \<open>
  The VGA BIOS (\<open>vgasrc/\<close>), built for a card with the registers of the standard VGA: access to its registers
  (\<open>stdvgaio.c\<close>) and the functions over them (\<open>stdvga.c\<close>). The card is a parameter: a type \<open>'h\<close> of its states, with port
  input and output and, for the planar modes and the fonts, reads and writes of its memory at \<open>SEG_GRAPH\<close> by offsets of 16 bits.
  In the other modes the memory of the card is ordinary memory. A read may change the state of the card.
\<close>

section \<open>The card\<close>

record 'h vga_ops =
  vp_in :: "u16 \<Rightarrow> 'h \<Rightarrow> u8 \<times> 'h"
  vp_out :: "u8 \<Rightarrow> u16 \<Rightarrow> 'h \<Rightarrow> 'h"
  vp_outw :: "u16 \<Rightarrow> u16 \<Rightarrow> 'h \<Rightarrow> 'h"
  vp_read :: "u16 \<Rightarrow> 'h \<Rightarrow> u8 \<times> 'h"
  vp_write :: "u16 \<Rightarrow> u8 \<Rightarrow> 'h \<Rightarrow> 'h"

record 'h vga_state =
  v_mem :: mem
  v_hw :: 'h

definition on_mem :: "(mem \<Rightarrow> mem) \<Rightarrow> 'h vga_state \<Rightarrow> 'h vga_state" where "on_mem f st = st\<lparr>v_mem := f (v_mem st)\<rparr>"
definition on_hw :: "('h \<Rightarrow> 'h) \<Rightarrow> 'h vga_state \<Rightarrow> 'h vga_state" where "on_hw f st = st\<lparr>v_hw := f (v_hw st)\<rparr>"

definition from_hw :: "('h \<Rightarrow> 'a \<times> 'h) \<Rightarrow> 'h vga_state \<Rightarrow> 'a \<times> 'h vga_state" where
  "from_hw f st = (let (v, h) = f (v_hw st) in (v, st\<lparr>v_hw := h\<rparr>))"

text \<open>The description of a mode, which lies in the ROM.\<close>

record vgamode_s =
  vm_memmodel :: u8
  vm_width :: u16
  vm_height :: u16
  vm_depth :: u8
  vm_cwidth :: u8
  vm_cheight :: u8
  vm_sstart :: u16

definition MM_TEXT :: u8 where "MM_TEXT = 0x00"
definition MM_CGA :: u8 where "MM_CGA = 0x01"
definition MM_PLANAR :: u8 where "MM_PLANAR = 0x03"
definition MM_PACKED :: u8 where "MM_PACKED = 0x04"
definition MM_DIRECT :: u8 where "MM_DIRECT = 0x06"

definition SEG_GRAPH :: u16 where "SEG_GRAPH = 0xA000"
definition SEG_CTEXT :: u16 where "SEG_CTEXT = 0xB800"
definition SEG_MTEXT :: u16 where "SEG_MTEXT = 0xB000"

definition VGAREG_ACTL_ADDRESS :: u16 where "VGAREG_ACTL_ADDRESS = 0x3c0"
definition VGAREG_ACTL_WRITE_DATA :: u16 where "VGAREG_ACTL_WRITE_DATA = 0x3c0"
definition VGAREG_ACTL_READ_DATA :: u16 where "VGAREG_ACTL_READ_DATA = 0x3c1"
definition VGAREG_WRITE_MISC_OUTPUT :: u16 where "VGAREG_WRITE_MISC_OUTPUT = 0x3c2"
definition VGAREG_SEQU_ADDRESS :: u16 where "VGAREG_SEQU_ADDRESS = 0x3c4"
definition VGAREG_SEQU_DATA :: u16 where "VGAREG_SEQU_DATA = 0x3c5"
definition VGAREG_PEL_MASK :: u16 where "VGAREG_PEL_MASK = 0x3c6"
definition VGAREG_DAC_STATE :: u16 where "VGAREG_DAC_STATE = 0x3c7"
definition VGAREG_DAC_READ_ADDRESS :: u16 where "VGAREG_DAC_READ_ADDRESS = 0x3c7"
definition VGAREG_DAC_WRITE_ADDRESS :: u16 where "VGAREG_DAC_WRITE_ADDRESS = 0x3c8"
definition VGAREG_DAC_DATA :: u16 where "VGAREG_DAC_DATA = 0x3c9"
definition VGAREG_READ_FEATURE_CTL :: u16 where "VGAREG_READ_FEATURE_CTL = 0x3ca"
definition VGAREG_READ_MISC_OUTPUT :: u16 where "VGAREG_READ_MISC_OUTPUT = 0x3cc"
definition VGAREG_GRDC_ADDRESS :: u16 where "VGAREG_GRDC_ADDRESS = 0x3ce"
definition VGAREG_GRDC_DATA :: u16 where "VGAREG_GRDC_DATA = 0x3cf"
definition VGAREG_MDA_CRTC_ADDRESS :: u16 where "VGAREG_MDA_CRTC_ADDRESS = 0x3b4"
definition VGAREG_VGA_CRTC_ADDRESS :: u16 where "VGAREG_VGA_CRTC_ADDRESS = 0x3d4"
definition VGAREG_ACTL_RESET :: u16 where "VGAREG_ACTL_RESET = 0x3da"

section \<open>Registers\<close>

definition stdvga_pelmask_read :: "'h vga_ops \<Rightarrow> 'h \<Rightarrow> u8 \<times> 'h" where "stdvga_pelmask_read ops h = vp_in ops VGAREG_PEL_MASK h"
definition stdvga_pelmask_write :: "'h vga_ops \<Rightarrow> u8 \<Rightarrow> 'h \<Rightarrow> 'h" where "stdvga_pelmask_write ops v h = vp_out ops v VGAREG_PEL_MASK h"
definition stdvga_misc_read :: "'h vga_ops \<Rightarrow> 'h \<Rightarrow> u8 \<times> 'h" where "stdvga_misc_read ops h = vp_in ops VGAREG_READ_MISC_OUTPUT h"
definition stdvga_misc_write :: "'h vga_ops \<Rightarrow> u8 \<Rightarrow> 'h \<Rightarrow> 'h" where
  "stdvga_misc_write ops v h = vp_out ops v VGAREG_WRITE_MISC_OUTPUT h"

definition stdvga_misc_mask :: "'h vga_ops \<Rightarrow> u8 \<Rightarrow> u8 \<Rightarrow> 'h \<Rightarrow> 'h" where
  "stdvga_misc_mask ops off on h = (let (v, h1) = stdvga_misc_read ops h in stdvga_misc_write ops ((v AND NOT off) OR on) h1)"

text \<open>The registers behind an index: the sequencer, the graphics controller and the display controller.\<close>

definition indexed_read :: "'h vga_ops \<Rightarrow> u16 \<Rightarrow> u8 \<Rightarrow> 'h \<Rightarrow> u8 \<times> 'h" where
  "indexed_read ops port index h = vp_in ops (port + 1) (vp_out ops index port h)"

definition indexed_write :: "'h vga_ops \<Rightarrow> u16 \<Rightarrow> u8 \<Rightarrow> u8 \<Rightarrow> 'h \<Rightarrow> 'h" where
  "indexed_write ops port index v h = vp_outw ops (push_bit 8 (ucast v) OR ucast index) port h"

definition indexed_mask :: "'h vga_ops \<Rightarrow> u16 \<Rightarrow> u8 \<Rightarrow> u8 \<Rightarrow> u8 \<Rightarrow> 'h \<Rightarrow> 'h" where
  "indexed_mask ops port index off on h =
     (let (v, h1) = vp_in ops (port + 1) (vp_out ops index port h) in vp_out ops ((v AND NOT off) OR on) (port + 1) h1)"

definition stdvga_sequ_read :: "'h vga_ops \<Rightarrow> u8 \<Rightarrow> 'h \<Rightarrow> u8 \<times> 'h" where "stdvga_sequ_read ops = indexed_read ops VGAREG_SEQU_ADDRESS"
definition stdvga_sequ_write :: "'h vga_ops \<Rightarrow> u8 \<Rightarrow> u8 \<Rightarrow> 'h \<Rightarrow> 'h" where
  "stdvga_sequ_write ops = indexed_write ops VGAREG_SEQU_ADDRESS"
definition stdvga_sequ_mask :: "'h vga_ops \<Rightarrow> u8 \<Rightarrow> u8 \<Rightarrow> u8 \<Rightarrow> 'h \<Rightarrow> 'h" where
  "stdvga_sequ_mask ops = indexed_mask ops VGAREG_SEQU_ADDRESS"
definition stdvga_grdc_read :: "'h vga_ops \<Rightarrow> u8 \<Rightarrow> 'h \<Rightarrow> u8 \<times> 'h" where "stdvga_grdc_read ops = indexed_read ops VGAREG_GRDC_ADDRESS"
definition stdvga_grdc_write :: "'h vga_ops \<Rightarrow> u8 \<Rightarrow> u8 \<Rightarrow> 'h \<Rightarrow> 'h" where
  "stdvga_grdc_write ops = indexed_write ops VGAREG_GRDC_ADDRESS"
definition stdvga_grdc_mask :: "'h vga_ops \<Rightarrow> u8 \<Rightarrow> u8 \<Rightarrow> u8 \<Rightarrow> 'h \<Rightarrow> 'h" where
  "stdvga_grdc_mask ops = indexed_mask ops VGAREG_GRDC_ADDRESS"
definition stdvga_crtc_read :: "'h vga_ops \<Rightarrow> u16 \<Rightarrow> u8 \<Rightarrow> 'h \<Rightarrow> u8 \<times> 'h" where "stdvga_crtc_read ops crtc_addr = indexed_read ops crtc_addr"
definition stdvga_crtc_write :: "'h vga_ops \<Rightarrow> u16 \<Rightarrow> u8 \<Rightarrow> u8 \<Rightarrow> 'h \<Rightarrow> 'h" where
  "stdvga_crtc_write ops crtc_addr = indexed_write ops crtc_addr"
definition stdvga_crtc_mask :: "'h vga_ops \<Rightarrow> u16 \<Rightarrow> u8 \<Rightarrow> u8 \<Rightarrow> u8 \<Rightarrow> 'h \<Rightarrow> 'h" where
  "stdvga_crtc_mask ops crtc_addr = indexed_mask ops crtc_addr"

text \<open>The attribute controller: one port takes an index and a value in turn, and a read of another port starts with the index.\<close>

definition stdvga_attr_read :: "'h vga_ops \<Rightarrow> u8 \<Rightarrow> 'h \<Rightarrow> u8 \<times> 'h" where
  "stdvga_attr_read ops index h =
     (let (_, h1) = vp_in ops VGAREG_ACTL_RESET h;
          (orig, h2) = vp_in ops VGAREG_ACTL_ADDRESS h1;
          (v, h3) = vp_in ops VGAREG_ACTL_READ_DATA (vp_out ops index VGAREG_ACTL_ADDRESS h2);
          (_, h4) = vp_in ops VGAREG_ACTL_RESET h3
      in (v, vp_out ops orig VGAREG_ACTL_ADDRESS h4))"

definition stdvga_attr_write :: "'h vga_ops \<Rightarrow> u8 \<Rightarrow> u8 \<Rightarrow> 'h \<Rightarrow> 'h" where
  "stdvga_attr_write ops index v h =
     (let (_, h1) = vp_in ops VGAREG_ACTL_RESET h;
          (orig, h2) = vp_in ops VGAREG_ACTL_ADDRESS h1
      in vp_out ops orig VGAREG_ACTL_ADDRESS (vp_out ops v VGAREG_ACTL_WRITE_DATA (vp_out ops index VGAREG_ACTL_ADDRESS h2)))"

definition stdvga_attr_mask :: "'h vga_ops \<Rightarrow> u8 \<Rightarrow> u8 \<Rightarrow> u8 \<Rightarrow> 'h \<Rightarrow> 'h" where
  "stdvga_attr_mask ops index off on h =
     (let (_, h1) = vp_in ops VGAREG_ACTL_RESET h;
          (orig, h2) = vp_in ops VGAREG_ACTL_ADDRESS h1;
          (v, h3) = vp_in ops VGAREG_ACTL_READ_DATA (vp_out ops index VGAREG_ACTL_ADDRESS h2)
      in vp_out ops orig VGAREG_ACTL_ADDRESS (vp_out ops ((v AND NOT off) OR on) VGAREG_ACTL_WRITE_DATA h3))"

definition stdvga_attrindex_read :: "'h vga_ops \<Rightarrow> 'h \<Rightarrow> u8 \<times> 'h" where
  "stdvga_attrindex_read ops h = vp_in ops VGAREG_ACTL_ADDRESS (snd (vp_in ops VGAREG_ACTL_RESET h))"

definition stdvga_attrindex_write :: "'h vga_ops \<Rightarrow> u8 \<Rightarrow> 'h \<Rightarrow> 'h" where
  "stdvga_attrindex_write ops v h = vp_out ops v VGAREG_ACTL_ADDRESS (snd (vp_in ops VGAREG_ACTL_RESET h))"

text \<open>The colours: \<open>n\<close> bytes from and to the data port, and the transfers of \<open>count\<close> colours from and to memory.\<close>

fun dac_in :: "'h vga_ops \<Rightarrow> nat \<Rightarrow> 'h \<Rightarrow> u8 list \<times> 'h" where
  "dac_in ops 0 h = ([], h)"
| "dac_in ops (Suc n) h = (let (v, h1) = vp_in ops VGAREG_DAC_DATA h; (vs, h2) = dac_in ops n h1 in (v # vs, h2))"

fun dac_out :: "'h vga_ops \<Rightarrow> u8 list \<Rightarrow> 'h \<Rightarrow> 'h" where
  "dac_out ops [] h = h"
| "dac_out ops (v # vs) h = dac_out ops vs (vp_out ops v VGAREG_DAC_DATA h)"

definition stdvga_dac_read :: "'h vga_ops \<Rightarrow> u16 \<Rightarrow> u32 \<Rightarrow> u8 \<Rightarrow> nat \<Rightarrow> 'h vga_state \<Rightarrow> 'h vga_state" where
  "stdvga_dac_read ops seg data_far start count st =
     (let (bs, h) = dac_in ops (3 * count) (vp_out ops start VGAREG_DAC_READ_ADDRESS (v_hw st))
      in st\<lparr>v_hw := h, v_mem := mem_write (MAKE_FLATPTR seg data_far) bs (v_mem st)\<rparr>)"

definition stdvga_dac_write :: "'h vga_ops \<Rightarrow> u16 \<Rightarrow> u32 \<Rightarrow> u8 \<Rightarrow> nat \<Rightarrow> 'h vga_state \<Rightarrow> 'h vga_state" where
  "stdvga_dac_write ops seg data_far start count st =
     st\<lparr>v_hw := dac_out ops (mem_read (v_mem st) (MAKE_FLATPTR seg data_far) (3 * count)) (vp_out ops start VGAREG_DAC_WRITE_ADDRESS (v_hw st))\<rparr>"

section \<open>Attributes and colours\<close>

text \<open>The loop over the attribute registers 1 to 3.\<close>

definition attr_mask_1_3 :: "'h vga_ops \<Rightarrow> u8 \<Rightarrow> u8 \<Rightarrow> 'h \<Rightarrow> 'h" where
  "attr_mask_1_3 ops off on h = fold (\<lambda>i. stdvga_attr_mask ops i off on) [1, 2, 3] h"

definition stdvga_set_border_color :: "'h vga_ops \<Rightarrow> u8 \<Rightarrow> 'h \<Rightarrow> 'h" where
  "stdvga_set_border_color ops color h =
     (let v = color AND 0x0f; v1 = (if v AND 0x08 \<noteq> 0 then v + 0x08 else v)
      in attr_mask_1_3 ops 0x10 (color AND 0x10) (stdvga_attr_write ops 0x00 v1 h))"

definition stdvga_set_overscan_border_color :: "'h vga_ops \<Rightarrow> u8 \<Rightarrow> 'h \<Rightarrow> 'h" where
  "stdvga_set_overscan_border_color ops color = stdvga_attr_write ops 0x11 color"

definition stdvga_get_overscan_border_color :: "'h vga_ops \<Rightarrow> 'h \<Rightarrow> u8 \<times> 'h" where
  "stdvga_get_overscan_border_color ops = stdvga_attr_read ops 0x11"

definition stdvga_set_palette :: "'h vga_ops \<Rightarrow> u8 \<Rightarrow> 'h \<Rightarrow> 'h" where
  "stdvga_set_palette ops palid = attr_mask_1_3 ops 0x01 (palid AND 0x01)"

text \<open>The registers of the palette, 0 to 15, and the border, 17.\<close>

definition palette_regs :: "u8 list" where "palette_regs = map of_nat [0..<16] @ [0x11]"

definition stdvga_set_all_palette_reg :: "'h vga_ops \<Rightarrow> u16 \<Rightarrow> u32 \<Rightarrow> 'h vga_state \<Rightarrow> 'h vga_state" where
  "stdvga_set_all_palette_reg ops seg data_far st =
     on_hw (fold (\<lambda>(i, v). stdvga_attr_write ops i v) (zip palette_regs (mem_read (v_mem st) (MAKE_FLATPTR seg data_far) 17))) st"

fun attr_reads :: "'h vga_ops \<Rightarrow> u8 list \<Rightarrow> 'h \<Rightarrow> u8 list \<times> 'h" where
  "attr_reads ops [] h = ([], h)"
| "attr_reads ops (i # is) h = (let (v, h1) = stdvga_attr_read ops i h; (vs, h2) = attr_reads ops is h1 in (v # vs, h2))"

definition stdvga_get_all_palette_reg :: "'h vga_ops \<Rightarrow> u16 \<Rightarrow> u32 \<Rightarrow> 'h vga_state \<Rightarrow> 'h vga_state" where
  "stdvga_get_all_palette_reg ops seg data_far st =
     (let (bs, st1) = from_hw (attr_reads ops palette_regs) st in on_mem (mem_write (MAKE_FLATPTR seg data_far) bs) st1)"

definition stdvga_toggle_intensity :: "'h vga_ops \<Rightarrow> u8 \<Rightarrow> 'h \<Rightarrow> 'h" where
  "stdvga_toggle_intensity ops flag = stdvga_attr_mask ops 0x10 0x08 (push_bit 3 (flag AND 0x01))"

definition stdvga_select_video_dac_color_page :: "'h vga_ops \<Rightarrow> u8 \<Rightarrow> u8 \<Rightarrow> 'h \<Rightarrow> 'h" where
  "stdvga_select_video_dac_color_page ops flag data h =
     (if flag AND 0x01 = 0 then stdvga_attr_mask ops 0x10 0x80 (push_bit 7 data) h
      else
        let (val, h1) = stdvga_attr_read ops 0x10 h;
            data1 = (if val AND 0x80 = 0 then push_bit 2 data else data)
        in stdvga_attr_write ops 0x14 (data1 AND 0x0f) h1)"

definition stdvga_read_video_dac_state :: "'h vga_ops \<Rightarrow> 'h \<Rightarrow> (u8 \<times> u8) \<times> 'h" where
  "stdvga_read_video_dac_state ops h =
     (let (a, h1) = stdvga_attr_read ops 0x10 h; (b, h2) = stdvga_attr_read ops 0x14 h1;
          val1 = drop_bit 7 a; val2 = b AND 0x0f
      in ((val1, if val1 AND 0x01 = 0 then drop_bit 2 val2 else val2), h2))"

text \<open>One colour made grey.\<close>

definition gray_intensity :: "u8 list \<Rightarrow> u16" where
  "gray_intensity rgb =
     (let i = drop_bit 8 (77 * ucast (rgb ! 0) + 151 * ucast (rgb ! 1) + 28 * ucast (rgb ! 2) + 0x80 :: u32); w = ucast i :: u16
      in if w > 0x3f then 0x3f else w)"

definition gray_one :: "'h vga_ops \<Rightarrow> nat \<Rightarrow> 'h \<Rightarrow> 'h" where
  "gray_one ops i h =
     (let (rgb, h1) = dac_in ops 3 (vp_out ops (of_nat i) VGAREG_DAC_READ_ADDRESS h)
      in dac_out ops (replicate 3 (ucast (gray_intensity rgb))) (vp_out ops (of_nat i) VGAREG_DAC_WRITE_ADDRESS h1))"

definition stdvga_perform_gray_scale_summing :: "'h vga_ops \<Rightarrow> u16 \<Rightarrow> u16 \<Rightarrow> 'h \<Rightarrow> 'h" where
  "stdvga_perform_gray_scale_summing ops start count h =
     stdvga_attrindex_write ops 0x20 (fold (gray_one ops) [unat start..<unat start + unat count] (stdvga_attrindex_write ops 0x00 h))"

section \<open>Memory of the card\<close>

definition stdvga_set_text_block_specifier :: "'h vga_ops \<Rightarrow> u8 \<Rightarrow> 'h \<Rightarrow> 'h" where
  "stdvga_set_text_block_specifier ops spec = stdvga_sequ_write ops 0x03 spec"

text \<open>A plane, or for \<open>None\<close> the default.\<close>

definition stdvga_planar4_plane :: "'h vga_ops \<Rightarrow> nat option \<Rightarrow> 'h \<Rightarrow> 'h" where
  "stdvga_planar4_plane ops plane h =
     (case plane of
        None \<Rightarrow> stdvga_grdc_write ops 0x04 0 (stdvga_sequ_write ops 0x02 0x0f h)
      | Some p \<Rightarrow> stdvga_grdc_write ops 0x04 (of_nat p) (stdvga_sequ_write ops 0x02 (push_bit p 1) h))"

definition get_font_access :: "'h vga_ops \<Rightarrow> 'h \<Rightarrow> 'h" where
  "get_font_access ops h =
     fold (\<lambda>(i, v). stdvga_grdc_write ops i v) [(0x04, 0x02), (0x05, 0x00), (0x06, 0x04)]
       (fold (\<lambda>(i, v). stdvga_sequ_write ops i v) [(0x00, 0x01), (0x02, 0x04), (0x04, 0x07), (0x00, 0x03)] h)"

definition release_font_access :: "'h vga_ops \<Rightarrow> 'h \<Rightarrow> 'h" where
  "release_font_access ops h =
     (let h1 = fold (\<lambda>(i, v). stdvga_sequ_write ops i v) [(0x00, 0x01), (0x02, 0x03), (0x04, 0x03), (0x00, 0x03)] h;
          (v, h2) = stdvga_misc_read ops h1
      in fold (\<lambda>(i, v). stdvga_grdc_write ops i v) [(0x06, if v AND 0x01 \<noteq> 0 then 0x0e else 0x0a), (0x04, 0x00), (0x05, 0x10)] h2)"

text \<open>A copy of bytes to the memory of the card at an offset.\<close>

fun vram_copy :: "'h vga_ops \<Rightarrow> u16 \<Rightarrow> u8 list \<Rightarrow> 'h \<Rightarrow> 'h" where
  "vram_copy ops off [] h = h"
| "vram_copy ops off (b # bs) h = vram_copy ops (off + 1) bs (vp_write ops off b h)"

definition stdvga_load_font :: "'h vga_ops \<Rightarrow> u16 \<Rightarrow> u32 \<Rightarrow> u16 \<Rightarrow> u16 \<Rightarrow> u8 \<Rightarrow> u8 \<Rightarrow> 'h vga_state \<Rightarrow> 'h vga_state" where
  "stdvga_load_font ops seg src_far count start destflags fontsize st =
     (let blockaddr = push_bit 14 (ucast (destflags AND 0x03)) + push_bit 11 (ucast (destflags AND 0x04)) :: u16;
          dest = blockaddr + start * 32;
          glyph = (\<lambda>i. map (\<lambda>j. v_mem st (MAKE_FLATPTR seg (ucast (ucast src_far + of_nat (i * unat fontsize + j) :: u16)))) [0..<unat fontsize])
      in on_hw (\<lambda>h. release_font_access ops (fold (\<lambda>i. vram_copy ops (dest + of_nat (i * 32)) (glyph i)) [0..<unat count] (get_font_access ops h))) st)"

section \<open>The display controller\<close>

definition stdvga_get_crtc :: "'h vga_ops \<Rightarrow> 'h \<Rightarrow> u16 \<times> 'h" where
  "stdvga_get_crtc ops h =
     (let (v, h1) = stdvga_misc_read ops h in (if v AND 1 \<noteq> 0 then VGAREG_VGA_CRTC_ADDRESS else VGAREG_MDA_CRTC_ADDRESS, h1))"

definition stdvga_vram_ratio :: "vgamode_s \<Rightarrow> int" where
  "stdvga_vram_ratio vmode =
     (if vm_memmodel vmode = MM_TEXT then 2
      else if vm_memmodel vmode = MM_CGA then 4 div uint (vm_depth vmode)
      else if vm_memmodel vmode = MM_PLANAR then 4 else 1)"

definition stdvga_set_cursor_shape :: "'h vga_ops \<Rightarrow> u16 \<Rightarrow> 'h \<Rightarrow> 'h" where
  "stdvga_set_cursor_shape ops cursor_type h =
     (let (crtc, h1) = stdvga_get_crtc ops h
      in stdvga_crtc_write ops crtc 0x0b (ucast cursor_type) (stdvga_crtc_write ops crtc 0x0a (ucast (drop_bit 8 cursor_type)) h1))"

definition stdvga_set_cursor_pos :: "'h vga_ops \<Rightarrow> u32 \<Rightarrow> 'h \<Rightarrow> 'h" where
  "stdvga_set_cursor_pos ops address h =
     (let (crtc, h1) = stdvga_get_crtc ops h; a = word_of_int (sint address sdiv 2) :: u32
      in stdvga_crtc_write ops crtc 0x0f (ucast a) (stdvga_crtc_write ops crtc 0x0e (ucast (drop_bit 8 a)) h1))"

definition stdvga_set_scan_lines :: "'h vga_ops \<Rightarrow> u8 \<Rightarrow> 'h \<Rightarrow> 'h" where
  "stdvga_set_scan_lines ops lns h = (let (crtc, h1) = stdvga_get_crtc ops h in stdvga_crtc_mask ops crtc 0x09 0x1f (lns - 1) h1)"

definition stdvga_get_vde :: "'h vga_ops \<Rightarrow> 'h \<Rightarrow> u16 \<times> 'h" where
  "stdvga_get_vde ops h =
     (let (crtc, h1) = stdvga_get_crtc ops h; (v, h2) = stdvga_crtc_read ops crtc 0x12 h1; (ovl, h3) = stdvga_crtc_read ops crtc 0x07 h2
      in (ucast v + push_bit 7 (ucast (ovl AND 0x02)) + push_bit 3 (ucast (ovl AND 0x40)) + 1, h3))"

definition stdvga_get_window :: "vgamode_s \<Rightarrow> int \<Rightarrow> int" where "stdvga_get_window vmode window = -1"
definition stdvga_set_window :: "vgamode_s \<Rightarrow> int \<Rightarrow> int \<Rightarrow> int" where "stdvga_set_window vmode window val = -1"

definition stdvga_get_linelength :: "'h vga_ops \<Rightarrow> vgamode_s \<Rightarrow> 'h \<Rightarrow> int \<times> 'h" where
  "stdvga_get_linelength ops vmode h =
     (let (crtc, h1) = stdvga_get_crtc ops h; (v, h2) = stdvga_crtc_read ops crtc 0x13 h1
      in (uint v * 8 div stdvga_vram_ratio vmode, h2))"

definition stdvga_set_linelength :: "'h vga_ops \<Rightarrow> vgamode_s \<Rightarrow> int \<Rightarrow> 'h \<Rightarrow> int \<times> 'h" where
  "stdvga_set_linelength ops vmode val h =
     (let v = (val * stdvga_vram_ratio vmode + 7) sdiv 8; (crtc, h1) = stdvga_get_crtc ops h
      in (0, stdvga_crtc_write ops crtc 0x13 (word_of_int v) h1))"

definition stdvga_get_displaystart :: "'h vga_ops \<Rightarrow> vgamode_s \<Rightarrow> 'h \<Rightarrow> int \<times> 'h" where
  "stdvga_get_displaystart ops vmode h =
     (let (crtc, h1) = stdvga_get_crtc ops h; (a, h2) = stdvga_crtc_read ops crtc 0x0c h1; (b, h3) = stdvga_crtc_read ops crtc 0x0d h2
      in ((uint a * 256 + uint b) * 4 div stdvga_vram_ratio vmode, h3))"

definition stdvga_set_displaystart :: "'h vga_ops \<Rightarrow> vgamode_s \<Rightarrow> int \<Rightarrow> 'h \<Rightarrow> int \<times> 'h" where
  "stdvga_set_displaystart ops vmode val h =
     (let (crtc, h1) = stdvga_get_crtc ops h; v = word_of_int (val * stdvga_vram_ratio vmode sdiv 4) :: u32
      in (0, stdvga_crtc_write ops crtc 0x0d (ucast v) (stdvga_crtc_write ops crtc 0x0c (ucast (drop_bit 8 v)) h1)))"

definition stdvga_get_dacformat :: "vgamode_s \<Rightarrow> int" where "stdvga_get_dacformat vmode = -1"
definition stdvga_set_dacformat :: "vgamode_s \<Rightarrow> int \<Rightarrow> int" where "stdvga_set_dacformat vmode val = -1"

text \<open>Bits per pixel in the memory of the system, and the length of a line.\<close>

definition vga_bpp :: "vgamode_s \<Rightarrow> nat" where
  "vga_bpp vmode =
     (if vm_memmodel vmode = MM_TEXT then 16 else if vm_memmodel vmode = MM_PLANAR then 1
      else if vm_depth vmode > 8 then (unat (vm_depth vmode) + 7) div 8 * 8 else unat (vm_depth vmode))"

definition stdvga_get_linesize :: "vgamode_s \<Rightarrow> nat" where
  "stdvga_get_linesize vmode = (unat (vm_width vmode) * vga_bpp vmode + 7) div 8"

definition stdvga_enable_video_addressing :: "'h vga_ops \<Rightarrow> u8 \<Rightarrow> 'h \<Rightarrow> 'h" where
  "stdvga_enable_video_addressing ops disable = stdvga_misc_mask ops 0x02 (if disable AND 1 \<noteq> 0 then 0x00 else 0x02)"

definition stdvga_setup :: "'h vga_ops \<Rightarrow> 'h \<Rightarrow> int \<times> 'h" where
  "stdvga_setup ops h = (0, stdvga_sequ_write ops 0x04 0x02 (stdvga_misc_write ops 0xc3 h))"

section \<open>The attribute controller\<close>

text \<open>What a card does at the ports of the attribute controller, seen through a view of its states: whether the next value
  written is data, the index, and the registers. A read of the status port starts with the index again.\<close>

definition attr_hw :: "'h vga_ops \<Rightarrow> ('h \<Rightarrow> bool \<times> u8 \<times> (u8 \<Rightarrow> u8)) \<Rightarrow> bool" where
  "attr_hw ops av \<longleftrightarrow>
     (\<forall>h. case av h of (ff, i, r) \<Rightarrow>
        av (snd (vp_in ops VGAREG_ACTL_RESET h)) = (False, i, r) \<and>
        fst (vp_in ops VGAREG_ACTL_ADDRESS h) = i \<and> av (snd (vp_in ops VGAREG_ACTL_ADDRESS h)) = (ff, i, r) \<and>
        fst (vp_in ops VGAREG_ACTL_READ_DATA h) = r (i AND 0x1f) \<and> av (snd (vp_in ops VGAREG_ACTL_READ_DATA h)) = (ff, i, r) \<and>
        (\<forall>v. av (vp_out ops v VGAREG_ACTL_ADDRESS h) = (if ff then (False, i, r(i AND 0x1f := v)) else (True, v, r))))"

lemma attr_hwD:
  assumes "attr_hw ops av" "av h = (ff, i, r)"
  shows "vp_in ops VGAREG_ACTL_RESET h = (x, h') \<Longrightarrow> av h' = (False, i, r)"
    and "vp_in ops VGAREG_ACTL_ADDRESS h = (x, h') \<Longrightarrow> x = i \<and> av h' = (ff, i, r)"
    and "vp_in ops VGAREG_ACTL_READ_DATA h = (x, h') \<Longrightarrow> x = r (i AND 0x1f) \<and> av h' = (ff, i, r)"
    and "\<not> ff \<Longrightarrow> av (vp_out ops v VGAREG_ACTL_ADDRESS h) = (True, v, r)"
    and "ff \<Longrightarrow> av (vp_out ops v VGAREG_ACTL_ADDRESS h) = (False, i, r(i AND 0x1f := v))"
  using spec [OF assms(1) [unfolded attr_hw_def], of h] unfolding assms(2) prod.case by auto

text \<open>
  C39. The accesses to the attribute controller: a write changes exactly its register, a masked write sets and clears the bits of
  exactly its register, and a read returns the register; each of them leaves the index, whose upper bit keeps the display on,
  as it was, whatever state the port was in.
\<close>

theorem attr_access:
  assumes hw: "attr_hw ops av" and view: "av h = (ff, i, r)" and index: "index AND 0x1f = index"
  shows "av (stdvga_attr_write ops index v h) = (True, i, r(index := v)) \<and>
    av (stdvga_attr_mask ops index off on h) = (True, i, r(index := (r index AND NOT off) OR on)) \<and>
    fst (stdvga_attr_read ops index h) = r index \<and> av (snd (stdvga_attr_read ops index h)) = (True, i, r)"
proof -
  obtain x1 h1 where 1: "vp_in ops VGAREG_ACTL_RESET h = (x1, h1)" by fastforce
  note a1 = attr_hwD(1) [OF hw view 1]
  obtain orig h2 where 2: "vp_in ops VGAREG_ACTL_ADDRESS h1 = (orig, h2)" by fastforce
  note a2 = attr_hwD(2) [OF hw a1 2]
  define h3 where "h3 = vp_out ops index VGAREG_ACTL_ADDRESS h2"
  have a3: "av h3 = (True, index, r)" using attr_hwD(4) [OF hw conjunct2 [OF a2]] by (simp add: h3_def)
  have same: "VGAREG_ACTL_WRITE_DATA = VGAREG_ACTL_ADDRESS" by (simp add: VGAREG_ACTL_WRITE_DATA_def VGAREG_ACTL_ADDRESS_def)
  have wr: "av (vp_out ops orig VGAREG_ACTL_ADDRESS (vp_out ops w VGAREG_ACTL_WRITE_DATA g)) = (True, i, r(index := w))"
    if "av g = (True, index, r)" for g w
    unfolding same using attr_hwD(4) [OF hw attr_hwD(5) [OF hw that], where v1 = w and v = orig] a2 index by (simp add: fun_upd_def)
  obtain v3 h4 where 4: "vp_in ops VGAREG_ACTL_READ_DATA h3 = (v3, h4)" by fastforce
  have a4: "v3 = r index" "av h4 = (True, index, r)" using attr_hwD(3) [OF hw a3 4] index by simp_all
  obtain x5 h5 where 5: "vp_in ops VGAREG_ACTL_RESET h4 = (x5, h5)" by fastforce
  have a5: "av h5 = (False, index, r)" by (rule attr_hwD(1) [OF hw a4(2) 5])
  show ?thesis
    using wr [OF a3, of v] wr [OF a4(2), of "(v3 AND NOT off) OR on"] attr_hwD(4) [OF hw a5, where v = orig] a4(1) a2
    by (simp add: stdvga_attr_write_def stdvga_attr_mask_def stdvga_attr_read_def 1 2 4 5 flip: h3_def)
qed

text \<open>A card that is an attribute controller only.\<close>

definition attr_card :: "(bool \<times> u8 \<times> (u8 \<Rightarrow> u8)) vga_ops" where
  "attr_card = \<lparr>vp_in = (\<lambda>p (ff, i, r). if p = VGAREG_ACTL_RESET then (0, False, i, r) else if p = VGAREG_ACTL_ADDRESS then (i, ff, i, r)
                   else if p = VGAREG_ACTL_READ_DATA then (r (i AND 0x1f), ff, i, r) else (0, ff, i, r)),
     vp_out = (\<lambda>v p (ff, i, r). if p \<noteq> VGAREG_ACTL_ADDRESS then (ff, i, r) else if ff then (False, i, r(i AND 0x1f := v)) else (True, v, r)),
     vp_outw = (\<lambda>v p h. h), vp_read = (\<lambda>off h. (0, h)), vp_write = (\<lambda>off v h. h)\<rparr>"

lemma attr_card_hw: "attr_hw attr_card (\<lambda>h. h)"
  by (simp add: attr_hw_def attr_card_def VGAREG_ACTL_RESET_def VGAREG_ACTL_ADDRESS_def VGAREG_ACTL_READ_DATA_def)

theorem attr_access_witness:
  "stdvga_attr_mask attr_card 0x10 0x08 0x01 (True, 0x20, \<lambda>i. 0x0c) = (True, 0x20, (\<lambda>i. 0x0c)(0x10 := 0x05))"
  using attr_access [OF attr_card_hw refl, where index = "0x10" and ff = True and i = "0x20" and r = "\<lambda>i. 0x0c" and off = "0x08" and on = "0x01"]
  by simp

end
