(* ===== verification/VgaFb.thy ===== *)
theory VgaFb
  imports Vga
begin

text \<open>
  The framebuffer of the VGA BIOS (\<open>vgasrc/vgafb.c\<close>): operations on eight pixels, on rectangles and on characters, in the
  layouts of the memory models. The driver of the card (\<open>vgahw.h\<close>) is an environment. The pixels of an operation are a list of
  eight values. A copy to or from the framebuffer in high memory goes through interrupt 0x15 function 0x87, which is modelled in
  System; here it is the copy that it does.
\<close>

section \<open>Environment and data of the BIOS\<close>

record 'h vgahw =
  vh_ops :: "'h vga_ops"
  vh_mode :: "u16 \<Rightarrow> vgamode_s"
  vh_find_mode :: "int \<Rightarrow> u16"
  vh_set_mode :: "u16 \<Rightarrow> u32 \<Rightarrow> 'h vga_state \<Rightarrow> int \<times> 'h vga_state"
  vh_get_linelength :: "vgamode_s \<Rightarrow> 'h \<Rightarrow> int \<times> 'h"
  vh_get_displaystart :: "vgamode_s \<Rightarrow> 'h \<Rightarrow> int \<times> 'h"
  vh_set_displaystart :: "vgamode_s \<Rightarrow> int \<Rightarrow> 'h \<Rightarrow> int \<times> 'h"
  vh_save_restore :: "u16 \<Rightarrow> u16 \<Rightarrow> u32 \<Rightarrow> 'h vga_state \<Rightarrow> int \<times> 'h vga_state"
  vh_vbe :: "bregs \<Rightarrow> 'h vga_state \<Rightarrow> bregs \<times> 'h vga_state"
  vh_emulate_text :: bool
  VBE_framebuffer :: u32
  vh_stack_buffer :: u32
  vh_global_seg :: u16
  vgafont8 :: u16
  vgafont14 :: u16
  vgafont16 :: u16
  vgafont14alt :: u16
  vgafont16alt :: u16
  static_functionality :: u16

definition off_video_mode :: u32 where "off_video_mode = 0x49"
definition off_video_cols :: u32 where "off_video_cols = 0x4a"
definition off_video_pagesize :: u32 where "off_video_pagesize = 0x4c"
definition off_video_pagestart :: u32 where "off_video_pagestart = 0x4e"
definition off_cursor_pos :: u32 where "off_cursor_pos = 0x50"
definition off_cursor_type :: u32 where "off_cursor_type = 0x60"
definition off_video_page :: u32 where "off_video_page = 0x62"
definition off_crtc_address :: u32 where "off_crtc_address = 0x63"
definition off_timer_counter :: u32 where "off_timer_counter = 0x6c"
definition off_video_rows :: u32 where "off_video_rows = 0x84"
definition off_char_height :: u32 where "off_char_height = 0x85"
definition off_video_ctl :: u32 where "off_video_ctl = 0x87"
definition off_video_switches :: u32 where "off_video_switches = 0x88"
definition off_modeset_ctl :: u32 where "off_modeset_ctl = 0x89"
definition off_dcc_index :: u32 where "off_dcc_index = 0x8a"
definition off_video_savetable :: u32 where "off_video_savetable = 0xa8"
definition off_ext_flags :: u32 where "off_ext_flags = 0xb9"
definition off_vbe_mode :: u32 where "off_vbe_mode = 0xba"
definition off_vgamode_offset :: u32 where "off_vgamode_offset = 0xbc"

lemmas vga_offsets = off_video_mode_def off_video_cols_def off_video_pagesize_def off_video_pagestart_def off_cursor_pos_def
  off_cursor_type_def off_video_page_def off_crtc_address_def off_timer_counter_def off_video_rows_def off_char_height_def
  off_video_ctl_def off_video_switches_def off_modeset_ctl_def off_dcc_index_def off_video_savetable_def off_ext_flags_def
  off_vbe_mode_def off_vgamode_offset_def

abbreviation bda8 :: "u32 \<Rightarrow> mem \<Rightarrow> u8" where "bda8 off m \<equiv> m (bda_at off)"
abbreviation bda16 :: "u32 \<Rightarrow> mem \<Rightarrow> u16" where "bda16 off m \<equiv> get_mem 2 (bda_at off) m"
abbreviation set_bda8 :: "u32 \<Rightarrow> u8 \<Rightarrow> mem \<Rightarrow> mem" where "set_bda8 off v m \<equiv> m(bda_at off := v)"
abbreviation set_bda16 :: "u32 \<Rightarrow> u16 \<Rightarrow> mem \<Rightarrow> mem" where "set_bda16 off v m \<equiv> set_mem 2 (bda_at off) v m"

definition GET_IVT :: "u32 \<Rightarrow> mem \<Rightarrow> u32" where "GET_IVT vector m = get_mem 4 (vector * 4) m"

definition BF_EMULATE_TEXT :: u8 where "BF_EMULATE_TEXT = 0x10"

definition vga_emulate_text :: "'h vgahw \<Rightarrow> mem \<Rightarrow> bool" where
  "vga_emulate_text V m \<longleftrightarrow> vh_emulate_text V \<and> bda8 off_ext_flags m AND BF_EMULATE_TEXT \<noteq> 0"

definition get_current_mode :: "'h vgahw \<Rightarrow> mem \<Rightarrow> vgamode_s option" where
  "get_current_mode V m = (let p = bda16 off_vgamode_offset m in if p = 0 then None else Some (vh_mode V p))"

section \<open>Lines\<close>

text \<open>The loop over lines, and a copy of lines that starts at the end when the source is below.\<close>

fun each_line :: "(u32 \<Rightarrow> 's \<Rightarrow> 's) \<Rightarrow> u32 \<Rightarrow> u32 \<Rightarrow> nat \<Rightarrow> 's \<Rightarrow> 's" where
  "each_line f dst stride 0 s = s"
| "each_line f dst stride (Suc n) s = each_line f (dst + stride) stride n (f dst s)"

definition move_lines :: "(u32 \<Rightarrow> u32 \<Rightarrow> 's \<Rightarrow> 's) \<Rightarrow> u32 \<Rightarrow> u32 \<Rightarrow> u32 \<Rightarrow> nat \<Rightarrow> 's \<Rightarrow> 's" where
  "move_lines copy dst src stride n s =
     (let delta = src - dst
      in if src < dst then each_line (\<lambda>d. copy d (d + delta)) (dst + stride * (of_nat n - 1)) (- stride) n s
         else each_line (\<lambda>d. copy d (d + delta)) dst stride n s)"

definition memmove_stride :: "u16 \<Rightarrow> u32 \<Rightarrow> u32 \<Rightarrow> u32 \<Rightarrow> u32 \<Rightarrow> nat \<Rightarrow> mem \<Rightarrow> mem" where
  "memmove_stride seg dst src copylen stride n m = move_lines (\<lambda>d s. memcpy_far seg d seg s copylen) dst src stride n m"

definition memset_stride :: "u16 \<Rightarrow> u32 \<Rightarrow> u8 \<Rightarrow> u32 \<Rightarrow> u32 \<Rightarrow> nat \<Rightarrow> mem \<Rightarrow> mem" where
  "memset_stride seg dst val setlen stride n m = each_line (\<lambda>d. memset_far seg d val setlen) dst stride n m"

definition memset16_stride :: "u16 \<Rightarrow> u32 \<Rightarrow> u16 \<Rightarrow> u32 \<Rightarrow> u32 \<Rightarrow> nat \<Rightarrow> mem \<Rightarrow> mem" where
  "memset16_stride seg dst val setlen stride n m = each_line (\<lambda>d. memset16_far seg d val setlen) dst stride n m"

text \<open>Bytes of a segment from an offset of 16 bits.\<close>

definition far_read :: "u16 \<Rightarrow> u32 \<Rightarrow> nat \<Rightarrow> mem \<Rightarrow> u8 list" where
  "far_read seg off n m = map (\<lambda>i. m (seg_base seg + ucast (ucast off + of_nat i :: u16))) [0..<n]"

fun far_write :: "u16 \<Rightarrow> u16 \<Rightarrow> u8 list \<Rightarrow> mem \<Rightarrow> mem" where
  "far_write seg off [] m = m"
| "far_write seg off (b # bs) m = far_write seg (off + 1) bs (m(seg_base seg + ucast off := b))"

section \<open>Operations on pixels\<close>

datatype gfx_kind = GO_READ8 | GO_WRITE8 | GO_MEMSET | GO_MEMMOVE

record gfx_op =
  go_vmode :: vgamode_s
  go_linelength :: u32
  go_displaystart :: u32
  go_x :: u16
  go_y :: u16
  go_pixels :: "u8 list"
  go_xlen :: u16
  go_ylen :: u16
  go_srcy :: u16

text \<open>Bit \<open>plane\<close> of the eight pixels as a byte, and the pixels from the bytes of the four planes.\<close>

definition plane_byte :: "u8 list \<Rightarrow> nat \<Rightarrow> u8" where
  "plane_byte pixels plane = fold (\<lambda>p acc. acc OR push_bit (7 - p) (drop_bit plane (pixels ! p) AND 1)) [0..<8] 0"

definition planes_pixel :: "u8 list \<Rightarrow> nat \<Rightarrow> u8" where
  "planes_pixel data p = fold (\<lambda>plane acc. acc OR push_bit plane (drop_bit (7 - p) (data ! plane) AND 1)) [0..<4] 0"

fun read_planes :: "'h vga_ops \<Rightarrow> u16 \<Rightarrow> nat list \<Rightarrow> 'h \<Rightarrow> u8 list \<times> 'h" where
  "read_planes ops off [] h = ([], h)"
| "read_planes ops off (p # ps) h =
     (let (v, h1) = vp_read ops off (stdvga_planar4_plane ops (Some p) h); (vs, h2) = read_planes ops off ps h1 in (v # vs, h2))"

text \<open>A copy within the memory of the card, byte by byte.\<close>

fun vram_move :: "'h vga_ops \<Rightarrow> u16 \<Rightarrow> u16 \<Rightarrow> nat \<Rightarrow> 'h \<Rightarrow> 'h" where
  "vram_move ops dst src 0 h = h"
| "vram_move ops dst src (Suc n) h = (let (v, h1) = vp_read ops src h in vram_move ops (dst + 1) (src + 1) n (vp_write ops dst v h1))"

definition gfx_planar :: "'h vga_ops \<Rightarrow> gfx_kind \<Rightarrow> gfx_op \<Rightarrow> 'h \<Rightarrow> gfx_op \<times> 'h" where
  "gfx_planar ops k gop h =
     (let dest = ucast (go_y gop) * go_linelength gop + ucast (go_x gop div 8) :: u32; n = unat (go_xlen gop div 8);
          (gop1, h1) =
            (case k of
               GO_READ8 \<Rightarrow> let (ds, h1) = read_planes ops (ucast dest) [0..<4] h in (gop\<lparr>go_pixels := map (planes_pixel ds) [0..<8]\<rparr>, h1)
             | GO_WRITE8 \<Rightarrow> (gop, fold (\<lambda>p h. vp_write ops (ucast dest) (plane_byte (go_pixels gop) p) (stdvga_planar4_plane ops (Some p) h)) [0..<4] h)
             | GO_MEMSET \<Rightarrow>
                 (gop, fold (\<lambda>p h. each_line (\<lambda>d. vram_copy ops (ucast d) (replicate n (if bit (go_pixels gop ! 0) p then 0xff else 0x00)))
                              dest (go_linelength gop) (unat (go_ylen gop)) (stdvga_planar4_plane ops (Some p) h)) [0..<4] h)
             | GO_MEMMOVE \<Rightarrow>
                 let src = ucast (go_srcy gop) * go_linelength gop + ucast (go_x gop div 8)
                 in (gop, fold (\<lambda>p h. move_lines (\<lambda>d s. vram_move ops (ucast d) (ucast s) n) dest src (go_linelength gop) (unat (go_ylen gop))
                              (stdvga_planar4_plane ops (Some p) h)) [0..<4] h))
      in (gop1, stdvga_planar4_plane ops None h1))"

text \<open>The layout of the CGA: odd lines lie 8 KB above the even ones, one or two bits per pixel, the first in the highest bits.\<close>

definition be16_to_cpu :: "u16 \<Rightarrow> u16" where "be16_to_cpu v = push_bit 8 v OR drop_bit 8 v"

definition cga_pack2 :: "u8 list \<Rightarrow> u16" where
  "cga_pack2 pixels = fold (\<lambda>p acc. acc OR push_bit ((7 - p) * 2) (ucast (pixels ! p AND 3))) [0..<8] 0"

definition gfx_cga :: "gfx_kind \<Rightarrow> gfx_op \<Rightarrow> mem \<Rightarrow> gfx_op \<times> mem" where
  "gfx_cga k gop m =
     (let bpp = ucast (vm_depth (go_vmode gop)) :: u32;
          dest = ucast (go_y gop div 2) * go_linelength gop + ucast (go_x gop div 8) * bpp;
          line = (if go_y gop AND 1 \<noteq> 0 then dest + 0x2000 else dest);
          at = MAKE_FLATPTR SEG_CTEXT line;
          n = ucast (go_xlen gop div 8) * bpp; lines2 = unat (go_ylen gop div 2)
      in case k of
           GO_READ8 \<Rightarrow>
             (if bpp = 1 then (gop\<lparr>go_pixels := map (\<lambda>p. drop_bit (7 - p) (m at) AND 1) [0..<8]\<rparr>, m)
              else
                let data = be16_to_cpu (get_mem 2 at m)
                in (gop\<lparr>go_pixels := map (\<lambda>p. ucast (drop_bit ((7 - p) * 2) data AND 3)) [0..<8]\<rparr>, m))
         | GO_WRITE8 \<Rightarrow>
             (if bpp = 1 then (gop, m(at := plane_byte (go_pixels gop) 0))
              else (gop, set_mem 2 at (be16_to_cpu (cga_pack2 (go_pixels gop))) m))
         | GO_MEMSET \<Rightarrow>
             let d0 = go_pixels gop ! 0; d1 = (if bpp = 1 then (d0 AND 1) OR push_bit 1 (d0 AND 1) else d0) AND 3;
                 data = d1 OR push_bit 2 d1 OR push_bit 4 d1 OR push_bit 6 d1
             in (gop, memset_stride SEG_CTEXT (dest + 0x2000) data n (go_linelength gop) lines2
                        (memset_stride SEG_CTEXT dest data n (go_linelength gop) lines2 m))
         | GO_MEMMOVE \<Rightarrow>
             let src = ucast (go_srcy gop div 2) * go_linelength gop + ucast (go_x gop div 8) * bpp
             in (gop, memmove_stride SEG_CTEXT (dest + 0x2000) (src + 0x2000) n (go_linelength gop) lines2
                        (memmove_stride SEG_CTEXT dest src n (go_linelength gop) lines2 m)))"

definition gfx_packed :: "gfx_kind \<Rightarrow> gfx_op \<Rightarrow> mem \<Rightarrow> gfx_op \<times> mem" where
  "gfx_packed k gop m =
     (let dest = ucast (go_y gop) * go_linelength gop + ucast (go_x gop) :: u32
      in case k of
           GO_READ8 \<Rightarrow> (gop\<lparr>go_pixels := far_read SEG_GRAPH dest 8 m\<rparr>, m)
         | GO_WRITE8 \<Rightarrow> (gop, far_write SEG_GRAPH (ucast dest) (take 8 (go_pixels gop)) m)
         | GO_MEMSET \<Rightarrow> (gop, memset_stride SEG_GRAPH dest (go_pixels gop ! 0) (ucast (go_xlen gop)) (go_linelength gop) (unat (go_ylen gop)) m)
         | GO_MEMMOVE \<Rightarrow>
             let src = ucast (go_srcy gop) * go_linelength gop + ucast (go_x gop)
             in (gop, memmove_stride SEG_GRAPH dest src (ucast (go_xlen gop)) (go_linelength gop) (unat (go_ylen gop)) m))"

section \<open>Framebuffers in high memory\<close>

text \<open>The copy that interrupt 0x15 does for \<open>len\<close> bytes: a count of words in 16 bits, moved in double words when it is even.\<close>

definition memcpy_high :: "u32 \<Rightarrow> u32 \<Rightarrow> u32 \<Rightarrow> mem \<Rightarrow> mem" where
  "memcpy_high dest src len m =
     (let count = ucast (len div 2) :: u16
      in if bit count 0 then rep_movs16 2 (unat count) dest 0 src 0 m else rep_movs16 4 (unat (drop_bit 1 count)) dest 0 src 0 m)"

text \<open>The bits of red, green and blue of a depth, the colour of an attribute, and back.\<close>

definition color_bits :: "u8 \<Rightarrow> nat \<times> nat \<times> nat" where
  "color_bits depth = (if depth = 15 then (5, 5, 5) else if depth = 16 then (5, 6, 5) else (8, 8, 8))"

definition DIV_ROUND_CLOSEST :: "nat \<Rightarrow> nat \<Rightarrow> nat" where "DIV_ROUND_CLOSEST x d = (x + d div 2) div d"

definition get_color :: "u8 \<Rightarrow> u8 \<Rightarrow> u32" where
  "get_color depth attr =
     (let (rbits, gbits, bbits) = color_bits depth;
          h = (if attr AND 8 \<noteq> 0 then 1 else 0); r = (if attr AND 4 \<noteq> 0 then 2 else 0);
          g = (if attr AND 0xf = 6 then 1 else if attr AND 2 \<noteq> 0 then 2 else 0); b = (if attr AND 1 \<noteq> 0 then 2 else 0);
          rv = DIV_ROUND_CLOSEST ((2 ^ rbits - 1) * (r + h)) 3; gv = DIV_ROUND_CLOSEST ((2 ^ gbits - 1) * (g + h)) 3;
          bv = DIV_ROUND_CLOSEST ((2 ^ bbits - 1) * (b + h)) 3
      in of_nat (rv * 2 ^ (gbits + bbits) + gv * 2 ^ bbits + bv))"

definition reverse_color :: "u8 \<Rightarrow> u32 \<Rightarrow> u8" where
  "reverse_color depth color =
     (let (rbits, gbits, bbits) = color_bits depth;
          rv = unat (drop_bit (gbits + bbits) color) mod 2 ^ rbits; gv = unat (drop_bit bbits color) mod 2 ^ gbits; bv = unat color mod 2 ^ bbits;
          r = DIV_ROUND_CLOSEST (rv * 3) (2 ^ rbits - 1); g = DIV_ROUND_CLOSEST (gv * 3) (2 ^ gbits - 1);
          b = DIV_ROUND_CLOSEST (bv * 3) (2 ^ bbits - 1);
          h = (if r \<noteq> 0 \<and> g \<noteq> 0 \<and> b \<noteq> 0 \<and> (r \<noteq> 2 \<or> g \<noteq> 2 \<or> b \<noteq> 2) then 1 else 0)
      in (if h = 1 then 8 else 0) OR (if r - h \<noteq> 0 then 4 else 0) OR (if g - h \<noteq> 0 then 2 else 0) OR (if b - h \<noteq> 0 then 1 else 0))"

text \<open>The bytes of the eight pixels in the buffer on the stack, which lies at \<open>buf\<close>.\<close>

definition direct_bytes :: "nat \<Rightarrow> u32 list \<Rightarrow> u8 list" where
  "direct_bytes bypp colors = concat (map (\<lambda>c. le_bytes bypp c) colors)"

definition gfx_direct :: "u32 \<Rightarrow> u32 \<Rightarrow> gfx_kind \<Rightarrow> gfx_op \<Rightarrow> mem \<Rightarrow> gfx_op \<times> mem" where
  "gfx_direct fb buf k gop m =
     (if fb = 0 then (gop, m)
      else
        let depth = vm_depth (go_vmode gop); bypp = (unat depth + 7) div 8; n8 = of_nat (bypp * 8) :: u32;
            dest = fb + go_displaystart gop + ucast (go_y gop) * go_linelength gop + ucast (go_x gop) * of_nat bypp;
            width = ucast (go_xlen gop) * of_nat bypp :: u32
        in case k of
             GO_READ8 \<Rightarrow>
               let m1 = memcpy_high buf dest n8 m
               in (gop\<lparr>go_pixels := map (\<lambda>i. reverse_color depth (get_mem 4 (buf + of_nat (i * bypp)) m1)) [0..<8]\<rparr>, m1)
           | GO_WRITE8 \<Rightarrow> (gop, memcpy_high dest buf n8 (mem_write buf (direct_bytes bypp (map (get_color depth) (go_pixels gop))) m))
           | GO_MEMSET \<Rightarrow>
               let m1 = mem_write buf (direct_bytes bypp (replicate 8 (get_color depth (go_pixels gop ! 0)))) m;
                   m2 = memcpy_high (dest + n8) dest (width - n8) (memcpy_high dest buf n8 m1)
               in (gop, fold (\<lambda>i. memcpy_high (dest + go_linelength gop * of_nat i) dest width) [1..<unat (go_ylen gop)] m2)
           | GO_MEMMOVE \<Rightarrow>
               let src = fb + go_displaystart gop + ucast (go_srcy gop) * go_linelength gop + ucast (go_x gop) * of_nat bypp
               in (gop, move_lines (\<lambda>d s. memcpy_high d s width) dest src (go_linelength gop) (unat (go_ylen gop)) m))"

section \<open>The interface of graphics operations\<close>

definition init_gfx_op :: "'h vgahw \<Rightarrow> vgamode_s \<Rightarrow> 'h vga_state \<Rightarrow> gfx_op \<times> 'h vga_state" where
  "init_gfx_op V vmode st =
     (let (len, st1) = from_hw (vh_get_linelength V vmode) st; (start, st2) = from_hw (vh_get_displaystart V vmode) st1
      in (\<lparr>go_vmode = vmode, go_linelength = word_of_int len, go_displaystart = word_of_int start, go_x = 0, go_y = 0,
           go_pixels = replicate 8 0, go_xlen = 0, go_ylen = 0, go_srcy = 0\<rparr>, st2))"

definition mem_op :: "(mem \<Rightarrow> gfx_op \<times> mem) \<Rightarrow> 'h vga_state \<Rightarrow> gfx_op \<times> 'h vga_state" where
  "mem_op f st = (let (gop, m) = f (v_mem st) in (gop, st\<lparr>v_mem := m\<rparr>))"

definition handle_gfx_op :: "'h vgahw \<Rightarrow> gfx_kind \<Rightarrow> gfx_op \<Rightarrow> 'h vga_state \<Rightarrow> gfx_op \<times> 'h vga_state" where
  "handle_gfx_op V k gop st =
     (let mm = vm_memmodel (go_vmode gop)
      in if mm = MM_PLANAR then from_hw (gfx_planar (vh_ops V) k gop) st
         else if mm = MM_CGA then mem_op (gfx_cga k gop) st
         else if mm = MM_PACKED then mem_op (gfx_packed k gop) st
         else if mm = MM_DIRECT then mem_op (gfx_direct (VBE_framebuffer V) (vh_stack_buffer V) k gop) st
         else (gop, st))"

record cursorpos =
  cp_x :: u8
  cp_y :: u8
  cp_page :: u8

record carattr =
  ca_car :: u8
  ca_attr :: u8
  ca_use :: bool

abbreviation char_height :: "mem \<Rightarrow> u16" where "char_height m \<equiv> bda16 off_char_height m"

definition gfx_move_chars :: "'h vgahw \<Rightarrow> vgamode_s \<Rightarrow> cursorpos \<Rightarrow> cursorpos \<Rightarrow> int \<Rightarrow> 'h vga_state \<Rightarrow> 'h vga_state" where
  "gfx_move_chars V vmode dest movesize lns st =
     (let (gop, st1) = init_gfx_op V vmode st; cheight = char_height (v_mem st1); y = ucast (cp_y dest) * cheight
      in snd (handle_gfx_op V GO_MEMMOVE
           (gop\<lparr>go_x := ucast (cp_x dest) * 8, go_xlen := ucast (cp_x movesize) * 8, go_y := y,
                go_ylen := ucast (cp_y movesize) * cheight, go_srcy := y + word_of_int lns * cheight\<rparr>) st1))"

definition gfx_clear_chars :: "'h vgahw \<Rightarrow> vgamode_s \<Rightarrow> cursorpos \<Rightarrow> cursorpos \<Rightarrow> carattr \<Rightarrow> 'h vga_state \<Rightarrow> 'h vga_state" where
  "gfx_clear_chars V vmode win winsize ca st =
     (let (gop, st1) = init_gfx_op V vmode st; cheight = char_height (v_mem st1);
          color = (if vga_emulate_text V (v_mem st1) then drop_bit 4 (ca_attr ca) else ca_attr ca)
      in snd (handle_gfx_op V GO_MEMSET
           (gop\<lparr>go_x := ucast (cp_x win) * 8, go_xlen := ucast (cp_x winsize) * 8, go_y := ucast (cp_y win) * cheight,
                go_ylen := ucast (cp_y winsize) * cheight, go_pixels := (go_pixels gop)[0 := color]\<rparr>) st1))"

text \<open>The font of a character: segment and offset.\<close>

definition get_font_data :: "u8 \<Rightarrow> mem \<Rightarrow> u16 \<times> u16" where
  "get_font_data c m =
     (let cheight = char_height m; upper = (cheight = 8 \<and> c \<ge> 128);
          font = (if upper then GET_IVT 0x1f m else GET_IVT 0x43 m); c1 = (if upper then c - 128 else c)
      in (ucast (drop_bit 16 font), ucast font + ucast c1 * cheight))"

definition font_line :: "u16 \<times> u16 \<Rightarrow> nat \<Rightarrow> mem \<Rightarrow> u8" where
  "font_line font i m = m (MAKE_FLATPTR (fst font) (ucast (snd font) + of_nat i))"

text \<open>One line of a character: the pixels from the font, or exclusive-or with the pixels that are there.\<close>

definition write_char_line :: "'h vgahw \<Rightarrow> bool \<Rightarrow> u8 \<Rightarrow> u8 \<Rightarrow> u8 \<Rightarrow> gfx_op \<Rightarrow> 'h vga_state \<Rightarrow> 'h vga_state" where
  "write_char_line V usexor fgattr bgattr fontline gop st =
     (if usexor then
        let (gop1, st1) = handle_gfx_op V GO_READ8 gop st
        in snd (handle_gfx_op V GO_WRITE8
             (gop1\<lparr>go_pixels := map (\<lambda>j. (go_pixels gop1 ! j) XOR (if bit fontline (7 - j) then fgattr else 0)) [0..<8]\<rparr>) st1)
      else snd (handle_gfx_op V GO_WRITE8 (gop\<lparr>go_pixels := map (\<lambda>j. if bit fontline (7 - j) then fgattr else bgattr) [0..<8]\<rparr>) st))"

text \<open>The colour of the bottom right pixel of a cell, a guess of the background.\<close>

definition guess_background :: "'h vgahw \<Rightarrow> gfx_op \<Rightarrow> 'h vga_state \<Rightarrow> u8 \<times> 'h vga_state" where
  "guess_background V gop st =
     (let (gop1, st1) = handle_gfx_op V GO_READ8 (gop\<lparr>go_y := go_y gop + char_height (v_mem st) - 1\<rparr>) st in (go_pixels gop1 ! 7, st1))"

definition char_colors :: "'h vgahw \<Rightarrow> vgamode_s \<Rightarrow> carattr \<Rightarrow> gfx_op \<Rightarrow> 'h vga_state \<Rightarrow> (bool \<times> u8 \<times> u8) \<times> 'h vga_state" where
  "char_colors V vmode ca gop st =
     (if vga_emulate_text V (v_mem st) then
        (if ca_use ca then ((False, ca_attr ca AND 0x0f, drop_bit 4 (ca_attr ca)), st)
         else let (bg, st1) = guess_background V gop st in ((False, bg XOR 0x7, bg), st1))
      else if ca_attr ca AND 0x80 \<noteq> 0 \<and> vm_depth vmode < 8 then ((True, ca_attr ca AND 0x7f, 0), st)
      else ((False, ca_attr ca, 0), st))"

definition gfx_write_char :: "'h vgahw \<Rightarrow> vgamode_s \<Rightarrow> cursorpos \<Rightarrow> carattr \<Rightarrow> 'h vga_state \<Rightarrow> 'h vga_state" where
  "gfx_write_char V vmode cp ca st =
     (if ucast (cp_x cp) \<ge> bda16 off_video_cols (v_mem st) then st
      else
        let font = get_font_data (ca_car ca) (v_mem st); cheight = char_height (v_mem st);
            (g0, st1) = init_gfx_op V vmode st;
            gop = g0\<lparr>go_x := ucast (cp_x cp) * 8, go_y := ucast (cp_y cp) * cheight\<rparr>;
            ((usexor, fg, bg), st2) = char_colors V vmode ca gop st1
        in fold (\<lambda>i s. write_char_line V usexor fg bg (font_line font i (v_mem s)) (gop\<lparr>go_y := go_y gop + of_nat i\<rparr>) s) [0..<unat cheight] st2)"

text \<open>The lines of a cell as a font would have them, and the colour of the last pixel that is not background.\<close>

definition cell_line :: "u8 \<Rightarrow> u8 list \<Rightarrow> u8 \<Rightarrow> u8 \<times> u8" where
  "cell_line bg pixels fg =
     fold (\<lambda>j (line, fg). if pixels ! j \<noteq> bg then (line OR push_bit (7 - j) 1, pixels ! j) else (line, fg)) [0..<8] (0, fg)"

fun read_cell :: "'h vgahw \<Rightarrow> u8 \<Rightarrow> nat \<Rightarrow> gfx_op \<Rightarrow> u8 \<Rightarrow> 'h vga_state \<Rightarrow> (u8 list \<times> u8) \<times> 'h vga_state" where
  "read_cell V bg 0 gop fg st = (([], fg), st)"
| "read_cell V bg (Suc n) gop fg st =
     (let (gop1, st1) = handle_gfx_op V GO_READ8 gop st; (line, fg1) = cell_line bg (go_pixels gop1) fg;
          ((ls, fg2), st2) = read_cell V bg n (gop\<lparr>go_y := go_y gop + 1\<rparr>) fg1 st1
      in ((line # ls, fg2), st2))"

definition carattr_none :: carattr where "carattr_none = \<lparr>ca_car = 0, ca_attr = 0, ca_use = False\<rparr>"

definition font_matches :: "u8 list \<Rightarrow> mem \<Rightarrow> nat \<Rightarrow> bool" where
  "font_matches ls m c = (map (\<lambda>i. font_line (get_font_data (of_nat c) m) i m) [0..<length ls] = ls)"

definition gfx_read_char :: "'h vgahw \<Rightarrow> vgamode_s \<Rightarrow> cursorpos \<Rightarrow> 'h vga_state \<Rightarrow> carattr \<times> 'h vga_state" where
  "gfx_read_char V vmode cp st =
     (let cheight = char_height (v_mem st)
      in if ucast (cp_x cp) \<ge> bda16 off_video_cols (v_mem st) \<or> cheight > 16 then (carattr_none, st)
         else
           let (g0, st1) = init_gfx_op V vmode st;
               gop = g0\<lparr>go_x := ucast (cp_x cp) * 8, go_y := ucast (cp_y cp) * cheight\<rparr>;
               emulate = vga_emulate_text V (v_mem st1);
               (bg, st2) = (if emulate then guess_background V gop st1 else (0, st1));
               ((ls, fg), st3) = read_cell V bg (unat cheight) gop (if emulate then bg XOR 0x7 else 0) st2
           in (case List.find (font_matches ls (v_mem st3)) [(if emulate then 1 else 0)..<256] of
                 Some c \<Rightarrow> (\<lparr>ca_car = of_nat c, ca_attr = fg OR push_bit 4 bg, ca_use = False\<rparr>, st3)
               | None \<Rightarrow> (carattr_none, st3)))"

text \<open>A pixel: the eight pixels around it are read, changed and written back.\<close>

definition pixel_op :: "'h vgahw \<Rightarrow> vgamode_s \<Rightarrow> u16 \<Rightarrow> u16 \<Rightarrow> 'h vga_state \<Rightarrow> gfx_op \<times> 'h vga_state" where
  "pixel_op V vmode x y st =
     (let (gop, st1) = init_gfx_op V vmode st in handle_gfx_op V GO_READ8 (gop\<lparr>go_x := x AND NOT 7, go_y := y\<rparr>) st1)"

definition vgafb_write_pixel :: "'h vgahw \<Rightarrow> u8 \<Rightarrow> u16 \<Rightarrow> u16 \<Rightarrow> 'h vga_state \<Rightarrow> 'h vga_state" where
  "vgafb_write_pixel V color x y st =
     (case get_current_mode V (v_mem st) of
        None \<Rightarrow> st
      | Some vmode \<Rightarrow>
          let (gop, st1) = pixel_op V vmode x y st; i = unat (x AND 7);
              v = (if color AND 0x80 \<noteq> 0 \<and> vm_depth vmode < 8 then (go_pixels gop ! i) XOR (color AND 0x7f) else color)
          in snd (handle_gfx_op V GO_WRITE8 (gop\<lparr>go_pixels := (go_pixels gop)[i := v]\<rparr>) st1))"

definition vgafb_read_pixel :: "'h vgahw \<Rightarrow> u16 \<Rightarrow> u16 \<Rightarrow> 'h vga_state \<Rightarrow> u8 \<times> 'h vga_state" where
  "vgafb_read_pixel V x y st =
     (case get_current_mode V (v_mem st) of
        None \<Rightarrow> (0, st)
      | Some vmode \<Rightarrow> let (gop, st1) = pixel_op V vmode x y st in (go_pixels gop ! unat (x AND 7), st1))"

section \<open>Characters\<close>

definition text_address :: "cursorpos \<Rightarrow> mem \<Rightarrow> u32" where
  "text_address cp m =
     ucast (bda16 off_video_pagesize m) * ucast (cp_page cp) + ucast (cp_y cp) * (ucast (bda16 off_video_cols m) * 2) + ucast (cp_x cp) * 2"

definition vgafb_move_chars :: "'h vgahw \<Rightarrow> cursorpos \<Rightarrow> cursorpos \<Rightarrow> int \<Rightarrow> 'h vga_state \<Rightarrow> 'h vga_state" where
  "vgafb_move_chars V dest movesize lns st =
     (case get_current_mode V (v_mem st) of
        None \<Rightarrow> st
      | Some vmode \<Rightarrow>
          if vm_memmodel vmode \<noteq> MM_TEXT then gfx_move_chars V vmode dest movesize lns st
          else
            let stride = ucast (bda16 off_video_cols (v_mem st)) * 2; d = text_address dest (v_mem st)
            in on_mem (memmove_stride (vm_sstart vmode) d (d + word_of_int lns * stride) (ucast (cp_x movesize) * 2) stride (unat (cp_y movesize))) st)"

definition vgafb_clear_chars :: "'h vgahw \<Rightarrow> cursorpos \<Rightarrow> cursorpos \<Rightarrow> carattr \<Rightarrow> 'h vga_state \<Rightarrow> 'h vga_state" where
  "vgafb_clear_chars V win winsize ca st =
     (case get_current_mode V (v_mem st) of
        None \<Rightarrow> st
      | Some vmode \<Rightarrow>
          if vm_memmodel vmode \<noteq> MM_TEXT then gfx_clear_chars V vmode win winsize ca st
          else
            let stride = ucast (bda16 off_video_cols (v_mem st)) * 2;
                attr = push_bit 8 (ucast (if ca_use ca then ca_attr ca else 0x07)) OR ucast (ca_car ca) :: u16
            in on_mem (memset16_stride (vm_sstart vmode) (text_address win (v_mem st)) attr (ucast (cp_x winsize) * 2) stride (unat (cp_y winsize))) st)"

definition vgafb_scroll :: "'h vgahw \<Rightarrow> cursorpos \<Rightarrow> cursorpos \<Rightarrow> int \<Rightarrow> carattr \<Rightarrow> 'h vga_state \<Rightarrow> 'h vga_state" where
  "vgafb_scroll V win winsize lns ca st =
     (if lns = 0 then vgafb_clear_chars V win winsize ca st
      else if lns > 0 then
        let rest = cp_y winsize - word_of_int lns
        in vgafb_clear_chars V (win\<lparr>cp_y := cp_y win + rest\<rparr>) (winsize\<lparr>cp_y := word_of_int lns\<rparr>) ca
             (vgafb_move_chars V win (winsize\<lparr>cp_y := rest\<rparr>) lns st)
      else
        let below = win\<lparr>cp_y := cp_y win - word_of_int lns\<rparr>; rest = winsize\<lparr>cp_y := cp_y winsize + word_of_int lns\<rparr>
        in vgafb_clear_chars V win (winsize\<lparr>cp_y := word_of_int (- lns)\<rparr>) ca (vgafb_move_chars V below rest lns st))"

definition vgafb_write_char :: "'h vgahw \<Rightarrow> cursorpos \<Rightarrow> carattr \<Rightarrow> 'h vga_state \<Rightarrow> 'h vga_state" where
  "vgafb_write_char V cp ca st =
     (case get_current_mode V (v_mem st) of
        None \<Rightarrow> st
      | Some vmode \<Rightarrow>
          if vm_memmodel vmode \<noteq> MM_TEXT then gfx_write_char V vmode cp ca st
          else
            let dest = MAKE_FLATPTR (vm_sstart vmode) (text_address cp (v_mem st))
            in if ca_use ca then on_mem (set_mem 2 dest (push_bit 8 (ucast (ca_attr ca)) OR ucast (ca_car ca) :: u16)) st
               else on_mem (\<lambda>m. m(dest := ca_car ca)) st)"

definition vgafb_read_char :: "'h vgahw \<Rightarrow> cursorpos \<Rightarrow> 'h vga_state \<Rightarrow> carattr \<times> 'h vga_state" where
  "vgafb_read_char V cp st =
     (case get_current_mode V (v_mem st) of
        None \<Rightarrow> (carattr_none, st)
      | Some vmode \<Rightarrow>
          if vm_memmodel vmode \<noteq> MM_TEXT then gfx_read_char V vmode cp st
          else
            let v = get_mem 2 (MAKE_FLATPTR (vm_sstart vmode) (text_address cp (v_mem st))) (v_mem st) :: u16
            in (\<lparr>ca_car = ucast v, ca_attr = ucast (drop_bit 8 v), ca_use = False\<rparr>, st))"

end
