(* ===== verification/VgaBios.thy ===== *)
theory VgaBios
  imports VgaFb
begin

text \<open>
  Interrupt 0x10 of the VGA BIOS (\<open>vgasrc/vgabios.c\<close>) with the cursor that is drawn by software (\<open>swcursor.c\<close>), as built with the
  ports of the standard VGA. A result \<open>None\<close> stands for a divide error. Debug output is left out.
\<close>

section \<open>Helpers\<close>

definition calc_page_size :: "u8 \<Rightarrow> u16 \<Rightarrow> u16 \<Rightarrow> u16" where
  "calc_page_size memmodel width height =
     (let wh = unat width * unat height
      in if memmodel = MM_TEXT then of_nat ((wh * 2 + 2047) div 2048 * 2048)
         else if memmodel = MM_CGA then 16 * 1024
         else of_nat ((wh div 8 + 8191) div 8192 * 8192))"

text \<open>The shape of the cursor, scaled from cells of eight lines.\<close>

definition get_cursor_shape :: "mem \<Rightarrow> u16" where
  "get_cursor_shape m =
     (let ctype = bda16 off_cursor_type m; emulate = (bda8 off_video_ctl m AND 1 = 0);
          start = drop_bit 8 ctype AND 0x3f; fin = ctype AND 0x1f; cheight = char_height m;
          scale = (\<lambda>n. (n + 1) * uint cheight div 8 - 1)
      in if \<not> emulate \<or> cheight \<le> 8 \<or> fin \<ge> 8 \<or> start \<ge> 0x20 then ctype
         else
           let s = (if uint fin \<noteq> uint start + 1 then scale (uint start) else scale (uint fin) - 1)
           in push_bit 8 (ucast (word_of_int s :: u8)) OR ucast (word_of_int (scale (uint fin)) :: u8))"

definition set_cursor_shape :: "'h vgahw \<Rightarrow> u16 \<Rightarrow> 'h vga_state \<Rightarrow> 'h vga_state" where
  "set_cursor_shape V cursor_type st =
     (let st1 = on_mem (set_bda16 off_cursor_type cursor_type) st
      in on_hw (stdvga_set_cursor_shape (vh_ops V) (get_cursor_shape (v_mem st1))) st1)"

definition cursor_slot :: "u8 \<Rightarrow> u32" where "cursor_slot page = off_cursor_pos + 2 * ucast page"

definition set_cursor_pos :: "'h vgahw \<Rightarrow> cursorpos \<Rightarrow> 'h vga_state \<Rightarrow> 'h vga_state" where
  "set_cursor_pos V cp st =
     (if cp_page cp > 7 then st
      else
        let st1 = (if cp_page cp = bda8 off_video_page (v_mem st)
                   then on_hw (stdvga_set_cursor_pos (vh_ops V) (text_address cp (v_mem st))) st else st)
        in on_mem (set_bda16 (cursor_slot (cp_page cp)) (push_bit 8 (ucast (cp_y cp)) OR ucast (cp_x cp))) st1)"

definition get_cursor_pos :: "u8 \<Rightarrow> mem \<Rightarrow> cursorpos" where
  "get_cursor_pos page m =
     (if page > 7 then \<lparr>cp_x = 0, cp_y = 0, cp_page = 0\<rparr>
      else let xy = bda16 (cursor_slot page) m in \<lparr>cp_x = ucast xy, cp_y = ucast (drop_bit 8 xy), cp_page = page\<rparr>)"

definition set_active_page :: "'h vgahw \<Rightarrow> u8 \<Rightarrow> 'h vga_state \<Rightarrow> 'h vga_state" where
  "set_active_page V page st =
     (if page > 7 then st
      else case get_current_mode V (v_mem st) of
        None \<Rightarrow> st
      | Some vmode \<Rightarrow>
          let address = text_address \<lparr>cp_x = 0, cp_y = 0, cp_page = page\<rparr> (v_mem st);
              (_, st1) = from_hw (vh_set_displaystart V vmode (sint address)) st;
              st2 = on_mem (set_bda8 off_video_page page \<circ> set_bda16 off_video_pagestart (ucast address)) st1
          in set_cursor_pos V (get_cursor_pos page (v_mem st2)) st2)"

text \<open>The number of scan lines of a character. With zero the division of the display's lines is a divide error.\<close>

definition set_scan_lines :: "'h vgahw \<Rightarrow> u8 \<Rightarrow> 'h vga_state \<Rightarrow> 'h vga_state option" where
  "set_scan_lines V lns st =
     (let st1 = on_mem (set_bda16 off_char_height (ucast lns)) (on_hw (stdvga_set_scan_lines (vh_ops V) lns) st);
          (vde, st2) = from_hw (stdvga_get_vde (vh_ops V)) st1
      in if lns = 0 then None
         else
           let rows = ucast (vde div ucast lns) :: u8;
               st3 = on_mem (set_bda8 off_video_rows (rows - 1)) st2;
               st4 = on_mem (\<lambda>m. set_bda16 off_video_pagesize (calc_page_size MM_TEXT (bda16 off_video_cols m) (ucast rows)) m) st3
           in Some (set_cursor_shape V
                (if lns = 8 then 0x0607 else word_of_int ((uint lns - 3) * 256) OR word_of_int (uint lns - 2)) st4))"

section \<open>Writing\<close>

text \<open>One character and the position after it.\<close>

definition write_char :: "'h vgahw \<Rightarrow> carattr \<Rightarrow> cursorpos \<times> 'h vga_state \<Rightarrow> cursorpos \<times> 'h vga_state" where
  "write_char V ca = (\<lambda>(cp, st).
     let st1 = vgafb_write_char V cp ca st; x = cp_x cp + 1
     in if ucast x = bda16 off_video_cols (v_mem st1) then (cp\<lparr>cp_x := 0, cp_y := cp_y cp + 1\<rparr>, st1) else (cp\<lparr>cp_x := x\<rparr>, st1))"

definition teletype_scroll :: "'h vgahw \<Rightarrow> cursorpos \<times> 'h vga_state \<Rightarrow> cursorpos \<times> 'h vga_state" where
  "teletype_scroll V = (\<lambda>(cp, st).
     let nbrows = bda8 off_video_rows (v_mem st)
     in if cp_y cp > nbrows then
          (cp\<lparr>cp_y := cp_y cp - 1\<rparr>,
           vgafb_scroll V \<lparr>cp_x = 0, cp_y = 0, cp_page = cp_page cp\<rparr>
             \<lparr>cp_x = ucast (bda16 off_video_cols (v_mem st)), cp_y = nbrows + 1, cp_page = 0\<rparr> 1
             \<lparr>ca_car = 0x20, ca_attr = 0, ca_use = False\<rparr> st)
        else (cp, st))"

definition write_teletype :: "'h vgahw \<Rightarrow> carattr \<Rightarrow> cursorpos \<times> 'h vga_state \<Rightarrow> cursorpos \<times> 'h vga_state" where
  "write_teletype V ca = (\<lambda>(cp, st).
     teletype_scroll V
       (if ca_car ca = 7 then (cp, st)
        else if ca_car ca = 8 then (if cp_x cp > 0 then cp\<lparr>cp_x := cp_x cp - 1\<rparr> else cp, st)
        else if ca_car ca = 13 then (cp\<lparr>cp_x := 0\<rparr>, st)
        else if ca_car ca = 10 then (cp\<lparr>cp_y := cp_y cp + 1\<rparr>, st)
        else write_char V ca (cp, st)))"

section \<open>Setting a mode\<close>

definition SR_HARDWARE :: u16 where "SR_HARDWARE = 0x0001"
definition SR_BDA :: u16 where "SR_BDA = 0x0002"
definition SR_DAC :: u16 where "SR_DAC = 0x0004"
definition SR_SAVE :: u16 where "SR_SAVE = 0x0100"
definition SR_RESTORE :: u16 where "SR_RESTORE = 0x0200"
definition MF_LEGACY :: u32 where "MF_LEGACY = 0x0001"
definition MF_GRAYSUM :: u32 where "MF_GRAYSUM = 0x0002"
definition MF_NOPALETTE :: u32 where "MF_NOPALETTE = 0x0008"
definition MF_NOCLEARMEM :: u32 where "MF_NOCLEARMEM = 0x8000"
definition MF_VBEFLAGS :: u32 where "MF_VBEFLAGS = 0xfe00"
definition BF_SWCURSOR :: u8 where "BF_SWCURSOR = 0x20"
definition BF_EXTRA_STACK :: u8 where "BF_EXTRA_STACK = 0x40"
definition VBE_RETURN_STATUS_FAILED :: int where "VBE_RETURN_STATUS_FAILED = 0x014F"

text \<open>Saving and restoring the part of the BIOS data area; the result is the size of the saved block.\<close>

definition sizeof_saveBDAstate :: nat where "sizeof_saveBDAstate = 44"

definition bda_save :: "u16 \<Rightarrow> u32 \<Rightarrow> mem \<Rightarrow> mem" where
  "bda_save seg info m =
     (let m1 = memcpy_far seg info SEG_BDA 0x49 28 m; m2 = memcpy_far seg (info + 28) SEG_BDA 0x84 6 m1;
          m3 = set_mem 2 (MAKE_FLATPTR seg (info + 34)) (bda16 off_vbe_mode m2) m2;
          m4 = set_mem 4 (MAKE_FLATPTR seg (info + 36)) (GET_IVT 0x1f m3) m3
      in set_mem 4 (MAKE_FLATPTR seg (info + 40)) (GET_IVT 0x43 m4) m4)"

definition bda_restore :: "'h vgahw \<Rightarrow> u16 \<Rightarrow> u32 \<Rightarrow> mem \<Rightarrow> mem" where
  "bda_restore V seg info m =
     (let m1 = memcpy_far SEG_BDA 0x49 seg info 28 m; m2 = memcpy_far SEG_BDA 0x84 seg (info + 28) 6 m1;
          vbe_mode = get_mem 2 (MAKE_FLATPTR seg (info + 34)) m2 :: u16;
          m3 = set_bda16 off_vbe_mode vbe_mode m2;
          m4 = set_bda16 off_vgamode_offset (vh_find_mode V (uint (ucast vbe_mode AND NOT MF_VBEFLAGS))) m3;
          m5 = SET_IVT 0x1f (get_mem 4 (MAKE_FLATPTR seg (info + 36)) m4) m4
      in SET_IVT 0x43 (get_mem 4 (MAKE_FLATPTR seg (info + 40)) m5) m5)"

definition bda_save_restore :: "'h vgahw \<Rightarrow> u16 \<Rightarrow> u16 \<Rightarrow> u32 \<Rightarrow> mem \<Rightarrow> nat \<times> mem" where
  "bda_save_restore V cmd seg data m =
     (if cmd AND SR_BDA = 0 then (0, m)
      else
        let m1 = (if cmd AND SR_SAVE \<noteq> 0 then bda_save seg data m else m);
            m2 = (if cmd AND SR_RESTORE \<noteq> 0 then bda_restore V seg data m1 else m1)
        in (sizeof_saveBDAstate, m2))"

text \<open>The BIOS data area after a change of the mode.\<close>

definition mode_bda :: "'h vgahw \<Rightarrow> vgamode_s \<Rightarrow> u16 \<Rightarrow> u32 \<Rightarrow> u32 \<Rightarrow> u16 \<Rightarrow> mem \<Rightarrow> mem" where
  "mode_bda V vmode p mode fl crtc m =
     (let width = vm_width vmode; height = vm_height vmode; mm = vm_memmodel vmode; cheight = vm_cheight vmode;
          m1 = set_bda8 off_video_mode (if mode < 0x100 then ucast mode else 0xff) m;
          m2 = set_bda16 off_vbe_mode (ucast (mode OR (fl AND MF_VBEFLAGS))) m1;
          m3 = set_bda16 off_vgamode_offset p m2;
          m4 = set_bda8 off_ext_flags ((bda8 off_ext_flags m3 AND NOT BF_EXTRA_STACK) OR (if fl AND MF_LEGACY \<noteq> 0 then BF_EXTRA_STACK else 0)) m3;
          m5 = (if mm = MM_TEXT then set_bda16 off_cursor_type 0x0607 (set_bda8 off_video_rows (ucast (height - 1)) (set_bda16 off_video_cols width m4))
                else set_bda16 off_cursor_type (if vga_emulate_text V m4 then 0x0607 else 0)
                       (set_bda8 off_video_rows (ucast (height div ucast cheight - 1)) (set_bda16 off_video_cols (width div ucast (vm_cwidth vmode)) m4)));
          m6 = set_bda16 off_crtc_address crtc (set_bda16 off_video_pagesize (calc_page_size mm width height) m5);
          m7 = set_bda8 off_video_ctl (0x60 OR (if fl AND MF_NOCLEARMEM \<noteq> 0 then 0x80 else 0)) (set_bda16 off_char_height (ucast cheight) m6);
          m8 = set_bda8 off_video_switches 0xF9 m7;
          m9 = set_bda8 off_modeset_ctl (bda8 off_modeset_ctl m8 AND 0x7f) m8;
          m10 = fold (\<lambda>i. set_bda16 (cursor_slot (of_nat i)) 0) [0..<8] m9
      in set_bda8 off_video_page 0 (set_bda16 off_video_pagestart 0 m10))"

definition mode_fonts :: "'h vgahw \<Rightarrow> u8 \<Rightarrow> mem \<Rightarrow> mem" where
  "mode_fonts V cheight m =
     (let m1 = SET_IVT 0x1f (SEGOFF (vh_global_seg V) (vgafont8 V + 128 * 8)) m
      in if cheight = 8 then SET_IVT 0x43 (SEGOFF (vh_global_seg V) (vgafont8 V)) m1
         else if cheight = 14 then SET_IVT 0x43 (SEGOFF (vh_global_seg V) (vgafont14 V)) m1
         else if cheight = 16 then SET_IVT 0x43 (SEGOFF (vh_global_seg V) (vgafont16 V)) m1
         else m1)"

definition vga_set_mode :: "'h vgahw \<Rightarrow> u32 \<Rightarrow> u32 \<Rightarrow> 'h vga_state \<Rightarrow> int \<times> 'h vga_state" where
  "vga_set_mode V mode fl st =
     (let p = vh_find_mode V (sint mode)
      in if p = 0 then (VBE_RETURN_STATUS_FAILED, st)
         else
           let (ret, st1) = vh_set_mode V p fl st
           in if ret \<noteq> 0 then (ret, st1)
              else
                let vmode = vh_mode V p; (crtc, st2) = from_hw (stdvga_get_crtc (vh_ops V)) st1
                in (0, on_mem (mode_fonts V (vm_cheight vmode) \<circ> mode_bda V vmode p mode fl crtc) st2))"

section \<open>The software cursor\<close>

definition gfx_set_swcursor :: "'h vgahw \<Rightarrow> vgamode_s \<Rightarrow> cursorpos \<Rightarrow> 'h vga_state \<Rightarrow> 'h vga_state" where
  "gfx_set_swcursor V vmode cp st =
     (let ctype = get_cursor_shape (v_mem st); start = unat (drop_bit 8 ctype); fin = unat (ctype AND 0xff);
          (g0, st1) = init_gfx_op V vmode st; cheight = char_height (v_mem st1);
          gop = g0\<lparr>go_x := ucast (cp_x cp) * 8, go_y := ucast (cp_y cp) * cheight\<rparr>;
          flip = (\<lambda>i s. let (g, s1) = handle_gfx_op V GO_READ8 (gop\<lparr>go_y := go_y gop + of_nat i\<rparr>) s
                      in snd (handle_gfx_op V GO_WRITE8 (g\<lparr>go_pixels := map (\<lambda>v. v XOR 0x07) (go_pixels g)\<rparr>) s1))
      in fold flip [start..<min (unat cheight) (fin + 1)] st1)"

definition set_swcursor :: "'h vgahw \<Rightarrow> bool \<Rightarrow> 'h vga_state \<Rightarrow> 'h vga_state" where
  "set_swcursor V enable st =
     (let m = v_mem st; fl = bda8 off_ext_flags m
      in if (fl AND BF_SWCURSOR \<noteq> 0) = enable then st
         else case get_current_mode V m of
           None \<Rightarrow> st
         | Some vmode \<Rightarrow>
             let cp = get_cursor_pos (bda8 off_video_page m) m
             in if ucast (cp_x cp) \<ge> bda16 off_video_cols m \<or> cp_y cp > bda8 off_video_rows m \<or> bda16 off_cursor_type m \<ge> 0x2000 then st
                else
                  let st1 = on_mem (set_bda8 off_ext_flags ((fl AND NOT BF_SWCURSOR) OR (if enable then BF_SWCURSOR else 0))) st
                  in if vm_memmodel vmode \<noteq> MM_TEXT then gfx_set_swcursor V vmode cp st1
                     else
                       let a = MAKE_FLATPTR (vm_sstart vmode) (text_address cp (v_mem st1) + 1); attr = v_mem st1 a
                       in on_mem (\<lambda>m. m(a := drop_bit 4 attr OR push_bit 4 attr)) st1)"

definition swcursor_pre_handle10 :: "'h vgahw \<Rightarrow> bregs \<Rightarrow> 'h vga_state \<Rightarrow> 'h vga_state" where
  "swcursor_pre_handle10 V regs st =
     (let f = ah regs
      in if vga_emulate_text V (v_mem st) \<and> ((f = 0x4f \<and> al regs = 0x02) \<or> f \<le> 0x02 \<or> (0x05 \<le> f \<and> f \<le> 0x0e) \<or> f = 0x13)
         then set_swcursor V False st else st)"

definition swcursor_check_event :: "'h vgahw \<Rightarrow> 'h vga_state \<Rightarrow> 'h vga_state" where
  "swcursor_check_event V st =
     (if \<not> vga_emulate_text V (v_mem st) then st
      else set_swcursor V ((get_mem 4 (bda_at off_timer_counter) (v_mem st) :: u32) mod 18 < 9) st)"

end
