(* ===== verification/VgaInt10.thy ===== *)
theory VgaInt10
  imports VgaBios
begin

text \<open>
  The functions of interrupt 0x10 (\<open>vgasrc/vgabios.c\<close>) and the dispatch. Each takes the registers and the state; the functions
  that set the height of the characters have no result when they are given a height of zero. The VESA functions are a
  parameter.
\<close>

type_synonym 'h vga_call = "bregs \<times> 'h vga_state"

section \<open>Modes, cursor and pages\<close>

definition handle_1000 :: "'h vgahw \<Rightarrow> 'h vga_call \<Rightarrow> 'h vga_call" where
  "handle_1000 V = (\<lambda>(regs, st).
     let mode = al regs AND 0x7f;
         regs1 = set_al (if mode > 7 then 0x20 else if mode = 6 then 0x3f else 0x30) regs;
         fl = MF_LEGACY OR (ucast (bda8 off_modeset_ctl (v_mem st)) AND (MF_NOPALETTE OR MF_GRAYSUM));
         fl1 = (if al regs1 AND 0x80 \<noteq> 0 then fl OR MF_NOCLEARMEM else fl)
     in (regs1, snd (vga_set_mode V (ucast mode) fl1 st)))"

definition handle_1001 :: "'h vgahw \<Rightarrow> 'h vga_call \<Rightarrow> 'h vga_call" where
  "handle_1001 V = (\<lambda>(regs, st). (regs, set_cursor_shape V (cx regs) st))"

definition bh :: "bregs \<Rightarrow> u8" where "bh r = rh (ebx r)"
definition bl :: "bregs \<Rightarrow> u8" where "bl r = rl (ebx r)"
definition set_bh :: "u8 \<Rightarrow> bregs \<Rightarrow> bregs" where "set_bh v r = ebx_update (puth v) r"
definition set_bl :: "u8 \<Rightarrow> bregs \<Rightarrow> bregs" where "set_bl v r = ebx_update (putl v) r"

definition handle_1002 :: "'h vgahw \<Rightarrow> 'h vga_call \<Rightarrow> 'h vga_call" where
  "handle_1002 V = (\<lambda>(regs, st). (regs, set_cursor_pos V \<lparr>cp_x = dl regs, cp_y = dh regs, cp_page = bh regs\<rparr> st))"

definition handle_1003 :: "'h vga_call \<Rightarrow> 'h vga_call" where
  "handle_1003 = (\<lambda>(regs, st).
     let m = v_mem st; cp = get_cursor_pos (bh regs) m
     in (set_dh (cp_y cp) (set_dl (cp_x cp) (set_cx (bda16 off_cursor_type m) regs)), st))"

definition handle_1004 :: "'h vga_call \<Rightarrow> 'h vga_call" where
  "handle_1004 = (\<lambda>(regs, st). (set_ax 0 (set_bx 0 (set_cx 0 (set_dx 0 regs))), st))"

definition handle_1005 :: "'h vgahw \<Rightarrow> 'h vga_call \<Rightarrow> 'h vga_call" where
  "handle_1005 V = (\<lambda>(regs, st). (regs, set_active_page V (al regs) st))"

definition verify_scroll :: "'h vgahw \<Rightarrow> int \<Rightarrow> bregs \<Rightarrow> 'h vga_state \<Rightarrow> 'h vga_state" where
  "verify_scroll V dir regs st =
     (let m = v_mem st; ulx = cl regs; uly = ch regs;
          nbrows = ucast (bda8 off_video_rows m) + 1 :: u16; lry = (if ucast (dh regs) \<ge> nbrows then ucast (nbrows - 1) else dh regs);
          nbcols = bda16 off_video_cols m; lrx = (if ucast (dl regs) \<ge> nbcols then ucast (nbcols - 1) else dl regs);
          wincols = uint lrx - uint ulx + 1; winrows = uint lry - uint uly + 1
      in if wincols \<le> 0 \<or> winrows \<le> 0 then st
         else
           let lns = (if uint (al regs) \<ge> winrows then 0 else uint (al regs)) * dir
           in vgafb_scroll V \<lparr>cp_x = ulx, cp_y = uly, cp_page = bda8 off_video_page m\<rparr>
                \<lparr>cp_x = word_of_int wincols, cp_y = word_of_int winrows, cp_page = 0\<rparr> lns
                \<lparr>ca_car = 0x20, ca_attr = bh regs, ca_use = True\<rparr> st)"

definition handle_1006 :: "'h vgahw \<Rightarrow> 'h vga_call \<Rightarrow> 'h vga_call" where
  "handle_1006 V = (\<lambda>(regs, st). (regs, verify_scroll V 1 regs st))"

definition handle_1007 :: "'h vgahw \<Rightarrow> 'h vga_call \<Rightarrow> 'h vga_call" where
  "handle_1007 V = (\<lambda>(regs, st). (regs, verify_scroll V (- 1) regs st))"

section \<open>Characters and pixels\<close>

definition handle_1008 :: "'h vgahw \<Rightarrow> 'h vga_call \<Rightarrow> 'h vga_call" where
  "handle_1008 V = (\<lambda>(regs, st).
     let (ca, st1) = vgafb_read_char V (get_cursor_pos (bh regs) (v_mem st)) st in (set_ah (ca_attr ca) (set_al (ca_car ca) regs), st1))"

definition repeat_char :: "'h vgahw \<Rightarrow> bool \<Rightarrow> bregs \<Rightarrow> 'h vga_state \<Rightarrow> 'h vga_state" where
  "repeat_char V use regs st =
     snd ((write_char V \<lparr>ca_car = al regs, ca_attr = bl regs, ca_use = use\<rparr> ^^ unat (cx regs)) (get_cursor_pos (bh regs) (v_mem st), st))"

definition handle_1009 :: "'h vgahw \<Rightarrow> 'h vga_call \<Rightarrow> 'h vga_call" where
  "handle_1009 V = (\<lambda>(regs, st). (regs, repeat_char V True regs st))"

definition handle_100a :: "'h vgahw \<Rightarrow> 'h vga_call \<Rightarrow> 'h vga_call" where
  "handle_100a V = (\<lambda>(regs, st). (regs, repeat_char V False regs st))"

definition handle_100b :: "'h vgahw \<Rightarrow> 'h vga_call \<Rightarrow> 'h vga_call" where
  "handle_100b V = (\<lambda>(regs, st).
     (regs, if bh regs = 0x00 then on_hw (stdvga_set_border_color (vh_ops V) (bl regs)) st
            else if bh regs = 0x01 then on_hw (stdvga_set_palette (vh_ops V) (bl regs)) st else st))"

definition handle_100c :: "'h vgahw \<Rightarrow> 'h vga_call \<Rightarrow> 'h vga_call" where
  "handle_100c V = (\<lambda>(regs, st). (regs, vgafb_write_pixel V (al regs) (cx regs) (dx regs) st))"

definition handle_100d :: "'h vgahw \<Rightarrow> 'h vga_call \<Rightarrow> 'h vga_call" where
  "handle_100d V = (\<lambda>(regs, st). let (v, st1) = vgafb_read_pixel V (cx regs) (dx regs) st in (set_al v regs, st1))"

definition handle_100e :: "'h vgahw \<Rightarrow> 'h vga_call \<Rightarrow> 'h vga_call" where
  "handle_100e V = (\<lambda>(regs, st).
     let (cp, st1) = write_teletype V \<lparr>ca_car = al regs, ca_attr = bl regs, ca_use = False\<rparr>
           (get_cursor_pos (bda8 off_video_page (v_mem st)) (v_mem st), st)
     in (regs, set_cursor_pos V cp st1))"

definition handle_100f :: "'h vga_call \<Rightarrow> 'h vga_call" where
  "handle_100f = (\<lambda>(regs, st).
     let m = v_mem st
     in (set_ah (ucast (bda16 off_video_cols m))
           (set_al (bda8 off_video_mode m OR (bda8 off_video_ctl m AND 0x80)) (set_bh (bda8 off_video_page m) regs)), st))"

section \<open>The palette\<close>

definition handle_101010 :: "'h vgahw \<Rightarrow> bregs \<Rightarrow> 'h vga_state \<Rightarrow> 'h vga_state" where
  "handle_101010 V regs = on_hw (\<lambda>h. dac_out (vh_ops V) [dh regs, ch regs, cl regs] (vp_out (vh_ops V) (ucast (bx regs)) VGAREG_DAC_WRITE_ADDRESS h))"

definition handle_101015 :: "'h vgahw \<Rightarrow> 'h vga_call \<Rightarrow> 'h vga_call" where
  "handle_101015 V = (\<lambda>(regs, st).
     let (rgb, st1) = from_hw (\<lambda>h. dac_in (vh_ops V) 3 (vp_out (vh_ops V) (ucast (bx regs)) VGAREG_DAC_READ_ADDRESS h)) st
     in (set_cl (rgb ! 2) (set_ch (rgb ! 1) (set_dh (rgb ! 0) regs)), st1))"

definition handle_10101a :: "'h vgahw \<Rightarrow> 'h vga_call \<Rightarrow> 'h vga_call" where
  "handle_10101a V = (\<lambda>(regs, st). let ((a, b), st1) = from_hw (stdvga_read_video_dac_state (vh_ops V)) st in (set_bh b (set_bl a regs), st1))"

definition handle_101007 :: "'h vgahw \<Rightarrow> 'h vga_call \<Rightarrow> 'h vga_call" where
  "handle_101007 V = (\<lambda>(regs, st).
     if bl regs > 0x14 then (regs, st) else let (v, st1) = from_hw (stdvga_attr_read (vh_ops V) (bl regs)) st in (set_bh v regs, st1))"

definition handle_1010 :: "'h vgahw \<Rightarrow> 'h vga_call \<Rightarrow> 'h vga_call" where
  "handle_1010 V = (\<lambda>(regs, st).
     let ops = vh_ops V; f = al regs; ptr = ucast (dx regs); hw = (\<lambda>g. (regs, on_hw g st))
     in if f = 0x00 then (if bl regs > 0x14 then (regs, st) else hw (stdvga_attr_write ops (bl regs) (bh regs)))
        else if f = 0x01 then hw (stdvga_set_overscan_border_color ops (bh regs))
        else if f = 0x02 then (regs, stdvga_set_all_palette_reg ops (es regs) ptr st)
        else if f = 0x03 then hw (stdvga_toggle_intensity ops (bl regs))
        else if f = 0x07 then handle_101007 V (regs, st)
        else if f = 0x08 then (let (v, st1) = from_hw (stdvga_get_overscan_border_color ops) st in (set_bh v regs, st1))
        else if f = 0x09 then (regs, stdvga_get_all_palette_reg ops (es regs) ptr st)
        else if f = 0x10 then (regs, handle_101010 V regs st)
        else if f = 0x12 then (regs, stdvga_dac_write ops (es regs) ptr (ucast (bx regs)) (unat (cx regs)) st)
        else if f = 0x13 then hw (stdvga_select_video_dac_color_page ops (bl regs) (bh regs))
        else if f = 0x15 then handle_101015 V (regs, st)
        else if f = 0x17 then (regs, stdvga_dac_read ops (es regs) ptr (ucast (bx regs)) (unat (cx regs)) st)
        else if f = 0x18 then hw (stdvga_pelmask_write ops (bl regs))
        else if f = 0x19 then (let (v, st1) = from_hw (stdvga_pelmask_read ops) st in (set_bl v regs, st1))
        else if f = 0x1a then handle_10101a V (regs, st)
        else if f = 0x1b then hw (stdvga_perform_gray_scale_summing ops (bx regs) (cx regs))
        else (regs, st))"

section \<open>Fonts\<close>

definition load_gfx_font :: "u16 \<Rightarrow> u16 \<Rightarrow> u8 \<Rightarrow> u8 \<Rightarrow> u8 \<Rightarrow> mem \<Rightarrow> mem" where
  "load_gfx_font seg off height blk rws m =
     (let rows = (if blk = 0 then rws else if blk = 1 then 14 else if blk = 3 then 43 else 25)
      in set_bda16 off_char_height (ucast height) (set_bda8 off_video_rows (rows - 1) (SET_IVT 0x43 (SEGOFF seg off) m)))"

definition rom_font :: "'h vgahw \<Rightarrow> u16 \<Rightarrow> u8 \<Rightarrow> u8 \<Rightarrow> 'h vga_state \<Rightarrow> 'h vga_state" where
  "rom_font V font blk height st = stdvga_load_font (vh_ops V) (vh_global_seg V) (ucast font) 0x100 0 blk height st"

definition user_font :: "'h vgahw \<Rightarrow> bregs \<Rightarrow> 'h vga_state \<Rightarrow> 'h vga_state" where
  "user_font V regs st = stdvga_load_font (vh_ops V) (es regs) (ucast (r16 (ebp regs))) (cx regs) (dx regs) (bl regs) (bh regs) st"

text \<open>Where a font is, by the number in \<open>bh\<close>.\<close>

definition font_info :: "'h vgahw \<Rightarrow> u8 \<Rightarrow> mem \<Rightarrow> u32 option" where
  "font_info V n m =
     (let so = (\<lambda>f. Some (SEGOFF (vh_global_seg V) f))
      in if n = 0 then Some (GET_IVT 0x1f m) else if n = 1 then Some (GET_IVT 0x43 m)
         else if n = 2 then so (vgafont14 V) else if n = 3 then so (vgafont8 V) else if n = 4 then so (vgafont8 V + 128 * 8)
         else if n = 5 then so (vgafont14alt V) else if n = 6 then so (vgafont16 V) else if n = 7 then so (vgafont16alt V) else None)"

definition handle_101130 :: "'h vgahw \<Rightarrow> 'h vga_call \<Rightarrow> 'h vga_call" where
  "handle_101130 V = (\<lambda>(regs, st).
     case font_info V (bh regs) (v_mem st) of
       None \<Rightarrow> (regs, st)
     | Some so \<Rightarrow>
         (set_dl (bda8 off_video_rows (v_mem st)) (set_cx (char_height (v_mem st) AND 0xff)
            (regs\<lparr>es := ucast (drop_bit 16 so), ebp := put16 (ucast so) (ebp regs)\<rparr>)), st))"

definition handle_1011 :: "'h vgahw \<Rightarrow> 'h vga_call \<Rightarrow> 'h vga_call option" where
  "handle_1011 V = (\<lambda>(regs, st).
     let f = al regs; keep = (\<lambda>s. Some (regs, s)); lns = (\<lambda>n s. map_option (\<lambda>s1. (regs, s1)) (set_scan_lines V n s));
         gfx = (\<lambda>font n. keep (on_mem (load_gfx_font (vh_global_seg V) font n (bl regs) (dl regs)) st))
     in if f = 0x00 then keep (user_font V regs st)
        else if f = 0x01 then keep (rom_font V (vgafont14 V) (bl regs) 14 st)
        else if f = 0x02 then keep (rom_font V (vgafont8 V) (bl regs) 8 st)
        else if f = 0x03 then keep (on_hw (stdvga_set_text_block_specifier (vh_ops V) (bl regs)) st)
        else if f = 0x04 then keep (rom_font V (vgafont16 V) (bl regs) 16 st)
        else if f = 0x10 then lns (bh regs) (user_font V regs st)
        else if f = 0x11 then lns 14 (rom_font V (vgafont14 V) (bl regs) 14 st)
        else if f = 0x12 then lns 8 (rom_font V (vgafont8 V) (bl regs) 8 st)
        else if f = 0x14 then lns 16 (rom_font V (vgafont16 V) (bl regs) 16 st)
        else if f = 0x30 then Some (handle_101130 V (regs, st))
        else if f = 0x20 then keep (on_mem (SET_IVT 0x1f (SEGOFF (es regs) (r16 (ebp regs)))) st)
        else if f = 0x21 then keep (on_mem (load_gfx_font (es regs) (r16 (ebp regs)) (ucast (cx regs)) (bl regs) (dl regs)) st)
        else if f = 0x22 then gfx (vgafont14 V) 14
        else if f = 0x23 then gfx (vgafont8 V) 8
        else if f = 0x24 then gfx (vgafont16 V) 16
        else Some (regs, st))"

section \<open>Alternate functions\<close>

definition handle_101210 :: "'h vga_call \<Rightarrow> 'h vga_call" where
  "handle_101210 = (\<lambda>(regs, st).
     let m = v_mem st
     in (set_cx (ucast (bda8 off_video_switches m AND 0x0f))
           (set_bx (if bda16 off_crtc_address m = VGAREG_MDA_CRTC_ADDRESS then 0x0103 else 0x0003) regs), st))"

definition handle_101230 :: "'h vga_call \<Rightarrow> 'h vga_call" where
  "handle_101230 = (\<lambda>(regs, st).
     let mctl = bda8 off_modeset_ctl (v_mem st); vswt = bda8 off_video_switches (v_mem st); n = al regs;
         (mctl1, vswt1) =
           (if n = 0x00 then ((mctl AND NOT 0x10) OR 0x80, (vswt AND NOT 0x0f) OR 0x08)
            else if n = 0x01 then (mctl AND NOT 0x90, (vswt AND NOT 0x0f) OR 0x09)
            else if n = 0x02 then ((mctl AND NOT 0x80) OR 0x10, (vswt AND NOT 0x0f) OR 0x09)
            else (mctl, vswt))
     in (set_al 0x12 regs, on_mem (set_bda8 off_video_switches vswt1 \<circ> set_bda8 off_modeset_ctl mctl1) st))"

definition handle_101231 :: "'h vga_call \<Rightarrow> 'h vga_call" where
  "handle_101231 = (\<lambda>(regs, st).
     (set_al 0x12 regs, on_mem (\<lambda>m. set_bda8 off_video_ctl ((bda8 off_video_ctl m AND NOT 0x08) OR push_bit 3 (al regs AND 0x01)) m) st))"

definition handle_101233 :: "'h vga_call \<Rightarrow> 'h vga_call" where
  "handle_101233 = (\<lambda>(regs, st).
     (set_al 0x12 regs,
      on_mem (\<lambda>m. set_bda8 off_modeset_ctl (((push_bit 1 (al regs) AND 0x02) XOR 0x02) OR (bda8 off_modeset_ctl m AND NOT 0x02)) m) st))"

definition handle_101234 :: "'h vga_call \<Rightarrow> 'h vga_call" where
  "handle_101234 = (\<lambda>(regs, st).
     (set_al 0x12 regs, on_mem (\<lambda>m. set_bda8 off_video_ctl ((bda8 off_video_ctl m AND NOT 0x01) OR (al regs AND 0x01)) m) st))"

definition handle_1012 :: "'h vgahw \<Rightarrow> 'h vga_call \<Rightarrow> 'h vga_call" where
  "handle_1012 V = (\<lambda>(regs, st).
     let f = bl regs
     in if f = 0x10 then handle_101210 (regs, st)
        else if f = 0x30 then handle_101230 (regs, st)
        else if f = 0x31 then handle_101231 (regs, st)
        else if f = 0x32 then (set_al 0x12 regs, on_hw (stdvga_enable_video_addressing (vh_ops V) (al regs)) st)
        else if f = 0x33 then handle_101233 (regs, st)
        else if f = 0x34 then handle_101234 (regs, st)
        else if f = 0x35 \<or> f = 0x36 then (set_al 0x12 regs, st)
        else (regs, st))"

section \<open>Strings and states\<close>

text \<open>The string at \<open>es:bp\<close>, with an attribute after each character when \<open>al\<close> says so.\<close>

fun string_loop :: "'h vgahw \<Rightarrow> bool \<Rightarrow> u16 \<Rightarrow> nat \<Rightarrow> u32 \<Rightarrow> u8 \<Rightarrow> cursorpos \<times> 'h vga_state \<Rightarrow> cursorpos \<times> 'h vga_state" where
  "string_loop V attrs seg 0 off attr s = s"
| "string_loop V attrs seg (Suc n) off attr s =
     (let m = v_mem (snd s); car = m (MAKE_FLATPTR seg off);
          (attr1, off1) = (if attrs then (m (MAKE_FLATPTR seg (off + 1)), off + 2) else (attr, off + 1))
      in string_loop V attrs seg n off1 attr1 (write_teletype V \<lparr>ca_car = car, ca_attr = attr1, ca_use = True\<rparr> s))"

definition handle_1013 :: "'h vgahw \<Rightarrow> 'h vga_call \<Rightarrow> 'h vga_call" where
  "handle_1013 V = (\<lambda>(regs, st).
     let (cp, st1) = string_loop V (al regs AND 2 \<noteq> 0) (es regs) (unat (cx regs)) (ucast (r16 (ebp regs))) (bl regs)
           (\<lparr>cp_x = dl regs, cp_y = dh regs, cp_page = bh regs\<rparr>, st)
     in (regs, if al regs AND 1 \<noteq> 0 then set_cursor_pos V cp st1 else st1))"

definition handle_101a :: "'h vga_call \<Rightarrow> 'h vga_call" where
  "handle_101a = (\<lambda>(regs, st).
     if al regs = 0x00 then (set_al 0x1a (set_bx (ucast (bda8 off_dcc_index (v_mem st))) regs), st)
     else if al regs = 0x01 then (set_al 0x1a regs, on_mem (set_bda8 off_dcc_index (bl regs)) st)
     else (regs, st))"

definition handle_101b :: "'h vgahw \<Rightarrow> 'h vga_call \<Rightarrow> 'h vga_call" where
  "handle_101b V = (\<lambda>(regs, st).
     let seg = es regs; info = ucast (r16 (edi regs)) :: u32; at = (\<lambda>off. MAKE_FLATPTR seg (info + off));
         fill = (\<lambda>m.
           let m1 = set_mem 4 (at 0) (SEGOFF (vh_global_seg V) (static_functionality V)) (memset_far seg info 0 64 m);
               m2 = memcpy_far seg (info + 34) SEG_BDA 0x84 3 (memcpy_far seg (info + 4) SEG_BDA 0x49 30 m1);
               m3 = m2(at 37 := bda8 off_dcc_index m2);
               m4 = set_mem 2 (at 39) (16 :: u16) m3
           in m4(at 41 := 8, at 42 := 2, at 49 := 3))
     in (set_al 0x1B regs, on_mem fill st))"

definition handle_101c :: "'h vgahw \<Rightarrow> 'h vga_call \<Rightarrow> 'h vga_call" where
  "handle_101c V = (\<lambda>(regs, st).
     let states = cx regs; cmd = al regs
     in if states AND NOT 0x07 \<noteq> 0 \<or> cmd > 2 then (regs, st)
        else
          let (ret, st1) = vh_save_restore V (states OR push_bit 8 (ucast cmd)) (es regs) (ucast (bx regs)) st
          in if ret < 0 then (regs, st1)
             else (set_al 0x1c (if cmd = 0 then set_bx (word_of_int (ret div 64)) regs else regs), st1))"

section \<open>The dispatch\<close>

definition handle_10 :: "'h vgahw \<Rightarrow> 'h vga_call \<Rightarrow> 'h vga_call option" where
  "handle_10 V = (\<lambda>(regs, st0).
     let st = swcursor_pre_handle10 V regs st0; f = ah regs; c = (regs, st)
     in if f = 0x00 then Some (handle_1000 V c) else if f = 0x01 then Some (handle_1001 V c)
        else if f = 0x02 then Some (handle_1002 V c) else if f = 0x03 then Some (handle_1003 c)
        else if f = 0x04 then Some (handle_1004 c) else if f = 0x05 then Some (handle_1005 V c)
        else if f = 0x06 then Some (handle_1006 V c) else if f = 0x07 then Some (handle_1007 V c)
        else if f = 0x08 then Some (handle_1008 V c) else if f = 0x09 then Some (handle_1009 V c)
        else if f = 0x0a then Some (handle_100a V c) else if f = 0x0b then Some (handle_100b V c)
        else if f = 0x0c then Some (handle_100c V c) else if f = 0x0d then Some (handle_100d V c)
        else if f = 0x0e then Some (handle_100e V c) else if f = 0x0f then Some (handle_100f c)
        else if f = 0x10 then Some (handle_1010 V c) else if f = 0x11 then handle_1011 V c
        else if f = 0x12 then Some (handle_1012 V c) else if f = 0x13 then Some (handle_1013 V c)
        else if f = 0x1a then Some (handle_101a c) else if f = 0x1b then Some (handle_101b V c)
        else if f = 0x1c then Some (handle_101c V c) else if f = 0x4f then Some (vh_vbe V regs st)
        else Some c)"

section \<open>Two observations\<close>

text \<open>
  \<open>handle_1000\<close> writes \<open>al\<close> before it looks at bit 7 of it: the flag that the memory of the screen should be kept never reaches the
  mode set.
\<close>

lemma handle_1000_always_clears:
  "snd (handle_1000 V (regs, st)) =
    snd (vga_set_mode V (ucast (al regs AND 0x7f)) (MF_LEGACY OR (ucast (bda8 off_modeset_ctl (v_mem st)) AND (MF_NOPALETTE OR MF_GRAYSUM))) st)"
  by (simp add: handle_1000_def Let_def)

text \<open>Function 0x1110 divides by the height of the characters that the caller gives.\<close>

lemma handle_1011_divide_error: "al regs = 0x10 \<Longrightarrow> bh regs = 0 \<Longrightarrow> handle_1011 V (regs, st) = None"
  by (simp add: handle_1011_def set_scan_lines_def Let_def split_beta)

end
