(* ===== verification/VgaText.thy ===== *)
theory VgaText
  imports VgaInt10
begin

text \<open>
  The teletype function of interrupt 0x10 in text modes: the memory of the screen, line by line, shows what a terminal
  of that size would show.
\<close>

section \<open>Lines of a segment\<close>

lemma ucast_u16_of_nat: "o1 < 65536 \<Longrightarrow> (ucast (of_nat o1 :: u16) :: u32) = of_nat o1" "(ucast (of_nat o1 :: u32) :: u16) = of_nat o1"
  by (simp_all add: word_unat_eq_iff unsigned_ucast_eq unsigned_of_nat take_bit_nat_eq_self)

lemma flat_off: "MAKE_FLATPTR seg (of_nat o1) = seg_base seg + of_nat o1"
  by (simp add: MAKE_FLATPTR_def seg_base_def)

lemma line_copy:
  assumes "o1 + len \<le> 65536" "o2 + len \<le> 65536" "0 < len" "len < 65536" "up_safe (seg_base seg + of_nat o1) (seg_base seg + of_nat o2) len"
  shows "memcpy_far seg (of_nat o1) seg (of_nat o2) (of_nat len) m = block_copy (seg_base seg + of_nat o1) (seg_base seg + of_nat o2) len m"
proof -
  have o: "o1 < 65536" "o2 < 65536" "unat (of_nat len :: u32) = len" using assms by (simp_all add: unsigned_of_nat take_bit_nat_eq_self)
  have u: "unat (of_nat k :: u16) = k" if "k < 65536" for k using that by (simp add: unsigned_of_nat take_bit_nat_eq_self)
  show ?thesis
    using memcpy_far_eq [of seg "of_nat o1" seg "of_nat o2" "of_nat len" m] assms o u [OF o(1)] u [OF o(2)]
    by (simp add: ucast_u16_of_nat(1) flat_off)
qed

lemma up_safe_below:
  assumes "0 < s" "s < 2 ^ 32" "s + n \<le> 2 ^ 32"
  shows "up_safe (p :: u32) (p + of_nat s) n"
proof -
  have u: "unat (of_nat s :: u32) = s" using assms by (simp add: unsigned_of_nat take_bit_nat_eq_self)
  have "0 < unat (of_nat s :: u32)" unfolding u by (rule assms)
  then have "unat (0 - of_nat s :: u32) = 2 ^ 32 - s" using unat_sub_wrap [of "0 :: u32" "of_nat s"] u by simp
  moreover have "p - (p + of_nat s) = 0 - of_nat s" by simp
  ultimately show ?thesis using assms by (auto simp: up_safe_def)
qed

text \<open>Lines that are moved up by one are one copy.\<close>

lemma lines_up:
  assumes "o1 + s * Suc n \<le> 65536" "0 < s" "s < 65536"
  shows "each_line (\<lambda>d. memcpy_far seg d seg (d + of_nat s) (of_nat s)) (of_nat o1) (of_nat s) n m =
    block_copy (seg_base seg + of_nat o1) (seg_base seg + of_nat (o1 + s)) (s * n) m"
  using assms(1)
proof (induction n arbitrary: o1 m)
  case (Suc n)
  let ?B = "seg_base seg"
  have safe: "up_safe (?B + of_nat o1) (?B + of_nat (o1 + s)) k" if "k \<le> 65536" for k
    using up_safe_below [of s k "?B + of_nat o1"] that assms by (simp add: add.assoc)
  have one: "memcpy_far seg (of_nat o1) seg (of_nat o1 + of_nat s) (of_nat s) m = block_copy (?B + of_nat o1) (?B + of_nat (o1 + s)) s m"
    using line_copy [of o1 s "o1 + s" seg m] Suc.prems assms safe [of s] by simp
  have "each_line (\<lambda>d. memcpy_far seg d seg (d + of_nat s) (of_nat s)) (of_nat o1 + of_nat s) (of_nat s) n
      (block_copy (?B + of_nat o1) (?B + of_nat (o1 + s)) s m) =
    block_copy (?B + of_nat o1 + of_nat s) (?B + of_nat (o1 + s) + of_nat s) (s * n) (block_copy (?B + of_nat o1) (?B + of_nat (o1 + s)) s m)"
    using Suc.IH [of "o1 + s" "block_copy (?B + of_nat o1) (?B + of_nat (o1 + s)) s m"] Suc.prems by (simp add: algebra_simps)
  then show ?case
    using block_copy_append [OF safe [of "s + s * n"]] Suc.prems by (simp add: one)
qed simp

lemma mem_write_append: "mem_write p (xs @ ys) m = mem_write (p + of_nat (length xs)) ys (mem_write p xs m)"
  by (induction xs arbitrary: p m) (simp_all add: algebra_simps)

lemma rep_stos16_write:
  assumes "unat di + length bs * n \<le> 2 ^ 16" "bs \<noteq> []"
  shows "rep_stos16 bs n db di m = mem_write (db + ucast di) (concat (replicate n bs)) m"
  using assms
proof (induction n arbitrary: di m)
  case (Suc n)
  show ?case
  proof (cases "n = 0")
    case False
    then have "unat di + length bs < 2 ^ 16" using Suc.prems by (cases n) (auto simp flip: length_greater_0_conv)
    note step = index_step [OF this]
    show ?thesis
      using Suc.IH [of "di + of_nat (length bs)"] Suc.prems step by (simp add: mem_write_append add.assoc)
  qed simp
qed simp

lemma fill_line:
  assumes "o1 + 2 * n \<le> 65536" "0 < n" "n < 32768"
  shows "memset16_far seg (of_nat o1) c (of_nat (2 * n)) m = mem_write (seg_base seg + of_nat o1) (concat (replicate n (le_bytes 2 c))) m"
proof -
  have o: "unat (of_nat o1 :: u16) = o1" "(ucast (of_nat o1 :: u16) :: u32) = of_nat o1"
    using assms by (simp_all add: unsigned_of_nat take_bit_nat_eq_self ucast_u16_of_nat)
  have "unat ((of_nat (2 * n) :: u32) div 2) = n"
    using assms by (simp add: unat_div unsigned_of_nat take_bit_nat_eq_self del: of_nat_mult)
  then have "cx_count (of_nat (2 * n) div 2) = n"
    using assms by (simp add: cx_count_def unsigned_ucast_eq take_bit_nat_eq_self del: of_nat_mult)
  moreover have "le_bytes 2 c \<noteq> []" by (simp flip: length_greater_0_conv)
  ultimately show ?thesis
    using rep_stos16_write [of "of_nat o1" "le_bytes 2 c" n "seg_base seg" m] assms o
    by (simp add: memset16_far_def ucast_u16_of_nat(2) del: of_nat_mult)
qed

section \<open>The screen in memory\<close>

text \<open>A text mode of \<open>C\<close> columns and \<open>R\<close> rows in the segment \<open>seg\<close>, whose visible page begins at \<open>po\<close>.\<close>

definition text_size :: "u16 \<Rightarrow> nat \<Rightarrow> nat \<Rightarrow> nat \<Rightarrow> bool" where
  "text_size seg po C R \<longleftrightarrow> 0 < C \<and> C \<le> 255 \<and> 0 < R \<and> R \<le> 255 \<and> po + 2 * (C * R) \<le> 65536 \<and> 0x100 \<le> seg"

definition text_mode :: "'h vgahw \<Rightarrow> u16 \<Rightarrow> nat \<Rightarrow> nat \<Rightarrow> nat \<Rightarrow> mem \<Rightarrow> bool" where
  "text_mode V seg po C R m \<longleftrightarrow>
     (case get_current_mode V m of None \<Rightarrow> False | Some vmode \<Rightarrow> vm_memmodel vmode = MM_TEXT \<and> vm_sstart vmode = seg) \<and>
     bda16 off_video_cols m = of_nat C \<and> bda8 off_video_rows m = of_nat (R - 1) \<and>
     unat (bda16 off_video_pagesize m) * unat (bda8 off_video_page m) = po \<and> bda8 off_video_page m \<le> 7"

definition text_at :: "u16 \<Rightarrow> nat \<Rightarrow> nat \<Rightarrow> u32" where "text_at seg po j = seg_base seg + of_nat (po + j)"

definition cells_at :: "u16 \<Rightarrow> nat \<Rightarrow> nat \<Rightarrow> mem \<Rightarrow> (u8 \<times> u8) list" where
  "cells_at seg po n m = map (\<lambda>k. (m (text_at seg po (2 * k)), m (text_at seg po (2 * k + 1)))) [0..<n]"

lemma length_cells_at [simp]: "length (cells_at seg po n m) = n"
  by (simp add: cells_at_def)

lemma text_sizeD:
  assumes "text_size seg po C R"
  shows "0 < C" "C \<le> 255" "0 < R" "R \<le> 255" "po + 2 * (C * R) \<le> 65536"
  using assms by (simp_all add: text_size_def)

lemma unat_seg_base: "unat (seg_base seg) = 16 * unat seg"
proof -
  have "unat seg < 2 ^ 16" using unsigned_less [of seg] by simp
  then show ?thesis
    by (simp add: seg_base_def push_bit_eq_mult unat_word_ariths unsigned_ucast_eq take_bit_nat_eq_self)
qed

lemma unat_text_at:
  assumes "text_size seg po C R" "j < 2 * (C * R)"
  shows "unat (text_at seg po j) = 16 * unat seg + po + j" and "0x1000 \<le> unat (text_at seg po j)"
proof -
  have "unat seg < 2 ^ 16" using unsigned_less [of seg] by simp
  then have "unat (seg_base seg) + (po + j) < 2 ^ 32" using assms by (simp add: unat_seg_base text_size_def)
  then have "unat (seg_base seg + of_nat (po + j)) = unat (seg_base seg) + (po + j)"
    by (simp add: unat_word_ariths(1) unsigned_of_nat take_bit_nat_eq_self del: of_nat_add)
  then show u: "unat (text_at seg po j) = 16 * unat seg + po + j" by (simp add: text_at_def unat_seg_base)
  have "0x100 \<le> unat seg" using assms(1) by (simp add: text_size_def word_le_nat_alt)
  then show "0x1000 \<le> unat (text_at seg po j)" unfolding u by simp
qed

lemma text_at_eq:
  assumes "text_size seg po C R" "i < 2 * (C * R)" "j < 2 * (C * R)"
  shows "text_at seg po i = text_at seg po j \<longleftrightarrow> i = j"
proof
  assume "text_at seg po i = text_at seg po j"
  then have "unat (text_at seg po i) = unat (text_at seg po j)" by (rule arg_cong)
  then show "i = j" unfolding unat_text_at(1) [OF assms(1,2)] unat_text_at(1) [OF assms(1,3)] by simp
qed simp

lemma text_at_diff:
  assumes "text_size seg po C R" "i + j < 2 * (C * R)"
  shows "unat (text_at seg po (i + j) - text_at seg po i) = j"
proof -
  have "text_at seg po (i + j) - text_at seg po i = of_nat j" by (simp add: text_at_def)
  moreover have "j < 2 ^ 32" using assms text_sizeD(5) [OF assms(1)] by simp
  ultimately show ?thesis by (simp add: unsigned_of_nat take_bit_nat_eq_self)
qed

lemma text_at_before:
  assumes "text_size seg po C R" "j < i" "i < 2 * (C * R)"
  shows "2 ^ 31 \<le> unat (text_at seg po j - text_at seg po i)"
proof -
  have "j < 2 * (C * R)" using assms by simp
  then have "unat (text_at seg po j) < unat (text_at seg po i)"
    using unat_text_at(1) [OF assms(1)] assms by simp
  then have "unat (text_at seg po j - text_at seg po i) = 2 ^ 32 + unat (text_at seg po j) - unat (text_at seg po i)"
    using unat_sub_wrap [of "text_at seg po j" "text_at seg po i"] by simp
  then show ?thesis
    using unat_text_at(1) [OF assms(1)] assms \<open>j < 2 * (C * R)\<close> text_sizeD(5) [OF assms(1)] by simp
qed

text \<open>A character written to a cell.\<close>

lemma cells_put:
  assumes "text_size seg po C R" "k < C * R"
  shows "cells_at seg po (C * R) (m(text_at seg po (2 * k) := c)) =
    (cells_at seg po (C * R) m)[k := (c, snd (cells_at seg po (C * R) m ! k))]"
proof (rule nth_equalityI)
  fix i assume "i < length (cells_at seg po (C * R) (m(text_at seg po (2 * k) := c)))"
  then have i: "i < C * R" by simp
  have "text_at seg po (2 * i) = text_at seg po (2 * k) \<longleftrightarrow> i = k" "text_at seg po (2 * i + 1) \<noteq> text_at seg po (2 * k)"
    using text_at_eq [OF assms(1), of "2 * i" "2 * k"] text_at_eq [OF assms(1), of "2 * i + 1" "2 * k"] i assms(2)
    by (auto dest: arg_cong [of _ _ even])
  then show "cells_at seg po (C * R) (m(text_at seg po (2 * k) := c)) ! i =
    (cells_at seg po (C * R) m)[k := (c, snd (cells_at seg po (C * R) m ! k))] ! i"
    using i assms(2) by (simp add: cells_at_def nth_list_update)
qed simp

text \<open>The screen moved up by a line of \<open>C\<close> cells, with blanks at the bottom.\<close>

lemma nth_fill: "j < 2 * n \<Longrightarrow> concat (replicate n [a, b]) ! j = (if even j then a else b)"
proof (induction n arbitrary: j)
  case (Suc n)
  then show ?case by (cases j; cases "j - 1") (auto simp: nth_Cons')
qed simp

lemma cells_scroll:
  assumes sz: "text_size seg po C R" and m'_def: "m' = mem_write (text_at seg po (2 * (C * (R - 1)))) (concat (replicate C [a, b]))
    (block_copy (text_at seg po 0) (text_at seg po (2 * C)) (2 * C * (R - 1)) m)"
  shows "cells_at seg po (C * R) m' = drop C (cells_at seg po (C * R) m) @ replicate C (a, b)"
    and "\<And>p. unat p < 0x1000 \<Longrightarrow> m' p = m p"
proof -
  let ?N = "C * R" and ?L = "C * (R - 1)"
  note d = text_sizeD [OF sz]
  have N: "?N = ?L + C" using d(3) by (cases R) simp_all
  have len: "length (concat (replicate C [a, b])) = 2 * C" by (induction C) simp_all
  have m': "m' p = (if unat (p - text_at seg po (2 * ?L)) < 2 * C then concat (replicate C [a, b]) ! unat (p - text_at seg po (2 * ?L))
      else if unat (p - text_at seg po 0) < 2 * ?L then m (text_at seg po (2 * C) + (p - text_at seg po 0)) else m p)" for p
    unfolding m'_def using d by (simp add: mem_write_eq len block_copy_def mult.assoc)
  have val: "m' (text_at seg po j) = (if 2 * ?L \<le> j then (if even j then a else b) else m (text_at seg po (j + 2 * C)))" if j: "j < 2 * ?N" for j
  proof (cases "2 * ?L \<le> j")
    case True
    then have "unat (text_at seg po j - text_at seg po (2 * ?L)) = j - 2 * ?L"
      using text_at_diff [OF sz, of "2 * ?L" "j - 2 * ?L"] j by simp
    moreover have "j - 2 * ?L < 2 * C" using True j N by linarith
    ultimately show ?thesis using True nth_fill [of "j - 2 * ?L" C a b] by (simp add: m')
  next
    case False
    then have "2 ^ 31 \<le> unat (text_at seg po j - text_at seg po (2 * ?L))"
      using text_at_before [OF sz, of j "2 * ?L"] N d(1) by simp
    moreover have "unat (text_at seg po j - text_at seg po 0) = j" using text_at_diff [OF sz, of 0 j] j by simp
    moreover have "text_at seg po (2 * C) + (text_at seg po j - text_at seg po 0) = text_at seg po (j + 2 * C)"
      by (simp add: text_at_def algebra_simps)
    ultimately show ?thesis using False d(2) by (simp add: m')
  qed
  show "cells_at seg po ?N m' = drop C (cells_at seg po ?N m) @ replicate C (a, b)"
  proof (rule nth_equalityI)
    fix i assume "i < length (cells_at seg po ?N m')"
    then have i: "i < ?N" by simp
    show "cells_at seg po ?N m' ! i = (drop C (cells_at seg po ?N m) @ replicate C (a, b)) ! i"
    proof (cases "i < ?L")
      case True
      have v: "m' (text_at seg po (2 * i)) = m (text_at seg po (2 * (C + i)))" "m' (text_at seg po (2 * i + 1)) = m (text_at seg po (2 * (C + i) + 1))"
        using val [of "2 * i"] val [of "2 * i + 1"] True N by (simp_all add: add.commute)
      have "C + i < ?N" using True N by linarith
      moreover have "?N - C = ?L" "C \<le> ?N" using N by simp_all
      ultimately show ?thesis using True i v by (simp add: cells_at_def nth_append)
    next
      case False
      moreover have "?N - C = ?L" "i - ?L < C" using N i False by linarith+
      ultimately show ?thesis using val [of "2 * i"] val [of "2 * i + 1"] i by (simp add: cells_at_def nth_append)
    qed
  qed (use N in simp)
  show "m' p = m p" if p: "unat p < 0x1000" for p
  proof -
    have "2 ^ 31 \<le> unat (p - text_at seg po j)" if "j < 2 * ?N" for j
    proof -
      have t: "0x1000 \<le> unat (text_at seg po j)" "unat (text_at seg po j) < 2 ^ 31"
        using unat_text_at [OF sz that] d(5) unat_u16_bound [of seg] that by simp_all
      then show ?thesis using p unat_sub_wrap [of p "text_at seg po j"] by simp
    qed
    from this [of "2 * ?L"] this [of 0] show ?thesis using d N by (simp add: m')
  qed
qed

section \<open>The state of a text mode\<close>

definition low_same :: "mem \<Rightarrow> mem \<Rightarrow> bool" where
  "low_same m' m \<longleftrightarrow> (\<forall>p. unat p < 0x1000 \<longrightarrow> m' p = m p)"

lemma low_same_refl [simp]: "low_same m m"
  by (simp add: low_same_def)

lemma low_same_trans: "low_same m2 m1 \<Longrightarrow> low_same m1 m \<Longrightarrow> low_same m2 m"
  by (simp add: low_same_def)

lemma low_same_put: "0x1000 \<le> unat p \<Longrightarrow> low_same (m(p := v)) m"
  by (auto simp: low_same_def)

lemma bda_low:
  assumes "low_same m' m" "off < 0x200"
  shows "bda8 off m' = bda8 off m" "bda16 off m' = bda16 off m"
proof -
  have u: "unat (bda_at off + of_nat i) < 0x1000" if "i < 2" for i
  proof -
    have "bda_at off + of_nat i = 0x400 + off + of_nat i" by (simp add: MAKE_FLATPTR_def SEG_BDA_def)
    moreover have "unat off < 0x200" using assms(2) by (simp add: word_less_nat_alt)
    moreover have "unat (0x400 + off + of_nat i) = 0x400 + unat off + i"
      using \<open>unat off < 0x200\<close> that by (simp add: unat_word_ariths(1) unsigned_of_nat take_bit_nat_eq_self)
    ultimately show ?thesis using that by simp
  qed
  have s: "m' (bda_at off + of_nat i) = m (bda_at off + of_nat i)" if "i < 2" for i
    using u [OF that] assms(1) unfolding low_same_def by blast
  show "bda8 off m' = bda8 off m" using s [of 0] by simp
  have "mem_read m' (bda_at off) 2 = mem_read m (bda_at off) 2"
    by (rule nth_equalityI) (auto simp: s)
  then show "bda16 off m' = bda16 off m" by (simp add: get_mem_def)
qed

lemma cursor_slot_low: "page \<le> 7 \<Longrightarrow> cursor_slot page < 0x200"
proof -
  assume "page \<le> 7"
  then have "unat page \<le> 7" by (simp add: word_le_nat_alt)
  then have "unat (0x50 + 2 * ucast page :: u32) = 0x50 + 2 * unat page"
    by (simp add: unat_word_ariths unsigned_ucast_eq take_bit_nat_eq_self)
  then show ?thesis using \<open>unat page \<le> 7\<close> by (simp add: cursor_slot_def off_cursor_pos_def word_less_nat_alt)
qed

lemma text_mode_low: "low_same m' m \<Longrightarrow> text_mode V seg po C R m' = text_mode V seg po C R m"
proof -
  assume low: "low_same m' m"
  have "off_video_cols < 0x200" "off_video_rows < 0x200" "off_video_pagesize < 0x200" "off_video_page < 0x200" "off_vgamode_offset < 0x200"
    by (simp_all add: vga_offsets)
  note eq = this [THEN bda_low(1) [OF low]] this [THEN bda_low(2) [OF low]]
  show ?thesis unfolding text_mode_def get_current_mode_def eq ..
qed

lemma get_cursor_pos_low: "low_same m' m \<Longrightarrow> get_cursor_pos page m' = get_cursor_pos page m"
  using bda_low(2) [OF _ cursor_slot_low [of page], of m' m] by (cases "page > 7") (auto simp: get_cursor_pos_def not_less)

definition cur :: "nat \<Rightarrow> nat \<Rightarrow> u8 \<Rightarrow> cursorpos" where
  "cur x y page = \<lparr>cp_x = of_nat x, cp_y = of_nat y, cp_page = page\<rparr>"

lemma text_address_cur:
  assumes "text_size seg po C R" "text_mode V seg po C R m" "x < C" "y < R"
  shows "text_address (cur x y (bda8 off_video_page m)) m = of_nat (po + 2 * (y * C + x))"
proof -
  have "x < 256" "y < 256" using assms text_sizeD [OF assms(1)] by simp_all
  then have c: "(ucast (of_nat x :: u8) :: u32) = of_nat x" "(ucast (of_nat y :: u8) :: u32) = of_nat y"
    by (simp_all add: word_unat_eq_iff unsigned_ucast_eq unsigned_of_nat take_bit_nat_eq_self)
  have "C < 65536" using text_sizeD [OF assms(1)] by simp
  then have cc: "(ucast (of_nat C :: u16) :: u32) = of_nat C" by (rule ucast_u16_of_nat)
  have "(ucast (bda16 off_video_pagesize m) :: u32) * ucast (bda8 off_video_page m) = of_nat po"
    using assms(2) by (auto simp: text_mode_def)
  then show ?thesis using assms(2) by (simp add: text_address_def cur_def text_mode_def c cc algebra_simps)
qed

section \<open>A character\<close>

lemma text_modeD:
  assumes "text_mode V seg po C R m"
  obtains vmode where "get_current_mode V m = Some vmode" "vm_memmodel vmode = MM_TEXT" "vm_sstart vmode = seg"
    "bda16 off_video_cols m = of_nat C" "bda8 off_video_rows m = of_nat (R - 1)"
  using assms by (auto simp: text_mode_def split: option.splits)

lemma cell_index: "x < C \<Longrightarrow> y < R \<Longrightarrow> y * C + x < C * (R :: nat)"
proof -
  assume "x < C" "y < R"
  then have "(y + 1) * C \<le> R * C" "y * C + x < (y + 1) * C" by (simp_all only: mult_le_mono1) simp_all
  then show ?thesis by (simp add: mult.commute)
qed

lemma text_write_char:
  assumes sz: "text_size seg po C R" and md: "text_mode V seg po C R (v_mem st)" and xy: "x < C" "y < R" and nu: "\<not> ca_use ca"
    and page: "page = bda8 off_video_page (v_mem st)"
  shows "vgafb_write_char V (cur x y page) ca st = on_mem (\<lambda>m. m(text_at seg po (2 * (y * C + x)) := ca_car ca)) st"
proof -
  obtain vmode where v: "get_current_mode V (v_mem st) = Some vmode" "vm_memmodel vmode = MM_TEXT" "vm_sstart vmode = seg"
    using md by (rule text_modeD)
  show ?thesis
    using v nu by (simp add: vgafb_write_char_def page text_address_cur [OF sz md xy] flat_off text_at_def Let_def del: of_nat_add of_nat_mult)
qed

text \<open>The lines above the last moved up by one, and the last blanked.\<close>

lemma cur_up:
  assumes "0 < C" "C \<le> 255" "0 < R" "R \<le> 255"
  shows "(of_nat (R - 1) :: u8) + 1 - word_of_int 1 = of_nat (R - 1)" "(ucast (of_nat C :: u16) :: u8) = of_nat C"
    "unat (of_nat (R - 1) :: u8) = R - 1" "(ucast (of_nat C :: u8) :: u32) = of_nat C"
proof -
  have "unat (of_nat k :: u8) = k" if "k < 256" for k using that by (simp add: unsigned_of_nat take_bit_nat_eq_self)
  from this [of "R - 1"] show "unat (of_nat (R - 1) :: u8) = R - 1" using assms by simp
qed (use assms in \<open>simp_all add: word_unat_eq_iff unsigned_ucast_eq unsigned_of_nat take_bit_nat_eq_self\<close>)

lemma text_move_up:
  assumes sz: "text_size seg po C R" and md: "text_mode V seg po C R (v_mem st)" and page: "page = bda8 off_video_page (v_mem st)"
  shows "vgafb_move_chars V (cur 0 0 page) \<lparr>cp_x = of_nat C, cp_y = of_nat (R - 1), cp_page = 0\<rparr> 1 st =
    on_mem (block_copy (text_at seg po 0) (text_at seg po (2 * C)) (2 * C * (R - 1))) st"
proof -
  note d = text_sizeD [OF sz]
  obtain vmode where v: "get_current_mode V (v_mem st) = Some vmode" "vm_memmodel vmode = MM_TEXT" "vm_sstart vmode = seg"
      "bda16 off_video_cols (v_mem st) = of_nat C"
    using md by (rule text_modeD)
  have R: "Suc (R - 1) = R" using d(3) by simp
  have st: "(ucast (of_nat C :: u16) :: u32) * 2 = of_nat (2 * C)" "(ucast (of_nat C :: u8) :: u32) * 2 = of_nat (2 * C)"
    using ucast_u16_of_nat(1) [of C] cur_up [OF d(1-4)] d(2) by simp_all
  have adr: "text_address (cur 0 0 page) (v_mem st) = of_nat po"
    using text_address_cur [OF sz md d(1) d(3)] by (simp add: page)
  have "po + 2 * C < 2 ^ 32" using d by (cases R) simp_all
  then have "\<not> (of_nat po + of_nat (2 * C) :: u32) < of_nat po"
    by (simp add: word_less_nat_alt unat_word_ariths(1) unsigned_of_nat take_bit_nat_eq_self del: of_nat_add of_nat_mult)
  then have "memmove_stride seg (of_nat po) (of_nat po + word_of_int 1 * of_nat (2 * C)) (of_nat (2 * C)) (of_nat (2 * C)) (R - 1) m =
    block_copy (text_at seg po 0) (text_at seg po (2 * C)) (2 * C * (R - 1)) m" for m
    using lines_up [of po "2 * C" "R - 1" seg m] d unfolding memmove_stride_def move_lines_def R text_at_def Let_def
    by (simp add: mult.assoc del: of_nat_mult)
  note copy = ext [of "memmove_stride _ _ _ _ _ _", OF this]
  then show ?thesis
    using v cur_up(3) [OF d(1-4)] st copy unfolding vgafb_move_chars_def adr by (simp add: Let_def del: of_nat_mult of_nat_diff)
qed

lemma blank_bytes: "le_bytes 2 (0x0720 :: u16) = [0x20, 0x07]"
  by code_simp

lemma text_clear_last:
  assumes sz: "text_size seg po C R" and md: "text_mode V seg po C R (v_mem st)" and page: "page = bda8 off_video_page (v_mem st)"
  shows "vgafb_clear_chars V (cur 0 (R - 1) page) \<lparr>cp_x = of_nat C, cp_y = 1, cp_page = 0\<rparr> \<lparr>ca_car = 0x20, ca_attr = 0, ca_use = False\<rparr> st =
    on_mem (mem_write (text_at seg po (2 * (C * (R - 1)))) (concat (replicate C [0x20, 0x07]))) st"
proof -
  note d = text_sizeD [OF sz]
  obtain vmode where v: "get_current_mode V (v_mem st) = Some vmode" "vm_memmodel vmode = MM_TEXT" "vm_sstart vmode = seg"
      "bda16 off_video_cols (v_mem st) = of_nat C"
    using md by (rule text_modeD)
  have adr: "text_address (cur 0 (R - 1) page) (v_mem st) = of_nat (po + 2 * (C * (R - 1)))"
    using text_address_cur [OF sz md d(1), of "R - 1"] d(3) by (simp add: page mult.commute)
  have "C * R = C * (R - 1) + C" using d(3) by (cases R) simp_all
  then have "po + 2 * (C * (R - 1)) + 2 * C \<le> 65536" using d(5) by simp
  moreover have "C < 32768" using d(2) by simp
  ultimately have "memset16_far seg (of_nat (po + 2 * (C * (R - 1)))) 0x0720 (of_nat (2 * C)) m =
      mem_write (text_at seg po (2 * (C * (R - 1)))) (concat (replicate C [0x20, 0x07])) m" for m
    using fill_line [OF _ d(1), of "po + 2 * (C * (R - 1))" seg "0x0720" m] unfolding blank_bytes text_at_def by blast
  note fill = ext [of "memset16_far _ _ _ _", OF this]
  have one: "each_line (\<lambda>d. memset16_far seg d c n) a b (Suc 0) = memset16_far seg a c n" for c n a b
    by (rule ext) simp
  have w: "(ucast (of_nat C :: u8) :: u32) * 2 = of_nat (2 * C)" using cur_up [OF d(1-4)] by simp
  have "(push_bit 8 (ucast (0x07 :: u8)) OR ucast (0x20 :: u8) :: u16) = 0x0720" by simp
  then show ?thesis
    using v unfolding vgafb_clear_chars_def adr memset16_stride_def
    by (simp add: Let_def one w fill [unfolded One_nat_def] del: of_nat_mult of_nat_add of_nat_diff)
qed

lemma block_copy_low:
  assumes "text_size seg po C R"
  shows "low_same (block_copy (text_at seg po 0) (text_at seg po (2 * C)) (2 * C * (R - 1)) m) m"
proof -
  note d = text_sizeD [OF assms]
  have "2 ^ 31 \<le> unat (p - text_at seg po 0)" if "unat p < 0x1000" for p
    using that unat_text_at [OF assms, of 0] d unat_u16_bound [of seg] unat_sub_wrap [of p "text_at seg po 0"] by simp
  moreover have "2 * C * (R - 1) < 2 ^ 31"
  proof -
    have "C * R < 2 ^ 30" using d(5) by simp
    with mult_le_mono2 [OF diff_le_self] have "C * (R - 1) < 2 ^ 30" by (rule le_less_trans)
    then show ?thesis by simp
  qed
  ultimately show ?thesis by (fastforce simp: low_same_def block_copy_def)
qed

section \<open>A terminal\<close>

text \<open>
  The column, the row and the cells: a character replaces the one of the cell under the cursor and leaves its attribute; after
  the last line the lines move up.
\<close>

type_synonym tty = "nat \<times> nat \<times> (u8 \<times> u8) list"

definition tty_scroll :: "nat \<Rightarrow> nat \<Rightarrow> tty \<Rightarrow> tty" where
  "tty_scroll C R = (\<lambda>(x, y, cells). if R \<le> y then (x, y - 1, drop C cells @ replicate C (0x20, 0x07)) else (x, y, cells))"

definition tty_char :: "nat \<Rightarrow> u8 \<Rightarrow> tty \<Rightarrow> tty" where
  "tty_char C c = (\<lambda>(x, y, cells).
     let k = y * C + x; cells1 = cells[k := (c, snd (cells ! k))]
     in if x + 1 = C then (0, y + 1, cells1) else (x + 1, y, cells1))"

definition tty_put :: "nat \<Rightarrow> nat \<Rightarrow> u8 \<Rightarrow> tty \<Rightarrow> tty" where
  "tty_put C R c = (\<lambda>(x, y, cells).
     tty_scroll C R
       (if c = 7 then (x, y, cells) else if c = 8 then (x - 1, y, cells) else if c = 13 then (0, y, cells)
        else if c = 10 then (x, y + 1, cells) else tty_char C c (x, y, cells)))"

text \<open>The screen, with the cursor at a place that may be one line below it.\<close>

definition tty_rel :: "'h vgahw \<Rightarrow> u16 \<Rightarrow> nat \<Rightarrow> nat \<Rightarrow> nat \<Rightarrow> u8 \<Rightarrow> mem \<Rightarrow> tty \<Rightarrow> cursorpos \<times> 'h vga_state \<Rightarrow> bool" where
  "tty_rel V seg po C R page m0 = (\<lambda>(x, y, cells) (cp, st).
     cp = cur x y page \<and> x < C \<and> y \<le> R \<and> cells = cells_at seg po (C * R) (v_mem st) \<and> low_same (v_mem st) m0)"

lemma small_u8:
  assumes "a < 256" "b < 256"
  shows "(of_nat a :: u8) = of_nat b \<longleftrightarrow> a = b" "(of_nat a :: u8) < of_nat b \<longleftrightarrow> a < b" "unat (of_nat a :: u8) = a"
  using assms by (simp_all add: word_unat_eq_iff word_less_nat_alt unsigned_of_nat take_bit_nat_eq_self)

lemma v_mem_on_mem [simp]: "v_mem (on_mem f st) = f (v_mem st)"
  by (simp add: on_mem_def)

lemma tty_rel_char:
  assumes sz: "text_size seg po C R" and md: "text_mode V seg po C R m0" and page: "page = bda8 off_video_page m0"
    and r: "tty_rel V seg po C R page m0 (x, y, cells) (cp, st)" "y < R" and nu: "\<not> ca_use ca"
  shows "tty_rel V seg po C R page m0 (tty_char C (ca_car ca) (x, y, cells)) (write_char V ca (cp, st))"
proof -
  note d = text_sizeD [OF sz]
  let ?k = "y * C + x" and ?m = "v_mem st"
  define st1 where "st1 = on_mem (\<lambda>m. m(text_at seg po (2 * ?k) := ca_car ca)) st"
  have m1: "v_mem st1 = ?m(text_at seg po (2 * ?k) := ca_car ca)" unfolding st1_def v_mem_on_mem ..
  have cp: "cp = cur x y page" and xy: "x < C" "y < R" and low: "low_same ?m m0" and cells: "cells = cells_at seg po (C * R) ?m"
    using r by (simp_all add: tty_rel_def)
  have md1: "text_mode V seg po C R ?m" using md by (simp add: text_mode_low [OF low])
  have pg: "page = bda8 off_video_page ?m" using bda_low(1) [OF low, of off_video_page] page by (simp add: off_video_page_def)
  have k: "?k < C * R" using cell_index [OF xy] .
  have low1: "low_same (v_mem st1) ?m" unfolding m1 by (rule low_same_put) (rule unat_text_at(2) [OF sz], use k in simp)
  have md2: "text_mode V seg po C R (v_mem st1)" unfolding text_mode_low [OF low1] by (rule md1)
  then obtain v where "bda16 off_video_cols (v_mem st1) = of_nat C" by (rule text_modeD)
  moreover have "(ucast (of_nat x + 1 :: u8) :: u16) = of_nat C \<longleftrightarrow> x + 1 = C"
  proof -
    have "(of_nat x + 1 :: u8) = of_nat (x + 1)" by simp
    then have "unat (of_nat x + 1 :: u8) = x + 1" using small_u8(3) [of "x + 1" 0] xy d by (simp del: of_nat_add of_nat_Suc)
    then show ?thesis using xy d by (simp add: word_unat_eq_iff unsigned_ucast_eq unsigned_of_nat take_bit_nat_eq_self)
  qed
  ultimately have "write_char V ca (cp, st) = (if x + 1 = C then cur 0 (y + 1) page else cur (x + 1) y page, st1)"
    using text_write_char [OF sz md1 xy nu pg, folded st1_def] by (simp add: write_char_def cp Let_def) (simp add: cur_def)
  then show ?thesis
    using xy cells_put [OF sz k, of ?m "ca_car ca"] low_same_trans [OF low1 low] m1 by (simp add: tty_rel_def tty_char_def Let_def cells)
qed

lemma tty_rel_scroll:
  assumes sz: "text_size seg po C R" and md: "text_mode V seg po C R m0" and page: "page = bda8 off_video_page m0"
    and r: "tty_rel V seg po C R page m0 (x, y, cells) (cp, st)"
  shows "tty_rel V seg po C R page m0 (tty_scroll C R (x, y, cells)) (teletype_scroll V (cp, st))"
    and "fst (snd (tty_scroll C R (x, y, cells))) < R"
proof -
  note d = text_sizeD [OF sz]
  let ?m = "v_mem st"
  have cp: "cp = cur x y page" and xy: "x < C" "y \<le> R" and low: "low_same ?m m0" and cells: "cells = cells_at seg po (C * R) ?m"
    using r by (simp_all add: tty_rel_def)
  show "fst (snd (tty_scroll C R (x, y, cells))) < R" using xy d by (auto simp: tty_scroll_def)
  have md1: "text_mode V seg po C R ?m" using md by (simp add: text_mode_low [OF low])
  have pg: "page = bda8 off_video_page ?m" using bda_low(1) [OF low, of off_video_page] page by (simp add: off_video_page_def)
  obtain v where rc: "bda8 off_video_rows ?m = of_nat (R - 1)" "bda16 off_video_cols ?m = of_nat C" using md1 by (rule text_modeD)
  have below: "(of_nat y :: u8) > of_nat (R - 1) \<longleftrightarrow> R \<le> y" using small_u8(2) [of "R - 1" y] xy d by auto
  show "tty_rel V seg po C R page m0 (tty_scroll C R (x, y, cells)) (teletype_scroll V (cp, st))"
  proof (cases "R \<le> y")
    case False
    then show ?thesis using r below by (simp add: tty_scroll_def teletype_scroll_def Let_def rc cp cur_def)
  next
    case True
    then have y: "y = R" using xy by simp
    define st1 where "st1 = on_mem (block_copy (text_at seg po 0) (text_at seg po (2 * C)) (2 * C * (R - 1))) st"
    define st2 where "st2 = on_mem (mem_write (text_at seg po (2 * (C * (R - 1)))) (concat (replicate C [0x20, 0x07]))) st1"
    have lowc: "low_same (v_mem st1) ?m" unfolding st1_def using block_copy_low [OF sz] by simp
    have md2: "text_mode V seg po C R (v_mem st1)" using md1 by (simp add: text_mode_low [OF lowc])
    have pg2: "page = bda8 off_video_page (v_mem st1)" using bda_low(1) [OF lowc, of off_video_page] pg by (simp add: off_video_page_def)
    note sc = cells_scroll [OF sz, of "v_mem st2" "0x20" "0x07" ?m, unfolded st2_def st1_def v_mem_on_mem, OF refl]
    have low2: "low_same (v_mem st2) m0" using sc(2) low unfolding low_same_def st2_def st1_def by simp
    have cl2: "cells_at seg po (C * R) (v_mem st2) = drop C cells @ replicate C (0x20, 0x07)"
      using sc(1) unfolding st2_def st1_def cells by simp
    have "vgafb_scroll V (cur 0 0 page) \<lparr>cp_x = of_nat C, cp_y = of_nat (R - 1) + 1, cp_page = 0\<rparr> 1 \<lparr>ca_car = 0x20, ca_attr = 0, ca_use = False\<rparr> st = st2"
      using text_move_up [OF sz md1 pg] text_clear_last [OF sz md2 pg2] by (simp add: vgafb_scroll_def cur_def st2_def st1_def del: of_nat_diff)
    moreover have "(of_nat R :: u8) - 1 = of_nat (R - 1)" using d by (cases R) simp_all
    ultimately have "teletype_scroll V (cp, st) = (cur x (R - 1) page, st2)"
      using True below y by (simp add: teletype_scroll_def Let_def rc cp cur_def cur_up [OF d(1-4)] del: of_nat_diff)
    then show ?thesis using True y xy low2 cl2 by (simp add: tty_rel_def tty_scroll_def)
  qed
qed

lemma teletype_rel:
  assumes "text_size seg po C R" "text_mode V seg po C R m0" "page = bda8 off_video_page m0"
    and r: "tty_rel V seg po C R page m0 (x, y, cells) (cp, st)" "y < R" and nu: "\<not> ca_use ca"
  shows "tty_rel V seg po C R page m0 (tty_put C R (ca_car ca) (x, y, cells)) (write_teletype V ca (cp, st))"
    and "fst (snd (tty_put C R (ca_car ca) (x, y, cells))) < R"
proof -
  note d = text_sizeD [OF assms(1)]
  define t where "t = (if ca_car ca = 7 then (x, y, cells) else if ca_car ca = 8 then (x - 1, y, cells)
    else if ca_car ca = 13 then (0, y, cells) else if ca_car ca = 10 then (x, y + 1, cells) else tty_char C (ca_car ca) (x, y, cells))"
  define p where "p = (if ca_car ca = 7 then (cp, st) else if ca_car ca = 8 then (if cp_x cp > 0 then cp\<lparr>cp_x := cp_x cp - 1\<rparr> else cp, st)
    else if ca_car ca = 13 then (cp\<lparr>cp_x := 0\<rparr>, st) else if ca_car ca = 10 then (cp\<lparr>cp_y := cp_y cp + 1\<rparr>, st) else write_char V ca (cp, st))"
  have x: "x < C" "cp = cur x y page" using r by (simp_all add: tty_rel_def)
  have gt: "(of_nat x :: u8) > 0 \<longleftrightarrow> x \<noteq> 0" using small_u8(2) [of 0 x] x d by simp
  have pred: "x \<noteq> 0 \<Longrightarrow> (of_nat x :: u8) - 1 = of_nat (x - 1)" by (cases x) simp_all
  have "tty_rel V seg po C R page m0 t p"
    using r x gt pred tty_rel_char [OF assms(1-3) r nu] by (auto simp: t_def p_def tty_rel_def cur_def)
  moreover have "tty_put C R (ca_car ca) (x, y, cells) = tty_scroll C R t" "write_teletype V ca (cp, st) = teletype_scroll V p"
    unfolding tty_put_def write_teletype_def t_def p_def by simp_all
  ultimately show "tty_rel V seg po C R page m0 (tty_put C R (ca_car ca) (x, y, cells)) (write_teletype V ca (cp, st))"
    and "fst (snd (tty_put C R (ca_car ca) (x, y, cells))) < R"
    using tty_rel_scroll [OF assms(1-3), of "fst t" "fst (snd t)" "snd (snd t)" "fst p" "snd p"] by simp_all
qed

section \<open>The interrupt\<close>

text \<open>The screen and the cursor of the shown page as the callers of the interrupt see them.\<close>

definition shows_tty :: "'h vgahw \<Rightarrow> u16 \<Rightarrow> nat \<Rightarrow> nat \<Rightarrow> nat \<Rightarrow> tty \<Rightarrow> mem \<Rightarrow> bool" where
  "shows_tty V seg po C R = (\<lambda>(x, y, cells) m.
     text_mode V seg po C R m \<and> x < C \<and> y < R \<and> cells = cells_at seg po (C * R) m \<and>
     get_cursor_pos (bda8 off_video_page m) m = cur x y (bda8 off_video_page m))"

lemma page_cases:
  assumes "(page :: u8) \<le> 7"
  shows "page = 0 \<or> page = 1 \<or> page = 2 \<or> page = 3 \<or> page = 4 \<or> page = 5 \<or> page = 6 \<or> page = 7"
proof -
  have "unat page \<le> 7" using assms by (simp add: word_le_nat_alt)
  then have "unat page = 0 \<or> unat page = 1 \<or> unat page = 2 \<or> unat page = 3 \<or> unat page = 4 \<or> unat page = 5 \<or> unat page = 6 \<or> unat page = 7"
    by arith
  then show ?thesis by (auto simp: word_unat_eq_iff)
qed

lemma slot_frame:
  assumes "page \<le> 7"
  shows "apart_at (bda_at (cursor_slot page)) 2 (bda_at off_video_cols) 2" "apart_at (bda_at (cursor_slot page)) 2 (bda_at off_video_rows) 1"
    "apart_at (bda_at (cursor_slot page)) 2 (bda_at off_video_pagesize) 2" "apart_at (bda_at (cursor_slot page)) 2 (bda_at off_video_page) 1"
    "apart_at (bda_at (cursor_slot page)) 2 (bda_at off_vgamode_offset) 2"
    and "unat (bda_at (cursor_slot page)) < 0x500"
  using page_cases [OF assms]
  by (auto simp: apart_at_def cursor_slot_def vga_offsets MAKE_FLATPTR_def SEG_BDA_def)

lemma slot_update:
  assumes pg: "page \<le> 7" and sz: "text_size seg po C R" and m1: "m1 = set_bda16 (cursor_slot page) v m"
  shows "text_mode V seg po C R m1 = text_mode V seg po C R m" "bda8 off_video_page m1 = bda8 off_video_page m"
    "bda16 (cursor_slot page) m1 = v" "cells_at seg po (C * R) m1 = cells_at seg po (C * R) m"
proof -
  note fr = slot_frame [OF pg]
  show "text_mode V seg po C R m1 = text_mode V seg po C R m" "bda8 off_video_page m1 = bda8 off_video_page m"
    "bda16 (cursor_slot page) m1 = v"
    unfolding m1 by (simp_all add: text_mode_def get_current_mode_def fr set_other_byte [OF fr(2)] set_other_byte [OF fr(4)])
  have "m1 (text_at seg po j) = m (text_at seg po j)" if "j < 2 * (C * R)" for j
  proof -
    have "unat (text_at seg po j - bda_at (cursor_slot page)) = unat (text_at seg po j) - unat (bda_at (cursor_slot page))"
      using fr(6) unat_text_at(2) [OF sz that] by (simp add: unat_sub word_le_nat_alt)
    then show ?thesis unfolding m1 using fr(6) unat_text_at(2) [OF sz that] by (intro set_mem_far) simp_all
  qed
  then show "cells_at seg po (C * R) m1 = cells_at seg po (C * R) m" by (auto simp: cells_at_def)
qed

lemma cursor_word:
  assumes "x < 256" "y < 256"
  defines "w \<equiv> push_bit 8 (ucast (of_nat y :: u8)) OR ucast (of_nat x :: u8) :: u16"
  shows "ucast w = (of_nat x :: u8)" "ucast (drop_bit 8 w) = (of_nat y :: u8)"
  unfolding w_def by (auto simp: bit_eq_iff bit_simps)

lemma teletype_call:
  assumes sz: "text_size seg po C R" and r: "shows_tty V seg po C R t (v_mem st)" and c: "handle_100e V (regs, st) = (regs1, st1)"
  shows "shows_tty V seg po C R (tty_put C R (al regs) t) (v_mem st1)"
proof -
  note d = text_sizeD [OF sz]
  obtain x y cells where t: "t = (x, y, cells)" by (cases t)
  obtain x1 y1 cells1 where put: "tty_put C R (al regs) (x, y, cells) = (x1, y1, cells1)" by (metis prod_cases3)
  let ?page = "bda8 off_video_page (v_mem st)"
  let ?ca = "\<lparr>ca_car = al regs, ca_attr = bl regs, ca_use = False\<rparr>"
  have md: "text_mode V seg po C R (v_mem st)" and xy: "x < C" "y < R"
    and gp: "get_cursor_pos ?page (v_mem st) = cur x y ?page" and cells: "cells = cells_at seg po (C * R) (v_mem st)"
    using r by (simp_all add: shows_tty_def t)
  have pg: "?page \<le> 7" using md by (simp add: text_mode_def)
  have "tty_rel V seg po C R ?page (v_mem st) (x, y, cells) (cur x y ?page, st)" using xy cells by (simp add: tty_rel_def)
  note rel = teletype_rel [OF sz md refl this xy(2), of ?ca]
  obtain cp st2 where wt: "write_teletype V ?ca (cur x y ?page, st) = (cp, st2)" by (cases "write_teletype V ?ca (cur x y ?page, st)")
  have st1: "st1 = set_cursor_pos V cp st2" using c wt by (simp add: handle_100e_def gp)
  have res: "cp = cur x1 y1 ?page" "x1 < C" "y1 < R" "cells1 = cells_at seg po (C * R) (v_mem st2)" "low_same (v_mem st2) (v_mem st)"
    using rel by (simp_all add: put wt tty_rel_def)
  let ?w = "push_bit 8 (ucast (of_nat y1 :: u8)) OR ucast (of_nat x1 :: u8) :: u16"
  have m1: "v_mem st1 = set_bda16 (cursor_slot ?page) ?w (v_mem st2)"
    using pg by (auto simp: st1 set_cursor_pos_def res(1) cur_def Let_def on_hw_def not_less)
  note up = slot_update [OF pg sz m1]
  have pg2: "bda8 off_video_page (v_mem st1) = ?page"
    unfolding up(2) by (rule bda_low(1) [OF res(5)]) (simp add: off_video_page_def)
  have "get_cursor_pos ?page (v_mem st1) = cur x1 y1 ?page"
    using pg cursor_word [of x1 y1] res d up(3) by (auto simp: get_cursor_pos_def not_less cur_def)
  moreover have "text_mode V seg po C R (v_mem st1)" using md by (simp add: up(1) text_mode_low [OF res(5)])
  ultimately show ?thesis using res by (simp add: shows_tty_def put t pg2 up(4))
qed

text \<open>A program's calls, one after the other; no result when one has none.\<close>

fun int10_calls :: "'h vgahw \<Rightarrow> bregs list \<Rightarrow> 'h vga_state \<Rightarrow> 'h vga_state option" where
  "int10_calls V [] st = Some st"
| "int10_calls V (r # rs) st = (case handle_10 V (r, st) of None \<Rightarrow> None | Some (_, st1) \<Rightarrow> int10_calls V rs st1)"

text \<open>C40.
  A program that writes text with function 0x0e of interrupt 0x10 in a text mode of at most 255 columns and rows sees what a
  terminal shows: each character is in the cell under the cursor with the attribute that the cell had, the cursor
  goes on to the next column or line, 8, 10 and 13 move it back, down and to the first column, 7 does nothing, and at the bottom all lines move up
  by one and the last is blank.
\<close>

theorem teletype_shows:
  assumes "text_size seg po C R" "shows_tty V seg po C R t (v_mem st)" "\<not> vh_emulate_text V" "\<forall>r \<in> set rs. ah r = 0x0e"
  shows "\<exists>st1. int10_calls V rs st = Some st1 \<and> shows_tty V seg po C R (fold (tty_put C R) (map al rs) t) (v_mem st1)"
  using assms(2,4)
proof (induction rs arbitrary: t st)
  case (Cons r rs)
  obtain regs1 st1 where c: "handle_100e V (r, st) = (regs1, st1)" by (cases "handle_100e V (r, st)")
  have "handle_10 V (r, st) = Some (regs1, st1)"
    using Cons.prems(2) assms(3) c by (simp add: handle_10_def swcursor_pre_handle10_def vga_emulate_text_def)
  moreover note teletype_call [OF assms(1) Cons.prems(1) c]
  ultimately show ?case using Cons.IH Cons.prems(2) by simp
qed simp

text \<open>A card with one text mode of three columns and two rows, and the calls for a line of text, a new line and a letter.\<close>

definition text_card :: "unit vgahw" where
  "text_card = \<lparr>
     vh_ops = \<lparr>vp_in = (\<lambda>_ h. (0, h)), vp_out = (\<lambda>_ _ h. h), vp_outw = (\<lambda>_ _ h. h), vp_read = (\<lambda>_ h. (0, h)), vp_write = (\<lambda>_ _ h. h)\<rparr>,
     vh_mode = (\<lambda>_. \<lparr>vm_memmodel = MM_TEXT, vm_width = 3, vm_height = 2, vm_depth = 4, vm_cwidth = 8, vm_cheight = 16, vm_sstart = SEG_CTEXT\<rparr>),
     vh_find_mode = (\<lambda>_. 1), vh_set_mode = (\<lambda>_ _ st. (0, st)), vh_get_linelength = (\<lambda>_ h. (0, h)), vh_get_displaystart = (\<lambda>_ h. (0, h)),
     vh_set_displaystart = (\<lambda>_ _ h. (0, h)), vh_save_restore = (\<lambda>_ _ _ st. (0, st)), vh_vbe = Pair, vh_emulate_text = False,
     VBE_framebuffer = 0, vh_stack_buffer = 0, vh_global_seg = 0xc000, vgafont8 = 0, vgafont14 = 0, vgafont16 = 0, vgafont14alt = 0, vgafont16alt = 0,
     static_functionality = 0\<rparr>"

definition text_card_state :: "unit vga_state" where
  "text_card_state = \<lparr>v_mem = (\<lambda>_. 0)(0x44a := 3, 0x484 := 1, 0x4bc := 1), v_hw = ()\<rparr>"

definition text_calls :: "bregs list" where
  "text_calls = map (\<lambda>c. set_al c (set_ah 0x0e bregs_zero)) [0x61, 0x62, 0x63, 0x64, 13, 10, 0x65]"

lemma text_card_size: "text_size SEG_CTEXT 0 3 2"
  by (simp add: text_size_def SEG_CTEXT_def)

lemma text_card_shows: "shows_tty text_card SEG_CTEXT 0 3 2 (0, 0, replicate 6 (0, 0)) (v_mem text_card_state)"
  by code_simp

lemma text_calls_put:
  "fold (tty_put 3 2) (map al text_calls) (0, 0, replicate 6 (0, 0)) = (1, 1, [(0x64, 0), (0, 0), (0, 0), (0x65, 7), (0x20, 7), (0x20, 7)])"
  by code_simp

theorem teletype_shows_witness:
  "\<exists>st1. int10_calls text_card text_calls text_card_state = Some st1 \<and>
     shows_tty text_card SEG_CTEXT 0 3 2 (1, 1, [(0x64, 0), (0, 0), (0, 0), (0x65, 7), (0x20, 7), (0x20, 7)]) (v_mem st1)"
proof -
  have "\<not> vh_emulate_text text_card" "\<forall>r \<in> set text_calls. ah r = 0x0e" by code_simp+
  from teletype_shows [OF text_card_size text_card_shows this] show ?thesis unfolding text_calls_put .
qed

end
