(* ===== verification/Usb.thy ===== *)
theory Usb
  imports SB_Prelude "HOL-Library.Monad_Syntax" X86
begin

text \<open>
  The part of the USB code above the host controllers (\<open>src/hw/usb.c\<close>) and hubs (\<open>src/hw/usb-hub.c\<close>): pipes,
  descriptors, addresses, the set-up of a device, and the enumeration of the ports of a hub.

  The drivers of the four kinds of controllers are parameters (\<open>usb_env\<close>), with the state \<open>'h\<close> of everything behind
  them. The threads of an enumeration run one after the other, as they do when no thread can be started
  (\<open>run_thread\<close> of \<open>stacks.c\<close>), and the mutexes have no counterpart. A result \<open>None\<close> stands for a loop that
  does not end.
\<close>

section \<open>Constants of \<open>usb.h\<close>\<close>

definition USB_TYPE_UHCI :: u8 where "USB_TYPE_UHCI = 1"
definition USB_TYPE_OHCI :: u8 where "USB_TYPE_OHCI = 2"
definition USB_TYPE_EHCI :: u8 where "USB_TYPE_EHCI = 3"
definition USB_TYPE_XHCI :: u8 where "USB_TYPE_XHCI = 4"

definition USB_FULLSPEED :: u8 where "USB_FULLSPEED = 0"
definition USB_LOWSPEED :: u8 where "USB_LOWSPEED = 1"
definition USB_HIGHSPEED :: u8 where "USB_HIGHSPEED = 2"
definition USB_SUPERSPEED :: u8 where "USB_SUPERSPEED = 3"
definition USB_MAXADDR :: u8 where "USB_MAXADDR = 127"

definition USB_TIME_DRST :: u32 where "USB_TIME_DRST = 10"
definition USB_TIME_RSTRCY :: u32 where "USB_TIME_RSTRCY = 10"
definition USB_TIME_STATUS :: int where "USB_TIME_STATUS = 50"
definition USB_TIME_COMMAND :: int where "USB_TIME_COMMAND = 5000"
definition USB_TIME_SETADDR_RECOVERY :: u32 where "USB_TIME_SETADDR_RECOVERY = 2"

definition USB_DIR_OUT :: u8 where "USB_DIR_OUT = 0"
definition USB_DIR_IN :: u8 where "USB_DIR_IN = 0x80"
definition USB_TYPE_STANDARD :: u8 where "USB_TYPE_STANDARD = 0"
definition USB_TYPE_CLASS :: u8 where "USB_TYPE_CLASS = 0x20"
definition USB_RECIP_DEVICE :: u8 where "USB_RECIP_DEVICE = 0"
definition USB_RECIP_INTERFACE :: u8 where "USB_RECIP_INTERFACE = 1"
definition USB_RECIP_OTHER :: u8 where "USB_RECIP_OTHER = 3"

definition USB_REQ_GET_STATUS :: u8 where "USB_REQ_GET_STATUS = 0x00"
definition USB_REQ_CLEAR_FEATURE :: u8 where "USB_REQ_CLEAR_FEATURE = 0x01"
definition USB_REQ_SET_FEATURE :: u8 where "USB_REQ_SET_FEATURE = 0x03"
definition USB_REQ_SET_ADDRESS :: u8 where "USB_REQ_SET_ADDRESS = 0x05"
definition USB_REQ_GET_DESCRIPTOR :: u8 where "USB_REQ_GET_DESCRIPTOR = 0x06"
definition USB_REQ_SET_CONFIGURATION :: u8 where "USB_REQ_SET_CONFIGURATION = 0x09"

definition USB_DT_DEVICE :: u16 where "USB_DT_DEVICE = 0x01"
definition USB_DT_CONFIG :: u16 where "USB_DT_CONFIG = 0x02"
definition USB_DT_INTERFACE :: u8 where "USB_DT_INTERFACE = 0x04"
definition USB_DT_ENDPOINT :: u8 where "USB_DT_ENDPOINT = 0x05"
definition USB_DT_ENDPOINT_COMPANION :: u8 where "USB_DT_ENDPOINT_COMPANION = 0x30"

definition USB_CLASS_HID :: u8 where "USB_CLASS_HID = 3"
definition USB_CLASS_MASS_STORAGE :: u8 where "USB_CLASS_MASS_STORAGE = 8"
definition USB_CLASS_HUB :: u8 where "USB_CLASS_HUB = 9"
definition US_PR_BULK :: u8 where "US_PR_BULK = 0x50"
definition US_PR_UAS :: u8 where "US_PR_UAS = 0x62"

definition USB_ENDPOINT_NUMBER_MASK :: u8 where "USB_ENDPOINT_NUMBER_MASK = 0x0f"
definition USB_ENDPOINT_DIR_MASK :: u8 where "USB_ENDPOINT_DIR_MASK = 0x80"
definition USB_ENDPOINT_XFERTYPE_MASK :: u8 where "USB_ENDPOINT_XFERTYPE_MASK = 0x03"
definition USB_ENDPOINT_XFER_CONTROL :: u8 where "USB_ENDPOINT_XFER_CONTROL = 0"
definition USB_ENDPOINT_XFER_BULK :: u8 where "USB_ENDPOINT_XFER_BULK = 2"
definition USB_ENDPOINT_XFER_INT :: u8 where "USB_ENDPOINT_XFER_INT = 3"

section \<open>Pipes, descriptors and devices\<close>

text \<open>A pipe is named by \<open>up_handle\<close>, its address.\<close>

record usb_pipe =
  up_handle :: u32
  up_type :: u8
  up_ep :: u8
  up_devaddr :: u8
  up_speed :: u8
  up_maxpacket :: u16
  up_eptype :: u8

record usb_ctrlrequest =
  bRequestType :: u8
  bRequest :: u8
  wValue :: u16
  wIndex :: u16
  wLength :: u16

record usb_endpoint_descriptor =
  bEndpointAddress :: u8
  ep_bmAttributes :: u8
  wMaxPacketSize :: u16
  bInterval :: u8

text \<open>The configuration of a device is memory that starts at its \<open>config\<close> pointer; positions in it are offsets.\<close>

type_synonym desc_mem = "nat \<Rightarrow> u8"

definition desc16 :: "desc_mem \<Rightarrow> nat \<Rightarrow> u16" where
  "desc16 c p = ucast (c p) OR push_bit 8 (ucast (c (p + 1)))"

definition endpoint_at :: "desc_mem \<Rightarrow> nat \<Rightarrow> usb_endpoint_descriptor" where
  "endpoint_at c p = \<lparr>bEndpointAddress = c (p + 2), ep_bmAttributes = c (p + 3), wMaxPacketSize = desc16 c (p + 4), bInterval = c (p + 6)\<rparr>"

definition sizeof_config :: nat where "sizeof_config = 9"
definition sizeof_interface :: nat where "sizeof_interface = 9"
definition wTotalLength :: "desc_mem \<Rightarrow> u16" where "wTotalLength c = desc16 c 2"
definition bConfigurationValue :: "desc_mem \<Rightarrow> u8" where "bConfigurationValue c = c 5"
definition bInterfaceClass :: "desc_mem \<Rightarrow> nat \<Rightarrow> u8" where "bInterfaceClass c i = c (i + 5)"
definition bInterfaceSubClass :: "desc_mem \<Rightarrow> nat \<Rightarrow> u8" where "bInterfaceSubClass c i = c (i + 6)"
definition bInterfaceProtocol :: "desc_mem \<Rightarrow> nat \<Rightarrow> u8" where "bInterfaceProtocol c i = c (i + 7)"

text \<open>A device: the type of its controller, the speeds and ports of the hubs above it from the root on, and what
  \<open>usbdevice_s\<close> holds.\<close>

record usbdevice_s =
  ud_cntl_type :: u8
  ud_parents :: "u32 list"
  ud_defpipe :: "usb_pipe option"
  ud_port :: u32
  ud_config :: desc_mem
  ud_iface :: nat
  ud_imax :: int
  ud_speed :: u8
  ud_devaddr :: u8

record 'h usb_env =
  hc_realloc_pipe :: "u8 \<Rightarrow> usbdevice_s \<Rightarrow> usb_pipe option \<Rightarrow> usb_endpoint_descriptor option \<Rightarrow> 'h \<Rightarrow> usb_pipe option \<times> 'h"
  hc_send_pipe :: "u8 \<Rightarrow> usb_pipe \<Rightarrow> u8 \<Rightarrow> usb_ctrlrequest option \<Rightarrow> u8 list \<Rightarrow> nat \<Rightarrow> 'h \<Rightarrow> int \<times> u8 list \<times> 'h"
  hc_poll_intr :: "u8 \<Rightarrow> usb_pipe \<Rightarrow> 'h \<Rightarrow> (u8 list option) \<times> 'h"
  ue_malloc :: "u32 \<Rightarrow> 'h \<Rightarrow> bool \<times> 'h"
  ue_heap :: "'h \<Rightarrow> desc_mem"
  ue_msleep :: "u32 \<Rightarrow> 'h \<Rightarrow> 'h"
  ue_timer_calc :: "u32 \<Rightarrow> 'h \<Rightarrow> u32 \<times> 'h"
  ue_timer_check :: "u32 \<Rightarrow> 'h \<Rightarrow> bool \<times> 'h"

text \<open>\<open>us_maxaddr\<close> is the field of the controller that is being enumerated.\<close>

record 'h usb_state =
  us_maxaddr :: u8
  us_hw :: 'h

section \<open>Controller function wrappers\<close>

definition controller_kind :: "u8 \<Rightarrow> u8" where
  "controller_kind t =
     (if t = USB_TYPE_OHCI then USB_TYPE_OHCI else if t = USB_TYPE_EHCI then USB_TYPE_EHCI
      else if t = USB_TYPE_XHCI then USB_TYPE_XHCI else USB_TYPE_UHCI)"

definition usb_realloc_pipe ::
    "'h usb_env \<Rightarrow> usbdevice_s \<Rightarrow> usb_pipe option \<Rightarrow> usb_endpoint_descriptor option \<Rightarrow> 'h \<Rightarrow> usb_pipe option \<times> 'h" where
  "usb_realloc_pipe env usbdev pipe epdesc h = hc_realloc_pipe env (controller_kind (ud_cntl_type usbdev)) usbdev pipe epdesc h"

text \<open>\<open>modeseg\<close> says that the code runs in a 16-bit segment. A transfer in returns the bytes received.\<close>

definition usb_send_pipe ::
    "'h usb_env \<Rightarrow> bool \<Rightarrow> usb_pipe \<Rightarrow> u8 \<Rightarrow> usb_ctrlrequest option \<Rightarrow> u8 list \<Rightarrow> nat \<Rightarrow> 'h \<Rightarrow> int \<times> u8 list \<times> 'h" where
  "usb_send_pipe env modeseg pipe dir cmd data datasize h =
     (let k = controller_kind (up_type pipe)
      in if (k = USB_TYPE_OHCI \<or> k = USB_TYPE_XHCI) \<and> modeseg then (-1, [], h)
         else hc_send_pipe env k pipe dir cmd data datasize h)"

definition usb_poll_intr :: "'h usb_env \<Rightarrow> usb_pipe \<Rightarrow> 'h \<Rightarrow> (u8 list option) \<times> 'h" where
  "usb_poll_intr env pipe h = hc_poll_intr env (controller_kind (up_type pipe)) pipe h"

definition usb_32bit_pipe :: "usb_pipe \<Rightarrow> bool" where
  "usb_32bit_pipe pipe \<longleftrightarrow> up_type pipe = USB_TYPE_XHCI \<or> up_type pipe = USB_TYPE_OHCI"

section \<open>Helper functions\<close>

definition usb_alloc_pipe ::
    "'h usb_env \<Rightarrow> usbdevice_s \<Rightarrow> usb_endpoint_descriptor option \<Rightarrow> 'h \<Rightarrow> usb_pipe option \<times> 'h" where
  "usb_alloc_pipe env usbdev epdesc h = usb_realloc_pipe env usbdev None epdesc h"

definition usb_free_pipe :: "'h usb_env \<Rightarrow> usbdevice_s \<Rightarrow> usb_pipe option \<Rightarrow> 'h \<Rightarrow> 'h" where
  "usb_free_pipe env usbdev pipe h = (case pipe of None \<Rightarrow> h | Some p \<Rightarrow> snd (usb_realloc_pipe env usbdev (Some p) None h))"

definition usb_send_default_control ::
    "'h usb_env \<Rightarrow> bool \<Rightarrow> usb_pipe \<Rightarrow> usb_ctrlrequest \<Rightarrow> u8 list \<Rightarrow> 'h \<Rightarrow> int \<times> u8 list \<times> 'h" where
  "usb_send_default_control env modeseg pipe req data h =
     usb_send_pipe env modeseg pipe (bRequestType req AND USB_DIR_IN) (Some req) data (unat (wLength req)) h"

definition usb_send_bulk :: "'h usb_env \<Rightarrow> bool \<Rightarrow> usb_pipe \<Rightarrow> u8 \<Rightarrow> u8 list \<Rightarrow> nat \<Rightarrow> 'h \<Rightarrow> int \<times> u8 list \<times> 'h" where
  "usb_send_bulk env modeseg pipe dir data datasize h = usb_send_pipe env modeseg pipe dir None data datasize h"

text \<open>The free pipes of a controller, linked through \<open>freenext\<close>.\<close>

definition usb_add_freelist :: "usb_pipe option \<Rightarrow> usb_pipe list \<Rightarrow> usb_pipe list" where
  "usb_add_freelist pipe freelist = (case pipe of None \<Rightarrow> freelist | Some p \<Rightarrow> p # freelist)"

fun usb_get_freelist :: "u8 \<Rightarrow> usb_pipe list \<Rightarrow> usb_pipe option \<times> usb_pipe list" where
  "usb_get_freelist eptype [] = (None, [])"
| "usb_get_freelist eptype (p # ps) =
     (if up_eptype p = eptype then (Some p, ps)
      else let (r, qs) = usb_get_freelist eptype ps in (r, p # qs))"

definition usb_desc2pipe :: "usbdevice_s \<Rightarrow> usb_endpoint_descriptor \<Rightarrow> usb_pipe \<Rightarrow> usb_pipe" where
  "usb_desc2pipe usbdev epdesc pipe =
     pipe\<lparr>up_type := ud_cntl_type usbdev, up_ep := bEndpointAddress epdesc AND USB_ENDPOINT_NUMBER_MASK,
          up_devaddr := ud_devaddr usbdev, up_speed := ud_speed usbdev, up_maxpacket := wMaxPacketSize epdesc,
          up_eptype := ep_bmAttributes epdesc AND USB_ENDPOINT_XFERTYPE_MASK\<rparr>"

definition usb_get_period :: "usbdevice_s \<Rightarrow> usb_endpoint_descriptor \<Rightarrow> int" where
  "usb_get_period usbdev epdesc =
     (let period = uint (bInterval epdesc)
      in if ud_speed usbdev \<noteq> USB_HIGHSPEED then (if period \<le> 0 then 0 else int (fls32 (ucast (bInterval epdesc))))
         else if period \<le> 4 then 0 else period - 4)"

definition usb_xfer_time :: "usb_pipe \<Rightarrow> int" where
  "usb_xfer_time pipe = (if up_devaddr pipe = 0 then USB_TIME_STATUS + 100 else USB_TIME_COMMAND + 100)"

text \<open>The search for an endpoint. It does not end at a descriptor of length zero.\<close>

partial_function (option) find_desc_loop :: "usbdevice_s \<Rightarrow> u8 \<Rightarrow> u8 \<Rightarrow> nat \<Rightarrow> nat option option" where
  "find_desc_loop usbdev ty dir p =
     (let c = ud_config usbdev
      in if int p \<ge> int (ud_iface usbdev) + ud_imax usbdev \<or> c (p + 1) = USB_DT_INTERFACE then Some None
         else if c (p + 1) = USB_DT_ENDPOINT \<and> bEndpointAddress (endpoint_at c p) AND USB_ENDPOINT_DIR_MASK = dir \<and>
           ep_bmAttributes (endpoint_at c p) AND USB_ENDPOINT_XFERTYPE_MASK = ty then Some (Some p)
         else find_desc_loop usbdev ty dir (p + unat (c p)))"

definition usb_find_desc :: "usbdevice_s \<Rightarrow> u8 \<Rightarrow> u8 \<Rightarrow> usb_endpoint_descriptor option option" where
  "usb_find_desc usbdev ty dir =
     map_option (map_option (endpoint_at (ud_config usbdev)))
       (find_desc_loop usbdev ty dir (ud_iface usbdev + sizeof_interface))"

section \<open>Requests to a device\<close>

definition device_request :: "u8 \<Rightarrow> u8 \<Rightarrow> u16 \<Rightarrow> u16 \<Rightarrow> u16 \<Rightarrow> usb_ctrlrequest" where
  "device_request ty rq v i len = \<lparr>bRequestType = ty, bRequest = rq, wValue = v, wIndex = i, wLength = len\<rparr>"

definition get_device_info8 :: "'h usb_env \<Rightarrow> usb_pipe \<Rightarrow> 'h \<Rightarrow> int \<times> u8 list \<times> 'h" where
  "get_device_info8 env pipe h =
     usb_send_default_control env False pipe
       (device_request (USB_DIR_IN OR USB_TYPE_STANDARD OR USB_RECIP_DEVICE) USB_REQ_GET_DESCRIPTOR (push_bit 8 USB_DT_DEVICE) 0 8) [] h"

text \<open>Memory that has received \<open>bs\<close> at its start.\<close>

definition received :: "u8 list \<Rightarrow> desc_mem \<Rightarrow> desc_mem" where
  "received bs m = (\<lambda>i. if i < length bs then bs ! i else m i)"

definition get_device_config :: "'h usb_env \<Rightarrow> usb_pipe \<Rightarrow> 'h \<Rightarrow> desc_mem option \<times> 'h" where
  "get_device_config env pipe h =
     (let ty = USB_DIR_IN OR USB_TYPE_STANDARD OR USB_RECIP_DEVICE;
          req = device_request ty USB_REQ_GET_DESCRIPTOR (push_bit 8 USB_DT_CONFIG) 0 (of_nat sizeof_config);
          (ret, bs, h1) = usb_send_default_control env False pipe req [] h
      in if ret \<noteq> 0 then (None, h1)
         else
           let len = wTotalLength (received bs (ue_heap env h1));
               (ok, h2) = ue_malloc env (ucast len) h1
           in if \<not> ok then (None, h2)
              else
                let (ret, bs, h3) = usb_send_default_control env False pipe (req\<lparr>wLength := len\<rparr>) [] h2
                in if ret \<noteq> 0 then (None, h3) else (Some (received bs (ue_heap env h3)), h3))"

definition set_configuration :: "'h usb_env \<Rightarrow> usb_pipe \<Rightarrow> u16 \<Rightarrow> 'h \<Rightarrow> int \<times> 'h" where
  "set_configuration env pipe val h =
     (let (ret, _, h1) = usb_send_default_control env False pipe
            (device_request (USB_DIR_OUT OR USB_TYPE_STANDARD OR USB_RECIP_DEVICE) USB_REQ_SET_CONFIGURATION val 0 0) [] h
      in (ret, h1))"

section \<open>Initialization and enumeration\<close>

definition speed_to_ctlsize :: "u8 \<Rightarrow> u16" where
  "speed_to_ctlsize s = (if s = USB_SUPERSPEED then 512 else if s = USB_HIGHSPEED then 64 else 8)"

definition control_endpoint :: "u16 \<Rightarrow> usb_endpoint_descriptor" where
  "control_endpoint maxpacket =
     \<lparr>bEndpointAddress = 0, ep_bmAttributes = USB_ENDPOINT_XFER_CONTROL, wMaxPacketSize = maxpacket, bInterval = 0\<rparr>"

definition usb_set_address :: "'h usb_env \<Rightarrow> usbdevice_s \<Rightarrow> 'h usb_state \<Rightarrow> int \<times> usbdevice_s \<times> 'h usb_state" where
  "usb_set_address env usbdev st =
     (if us_maxaddr st \<ge> USB_MAXADDR then (-1, usbdev, st)
      else
        let epdesc = control_endpoint (speed_to_ctlsize (ud_speed usbdev));
            (p, h) = usb_alloc_pipe env usbdev (Some epdesc) (ue_msleep env USB_TIME_RSTRCY (us_hw st));
            dev1 = usbdev\<lparr>ud_defpipe := p\<rparr>
        in case p of
             None \<Rightarrow> (-1, dev1, st\<lparr>us_hw := h\<rparr>)
           | Some pipe \<Rightarrow>
               let req = device_request (USB_DIR_OUT OR USB_TYPE_STANDARD OR USB_RECIP_DEVICE) USB_REQ_SET_ADDRESS
                           (ucast (us_maxaddr st) + 1) 0 0;
                   (ret, _, h1) = usb_send_default_control env False pipe req [] h
               in if ret \<noteq> 0 then (-1, dev1, st\<lparr>us_hw := usb_free_pipe env dev1 p h1\<rparr>)
                  else
                    let a = us_maxaddr st + 1; dev2 = dev1\<lparr>ud_devaddr := a\<rparr>;
                        (p2, h2) = usb_realloc_pipe env dev2 p (Some epdesc) (ue_msleep env USB_TIME_SETADDR_RECOVERY h1)
                    in (if p2 = None then -1 else 0, dev2\<lparr>ud_defpipe := p2\<rparr>, st\<lparr>us_maxaddr := a, us_hw := h2\<rparr>))"

text \<open>The drivers of devices: a status, which is zero on success, and the state. The hub driver enumerates in turn.\<close>

type_synonym 'h usb_driver = "usbdevice_s \<Rightarrow> 'h usb_state \<Rightarrow> (int \<times> 'h usb_state) option"

record 'h usb_drivers =
  ud_hub_setup :: "'h usb_driver"
  ud_msc_setup :: "'h usb_driver"
  ud_uas_setup :: "'h usb_driver"
  ud_hid_setup :: "'h usb_driver"

text \<open>The end of \<open>configure_usb_device\<close>: the driver for the class of the interface, if \<open>set_configuration\<close> worked.\<close>

definition driver_setup :: "'h usb_drivers \<Rightarrow> usbdevice_s \<Rightarrow> 'h usb_state \<Rightarrow> (int \<times> 'h usb_state) option" where
  "driver_setup drv dev st =
     (let cls = bInterfaceClass (ud_config dev) (ud_iface dev); proto = bInterfaceProtocol (ud_config dev) (ud_iface dev)
      in if cls = USB_CLASS_HUB then ud_hub_setup drv dev st
         else if cls = USB_CLASS_MASS_STORAGE then
           (if proto = US_PR_BULK then ud_msc_setup drv dev st
            else if proto = US_PR_UAS then ud_uas_setup drv dev st
            else Some (0, st))
         else ud_hid_setup drv dev st)"

definition supported_class :: "u8 \<Rightarrow> bool" where
  "supported_class c \<longleftrightarrow> c = USB_CLASS_HID \<or> c = USB_CLASS_MASS_STORAGE \<or> c = USB_CLASS_HUB"

text \<open>Result: the count of devices, the device with its pipe, and the state.\<close>

definition configure_usb_device ::
    "'h usb_env \<Rightarrow> 'h usb_drivers \<Rightarrow> usbdevice_s \<Rightarrow> usb_pipe \<Rightarrow> 'h usb_state \<Rightarrow> (int \<times> usbdevice_s \<times> 'h usb_state) option" where
  "configure_usb_device env drv usbdev pipe st =
     (let (ret, bs, h) = get_device_info8 env pipe (us_hw st);
          dinfo = received bs (ue_heap env h); bcdUSB = desc16 dinfo 2;
          maxpacket = (if bcdUSB \<ge> 0x0300 then push_bit (unat (dinfo 7)) 1 else ucast (dinfo 7)) :: u16
      in if ret \<noteq> 0 \<or> maxpacket < 8 then Some (0, usbdev, st\<lparr>us_hw := h\<rparr>)
         else
           let (p, h1) = usb_realloc_pipe env usbdev (Some pipe) (Some (control_endpoint maxpacket)) h;
               dev1 = usbdev\<lparr>ud_defpipe := p\<rparr>
           in case p of
                None \<Rightarrow> Some (-1, dev1, st\<lparr>us_hw := h1\<rparr>)
              | Some pipe1 \<Rightarrow>
                  (case get_device_config env pipe1 h1 of
                     (None, h2) \<Rightarrow> Some (0, dev1, st\<lparr>us_hw := h2\<rparr>)
                   | (Some config, h2) \<Rightarrow>
                       if \<not> supported_class (bInterfaceClass config sizeof_config) then Some (0, dev1, st\<lparr>us_hw := h2\<rparr>)
                       else
                         let (ret, h3) = set_configuration env pipe1 (ucast (bConfigurationValue config)) h2;
                             dev2 = dev1\<lparr>ud_config := config, ud_iface := sizeof_config,
                                         ud_imax := int (unat (wTotalLength config)) - int sizeof_config\<rparr>
                         in if ret \<noteq> 0 then Some (0, dev1, st\<lparr>us_hw := h3\<rparr>)
                            else do {
                              (ret, st1) \<leftarrow> driver_setup drv dev2 (st\<lparr>us_hw := h3\<rparr>);
                              Some (if ret \<noteq> 0 then 0 else 1, dev2, st1)
                            }))"

end
