(* ===== verification/UsbHub.thy ===== *)
theory UsbHub
  imports Usb
begin

text \<open>
  The enumeration of the ports of a hub (\<open>usb_enumerate\<close> of \<open>src/hw/usb.c\<close>) and the driver for external hubs
  (\<open>src/hw/usb-hub.c\<close>), which enumerates its ports in turn. The operations of a hub are a record of functions, as in the
  code; those of an external hub send requests, those of a root hub belong to the controller and are parameters.
\<close>

section \<open>Constants of \<open>usb-hub.h\<close>\<close>

definition USB_DT_HUB :: u16 where "USB_DT_HUB = 0x29"
definition USB_DT_HUB3 :: u16 where "USB_DT_HUB3 = 0x2a"
definition HUB_REQ_SET_HUB_DEPTH :: u8 where "HUB_REQ_SET_HUB_DEPTH = 0x0c"
definition USB_PORT_FEAT_ENABLE :: u16 where "USB_PORT_FEAT_ENABLE = 1"
definition USB_PORT_FEAT_RESET :: u16 where "USB_PORT_FEAT_RESET = 4"
definition USB_PORT_FEAT_POWER :: u16 where "USB_PORT_FEAT_POWER = 8"
definition USB_PORT_STAT_CONNECTION :: u16 where "USB_PORT_STAT_CONNECTION = 0x0001"
definition USB_PORT_STAT_RESET :: u16 where "USB_PORT_STAT_RESET = 0x0010"
definition USB_PORT_STAT_LINK_MASK :: u16 where "USB_PORT_STAT_LINK_MASK = 0x00e0"
definition USB_PORT_STAT_SPEED_SHIFT :: nat where "USB_PORT_STAT_SPEED_SHIFT = 9"
definition USB_PORT_STAT_SPEED_MASK :: u16 where "USB_PORT_STAT_SPEED_MASK = 0x0600"
definition sizeof_hub_desc :: u16 where "sizeof_hub_desc = 7"
definition sizeof_port_status :: u16 where "sizeof_port_status = 4"

section \<open>Enumeration\<close>

text \<open>The operations of a hub on a port; a reset waits.\<close>

record 'h usbhub_op =
  ho_detect :: "u32 \<Rightarrow> 'h \<Rightarrow> int \<times> 'h"
  ho_reset :: "u32 \<Rightarrow> 'h \<Rightarrow> (int \<times> 'h) option"
  ho_disconnect :: "u32 \<Rightarrow> 'h \<Rightarrow> 'h"

record 'h usbhub_s =
  uh_op :: "'h usbhub_op"
  uh_cntl_type :: u8
  uh_parents :: "u32 list"
  uh_detectend :: u32
  uh_threads :: u32
  uh_portcount :: u32
  uh_devcount :: u32

text \<open>The wait for a device on a port: whether there is one.\<close>

partial_function (option) detect_loop :: "'h usb_env \<Rightarrow> 'h usbhub_s \<Rightarrow> u32 \<Rightarrow> 'h \<Rightarrow> (bool \<times> 'h) option" where
  "detect_loop env hub port h =
     (let (ret, h1) = ho_detect (uh_op hub) port h
      in if ret > 0 then Some (True, h1)
         else if ret < 0 then Some (False, h1)
         else
           let (expired, h2) = ue_timer_check env (uh_detectend hub) h1
           in if expired then Some (False, h2) else detect_loop env hub port (ue_msleep env 5 h2))"

definition port_done :: "'h usbhub_s \<Rightarrow> 'h usb_state \<Rightarrow> 'h usbhub_s \<times> 'h usb_state" where
  "port_done hub st = (hub\<lparr>uh_threads := uh_threads hub - 1\<rparr>, st)"

definition usb_hub_port_setup ::
    "'h usb_env \<Rightarrow> 'h usb_drivers \<Rightarrow> 'h usbhub_s \<Rightarrow> usbdevice_s \<Rightarrow> 'h usb_state \<Rightarrow> ('h usbhub_s \<times> 'h usb_state) option" where
  "usb_hub_port_setup env drv hub usbdev st = do {
     (connected, h) \<leftarrow> detect_loop env hub (ud_port usbdev) (us_hw st);
     (if \<not> connected then Some (port_done hub (st\<lparr>us_hw := h\<rparr>))
      else do {
        (ret, h1) \<leftarrow> ho_reset (uh_op hub) (ud_port usbdev) h;
        if ret < 0 then Some (port_done hub (st\<lparr>us_hw := h1\<rparr>))
        else
          let (err, dev1, st1) = usb_set_address env (usbdev\<lparr>ud_speed := of_int ret\<rparr>) (st\<lparr>us_hw := h1\<rparr>)
          in if err \<noteq> 0 then Some (port_done hub (st1\<lparr>us_hw := ho_disconnect (uh_op hub) (ud_port usbdev) (us_hw st1)\<rparr>))
             else do {
               (count, dev2, st2) \<leftarrow> configure_usb_device env drv dev1 (the (ud_defpipe dev1)) st1;
               let h3 = usb_free_pipe env dev2 (ud_defpipe dev2) (us_hw st2);
               let h4 = (if count = 0 then ho_disconnect (uh_op hub) (ud_port usbdev) h3 else h3);
               Some (port_done (hub\<lparr>uh_devcount := uh_devcount hub + of_int count\<rparr>) (st2\<lparr>us_hw := h4\<rparr>))
             }
      })
   }"

definition new_usbdevice :: "'h usbhub_s \<Rightarrow> u32 \<Rightarrow> usbdevice_s" where
  "new_usbdevice hub port =
     \<lparr>ud_cntl_type = uh_cntl_type hub, ud_parents = uh_parents hub, ud_defpipe = None, ud_port = port,
      ud_config = (\<lambda>_. 0), ud_iface = 0, ud_imax = 0, ud_speed = 0, ud_devaddr = 0\<rparr>"

definition sizeof_usbdevice :: u32 where "sizeof_usbdevice = 28"

text \<open>The loop over the ports. A port without memory for its device is skipped, and its thread stays in the count.\<close>

fun start_ports ::
    "'h usb_env \<Rightarrow> 'h usb_drivers \<Rightarrow> u32 list \<Rightarrow> 'h usbhub_s \<Rightarrow> 'h usb_state \<Rightarrow> ('h usbhub_s \<times> 'h usb_state) option" where
  "start_ports env drv [] hub st = Some (hub, st)"
| "start_ports env drv (i # is) hub st =
     (let (ok, h) = ue_malloc env sizeof_usbdevice (us_hw st); st1 = st\<lparr>us_hw := h\<rparr>
      in if \<not> ok then start_ports env drv is hub st1
         else do {
           (hub2, st2) \<leftarrow> usb_hub_port_setup env drv hub (new_usbdevice hub i) st1;
           start_ports env drv is hub2 st2
         })"

text \<open>At its end the code waits until no thread is left; when all of them have run, a count above zero stays.\<close>

definition usb_enumerate ::
    "u32 \<Rightarrow> 'h usb_env \<Rightarrow> 'h usb_drivers \<Rightarrow> 'h usbhub_s \<Rightarrow> 'h usb_state \<Rightarrow> ('h usbhub_s \<times> 'h usb_state) option" where
  "usb_enumerate usb_time_sigatt env drv hub st =
     (let (dend, h) = ue_timer_calc env usb_time_sigatt (us_hw st);
          hub1 = hub\<lparr>uh_threads := uh_portcount hub, uh_detectend := dend\<rparr>
      in do {
        (hub2, st2) \<leftarrow> start_ports env drv (map of_nat [0..<unat (uh_portcount hub)]) hub1 (st\<lparr>us_hw := h\<rparr>);
        if uh_threads hub2 = 0 then Some (hub2, st2) else None
      })"

section \<open>External hubs\<close>

definition get_hub_desc :: "'h usb_env \<Rightarrow> usb_pipe \<Rightarrow> 'h \<Rightarrow> int \<times> u8 list \<times> 'h" where
  "get_hub_desc env pipe h =
     usb_send_default_control env False pipe
       (device_request (USB_DIR_IN OR USB_TYPE_CLASS OR USB_RECIP_DEVICE) USB_REQ_GET_DESCRIPTOR
          (push_bit 8 (if up_speed pipe = USB_SUPERSPEED then USB_DT_HUB3 else USB_DT_HUB)) 0 sizeof_hub_desc) [] h"

definition set_hub_depth :: "'h usb_env \<Rightarrow> usb_pipe \<Rightarrow> u16 \<Rightarrow> 'h \<Rightarrow> int \<times> 'h" where
  "set_hub_depth env pipe depth h =
     (let (ret, _, h1) = usb_send_default_control env False pipe
            (device_request (USB_DIR_OUT OR USB_TYPE_CLASS OR USB_RECIP_DEVICE) HUB_REQ_SET_HUB_DEPTH depth 0 0) [] h
      in (ret, h1))"

definition set_port_feature :: "'h usb_env \<Rightarrow> usb_pipe \<Rightarrow> u32 \<Rightarrow> u16 \<Rightarrow> 'h \<Rightarrow> int \<times> 'h" where
  "set_port_feature env pipe port feature h =
     (let (ret, _, h1) = usb_send_default_control env False pipe
            (device_request (USB_DIR_OUT OR USB_TYPE_CLASS OR USB_RECIP_OTHER) USB_REQ_SET_FEATURE feature (ucast (port + 1)) 0) [] h
      in (ret, h1))"

definition clear_port_feature :: "'h usb_env \<Rightarrow> usb_pipe \<Rightarrow> u32 \<Rightarrow> u16 \<Rightarrow> 'h \<Rightarrow> int \<times> 'h" where
  "clear_port_feature env pipe port feature h =
     (let (ret, _, h1) = usb_send_default_control env False pipe
            (device_request (USB_DIR_OUT OR USB_TYPE_CLASS OR USB_RECIP_OTHER) USB_REQ_CLEAR_FEATURE feature (ucast (port + 1)) 0) [] h
      in (ret, h1))"

text \<open>The status of a port; what the transfer does not fill is what was on the stack, here the heap.\<close>

definition get_port_status :: "'h usb_env \<Rightarrow> usb_pipe \<Rightarrow> u32 \<Rightarrow> 'h \<Rightarrow> int \<times> u16 \<times> 'h" where
  "get_port_status env pipe port h =
     (let (ret, bs, h1) = usb_send_default_control env False pipe
            (device_request (USB_DIR_IN OR USB_TYPE_CLASS OR USB_RECIP_OTHER) USB_REQ_GET_STATUS 0 (ucast (port + 1)) sizeof_port_status) [] h
      in (ret, desc16 (received bs (ue_heap env h1)) 0, h1))"

definition usb_hub_detect :: "'h usb_env \<Rightarrow> usb_pipe \<Rightarrow> u32 \<Rightarrow> 'h \<Rightarrow> int \<times> 'h" where
  "usb_hub_detect env pipe port h =
     (let (ret, sts, h1) = get_port_status env pipe port h
      in (if ret \<noteq> 0 then -1 else if sts AND USB_PORT_STAT_CONNECTION \<noteq> 0 then 1 else 0, h1))"

definition usb_hub_disconnect :: "'h usb_env \<Rightarrow> usb_pipe \<Rightarrow> u32 \<Rightarrow> 'h \<Rightarrow> 'h" where
  "usb_hub_disconnect env pipe port h = snd (clear_port_feature env pipe port USB_PORT_FEAT_ENABLE h)"

text \<open>The wait until the reset is over: the status of the port then, or \<open>None\<close> on a failure.\<close>

partial_function (option) reset_loop :: "'h usb_env \<Rightarrow> usb_pipe \<Rightarrow> u8 \<Rightarrow> u32 \<Rightarrow> u32 \<Rightarrow> 'h \<Rightarrow> (u16 option \<times> 'h) option" where
  "reset_loop env pipe speed port tend h =
     (let (ret, sts, h1) = get_port_status env pipe port h
      in if ret \<noteq> 0 then Some (None, h1)
         else if sts AND USB_PORT_STAT_RESET = 0 \<and> (speed \<noteq> USB_SUPERSPEED \<or> sts AND USB_PORT_STAT_LINK_MASK = 0) then Some (Some sts, h1)
         else
           let (expired, h2) = ue_timer_check env tend h1
           in if expired then Some (None, h2) else reset_loop env pipe speed port tend (ue_msleep env 5 h2))"

definition usb_hub_reset :: "'h usb_env \<Rightarrow> usb_pipe \<Rightarrow> u8 \<Rightarrow> u32 \<Rightarrow> 'h \<Rightarrow> (int \<times> 'h) option" where
  "usb_hub_reset env pipe speed port h =
     (let (ret, h1) = set_port_feature env pipe port USB_PORT_FEAT_RESET h
      in if ret \<noteq> 0 then Some (-1, usb_hub_disconnect env pipe port h1)
         else
           let (tend, h2) = ue_timer_calc env (USB_TIME_DRST * 2) h1
           in do {
             (r, h3) \<leftarrow> reset_loop env pipe speed port tend h2;
             (case r of
                None \<Rightarrow> Some (-1, usb_hub_disconnect env pipe port h3)
              | Some sts \<Rightarrow>
                  if sts AND USB_PORT_STAT_CONNECTION = 0 then Some (-1, h3)
                  else if speed = USB_SUPERSPEED then Some (int (unat USB_SUPERSPEED), h3)
                  else Some (int (unat (drop_bit USB_PORT_STAT_SPEED_SHIFT (sts AND USB_PORT_STAT_SPEED_MASK))), h3))
           })"

definition HubOp :: "'h usb_env \<Rightarrow> usb_pipe \<Rightarrow> u8 \<Rightarrow> 'h usbhub_op" where
  "HubOp env pipe speed =
     \<lparr>ho_detect = usb_hub_detect env pipe, ho_reset = usb_hub_reset env pipe speed, ho_disconnect = usb_hub_disconnect env pipe\<rparr>"

text \<open>Power for each port, until a request fails.\<close>

fun power_ports :: "'h usb_env \<Rightarrow> usb_pipe \<Rightarrow> u32 list \<Rightarrow> 'h \<Rightarrow> int \<times> 'h" where
  "power_ports env pipe [] h = (0, h)"
| "power_ports env pipe (p # ps) h =
     (let (ret, h1) = set_port_feature env pipe p USB_PORT_FEAT_POWER h
      in if ret \<noteq> 0 then (ret, h1) else power_ports env pipe ps h1)"

definition usb_hub_setup :: "u32 \<Rightarrow> 'h usb_env \<Rightarrow> 'h usb_drivers \<Rightarrow> usb_pipe \<Rightarrow> 'h usb_driver" where
  "usb_hub_setup sigatt env drv pipe usbdev st =
     (let (ret, bs, h) = get_hub_desc env pipe (us_hw st);
          desc = received bs (ue_heap env h);
          hub = \<lparr>uh_op = HubOp env pipe (ud_speed usbdev), uh_cntl_type = ud_cntl_type usbdev, uh_parents = ud_parents usbdev @ [ud_port usbdev],
                 uh_detectend = 0, uh_threads = 0, uh_portcount = ucast (desc 2), uh_devcount = 0\<rparr>
      in if ret \<noteq> 0 then Some (ret, st\<lparr>us_hw := h\<rparr>)
         else
           let (ret, h1) = (if ud_speed usbdev = USB_SUPERSPEED then set_hub_depth env pipe (of_nat (length (ud_parents usbdev))) h else (0, h))
           in if ret \<noteq> 0 then Some (ret, st\<lparr>us_hw := h1\<rparr>)
              else
                let (ret, h2) = power_ports env pipe (map of_nat [0..<unat (desc 2)]) h1
                in if ret \<noteq> 0 then Some (ret, st\<lparr>us_hw := h2\<rparr>)
                   else do {
                     (hub2, st2) \<leftarrow> usb_enumerate sigatt env drv hub (st\<lparr>us_hw := ue_msleep env (ucast (desc 5) * 2) h2\<rparr>);
                     Some (if uh_devcount hub2 \<noteq> 0 then 0 else -1, st2)
                   })"

text \<open>The drivers of all classes, with hubs behind hubs up to a depth of \<open>n\<close>.\<close>

fun usb_drivers :: "nat \<Rightarrow> u32 \<Rightarrow> 'h usb_env \<Rightarrow> 'h usb_drivers \<Rightarrow> 'h usb_drivers" where
  "usb_drivers 0 sigatt env drv = drv\<lparr>ud_hub_setup := (\<lambda>dev st. None)\<rparr>"
| "usb_drivers (Suc n) sigatt env drv =
     drv\<lparr>ud_hub_setup := (\<lambda>dev st. usb_hub_setup sigatt env (usb_drivers n sigatt env drv) (the (ud_defpipe dev)) dev st)\<rparr>"

end
