(* ===== verification/UsbProps.thy ===== *)
theory UsbProps
  imports UsbHub
begin

text \<open>
  The enumeration of USB devices ends: waits end because time passes, and hubs behind hubs run out of addresses. Each
  device that is counted has an address of its own. Also the search for an endpoint in a list of descriptors, and the two
  cases in which the code does not come back.
\<close>

section \<open>Endpoints\<close>

text \<open>From \<open>p\<close> on the descriptors have the places \<open>ps\<close>, and the last one ends the search.\<close>

fun desc_path :: "usbdevice_s \<Rightarrow> nat \<Rightarrow> nat list \<Rightarrow> bool" where
  "desc_path dev p [] \<longleftrightarrow> int p \<ge> int (ud_iface dev) + ud_imax dev \<or> ud_config dev (p + 1) = USB_DT_INTERFACE"
| "desc_path dev p (q # qs) \<longleftrightarrow>
     p = q \<and> int p < int (ud_iface dev) + ud_imax dev \<and> ud_config dev (p + 1) \<noteq> USB_DT_INTERFACE \<and>
     desc_path dev (p + unat (ud_config dev p)) qs"

definition is_endpoint :: "usbdevice_s \<Rightarrow> u8 \<Rightarrow> u8 \<Rightarrow> nat \<Rightarrow> bool" where
  "is_endpoint dev ty dir p \<longleftrightarrow> ud_config dev (p + 1) = USB_DT_ENDPOINT \<and>
     bEndpointAddress (endpoint_at (ud_config dev) p) AND USB_ENDPOINT_DIR_MASK = dir \<and>
     ep_bmAttributes (endpoint_at (ud_config dev) p) AND USB_ENDPOINT_XFERTYPE_MASK = ty"

lemma find_desc_step:
  "find_desc_loop dev ty dir p =
     (if int p \<ge> int (ud_iface dev) + ud_imax dev \<or> ud_config dev (p + 1) = USB_DT_INTERFACE then Some None
      else if is_endpoint dev ty dir p then Some (Some p) else find_desc_loop dev ty dir (p + unat (ud_config dev p)))"
  by (subst find_desc_loop.simps) (simp only: Let_def is_endpoint_def)

lemma find_desc_loop_first:
  "desc_path dev p ps \<Longrightarrow> find_desc_loop dev ty dir p = Some (List.find (is_endpoint dev ty dir) ps)"
proof (induction ps arbitrary: p)
  case (Cons q qs)
  then show ?case by (subst find_desc_step) auto
qed (subst find_desc_step, auto)

lemma find_desc_first:
  "desc_path dev (ud_iface dev + sizeof_interface) ps \<Longrightarrow>
     usb_find_desc dev ty dir = Some (map_option (endpoint_at (ud_config dev)) (List.find (is_endpoint dev ty dir) ps))"
  by (simp add: usb_find_desc_def find_desc_loop_first)

text \<open>Without descriptors of length zero the search ends.\<close>

lemma desc_path_exists:
  assumes "\<forall>p. int p < int (ud_iface dev) + ud_imax dev \<longrightarrow> ud_config dev p \<noteq> 0"
  shows "\<exists>ps. desc_path dev p ps"
proof (induction "nat (int (ud_iface dev) + ud_imax dev - int p)" arbitrary: p rule: less_induct)
  case less
  show ?case
  proof (cases "int p \<ge> int (ud_iface dev) + ud_imax dev \<or> ud_config dev (p + 1) = USB_DT_INTERFACE")
    case True
    then have "desc_path dev p []" by simp
    then show ?thesis ..
  next
    case False
    then have "0 < unat (ud_config dev p)" using assms by (simp add: unat_gt_0)
    then have "nat (int (ud_iface dev) + ud_imax dev - int (p + unat (ud_config dev p))) < nat (int (ud_iface dev) + ud_imax dev - int p)"
      using False by linarith
    then obtain qs where "desc_path dev (p + unat (ud_config dev p)) qs" using less by blast
    then have "desc_path dev p (p # qs)" using False by simp
    then show ?thesis ..
  qed
qed

text \<open>A descriptor of length zero that is not the end or the one looked for.\<close>

lemma find_desc_hangs:
  assumes "int p < int (ud_iface dev) + ud_imax dev" "ud_config dev (p + 1) \<noteq> USB_DT_INTERFACE" "\<not> is_endpoint dev ty dir p"
    "ud_config dev p = 0"
  shows "find_desc_loop dev ty dir p = None"
proof (rule ccontr)
  assume "find_desc_loop dev ty dir p \<noteq> None"
  then obtain r where "find_desc_loop dev ty dir p = Some r" by blast
  then have "\<not> (int p < int (ud_iface dev) + ud_imax dev \<and> ud_config dev (p + 1) \<noteq> USB_DT_INTERFACE \<and>
      \<not> is_endpoint dev ty dir p \<and> ud_config dev p = 0)"
  proof (rule find_desc_loop.raw_induct [of "\<lambda>d t i q r. \<not> (int q < int (ud_iface d) + ud_imax d \<and>
      ud_config d (q + 1) \<noteq> USB_DT_INTERFACE \<and> \<not> is_endpoint d t i q \<and> ud_config d q = 0)", rotated], goal_cases)
    case (1 f d t i q r)
    show ?case
    proof (rule notI, elim conjE)
      assume a: "int q < int (ud_iface d) + ud_imax d" "ud_config d (q + 1) \<noteq> USB_DT_INTERFACE"
        "\<not> is_endpoint d t i q" "ud_config d q = 0"
      then have "f d t i q = Some r" using 1(2) by (auto simp: Let_def is_endpoint_def split: if_splits)
      then show False using 1(1) a by blast
    qed
  qed
  then show False using assms by blast
qed

section \<open>Waits\<close>

text \<open>\<open>left e h\<close> bounds how often the timer can still say that \<open>e\<close> has not come. Requests and sleeping do not raise it.\<close>

definition time_passes :: "'h usb_env \<Rightarrow> (u32 \<Rightarrow> 'h \<Rightarrow> nat) \<Rightarrow> bool" where
  "time_passes env left \<longleftrightarrow>
     (\<forall>e h. \<not> fst (ue_timer_check env e h) \<longrightarrow> left e (snd (ue_timer_check env e h)) < left e h) \<and>
     (\<forall>e n h. left e (ue_msleep env n h) \<le> left e h) \<and>
     (\<forall>e k p dir cmd data n h. left e (snd (snd (hc_send_pipe env k p dir cmd data n h))) \<le> left e h)"

text \<open>Pipes and memory can be had.\<close>

definition room :: "'h usb_env \<Rightarrow> bool" where
  "room env \<longleftrightarrow> (\<forall>n h. fst (ue_malloc env n h)) \<and>
     (\<forall>k dev p ep h. ep \<noteq> None \<longrightarrow> fst (hc_realloc_pipe env k dev p ep h) \<noteq> None)"

definition ops_ok :: "(u32 \<Rightarrow> 'h \<Rightarrow> nat) \<Rightarrow> 'h usbhub_op \<Rightarrow> bool" where
  "ops_ok left ops \<longleftrightarrow> (\<forall>port h. (\<forall>e. left e (snd (ho_detect ops port h)) \<le> left e h) \<and> ho_reset ops port h \<noteq> None)"

lemma detect_loop_ends:
  assumes "time_passes env left" "ops_ok left (uh_op hub)"
  shows "\<exists>r. detect_loop env hub port h = Some r"
proof (induction "left (uh_detectend hub) h" arbitrary: h rule: less_induct)
  case less
  obtain ret h1 where d: "ho_detect (uh_op hub) port h = (ret, h1)" by fastforce
  obtain x h2 where t: "ue_timer_check env (uh_detectend hub) h1 = (x, h2)" by fastforce
  have d1: "left (uh_detectend hub) h1 \<le> left (uh_detectend hub) h" using assms(2) d unfolding ops_ok_def by (metis snd_conv)
  have t1: "\<not> x \<Longrightarrow> left (uh_detectend hub) (ue_msleep env 5 h2) < left (uh_detectend hub) h1"
    using assms(1) t unfolding time_passes_def by (metis fst_conv snd_conv order.strict_trans1)
  have "\<not> x \<Longrightarrow> \<exists>r. detect_loop env hub port (ue_msleep env 5 h2) = Some r" using less t1 d1 order.strict_trans2 by blast
  then show ?case by (subst detect_loop.simps) (cases x; auto simp: d t)
qed

lemma send_calm:
  assumes "time_passes env left"
  shows "left e (snd (snd (usb_send_default_control env m p req data h))) \<le> left e h"
  using assms by (simp add: usb_send_default_control_def usb_send_pipe_def Let_def time_passes_def)

lemma port_status_calm:
  assumes "time_passes env left"
  shows "left e (snd (snd (get_port_status env pipe port h))) \<le> left e h"
  using send_calm [OF assms] by (fastforce simp: get_port_status_def split_beta Let_def)

lemma reset_loop_ends:
  assumes "time_passes env left"
  shows "\<exists>r. reset_loop env pipe speed port tend h = Some r"
proof (induction "left tend h" arbitrary: h rule: less_induct)
  case less
  obtain ret sts h1 where d: "get_port_status env pipe port h = (ret, sts, h1)" by (metis prod_cases3)
  obtain x h2 where t: "ue_timer_check env tend h1 = (x, h2)" by fastforce
  have d1: "left tend h1 \<le> left tend h" using port_status_calm [OF assms, of tend pipe port h] d by simp
  have t1: "\<not> x \<Longrightarrow> left tend (ue_msleep env 5 h2) < left tend h1"
    using assms t unfolding time_passes_def by (metis fst_conv snd_conv order.strict_trans1)
  have "\<not> x \<Longrightarrow> \<exists>r. reset_loop env pipe speed port tend (ue_msleep env 5 h2) = Some r" using less t1 d1 order.strict_trans2 by blast
  then show ?case by (subst reset_loop.simps) (cases x; auto simp: d t)
qed

lemma hub_reset_ends:
  assumes "time_passes env left"
  shows "usb_hub_reset env pipe speed port h \<noteq> None"
proof -
  obtain ret h1 where s: "set_port_feature env pipe port USB_PORT_FEAT_RESET h = (ret, h1)" by fastforce
  obtain tend h2 where t: "ue_timer_calc env (USB_TIME_DRST * 2) h1 = (tend, h2)" by fastforce
  obtain r h3 where "reset_loop env pipe speed port tend h2 = Some (r, h3)" using reset_loop_ends [OF assms] by fastforce
  then show ?thesis by (simp add: usb_hub_reset_def s t Let_def split: option.splits)
qed

lemma HubOp_ok: "time_passes env left \<Longrightarrow> ops_ok left (HubOp env pipe speed)"
  using port_status_calm [of env left] hub_reset_ends [of env left]
  by (fastforce simp: ops_ok_def HubOp_def usb_hub_detect_def split_beta Let_def)

section \<open>Addresses\<close>

definition grows :: "'h usb_state \<Rightarrow> 'h usb_state \<Rightarrow> bool" where
  "grows st st' \<longleftrightarrow> us_maxaddr st \<le> us_maxaddr st' \<and> us_maxaddr st' \<le> USB_MAXADDR"

text \<open>Drivers that come back from every state in which \<open>lo\<close> addresses have been given.\<close>

definition driver_ends :: "nat \<Rightarrow> 'h usb_driver \<Rightarrow> bool" where
  "driver_ends lo f \<longleftrightarrow> (\<forall>dev st. lo \<le> unat (us_maxaddr st) \<and> us_maxaddr st \<le> USB_MAXADDR \<longrightarrow>
     (\<exists>r st'. f dev st = Some (r, st') \<and> grows st st'))"

definition drivers_end :: "nat \<Rightarrow> 'h usb_drivers \<Rightarrow> bool" where
  "drivers_end lo drv \<longleftrightarrow> driver_ends lo (ud_hub_setup drv) \<and> driver_ends lo (ud_msc_setup drv) \<and>
     driver_ends lo (ud_uas_setup drv) \<and> driver_ends lo (ud_hid_setup drv)"

lemma set_address_cases:
  assumes "room env" "us_maxaddr st \<le> USB_MAXADDR" "usb_set_address env dev st = (err, dev1, st1)"
  shows "(err \<noteq> 0 \<and> us_maxaddr st1 = us_maxaddr st) \<or>
    (err = 0 \<and> unat (us_maxaddr st1) = Suc (unat (us_maxaddr st)) \<and> us_maxaddr st1 \<le> USB_MAXADDR \<and>
     ud_devaddr dev1 = us_maxaddr st1 \<and> ud_defpipe dev1 \<noteq> None)"
proof (cases "us_maxaddr st \<ge> USB_MAXADDR")
  case True
  then show ?thesis using assms(3) by (simp add: usb_set_address_def)
next
  case False
  then have a: "unat (us_maxaddr st + 1) = Suc (unat (us_maxaddr st))" "us_maxaddr st + 1 \<le> USB_MAXADDR"
    by (simp_all add: USB_MAXADDR_def word_nat)
  let ?ep = "control_endpoint (speed_to_ctlsize (ud_speed dev))"
  have pipes: "\<exists>p' h'. usb_realloc_pipe env d p (Some ep) h = (Some p', h')" for d p ep h
    using assms(1) unfolding room_def usb_realloc_pipe_def by (metis option.distinct(1) option.exhaust prod.collapse)
  obtain p h where p: "usb_alloc_pipe env dev (Some ?ep) (ue_msleep env USB_TIME_RSTRCY (us_hw st)) = (Some p, h)"
    using pipes by (metis usb_alloc_pipe_def)
  obtain ret bs h1 where r: "usb_send_default_control env False p (device_request (USB_DIR_OUT OR USB_TYPE_STANDARD OR USB_RECIP_DEVICE)
      USB_REQ_SET_ADDRESS (ucast (us_maxaddr st) + 1) 0 0) [] h = (ret, bs, h1)" by (metis prod_cases3)
  obtain p2 h2 where p2: "usb_realloc_pipe env (dev\<lparr>ud_defpipe := Some p, ud_devaddr := us_maxaddr st + 1\<rparr>) (Some p) (Some ?ep)
      (ue_msleep env USB_TIME_SETADDR_RECOVERY h1) = (Some p2, h2)" using pipes by blast
  show ?thesis using False assms(3) a by (auto simp: usb_set_address_def p r p2 Let_def split: if_splits)
qed


lemma grows_hw [simp]: "grows (st\<lparr>us_hw := h\<rparr>) st' = grows st st'" "grows st (st'\<lparr>us_hw := h\<rparr>) = grows st st'"
  by (simp_all add: grows_def)

lemma grows_refl: "us_maxaddr st \<le> USB_MAXADDR \<Longrightarrow> grows st st" by (simp add: grows_def)

lemma grows_trans: "grows a b \<Longrightarrow> grows b c \<Longrightarrow> grows a c" by (auto simp: grows_def)

lemma growsD: "grows st st' \<Longrightarrow> unat (us_maxaddr st) \<le> unat (us_maxaddr st')" "grows st st' \<Longrightarrow> us_maxaddr st' \<le> USB_MAXADDR"
  by (simp_all add: grows_def word_le_nat_alt)

text \<open>With \<open>room\<close> a device is configured, or not, and is counted at most once.\<close>

lemma driver_setup_ends:
  assumes "drivers_end lo drv" "lo \<le> unat (us_maxaddr st)" "us_maxaddr st \<le> USB_MAXADDR"
  shows "\<exists>r st'. driver_setup drv dev st = Some (r, st') \<and> grows st st'"
  using assms grows_refl [of st] by (auto simp: driver_setup_def drivers_end_def driver_ends_def Let_def)

lemma configure_ends:
  assumes "room env" "drivers_end lo drv" "lo \<le> unat (us_maxaddr st)" "us_maxaddr st \<le> USB_MAXADDR"
  shows "\<exists>c dev' st'. configure_usb_device env drv dev pipe st = Some (c, dev', st') \<and> c \<in> {0, 1} \<and> grows st st'"
proof -
  obtain ret bs h where i: "get_device_info8 env pipe (us_hw st) = (ret, bs, h)" by (metis prod_cases3)
  have pipes: "\<exists>p' h'. usb_realloc_pipe env d p (Some ep) h = (Some p', h')" for d p ep h
    using assms(1) unfolding room_def usb_realloc_pipe_def by (metis option.distinct(1) option.exhaust prod.collapse)
  define mp :: u16 where "mp = (if desc16 (received bs (ue_heap env h)) 2 \<ge> 0x0300
    then push_bit (unat (received bs (ue_heap env h) 7)) 1 else ucast (received bs (ue_heap env h) 7))"
  obtain p h1 where p: "usb_realloc_pipe env dev (Some pipe) (Some (control_endpoint mp)) h = (Some p, h1)" using pipes by blast
  obtain c h2 where c: "get_device_config env p h1 = (c, h2)" by fastforce
  have d: "\<exists>r st'. driver_setup drv d (st\<lparr>us_hw := h'\<rparr>) = Some (r, st') \<and> grows st st'" for d h'
    using driver_setup_ends [OF assms(2), of "st\<lparr>us_hw := h'\<rparr>" d] assms(3,4) by simp
  show ?thesis
  proof (cases "ret \<noteq> 0 \<or> mp < 8 \<or> c = None")
    case True
    then show ?thesis using grows_refl [OF assms(4)]
      by (auto simp: configure_usb_device_def i p c Let_def simp flip: mp_def)
  next
    case False
    then obtain cfg where cfg: "c = Some cfg" by blast
    obtain ret2 h3 where s: "set_configuration env p (ucast (bConfigurationValue cfg)) h2 = (ret2, h3)" by fastforce
    obtain r st' where "driver_setup drv (dev\<lparr>ud_defpipe := Some p, ud_config := cfg, ud_iface := sizeof_config,
        ud_imax := int (unat (wTotalLength cfg)) - int sizeof_config\<rparr>) (st\<lparr>us_hw := h3\<rparr>) = Some (r, st')" "grows st st'" using d by blast
    then show ?thesis using False grows_refl [OF assms(4)] cfg
      by (auto simp: configure_usb_device_def i p c s Let_def simp flip: mp_def)
  qed
qed

section \<open>The enumeration ends\<close>

text \<open>One port: the hub counts one thread less, and a device only with an address.\<close>

definition counted :: "'h usbhub_s \<Rightarrow> 'h usb_state \<Rightarrow> nat \<Rightarrow> 'h usbhub_s \<Rightarrow> 'h usb_state \<Rightarrow> bool" where
  "counted hub st n hub' st' \<longleftrightarrow> grows st st' \<and> uh_threads hub' = uh_threads hub - of_nat n \<and> uh_op hub' = uh_op hub \<and>
     (\<exists>k. uh_devcount hub' = uh_devcount hub + of_nat k \<and> k + unat (us_maxaddr st) \<le> unat (us_maxaddr st'))"

lemma counted_none: "grows st st' \<Longrightarrow> counted hub st 1 (hub\<lparr>uh_threads := uh_threads hub - 1\<rparr>) st'"
  using growsD(1) [of st st'] by (auto simp: counted_def intro!: exI [of _ 0])

lemma counted_trans:
  assumes "counted hub st n hub1 st1" "counted hub1 st1 m hub2 st2"
  shows "counted hub st (n + m) hub2 st2"
proof -
  obtain k l where "uh_devcount hub1 = uh_devcount hub + of_nat k" "k + unat (us_maxaddr st) \<le> unat (us_maxaddr st1)"
    "uh_devcount hub2 = uh_devcount hub1 + of_nat l" "l + unat (us_maxaddr st1) \<le> unat (us_maxaddr st2)"
    using assms by (auto simp: counted_def)
  then have "uh_devcount hub2 = uh_devcount hub + of_nat (k + l)" "k + l + unat (us_maxaddr st) \<le> unat (us_maxaddr st2)" by simp_all
  then show ?thesis using assms grows_trans [of st st1 st2] unfolding counted_def
    by (intro conjI) (auto simp: diff_diff_eq intro: exI [of _ "k + l"])
qed

text \<open>What the lemmas below need of the environment, the hub and the drivers.\<close>

definition enum_ok :: "'h usb_env \<Rightarrow> (u32 \<Rightarrow> 'h \<Rightarrow> nat) \<Rightarrow> 'h usb_drivers \<Rightarrow> 'h usbhub_s \<Rightarrow> 'h usb_state \<Rightarrow> bool" where
  "enum_ok env left drv hub st \<longleftrightarrow> time_passes env left \<and> room env \<and> ops_ok left (uh_op hub) \<and>
     drivers_end (Suc (unat (us_maxaddr st))) drv \<and> us_maxaddr st \<le> USB_MAXADDR"

lemma drivers_end_mono: "drivers_end lo drv \<Longrightarrow> lo \<le> hi \<Longrightarrow> drivers_end hi drv"
  by (auto simp: drivers_end_def driver_ends_def)

lemma enum_ok_step: "enum_ok env left drv hub st \<Longrightarrow> counted hub st n hub' st' \<Longrightarrow> enum_ok env left drv hub' st'"
  using drivers_end_mono [of "Suc (unat (us_maxaddr st))" drv "Suc (unat (us_maxaddr st'))"] growsD [of st st']
  by (simp add: enum_ok_def counted_def)

lemma enum_ok_hw [simp]: "enum_ok env left drv hub (st\<lparr>us_hw := h\<rparr>) = enum_ok env left drv hub st"
  by (simp add: enum_ok_def)

lemma counted_hw [simp]: "counted hub (st\<lparr>us_hw := h\<rparr>) n hub' st' = counted hub st n hub' st'"
  by (simp add: counted_def)

text \<open>A device that has an address.\<close>

lemma addressed_ends:
  assumes "enum_ok env left drv hub st" "us_maxaddr st1 \<le> USB_MAXADDR" "unat (us_maxaddr st1) = Suc (unat (us_maxaddr st))"
  shows "\<exists>count dev2 st2. configure_usb_device env drv dev1 pipe st1 = Some (count, dev2, st2) \<and>
    (\<forall>h. counted hub st 1 (hub\<lparr>uh_devcount := uh_devcount hub + of_int count, uh_threads := uh_threads hub - 1\<rparr>) (st2\<lparr>us_hw := h\<rparr>))"
proof -
  obtain c dev2 st2 where c: "configure_usb_device env drv dev1 pipe st1 = Some (c, dev2, st2)" "c \<in> {0, 1}" "grows st1 st2"
    using configure_ends [of env "Suc (unat (us_maxaddr st))" drv st1 dev1 pipe] assms by (auto simp: enum_ok_def)
  have g: "grows st st1" using assms by (simp add: grows_def word_le_nat_alt)
  have "nat c + unat (us_maxaddr st) \<le> unat (us_maxaddr st2)" using growsD(1) [OF c(3)] assms(3) c(2) by auto
  moreover have "(of_int c :: u32) = of_nat (nat c)" using c(2) by auto
  ultimately have "counted hub st 1 (hub\<lparr>uh_devcount := uh_devcount hub + of_int c, uh_threads := uh_threads hub - 1\<rparr>) (st2\<lparr>us_hw := h\<rparr>)" for h
    using grows_trans [OF g c(3)] by (auto simp: counted_def intro!: exI [of _ "nat c"])
  then show ?thesis using c(1) by blast
qed

lemma port_setup_ends:
  assumes ok: "enum_ok env left drv hub st"
  shows "\<exists>hub' st'. usb_hub_port_setup env drv hub dev st = Some (hub', st') \<and> counted hub st 1 hub' st'"
proof -
  have m: "us_maxaddr st \<le> USB_MAXADDR" using ok by (simp add: enum_ok_def)
  obtain con h where d: "detect_loop env hub (ud_port dev) (us_hw st) = Some (con, h)"
    using detect_loop_ends [of env left hub "ud_port dev" "us_hw st"] ok by (auto simp: enum_ok_def)
  obtain ret h1 where r: "ho_reset (uh_op hub) (ud_port dev) h = Some (ret, h1)" using ok by (fastforce simp: enum_ok_def ops_ok_def)
  obtain err dev1 st1 where a: "usb_set_address env (dev\<lparr>ud_speed := of_int ret\<rparr>) (st\<lparr>us_hw := h1\<rparr>) = (err, dev1, st1)" by (metis prod_cases3)
  note cases = set_address_cases [of env "st\<lparr>us_hw := h1\<rparr>", OF _ _ a]
  have st1: "err \<noteq> 0 \<Longrightarrow> grows st st1" using cases ok m by (auto simp: grows_def enum_ok_def)
  show ?thesis
  proof (cases "con \<and> \<not> ret < 0")
    case False
    then show ?thesis using counted_none [of st "st\<lparr>us_hw := x\<rparr>" hub for x] grows_refl [OF m]
      by (cases con) (simp_all add: usb_hub_port_setup_def d r port_done_def)
  next
    case run: True
    show ?thesis
    proof (cases "err = 0")
      case False
      then show ?thesis using run counted_none [of st "st1\<lparr>us_hw := x\<rparr>" hub for x] st1
        by (simp add: usb_hub_port_setup_def d r a port_done_def)
    next
      case True
      then have "us_maxaddr st1 \<le> USB_MAXADDR" "unat (us_maxaddr st1) = Suc (unat (us_maxaddr st))" using cases ok m by (auto simp: enum_ok_def)
      from addressed_ends [OF ok this] obtain c dev2 st2 where
        "configure_usb_device env drv dev1 (the (ud_defpipe dev1)) st1 = Some (c, dev2, st2)"
        "\<forall>h. counted hub st 1 (hub\<lparr>uh_devcount := uh_devcount hub + of_int c, uh_threads := uh_threads hub - 1\<rparr>) (st2\<lparr>us_hw := h\<rparr>)"
        by blast
      then show ?thesis using run True by (simp add: usb_hub_port_setup_def d r a port_done_def Let_def)
    qed
  qed
qed

lemma start_ports_ends:
  "enum_ok env left drv hub st \<Longrightarrow>
     \<exists>hub' st'. start_ports env drv is hub st = Some (hub', st') \<and> counted hub st (length is) hub' st'"
proof (induction "is" arbitrary: hub st)
  case Nil
  then have "counted hub st 0 hub st" by (auto simp: counted_def enum_ok_def grows_def intro!: exI [of _ 0])
  then show ?case by simp
next
  case (Cons i "is")
  obtain h where m: "ue_malloc env sizeof_usbdevice (us_hw st) = (True, h)"
    using Cons.prems unfolding enum_ok_def room_def by (metis (full_types) prod.collapse)
  have ok: "enum_ok env left drv hub (st\<lparr>us_hw := h\<rparr>)" using Cons.prems by simp
  obtain hub1 st1 where p: "usb_hub_port_setup env drv hub (new_usbdevice hub i) (st\<lparr>us_hw := h\<rparr>) = Some (hub1, st1)"
    "counted hub st 1 hub1 st1" using port_setup_ends [OF ok] by fastforce
  obtain hub2 st2 where "start_ports env drv is hub1 st1 = Some (hub2, st2)" "counted hub1 st1 (length is) hub2 st2"
    using Cons.IH [OF enum_ok_step [OF Cons.prems p(2)]] by blast
  then show ?case using counted_trans [OF p(2)] by (simp add: m p(1))
qed

lemma enumerate_ends:
  assumes "enum_ok env left drv hub st"
  shows "\<exists>hub' st' k. usb_enumerate sigatt env drv hub st = Some (hub', st') \<and> grows st st' \<and>
    uh_devcount hub' = uh_devcount hub + of_nat k \<and> k + unat (us_maxaddr st) \<le> unat (us_maxaddr st')"
proof -
  obtain dend h where t: "ue_timer_calc env sigatt (us_hw st) = (dend, h)" by fastforce
  let ?hub = "hub\<lparr>uh_threads := uh_portcount hub, uh_detectend := dend\<rparr>"
  have "enum_ok env left drv ?hub (st\<lparr>us_hw := h\<rparr>)" using assms by (simp add: enum_ok_def)
  from start_ports_ends [OF this, of "map of_nat [0..<unat (uh_portcount hub)]"] obtain hub' st' where
    "start_ports env drv (map of_nat [0..<unat (uh_portcount hub)]) ?hub (st\<lparr>us_hw := h\<rparr>) = Some (hub', st')"
    "counted ?hub st (unat (uh_portcount hub)) hub' st'" by auto
  then show ?thesis by (auto simp: usb_enumerate_def t counted_def)
qed

text \<open>Hubs behind hubs: at a depth of \<open>n\<close> at least \<open>n\<close> addresses are in use, so there are at most 127 of them.\<close>

lemma hub_setup_ends:
  assumes "time_passes env left" "room env" "drivers_end (Suc lo) drv" "lo \<le> unat (us_maxaddr st)" "us_maxaddr st \<le> USB_MAXADDR"
  shows "\<exists>r st'. usb_hub_setup sigatt env drv pipe dev st = Some (r, st') \<and> grows st st'"
proof -
  obtain ret bs h where g: "get_hub_desc env pipe (us_hw st) = (ret, bs, h)" by (metis prod_cases3)
  obtain r1 h1 where s: "set_hub_depth env pipe (of_nat (length (ud_parents dev))) h = (r1, h1)" by fastforce
  define h1' where "h1' = (if ud_speed dev = USB_SUPERSPEED then h1 else h)"
  obtain r2 h2 where p: "power_ports env pipe (map of_nat [0..<unat (received bs (ue_heap env h) 2)]) h1' = (r2, h2)" by fastforce
  let ?hub = "\<lparr>uh_op = HubOp env pipe (ud_speed dev), uh_cntl_type = ud_cntl_type dev, uh_parents = ud_parents dev @ [ud_port dev],
    uh_detectend = 0, uh_threads = 0, uh_portcount = ucast (received bs (ue_heap env h) 2), uh_devcount = 0\<rparr>"
  have "enum_ok env left drv ?hub (st\<lparr>us_hw := ue_msleep env (ucast (received bs (ue_heap env h) 5) * 2) h2\<rparr>)"
    using assms HubOp_ok [OF assms(1)] drivers_end_mono [OF assms(3), of "Suc (unat (us_maxaddr st))"] by (simp add: enum_ok_def)
  from enumerate_ends [OF this, of sigatt] obtain hub' st' where
    "usb_enumerate sigatt env drv ?hub (st\<lparr>us_hw := ue_msleep env (ucast (received bs (ue_heap env h) 5) * 2) h2\<rparr>) = Some (hub', st')"
    "grows st st'" by auto
  then show ?thesis using grows_refl [OF assms(5)] p s
    by (cases "ud_speed dev = USB_SUPERSPEED") (auto simp: usb_hub_setup_def g Let_def h1'_def)
qed

lemma usb_drivers_end:
  assumes "time_passes env left" "room env"
    "driver_ends 0 (ud_msc_setup drv)" "driver_ends 0 (ud_uas_setup drv)" "driver_ends 0 (ud_hid_setup drv)"
  shows "drivers_end (128 - n) (usb_drivers n sigatt env drv)"
proof (induction n)
  case 0
  then show ?case using assms(3-5) by (auto simp: drivers_end_def driver_ends_def USB_MAXADDR_def word_le_nat_alt)
next
  case (Suc n)
  have "driver_ends (128 - Suc n) (ud_hub_setup (usb_drivers (Suc n) sigatt env drv))"
    using hub_setup_ends [OF assms(1,2), of "128 - Suc n" "usb_drivers n sigatt env drv"] drivers_end_mono [OF Suc]
    by (simp add: driver_ends_def)
  then show ?case using assms(3-5) by (auto simp: drivers_end_def driver_ends_def)
qed

text \<open>
  C33. If time passes, memory and pipes can be had, and the drivers for other devices come back, the enumeration of a hub
  ends, whatever the devices answer: all its threads have run, at most 127 addresses have been given out, and the devices
  it counts are no more than the addresses given out meanwhile. Hubs may be behind hubs; a depth of 127 is enough for
  every tree of hubs.
\<close>

theorem usb_enumeration_ends:
  assumes "time_passes env left" "room env" "ops_ok left (uh_op hub)"
    "driver_ends 0 (ud_msc_setup drv)" "driver_ends 0 (ud_uas_setup drv)" "driver_ends 0 (ud_hid_setup drv)"
    "us_maxaddr st \<le> USB_MAXADDR"
  shows "\<exists>hub' st' k. usb_enumerate sigatt env (usb_drivers 127 sigatt env drv) hub st = Some (hub', st') \<and>
    us_maxaddr st' \<le> USB_MAXADDR \<and> uh_devcount hub' = uh_devcount hub + of_nat k \<and>
    k + unat (us_maxaddr st) \<le> unat (us_maxaddr st')"
proof -
  have "drivers_end (Suc (unat (us_maxaddr st))) (usb_drivers 127 sigatt env drv)"
    using usb_drivers_end [OF assms(1,2,4-6), of 127 sigatt] drivers_end_mono by fastforce
  then have "enum_ok env left (usb_drivers 127 sigatt env drv) hub st" using assms by (simp add: enum_ok_def)
  from enumerate_ends [OF this, of sigatt] show ?thesis using growsD(2) [of st] by blast
qed

text \<open>A controller with one device, an interface of the class for human interface devices; the state counts the time left.\<close>

definition usb_sample_env :: "nat usb_env" where
  "usb_sample_env =
     \<lparr>hc_realloc_pipe = (\<lambda>k dev p ep h. (map_option (\<lambda>e. \<lparr>up_handle = 0x1000, up_type = k, up_ep = 0, up_devaddr = ud_devaddr dev,
        up_speed = ud_speed dev, up_maxpacket = wMaxPacketSize e, up_eptype = 0\<rparr>) ep, h)),
      hc_send_pipe = (\<lambda>k p dir cmd data n h. (0, take n [9, 2, 18, 0, 1, 1, 0, 8, 50, 9, 4, 0, 0, 1, 3, 1, 1, 0], h)),
      hc_poll_intr = (\<lambda>k p h. (None, h)), ue_malloc = (\<lambda>n h. (True, h)), ue_heap = (\<lambda>h i. 0), ue_msleep = (\<lambda>n h. h),
      ue_timer_calc = (\<lambda>n h. (0, unat n)), ue_timer_check = (\<lambda>e h. (h = 0, h - 1))\<rparr>"

definition usb_sample_drivers :: "nat usb_drivers" where
  "usb_sample_drivers = \<lparr>ud_hub_setup = (\<lambda>dev st. None), ud_msc_setup = (\<lambda>dev st. Some (-1, st)), ud_uas_setup = (\<lambda>dev st. Some (-1, st)),
     ud_hid_setup = (\<lambda>dev st. Some (0, st))\<rparr>"

definition usb_sample_hub :: "nat usbhub_s" where
  "usb_sample_hub = \<lparr>uh_op = \<lparr>ho_detect = (\<lambda>port h. (if port = 0 then 1 else 0, h)), ho_reset = (\<lambda>port h. Some (0, h)), ho_disconnect = (\<lambda>port h. h)\<rparr>,
     uh_cntl_type = USB_TYPE_UHCI, uh_parents = [], uh_detectend = 0, uh_threads = 0, uh_portcount = 2, uh_devcount = 0\<rparr>"

theorem usb_enumeration_ends_witness:
  "\<exists>hub' st' k. usb_enumerate 100 usb_sample_env (usb_drivers 127 100 usb_sample_env usb_sample_drivers) usb_sample_hub
      \<lparr>us_maxaddr = 0, us_hw = 0\<rparr> = Some (hub', st') \<and>
    us_maxaddr st' \<le> USB_MAXADDR \<and> uh_devcount hub' = of_nat k \<and> k \<le> unat (us_maxaddr st')"
proof -
  have "time_passes usb_sample_env (\<lambda>e h. h)" "room usb_sample_env" "ops_ok (\<lambda>e h. h) (uh_op usb_sample_hub)"
    "driver_ends 0 (ud_msc_setup usb_sample_drivers)" "driver_ends 0 (ud_uas_setup usb_sample_drivers)" "driver_ends 0 (ud_hid_setup usb_sample_drivers)"
    by (auto simp: time_passes_def room_def ops_ok_def driver_ends_def grows_def usb_sample_env_def usb_sample_drivers_def usb_sample_hub_def)
  from usb_enumeration_ends [OF this, of "\<lparr>us_maxaddr = 0, us_hw = 0\<rparr>" 100] show ?thesis by (simp add: USB_MAXADDR_def usb_sample_hub_def)
qed

text \<open>Without memory for the device of some port its thread is never done, and the enumeration waits for it.\<close>

lemma start_ports_no_memory: "(\<And>n h. \<not> fst (ue_malloc env n h)) \<Longrightarrow> \<exists>h. start_ports env drv is hub st = Some (hub, st\<lparr>us_hw := h\<rparr>)"
proof (induction "is" arbitrary: st)
  case Nil
  have "start_ports env drv [] hub st = Some (hub, st\<lparr>us_hw := us_hw st\<rparr>)" by simp
  then show ?case ..
next
  case (Cons i "is")
  then show ?case using Cons.IH [of "st\<lparr>us_hw := snd (ue_malloc env sizeof_usbdevice (us_hw st))\<rparr>"] by (simp add: split_beta Let_def)
qed

lemma enumerate_no_memory_hangs:
  assumes "\<And>n h. \<not> fst (ue_malloc env n h)" "0 < uh_portcount hub"
  shows "usb_enumerate sigatt env drv hub st = None"
proof -
  obtain dend h where t: "ue_timer_calc env sigatt (us_hw st) = (dend, h)" by fastforce
  show ?thesis
    using start_ports_no_memory [OF assms(1), of drv "map of_nat [0..<unat (uh_portcount hub)]"
        "hub\<lparr>uh_threads := uh_portcount hub, uh_detectend := dend\<rparr>" "st\<lparr>us_hw := h\<rparr>"] assms(2)
    by (auto simp: usb_enumerate_def t word_greater_zero_iff)
qed

end
