(* ===== verification/UsbHid.thy ===== *)
theory UsbHid
  imports Usb Keyboard Mouse "HOL-Library.Multiset"
begin

text \<open>
  USB keyboards and mice (\<open>src/hw/usb-hid.c\<close>). A report of a keyboard lists the keys that are down; the code compares it
  with the last one and feeds the scan codes of what changed to \<open>process_key\<close>, as a keyboard of the old kind would send
  them. The functions between the report and \<open>process_key\<close> take it as an argument (\<open>pk\<close>); \<open>usb_check_key\<close> gives them
  the one of the theory Keyboard.
\<close>

section \<open>Setup\<close>

definition HID_REQ_SET_IDLE :: u8 where "HID_REQ_SET_IDLE = 0x0a"
definition HID_REQ_SET_PROTOCOL :: u8 where "HID_REQ_SET_PROTOCOL = 0x0b"
definition USB_INTERFACE_SUBCLASS_BOOT :: u8 where "USB_INTERFACE_SUBCLASS_BOOT = 1"
definition USB_INTERFACE_PROTOCOL_KEYBOARD :: u8 where "USB_INTERFACE_PROTOCOL_KEYBOARD = 1"
definition USB_INTERFACE_PROTOCOL_MOUSE :: u8 where "USB_INTERFACE_PROTOCOL_MOUSE = 2"
definition KEYREPEATWAITMS :: nat where "KEYREPEATWAITMS = 500"
definition KEYREPEATMS :: nat where "KEYREPEATMS = 33"

text \<open>The report kept from the last time, and a report of the keyboard (\<open>struct keyevent\<close>).\<close>

record usbkeyinfo =
  uk_modifiers :: u8
  uk_repeatcount :: u8
  uk_keys :: "u8 list"

record keyevent =
  ke_modifiers :: u8
  ke_keys :: "u8 list"

record hid_state =
  keyboard_pipe :: "usb_pipe option"
  mouse_pipe :: "usb_pipe option"
  LastUSBkey :: usbkeyinfo

definition set_protocol :: "'h usb_env \<Rightarrow> usb_pipe \<Rightarrow> u16 \<Rightarrow> 'h \<Rightarrow> int \<times> 'h" where
  "set_protocol env pipe val h =
     (let (ret, _, h1) = usb_send_default_control env False pipe
            (device_request (USB_DIR_OUT OR USB_TYPE_CLASS OR USB_RECIP_INTERFACE) HID_REQ_SET_PROTOCOL val 0 0) [] h
      in (ret, h1))"

definition set_idle :: "'h usb_env \<Rightarrow> usb_pipe \<Rightarrow> nat \<Rightarrow> 'h \<Rightarrow> int \<times> 'h" where
  "set_idle env pipe ms h =
     (let (ret, _, h1) = usb_send_default_control env False pipe
            (device_request (USB_DIR_OUT OR USB_TYPE_CLASS OR USB_RECIP_INTERFACE) HID_REQ_SET_IDLE (push_bit 8 (of_nat (ms div 4))) 0 0) [] h
      in (ret, h1))"

definition usb_kbd_setup ::
    "'h usb_env \<Rightarrow> usbdevice_s \<Rightarrow> usb_endpoint_descriptor \<Rightarrow> hid_state \<Rightarrow> 'h \<Rightarrow> int \<times> hid_state \<times> 'h" where
  "usb_kbd_setup env usbdev epdesc st h =
     (if keyboard_pipe st \<noteq> None \<or> wMaxPacketSize epdesc \<noteq> 8 then (-1, st, h)
      else
        let defpipe = the (ud_defpipe usbdev); (ret, h1) = set_protocol env defpipe 0 h
        in if ret \<noteq> 0 then (-1, st, h1)
           else
             let (ret, h2) = set_idle env defpipe KEYREPEATMS h1
             in if ret \<noteq> 0 then (-1, st, h2)
                else let (p, h3) = usb_alloc_pipe env usbdev (Some epdesc) h2
                     in (if p = None then -1 else 0, st\<lparr>keyboard_pipe := p\<rparr>, h3))"

definition usb_mouse_setup ::
    "'h usb_env \<Rightarrow> usbdevice_s \<Rightarrow> usb_endpoint_descriptor \<Rightarrow> hid_state \<Rightarrow> 'h \<Rightarrow> int \<times> hid_state \<times> 'h" where
  "usb_mouse_setup env usbdev epdesc st h =
     (if mouse_pipe st \<noteq> None \<or> wMaxPacketSize epdesc < 3 \<or> wMaxPacketSize epdesc > 8 then (-1, st, h)
      else
        let (ret, h1) = set_protocol env (the (ud_defpipe usbdev)) 0 h
        in if ret \<noteq> 0 then (-1, st, h1)
           else let (p, h2) = usb_alloc_pipe env usbdev (Some epdesc) h1
                in (if p = None then -1 else 0, st\<lparr>mouse_pipe := p\<rparr>, h2))"

definition usb_hid_setup :: "'h usb_env \<Rightarrow> usbdevice_s \<Rightarrow> hid_state \<Rightarrow> 'h \<Rightarrow> (int \<times> hid_state \<times> 'h) option" where
  "usb_hid_setup env usbdev st h =
     (let c = ud_config usbdev; iface = ud_iface usbdev
      in if bInterfaceSubClass c iface \<noteq> USB_INTERFACE_SUBCLASS_BOOT then Some (-1, st, h)
         else map_option (\<lambda>ep. case ep of
                None \<Rightarrow> (-1, st, h)
              | Some epdesc \<Rightarrow>
                  if bInterfaceProtocol c iface = USB_INTERFACE_PROTOCOL_KEYBOARD then usb_kbd_setup env usbdev epdesc st h
                  else if bInterfaceProtocol c iface = USB_INTERFACE_PROTOCOL_MOUSE then usb_mouse_setup env usbdev epdesc st h
                  else (-1, st, h))
              (usb_find_desc usbdev USB_ENDPOINT_XFER_INT USB_DIR_IN))"

section \<open>Keyboard events\<close>

definition KeyToScanCode :: "u16 list" where
  "KeyToScanCode =
     [0x0000, 0x0000, 0x0000, 0x0000, 0x001e, 0x0030, 0x002e, 0x0020,
      0x0012, 0x0021, 0x0022, 0x0023, 0x0017, 0x0024, 0x0025, 0x0026,
      0x0032, 0x0031, 0x0018, 0x0019, 0x0010, 0x0013, 0x001f, 0x0014,
      0x0016, 0x002f, 0x0011, 0x002d, 0x0015, 0x002c, 0x0002, 0x0003,
      0x0004, 0x0005, 0x0006, 0x0007, 0x0008, 0x0009, 0x000a, 0x000b,
      0x001c, 0x0001, 0x000e, 0x000f, 0x0039, 0x000c, 0x000d, 0x001a,
      0x001b, 0x002b, 0x0000, 0x0027, 0x0028, 0x0029, 0x0033, 0x0034,
      0x0035, 0x003a, 0x003b, 0x003c, 0x003d, 0x003e, 0x003f, 0x0040,
      0x0041, 0x0042, 0x0043, 0x0044, 0x0057, 0x0058, 0xe037, 0x0046,
      0xe145, 0xe052, 0xe047, 0xe049, 0xe053, 0xe04f, 0xe051, 0xe04d,
      0xe04b, 0xe050, 0xe048, 0x0045, 0xe035, 0x0037, 0x004a, 0x004e,
      0xe01c, 0x004f, 0x0050, 0x0051, 0x004b, 0x004c, 0x004d, 0x0047,
      0x0048, 0x0049, 0x0052, 0x0053]"

definition ModifierToScanCode :: "u16 list" where
  "ModifierToScanCode = [0x001d, 0x002a, 0x0038, 0xe05b, 0xe01d, 0x0036, 0xe038, 0xe05c]"

definition RELEASEBIT :: u8 where "RELEASEBIT = 0x80"

definition prockeys :: "(u8 \<Rightarrow> 's \<Rightarrow> 's) \<Rightarrow> u16 \<Rightarrow> u8 \<Rightarrow> u8 \<Rightarrow> 's \<Rightarrow> 's" where
  "prockeys pk scancode key_release mods s =
     (if scancode > 0xff then
        if scancode = 0xe145 then
          if mods AND 0x11 \<noteq> 0 then pk (0x46 OR key_release) (pk 0xe0 s)
          else pk (0x45 OR key_release) (pk (0x1d OR key_release) (pk 0xe1 s))
        else if scancode = 0xe037 \<and> mods AND 0x44 \<noteq> 0 then pk (0x54 OR key_release) s
        else pk (ucast scancode OR key_release) (pk 0xe0 s)
      else pk (ucast scancode OR key_release) s)"

definition procscankey :: "(u8 \<Rightarrow> 's \<Rightarrow> 's) \<Rightarrow> u8 \<Rightarrow> u8 \<Rightarrow> u8 \<Rightarrow> 's \<Rightarrow> 's" where
  "procscankey pk key key_release mods s =
     (if unat key \<ge> length KeyToScanCode then s
      else let scancode = KeyToScanCode ! unat key in if scancode \<noteq> 0 then prockeys pk scancode key_release mods s else s)"

text \<open>The loop of \<open>procmodkey\<close>: \<open>i\<close> counts up while \<open>mods\<close> is not zero, which it is after 8 steps.\<close>

fun procmod_loop :: "(u8 \<Rightarrow> 's \<Rightarrow> 's) \<Rightarrow> u8 \<Rightarrow> nat list \<Rightarrow> u8 \<Rightarrow> 's \<Rightarrow> 's" where
  "procmod_loop pk key_release [] mods s = s"
| "procmod_loop pk key_release (i # is) mods s =
     (if mods = 0 then s
      else if mods AND push_bit i 1 \<noteq> 0 then
        procmod_loop pk key_release is (mods AND NOT (push_bit i 1)) (prockeys pk (ModifierToScanCode ! i) key_release 0 s)
      else procmod_loop pk key_release is mods s)"

definition procmodkey :: "(u8 \<Rightarrow> 's \<Rightarrow> 's) \<Rightarrow> u8 \<Rightarrow> u8 \<Rightarrow> 's \<Rightarrow> 's" where
  "procmodkey pk mods key_release s = procmod_loop pk key_release [0..<8] mods s"

text \<open>The inner loop over the keys of the report: the first position of a key.\<close>

fun find_key :: "u8 \<Rightarrow> u8 list \<Rightarrow> nat option" where
  "find_key key [] = None"
| "find_key key (k # ks) = (if k = key then Some 0 else map_option Suc (find_key key ks))"

text \<open>The loop over the old keys, from position \<open>i\<close> on: the old keys, those of the report, \<open>addpos\<close> and \<open>repeatcount\<close>.\<close>

fun old_keys_loop :: "(u8 \<Rightarrow> 's \<Rightarrow> 's) \<Rightarrow> u8 \<Rightarrow> nat list \<Rightarrow> u8 list \<times> u8 list \<times> nat \<times> u8 \<times> 's \<Rightarrow> u8 list \<times> u8 list \<times> nat \<times> u8 \<times> 's" where
  "old_keys_loop pk mods [] v = v"
| "old_keys_loop pk mods (i # is) (old, new, addpos, rc, s) =
     (let key = old ! i
      in if key = 0 then (old, new, addpos, rc, s)
         else case find_key key new of
                None \<Rightarrow>
                  old_keys_loop pk mods is
                    (old, new, addpos, if i + 1 \<ge> length old \<or> old ! (i + 1) = 0 then 0xff else rc, procscankey pk key RELEASEBIT mods s)
              | Some j \<Rightarrow> old_keys_loop pk mods is (old[addpos := key], new[j := 0], addpos + 1, rc, s))"

text \<open>The loop over what is left of the report.\<close>

fun new_keys_loop :: "(u8 \<Rightarrow> 's \<Rightarrow> 's) \<Rightarrow> u8 \<Rightarrow> u8 list \<Rightarrow> u8 list \<times> nat \<times> u8 \<times> 's \<Rightarrow> u8 list \<times> nat \<times> u8 \<times> 's" where
  "new_keys_loop pk mods [] v = v"
| "new_keys_loop pk mods (key # ks) (old, addpos, rc, s) =
     (if key = 0 then new_keys_loop pk mods ks (old, addpos, rc, s)
      else new_keys_loop pk mods ks
             (old[addpos := key], addpos + 1, of_nat (KEYREPEATWAITMS div KEYREPEATMS + 1), procscankey pk key 0 mods s))"

definition handle_key :: "(u8 \<Rightarrow> 's \<Rightarrow> 's) \<Rightarrow> keyevent \<Rightarrow> usbkeyinfo \<Rightarrow> 's \<Rightarrow> usbkeyinfo \<times> 's" where
  "handle_key pk data old s =
     (let mods = ke_modifiers data;
          (keys1, new1, addpos1, rc1, s1) = old_keys_loop pk mods [0..<length (uk_keys old)] (uk_keys old, ke_keys data, 0, uk_repeatcount old, s);
          s2 = procmodkey pk (uk_modifiers old AND NOT mods) RELEASEBIT s1;
          s3 = procmodkey pk (mods AND NOT (uk_modifiers old)) 0 s2;
          (keys4, addpos, rc4, s4) = new_keys_loop pk mods new1 (keys1, addpos1, rc1, s3);
          keys5 = (if addpos < length keys4 then keys4[addpos := 0] else keys4);
          (rc6, s6) = (if addpos \<noteq> 0 then
                         if rc4 = 0 then (rc4, procscankey pk (keys5 ! (addpos - 1)) 0 mods s4)
                         else if rc4 \<noteq> 0xff then (rc4 - 1, s4) else (rc4, s4)
                       else (rc4, s4))
      in (\<lparr>uk_modifiers = mods, uk_repeatcount = rc6, uk_keys = keys5\<rparr>, s6))"

text \<open>The loop of \<open>usb_check_key\<close> over the reports that \<open>usb_poll_intr\<close> has: it ends when there is none.\<close>

definition keyevent_of :: "u8 list \<Rightarrow> keyevent" where
  "keyevent_of bs = \<lparr>ke_modifiers = bs ! 0, ke_keys = take 6 (drop 2 bs)\<rparr>"

partial_function (option) check_key_loop ::
    "'h usb_env \<Rightarrow> kbd_hw \<Rightarrow> usb_pipe \<Rightarrow> usbkeyinfo \<Rightarrow> kbd_state \<Rightarrow> 'h \<Rightarrow> (usbkeyinfo \<times> kbd_state \<times> 'h) option" where
  "check_key_loop env hw pipe info ks h =
     (case usb_poll_intr env pipe h of
        (None, h1) \<Rightarrow> Some (info, ks, h1)
      | (Some bs, h1) \<Rightarrow>
          let (info1, ks1) = handle_key (process_key hw) (keyevent_of bs) info ks
          in check_key_loop env hw pipe info1 ks1 h1)"

definition usb_check_key :: "'h usb_env \<Rightarrow> kbd_hw \<Rightarrow> hid_state \<Rightarrow> kbd_state \<Rightarrow> 'h \<Rightarrow> (hid_state \<times> kbd_state \<times> 'h) option" where
  "usb_check_key env hw st ks h =
     (case keyboard_pipe st of
        None \<Rightarrow> Some (st, ks, h)
      | Some pipe \<Rightarrow> map_option (\<lambda>(info, ks1, h1). (st\<lparr>LastUSBkey := info\<rparr>, ks1, h1)) (check_key_loop env hw pipe (LastUSBkey st) ks h))"

definition usb_kbd_active :: "hid_state \<Rightarrow> bool" where
  "usb_kbd_active st \<longleftrightarrow> keyboard_pipe st \<noteq> None"

text \<open>Result: the status, and the parameters that the command sets.\<close>

definition usb_kbd_command :: "u32 \<Rightarrow> u8 list \<Rightarrow> int \<times> u8 list" where
  "usb_kbd_command command param =
     (if command = ATKBD_CMD_GETID then (0, param[0 := 0xab, 1 := 0x83]) else (-1, param))"

section \<open>Mouse events\<close>

record mouseevent =
  me_buttons :: u8
  me_x :: u8
  me_y :: u8

definition handle_mouse :: "mouseevent \<Rightarrow> mouse_state \<Rightarrow> mouse_state" where
  "handle_mouse data st =
     (let x = me_x data; y = - me_y data;
          flag = (me_buttons data AND 0x7) OR push_bit 3 1 OR (if x AND 0x80 \<noteq> 0 then push_bit 4 1 else 0) OR
                 (if y AND 0x80 \<noteq> 0 then push_bit 5 1 else 0)
      in process_mouse y (process_mouse x (process_mouse flag st)))"

definition mouseevent_of :: "u8 list \<Rightarrow> mouseevent" where
  "mouseevent_of bs = \<lparr>me_buttons = bs ! 0, me_x = bs ! 1, me_y = bs ! 2\<rparr>"

partial_function (option) check_mouse_loop :: "'h usb_env \<Rightarrow> usb_pipe \<Rightarrow> mouse_state \<Rightarrow> 'h \<Rightarrow> (mouse_state \<times> 'h) option" where
  "check_mouse_loop env pipe ms h =
     (case usb_poll_intr env pipe h of
        (None, h1) \<Rightarrow> Some (ms, h1)
      | (Some bs, h1) \<Rightarrow> check_mouse_loop env pipe (handle_mouse (mouseevent_of bs) ms) h1)"

definition usb_check_mouse :: "'h usb_env \<Rightarrow> hid_state \<Rightarrow> mouse_state \<Rightarrow> 'h \<Rightarrow> (mouse_state \<times> 'h) option" where
  "usb_check_mouse env st ms h = (case mouse_pipe st of None \<Rightarrow> Some (ms, h) | Some pipe \<Rightarrow> check_mouse_loop env pipe ms h)"

definition usb_mouse_active :: "hid_state \<Rightarrow> bool" where
  "usb_mouse_active st \<longleftrightarrow> mouse_pipe st \<noteq> None"

definition usb_mouse_command :: "u32 \<Rightarrow> u8 list \<Rightarrow> int \<times> u8 list" where
  "usb_mouse_command command param =
     (if command \<in> {PSMOUSE_CMD_ENABLE, PSMOUSE_CMD_DISABLE, PSMOUSE_CMD_SETSCALE11, PSMOUSE_CMD_SETSCALE21, PSMOUSE_CMD_SETRATE, PSMOUSE_CMD_SETRES}
      then (0, param)
      else if command = PSMOUSE_CMD_RESET_BAT \<or> command = PSMOUSE_CMD_GETID then (0, param[0 := 0xaa, 1 := 0])
      else if command = PSMOUSE_CMD_GETINFO then (0, param[0 := 0, 1 := 4, 2 := 100])
      else (-1, param))"

definition usb_check_event ::
    "'h usb_env \<Rightarrow> kbd_hw \<Rightarrow> hid_state \<Rightarrow> kbd_state \<Rightarrow> mouse_state \<Rightarrow> 'h \<Rightarrow> (hid_state \<times> kbd_state \<times> mouse_state \<times> 'h) option" where
  "usb_check_event env hw st ks ms h =
     (case usb_check_key env hw st ks h of
        None \<Rightarrow> None
      | Some (st1, ks1, h1) \<Rightarrow> map_option (\<lambda>(ms1, h2). (st1, ks1, ms1, h2)) (usb_check_mouse env st1 ms h1))"

section \<open>Reports and scan codes\<close>

text \<open>The scan codes of a key and of a set of modifiers: what the code gives to a \<open>process_key\<close> that records.\<close>

definition key_codes :: "u8 \<Rightarrow> u8 \<Rightarrow> u8 \<Rightarrow> u8 list" where
  "key_codes key rel mods = procscankey (\<lambda>k t. t @ [k]) key rel mods []"

definition mod_codes :: "u8 \<Rightarrow> u8 \<Rightarrow> u8 list" where
  "mod_codes mods rel = procmodkey (\<lambda>k t. t @ [k]) mods rel []"

lemma prockeys_trace: "prockeys pk sc rel mods (fold pk t s) = fold pk (prockeys (\<lambda>k t. t @ [k]) sc rel mods t) s"
  by (simp add: prockeys_def)

lemma prockeys_from: "prockeys (\<lambda>k t. t @ [k]) sc rel mods t = t @ prockeys (\<lambda>k t. t @ [k]) sc rel mods []"
  by (simp add: prockeys_def)

lemma procscankey_codes: "procscankey pk key rel mods s = fold pk (key_codes key rel mods) s"
  using prockeys_trace [of pk _ rel mods "[]" s] by (simp add: procscankey_def key_codes_def Let_def)

lemma procmod_loop_trace:
  "procmod_loop pk rel is mods (fold pk t s) = fold pk (procmod_loop (\<lambda>k t. t @ [k]) rel is mods t) s"
  by (induction "is" arbitrary: mods t) (simp_all add: prockeys_trace)

lemma procmodkey_codes: "procmodkey pk mods rel s = fold pk (mod_codes mods rel) s"
  using procmod_loop_trace [of pk rel _ mods "[]" s] by (simp add: procmodkey_def mod_codes_def)

text \<open>The keys that a kept report says are down, and those of a new one.\<close>

definition live_keys :: "usbkeyinfo \<Rightarrow> u8 list" where "live_keys info = takeWhile (\<lambda>k. k \<noteq> 0) (uk_keys info)"
definition down_keys :: "u8 list \<Rightarrow> u8 list" where "down_keys ks = filter (\<lambda>k. k \<noteq> 0) ks"

lemma find_key_None: "find_key key ks = None \<longleftrightarrow> key \<notin> set ks"
  by (induction ks) auto

lemma find_key_Some: "find_key key ks = Some j \<Longrightarrow> j < length ks \<and> ks ! j = key"
  by (induction ks arbitrary: j) (auto split: if_splits)

lemma down_keys_clear:
  assumes "j < length ks" "ks ! j = key" "key \<noteq> 0"
  shows "mset (down_keys ks) = add_mset key (mset (down_keys (ks[j := 0])))"
  using assms
proof (induction ks arbitrary: j)
  case (Cons k ks)
  then show ?case by (cases j) (auto simp: down_keys_def)
qed simp

lemma count_down: "key \<noteq> 0 \<Longrightarrow> key \<in> set ks \<longleftrightarrow> key \<in># mset (down_keys ks)"
  by (simp add: down_keys_def)

text \<open>The result of the loop over the old keys from position \<open>i\<close> on: \<open>rel\<close> have been released, \<open>kept\<close> are still down.\<close>

definition old_keys_done ::
    "(u8 \<Rightarrow> 's \<Rightarrow> 's) \<Rightarrow> u8 \<Rightarrow> nat \<Rightarrow> u8 list \<Rightarrow> u8 list \<Rightarrow> nat \<Rightarrow> u8 \<Rightarrow> 's \<Rightarrow> u8 list \<times> u8 list \<times> nat \<times> u8 \<times> 's \<Rightarrow> bool" where
  "old_keys_done pk mods i old new addpos rc s r \<longleftrightarrow>
     (\<exists>rel kept old' new' rc'.
        r = (old', new', addpos + length kept, rc', fold pk (concat (map (\<lambda>k. key_codes k RELEASEBIT mods) rel)) s) \<and>
        length old' = length old \<and> take (addpos + length kept) old' = take addpos old @ kept \<and> 0 \<notin> set kept \<and>
        length new' = length new \<and> mset (takeWhile (\<lambda>k. k \<noteq> 0) (drop i old)) = mset rel + mset kept \<and>
        mset (down_keys new) = mset kept + mset (down_keys new') \<and> set rel \<inter> set (down_keys new') = {} \<and>
        addpos + length kept \<le> length old \<and> (rc' = rc \<or> rc' = 0xff))"

lemma old_keys_stop:
  assumes "addpos \<le> length old" "takeWhile (\<lambda>k. k \<noteq> 0) (drop i old) = []"
  shows "old_keys_done pk mods i old new addpos rc s (old, new, addpos, rc, s)"
  unfolding old_keys_done_def using assms
  by (intro exI [of _ "[]"] exI [of _ "[]"] exI [of _ old] exI [of _ new] exI [of _ rc]) simp

lemma old_keys_release:
  assumes "old_keys_done pk mods (Suc i) old new addpos rc1 (fold pk (key_codes (old ! i) RELEASEBIT mods) s) r"
    "i < length old" "old ! i \<noteq> 0" "old ! i \<notin> set new" "rc1 = rc \<or> rc1 = 0xff"
  shows "old_keys_done pk mods i old new addpos rc s r"
proof -
  obtain rel kept old' new' rc' where r: "r = (old', new', addpos + length kept, rc',
      fold pk (concat (map (\<lambda>k. key_codes k RELEASEBIT mods) rel)) (fold pk (key_codes (old ! i) RELEASEBIT mods) s))"
    and len: "length old' = length old" "take (addpos + length kept) old' = take addpos old @ kept" "0 \<notin> set kept" "length new' = length new"
    and ms: "mset (takeWhile (\<lambda>k. k \<noteq> 0) (drop (Suc i) old)) = mset rel + mset kept" "mset (down_keys new) = mset kept + mset (down_keys new')"
    and d: "set rel \<inter> set (down_keys new') = {}" "addpos + length kept \<le> length old" "rc' = rc1 \<or> rc' = 0xff"
    using assms(1) unfolding old_keys_done_def by blast
  have "old ! i \<notin># mset (down_keys new)" using assms(3,4) by (simp add: down_keys_def)
  then have n: "old ! i \<notin># mset (down_keys new')" unfolding ms(2) by simp
  have "drop i old = old ! i # drop (Suc i) old" using assms(2) by (simp add: Cons_nth_drop_Suc)
  then have "mset (takeWhile (\<lambda>k. k \<noteq> 0) (drop i old)) = mset (old ! i # rel) + mset kept" using assms(3) ms(1) by simp
  moreover have "set (old ! i # rel) \<inter> set (down_keys new') = {}" using d(1) n by simp
  moreover have "rc' = rc \<or> rc' = 0xff" using d(3) assms(5) by auto
  ultimately show ?thesis unfolding old_keys_done_def using len ms(2) d(2) r
    by (intro exI [of _ "old ! i # rel"] exI [of _ kept] exI [of _ old'] exI [of _ new'] exI [of _ rc'] conjI) simp_all
qed

lemma old_keys_keep:
  assumes "old_keys_done pk mods (Suc i) (old[addpos := old ! i]) (new[j := 0]) (Suc addpos) rc s r"
    "i < length old" "addpos \<le> i" "old ! i \<noteq> 0" "j < length new" "new ! j = old ! i"
  shows "old_keys_done pk mods i old new addpos rc s r"
proof -
  obtain rel kept old' new' rc' where r: "r = (old', new', Suc addpos + length kept, rc',
      fold pk (concat (map (\<lambda>k. key_codes k RELEASEBIT mods) rel)) s)"
    and len: "length old' = length (old[addpos := old ! i])" "take (Suc addpos + length kept) old' = take (Suc addpos) (old[addpos := old ! i]) @ kept"
      "0 \<notin> set kept" "length new' = length (new[j := 0])"
    and ms: "mset (takeWhile (\<lambda>k. k \<noteq> 0) (drop (Suc i) (old[addpos := old ! i]))) = mset rel + mset kept"
      "mset (down_keys (new[j := 0])) = mset kept + mset (down_keys new')"
    and d: "set rel \<inter> set (down_keys new') = {}" "Suc addpos + length kept \<le> length (old[addpos := old ! i])" "rc' = rc \<or> rc' = 0xff"
    using assms(1) unfolding old_keys_done_def by blast
  have t: "take (Suc addpos) (old[addpos := old ! i]) = take addpos old @ [old ! i]" "drop (Suc i) (old[addpos := old ! i]) = drop (Suc i) old"
    using assms(2,3) by (simp_all add: take_Suc_conv_app_nth)
  have "drop i old = old ! i # drop (Suc i) old" using assms(2) by (simp add: Cons_nth_drop_Suc)
  then show ?thesis unfolding old_keys_done_def
    using len ms d assms(4) r t down_keys_clear [OF assms(5,6,4)]
    by (intro exI [of _ rel] exI [of _ "old ! i # kept"] exI [of _ old'] exI [of _ new'] exI [of _ rc'] conjI) simp_all
qed

lemma old_keys_run:
  "addpos \<le> i \<Longrightarrow> i \<le> length old \<Longrightarrow> k = length old - i \<Longrightarrow>
     old_keys_done pk mods i old new addpos rc s (old_keys_loop pk mods [i..<length old] (old, new, addpos, rc, s))"
proof (induction k arbitrary: i old new addpos rc s)
  case 0
  then show ?case by (simp add: old_keys_stop)
next
  case (Suc k)
  then have i: "i < length old" by simp
  then have up: "[i..<length old] = i # [Suc i..<length old]" and dr: "drop i old = old ! i # drop (Suc i) old"
    by (simp_all add: upt_conv_Cons Cons_nth_drop_Suc)
  show ?case
  proof (cases "old ! i = 0")
    case True
    then show ?thesis using Suc.prems by (simp add: up dr old_keys_stop)
  next
    case nz: False
    show ?thesis
    proof (cases "find_key (old ! i) new")
      case None
      let ?rc = "if i + 1 \<ge> length old \<or> old ! (i + 1) = 0 then 0xff else rc"
      have "old_keys_done pk mods (Suc i) old new addpos ?rc (fold pk (key_codes (old ! i) RELEASEBIT mods) s)
          (old_keys_loop pk mods [Suc i..<length old] (old, new, addpos, ?rc, fold pk (key_codes (old ! i) RELEASEBIT mods) s))"
        using Suc.prems by (intro Suc.IH) auto
      then have "old_keys_done pk mods i old new addpos rc s
          (old_keys_loop pk mods [Suc i..<length old] (old, new, addpos, ?rc, fold pk (key_codes (old ! i) RELEASEBIT mods) s))"
        by (rule old_keys_release) (use i nz None in \<open>auto simp: find_key_None\<close>)
      then show ?thesis using nz None by (simp add: up procscankey_codes Let_def)
    next
      case (Some j)
      let ?old = "old[addpos := old ! i]"
      have "old_keys_done pk mods (Suc i) ?old (new[j := 0]) (Suc addpos) rc s
          (old_keys_loop pk mods [Suc i..<length ?old] (?old, new[j := 0], Suc addpos, rc, s))"
        using Suc.prems by (intro Suc.IH) auto
      then have "old_keys_done pk mods i old new addpos rc s (old_keys_loop pk mods [Suc i..<length ?old] (?old, new[j := 0], Suc addpos, rc, s))"
        by (rule old_keys_keep) (use i nz Suc.prems find_key_Some [OF Some] in auto)
      then show ?thesis using nz Some by (simp add: up Let_def)
    qed
  qed
qed

text \<open>The loop over the new keys: they are appended, and there is room for them.\<close>

lemma new_keys_run:
  assumes "addpos + length (down_keys ks) \<le> length old"
  shows "\<exists>old' rc'. new_keys_loop pk mods ks (old, addpos, rc, s) =
      (old', addpos + length (down_keys ks), rc', fold pk (concat (map (\<lambda>k. key_codes k 0 mods) (down_keys ks))) s) \<and>
    length old' = length old \<and> take (addpos + length (down_keys ks)) old' = take addpos old @ down_keys ks \<and>
    (if down_keys ks = [] then rc' = rc else rc' = 16)"
  using assms
proof (induction ks arbitrary: old addpos rc s)
  case Nil
  then show ?case by (simp add: down_keys_def)
next
  case (Cons k ks)
  show ?case
  proof (cases "k = 0")
    case True
    then show ?thesis using Cons by (simp add: down_keys_def)
  next
    case False
    then have d: "down_keys (k # ks) = k # down_keys ks" by (simp add: down_keys_def)
    have "Suc addpos + length (down_keys ks) \<le> length (old[addpos := k])" using Cons.prems by (simp add: d)
    from Cons.IH [OF this, of 16 "fold pk (key_codes k 0 mods) s"] False Cons.prems show ?thesis
      by (auto simp: d procscankey_codes KEYREPEATWAITMS_def KEYREPEATMS_def take_Suc_conv_app_nth split: if_splits)
  qed
qed

lemma takeWhile_at: "n \<le> length xs \<Longrightarrow> 0 \<notin> set (take n xs) \<Longrightarrow> n = length xs \<or> xs ! n = (0 :: u8) \<Longrightarrow> takeWhile (\<lambda>k. k \<noteq> 0) xs = take n xs"
  by (induction xs arbitrary: n) (auto simp: take_Cons' nth_Cons' split: if_splits)

lemma mset_split:
  assumes "L = R + K" "D = K + N" "set_mset R \<inter> set_mset N = {}"
  shows "R = L - D" "N = D - L"
proof -
  have "R - N = R" "N - R = N" using assms(3) by (simp_all add: disjunct_not_in diff_single_trivial multiset_eq_iff count_eq_zero_iff disjoint_iff)
     (metis (no_types, lifting) diff_zero not_in_iff zero_diff)+
  then show "R = L - D" "N = D - L" unfolding assms(1,2) by (simp_all add: add.commute)
qed

text \<open>The report of the theorem: the codes of one report, in their order.\<close>

definition report_codes :: "u8 list \<Rightarrow> u8 \<Rightarrow> u8 \<Rightarrow> u8 list \<Rightarrow> u8 list" where
  "report_codes rel oldmods mods new =
     concat (map (\<lambda>k. key_codes k RELEASEBIT mods) rel) @ mod_codes (oldmods AND NOT mods) RELEASEBIT @
     mod_codes (mods AND NOT oldmods) 0 @ concat (map (\<lambda>k. key_codes k 0 mods) new)"

text \<open>
  C34. The code keeps track of the keys that are down: after a report of a keyboard the kept keys are those of the report,
  each as often as it is there, in a table of six that never overflows. What goes to \<open>process_key\<close> are the codes for the
  release of the keys that are no longer down, of the modifiers released and pressed, and of the keys that are newly down,
  in this order; when nothing is newly pressed, at most the last key is repeated.
\<close>

theorem usb_report_tracks_keys:
  assumes "length (uk_keys info) = 6" "length (ke_keys data) = 6"
  shows "\<exists>info' rel kept new rep.
    handle_key pk data info s =
      (info', fold pk (report_codes rel (uk_modifiers info) (ke_modifiers data) new @ rep) s) \<and>
    length (uk_keys info') = 6 \<and> uk_modifiers info' = ke_modifiers data \<and> live_keys info' = kept @ new \<and>
    mset (live_keys info') = mset (down_keys (ke_keys data)) \<and>
    mset rel = mset (live_keys info) - mset (down_keys (ke_keys data)) \<and>
    mset new = mset (down_keys (ke_keys data)) - mset (live_keys info) \<and>
    (rep = [] \<or> new = [] \<and> live_keys info' \<noteq> [] \<and> uk_repeatcount info = 0 \<and> rep = key_codes (last (live_keys info')) 0 (ke_modifiers data))"
proof -
  define mods where "mods = ke_modifiers data"
  have "old_keys_done pk mods 0 (uk_keys info) (ke_keys data) 0 (uk_repeatcount info) s
      (old_keys_loop pk mods [0..<length (uk_keys info)] (uk_keys info, ke_keys data, 0, uk_repeatcount info, s))"
    by (rule old_keys_run) simp_all
  then obtain rel kept old' new' rc' where
    o': "old_keys_loop pk mods [0..<length (uk_keys info)] (uk_keys info, ke_keys data, 0, uk_repeatcount info, s) =
      (old', new', 0 + length kept, rc', fold pk (concat (map (\<lambda>k. key_codes k RELEASEBIT mods) rel)) s)"
    and len': "length old' = length (uk_keys info)" "take (0 + length kept) old' = take 0 (uk_keys info) @ kept" "0 \<notin> set kept"
      "length new' = length (ke_keys data)" "0 + length kept \<le> length (uk_keys info)"
    and ms': "mset (takeWhile (\<lambda>k. k \<noteq> 0) (drop 0 (uk_keys info))) = mset rel + mset kept"
    and ms: "mset (down_keys (ke_keys data)) = mset kept + mset (down_keys new')"
      "set rel \<inter> set (down_keys new') = {}" "rc' = uk_repeatcount info \<or> rc' = 0xff"
    unfolding old_keys_done_def by (elim exE conjE) (rule that)
  note o = o' [unfolded add_0] and live_split = ms' [unfolded drop_0, folded live_keys_def]
  have len: "length old' = 6" "take (length kept) old' = kept" "length kept \<le> 6" using len' assms(1) by simp_all
  define nk where "nk = down_keys new'"
  have "size (mset (down_keys (ke_keys data))) \<le> 6" unfolding size_mset down_keys_def assms(2) [symmetric] by (rule length_filter_le)
  then have room: "length kept + length nk \<le> length old'" using len(1) by (simp add: ms(1) nk_def)
  define s3 where "s3 = procmodkey pk (mods AND NOT (uk_modifiers info)) 0 (procmodkey pk (uk_modifiers info AND NOT mods) RELEASEBIT
    (fold pk (concat (map (\<lambda>k. key_codes k RELEASEBIT mods) rel)) s))"
  obtain keys4 rc4 where n: "new_keys_loop pk mods new' (old', length kept, rc', s3) =
      (keys4, length kept + length nk, rc4, fold pk (concat (map (\<lambda>k. key_codes k 0 mods) nk)) s3)"
    "length keys4 = 6" "take (length kept + length nk) keys4 = kept @ nk" "if nk = [] then rc4 = rc' else rc4 = 16"
    using new_keys_run [of "length kept" new' old' pk mods rc' s3] room len(1,2) by (auto simp: nk_def)
  have s4: "fold pk (concat (map (\<lambda>k. key_codes k 0 mods) nk)) s3 = fold pk (report_codes rel (uk_modifiers info) mods nk) s"
    by (simp add: s3_def report_codes_def procmodkey_codes)
  define ap where "ap = length kept + length nk"
  define keys5 where "keys5 = (if ap < 6 then keys4[ap := 0] else keys4)"
  have k5: "length keys5 = 6" "take ap keys5 = kept @ nk" using n(2,3) by (simp_all add: keys5_def ap_def)
  have ap6: "ap \<le> 6" using room len(1) by (simp add: ap_def)
  have "takeWhile (\<lambda>k. k \<noteq> 0) keys5 = take ap keys5"
  proof (rule takeWhile_at)
    show "ap \<le> length keys5" using ap6 k5(1) by simp
    show "0 \<notin> set (take ap keys5)" unfolding k5(2) using len'(3) by (auto simp: nk_def down_keys_def)
    show "ap = length keys5 \<or> keys5 ! ap = 0" using ap6 n(2) by (auto simp: keys5_def)
  qed
  then have live: "takeWhile (\<lambda>k. k \<noteq> 0) keys5 = kept @ nk" using k5 by simp
  have lst: "ap \<noteq> 0 \<Longrightarrow> keys5 ! (ap - 1) = last (kept @ nk)"
    using k5 room len(1) by (metis ap_def last_conv_nth length_append length_greater_0_conv nth_take diff_less zero_less_one neq0_conv)
  define again where "again = (ap \<noteq> 0 \<and> rc4 = 0)"
  define info' where "info' = \<lparr>uk_modifiers = mods, uk_repeatcount = (if ap \<noteq> 0 \<and> rc4 \<noteq> 0 \<and> rc4 \<noteq> 0xff then rc4 - 1 else rc4), uk_keys = keys5\<rparr>"
  have run: "handle_key pk data info s = (info', fold pk (report_codes rel (uk_modifiers info) mods nk @
      (if again then key_codes (last (kept @ nk)) 0 mods else [])) s)"
    using o n(1,2) s4 lst by (simp add: handle_key_def Let_def info'_def again_def procscankey_codes ap_def [symmetric] keys5_def [symmetric]
        flip: mods_def s3_def)
  have again: "again \<Longrightarrow> nk = [] \<and> uk_repeatcount info = 0 \<and> kept \<noteq> []" using n(4) ms(3) by (auto simp: again_def ap_def split: if_splits)
  have l': "live_keys info' = kept @ nk" "uk_modifiers info' = mods" "length (uk_keys info') = 6" using live k5(1) by (simp_all add: live_keys_def info'_def)
  show ?thesis unfolding l' mods_def [symmetric]
    apply (rule exI [of _ info'], rule exI [of _ rel], rule exI [of _ kept], rule exI [of _ nk])
    apply (rule exI [of _ "if again then key_codes (last (kept @ nk)) 0 mods else []"])
    using run again mset_split [OF live_split ms(1)] live_split ms l' by (simp add: nk_def)
qed


definition usb_sample_info :: usbkeyinfo where
  "usb_sample_info = \<lparr>uk_modifiers = 0x02, uk_repeatcount = 0xff, uk_keys = [4, 5, 0, 0, 0, 0]\<rparr>"

definition usb_sample_event :: keyevent where
  "usb_sample_event = \<lparr>ke_modifiers = 0, ke_keys = [6, 4, 0, 0, 0, 0]\<rparr>"

theorem usb_report_tracks_keys_witness:
  "\<exists>info' rel kept new rep.
    handle_key (\<lambda>k t. t @ [k]) usb_sample_event usb_sample_info [] = (info', fold (\<lambda>k t. t @ [k]) (report_codes rel 2 0 new @ rep) []) \<and>
    live_keys info' = kept @ new \<and> mset (live_keys info') = {#6, 4#} \<and> mset rel = {#5#} \<and> mset new = {#6#}"
proof -
  have len: "length (uk_keys usb_sample_info) = 6" "length (ke_keys usb_sample_event) = 6" by (simp_all add: usb_sample_info_def usb_sample_event_def)
  have sel: "uk_modifiers usb_sample_info = 2" "ke_modifiers usb_sample_event = 0" "live_keys usb_sample_info = [4, 5]"
    "down_keys (ke_keys usb_sample_event) = [6, 4]" by (simp_all add: usb_sample_info_def usb_sample_event_def live_keys_def down_keys_def)
  from usb_report_tracks_keys [OF len, of "\<lambda>k t. t @ [k]" "[]", unfolded sel] obtain info' rel kept new rep where
    "handle_key (\<lambda>k t. t @ [k]) usb_sample_event usb_sample_info [] = (info', fold (\<lambda>k t. t @ [k]) (report_codes rel 2 0 new @ rep) [])"
    "live_keys info' = kept @ new" "mset (live_keys info') = mset [6, 4]" "mset rel = mset [4, 5] - mset [6, 4]" "mset new = mset [6, 4] - mset [4, 5]"
    by (elim exE conjE) (rule that)
  then show ?thesis by - (rule exI [of _ info'], rule exI [of _ rel], rule exI [of _ kept], rule exI [of _ new], rule exI [of _ rep], simp)
qed

text \<open>A movement of a mouse reaches the handler as one packet: buttons and signs, then the two distances, up positive.\<close>

lemma usb_mouse_reaches_handler:
  assumes "mouse_collecting seg func 3 [] st" "0x41 \<le> seg"
  shows "\<exists>flag. mouse_collecting seg func 3 [] (handle_mouse data st) \<and>
    mlog (handle_mouse data st) = mlog st @ [MouseCall func (ucast flag) (ucast (me_x data)) (ucast (- me_y data))] \<and>
    flag AND 7 = me_buttons data AND 7 \<and> (bit flag 4 \<longleftrightarrow> bit (me_x data) 7) \<and> (bit flag 5 \<longleftrightarrow> bit (- me_y data) 7)"
proof -
  have sign: "v AND 0x80 \<noteq> 0 \<longleftrightarrow> bit v 7" for v :: u8
    using bit_iff_and_push_bit_not_eq_0 [of v 7] by (simp add: push_bit_eq_mult)
  define flag where "flag = (me_buttons data AND 0x7) OR push_bit 3 1 OR (if me_x data AND 0x80 \<noteq> 0 then push_bit 4 1 else 0) OR
    (if - me_y data AND 0x80 \<noteq> 0 then push_bit 5 1 else 0)"
  have "handle_mouse data st = fold process_mouse [flag, me_x data, - me_y data] st"
    by (simp add: handle_mouse_def flag_def Let_def)
  moreover have "flag AND 7 = me_buttons data AND 7" by (rule bit_word_eqI) (auto simp: flag_def bit_simps less_Suc_eq numeral_eq_Suc split: if_splits)
  moreover have "bit flag 4 \<longleftrightarrow> bit (me_x data) 7" "bit flag 5 \<longleftrightarrow> bit (- me_y data) 7"
    unfolding sign [symmetric] by (simp_all add: flag_def bit_simps)
  ultimately show ?thesis using packet [OF assms, of "[flag, me_x data, - me_y data]"] by auto
qed

end
