(* ===== verification/UsbStorage.thy ===== *)
theory UsbStorage
  imports UsbHub ScsiSetup
begin

text \<open>
  USB mass storage: the bulk-only transport (\<open>src/hw/usb-msc.c\<close>) and attached SCSI (\<open>src/hw/usb-uas.c\<close>). An operation
  becomes a command for the device, a transfer of the data and a status. The wrappers around them are local variables of
  the code and values here; \<open>sp\<close> is the address on the stack at which \<open>scsi_fill_cmd\<close> builds the command block. A
  property says that the transport reads and writes what is on the disk of a device that follows the protocol.
\<close>

section \<open>Bulk-only transport\<close>

definition USB_CDB_SIZE :: u32 where "USB_CDB_SIZE = 12"
definition CBW_SIGNATURE :: u32 where "CBW_SIGNATURE = 0x43425355"
definition DISK_RET_EBADTRACK :: u8 where "DISK_RET_EBADTRACK = 0x0c"
definition sizeof_csw :: nat where "sizeof_csw = 13"
definition US_SC_ATAPI_8020 :: u8 where "US_SC_ATAPI_8020 = 0x02"
definition US_SC_ATAPI_8070 :: u8 where "US_SC_ATAPI_8070 = 0x05"
definition US_SC_SCSI :: u8 where "US_SC_SCSI = 0x06"

text \<open>A drive without its part that all drives have.\<close>

record usbdrive_s =
  bulkin :: usb_pipe
  bulkout :: usb_pipe
  ms_lun :: u32

text \<open>A transfer between memory and a pipe: data out is read at \<open>buf\<close>, data in is stored there.\<close>

definition bulk_out :: "'h usb_env \<Rightarrow> bool \<Rightarrow> usb_pipe \<Rightarrow> u8 list \<Rightarrow> 'h \<Rightarrow> int \<times> 'h" where
  "bulk_out env modeseg pipe data h = (let (ret, _, h1) = usb_send_bulk env modeseg pipe USB_DIR_OUT data (length data) h in (ret, h1))"

definition bulk_in :: "'h usb_env \<Rightarrow> bool \<Rightarrow> usb_pipe \<Rightarrow> nat \<Rightarrow> 'h \<Rightarrow> int \<times> u8 list \<times> 'h" where
  "bulk_in env modeseg pipe n h = usb_send_bulk env modeseg pipe USB_DIR_IN [] n h"

text \<open>\<open>usb_msc_send\<close>: the pipe for a direction, and the transfer of the data of an operation; the wrappers go through
  the same pipes.\<close>

definition msc_pipe :: "usbdrive_s \<Rightarrow> u8 \<Rightarrow> usb_pipe" where
  "msc_pipe ud dir = (if dir = USB_DIR_OUT then bulkout ud else bulkin ud)"

definition usb_msc_send :: "'h usb_env \<Rightarrow> bool \<Rightarrow> usbdrive_s \<Rightarrow> u8 \<Rightarrow> u32 \<Rightarrow> nat \<Rightarrow> mem \<times> 'h \<Rightarrow> int \<times> mem \<times> 'h" where
  "usb_msc_send env modeseg ud dir buf n = (\<lambda>(m, h).
     if dir = USB_DIR_OUT then
       let (ret, h1) = bulk_out env modeseg (msc_pipe ud dir) (mem_read m buf n) h in (ret, m, h1)
     else
       let (ret, bs, h1) = bulk_in env modeseg (msc_pipe ud dir) n h in (ret, mem_write buf bs m, h1))"

definition cbw_bytes :: "u32 \<Rightarrow> u8 \<Rightarrow> u8 \<Rightarrow> u8 list \<Rightarrow> u8 list" where
  "cbw_bytes len dir lun cdb =
     le_bytes 4 CBW_SIGNATURE @ le_bytes 4 (999 :: u32) @ le_bytes 4 len @ [dir, lun, ucast USB_CDB_SIZE] @ cdb @ replicate (16 - length cdb) 0"

text \<open>Result: the status, the count of the operation, and the memory and the device. Bytes of the status that the device does
  not send are zero here.\<close>

definition usb_process_op ::
    "'h usb_env \<Rightarrow> bool \<Rightarrow> u32 \<Rightarrow> usbdrive_s \<Rightarrow> drive_s \<Rightarrow> disk_op_s \<Rightarrow> mem \<times> 'h \<Rightarrow> int \<times> u16 \<times> mem \<times> 'h" where
  "usb_process_op env modeseg sp ud drive opn = (\<lambda>(m, h).
     let (blocksize, m1) = scsi_fill_cmd modeseg drive opn sp USB_CDB_SIZE m
     in if blocksize < 0 then (uint (default_process_op opn), op_count opn, m, h)
        else
          let bytes = (of_int blocksize * ucast (op_count opn) :: u32);
              dir = (if scsi_is_read modeseg opn then USB_DIR_IN else USB_DIR_OUT);
              cbw = cbw_bytes bytes dir (ucast (ms_lun ud)) (mem_read m1 sp (unat USB_CDB_SIZE));
              (ret, h1) = bulk_out env modeseg (msc_pipe ud USB_DIR_OUT) cbw h
          in if ret \<noteq> 0 then (uint DISK_RET_EBADTRACK, op_count opn, m, h1)
             else
               let (ret, m2, h2) = (if bytes \<noteq> 0 then usb_msc_send env modeseg ud dir (buf_fl opn) (unat bytes) (m, h1) else (0, m, h1))
               in if ret \<noteq> 0 then (uint DISK_RET_EBADTRACK, op_count opn, m2, h2)
                  else
                    let (ret, csw, h3) = bulk_in env modeseg (msc_pipe ud USB_DIR_IN) sizeof_csw h2;
                        sts = received csw (\<lambda>_. 0) 12;
                        residue = (le_word (map (received csw (\<lambda>_. 0)) [8..<12]) :: u32)
                    in if ret \<noteq> 0 then (uint DISK_RET_EBADTRACK, op_count opn, m2, h3)
                       else if sts = 0 then (uint DISK_RET_SUCCESS, op_count opn, m2, h3)
                       else if sts = 2 then (uint DISK_RET_EBADTRACK, op_count opn, m2, h3)
                       else (uint DISK_RET_EBADTRACK,
                             if blocksize \<noteq> 0 then op_count opn - ucast (residue div of_int blocksize) else op_count opn, m2, h3))"

definition usb_msc_maxlun :: "'h usb_env \<Rightarrow> usb_pipe \<Rightarrow> 'h \<Rightarrow> nat \<times> 'h" where
  "usb_msc_maxlun env pipe h =
     (let (ret, bs, h1) = usb_send_default_control env False pipe
            (device_request (USB_DIR_IN OR USB_TYPE_CLASS OR USB_RECIP_INTERFACE) 0xfe 0 0 1) [] h
      in (if ret \<noteq> 0 then 0 else unat (received bs (ue_heap env h1) 0), h1))"

definition malloc_fseg :: "u32 \<Rightarrow> fwstate \<Rightarrow> fwstate \<times> u32" where
  "malloc_fseg sz st = fw_alloc ZoneFSeg sz MALLOC_MIN_ALIGN st"

definition drive_cleared :: drive_s where
  "drive_cleared = \<lparr>dtype = 0, floppy_type = 0, lchs = \<lparr>chs_head = 0, chs_cylinder = 0, chs_sector = 0\<rparr>, sectors = 0, cntl_id = 0,
     removable = 0, translation = 0, blksize = 0, pchs = \<lparr>chs_head = 0, chs_cylinder = 0, chs_sector = 0\<rparr>\<rparr>"

text \<open>A new drive at \<open>p\<close>, given to \<open>scsi_drive_setup\<close>, and released when that fails. \<open>pci\<close> is the controller of the device,
  and the drivers in \<open>senv\<close> are what \<open>process_op\<close> calls.\<close>

type_synonym 'd lun_table = "(u32 \<Rightarrow> 'd) \<times> setup_state"

definition lun_drive_setup ::
    "setup_env \<Rightarrow> pci_device \<Rightarrow> usbdevice_s \<Rightarrow> string \<Rightarrow> u8 \<Rightarrow> u32 \<Rightarrow> 'd \<Rightarrow> u32 \<Rightarrow> 'd lun_table \<Rightarrow> (int \<times> 'd lun_table) option" where
  "lun_drive_setup senv pci usbdev name ty sz d lun = (\<lambda>(tab, st, bs).
     let (fw, p) = malloc_fseg sz (b_fw bs); bs1 = bs\<lparr>b_fw := fw\<rparr>
     in if p = 0 then Some (-1, tab, st, bs1)
        else
          let st1 = st\<lparr>sc_disk := (sc_disk st)\<lparr>drives := (drives (sc_disk st))(p := drive_cleared\<lparr>dtype := ty\<rparr>)\<rparr>\<rparr>;
              prio = bootprio_find_usb pci (ud_parents usbdev) (ud_port usbdev) lun bs1
          in map_option (\<lambda>(ret, st2, bs2).
               if ret \<noteq> 0 then (-1, tab(p := d), st2, bs2\<lparr>b_fw := free p (b_fw bs2)\<rparr>) else (0, tab(p := d), st2, bs2))
               (scsi_drive_setup senv p name prio (st1, bs1)))"

definition sizeof_usbdrive :: u32 where "sizeof_usbdrive = 60"

definition usb_msc_lun_setup ::
    "setup_env \<Rightarrow> pci_device \<Rightarrow> usb_pipe \<Rightarrow> usb_pipe \<Rightarrow> usbdevice_s \<Rightarrow> u32 \<Rightarrow> usbdrive_s lun_table \<Rightarrow> (int \<times> usbdrive_s lun_table) option" where
  "usb_msc_lun_setup senv pci inpipe outpipe usbdev lun =
     lun_drive_setup senv pci usbdev ''USB MSC'' (if usb_32bit_pipe inpipe then DTYPE_USB_32 else DTYPE_USB) sizeof_usbdrive
       \<lparr>bulkin = inpipe, bulkout = outpipe, ms_lun = lun\<rparr> lun"

text \<open>The loop over the logical units: whether one of them uses the pipes.\<close>

fun msc_luns :: "(u32 \<Rightarrow> 's \<Rightarrow> (int \<times> 's) option) \<Rightarrow> u32 list \<Rightarrow> bool \<Rightarrow> 's \<Rightarrow> (bool \<times> 's) option" where
  "msc_luns f [] used s = Some (used, s)"
| "msc_luns f (l # ls) used s = Option.bind (f l s) (\<lambda>(ret, s1). msc_luns f ls (used \<or> ret = 0) s1)"

definition usb_msc_setup ::
    "'h usb_env \<Rightarrow> setup_env \<Rightarrow> pci_device \<Rightarrow> usbdevice_s \<Rightarrow> usbdrive_s lun_table \<times> 'h \<Rightarrow> (int \<times> usbdrive_s lun_table \<times> 'h) option" where
  "usb_msc_setup env senv pci usbdev = (\<lambda>(s, h).
     let c = ud_config usbdev; sub = bInterfaceSubClass c (ud_iface usbdev);
         fail = (\<lambda>i out s h. Some (-1, s, usb_free_pipe env usbdev out (usb_free_pipe env usbdev i h)))
     in if sub \<noteq> US_SC_SCSI \<and> sub \<noteq> US_SC_ATAPI_8070 \<and> sub \<noteq> US_SC_ATAPI_8020 \<or> bInterfaceProtocol c (ud_iface usbdev) \<noteq> US_PR_BULK
        then Some (-1, s, h)
        else do {
          indesc \<leftarrow> usb_find_desc usbdev USB_ENDPOINT_XFER_BULK USB_DIR_IN;
          outdesc \<leftarrow> usb_find_desc usbdev USB_ENDPOINT_XFER_BULK USB_DIR_OUT;
          if indesc = None \<or> outdesc = None then fail None None s h
          else
            let (i, h1) = usb_alloc_pipe env usbdev indesc h; (out, h2) = usb_alloc_pipe env usbdev outdesc h1
            in if i = None \<or> out = None then fail i out s h2
               else
                 let (maxlun, h3) = usb_msc_maxlun env (the (ud_defpipe usbdev)) h2
                 in do {
                   (used, s1) \<leftarrow> msc_luns (usb_msc_lun_setup senv pci (the i) (the out) usbdev) (map of_nat [0..<maxlun + 1]) False s;
                   if \<not> used then fail i out s1 h3 else Some (0, s1, h3)
                 }
        })"

section \<open>USB attached SCSI\<close>

definition UAS_UI_COMMAND :: u8 where "UAS_UI_COMMAND = 0x01"
definition UAS_UI_SENSE :: u8 where "UAS_UI_SENSE = 0x03"
definition UAS_UI_READ_READY :: u8 where "UAS_UI_READ_READY = 0x06"
definition UAS_UI_WRITE_READY :: u8 where "UAS_UI_WRITE_READY = 0x07"
definition UAS_PIPE_ID_COMMAND :: u8 where "UAS_PIPE_ID_COMMAND = 0x01"
definition UAS_PIPE_ID_STATUS :: u8 where "UAS_PIPE_ID_STATUS = 0x02"
definition UAS_PIPE_ID_DATA_IN :: u8 where "UAS_PIPE_ID_DATA_IN = 0x03"
definition UAS_PIPE_ID_DATA_OUT :: u8 where "UAS_PIPE_ID_DATA_OUT = 0x04"
definition sizeof_uas_ui :: nat where "sizeof_uas_ui = 34"

record uasdrive_s =
  uas_command :: usb_pipe
  uas_status :: usb_pipe
  uas_data_in :: usb_pipe
  uas_data_out :: usb_pipe
  uas_lun :: u32

definition uas_command_ui :: "u32 \<Rightarrow> u8 list \<Rightarrow> u8 list" where
  "uas_command_ui lun cdb = [UAS_UI_COMMAND, 0, 0xad, 0xde, 0, 0, 0, 0, 0, ucast lun, 0, 0, 0, 0, 0, 0] @ cdb"

text \<open>A status of the device, in memory that was set to \<open>0xff\<close>: its identification, and the status of a sense.\<close>

definition uas_status_in :: "'h usb_env \<Rightarrow> bool \<Rightarrow> uasdrive_s \<Rightarrow> 'h \<Rightarrow> int \<times> u8 \<times> u8 \<times> 'h" where
  "uas_status_in env modeseg ud h =
     (let (ret, bs, h1) = bulk_in env modeseg (uas_status ud) sizeof_uas_ui h; ui = received bs (\<lambda>_. 0xff)
      in (ret, ui 0, ui 6, h1))"

definition uas_sense :: "u8 \<Rightarrow> int" where
  "uas_sense sts = (if sts = 0 then uint DISK_RET_SUCCESS else uint DISK_RET_EBADTRACK)"

text \<open>After the data: the last status must be a sense.\<close>

definition uas_end :: "'h usb_env \<Rightarrow> bool \<Rightarrow> uasdrive_s \<Rightarrow> 'h \<Rightarrow> int \<times> 'h" where
  "uas_end env modeseg ud h =
     (let (ret, ident, sts, h1) = uas_status_in env modeseg ud h
      in (if ret \<noteq> 0 \<or> ident \<noteq> UAS_UI_SENSE then uint DISK_RET_EBADTRACK else uas_sense sts, h1))"

definition uas_process_op ::
    "'h usb_env \<Rightarrow> bool \<Rightarrow> u32 \<Rightarrow> uasdrive_s \<Rightarrow> drive_s \<Rightarrow> disk_op_s \<Rightarrow> mem \<times> 'h \<Rightarrow> int \<times> mem \<times> 'h" where
  "uas_process_op env modeseg sp ud drive opn = (\<lambda>(m, h).
     let (blocksize, m1) = scsi_fill_cmd modeseg drive opn sp 16 m; bad = uint DISK_RET_EBADTRACK
     in if blocksize < 0 then (uint (default_process_op opn), m, h)
        else
          let (ret, h1) = bulk_out env modeseg (uas_command ud) (uas_command_ui (uas_lun ud) (mem_read m1 sp 16)) h
          in if ret \<noteq> 0 then (bad, m, h1)
             else
               let (ret, ident, sts, h2) = uas_status_in env modeseg ud h1; n = nat (blocksize * int (unat (op_count opn)))
               in if ret \<noteq> 0 then (bad, m, h2)
                  else if ident = UAS_UI_SENSE then (uas_sense sts, m, h2)
                  else if ident = UAS_UI_READ_READY then
                    let (ret, bs, h3) = bulk_in env modeseg (uas_data_in ud) n h2; m2 = mem_write (buf_fl opn) bs m
                    in if ret \<noteq> 0 then (bad, m2, h3) else let (r, h4) = uas_end env modeseg ud h3 in (r, m2, h4)
                  else if ident = UAS_UI_WRITE_READY then
                    let (ret, h3) = bulk_out env modeseg (uas_data_out ud) (mem_read m (buf_fl opn) n) h2
                    in if ret \<noteq> 0 then (bad, m, h3) else let (r, h4) = uas_end env modeseg ud h3 in (r, m, h4)
                  else (bad, m, h2))"

definition sizeof_uasdrive :: u32 where "sizeof_uasdrive = 72"

definition uas_add_lun ::
    "setup_env \<Rightarrow> pci_device \<Rightarrow> usbdevice_s \<Rightarrow> uasdrive_s \<Rightarrow> u32 \<Rightarrow> uasdrive_s lun_table \<Rightarrow> (int \<times> uasdrive_s lun_table) option" where
  "uas_add_lun senv pci usbdev tmpl lun =
     lun_drive_setup senv pci usbdev ''USB UAS'' (if usb_32bit_pipe (uas_data_in tmpl) then DTYPE_UAS_32 else DTYPE_UAS) sizeof_uasdrive
       (tmpl\<lparr>uas_lun := lun\<rparr>) lun"

text \<open>The four pipes that the loop over the descriptors finds.\<close>

record uas_pipes =
  up_command :: "usb_pipe option"
  up_status :: "usb_pipe option"
  up_data_in :: "usb_pipe option"
  up_data_out :: "usb_pipe option"

text \<open>The loop over the descriptors, which looks at each one that follows: its result is \<open>False\<close> for a failure.\<close>

partial_function (option) uas_find_pipes ::
    "'h usb_env \<Rightarrow> usbdevice_s \<Rightarrow> nat \<Rightarrow> usb_endpoint_descriptor option \<Rightarrow> uas_pipes \<Rightarrow> 'h \<Rightarrow> (bool \<times> uas_pipes \<times> 'h) option" where
  "uas_find_pipes env usbdev desc ep ps h =
     (let c = ud_config usbdev; d = desc + unat (c desc); ty = c (d + 1)
      in if ty = USB_DT_ENDPOINT then uas_find_pipes env usbdev d (Some (endpoint_at c d)) ps h
         else if ty = USB_DT_ENDPOINT_COMPANION then Some (False, ps, h)
         else if ty = 0x24 then
           let pid = c (d + 2); (p, h1) = usb_alloc_pipe env usbdev ep h
           in if pid = UAS_PIPE_ID_COMMAND then uas_find_pipes env usbdev d ep (ps\<lparr>up_command := p\<rparr>) h1
              else if pid = UAS_PIPE_ID_STATUS then uas_find_pipes env usbdev d ep (ps\<lparr>up_status := p\<rparr>) h1
              else if pid = UAS_PIPE_ID_DATA_IN then uas_find_pipes env usbdev d ep (ps\<lparr>up_data_in := p\<rparr>) h1
              else if pid = UAS_PIPE_ID_DATA_OUT then uas_find_pipes env usbdev d ep (ps\<lparr>up_data_out := p\<rparr>) h1
              else Some (False, ps, h)
         else Some (True, ps, h))"

definition no_pipes :: uas_pipes where
  "no_pipes = \<lparr>up_command = None, up_status = None, up_data_in = None, up_data_out = None\<rparr>"

definition free_uas_pipes :: "'h usb_env \<Rightarrow> usbdevice_s \<Rightarrow> uas_pipes \<Rightarrow> 'h \<Rightarrow> 'h" where
  "free_uas_pipes env usbdev ps h =
     usb_free_pipe env usbdev (up_data_out ps) (usb_free_pipe env usbdev (up_data_in ps)
       (usb_free_pipe env usbdev (up_status ps) (usb_free_pipe env usbdev (up_command ps) h)))"

text \<open>The set-up; \<open>scan\<close> is \<open>scsi_rep_luns_scan\<close> with the callback \<open>uas_add_lun\<close>, given the template of the drives.\<close>

definition usb_uas_setup ::
    "'h usb_env \<Rightarrow> (uasdrive_s \<Rightarrow> 's \<Rightarrow> (int \<times> 's) option) \<Rightarrow> usbdevice_s \<Rightarrow> 's \<times> 'h \<Rightarrow> (int \<times> 's \<times> 'h) option" where
  "usb_uas_setup env scan usbdev = (\<lambda>(s, h).
     let c = ud_config usbdev
     in if bInterfaceSubClass c (ud_iface usbdev) \<noteq> US_SC_SCSI \<or> bInterfaceProtocol c (ud_iface usbdev) \<noteq> US_PR_UAS then Some (-1, s, h)
        else do {
          (ok, ps, h1) \<leftarrow> uas_find_pipes env usbdev (ud_iface usbdev) None no_pipes h;
          (case (up_command ps, up_status ps, up_data_in ps, up_data_out ps) of
             (Some cp, Some sp, Some ip, Some op) \<Rightarrow>
               if \<not> ok then Some (-1, s, free_uas_pipes env usbdev ps h1)
               else do {
                 (ret, s1) \<leftarrow> scan \<lparr>uas_command = cp, uas_status = sp, uas_data_in = ip, uas_data_out = op, uas_lun = 0\<rparr> s;
                 if ret \<le> 0 then Some (-1, s1, free_uas_pipes env usbdev ps h1) else Some (0, s1, h1)
               }
           | _ \<Rightarrow> Some (-1, s, free_uas_pipes env usbdev ps h1))
        })"

section \<open>A disk behind the transport\<close>

text \<open>A device with disks of 512-byte blocks, one for each logical unit, that follows the bulk-only protocol: it takes a wrapper
  with a command to read or write on its bulk-out endpoint, transfers the data in the direction of the wrapper on the endpoint
  for that direction, and sends a status on its bulk-in endpoint.\<close>

datatype msc_phase = MscIdle | MscSend "u8 list" | MscReceive nat nat nat | MscStatus | MscHalted

record msc_disk =
  md_maxlun :: nat
  md_blocks :: "nat \<Rightarrow> nat \<Rightarrow> u8 list"
  md_phase :: msc_phase

definition disk_data :: "(nat \<Rightarrow> u8 list) \<Rightarrow> nat \<Rightarrow> nat \<Rightarrow> u8 list" where
  "disk_data blocks l n = concat (map blocks [l..<l + n])"

definition disk_store :: "nat \<Rightarrow> u8 list \<Rightarrow> (nat \<Rightarrow> u8 list) \<Rightarrow> nat \<Rightarrow> u8 list" where
  "disk_store l bs blocks = (\<lambda>i. if l \<le> i \<and> 512 * (i - l) + 512 \<le> length bs then take 512 (drop (512 * (i - l)) bs) else blocks i)"

definition msc_command :: "u8 list \<Rightarrow> msc_disk \<Rightarrow> msc_phase" where
  "msc_command cbw d =
     (let l = unat (le_word (rev (take 4 (drop 17 cbw))) :: u32); n = unat (le_word (rev (take 2 (drop 22 cbw))) :: u16);
          len = unat (le_word (take 4 (drop 8 cbw)) :: u32); lun = unat (cbw ! 13)
      in if length cbw \<noteq> 31 \<or> take 4 cbw \<noteq> [0x55, 0x53, 0x42, 0x43] \<or> lun > md_maxlun d \<or> len \<noteq> 512 * n \<or> n = 0 then MscHalted
         else if cbw ! 15 = 0x28 \<and> cbw ! 12 = 0x80 then MscSend (disk_data (md_blocks d lun) l n)
         else if cbw ! 15 = 0x2a \<and> cbw ! 12 = 0 then MscReceive lun l n
         else MscHalted)"

definition msc_answer :: "u8 \<Rightarrow> u8 list \<Rightarrow> nat \<Rightarrow> msc_disk \<Rightarrow> int \<times> u8 list \<times> msc_disk" where
  "msc_answer dir data n d =
     (case md_phase d of
        MscIdle \<Rightarrow> if dir = USB_DIR_OUT then (0, [], d\<lparr>md_phase := msc_command data d\<rparr>) else (-1, [], d)
      | MscSend bs \<Rightarrow> if dir = USB_DIR_IN \<and> n = length bs then (0, bs, d\<lparr>md_phase := MscStatus\<rparr>) else (-1, [], d)
      | MscReceive lun l k \<Rightarrow>
          if dir = USB_DIR_OUT \<and> length data = 512 * k
          then (0, [], d\<lparr>md_phase := MscStatus, md_blocks := (md_blocks d)(lun := disk_store l data (md_blocks d lun))\<rparr>) else (-1, [], d)
      | MscStatus \<Rightarrow>
          if dir = USB_DIR_IN \<and> n = 13 then (0, [0x55, 0x53, 0x42, 0x53, 0xe7, 3, 0, 0, 0, 0, 0, 0, 0], d\<lparr>md_phase := MscIdle\<rparr>) else (-1, [], d)
      | MscHalted \<Rightarrow> (-1, [], d))"

text \<open>The controller hands transfers to its bulk endpoints, each in its own direction, on to it; nothing answers a
  transfer to another address or endpoint or in the wrong direction.\<close>

definition msc_attached :: "u8 \<Rightarrow> u8 \<Rightarrow> u8 \<Rightarrow> msc_disk usb_env \<Rightarrow> bool" where
  "msc_attached addr epin epout env \<longleftrightarrow>
     (\<forall>k p dir data n d. hc_send_pipe env k p dir None data n d =
        (if up_devaddr p = addr \<and> (dir = USB_DIR_OUT \<and> up_ep p = epout \<or> dir = USB_DIR_IN \<and> up_ep p = epin)
         then msc_answer dir data n d else (-1, [], d)))"

text \<open>The 12 bytes of a command to read or write.\<close>

lemma rw_block12:
  assumes "command opn = CMD_READ \<or> command opn = CMD_WRITE"
  shows "fst (scsi_fill_cmd mode d opn cdb 12 m) = uint (blksize d)"
    and "mem_read (snd (scsi_fill_cmd mode d opn cdb 12 m)) cdb 12 =
      take 12 (rw_block (if command opn = CMD_READ then CDB_CMD_READ_10 else CDB_CMD_WRITE_10) (ucast (lba opn)) (op_count opn))"
proof -
  show "fst (scsi_fill_cmd mode d opn cdb 12 m) = uint (blksize d)" using assms by (simp add: scsi_fill_cmd_def Let_def)
  have "snd (scsi_fill_cmd mode d opn cdb 12 m) (cdb + of_nat i) = snd (scsi_fill_cmd mode d opn cdb 16 m) (cdb + of_nat i)" if "i < 12" for i
    using that assms by (simp add: scsi_fill_cmd_def Let_def set_mem_def mem_write_eq memset_eq unat_of_nat)
  then have "mem_read (snd (scsi_fill_cmd mode d opn cdb 12 m)) cdb 12 = take 12 (mem_read (snd (scsi_fill_cmd mode d opn cdb 16 m)) cdb 16)"
    by (intro nth_equalityI) simp_all
  then show "mem_read (snd (scsi_fill_cmd mode d opn cdb 12 m)) cdb 12 =
      take 12 (rw_block (if command opn = CMD_READ then CDB_CMD_READ_10 else CDB_CMD_WRITE_10) (ucast (lba opn)) (op_count opn))"
    using scsi_fill_cmd_block(2) [OF assms] by simp
qed

lemma list12: "take 12 (rw_block opc l n) = [opc, 0] @ be_bytes 4 l @ [0] @ be_bytes 2 n @ [0, 0, 0]"
  by (simp add: rw_block_def eval_nat_numeral)

lemma le_word_be: "le_word (rev (be_bytes 4 (l :: u32))) = l" "le_word (rev (be_bytes 2 (n :: u16))) = n" "le_word (le_bytes 4 (l :: u32)) = l"
  by (simp_all add: be_bytes_def le_word_bytes take_bit_word_eq_self)

lemma cbw_parts:
  fixes l len :: u32 and n :: u16
  assumes "cbw = cbw_bytes len dir lun (take 12 (rw_block opc l n))"
  shows "length cbw = 31" "take 4 cbw = [0x55, 0x53, 0x42, 0x43]" "take 4 (drop 8 cbw) = le_bytes 4 len" "cbw ! 12 = dir" "cbw ! 13 = lun" "cbw ! 15 = opc"
    "take 4 (drop 17 cbw) = be_bytes 4 l" "take 2 (drop 22 cbw) = be_bytes 2 n"
proof -
  obtain a0 a1 a2 a3 where a: "le_bytes 4 len = [a0, a1, a2, a3]" using list4 [of "le_bytes 4 len"] by auto
  obtain b0 b1 b2 b3 where b: "be_bytes 4 l = [b0, b1, b2, b3]" using list4 [of "be_bytes 4 l"] by auto
  obtain c0 c1 where c: "be_bytes 2 n = [c0, c1]" using list2 [of "be_bytes 2 n"] by auto
  have s: "le_bytes 4 CBW_SIGNATURE = [0x55, 0x53, 0x42, 0x43]" "le_bytes 4 (999 :: u32) = [0xe7, 3, 0, 0]" by code_simp+
  have t: "take 12 (rw_block opc l n) = [opc, 0, b0, b1, b2, b3, 0, c0, c1, 0, 0, 0]" by (simp add: list12 b c)
  have r: "replicate 4 (0 :: u8) = [0, 0, 0, 0]" by (simp add: eval_nat_numeral)
  have "cbw = [0x55, 0x53, 0x42, 0x43, 0xe7, 3, 0, 0, a0, a1, a2, a3, dir, lun, 12, opc, 0, b0, b1, b2, b3, 0, c0, c1, 0, 0, 0, 0, 0, 0, 0]"
    by (simp add: assms cbw_bytes_def t a s r USB_CDB_SIZE_def)
  then show "length cbw = 31" "take 4 cbw = [0x55, 0x53, 0x42, 0x43]" "take 4 (drop 8 cbw) = le_bytes 4 len" "cbw ! 12 = dir" "cbw ! 13 = lun" "cbw ! 15 = opc"
    "take 4 (drop 17 cbw) = be_bytes 4 l" "take 2 (drop 22 cbw) = be_bytes 2 n" by (simp_all add: a b c)
qed

lemma msc_command_rw:
  fixes l :: u32 and n :: u16
  assumes "cbw = cbw_bytes len dir lun (take 12 (rw_block opc l n))" "unat len = 512 * unat n" "0 < unat n" "unat lun \<le> md_maxlun d"
  shows "opc = 0x28 \<Longrightarrow> dir = 0x80 \<Longrightarrow> msc_command cbw d = MscSend (disk_data (md_blocks d (unat lun)) (unat l) (unat n))"
    "opc = 0x2a \<Longrightarrow> dir = 0 \<Longrightarrow> msc_command cbw d = MscReceive (unat lun) (unat l) (unat n)"
  using assms(2-4) by (simp_all add: msc_command_def cbw_parts [OF assms(1)] le_word_be Let_def)

lemma length_disk_data: "(\<And>i. length (blocks i) = 512) \<Longrightarrow> length (disk_data blocks l n) = 512 * n"
  by (induction n) (simp_all add: disk_data_def)

text \<open>
  C35. Through the bulk-only transport, a read of sectors puts the bytes of the drive's logical unit into memory at the buffer, and
  a write puts the bytes of the buffer onto that unit, in the place the operation names; nothing else in memory or on any unit changes, the
  operation succeeds with its count, and the device is ready for the next command. The pipes of the drive are those of the device's
  bulk endpoints, and the logical unit is one that the device has.
\<close>

theorem usb_msc_transfers:
  assumes "msc_attached addr epin epout env" "md_phase d = MscIdle" "\<forall>u i. length (md_blocks d u i) = 512"
    "up_devaddr (bulkin ud) = addr" "up_ep (bulkin ud) = epin" "up_devaddr (bulkout ud) = addr" "up_ep (bulkout ud) = epout"
    "unat (ms_lun ud) \<le> md_maxlun d" "md_maxlun d < 16"
    "\<not> modeseg \<or> \<not> usb_32bit_pipe (bulkin ud) \<and> \<not> usb_32bit_pipe (bulkout ud)"
    "blksize drive = 512" "unat (lba opn) < 2 ^ 32" "0 < unat (op_count opn)" "unat (op_count opn) \<le> 128"
  shows "(command opn = CMD_READ \<longrightarrow> usb_process_op env modeseg sp ud drive opn (m, d) =
      (0, op_count opn, mem_write (buf_fl opn) (disk_data (md_blocks d (unat (ms_lun ud))) (unat (lba opn)) (unat (op_count opn))) m, d)) \<and>
    (command opn = CMD_WRITE \<longrightarrow> usb_process_op env modeseg sp ud drive opn (m, d) =
      (0, op_count opn, m,
       d\<lparr>md_blocks := (md_blocks d)(unat (ms_lun ud) :=
          disk_store (unat (lba opn)) (mem_read m (buf_fl opn) (512 * unat (op_count opn))) (md_blocks d (unat (ms_lun ud))))\<rparr>))"
proof -
  let ?n = "op_count opn" and ?l = "ucast (lba opn) :: u32" and ?u = "unat (ms_lun ud)"
  define len where "len = (512 * ucast ?n :: u32)"
  define lun where "lun = (ucast (ms_lun ud) :: u8)"
  have len: "unat len = 512 * unat ?n" using assms(14) by (simp add: len_def unat_word_ariths unsigned_ucast_eq take_bit_nat_eq_self)
  then have nz: "len \<noteq> 0" using assms(13) by auto
  have l: "unat ?l = unat (lba opn)" using assms(12) by (simp add: unsigned_ucast_eq take_bit_nat_eq_self)
  have u: "unat lun = ?u" "unat lun \<le> md_maxlun d"
    using assms(8,9) by (simp_all add: lun_def unsigned_ucast_eq take_bit_nat_eq_self)
  have send: "usb_send_bulk env modeseg (msc_pipe ud dir) dir data k x = msc_answer dir data k x" if "dir \<in> {0, 0x80}" for dir data k x
    using assms(1,4-7,10) that by (auto simp: usb_send_bulk_def usb_send_pipe_def msc_attached_def msc_pipe_def usb_32bit_pipe_def
      controller_kind_def Let_def USB_TYPE_UHCI_def USB_TYPE_OHCI_def USB_TYPE_EHCI_def USB_TYPE_XHCI_def USB_DIR_IN_def USB_DIR_OUT_def)
  note ops = usb_process_op_def bulk_out_def bulk_in_def usb_msc_send_def send msc_answer_def scsi_is_read_def USB_CDB_SIZE_def sizeof_csw_def
    USB_DIR_IN_def USB_DIR_OUT_def DISK_RET_SUCCESS_def Let_def
  obtain m1 where m1: "command opn = CMD_READ \<or> command opn = CMD_WRITE \<Longrightarrow> scsi_fill_cmd modeseg drive opn sp 12 m = (512, m1)"
    using rw_block12(1) [of opn modeseg drive sp m] assms(11) by (cases "scsi_fill_cmd modeseg drive opn sp 12 m") auto
  note blk = rw_block12(2) [of opn modeseg drive sp m]
  show ?thesis
  proof (intro conjI impI)
    assume c: "command opn = CMD_READ"
    then have "mem_read m1 sp 12 = take 12 (rw_block CDB_CMD_READ_10 ?l ?n)" using blk m1 by simp
    then have "msc_command (cbw_bytes len 0x80 lun (mem_read m1 sp 12)) d = MscSend (disk_data (md_blocks d ?u) (unat (lba opn)) (unat ?n))"
      using msc_command_rw(1) [OF refl len assms(13) u(2), where dir = "0x80" and opc = "0x28" and l = ?l] by (simp add: CDB_CMD_READ_10_def l u(1))
    then show "usb_process_op env modeseg sp ud drive opn (m, d) =
        (0, ?n, mem_write (buf_fl opn) (disk_data (md_blocks d ?u) (unat (lba opn)) (unat ?n)) m, d)"
      using m1 c assms(2,3) nz len length_disk_data [of "md_blocks d ?u"] by (simp add: ops received_def flip: len_def lun_def)
  next
    assume c: "command opn = CMD_WRITE"
    then have "mem_read m1 sp 12 = take 12 (rw_block CDB_CMD_WRITE_10 ?l ?n)" using blk m1 by (simp add: CMD_READ_def CMD_WRITE_def)
    then have "msc_command (cbw_bytes len 0 lun (mem_read m1 sp 12)) d = MscReceive ?u (unat (lba opn)) (unat ?n)"
      using msc_command_rw(2) [OF refl len assms(13) u(2), where dir = 0 and opc = "0x2a" and l = ?l] by (simp add: CDB_CMD_WRITE_10_def l u(1))
    then show "usb_process_op env modeseg sp ud drive opn (m, d) =
        (0, ?n, m, d\<lparr>md_blocks := (md_blocks d)(?u := disk_store (unat (lba opn)) (mem_read m (buf_fl opn) (512 * unat ?n)) (md_blocks d ?u))\<rparr>)"
      using m1 c assms(2) nz len by (simp add: ops received_def CMD_READ_def CMD_WRITE_def CMD_SCSI_def flip: len_def lun_def)
  qed
qed

definition msc_sample_env :: "msc_disk usb_env" where
  "msc_sample_env =
     \<lparr>hc_realloc_pipe = (\<lambda>k dev p ep h. (p, h)),
      hc_send_pipe = (\<lambda>k p dir cmd data n h.
        if up_devaddr p = 1 \<and> (dir = 0 \<and> up_ep p = 2 \<or> dir = 0x80 \<and> up_ep p = 1) then msc_answer dir data n h else (-1, [], h)),
      hc_poll_intr = (\<lambda>k p h. (None, h)), ue_malloc = (\<lambda>n h. (True, h)), ue_heap = (\<lambda>h i. 0), ue_msleep = (\<lambda>n h. h),
      ue_timer_calc = (\<lambda>n h. (0, h)), ue_timer_check = (\<lambda>e h. (True, h))\<rparr>"

definition msc_sample_pipe :: "u32 \<Rightarrow> u8 \<Rightarrow> usb_pipe" where
  "msc_sample_pipe handle ep =
     \<lparr>up_handle = handle, up_type = USB_TYPE_UHCI, up_ep = ep, up_devaddr = 1, up_speed = 0, up_maxpacket = 64, up_eptype = 2\<rparr>"

text \<open>Two logical units, and a read of two sectors of the second.\<close>

theorem usb_msc_transfers_witness:
  "usb_process_op msc_sample_env True 0x7000 \<lparr>bulkin = msc_sample_pipe 0x2000 1, bulkout = msc_sample_pipe 0x2040 2, ms_lun = 1\<rparr>
     (drive_cleared\<lparr>blksize := 512\<rparr>) \<lparr>buf_fl = 0x7c00, drive_fl = 0, command = CMD_READ, op_count = 2, lba = 5\<rparr>
     (\<lambda>_. 0, \<lparr>md_maxlun = 1, md_blocks = (\<lambda>u i. replicate 512 (of_nat (16 * u + i))), md_phase = MscIdle\<rparr>) =
   (0, 2, mem_write 0x7c00 (replicate 512 21 @ replicate 512 22) (\<lambda>_. 0),
    \<lparr>md_maxlun = 1, md_blocks = (\<lambda>u i. replicate 512 (of_nat (16 * u + i))), md_phase = MscIdle\<rparr>)"
proof -
  let ?d = "\<lparr>md_maxlun = 1, md_blocks = (\<lambda>u i. replicate 512 (of_nat (16 * u + i))), md_phase = MscIdle\<rparr>"
  let ?ud = "\<lparr>bulkin = msc_sample_pipe 0x2000 1, bulkout = msc_sample_pipe 0x2040 2, ms_lun = 1\<rparr>"
  have "[5..<7 :: nat] = [5, 6]" by code_simp
  then have data: "disk_data (\<lambda>i. replicate 512 (16 + of_nat i)) 5 2 = replicate 512 21 @ replicate 512 22" by (simp add: disk_data_def)
  have at: "msc_attached 1 1 2 msc_sample_env" by (simp add: msc_attached_def msc_sample_env_def USB_DIR_IN_def USB_DIR_OUT_def)
  have p32: "\<not> usb_32bit_pipe (bulkin ?ud) \<and> \<not> usb_32bit_pipe (bulkout ?ud)"
    by (simp add: msc_sample_pipe_def usb_32bit_pipe_def USB_TYPE_UHCI_def USB_TYPE_XHCI_def USB_TYPE_OHCI_def)
  show ?thesis
    using usb_msc_transfers [OF at, where d = ?d and ud = ?ud and modeseg = True and drive = "drive_cleared\<lparr>blksize := 512\<rparr>" and sp = "0x7000" and m = "\<lambda>_. 0"
        and opn = "\<lparr>buf_fl = 0x7c00, drive_fl = 0, command = CMD_READ, op_count = 2, lba = 5\<rparr>"] p32 data
    by (simp add: msc_sample_pipe_def)
qed

end
