(* ===== verification/Spec2Isabelle.thy ===== *)
theory Spec2Isabelle
  imports OptionRomProps RomfileLoader DiskProps PciProps Sha1Props ClockProps Pmm SystemProps ScsiSetup SerialProps SerconInput VirtioRing PciBios FwTables VgaText UsbProps UsbHid UsbStorage
begin

text \<open>
  Verification development for SeaBIOS 1.13.0 as kept in this repository under
  \<open>src/bios/seabios-1.13.0/\<close>, the C program of the repository (the rest is scripts and data that start
  QEMU). File names below are relative to that directory.

  \<^bold>\<open>The program.\<close> SeaBIOS is the firmware that a virtual machine runs first. At power-on it builds a map of
  the memory (\<open>src/e820map.c\<close>), sets up its allocator in the free part of it (\<open>src/malloc.c\<close>), numbers and
  maps the PCI devices (\<open>src/fw/pciinit.c\<close>), reads named files from the hypervisor through the fw_cfg
  device (\<open>src/romfile.c\<close>, \<open>src/fw/paravirt.c\<close>), runs the script that loads and links the firmware tables
  (\<open>src/fw/romfile_loader.c\<close>), collects the boot devices in a priority list (\<open>src/boot.c\<close>) and tries them
  one after the other. Afterwards it stays resident and serves software interrupts: keyboard (\<open>src/kbd.c\<close>), disks
  (\<open>src/block.c\<close>, \<open>src/disk.c\<close>, \<open>src/cdrom.c\<close>), clocks (\<open>src/clock.c\<close>), system (\<open>src/system.c\<close>), serial and printer ports
  (\<open>src/serial.c\<close>), PCI (\<open>src/pcibios.c\<close>). The video interrupt is served by a program of its own, the VGA BIOS (\<open>vgasrc/\<close>),
  which the firmware runs as an option rom (\<open>src/optionroms.c\<close>).

  \<^bold>\<open>The theories\<close>, in the order in which they build on each other:

  \<^item> \<open>SB_Prelude\<close>: integer types, \<open>ALIGN\<close> and \<open>ALIGN_DOWN\<close> of \<open>src/types.h\<close>, the sorted insertion into an
    \<open>hlist\<close> of \<open>src/list.h\<close> with its contract (locale \<open>sorted_hlist\<close>), little-endian memory, and the
    collections \<open>word_nat\<close> and \<open>mem_rw\<close>.
  \<^item> \<open>E820map\<close>: the list of typed ranges; \<open>e820_add\<close> is the two loops of the source as functions on the
    list. It changes the type of the added range only, keeps the map sorted, disjoint and merged, and never
    exceeds the array. The locale \<open>typed_ranges\<close> states this as a contract and is interpreted on the code.
  \<^item> \<open>Malloc\<close>, \<open>MallocProps\<close>: the zones of the allocator as lists of ranges with the details that find
    them again. \<open>tracked_blocks\<close> are the blocks in use. Blocks are aligned, inside the zone and disjoint; freeing undoes allocating; every operation
    keeps the invariant \<open>mstate_ok\<close> (ranges sorted and tiled, every detail inside a permanent block).
  \<^item> \<open>Pmm\<close>: the services by which option roms allocate memory (\<open>src/pmm.c\<close>); what they hand out is free and disjoint, and they
    keep the allocator's invariant.
  \<^item> \<open>CString\<close>: the functions of \<open>src/string.c\<close> on byte memory, with loops that may not end as partial
    functions; they return on terminated strings, and \<open>memmove\<close> copies correctly for every overlap.
  \<^item> \<open>Bytes\<close>: ranges of memory as lists of bytes, and little-endian values; used by everything that builds or reads structures.
  \<^item> \<open>Romfile\<close>: the list of files (locale \<open>named_store\<close>) and the code that talks to the fw_cfg device: the description of a transfer in
    memory, the port that starts it, the wait for its end, and the reads from the data port. The device is a parameter (\<open>cfg_ops\<close>); that it follows
    its documentation is \<open>fw_cfg_device\<close>, and \<open>slow_cfg\<close> is such a device. All paths deliver the bytes of the item; integers survive being
    stored and loaded. A wait that does not end sets \<open>cfg_hung\<close>.
  \<^item> \<open>RomfileLoader\<close>: the commands of the table loader on memory: checksums end up zero, pointers are
    patched in place, and a whole run keeps the allocator's invariant and does not store behind the array of files: \<open>l_space\<close> is the memory
    allocated for it, and a store outside sets \<open>l_overrun\<close>.
  \<^item> \<open>Output\<close>: \<open>bvprintf\<close> with its conversions, \<open>snprintf\<close>, numbers.
  \<^item> \<open>Boot\<close>, \<open>BootProps\<close>: device paths, the glob match of the boot order file against a declarative
    pattern semantics, the sorted list of boot entries (interpretation of \<open>sorted_hlist\<close>), the table of boot
    methods and the sequence of attempts. The order of the list is that of \<open>boot_rank\<close>, a list of numbers; \<open>entry_attempt\<close> says what the attempt
    of an entry is meant to be, and the sequence is that of the entries.
  \<^item> \<open>Bregs\<close>, \<open>FarMem\<close>, \<open>FarCopy\<close>: the register frame of the interrupt services, and the memory they read, write, copy and fill
    by segment and offset, shared by all services.
  \<^item> \<open>Keyboard\<close>, \<open>KeyboardProps\<close>: scancodes, modifier flags, the circular key buffer and the services
    of interrupt 0x16. The buffer refines a bounded list (locale \<open>bounded_queue\<close>).
  \<^item> \<open>Block\<close>, \<open>Disk\<close>, \<open>DiskProps\<close>: drives, logical geometries, drive tables and parameters, and the
    services of interrupt 0x13. Geometries fit the drive, accesses stay inside it, parameters stay inside
    the caller's buffer, media locks count.
  \<^item> \<open>Mouse\<close>, \<open>System\<close>, \<open>SystemProps\<close>: the mouse services and their packets (\<open>src/mouse.c\<close>), the memory sizes, the walk over the memory map and
    the copy of extended memory (\<open>src/system.c\<close>, \<open>src/apm.c\<close>). A whole packet reaches the handler, the walk gets the whole map
    and ends, the copy moves exactly the words asked for.
  \<^item> \<open>ByteOrder\<close>, \<open>Blockcmd\<close>, \<open>BlockcmdProps\<close>, \<open>ScsiSetup\<close>: SCSI command blocks (\<open>src/hw/blockcmd.c\<close>), the disk operations as commands, the wait until a
    drive is ready, its capacity, the list of its units. A command carries exactly the blocks that were asked for.
  \<^item> \<open>Cdrom\<close>, \<open>CdromProps\<close>: the drive that a bootable CD emulates (\<open>src/cdrom.c\<close>): it delivers the bytes of the image.
  \<^item> \<open>PortIO\<close>, \<open>Serial\<close>, \<open>SerialProps\<close>: ports of devices, the serial and printer services; their waits end.
  \<^item> \<open>Cp437\<close>, \<open>Sercon\<close>, \<open>SerconProps\<close>, \<open>SerconInput\<close>: the console on a serial port (\<open>src/sercon.c\<close>, \<open>src/cp437.c\<close>). What a terminal shows is
    what was written; keys typed there arrive in the key buffer in order.
  \<^item> \<open>Timer\<close>, \<open>Clock\<close>, \<open>ClockProps\<close>: the counters behind every timeout (\<open>src/hw/timer.c\<close>), the tick counter,
    the time services of interrupt 0x1a and the waits of interrupt 0x15. Timeouts fire exactly when their time
    is over however the counters come round, the tick counter counts days, waits end, what is set is read.
  \<^item> \<open>Sha1\<close>, \<open>Sha1Props\<close>: the digest of \<open>src/sha1.c\<close>, on memory; it is the one of FIPS 180 for every
    message below 512 MB.
  \<^item> \<open>Pci\<close>, \<open>PciInit\<close>, \<open>PciMap\<close>, \<open>PciSetup\<close>, \<open>PciProps\<close>: configuration space, the scan of a bus, bus
    numbering, sizing of the devices, region lists (interpretation of \<open>sorted_hlist\<close>), windows and
    addresses, the set-up of each device and \<open>pci_setup\<close>. Region lists are sorted and aligned, the root
    windows lie inside the PCI hole, addresses are aligned and do not overlap, scans end.
  \<^item> \<open>PciBios\<close>: the searches and accesses of interrupt 0x1a function 0xb1 and the plug and play entry (\<open>src/pnpbios.c\<close>). A search for the
    n-th device finds it.
  \<^item> \<open>OptionRom\<close>, \<open>OptionRomProps\<close>: the roms of files and cards are copied, checked, run and registered. What runs is
    the valid image in the rom area; the registration ends exactly when the lists in the roms do.
  \<^item> \<open>BiosTables\<close>, \<open>X86\<close>, \<open>FwTables\<close>: the tables that the firmware accepts, copies and walks over (\<open>src/fw/biostables.c\<close>) and those it
    builds (\<open>src/fw/pirtable.c\<close>, \<open>src/fw/mptable.c\<close>). The multiprocessor table is written through pointers that move on, and its length
    and number of entries come from these pointers; a reader of the bytes finds the processors, buses and interrupts of \<open>mp_table_spec\<close>, with a checksum of
    zero, and nothing is written outside the 32 KB buffer.
  \<^item> \<open>VirtioRing\<close>: the queue shared with the hypervisor (\<open>src/hw/virtio-ring.c\<close>), against the contract of a queue.
  \<^item> \<open>Usb\<close>, \<open>UsbHub\<close>, \<open>UsbProps\<close>, \<open>UsbHid\<close>, \<open>UsbStorage\<close>: USB above the host controllers: set-up of devices, hubs behind hubs, keyboards and mice,
    mass storage. Enumeration ends with an address for each device, a keyboard's reports become presses and releases,
    a disk operation transfers its data over the bulk-only transport and attached SCSI. The mass storage device answers on two endpoints, each in
    its own direction, and has several logical units (\<open>msc_attached\<close>).
  \<^item> \<open>Vga\<close>, \<open>VgaFb\<close>, \<open>VgaBios\<close>, \<open>VgaInt10\<close>, \<open>VgaText\<close>: the VGA BIOS: registers (\<open>stdvgaio.c\<close>, \<open>stdvga.c\<close>), pixels and characters in all layouts of the
    framebuffer (\<open>vgafb.c\<close>), modes, cursor and the dispatch of interrupt 0x10 (\<open>vgabios.c\<close>, \<open>swcursor.c\<close>). The attribute controller is
    accessed as it has to be, and text that is written in a text mode appears as on a terminal, scrolling
    included (\<open>shows_tty\<close> relates the screen memory to the abstract terminal \<open>tty_put\<close>).

  \<^bold>\<open>How code is modelled.\<close> Structures are records, enumerations datatypes, integers words of their width
  (\<open>int\<close> and \<open>nat\<close> where the C type is \<open>int\<close> and the values are counts). State is passed explicitly: byte
  memory is a function on 32-bit addresses; linked lists are lists of their entries; pointers to nodes are
  kept where the code compares or stores them. A null pointer is 0 or \<open>None\<close>. Error codes are values. What
  the program reads from outside is a parameter: the PCI configuration space (\<open>pci_ops\<close>), the disk driver
  (\<open>disk_env\<close>), the keyboard controller, the fw_cfg device, the boot sector, the code of option roms, USB
  transfers, SCSI targets, ports of devices (a function of the accesses so far), the card behind the VGA BIOS.
  The hypotheses on parameters are stated where they are used: a disk driver transfers no more than it was
  asked for, BAR registers report powers of two (\<open>bars_pow2\<close>), the fw_cfg device follows its documentation (\<open>fw_cfg_device\<close>).

  \<^bold>\<open>Fuel and bounds.\<close> Loops are structural recursions or have a termination proof. A loop that may not end
  is a \<open>partial_function\<close>, and theorems prove that it returns where the code can be relied on
  (\<open>glob_prefix\<close>, \<open>strlen\<close>, \<open>dma_wait\<close>); \<open>reserve_cap_loop\<close> really may not. Fuel appears where the code bounds a loop
  indirectly: \<open>pci_next\<close> and \<open>foreachbdf\<close> have 257 for the 256 functions of a bus (\<open>each_bdf_ends\<close> proves it
  enough), \<open>find_cap_loop\<close> the 256 of its own counter, \<open>probe_buses\<close> the 256 buses, \<open>boot_run\<close> the length of
  the boot table (\<open>boot_sequence_in_order\<close> proves it enough), the recursion over bridges the depth \<open>n\<close> given
  by the caller, at most 256 bus numbers. \<open>find_bdf\<close> has 257 for a bus, and \<open>usb_drivers\<close> the depth 127, because each hub
  takes one of 127 addresses. Waits for a device (\<open>ready_loop\<close>, \<open>detect_loop\<close>, \<open>reset_loop\<close>, \<open>poll_port\<close>) run over the readings of the
  clock, and theorems prove that they end because time passes. The walks over data of a device or a rom
  (\<open>find_image\<close>, \<open>pnp_loop\<close>, \<open>chain_end\<close>, \<open>find_desc_loop\<close>, \<open>luns_fetch\<close>, \<open>acpi_table_loop\<close>, \<open>has_type_0\<close>) are partial functions,
  with theorems on when they return.

  \<^bold>\<open>What modelling showed.\<close> \<open>memmove\<close> returns the wrong pointer when it copies downwards (\<open>memmove_return\<close>);
  a small bus reservation closes a bridge below the buses behind it (\<open>reserved_bus_loses_buses\<close>); the search
  for the reservation can loop forever (\<open>reserve_cap_cycle\<close>); a reserved I/O size is not rounded
  (\<open>io_reserve_unaligned\<close>); the geometry service reports 1023 cylinders for a drive with one;
  the tick count of a time after 21:50 wraps (\<open>ticks_from_ms_wraps\<close>); readings of the interval timer, which counts
  down, are taken for readings of a counter that counts up (\<open>pit_reading_jumps\<close>); the size of a PMM request wraps
  (\<open>pmm_size_wraps\<close>), and so do the size of a list of SCSI units (\<open>report_luns_wraps\<close>) and the length of the SMBIOS tables
  (\<open>smbios_length_wraps\<close>); a line feed in the last row of the serial console does not scroll (\<open>lf_bottom_no_scroll\<close>), and F11 and F12 of the
  terminal are taken for other keys (\<open>terminal_f11_is_shift_f4\<close>); data of a rom or a device can stop the start-up (\<open>pnp_cycle_hangs\<close>,
  \<open>image_zero_hangs\<close>, \<open>find_desc_hangs\<close>), and so can a shortage of memory (\<open>enumerate_no_memory_hangs\<close>); a mode set always clears the screen
  (\<open>handle_1000_always_clears\<close>), and a font of height zero is a divide error (\<open>handle_1011_divide_error\<close>).

  \<^bold>\<open>Not modelled.\<close> Drivers of disk controllers, USB host controllers, the floppy, PS/2 and parallel hardware, and the TPM, whose logic is the
  order of register accesses and of structures shared with the device; they are parameters of the services above them. ACPI and SMBIOS tables
  of fixed layout that are filled in once, in place of QEMU's (\<open>src/fw/acpi.c\<close>, \<open>src/fw/smbios.c\<close>). Start-up on other platforms (coreboot, UEFI,
  Xen). The set-up of processors and chipset, system management mode, assembly glue, context switches and
  interrupt acknowledgement. Image decoding of the boot splash. Debug output of each component (the formatting itself is modelled). In the
  VGA BIOS the tables of modes and fonts, the VESA functions, the drivers of particular cards. \<open>scripts/kconfig/\<close> is the configuration tool of the
  Linux kernel, third-party code.
\<close>

end
